(* ===== verification/Prelude.thy ===== *)
theory Prelude
  imports Main "HOL-Library.Word" "HOL-Library.Monad_Syntax"
begin

text \<open>
  Shared vocabulary of the development: the machine integers of \<^verbatim>\<open>lmdb/mdb.c\<close> and
  \<^verbatim>\<open>lmdb/midl.c\<close>, bounds-checked access to C arrays, and the binary search that
  \<^verbatim>\<open>midl.c\<close> writes out three times.

  Conventions. A C function whose execution can go wrong (an access outside an array, a failed
  \<^verbatim>\<open>mdb_cassert\<close>, which aborts) has an \<^theory_text>\<open>option\<close> result: \<open>None\<close> is "no
  defined result", so that a theorem \<open>f x = Some y\<close> also says that the run stays in bounds
  and passes its assertions. \<open>do\<close> blocks are those of the option type.
\<close>

section \<open>Collections of rewrite rules\<close>

named_theorems mem_simps \<open>reads after writes in byte memories and arrays\<close>
named_theorems word_nat \<open>moving bounded word arithmetic to the natural numbers\<close>

section \<open>Machine integers\<close>

type_synonym u8 = "8 word"
type_synonym u16 = "16 word"
type_synonym u32 = "32 word"
type_synonym u64 = "64 word"

text \<open>Conversion of a non-negative C value to \<^verbatim>\<open>unsigned\<close> (32 bits).\<close>

definition u32 :: "nat \<Rightarrow> nat" where
  "u32 x = x mod 2 ^ 32"

lemma u32_id [simp]: "x < 2 ^ 32 \<Longrightarrow> u32 x = x"
  by (simp add: u32_def)

lemma u32_le: "u32 x \<le> x"
  by (simp add: u32_def)

lemma u32_less: "u32 x < 2 ^ 32"
  by (simp add: u32_def)

lemma unat_of_nat_small [word_nat]:
  "n < 2 ^ LENGTH('a::len) \<Longrightarrow> unat (of_nat n :: 'a word) = n"
  by (simp add: unat_of_nat)

lemma unat_add_small [word_nat]:
  "unat a + unat b < 2 ^ LENGTH('a::len) \<Longrightarrow> unat (a + b :: 'a word) = unat a + unat b"
  by (simp add: unat_add_lem)

lemma unat_sub_small [word_nat]:
  "unat b \<le> unat (a :: 'a::len word) \<Longrightarrow> unat (a - b) = unat a - unat b"
  by (simp add: unat_sub word_le_nat_alt)

lemma unat_ucast_up [word_nat]:
  "LENGTH('a::len) \<le> LENGTH('b::len) \<Longrightarrow> unat (ucast (w :: 'a word) :: 'b word) = unat w"
  by (simp add: unsigned_ucast_eq take_bit_nat_eq_self order_less_le_trans [OF unsigned_less])

lemma unat_le_or: "unat (x :: 'a::len word) \<le> unat (or x y)"
  using le_word_or2 word_le_nat_alt by blast

text \<open>\<^verbatim>\<open>#define CMP(x,y) ((x) < (y) ? -1 : (x) > (y))\<close>\<close>

definition CMP :: "'a::linorder \<Rightarrow> 'a \<Rightarrow> int" where
  "CMP x y = (if x < y then -1 else if x > y then 1 else 0)"

lemma CMP_less_0 [simp]: "CMP x y < 0 \<longleftrightarrow> x < y"
  by (auto simp: CMP_def)

lemma CMP_gr_0 [simp]: "0 < CMP x y \<longleftrightarrow> y < x"
  by (auto simp: CMP_def)

lemma CMP_eq_0 [simp]: "CMP x y = 0 \<longleftrightarrow> x = y"
  by (auto simp: CMP_def)

section \<open>Checked access to a C array\<close>

definition rd :: "'a list \<Rightarrow> nat \<Rightarrow> 'a option" where
  "rd xs i = (if i < length xs then Some (xs ! i) else None)"

definition wr :: "'a list \<Rightarrow> nat \<Rightarrow> 'a \<Rightarrow> 'a list option" where
  "wr xs i v = (if i < length xs then Some (xs[i := v]) else None)"

lemma rd_Some [simp]: "i < length xs \<Longrightarrow> rd xs i = Some (xs ! i)"
  by (simp add: rd_def)

lemma rd_None [simp]: "\<not> i < length xs \<Longrightarrow> rd xs i = None"
  by (simp add: rd_def)

lemma wr_Some [simp]: "i < length xs \<Longrightarrow> wr xs i v = Some (xs[i := v])"
  by (simp add: wr_def)

lemma wr_None [simp]: "\<not> i < length xs \<Longrightarrow> wr xs i v = None"
  by (simp add: wr_def)

lemma rd_SomeD: "rd xs i = Some v \<Longrightarrow> i < length xs \<and> v = xs ! i"
  by (auto simp: rd_def split: if_splits)

lemma wr_SomeD: "wr xs i v = Some ys \<Longrightarrow> i < length xs \<and> ys = xs[i := v]"
  by (auto simp: wr_def split: if_splits)

section \<open>Lists\<close>

lemma sorted_wrt_nth_le:
  assumes "sorted_wrt P xs" "\<And>x. P x x" "i \<le> j" "j < length xs"
  shows "P (xs ! i) (xs ! j)"
  using assms by (cases "i = j") (auto simp: sorted_wrt_iff_nth_less)

lemma take_eq_nthI:
  assumes "n \<le> length xs" "n \<le> length ys" "\<And>i. i < n \<Longrightarrow> xs ! i = ys ! i"
  shows "take n xs = take n ys"
proof (rule nth_equalityI)
  show "length (take n xs) = length (take n ys)" using assms(1,2) by simp
next
  fix i assume "i < length (take n xs)"
  then show "take n xs ! i = take n ys ! i" using assms(3) by simp
qed

lemma drop_eq_nthI:
  assumes "length xs = length ys" "\<And>i. n \<le> i \<Longrightarrow> i < length ys \<Longrightarrow> xs ! i = ys ! i"
  shows "drop n xs = drop n ys"
  using assms by (intro nth_equalityI) auto

lemma drop_update_pred:
  assumes "0 < k" "k \<le> length xs"
  shows "drop (k - 1) (xs[k - 1 := v]) = v # drop k xs"
proof -
  have "drop (k - 1) (xs[k - 1 := v]) = (xs[k - 1 := v]) ! (k - 1) # drop (Suc (k - 1)) (xs[k - 1 := v])"
    using assms by (intro Cons_nth_drop_Suc [symmetric]) simp
  then show ?thesis using assms by simp
qed

section \<open>Binary search\<close>

text \<open>
  The loop of \<^verbatim>\<open>mdb_midl_search\<close>, \<^verbatim>\<open>mdb_mid2l_search\<close> and
  \<^verbatim>\<open>mdb_mid3l_search\<close>, which differ only in the comparison of the element at
  \<open>cursor\<close> with the key. The locals are \<^verbatim>\<open>base\<close>, \<^verbatim>\<open>cursor\<close>, \<^verbatim>\<open>val\<close>
  and \<^verbatim>\<open>n\<close> of the source; \<open>cmp c\<close> is the comparison at index \<open>c\<close>.
\<close>

function bsearch_loop :: "(nat \<Rightarrow> int option) \<Rightarrow> nat \<Rightarrow> nat \<Rightarrow> int \<Rightarrow> nat \<Rightarrow> nat option" where
  "bsearch_loop cmp base cursor val n =
     (if 0 < n then
        (let pivot = n div 2; cursor' = u32 (base + pivot + 1) in
         case cmp cursor' of
           None \<Rightarrow> None
         | Some val' \<Rightarrow>
             if val' < 0 then bsearch_loop cmp base cursor' val' pivot
             else if val' > 0 then bsearch_loop cmp cursor' cursor' val' (n - (pivot + 1))
             else Some cursor')
      else if val > 0 then Some (u32 (cursor + 1)) else Some cursor)"
  by pat_completeness auto
termination
  by (relation "measure (\<lambda>(cmp, base, cursor, val, n). n)") auto

declare bsearch_loop.simps [simp del]

text \<open>
  Where the search may stop: at a slot that compares equal, or at the first slot of the negative
  part when every slot before it is positive. Slots are numbered from 1.
\<close>

definition found_at :: "(nat \<Rightarrow> int) \<Rightarrow> nat \<Rightarrow> nat \<Rightarrow> bool" where
  "found_at f len r \<longleftrightarrow> 1 \<le> r \<and> r \<le> len + 1 \<and>
     ((r \<le> len \<and> f r = 0) \<or>
      ((\<forall>i. 1 \<le> i \<longrightarrow> i < r \<longrightarrow> 0 < f i) \<and> (\<forall>i. r \<le> i \<longrightarrow> i \<le> len \<longrightarrow> f i < 0)))"

text \<open>
  What the three callers rely on: for a list \<open>l\<close> in order, the comparisons of the key \<open>x\<close> with
  the slots \<open>1..num l\<close> are defined and run from positive over zero to negative.
\<close>

locale id_search =
  fixes cmp_at :: "'l \<Rightarrow> 'k \<Rightarrow> nat \<Rightarrow> int option"
    and f :: "'l \<Rightarrow> 'k \<Rightarrow> nat \<Rightarrow> int"
    and num :: "'l \<Rightarrow> nat"
    and inv :: "'l \<Rightarrow> bool"
  assumes slot_defined: "inv l \<Longrightarrow> 1 \<le> c \<Longrightarrow> c \<le> num l \<Longrightarrow> cmp_at l x c = Some (f l x c)"
    and neg_up: "inv l \<Longrightarrow> 1 \<le> i \<Longrightarrow> i < j \<Longrightarrow> j \<le> num l \<Longrightarrow> f l x i < 0 \<Longrightarrow> f l x j < 0"
    and pos_down: "inv l \<Longrightarrow> 1 \<le> i \<Longrightarrow> i < j \<Longrightarrow> j \<le> num l \<Longrightarrow> 0 < f l x j \<Longrightarrow> 0 < f l x i"
    and num_u32: "inv l \<Longrightarrow> num l < 2 ^ 32 - 1"
begin

lemma loop_correct:
  assumes "base + n \<le> num l"
    and "\<And>i. 1 \<le> i \<Longrightarrow> i \<le> base \<Longrightarrow> 0 < f l x i"
    and "\<And>i. base + n < i \<Longrightarrow> i \<le> num l \<Longrightarrow> f l x i < 0"
    and "n = 0 \<Longrightarrow> (0 < v \<and> cursor = base) \<or> (\<not> 0 < v \<and> cursor = base + 1)"
    and "inv l" and "cmp = cmp_at l x"
  shows "\<exists>r. bsearch_loop cmp base cursor v n = Some r \<and> found_at (f l x) (num l) r"
  using assms
proof (induction cmp base cursor v n rule: bsearch_loop.induct)
  case (1 cmp base cursor v n)
  note IH1 = "1.IH"(1) and IH2 = "1.IH"(2)
  show ?case
  proof (cases "0 < n")
    case False
    then show ?thesis
      using "1.prems" num_u32 [of l] by (subst bsearch_loop.simps) (auto simp: found_at_def)
  next
    case True
    define c where "c = base + n div 2 + 1"
    have c: "1 \<le> c" "c \<le> base + n" "c \<le> num l" "base < c"
      using True "1.prems"(1) unfolding c_def by auto
    have u: "u32 (base + n div 2 + 1) = c"
      using c "1.prems"(5) num_u32 [of l] unfolding c_def by simp
    have cmpc: "cmp c = Some (f l x c)"
      using "1.prems" c by (simp add: slot_defined)
    have unfold: "bsearch_loop cmp base cursor v n =
        (if f l x c < 0 then bsearch_loop cmp base c (f l x c) (n div 2)
         else if f l x c > 0 then bsearch_loop cmp c c (f l x c) (n - (n div 2 + 1))
         else Some c)"
      using True cmpc u by (subst bsearch_loop.simps) (simp add: Let_def)
    consider "f l x c < 0" | "f l x c > 0" | "f l x c = 0" by linarith
    then show ?thesis
    proof cases
      case 1
      have "\<exists>r. bsearch_loop cmp base c (f l x c) (n div 2) = Some r \<and> found_at (f l x) (num l) r"
      proof (rule IH1 [OF True refl _ _ 1])
        show "c = u32 (base + n div 2 + 1)" using u by simp
        show "cmp c = Some (f l x c)" by (rule cmpc)
        show "base + n div 2 \<le> num l" using c unfolding c_def by simp
        show "f l x i < 0" if "base + n div 2 < i" "i \<le> num l" for i
          using that neg_up [of l c i x] "1.prems"(5) c 1 by (cases "i = c") (auto simp: c_def)
      qed (use "1.prems" 1 c in \<open>auto simp: c_def\<close>)
      with unfold 1 show ?thesis by simp
    next
      case 2
      have "\<exists>r. bsearch_loop cmp c c (f l x c) (n - (n div 2 + 1)) = Some r \<and> found_at (f l x) (num l) r"
      proof (rule IH2 [OF True refl _ _ _ 2])
        show "c = u32 (base + n div 2 + 1)" using u by simp
        show "cmp c = Some (f l x c)" by (rule cmpc)
        show "0 < f l x i" if "1 \<le> i" "i \<le> c" for i
          using that pos_down [of l i c x] "1.prems"(5) c 2 by (cases "i = c") auto
        show "f l x i < 0" if "c + (n - (n div 2 + 1)) < i" "i \<le> num l" for i
          using that True by (intro "1.prems"(3)) (auto simp: c_def)
        show "c + (n - (n div 2 + 1)) \<le> num l"
          using "1.prems"(1) True by (auto simp: c_def)
      qed (use "1.prems" 2 in auto)
      with unfold 2 show ?thesis by simp
    next
      case 3
      then show ?thesis using unfold c by (auto simp: found_at_def)
    qed
  qed
qed

lemma search_correct:
  assumes "inv l"
  shows "\<exists>r. bsearch_loop (cmp_at l x) 0 1 0 (num l) = Some r \<and> found_at (f l x) (num l) r"
  using assms by (intro loop_correct) auto

end

end
