(* ===== verification/Mem.thy ===== *)
theory Mem
  imports Prelude
begin

text \<open>
  Byte memory. A pointer is a block and an offset; the blocks are the memory map of the data file
  and the allocations of \<^verbatim>\<open>malloc\<close>. An access outside a live block is \<open>None\<close>. Integers
  are little endian. Pages, nodes, sub-pages and keys inside pages are addressed by such pointers,
  so the aliasing between a page, the sub-page stored in one of its nodes and a key that points
  into it is that of the C program.
\<close>

section \<open>Blocks and pointers\<close>

datatype blk = Map | Heap nat

datatype ptr = Ptr (p_blk: blk) (p_off: nat)

type_synonym mem = "blk \<Rightarrow> u8 list option"

text \<open>\<^verbatim>\<open>(char *)p + n\<close>\<close>

definition padd :: "ptr \<Rightarrow> nat \<Rightarrow> ptr" where
  "padd p n = Ptr (p_blk p) (p_off p + n)"

lemma padd_simps [simp]:
  "p_blk (padd p n) = p_blk p" "p_off (padd p n) = p_off p + n" "padd p 0 = p" "padd (padd p n) k = padd p (n + k)"
  by (auto simp: padd_def)

lemma padd_inj [simp]: "padd p n = padd p k \<longleftrightarrow> n = k"
  by (auto simp: padd_def)

section \<open>Loads and stores\<close>

definition load :: "mem \<Rightarrow> ptr \<Rightarrow> nat \<Rightarrow> u8 list option" where
  "load m p n = (case m (p_blk p) of
     None \<Rightarrow> None
   | Some bs \<Rightarrow> if p_off p + n \<le> length bs then Some (take n (drop (p_off p) bs)) else None)"

definition store :: "mem \<Rightarrow> ptr \<Rightarrow> u8 list \<Rightarrow> mem option" where
  "store m p ys = (case m (p_blk p) of
     None \<Rightarrow> None
   | Some bs \<Rightarrow> if p_off p + length ys \<le> length bs
       then Some (m(p_blk p \<mapsto> take (p_off p) bs @ ys @ drop (p_off p + length ys) bs)) else None)"

definition valid :: "mem \<Rightarrow> ptr \<Rightarrow> nat \<Rightarrow> bool" where
  "valid m p n \<longleftrightarrow> (\<exists>bs. m (p_blk p) = Some bs \<and> p_off p + n \<le> length bs)"

text \<open>The \<open>k\<close>-th byte from \<open>p\<close>, for specifications.\<close>

definition byte :: "mem \<Rightarrow> ptr \<Rightarrow> nat \<Rightarrow> u8" where
  "byte m p k = the (m (p_blk p)) ! (p_off p + k)"

fun le_val :: "u8 list \<Rightarrow> nat" where
  "le_val [] = 0"
| "le_val (b # bs) = unat b + 256 * le_val bs"

fun le_bytes :: "nat \<Rightarrow> nat \<Rightarrow> u8 list" where
  "le_bytes 0 v = []"
| "le_bytes (Suc n) v = of_nat v # le_bytes n (v div 256)"

definition ldn :: "nat \<Rightarrow> mem \<Rightarrow> ptr \<Rightarrow> nat option" where
  "ldn n m p = map_option le_val (load m p n)"

definition stn :: "nat \<Rightarrow> mem \<Rightarrow> ptr \<Rightarrow> nat \<Rightarrow> mem option" where
  "stn n m p v = store m p (le_bytes n v)"

abbreviation "ld16 \<equiv> ldn 2"
abbreviation "ld32 \<equiv> ldn 4"
abbreviation "ld64 \<equiv> ldn 8"
abbreviation "st16 \<equiv> stn 2"
abbreviation "st32 \<equiv> stn 4"
abbreviation "st64 \<equiv> stn 8"

text \<open>\<^verbatim>\<open>memcpy\<close> and \<^verbatim>\<open>memmove\<close>: the source is read before the target is written.\<close>

definition memmove :: "mem \<Rightarrow> ptr \<Rightarrow> ptr \<Rightarrow> nat \<Rightarrow> mem option" where
  "memmove m dst src n = do { bs \<leftarrow> load m src n; store m dst bs }"

definition memset :: "mem \<Rightarrow> ptr \<Rightarrow> u8 \<Rightarrow> nat \<Rightarrow> mem option" where
  "memset m dst b n = store m dst (replicate n b)"

section \<open>Little-endian integers\<close>

lemma length_le_bytes [simp]: "length (le_bytes n v) = n"
  by (induction n arbitrary: v) auto

lemma le_val_bound: "le_val bs < 256 ^ length bs"
proof (induction bs)
  case Nil
  then show ?case by simp
next
  case (Cons b bs)
  have "unat b < 256" using unsigned_less [of b, where 'a = nat] by simp
  then have "unat b + 256 * le_val bs < 256 + 256 * le_val bs" by simp
  also have "\<dots> \<le> 256 * 256 ^ length bs" using Cons by (simp add: Suc_le_eq [symmetric])
  finally show ?case by simp
qed

lemma le_val_bytes [simp]: "le_val (le_bytes n v) = v mod 256 ^ n"
proof (induction n arbitrary: v)
  case 0
  then show ?case by simp
next
  case (Suc n)
  have "unat (of_nat v :: u8) = v mod 256" by (simp add: unat_of_nat)
  then show ?case using Suc by (simp add: mod_mult2_eq)
qed

lemma le_bytes_val [simp]: "length bs = n \<Longrightarrow> le_bytes n (le_val bs) = bs"
proof (induction bs arbitrary: n)
  case Nil
  then show ?case by simp
next
  case (Cons b bs)
  have "unat b < 256" using unsigned_less [of b, where 'a = nat] by simp
  then have "(unat b + 256 * le_val bs) div 256 = le_val bs" by simp
  moreover have "(of_nat (unat b + 256 * le_val bs) :: u8) = b"
    by (rule word_unat_eq_iff [THEN iffD2]) (use unsigned_less [of b, where 'a = nat] in \<open>simp add: unat_of_nat del: of_nat_add of_nat_mult\<close>)
  ultimately show ?case using Cons by (cases n) (auto simp del: of_nat_add)
qed

section \<open>Reasoning about accesses\<close>

lemma valid_sub: "valid m p n \<Longrightarrow> k + j \<le> n \<Longrightarrow> valid m (padd p k) j"
  by (auto simp: valid_def)

lemma valid_padd_iff: "valid m (padd p k) j \<longleftrightarrow> (\<exists>bs. m (p_blk p) = Some bs \<and> p_off p + k + j \<le> length bs)"
  by (simp add: valid_def)

lemma load_valid: "valid m p n \<Longrightarrow> load m p n = Some (map (byte m p) [0..<n])"
  by (auto simp: valid_def load_def byte_def intro!: nth_equalityI)

lemma load_Some_valid: "load m p n = Some bs \<Longrightarrow> valid m p n \<and> length bs = n"
  by (auto simp: valid_def load_def split: option.splits if_splits)

lemma store_ok: "valid m p (length ys) \<Longrightarrow> \<exists>m'. store m p ys = Some m'"
  by (auto simp: valid_def store_def)

lemma store_valid: "store m p ys = Some m' \<Longrightarrow> valid m' q k \<longleftrightarrow> valid m q k"
  by (cases "p_blk q = p_blk p") (auto simp: valid_def store_def split: option.splits if_splits)

lemma store_Some_valid: "store m p ys = Some m' \<Longrightarrow> valid m p (length ys)"
  by (auto simp: valid_def store_def split: option.splits if_splits)

text \<open>What a byte is after a store: the stored one inside the range, the old one outside.\<close>

definition outside :: "ptr \<Rightarrow> nat \<Rightarrow> ptr \<Rightarrow> nat \<Rightarrow> bool" where
  "outside p n q k \<longleftrightarrow> p_blk q \<noteq> p_blk p \<or> p_off q + k < p_off p \<or> p_off p + n \<le> p_off q + k"

lemma byte_store:
  assumes "store m p ys = Some m'" "valid m q (Suc k)"
  shows "byte m' q k = (if outside p (length ys) q k then byte m q k else ys ! (p_off q + k - p_off p))"
  using assms by (cases "p_blk q = p_blk p")
    (auto simp: store_def byte_def outside_def valid_def nth_append split: option.splits if_splits)

lemma byte_padd [simp]: "byte m (padd p n) k = byte m p (n + k)"
  by (simp add: byte_def add.assoc)

lemma load_store_same: "store m p ys = Some m' \<Longrightarrow> load m' p (length ys) = Some ys"
  by (auto simp: store_def load_def split: option.splits if_splits)

lemma load_store_outside:
  assumes s: "store m p ys = Some m'" and o: "\<And>k. k < n \<Longrightarrow> outside p (length ys) q k"
  shows "load m' q n = load m q n"
proof (cases "valid m q n")
  case True
  then have "valid m' q n" using store_valid [OF s] by simp
  moreover have "byte m' q k = byte m q k" if "k < n" for k
    using byte_store [OF s, of q k] o [OF that] True that by (auto simp: valid_def)
  ultimately show ?thesis using True by (simp add: load_valid)
next
  case False
  then have "\<not> valid m' q n" using store_valid [OF s] by simp
  then show ?thesis using False by (metis load_Some_valid option.exhaust)
qed

lemma ld_st_same: "stn n m p v = Some m' \<Longrightarrow> ldn n m' p = Some (v mod 256 ^ n)"
  using load_store_same [of m p "le_bytes n v" m'] by (simp add: stn_def ldn_def)

lemma ld_st_outside:
  "stn n m p v = Some m' \<Longrightarrow> (\<And>j. j < k \<Longrightarrow> outside p n q j) \<Longrightarrow> ldn k m' q = ldn k m q"
  unfolding stn_def ldn_def using load_store_outside [of m p "le_bytes n v" m' k q] by simp

lemma ld_bound: "ldn n m p = Some v \<Longrightarrow> v < 256 ^ n"
  unfolding ldn_def using le_val_bound by (auto dest!: load_Some_valid)

lemma ld_Some_valid: "ldn n m p = Some v \<Longrightarrow> valid m p n"
  by (auto simp: ldn_def dest: load_Some_valid)

lemma ld_ok: "valid m p n \<Longrightarrow> \<exists>v. ldn n m p = Some v \<and> v < 256 ^ n"
  using ld_bound [of n m p] by (auto simp: ldn_def load_valid)

lemma st_ok: "valid m p n \<Longrightarrow> \<exists>m'. stn n m p v = Some m'"
  unfolding stn_def using store_ok [of m p "le_bytes n v"] by simp

lemma st_valid: "stn n m p v = Some m' \<Longrightarrow> valid m' q k \<longleftrightarrow> valid m q k"
  unfolding stn_def by (rule store_valid)

end
