(* ===== verification/Lmdb_H.thy ===== *)
theory Lmdb_H
  imports Mem
begin

text \<open>
  The public constants of \<^verbatim>\<open>lmdb/lmdb.h\<close>: flags (32-bit masks), return codes, the cursor
  operations; \<^verbatim>\<open>MDB_val\<close>, the statistics record and the description of return codes.
\<close>

section \<open>Environment flags\<close>

abbreviation (input) MDB_FIXEDMAP :: u32 where
  "MDB_FIXEDMAP \<equiv> 0x01"

abbreviation (input) MDB_NOSUBDIR :: u32 where
  "MDB_NOSUBDIR \<equiv> 0x4000"

abbreviation (input) MDB_NOSYNC :: u32 where
  "MDB_NOSYNC \<equiv> 0x10000"

abbreviation (input) MDB_RDONLY :: u32 where
  "MDB_RDONLY \<equiv> 0x20000"

abbreviation (input) MDB_NOMETASYNC :: u32 where
  "MDB_NOMETASYNC \<equiv> 0x40000"

abbreviation (input) MDB_WRITEMAP :: u32 where
  "MDB_WRITEMAP \<equiv> 0x80000"

abbreviation (input) MDB_MAPASYNC :: u32 where
  "MDB_MAPASYNC \<equiv> 0x100000"

abbreviation (input) MDB_NOTLS :: u32 where
  "MDB_NOTLS \<equiv> 0x200000"

abbreviation (input) MDB_NOLOCK :: u32 where
  "MDB_NOLOCK \<equiv> 0x400000"

abbreviation (input) MDB_NORDAHEAD :: u32 where
  "MDB_NORDAHEAD \<equiv> 0x800000"

abbreviation (input) MDB_NOMEMINIT :: u32 where
  "MDB_NOMEMINIT \<equiv> 0x1000000"

abbreviation (input) MDB_PREVSNAPSHOT :: u32 where
  "MDB_PREVSNAPSHOT \<equiv> 0x2000000"

section \<open>Database flags\<close>

abbreviation (input) MDB_REVERSEKEY :: u32 where
  "MDB_REVERSEKEY \<equiv> 0x02"

abbreviation (input) MDB_DUPSORT :: u32 where
  "MDB_DUPSORT \<equiv> 0x04"

abbreviation (input) MDB_INTEGERKEY :: u32 where
  "MDB_INTEGERKEY \<equiv> 0x08"

abbreviation (input) MDB_DUPFIXED :: u32 where
  "MDB_DUPFIXED \<equiv> 0x10"

abbreviation (input) MDB_INTEGERDUP :: u32 where
  "MDB_INTEGERDUP \<equiv> 0x20"

abbreviation (input) MDB_REVERSEDUP :: u32 where
  "MDB_REVERSEDUP \<equiv> 0x40"

abbreviation (input) MDB_CREATE :: u32 where
  "MDB_CREATE \<equiv> 0x40000"

section \<open>Write and copy flags\<close>

abbreviation (input) MDB_NOOVERWRITE :: u32 where
  "MDB_NOOVERWRITE \<equiv> 0x10"

abbreviation (input) MDB_NODUPDATA :: u32 where
  "MDB_NODUPDATA \<equiv> 0x20"

abbreviation (input) MDB_CURRENT :: u32 where
  "MDB_CURRENT \<equiv> 0x40"

abbreviation (input) MDB_RESERVE :: u32 where
  "MDB_RESERVE \<equiv> 0x10000"

abbreviation (input) MDB_APPEND :: u32 where
  "MDB_APPEND \<equiv> 0x20000"

abbreviation (input) MDB_APPENDDUP :: u32 where
  "MDB_APPENDDUP \<equiv> 0x40000"

abbreviation (input) MDB_MULTIPLE :: u32 where
  "MDB_MULTIPLE \<equiv> 0x80000"

abbreviation (input) MDB_CP_COMPACT :: u32 where
  "MDB_CP_COMPACT \<equiv> 0x01"

section \<open>Return codes\<close>

abbreviation (input) MDB_SUCCESS :: int where
  "MDB_SUCCESS \<equiv> 0"

abbreviation (input) MDB_KEYEXIST :: int where
  "MDB_KEYEXIST \<equiv> -30799"

abbreviation (input) MDB_NOTFOUND :: int where
  "MDB_NOTFOUND \<equiv> -30798"

abbreviation (input) MDB_PAGE_NOTFOUND :: int where
  "MDB_PAGE_NOTFOUND \<equiv> -30797"

abbreviation (input) MDB_CORRUPTED :: int where
  "MDB_CORRUPTED \<equiv> -30796"

abbreviation (input) MDB_PANIC :: int where
  "MDB_PANIC \<equiv> -30795"

abbreviation (input) MDB_VERSION_MISMATCH :: int where
  "MDB_VERSION_MISMATCH \<equiv> -30794"

abbreviation (input) MDB_INVALID :: int where
  "MDB_INVALID \<equiv> -30793"

abbreviation (input) MDB_MAP_FULL :: int where
  "MDB_MAP_FULL \<equiv> -30792"

abbreviation (input) MDB_DBS_FULL :: int where
  "MDB_DBS_FULL \<equiv> -30791"

abbreviation (input) MDB_READERS_FULL :: int where
  "MDB_READERS_FULL \<equiv> -30790"

abbreviation (input) MDB_TLS_FULL :: int where
  "MDB_TLS_FULL \<equiv> -30789"

abbreviation (input) MDB_TXN_FULL :: int where
  "MDB_TXN_FULL \<equiv> -30788"

abbreviation (input) MDB_CURSOR_FULL :: int where
  "MDB_CURSOR_FULL \<equiv> -30787"

abbreviation (input) MDB_PAGE_FULL :: int where
  "MDB_PAGE_FULL \<equiv> -30786"

abbreviation (input) MDB_MAP_RESIZED :: int where
  "MDB_MAP_RESIZED \<equiv> -30785"

abbreviation (input) MDB_INCOMPATIBLE :: int where
  "MDB_INCOMPATIBLE \<equiv> -30784"

abbreviation (input) MDB_BAD_RSLOT :: int where
  "MDB_BAD_RSLOT \<equiv> -30783"

abbreviation (input) MDB_BAD_TXN :: int where
  "MDB_BAD_TXN \<equiv> -30782"

abbreviation (input) MDB_BAD_VALSIZE :: int where
  "MDB_BAD_VALSIZE \<equiv> -30781"

abbreviation (input) MDB_BAD_DBI :: int where
  "MDB_BAD_DBI \<equiv> -30780"

abbreviation (input) MDB_PROBLEM :: int where
  "MDB_PROBLEM \<equiv> -30779"

abbreviation (input) MDB_LAST_ERRCODE :: int where
  "MDB_LAST_ERRCODE \<equiv> MDB_PROBLEM"

section \<open>Cursor operations\<close>

datatype MDB_cursor_op =
    MDB_FIRST
  | MDB_FIRST_DUP
  | MDB_GET_BOTH
  | MDB_GET_BOTH_RANGE
  | MDB_GET_CURRENT
  | MDB_GET_MULTIPLE
  | MDB_LAST
  | MDB_LAST_DUP
  | MDB_NEXT
  | MDB_NEXT_DUP
  | MDB_NEXT_MULTIPLE
  | MDB_NEXT_NODUP
  | MDB_PREV
  | MDB_PREV_DUP
  | MDB_PREV_NODUP
  | MDB_SET
  | MDB_SET_KEY
  | MDB_SET_RANGE
  | MDB_PREV_MULTIPLE

section \<open>Values and records\<close>

text \<open>
  \<^verbatim>\<open>MDB_val\<close>: a size and an address. An optional value stands for a \<^verbatim>\<open>MDB_val *\<close> that
  may be \<^verbatim>\<open>NULL\<close>; a function that writes through such a pointer returns the new value.
\<close>

record MDB_val =
  mv_size :: nat
  mv_data :: ptr

record MDB_stat =
  ms_psize :: u32
  ms_depth :: u32
  ms_branch_pages :: u64
  ms_leaf_pages :: u64
  ms_overflow_pages :: u64
  ms_entries :: u64

section \<open>Descriptions of return codes\<close>

definition mdb_errstr :: "string list" where
  "mdb_errstr =
    [''MDB_KEYEXIST: Key/data pair already exists'',
     ''MDB_NOTFOUND: No matching key/data pair found'',
     ''MDB_PAGE_NOTFOUND: Requested page not found'',
     ''MDB_CORRUPTED: Located page was wrong type'',
     ''MDB_PANIC: Update of meta page failed or environment had fatal error'',
     ''MDB_VERSION_MISMATCH: Database environment version mismatch'',
     ''MDB_INVALID: File is not an LMDB file'',
     ''MDB_MAP_FULL: Environment mapsize limit reached'',
     ''MDB_DBS_FULL: Environment maxdbs limit reached'',
     ''MDB_READERS_FULL: Environment maxreaders limit reached'',
     ''MDB_TLS_FULL: Thread-local storage keys full - too many environments open'',
     ''MDB_TXN_FULL: Transaction has too many dirty pages - transaction too big'',
     ''MDB_CURSOR_FULL: Internal error - cursor stack limit reached'',
     ''MDB_PAGE_FULL: Internal error - page has no more space'',
     ''MDB_MAP_RESIZED: Database contents grew beyond environment mapsize'',
     ''MDB_INCOMPATIBLE: Operation and DB incompatible, or DB flags changed'',
     ''MDB_BAD_RSLOT: Invalid reuse of reader locktable slot'',
     ''MDB_BAD_TXN: Transaction must abort, has a child, or is invalid'',
     ''MDB_BAD_VALSIZE: Unsupported size of key/DB name/data, or wrong DUPFIXED size'',
     ''MDB_BAD_DBI: The specified DBI handle was closed/changed unexpectedly'',
     ''MDB_PROBLEM: Unexpected problem - txn should abort'']"

text \<open>\<open>strerror\<close> is the C library's description of a system error number.\<close>

definition mdb_strerror :: "(int \<Rightarrow> string) \<Rightarrow> int \<Rightarrow> string" where
  "mdb_strerror strerror err =
     (if err = 0 then ''Successful return: 0''
      else if err \<ge> MDB_KEYEXIST \<and> err \<le> MDB_LAST_ERRCODE
      then mdb_errstr ! nat (err - MDB_KEYEXIST)
      else strerror err)"

text \<open>\<^verbatim>\<open>errno\<close> values the code returns by name.\<close>

abbreviation (input) EACCES :: int where
  "EACCES \<equiv> 13"

abbreviation (input) EINVAL :: int where
  "EINVAL \<equiv> 22"

abbreviation (input) ENOMEM :: int where
  "ENOMEM \<equiv> 12"

abbreviation (input) ENOENT :: int where
  "ENOENT \<equiv> 2"

abbreviation (input) EIO :: int where
  "EIO \<equiv> 5"

lemma length_mdb_errstr [simp]: "length mdb_errstr = 21"
  by (simp add: mdb_errstr_def)

lemma mdb_strerror_in_table:
  "MDB_KEYEXIST \<le> err \<Longrightarrow> err \<le> MDB_LAST_ERRCODE \<Longrightarrow> mdb_strerror se err \<in> set mdb_errstr"
  by (simp add: mdb_strerror_def)

end
