(* ===== verification/Midl.thy ===== *)
theory Midl
  imports Lmdb_H "HOL-Library.Multiset"
begin

unbundle bit_operations_syntax

text \<open>
  ID lists (\<^verbatim>\<open>lmdb/midl.c\<close>, \<^verbatim>\<open>lmdb/midl.h\<close>): arrays of 64-bit identifiers kept in descending
  order. Element \<open>0\<close> holds the number of entries; the word before it, \<^verbatim>\<open>ids[-1]\<close>, holds the
  number of entries the allocation has room for. Functions that only see the array
  (\<^verbatim>\<open>MDB_IDL\<close>) work on the list of words from \<open>ids[0]\<close> on; functions that may move the
  allocation (\<^verbatim>\<open>MDB_IDL *\<close>) work on the record \<open>MDB_IDL\<close>.
\<close>

type_synonym MDB_ID = u64

record MDB_IDL =
  idl_alloc :: MDB_ID
  idl_words :: "MDB_ID list"

abbreviation (input) MDB_IDL_UM_SIZE :: nat where
  "MDB_IDL_UM_SIZE \<equiv> 131072"

abbreviation (input) MDB_IDL_UM_MAX :: nat where
  "MDB_IDL_UM_MAX \<equiv> 131071"

text \<open>The entries of an array of words whose first word is their number.\<close>

definition idl_elems :: "MDB_ID list \<Rightarrow> MDB_ID list" where
  "idl_elems xs = take (unat (hd xs)) (tl xs)"

definition idl_wf :: "MDB_ID list \<Rightarrow> bool" where
  "idl_wf xs \<longleftrightarrow> xs \<noteq> [] \<and> unat (hd xs) < length xs"

definition block_wf :: "MDB_IDL \<Rightarrow> bool" where
  "block_wf b \<longleftrightarrow> length (idl_words b) = unat (idl_alloc b) + 1 \<and> idl_wf (idl_words b) \<and> unat (idl_alloc b) < 2 ^ 60"

abbreviation elems :: "MDB_IDL \<Rightarrow> MDB_ID list" where
  "elems b \<equiv> idl_elems (idl_words b)"

section \<open>Operations\<close>

definition mdb_midl_search :: "MDB_ID list \<Rightarrow> MDB_ID \<Rightarrow> nat option" where
  "mdb_midl_search ids idv = do {
     n \<leftarrow> rd ids 0;
     bsearch_loop (\<lambda>c. map_option (\<lambda>x. CMP x idv) (rd ids c)) 0 1 0 (u32 (unat n)) }"

text \<open>
  The allocator is a parameter: asked for a number of words it fails or returns a block of that
  many words with unspecified contents. \<open>realloc_words\<close> keeps the common prefix, as
  \<^verbatim>\<open>realloc\<close> does. Sizes stay below \<open>2 ^ 61\<close> words, so the product with the word
  size does not wrap.
\<close>

type_synonym allocator = "nat \<Rightarrow> MDB_ID list option"

definition allocator_ok :: "allocator \<Rightarrow> bool" where
  "allocator_ok h \<longleftrightarrow> (\<forall>n js. h n = Some js \<longrightarrow> length js = n)"

definition realloc_words :: "allocator \<Rightarrow> MDB_ID list \<Rightarrow> nat \<Rightarrow> MDB_ID list option" where
  "realloc_words h old n = map_option (\<lambda>js. take n old @ drop (length old) js) (h n)"

definition mdb_midl_alloc :: "allocator \<Rightarrow> nat \<Rightarrow> MDB_IDL option" where
  "mdb_midl_alloc h num =
     (case h (num + 2) of
        None \<Rightarrow> None
      | Some js \<Rightarrow> Some \<lparr>idl_alloc = of_nat num, idl_words = 0 # drop 2 js\<rparr>)"

definition mdb_midl_shrink :: "allocator \<Rightarrow> MDB_IDL \<Rightarrow> MDB_IDL" where
  "mdb_midl_shrink h b =
     (if unat (idl_alloc b) > MDB_IDL_UM_MAX then
        (case realloc_words h (idl_alloc b # idl_words b) (MDB_IDL_UM_MAX + 2) of
           None \<Rightarrow> b
         | Some ws \<Rightarrow> \<lparr>idl_alloc = of_nat MDB_IDL_UM_MAX, idl_words = tl ws\<rparr>)
      else b)"

definition mdb_midl_grow :: "allocator \<Rightarrow> MDB_IDL \<Rightarrow> nat \<Rightarrow> int \<times> MDB_IDL" where
  "mdb_midl_grow h b num =
     (case realloc_words h (idl_alloc b # idl_words b) (unat (idl_alloc b) + num + 2) of
        None \<Rightarrow> (ENOMEM, b)
      | Some ws \<Rightarrow> (0, \<lparr>idl_alloc = hd ws + of_nat num, idl_words = tl ws\<rparr>))"

definition mdb_midl_need :: "allocator \<Rightarrow> MDB_IDL \<Rightarrow> nat \<Rightarrow> (int \<times> MDB_IDL) option" where
  "mdb_midl_need h b num = do {
     n0 \<leftarrow> rd (idl_words b) 0;
     let num = u32 (num + u32 (unat n0));
     if num > unat (idl_alloc b) then
       (let num = u32 (num + num div 4 + (256 + 2)) div 256 * 256 in
        case realloc_words h (idl_alloc b # idl_words b) num of
          None \<Rightarrow> Some (ENOMEM, b)
        | Some ws \<Rightarrow> Some (0, \<lparr>idl_alloc = of_nat (num - 2), idl_words = tl ws\<rparr>))
     else Some (0, b) }"

definition mdb_midl_append :: "allocator \<Rightarrow> MDB_IDL \<Rightarrow> MDB_ID \<Rightarrow> (int \<times> MDB_IDL) option" where
  "mdb_midl_append h b idv = do {
     n0 \<leftarrow> rd (idl_words b) 0;
     let (rc, b) = (if n0 \<ge> idl_alloc b then mdb_midl_grow h b MDB_IDL_UM_MAX else (0, b));
     if rc \<noteq> 0 then Some (ENOMEM, b)
     else do {
       n \<leftarrow> rd (idl_words b) 0;
       xs \<leftarrow> wr (idl_words b) 0 (n + 1);
       xs \<leftarrow> wr xs (unat (n + 1)) idv;
       Some (0, b\<lparr>idl_words := xs\<rparr>) } }"

text \<open>\<^verbatim>\<open>memcpy\<close> of whole words into an array.\<close>

definition put_words :: "'a list \<Rightarrow> nat \<Rightarrow> 'a list \<Rightarrow> 'a list option" where
  "put_words xs i ys =
     (if i + length ys \<le> length xs then Some (take i xs @ ys @ drop (i + length ys) xs) else None)"

definition mdb_midl_append_list :: "allocator \<Rightarrow> MDB_IDL \<Rightarrow> MDB_ID list \<Rightarrow> (int \<times> MDB_IDL) option" where
  "mdb_midl_append_list h b app = do {
     n0 \<leftarrow> rd (idl_words b) 0;
     a0 \<leftarrow> rd app 0;
     let (rc, b) = (if n0 + a0 \<ge> idl_alloc b then mdb_midl_grow h b (unat a0) else (0, b));
     if rc \<noteq> 0 then Some (ENOMEM, b)
     else if \<not> unat a0 < length app then None
     else do {
       n \<leftarrow> rd (idl_words b) 0;
       xs \<leftarrow> put_words (idl_words b) (unat n + 1) (take (unat a0) (tl app));
       xs \<leftarrow> wr xs 0 (n + a0);
       Some (0, b\<lparr>idl_words := xs\<rparr>) } }"

text \<open>The loop \<^verbatim>\<open>while (n) ids[n--] = idv++\<close>, with \<open>base\<close> the array index of \<^verbatim>\<open>ids\<close>.\<close>

fun fill_range :: "MDB_ID list \<Rightarrow> nat \<Rightarrow> nat \<Rightarrow> MDB_ID \<Rightarrow> MDB_ID list option" where
  "fill_range xs base 0 idv = Some xs"
| "fill_range xs base (Suc n) idv = do {
     xs \<leftarrow> wr xs (base + Suc n) idv;
     fill_range xs base n (idv + 1) }"

definition mdb_midl_append_range :: "allocator \<Rightarrow> MDB_IDL \<Rightarrow> MDB_ID \<Rightarrow> u32 \<Rightarrow> (int \<times> MDB_IDL) option" where
  "mdb_midl_append_range h b idv n = do {
     len \<leftarrow> rd (idl_words b) 0;
     let (rc, b) = (if len + ucast n > idl_alloc b
                    then mdb_midl_grow h b (unat (n OR of_nat MDB_IDL_UM_MAX)) else (0, b));
     if rc \<noteq> 0 then Some (ENOMEM, b)
     else do {
       xs \<leftarrow> wr (idl_words b) 0 (len + ucast n);
       xs \<leftarrow> fill_range xs (unat len) (unat n) idv;
       Some (0, b\<lparr>idl_words := xs\<rparr>) } }"

text \<open>
  \<^verbatim>\<open>mdb_midl_xmerge\<close> works in place, from the tail: \<open>j\<close> and \<open>i\<close> walk down the two
  lists, \<open>k\<close> is the next slot to fill, and \<^verbatim>\<open>idl[0]\<close> holds the largest ID as a
  delimiter while the scan runs.
\<close>

function xmerge_scan :: "MDB_ID list \<Rightarrow> MDB_ID \<Rightarrow> MDB_ID \<Rightarrow> nat \<Rightarrow> nat \<Rightarrow> (MDB_ID list \<times> MDB_ID \<times> nat \<times> nat) option" where
  "xmerge_scan idl old_id merge_id j k =
     (if old_id < merge_id then do {
        idl \<leftarrow> wr idl k old_id;
        if j = 0 then None
        else do {
          old_id \<leftarrow> rd idl (j - 1);
          xmerge_scan idl old_id merge_id (j - 1) (k - 1) } }
      else Some (idl, old_id, j, k))"
  by pat_completeness auto
termination
  by (relation "measure (\<lambda>(idl, old_id, merge_id, j, k). j)") auto

declare xmerge_scan.simps [simp del]

fun xmerge_loop :: "MDB_ID list \<Rightarrow> MDB_ID list \<Rightarrow> MDB_ID \<Rightarrow> nat \<Rightarrow> nat \<Rightarrow> nat \<Rightarrow> MDB_ID list option" where
  "xmerge_loop idl merge old_id 0 j k = Some idl"
| "xmerge_loop idl merge old_id (Suc i) j k = do {
     merge_id \<leftarrow> rd merge (Suc i);
     (idl, old_id, j, k) \<leftarrow> xmerge_scan idl old_id merge_id j k;
     idl \<leftarrow> wr idl k merge_id;
     xmerge_loop idl merge old_id i j (k - 1) }"

definition mdb_midl_xmerge :: "MDB_ID list \<Rightarrow> MDB_ID list \<Rightarrow> MDB_ID list option" where
  "mdb_midl_xmerge idl merge = do {
     i \<leftarrow> rd merge 0;
     j \<leftarrow> rd idl 0;
     let total = i + j;
     idl \<leftarrow> wr idl 0 (- 1);
     old_id \<leftarrow> rd idl (unat j);
     idl \<leftarrow> xmerge_loop idl merge old_id (unat i) (unat j) (unat total);
     wr idl 0 total }"

section \<open>Searching\<close>

definition idl_sorted :: "MDB_ID list \<Rightarrow> bool" where
  "idl_sorted xs \<longleftrightarrow> idl_wf xs \<and> sorted_wrt (\<ge>) (idl_elems xs) \<and> length (idl_elems xs) < 2 ^ 32 - 1"

lemma length_idl_elems [simp]: "idl_wf xs \<Longrightarrow> length (idl_elems xs) = unat (hd xs)"
  by (cases xs) (auto simp: idl_wf_def idl_elems_def)

lemma idl_elems_nth [simp]:
  "idl_wf xs \<Longrightarrow> i < unat (hd xs) \<Longrightarrow> idl_elems xs ! i = xs ! Suc i"
  by (cases xs) (auto simp: idl_wf_def idl_elems_def)

lemma idl_sortedD:
  assumes "idl_sorted xs" "1 \<le> i" "i \<le> j" "j \<le> unat (hd xs)"
  shows "xs ! j \<le> xs ! i"
proof -
  have "idl_elems xs ! (j - 1) \<le> idl_elems xs ! (i - 1)"
    using assms sorted_wrt_nth_le [of "(\<ge>)" "idl_elems xs" "i - 1" "j - 1"]
    by (auto simp: idl_sorted_def)
  then show ?thesis using assms by (auto simp: idl_sorted_def)
qed

interpretation midl: id_search
  "\<lambda>xs x c. map_option (\<lambda>y. CMP y x) (rd xs c)" "\<lambda>xs x c. CMP (xs ! c) x"
  "\<lambda>xs. unat (hd xs)" idl_sorted
proof unfold_locales
  fix l :: "MDB_ID list" and c x
  assume "idl_sorted l" "1 \<le> c" "c \<le> unat (hd l)"
  then show "map_option (\<lambda>y. CMP y x) (rd l c) = Some (CMP (l ! c) x)"
    by (simp add: idl_sorted_def idl_wf_def)
next
  fix l :: "MDB_ID list" and i j x
  assume l: "idl_sorted l" "1 \<le> i" "i < j" "j \<le> unat (hd l)"
  then have "l ! j \<le> l ! i" by (intro idl_sortedD) auto
  then show "CMP (l ! i) x < 0 \<Longrightarrow> CMP (l ! j) x < 0" "0 < CMP (l ! j) x \<Longrightarrow> 0 < CMP (l ! i) x"
    by auto
next
  fix l :: "MDB_ID list" assume "idl_sorted l"
  then show "unat (hd l) < 2 ^ 32 - 1" by (auto simp: idl_sorted_def)
qed

lemma idl_mem_iff:
  "idl_wf xs \<Longrightarrow> x \<in> set (idl_elems xs) \<longleftrightarrow> (\<exists>i. 1 \<le> i \<and> i \<le> unat (hd xs) \<and> xs ! i = x)"
  unfolding in_set_conv_nth
  by (auto simp: Suc_le_eq intro: exI [of _ "Suc _"]) (metis Suc_pred idl_elems_nth length_idl_elems
    less_eq_Suc_le zero_less_Suc less_Suc_eq_le)

lemma mdb_midl_search_spec:
  assumes "idl_sorted xs"
  shows "\<exists>r. mdb_midl_search xs x = Some r \<and> 1 \<le> r \<and> r \<le> unat (hd xs) + 1 \<and>
     (x \<in> set (idl_elems xs) \<longleftrightarrow> r \<le> unat (hd xs) \<and> xs ! r = x) \<and>
     (\<forall>i. 1 \<le> i \<longrightarrow> i < r \<longrightarrow> x \<le> xs ! i) \<and> (\<forall>i. r \<le> i \<longrightarrow> i \<le> unat (hd xs) \<longrightarrow> xs ! i \<le> x)"
proof -
  have wf: "idl_wf xs" and len: "unat (hd xs) < 2 ^ 32 - 1"
    using assms by (auto simp: idl_sorted_def)
  have eq: "mdb_midl_search xs x =
      bsearch_loop (\<lambda>c. map_option (\<lambda>y. CMP y x) (rd xs c)) 0 1 0 (unat (hd xs))"
    using wf len by (auto simp: mdb_midl_search_def idl_wf_def hd_conv_nth)
  obtain r where r: "mdb_midl_search xs x = Some r" "found_at (\<lambda>c. CMP (xs ! c) x) (unat (hd xs)) r"
    using midl.search_correct [OF assms] eq by auto
  show ?thesis
  proof (intro exI [of _ r] conjI)
    show "x \<in> set (idl_elems xs) \<longleftrightarrow> r \<le> unat (hd xs) \<and> xs ! r = x"
      using r(2) unfolding idl_mem_iff [OF wf] found_at_def
      by (auto) (metis linorder_not_less order_less_irrefl)+
    show "\<forall>i. 1 \<le> i \<longrightarrow> i < r \<longrightarrow> x \<le> xs ! i" "\<forall>i. r \<le> i \<longrightarrow> i \<le> unat (hd xs) \<longrightarrow> xs ! i \<le> x"
      using r(2) idl_sortedD [OF assms] unfolding found_at_def by (auto intro: less_imp_le)
  qed (use r in \<open>auto simp: found_at_def\<close>)
qed

section \<open>Growing and appending\<close>

lemma idl_elems_append [simp]: "idl_wf xs \<Longrightarrow> idl_elems (xs @ ys) = idl_elems xs"
  by (cases xs) (auto simp: idl_wf_def idl_elems_def)

lemma idl_wf_append [simp]: "idl_wf xs \<Longrightarrow> idl_wf (xs @ ys)"
  by (cases xs) (auto simp: idl_wf_def)

lemma idl_wf_hd: "idl_wf xs \<Longrightarrow> xs ! 0 = hd xs \<and> 0 < length xs"
  by (cases xs) (auto simp: idl_wf_def)

text \<open>Setting the count and the slots after the old entries appends those slots.\<close>

lemma idl_elems_set_count:
  assumes "idl_wf xs" "length ys = length xs" "unat (hd ys) = unat (hd xs) + k" "unat (hd xs) + k < length xs"
    "\<And>i. 1 \<le> i \<Longrightarrow> i \<le> unat (hd xs) \<Longrightarrow> ys ! i = xs ! i"
  shows "idl_wf ys \<and> idl_elems ys = idl_elems xs @ take k (drop (unat (hd xs) + 1) ys)"
proof
  show wf: "idl_wf ys" using assms by (cases ys) (auto simp: idl_wf_def)
  show "idl_elems ys = idl_elems xs @ take k (drop (unat (hd xs) + 1) ys)"
  proof (rule nth_equalityI)
    show "length (idl_elems ys) = length (idl_elems xs @ take k (drop (unat (hd xs) + 1) ys))"
      using assms wf by simp
  next
    fix i assume i: "i < length (idl_elems ys)"
    show "idl_elems ys ! i = (idl_elems xs @ take k (drop (unat (hd xs) + 1) ys)) ! i"
    proof (cases "i < unat (hd xs)")
      case True
      then show ?thesis using assms wf i by (simp add: nth_append)
    next
      case False
      then show ?thesis using assms wf i by (simp add: nth_append)
    qed
  qed
qed

lemma realloc_words_grow:
  assumes "allocator_ok h" "length old \<le> n" "realloc_words h old n = Some ws"
  shows "\<exists>js. ws = old @ js \<and> length ws = n"
  using assms by (auto simp: realloc_words_def allocator_ok_def)

lemma unat_add_of_nat: "unat (a :: u64) + n < 2 ^ 64 \<Longrightarrow> unat (a + of_nat n) = unat a + n"
  by (simp add: unat_word_ariths unat_of_nat take_bit_eq_mod mod_add_right_eq)

lemma mdb_midl_grow_spec:
  assumes "block_wf b" "allocator_ok h" "unat (idl_alloc b) + num < 2 ^ 60"
  shows "mdb_midl_grow h b num = (ENOMEM, b) \<or>
    (\<exists>js. mdb_midl_grow h b num =
       (0, \<lparr>idl_alloc = idl_alloc b + of_nat num, idl_words = idl_words b @ js\<rparr>) \<and>
       block_wf \<lparr>idl_alloc = idl_alloc b + of_nat num, idl_words = idl_words b @ js\<rparr> \<and>
       length js = num)"
proof (cases "realloc_words h (idl_alloc b # idl_words b) (unat (idl_alloc b) + num + 2)")
  case None
  then show ?thesis by (simp add: mdb_midl_grow_def)
next
  case (Some ws)
  obtain js where js: "ws = (idl_alloc b # idl_words b) @ js" "length ws = unat (idl_alloc b) + num + 2"
    using realloc_words_grow [OF assms(2) _ Some] assms(1) by (auto simp: block_wf_def)
  have "unat (idl_alloc b + of_nat num) = unat (idl_alloc b) + num"
    using assms(3) by (intro unat_add_of_nat) simp
  then have "block_wf \<lparr>idl_alloc = idl_alloc b + of_nat num, idl_words = idl_words b @ js\<rparr> \<and> length js = num"
    using assms js by (auto simp: block_wf_def)
  then show ?thesis using Some js by (auto simp: mdb_midl_grow_def)
qed

text \<open>Room for \<open>k\<close> more entries, after the growth step that the append operations share.\<close>

lemma grow_if_room:
  assumes "block_wf b" "allocator_ok h" "unat (idl_alloc b) + num < 2 ^ 60"
    and "\<not> full \<Longrightarrow> unat (hd (idl_words b)) + k \<le> unat (idl_alloc b)" and "k \<le> num"
  obtains "full" "(if full then mdb_midl_grow h b num else (0, b)) = (ENOMEM, b)"
  | b' where "(if full then mdb_midl_grow h b num else (0, b)) = (0, b')" "block_wf b'"
      "unat (hd (idl_words b)) + k < length (idl_words b')" "elems b' = elems b"
      "hd (idl_words b') = hd (idl_words b)"
proof (cases "full")
  case False
  then show thesis using assms by (intro that(2) [of b]) (auto simp: block_wf_def)
next
  case True
  from mdb_midl_grow_spec [OF assms(1-3)] show thesis
  proof
    assume "mdb_midl_grow h b num = (ENOMEM, b)"
    then show thesis using True by (intro that(1)) auto
  next
    assume "\<exists>js. mdb_midl_grow h b num =
       (0, \<lparr>idl_alloc = idl_alloc b + of_nat num, idl_words = idl_words b @ js\<rparr>) \<and>
       block_wf \<lparr>idl_alloc = idl_alloc b + of_nat num, idl_words = idl_words b @ js\<rparr> \<and> length js = num"
    then obtain js where js: "mdb_midl_grow h b num =
       (0, \<lparr>idl_alloc = idl_alloc b + of_nat num, idl_words = idl_words b @ js\<rparr>)"
       "block_wf \<lparr>idl_alloc = idl_alloc b + of_nat num, idl_words = idl_words b @ js\<rparr>" "length js = num"
      by auto
    have "idl_wf (idl_words b)" "idl_words b \<noteq> []" using assms(1) by (auto simp: block_wf_def idl_wf_def)
    then show thesis using js True assms(1,5)
      by (intro that(2) [OF _ js(2)]) (auto simp: block_wf_def idl_wf_def)
  qed
qed

lemma mdb_midl_append_spec:
  assumes "block_wf b" "allocator_ok h" "unat (idl_alloc b) + MDB_IDL_UM_MAX < 2 ^ 60"
  shows "mdb_midl_append h b x = Some (ENOMEM, b) \<and> unat (hd (idl_words b)) = unat (idl_alloc b) \<or>
    (\<exists>b'. mdb_midl_append h b x = Some (0, b') \<and> block_wf b' \<and> elems b' = elems b @ [x])"
proof -
  have wf: "idl_wf (idl_words b)" using assms(1) by (simp add: block_wf_def)
  note hd0 = idl_wf_hd [OF wf]
  have nle: "unat (hd (idl_words b)) \<le> unat (idl_alloc b)" using assms(1) by (auto simp: block_wf_def idl_wf_def)
  let ?full = "hd (idl_words b) \<ge> idl_alloc b"
  have room: "\<not> ?full \<Longrightarrow> unat (hd (idl_words b)) + 1 \<le> unat (idl_alloc b)"
    by (simp add: word_le_nat_alt)
  show ?thesis
  proof (rule grow_if_room [OF assms room, of ?full])
    show "(1::nat) \<le> MDB_IDL_UM_MAX" by simp
  next
    assume f: "hd (idl_words b) \<ge> idl_alloc b"
      and g: "(if ?full then mdb_midl_grow h b MDB_IDL_UM_MAX else (0, b)) = (ENOMEM, b)"
    then have "mdb_midl_append h b x = Some (ENOMEM, b)"
      using hd0 by (simp add: mdb_midl_append_def)
    moreover have "unat (hd (idl_words b)) = unat (idl_alloc b)" using f nle by (simp add: word_le_nat_alt)
    ultimately show ?thesis by simp
  next
    fix b' assume b': "(if ?full then mdb_midl_grow h b MDB_IDL_UM_MAX else (0, b)) = (0, b')" "block_wf b'"
      "unat (hd (idl_words b)) + 1 < length (idl_words b')" "elems b' = elems b"
      "hd (idl_words b') = hd (idl_words b)"
    let ?n = "hd (idl_words b')" and ?ws = "idl_words b'"
    have wf': "idl_wf ?ws" "idl_words b' ! 0 = ?n" "0 < length ?ws" and alloc': "unat (idl_alloc b') < 2 ^ 60"
      "length ?ws = unat (idl_alloc b') + 1"
      using b'(2) idl_wf_hd by (auto simp: block_wf_def)
    have n1: "unat (?n + 1) = unat ?n + 1"
      using unat_add_of_nat [of ?n 1] alloc' b'(3,5) by simp
    let ?ys = "?ws[0 := ?n + 1, Suc (unat ?n) := x]"
    have "idl_wf ?ys \<and> idl_elems ?ys = idl_elems ?ws @ take 1 (drop (unat ?n + 1) ?ys)"
      using wf' n1 b'(3,5) by (intro idl_elems_set_count) (auto simp: hd_conv_nth nth_list_update)
    moreover have "take 1 (drop (unat ?n + 1) ?ys) = [x]"
      using b'(3,5) by (simp add: take_Suc_conv_app_nth)
    moreover have "mdb_midl_append h b x = Some (0, b'\<lparr>idl_words := ?ys\<rparr>)"
      using b' wf' hd0 n1 by (simp add: mdb_midl_append_def)
    ultimately show ?thesis using b'(2,4) alloc' by (auto simp: block_wf_def)
  qed
qed

lemma mdb_midl_append_list_spec:
  assumes "block_wf b" "allocator_ok h" "idl_wf app"
    and "unat (idl_alloc b) + unat (hd app) < 2 ^ 60"
  shows "mdb_midl_append_list h b app = Some (ENOMEM, b) \<or>
    (\<exists>b'. mdb_midl_append_list h b app = Some (0, b') \<and> block_wf b' \<and> elems b' = elems b @ idl_elems app)"
proof -
  have wf: "idl_wf (idl_words b)" using assms(1) by (simp add: block_wf_def)
  note hd0 = idl_wf_hd [OF wf] and hda = idl_wf_hd [OF assms(3)]
  have nle: "unat (hd (idl_words b)) \<le> unat (idl_alloc b)" using assms(1) by (auto simp: block_wf_def idl_wf_def)
  let ?m = "hd app"
  have sum: "unat (hd (idl_words b) + ?m) = unat (hd (idl_words b)) + unat ?m"
    using unat_add_of_nat [of "hd (idl_words b)" "unat ?m"] nle assms(4) by simp
  let ?full = "hd (idl_words b) + ?m \<ge> idl_alloc b"
  have room: "\<not> ?full \<Longrightarrow> unat (hd (idl_words b)) + unat ?m \<le> unat (idl_alloc b)"
    using sum by (simp add: word_le_nat_alt)
  have ma: "unat ?m < length app" using assms(3) by (simp add: idl_wf_def)
  show ?thesis
  proof (rule grow_if_room [OF assms(1,2,4) room, of ?full])
    show "unat ?m \<le> unat ?m" by simp
  next
    assume "?full" "(if ?full then mdb_midl_grow h b (unat ?m) else (0, b)) = (ENOMEM, b)"
    then show ?thesis using hd0 hda by (simp add: mdb_midl_append_list_def)
  next
    fix b' assume b': "(if ?full then mdb_midl_grow h b (unat ?m) else (0, b)) = (0, b')" "block_wf b'"
      "unat (hd (idl_words b)) + unat ?m < length (idl_words b')" "elems b' = elems b"
      "hd (idl_words b') = hd (idl_words b)"
    let ?n = "hd (idl_words b')" and ?ws = "idl_words b'"
    have wf': "idl_wf ?ws" "?ws ! 0 = ?n" "0 < length ?ws" and alloc': "unat (idl_alloc b') < 2 ^ 60"
      "length ?ws = unat (idl_alloc b') + 1"
      using b'(2) idl_wf_hd by (auto simp: block_wf_def)
    let ?cp = "take (Suc (unat ?n)) ?ws @ take (unat ?m) (tl app) @ drop (Suc (unat ?n) + unat ?m) ?ws"
    let ?ys = "?cp[0 := ?n + ?m]"
    have lencp: "length ?cp = length ?ws" using ma b'(3,5) by simp
    have nm: "unat (?n + ?m) = unat ?n + unat ?m" using sum b'(5) by simp
    have "idl_wf ?ys \<and> idl_elems ?ys = idl_elems ?ws @ take (unat ?m) (drop (unat ?n + 1) ?ys)"
      using wf' nm b'(3,5) lencp ma
      by (intro idl_elems_set_count) (auto simp: hd_conv_nth nth_list_update nth_append)
    moreover have "take (unat ?m) (drop (unat ?n + 1) ?ys) = take (unat ?m) (tl app)"
      using b'(3,5) ma by simp
    moreover have "mdb_midl_append_list h b app = Some (0, b'\<lparr>idl_words := ?ys\<rparr>)"
      using b' wf' hd0 hda ma lencp by (simp add: mdb_midl_append_list_def put_words_def)
    ultimately show ?thesis using b'(2,4) alloc' lencp
      by (auto simp: block_wf_def idl_elems_def [of app])
  qed
qed

lemma fill_range_spec:
  "base + n < length xs \<Longrightarrow> \<exists>ys. fill_range xs base n x = Some ys \<and> length ys = length xs \<and>
     (\<forall>i. i \<le> base \<or> base + n < i \<longrightarrow> ys ! i = xs ! i) \<and>
     (\<forall>k<n. ys ! (base + n - k) = x + of_nat k)"
proof (induction n arbitrary: xs x)
  case 0
  then show ?case by simp
next
  case (Suc n)
  let ?xs = "xs[base + Suc n := x]"
  from Suc.prems have "base + n < length ?xs" by simp
  from Suc.IH [OF this, of "x + 1"] obtain ys where ys: "fill_range ?xs base n (x + 1) = Some ys"
    "length ys = length xs" "\<forall>i. i \<le> base \<or> base + n < i \<longrightarrow> ys ! i = ?xs ! i"
    "\<forall>k<n. ys ! (base + n - k) = (x + 1) + of_nat k"
    by auto
  have "ys ! (base + Suc n - k) = x + of_nat k" if "k < Suc n" for k
  proof (cases k)
    case 0
    then show ?thesis using ys(3) Suc.prems by simp
  next
    case (Suc k')
    then show ?thesis using ys(4) that by (simp add: add.assoc)
  qed
  then show ?case using ys Suc.prems by auto
qed

lemma mdb_midl_append_range_spec:
  assumes "block_wf b" "allocator_ok h" "unat (idl_alloc b) + unat (n OR 131071) < 2 ^ 60"
  shows "mdb_midl_append_range h b x n = Some (ENOMEM, b) \<or>
    (\<exists>b'. mdb_midl_append_range h b x n = Some (0, b') \<and> block_wf b' \<and>
       elems b' = elems b @ rev (map (\<lambda>k. x + of_nat k) [0..<unat n]))"
proof -
  have wf: "idl_wf (idl_words b)" using assms(1) by (simp add: block_wf_def)
  note hd0 = idl_wf_hd [OF wf]
  have nle: "unat (hd (idl_words b)) \<le> unat (idl_alloc b)" using assms(1) by (auto simp: block_wf_def idl_wf_def)
  have or_ge: "unat n \<le> unat (n OR 131071)"
    by (rule unat_le_or)
  have un: "unat (ucast n :: u64) = unat n"
    by (simp add: unat_ucast_up)
  let ?m = "ucast n :: u64"
  have sum: "unat (hd (idl_words b) + ?m) = unat (hd (idl_words b)) + unat n"
    using unat_add_of_nat [of "hd (idl_words b)" "unat ?m"] nle assms(3) or_ge un by simp
  let ?full = "hd (idl_words b) + ?m > idl_alloc b"
  have room: "\<not> ?full \<Longrightarrow> unat (hd (idl_words b)) + unat n \<le> unat (idl_alloc b)"
    using sum by (simp add: word_less_nat_alt)
  show ?thesis
  proof (rule grow_if_room [OF assms room, of ?full])
    show "unat n \<le> unat (n OR 131071)" by (rule or_ge)
  next
    assume "?full" "(if ?full then mdb_midl_grow h b (unat (n OR 131071)) else (0, b)) = (ENOMEM, b)"
    then show ?thesis using hd0 by (simp add: mdb_midl_append_range_def)
  next
    fix b' assume b': "(if ?full then mdb_midl_grow h b (unat (n OR 131071)) else (0, b)) = (0, b')" "block_wf b'"
      "unat (hd (idl_words b)) + unat n < length (idl_words b')" "elems b' = elems b"
      "hd (idl_words b') = hd (idl_words b)"
    let ?c = "hd (idl_words b')" and ?ws = "idl_words b'"
    have wf': "idl_wf ?ws" "?ws ! 0 = ?c" "0 < length ?ws" and alloc': "unat (idl_alloc b') < 2 ^ 60"
      "length ?ws = unat (idl_alloc b') + 1"
      using b'(2) idl_wf_hd by (auto simp: block_wf_def)
    let ?xs = "?ws[0 := ?c + ?m]"
    from b'(3,5) have "unat ?c + unat n < length ?xs" by simp
    from fill_range_spec [OF this, of x] obtain ys where ys: "fill_range ?xs (unat ?c) (unat n) x = Some ys"
      "length ys = length ?ws" "\<forall>i. i \<le> unat ?c \<or> unat ?c + unat n < i \<longrightarrow> ys ! i = ?xs ! i"
      "\<forall>k<unat n. ys ! (unat ?c + unat n - k) = x + of_nat k"
      by auto
    have "ys \<noteq> []" "ys ! 0 = ?c + ?m" using ys(2,3) wf' by auto
    then have "idl_wf ys \<and> idl_elems ys = idl_elems ?ws @ take (unat n) (drop (unat ?c + 1) ys)"
      using wf' sum b'(3,5) ys by (intro idl_elems_set_count) (auto simp: hd_conv_nth [of ys])
    moreover have "take (unat n) (drop (unat ?c + 1) ys) = rev (map (\<lambda>k. x + of_nat k) [0..<unat n])"
    proof (rule nth_equalityI)
      show "length (take (unat n) (drop (unat ?c + 1) ys)) = length (rev (map (\<lambda>k. x + of_nat k) [0..<unat n]))"
        using ys(2) b'(3,5) by simp
    next
      fix i assume "i < length (take (unat n) (drop (unat ?c + 1) ys))"
      then have i: "i < unat n" by simp
      have "ys ! Suc (unat ?c + i) = x + of_nat (unat n - Suc i)"
        using ys(4) [rule_format, of "unat n - Suc i"] i by (simp del: of_nat_diff)
      then show "take (unat n) (drop (unat ?c + 1) ys) ! i = rev (map (\<lambda>k. x + of_nat k) [0..<unat n]) ! i"
        using i ys(2) b'(3,5) by (simp add: rev_nth del: of_nat_diff)
    qed
    moreover have "mdb_midl_append_range h b x n = Some (0, b'\<lparr>idl_words := ys\<rparr>)"
      using b'(1,5) wf'(2,3) hd0 ys(1) by (cases "?full") (simp_all add: mdb_midl_append_range_def)
    ultimately show ?thesis using b'(2,4) alloc' ys(2) by (auto simp: block_wf_def)
  qed
qed

lemma mdb_midl_need_spec:
  assumes "block_wf b" "allocator_ok h"
    and "unat (hd (idl_words b)) + num + (unat (hd (idl_words b)) + num) div 4 + 258 < 2 ^ 32"
  shows "mdb_midl_need h b num = Some (ENOMEM, b) \<or>
    (\<exists>b'. mdb_midl_need h b num = Some (0, b') \<and> block_wf b' \<and> elems b' = elems b \<and>
       unat (hd (idl_words b)) + num \<le> unat (idl_alloc b'))"
proof -
  have wf: "idl_wf (idl_words b)" using assms(1) by (simp add: block_wf_def)
  note hd0 = idl_wf_hd [OF wf]
  let ?n = "unat (hd (idl_words b)) + num"
  define w where "w = (?n + ?n div 4 + 258) div 256 * 256"
  have u: "u32 (unat (hd (idl_words b))) = unat (hd (idl_words b))" "u32 (num + unat (hd (idl_words b))) = ?n"
    "u32 (?n + ?n div 4 + 258) = ?n + ?n div 4 + 258"
    using assms(3) by (auto simp: ac_simps)
  show ?thesis
  proof (cases "?n > unat (idl_alloc b)")
    case False
    then show ?thesis using assms(1) hd0 u by (auto simp: mdb_midl_need_def)
  next
    case True
    have w: "?n + 2 \<le> w" "w < 2 ^ 32" using assms(3) unfolding w_def by auto
    show ?thesis
    proof (cases "realloc_words h (idl_alloc b # idl_words b) w")
      case None
      then show ?thesis using True hd0 u by (simp add: mdb_midl_need_def Let_def flip: w_def)
    next
      case (Some ws)
      have "length (idl_alloc b # idl_words b) \<le> w" using w True assms(1) by (auto simp: block_wf_def)
      then obtain js where js: "ws = (idl_alloc b # idl_words b) @ js" "length ws = w"
        using realloc_words_grow [OF assms(2) _ Some] by auto
      let ?b = "\<lparr>idl_alloc = of_nat (w - 2), idl_words = idl_words b @ js\<rparr>"
      have al: "unat (of_nat (w - 2) :: u64) = w - 2"
        using w(2) by (intro unat_of_nat_small) simp
      have "block_wf ?b" using js w al assms(1) by (auto simp: block_wf_def)
      moreover have "elems ?b = elems b" using wf by simp
      moreover have "mdb_midl_need h b num = Some (0, ?b)"
        using True hd0 u Some js by (simp add: mdb_midl_need_def Let_def flip: w_def)
      ultimately show ?thesis using al w by (intro disjI2 exI [of _ ?b]) auto
    qed
  qed
qed

lemma mdb_midl_alloc_spec:
  assumes "allocator_ok h" "n < 2 ^ 60" "mdb_midl_alloc h n = Some b"
  shows "block_wf b \<and> elems b = [] \<and> unat (idl_alloc b) = n"
proof -
  obtain js where js: "h (n + 2) = Some js" "b = \<lparr>idl_alloc = of_nat n, idl_words = 0 # drop 2 js\<rparr>"
    using assms(3) by (auto simp: mdb_midl_alloc_def split: option.splits)
  have "unat (of_nat n :: u64) = n" using assms(2) by (intro unat_of_nat_small) simp
  then show ?thesis using js assms by (auto simp: allocator_ok_def block_wf_def idl_wf_def idl_elems_def)
qed

lemma mdb_midl_shrink_spec:
  assumes "block_wf b" "allocator_ok h" "unat (hd (idl_words b)) \<le> MDB_IDL_UM_MAX"
  shows "block_wf (mdb_midl_shrink h b) \<and> elems (mdb_midl_shrink h b) = elems b"
proof (cases "unat (idl_alloc b) > MDB_IDL_UM_MAX \<and>
    realloc_words h (idl_alloc b # idl_words b) (MDB_IDL_UM_MAX + 2) \<noteq> None")
  case False
  then show ?thesis using assms(1) by (auto simp: mdb_midl_shrink_def split: option.splits)
next
  case True
  then obtain js where js: "h (MDB_IDL_UM_MAX + 2) = Some js" by (auto simp: realloc_words_def)
  have len: "131072 < length (idl_words b)" using True assms(1) by (auto simp: block_wf_def)
  have r: "mdb_midl_shrink h b = \<lparr>idl_alloc = 131071, idl_words = take 131072 (idl_words b)\<rparr>"
    using True js len assms(2)
    by (auto simp: mdb_midl_shrink_def realloc_words_def allocator_ok_def)
  obtain w ws where "idl_words b = w # ws" using len by (cases "idl_words b") auto
  then show ?thesis using r assms len
    by (auto simp: block_wf_def idl_wf_def idl_elems_def min_def take_Cons')
qed

end
