(* ===== verification/Midl_Merge.thy ===== *)
theory Midl_Merge
  imports Midl
begin

text \<open>
  \<^verbatim>\<open>mdb_midl_xmerge\<close>: the in-place merge of one descending ID list into another returns the
  descending list of all the entries of both.
\<close>

definition desc :: "'a::linorder list \<Rightarrow> bool" where
  "desc xs \<longleftrightarrow> sorted_wrt (\<ge>) xs"

text \<open>The slots \<open>a..<b\<close> of an array.\<close>

definition seg :: "'a list \<Rightarrow> nat \<Rightarrow> nat \<Rightarrow> 'a list" where
  "seg xs a b = take (b - a) (drop a xs)"

lemma length_seg [simp]: "b \<le> length xs \<Longrightarrow> length (seg xs a b) = b - a"
  by (simp add: seg_def)

lemma seg_empty [simp]: "b \<le> a \<Longrightarrow> seg xs a b = []"
  by (simp add: seg_def)

lemma seg_nth [simp]: "b \<le> length xs \<Longrightarrow> i < b - a \<Longrightarrow> seg xs a b ! i = xs ! (a + i)"
  by (simp add: seg_def)

lemma seg_snoc: "a \<le> b \<Longrightarrow> b < length xs \<Longrightarrow> seg xs a (Suc b) = seg xs a b @ [xs ! b]"
  by (simp add: seg_def Suc_diff_le take_Suc_conv_app_nth)

lemma seg_update [simp]: "i < a \<or> b \<le> i \<Longrightarrow> seg (xs[i := v]) a b = seg xs a b"
  by (cases "a \<le> i") (auto simp: seg_def drop_update_cancel drop_update_swap take_update_cancel)

lemma seg_split: "a \<le> m \<Longrightarrow> m \<le> b \<Longrightarrow> seg xs a b = seg xs a m @ seg xs m b"
proof -
  assume "a \<le> m" "m \<le> b"
  then have "take (b - a) (drop a xs) = take ((m - a) + (b - m)) (drop a xs)" by simp
  also have "\<dots> = take (m - a) (drop a xs) @ take (b - m) (drop (m - a) (drop a xs))"
    by (rule take_add)
  finally show ?thesis using \<open>a \<le> m\<close> by (simp add: seg_def)
qed

lemma idl_elems_seg: "idl_wf xs \<Longrightarrow> idl_elems xs = seg xs 1 (unat (hd xs) + 1)"
  by (cases xs) (auto simp: idl_elems_def seg_def)

lemma desc_append:
  "desc (xs @ ys) \<longleftrightarrow> desc xs \<and> desc ys \<and> (\<forall>x \<in> set xs. \<forall>y \<in> set ys. y \<le> x)"
  by (auto simp: desc_def sorted_wrt_append)

lemma desc_seg_last: "desc (seg xs 1 (Suc j)) \<Longrightarrow> j < length xs \<Longrightarrow> x \<in> set (seg xs 1 (Suc j)) \<Longrightarrow> xs ! j \<le> x"
  by (cases j) (auto simp: seg_snoc desc_append)

text \<open>
  The scan moves the entries of the old list that are below the merged one to the tail. Slot 0
  holds the delimiter, which no entry exceeds.
\<close>

lemma xmerge_scan_spec:
  assumes "j < k" "k < length idl" "idl ! 0 = - 1" "old_id = idl ! j"
  shows "\<exists>j' idl'. xmerge_scan idl old_id m j k = Some (idl', idl' ! j', j', k - (j - j')) \<and> j' \<le> j \<and>
    length idl' = length idl \<and> seg idl' 0 (Suc j') = seg idl 0 (Suc j') \<and>
    drop (Suc (k - (j - j'))) idl' = seg idl (Suc j') (Suc j) @ drop (Suc k) idl \<and>
    (\<forall>x \<in> set (seg idl (Suc j') (Suc j)). x < m) \<and> m \<le> idl ! j'"
  using assms
proof (induction idl old_id m j k rule: xmerge_scan.induct)
  case (1 idl old_id m j k)
  show ?case
  proof (cases "old_id < m")
    case False
    then show ?thesis using "1.prems"
      by (intro exI [of _ j] exI [of _ idl]) (auto simp: xmerge_scan.simps [of idl])
  next
    case True
    have j0: "j \<noteq> 0"
    proof
      assume "j = 0"
      then have "old_id = - 1" using "1.prems" by simp
      then show False using True by (simp add: not_less [THEN iffD2])
    qed
    let ?idl = "idl[k := old_id]"
    have IH: "\<exists>j' idl'. xmerge_scan ?idl (?idl ! (j - 1)) m (j - 1) (k - 1) =
        Some (idl', idl' ! j', j', k - 1 - (j - 1 - j')) \<and> j' \<le> j - 1 \<and>
        length idl' = length ?idl \<and> seg idl' 0 (Suc j') = seg ?idl 0 (Suc j') \<and>
        drop (Suc (k - 1 - (j - 1 - j'))) idl' = seg ?idl (Suc j') (Suc (j - 1)) @ drop (Suc (k - 1)) ?idl \<and>
        (\<forall>x \<in> set (seg ?idl (Suc j') (Suc (j - 1))). x < m) \<and> m \<le> ?idl ! j'"
      using "1.prems" True j0 by (intro "1.IH") auto
    then obtain j' idl' where r: "xmerge_scan ?idl (idl ! (j - 1)) m (j - 1) (k - 1) =
        Some (idl', idl' ! j', j', k - (j - j'))" "j' \<le> j - 1"
        "length idl' = length idl" "seg idl' 0 (Suc j') = seg idl 0 (Suc j')"
        "drop (Suc (k - (j - j'))) idl' = seg idl (Suc j') j @ drop k ?idl"
        "\<forall>x \<in> set (seg idl (Suc j') j). x < m" "m \<le> idl ! j'"
      using j0 "1.prems" by auto
    have unfold: "xmerge_scan idl old_id m j k = Some (idl', idl' ! j', j', k - (j - j'))"
      using True j0 "1.prems" r(1) by (subst xmerge_scan.simps) simp
    have "drop k ?idl = idl ! j # drop (Suc k) idl"
      using "1.prems" by (simp add: drop_update_swap Cons_nth_drop_Suc [symmetric])
    then have "drop (Suc (k - (j - j'))) idl' = seg idl (Suc j') (Suc j) @ drop (Suc k) idl"
      using r(2,5) j0 "1.prems" by (simp add: seg_snoc)
    moreover have "\<forall>x \<in> set (seg idl (Suc j') (Suc j)). x < m"
      using r(2,6) j0 "1.prems" True by (auto simp: seg_snoc)
    ultimately show ?thesis using unfold r by (intro exI [of _ j'] exI [of _ idl']) auto
  qed
qed

text \<open>
  The outer loop: whatever the tail of the array held, the slots up to \<open>k = i + j\<close> receive a
  descending list of the entries still to be merged.
\<close>

lemma xmerge_loop_spec:
  assumes "k = i + j" "k < length idl" "i < length merge" "idl ! 0 = - 1" "old_id = idl ! j"
    and "desc (seg idl 1 (Suc j))" "desc (seg merge 1 (Suc i))"
  shows "\<exists>ms. xmerge_loop idl merge old_id i j k = Some (take 1 idl @ ms @ drop (Suc k) idl) \<and>
    desc ms \<and> mset ms = mset (seg idl 1 (Suc j)) + mset (seg merge 1 (Suc i))"
  using assms
proof (induction i arbitrary: idl old_id j k)
  case 0
  have "seg idl 1 (Suc j) @ drop (Suc j) idl = drop 1 idl"
    using append_take_drop_id [of j "drop 1 idl"] by (simp add: seg_def)
  then have "idl = take 1 idl @ seg idl 1 (Suc j) @ drop (Suc k) idl"
    using 0 append_take_drop_id [of 1 idl] by simp
  then show ?case using 0 by (intro exI [of _ "seg idl 1 (Suc j)"]) auto
next
  case (Suc i)
  let ?m = "merge ! Suc i"
  have jk: "j < k" using Suc.prems(1) by simp
  obtain j' idl' where sc: "xmerge_scan idl old_id ?m j k = Some (idl', idl' ! j', j', k - (j - j'))"
    "j' \<le> j" "length idl' = length idl" "seg idl' 0 (Suc j') = seg idl 0 (Suc j')"
    "drop (Suc (k - (j - j'))) idl' = seg idl (Suc j') (Suc j) @ drop (Suc k) idl"
    "\<forall>x \<in> set (seg idl (Suc j') (Suc j)). x < ?m" "?m \<le> idl ! j'"
    using xmerge_scan_spec [OF jk Suc.prems(2,4,5), of ?m] by blast
  define k' where "k' = k - (j - j')"
  have k': "k' = Suc i + j'" "j' < k'" "k' < length idl'" using Suc.prems(1,2) sc(2,3) by (auto simp: k'_def)
  have same: "idl' ! n = idl ! n" if "n \<le> j'" for n
  proof -
    have "seg idl' 0 (Suc j') ! n = seg idl 0 (Suc j') ! n" using sc(4) by simp
    then show ?thesis using that k' sc(3) by simp
  qed
  let ?idl = "idl'[k' := ?m]"
  have seg1: "seg ?idl 1 (Suc j') = seg idl 1 (Suc j')"
  proof -
    have "seg ?idl 1 (Suc j') = seg idl' 1 (Suc j')" using k' by simp
    also have "\<dots> = seg idl 1 (Suc j')"
      using k' sc(3) same by (intro nth_equalityI) auto
    finally show ?thesis .
  qed
  have parts: "seg idl 1 (Suc j) = seg idl 1 (Suc j') @ seg idl (Suc j') (Suc j)"
    using sc(2) by (intro seg_split) auto
  have mparts: "seg merge 1 (Suc (Suc i)) = seg merge 1 (Suc i) @ [?m]"
    using Suc.prems(3) by (simp add: seg_snoc)
  have "\<exists>ms. xmerge_loop ?idl merge (?idl ! j') i j' (k' - 1) = Some (take 1 ?idl @ ms @ drop (Suc (k' - 1)) ?idl) \<and>
      desc ms \<and> mset ms = mset (seg ?idl 1 (Suc j')) + mset (seg merge 1 (Suc i))"
    using Suc.prems k' same [of 0] seg1 parts mparts sc(3)
    by (intro Suc.IH) (auto simp: desc_append)
  then obtain ms where ms: "xmerge_loop ?idl merge (idl' ! j') i j' (k' - 1) =
        Some (take 1 ?idl @ ms @ drop k' ?idl)" "desc ms"
      "mset ms = mset (seg idl 1 (Suc j')) + mset (seg merge 1 (Suc i))"
    using k' seg1 by auto
  let ?ms = "ms @ ?m # seg idl (Suc j') (Suc j)"
  have "drop k' ?idl = ?m # seg idl (Suc j') (Suc j) @ drop (Suc k) idl"
    using k' sc(5) by (simp add: drop_update_swap Cons_nth_drop_Suc [symmetric] flip: k'_def)
  moreover have "take 1 ?idl = take 1 idl"
    using k' same [of 0] sc(3) by (intro nth_equalityI) auto
  moreover have "xmerge_loop idl merge old_id (Suc i) j k = Some (take 1 ?idl @ ms @ drop k' ?idl)"
    using sc(1) ms(1) k' Suc.prems(3) by (simp flip: k'_def)
  moreover have "desc ?ms"
  proof -
    have d: "desc (seg idl 1 (Suc j') @ seg idl (Suc j') (Suc j))" "desc (seg merge 1 (Suc i) @ [?m])"
      using Suc.prems(6,7) parts mparts by auto
    have above: "?m \<le> x" if "x \<in> set ms" for x
    proof -
      have "set ms = set (seg idl 1 (Suc j')) \<union> set (seg merge 1 (Suc i))"
        using ms(3) by (metis set_mset_mset set_mset_union)
      with that consider "x \<in> set (seg idl 1 (Suc j'))" | "x \<in> set (seg merge 1 (Suc i))" by blast
      then show ?thesis
      proof cases
        case 1
        then have "idl ! j' \<le> x" using d(1) k' sc(3) by (intro desc_seg_last) (auto simp: desc_append)
        then show ?thesis using sc(7) by simp
      next
        case 2
        then show ?thesis using d(2) by (auto simp: desc_append)
      qed
    qed
    then show ?thesis using d ms(2) sc(6)
      by (fastforce simp: desc_append desc_def sorted_wrt_append)
  qed
  moreover have "mset ?ms = mset (seg idl 1 (Suc j)) + mset (seg merge 1 (Suc (Suc i)))"
    using ms(3) parts mparts by simp
  ultimately show ?case by (intro exI [of _ ?ms]) auto
qed

lemma mdb_midl_xmerge_spec:
  assumes "idl_wf merge" "idl_wf idl" "desc (idl_elems merge)" "desc (idl_elems idl)"
    and "unat (hd idl) + unat (hd merge) < length idl" "length idl < 2 ^ 64"
  shows "\<exists>idl'. mdb_midl_xmerge idl merge = Some idl' \<and> idl_wf idl' \<and> desc (idl_elems idl') \<and>
    mset (idl_elems idl') = mset (idl_elems idl) + mset (idl_elems merge) \<and> length idl' = length idl"
proof -
  let ?j = "unat (hd idl)" and ?i = "unat (hd merge)"
  let ?idl = "idl[0 := - 1]"
  have nn: "idl ! 0 = hd idl" "merge ! 0 = hd merge" "0 < length idl" "?i < length merge" "0 < length merge"
    using assms(1,2) idl_wf_hd by (auto simp: idl_wf_def)
  have tot: "unat (hd merge + hd idl) = ?i + ?j" using assms(5,6) by (intro unat_add_small) simp
  have el: "seg ?idl 1 (Suc ?j) = idl_elems idl" "seg merge 1 (Suc ?i) = idl_elems merge"
    using assms(1,2) by (auto simp: idl_elems_seg)
  obtain ms where ms: "xmerge_loop ?idl merge (?idl ! ?j) ?i ?j (?i + ?j) =
      Some (take 1 ?idl @ ms @ drop (Suc (?i + ?j)) ?idl)" "desc ms"
      "mset ms = mset (idl_elems idl) + mset (idl_elems merge)"
    using xmerge_loop_spec [of "?i + ?j" ?i ?j ?idl merge "?idl ! ?j"] assms nn el by auto
  have len: "length ms = ?i + ?j"
    using ms(3) assms(1,2) by (metis add.commute length_idl_elems size_mset size_union)
  let ?r = "(hd merge + hd idl) # ms @ drop (Suc (?i + ?j)) idl"
  have "mdb_midl_xmerge idl merge = Some ?r"
    using nn ms(1) tot assms(5) by (cases idl) (auto simp: mdb_midl_xmerge_def Let_def)
  moreover have "idl_wf ?r" "idl_elems ?r = ms" using tot len by (auto simp: idl_wf_def idl_elems_def)
  moreover have "length ?r = length idl" using len assms(5) by simp
  ultimately show ?thesis using ms(2,3) by auto
qed

end
