(* ===== verification/Midl_Sort.thy ===== *)
theory Midl_Sort
  imports Midl_Merge
begin

text \<open>
  \<^verbatim>\<open>mdb_midl_sort\<close>: a quicksort with an explicit stack that leaves segments of fewer than
  \<open>SMALL\<close> slots to insertion sort. Every access to the ID array and to the stack is checked, so
  the theorem that it returns also says that it stays inside both.
\<close>

section \<open>The code\<close>

abbreviation (input) SMALL :: nat where
  "SMALL \<equiv> 8"

text \<open>\<^verbatim>\<open>int istack[sizeof(int)*CHAR_BIT * 2]\<close>\<close>

abbreviation (input) ISTACK_SIZE :: nat where
  "ISTACK_SIZE \<equiv> 64"

text \<open>The inner loop of the insertion sort: shift the slots below \<open>a\<close> up by one.\<close>

fun sort_shift :: "MDB_ID list \<Rightarrow> MDB_ID \<Rightarrow> nat \<Rightarrow> (MDB_ID list \<times> nat) option" where
  "sort_shift xs a 0 = Some (xs, 0)"
| "sort_shift xs a (Suc i) = do {
     x \<leftarrow> rd xs (Suc i);
     if x \<ge> a then Some (xs, Suc i)
     else do {
       xs \<leftarrow> wr xs (Suc (Suc i)) x;
       sort_shift xs a i } }"

function sort_insertion :: "MDB_ID list \<Rightarrow> nat \<Rightarrow> nat \<Rightarrow> MDB_ID list option" where
  "sort_insertion xs j ir =
     (if j \<le> ir then do {
        a \<leftarrow> rd xs j;
        (xs, i) \<leftarrow> sort_shift xs a (j - 1);
        xs \<leftarrow> wr xs (i + 1) a;
        sort_insertion xs (j + 1) ir }
      else Some xs)"
  by pat_completeness auto
termination
  by (relation "measure (\<lambda>(xs, j, ir). Suc ir - j)") auto

declare sort_insertion.simps [simp del]

text \<open>\<^verbatim>\<open>MIDL_SWAP(ids[p], ids[q])\<close>\<close>

definition midl_swap :: "MDB_ID list \<Rightarrow> nat \<Rightarrow> nat \<Rightarrow> MDB_ID list option" where
  "midl_swap xs p q = do {
     itmp \<leftarrow> rd xs p;
     b \<leftarrow> rd xs q;
     xs \<leftarrow> wr xs p b;
     wr xs q itmp }"

definition swap_if_less :: "MDB_ID list \<Rightarrow> nat \<Rightarrow> nat \<Rightarrow> MDB_ID list option" where
  "swap_if_less xs p q = do {
     x \<leftarrow> rd xs p;
     y \<leftarrow> rd xs q;
     if x < y then midl_swap xs p q else Some xs }"

text \<open>\<^verbatim>\<open>do i++; while (ids[i] > a)\<close> and \<^verbatim>\<open>do j--; while (ids[j] < a)\<close>\<close>

function scan_up :: "MDB_ID list \<Rightarrow> MDB_ID \<Rightarrow> nat \<Rightarrow> nat option" where
  "scan_up xs a i = do {
     x \<leftarrow> rd xs (i + 1);
     if x > a then scan_up xs a (i + 1) else Some (i + 1) }"
  by pat_completeness auto
termination
  by (relation "measure (\<lambda>(xs, a, i). length xs - i)") (auto simp: rd_def split: if_splits)

fun scan_down :: "MDB_ID list \<Rightarrow> MDB_ID \<Rightarrow> nat \<Rightarrow> nat option" where
  "scan_down xs a 0 = None"
| "scan_down xs a (Suc j) = do {
     x \<leftarrow> rd xs j;
     if x < a then scan_down xs a j else Some j }"

declare scan_up.simps [simp del]

lemma scan_up_bounds: "scan_up xs a i = Some i' \<Longrightarrow> i < i' \<and> i' < length xs"
proof (induction xs a i rule: scan_up.induct)
  case (1 xs a i)
  then show ?case
    by (subst (asm) (2) scan_up.simps) (auto simp: bind_eq_Some_conv split: if_splits dest!: rd_SomeD)
qed

text \<open>The partition loop; it ends when the two scans have crossed.\<close>

function sort_partition :: "MDB_ID list \<Rightarrow> MDB_ID \<Rightarrow> nat \<Rightarrow> nat \<Rightarrow> (MDB_ID list \<times> nat \<times> nat) option" where
  "sort_partition xs a i j = do {
     i' \<leftarrow> scan_up xs a i;
     j' \<leftarrow> scan_down xs a j;
     if j' < i' then Some (xs, i', j')
     else (case midl_swap xs i' j' of None \<Rightarrow> None | Some ys \<Rightarrow> sort_partition ys a i' j') }"
  by pat_completeness auto
termination
  by (relation "measure (\<lambda>(xs, a, i, j). length xs - i)")
    (auto simp: midl_swap_def bind_eq_Some_conv dest!: scan_up_bounds rd_SomeD wr_SomeD)

declare sort_partition.simps [simp del]

text \<open>One pass of the outer loop over a large segment: median of three, partition, place the pivot.\<close>

definition sort_split :: "MDB_ID list \<Rightarrow> nat \<Rightarrow> nat \<Rightarrow> (MDB_ID list \<times> nat \<times> nat) option" where
  "sort_split xs l ir = do {
     let k = (l + ir) div 2;
     xs \<leftarrow> midl_swap xs k (l + 1);
     xs \<leftarrow> swap_if_less xs l ir;
     xs \<leftarrow> swap_if_less xs (l + 1) ir;
     xs \<leftarrow> swap_if_less xs l (l + 1);
     a \<leftarrow> rd xs (l + 1);
     (xs, i, j) \<leftarrow> sort_partition xs a (l + 1) ir;
     b \<leftarrow> rd xs j;
     xs \<leftarrow> wr xs (l + 1) b;
     xs \<leftarrow> wr xs j a;
     Some (xs, i, j) }"

partial_function (option) sort_loop :: "MDB_ID list \<Rightarrow> nat list \<Rightarrow> nat \<Rightarrow> nat \<Rightarrow> nat \<Rightarrow> MDB_ID list option" where
  "sort_loop xs istack jstack l ir =
     (if ir < l + SMALL then do {
        xs \<leftarrow> sort_insertion xs (l + 1) ir;
        if jstack = 0 then Some xs
        else do {
          ir \<leftarrow> rd istack jstack;
          l \<leftarrow> rd istack (jstack - 1);
          sort_loop xs istack (jstack - 2) l ir } }
      else do {
        (xs, i, j) \<leftarrow> sort_split xs l ir;
        let jstack = jstack + 2;
        if int ir - int i + 1 \<ge> int j - int l then do {
          istack \<leftarrow> wr istack jstack ir;
          istack \<leftarrow> wr istack (jstack - 1) i;
          sort_loop xs istack jstack l (j - 1) }
        else do {
          istack \<leftarrow> wr istack jstack (j - 1);
          istack \<leftarrow> wr istack (jstack - 1) l;
          sort_loop xs istack jstack i ir } })"

declare sort_loop.simps [code]

definition mdb_midl_sort :: "MDB_ID list \<Rightarrow> MDB_ID list option" where
  "mdb_midl_sort xs = do {
     n \<leftarrow> rd xs 0;
     sort_loop xs (replicate ISTACK_SIZE 0) 0 1 (nat (sint (ucast n :: 32 word))) }"

section \<open>Rearrangements of one segment\<close>

definition perm_in :: "nat \<Rightarrow> nat \<Rightarrow> 'a list \<Rightarrow> 'a list \<Rightarrow> bool" where
  "perm_in l r xs ys \<longleftrightarrow> length ys = length xs \<and> (\<forall>p. p < l \<or> r \<le> p \<longrightarrow> ys ! p = xs ! p) \<and>
     mset (seg ys l r) = mset (seg xs l r)"

lemma perm_in_refl [simp]: "perm_in l r xs xs"
  by (simp add: perm_in_def)

lemma perm_in_trans: "perm_in l r xs ys \<Longrightarrow> perm_in l r ys zs \<Longrightarrow> perm_in l r xs zs"
  by (simp add: perm_in_def)

lemma perm_in_length: "perm_in l r xs ys \<Longrightarrow> length ys = length xs"
  by (simp add: perm_in_def)

lemma perm_in_set: "perm_in l r xs ys \<Longrightarrow> set (seg ys l r) = set (seg xs l r)"
  unfolding perm_in_def by (metis set_mset_mset)

lemma seg_update_in: "a \<le> i \<Longrightarrow> i < b \<Longrightarrow> seg (xs[i := v]) a b = (seg xs a b)[i - a := v]"
  by (simp add: seg_def drop_update_swap take_update_swap)

lemma set_seg_iff:
  assumes r: "r \<le> length xs"
  shows "x \<in> set (seg xs l r) \<longleftrightarrow> (\<exists>p. l \<le> p \<and> p < r \<and> xs ! p = x)"
proof
  assume "x \<in> set (seg xs l r)"
  then obtain i where "i < r - l" "xs ! (l + i) = x" using r by (auto simp: in_set_conv_nth)
  then show "\<exists>p. l \<le> p \<and> p < r \<and> xs ! p = x" by (intro exI [of _ "l + i"]) auto
next
  assume "\<exists>p. l \<le> p \<and> p < r \<and> xs ! p = x"
  then obtain p where "l \<le> p" "p < r" "xs ! p = x" by auto
  then have "p - l < length (seg xs l r)" "seg xs l r ! (p - l) = x" using r by auto
  then show "x \<in> set (seg xs l r)" by (metis nth_mem)
qed

lemma perm_in_swap:
  assumes "l \<le> p" "p < r" "l \<le> q" "q < r" "r \<le> length xs"
  shows "perm_in l r xs (xs[p := xs ! q, q := xs ! p])"
proof -
  let ?s = "seg xs l r"
  have "seg (xs[p := xs ! q, q := xs ! p]) l r = ?s[p - l := ?s ! (q - l), q - l := ?s ! (p - l)]"
    using assms by (simp add: seg_update_in)
  moreover have "mset (?s[p - l := ?s ! (q - l), q - l := ?s ! (p - l)]) = mset ?s"
    using assms by (intro mset_swap) auto
  ultimately show ?thesis using assms by (auto simp: perm_in_def)
qed

lemma perm_in_mono:
  assumes "perm_in l r xs ys" "l' \<le> l" "l \<le> r" "r \<le> r'" "r' \<le> length xs"
  shows "perm_in l' r' xs ys"
proof -
  have len: "length ys = length xs" using assms(1) by (simp add: perm_in_def)
  have sp: "seg zs l' r' = seg zs l' l @ seg zs l r @ seg zs r r'" for zs :: "'a list"
    using assms(2-4) seg_split [of l' l r' zs] seg_split [of l r r' zs] by simp
  have "seg ys l' l = seg xs l' l" "seg ys r r' = seg xs r r'"
    using assms len by (auto intro!: nth_equalityI simp: perm_in_def)
  then show ?thesis using assms len sp [of xs] sp [of ys] by (auto simp: perm_in_def)
qed

lemma midl_swap_spec:
  "p < length xs \<Longrightarrow> q < length xs \<Longrightarrow> midl_swap xs p q = Some (xs[p := xs ! q, q := xs ! p])"
  by (simp add: midl_swap_def)

lemma swap_if_less_spec:
  assumes "l \<le> p" "p < r" "l \<le> q" "q < r" "r \<le> length xs" "p \<noteq> q"
  shows "\<exists>ys. swap_if_less xs p q = Some ys \<and> perm_in l r xs ys \<and> ys ! q \<le> ys ! p \<and>
    ys ! p = max (xs ! p) (xs ! q) \<and> ys ! q = min (xs ! p) (xs ! q) \<and>
    (\<forall>m. m \<noteq> p \<longrightarrow> m \<noteq> q \<longrightarrow> ys ! m = xs ! m)"
proof (cases "xs ! p < xs ! q")
  case True
  then show ?thesis using assms perm_in_swap [OF assms(1-5)]
    by (auto simp: swap_if_less_def midl_swap_spec)
next
  case False
  then show ?thesis using assms by (auto simp: swap_if_less_def)
qed

section \<open>Insertion sort\<close>

lemma sort_shift_spec:
  "i + 1 < length xs \<Longrightarrow> \<exists>i'. sort_shift xs a i = Some (take (i' + 2) xs @ seg xs (i' + 1) (i + 1) @ drop (i + 2) xs, i') \<and>
     i' \<le> i \<and> (\<forall>x \<in> set (seg xs (i' + 1) (i + 1)). x < a) \<and> (0 < i' \<longrightarrow> a \<le> xs ! i')"
proof (induction i arbitrary: xs)
  case 0
  then show ?case by simp
next
  case (Suc i)
  show ?case
  proof (cases "a \<le> xs ! Suc i")
    case True
    then show ?thesis using Suc.prems by (intro exI [of _ "Suc i"]) simp
  next
    case False
    let ?xs = "xs[Suc (Suc i) := xs ! Suc i]"
    obtain i' where i': "sort_shift ?xs a i = Some (take (i' + 2) ?xs @ seg ?xs (i' + 1) (i + 1) @ drop (i + 2) ?xs, i')"
      "i' \<le> i" "\<forall>x \<in> set (seg ?xs (i' + 1) (i + 1)). x < a" "0 < i' \<longrightarrow> a \<le> ?xs ! i'"
      using Suc.IH [of ?xs] Suc.prems by auto
    have eq: "seg ?xs (i' + 1) (i + 1) = seg xs (i' + 1) (i + 1)" "take (i' + 2) ?xs = take (i' + 2) xs"
      "?xs ! i' = xs ! i'" using i'(2) by auto
    have "drop (i + 2) ?xs = xs ! Suc i # drop (i + 3) xs"
      using Suc.prems by (simp add: drop_update_swap Cons_nth_drop_Suc [symmetric] numeral_3_eq_3)
    then have "sort_shift xs a (Suc i) =
        Some (take (i' + 2) xs @ seg xs (i' + 1) (Suc i + 1) @ drop (Suc i + 2) xs, i')"
      using False Suc.prems i'(1,2) eq by (simp add: seg_snoc numeral_3_eq_3)
    then show ?thesis using i' eq False Suc.prems by (intro exI [of _ i']) (auto simp: seg_snoc)
  qed
qed

text \<open>Inserting slot \<open>j\<close> into the sorted slots \<open>l..<j\<close>; what lies before \<open>l\<close> is not smaller.\<close>

lemma insert_step:
  assumes "1 \<le> l" "l < j" "j < length xs" "desc (seg xs l j)" "1 < l \<longrightarrow> xs ! j \<le> xs ! (l - 1)"
  shows "\<exists>xs' i ys. sort_shift xs (xs ! j) (j - 1) = Some (xs', i) \<and> wr xs' (i + 1) (xs ! j) = Some ys \<and>
    perm_in l (Suc j) xs ys \<and> desc (seg ys l (Suc j))"
proof -
  let ?a = "xs ! j"
  have "j - 1 + 1 < length xs" using assms by simp
  from sort_shift_spec [OF this, of ?a] obtain i where i:
    "sort_shift xs ?a (j - 1) = Some (take (i + 2) xs @ seg xs (i + 1) j @ drop (Suc j) xs, i)"
    "i < j" "\<forall>x \<in> set (seg xs (i + 1) j). x < ?a" "0 < i \<longrightarrow> ?a \<le> xs ! i"
    using assms(2) by auto
  have li: "l \<le> i + 1"
  proof (rule ccontr)
    assume "\<not> l \<le> i + 1"
    then have "xs ! (l - 1) \<in> set (seg xs (i + 1) j)" "1 < l"
      using assms by (auto simp: set_seg_iff intro!: exI [of _ "l - 1"])
    then show False using i(3) assms(5) by fastforce
  qed
  let ?ys = "take (i + 1) xs @ ?a # seg xs (i + 1) j @ drop (Suc j) xs"
  have "take (i + 2) xs = take (i + 1) xs @ [xs ! (i + 1)]"
    using i(2) assms by (simp add: take_Suc_conv_app_nth)
  then have w: "wr (take (i + 2) xs @ seg xs (i + 1) j @ drop (Suc j) xs) (i + 1) ?a = Some ?ys"
    using i(2) assms by (simp add: wr_def list_update_append)
  obtain k where k: "j = Suc (i + k)" using i(2) less_imp_Suc_add by blast
  have seg_eq: "seg ?ys l (Suc j) = seg xs l (i + 1) @ ?a # seg xs (i + 1) j"
    using li i(2) assms k by (simp add: seg_def drop_take Suc_diff_le)
  have parts: "seg xs l j = seg xs l (i + 1) @ seg xs (i + 1) j"
    using li i(2) by (intro seg_split) auto
  have out: "?ys ! p = xs ! p" if "p < l \<or> Suc j \<le> p" for p
    using that li i(2) assms by (auto simp: nth_append nth_Cons')
  have "mset (seg ?ys l (Suc j)) = mset (seg xs l (Suc j))"
    using seg_eq parts assms by (simp add: seg_snoc)
  then have "perm_in l (Suc j) xs ?ys" using out i(2) assms by (auto simp: perm_in_def)
  moreover have "desc (seg ?ys l (Suc j))"
  proof -
    have "?a \<le> x" if "x \<in> set (seg xs l (i + 1))" for x
    proof -
      have "xs ! i \<le> x"
      proof (cases "l \<le> i")
        case True
        then have "seg xs l (i + 1) = seg xs l i @ [xs ! i]" using i(2) assms by (simp add: seg_snoc)
        then show ?thesis using that assms(4) parts by (auto simp: desc_append)
      next
        case False then show ?thesis using that by simp
      qed
      moreover have "0 < i" using that assms(1) by (cases "i") (auto simp: seg_def)
      ultimately show ?thesis using i(4) by auto
    qed
    then show ?thesis using seg_eq parts assms(4) i(3)
      by (fastforce simp: desc_append desc_def sorted_wrt_append)
  qed
  ultimately show ?thesis using i(1) w by (intro exI conjI) auto
qed

lemma sort_insertion_spec:
  assumes "1 \<le> l" "l < j" "j \<le> Suc ir" "ir < length xs" "desc (seg xs l j)"
    and "1 < l \<longrightarrow> (\<forall>x \<in> set (seg xs l (Suc ir)). x \<le> xs ! (l - 1))"
  shows "\<exists>ys. sort_insertion xs j ir = Some ys \<and> perm_in l (Suc ir) xs ys \<and> desc (seg ys l (Suc ir))"
  using assms
proof (induction "Suc ir - j" arbitrary: xs j)
  case 0
  then show ?case by (subst sort_insertion.simps) auto
next
  case (Suc k)
  then have j: "j \<le> ir" by simp
  have "xs ! j \<in> set (seg xs l (Suc ir))"
    using Suc.prems j by (auto simp: set_seg_iff intro!: exI [of _ j])
  then have "1 < l \<longrightarrow> xs ! j \<le> xs ! (l - 1)"
    using Suc.prems by blast
  with Suc.prems j obtain xs' i ys where st: "sort_shift xs (xs ! j) (j - 1) = Some (xs', i)"
    "wr xs' (i + 1) (xs ! j) = Some ys" "perm_in l (Suc j) xs ys" "desc (seg ys l (Suc j))"
    using insert_step [of l j xs] by auto
  have pm: "perm_in l (Suc ir) xs ys"
    using st(3) Suc.prems j by (intro perm_in_mono [OF st(3)]) auto
  have "\<exists>zs. sort_insertion ys (Suc j) ir = Some zs \<and> perm_in l (Suc ir) ys zs \<and> desc (seg zs l (Suc ir))"
    using Suc.hyps(2) Suc.prems j st(4) pm perm_in_length [OF pm] perm_in_set [OF pm]
    by (intro Suc.hyps(1)) (auto simp: perm_in_def)
  then show ?case using st j Suc.prems pm
    by (subst sort_insertion.simps) (auto intro: perm_in_trans)
qed

end
