(* ===== verification/Midl_Quicksort.thy ===== *)
theory Midl_Quicksort
  imports Midl_Sort
begin

text \<open>
  Total correctness of \<^verbatim>\<open>mdb_midl_sort\<close>: the partition step, the stack of segments still
  to sort, and the bound on its depth.
\<close>

section \<open>Partitioning\<close>

lemma scan_up_spec:
  assumes "i < s" "s < length xs" "xs ! s \<le> a"
  shows "\<exists>i'. scan_up xs a i = Some i' \<and> i < i' \<and> i' \<le> s \<and> xs ! i' \<le> a \<and> (\<forall>p. i < p \<longrightarrow> p < i' \<longrightarrow> a < xs ! p)"
  using assms
proof (induction xs a i rule: scan_up.induct)
  case (1 xs a i)
  show ?case
  proof (cases "xs ! (i + 1) > a")
    case False
    then show ?thesis using "1.prems" by (subst scan_up.simps) auto
  next
    case True
    then have "i + 1 < s" using "1.prems" by (cases "i + 1 = s") auto
    then obtain i' where i': "scan_up xs a (i + 1) = Some i'" "i + 1 < i'" "i' \<le> s" "xs ! i' \<le> a"
      "\<forall>p. i + 1 < p \<longrightarrow> p < i' \<longrightarrow> a < xs ! p"
      using "1.IH" [of "xs ! (i + 1)"] "1.prems" True by auto
    have "a < xs ! p" if "i < p" "p < i'" for p
      using that i'(5) True by (cases "p = i + 1") auto
    then show ?thesis using i' True "1.prems" \<open>i + 1 < s\<close> by (subst scan_up.simps) auto
  qed
qed

lemma scan_down_spec:
  assumes "t < j" "j \<le> length xs" "a \<le> xs ! t"
  shows "\<exists>j'. scan_down xs a j = Some j' \<and> t \<le> j' \<and> j' < j \<and> a \<le> xs ! j' \<and> (\<forall>p. j' < p \<longrightarrow> p < j \<longrightarrow> xs ! p < a)"
  using assms
proof (induction xs a j rule: scan_down.induct)
  case (1 xs a)
  then show ?case by simp
next
  case (2 xs a j)
  show ?case
  proof (cases "xs ! j < a")
    case False
    then show ?thesis using "2.prems" by auto
  next
    case True
    then have "t < j" using "2.prems" by (cases "t = j") auto
    then obtain j' where j': "scan_down xs a j = Some j'" "t \<le> j'" "j' < j" "a \<le> xs ! j'"
      "\<forall>p. j' < p \<longrightarrow> p < j \<longrightarrow> xs ! p < a"
      using "2.IH" [of "xs ! j"] "2.prems" True by auto
    then show ?thesis using True "2.prems" by (auto simp: less_Suc_eq)
  qed
qed

text \<open>
  The state of the partition loop: the slots up to \<open>i\<close> are at least the pivot \<open>a\<close>, those from \<open>j\<close>
  on at most \<open>a\<close>.
\<close>

definition parting :: "nat \<Rightarrow> nat \<Rightarrow> 'a::linorder \<Rightarrow> 'a list \<Rightarrow> nat \<Rightarrow> nat \<Rightarrow> bool" where
  "parting l ir a xs i j \<longleftrightarrow> Suc l \<le> i \<and> i \<le> j \<and> j \<le> ir \<and> i < ir \<and> (i = j \<longrightarrow> Suc l < i) \<and> ir < length xs \<and>
     (\<forall>p. l \<le> p \<longrightarrow> p \<le> i \<longrightarrow> a \<le> xs ! p) \<and> (\<forall>p. j \<le> p \<longrightarrow> p \<le> ir \<longrightarrow> xs ! p \<le> a) \<and> xs ! Suc l = a"

lemma sort_partition_spec:
  assumes "parting l ir a xs i j"
  shows "\<exists>ys i' j'. sort_partition xs a i j = Some (ys, i', j') \<and> perm_in l (Suc ir) xs ys \<and>
     j' < i' \<and> Suc l \<le> j' \<and> i' \<le> ir \<and> ys ! Suc l = a \<and> a \<le> ys ! j' \<and>
     (\<forall>p. l \<le> p \<longrightarrow> p < i' \<longrightarrow> a \<le> ys ! p) \<and> (\<forall>p. j' < p \<longrightarrow> p \<le> ir \<longrightarrow> ys ! p \<le> a)"
  using assms
proof (induction xs a i j rule: sort_partition.induct)
  case (1 xs a i j)
  note I = "1.prems" [unfolded parting_def]
  define s where "s = (if i < j then j else ir)"
  have s: "i < s" "s < length xs" "xs ! s \<le> a" "s \<le> ir" using I unfolding s_def by auto
  obtain i' where i': "scan_up xs a i = Some i'" "i < i'" "i' \<le> s" "xs ! i' \<le> a"
    "\<forall>p. i < p \<longrightarrow> p < i' \<longrightarrow> a < xs ! p"
    using scan_up_spec [OF s(1-3)] by auto
  define t where "t = (if i < j then i else Suc l)"
  have t: "t < j" "a \<le> xs ! t" "Suc l \<le> t" using I unfolding t_def by (auto split: if_splits)
  obtain j' where j': "scan_down xs a j = Some j'" "t \<le> j'" "j' < j" "a \<le> xs ! j'"
    "\<forall>p. j' < p \<longrightarrow> p < j \<longrightarrow> xs ! p < a"
    using scan_down_spec [of t j xs a] I t by auto
  have le: "i' \<le> ir" "Suc l \<le> j'" using i'(3) s j'(2) t by auto
  have geq: "a \<le> xs ! p" if "l \<le> p" "p < i'" for p
    using that i'(5) I by (cases "p \<le> i") (auto intro: less_imp_le)
  have leq: "xs ! p \<le> a" if "j' < p" "p \<le> ir" for p
    using that j'(5) I by (cases "j \<le> p") (auto intro: less_imp_le)
  show ?case
  proof (cases "j' < i'")
    case True
    then show ?thesis using i' j' le geq leq I
      by (subst sort_partition.simps) (auto intro!: exI [of _ xs])
  next
    case False
    have ij: "i < j" using False i' j' by auto
    let ?ys = "xs[i' := xs ! j', j' := xs ! i']"
    have sw: "midl_swap xs i' j' = Some ?ys" using False j' I by (intro midl_swap_spec) auto
    have pm: "perm_in l (Suc ir) xs ?ys"
      using False i' j' le I by (intro perm_in_swap) auto
    have "parting l ir a ?ys i' j'"
      unfolding parting_def
    proof (intro conjI allI impI)
      fix p assume "l \<le> p" "p \<le> i'"
      then show "a \<le> ?ys ! p"
        using False geq [of p] i'(2,4) j'(3,4) I by (cases "p = i'") (auto simp: nth_list_update)
    next
      fix p assume "j' \<le> p" "p \<le> ir"
      then show "?ys ! p \<le> a"
        using False leq [of p] i'(2,4) j'(3,4) I by (cases "p = j'") (auto simp: nth_list_update)
    qed (use False i' j' le I in auto)
    from "1.IH" [OF i'(1) j'(1) False sw this] sw i'(1) j'(1) False pm show ?thesis
      by (subst sort_partition.simps) (auto intro: perm_in_trans)
  qed
qed

text \<open>One split of a large segment: everything left of \<open>j\<close> is at least everything from \<open>j\<close> on, and so on.\<close>

lemma perm_in_le: "perm_in l r xs ys \<Longrightarrow> r \<le> length xs \<Longrightarrow> r \<le> length ys"
  by (simp add: perm_in_def)

lemma sort_split_spec:
  assumes "l + SMALL \<le> ir" "ir < length xs"
  shows "\<exists>ys i j a. sort_split xs l ir = Some (ys, i, j) \<and> perm_in l (Suc ir) xs ys \<and>
     j < i \<and> Suc l \<le> j \<and> i \<le> ir \<and>
     (\<forall>p. l \<le> p \<longrightarrow> p < i \<longrightarrow> a \<le> ys ! p) \<and> (\<forall>p. j \<le> p \<longrightarrow> p \<le> ir \<longrightarrow> ys ! p \<le> a)"
proof -
  let ?k = "(l + ir) div 2" and ?r = "Suc ir"
  have k: "l \<le> ?k" "?k < ?r" using assms by auto
  let ?x1 = "xs[?k := xs ! (l + 1), l + 1 := xs ! ?k]"
  have s1: "midl_swap xs ?k (l + 1) = Some ?x1" using k assms by (intro midl_swap_spec) auto
  have p1: "perm_in l ?r xs ?x1" using k assms by (intro perm_in_swap) auto
  obtain x2 where x2: "swap_if_less ?x1 l ir = Some x2" "perm_in l ?r ?x1 x2" "x2 ! ir \<le> x2 ! l"
    using swap_if_less_spec [of l l ?r ir ?x1] assms by auto
  obtain x3 where x3: "swap_if_less x2 (l + 1) ir = Some x3" "perm_in l ?r x2 x3" "x3 ! ir \<le> x3 ! (l + 1)"
    "x3 ! ir \<le> x2 ! ir" "x3 ! l = x2 ! l"
    using swap_if_less_spec [of l "l + 1" ?r ir x2] assms perm_in_le [OF x2(2)] by auto
  have l3: "?r \<le> length x3" using perm_in_le [OF x3(2)] perm_in_le [OF x2(2)] assms by auto
  obtain x4 where x4: "swap_if_less x3 l (l + 1) = Some x4" "perm_in l ?r x3 x4" "x4 ! (l + 1) \<le> x4 ! l"
    "x4 ! (l + 1) = min (x3 ! l) (x3 ! (l + 1))" "x4 ! ir = x3 ! ir"
    using swap_if_less_spec [of l l ?r "l + 1" x3] assms l3 by auto
  define a where "a = x4 ! Suc l"
  have len4: "length x4 = length xs"
    using perm_in_length [OF x4(2)] perm_in_length [OF x3(2)] perm_in_length [OF x2(2)] by simp
  have ai: "x4 ! ir \<le> a" using x4 x3 x2(3) unfolding a_def by auto
  have "a \<le> x4 ! p" if "l \<le> p" "p \<le> Suc l" for p
    using that x4(3) unfolding a_def by (cases "p = l") (auto simp: le_Suc_eq)
  then have "parting l ir a x4 (Suc l) ir"
    using ai assms len4 by (auto simp: parting_def a_def)
  from sort_partition_spec [OF this] obtain x5 i j where
    x5: "sort_partition x4 a (Suc l) ir = Some (x5, i, j)" "perm_in l ?r x4 x5"
     "j < i" "Suc l \<le> j" "i \<le> ir" "x5 ! Suc l = a" "a \<le> x5 ! j"
     "\<forall>p. l \<le> p \<longrightarrow> p < i \<longrightarrow> a \<le> x5 ! p" "\<forall>p. j < p \<longrightarrow> p \<le> ir \<longrightarrow> x5 ! p \<le> a"
    by auto
  have len5: "length x5 = length xs" using len4 perm_in_length [OF x5(2)] by simp
  let ?ys = "x5[Suc l := x5 ! j, j := a]"
  have p6: "perm_in l ?r x5 ?ys"
    using perm_in_swap [of l "Suc l" ?r j x5] x5(3-6) len5 assms by simp
  have "sort_split xs l ir = Some (?ys, i, j)"
    using s1 x2(1) x3(1) x4(1) x5(1,3-5) len4 len5 assms
    by (simp add: sort_split_def Let_def flip: a_def)
  moreover have "perm_in l ?r xs ?ys"
    using p1 x2(2) x3(2) x4(2) x5(2) p6 by (blast intro: perm_in_trans)
  moreover have "a \<le> ?ys ! p" if "l \<le> p" "p < i" for p
    using that x5(3-8) len5 assms by (auto simp: nth_list_update)
  moreover have "?ys ! p \<le> a" if "j \<le> p" "p \<le> ir" for p
    using that x5(3-9) len5 assms by (auto simp: nth_list_update)
  ultimately show ?thesis using x5(3-5) by blast
qed

section \<open>The stack of segments\<close>

text \<open>What the loop does when the segment at hand is in order: take the next one from the stack.\<close>

definition sort_next :: "MDB_ID list \<Rightarrow> nat list \<Rightarrow> nat \<Rightarrow> MDB_ID list option" where
  "sort_next xs istack jstack =
     (if jstack = 0 then Some xs
      else do {
        ir \<leftarrow> rd istack jstack;
        l \<leftarrow> rd istack (jstack - 1);
        sort_loop xs istack (jstack - 2) l ir })"

lemma sort_loop_small:
  "ir < l + SMALL \<Longrightarrow>
   sort_loop xs istack jstack l ir = Option.bind (sort_insertion xs (l + 1) ir) (\<lambda>ys. sort_next ys istack jstack)"
  by (subst sort_loop.simps) (simp add: sort_next_def)

lemma sort_loop_large:
  assumes "sort_split xs l ir = Some (ys, i, j)" "l + SMALL \<le> ir" "i \<le> ir" "l \<le> j" "jstack + 2 < length istack"
  shows "sort_loop xs istack jstack l ir =
    (if ir + 1 - i \<ge> j - l then sort_loop ys (istack[jstack + 2 := ir, jstack + 1 := i]) (jstack + 2) l (j - 1)
     else sort_loop ys (istack[jstack + 2 := j - 1, jstack + 1 := l]) (jstack + 2) i ir)"
proof -
  have "int j - int l \<le> int ir - int i + 1 \<longleftrightarrow> j - l \<le> ir + 1 - i" using assms by linarith
  then show ?thesis using assms by (subst sort_loop.simps) (simp add: Let_def)
qed

lemma sort_next_pop:
  assumes "jstack + 2 < length st" "st ! (jstack + 2) = ir" "st ! (jstack + 1) = l"
  shows "sort_next xs st (jstack + 2) = sort_loop xs st jstack l ir"
  using assms by (simp add: sort_next_def)

text \<open>The descending order of a segment from that of its three parts.\<close>

lemma desc_three:
  assumes "l \<le> j" "j < i" "i \<le> Suc ir" "ir < length xs" "desc (seg xs l j)" "desc (seg xs i (Suc ir))"
    and "\<forall>x \<in> set (seg xs l i). a \<le> x" "\<forall>x \<in> set (seg xs j (Suc ir)). x \<le> a"
  shows "desc (seg xs l (Suc ir))"
proof -
  have parts: "seg xs l i = seg xs l j @ seg xs j i" "seg xs j (Suc ir) = seg xs j i @ seg xs i (Suc ir)"
    "seg xs l (Suc ir) = seg xs l j @ seg xs j i @ seg xs i (Suc ir)"
    using assms seg_split [of l j i xs] seg_split [of j i "Suc ir" xs] seg_split [of l j "Suc ir" xs] by auto
  have mid: "\<forall>x \<in> set (seg xs j i). x = a" using assms(7,8) parts by (auto intro: antisym)
  then have "desc (seg xs j i)"
    by (simp add: desc_def sorted_wrt_iff_nth_less) (metis dual_order.trans eq_iff nth_mem order_less_trans)
  then show ?thesis using assms parts mid
    by (simp add: desc_append) (metis Un_iff order_trans)
qed

text \<open>
  Sorting one segment and going on with the stack. \<open>below\<close> is the sentinel that lets the insertion
  sort of an inner segment stop at its left end; \<open>k\<close> bounds the depth still needed.
\<close>

definition below :: "nat \<Rightarrow> nat \<Rightarrow> 'a::linorder list \<Rightarrow> bool" where
  "below l r xs \<longleftrightarrow> (1 < l \<longrightarrow> (\<forall>x \<in> set (seg xs l r). x \<le> xs ! (l - 1)))"

definition seg_sorted :: "nat \<Rightarrow> nat \<Rightarrow> nat list \<Rightarrow> nat \<Rightarrow> MDB_ID list \<Rightarrow> bool" where
  "seg_sorted l ir st js xs \<longleftrightarrow> (\<exists>ys st'. sort_loop xs st js l ir = sort_next ys st' js \<and>
     perm_in l (Suc ir) xs ys \<and> desc (seg ys l (Suc ir)) \<and> length st' = length st \<and> (\<forall>m \<le> js. st' ! m = st ! m))"

lemma below_perm: "below l r xs \<Longrightarrow> perm_in l r xs ys \<Longrightarrow> below l r ys"
  using perm_in_set [of l r xs ys] by (auto simp: below_def perm_in_def)

lemma seg_sorted_small:
  assumes "1 \<le> l" "l \<le> Suc ir" "ir < l + SMALL" "ir < length xs" "below l (Suc ir) xs"
  shows "seg_sorted l ir st js xs"
proof (cases "l \<le> ir")
  case True
  have "desc (seg xs l (Suc l))" using True assms by (simp add: seg_snoc desc_def)
  then obtain ys where "sort_insertion xs (l + 1) ir = Some ys" "perm_in l (Suc ir) xs ys" "desc (seg ys l (Suc ir))"
    using sort_insertion_spec [of l "l + 1" ir xs] True assms by (auto simp: below_def)
  then show ?thesis using assms by (auto simp: seg_sorted_def sort_loop_small)
next
  case False
  then have "sort_insertion xs (l + 1) ir = Some xs" by (subst sort_insertion.simps) auto
  then show ?thesis using False assms
    by (auto simp: seg_sorted_def sort_loop_small desc_def intro!: exI [of _ xs] exI [of _ st])
qed

lemma two_segs:
  assumes first: "seg_sorted l1 r1 (st[js + 2 := r2, js + 1 := l2]) (js + 2) xs"
    and second: "\<And>ys st'. perm_in l1 (Suc r1) xs ys \<Longrightarrow> length st' = length st \<Longrightarrow> seg_sorted l2 r2 st' js ys"
    and room: "js + 2 < length st"
  shows "\<exists>ys zs st'. sort_loop xs (st[js + 2 := r2, js + 1 := l2]) (js + 2) l1 r1 = sort_next zs st' js \<and>
    perm_in l1 (Suc r1) xs ys \<and> desc (seg ys l1 (Suc r1)) \<and> perm_in l2 (Suc r2) ys zs \<and> desc (seg zs l2 (Suc r2)) \<and>
    length st' = length st \<and> (\<forall>m \<le> js. st' ! m = st ! m)"
proof -
  let ?st = "st[js + 2 := r2, js + 1 := l2]"
  from first obtain ys st1 where f: "sort_loop xs ?st (js + 2) l1 r1 = sort_next ys st1 (js + 2)"
    "perm_in l1 (Suc r1) xs ys" "desc (seg ys l1 (Suc r1))" "length st1 = length st"
    "\<forall>m \<le> js + 2. st1 ! m = ?st ! m"
    by (auto simp: seg_sorted_def)
  have "sort_next ys st1 (js + 2) = sort_loop ys st1 js l2 r2"
    using f(4,5) room by (intro sort_next_pop) auto
  moreover obtain zs st2 where s: "sort_loop ys st1 js l2 r2 = sort_next zs st2 js"
    "perm_in l2 (Suc r2) ys zs" "desc (seg zs l2 (Suc r2))" "length st2 = length st1" "\<forall>m \<le> js. st2 ! m = st1 ! m"
    using second [OF f(2,4)] by (auto simp: seg_sorted_def)
  ultimately show ?thesis using f by (intro exI [of _ ys] exI [of _ zs] exI [of _ st2]) auto
qed

lemma seg_sortedI:
  assumes "sort_loop xs st js l ir = sort_next zs st' js" "perm_in l (Suc ir) xs zs" "length st' = length st"
    "\<forall>m \<le> js. st' ! m = st ! m" "desc (seg zs l (Suc ir))"
  shows "seg_sorted l ir st js xs"
  using assms unfolding seg_sorted_def by blast

lemma seg_outside:
  "perm_in l r xs ys \<Longrightarrow> b \<le> l \<or> r \<le> a \<Longrightarrow> b \<le> length xs \<Longrightarrow> seg ys a b = seg xs a b"
  by (auto simp: perm_in_def intro!: nth_equalityI)

lemma seg_subset: "a \<le> a' \<Longrightarrow> b' \<le> b \<Longrightarrow> b \<le> length xs \<Longrightarrow> set (seg xs a' b') \<subseteq> set (seg xs a b)"
proof
  fix x assume s: "a \<le> a'" "b' \<le> b" "b \<le> length xs" and "x \<in> set (seg xs a' b')"
  then obtain p where "a' \<le> p" "p < b'" "xs ! p = x" using set_seg_iff [of b' xs x a'] by auto
  then show "x \<in> set (seg xs a b)" using s set_seg_iff [of b xs x a] by (auto intro!: exI [of _ p])
qed

text \<open>Rearranging two segments that do not meet, in either order.\<close>

lemma perm_in_two:
  assumes "perm_in l j ys ws \<and> perm_in i r ws zs \<or> perm_in i r ys ws \<and> perm_in l j ws zs"
    and "l \<le> j" "j < i" "i \<le> r" "r \<le> length ys"
  shows "perm_in l r ys zs" "set (seg zs l i) = set (seg ys l i)" "set (seg zs j r) = set (seg ys j r)"
proof -
  have len: "length zs = length ys" using assms(1) by (auto simp: perm_in_def)
  have out: "zs ! p = ys ! p" if "p < l \<or> j \<le> p \<and> p < i \<or> r \<le> p" for p
    using assms that by (auto simp: perm_in_def)
  have lo: "mset (seg zs l j) = mset (seg ys l j)" and hi: "mset (seg zs i r) = mset (seg ys i r)"
    using assms seg_outside [of l j ys ws r i] seg_outside [of l j ws zs r i]
      seg_outside [of i r ys ws j l] seg_outside [of i r ws zs j l] by (auto simp: perm_in_def)
  have mid: "seg zs j i = seg ys j i"
  proof (rule nth_equalityI)
    fix k assume "k < length (seg zs j i)"
    then show "seg zs j i ! k = seg ys j i ! k" using out [of "j + k"] len assms(2-5) by (simp add: less_diff_conv add.commute)
  qed (use len assms in simp)
  have sp: "seg xs l r = seg xs l j @ seg xs j i @ seg xs i r" "seg xs l i = seg xs l j @ seg xs j i"
    "seg xs j r = seg xs j i @ seg xs i r" for xs :: "'a list"
    using assms seg_split [of l j r xs] seg_split [of j i r xs] seg_split [of l j i xs] by auto
  have "mset (seg zs l r) = mset (seg ys l r)" using lo hi mid by (simp add: sp)
  then show "perm_in l r ys zs" using len out by (simp add: perm_in_def)
  show "set (seg zs l i) = set (seg ys l i)" "set (seg zs j r) = set (seg ys j r)"
    using lo hi mid mset_eq_setD by (auto simp: sp)
qed

theorem seg_sorted_all:
  assumes "1 \<le> l" "l \<le> Suc ir" "ir < length xs" "below l (Suc ir) xs"
    and "Suc ir - l < 2 ^ k" "js + 2 * k < length st"
  shows "seg_sorted l ir st js xs"
  using assms
proof (induction "Suc ir - l" arbitrary: l ir st js xs k rule: less_induct)
  case less
  show ?case
  proof (cases "ir < l + SMALL")
    case True
    then show ?thesis using less.prems by (intro seg_sorted_small) auto
  next
    case False
    then have big: "l + SMALL \<le> ir" by simp
    obtain ys i j a where sp: "sort_split xs l ir = Some (ys, i, j)" "perm_in l (Suc ir) xs ys"
      "j < i" "Suc l \<le> j" "i \<le> ir"
      "\<forall>p. l \<le> p \<longrightarrow> p < i \<longrightarrow> a \<le> ys ! p" "\<forall>p. j \<le> p \<longrightarrow> p \<le> ir \<longrightarrow> ys ! p \<le> a"
      using sort_split_spec [OF big less.prems(3)] by auto
    have len: "length ys = length xs" using perm_in_length [OF sp(2)] .
    obtain k' where k: "k = Suc k'" using less.prems(5) big by (cases k) auto
    have room: "js + 2 < length st" using less.prems(6) k by simp
    have b0: "below l (Suc ir) ys" using below_perm [OF less.prems(4) sp(2)] .
    note set_l = set_seg_iff [of "Suc ir" ys]
    have hi: "\<forall>x \<in> set (seg ys l i). a \<le> x" and lo: "\<forall>x \<in> set (seg ys j (Suc ir)). x \<le> a"
      using sp(5-7) len less.prems(3) by (auto simp: set_seg_iff)
    have bl: "below l j zs" if pz: "perm_in i (Suc ir) ys zs" for zs
    proof -
      have "seg zs l j = seg ys l j"
        using sp len less.prems by (intro seg_outside [OF pz]) auto
      moreover have "zs ! (l - 1) = ys ! (l - 1)" using pz sp less.prems by (auto simp: perm_in_def)
      moreover have "set (seg ys l j) \<subseteq> set (seg ys l (Suc ir))"
        using sp len less.prems by (intro seg_subset) auto
      ultimately show ?thesis using b0 by (auto simp: below_def)
    qed
    have br: "below i (Suc ir) zs" if pz: "perm_in l j ys zs" for zs
    proof -
      have "seg zs i (Suc ir) = seg ys i (Suc ir)"
        using sp len less.prems by (intro seg_outside [OF pz]) auto
      moreover have "zs ! (i - 1) = ys ! (i - 1)" using pz sp by (auto simp: perm_in_def)
      moreover have "a \<le> ys ! (i - 1)" using sp by auto
      moreover have "set (seg ys i (Suc ir)) \<subseteq> set (seg ys j (Suc ir))"
        using sp len less.prems by (intro seg_subset) auto
      ultimately show ?thesis using lo by (auto simp: below_def dest: subsetD intro: order_trans)
    qed
    have final: "perm_in l (Suc ir) xs zs \<and> desc (seg zs l (Suc ir))"
      if z: "perm_in l j ys ws \<and> perm_in i (Suc ir) ws zs \<or> perm_in i (Suc ir) ys ws \<and> perm_in l j ws zs"
        "desc (seg zs l j)" "desc (seg zs i (Suc ir))" for ws zs
    proof -
      have lz: "length zs = length xs" using z(1) len by (auto simp: perm_in_def)
      have "l \<le> j" "i \<le> Suc ir" "Suc ir \<le> length ys" using sp(4,5) len less.prems(3) by auto
      note two = perm_in_two [OF z(1) this(1) sp(3) this(2,3)]
      have "desc (seg zs l (Suc ir))"
        using hi lo sp(3-5) less.prems(3) lz z(2,3) two(2,3) by (intro desc_three [of l j i ir zs a]) auto
      then show ?thesis using sp(2) two(1) perm_in_trans by blast
    qed
    have sj: "Suc (j - 1) = j" using sp(4) by simp
    show ?thesis
    proof (cases "ir + 1 - i \<ge> j - l")
      case True
      let ?st = "st[js + 2 := ir, js + 1 := i]"
      have "Suc (j - 1) - l < 2 ^ k'" using True less.prems(5) sp(3-5) k by simp
      then have "seg_sorted l (j - 1) ?st (js + 2) ys"
        using sp(3-5) len less.prems k bl [OF perm_in_refl] sj by (intro less.hyps [where k = k']) auto
      moreover have "seg_sorted i ir st' js zs" if "perm_in l (Suc (j - 1)) ys zs" "length st' = length st" for zs st'
        using that sp(3-5) len less.prems br [of zs] sj perm_in_length [OF that(1)]
        by (intro less.hyps [where k = k]) auto
      ultimately obtain ws zs st' where r: "sort_loop ys ?st (js + 2) l (j - 1) = sort_next zs st' js"
        "perm_in l j ys ws" "desc (seg ws l j)" "perm_in i (Suc ir) ws zs" "desc (seg zs i (Suc ir))"
        "length st' = length st" "\<forall>m \<le> js. st' ! m = st ! m"
        using two_segs [of l "j - 1" st js ir i ys] room sj by auto
      have "seg zs l j = seg ws l j"
        using sp(3-5) len less.prems perm_in_length [OF r(2)] by (intro seg_outside [OF r(4)]) auto
      then have "perm_in l (Suc ir) xs zs \<and> desc (seg zs l (Suc ir))"
        using r by (intro final [of ws]) auto
      moreover have "sort_loop xs st js l ir = sort_next zs st' js"
        using True r(1) sp(4,5) big room by (simp add: sort_loop_large [OF sp(1)])
      ultimately show ?thesis using r(6,7) by (intro seg_sortedI) auto
    next
      case False
      let ?st = "st[js + 2 := j - 1, js + 1 := l]"
      have "Suc ir - i < 2 ^ k'" using False less.prems(5) sp(3-5) k by simp
      then have "seg_sorted i ir ?st (js + 2) ys"
        using sp(3-5) len less.prems k br [OF perm_in_refl] by (intro less.hyps [where k = k']) auto
      moreover have "seg_sorted l (j - 1) st' js zs" if "perm_in i (Suc ir) ys zs" "length st' = length st" for zs st'
        using that sp(3-5) len less.prems bl [of zs] sj perm_in_length [OF that(1)]
        by (intro less.hyps [where k = k]) auto
      ultimately obtain ws zs st' where r: "sort_loop ys ?st (js + 2) i ir = sort_next zs st' js"
        "perm_in i (Suc ir) ys ws" "desc (seg ws i (Suc ir))" "perm_in l j ws zs" "desc (seg zs l j)"
        "length st' = length st" "\<forall>m \<le> js. st' ! m = st ! m"
        using two_segs [of i ir st js "j - 1" l ys] room sj by auto
      have "seg zs i (Suc ir) = seg ws i (Suc ir)"
        using sp(3-5) len less.prems perm_in_length [OF r(2)] by (intro seg_outside [OF r(4)]) auto
      then have "perm_in l (Suc ir) xs zs \<and> desc (seg zs l (Suc ir))"
        using r by (intro final [of ws]) auto
      moreover have "sort_loop xs st js l ir = sort_next zs st' js"
        using False r(1) sp(4,5) big room by (simp add: sort_loop_large [OF sp(1)])
      ultimately show ?thesis using r(6,7) by (intro seg_sortedI) auto
    qed
  qed
qed

lemma sint_count: "unat (n :: u64) < 2 ^ 31 \<Longrightarrow> nat (sint (ucast n :: 32 word)) = unat n"
proof -
  assume "unat n < 2 ^ 31"
  then have "uint n < 2 ^ 31" by (simp flip: nat_uint_eq)
  then have "signed_take_bit 31 (uint n) = uint n"
    using uint_ge_0 [of n] by (intro signed_take_bit_int_eq_self) linarith+
  moreover have "sint (ucast n :: 32 word) = signed_take_bit 31 (uint n)"
    by (simp add: sint_uint unsigned_ucast_eq signed_take_bit_take_bit)
  ultimately show ?thesis by simp
qed

lemma mdb_midl_sort_spec:
  assumes "idl_wf xs" "unat (hd xs) < 2 ^ 31"
  shows "\<exists>ys. mdb_midl_sort xs = Some ys \<and> hd ys = hd xs \<and> length ys = length xs \<and> desc (idl_elems ys) \<and>
    mset (idl_elems ys) = mset (idl_elems xs) \<and> drop (unat (hd xs) + 1) ys = drop (unat (hd xs) + 1) xs"
proof -
  let ?n = "unat (hd xs)"
  define st where "st = replicate ISTACK_SIZE (0::nat)"
  have st: "length st = ISTACK_SIZE" unfolding st_def by simp
  have x0: "xs \<noteq> []" "?n < length xs" "xs ! 0 = hd xs" "rd xs 0 = Some (hd xs)"
    using assms(1) by (auto simp: idl_wf_def hd_conv_nth)
  have run: "mdb_midl_sort xs = sort_loop xs st 0 1 ?n"
    using x0(4) sint_count [OF assms(2)] unfolding mdb_midl_sort_def st_def by simp
  have "seg_sorted 1 ?n st 0 xs"
  proof (rule seg_sorted_all [where k = 31])
    show "Suc ?n - 1 < 2 ^ 31" using assms(2) by simp
    show "0 + 2 * 31 < length st" using st by simp
  qed (use x0 in \<open>simp_all add: below_def\<close>)
  then obtain ys st' where "sort_loop xs st 0 1 ?n = sort_next ys st' 0"
    and ys: "perm_in 1 (Suc ?n) xs ys" "desc (seg ys 1 (Suc ?n))"
    unfolding seg_sorted_def by blast
  then have ret: "mdb_midl_sort xs = Some ys" using run by (simp add: sort_next_def)
  have out: "ys ! p = xs ! p" if "p < 1 \<or> Suc ?n \<le> p" for p
    using ys(1) that unfolding perm_in_def by blast
  have len: "length ys = length xs" "ys ! 0 = xs ! 0" using perm_in_length [OF ys(1)] out [of 0] by auto
  then have h: "hd ys = hd xs" using x0(1,3) hd_conv_nth [of ys] by fastforce
  then have wf: "idl_wf ys" using x0(1,2) len(1) by (auto simp: idl_wf_def)
  have "drop (?n + 1) ys = drop (?n + 1) xs"
  proof (rule drop_eq_nthI [OF len(1)])
    fix i assume "?n + 1 \<le> i"
    then show "ys ! i = xs ! i" by (intro out) simp
  qed
  moreover have "mset (idl_elems ys) = mset (idl_elems xs)" "desc (idl_elems ys)"
    using ys h wf assms(1) by (simp_all add: idl_elems_seg perm_in_def)
  ultimately show ?thesis using ret len h by blast
qed

end
