(* ===== verification/Mid2l.thy ===== *)
theory Mid2l
  imports Midl
begin

text \<open>
  ID/pointer lists (\<^verbatim>\<open>MDB_ID2L\<close> of \<^verbatim>\<open>lmdb/midl.c\<close>): the dirty-page list of a write
  transaction. An array of pairs in ascending order of \<^verbatim>\<open>mid\<close>; element \<open>0\<close> carries the
  number of entries in its \<^verbatim>\<open>mid\<close>. The abstraction \<open>id2_map\<close> reads the list as a map from
  identifiers to pointers; search, insert and append are its lookup and update.
\<close>

record 'p MDB_ID2 =
  mid :: MDB_ID
  mptr :: 'p

type_synonym 'p MDB_ID2L = "'p MDB_ID2 list"

section \<open>Operations\<close>

definition mdb_mid2l_search :: "'p MDB_ID2L \<Rightarrow> MDB_ID \<Rightarrow> nat option" where
  "mdb_mid2l_search ids idv = do {
     e \<leftarrow> rd ids 0;
     bsearch_loop (\<lambda>c. map_option (\<lambda>e. CMP idv (mid e)) (rd ids c)) 0 1 0 (u32 (unat (mid e))) }"

text \<open>\<^verbatim>\<open>for (i=(unsigned)ids[0].mid; i>x; i--) ids[i] = ids[i-1];\<close>\<close>

fun shift_up :: "'a list \<Rightarrow> nat \<Rightarrow> nat \<Rightarrow> 'a list option" where
  "shift_up ids 0 x = Some ids"
| "shift_up ids (Suc i) x =
     (if Suc i > x then do {
        e \<leftarrow> rd ids i;
        ids \<leftarrow> wr ids (Suc i) e;
        shift_up ids i x }
      else Some ids)"

definition mdb_mid2l_insert :: "'p MDB_ID2L \<Rightarrow> 'p MDB_ID2 \<Rightarrow> (int \<times> 'p MDB_ID2L) option" where
  "mdb_mid2l_insert ids e = do {
     x \<leftarrow> mdb_mid2l_search ids (mid e);
     if x < 1 then Some (-2, ids)
     else do {
       e0 \<leftarrow> rd ids 0;
       dup \<leftarrow> (if x \<le> unat (mid e0) then map_option (\<lambda>ex. mid ex = mid e) (rd ids x) else Some False);
       if dup then Some (-1, ids)
       else if mid e0 \<ge> of_nat MDB_IDL_UM_MAX then Some (-2, ids)
       else do {
         let n = mid e0 + 1;
         ids \<leftarrow> wr ids 0 (e0\<lparr>mid := n\<rparr>);
         ids \<leftarrow> shift_up ids (u32 (unat n)) x;
         ids \<leftarrow> wr ids x e;
         Some (0, ids) } } }"

definition mdb_mid2l_append :: "'p MDB_ID2L \<Rightarrow> 'p MDB_ID2 \<Rightarrow> (int \<times> 'p MDB_ID2L) option" where
  "mdb_mid2l_append ids e = do {
     e0 \<leftarrow> rd ids 0;
     if mid e0 \<ge> of_nat MDB_IDL_UM_MAX then Some (-2, ids)
     else do {
       let n = mid e0 + 1;
       ids \<leftarrow> wr ids 0 (e0\<lparr>mid := n\<rparr>);
       ids \<leftarrow> wr ids (unat n) e;
       Some (0, ids) } }"

section \<open>The list as a map\<close>

definition id2_entries :: "'p MDB_ID2L \<Rightarrow> 'p MDB_ID2 list" where
  "id2_entries ids = take (unat (mid (hd ids))) (tl ids)"

definition id2_wf :: "'p MDB_ID2L \<Rightarrow> bool" where
  "id2_wf ids \<longleftrightarrow> ids \<noteq> [] \<and> unat (mid (hd ids)) < length ids \<and> unat (mid (hd ids)) \<le> MDB_IDL_UM_MAX \<and>
     sorted_wrt (\<lambda>a b. mid a < mid b) (id2_entries ids)"

definition id2_map :: "'p MDB_ID2L \<Rightarrow> MDB_ID \<rightharpoonup> 'p" where
  "id2_map ids = map_of (map (\<lambda>e. (mid e, mptr e)) (id2_entries ids))"

lemma length_id2_entries [simp]: "id2_wf ids \<Longrightarrow> length (id2_entries ids) = unat (mid (hd ids))"
  by (cases ids) (auto simp: id2_wf_def id2_entries_def)

lemma id2_entries_nth [simp]:
  "id2_wf ids \<Longrightarrow> i < unat (mid (hd ids)) \<Longrightarrow> id2_entries ids ! i = ids ! Suc i"
  by (cases ids) (auto simp: id2_wf_def id2_entries_def)

lemma id2_wf_less:
  assumes "id2_wf ids" "1 \<le> i" "i < j" "j \<le> unat (mid (hd ids))"
  shows "mid (ids ! i) < mid (ids ! j)"
proof -
  have "mid (id2_entries ids ! (i - 1)) < mid (id2_entries ids ! (j - 1))"
    using assms by (intro sorted_wrt_nth_less [of "\<lambda>a b. mid a < mid b"]) (auto simp: id2_wf_def [of ids])
  then show ?thesis using assms by simp
qed

interpretation mid2l: id_search
  "\<lambda>ids x c. map_option (\<lambda>e. CMP x (mid e)) (rd ids c)" "\<lambda>ids x c. CMP x (mid (ids ! c))"
  "\<lambda>ids. unat (mid (hd ids))" id2_wf
proof unfold_locales
  fix l :: "'p MDB_ID2L" and c x
  assume "id2_wf l" "1 \<le> c" "c \<le> unat (mid (hd l))"
  then show "map_option (\<lambda>e. CMP x (mid e)) (rd l c) = Some (CMP x (mid (l ! c)))"
    by (simp add: id2_wf_def)
next
  fix l :: "'p MDB_ID2L" and i j x
  assume "id2_wf l" "1 \<le> i" "i < j" "j \<le> unat (mid (hd l))"
  then have "mid (l ! i) < mid (l ! j)" by (rule id2_wf_less)
  then show "CMP x (mid (l ! i)) < 0 \<Longrightarrow> CMP x (mid (l ! j)) < 0" "0 < CMP x (mid (l ! j)) \<Longrightarrow> 0 < CMP x (mid (l ! i))"
    by auto
next
  fix l :: "'p MDB_ID2L" assume "id2_wf l"
  then show "unat (mid (hd l)) < 2 ^ 32 - 1" by (auto simp: id2_wf_def)
qed

text \<open>The search returns the slot of the first entry that is not below the key.\<close>

lemma mid2l_search_slot:
  assumes "id2_wf ids"
  shows "\<exists>r. mdb_mid2l_search ids x = Some r \<and> 1 \<le> r \<and> r \<le> unat (mid (hd ids)) + 1 \<and>
    (\<forall>i. 1 \<le> i \<longrightarrow> i < r \<longrightarrow> mid (ids ! i) < x) \<and> (\<forall>i. r \<le> i \<longrightarrow> i \<le> unat (mid (hd ids)) \<longrightarrow> x \<le> mid (ids ! i))"
proof -
  let ?n = "unat (mid (hd ids))"
  have eq: "mdb_mid2l_search ids x = bsearch_loop (\<lambda>c. map_option (\<lambda>e. CMP x (mid e)) (rd ids c)) 0 1 0 ?n"
    using assms by (auto simp: mdb_mid2l_search_def id2_wf_def hd_conv_nth)
  then obtain r where r: "mdb_mid2l_search ids x = Some r" "found_at (\<lambda>c. CMP x (mid (ids ! c))) ?n r"
    using mid2l.search_correct [OF assms, of x] by auto
  from r(2) have b: "1 \<le> r" "r \<le> ?n + 1" by (auto simp: found_at_def)
  have "mid (ids ! i) < x" if "1 \<le> i" "i < r" for i
    using r(2) that id2_wf_less [OF assms, of i r] by (auto simp: found_at_def)
  moreover have "x \<le> mid (ids ! i)" if i: "r \<le> i" "i \<le> ?n" for i
    using r(2) i id2_wf_less [OF assms b(1), of i]
    unfolding found_at_def by (cases "i = r") (auto intro: less_imp_le)
  ultimately show ?thesis using r(1) b by blast
qed

lemma id2_map_None: "x \<notin> mid ` set (id2_entries ids) \<Longrightarrow> id2_map ids x = None"
  by (auto simp: id2_map_def map_of_eq_None_iff image_iff)

lemma id2_map_Some:
  assumes "id2_wf ids" "e \<in> set (id2_entries ids)"
  shows "id2_map ids (mid e) = Some (mptr e)"
proof -
  have "sorted_wrt (<) (map mid (id2_entries ids))"
    using assms(1) by (simp add: id2_wf_def sorted_wrt_map)
  then have "distinct (map mid (id2_entries ids))" by (simp add: strict_sorted_iff)
  then show ?thesis using assms(2) by (auto simp: id2_map_def comp_def intro!: map_of_is_SomeI)
qed

lemma mdb_mid2l_search_spec:
  assumes "id2_wf ids"
  shows "\<exists>r. mdb_mid2l_search ids x = Some r \<and> 1 \<le> r \<and>
    id2_map ids x = (if r \<le> unat (mid (hd ids)) \<and> mid (ids ! r) = x then Some (mptr (ids ! r)) else None)"
proof -
  obtain r where r: "mdb_mid2l_search ids x = Some r" "1 \<le> r" "r \<le> unat (mid (hd ids)) + 1"
    "\<forall>i. 1 \<le> i \<longrightarrow> i < r \<longrightarrow> mid (ids ! i) < x" "\<forall>i. r \<le> i \<longrightarrow> i \<le> unat (mid (hd ids)) \<longrightarrow> x \<le> mid (ids ! i)"
    using mid2l_search_slot [OF assms] by blast
  show ?thesis
  proof (cases "r \<le> unat (mid (hd ids)) \<and> mid (ids ! r) = x")
    case True
    then have "ids ! r \<in> set (id2_entries ids)"
      using assms r(2) nth_mem [of "r - 1" "id2_entries ids"] by (cases r) (auto simp: Suc_le_eq)
    then show ?thesis using r True id2_map_Some [OF assms] by auto
  next
    case False
    have "mid (ids ! i) \<noteq> x" if i: "1 \<le> i" "i \<le> unat (mid (hd ids))" for i
    proof (cases "i \<le> r")
      case True
      then show ?thesis using r(4) False i by (cases "i = r") auto
    next
      case no: False
      then have "x \<le> mid (ids ! r)" "mid (ids ! r) < mid (ids ! i)"
        using r(2,5) i id2_wf_less [OF assms, of r i] by auto
      then show ?thesis by auto
    qed
    then have ne: "mid (ids ! Suc i) \<noteq> x" if "i < unat (mid (hd ids))" for i
      using that by (simp add: Suc_le_eq)
    have "x \<notin> mid ` set (id2_entries ids)"
    proof
      assume "x \<in> mid ` set (id2_entries ids)"
      then obtain i where "i < unat (mid (hd ids))" "x = mid (ids ! Suc i)"
        using assms by (auto simp: in_set_conv_nth)
      then show False using ne by blast
    qed
    then show ?thesis using r False id2_map_None by auto
  qed
qed

section \<open>Inserting\<close>

lemma shift_up_spec:
  "x \<le> i \<Longrightarrow> i < length ids \<Longrightarrow> \<exists>ys. shift_up ids i x = Some ys \<and> length ys = length ids \<and>
     (\<forall>p. p \<le> x \<or> i < p \<longrightarrow> ys ! p = ids ! p) \<and> (\<forall>p. x < p \<longrightarrow> p \<le> i \<longrightarrow> ys ! p = ids ! (p - 1))"
proof (induction i arbitrary: ids)
  case 0
  then show ?case by auto
next
  case (Suc i)
  show ?case
  proof (cases "x = Suc i")
    case True
    then show ?thesis by auto
  next
    case False
    let ?ids = "ids[Suc i := ids ! i]"
    obtain ys where "shift_up ?ids i x = Some ys" "length ys = length ids"
      "\<forall>p. p \<le> x \<or> i < p \<longrightarrow> ys ! p = ?ids ! p" "\<forall>p. x < p \<longrightarrow> p \<le> i \<longrightarrow> ys ! p = ?ids ! (p - 1)"
      using Suc.IH [of ?ids] Suc.prems False by auto
    then show ?thesis using Suc.prems False by (auto simp: le_Suc_eq)
  qed
qed

lemma sorted_wrt_insert_at:
  assumes "sorted_wrt P xs" "\<forall>a \<in> set (take k xs). P a e" "\<forall>b \<in> set (drop k xs). P e b" "\<And>a b c. P a b \<Longrightarrow> P b c \<Longrightarrow> P a c"
  shows "sorted_wrt P (take k xs @ e # drop k xs)"
proof -
  have "sorted_wrt P (take k xs @ drop k xs)" using assms(1) by simp
  then show ?thesis using assms(2-4) by (auto simp: sorted_wrt_append)
qed

lemma map_of_insert_at:
  assumes "fst e \<notin> fst ` set (take k xs)"
  shows "map_of (take k xs @ e # drop k xs) = (map_of xs)(fst e \<mapsto> snd e)"
proof -
  have "map_of xs = map_of (take k xs @ drop k xs)" by simp
  also have "\<dots> = map_of (drop k xs) ++ map_of (take k xs)" by (rule map_of_append)
  finally have "map_of xs = map_of (drop k xs) ++ map_of (take k xs)" .
  moreover have "map_of (take k xs) (fst e) = None" using assms by (simp add: map_of_eq_None_iff)
  ultimately show ?thesis by (cases e) (auto simp: map_add_def fun_eq_iff split: option.splits)
qed

lemma mdb_mid2l_insert_new:
  assumes "id2_wf ids" "id2_map ids (mid e) = None" "unat (mid (hd ids)) < MDB_IDL_UM_MAX"
    and "unat (mid (hd ids)) + 1 < length ids"
  shows "\<exists>ys. mdb_mid2l_insert ids e = Some (0, ys) \<and> id2_wf ys \<and> length ys = length ids \<and>
    unat (mid (hd ys)) = unat (mid (hd ids)) + 1 \<and> id2_map ys = (id2_map ids)(mid e \<mapsto> mptr e)"
proof -
  let ?n = "unat (mid (hd ids))" and ?es = "id2_entries ids"
  have i0: "ids ! 0 = hd ids" "0 < length ids" using assms(1) by (auto simp: id2_wf_def hd_conv_nth)
  have n1: "unat (mid (hd ids) + 1) = ?n + 1" using assms(3) unat_add_of_nat [of "mid (hd ids)" 1] by simp
  obtain r where r: "mdb_mid2l_search ids (mid e) = Some r" "1 \<le> r" "r \<le> ?n + 1"
    "\<forall>i. 1 \<le> i \<longrightarrow> i < r \<longrightarrow> mid (ids ! i) < mid e" "\<forall>i. r \<le> i \<longrightarrow> i \<le> ?n \<longrightarrow> mid e \<le> mid (ids ! i)"
    using mid2l_search_slot [OF assms(1)] by blast
  have nodup: "mid (ids ! i) \<noteq> mid e" if "1 \<le> i" "i \<le> ?n" for i
  proof
    assume "mid (ids ! i) = mid e"
    moreover have "ids ! i \<in> set ?es" using that assms(1) nth_mem [of "i - 1" ?es] by (cases i) (auto simp: Suc_le_eq)
    ultimately show False using id2_map_Some [OF assms(1)] assms(2) by fastforce
  qed
  let ?ids = "ids[0 := (hd ids)\<lparr>mid := mid (hd ids) + 1\<rparr>]"
  obtain zs where zs: "shift_up ?ids (?n + 1) r = Some zs" "length zs = length ids"
    "\<forall>p. p \<le> r \<or> ?n + 1 < p \<longrightarrow> zs ! p = ?ids ! p" "\<forall>p. r < p \<longrightarrow> p \<le> ?n + 1 \<longrightarrow> zs ! p = ?ids ! (p - 1)"
    using shift_up_spec [of r "?n + 1" ?ids] r(3) assms(4) by auto
  let ?ys = "zs[r := e]"
  have ys0: "?ys \<noteq> []" "?ys ! 0 = (hd ids)\<lparr>mid := mid (hd ids) + 1\<rparr>" using zs(2,3) r(2) i0 by auto
  then have h: "unat (mid (hd ?ys)) = ?n + 1" using n1 by (simp add: hd_conv_nth)
  have ents: "id2_entries ?ys = take (r - 1) ?es @ e # drop (r - 1) ?es"
  proof (rule nth_equalityI)
    show "length (id2_entries ?ys) = length (take (r - 1) ?es @ e # drop (r - 1) ?es)"
      using h assms(1,4) zs(2) r(3) by (simp add: id2_entries_def) 
  next
    fix i assume "i < length (id2_entries ?ys)"
    then have i: "i < ?n + 1" using h by (simp add: id2_entries_def)
    then have "id2_entries ?ys ! i = ?ys ! Suc i"
      using h assms(4) zs(2) by (simp add: id2_entries_def nth_tl)
    also have "\<dots> = (take (r - 1) ?es @ e # drop (r - 1) ?es) ! i"
      using i r(2,3) zs assms(1,4) by (auto simp: nth_append nth_list_update nth_Cons' not_less)
    finally show "id2_entries ?ys ! i = (take (r - 1) ?es @ e # drop (r - 1) ?es) ! i" .
  qed
  have tk: "mid a < mid e" if a: "a \<in> set (take (r - 1) ?es)" for a
    using a r(2-4) assms(1) by (auto simp: in_set_conv_nth)
  have dp: "mid e < mid b" if b: "b \<in> set (drop (r - 1) ?es)" for b
  proof -
    obtain i where i: "i < ?n - (r - 1)" "b = ids ! (r + i)"
      using b r(2,3) assms(1) by (auto simp: in_set_conv_nth)
    then have "r + i \<le> ?n" using r(2,3) by simp
    then show ?thesis using i(2) r(2,5) nodup [of "r + i"] by (auto simp: order_less_le)
  qed
  have "id2_wf ?ys"
    using ents h ys0 zs(2) assms(1,3,4) tk dp unfolding id2_wf_def
    by (auto intro!: sorted_wrt_insert_at)
  moreover have "id2_map ?ys = (id2_map ids)(mid e \<mapsto> mptr e)"
    using map_of_insert_at [of "(mid e, mptr e)" "r - 1" "map (\<lambda>e. (mid e, mptr e)) ?es"] tk
    by (force simp: id2_map_def ents take_map drop_map)
  moreover have "mdb_mid2l_insert ids e = Some (0, ?ys)"
    using r(1-3) nodup [of r] i0 assms(3,4) zs n1
    by (auto simp: mdb_mid2l_insert_def word_le_nat_alt)
  ultimately show ?thesis using h zs(2) by auto
qed

lemma mdb_mid2l_insert_dup:
  assumes "id2_wf ids" "id2_map ids (mid e) \<noteq> None"
  shows "mdb_mid2l_insert ids e = Some (-1, ids)"
proof -
  have "0 < length ids" "unat (mid (hd ids)) < length ids" "ids ! 0 = hd ids"
    using assms(1) by (auto simp: id2_wf_def hd_conv_nth)
  then show ?thesis
    using mdb_mid2l_search_spec [OF assms(1), of "mid e"] assms(2)
    by (auto simp: mdb_mid2l_insert_def split: if_splits)
qed

lemma mdb_mid2l_append_spec:
  assumes "id2_wf ids" "\<forall>x \<in> dom (id2_map ids). x < mid e" "unat (mid (hd ids)) < MDB_IDL_UM_MAX"
    and "unat (mid (hd ids)) + 1 < length ids"
  shows "\<exists>ys. mdb_mid2l_append ids e = Some (0, ys) \<and> id2_wf ys \<and> length ys = length ids \<and>
    id2_map ys = (id2_map ids)(mid e \<mapsto> mptr e)"
proof -
  let ?n = "unat (mid (hd ids))" and ?es = "id2_entries ids"
  have i0: "ids ! 0 = hd ids" "0 < length ids" using assms(1) by (auto simp: id2_wf_def hd_conv_nth)
  have n1: "unat (mid (hd ids) + 1) = ?n + 1" using assms(3) unat_add_of_nat [of "mid (hd ids)" 1] by simp
  let ?ys = "ids[0 := (hd ids)\<lparr>mid := mid (hd ids) + 1\<rparr>, ?n + 1 := e]"
  have ys0: "?ys \<noteq> []" "hd ?ys = (hd ids)\<lparr>mid := mid (hd ids) + 1\<rparr>"
    using i0 by (auto simp: hd_conv_nth)
  have ents: "id2_entries ?ys = ?es @ [e]"
    using ys0(2) n1 i0 assms(4)
    by (cases ids) (auto simp: id2_entries_def take_Suc_conv_app_nth)
  have lt: "mid a < mid e" if "a \<in> set ?es" for a
    using assms(2) id2_map_Some [OF assms(1) that] by auto
  then have "mid e \<notin> mid ` set ?es" by force
  then have "id2_map ?ys = (id2_map ids)(mid e \<mapsto> mptr e)"
    using map_of_insert_at [of "(mid e, mptr e)" "length ?es" "map (\<lambda>e. (mid e, mptr e)) ?es"]
    unfolding id2_map_def ents by (simp add: image_image)
  moreover have "id2_wf ?ys"
    using ents ys0 n1 assms(1,3,4) lt unfolding id2_wf_def by (auto simp: sorted_wrt_append)
  moreover have "mdb_mid2l_append ids e = Some (0, ?ys)"
    using i0 assms(3,4) n1 by (auto simp: mdb_mid2l_append_def word_le_nat_alt)
  ultimately show ?thesis by auto
qed

end
