(* ===== verification/Cmp.thy ===== *)
theory Cmp
  imports Mem "HOL-Library.List_Lexorder"
begin

text \<open>
  The key comparisons of \<^verbatim>\<open>lmdb/mdb.c\<close>, on the bytes of the two items. A comparison that
  would read outside an item is \<open>None\<close>. Callers use the sign of the result only, so
  \<^verbatim>\<open>memcmp\<close> is modelled by a result of that sign.
\<close>

section \<open>The comparisons\<close>

definition mdb_cmp_long :: "u8 list \<Rightarrow> u8 list \<Rightarrow> int option" where
  "mdb_cmp_long a b =
     (if length a < 8 \<or> length b < 8 then None
      else Some (CMP (le_val (take 8 a)) (le_val (take 8 b))))"

definition mdb_cmp_int :: "u8 list \<Rightarrow> u8 list \<Rightarrow> int option" where
  "mdb_cmp_int a b =
     (if length a < 4 \<or> length b < 4 then None
      else Some (CMP (le_val (take 4 a)) (le_val (take 4 b))))"

text \<open>An \<^verbatim>\<open>unsigned short\<close> at byte offset \<open>i\<close>.\<close>

definition short_at :: "u8 list \<Rightarrow> nat \<Rightarrow> int option" where
  "short_at a i = (if i + 2 \<le> length a then Some (int (le_val (take 2 (drop i a)))) else None)"

text \<open>The loop of \<^verbatim>\<open>mdb_cmp_cint\<close>; both pointers start \<open>mv_size\<close> of the first item up.\<close>

fun cmp_cint_loop :: "u8 list \<Rightarrow> u8 list \<Rightarrow> nat \<Rightarrow> int option" where
  "cmp_cint_loop a b (Suc (Suc u)) = do {
     p \<leftarrow> short_at a u;
     q \<leftarrow> short_at b u;
     let x = p - q;
     if x = 0 \<and> u > 0 then cmp_cint_loop a b u else Some x }"
| "cmp_cint_loop a b u = None"

definition mdb_cmp_cint :: "u8 list \<Rightarrow> u8 list \<Rightarrow> int option" where
  "mdb_cmp_cint a b = cmp_cint_loop a b (length a)"

text \<open>\<^verbatim>\<open>memcmp\<close> on the first \<open>n\<close> bytes.\<close>

fun memcmp :: "u8 list \<Rightarrow> u8 list \<Rightarrow> nat \<Rightarrow> int option" where
  "memcmp a b 0 = Some 0"
| "memcmp (x # a) (y # b) (Suc n) = (if x = y then memcmp a b n else Some (CMP x y))"
| "memcmp _ _ (Suc n) = None"

definition mdb_cmp_memn :: "u8 list \<Rightarrow> u8 list \<Rightarrow> int option" where
  "mdb_cmp_memn a b = (
     let len = u32 (length a);
         len_diff = int (length a) - int (length b);
         (len, len_diff) = (if len_diff > 0 then (u32 (length b), 1) else (len, len_diff))
     in do {
       diff \<leftarrow> memcmp a b len;
       Some (if diff \<noteq> 0 then diff else if len_diff < 0 then -1 else len_diff) })"

text \<open>The loop of \<^verbatim>\<open>mdb_cmp_memnr\<close>: \<open>p1\<close> and \<open>p2\<close> are offsets into the two items.\<close>

fun cmp_memnr_loop :: "u8 list \<Rightarrow> u8 list \<Rightarrow> nat \<Rightarrow> nat \<Rightarrow> nat \<Rightarrow> int option" where
  "cmp_memnr_loop a b 0 p2 lim = Some 0"
| "cmp_memnr_loop a b (Suc p1) p2 lim =
     (if Suc p1 > lim then
        (if p2 = 0 then None
         else do {
           x \<leftarrow> rd a p1;
           y \<leftarrow> rd b (p2 - 1);
           let diff = int (unat x) - int (unat y);
           if diff \<noteq> 0 then Some diff else cmp_memnr_loop a b p1 (p2 - 1) lim })
      else Some 0)"

definition mdb_cmp_memnr :: "u8 list \<Rightarrow> u8 list \<Rightarrow> int option" where
  "mdb_cmp_memnr a b = (
     let len_diff = int (length a) - int (length b);
         (lim, len_diff) = (if len_diff > 0 then (nat len_diff, 1) else (0, len_diff))
     in do {
       diff \<leftarrow> cmp_memnr_loop a b (length a) (length b) lim;
       Some (if diff \<noteq> 0 then diff else if len_diff < 0 then -1 else len_diff) })"

text \<open>
  \<^verbatim>\<open>MDB_cmp_func *\<close>: one of the functions above or one that the application installed.
\<close>

datatype MDB_cmp_func = Cmp_memn | Cmp_memnr | Cmp_int | Cmp_cint | Cmp_long
  | Cmp_user "u8 list \<Rightarrow> u8 list \<Rightarrow> int"

fun run_cmp :: "MDB_cmp_func \<Rightarrow> u8 list \<Rightarrow> u8 list \<Rightarrow> int option" where
  "run_cmp Cmp_memn a b = mdb_cmp_memn a b"
| "run_cmp Cmp_memnr a b = mdb_cmp_memnr a b"
| "run_cmp Cmp_int a b = mdb_cmp_int a b"
| "run_cmp Cmp_cint a b = mdb_cmp_cint a b"
| "run_cmp Cmp_long a b = mdb_cmp_long a b"
| "run_cmp (Cmp_user f) a b = Some (f a b)"

section \<open>What a comparison has to be\<close>

text \<open>
  A comparison is a key order on a class of items when its result is defined there and has the
  sign of the comparison of the keys \<open>key a\<close> and \<open>key b\<close> in a linear order.
\<close>

locale key_order =
  fixes cmp :: "'i \<Rightarrow> 'i \<Rightarrow> int option"
    and item :: "'i set"
    and key :: "'i \<Rightarrow> 'o::linorder"
  assumes cmp_key: "a \<in> item \<Longrightarrow> b \<in> item \<Longrightarrow> \<exists>c. cmp a b = Some c \<and> sgn c = CMP (key a) (key b)"
begin

lemma defined: "a \<in> item \<Longrightarrow> b \<in> item \<Longrightarrow> cmp a b \<noteq> None"
  using cmp_key by fastforce

lemma sgn_cases:
  assumes "a \<in> item" "b \<in> item" "cmp a b = Some c"
  shows "c < 0 \<longleftrightarrow> key a < key b" "c = 0 \<longleftrightarrow> key a = key b" "0 < c \<longleftrightarrow> key b < key a"
proof -
  have "sgn c = CMP (key a) (key b)" using cmp_key [OF assms(1,2)] assms(3) by auto
  then show "c < 0 \<longleftrightarrow> key a < key b" "c = 0 \<longleftrightarrow> key a = key b" "0 < c \<longleftrightarrow> key b < key a"
    by (auto simp: CMP_def sgn_if split: if_splits)
qed

lemma refl_0: "a \<in> item \<Longrightarrow> cmp a a = Some 0"
  using cmp_key [of a a] by (auto simp: CMP_def sgn_0_0)

lemma antisym:
  "a \<in> item \<Longrightarrow> b \<in> item \<Longrightarrow> cmp a b = Some c \<Longrightarrow> cmp b a = Some d \<Longrightarrow> sgn d = - sgn c"
  using cmp_key [of a b] cmp_key [of b a] by (auto simp: CMP_def split: if_splits)

lemma trans_le:
  assumes "a \<in> item" "b \<in> item" "e \<in> item" "cmp a b = Some c" "c \<le> 0" "cmp b e = Some d" "d \<le> 0"
  shows "\<exists>x. cmp a e = Some x \<and> x \<le> 0"
proof -
  have "key a \<le> key b" "key b \<le> key e"
    using sgn_cases(3) [OF assms(1,2,4)] sgn_cases(3) [OF assms(2,3,6)] assms(5,7) by auto
  then have "\<not> key e < key a" by auto
  then show ?thesis using cmp_key [OF assms(1,3)] sgn_cases(3) [OF assms(1,3)] by fastforce
qed

end

section \<open>The integer comparisons\<close>

interpretation long: key_order mdb_cmp_long "{a. length a = 8}" le_val
  by unfold_locales (auto simp: mdb_cmp_long_def CMP_def)

interpretation uint: key_order mdb_cmp_int "{a. length a = 4}" le_val
  by unfold_locales (auto simp: mdb_cmp_int_def CMP_def)

lemma le_val_append: "le_val (xs @ ys) = le_val xs + 256 ^ length xs * le_val ys"
  by (induction xs) (auto simp: algebra_simps)

lemma le_val_append_less:
  assumes "length xs = length xs'" "le_val ys < le_val ys'"
  shows "le_val (xs @ ys) < le_val (xs' @ ys')"
proof -
  let ?B = "256 ^ length xs"
  have "le_val (xs @ ys) < ?B + ?B * le_val ys"
    using le_val_bound [of xs] by (simp add: le_val_append)
  also have "\<dots> = ?B * Suc (le_val ys)" by simp
  also have "\<dots> \<le> ?B * le_val ys'" using assms(2) by (intro mult_le_mono2) simp
  also have "\<dots> \<le> le_val (xs' @ ys')" using assms(1) by (simp add: le_val_append)
  finally show ?thesis .
qed

lemma CMP_int [simp]: "CMP (int a) (int b) = CMP a b"
  by (simp add: CMP_def)

lemma sgn_diff: "sgn (int a - int b) = CMP a b"
  by (auto simp: CMP_def)

lemma CMP_le_val_append:
  assumes "length xs = length xs'"
  shows "CMP (le_val (xs @ ys)) (le_val (xs' @ ys')) =
    (if le_val ys = le_val ys' then CMP (le_val xs) (le_val xs') else CMP (le_val ys) (le_val ys'))"
proof (cases "le_val ys" "le_val ys'" rule: linorder_cases)
  case less
  then show ?thesis using le_val_append_less [OF assms less] by (auto simp: CMP_def)
next
  case equal
  then show ?thesis using assms by (auto simp: le_val_append CMP_def)
next
  case greater
  then show ?thesis using le_val_append_less [OF assms [symmetric] greater] by (auto simp: CMP_def)
qed

lemma cmp_cint_loop_key:
  assumes "even u" "0 < u" "u \<le> length a" "u \<le> length b"
  shows "\<exists>c. cmp_cint_loop a b u = Some c \<and> sgn c = CMP (le_val (take u a)) (le_val (take u b))"
  using assms
proof (induction a b u rule: cmp_cint_loop.induct)
  case (1 a b u)
  let ?p = "le_val (take 2 (drop u a))" and ?q = "le_val (take 2 (drop u b))"
  have p: "short_at a u = Some (int ?p)" "short_at b u = Some (int ?q)"
    using "1.prems" by (auto simp: short_at_def)
  have sp: "take (Suc (Suc u)) xs = take u xs @ take 2 (drop u xs)" for xs :: "u8 list"
    using take_add [of u 2 xs] by simp
  have cmp: "CMP (le_val (take (Suc (Suc u)) a)) (le_val (take (Suc (Suc u)) b)) =
      (if ?p = ?q then CMP (le_val (take u a)) (le_val (take u b)) else CMP ?p ?q)"
    using "1.prems" unfolding sp by (intro CMP_le_val_append) simp
  show ?case
  proof (cases "?p = ?q \<and> u > 0")
    case True
    then show ?thesis using "1.IH" [OF p refl] "1.prems" p cmp by simp
  next
    case False
    then show ?thesis using p cmp by (auto simp: sgn_diff Let_def CMP_def)
  qed
qed auto

interpretation cint: key_order mdb_cmp_cint "{a. length a = 2 * Suc m}" le_val for m
proof unfold_locales
  fix a b :: "u8 list"
  assume "a \<in> {a. length a = 2 * Suc m}" "b \<in> {a. length a = 2 * Suc m}"
  then show "\<exists>c. mdb_cmp_cint a b = Some c \<and> sgn c = CMP (le_val a) (le_val b)"
    using cmp_cint_loop_key [of "2 * Suc m" a b] by (auto simp: mdb_cmp_cint_def)
qed

section \<open>The byte comparisons\<close>

lemma memcmp_key:
  assumes "n = min (length a) (length b)"
  shows "\<exists>d. memcmp a b n = Some d \<and>
    CMP a b = (if d \<noteq> 0 then sgn d else CMP (length a) (length b))"
  using assms
proof (induction a b n rule: memcmp.induct)
  case (1 a b)
  then show ?case by (cases a; cases b) (auto simp: CMP_def)
next
  case (2 x a y b n)
  show ?case
  proof (cases "x = y")
    case True
    have n: "n = min (length a) (length b)" using "2.prems" by simp
    have "CMP (x # a) (y # b) = CMP a b" using True by (simp add: CMP_def)
    moreover have "CMP (length (x # a)) (length (y # b)) = CMP (length a) (length b)" by (simp add: CMP_def)
    moreover obtain d where "memcmp a b n = Some d" "CMP a b = (if d \<noteq> 0 then sgn d else CMP (length a) (length b))"
      using "2.IH" [OF True n] by blast
    ultimately show ?thesis using True by simp
  next
    case False
    then have "CMP (x # a) (y # b) = CMP x y" "CMP x y \<noteq> 0" by (simp_all add: CMP_def)
    moreover have "sgn (CMP x y) = CMP x y" by (simp add: CMP_def)
    ultimately show ?thesis using False by simp
  qed
qed simp_all

lemma mdb_cmp_memn_eq:
  assumes "length a < 2 ^ 32" "length b < 2 ^ 32"
  shows "mdb_cmp_memn a b =
    map_option (\<lambda>d. if d \<noteq> 0 then d else CMP (length a) (length b)) (memcmp a b (min (length a) (length b)))"
proof -
  consider "length a < length b" | "length a = length b" | "length b < length a" by linarith
  then show ?thesis
    by cases (use assms in \<open>simp_all add: mdb_cmp_memn_def CMP_def min_def Let_def split: bind_splits option.splits\<close>)
qed

interpretation memn: key_order mdb_cmp_memn "{a. length a < 2 ^ 32}" "\<lambda>a. a"
proof unfold_locales
  fix a b :: "u8 list"
  assume ab: "a \<in> {a. length a < 2 ^ 32}" "b \<in> {a. length a < 2 ^ 32}"
  obtain d where d: "memcmp a b (min (length a) (length b)) = Some d"
    "CMP a b = (if d \<noteq> 0 then sgn d else CMP (length a) (length b))"
    using memcmp_key [of "min (length a) (length b)" a b] by blast
  have "sgn (CMP (length a) (length b)) = CMP (length a) (length b)" by (simp add: CMP_def)
  then show "\<exists>c. mdb_cmp_memn a b = Some c \<and> sgn c = CMP a b"
    using ab d by (simp add: mdb_cmp_memn_eq)
qed

lemma cmp_memnr_loop_key:
  assumes "p1 \<le> length a" "p2 \<le> length b" "lim = p1 - p2"
  shows "\<exists>d. cmp_memnr_loop a b p1 p2 lim = Some d \<and>
    CMP (rev (take p1 a)) (rev (take p2 b)) = (if d \<noteq> 0 then sgn d else CMP p1 p2)"
  using assms
proof (induction a b p1 p2 lim rule: cmp_memnr_loop.induct)
  case (1 a b p2 lim)
  then show ?case by (cases p2) (auto simp: CMP_def take_Suc_conv_app_nth)
next
  case (2 a b p1 p2 lim)
  show ?case
  proof (cases p2)
    case 0
    then show ?thesis using 2 by (auto simp: CMP_def take_Suc_conv_app_nth)
  next
    case (Suc q)
    let ?x = "a ! p1" and ?y = "b ! q"
    have xy: "rd a p1 = Some ?x" "rd b (p2 - 1) = Some ?y" using "2.prems" Suc by auto
    have rv: "rev (take (Suc p1) a) = ?x # rev (take p1 a)" "rev (take p2 b) = ?y # rev (take q b)"
      using "2.prems" Suc by (auto simp: take_Suc_conv_app_nth)
    have lim: "lim < Suc p1" using "2.prems" Suc by simp
    show ?thesis
    proof (cases "?x = ?y")
      case True
      then have "int (unat ?x) - int (unat ?y) = 0" by simp
      then obtain d where "cmp_memnr_loop a b p1 q lim = Some d"
        "CMP (rev (take p1 a)) (rev (take q b)) = (if d \<noteq> 0 then sgn d else CMP p1 q)"
        using "2.IH" [OF lim _ xy refl] "2.prems" Suc by auto
      then show ?thesis using True xy lim Suc unfolding rv by (auto simp: CMP_def)
    next
      case False
      then have ne: "int (unat ?x) - int (unat ?y) \<noteq> 0" by (simp add: word_unat_eq_iff del: of_nat_unat)
      have "sgn (int (unat ?x) - int (unat ?y)) = CMP (?x # rev (take p1 a)) (?y # rev (take q b))"
        using False unfolding sgn_diff by (simp add: CMP_def word_less_nat_alt)
      then show ?thesis using xy lim Suc ne unfolding rv by (simp add: Let_def del: of_nat_unat)
    qed
  qed
qed

interpretation memnr: key_order mdb_cmp_memnr UNIV rev
proof unfold_locales
  fix a b :: "u8 list"
  obtain d where d: "cmp_memnr_loop a b (length a) (length b) (length a - length b) = Some d"
    "CMP (rev a) (rev b) = (if d \<noteq> 0 then sgn d else CMP (length a) (length b))"
    using cmp_memnr_loop_key [of "length a" a "length b" b] by auto
  have "nat (int (length a) - int (length b)) = length a - length b" by simp
  then show "\<exists>c. mdb_cmp_memnr a b = Some c \<and> sgn c = CMP (rev a) (rev b)"
    using d by (cases "length a" "length b" rule: linorder_cases)
      (auto simp: mdb_cmp_memnr_def Let_def CMP_def)
qed

end
