(* ===== verification/Types.thy ===== *)
theory Types
  imports Cmp Mid2l
begin

text \<open>
  The data of \<^verbatim>\<open>lmdb/mdb.c\<close>: page, node, cursor and transaction flags, the structs
  \<^verbatim>\<open>MDB_db\<close>, \<^verbatim>\<open>MDB_dbx\<close>, \<^verbatim>\<open>MDB_cursor\<close>, \<^verbatim>\<open>MDB_xcursor\<close>, \<^verbatim>\<open>MDB_txn\<close>, \<^verbatim>\<open>MDB_env\<close>,
  and the state a function of the library runs in (\<open>world\<close>): byte memory, one environment, its
  transactions and its cursors. Structs that hold C pointers to other structs are kept in maps
  from identifiers; pages are bytes in memory.
\<close>

section \<open>Constants\<close>

abbreviation (input) P_BRANCH :: u32 where "P_BRANCH \<equiv> 0x01"
abbreviation (input) P_LEAF :: u32 where "P_LEAF \<equiv> 0x02"
abbreviation (input) P_OVERFLOW :: u32 where "P_OVERFLOW \<equiv> 0x04"
abbreviation (input) P_META :: u32 where "P_META \<equiv> 0x08"
abbreviation (input) P_DIRTY :: u32 where "P_DIRTY \<equiv> 0x10"
abbreviation (input) P_LEAF2 :: u32 where "P_LEAF2 \<equiv> 0x20"
abbreviation (input) P_SUBP :: u32 where "P_SUBP \<equiv> 0x40"
abbreviation (input) P_LOOSE :: u32 where "P_LOOSE \<equiv> 0x4000"
abbreviation (input) P_KEEP :: u32 where "P_KEEP \<equiv> 0x8000"

abbreviation (input) PAGEHDRSZ :: nat where "PAGEHDRSZ \<equiv> 16"
abbreviation (input) PAGEBASE :: nat where "PAGEBASE \<equiv> 0"
abbreviation (input) NODESIZE :: nat where "NODESIZE \<equiv> 8"
abbreviation (input) FILL_THRESHOLD :: nat where "FILL_THRESHOLD \<equiv> 250"

abbreviation (input) F_BIGDATA :: u32 where "F_BIGDATA \<equiv> 0x01"
abbreviation (input) F_SUBDATA :: u32 where "F_SUBDATA \<equiv> 0x02"
abbreviation (input) F_DUPDATA :: u32 where "F_DUPDATA \<equiv> 0x04"

abbreviation (input) P_INVALID :: u64 where "P_INVALID \<equiv> - 1"

abbreviation (input) FREE_DBI :: nat where "FREE_DBI \<equiv> 0"
abbreviation (input) MAIN_DBI :: nat where "MAIN_DBI \<equiv> 1"
abbreviation (input) CORE_DBS :: nat where "CORE_DBS \<equiv> 2"
abbreviation (input) NUM_METAS :: nat where "NUM_METAS \<equiv> 2"

abbreviation (input) MDB_VALID :: u32 where "MDB_VALID \<equiv> 0x8000"
abbreviation (input) PERSISTENT_FLAGS :: u32 where "PERSISTENT_FLAGS \<equiv> 0x7fff"

abbreviation (input) DB_DIRTY :: u32 where "DB_DIRTY \<equiv> 0x01"
abbreviation (input) DB_STALE :: u32 where "DB_STALE \<equiv> 0x02"
abbreviation (input) DB_NEW :: u32 where "DB_NEW \<equiv> 0x04"
abbreviation (input) DB_VALID :: u32 where "DB_VALID \<equiv> 0x08"
abbreviation (input) DB_USRVALID :: u32 where "DB_USRVALID \<equiv> 0x10"
abbreviation (input) DB_DUPDATA :: u32 where "DB_DUPDATA \<equiv> 0x20"

abbreviation (input) MDB_TXN_RDONLY :: u32 where "MDB_TXN_RDONLY \<equiv> MDB_RDONLY"
abbreviation (input) MDB_TXN_WRITEMAP :: u32 where "MDB_TXN_WRITEMAP \<equiv> MDB_WRITEMAP"
abbreviation (input) MDB_TXN_FINISHED :: u32 where "MDB_TXN_FINISHED \<equiv> 0x01"
abbreviation (input) MDB_TXN_ERROR :: u32 where "MDB_TXN_ERROR \<equiv> 0x02"
abbreviation (input) MDB_TXN_DIRTY :: u32 where "MDB_TXN_DIRTY \<equiv> 0x04"
abbreviation (input) MDB_TXN_SPILLS :: u32 where "MDB_TXN_SPILLS \<equiv> 0x08"
abbreviation (input) MDB_TXN_HAS_CHILD :: u32 where "MDB_TXN_HAS_CHILD \<equiv> 0x10"
abbreviation (input) MDB_TXN_BLOCKED :: u32 where "MDB_TXN_BLOCKED \<equiv> 0x13"

abbreviation (input) CURSOR_STACK :: nat where "CURSOR_STACK \<equiv> 32"

abbreviation (input) C_INITIALIZED :: u32 where "C_INITIALIZED \<equiv> 0x01"
abbreviation (input) C_EOF :: u32 where "C_EOF \<equiv> 0x02"
abbreviation (input) C_SUB :: u32 where "C_SUB \<equiv> 0x04"
abbreviation (input) C_DEL :: u32 where "C_DEL \<equiv> 0x08"
abbreviation (input) C_UNTRACK :: u32 where "C_UNTRACK \<equiv> 0x40"
abbreviation (input) C_WRITEMAP :: u32 where "C_WRITEMAP \<equiv> MDB_TXN_WRITEMAP"
abbreviation (input) C_ORIG_RDONLY :: u32 where "C_ORIG_RDONLY \<equiv> MDB_TXN_RDONLY"

abbreviation (input) MDB_PS_MODIFY :: u32 where "MDB_PS_MODIFY \<equiv> 1"
abbreviation (input) MDB_PS_ROOTONLY :: u32 where "MDB_PS_ROOTONLY \<equiv> 2"
abbreviation (input) MDB_PS_FIRST :: u32 where "MDB_PS_FIRST \<equiv> 4"
abbreviation (input) MDB_PS_LAST :: u32 where "MDB_PS_LAST \<equiv> 8"

text \<open>\<^verbatim>\<open>#define F_ISSET(w, f) (((w) & (f)) == (f))\<close>, a test of one flag, and the removal of flags.\<close>

definition F_ISSET :: "u32 \<Rightarrow> u32 \<Rightarrow> bool" where
  "F_ISSET x f \<longleftrightarrow> x AND f = f"

definition any_set :: "u32 \<Rightarrow> u32 \<Rightarrow> bool" where
  "any_set x f \<longleftrightarrow> x AND f \<noteq> 0"

definition clear :: "u32 \<Rightarrow> u32 \<Rightarrow> u32" where
  "clear x f = x AND NOT f"

text \<open>\<^verbatim>\<open>#define EVEN(n) (((n) + 1U) & -2)\<close>\<close>

definition EVEN :: "nat \<Rightarrow> nat" where
  "EVEN n = (n + 1) div 2 * 2"

text \<open>Increment and decrement of a 16-bit index.\<close>

definition inc16 :: "nat \<Rightarrow> nat" where
  "inc16 x = (x + 1) mod 2 ^ 16"

definition dec16 :: "nat \<Rightarrow> nat" where
  "dec16 x = (x + (2 ^ 16 - 1)) mod 2 ^ 16"

text \<open>The null pointer: block \<open>Heap 0\<close> is never allocated.\<close>

definition NULL :: ptr where
  "NULL = Ptr (Heap 0) 0"

section \<open>Structs\<close>

record MDB_db =
  md_pad :: u32
  md_flags :: u32
  md_depth :: u16
  md_branch_pages :: u64
  md_leaf_pages :: u64
  md_overflow_pages :: u64
  md_entries :: u64
  md_root :: u64

record MDB_dbx =
  md_name :: MDB_val
  md_cmp :: "MDB_cmp_func option"
  md_dcmp :: "MDB_cmp_func option"

type_synonym cid = nat
type_synonym tid = nat

text \<open>
  What \<^verbatim>\<open>mc_db\<close>, \<^verbatim>\<open>mc_dbx\<close> and \<^verbatim>\<open>mc_dbflag\<close> point at: entry \<open>dbi\<close> of the arrays of a
  transaction, or the fields of a cursor's \<^verbatim>\<open>MDB_xcursor\<close>.
\<close>

datatype dbref = TxnDb tid nat | XcDb cid

record MDB_cursor =
  mc_backup :: "cid option"
  mc_xcursor :: "cid option"
  mc_txn :: tid
  mc_dbi :: nat
  mc_db :: dbref
  mc_dbx :: dbref
  mc_dbflag :: dbref
  mc_snum :: nat
  mc_top :: nat
  mc_flags :: u32
  mc_pg :: "ptr list"
  mc_ki :: "nat list"

text \<open>
  \<^verbatim>\<open>MDB_xcursor\<close> starts with its \<^verbatim>\<open>mx_cursor\<close>, and a pointer to it is a pointer to that
  cursor; the record holds the fields after it, under the same identifier.
\<close>

record MDB_xcursor =
  mx_db :: MDB_db
  mx_dbx :: MDB_dbx
  mx_dbflag :: u32

text \<open>\<^verbatim>\<open>MDB_pgstate\<close>: what a nested transaction saves of its parent's state (\<^verbatim>\<open>mnt_pgstate\<close>).\<close>

record MDB_pgstate =
  mf_pghead :: "MDB_IDL option"
  mf_pglast :: u64

record MDB_txn =
  mt_parent :: "tid option"
  mt_child :: "tid option"
  mt_next_pgno :: u64
  mt_txnid :: u64
  mt_free_pgs :: MDB_IDL
  mt_loose_pgs :: "ptr list"
  mt_loose_count :: int
  mt_spill_pgs :: "MDB_IDL option"
  mt_dirty_list :: "ptr MDB_ID2L"
  mt_reader :: "nat option"
  mt_dbs :: "MDB_db list"
  mt_dbiseqs :: "nat list"
  mt_cursors :: "cid list list option"
  mt_dbflags :: "u32 list"
  mt_numdbs :: nat
  mt_flags :: u32
  mt_dirty_room :: nat
  mt_pgstate :: "MDB_pgstate option"

record MDB_reader =
  mr_txnid :: u64
  mr_pid :: nat
  mr_tid :: nat

record MDB_txninfo =
  mti_txnid :: u64
  mti_numreaders :: nat
  mti_readers :: "MDB_reader list"

record MDB_env =
  me_flags :: u32
  me_psize :: nat
  me_maxreaders :: nat
  me_numdbs :: nat
  me_maxdbs :: nat
  me_pid :: nat
  me_txns :: "MDB_txninfo option"
  me_txn :: "tid option"
  me_maxpg :: u64
  me_mapsize :: nat
  me_dbxs :: "MDB_dbx list"
  me_dbflags :: "u32 list"
  me_dbiseqs :: "nat list"
  me_pgoldest :: u64
  me_pghead :: "MDB_IDL option"
  me_pglast :: u64
  me_dpages :: "ptr list"
  me_pbuf :: ptr
  me_maxfree_1pg :: nat
  me_nodemax :: nat
  me_txn0 :: "tid option"
  me_free_pgs :: MDB_IDL
  me_dirty_list :: "ptr MDB_ID2L"
  me_live_reader :: bool
  me_close_readers :: nat
  me_txkey :: "nat option"

text \<open>
  The reader slot in \<^verbatim>\<open>me_txkey\<close> is that of the calling thread, the only one in view.

  The state. \<open>w_malloc\<close> is the allocator of the C library, a parameter: its \<open>k\<close>-th call fails or
  returns memory with unspecified contents; \<open>w_calls\<close> counts the points where a call may be made. \<open>w_io\<close> is the outcome of
  the \<open>k\<close>-th system call (write, sync, file lock, mutex): an \<^verbatim>\<open>errno\<close>, 0 for success, or -1
  for a short write; \<open>w_ios\<close> counts them. \<open>w_self\<close> is the calling thread.
\<close>

record world =
  w_mem :: mem
  w_env :: MDB_env
  w_txns :: "tid \<Rightarrow> MDB_txn option"
  w_cursors :: "cid \<Rightarrow> MDB_cursor option"
  w_xcursors :: "cid \<Rightarrow> MDB_xcursor option"
  w_next :: nat
  w_malloc :: "nat \<Rightarrow> (nat \<Rightarrow> u8) option"
  w_calls :: nat
  w_io :: "nat \<Rightarrow> int"
  w_ios :: nat
  w_self :: nat

section \<open>Access to the state\<close>

abbreviation get_cur :: "world \<Rightarrow> cid \<Rightarrow> MDB_cursor option" where
  "get_cur w c \<equiv> w_cursors w c"

definition put_cur :: "world \<Rightarrow> cid \<Rightarrow> MDB_cursor \<Rightarrow> world" where
  "put_cur w c r = w\<lparr>w_cursors := (w_cursors w)(c \<mapsto> r)\<rparr>"

definition upd_cur :: "world \<Rightarrow> cid \<Rightarrow> (MDB_cursor \<Rightarrow> MDB_cursor) \<Rightarrow> world option" where
  "upd_cur w c f = map_option (\<lambda>r. put_cur w c (f r)) (w_cursors w c)"

definition upd_xc :: "world \<Rightarrow> cid \<Rightarrow> (MDB_xcursor \<Rightarrow> MDB_xcursor) \<Rightarrow> world option" where
  "upd_xc w c f = map_option (\<lambda>r. w\<lparr>w_xcursors := (w_xcursors w)(c \<mapsto> f r)\<rparr>) (w_xcursors w c)"

definition upd_txn :: "world \<Rightarrow> tid \<Rightarrow> (MDB_txn \<Rightarrow> MDB_txn) \<Rightarrow> world option" where
  "upd_txn w t f = map_option (\<lambda>r. w\<lparr>w_txns := (w_txns w)(t \<mapsto> f r)\<rparr>) (w_txns w t)"

definition upd_env :: "world \<Rightarrow> (MDB_env \<Rightarrow> MDB_env) \<Rightarrow> world" where
  "upd_env w f = w\<lparr>w_env := f (w_env w)\<rparr>"

definition get_txn :: "world \<Rightarrow> cid \<Rightarrow> MDB_txn option" where
  "get_txn w c = do { r \<leftarrow> w_cursors w c; w_txns w (mc_txn r) }"

text \<open>\<^verbatim>\<open>mc->mc_txn->mt_flags |= f\<close>\<close>

definition txn_or_flags :: "world \<Rightarrow> tid \<Rightarrow> u32 \<Rightarrow> world option" where
  "txn_or_flags w t f = upd_txn w t (\<lambda>x. x\<lparr>mt_flags := mt_flags x OR f\<rparr>)"

definition mem_do :: "world \<Rightarrow> mem option \<Rightarrow> world option" where
  "mem_do w m = map_option (\<lambda>m. w\<lparr>w_mem := m\<rparr>) m"

text \<open>Reading and writing through \<^verbatim>\<open>mc_db\<close>, \<^verbatim>\<open>mc_dbx\<close> and \<^verbatim>\<open>mc_dbflag\<close>.\<close>

fun get_db :: "world \<Rightarrow> dbref \<Rightarrow> MDB_db option" where
  "get_db w (TxnDb t i) = do { x \<leftarrow> w_txns w t; rd (mt_dbs x) i }"
| "get_db w (XcDb c) = map_option mx_db (w_xcursors w c)"

fun upd_db :: "world \<Rightarrow> dbref \<Rightarrow> (MDB_db \<Rightarrow> MDB_db) \<Rightarrow> world option" where
  "upd_db w (TxnDb t i) f = do {
     x \<leftarrow> w_txns w t;
     d \<leftarrow> rd (mt_dbs x) i;
     upd_txn w t (\<lambda>x. x\<lparr>mt_dbs := (mt_dbs x)[i := f d]\<rparr>) }"
| "upd_db w (XcDb c) f = upd_xc w c (\<lambda>x. x\<lparr>mx_db := f (mx_db x)\<rparr>)"

fun get_dbx :: "world \<Rightarrow> dbref \<Rightarrow> MDB_dbx option" where
  "get_dbx w (TxnDb t i) = rd (me_dbxs (w_env w)) i"
| "get_dbx w (XcDb c) = map_option mx_dbx (w_xcursors w c)"

fun get_dbflag :: "world \<Rightarrow> dbref \<Rightarrow> u32 option" where
  "get_dbflag w (TxnDb t i) = do { x \<leftarrow> w_txns w t; rd (mt_dbflags x) i }"
| "get_dbflag w (XcDb c) = map_option mx_dbflag (w_xcursors w c)"

fun upd_dbflag :: "world \<Rightarrow> dbref \<Rightarrow> (u32 \<Rightarrow> u32) \<Rightarrow> world option" where
  "upd_dbflag w (TxnDb t i) f = do {
     x \<leftarrow> w_txns w t;
     d \<leftarrow> rd (mt_dbflags x) i;
     upd_txn w t (\<lambda>x. x\<lparr>mt_dbflags := (mt_dbflags x)[i := f d]\<rparr>) }"
| "upd_dbflag w (XcDb c) f = upd_xc w c (\<lambda>x. x\<lparr>mx_dbflag := f (mx_dbflag x)\<rparr>)"

text \<open>\<^verbatim>\<open>mc->mc_pg[mc->mc_top]\<close> and \<^verbatim>\<open>mc->mc_ki[mc->mc_top]\<close>.\<close>

definition top_pg :: "world \<Rightarrow> cid \<Rightarrow> ptr option" where
  "top_pg w c = do { r \<leftarrow> w_cursors w c; rd (mc_pg r) (mc_top r) }"

definition top_ki :: "world \<Rightarrow> cid \<Rightarrow> nat option" where
  "top_ki w c = do { r \<leftarrow> w_cursors w c; rd (mc_ki r) (mc_top r) }"

definition set_top_ki :: "world \<Rightarrow> cid \<Rightarrow> nat \<Rightarrow> world option" where
  "set_top_ki w c k = do {
     r \<leftarrow> w_cursors w c;
     ki \<leftarrow> wr (mc_ki r) (mc_top r) k;
     Some (put_cur w c (r\<lparr>mc_ki := ki\<rparr>)) }"

definition set_top_pg :: "world \<Rightarrow> cid \<Rightarrow> ptr \<Rightarrow> world option" where
  "set_top_pg w c p = do {
     r \<leftarrow> w_cursors w c;
     pg \<leftarrow> wr (mc_pg r) (mc_top r) p;
     Some (put_cur w c (r\<lparr>mc_pg := pg\<rparr>)) }"

definition set_pg :: "world \<Rightarrow> cid \<Rightarrow> nat \<Rightarrow> ptr \<Rightarrow> world option" where
  "set_pg w c i p = do {
     r \<leftarrow> w_cursors w c;
     pg \<leftarrow> wr (mc_pg r) i p;
     Some (put_cur w c (r\<lparr>mc_pg := pg\<rparr>)) }"

definition or_flags :: "world \<Rightarrow> cid \<Rightarrow> u32 \<Rightarrow> world option" where
  "or_flags w c f = upd_cur w c (\<lambda>r. r\<lparr>mc_flags := mc_flags r OR f\<rparr>)"

definition clear_flags :: "world \<Rightarrow> cid \<Rightarrow> u32 \<Rightarrow> world option" where
  "clear_flags w c f = upd_cur w c (\<lambda>r. r\<lparr>mc_flags := clear (mc_flags r) f\<rparr>)"

text \<open>
  The cursors of a transaction on one database, the list headed by \<^verbatim>\<open>mt_cursors[dbi]\<close> and linked
  by \<^verbatim>\<open>mc_next\<close>. Read transactions have no such array.
\<close>

definition tracked :: "world \<Rightarrow> tid \<Rightarrow> nat \<Rightarrow> cid list option" where
  "tracked w t dbi = do { x \<leftarrow> w_txns w t; cs \<leftarrow> mt_cursors x; rd cs dbi }"

definition set_tracked :: "world \<Rightarrow> tid \<Rightarrow> nat \<Rightarrow> cid list \<Rightarrow> world option" where
  "set_tracked w t dbi l = do {
     x \<leftarrow> w_txns w t;
     cs \<leftarrow> mt_cursors x;
     cs \<leftarrow> wr cs dbi l;
     upd_txn w t (\<lambda>x. x\<lparr>mt_cursors := Some cs\<rparr>) }"

text \<open>
  \<^verbatim>\<open>TXN_DBI_CHANGED\<close>: the handle was closed or reopened since the transaction began. The
  sequence numbers of a read transaction are those of the environment.
\<close>

definition TXN_DBI_CHANGED :: "world \<Rightarrow> tid \<Rightarrow> nat \<Rightarrow> bool option" where
  "TXN_DBI_CHANGED w t dbi = do {
     x \<leftarrow> w_txns w t;
     s2 \<leftarrow> rd (me_dbiseqs (w_env w)) dbi;
     if any_set (mt_flags x) MDB_TXN_RDONLY then Some False
     else map_option (\<lambda>s1. s1 \<noteq> s2) (rd (mt_dbiseqs x) dbi) }"

text \<open>The outcome of the next system call.\<close>

definition syscall :: "world \<Rightarrow> int \<times> world" where
  "syscall w = (w_io w (w_ios w), w\<lparr>w_ios := w_ios w + 1\<rparr>)"

section \<open>Allocation\<close>

text \<open>\<^verbatim>\<open>malloc(n)\<close>: a fresh block with unspecified bytes, or \<open>NULL\<close>.\<close>

definition w_alloc :: "world \<Rightarrow> nat \<Rightarrow> ptr \<times> world" where
  "w_alloc w n = (let w' = w\<lparr>w_calls := w_calls w + 1\<rparr> in
     case w_malloc w (w_calls w) of
       None \<Rightarrow> (NULL, w')
     | Some junk \<Rightarrow> (Ptr (Heap (w_next w)) 0,
         w'\<lparr>w_next := w_next w + 1, w_mem := (w_mem w)(Heap (w_next w) \<mapsto> map junk [0..<n])\<rparr>))"

definition w_free :: "world \<Rightarrow> ptr \<Rightarrow> world" where
  "w_free w p = w\<lparr>w_mem := (w_mem w)(p_blk p := None)\<rparr>"

text \<open>The same allocator for the ID lists.\<close>

definition idl_heap :: "world \<Rightarrow> allocator" where
  "idl_heap w n = map_option (\<lambda>junk. map (\<lambda>i. ucast (junk i)) [0..<n]) (w_malloc w (w_calls w))"

definition tick :: "world \<Rightarrow> world" where
  "tick w = w\<lparr>w_calls := w_calls w + 1\<rparr>"

text \<open>
  A cursor variable of a function, with the \<^verbatim>\<open>MDB_xcursor\<close> beside it where the source declares
  one. Its fields are set by \<^verbatim>\<open>mdb_cursor_init\<close> before use.
\<close>

definition blank_db :: MDB_db where
  "blank_db = \<lparr>md_pad = 0, md_flags = 0, md_depth = 0, md_branch_pages = 0, md_leaf_pages = 0,
     md_overflow_pages = 0, md_entries = 0, md_root = 0\<rparr>"

definition blank_cursor :: MDB_cursor where
  "blank_cursor = \<lparr>mc_backup = None, mc_xcursor = None, mc_txn = 0, mc_dbi = 0, mc_db = TxnDb 0 0,
     mc_dbx = TxnDb 0 0, mc_dbflag = TxnDb 0 0, mc_snum = 0, mc_top = 0, mc_flags = 0,
     mc_pg = replicate CURSOR_STACK NULL, mc_ki = replicate CURSOR_STACK 0\<rparr>"

definition blank_xcursor :: MDB_xcursor where
  "blank_xcursor = \<lparr>mx_db = blank_db,
     mx_dbx = \<lparr>md_name = \<lparr>mv_size = 0, mv_data = NULL\<rparr>, md_cmp = None, md_dcmp = None\<rparr>, mx_dbflag = 0\<rparr>"

definition new_cursor :: "world \<Rightarrow> cid \<times> world" where
  "new_cursor w = (w_next w, w\<lparr>w_next := w_next w + 1, w_cursors := (w_cursors w)(w_next w \<mapsto> blank_cursor)\<rparr>)"

definition new_xcursor :: "world \<Rightarrow> cid \<times> world" where
  "new_xcursor w = (w_next w, w\<lparr>w_next := w_next w + 1, w_cursors := (w_cursors w)(w_next w \<mapsto> blank_cursor),
     w_xcursors := (w_xcursors w)(w_next w \<mapsto> blank_xcursor)\<rparr>)"

definition drop_cursor :: "world \<Rightarrow> cid \<Rightarrow> world" where
  "drop_cursor w c = w\<lparr>w_cursors := (w_cursors w)(c := None), w_xcursors := (w_xcursors w)(c := None)\<rparr>"

lemma idl_heap_ok [simp]: "allocator_ok (idl_heap w)"
  by (auto simp: allocator_ok_def idl_heap_def)

end
