(* ===== verification/Page.thy ===== *)
theory Page
  imports Types
begin

text \<open>
  Pages and nodes as bytes (\<^verbatim>\<open>MDB_page\<close>, \<^verbatim>\<open>MDB_node\<close> of \<^verbatim>\<open>lmdb/mdb.c\<close> and the macros
  on them): page number at offset 0, \<^verbatim>\<open>mp_pad\<close> 8, \<^verbatim>\<open>mp_flags\<close> 10, \<^verbatim>\<open>mp_lower\<close> 12,
  \<^verbatim>\<open>mp_upper\<close> 14 (\<^verbatim>\<open>mp_pages\<close> shares the two), \<^verbatim>\<open>mp_ptrs\<close> from 16 on; in a node
  \<^verbatim>\<open>mn_lo\<close>, \<^verbatim>\<open>mn_hi\<close>, \<^verbatim>\<open>mn_flags\<close>, \<^verbatim>\<open>mn_ksize\<close> at 0, 2, 4, 6 and the key at 8.
\<close>

section \<open>Page header\<close>

definition mp_pgno :: "mem \<Rightarrow> ptr \<Rightarrow> u64 option" where
  "mp_pgno m p = map_option of_nat (ld64 m p)"

definition set_mp_pgno :: "mem \<Rightarrow> ptr \<Rightarrow> u64 \<Rightarrow> mem option" where
  "set_mp_pgno m p v = st64 m p (unat v)"

definition mp_pad :: "mem \<Rightarrow> ptr \<Rightarrow> nat option" where
  "mp_pad m p = ld16 m (padd p 8)"

definition set_mp_pad :: "mem \<Rightarrow> ptr \<Rightarrow> nat \<Rightarrow> mem option" where
  "set_mp_pad m p v = st16 m (padd p 8) v"

definition mp_flags :: "mem \<Rightarrow> ptr \<Rightarrow> u32 option" where
  "mp_flags m p = map_option of_nat (ld16 m (padd p 10))"

definition set_mp_flags :: "mem \<Rightarrow> ptr \<Rightarrow> u32 \<Rightarrow> mem option" where
  "set_mp_flags m p v = st16 m (padd p 10) (unat v)"

definition mp_lower :: "mem \<Rightarrow> ptr \<Rightarrow> nat option" where
  "mp_lower m p = ld16 m (padd p 12)"

definition set_mp_lower :: "mem \<Rightarrow> ptr \<Rightarrow> nat \<Rightarrow> mem option" where
  "set_mp_lower m p v = st16 m (padd p 12) v"

definition mp_upper :: "mem \<Rightarrow> ptr \<Rightarrow> nat option" where
  "mp_upper m p = ld16 m (padd p 14)"

definition set_mp_upper :: "mem \<Rightarrow> ptr \<Rightarrow> nat \<Rightarrow> mem option" where
  "set_mp_upper m p v = st16 m (padd p 14) v"

definition mp_pages :: "mem \<Rightarrow> ptr \<Rightarrow> nat option" where
  "mp_pages m p = ld32 m (padd p 12)"

definition set_mp_pages :: "mem \<Rightarrow> ptr \<Rightarrow> nat \<Rightarrow> mem option" where
  "set_mp_pages m p v = st32 m (padd p 12) v"

definition mp_ptrs :: "mem \<Rightarrow> ptr \<Rightarrow> nat \<Rightarrow> nat option" where
  "mp_ptrs m p i = ld16 m (padd p (PAGEHDRSZ + 2 * i))"

definition set_mp_ptrs :: "mem \<Rightarrow> ptr \<Rightarrow> nat \<Rightarrow> nat \<Rightarrow> mem option" where
  "set_mp_ptrs m p i v = st16 m (padd p (PAGEHDRSZ + 2 * i)) v"

definition mp_or_flags :: "mem \<Rightarrow> ptr \<Rightarrow> u32 \<Rightarrow> mem option" where
  "mp_or_flags m p f = do { x \<leftarrow> mp_flags m p; set_mp_flags m p (x OR f) }"

section \<open>Page macros\<close>

definition METADATA :: "ptr \<Rightarrow> ptr" where
  "METADATA p = padd p PAGEHDRSZ"

text \<open>The difference is taken in \<^verbatim>\<open>unsigned\<close> arithmetic.\<close>

definition NUMKEYS :: "mem \<Rightarrow> ptr \<Rightarrow> nat option" where
  "NUMKEYS m p = map_option (\<lambda>lower. u32 (lower + (2 ^ 32 - (PAGEHDRSZ - PAGEBASE))) div 2) (mp_lower m p)"

definition SIZELEFT :: "mem \<Rightarrow> ptr \<Rightarrow> nat option" where
  "SIZELEFT m p = do {
     upper \<leftarrow> mp_upper m p;
     lower \<leftarrow> mp_lower m p;
     Some ((upper + (2 ^ 16 - lower)) mod 2 ^ 16) }"

definition PAGEFILL :: "MDB_env \<Rightarrow> mem \<Rightarrow> ptr \<Rightarrow> int option" where
  "PAGEFILL env m p = do {
     l \<leftarrow> SIZELEFT m p;
     Some (1000 * (int (me_psize env) - int PAGEHDRSZ - int l) div (int (me_psize env) - int PAGEHDRSZ)) }"

definition page_is :: "u32 \<Rightarrow> mem \<Rightarrow> ptr \<Rightarrow> bool option" where
  "page_is f m p = map_option (\<lambda>x. F_ISSET x f) (mp_flags m p)"

abbreviation IS_LEAF where "IS_LEAF \<equiv> page_is P_LEAF"
abbreviation IS_LEAF2 where "IS_LEAF2 \<equiv> page_is P_LEAF2"
abbreviation IS_BRANCH where "IS_BRANCH \<equiv> page_is P_BRANCH"
abbreviation IS_OVERFLOW where "IS_OVERFLOW \<equiv> page_is P_OVERFLOW"
abbreviation IS_SUBP where "IS_SUBP \<equiv> page_is P_SUBP"

definition OVPAGES :: "nat \<Rightarrow> nat \<Rightarrow> nat" where
  "OVPAGES sz psize = (PAGEHDRSZ - 1 + sz) div psize + 1"

section \<open>Nodes\<close>

definition NODEPTR :: "mem \<Rightarrow> ptr \<Rightarrow> nat \<Rightarrow> ptr option" where
  "NODEPTR m p i = map_option (\<lambda>ofs. padd p (ofs + PAGEBASE)) (mp_ptrs m p i)"

definition mn_lo :: "mem \<Rightarrow> ptr \<Rightarrow> nat option" where
  "mn_lo m n = ld16 m n"

definition mn_hi :: "mem \<Rightarrow> ptr \<Rightarrow> nat option" where
  "mn_hi m n = ld16 m (padd n 2)"

definition mn_flags :: "mem \<Rightarrow> ptr \<Rightarrow> u32 option" where
  "mn_flags m n = map_option of_nat (ld16 m (padd n 4))"

definition set_mn_flags :: "mem \<Rightarrow> ptr \<Rightarrow> u32 \<Rightarrow> mem option" where
  "set_mn_flags m n v = st16 m (padd n 4) (unat v)"

definition mn_ksize :: "mem \<Rightarrow> ptr \<Rightarrow> nat option" where
  "mn_ksize m n = ld16 m (padd n 6)"

definition set_mn_ksize :: "mem \<Rightarrow> ptr \<Rightarrow> nat \<Rightarrow> mem option" where
  "set_mn_ksize m n v = st16 m (padd n 6) v"

definition INDXSIZE :: "MDB_val option \<Rightarrow> nat" where
  "INDXSIZE k = NODESIZE + (case k of None \<Rightarrow> 0 | Some v \<Rightarrow> mv_size v)"

definition LEAFSIZE :: "MDB_val \<Rightarrow> MDB_val \<Rightarrow> nat" where
  "LEAFSIZE k d = NODESIZE + mv_size k + mv_size d"

definition NODEKEY :: "ptr \<Rightarrow> ptr" where
  "NODEKEY n = padd n NODESIZE"

definition NODEDATA :: "mem \<Rightarrow> ptr \<Rightarrow> ptr option" where
  "NODEDATA m n = map_option (\<lambda>k. padd n (NODESIZE + k)) (mn_ksize m n)"

definition NODEPGNO :: "mem \<Rightarrow> ptr \<Rightarrow> u64 option" where
  "NODEPGNO m n = do {
     lo \<leftarrow> mn_lo m n;
     hi \<leftarrow> mn_hi m n;
     fl \<leftarrow> ld16 m (padd n 4);
     Some (of_nat lo OR push_bit 16 (of_nat hi) OR push_bit 32 (of_nat fl)) }"

definition SETPGNO :: "mem \<Rightarrow> ptr \<Rightarrow> u64 \<Rightarrow> mem option" where
  "SETPGNO m n pgno = do {
     m \<leftarrow> st16 m n (unat (pgno AND 0xffff));
     m \<leftarrow> st16 m (padd n 2) (unat (drop_bit 16 pgno));
     st16 m (padd n 4) (unat (drop_bit 32 pgno)) }"

definition NODEDSZ :: "mem \<Rightarrow> ptr \<Rightarrow> nat option" where
  "NODEDSZ m n = do {
     lo \<leftarrow> mn_lo m n;
     hi \<leftarrow> mn_hi m n;
     Some (unat (of_nat lo OR push_bit 16 (of_nat hi) :: u32)) }"

definition SETDSZ :: "mem \<Rightarrow> ptr \<Rightarrow> nat \<Rightarrow> mem option" where
  "SETDSZ m n sz = do {
     m \<leftarrow> st16 m n (unat ((of_nat sz :: u64) AND 0xffff));
     st16 m (padd n 2) (unat (drop_bit 16 (of_nat sz :: u64))) }"

definition NODEKSZ :: "mem \<Rightarrow> ptr \<Rightarrow> nat option" where
  "NODEKSZ m n = mn_ksize m n"

definition LEAF2KEY :: "ptr \<Rightarrow> nat \<Rightarrow> nat \<Rightarrow> ptr" where
  "LEAF2KEY p i ks = padd p (PAGEHDRSZ + i * ks)"

text \<open>\<^verbatim>\<open>MDB_GET_KEY2\<close>: the key of a node as a value; \<^verbatim>\<open>MDB_GET_KEY\<close>: into a pointer that may be null.\<close>

definition MDB_GET_KEY2 :: "mem \<Rightarrow> ptr \<Rightarrow> MDB_val option" where
  "MDB_GET_KEY2 m n = map_option (\<lambda>k. \<lparr>mv_size = k, mv_data = NODEKEY n\<rparr>) (NODEKSZ m n)"

definition MDB_GET_KEY :: "mem \<Rightarrow> ptr \<Rightarrow> MDB_val option \<Rightarrow> MDB_val option option" where
  "MDB_GET_KEY m n keyptr = (case keyptr of
     None \<Rightarrow> Some None
   | Some _ \<Rightarrow> map_option Some (MDB_GET_KEY2 m n))"

text \<open>The bytes of a value.\<close>

definition val_bytes :: "mem \<Rightarrow> MDB_val \<Rightarrow> u8 list option" where
  "val_bytes m v = load m (mv_data v) (mv_size v)"

text \<open>A call of a comparison function on two values.\<close>

definition cmp_vals :: "MDB_cmp_func \<Rightarrow> mem \<Rightarrow> MDB_val \<Rightarrow> MDB_val \<Rightarrow> int option" where
  "cmp_vals f m a b = do {
     x \<leftarrow> val_bytes m a;
     y \<leftarrow> val_bytes m b;
     run_cmp f x y }"

definition is_cint :: "MDB_cmp_func \<Rightarrow> bool" where
  "is_cint f = (case f of Cmp_cint \<Rightarrow> True | _ \<Rightarrow> False)"

text \<open>\<^verbatim>\<open>NEED_CMP_CLONG\<close>; \<^verbatim>\<open>mdb_cmp_clong\<close> is \<^verbatim>\<open>mdb_cmp_long\<close> where misaligned access is allowed.\<close>

definition NEED_CMP_CLONG :: "MDB_cmp_func option \<Rightarrow> nat \<Rightarrow> bool" where
  "NEED_CMP_CLONG cmp ksize \<longleftrightarrow> (case cmp of Some Cmp_int \<Rightarrow> ksize = 8 | _ \<Rightarrow> False)"

abbreviation (input) mdb_cmp_clong :: MDB_cmp_func where
  "mdb_cmp_clong \<equiv> Cmp_long"

section \<open>\<^verbatim>\<open>MDB_db\<close> as bytes\<close>

definition load_db :: "mem \<Rightarrow> ptr \<Rightarrow> MDB_db option" where
  "load_db m p = do {
     pad \<leftarrow> ld32 m p;
     fl \<leftarrow> ld16 m (padd p 4);
     dep \<leftarrow> ld16 m (padd p 6);
     br \<leftarrow> ld64 m (padd p 8);
     lf \<leftarrow> ld64 m (padd p 16);
     ov \<leftarrow> ld64 m (padd p 24);
     en \<leftarrow> ld64 m (padd p 32);
     ro \<leftarrow> ld64 m (padd p 40);
     Some \<lparr>md_pad = of_nat pad, md_flags = of_nat fl, md_depth = of_nat dep, md_branch_pages = of_nat br,
       md_leaf_pages = of_nat lf, md_overflow_pages = of_nat ov, md_entries = of_nat en, md_root = of_nat ro\<rparr> }"

definition db_bytes :: "MDB_db \<Rightarrow> u8 list" where
  "db_bytes d = le_bytes 4 (unat (md_pad d)) @ le_bytes 2 (unat (md_flags d)) @ le_bytes 2 (unat (md_depth d)) @
     le_bytes 8 (unat (md_branch_pages d)) @ le_bytes 8 (unat (md_leaf_pages d)) @
     le_bytes 8 (unat (md_overflow_pages d)) @ le_bytes 8 (unat (md_entries d)) @ le_bytes 8 (unat (md_root d))"

definition store_db :: "mem \<Rightarrow> ptr \<Rightarrow> MDB_db \<Rightarrow> mem option" where
  "store_db m p d = store m p (db_bytes d)"

lemma length_db_bytes [simp]: "length (db_bytes d) = 48"
  by (simp add: db_bytes_def)

end
