(* ===== verification/Node.thy ===== *)
theory Node
  imports Page
begin

text \<open>
  Operations on the nodes of one page (\<^verbatim>\<open>lmdb/mdb.c\<close>): sizes, removal, compaction of a
  sub-page, and the part of \<^verbatim>\<open>mdb_node_add\<close> that writes the page. They act on memory; the
  functions with a cursor argument fetch the page from the cursor first.
\<close>

section \<open>Sizes\<close>

definition mdb_leaf_size :: "MDB_env \<Rightarrow> MDB_val \<Rightarrow> MDB_val \<Rightarrow> nat" where
  "mdb_leaf_size env key data =
     (let sz = LEAFSIZE key data;
          sz = (if sz > me_nodemax env then sz - mv_size data + 8 else sz)
      in EVEN (sz + 2))"

definition mdb_branch_size :: "MDB_env \<Rightarrow> MDB_val option \<Rightarrow> nat" where
  "mdb_branch_size env key = INDXSIZE key + 2"

section \<open>Removing a node\<close>

text \<open>The slots of the pointer array from \<open>i\<close> on, \<open>k\<close> of them, close the gap at \<open>indx\<close>.\<close>

fun node_del_ptrs :: "mem \<Rightarrow> ptr \<Rightarrow> nat \<Rightarrow> nat \<Rightarrow> nat \<Rightarrow> nat \<Rightarrow> nat \<Rightarrow> nat \<Rightarrow> mem option" where
  "node_del_ptrs m mp indx ptr sz 0 i j = Some m"
| "node_del_ptrs m mp indx ptr sz (Suc k) i j =
     (if i \<noteq> indx then do {
        x \<leftarrow> mp_ptrs m mp i;
        m \<leftarrow> set_mp_ptrs m mp j x;
        y \<leftarrow> mp_ptrs m mp i;
        m \<leftarrow> (if y < ptr then do { z \<leftarrow> mp_ptrs m mp j; set_mp_ptrs m mp j (z + sz) } else Some m);
        node_del_ptrs m mp indx ptr sz k (i + 1) (j + 1) }
      else node_del_ptrs m mp indx ptr sz k (i + 1) j)"

definition node_del_leaf2 :: "mem \<Rightarrow> ptr \<Rightarrow> nat \<Rightarrow> nat \<Rightarrow> nat \<Rightarrow> mem option" where
  "node_del_leaf2 m mp indx numkeys ksize = do {
     let x = numkeys - 1 - indx;
     let base = LEAF2KEY mp indx ksize;
     m \<leftarrow> (if x \<noteq> 0 then memmove m base (padd base ksize) (x * ksize) else Some m);
     lower \<leftarrow> mp_lower m mp;
     m \<leftarrow> set_mp_lower m mp (lower + 2 ^ 16 - 2);
     upper \<leftarrow> mp_upper m mp;
     set_mp_upper m mp (upper + ksize + 2 ^ 16 - 2) }"

text \<open>The size of a node of the page, rounded up.\<close>

definition node_size_at :: "mem \<Rightarrow> ptr \<Rightarrow> ptr \<Rightarrow> nat option" where
  "node_size_at m mp node = do {
     ks \<leftarrow> mn_ksize m node;
     leaf \<leftarrow> IS_LEAF m mp;
     sz \<leftarrow> (if leaf then do {
              fl \<leftarrow> mn_flags m node;
              if F_ISSET fl F_BIGDATA then Some (NODESIZE + ks + 8)
              else do { d \<leftarrow> NODEDSZ m node; Some (u32 (NODESIZE + ks + d)) } }
            else Some (NODESIZE + ks));
     Some (EVEN sz) }"

definition node_del_at :: "mem \<Rightarrow> ptr \<Rightarrow> nat \<Rightarrow> nat \<Rightarrow> mem option" where
  "node_del_at m mp indx ksize = do {
     nk \<leftarrow> NUMKEYS m mp;
     let numkeys = nk mod 2 ^ 16;
     if \<not> indx < numkeys then None
     else do {
       leaf2 \<leftarrow> IS_LEAF2 m mp;
       if leaf2 then node_del_leaf2 m mp indx numkeys ksize
       else do {
         node \<leftarrow> NODEPTR m mp indx;
         sz \<leftarrow> node_size_at m mp node;
         ptr \<leftarrow> mp_ptrs m mp indx;
         m \<leftarrow> node_del_ptrs m mp indx ptr sz numkeys 0 0;
         upper \<leftarrow> mp_upper m mp;
         let base = padd mp (upper + PAGEBASE);
         m \<leftarrow> (if ptr < upper then None else memmove m (padd base sz) base (ptr - upper));
         lower \<leftarrow> mp_lower m mp;
         m \<leftarrow> set_mp_lower m mp (lower + 2 ^ 16 - 2);
         upper \<leftarrow> mp_upper m mp;
         set_mp_upper m mp (upper + sz) } } }"

definition mdb_node_del :: "world \<Rightarrow> cid \<Rightarrow> nat \<Rightarrow> world option" where
  "mdb_node_del w mc ksize = do {
     mp \<leftarrow> top_pg w mc;
     indx \<leftarrow> top_ki w mc;
     mem_do w (node_del_at (w_mem w) mp indx ksize) }"

section \<open>Compacting a page after a removal from a sub-page\<close>

fun shrink_sub_ptrs :: "mem \<Rightarrow> ptr \<Rightarrow> ptr \<Rightarrow> nat \<Rightarrow> nat \<Rightarrow> mem option" where
  "shrink_sub_ptrs m sp xp delta 0 = Some m"
| "shrink_sub_ptrs m sp xp delta (Suc i) = do {
     x \<leftarrow> mp_ptrs m sp i;
     m \<leftarrow> set_mp_ptrs m xp i (x + 2 ^ 16 - delta);
     shrink_sub_ptrs m sp xp delta i }"

fun shrink_ptrs :: "mem \<Rightarrow> ptr \<Rightarrow> nat \<Rightarrow> nat \<Rightarrow> nat \<Rightarrow> mem option" where
  "shrink_ptrs m mp ptr delta 0 = Some m"
| "shrink_ptrs m mp ptr delta (Suc i) = do {
     x \<leftarrow> mp_ptrs m mp i;
     m \<leftarrow> (if x \<le> ptr then set_mp_ptrs m mp i (x + delta) else Some m);
     shrink_ptrs m mp ptr delta i }"

definition mdb_node_shrink :: "mem \<Rightarrow> ptr \<Rightarrow> nat \<Rightarrow> mem option" where
  "mdb_node_shrink m mp indx = do {
     node \<leftarrow> NODEPTR m mp indx;
     sp \<leftarrow> NODEDATA m node;
     delta \<leftarrow> SIZELEFT m sp;
     dsz \<leftarrow> NODEDSZ m node;
     let nsize = (dsz + 2 ^ 16 - delta) mod 2 ^ 16;
     leaf2 \<leftarrow> IS_LEAF2 m sp;
     if leaf2 \<and> odd nsize then Some m
     else do {
       n \<leftarrow> NUMKEYS m sp;
       m \<leftarrow> (if leaf2 then Some m else shrink_sub_ptrs m sp (padd sp delta) delta n);
       let len = (if leaf2 then nsize else PAGEHDRSZ);
       lower \<leftarrow> mp_lower m sp;
       m \<leftarrow> set_mp_upper m sp lower;
       pgno \<leftarrow> mp_pgno m mp;
       m \<leftarrow> set_mp_pgno m sp pgno;
       m \<leftarrow> SETDSZ m node nsize;
       upper \<leftarrow> mp_upper m mp;
       let base = padd mp (upper + PAGEBASE);
       m \<leftarrow> (if p_off sp + len < p_off base then None
             else memmove m (padd base delta) base (p_off sp + len - p_off base));
       ptr \<leftarrow> mp_ptrs m mp indx;
       nk \<leftarrow> NUMKEYS m mp;
       m \<leftarrow> shrink_ptrs m mp ptr delta nk;
       upper \<leftarrow> mp_upper m mp;
       set_mp_upper m mp (upper + delta) } }"

section \<open>Writing a new node\<close>

definition node_add_leaf2 :: "mem \<Rightarrow> ptr \<Rightarrow> nat \<Rightarrow> ptr \<Rightarrow> nat \<Rightarrow> mem option" where
  "node_add_leaf2 m mp indx keydata ksize = do {
     let ptr = LEAF2KEY mp indx ksize;
     nk \<leftarrow> NUMKEYS m mp;
     m \<leftarrow> (if nk > indx then memmove m (padd ptr ksize) ptr ((nk - indx) * ksize) else Some m);
     m \<leftarrow> memmove m ptr keydata ksize;
     lower \<leftarrow> mp_lower m mp;
     m \<leftarrow> set_mp_lower m mp (lower + 2);
     upper \<leftarrow> mp_upper m mp;
     set_mp_upper m mp (upper + 2 ^ 16 + 2 - ksize mod 2 ^ 16) }"

text \<open>\<^verbatim>\<open>for (i = NUMKEYS(mp); i > indx; i--) mp->mp_ptrs[i] = mp->mp_ptrs[i - 1];\<close>\<close>

fun node_add_ptrs :: "mem \<Rightarrow> ptr \<Rightarrow> nat \<Rightarrow> nat \<Rightarrow> mem option" where
  "node_add_ptrs m mp indx 0 = Some m"
| "node_add_ptrs m mp indx (Suc i) =
     (if Suc i > indx then do {
        x \<leftarrow> mp_ptrs m mp i;
        m \<leftarrow> set_mp_ptrs m mp (Suc i) x;
        node_add_ptrs m mp indx i }
      else Some m)"

text \<open>Make room for a node of \<open>node_size\<close> bytes at slot \<open>indx\<close>; returns the node.\<close>

definition node_add_room :: "mem \<Rightarrow> ptr \<Rightarrow> nat \<Rightarrow> nat \<Rightarrow> (mem \<times> ptr) option" where
  "node_add_room m mp indx node_size = do {
     nk \<leftarrow> NUMKEYS m mp;
     m \<leftarrow> node_add_ptrs m mp indx nk;
     upper \<leftarrow> mp_upper m mp;
     lower \<leftarrow> mp_lower m mp;
     let ofs = (upper + 2 ^ 16 - node_size mod 2 ^ 16) mod 2 ^ 16;
     if \<not> ofs \<ge> lower + 2 then None
     else do {
       m \<leftarrow> set_mp_ptrs m mp indx ofs;
       m \<leftarrow> set_mp_upper m mp ofs;
       m \<leftarrow> set_mp_lower m mp (lower + 2);
       node \<leftarrow> NODEPTR m mp indx;
       Some (m, node) } }"

text \<open>Write the node header and the key.\<close>

definition node_add_header ::
  "mem \<Rightarrow> ptr \<Rightarrow> ptr \<Rightarrow> MDB_val option \<Rightarrow> nat \<Rightarrow> u64 \<Rightarrow> u32 \<Rightarrow> mem option" where
  "node_add_header m mp node key dsize pgno flags = do {
     m \<leftarrow> set_mn_ksize m node (case key of None \<Rightarrow> 0 | Some k \<Rightarrow> mv_size k);
     m \<leftarrow> set_mn_flags m node flags;
     leaf \<leftarrow> IS_LEAF m mp;
     m \<leftarrow> (if leaf then SETDSZ m node dsize else SETPGNO m node pgno);
     (case key of
        None \<Rightarrow> Some m
      | Some k \<Rightarrow> memmove m (NODEKEY node) (mv_data k) (mv_size k)) }"

text \<open>
  Write the data of a leaf node, in the node or on the overflow page \<open>ofp\<close>; with \<open>MDB_RESERVE\<close>
  the caller gets the address instead.
\<close>

definition node_add_data ::
  "mem \<Rightarrow> ptr \<Rightarrow> ptr option \<Rightarrow> MDB_val \<Rightarrow> u32 \<Rightarrow> (mem \<times> MDB_val) option" where
  "node_add_data m node ofp data flags = do {
     ndata \<leftarrow> NODEDATA m node;
     (case ofp of
        None \<Rightarrow>
          if F_ISSET flags F_BIGDATA then do {
            m \<leftarrow> memmove m ndata (mv_data data) 8;
            Some (m, data) }
          else if F_ISSET flags MDB_RESERVE then Some (m, data\<lparr>mv_data := ndata\<rparr>)
          else do {
            m \<leftarrow> memmove m ndata (mv_data data) (mv_size data);
            Some (m, data) }
      | Some op \<Rightarrow> do {
          m \<leftarrow> memmove m ndata op 8;
          if F_ISSET flags MDB_RESERVE then Some (m, data\<lparr>mv_data := METADATA op\<rparr>)
          else do {
            m \<leftarrow> memmove m (METADATA op) (mv_data data) (mv_size data);
            Some (m, data) } }) }"

text \<open>The \<^verbatim>\<open>update:\<close> part of \<^verbatim>\<open>mdb_node_add\<close>.\<close>

definition node_add_update ::
  "mem \<Rightarrow> ptr \<Rightarrow> nat \<Rightarrow> MDB_val option \<Rightarrow> MDB_val option \<Rightarrow> u64 \<Rightarrow> u32 \<Rightarrow> nat \<Rightarrow> ptr option \<Rightarrow> (mem \<times> MDB_val option) option" where
  "node_add_update m mp indx key data pgno flags node_size ofp = do {
     (m, node) \<leftarrow> node_add_room m mp indx node_size;
     leaf \<leftarrow> IS_LEAF m mp;
     (case data of
        None \<Rightarrow> if leaf then None else do {
          m \<leftarrow> node_add_header m mp node key 0 pgno flags;
          Some (m, None) }
      | Some d \<Rightarrow> do {
          m \<leftarrow> node_add_header m mp node key (mv_size d) pgno flags;
          if leaf then do {
            (m, d) \<leftarrow> node_add_data m node ofp d flags;
            Some (m, Some d) }
          else Some (m, Some d) }) }"

end
