(* ===== verification/Search.thy ===== *)
theory Search
  imports Node
begin

text \<open>
  Finding a page and a node (\<^verbatim>\<open>lmdb/mdb.c\<close>): the cursor's page stack, the page table lookup
  of a transaction, the binary search in a page, and the descent from the root. The functions that
  write (\<^verbatim>\<open>MDB_PS_MODIFY\<close>) get \<^verbatim>\<open>mdb_page_touch\<close> as an argument \<open>touch\<close>: it is defined
  further on, and it calls back only without that flag.
\<close>

type_synonym touch_fun = "world \<Rightarrow> cid \<Rightarrow> (int \<times> world) option"

section \<open>The cursor stack\<close>

definition mdb_cursor_pop :: "world \<Rightarrow> cid \<Rightarrow> world option" where
  "mdb_cursor_pop w mc = upd_cur w mc (\<lambda>r.
     if mc_snum r \<noteq> 0 then
       (let r = r\<lparr>mc_snum := mc_snum r - 1\<rparr> in
        if mc_snum r \<noteq> 0 then r\<lparr>mc_top := dec16 (mc_top r)\<rparr>
        else r\<lparr>mc_flags := clear (mc_flags r) C_INITIALIZED\<rparr>)
     else r)"

definition mdb_cursor_push :: "world \<Rightarrow> cid \<Rightarrow> ptr \<Rightarrow> (int \<times> world) option" where
  "mdb_cursor_push w mc mp = do {
     r \<leftarrow> get_cur w mc;
     if mc_snum r \<ge> CURSOR_STACK then do {
       w \<leftarrow> txn_or_flags w (mc_txn r) MDB_TXN_ERROR;
       Some (MDB_CURSOR_FULL, w) }
     else do {
       let top = mc_snum r;
       pg \<leftarrow> wr (mc_pg r) top mp;
       ki \<leftarrow> wr (mc_ki r) top 0;
       Some (MDB_SUCCESS, put_cur w mc (r\<lparr>mc_top := top, mc_snum := top + 1, mc_pg := pg, mc_ki := ki\<rparr>)) } }"

section \<open>From page number to page\<close>

text \<open>
  The loop over the dirty and spill lists of the transaction and its ancestors: the page is dirty
  (\<open>Inl\<close>), spilled to the map (\<open>Inr True\<close>), or not listed (\<open>Inr False\<close>). Ancestor chains are
  finite; \<open>n\<close> bounds the walk.
\<close>

fun page_get_dirty :: "world \<Rightarrow> nat \<Rightarrow> tid \<Rightarrow> u64 \<Rightarrow> int \<Rightarrow> ((ptr + bool) \<times> int) option" where
  "page_get_dirty w 0 tx2 pgno level = None"
| "page_get_dirty w (Suc n) tx2 pgno level = do {
     t \<leftarrow> w_txns w tx2;
     spilled \<leftarrow> (case mt_spill_pgs t of
        None \<Rightarrow> Some False
      | Some sl \<Rightarrow> do {
          let pn = push_bit 1 pgno;
          x \<leftarrow> mdb_midl_search (idl_words sl) pn;
          k \<leftarrow> rd (idl_words sl) 0;
          if x \<le> unat k then map_option (\<lambda>y. y = pn) (rd (idl_words sl) x) else Some False });
     if spilled then Some (Inr True, level)
     else do {
       let dl = mt_dirty_list t;
       e0 \<leftarrow> rd dl 0;
       found \<leftarrow> (if mid e0 \<noteq> 0 then do {
            x \<leftarrow> mdb_mid2l_search dl pgno;
            if x \<le> unat (mid e0) then map_option (\<lambda>e. if mid e = pgno then Some (mptr e) else None) (rd dl x)
            else Some None }
          else Some None);
       (case found of
          Some p \<Rightarrow> Some (Inl p, level)
        | None \<Rightarrow> (case mt_parent t of
            None \<Rightarrow> Some (Inr False, level + 1)
          | Some par \<Rightarrow> page_get_dirty w n par pgno (level + 1))) } }"

text \<open>Nesting depth of transactions the walk over ancestors allows for.\<close>

abbreviation (input) TXN_NEST :: nat where
  "TXN_NEST \<equiv> 1000"

definition map_page :: "world \<Rightarrow> u64 \<Rightarrow> ptr" where
  "map_page w pgno = Ptr Map (me_psize (w_env w) * unat pgno)"

definition mdb_page_get :: "world \<Rightarrow> cid \<Rightarrow> u64 \<Rightarrow> (int \<times> ptr \<times> int \<times> world) option" where
  "mdb_page_get w mc pgno = do {
     r \<leftarrow> get_cur w mc;
     t \<leftarrow> w_txns w (mc_txn r);
     (p, level) \<leftarrow> (if \<not> any_set (mc_flags r) (C_ORIG_RDONLY OR C_WRITEMAP)
        then page_get_dirty w TXN_NEST (mc_txn r) pgno 1 else Some (Inr False, 0));
     (case p of
        Inl p \<Rightarrow> Some (MDB_SUCCESS, p, level, w)
      | Inr True \<Rightarrow> Some (MDB_SUCCESS, map_page w pgno, level, w)
      | Inr False \<Rightarrow>
          if pgno \<ge> mt_next_pgno t then do {
            w \<leftarrow> txn_or_flags w (mc_txn r) MDB_TXN_ERROR;
            Some (MDB_PAGE_NOTFOUND, NULL, 0, w) }
          else Some (MDB_SUCCESS, map_page w pgno, 0, w)) }"

section \<open>Searching a page\<close>

text \<open>The key of slot \<open>i\<close>: fixed-size on a \<open>P_LEAF2\<close> page, in a node elsewhere.\<close>

definition key_at :: "mem \<Rightarrow> ptr \<Rightarrow> bool \<Rightarrow> nat \<Rightarrow> nat \<Rightarrow> MDB_val option" where
  "key_at m mp leaf2 pad i =
     (if leaf2 then Some \<lparr>mv_size = pad, mv_data = LEAF2KEY mp i pad\<rparr>
      else do { node \<leftarrow> NODEPTR m mp i; MDB_GET_KEY2 m node })"

text \<open>
  The loop of \<^verbatim>\<open>mdb_node_search\<close>; the locals are \<open>low\<close>, \<open>high\<close>, \<open>i\<close> and \<open>rc\<close> of the source and
  \<open>cmp j\<close> the comparison of the key with slot \<open>j\<close>.
\<close>

function node_search_loop :: "(nat \<Rightarrow> int option) \<Rightarrow> nat \<Rightarrow> int \<Rightarrow> nat \<Rightarrow> int \<Rightarrow> (nat \<times> int) option" where
  "node_search_loop cmp low high i rc =
     (if int low \<le> high then
        (let i = (low + nat high) div 2 in
         case cmp i of
           None \<Rightarrow> None
         | Some rc \<Rightarrow>
             if rc = 0 then Some (i, rc)
             else if rc > 0 then node_search_loop cmp (i + 1) high i rc
             else node_search_loop cmp low (int i - 1) i rc)
      else Some (i, rc))"
  by pat_completeness auto
termination
  by (relation "measure (\<lambda>(cmp, low, high, i, rc). nat (high + 1 - int low))") auto

declare node_search_loop.simps [simp del]

text \<open>The comparison to use: on branch pages integer keys are aligned.\<close>

definition node_search_cmp :: "mem \<Rightarrow> ptr \<Rightarrow> MDB_cmp_func \<Rightarrow> MDB_cmp_func option" where
  "node_search_cmp m mp cmp = do {
     br \<leftarrow> IS_BRANCH m mp;
     if is_cint cmp \<and> br then do {
       node \<leftarrow> NODEPTR m mp 1;
       ks \<leftarrow> mn_ksize m node;
       Some (if ks = 8 then Cmp_long else Cmp_int) }
     else Some cmp }"

text \<open>The search on a page: the index and whether it is an exact match.\<close>

definition node_search_page :: "mem \<Rightarrow> ptr \<Rightarrow> MDB_cmp_func \<Rightarrow> nat \<Rightarrow> MDB_val \<Rightarrow> (nat \<times> bool \<times> nat) option" where
  "node_search_page m mp cmp pad key = do {
     nkeys \<leftarrow> NUMKEYS m mp;
     leaf \<leftarrow> IS_LEAF m mp;
     leaf2 \<leftarrow> IS_LEAF2 m mp;
     cmp \<leftarrow> node_search_cmp m mp cmp;
     (i, rc) \<leftarrow> node_search_loop
        (\<lambda>j. do { nodekey \<leftarrow> key_at m mp leaf2 pad j; cmp_vals cmp m key nodekey })
        (if leaf then 0 else 1) (int nkeys - 1) 0 0;
     Some (if rc > 0 then i + 1 else i, rc = 0 \<and> nkeys > 0, nkeys) }"

text \<open>
  Returns the node or \<open>None\<close> for \<^verbatim>\<open>NULL\<close>, the exact-match flag, and the state with the index
  stored in the cursor. The node is a fake one on \<open>P_LEAF2\<close> pages.
\<close>

definition mdb_node_search :: "world \<Rightarrow> cid \<Rightarrow> MDB_val \<Rightarrow> (ptr option \<times> bool \<times> world) option" where
  "mdb_node_search w mc key = do {
     r \<leftarrow> get_cur w mc;
     mp \<leftarrow> top_pg w mc;
     dbx \<leftarrow> get_dbx w (mc_dbx r);
     cmp \<leftarrow> md_cmp dbx;
     db \<leftarrow> get_db w (mc_db r);
     (i, exact, nkeys) \<leftarrow> node_search_page (w_mem w) mp cmp (unat (md_pad db)) key;
     w \<leftarrow> set_top_ki w mc i;
     if i \<ge> nkeys then Some (None, exact, w)
     else do {
       leaf2 \<leftarrow> IS_LEAF2 (w_mem w) mp;
       node \<leftarrow> NODEPTR (w_mem w) mp (if leaf2 then 0 else i);
       Some (Some node, exact, w) } }"

section \<open>Descending from the root\<close>

text \<open>One turn of the loop of \<^verbatim>\<open>mdb_page_search_root\<close>: the index to follow on a branch page.\<close>

definition search_root_index :: "world \<Rightarrow> cid \<Rightarrow> ptr \<Rightarrow> MDB_val option \<Rightarrow> u32 \<Rightarrow> (nat \<times> bool \<times> world) option" where
  "search_root_index w mc mp key flags = do {
     r \<leftarrow> get_cur w mc;
     nk \<leftarrow> NUMKEYS (w_mem w) mp;
     if \<not> (mc_dbi r = 0 \<or> nk > 1) then None
     else if any_set flags (MDB_PS_FIRST OR MDB_PS_LAST) then
       (if any_set flags MDB_PS_LAST then do {
          let i = u32 (nk + (2 ^ 32 - 1)) mod 2 ^ 16;
          ki \<leftarrow> top_ki w mc;
          Some (i, any_set (mc_flags r) C_INITIALIZED \<and> ki = i, w) }
        else Some (0, False, w))
     else do {
       k \<leftarrow> key;
       (node, exact, w) \<leftarrow> mdb_node_search w mc k;
       (case node of
          None \<Rightarrow> Some (u32 (nk + (2 ^ 32 - 1)) mod 2 ^ 16, False, w)
        | Some _ \<Rightarrow> do {
            i \<leftarrow> top_ki w mc;
            if exact then Some (i, False, w)
            else if \<not> i > 0 then None
            else Some (i - 1, False, w) }) } }"

text \<open>Step down to the child at the index, or to the page the cursor already has there.\<close>

definition search_root_down :: "world \<Rightarrow> cid \<Rightarrow> ptr \<Rightarrow> nat \<Rightarrow> bool \<Rightarrow> (int \<times> ptr \<times> world) option" where
  "search_root_down w mc mp i there =
     (if there then do {
        r \<leftarrow> get_cur w mc;
        let w = put_cur w mc (r\<lparr>mc_top := mc_snum r, mc_snum := mc_snum r + 1\<rparr>);
        mp \<leftarrow> top_pg w mc;
        Some (MDB_SUCCESS, mp, w) }
      else do {
        nk \<leftarrow> NUMKEYS (w_mem w) mp;
        if \<not> i < nk then None
        else do {
          node \<leftarrow> NODEPTR (w_mem w) mp i;
          pgno \<leftarrow> NODEPGNO (w_mem w) node;
          (rc, mp, lvl, w) \<leftarrow> mdb_page_get w mc pgno;
          if rc \<noteq> 0 then Some (rc, mp, w)
          else do {
            w \<leftarrow> set_top_ki w mc i;
            (rc, w) \<leftarrow> mdb_cursor_push w mc mp;
            Some (rc, mp, w) } } })"

partial_function (option) page_search_root_loop ::
  "touch_fun \<Rightarrow> world \<Rightarrow> cid \<Rightarrow> ptr \<Rightarrow> MDB_val option \<Rightarrow> u32 \<Rightarrow> (int \<times> world) option" where
  "page_search_root_loop touch w mc mp key flags = do {
     br \<leftarrow> IS_BRANCH (w_mem w) mp;
     if br then do {
       (i, there, w) \<leftarrow> search_root_index w mc mp key flags;
       (rc, mp, w) \<leftarrow> search_root_down w mc mp i there;
       if rc \<noteq> 0 then Some (rc, w)
       else if any_set flags MDB_PS_MODIFY then do {
         (rc, w) \<leftarrow> touch w mc;
         if rc \<noteq> 0 then Some (rc, w)
         else do {
           mp \<leftarrow> top_pg w mc;
           page_search_root_loop touch w mc mp key flags } }
       else page_search_root_loop touch w mc mp key flags }
     else do {
       leaf \<leftarrow> IS_LEAF (w_mem w) mp;
       r \<leftarrow> get_cur w mc;
       if \<not> leaf then do {
         w \<leftarrow> txn_or_flags w (mc_txn r) MDB_TXN_ERROR;
         Some (MDB_CORRUPTED, w) }
       else Some (MDB_SUCCESS, put_cur w mc (r\<lparr>mc_flags := clear (mc_flags r OR C_INITIALIZED) C_EOF\<rparr>)) } }"

declare page_search_root_loop.simps [code]

definition mdb_page_search_root ::
  "touch_fun \<Rightarrow> world \<Rightarrow> cid \<Rightarrow> MDB_val option \<Rightarrow> u32 \<Rightarrow> (int \<times> world) option" where
  "mdb_page_search_root touch w mc key flags = do {
     mp \<leftarrow> top_pg w mc;
     page_search_root_loop touch w mc mp key flags }"

definition mdb_page_search_lowest :: "touch_fun \<Rightarrow> world \<Rightarrow> cid \<Rightarrow> (int \<times> world) option" where
  "mdb_page_search_lowest touch w mc = do {
     mp \<leftarrow> top_pg w mc;
     node \<leftarrow> NODEPTR (w_mem w) mp 0;
     pgno \<leftarrow> NODEPGNO (w_mem w) node;
     (rc, mp, lvl, w) \<leftarrow> mdb_page_get w mc pgno;
     if rc \<noteq> 0 then Some (rc, w)
     else do {
       w \<leftarrow> set_top_ki w mc 0;
       (rc, w) \<leftarrow> mdb_cursor_push w mc mp;
       if rc \<noteq> 0 then Some (rc, w)
       else mdb_page_search_root touch w mc None MDB_PS_FIRST } }"

section \<open>Reading a node\<close>

text \<open>The old value of \<^verbatim>\<open>*data\<close> is an argument: on failure only its size has been written.\<close>

definition mdb_node_read :: "world \<Rightarrow> cid \<Rightarrow> ptr \<Rightarrow> MDB_val \<Rightarrow> (int \<times> MDB_val \<times> world) option" where
  "mdb_node_read w mc leaf data = do {
     fl \<leftarrow> mn_flags (w_mem w) leaf;
     sz \<leftarrow> NODEDSZ (w_mem w) leaf;
     nd \<leftarrow> NODEDATA (w_mem w) leaf;
     if \<not> F_ISSET fl F_BIGDATA then Some (MDB_SUCCESS, \<lparr>mv_size = sz, mv_data = nd\<rparr>, w)
     else do {
       pgno \<leftarrow> ld64 (w_mem w) nd;
       (rc, omp, lvl, w) \<leftarrow> mdb_page_get w mc (of_nat pgno);
       if rc \<noteq> 0 then Some (rc, data\<lparr>mv_size := sz\<rparr>, w)
       else Some (MDB_SUCCESS, \<lparr>mv_size = sz, mv_data = METADATA omp\<rparr>, w) } }"

end
