(* ===== verification/Cursor.thy ===== *)
theory Cursor
  imports Search
begin

text \<open>
  Cursors (\<^verbatim>\<open>lmdb/mdb.c\<close>): set-up, the search from the root of a database, and the moves
  \<^verbatim>\<open>mdb_cursor_next\<close>, \<^verbatim>\<open>_prev\<close>, \<^verbatim>\<open>_set\<close>, \<^verbatim>\<open>_first\<close>, \<^verbatim>\<open>_last\<close>. A key or data
  pointer is an optional value, and its value after the call is returned. A call on a
  sorted-duplicates cursor recurs one level, into its \<^verbatim>\<open>mx_cursor\<close>, which has no
  sub-cursor of its own; the argument \<open>d\<close> counts the levels left.
\<close>

section \<open>Sub-cursors for sorted duplicates\<close>

definition mdb_xcursor_init0 :: "world \<Rightarrow> cid \<Rightarrow> world option" where
  "mdb_xcursor_init0 w mc = do {
     r \<leftarrow> get_cur w mc;
     x \<leftarrow> mc_xcursor r;
     dbx \<leftarrow> get_dbx w (mc_dbx r);
     w \<leftarrow> upd_cur w x (\<lambda>c. c\<lparr>mc_xcursor := None, mc_txn := mc_txn r, mc_db := XcDb x, mc_dbx := XcDb x,
        mc_dbi := mc_dbi r, mc_dbflag := XcDb x, mc_snum := 0, mc_top := 0,
        mc_flags := C_SUB OR (mc_flags r AND (C_ORIG_RDONLY OR C_WRITEMAP))\<rparr>);
     upd_xc w x (\<lambda>y. y\<lparr>mx_dbx := \<lparr>md_name = \<lparr>mv_size = 0, mv_data = NULL\<rparr>, md_cmp = md_dcmp dbx, md_dcmp = None\<rparr>\<rparr>) }"

text \<open>The two branches of \<^verbatim>\<open>mdb_xcursor_init1\<close>: a sub-database and a sub-page.\<close>

definition xcursor_init1_sub :: "world \<Rightarrow> cid \<Rightarrow> ptr \<Rightarrow> world option" where
  "xcursor_init1_sub w x nd = do {
     db \<leftarrow> load_db (w_mem w) nd;
     w \<leftarrow> upd_xc w x (\<lambda>y. y\<lparr>mx_db := db\<rparr>);
     w \<leftarrow> set_pg w x 0 NULL;
     upd_cur w x (\<lambda>c. c\<lparr>mc_snum := 0, mc_top := 0\<rparr>) }"

definition xcursor_init1_page :: "world \<Rightarrow> cid \<Rightarrow> cid \<Rightarrow> ptr \<Rightarrow> world option" where
  "xcursor_init1_page w mc x fp = do {
     r \<leftarrow> get_cur w mc;
     nk \<leftarrow> NUMKEYS (w_mem w) fp;
     pgno \<leftarrow> mp_pgno (w_mem w) fp;
     pad \<leftarrow> mp_pad (w_mem w) fp;
     db \<leftarrow> get_db w (mc_db r);
     let d = \<lparr>md_pad = 0, md_flags = 0, md_depth = 1, md_branch_pages = 0, md_leaf_pages = 1,
              md_overflow_pages = 0, md_entries = of_nat nk, md_root = pgno\<rparr>;
     let d = (if any_set (md_flags db) MDB_DUPFIXED
              then d\<lparr>md_flags := MDB_DUPFIXED OR (if any_set (md_flags db) MDB_INTEGERDUP then MDB_INTEGERKEY else 0),
                     md_pad := of_nat pad\<rparr>
              else d);
     w \<leftarrow> upd_xc w x (\<lambda>y. y\<lparr>mx_db := d\<rparr>);
     w \<leftarrow> set_pg w x 0 fp;
     upd_cur w x (\<lambda>c. c\<lparr>mc_snum := 1, mc_top := 0, mc_flags := mc_flags c OR C_INITIALIZED, mc_ki := (mc_ki c)[0 := 0]\<rparr>) }"

definition mdb_xcursor_init1 :: "world \<Rightarrow> cid \<Rightarrow> ptr \<Rightarrow> world option" where
  "mdb_xcursor_init1 w mc node = do {
     r \<leftarrow> get_cur w mc;
     x \<leftarrow> mc_xcursor r;
     w \<leftarrow> upd_cur w x (\<lambda>c. c\<lparr>mc_flags := mc_flags c AND (C_SUB OR C_ORIG_RDONLY OR C_WRITEMAP)\<rparr>);
     fl \<leftarrow> mn_flags (w_mem w) node;
     nd \<leftarrow> NODEDATA (w_mem w) node;
     w \<leftarrow> (if any_set fl F_SUBDATA then xcursor_init1_sub w x nd else xcursor_init1_page w mc x nd);
     upd_xc w x (\<lambda>y. y\<lparr>mx_dbflag := DB_VALID OR DB_USRVALID OR DB_DUPDATA,
       mx_dbx := (if NEED_CMP_CLONG (md_cmp (mx_dbx y)) (unat (md_pad (mx_db y)))
                  then (mx_dbx y)\<lparr>md_cmp := Some mdb_cmp_clong\<rparr> else mx_dbx y)\<rparr>) }"

definition mdb_xcursor_init2 :: "world \<Rightarrow> cid \<Rightarrow> cid \<Rightarrow> bool \<Rightarrow> world option" where
  "mdb_xcursor_init2 w mc src_mx new_dupdata = do {
     r \<leftarrow> get_cur w mc;
     x \<leftarrow> mc_xcursor r;
     xr \<leftarrow> get_cur w x;
     sr \<leftarrow> get_cur w src_mx;
     sx \<leftarrow> w_xcursors w src_mx;
     if \<not> new_dupdata \<and> \<not> any_set (mc_flags xr) C_INITIALIZED then Some w
     else do {
       w \<leftarrow> (if new_dupdata then do {
            w \<leftarrow> upd_cur w x (\<lambda>c. c\<lparr>mc_snum := 1, mc_top := 0, mc_flags := mc_flags c OR C_INITIALIZED, mc_ki := (mc_ki c)[0 := 0]\<rparr>);
            upd_xc w x (\<lambda>y. y\<lparr>mx_dbflag := DB_VALID OR DB_USRVALID OR DB_DUPDATA,
              mx_dbx := (mx_dbx y)\<lparr>md_cmp := md_cmp (mx_dbx sx)\<rparr>\<rparr>) }
          else Some w);
       w \<leftarrow> upd_xc w x (\<lambda>y. y\<lparr>mx_db := mx_db sx\<rparr>);
       p \<leftarrow> rd (mc_pg sr) 0;
       set_pg w x 0 p } }"

text \<open>\<^verbatim>\<open>XCURSOR_INITED\<close> and \<^verbatim>\<open>XCURSOR_REFRESH\<close>.\<close>

definition XCURSOR_INITED :: "world \<Rightarrow> cid \<Rightarrow> bool option" where
  "XCURSOR_INITED w mc = do {
     r \<leftarrow> get_cur w mc;
     (case mc_xcursor r of
        None \<Rightarrow> Some False
      | Some x \<Rightarrow> map_option (\<lambda>c. any_set (mc_flags c) C_INITIALIZED) (get_cur w x)) }"

definition XCURSOR_REFRESH :: "world \<Rightarrow> cid \<Rightarrow> nat \<Rightarrow> ptr \<Rightarrow> world option" where
  "XCURSOR_REFRESH w mc lev mp = do {
     r \<leftarrow> get_cur w mc;
     ini \<leftarrow> XCURSOR_INITED w mc;
     ki \<leftarrow> rd (mc_ki r) lev;
     nk \<leftarrow> NUMKEYS (w_mem w) mp;
     if \<not> ini \<or> ki \<ge> nk then Some w
     else do {
       node \<leftarrow> NODEPTR (w_mem w) mp ki;
       fl \<leftarrow> mn_flags (w_mem w) node;
       if fl AND (F_DUPDATA OR F_SUBDATA) = F_DUPDATA then do {
         x \<leftarrow> mc_xcursor r;
         nd \<leftarrow> NODEDATA (w_mem w) node;
         set_pg w x 0 nd }
       else Some w } }"

section \<open>Initialising a cursor and searching from the root\<close>

text \<open>\<^verbatim>\<open>mdb_cursor_init\<close> up to its last statement.\<close>

definition cursor_init_fields :: "world \<Rightarrow> cid \<Rightarrow> tid \<Rightarrow> nat \<Rightarrow> cid option \<Rightarrow> world option" where
  "cursor_init_fields w mc t dbi mx = do {
     x \<leftarrow> w_txns w t;
     db \<leftarrow> rd (mt_dbs x) dbi;
     w \<leftarrow> upd_cur w mc (\<lambda>c. c\<lparr>mc_backup := None, mc_dbi := dbi, mc_txn := t, mc_db := TxnDb t dbi,
        mc_dbx := TxnDb t dbi, mc_dbflag := TxnDb t dbi, mc_snum := 0, mc_top := 0,
        mc_pg := (mc_pg c)[0 := NULL], mc_ki := (mc_ki c)[0 := 0],
        mc_flags := mt_flags x AND (C_ORIG_RDONLY OR C_WRITEMAP)\<rparr>);
     if any_set (md_flags db) MDB_DUPSORT then do {
       m \<leftarrow> mx;
       w \<leftarrow> upd_cur w mc (\<lambda>c. c\<lparr>mc_xcursor := Some m\<rparr>);
       mdb_xcursor_init0 w mc }
     else upd_cur w mc (\<lambda>c. c\<lparr>mc_xcursor := None\<rparr>) }"

text \<open>The part of \<^verbatim>\<open>mdb_page_search\<close> after the root has been determined to be up to date.\<close>

definition page_search_from_root ::
  "touch_fun \<Rightarrow> world \<Rightarrow> cid \<Rightarrow> MDB_val option \<Rightarrow> u32 \<Rightarrow> (int \<times> world) option" where
  "page_search_from_root touch w mc key flags = do {
     r \<leftarrow> get_cur w mc;
     db \<leftarrow> get_db w (mc_db r);
     let root = md_root db;
     if root = P_INVALID then Some (MDB_NOTFOUND, w)
     else if \<not> root > 1 then None
     else do {
       p0 \<leftarrow> rd (mc_pg r) 0;
       same \<leftarrow> (if p0 = NULL then Some False else map_option (\<lambda>n. n = root) (mp_pgno (w_mem w) p0));
       (rc, w) \<leftarrow> (if same then Some (0, w)
          else do {
            (rc, p, lvl, w) \<leftarrow> mdb_page_get w mc root;
            if rc \<noteq> 0 then Some (rc, w)
            else do { w \<leftarrow> set_pg w mc 0 p; Some (0, w) } });
       if rc \<noteq> 0 then Some (rc, w)
       else do {
         w \<leftarrow> upd_cur w mc (\<lambda>c. c\<lparr>mc_snum := 1, mc_top := 0\<rparr>);
         (rc, w) \<leftarrow> (if any_set flags MDB_PS_MODIFY then touch w mc else Some (0, w));
         if rc \<noteq> 0 then Some (rc, w)
         else if any_set flags MDB_PS_ROOTONLY then Some (MDB_SUCCESS, w)
         else mdb_page_search_root touch w mc key flags } } }"

text \<open>
  Reload the record of a named database that the transaction has not read yet. The main database is
  never stale, so the search for the record is a search from its root.
\<close>

definition page_search_stale :: "touch_fun \<Rightarrow> world \<Rightarrow> cid \<Rightarrow> (int \<times> world) option" where
  "page_search_stale touch w mc = do {
     r \<leftarrow> get_cur w mc;
     changed \<leftarrow> TXN_DBI_CHANGED w (mc_txn r) (mc_dbi r);
     if changed then Some (MDB_BAD_DBI, w)
     else do {
       let (mc2, w) = new_cursor w;
       w \<leftarrow> cursor_init_fields w mc2 (mc_txn r) MAIN_DBI None;
       stale \<leftarrow> get_dbflag w (TxnDb (mc_txn r) MAIN_DBI);
       if any_set stale DB_STALE then None
       else do {
         dbx \<leftarrow> get_dbx w (mc_dbx r);
         (rc, w) \<leftarrow> page_search_from_root touch w mc2 (Some (md_name dbx)) 0;
         if rc \<noteq> 0 then Some (rc, drop_cursor w mc2)
         else do {
           (leaf, exact, w) \<leftarrow> mdb_node_search w mc2 (md_name dbx);
           if \<not> exact then Some (MDB_NOTFOUND, drop_cursor w mc2)
           else do {
             node \<leftarrow> leaf;
             fl \<leftarrow> mn_flags (w_mem w) node;
             if fl AND (F_DUPDATA OR F_SUBDATA) \<noteq> F_SUBDATA then Some (MDB_INCOMPATIBLE, drop_cursor w mc2)
             else do {
               (rc, d, w) \<leftarrow> mdb_node_read w mc2 node \<lparr>mv_size = 0, mv_data = NULL\<rparr>;
               let w = drop_cursor w mc2;
               if rc \<noteq> 0 then Some (rc, w)
               else do {
                 rec \<leftarrow> load_db (w_mem w) (mv_data d);
                 db \<leftarrow> get_db w (mc_db r);
                 if md_flags db AND PERSISTENT_FLAGS \<noteq> md_flags rec then Some (MDB_INCOMPATIBLE, w)
                 else do {
                   w \<leftarrow> upd_db w (mc_db r) (\<lambda>_. rec);
                   w \<leftarrow> upd_dbflag w (mc_dbflag r) (\<lambda>f. clear f DB_STALE);
                   Some (MDB_SUCCESS, w) } } } } } } } }"

definition mdb_page_search ::
  "touch_fun \<Rightarrow> world \<Rightarrow> cid \<Rightarrow> MDB_val option \<Rightarrow> u32 \<Rightarrow> (int \<times> world) option" where
  "mdb_page_search touch w mc key flags = do {
     r \<leftarrow> get_cur w mc;
     t \<leftarrow> w_txns w (mc_txn r);
     if any_set (mt_flags t) MDB_TXN_BLOCKED then Some (MDB_BAD_TXN, w)
     else do {
       fl \<leftarrow> get_dbflag w (mc_dbflag r);
       (rc, w) \<leftarrow> (if any_set fl DB_STALE then page_search_stale touch w mc else Some (0, w));
       if rc \<noteq> 0 then Some (rc, w)
       else page_search_from_root touch w mc key flags } }"

definition mdb_cursor_init :: "touch_fun \<Rightarrow> world \<Rightarrow> cid \<Rightarrow> tid \<Rightarrow> nat \<Rightarrow> cid option \<Rightarrow> world option" where
  "mdb_cursor_init touch w mc t dbi mx = do {
     w \<leftarrow> cursor_init_fields w mc t dbi mx;
     fl \<leftarrow> get_dbflag w (TxnDb t dbi);
     if any_set fl DB_STALE then do {
       (rc, w) \<leftarrow> mdb_page_search touch w mc None MDB_PS_ROOTONLY;
       Some w }
     else Some w }"

section \<open>Siblings\<close>

text \<open>The recursion climbs the stack; \<open>n\<close> bounds it by the stack size.\<close>

fun cursor_sibling :: "nat \<Rightarrow> world \<Rightarrow> cid \<Rightarrow> bool \<Rightarrow> (int \<times> world) option" where
  "cursor_sibling 0 w mc move_right = None"
| "cursor_sibling (Suc n) w mc move_right = do {
     r \<leftarrow> get_cur w mc;
     if mc_snum r < 2 then Some (MDB_NOTFOUND, w)
     else do {
       w \<leftarrow> mdb_cursor_pop w mc;
       mp \<leftarrow> top_pg w mc;
       ki \<leftarrow> top_ki w mc;
       nk \<leftarrow> NUMKEYS (w_mem w) mp;
       (rc, w) \<leftarrow> (if (if move_right then ki + 1 \<ge> nk else ki = 0) then do {
            (rc, w) \<leftarrow> cursor_sibling n w mc move_right;
            if rc \<noteq> MDB_SUCCESS then do {
              w \<leftarrow> upd_cur w mc (\<lambda>c. c\<lparr>mc_top := inc16 (mc_top c), mc_snum := inc16 (mc_snum c)\<rparr>);
              Some (rc, w) }
            else Some (0, w) }
          else do {
            w \<leftarrow> set_top_ki w mc (if move_right then inc16 ki else dec16 ki);
            Some (0, w) });
       if rc \<noteq> 0 then Some (rc, w)
       else do {
         mp \<leftarrow> top_pg w mc;
         br \<leftarrow> IS_BRANCH (w_mem w) mp;
         if \<not> br then None
         else do {
           ki \<leftarrow> top_ki w mc;
           indx \<leftarrow> NODEPTR (w_mem w) mp ki;
           pgno \<leftarrow> NODEPGNO (w_mem w) indx;
           (rc, mp, lvl, w) \<leftarrow> mdb_page_get w mc pgno;
           if rc \<noteq> 0 then do {
             w \<leftarrow> clear_flags w mc (C_INITIALIZED OR C_EOF);
             Some (rc, w) }
           else do {
             (rc, w) \<leftarrow> mdb_cursor_push w mc mp;
             w \<leftarrow> (if move_right then Some w
                  else do {
                    nk \<leftarrow> NUMKEYS (w_mem w) mp;
                    set_top_ki w mc (u32 (nk + (2 ^ 32 - 1)) mod 2 ^ 16) });
             Some (MDB_SUCCESS, w) } } } } }"

definition mdb_cursor_sibling :: "world \<Rightarrow> cid \<Rightarrow> bool \<Rightarrow> (int \<times> world) option" where
  "mdb_cursor_sibling w mc move_right = cursor_sibling (CURSOR_STACK + 1) w mc move_right"

section \<open>First and last\<close>

text \<open>Results: return code, key and data after the call, state.\<close>

type_synonym get_result = "(int \<times> MDB_val option \<times> MDB_val option \<times> world) option"

text \<open>
  \<^verbatim>\<open>if (mc->mc_xcursor) mc->mc_xcursor->mx_cursor.mc_flags &= ~(C_INITIALIZED|C_EOF)\<close>
\<close>

definition xcursor_reset :: "world \<Rightarrow> cid \<Rightarrow> world option" where
  "xcursor_reset w mc = do {
     r \<leftarrow> get_cur w mc;
     (case mc_xcursor r of
        None \<Rightarrow> Some w
      | Some x \<Rightarrow> clear_flags w x (C_INITIALIZED OR C_EOF)) }"

text \<open>The key of the current slot of a \<open>P_LEAF2\<close> page.\<close>

definition leaf2_key :: "world \<Rightarrow> cid \<Rightarrow> ptr \<Rightarrow> MDB_val option" where
  "leaf2_key w mc mp = do {
     r \<leftarrow> get_cur w mc;
     db \<leftarrow> get_db w (mc_db r);
     ki \<leftarrow> top_ki w mc;
     Some \<lparr>mv_size = unat (md_pad db), mv_data = LEAF2KEY mp ki (unat (md_pad db))\<rparr> }"

definition sub_cursor :: "world \<Rightarrow> cid \<Rightarrow> cid option" where
  "sub_cursor w mc = do { r \<leftarrow> get_cur w mc; mc_xcursor r }"

fun mdb_cursor_first :: "nat \<Rightarrow> touch_fun \<Rightarrow> world \<Rightarrow> cid \<Rightarrow> MDB_val option \<Rightarrow> MDB_val option \<Rightarrow> get_result" where
  "mdb_cursor_first 0 touch w mc key data = None"
| "mdb_cursor_first (Suc d) touch w mc key data = do {
     w \<leftarrow> xcursor_reset w mc;
     r \<leftarrow> get_cur w mc;
     (rc, w) \<leftarrow> (if \<not> any_set (mc_flags r) C_INITIALIZED \<or> mc_top r \<noteq> 0
        then mdb_page_search touch w mc None MDB_PS_FIRST else Some (0, w));
     if rc \<noteq> MDB_SUCCESS then Some (rc, key, data, w)
     else do {
       mp \<leftarrow> top_pg w mc;
       is_leaf \<leftarrow> IS_LEAF (w_mem w) mp;
       if \<not> is_leaf then None
       else do {
         leaf \<leftarrow> NODEPTR (w_mem w) mp 0;
         w \<leftarrow> or_flags w mc C_INITIALIZED;
         w \<leftarrow> clear_flags w mc C_EOF;
         w \<leftarrow> set_top_ki w mc 0;
         leaf2 \<leftarrow> IS_LEAF2 (w_mem w) mp;
         if leaf2 then do {
           _ \<leftarrow> key;
           k \<leftarrow> leaf2_key w mc mp;
           Some (MDB_SUCCESS, Some k, data, w) }
         else do {
           fl \<leftarrow> mn_flags (w_mem w) leaf;
           (rc, data, w) \<leftarrow> (case data of
                None \<Rightarrow> Some (0, None, w)
              | Some d0 \<Rightarrow> if F_ISSET fl F_DUPDATA then do {
                w \<leftarrow> mdb_xcursor_init1 w mc leaf;
                x \<leftarrow> sub_cursor w mc;
                (rc, data, _, w) \<leftarrow> mdb_cursor_first d touch w x data None;
                Some (rc, data, w) }
              else do {
                (rc, v, w) \<leftarrow> mdb_node_read w mc leaf d0;
                Some (rc, Some v, w) });
           if rc \<noteq> 0 then Some (rc, key, data, w)
           else do {
             key \<leftarrow> MDB_GET_KEY (w_mem w) leaf key;
             Some (MDB_SUCCESS, key, data, w) } } } } }"

fun mdb_cursor_last :: "nat \<Rightarrow> touch_fun \<Rightarrow> world \<Rightarrow> cid \<Rightarrow> MDB_val option \<Rightarrow> MDB_val option \<Rightarrow> get_result" where
  "mdb_cursor_last 0 touch w mc key data = None"
| "mdb_cursor_last (Suc d) touch w mc key data = do {
     w \<leftarrow> xcursor_reset w mc;
     r \<leftarrow> get_cur w mc;
     (rc, w) \<leftarrow> (if \<not> any_set (mc_flags r) C_INITIALIZED \<or> mc_top r \<noteq> 0
        then mdb_page_search touch w mc None MDB_PS_LAST else Some (0, w));
     if rc \<noteq> MDB_SUCCESS then Some (rc, key, data, w)
     else do {
       mp \<leftarrow> top_pg w mc;
       is_leaf \<leftarrow> IS_LEAF (w_mem w) mp;
       if \<not> is_leaf then None
       else do {
         nk \<leftarrow> NUMKEYS (w_mem w) mp;
         w \<leftarrow> set_top_ki w mc (u32 (nk + (2 ^ 32 - 1)) mod 2 ^ 16);
         w \<leftarrow> or_flags w mc (C_INITIALIZED OR C_EOF);
         ki \<leftarrow> top_ki w mc;
         leaf \<leftarrow> NODEPTR (w_mem w) mp ki;
         leaf2 \<leftarrow> IS_LEAF2 (w_mem w) mp;
         if leaf2 then do {
           _ \<leftarrow> key;
           k \<leftarrow> leaf2_key w mc mp;
           Some (MDB_SUCCESS, Some k, data, w) }
         else do {
           fl \<leftarrow> mn_flags (w_mem w) leaf;
           (rc, data, w) \<leftarrow> (case data of
                None \<Rightarrow> Some (0, None, w)
              | Some d0 \<Rightarrow> if F_ISSET fl F_DUPDATA then do {
                w \<leftarrow> mdb_xcursor_init1 w mc leaf;
                x \<leftarrow> sub_cursor w mc;
                (rc, data, _, w) \<leftarrow> mdb_cursor_last d touch w x data None;
                Some (rc, data, w) }
              else do {
                (rc, v, w) \<leftarrow> mdb_node_read w mc leaf d0;
                Some (rc, Some v, w) });
           if rc \<noteq> 0 then Some (rc, key, data, w)
           else do {
             key \<leftarrow> MDB_GET_KEY (w_mem w) leaf key;
             Some (MDB_SUCCESS, key, data, w) } } } } }"

end
