(* ===== verification/Cursor_Get.thy ===== *)
theory Cursor_Get
  imports Cursor
begin

text \<open>
  The rest of the read path (\<^verbatim>\<open>lmdb/mdb.c\<close>): moving a cursor, positioning it on a key,
  \<^verbatim>\<open>mdb_cursor_get\<close>, \<^verbatim>\<open>mdb_get\<close>, and opening and closing cursors.
\<close>

section \<open>Next and previous\<close>

text \<open>
  The end that \<^verbatim>\<open>mdb_cursor_next\<close> and \<^verbatim>\<open>mdb_cursor_prev\<close> share (the cursor is on the item):
  return its key and data. \<open>sub\<close> is \<^verbatim>\<open>mdb_cursor_first\<close> or \<^verbatim>\<open>mdb_cursor_last\<close> for the
  duplicates.
\<close>

definition cursor_fetch ::
  "(world \<Rightarrow> cid \<Rightarrow> MDB_val option \<Rightarrow> MDB_val option \<Rightarrow> get_result) \<Rightarrow> world \<Rightarrow> cid \<Rightarrow> ptr \<Rightarrow>
   MDB_val option \<Rightarrow> MDB_val option \<Rightarrow> get_result" where
  "cursor_fetch sub w mc mp key data = do {
     leaf2 \<leftarrow> IS_LEAF2 (w_mem w) mp;
     if leaf2 then do {
       _ \<leftarrow> key;
       k \<leftarrow> leaf2_key w mc mp;
       Some (MDB_SUCCESS, Some k, data, w) }
     else do {
       is_leaf \<leftarrow> IS_LEAF (w_mem w) mp;
       if \<not> is_leaf then None
       else do {
         ki \<leftarrow> top_ki w mc;
         leaf \<leftarrow> NODEPTR (w_mem w) mp ki;
         fl \<leftarrow> mn_flags (w_mem w) leaf;
         w \<leftarrow> (if F_ISSET fl F_DUPDATA then mdb_xcursor_init1 w mc leaf else Some w);
         (rc, data, w) \<leftarrow> (case data of
              None \<Rightarrow> Some (0, None, w)
            | Some d0 \<Rightarrow> do {
                (rc, v, w) \<leftarrow> mdb_node_read w mc leaf d0;
                if rc \<noteq> MDB_SUCCESS then Some (rc, Some v, w)
                else if F_ISSET fl F_DUPDATA then do {
                  x \<leftarrow> sub_cursor w mc;
                  (rc, data, _, w) \<leftarrow> sub w x (Some v) None;
                  Some (rc, data, w) }
                else Some (0, Some v, w) });
         if rc \<noteq> MDB_SUCCESS then Some (rc, key, data, w)
         else do {
           key \<leftarrow> MDB_GET_KEY (w_mem w) leaf key;
           Some (MDB_SUCCESS, key, data, w) } } } }"

text \<open>
  The duplicates part of \<^verbatim>\<open>mdb_cursor_next\<close> and \<^verbatim>\<open>mdb_cursor_prev\<close>: move inside the current
  key's items if there are any. \<open>Inl\<close>: the call is done; \<open>Inr\<close>: go on to the next key.
\<close>

definition cursor_move_dup ::
  "(world \<Rightarrow> cid \<Rightarrow> MDB_val option \<Rightarrow> MDB_val option \<Rightarrow> get_result) \<Rightarrow> world \<Rightarrow> cid \<Rightarrow> ptr \<Rightarrow>
   MDB_val option \<Rightarrow> MDB_val option \<Rightarrow> bool \<Rightarrow> bool \<Rightarrow> u32 \<Rightarrow>
   ((int \<times> MDB_val option \<times> MDB_val option \<times> world) + (MDB_val option \<times> world)) option" where
  "cursor_move_dup move w mc mp key data plain dup clr = do {
     ki \<leftarrow> top_ki w mc;
     leaf \<leftarrow> NODEPTR (w_mem w) mp ki;
     fl \<leftarrow> mn_flags (w_mem w) leaf;
     x \<leftarrow> sub_cursor w mc;
     if F_ISSET fl F_DUPDATA then
       (if plain \<or> dup then do {
          (rc, data, _, w) \<leftarrow> move w x data None;
          if \<not> plain \<or> rc \<noteq> MDB_NOTFOUND then
            (if rc = MDB_SUCCESS then do {
               key \<leftarrow> MDB_GET_KEY (w_mem w) leaf key;
               w \<leftarrow> clear_flags w mc clr;
               Some (Inl (rc, key, data, w)) }
             else Some (Inl (rc, key, data, w)))
          else Some (Inr (data, w)) }
        else Some (Inr (data, w)))
     else do {
       w \<leftarrow> clear_flags w x (C_INITIALIZED OR C_EOF);
       if dup then Some (Inl (MDB_NOTFOUND, key, data, w)) else Some (Inr (data, w)) } }"

fun mdb_cursor_next ::
  "nat \<Rightarrow> touch_fun \<Rightarrow> world \<Rightarrow> cid \<Rightarrow> MDB_val option \<Rightarrow> MDB_val option \<Rightarrow> MDB_cursor_op \<Rightarrow> get_result" where
  "mdb_cursor_next 0 touch w mc key data op = None"
| "mdb_cursor_next (Suc d) touch w mc key data op = do {
     r \<leftarrow> get_cur w mc;
     if any_set (mc_flags r) C_DEL \<and> op = MDB_NEXT_DUP then Some (MDB_NOTFOUND, key, data, w)
     else if \<not> any_set (mc_flags r) C_INITIALIZED then mdb_cursor_first (Suc d) touch w mc key data
     else do {
       mp \<leftarrow> top_pg w mc;
       ki \<leftarrow> top_ki w mc;
       nk \<leftarrow> NUMKEYS (w_mem w) mp;
       if any_set (mc_flags r) C_EOF \<and> ki \<ge> u32 (nk + (2 ^ 32 - 1)) then Some (MDB_NOTFOUND, key, data, w)
       else do {
         w \<leftarrow> (if any_set (mc_flags r) C_EOF then upd_cur w mc (\<lambda>c. c\<lparr>mc_flags := mc_flags c XOR C_EOF\<rparr>) else Some w);
         db \<leftarrow> get_db w (mc_db r);
         step \<leftarrow> (if any_set (md_flags db) MDB_DUPSORT
            then cursor_move_dup (\<lambda>w x k dt. mdb_cursor_next d touch w x k dt MDB_NEXT) w mc mp key data
                   (op = MDB_NEXT) (op = MDB_NEXT_DUP) 0
            else Some (Inr (data, w)));
         (case step of
            Inl res \<Rightarrow> Some res
          | Inr (data, w) \<Rightarrow> do {
              (rc, mp, w) \<leftarrow> (if any_set (mc_flags r) C_DEL then do {
                   w \<leftarrow> upd_cur w mc (\<lambda>c. c\<lparr>mc_flags := mc_flags c XOR C_DEL\<rparr>);
                   Some (0, mp, w) }
                 else if ki + 1 \<ge> nk then do {
                   (rc, w) \<leftarrow> mdb_cursor_sibling w mc True;
                   if rc \<noteq> MDB_SUCCESS then do {
                     w \<leftarrow> or_flags w mc C_EOF;
                     Some (rc, mp, w) }
                   else do { mp \<leftarrow> top_pg w mc; Some (0, mp, w) } }
                 else do {
                   w \<leftarrow> set_top_ki w mc (inc16 ki);
                   Some (0, mp, w) });
              if rc \<noteq> 0 then Some (rc, key, data, w)
              else cursor_fetch (mdb_cursor_first d touch) w mc mp key data }) } } }"

fun mdb_cursor_prev ::
  "nat \<Rightarrow> touch_fun \<Rightarrow> world \<Rightarrow> cid \<Rightarrow> MDB_val option \<Rightarrow> MDB_val option \<Rightarrow> MDB_cursor_op \<Rightarrow> get_result" where
  "mdb_cursor_prev 0 touch w mc key data op = None"
| "mdb_cursor_prev (Suc d) touch w mc key data op = do {
     r \<leftarrow> get_cur w mc;
     (rc, key, data, w) \<leftarrow> (if \<not> any_set (mc_flags r) C_INITIALIZED then do {
          (rc, key, data, w) \<leftarrow> mdb_cursor_last (Suc d) touch w mc key data;
          if rc \<noteq> 0 then Some (rc, key, data, w)
          else do {
            ki \<leftarrow> top_ki w mc;
            w \<leftarrow> set_top_ki w mc (inc16 ki);
            Some (0, key, data, w) } }
        else Some (0, key, data, w));
     if rc \<noteq> 0 then Some (rc, key, data, w)
     else do {
       mp \<leftarrow> top_pg w mc;
       db \<leftarrow> get_db w (mc_db r);
       step \<leftarrow> (if any_set (md_flags db) MDB_DUPSORT
          then cursor_move_dup (\<lambda>w x k dt. mdb_cursor_prev d touch w x k dt MDB_PREV) w mc mp key data
                 (op = MDB_PREV) (op = MDB_PREV_DUP) C_EOF
          else Some (Inr (data, w)));
       (case step of
          Inl res \<Rightarrow> Some res
        | Inr (data, w) \<Rightarrow> do {
            w \<leftarrow> clear_flags w mc (C_EOF OR C_DEL);
            ki \<leftarrow> top_ki w mc;
            (rc, mp, w) \<leftarrow> (if ki = 0 then do {
                 (rc, w) \<leftarrow> mdb_cursor_sibling w mc False;
                 if rc \<noteq> MDB_SUCCESS then Some (rc, mp, w)
                 else do {
                   mp \<leftarrow> top_pg w mc;
                   nk \<leftarrow> NUMKEYS (w_mem w) mp;
                   w \<leftarrow> set_top_ki w mc (u32 (nk + (2 ^ 32 - 1)) mod 2 ^ 16);
                   Some (0, mp, w) } }
               else do {
                 w \<leftarrow> set_top_ki w mc (dec16 ki);
                 Some (0, mp, w) });
            if rc \<noteq> 0 then Some (rc, key, data, w)
            else cursor_fetch (mdb_cursor_last d touch) w mc mp key data }) } }"

section \<open>Positioning on a key\<close>

text \<open>\<^verbatim>\<open>mc->mc_dbx->md_cmp(key, &nodekey)\<close> for the key of slot \<open>i\<close>.\<close>

definition cmp_slot :: "world \<Rightarrow> cid \<Rightarrow> ptr \<Rightarrow> MDB_val \<Rightarrow> nat \<Rightarrow> int option" where
  "cmp_slot w mc mp key i = do {
     r \<leftarrow> get_cur w mc;
     db \<leftarrow> get_db w (mc_db r);
     dbx \<leftarrow> get_dbx w (mc_dbx r);
     cmp \<leftarrow> md_cmp dbx;
     leaf2 \<leftarrow> IS_LEAF2 (w_mem w) mp;
     nodekey \<leftarrow> key_at (w_mem w) mp leaf2 (unat (md_pad db)) i;
     cmp_vals cmp (w_mem w) key nodekey }"

text \<open>\<^verbatim>\<open>for (i=0; i<mc->mc_top; i++) if (mc->mc_ki[i] < NUMKEYS(mc->mc_pg[i])-1) break;\<close> finds one.\<close>

fun parent_has_right :: "world \<Rightarrow> MDB_cursor \<Rightarrow> nat \<Rightarrow> nat \<Rightarrow> bool option" where
  "parent_has_right w r 0 i = Some False"
| "parent_has_right w r (Suc n) i = do {
     p \<leftarrow> rd (mc_pg r) i;
     ki \<leftarrow> rd (mc_ki r) i;
     nk \<leftarrow> NUMKEYS (w_mem w) p;
     if ki < u32 (nk + (2 ^ 32 - 1)) then Some True else parent_has_right w r n (i + 1) }"

text \<open>
  Where \<^verbatim>\<open>mdb_cursor_set\<close> goes on: it returns, jumps to \<^verbatim>\<open>set1\<close> (with the value of
  \<^verbatim>\<open>leaf\<close>), to \<^verbatim>\<open>set2\<close>, or searches from the root.
\<close>

datatype set_step = Set_return int | Set1 "ptr option" | Set2 | Set_search

definition set_leaf :: "world \<Rightarrow> ptr \<Rightarrow> nat \<Rightarrow> ptr option option" where
  "set_leaf w mp i = do {
     leaf2 \<leftarrow> IS_LEAF2 (w_mem w) mp;
     if leaf2 then Some None else map_option Some (NODEPTR (w_mem w) mp i) }"

text \<open>The key sorts after the first key of the page, which has more than one.\<close>

definition cursor_set_after :: "world \<Rightarrow> cid \<Rightarrow> ptr \<Rightarrow> MDB_val \<Rightarrow> bool option \<Rightarrow> nat \<Rightarrow>
    (set_step option \<times> bool option \<times> world) option" where
  "cursor_set_after w mc mp key exactp nkeys = do {
     rc \<leftarrow> cmp_slot w mc mp key (nkeys - 1);
     if rc = 0 then do {
       w \<leftarrow> set_top_ki w mc (nkeys - 1);
       leaf \<leftarrow> set_leaf w mp (nkeys - 1);
       Some (Some (Set1 leaf), map_option (\<lambda>_. True) exactp, w) }
     else if rc < 0 then do {
       ki \<leftarrow> top_ki w mc;
       rc \<leftarrow> (if ki < nkeys then cmp_slot w mc mp key ki else Some 1);
       if ki < nkeys \<and> rc = 0 then do {
         leaf \<leftarrow> set_leaf w mp ki;
         Some (Some (Set1 leaf), map_option (\<lambda>_. True) exactp, w) }
       else do {
         w \<leftarrow> clear_flags w mc C_EOF;
         Some (Some Set2, exactp, w) } }
     else Some (None, exactp, w) }"

text \<open>\<^verbatim>\<open>See if we're already on the right page\<close>.\<close>

definition cursor_set_here :: "world \<Rightarrow> cid \<Rightarrow> MDB_val \<Rightarrow> MDB_cursor_op \<Rightarrow> bool option \<Rightarrow>
    (set_step \<times> bool option \<times> world) option" where
  "cursor_set_here w mc key op exactp = do {
     r \<leftarrow> get_cur w mc;
     mp \<leftarrow> top_pg w mc;
     nkeys \<leftarrow> NUMKEYS (w_mem w) mp;
     if nkeys = 0 then do {
       w \<leftarrow> set_top_ki w mc 0;
       Some (Set_return MDB_NOTFOUND, exactp, w) }
     else do {
       rc \<leftarrow> cmp_slot w mc mp key 0;
       leaf0 \<leftarrow> set_leaf w mp 0;
       if rc = 0 then do {
         w \<leftarrow> set_top_ki w mc 0;
         Some (Set1 leaf0, map_option (\<lambda>_. True) exactp, w) }
       else do {
         (step, exactp, w) \<leftarrow> (if rc > 0 then do {
              (step, exactp, w) \<leftarrow> (if nkeys > 1 then cursor_set_after w mc mp key exactp nkeys
                 else Some (None, exactp, w));
              (case step of
                 Some s \<Rightarrow> Some (Some s, exactp, w)
               | None \<Rightarrow> do {
                   more \<leftarrow> parent_has_right w r (mc_top r) 0;
                   if more then Some (None, exactp, w)
                   else do {
                     w \<leftarrow> set_top_ki w mc nkeys;
                     Some (Some (Set_return MDB_NOTFOUND), exactp, w) } }) }
            else Some (None, exactp, w));
         (case step of
            Some s \<Rightarrow> Some (s, exactp, w)
          | None \<Rightarrow>
              if mc_top r = 0 then do {
                w \<leftarrow> set_top_ki w mc 0;
                if op = MDB_SET_RANGE \<and> exactp = None then Some (Set1 leaf0, exactp, w)
                else Some (Set_return MDB_NOTFOUND, exactp, w) }
              else Some (Set_search, exactp, w)) } } }"

text \<open>\<^verbatim>\<open>set1\<close>, data of a key with duplicates and of one without.\<close>

type_synonym set_result = "(int \<times> MDB_val \<times> MDB_val option \<times> bool option \<times> world) option"

definition cursor_set_data :: "world \<Rightarrow> cid \<Rightarrow> ptr \<Rightarrow> MDB_val \<Rightarrow> MDB_cursor_op \<Rightarrow> (int \<times> MDB_val \<times> world) option" where
  "cursor_set_data w mc leaf data op =
     (if op = MDB_GET_BOTH \<or> op = MDB_GET_BOTH_RANGE then do {
        r \<leftarrow> get_cur w mc;
        (rc, olddata, w) \<leftarrow> mdb_node_read w mc leaf \<lparr>mv_size = 0, mv_data = NULL\<rparr>;
        if rc \<noteq> MDB_SUCCESS then Some (rc, data, w)
        else do {
          dbx \<leftarrow> get_dbx w (mc_dbx r);
          dcmp \<leftarrow> (if NEED_CMP_CLONG (md_dcmp dbx) (mv_size olddata) then Some mdb_cmp_clong else md_dcmp dbx);
          rc \<leftarrow> cmp_vals dcmp (w_mem w) data olddata;
          if rc \<noteq> 0 \<and> (op = MDB_GET_BOTH \<or> rc > 0) then Some (MDB_NOTFOUND, data, w)
          else Some (0, olddata, w) } }
      else do {
        w \<leftarrow> xcursor_reset w mc;
        mdb_node_read w mc leaf data })"

fun mdb_cursor_set ::
  "nat \<Rightarrow> touch_fun \<Rightarrow> world \<Rightarrow> cid \<Rightarrow> MDB_val \<Rightarrow> MDB_val option \<Rightarrow> MDB_cursor_op \<Rightarrow> bool option \<Rightarrow> set_result" where
  "mdb_cursor_set 0 touch w mc key data op exactp = None"
| "mdb_cursor_set (Suc d) touch w mc key data op exactp =
     (if mv_size key = 0 then Some (MDB_BAD_VALSIZE, key, data, exactp, w)
      else do {
        w \<leftarrow> xcursor_reset w mc;
        r \<leftarrow> get_cur w mc;
        (step, exactp, w) \<leftarrow> (if any_set (mc_flags r) C_INITIALIZED then cursor_set_here w mc key op exactp
           else do { w \<leftarrow> set_pg w mc 0 NULL; Some (Set_search, exactp, w) });
        (rc, w) \<leftarrow> (if step = Set_search then mdb_page_search touch w mc (Some key) 0 else Some (0, w));
        mp \<leftarrow> top_pg w mc;
        is_leaf \<leftarrow> (if step = Set_search \<and> rc = 0 then IS_LEAF (w_mem w) mp else Some True);
        if rc \<noteq> MDB_SUCCESS then Some (rc, key, data, exactp, w)
        else if \<not> is_leaf then None
        else do {
          (rc, leaf, mp, exactp, w) \<leftarrow> (case step of
              Set_return rc \<Rightarrow> Some (Some rc, None, mp, exactp, w)
            | Set1 leaf \<Rightarrow> Some (None, leaf, mp, exactp, w)
            | _ \<Rightarrow> do {
                (leaf, ex, w) \<leftarrow> mdb_node_search w mc key;
                let exactp = map_option (\<lambda>_. ex) exactp;
                if exactp = Some False then Some (Some MDB_NOTFOUND, None, mp, exactp, w)
                else (case leaf of
                    Some n \<Rightarrow> Some (None, Some n, mp, exactp, w)
                  | None \<Rightarrow> do {
                      (rc, w) \<leftarrow> mdb_cursor_sibling w mc True;
                      if rc \<noteq> MDB_SUCCESS then do {
                        w \<leftarrow> or_flags w mc C_EOF;
                        Some (Some rc, None, mp, exactp, w) }
                      else do {
                        mp \<leftarrow> top_pg w mc;
                        is_leaf \<leftarrow> IS_LEAF (w_mem w) mp;
                        if \<not> is_leaf then None
                        else do {
                          n \<leftarrow> NODEPTR (w_mem w) mp 0;
                          Some (None, Some n, mp, exactp, w) } } }) });
          (case rc of
             Some rc \<Rightarrow> Some (rc, key, data, exactp, w)
           | None \<Rightarrow> do {
               w \<leftarrow> or_flags w mc C_INITIALIZED;
               w \<leftarrow> clear_flags w mc C_EOF;
               leaf2 \<leftarrow> IS_LEAF2 (w_mem w) mp;
               if leaf2 then
                 (if op = MDB_SET_RANGE \<or> op = MDB_SET_KEY then do {
                    k \<leftarrow> leaf2_key w mc mp;
                    Some (MDB_SUCCESS, k, data, exactp, w) }
                  else Some (MDB_SUCCESS, key, data, exactp, w))
               else do {
                 n \<leftarrow> leaf;
                 fl \<leftarrow> mn_flags (w_mem w) n;
                 w \<leftarrow> (if F_ISSET fl F_DUPDATA then mdb_xcursor_init1 w mc n else Some w);
                 (rc, data, stop, w) \<leftarrow> (case data of
                     None \<Rightarrow> Some (0, None, False, w)
                   | Some dt \<Rightarrow>
                       if F_ISSET fl F_DUPDATA then do {
                         x \<leftarrow> sub_cursor w mc;
                         if op = MDB_SET \<or> op = MDB_SET_KEY \<or> op = MDB_SET_RANGE then do {
                           (rc, data, _, w) \<leftarrow> mdb_cursor_first d touch w x (Some dt) None;
                           Some (rc, data, False, w) }
                         else do {
                           (rc, dt, _, _, w) \<leftarrow> mdb_cursor_set d touch w x dt None MDB_SET_RANGE
                              (if op = MDB_GET_BOTH then Some False else None);
                           Some (rc, Some dt, rc \<noteq> MDB_SUCCESS, w) } }
                       else do {
                         (rc, dt, w) \<leftarrow> cursor_set_data w mc n dt op;
                         Some (rc, Some dt, rc \<noteq> MDB_SUCCESS, w) });
                 if stop then Some (rc, key, data, exactp, w)
                 else do {
                   key \<leftarrow> (if op = MDB_SET_RANGE \<or> op = MDB_SET_KEY then MDB_GET_KEY2 (w_mem w) n else Some key);
                   Some (rc, key, data, exactp, w) } } }) } })"

section \<open>\<^verbatim>\<open>mdb_cursor_get\<close>\<close>

text \<open>\<^verbatim>\<open>MDB_GET_CURRENT\<close>, with its call on the duplicates cursor; \<open>again\<close> is that call.\<close>

definition get_current ::
  "(world \<Rightarrow> cid \<Rightarrow> MDB_val option \<Rightarrow> get_result) \<Rightarrow> world \<Rightarrow> cid \<Rightarrow> MDB_val option \<Rightarrow> MDB_val option \<Rightarrow> get_result" where
  "get_current again w mc key data = do {
     r \<leftarrow> get_cur w mc;
     if \<not> any_set (mc_flags r) C_INITIALIZED then Some (EINVAL, key, data, w)
     else do {
       mp \<leftarrow> top_pg w mc;
       nkeys \<leftarrow> NUMKEYS (w_mem w) mp;
       ki \<leftarrow> top_ki w mc;
       if nkeys = 0 \<or> ki \<ge> nkeys then do {
         w \<leftarrow> set_top_ki w mc nkeys;
         Some (MDB_NOTFOUND, key, data, w) }
       else do {
         leaf2 \<leftarrow> IS_LEAF2 (w_mem w) mp;
         if leaf2 then do {
           _ \<leftarrow> key;
           k \<leftarrow> leaf2_key w mc mp;
           Some (MDB_SUCCESS, Some k, data, w) }
         else do {
           leaf \<leftarrow> NODEPTR (w_mem w) mp ki;
           key \<leftarrow> MDB_GET_KEY (w_mem w) leaf key;
           fl \<leftarrow> mn_flags (w_mem w) leaf;
           (case data of
              None \<Rightarrow> Some (MDB_SUCCESS, key, None, w)
            | Some d0 \<Rightarrow>
                if F_ISSET fl F_DUPDATA then do {
                  x \<leftarrow> sub_cursor w mc;
                  (rc, data, _, w) \<leftarrow> again w x (Some d0);
                  Some (rc, key, data, w) }
                else do {
                  (rc, v, w) \<leftarrow> mdb_node_read w mc leaf d0;
                  Some (rc, key, Some v, w) }) } } } }"

text \<open>The label \<^verbatim>\<open>fetchm\<close>: all items of the duplicates page as one value.\<close>

definition fetch_multiple :: "world \<Rightarrow> cid \<Rightarrow> MDB_val option \<Rightarrow> get_result" where
  "fetch_multiple w mc key = do {
     x \<leftarrow> sub_cursor w mc;
     xr \<leftarrow> get_cur w x;
     mp \<leftarrow> top_pg w x;
     nk \<leftarrow> NUMKEYS (w_mem w) mp;
     db \<leftarrow> get_db w (mc_db xr);
     w \<leftarrow> set_top_ki w x (u32 (nk + (2 ^ 32 - 1)) mod 2 ^ 16);
     Some (MDB_SUCCESS, key, Some \<lparr>mv_size = u32 (nk * unat (md_pad db)), mv_data = METADATA mp\<rparr>, w) }"

definition get_multiple :: "world \<Rightarrow> cid \<Rightarrow> MDB_val option \<Rightarrow> MDB_val option \<Rightarrow> get_result" where
  "get_multiple w mc key data = do {
     r \<leftarrow> get_cur w mc;
     if data = None \<or> \<not> any_set (mc_flags r) C_INITIALIZED then Some (EINVAL, key, data, w)
     else do {
       db \<leftarrow> get_db w (mc_db r);
       if \<not> any_set (md_flags db) MDB_DUPFIXED then Some (MDB_INCOMPATIBLE, key, data, w)
       else do {
         x \<leftarrow> sub_cursor w mc;
         xr \<leftarrow> get_cur w x;
         if \<not> any_set (mc_flags xr) C_INITIALIZED \<or> any_set (mc_flags xr) C_EOF
         then Some (MDB_SUCCESS, key, data, w)
         else fetch_multiple w mc key } } }"

definition next_multiple :: "touch_fun \<Rightarrow> world \<Rightarrow> cid \<Rightarrow> MDB_val option \<Rightarrow> MDB_val option \<Rightarrow> get_result" where
  "next_multiple touch w mc key data = do {
     r \<leftarrow> get_cur w mc;
     db \<leftarrow> get_db w (mc_db r);
     if data = None then Some (EINVAL, key, data, w)
     else if \<not> any_set (md_flags db) MDB_DUPFIXED then Some (MDB_INCOMPATIBLE, key, data, w)
     else do {
       (rc, key, data, w) \<leftarrow> mdb_cursor_next 2 touch w mc key data MDB_NEXT_DUP;
       if rc \<noteq> MDB_SUCCESS then Some (rc, key, data, w)
       else do {
         x \<leftarrow> sub_cursor w mc;
         xr \<leftarrow> get_cur w x;
         if any_set (mc_flags xr) C_INITIALIZED then fetch_multiple w mc key
         else Some (MDB_NOTFOUND, key, data, w) } } }"

definition prev_multiple :: "touch_fun \<Rightarrow> world \<Rightarrow> cid \<Rightarrow> MDB_val option \<Rightarrow> MDB_val option \<Rightarrow> get_result" where
  "prev_multiple touch w mc key data = do {
     r \<leftarrow> get_cur w mc;
     db \<leftarrow> get_db w (mc_db r);
     if data = None then Some (EINVAL, key, data, w)
     else if \<not> any_set (md_flags db) MDB_DUPFIXED then Some (MDB_INCOMPATIBLE, key, data, w)
     else do {
       (rc, key, data, w) \<leftarrow> (if \<not> any_set (mc_flags r) C_INITIALIZED
          then mdb_cursor_last 2 touch w mc key data else Some (MDB_SUCCESS, key, data, w));
       if rc \<noteq> MDB_SUCCESS then Some (rc, key, data, w)
       else do {
         x \<leftarrow> sub_cursor w mc;
         xr \<leftarrow> get_cur w x;
         if any_set (mc_flags xr) C_INITIALIZED then do {
           (rc, w) \<leftarrow> mdb_cursor_sibling w x False;
           if rc = MDB_SUCCESS then fetch_multiple w mc key else Some (rc, key, data, w) }
         else Some (MDB_NOTFOUND, key, data, w) } } }"

text \<open>The label \<^verbatim>\<open>mmove\<close>: first or last duplicate (\<open>mfunc\<close>) of the current key.\<close>

definition move_dup ::
  "(world \<Rightarrow> cid \<Rightarrow> MDB_val option \<Rightarrow> MDB_val option \<Rightarrow> get_result) \<Rightarrow> world \<Rightarrow> cid \<Rightarrow>
   MDB_val option \<Rightarrow> MDB_val option \<Rightarrow> get_result" where
  "move_dup mfunc w mc key data = do {
     r \<leftarrow> get_cur w mc;
     if data = None \<or> \<not> any_set (mc_flags r) C_INITIALIZED then Some (EINVAL, key, data, w)
     else if mc_xcursor r = None then Some (MDB_INCOMPATIBLE, key, data, w)
     else do {
       mp \<leftarrow> top_pg w mc;
       ki \<leftarrow> top_ki w mc;
       nk \<leftarrow> NUMKEYS (w_mem w) mp;
       if ki \<ge> nk then do {
         w \<leftarrow> set_top_ki w mc nk;
         Some (MDB_NOTFOUND, key, data, w) }
       else do {
         leaf \<leftarrow> NODEPTR (w_mem w) mp ki;
         fl \<leftarrow> mn_flags (w_mem w) leaf;
         if \<not> F_ISSET fl F_DUPDATA then do {
           key \<leftarrow> MDB_GET_KEY (w_mem w) leaf key;
           d0 \<leftarrow> data;
           (rc, v, w) \<leftarrow> mdb_node_read w mc leaf d0;
           Some (rc, key, Some v, w) }
         else do {
           x \<leftarrow> mc_xcursor r;
           xr \<leftarrow> get_cur w x;
           if \<not> any_set (mc_flags xr) C_INITIALIZED then Some (EINVAL, key, data, w)
           else do {
             (rc, data, _, w) \<leftarrow> mfunc w x data None;
             Some (rc, key, data, w) } } } } }"

definition get_set :: "touch_fun \<Rightarrow> world \<Rightarrow> cid \<Rightarrow> MDB_val option \<Rightarrow> MDB_val option \<Rightarrow> MDB_cursor_op \<Rightarrow> get_result" where
  "get_set touch w mc key data op = do {
     r \<leftarrow> get_cur w mc;
     if (op = MDB_GET_BOTH \<or> op = MDB_GET_BOTH_RANGE) \<and> data = None then Some (EINVAL, key, data, w)
     else if (op = MDB_GET_BOTH \<or> op = MDB_GET_BOTH_RANGE) \<and> mc_xcursor r = None
     then Some (MDB_INCOMPATIBLE, key, data, w)
     else (case key of
        None \<Rightarrow> Some (EINVAL, key, data, w)
      | Some k \<Rightarrow> do {
          (rc, k, data, _, w) \<leftarrow> mdb_cursor_set 2 touch w mc k data op
             (if op = MDB_SET_RANGE then None else Some False);
          Some (rc, Some k, data, w) }) }"

definition cursor_get_op ::
  "(world \<Rightarrow> cid \<Rightarrow> MDB_val option \<Rightarrow> get_result) \<Rightarrow> touch_fun \<Rightarrow> world \<Rightarrow> cid \<Rightarrow>
   MDB_val option \<Rightarrow> MDB_val option \<Rightarrow> MDB_cursor_op \<Rightarrow> get_result" where
  "cursor_get_op again touch w mc key data op = (case op of
     MDB_GET_CURRENT \<Rightarrow> get_current again w mc key data
   | MDB_GET_BOTH \<Rightarrow> get_set touch w mc key data op
   | MDB_GET_BOTH_RANGE \<Rightarrow> get_set touch w mc key data op
   | MDB_SET \<Rightarrow> get_set touch w mc key data op
   | MDB_SET_KEY \<Rightarrow> get_set touch w mc key data op
   | MDB_SET_RANGE \<Rightarrow> get_set touch w mc key data op
   | MDB_GET_MULTIPLE \<Rightarrow> get_multiple w mc key data
   | MDB_NEXT_MULTIPLE \<Rightarrow> next_multiple touch w mc key data
   | MDB_PREV_MULTIPLE \<Rightarrow> prev_multiple touch w mc key data
   | MDB_NEXT \<Rightarrow> mdb_cursor_next 2 touch w mc key data op
   | MDB_NEXT_DUP \<Rightarrow> mdb_cursor_next 2 touch w mc key data op
   | MDB_NEXT_NODUP \<Rightarrow> mdb_cursor_next 2 touch w mc key data op
   | MDB_PREV \<Rightarrow> mdb_cursor_prev 2 touch w mc key data op
   | MDB_PREV_DUP \<Rightarrow> mdb_cursor_prev 2 touch w mc key data op
   | MDB_PREV_NODUP \<Rightarrow> mdb_cursor_prev 2 touch w mc key data op
   | MDB_FIRST \<Rightarrow> mdb_cursor_first 2 touch w mc key data
   | MDB_FIRST_DUP \<Rightarrow> move_dup (mdb_cursor_first 2 touch) w mc key data
   | MDB_LAST \<Rightarrow> mdb_cursor_last 2 touch w mc key data
   | MDB_LAST_DUP \<Rightarrow> move_dup (mdb_cursor_last 2 touch) w mc key data)"

fun cursor_get_level ::
  "nat \<Rightarrow> touch_fun \<Rightarrow> world \<Rightarrow> cid \<Rightarrow> MDB_val option \<Rightarrow> MDB_val option \<Rightarrow> MDB_cursor_op \<Rightarrow> get_result" where
  "cursor_get_level 0 touch w mc key data op = None"
| "cursor_get_level (Suc d) touch w mc key data op = do {
     t \<leftarrow> get_txn w mc;
     if any_set (mt_flags t) MDB_TXN_BLOCKED then Some (MDB_BAD_TXN, key, data, w)
     else do {
       (rc, key, data, w) \<leftarrow> cursor_get_op (\<lambda>w x k. cursor_get_level d touch w x k None MDB_GET_CURRENT) touch w mc key data op;
       r \<leftarrow> get_cur w mc;
       w \<leftarrow> (if any_set (mc_flags r) C_DEL then upd_cur w mc (\<lambda>c. c\<lparr>mc_flags := mc_flags c XOR C_DEL\<rparr>) else Some w);
       Some (rc, key, data, w) } }"

definition mdb_cursor_get ::
  "touch_fun \<Rightarrow> world \<Rightarrow> cid option \<Rightarrow> MDB_val option \<Rightarrow> MDB_val option \<Rightarrow> MDB_cursor_op \<Rightarrow> get_result" where
  "mdb_cursor_get touch w mc key data op = (case mc of
     None \<Rightarrow> Some (EINVAL, key, data, w)
   | Some c \<Rightarrow> cursor_get_level 2 touch w c key data op)"

section \<open>\<^verbatim>\<open>mdb_get\<close>, opening and closing cursors\<close>

text \<open>\<^verbatim>\<open>TXN_DBI_EXIST(txn, dbi, validity)\<close>\<close>

definition TXN_DBI_EXIST :: "world \<Rightarrow> tid option \<Rightarrow> nat \<Rightarrow> u32 \<Rightarrow> bool option" where
  "TXN_DBI_EXIST w t dbi validity = (case t of
     None \<Rightarrow> Some False
   | Some t \<Rightarrow> do {
       x \<leftarrow> w_txns w t;
       if dbi < mt_numdbs x then map_option (\<lambda>f. any_set f validity) (rd (mt_dbflags x) dbi) else Some False })"

definition mdb_get ::
  "touch_fun \<Rightarrow> world \<Rightarrow> tid option \<Rightarrow> nat \<Rightarrow> MDB_val option \<Rightarrow> MDB_val option \<Rightarrow> (int \<times> MDB_val option \<times> world) option" where
  "mdb_get touch w txn dbi key data = do {
     ok \<leftarrow> TXN_DBI_EXIST w txn dbi DB_USRVALID;
     if key = None \<or> data = None \<or> \<not> ok then Some (EINVAL, data, w)
     else do {
       t \<leftarrow> txn;
       x \<leftarrow> w_txns w t;
       if any_set (mt_flags x) MDB_TXN_BLOCKED then Some (MDB_BAD_TXN, data, w)
       else do {
         let (mc, w) = new_cursor w;
         let (mx, w) = new_xcursor w;
         w \<leftarrow> mdb_cursor_init touch w mc t dbi (Some mx);
         k \<leftarrow> key;
         (rc, _, data, _, w) \<leftarrow> mdb_cursor_set 2 touch w mc k data MDB_SET (Some False);
         Some (rc, data, drop_cursor (drop_cursor w mx) mc) } } }"

definition mdb_cursor_open :: "touch_fun \<Rightarrow> world \<Rightarrow> tid option \<Rightarrow> nat \<Rightarrow> (int \<times> cid option \<times> world) option" where
  "mdb_cursor_open touch w txn dbi = do {
     ok \<leftarrow> TXN_DBI_EXIST w txn dbi DB_VALID;
     if \<not> ok then Some (EINVAL, None, w)
     else do {
       t \<leftarrow> txn;
       x \<leftarrow> w_txns w t;
       if any_set (mt_flags x) MDB_TXN_BLOCKED then Some (MDB_BAD_TXN, None, w)
       else if dbi = FREE_DBI \<and> \<not> F_ISSET (mt_flags x) MDB_TXN_RDONLY then Some (EINVAL, None, w)
       else if w_malloc w (w_calls w) = None then Some (ENOMEM, None, tick w)
       else do {
         let (mc, w) = new_cursor (tick w);
         let (mx, w) = new_xcursor w;
         w \<leftarrow> mdb_cursor_init touch w mc t dbi (Some mx);
         x \<leftarrow> w_txns w t;
         (case mt_cursors x of
            None \<Rightarrow> Some (MDB_SUCCESS, Some mc, w)
          | Some _ \<Rightarrow> do {
              l \<leftarrow> tracked w t dbi;
              w \<leftarrow> set_tracked w t dbi (mc # l);
              w \<leftarrow> or_flags w mc C_UNTRACK;
              Some (MDB_SUCCESS, Some mc, w) }) } } }"

definition mdb_cursor_renew :: "touch_fun \<Rightarrow> world \<Rightarrow> tid option \<Rightarrow> cid option \<Rightarrow> (int \<times> world) option" where
  "mdb_cursor_renew touch w txn mcp = (case mcp of
     None \<Rightarrow> Some (EINVAL, w)
   | Some mc \<Rightarrow> do {
       r \<leftarrow> get_cur w mc;
       ok \<leftarrow> TXN_DBI_EXIST w txn (mc_dbi r) DB_VALID;
       if \<not> ok then Some (EINVAL, w)
       else do {
         t \<leftarrow> txn;
         x \<leftarrow> w_txns w t;
         if any_set (mc_flags r) C_UNTRACK \<or> mt_cursors x \<noteq> None then Some (EINVAL, w)
         else if any_set (mt_flags x) MDB_TXN_BLOCKED then Some (MDB_BAD_TXN, w)
         else do {
           w \<leftarrow> mdb_cursor_init touch w mc t (mc_dbi r) (mc_xcursor r);
           Some (MDB_SUCCESS, w) } } })"

definition mdb_cursor_count :: "world \<Rightarrow> cid option \<Rightarrow> (int \<times> u64 option \<times> world) option" where
  "mdb_cursor_count w mcp = (case mcp of
     None \<Rightarrow> Some (EINVAL, None, w)
   | Some mc \<Rightarrow> do {
       r \<leftarrow> get_cur w mc;
       t \<leftarrow> w_txns w (mc_txn r);
       if mc_xcursor r = None then Some (MDB_INCOMPATIBLE, None, w)
       else if any_set (mt_flags t) MDB_TXN_BLOCKED then Some (MDB_BAD_TXN, None, w)
       else if \<not> any_set (mc_flags r) C_INITIALIZED then Some (EINVAL, None, w)
       else if mc_snum r = 0 then Some (MDB_NOTFOUND, None, w)
       else do {
         mp \<leftarrow> top_pg w mc;
         ki \<leftarrow> top_ki w mc;
         nk \<leftarrow> NUMKEYS (w_mem w) mp;
         if any_set (mc_flags r) C_EOF \<and> ki \<ge> nk then Some (MDB_NOTFOUND, None, w)
         else do {
           w \<leftarrow> (if any_set (mc_flags r) C_EOF then upd_cur w mc (\<lambda>c. c\<lparr>mc_flags := mc_flags c XOR C_EOF\<rparr>) else Some w);
           leaf \<leftarrow> NODEPTR (w_mem w) mp ki;
           fl \<leftarrow> mn_flags (w_mem w) leaf;
           if \<not> F_ISSET fl F_DUPDATA then Some (MDB_SUCCESS, Some 1, w)
           else do {
             x \<leftarrow> mc_xcursor r;
             xr \<leftarrow> get_cur w x;
             xx \<leftarrow> w_xcursors w x;
             if \<not> any_set (mc_flags xr) C_INITIALIZED then Some (EINVAL, None, w)
             else Some (MDB_SUCCESS, Some (md_entries (mx_db xx)), w) } } } })"

definition mdb_cursor_close :: "world \<Rightarrow> cid option \<Rightarrow> world option" where
  "mdb_cursor_close w mcp = (case mcp of
     None \<Rightarrow> Some w
   | Some mc \<Rightarrow> do {
       r \<leftarrow> get_cur w mc;
       if mc_backup r \<noteq> None then Some w
       else do {
         w \<leftarrow> (if any_set (mc_flags r) C_UNTRACK then do {
              t \<leftarrow> w_txns w (mc_txn r);
              if mt_cursors t \<noteq> None then do {
                l \<leftarrow> tracked w (mc_txn r) (mc_dbi r);
                set_tracked w (mc_txn r) (mc_dbi r) (remove1 mc l) }
              else Some w }
            else Some w);
         let w = (case mc_xcursor r of None \<Rightarrow> w | Some x \<Rightarrow> drop_cursor w x);
         Some (drop_cursor w mc) } })"

end
