(* ===== verification/Alloc.thy ===== *)
theory Alloc
  imports Cursor_Get Midl_Quicksort
begin

text \<open>
  Pages for writing (\<^verbatim>\<open>lmdb/mdb.c\<close>): allocation and release of page buffers, the loose,
  dirty and spill lists of a transaction, writing dirty pages back, \<^verbatim>\<open>mdb_page_alloc\<close> and
  copy-on-write (\<^verbatim>\<open>mdb_page_touch\<close>). The lists of free buffers and of loose pages, which the
  source links through the pages themselves, are lists of pointers.
\<close>

section \<open>Page buffers\<close>

definition mdb_page_malloc :: "world \<Rightarrow> tid \<Rightarrow> nat \<Rightarrow> (ptr \<times> world) option" where
  "mdb_page_malloc w t num = (
     let env = w_env w; psize = me_psize env in
     if num = 1 \<and> me_dpages env \<noteq> [] then
       Some (hd (me_dpages env), upd_env w (\<lambda>e. e\<lparr>me_dpages := tl (me_dpages e)\<rparr>))
     else
       let sz = (if num = 1 then psize else psize * num);
           init = (if num = 1 then psize - PAGEHDRSZ else psize);
           ofs = (if num = 1 then PAGEHDRSZ else sz - psize);
           (ret, w) = w_alloc w sz
       in if ret = NULL then do {
            w \<leftarrow> txn_or_flags w t MDB_TXN_ERROR;
            Some (NULL, w) }
          else if any_set (me_flags env) MDB_NOMEMINIT then Some (ret, w)
          else do {
            m \<leftarrow> memset (w_mem w) (padd ret ofs) 0 init;
            m \<leftarrow> set_mp_pad m ret 0;
            Some (ret, w\<lparr>w_mem := m\<rparr>) })"

definition mdb_page_free :: "world \<Rightarrow> ptr \<Rightarrow> world" where
  "mdb_page_free w mp = upd_env w (\<lambda>e. e\<lparr>me_dpages := mp # me_dpages e\<rparr>)"

definition mdb_dpage_free :: "world \<Rightarrow> ptr \<Rightarrow> world option" where
  "mdb_dpage_free w dp = do {
     ov \<leftarrow> IS_OVERFLOW (w_mem w) dp;
     pages \<leftarrow> mp_pages (w_mem w) dp;
     Some (if \<not> ov \<or> pages = 1 then mdb_page_free w dp else w_free w dp) }"

text \<open>A loop over a list of items.\<close>

fun each :: "('a \<Rightarrow> world \<Rightarrow> world option) \<Rightarrow> 'a list \<Rightarrow> world \<Rightarrow> world option" where
  "each f [] w = Some w"
| "each f (x # xs) w = do { w \<leftarrow> f x w; each f xs w }"

definition set_dirty_list :: "world \<Rightarrow> tid \<Rightarrow> ptr MDB_ID2L \<Rightarrow> world option" where
  "set_dirty_list w t dl = upd_txn w t (\<lambda>x. x\<lparr>mt_dirty_list := dl\<rparr>)"

definition mdb_dlist_free :: "world \<Rightarrow> tid \<Rightarrow> world option" where
  "mdb_dlist_free w t = do {
     x \<leftarrow> w_txns w t;
     let dl = mt_dirty_list x;
     e0 \<leftarrow> rd dl 0;
     w \<leftarrow> each (\<lambda>i w. do { e \<leftarrow> rd dl i; mdb_dpage_free w (mptr e) }) [1..<unat (mid e0) + 1] w;
     dl \<leftarrow> wr dl 0 (e0\<lparr>mid := 0\<rparr>);
     set_dirty_list w t dl }"

text \<open>A call that may reallocate \<^verbatim>\<open>mt_free_pgs\<close>.\<close>

definition free_pgs_do ::
  "world \<Rightarrow> tid \<Rightarrow> (allocator \<Rightarrow> MDB_IDL \<Rightarrow> (int \<times> MDB_IDL) option) \<Rightarrow> (int \<times> world) option" where
  "free_pgs_do w t f = do {
     x \<leftarrow> w_txns w t;
     (rc, b) \<leftarrow> f (idl_heap w) (mt_free_pgs x);
     w \<leftarrow> upd_txn w t (\<lambda>x. x\<lparr>mt_free_pgs := b\<rparr>);
     Some (rc, tick w) }"

text \<open>The slot of a page number in a dirty list, if the list has it.\<close>

definition dirty_slot :: "ptr MDB_ID2L \<Rightarrow> u64 \<Rightarrow> ptr option option" where
  "dirty_slot dl pgno = do {
     e0 \<leftarrow> rd dl 0;
     if mid e0 = 0 then Some None
     else do {
       x \<leftarrow> mdb_mid2l_search dl pgno;
       if x \<le> unat (mid e0) then map_option (\<lambda>e. if mid e = pgno then Some (mptr e) else None) (rd dl x)
       else Some None } }"

definition mdb_page_loose :: "world \<Rightarrow> cid \<Rightarrow> ptr \<Rightarrow> (int \<times> world) option" where
  "mdb_page_loose w mc mp = do {
     pgno \<leftarrow> mp_pgno (w_mem w) mp;
     r \<leftarrow> get_cur w mc;
     x \<leftarrow> w_txns w (mc_txn r);
     fl \<leftarrow> mp_flags (w_mem w) mp;
     loose \<leftarrow> (if any_set fl P_DIRTY \<and> mc_dbi r \<noteq> FREE_DBI then
          (if mt_parent x \<noteq> None then
             map_option (\<lambda>s. case s of None \<Rightarrow> Some False | Some p \<Rightarrow> if mp \<noteq> p then None else Some True)
               (dirty_slot (mt_dirty_list x) pgno)
           else Some (Some True))
        else Some (Some False));
     (case loose of
        None \<Rightarrow> do {
          w \<leftarrow> clear_flags w mc (C_INITIALIZED OR C_EOF);
          w \<leftarrow> txn_or_flags w (mc_txn r) MDB_TXN_ERROR;
          Some (MDB_PROBLEM, w) }
      | Some True \<Rightarrow> do {
          w \<leftarrow> upd_txn w (mc_txn r) (\<lambda>x. x\<lparr>mt_loose_pgs := mp # mt_loose_pgs x, mt_loose_count := mt_loose_count x + 1\<rparr>);
          w \<leftarrow> mem_do w (mp_or_flags (w_mem w) mp P_LOOSE);
          Some (MDB_SUCCESS, w) }
      | Some False \<Rightarrow> free_pgs_do w (mc_txn r) (\<lambda>h b. mdb_midl_append h b pgno)) }"

section \<open>Keeping pages from being spilled\<close>

definition xkeep_page :: "u32 \<Rightarrow> ptr \<Rightarrow> world \<Rightarrow> world option" where
  "xkeep_page pflags mp w = do {
     fl \<leftarrow> mp_flags (w_mem w) mp;
     if fl AND (P_SUBP OR P_DIRTY OR P_LOOSE OR P_KEEP) = pflags
     then mem_do w (set_mp_flags (w_mem w) mp (fl XOR P_KEEP)) else Some w }"

text \<open>The pages of a cursor, then those of its sub-cursor if that is at a sub-database.\<close>

fun xkeep_cursor :: "nat \<Rightarrow> u32 \<Rightarrow> cid \<Rightarrow> world \<Rightarrow> world option" where
  "xkeep_cursor 0 pflags m3 w = None"
| "xkeep_cursor (Suc d) pflags m3 w = do {
     r \<leftarrow> get_cur w m3;
     if \<not> mc_snum r \<le> length (mc_pg r) then None
     else do {
       w \<leftarrow> each (xkeep_page pflags) (take (mc_snum r) (mc_pg r)) w;
       ini \<leftarrow> XCURSOR_INITED w m3;
       if \<not> ini \<or> mc_snum r = 0 then Some w
       else do {
         mp \<leftarrow> rd (mc_pg r) (mc_snum r - 1);
         fl \<leftarrow> mp_flags (w_mem w) mp;
         if \<not> any_set fl P_LEAF then Some w
         else do {
           ki \<leftarrow> rd (mc_ki r) (mc_snum r - 1);
           leaf \<leftarrow> NODEPTR (w_mem w) mp ki;
           nf \<leftarrow> mn_flags (w_mem w) leaf;
           x \<leftarrow> mc_xcursor r;
           if \<not> any_set nf F_SUBDATA then Some w else xkeep_cursor d pflags x w } } } }"

definition xkeep_tracked :: "u32 \<Rightarrow> cid \<Rightarrow> world \<Rightarrow> world option" where
  "xkeep_tracked pflags mc w = do {
     r \<leftarrow> get_cur w mc;
     if any_set (mc_flags r) C_INITIALIZED then xkeep_cursor 2 pflags mc w else Some w }"

text \<open>
  The order of the source: \<^verbatim>\<open>m0\<close>, the cursors after it in its list, then every list up to
  \<^verbatim>\<open>m0\<close>, from the last database to the first.
\<close>

definition xkeep_order :: "world \<Rightarrow> cid \<Rightarrow> cid list option" where
  "xkeep_order w m0 = do {
     r \<leftarrow> get_cur w m0;
     x \<leftarrow> w_txns w (mc_txn r);
     cs \<leftarrow> mt_cursors x;
     own \<leftarrow> rd cs (mc_dbi r);
     Some (m0 # drop 1 (dropWhile (\<lambda>c. c \<noteq> m0) own) @
           concat (map (takeWhile (\<lambda>c. c \<noteq> m0)) (rev (take (mt_numdbs x) cs)))) }"

fun xkeep_roots :: "u32 \<Rightarrow> cid \<Rightarrow> tid \<Rightarrow> nat \<Rightarrow> nat \<Rightarrow> world \<Rightarrow> (int \<times> world) option" where
  "xkeep_roots pflags m0 t 0 i w = Some (MDB_SUCCESS, w)"
| "xkeep_roots pflags m0 t (Suc n) i w = do {
     x \<leftarrow> w_txns w t;
     fl \<leftarrow> rd (mt_dbflags x) i;
     db \<leftarrow> rd (mt_dbs x) i;
     if any_set fl DB_DIRTY \<and> md_root db \<noteq> P_INVALID then do {
       (rc, dp, level, w) \<leftarrow> mdb_page_get w m0 (md_root db);
       if rc \<noteq> MDB_SUCCESS then Some (rc, w)
       else do {
         w \<leftarrow> (if level \<le> 1 then xkeep_page pflags dp w else Some w);
         xkeep_roots pflags m0 t n (i + 1) w } }
     else xkeep_roots pflags m0 t n (i + 1) w }"

definition mdb_pages_xkeep :: "world \<Rightarrow> cid \<Rightarrow> u32 \<Rightarrow> bool \<Rightarrow> (int \<times> world) option" where
  "mdb_pages_xkeep w mc pflags al = do {
     cs \<leftarrow> xkeep_order w mc;
     w \<leftarrow> each (xkeep_tracked pflags) cs w;
     if al then do {
       r \<leftarrow> get_cur w mc;
       x \<leftarrow> w_txns w (mc_txn r);
       xkeep_roots pflags mc (mc_txn r) (mt_numdbs x) 0 w }
     else Some (MDB_SUCCESS, w) }"

end
