(* ===== verification/Flush.thy ===== *)
theory Flush
  imports Alloc
begin

text \<open>
  \<^verbatim>\<open>mdb_page_flush\<close> and \<^verbatim>\<open>mdb_page_spill\<close> (\<^verbatim>\<open>lmdb/mdb.c\<close>): writing dirty pages to the
  data file. The file and its memory map are one block of memory. The outcome of a batch of writes
  is a parameter of the state: 0, an \<^verbatim>\<open>errno\<close>, or -1 for a short write; a failed batch is taken
  to have written nothing. Interrupted system calls are repeated by the source, so their outcome is
  the final one.
\<close>

abbreviation (input) MDB_COMMIT_PAGES :: nat where
  "MDB_COMMIT_PAGES \<equiv> 64"

abbreviation (input) MAX_WRITE :: nat where
  "MAX_WRITE \<equiv> 0x40000000"

section \<open>Flushing in a writable map\<close>

fun flush_writemap :: "world \<Rightarrow> ptr MDB_ID2L \<Rightarrow> nat \<Rightarrow> nat \<Rightarrow> nat \<Rightarrow> (ptr MDB_ID2L \<times> nat \<times> world) option" where
  "flush_writemap w dl 0 i j = Some (dl, j, w)"
| "flush_writemap w dl (Suc n) i j = do {
     e \<leftarrow> rd dl i;
     fl \<leftarrow> mp_flags (w_mem w) (mptr e);
     if any_set fl (P_LOOSE OR P_KEEP) then do {
       w \<leftarrow> mem_do w (set_mp_flags (w_mem w) (mptr e) (clear fl P_KEEP));
       dl \<leftarrow> wr dl (j + 1) e;
       flush_writemap w dl n (i + 1) (j + 1) }
     else do {
       w \<leftarrow> mem_do w (set_mp_flags (w_mem w) (mptr e) (clear fl P_DIRTY));
       flush_writemap w dl n (i + 1) j } }"

section \<open>Flushing by writing to the file\<close>

text \<open>The pages gathered for one write: buffers, file position, size, next position.\<close>

record iov_state =
  iov :: "(ptr \<times> nat) list"
  iov_wpos :: nat
  iov_wsize :: nat
  iov_next :: "nat option"

fun write_iov :: "mem \<Rightarrow> (ptr \<times> nat) list \<Rightarrow> nat \<Rightarrow> mem option" where
  "write_iov m [] pos = Some m"
| "write_iov m ((p, n) # io) pos = do {
     m \<leftarrow> memmove m (Ptr Map pos) p n;
     write_iov m io (pos + n) }"

definition write_batch :: "world \<Rightarrow> iov_state \<Rightarrow> (int \<times> world) option" where
  "write_batch w s =
     (if iov s = [] then Some (0, w)
      else let res = w_io w (w_ios w); w = w\<lparr>w_ios := w_ios w + 1\<rparr> in
        if res > 0 then Some (res, w)
        else if res < 0 then Some (EIO, w)
        else do { w \<leftarrow> mem_do w (write_iov (w_mem w) (iov s) (iov_wpos s)); Some (0, w) })"

text \<open>Add a page to the batch, writing the batch first if the page does not fit or follow on.\<close>

definition add_page :: "world \<Rightarrow> iov_state \<Rightarrow> ptr \<Rightarrow> nat \<Rightarrow> nat \<Rightarrow> (int \<times> iov_state \<times> world) option" where
  "add_page w s dp pos sz = do {
     let full = (iov_next s \<noteq> Some pos \<or> length (iov s) = MDB_COMMIT_PAGES \<or> iov_wsize s + sz > MAX_WRITE);
     (rc, s, w) \<leftarrow> (if full then do {
          (rc, w) \<leftarrow> write_batch w s;
          Some (rc, \<lparr>iov = [], iov_wpos = pos, iov_wsize = 0, iov_next = None\<rparr>, w) }
        else Some (0, s, w));
     if rc \<noteq> 0 then Some (rc, s, w)
     else Some (0, s\<lparr>iov := iov s @ [(dp, sz)], iov_wsize := iov_wsize s + sz, iov_next := Some (pos + sz)\<rparr>, w) }"

fun flush_pages :: "world \<Rightarrow> ptr MDB_ID2L \<Rightarrow> iov_state \<Rightarrow> nat \<Rightarrow> nat \<Rightarrow> (int \<times> ptr MDB_ID2L \<times> world) option" where
  "flush_pages w dl s 0 i = do { (rc, w) \<leftarrow> write_batch w s; Some (rc, dl, w) }"
| "flush_pages w dl s (Suc n) i = do {
     e \<leftarrow> rd dl i;
     let dp = mptr e;
     fl \<leftarrow> mp_flags (w_mem w) dp;
     if any_set fl (P_LOOSE OR P_KEEP) then do {
       w \<leftarrow> mem_do w (set_mp_flags (w_mem w) dp (clear fl P_KEEP));
       dl \<leftarrow> wr dl i (e\<lparr>mid := 0\<rparr>);
       flush_pages w dl s n (i + 1) }
     else do {
       w \<leftarrow> mem_do w (set_mp_flags (w_mem w) dp (clear fl P_DIRTY));
       let psize = me_psize (w_env w);
       ov \<leftarrow> IS_OVERFLOW (w_mem w) dp;
       pages \<leftarrow> mp_pages (w_mem w) dp;
       (rc, s, w) \<leftarrow> add_page w s dp (unat (mid e) * psize) (if ov then psize * pages else psize);
       if rc \<noteq> 0 then Some (rc, dl, w)
       else flush_pages w dl s n (i + 1) } }"

text \<open>Free the pages written and keep the others in the list.\<close>

fun flush_free :: "world \<Rightarrow> ptr MDB_ID2L \<Rightarrow> nat \<Rightarrow> nat \<Rightarrow> nat \<Rightarrow> (ptr MDB_ID2L \<times> nat \<times> world) option" where
  "flush_free w dl 0 i j = Some (dl, j, w)"
| "flush_free w dl (Suc n) i j = do {
     e \<leftarrow> rd dl i;
     if mid e = 0 then do {
       pgno \<leftarrow> mp_pgno (w_mem w) (mptr e);
       dl \<leftarrow> wr dl (j + 1) (e\<lparr>mid := pgno\<rparr>);
       flush_free w dl n (i + 1) (j + 1) }
     else do {
       w \<leftarrow> mdb_dpage_free w (mptr e);
       flush_free w dl n (i + 1) j } }"

definition mdb_page_flush :: "world \<Rightarrow> tid \<Rightarrow> nat \<Rightarrow> (int \<times> world) option" where
  "mdb_page_flush w t keep = do {
     x \<leftarrow> w_txns w t;
     let dl = mt_dirty_list x;
     e0 \<leftarrow> rd dl 0;
     let pagecount = unat (mid e0);
     let n = pagecount - keep;
     (rc, dl, j, w) \<leftarrow> (if any_set (me_flags (w_env w)) MDB_WRITEMAP then do {
          (dl, j, w) \<leftarrow> flush_writemap w dl n (keep + 1) keep;
          Some (0, dl, j, w) }
        else do {
          (rc, dl, w) \<leftarrow> flush_pages w dl \<lparr>iov = [], iov_wpos = 0, iov_wsize = 0, iov_next = None\<rparr> n (keep + 1);
          if rc \<noteq> 0 then Some (rc, dl, keep, w)
          else do {
            (dl, j, w) \<leftarrow> flush_free w dl n (keep + 1) keep;
            Some (0, dl, j, w) } });
     if rc \<noteq> 0 then do {
       w \<leftarrow> set_dirty_list w t dl;
       Some (rc, w) }
     else do {
       let i = max keep pagecount;
       e0 \<leftarrow> rd dl 0;
       dl \<leftarrow> wr dl 0 (e0\<lparr>mid := of_nat j\<rparr>);
       w \<leftarrow> upd_txn w t (\<lambda>x. x\<lparr>mt_dirty_list := dl, mt_dirty_room := u32 (mt_dirty_room x + (i - j))\<rparr>);
       Some (MDB_SUCCESS, w) } }"

section \<open>Spilling\<close>

text \<open>Purge the deleted slots (those with the lowest bit set) of a spill list.\<close>

fun purge_spill :: "MDB_ID list \<Rightarrow> nat \<Rightarrow> nat \<Rightarrow> nat \<Rightarrow> (MDB_ID list \<times> nat) option" where
  "purge_spill sl 0 i j = Some (sl, j)"
| "purge_spill sl (Suc n) i j = do {
     x \<leftarrow> rd sl i;
     if x AND 1 = 0 then do {
       sl \<leftarrow> wr sl (j + 1) x;
       purge_spill sl n (i + 1) (j + 1) }
     else purge_spill sl n (i + 1) j }"

text \<open>Whether an ancestor has the page on its spill list.\<close>

fun spilled_above :: "world \<Rightarrow> nat \<Rightarrow> tid option \<Rightarrow> u64 \<Rightarrow> bool option" where
  "spilled_above w n None pn = Some False"
| "spilled_above w 0 (Some tx2) pn = None"
| "spilled_above w (Suc n) (Some tx2) pn = do {
     x \<leftarrow> w_txns w tx2;
     found \<leftarrow> (case mt_spill_pgs x of
        None \<Rightarrow> Some False
      | Some sl \<Rightarrow> do {
          j \<leftarrow> mdb_midl_search (idl_words sl) pn;
          k \<leftarrow> rd (idl_words sl) 0;
          if j \<le> unat k then map_option (\<lambda>y. y = pn) (rd (idl_words sl) j) else Some False });
     if found then Some True else spilled_above w n (mt_parent x) pn }"

text \<open>
  The loop that records the pages to spill, from the tail of the dirty list; returns the index at
  which it stopped.
\<close>

fun spill_loop :: "world \<Rightarrow> tid \<Rightarrow> nat \<Rightarrow> nat \<Rightarrow> (int \<times> nat \<times> world) option" where
  "spill_loop w t 0 need = Some (0, 0, w)"
| "spill_loop w t (Suc i) need =
     (if need = 0 then Some (0, Suc i, w)
      else do {
        x \<leftarrow> w_txns w t;
        e \<leftarrow> rd (mt_dirty_list x) (Suc i);
        let pn = push_bit 1 (mid e);
        fl \<leftarrow> mp_flags (w_mem w) (mptr e);
        if any_set fl (P_LOOSE OR P_KEEP) then spill_loop w t i need
        else do {
          above \<leftarrow> spilled_above w TXN_NEST (mt_parent x) pn;
          if above then do {
            w \<leftarrow> mem_do w (mp_or_flags (w_mem w) (mptr e) P_KEEP);
            spill_loop w t i need }
          else do {
            sp \<leftarrow> mt_spill_pgs x;
            (rc, sp) \<leftarrow> mdb_midl_append (idl_heap w) sp pn;
            w \<leftarrow> upd_txn (tick w) t (\<lambda>x. x\<lparr>mt_spill_pgs := Some sp\<rparr>);
            if rc \<noteq> 0 then Some (rc, Suc i, w)
            else spill_loop w t i (need - 1) } } })"

text \<open>How many pages an operation may need.\<close>

definition spill_need :: "world \<Rightarrow> cid \<Rightarrow> MDB_val option \<Rightarrow> MDB_val option \<Rightarrow> nat option" where
  "spill_need w m0 key data = do {
     r \<leftarrow> get_cur w m0;
     x \<leftarrow> w_txns w (mc_txn r);
     db \<leftarrow> get_db w (mc_db r);
     main \<leftarrow> rd (mt_dbs x) MAIN_DBI;
     let psize = me_psize (w_env w);
     let i = unat (md_depth db) + (if mc_dbi r \<ge> CORE_DBS then unat (md_depth main) else 0);
     i \<leftarrow> (case key of
        None \<Rightarrow> Some i
      | Some k \<Rightarrow> do { d \<leftarrow> data; Some (u32 (i + (LEAFSIZE k d + psize) div psize)) });
     Some (u32 (i + i)) }"

definition spill_prepare :: "world \<Rightarrow> tid \<Rightarrow> (int \<times> world) option" where
  "spill_prepare w t = do {
     x \<leftarrow> w_txns w t;
     (case mt_spill_pgs x of
        None \<Rightarrow> (case mdb_midl_alloc (idl_heap w) MDB_IDL_UM_MAX of
            None \<Rightarrow> Some (ENOMEM, tick w)
          | Some b \<Rightarrow> do {
              w \<leftarrow> upd_txn (tick w) t (\<lambda>x. x\<lparr>mt_spill_pgs := Some b\<rparr>);
              Some (0, w) })
      | Some b \<Rightarrow> do {
          num \<leftarrow> rd (idl_words b) 0;
          (sl, j) \<leftarrow> purge_spill (idl_words b) (unat num) 1 0;
          sl \<leftarrow> wr sl 0 (of_nat j);
          w \<leftarrow> upd_txn w t (\<lambda>x. x\<lparr>mt_spill_pgs := Some (b\<lparr>idl_words := sl\<rparr>)\<rparr>);
          Some (0, w) }) }"

definition mdb_page_spill :: "world \<Rightarrow> cid \<Rightarrow> MDB_val option \<Rightarrow> MDB_val option \<Rightarrow> (int \<times> world) option" where
  "mdb_page_spill w m0 key data = do {
     r \<leftarrow> get_cur w m0;
     let t = mc_txn r;
     x \<leftarrow> w_txns w t;
     if any_set (mc_flags r) C_SUB then Some (MDB_SUCCESS, w)
     else do {
       need \<leftarrow> spill_need w m0 key data;
       if mt_dirty_room x > need then Some (MDB_SUCCESS, w)
       else do {
         (rc, w) \<leftarrow> spill_prepare w t;
         if rc \<noteq> 0 then Some (rc, w)
         else do {
           (rc, w) \<leftarrow> mdb_pages_xkeep w m0 P_DIRTY True;
           (rc, w) \<leftarrow> (if rc \<noteq> MDB_SUCCESS then Some (rc, w)
              else do {
                let need = (if need < MDB_IDL_UM_MAX div 8 then MDB_IDL_UM_MAX div 8 else need);
                e0 \<leftarrow> rd (mt_dirty_list x) 0;
                (rc, i, w) \<leftarrow> spill_loop w t (unat (mid e0)) need;
                if rc \<noteq> 0 then Some (rc, w)
                else do {
                  x \<leftarrow> w_txns w t;
                  sp \<leftarrow> mt_spill_pgs x;
                  sl \<leftarrow> mdb_midl_sort (idl_words sp);
                  w \<leftarrow> upd_txn w t (\<lambda>x. x\<lparr>mt_spill_pgs := Some (sp\<lparr>idl_words := sl\<rparr>)\<rparr>);
                  (rc, w) \<leftarrow> mdb_page_flush w t i;
                  if rc \<noteq> MDB_SUCCESS then Some (rc, w)
                  else mdb_pages_xkeep w m0 (P_DIRTY OR P_KEEP) (i \<noteq> 0) } });
           w \<leftarrow> txn_or_flags w t (if rc \<noteq> 0 then MDB_TXN_ERROR else MDB_TXN_SPILLS);
           Some (rc, w) } } } }"

section \<open>The oldest snapshot in use\<close>

text \<open>The loop over the reader table, from the last slot in use down.\<close>

fun oldest_loop :: "MDB_reader list \<Rightarrow> nat \<Rightarrow> u64 \<Rightarrow> u64 option" where
  "oldest_loop r 0 oldest = Some oldest"
| "oldest_loop r (Suc i) oldest = do {
     x \<leftarrow> rd r i;
     oldest_loop r i (if mr_pid x \<noteq> 0 \<and> oldest > mr_txnid x then mr_txnid x else oldest) }"

definition mdb_find_oldest :: "world \<Rightarrow> tid \<Rightarrow> u64 option" where
  "mdb_find_oldest w t = do {
     x \<leftarrow> w_txns w t;
     let oldest = mt_txnid x - 1;
     (case me_txns (w_env w) of
        None \<Rightarrow> Some oldest
      | Some ti \<Rightarrow> oldest_loop (mti_readers ti) (mti_numreaders ti) oldest) }"

end
