(* ===== verification/Touch.thy ===== *)
theory Touch
  imports Flush
begin

text \<open>
  Getting a page to write (\<^verbatim>\<open>lmdb/mdb.c\<close>): \<^verbatim>\<open>mdb_page_alloc\<close>, copy-on-write by
  \<^verbatim>\<open>mdb_page_touch\<close>, new pages, and the overflow pages of large items.
\<close>

section \<open>The dirty list\<close>

definition mdb_page_dirty :: "world \<Rightarrow> tid \<Rightarrow> ptr \<Rightarrow> world option" where
  "mdb_page_dirty w t mp = do {
     x \<leftarrow> w_txns w t;
     pgno \<leftarrow> mp_pgno (w_mem w) mp;
     let e = \<lparr>mid = pgno, mptr = mp\<rparr>;
     (rc, dl) \<leftarrow> (if any_set (mt_flags x) MDB_TXN_WRITEMAP then mdb_mid2l_append (mt_dirty_list x) e
        else mdb_mid2l_insert (mt_dirty_list x) e);
     if rc \<noteq> 0 then None
     else upd_txn w t (\<lambda>x. x\<lparr>mt_dirty_list := dl, mt_dirty_room := u32 (mt_dirty_room x + (2 ^ 32 - 1))\<rparr>) }"

text \<open>\<^verbatim>\<open>mdb_midl_xappend\<close>: append without growing.\<close>

definition mdb_midl_xappend :: "MDB_IDL \<Rightarrow> u64 \<Rightarrow> MDB_IDL option" where
  "mdb_midl_xappend b idv = do {
     n \<leftarrow> rd (idl_words b) 0;
     xs \<leftarrow> wr (idl_words b) 0 (n + 1);
     xs \<leftarrow> wr xs (unat (n + 1)) idv;
     Some (b\<lparr>idl_words := xs\<rparr>) }"

section \<open>Allocating pages\<close>

text \<open>
  Look for \<open>n2 + 1\<close> consecutive pages in \<^verbatim>\<open>me_pghead\<close>, from the tail; the list is descending.
\<close>

fun seek_range :: "u64 list \<Rightarrow> nat \<Rightarrow> nat \<Rightarrow> (nat \<times> u64) option option" where
  "seek_range mop n2 0 = None"
| "seek_range mop n2 (Suc i) = do {
     pgno \<leftarrow> rd mop (Suc i);
     lo \<leftarrow> (if n2 \<le> Suc i then rd mop (Suc i - n2) else None);
     if lo = pgno + of_nat n2 then Some (Some (Suc i, pgno))
     else if i > n2 then seek_range mop n2 i else Some None }"

text \<open>
  The locals of \<^verbatim>\<open>mdb_page_alloc\<close> that its loop carries: the cursor on the freeDB, the address
  of \<^verbatim>\<open>last\<close>, its value, \<^verbatim>\<open>oldest\<close>, \<^verbatim>\<open>found_old\<close>.
\<close>

record alloc_state =
  al_m2 :: cid
  al_last_at :: ptr
  al_last :: u64
  al_oldest :: u64
  al_found_old :: bool

text \<open>
  \<^verbatim>\<open>Do not fetch more if the record will be too recent\<close>: whether to stop.
\<close>

definition too_recent :: "world \<Rightarrow> tid \<Rightarrow> alloc_state \<Rightarrow> (bool \<times> alloc_state \<times> world) option" where
  "too_recent w t s = do {
     if al_oldest s \<le> al_last s then do {
       (s, w) \<leftarrow> (if \<not> al_found_old s then do {
            oldest \<leftarrow> mdb_find_oldest w t;
            Some (s\<lparr>al_oldest := oldest, al_found_old := True\<rparr>, upd_env w (\<lambda>e. e\<lparr>me_pgoldest := oldest\<rparr>)) }
          else Some (s, w));
       Some (al_oldest s \<le> al_last s, s, w) }
     else Some (False, s, w) }"

text \<open>Read the array of a freeDB record: its length word and that many IDs.\<close>

definition load_idl :: "mem \<Rightarrow> ptr \<Rightarrow> u64 list option" where
  "load_idl m p = do {
     n \<leftarrow> ld64 m p;
     bs \<leftarrow> load m p (8 * (n + 1));
     Some (map (\<lambda>k. of_nat (le_val (take 8 (drop (8 * k) bs)))) [0..<n + 1]) }"

text \<open>Merge a freeDB record into \<^verbatim>\<open>me_pghead\<close>.\<close>

definition merge_record :: "world \<Rightarrow> u64 \<Rightarrow> u64 list \<Rightarrow> (int \<times> world) option" where
  "merge_record w lst idl = do {
     let env = w_env w;
     n \<leftarrow> rd idl 0;
     let i = u32 (unat n);
     (rc, mop) \<leftarrow> (case me_pghead env of
         None \<Rightarrow> Some (case mdb_midl_alloc (idl_heap w) i of None \<Rightarrow> (ENOMEM, None) | Some b \<Rightarrow> (0, Some b))
       | Some b \<Rightarrow> map_option (\<lambda>(rc, b). (rc, Some b)) (mdb_midl_need (idl_heap w) b i));
     let w = tick w;
     (case mop of
        None \<Rightarrow> Some (rc, w)
      | Some b \<Rightarrow>
          if rc \<noteq> 0 then Some (rc, upd_env w (\<lambda>e. e\<lparr>me_pghead := Some b\<rparr>))
          else do {
            xs \<leftarrow> mdb_midl_xmerge (idl_words b) idl;
            Some (0, upd_env w (\<lambda>e. e\<lparr>me_pghead := Some (b\<lparr>idl_words := xs\<rparr>), me_pglast := lst\<rparr>)) }) }"

text \<open>
  One more freeDB record: \<open>None\<close> in the first component means that the loop ends here.
\<close>

abbreviation no_touch :: touch_fun where
  "no_touch \<equiv> \<lambda>w mc. None"

definition alloc_fetch ::
  "world \<Rightarrow> tid \<Rightarrow> alloc_state \<Rightarrow> MDB_cursor_op \<Rightarrow> (int option \<times> alloc_state \<times> world) option" where
  "alloc_fetch w t s op = do {
     let s = s\<lparr>al_last := al_last s + 1\<rparr>;
     (stop, s, w) \<leftarrow> too_recent w t s;
     if stop then Some (None, s, w)
     else do {
       w \<leftarrow> mem_do w (st64 (w_mem w) (al_last_at s) (unat (al_last s)));
       (rc, key, data, w) \<leftarrow> mdb_cursor_get no_touch w (Some (al_m2 s))
          (Some \<lparr>mv_size = 8, mv_data = al_last_at s\<rparr>) None op;
       if rc = MDB_NOTFOUND then Some (None, s, w)
       else if rc \<noteq> 0 then Some (Some rc, s, w)
       else do {
         k \<leftarrow> key;
         lst \<leftarrow> ld64 (w_mem w) (mv_data k);
         (stop, s, w) \<leftarrow> too_recent w t (s\<lparr>al_last := of_nat lst\<rparr>);
         if stop then Some (None, s, w)
         else do {
           np \<leftarrow> top_pg w (al_m2 s);
           ki \<leftarrow> top_ki w (al_m2 s);
           leaf \<leftarrow> NODEPTR (w_mem w) np ki;
           (rc, data, w) \<leftarrow> mdb_node_read w (al_m2 s) leaf \<lparr>mv_size = 0, mv_data = NULL\<rparr>;
           if rc \<noteq> MDB_SUCCESS then Some (Some rc, s, w)
           else do {
             idl \<leftarrow> load_idl (w_mem w) (mv_data data);
             (rc, w) \<leftarrow> merge_record w (al_last s) idl;
             Some (Some rc, s, w) } } } } }"

text \<open>
  How the loop ends: pages found in \<^verbatim>\<open>me_pghead\<close> at an index, none there, or an error.
\<close>

datatype alloc_end = Found nat u64 | New_pages | Alloc_fail int

text \<open>The setup in the first iteration.\<close>

definition alloc_first :: "world \<Rightarrow> tid \<Rightarrow> (alloc_state \<times> world) option" where
  "alloc_first w t = do {
     let (m2, w) = new_cursor w;
     let at = Ptr (Heap (w_next w)) 0;
     let w = w\<lparr>w_mem := (w_mem w)(Heap (w_next w) \<mapsto> replicate 8 0), w_next := w_next w + 1\<rparr>;
     w \<leftarrow> mdb_cursor_init no_touch w m2 t FREE_DBI None;
     Some (\<lparr>al_m2 = m2, al_last_at = at, al_last = me_pglast (w_env w), al_oldest = me_pgoldest (w_env w),
       al_found_old = False\<rparr>, w) }"

definition pghead_len :: "world \<Rightarrow> nat option" where
  "pghead_len w = (case me_pghead (w_env w) of
     None \<Rightarrow> Some 0
   | Some b \<Rightarrow> map_option (\<lambda>n. u32 (unat n)) (rd (idl_words b) 0))"

definition alloc_seek :: "world \<Rightarrow> nat \<Rightarrow> (nat \<times> u64) option option" where
  "alloc_seek w n2 = do {
     mop_len \<leftarrow> pghead_len w;
     (case me_pghead (w_env w) of
        Some b \<Rightarrow> if mop_len > n2 then seek_range (idl_words b) n2 mop_len else Some None
      | None \<Rightarrow> Some None) }"

partial_function (option) alloc_loop ::
  "world \<Rightarrow> tid \<Rightarrow> nat \<Rightarrow> alloc_state option \<Rightarrow> int \<Rightarrow> (alloc_end \<times> alloc_state option \<times> world) option" where
  "alloc_loop w t n2 st retry = do {
     mop_len \<leftarrow> pghead_len w;
     found \<leftarrow> alloc_seek w n2;
     (case found of
        Some (i, pgno) \<Rightarrow> Some (Found i pgno, st, w)
      | None \<Rightarrow>
          let retry = (if mop_len > n2 then retry - 1 else retry) in
          if mop_len > n2 \<and> retry < 0 then Some (New_pages, st, w)
          else do {
            (s, op, w) \<leftarrow> (case st of
               None \<Rightarrow> do {
                 (s, w) \<leftarrow> alloc_first w t;
                 Some (s, if al_last s \<noteq> 0 then MDB_SET_RANGE else MDB_FIRST, w) }
             | Some s \<Rightarrow> Some (s, MDB_NEXT, w));
            (rc, s, w) \<leftarrow> alloc_fetch w t s op;
            (case rc of
               None \<Rightarrow> Some (New_pages, Some s, w)
             | Some rc \<Rightarrow>
                 if rc \<noteq> 0 then Some (Alloc_fail rc, Some s, w)
                 else alloc_loop w t n2 (Some s) retry) }) }"

declare alloc_loop.simps [code]

text \<open>\<^verbatim>\<open>for (j = i-num; j < mop_len; ) mop[++j] = mop[++i];\<close>\<close>

fun close_gap :: "u64 list \<Rightarrow> nat \<Rightarrow> nat \<Rightarrow> nat \<Rightarrow> u64 list option" where
  "close_gap mop 0 j i = Some mop"
| "close_gap mop (Suc k) j i = do {
     x \<leftarrow> rd mop (i + 1);
     mop \<leftarrow> wr mop (j + 1) x;
     close_gap mop k (j + 1) (i + 1) }"

text \<open>From \<^verbatim>\<open>search_done\<close>: the buffer, the lists, the dirty list. \<open>i = 0\<close>: new pages.\<close>

definition alloc_done :: "world \<Rightarrow> tid \<Rightarrow> nat \<Rightarrow> nat \<Rightarrow> u64 \<Rightarrow> (int \<times> ptr \<times> world) option" where
  "alloc_done w t num i pgno = do {
     (np, w) \<leftarrow> (if any_set (me_flags (w_env w)) MDB_WRITEMAP then Some (map_page w pgno, w)
        else mdb_page_malloc w t num);
     if np = NULL then Some (ENOMEM, NULL, w)
     else do {
       w \<leftarrow> (if i \<noteq> 0 then do {
            b \<leftarrow> me_pghead (w_env w);
            mop_len \<leftarrow> pghead_len w;
            let mop_len = mop_len - num;
            xs \<leftarrow> wr (idl_words b) 0 (of_nat mop_len);
            xs \<leftarrow> close_gap xs (mop_len - (i - num)) (i - num) i;
            Some (upd_env w (\<lambda>e. e\<lparr>me_pghead := Some (b\<lparr>idl_words := xs\<rparr>)\<rparr>)) }
          else upd_txn w t (\<lambda>x. x\<lparr>mt_next_pgno := pgno + of_nat num\<rparr>));
       w \<leftarrow> mem_do w (set_mp_pgno (w_mem w) np pgno);
       w \<leftarrow> mdb_page_dirty w t np;
       Some (MDB_SUCCESS, np, w) } }"

text \<open>The label \<^verbatim>\<open>fail\<close>.\<close>

definition alloc_fail :: "world \<Rightarrow> tid \<Rightarrow> int \<Rightarrow> (int \<times> ptr \<times> world) option" where
  "alloc_fail w t rc = do {
     w \<leftarrow> txn_or_flags w t MDB_TXN_ERROR;
     Some (rc, NULL, w) }"

text \<open>End of the scope of the local cursor and of \<^verbatim>\<open>last\<close>.\<close>

definition alloc_leave :: "world \<Rightarrow> alloc_state option \<Rightarrow> world" where
  "alloc_leave w st = (case st of
     None \<Rightarrow> w
   | Some s \<Rightarrow> w_free (drop_cursor w (al_m2 s)) (al_last_at s))"

definition mdb_page_alloc :: "world \<Rightarrow> cid \<Rightarrow> nat \<Rightarrow> (int \<times> ptr \<times> world) option" where
  "mdb_page_alloc w mc num = do {
     r \<leftarrow> get_cur w mc;
     let t = mc_txn r;
     x \<leftarrow> w_txns w t;
     if num = 1 \<and> mt_loose_pgs x \<noteq> [] then do {
       w \<leftarrow> upd_txn w t (\<lambda>x. x\<lparr>mt_loose_pgs := tl (mt_loose_pgs x), mt_loose_count := mt_loose_count x - 1\<rparr>);
       Some (MDB_SUCCESS, hd (mt_loose_pgs x), w) }
     else if mt_dirty_room x = 0 then alloc_fail w t MDB_TXN_FULL
     else do {
       (res, st, w) \<leftarrow> alloc_loop w t (num - 1) None (int num * 60);
       let w = alloc_leave w st;
       (case res of
          Alloc_fail rc \<Rightarrow> alloc_fail w t rc
        | Found i pgno \<Rightarrow> do {
            (rc, np, w) \<leftarrow> alloc_done w t num i pgno;
            if rc \<noteq> 0 then alloc_fail w t rc else Some (rc, np, w) }
        | New_pages \<Rightarrow> do {
            x \<leftarrow> w_txns w t;
            let pgno = mt_next_pgno x;
            if pgno + of_nat num \<ge> me_maxpg (w_env w) then alloc_fail w t MDB_MAP_FULL
            else do {
              (rc, np, w) \<leftarrow> alloc_done w t num 0 pgno;
              if rc \<noteq> 0 then alloc_fail w t rc else Some (rc, np, w) } }) } }"

section \<open>Copying a page\<close>

definition mdb_page_copy :: "mem \<Rightarrow> ptr \<Rightarrow> ptr \<Rightarrow> nat \<Rightarrow> mem option" where
  "mdb_page_copy m dst src psize = do {
     upper \<leftarrow> mp_upper m src;
     lower \<leftarrow> mp_lower m src;
     leaf2 \<leftarrow> IS_LEAF2 m src;
     let unused = (upper + (2 ^ 16 - lower)) mod 2 ^ 16;
     let unused = unused div 8 * 8;
     if unused \<noteq> 0 \<and> \<not> leaf2 then do {
       let upper = (upper + PAGEBASE) div 8 * 8;
       m \<leftarrow> memmove m dst src ((lower + PAGEBASE + 7) div 8 * 8);
       memmove m (padd dst upper) (padd src upper) (psize - upper) }
     else memmove m dst src (psize - unused) }"

section \<open>Bringing back a spilled page\<close>

text \<open>The transaction, from \<open>tx2\<close> up, whose spill list has the page, and the slot.\<close>

fun unspill_find :: "world \<Rightarrow> nat \<Rightarrow> tid option \<Rightarrow> u64 \<Rightarrow> (tid \<times> nat) option option" where
  "unspill_find w n None pn = Some None"
| "unspill_find w 0 (Some tx2) pn = None"
| "unspill_find w (Suc n) (Some tx2) pn = do {
     x \<leftarrow> w_txns w tx2;
     found \<leftarrow> (case mt_spill_pgs x of
        None \<Rightarrow> Some None
      | Some sl \<Rightarrow> do {
          j \<leftarrow> mdb_midl_search (idl_words sl) pn;
          k \<leftarrow> rd (idl_words sl) 0;
          if j \<le> unat k then map_option (\<lambda>y. if y = pn then Some j else None) (rd (idl_words sl) j) else Some None });
     (case found of Some j \<Rightarrow> Some (Some (tx2, j)) | None \<Rightarrow> unspill_find w n (mt_parent x) pn) }"

text \<open>Take slot \<open>x\<close> off a spill list: drop the last one, mark any other deleted.\<close>

definition unspill_slot :: "u64 list \<Rightarrow> nat \<Rightarrow> u64 list option" where
  "unspill_slot sl x = do {
     n \<leftarrow> rd sl 0;
     if x = unat n then wr sl 0 (n - 1)
     else do { v \<leftarrow> rd sl x; wr sl x (v OR 1) } }"

definition mdb_page_unspill :: "world \<Rightarrow> tid \<Rightarrow> ptr \<Rightarrow> (int \<times> ptr option \<times> world) option" where
  "mdb_page_unspill w t mp = do {
     pgno \<leftarrow> mp_pgno (w_mem w) mp;
     found \<leftarrow> unspill_find w TXN_NEST (Some t) (push_bit 1 pgno);
     (case found of
        None \<Rightarrow> Some (MDB_SUCCESS, None, w)
      | Some (tx2, x) \<Rightarrow> do {
          tr \<leftarrow> w_txns w t;
          if mt_dirty_room tr = 0 then Some (MDB_TXN_FULL, None, w)
          else do {
            ov \<leftarrow> IS_OVERFLOW (w_mem w) mp;
            pages \<leftarrow> mp_pages (w_mem w) mp;
            let num = (if ov then pages else 1);
            let psize = me_psize (w_env w);
            (np, w) \<leftarrow> (if any_set (me_flags (w_env w)) MDB_WRITEMAP then Some (mp, w)
               else do {
                 (np, w) \<leftarrow> mdb_page_malloc w t num;
                 if np = NULL then Some (np, w)
                 else do {
                   w \<leftarrow> mem_do w (if num > 1 then memmove (w_mem w) np mp (num * psize)
                                else mdb_page_copy (w_mem w) np mp psize);
                   Some (np, w) } });
            if np = NULL then Some (ENOMEM, None, w)
            else do {
              w \<leftarrow> (if tx2 = t then do {
                   tr \<leftarrow> w_txns w t;
                   sp \<leftarrow> mt_spill_pgs tr;
                   sl \<leftarrow> unspill_slot (idl_words sp) x;
                   upd_txn w t (\<lambda>x. x\<lparr>mt_spill_pgs := Some (sp\<lparr>idl_words := sl\<rparr>)\<rparr>) }
                 else Some w);
              w \<leftarrow> mdb_page_dirty w t np;
              w \<leftarrow> mem_do w (mp_or_flags (w_mem w) np P_DIRTY);
              Some (MDB_SUCCESS, Some np, w) } } }) }"

section \<open>Copy on write\<close>

text \<open>The label \<^verbatim>\<open>done\<close>: the cursors that point at the old page follow to the new one.\<close>

definition touch_adjust_sub :: "cid \<Rightarrow> ptr \<Rightarrow> ptr \<Rightarrow> cid \<Rightarrow> world \<Rightarrow> world option" where
  "touch_adjust_sub mc mp np m2 w = do {
     r \<leftarrow> get_cur w mc;
     m3 \<leftarrow> sub_cursor w m2;
     r3 \<leftarrow> get_cur w m3;
     if mc_snum r3 < mc_snum r then Some w
     else do {
       p \<leftarrow> rd (mc_pg r3) (mc_top r);
       if p = mp then set_pg w m3 (mc_top r) np else Some w } }"

definition touch_adjust_main :: "cid \<Rightarrow> ptr \<Rightarrow> ptr \<Rightarrow> cid \<Rightarrow> world \<Rightarrow> world option" where
  "touch_adjust_main mc mp np m2 w = do {
     r \<leftarrow> get_cur w mc;
     r2 \<leftarrow> get_cur w m2;
     if mc_snum r2 < mc_snum r \<or> m2 = mc then Some w
     else do {
       p \<leftarrow> rd (mc_pg r2) (mc_top r);
       if p = mp then do {
         w \<leftarrow> set_pg w m2 (mc_top r) np;
         leaf \<leftarrow> IS_LEAF (w_mem w) np;
         if leaf then XCURSOR_REFRESH w m2 (mc_top r) np else Some w }
       else Some w } }"

definition touch_done :: "world \<Rightarrow> cid \<Rightarrow> ptr \<Rightarrow> ptr \<Rightarrow> (int \<times> world) option" where
  "touch_done w mc mp np = do {
     w \<leftarrow> set_top_pg w mc np;
     r \<leftarrow> get_cur w mc;
     ms \<leftarrow> tracked w (mc_txn r) (mc_dbi r);
     w \<leftarrow> each (if any_set (mc_flags r) C_SUB then touch_adjust_sub mc mp np else touch_adjust_main mc mp np) ms w;
     Some (0, w) }"

definition touch_fail :: "world \<Rightarrow> tid \<Rightarrow> int \<Rightarrow> (int \<times> world) option" where
  "touch_fail w t rc = do {
     w \<leftarrow> txn_or_flags w t MDB_TXN_ERROR;
     Some (rc, w) }"

text \<open>The copy itself: content, page number, dirty flag.\<close>

definition touch_copy :: "world \<Rightarrow> cid \<Rightarrow> ptr \<Rightarrow> ptr \<Rightarrow> u64 \<Rightarrow> (int \<times> world) option" where
  "touch_copy w mc mp np pgno = do {
     m \<leftarrow> mdb_page_copy (w_mem w) np mp (me_psize (w_env w));
     m \<leftarrow> set_mp_pgno m np pgno;
     m \<leftarrow> mp_or_flags m np P_DIRTY;
     touch_done (w\<lparr>w_mem := m\<rparr>) mc mp np }"

text \<open>Point the parent, or the root of the database, at the new page.\<close>

definition touch_parent :: "world \<Rightarrow> cid \<Rightarrow> u64 \<Rightarrow> world option" where
  "touch_parent w mc pgno = do {
     r \<leftarrow> get_cur w mc;
     if mc_top r \<noteq> 0 then do {
       parent \<leftarrow> rd (mc_pg r) (mc_top r - 1);
       ki \<leftarrow> rd (mc_ki r) (mc_top r - 1);
       node \<leftarrow> NODEPTR (w_mem w) parent ki;
       mem_do w (SETPGNO (w_mem w) node pgno) }
     else upd_db w (mc_db r) (\<lambda>d. d\<lparr>md_root := pgno\<rparr>) }"

text \<open>A clean page: unspill it, or allocate a page and copy.\<close>

definition touch_clean :: "world \<Rightarrow> cid \<Rightarrow> tid \<Rightarrow> ptr \<Rightarrow> (int \<times> world) option" where
  "touch_clean w mc t mp = do {
     x \<leftarrow> w_txns w t;
     (rc, back, w) \<leftarrow> (if any_set (mt_flags x) MDB_TXN_SPILLS then mdb_page_unspill w t mp else Some (0, None, w));
     if rc \<noteq> 0 then touch_fail w t rc
     else (case back of
        Some np \<Rightarrow> touch_done w mc mp np
      | None \<Rightarrow> do {
          (rc, w) \<leftarrow> free_pgs_do w t (\<lambda>h b. mdb_midl_need h b 1);
          if rc \<noteq> 0 then touch_fail w t rc
          else do {
            (rc, np, w) \<leftarrow> mdb_page_alloc w mc 1;
            if rc \<noteq> 0 then touch_fail w t rc
            else do {
              pgno \<leftarrow> mp_pgno (w_mem w) np;
              old \<leftarrow> mp_pgno (w_mem w) mp;
              if \<not> old \<noteq> pgno then None
              else do {
                x \<leftarrow> w_txns w t;
                b \<leftarrow> mdb_midl_xappend (mt_free_pgs x) old;
                w \<leftarrow> upd_txn w t (\<lambda>x. x\<lparr>mt_free_pgs := b\<rparr>);
                w \<leftarrow> touch_parent w mc pgno;
                touch_copy w mc mp np pgno } } } }) }"

text \<open>A dirty page in a nested transaction: make sure it is this transaction's, or copy it.\<close>

definition touch_nested :: "world \<Rightarrow> cid \<Rightarrow> tid \<Rightarrow> ptr \<Rightarrow> (int \<times> world) option" where
  "touch_nested w mc t mp = do {
     x \<leftarrow> w_txns w t;
     pgno \<leftarrow> mp_pgno (w_mem w) mp;
     slot \<leftarrow> dirty_slot (mt_dirty_list x) pgno;
     (case slot of
        Some p \<Rightarrow>
          if mp \<noteq> p then do {
            w \<leftarrow> clear_flags w mc (C_INITIALIZED OR C_EOF);
            w \<leftarrow> txn_or_flags w t MDB_TXN_ERROR;
            Some (MDB_PROBLEM, w) }
          else Some (0, w)
      | None \<Rightarrow> do {
          e0 \<leftarrow> rd (mt_dirty_list x) 0;
          if \<not> mid e0 < of_nat MDB_IDL_UM_MAX then None
          else do {
            (np, w) \<leftarrow> mdb_page_malloc w t 1;
            if np = NULL then Some (ENOMEM, w)
            else do {
              (rc, dl) \<leftarrow> mdb_mid2l_insert (mt_dirty_list x) \<lparr>mid = pgno, mptr = np\<rparr>;
              if rc \<noteq> 0 then None
              else do {
                w \<leftarrow> set_dirty_list w t dl;
                touch_copy w mc mp np pgno } } } }) }"

definition mdb_page_touch :: "world \<Rightarrow> cid \<Rightarrow> (int \<times> world) option" where
  "mdb_page_touch w mc = do {
     mp \<leftarrow> top_pg w mc;
     r \<leftarrow> get_cur w mc;
     let t = mc_txn r;
     x \<leftarrow> w_txns w t;
     fl \<leftarrow> mp_flags (w_mem w) mp;
     if \<not> F_ISSET fl P_DIRTY then touch_clean w mc t mp
     else if mt_parent x \<noteq> None \<and> \<not> F_ISSET fl P_SUBP then touch_nested w mc t mp
     else Some (0, w) }"

text \<open>Touch every page of a cursor's stack.\<close>

fun touch_stack :: "nat \<Rightarrow> world \<Rightarrow> cid \<Rightarrow> (int \<times> world) option" where
  "touch_stack 0 w mc = None"
| "touch_stack (Suc n) w mc = do {
     (rc, w) \<leftarrow> mdb_page_touch w mc;
     if rc \<noteq> 0 then Some (rc, w)
     else do {
       w \<leftarrow> upd_cur w mc (\<lambda>r. r\<lparr>mc_top := inc16 (mc_top r)\<rparr>);
       r \<leftarrow> get_cur w mc;
       if mc_top r < mc_snum r then touch_stack n w mc else Some (0, w) } }"

definition mdb_cursor_touch :: "world \<Rightarrow> cid \<Rightarrow> (int \<times> world) option" where
  "mdb_cursor_touch w mc = do {
     r \<leftarrow> get_cur w mc;
     fl \<leftarrow> get_dbflag w (mc_dbflag r);
     (rc, w) \<leftarrow> (if mc_dbi r \<ge> CORE_DBS \<and> \<not> any_set fl (DB_DIRTY OR DB_DUPDATA) then do {
          changed \<leftarrow> TXN_DBI_CHANGED w (mc_txn r) (mc_dbi r);
          if changed then Some (MDB_BAD_DBI, w)
          else do {
            let (mc2, w) = new_cursor w;
            let (mcx, w) = new_xcursor w;
            w \<leftarrow> mdb_cursor_init mdb_page_touch w mc2 (mc_txn r) MAIN_DBI (Some mcx);
            dbx \<leftarrow> get_dbx w (mc_dbx r);
            (rc, w) \<leftarrow> mdb_page_search mdb_page_touch w mc2 (Some (md_name dbx)) MDB_PS_MODIFY;
            let w = drop_cursor (drop_cursor w mcx) mc2;
            if rc \<noteq> 0 then Some (rc, w)
            else do {
              w \<leftarrow> upd_dbflag w (mc_dbflag r) (\<lambda>f. f OR DB_DIRTY);
              Some (0, w) } } }
        else Some (0, w));
     if rc \<noteq> 0 then Some (rc, w)
     else do {
       w \<leftarrow> upd_cur w mc (\<lambda>r. r\<lparr>mc_top := 0\<rparr>);
       if mc_snum r \<noteq> 0 then do {
         (rc, w) \<leftarrow> touch_stack (CURSOR_STACK + 1) w mc;
         w \<leftarrow> upd_cur w mc (\<lambda>r. r\<lparr>mc_top := mc_snum r - 1\<rparr>);
         Some (rc, w) }
       else Some (MDB_SUCCESS, w) } }"

section \<open>New pages and nodes\<close>

definition mdb_page_new :: "world \<Rightarrow> cid \<Rightarrow> u32 \<Rightarrow> nat \<Rightarrow> (int \<times> ptr \<times> world) option" where
  "mdb_page_new w mc flags num = do {
     (rc, np, w) \<leftarrow> mdb_page_alloc w mc num;
     if rc \<noteq> 0 then Some (rc, NULL, w)
     else do {
       m \<leftarrow> set_mp_flags (w_mem w) np (flags OR P_DIRTY);
       m \<leftarrow> set_mp_lower m np (PAGEHDRSZ - PAGEBASE);
       m \<leftarrow> set_mp_upper m np (me_psize (w_env w) - PAGEBASE);
       let w = w\<lparr>w_mem := m\<rparr>;
       r \<leftarrow> get_cur w mc;
       br \<leftarrow> IS_BRANCH (w_mem w) np;
       leaf \<leftarrow> IS_LEAF (w_mem w) np;
       ov \<leftarrow> IS_OVERFLOW (w_mem w) np;
       w \<leftarrow> (if br then upd_db w (mc_db r) (\<lambda>d. d\<lparr>md_branch_pages := md_branch_pages d + 1\<rparr>)
            else if leaf then upd_db w (mc_db r) (\<lambda>d. d\<lparr>md_leaf_pages := md_leaf_pages d + 1\<rparr>)
            else if ov then do {
              w \<leftarrow> upd_db w (mc_db r) (\<lambda>d. d\<lparr>md_overflow_pages := md_overflow_pages d + of_nat num\<rparr>);
              mem_do w (set_mp_pages (w_mem w) np num) }
            else Some w);
       Some (0, np, w) } }"

definition node_add_full :: "world \<Rightarrow> tid \<Rightarrow> MDB_val option \<Rightarrow> (int \<times> MDB_val option \<times> world) option" where
  "node_add_full w t data = do {
     w \<leftarrow> txn_or_flags w t MDB_TXN_ERROR;
     Some (MDB_PAGE_FULL, data, w) }"

text \<open>
  \<^verbatim>\<open>mdb_node_add\<close>. The data value is returned because \<^verbatim>\<open>MDB_RESERVE\<close> sets its address.
\<close>

definition mdb_node_add ::
  "world \<Rightarrow> cid \<Rightarrow> nat \<Rightarrow> MDB_val option \<Rightarrow> MDB_val option \<Rightarrow> u64 \<Rightarrow> u32 \<Rightarrow> (int \<times> MDB_val option \<times> world) option" where
  "mdb_node_add w mc indx key data pgno flags = do {
     mp \<leftarrow> top_pg w mc;
     r \<leftarrow> get_cur w mc;
     upper \<leftarrow> mp_upper (w_mem w) mp;
     lower \<leftarrow> mp_lower (w_mem w) mp;
     if \<not> upper \<ge> lower then None
     else do {
       leaf2 \<leftarrow> IS_LEAF2 (w_mem w) mp;
       leaf \<leftarrow> IS_LEAF (w_mem w) mp;
       if leaf2 then do {
         db \<leftarrow> get_db w (mc_db r);
         k \<leftarrow> key;
         w \<leftarrow> mem_do w (node_add_leaf2 (w_mem w) mp indx (mv_data k) (unat (md_pad db)));
         Some (MDB_SUCCESS, data, w) }
       else do {
         left \<leftarrow> SIZELEFT (w_mem w) mp;
         let room = int left - 2;
         let node_size = INDXSIZE key;
         let update = (\<lambda>w flags node_size ofp. do {
               (m, data) \<leftarrow> node_add_update (w_mem w) mp indx key data pgno flags node_size ofp;
               Some (MDB_SUCCESS, data, w\<lparr>w_mem := m\<rparr>) });
         let fits = (\<lambda>node_size. if int (EVEN node_size) > room then node_add_full w (mc_txn r) data
               else update w flags (EVEN node_size) None);
         if leaf then do {
           _ \<leftarrow> key;
           d \<leftarrow> data;
           if F_ISSET flags F_BIGDATA then fits (node_size + 8)
           else if node_size + mv_size d > me_nodemax (w_env w) then do {
             let ovpages = OVPAGES (mv_size d) (me_psize (w_env w));
             let node_size = EVEN (node_size + 8);
             if int node_size > room then node_add_full w (mc_txn r) data
             else do {
               (rc, ofp, w) \<leftarrow> mdb_page_new w mc P_OVERFLOW ovpages;
               if rc \<noteq> 0 then Some (rc, data, w)
               else update w (flags OR F_BIGDATA) node_size (Some ofp) } }
           else fits (node_size + mv_size d) }
         else fits node_size } } }"

section \<open>Freeing overflow pages\<close>

text \<open>
  Search the dirty list from the end for the page, shifting the entries passed down by one:
  \<open>ix\<close> is the entry in hand, \<open>x\<close> the slot it came from.
\<close>

fun dirty_remove :: "ptr MDB_ID2L \<Rightarrow> ptr \<Rightarrow> nat \<Rightarrow> ptr MDB_ID2 \<Rightarrow> (ptr MDB_ID2L \<times> ptr MDB_ID2 option) option" where
  "dirty_remove dl mp 0 ix = None"
| "dirty_remove dl mp (Suc x) ix =
     (if mptr ix = mp then Some (dl, None)
      else if Suc x > 1 then do {
        iy \<leftarrow> rd dl x;
        dl \<leftarrow> wr dl x ix;
        dirty_remove dl mp x iy }
      else Some (dl, Some ix))"

text \<open>Insert \<open>n\<close> page numbers from \<open>pg\<close> into the descending list \<^verbatim>\<open>me_pghead\<close>, which has room.\<close>

fun shift_smaller :: "u64 list \<Rightarrow> u64 \<Rightarrow> nat \<Rightarrow> nat \<Rightarrow> (u64 list \<times> nat \<times> nat) option" where
  "shift_smaller mop pg 0 j = Some (mop, 0, j)"
| "shift_smaller mop pg (Suc i) j = do {
     v \<leftarrow> rd mop (Suc i);
     if v < pg then do {
       mop \<leftarrow> wr mop j v;
       shift_smaller mop pg i (j - 1) }
     else Some (mop, Suc i, j) }"

fun fill_down :: "u64 list \<Rightarrow> nat \<Rightarrow> nat \<Rightarrow> u64 \<Rightarrow> u64 list option" where
  "fill_down mop 0 j pg = Some mop"
| "fill_down mop (Suc k) j pg = do {
     mop \<leftarrow> wr mop j pg;
     fill_down mop k (j - 1) (pg + 1) }"

definition pghead_insert :: "u64 list \<Rightarrow> u64 \<Rightarrow> nat \<Rightarrow> u64 list option" where
  "pghead_insert mop pg ovpages = do {
     n \<leftarrow> rd mop 0;
     let j = u32 (unat n + ovpages);
     (mop, i, j) \<leftarrow> shift_smaller mop pg (u32 (unat n)) j;
     mop \<leftarrow> fill_down mop (j - i) j pg;
     n \<leftarrow> rd mop 0;
     wr mop 0 (n + of_nat ovpages) }"

text \<open>The slot of the page on the spill list, if it is there.\<close>

definition spill_slot :: "MDB_txn \<Rightarrow> u64 \<Rightarrow> nat option option" where
  "spill_slot x pn = (case mt_spill_pgs x of
     None \<Rightarrow> Some None
   | Some sl \<Rightarrow> do {
       j \<leftarrow> mdb_midl_search (idl_words sl) pn;
       k \<leftarrow> rd (idl_words sl) 0;
       if j \<le> unat k then map_option (\<lambda>y. if y = pn then Some j else None) (rd (idl_words sl) j) else Some None })"

text \<open>Take a dirty overflow page off the dirty list.\<close>

definition ovpage_undirty :: "world \<Rightarrow> tid \<Rightarrow> ptr \<Rightarrow> (int \<times> world) option" where
  "ovpage_undirty w t mp = do {
     x \<leftarrow> w_txns w t;
     let dl = mt_dirty_list x;
     e0 \<leftarrow> rd dl 0;
     ix \<leftarrow> rd dl (unat (mid e0));
     dl \<leftarrow> wr dl 0 (e0\<lparr>mid := mid e0 - 1\<rparr>);
     (dl, lost) \<leftarrow> dirty_remove dl mp (unat (mid e0)) ix;
     (case lost of
        Some ix \<Rightarrow> None
      | None \<Rightarrow> do {
          w \<leftarrow> upd_txn w t (\<lambda>x. x\<lparr>mt_dirty_list := dl, mt_dirty_room := u32 (mt_dirty_room x + 1)\<rparr>);
          w \<leftarrow> (if any_set (me_flags (w_env w)) MDB_WRITEMAP then Some w else mdb_dpage_free w mp);
          Some (0, w) }) }"

definition mdb_ovpage_free :: "world \<Rightarrow> cid \<Rightarrow> ptr \<Rightarrow> (int \<times> world) option" where
  "mdb_ovpage_free w mc mp = do {
     r \<leftarrow> get_cur w mc;
     let t = mc_txn r;
     x \<leftarrow> w_txns w t;
     pg \<leftarrow> mp_pgno (w_mem w) mp;
     ovpages \<leftarrow> mp_pages (w_mem w) mp;
     fl \<leftarrow> mp_flags (w_mem w) mp;
     slot \<leftarrow> (if any_set fl P_DIRTY then Some None else spill_slot x (push_bit 1 pg));
     (rc, w) \<leftarrow> (case me_pghead (w_env w) of
         Some b \<Rightarrow>
           if mt_parent x = None \<and> (any_set fl P_DIRTY \<or> slot \<noteq> None) then do {
             (rc, b) \<leftarrow> mdb_midl_need (idl_heap w) b ovpages;
             let w = upd_env (tick w) (\<lambda>e. e\<lparr>me_pghead := Some b\<rparr>);
             if rc \<noteq> 0 then Some (rc, w)
             else do {
               (rc, w) \<leftarrow> (case slot of
                   Some j \<Rightarrow> do {
                     sp \<leftarrow> mt_spill_pgs x;
                     sl \<leftarrow> unspill_slot (idl_words sp) j;
                     w \<leftarrow> upd_txn w t (\<lambda>x. x\<lparr>mt_spill_pgs := Some (sp\<lparr>idl_words := sl\<rparr>)\<rparr>);
                     Some (0, w) }
                 | None \<Rightarrow> ovpage_undirty w t mp);
               if rc \<noteq> 0 then Some (rc, w)
               else do {
                 b \<leftarrow> me_pghead (w_env w);
                 xs \<leftarrow> pghead_insert (idl_words b) pg ovpages;
                 Some (0, upd_env w (\<lambda>e. e\<lparr>me_pghead := Some (b\<lparr>idl_words := xs\<rparr>)\<rparr>)) } } }
           else free_pgs_do w t (\<lambda>h b. mdb_midl_append_range h b pg (of_nat ovpages))
       | None \<Rightarrow> free_pgs_do w t (\<lambda>h b. mdb_midl_append_range h b pg (of_nat ovpages)));
     if rc \<noteq> 0 then Some (rc, w)
     else do {
       w \<leftarrow> upd_db w (mc_db r) (\<lambda>d. d\<lparr>md_overflow_pages := md_overflow_pages d - of_nat ovpages\<rparr>);
       Some (0, w) } }"

end
