(* ===== verification/Split.thy ===== *)
theory Split
  imports Touch
begin

text \<open>
  Splitting a page (\<^verbatim>\<open>mdb_page_split\<close>, \<^verbatim>\<open>lmdb/mdb.c\<close>), replacing a separator key
  (\<^verbatim>\<open>mdb_update_key\<close>), and the cursor copies and adjustments that go with changes of the tree.
\<close>

abbreviation (input) MDB_SPLIT_REPLACE :: u32 where
  "MDB_SPLIT_REPLACE \<equiv> MDB_APPENDDUP"

abbreviation (input) NODE_ADD_FLAGS :: u32 where
  "NODE_ADD_FLAGS \<equiv> F_DUPDATA OR F_SUBDATA OR MDB_RESERVE OR MDB_APPEND"

section \<open>Helpers for cursors\<close>

text \<open>Go on unless the return code is an error.\<close>

definition and_then :: "(int \<times> world) option \<Rightarrow> (world \<Rightarrow> (int \<times> world) option) \<Rightarrow> (int \<times> world) option" where
  "and_then m f = do { (rc, w) \<leftarrow> m; if rc \<noteq> 0 then Some (rc, w) else f w }"

text \<open>Subtraction of 16-bit values.\<close>

definition sub16 :: "nat \<Rightarrow> nat \<Rightarrow> nat" where
  "sub16 x y = (x + 2 ^ 16 - y mod 2 ^ 16) mod 2 ^ 16"

definition get_pg :: "world \<Rightarrow> cid \<Rightarrow> nat \<Rightarrow> ptr option" where
  "get_pg w c i = do { r \<leftarrow> get_cur w c; rd (mc_pg r) i }"

definition get_ki :: "world \<Rightarrow> cid \<Rightarrow> nat \<Rightarrow> nat option" where
  "get_ki w c i = do { r \<leftarrow> get_cur w c; rd (mc_ki r) i }"

definition set_ki :: "world \<Rightarrow> cid \<Rightarrow> nat \<Rightarrow> nat \<Rightarrow> world option" where
  "set_ki w c i v = do {
     r \<leftarrow> get_cur w c;
     ki \<leftarrow> wr (mc_ki r) i v;
     Some (put_cur w c (r\<lparr>mc_ki := ki\<rparr>)) }"

text \<open>Copy the entries below \<open>n\<close> of one stack to another, both arrays or the indices only.\<close>

fun copy_stack :: "world \<Rightarrow> cid \<Rightarrow> cid \<Rightarrow> nat \<Rightarrow> world option" where
  "copy_stack w src dst 0 = Some w"
| "copy_stack w src dst (Suc n) = do {
     w \<leftarrow> copy_stack w src dst n;
     p \<leftarrow> get_pg w src n;
     k \<leftarrow> get_ki w src n;
     w \<leftarrow> set_pg w dst n p;
     set_ki w dst n k }"

fun copy_kis :: "world \<Rightarrow> cid \<Rightarrow> cid \<Rightarrow> nat \<Rightarrow> world option" where
  "copy_kis w src dst 0 = Some w"
| "copy_kis w src dst (Suc n) = do {
     w \<leftarrow> copy_kis w src dst n;
     k \<leftarrow> get_ki w src n;
     set_ki w dst n k }"

definition mdb_cursor_copy :: "world \<Rightarrow> cid \<Rightarrow> cid \<Rightarrow> world option" where
  "mdb_cursor_copy w csrc cdst = do {
     r \<leftarrow> get_cur w csrc;
     w \<leftarrow> upd_cur w cdst (\<lambda>c. c\<lparr>mc_txn := mc_txn r, mc_dbi := mc_dbi r, mc_db := mc_db r, mc_dbx := mc_dbx r,
        mc_snum := mc_snum r, mc_top := mc_top r, mc_flags := mc_flags r\<rparr>);
     copy_stack w csrc cdst (mc_snum r) }"

text \<open>\<^verbatim>\<open>WITH_CURSOR_TRACKING\<close>: \<open>act\<close> runs while \<open>mn\<close> is on the list of tracked cursors.\<close>

definition WITH_CURSOR_TRACKING :: "world \<Rightarrow> cid \<Rightarrow> (world \<Rightarrow> (int \<times> world) option) \<Rightarrow> (int \<times> world) option" where
  "WITH_CURSOR_TRACKING w mn act = do {
     r \<leftarrow> get_cur w mn;
     let (dummy, w1) = new_cursor w;
     let (trk, w) = (if any_set (mc_flags r) C_SUB
        then (dummy, put_cur w1 dummy (blank_cursor\<lparr>mc_flags := C_INITIALIZED, mc_xcursor := Some mn\<rparr>)) else (mn, w));
     next \<leftarrow> tracked w (mc_txn r) (mc_dbi r);
     w \<leftarrow> set_tracked w (mc_txn r) (mc_dbi r) (trk # next);
     (rc, w) \<leftarrow> act w;
     w \<leftarrow> set_tracked w (mc_txn r) (mc_dbi r) next;
     Some (rc, if any_set (mc_flags r) C_SUB then drop_cursor w dummy else w) }"

text \<open>
  \<^verbatim>\<open>m3\<close> for \<^verbatim>\<open>m2\<close> in the loops over the tracked cursors: the sub-cursor if the cursor
  adjusted for is one.
\<close>

definition m3_of :: "world \<Rightarrow> bool \<Rightarrow> cid \<Rightarrow> cid option" where
  "m3_of w sub m2 = (if sub then sub_cursor w m2 else Some m2)"

definition each_tracked :: "(cid \<Rightarrow> cid \<Rightarrow> world \<Rightarrow> world option) \<Rightarrow> world \<Rightarrow> cid \<Rightarrow> world option" where
  "each_tracked f w mc = do {
     r \<leftarrow> get_cur w mc;
     ms \<leftarrow> tracked w (mc_txn r) (mc_dbi r);
     each (\<lambda>m2 w. do { m3 \<leftarrow> m3_of w (any_set (mc_flags r) C_SUB) m2; f m2 m3 w }) ms w }"

section \<open>Where to split\<close>

text \<open>The size a node adds to the page: \<open>psize\<close> after node \<open>i\<close> of the old page.\<close>

definition split_node_size :: "mem \<Rightarrow> ptr \<Rightarrow> bool \<Rightarrow> ptr \<Rightarrow> nat \<Rightarrow> nat option" where
  "split_node_size m mp leaf node psize = do {
     ks \<leftarrow> NODEKSZ m node;
     let psize = psize + NODESIZE + ks + 2;
     psize \<leftarrow> (if leaf then do {
          fl \<leftarrow> mn_flags m node;
          if F_ISSET fl F_BIGDATA then Some (psize + 8)
          else do { d \<leftarrow> NODEDSZ m node; Some (psize + d) } }
        else Some psize);
     Some (EVEN psize) }"

text \<open>
  The loop \<^verbatim>\<open>for (; i!=k; i+=j)\<close>; it makes at most \<open>|k - i|\<close> turns, the first argument.
\<close>

fun split_scan :: "nat \<Rightarrow> mem \<Rightarrow> ptr \<Rightarrow> ptr \<Rightarrow> bool \<Rightarrow> nat \<Rightarrow> nat \<Rightarrow> nat \<Rightarrow> int \<Rightarrow> int \<Rightarrow> int \<Rightarrow> nat \<Rightarrow> nat \<Rightarrow> nat option" where
  "split_scan 0 m mp cp leaf newindx nsize pmax i j k psize split_indx = Some split_indx"
| "split_scan (Suc n) m mp cp leaf newindx nsize pmax i j k psize split_indx = do {
     psize \<leftarrow> (if i = int newindx then Some (psize + nsize)
        else if i < 0 then None
        else do {
          ofs \<leftarrow> mp_ptrs m cp (nat i);
          split_node_size m mp leaf (padd mp (ofs + PAGEBASE)) psize });
     if psize > pmax \<or> i = k - j then Some (nat (i + (if j < 0 then 1 else 0)))
     else split_scan n m mp cp leaf newindx nsize pmax (i + j) j k psize split_indx }"

definition split_point :: "mem \<Rightarrow> ptr \<Rightarrow> ptr \<Rightarrow> bool \<Rightarrow> nat \<Rightarrow> nat \<Rightarrow> nat \<Rightarrow> nat \<Rightarrow> nat \<Rightarrow> nat option" where
  "split_point m mp cp leaf nkeys newindx nsize pmax split_indx =
     (if nkeys < 32 \<or> nsize > pmax div 16 \<or> newindx \<ge> nkeys then
        (let (i, j, k) =
           (if newindx \<le> split_indx \<or> newindx \<ge> nkeys then
              (0, 1, if newindx \<ge> nkeys then int nkeys else int split_indx + 1 + (if leaf then 1 else 0))
            else (int nkeys, - 1, int split_indx - 1))
         in split_scan (nat \<bar>k - i\<bar>) m mp cp leaf newindx nsize pmax i j k 0 split_indx)
      else Some split_indx)"

text \<open>The slots of the old page with an empty slot for the new node, in the copy.\<close>

fun split_slots :: "mem \<Rightarrow> ptr \<Rightarrow> ptr \<Rightarrow> nat \<Rightarrow> nat \<Rightarrow> nat \<Rightarrow> nat \<Rightarrow> mem option" where
  "split_slots m mp cp newindx 0 i j = Some m"
| "split_slots m mp cp newindx (Suc n) i j = do {
     (m, j) \<leftarrow> (if i = newindx then do { m \<leftarrow> set_mp_ptrs m cp j 0; Some (m, j + 1) } else Some (m, j));
     x \<leftarrow> mp_ptrs m mp i;
     m \<leftarrow> set_mp_ptrs m cp j x;
     split_slots m mp cp newindx n (i + 1) (j + 1) }"

text \<open>The temporary copy of a page of nodes, the split index and the separator key.\<close>

definition split_nodes ::
  "world \<Rightarrow> tid \<Rightarrow> ptr \<Rightarrow> MDB_val \<Rightarrow> MDB_val option \<Rightarrow> nat \<Rightarrow> nat \<Rightarrow> nat \<Rightarrow> (int \<times> ptr option \<times> nat \<times> MDB_val \<times> world) option" where
  "split_nodes w t mp newkey newdata newindx nkeys split_indx = do {
     let env = w_env w;
     let pmax = me_psize env - PAGEHDRSZ;
     leaf \<leftarrow> IS_LEAF (w_mem w) mp;
     nsize \<leftarrow> (if leaf then map_option (mdb_leaf_size env newkey) newdata else Some (mdb_branch_size env (Some newkey)));
     let nsize = EVEN nsize;
     (cp, w) \<leftarrow> mdb_page_malloc w t 1;
     if cp = NULL then Some (ENOMEM, None, split_indx, newkey, w)
     else do {
       pgno \<leftarrow> mp_pgno (w_mem w) mp;
       m \<leftarrow> set_mp_pgno (w_mem w) cp pgno;
       fl \<leftarrow> mp_flags m mp;
       m \<leftarrow> set_mp_flags m cp fl;
       m \<leftarrow> set_mp_lower m cp (PAGEHDRSZ - PAGEBASE);
       m \<leftarrow> set_mp_upper m cp (me_psize env - PAGEBASE);
       m \<leftarrow> split_slots m mp cp newindx nkeys 0 0;
       split_indx \<leftarrow> split_point m mp cp leaf nkeys newindx nsize pmax split_indx;
       sepkey \<leftarrow> (if split_indx = newindx then Some newkey
          else do {
            ofs \<leftarrow> mp_ptrs m cp split_indx;
            MDB_GET_KEY2 m (padd mp (ofs + PAGEBASE)) });
       Some (0, Some cp, split_indx, sepkey, w\<lparr>w_mem := m\<rparr>) } }"

text \<open>A page of fixed-size keys: move the upper half and put the new key in place.\<close>

definition split_leaf2 :: "mem \<Rightarrow> ptr \<Rightarrow> ptr \<Rightarrow> MDB_val \<Rightarrow> nat \<Rightarrow> nat \<Rightarrow> nat \<Rightarrow> nat \<Rightarrow> (MDB_val \<times> nat \<times> mem) option" where
  "split_leaf2 m mp rp newkey ksize newindx nkeys split_indx = do {
     let split = LEAF2KEY mp split_indx ksize;
     let rsize = (nkeys - split_indx) * ksize;
     let lsize = (nkeys - split_indx) * 2;
     let rptrs = padd rp PAGEHDRSZ;
     l \<leftarrow> mp_lower m mp;
     m \<leftarrow> set_mp_lower m mp (sub16 l lsize);
     l \<leftarrow> mp_lower m rp;
     m \<leftarrow> set_mp_lower m rp (l + lsize);
     u \<leftarrow> mp_upper m mp;
     m \<leftarrow> set_mp_upper m mp (sub16 (u + rsize) lsize);
     u \<leftarrow> mp_upper m rp;
     m \<leftarrow> set_mp_upper m rp (sub16 (u + lsize) rsize);
     let sepdata = (if newindx = split_indx then mv_data newkey else split);
     if newindx < split_indx then do {
       let ins = LEAF2KEY mp newindx ksize;
       m \<leftarrow> memmove m rptrs split rsize;
       m \<leftarrow> memmove m (padd ins ksize) ins ((split_indx - newindx) * ksize);
       m \<leftarrow> memmove m ins (mv_data newkey) ksize;
       l \<leftarrow> mp_lower m mp;
       m \<leftarrow> set_mp_lower m mp (l + 2);
       u \<leftarrow> mp_upper m mp;
       m \<leftarrow> set_mp_upper m mp (sub16 (u + 2) ksize);
       Some (\<lparr>mv_size = ksize, mv_data = rptrs\<rparr>, newindx, m) }
     else do {
       let x = newindx - split_indx;
       m \<leftarrow> (if x \<noteq> 0 then memmove m rptrs split (x * ksize) else Some m);
       let ins = LEAF2KEY rp x ksize;
       m \<leftarrow> memmove m ins (mv_data newkey) ksize;
       m \<leftarrow> memmove m (padd ins ksize) (padd split (x * ksize)) (rsize - x * ksize);
       l \<leftarrow> mp_lower m rp;
       m \<leftarrow> set_mp_lower m rp (l + 2);
       u \<leftarrow> mp_upper m rp;
       m \<leftarrow> set_mp_upper m rp (sub16 (u + 2) ksize);
       Some (\<lparr>mv_size = ksize, mv_data = sepdata\<rparr>, x, m) } }"

section \<open>Moving the nodes\<close>

text \<open>
  The loop under \<^verbatim>\<open>Move nodes\<close>: from \<open>split_indx\<close> to the last node into the right page, then
  from the first node into the copy, until \<open>i\<close> is back at \<open>split_indx\<close>. It makes \<open>nkeys + 1\<close>
  turns at most; the first argument counts them. \<open>newdata\<close> is returned because \<^verbatim>\<open>MDB_RESERVE\<close>
  sets its address.
\<close>

record split_env =
  sp_mp :: ptr
  sp_copy :: ptr
  sp_leaf :: bool
  sp_key :: MDB_val
  sp_pgno :: u64
  sp_nflags :: u32
  sp_newindx :: nat
  sp_indx :: nat
  sp_nkeys :: nat

definition split_move_one ::
  "split_env \<Rightarrow> world \<Rightarrow> cid \<Rightarrow> MDB_val option \<Rightarrow> nat \<Rightarrow> nat \<Rightarrow> (int \<times> MDB_val option \<times> world) option" where
  "split_move_one s w mc newdata i j = do {
     let isnew = (i = sp_newindx s);
     w \<leftarrow> (if isnew then set_top_ki w mc j else Some w);
     (rkey, rdata, pgno, flags) \<leftarrow> (if isnew
        then Some (sp_key s, if sp_leaf s then newdata else None, if sp_leaf s then 0 else sp_pgno s, sp_nflags s)
        else do {
          ofs \<leftarrow> mp_ptrs (w_mem w) (sp_copy s) i;
          let node = padd (sp_mp s) (ofs + PAGEBASE);
          rkey \<leftarrow> MDB_GET_KEY2 (w_mem w) node;
          fl \<leftarrow> mn_flags (w_mem w) node;
          if sp_leaf s then do {
            nd \<leftarrow> NODEDATA (w_mem w) node;
            sz \<leftarrow> NODEDSZ (w_mem w) node;
            Some (rkey, Some \<lparr>mv_size = sz, mv_data = nd\<rparr>, 0, fl) }
          else do {
            pgno \<leftarrow> NODEPGNO (w_mem w) node;
            Some (rkey, None, pgno, fl) } });
     let rkey = (if \<not> sp_leaf s \<and> j = 0 then rkey\<lparr>mv_size := 0\<rparr> else rkey);
     (rc, rdata, w) \<leftarrow> mdb_node_add w mc j (Some rkey) rdata pgno flags;
     Some (rc, if isnew \<and> sp_leaf s then rdata else newdata, w) }"

fun split_move :: "nat \<Rightarrow> split_env \<Rightarrow> world \<Rightarrow> cid \<Rightarrow> MDB_val option \<Rightarrow> nat \<Rightarrow> nat \<Rightarrow> (int \<times> MDB_val option \<times> world) option" where
  "split_move 0 s w mc newdata i j = None"
| "split_move (Suc n) s w mc newdata i j = do {
     (rc, newdata, w) \<leftarrow> split_move_one s w mc newdata i j;
     if rc \<noteq> 0 then Some (rc, newdata, w)
     else do {
       (i, j, w) \<leftarrow> (if i = sp_nkeys s then do {
            w \<leftarrow> set_top_pg w mc (sp_copy s);
            Some (0, 0, w) }
          else Some (i + 1, j + 1, w));
       if i \<noteq> sp_indx s then split_move n s w mc newdata i j else Some (0, newdata, w) } }"

text \<open>Slots, bounds and nodes of the copy go back to the page.\<close>

fun copy_slots :: "mem \<Rightarrow> ptr \<Rightarrow> ptr \<Rightarrow> nat \<Rightarrow> nat \<Rightarrow> mem option" where
  "copy_slots m src dst 0 i = Some m"
| "copy_slots m src dst (Suc n) i = do {
     x \<leftarrow> mp_ptrs m src i;
     m \<leftarrow> set_mp_ptrs m dst i x;
     copy_slots m src dst n (i + 1) }"

definition split_back :: "mem \<Rightarrow> ptr \<Rightarrow> ptr \<Rightarrow> nat \<Rightarrow> mem option" where
  "split_back m mp cp psize = do {
     nkeys \<leftarrow> NUMKEYS m cp;
     m \<leftarrow> copy_slots m cp mp nkeys 0;
     lower \<leftarrow> mp_lower m cp;
     m \<leftarrow> set_mp_lower m mp lower;
     upper \<leftarrow> mp_upper m cp;
     m \<leftarrow> set_mp_upper m mp upper;
     if nkeys = 0 then None
     else do {
       dst \<leftarrow> NODEPTR m mp (nkeys - 1);
       src \<leftarrow> NODEPTR m cp (nkeys - 1);
       memmove m dst src (psize - upper - PAGEBASE) } }"

text \<open>\<^verbatim>\<open>Make sure mc_ki is still valid\<close>, after the cursor has moved to the right page.\<close>

definition split_to_right :: "world \<Rightarrow> cid \<Rightarrow> cid \<Rightarrow> ptr \<Rightarrow> nat \<Rightarrow> world option" where
  "split_to_right w mc mn rp ptop = do {
     w \<leftarrow> set_top_pg w mc rp;
     k \<leftarrow> get_ki w mc ptop;
     w \<leftarrow> set_ki w mc ptop (inc16 k);
     p \<leftarrow> get_pg w mc ptop;
     q \<leftarrow> get_pg w mn ptop;
     n \<leftarrow> NUMKEYS (w_mem w) p;
     if q \<noteq> p \<and> inc16 k \<ge> n then copy_stack w mn mc (ptop + 1) else Some w }"

text \<open>After the parent has the separator: put the new node and the moved nodes in place.\<close>

definition split_insert ::
  "split_env \<Rightarrow> world \<Rightarrow> cid \<Rightarrow> cid \<Rightarrow> ptr \<Rightarrow> nat \<Rightarrow> MDB_val option \<Rightarrow> (int \<times> MDB_val option \<times> world) option" where
  "split_insert s w mc mn rp ptop newdata = do {
     r \<leftarrow> get_cur w mc;
     leaf2 \<leftarrow> IS_LEAF2 (w_mem w) (sp_mp s);
     if any_set (sp_nflags s) MDB_APPEND then do {
       w \<leftarrow> set_top_pg w mc rp;
       w \<leftarrow> set_top_ki w mc 0;
       (rc, newdata, w) \<leftarrow> mdb_node_add w mc 0 (Some (sp_key s)) newdata (sp_pgno s) (sp_nflags s);
       if rc \<noteq> 0 then Some (rc, newdata, w)
       else do {
         w \<leftarrow> copy_kis w mn mc (mc_top r);
         Some (0, newdata, w) } }
     else if \<not> leaf2 then do {
       w \<leftarrow> set_top_pg w mc rp;
       (rc, newdata, w) \<leftarrow> split_move (sp_nkeys s + 1) s w mc newdata (sp_indx s) 0;
       if rc \<noteq> 0 then Some (rc, newdata, w)
       else do {
         w \<leftarrow> mem_do w (split_back (w_mem w) (sp_mp s) (sp_copy s) (me_psize (w_env w)));
         w \<leftarrow> (if sp_newindx s < sp_indx s then set_top_pg w mc (sp_mp s) else split_to_right w mc mn rp ptop);
         if any_set (sp_nflags s) MDB_RESERVE then do {
           p \<leftarrow> top_pg w mc;
           k \<leftarrow> top_ki w mc;
           node \<leftarrow> NODEPTR (w_mem w) p k;
           fl \<leftarrow> mn_flags (w_mem w) node;
           if any_set fl F_BIGDATA then Some (0, newdata, w)
           else do {
             nd \<leftarrow> NODEDATA (w_mem w) node;
             Some (0, map_option (\<lambda>d. d\<lparr>mv_data := nd\<rparr>) newdata, w) } }
         else Some (0, newdata, w) } }
     else do {
       w \<leftarrow> (if sp_newindx s \<ge> sp_indx s then split_to_right w mc mn rp ptop else Some w);
       Some (0, newdata, w) } }"

section \<open>Adjusting the other cursors\<close>

fun shift_up_stack :: "world \<Rightarrow> cid \<Rightarrow> nat \<Rightarrow> world option" where
  "shift_up_stack w c 0 = Some w"
| "shift_up_stack w c (Suc k) = do {
     i \<leftarrow> get_ki w c k;
     w \<leftarrow> set_ki w c (Suc k) i;
     p \<leftarrow> get_pg w c k;
     w \<leftarrow> set_pg w c (Suc k) p;
     shift_up_stack w c k }"

definition split_adjust_root :: "world \<Rightarrow> cid \<Rightarrow> cid \<Rightarrow> nat \<Rightarrow> nat \<Rightarrow> world option" where
  "split_adjust_root w mc m3 new_root nkeys = do {
     w \<leftarrow> shift_up_stack w m3 (new_root + 1);
     k0 \<leftarrow> get_ki w m3 0;
     w \<leftarrow> set_ki w m3 0 (if k0 \<ge> nkeys then 1 else 0);
     p \<leftarrow> get_pg w mc 0;
     w \<leftarrow> set_pg w m3 0 p;
     upd_cur w m3 (\<lambda>c. c\<lparr>mc_snum := mc_snum c + 1, mc_top := mc_top c + 1\<rparr>) }"

definition split_adjust ::
  "split_env \<Rightarrow> cid \<Rightarrow> cid \<Rightarrow> ptr \<Rightarrow> nat \<Rightarrow> nat \<Rightarrow> bool \<Rightarrow> nat \<Rightarrow> cid \<Rightarrow> cid \<Rightarrow> world \<Rightarrow> world option" where
  "split_adjust s mc mn rp ptop new_root did_split nkeys m2 m3 w = do {
     r2 \<leftarrow> get_cur w m2;
     r3 \<leftarrow> get_cur w m3;
     p0 \<leftarrow> rd (mc_pg r3) 0;
     if m3 = mc \<or> \<not> any_set (mc_flags r2 AND mc_flags r3) C_INITIALIZED \<or> (new_root \<noteq> 0 \<and> p0 \<noteq> sp_mp s) then Some w
     else do {
       w \<leftarrow> (if new_root \<noteq> 0 then split_adjust_root w mc m3 new_root nkeys else Some w);
       r \<leftarrow> get_cur w mc;
       r3 \<leftarrow> get_cur w m3;
       let top = mc_top r;
       p3 \<leftarrow> rd (mc_pg r3) top;
       w \<leftarrow> (if mc_top r3 \<ge> top \<and> p3 = sp_mp s then do {
            k \<leftarrow> rd (mc_ki r3) top;
            let k = (if k \<ge> sp_newindx s \<and> \<not> any_set (sp_nflags s) MDB_SPLIT_REPLACE then inc16 k else k);
            w \<leftarrow> set_ki w m3 top k;
            if k \<ge> nkeys then do {
              w \<leftarrow> set_pg w m3 top rp;
              w \<leftarrow> set_ki w m3 top (k - nkeys);
              copy_stack w mn m3 top }
            else Some w }
          else do {
            q3 \<leftarrow> rd (mc_pg r3) ptop;
            q \<leftarrow> rd (mc_pg r) ptop;
            k3 \<leftarrow> rd (mc_ki r3) ptop;
            k \<leftarrow> rd (mc_ki r) ptop;
            if \<not> did_split \<and> mc_top r3 \<ge> ptop \<and> q3 = q \<and> k3 \<ge> k then set_ki w m3 ptop (inc16 k3) else Some w });
       leaf \<leftarrow> IS_LEAF (w_mem w) (sp_mp s);
       if leaf then do { p \<leftarrow> get_pg w m3 top; XCURSOR_REFRESH w m3 top p } else Some w } }"

section \<open>The split\<close>

text \<open>A new root above the page; the old depth is returned as \<open>new_root\<close>.\<close>

definition split_new_root :: "world \<Rightarrow> cid \<Rightarrow> ptr \<Rightarrow> (int \<times> nat \<times> world) option" where
  "split_new_root w mc mp = do {
     (rc, pp, w) \<leftarrow> mdb_page_new w mc P_BRANCH 1;
     if rc \<noteq> 0 then Some (rc, 0, w)
     else do {
       r \<leftarrow> get_cur w mc;
       w \<leftarrow> shift_up_stack w mc (mc_snum r);
       w \<leftarrow> set_pg w mc 0 pp;
       w \<leftarrow> set_ki w mc 0 0;
       root \<leftarrow> mp_pgno (w_mem w) pp;
       db \<leftarrow> get_db w (mc_db r);
       let new_root = unat (md_depth db);
       w \<leftarrow> upd_db w (mc_db r) (\<lambda>d. d\<lparr>md_root := root, md_depth := md_depth d + 1\<rparr>);
       pgno \<leftarrow> mp_pgno (w_mem w) mp;
       (rc, _, w) \<leftarrow> mdb_node_add w mc 0 None None pgno 0;
       if rc \<noteq> MDB_SUCCESS then do {
         p \<leftarrow> get_pg w mc 1;
         k \<leftarrow> get_ki w mc 1;
         w \<leftarrow> set_pg w mc 0 p;
         w \<leftarrow> set_ki w mc 0 k;
         w \<leftarrow> upd_db w (mc_db r) (\<lambda>d. d\<lparr>md_root := pgno, md_depth := md_depth d - 1\<rparr>);
         Some (rc, new_root, w) }
       else do {
         w \<leftarrow> upd_cur w mc (\<lambda>c. c\<lparr>mc_snum := mc_snum c + 1, mc_top := mc_top c + 1\<rparr>);
         Some (0, new_root, w) } } }"

text \<open>
  The separator goes to the parent of the right page, which may have to split itself (\<open>split\<close>).
  Returns the level of the parent, which a split of the root moves, and whether there was a split.
\<close>

definition split_parent ::
  "(world \<Rightarrow> cid \<Rightarrow> MDB_val \<Rightarrow> u64 \<Rightarrow> (int \<times> world) option) \<Rightarrow> world \<Rightarrow> cid \<Rightarrow> cid \<Rightarrow> ptr \<Rightarrow> nat \<Rightarrow> MDB_val \<Rightarrow>
   (int \<times> nat \<times> bool \<times> world) option" where
  "split_parent split w mc mn rp ptop sepkey = do {
     pp \<leftarrow> get_pg w mn ptop;
     left \<leftarrow> SIZELEFT (w_mem w) pp;
     rpno \<leftarrow> mp_pgno (w_mem w) rp;
     if left < mdb_branch_size (w_env w) (Some sepkey) then do {
       r \<leftarrow> get_cur w mc;
       w \<leftarrow> upd_cur w mn (\<lambda>c. c\<lparr>mc_snum := mc_snum c - 1, mc_top := dec16 (mc_top c)\<rparr>);
       (rc, w) \<leftarrow> WITH_CURSOR_TRACKING w mn (\<lambda>w. split w mn sepkey rpno);
       if rc \<noteq> 0 then Some (rc, ptop, True, w)
       else do {
         r' \<leftarrow> get_cur w mc;
         let ptop = (if mc_snum r' > mc_snum r then ptop + 1 else ptop);
         p \<leftarrow> get_pg w mc ptop;
         q \<leftarrow> get_pg w mn ptop;
         k \<leftarrow> get_ki w mc ptop;
         nk \<leftarrow> NUMKEYS (w_mem w) p;
         (rc, w) \<leftarrow> (if q \<noteq> p \<and> k \<ge> nk then do {
              w \<leftarrow> copy_stack w mn mc ptop;
              w \<leftarrow> set_pg w mc ptop q;
              kn \<leftarrow> get_ki w mn ptop;
              if kn \<noteq> 0 then do { w \<leftarrow> set_ki w mc ptop (kn - 1); Some (0, w) }
              else do {
                w \<leftarrow> set_ki w mc ptop kn;
                mdb_cursor_sibling w mc False } }
            else Some (0, w));
         Some (if rc = MDB_NOTFOUND then MDB_PROBLEM else rc, ptop, True, w) } }
     else do {
       w \<leftarrow> upd_cur w mn (\<lambda>c. c\<lparr>mc_top := dec16 (mc_top c)\<rparr>);
       k \<leftarrow> get_ki w mn ptop;
       (rc, _, w) \<leftarrow> mdb_node_add w mn k (Some sepkey) None rpno 0;
       w \<leftarrow> upd_cur w mn (\<lambda>c. c\<lparr>mc_top := inc16 (mc_top c)\<rparr>);
       Some (if rc = MDB_NOTFOUND then MDB_PROBLEM else rc, ptop, False, w) } }"

text \<open>The separator: the new key when appending, otherwise where the page is cut.\<close>

definition split_choose ::
  "world \<Rightarrow> cid \<Rightarrow> cid \<Rightarrow> ptr \<Rightarrow> ptr \<Rightarrow> MDB_val \<Rightarrow> MDB_val option \<Rightarrow> u32 \<Rightarrow> nat \<Rightarrow> nat \<Rightarrow>
   (int \<times> ptr option \<times> nat \<times> nat \<times> MDB_val \<times> world) option" where
  "split_choose w mc mn mp rp newkey newdata nflags newindx nkeys = do {
     r \<leftarrow> get_cur w mc;
     if any_set nflags MDB_APPEND then do {
       w \<leftarrow> set_top_ki w mn 0;
       Some (0, None, newindx, 0, newkey, w) }
     else do {
       let split_indx = (nkeys + 1) div 2;
       leaf2 \<leftarrow> IS_LEAF2 (w_mem w) rp;
       if leaf2 then do {
         db \<leftarrow> get_db w (mc_db r);
         (sepkey, ki, m) \<leftarrow> split_leaf2 (w_mem w) mp rp newkey (unat (md_pad db)) newindx nkeys split_indx;
         w \<leftarrow> set_top_ki (w\<lparr>w_mem := m\<rparr>) mc ki;
         Some (0, None, split_indx, nkeys, sepkey, w) }
       else do {
         (rc, cp, split_indx, sepkey, w) \<leftarrow> split_nodes w (mc_txn r) mp newkey newdata newindx nkeys split_indx;
         Some (rc, cp, split_indx, nkeys, sepkey, w) } } }"

text \<open>From the choice of the separator to the adjustment of the cursors.\<close>

definition split_body ::
  "(world \<Rightarrow> cid \<Rightarrow> MDB_val \<Rightarrow> u64 \<Rightarrow> (int \<times> world) option) \<Rightarrow> world \<Rightarrow> cid \<Rightarrow> cid \<Rightarrow> ptr \<Rightarrow> ptr \<Rightarrow> nat \<Rightarrow> nat \<Rightarrow>
   MDB_val \<Rightarrow> MDB_val option \<Rightarrow> u64 \<Rightarrow> u32 \<Rightarrow> nat \<Rightarrow> nat \<Rightarrow> (int \<times> MDB_val option \<times> ptr option \<times> world) option" where
  "split_body split w mc mn mp rp ptop new_root newkey newdata newpgno nflags newindx nkeys = do {
     w \<leftarrow> mdb_cursor_copy w mc mn;
     w \<leftarrow> upd_cur w mn (\<lambda>c. c\<lparr>mc_xcursor := None\<rparr>);
     w \<leftarrow> set_top_pg w mn rp;
     k \<leftarrow> get_ki w mc ptop;
     w \<leftarrow> set_ki w mn ptop (inc16 k);
     (rc, cp, split_indx, nkeys, sepkey, w) \<leftarrow> split_choose w mc mn mp rp newkey newdata nflags newindx nkeys;
     if rc \<noteq> 0 then Some (rc, newdata, cp, w)
     else do {
       (rc, ptop, did_split, w) \<leftarrow> split_parent split w mc mn rp ptop sepkey;
       if rc \<noteq> MDB_SUCCESS
       then Some (rc, newdata, cp, w)
       else do {
         leaf \<leftarrow> IS_LEAF (w_mem w) mp;
         let s = \<lparr>sp_mp = mp, sp_copy = (case cp of Some c \<Rightarrow> c | None \<Rightarrow> NULL), sp_leaf = leaf, sp_key = newkey, sp_pgno = newpgno,
           sp_nflags = nflags, sp_newindx = newindx, sp_indx = split_indx, sp_nkeys = nkeys\<rparr>;
         (rc, newdata, w) \<leftarrow> split_insert s w mc mn rp ptop newdata;
         if rc \<noteq> 0 then Some (rc, newdata, cp, w)
         else do {
           n \<leftarrow> NUMKEYS (w_mem w) mp;
           w \<leftarrow> each_tracked (split_adjust s mc mn rp ptop new_root did_split n) w mc;
           Some (0, newdata, cp, w) } } } }"

text \<open>
  \<^verbatim>\<open>mdb_page_split\<close>. The parent that has to split in turn is one level up, so the first
  argument, more than the height of the stack, never runs out.
\<close>

fun mdb_page_split ::
  "nat \<Rightarrow> world \<Rightarrow> cid \<Rightarrow> MDB_val \<Rightarrow> MDB_val option \<Rightarrow> u64 \<Rightarrow> u32 \<Rightarrow> (int \<times> MDB_val option \<times> world) option" where
  "mdb_page_split 0 w mc newkey newdata newpgno nflags = None"
| "mdb_page_split (Suc n) w mc newkey newdata newpgno nflags = do {
     mp \<leftarrow> top_pg w mc;
     newindx \<leftarrow> top_ki w mc;
     nkeys \<leftarrow> NUMKEYS (w_mem w) mp;
     fl \<leftarrow> mp_flags (w_mem w) mp;
     (rc, rp, w) \<leftarrow> mdb_page_new w mc fl 1;
     if rc \<noteq> 0 then Some (rc, newdata, w)
     else do {
       pad \<leftarrow> mp_pad (w_mem w) mp;
       w \<leftarrow> mem_do w (set_mp_pad (w_mem w) rp pad);
       r \<leftarrow> get_cur w mc;
       (rc, new_root, w) \<leftarrow> (if mc_top r < 1 then split_new_root w mc mp else Some (0, 0, w));
       let ptop = (if mc_top r < 1 then 0 else mc_top r - 1);
       (rc, newdata, cp, w) \<leftarrow> (if rc \<noteq> 0 then Some (rc, newdata, None, w)
          else do {
            let (mn, w) = new_cursor w;
            (rc, newdata, cp, w) \<leftarrow> split_body
              (\<lambda>w mn key pgno. map_option (\<lambda>(rc, _, w). (rc, w)) (mdb_page_split n w mn key None pgno 0))
              w mc mn mp rp ptop new_root newkey newdata newpgno nflags newindx nkeys;
            Some (rc, newdata, cp, drop_cursor w mn) });
       let w = (case cp of Some c \<Rightarrow> mdb_page_free w c | None \<Rightarrow> w);
       w \<leftarrow> (if rc \<noteq> 0 then txn_or_flags w (mc_txn r) MDB_TXN_ERROR else Some w);
       Some (rc, newdata, w) } }"

abbreviation (input) page_split where
  "page_split \<equiv> mdb_page_split (CURSOR_STACK + 1)"

end
