(* ===== verification/Rebalance.thy ===== *)
theory Rebalance
  imports Split
begin

text \<open>
  Keeping the tree in shape after a deletion (\<^verbatim>\<open>lmdb/mdb.c\<close>): \<^verbatim>\<open>mdb_update_key\<close>,
  \<^verbatim>\<open>mdb_node_move\<close>, \<^verbatim>\<open>mdb_page_merge\<close>, \<^verbatim>\<open>mdb_rebalance\<close> and
  \<^verbatim>\<open>mdb_cursor_del0\<close>.
\<close>

section \<open>Replacing a separator key\<close>

text \<open>The offsets up to \<open>ptr\<close> move by \<open>delta\<close>.\<close>

fun update_key_ptrs :: "mem \<Rightarrow> ptr \<Rightarrow> nat \<Rightarrow> int \<Rightarrow> nat \<Rightarrow> nat \<Rightarrow> mem option" where
  "update_key_ptrs m mp ptr delta 0 i = Some m"
| "update_key_ptrs m mp ptr delta (Suc n) i = do {
     x \<leftarrow> mp_ptrs m mp i;
     m \<leftarrow> (if x \<le> ptr then set_mp_ptrs m mp i (nat ((int x - delta) mod 2 ^ 16)) else Some m);
     update_key_ptrs m mp ptr delta n (i + 1) }"

text \<open>Make the key of the node \<open>delta\<close> bytes longer: everything up to and with its header moves down.\<close>

definition update_key_shift :: "mem \<Rightarrow> ptr \<Rightarrow> nat \<Rightarrow> int \<Rightarrow> mem option" where
  "update_key_shift m mp ptr delta = do {
     numkeys \<leftarrow> NUMKEYS m mp;
     m \<leftarrow> update_key_ptrs m mp ptr delta (numkeys mod 2 ^ 16) 0;
     upper \<leftarrow> mp_upper m mp;
     if ptr < upper \<or> int (p_off mp) + int upper < delta then None
     else do {
       let base = padd mp (upper + PAGEBASE);
       m \<leftarrow> memmove m (Ptr (p_blk mp) (nat (int (p_off base) - delta))) base (ptr - upper + NODESIZE);
       set_mp_upper m mp (nat ((int upper - delta) mod 2 ^ 16)) } }"

definition mdb_update_key :: "world \<Rightarrow> cid \<Rightarrow> MDB_val \<Rightarrow> (int \<times> world) option" where
  "mdb_update_key w mc key = do {
     indx \<leftarrow> top_ki w mc;
     mp \<leftarrow> top_pg w mc;
     node \<leftarrow> NODEPTR (w_mem w) mp indx;
     ptr \<leftarrow> mp_ptrs (w_mem w) mp indx;
     oks \<leftarrow> mn_ksize (w_mem w) node;
     let delta = int (EVEN (mv_size key)) - int (EVEN oks);
     left \<leftarrow> SIZELEFT (w_mem w) mp;
     if delta > 0 \<and> int left < delta then do {
       pgno \<leftarrow> NODEPGNO (w_mem w) node;
       w \<leftarrow> mdb_node_del w mc 0;
       (rc, _, w) \<leftarrow> page_split w mc key None pgno MDB_SPLIT_REPLACE;
       Some (rc, w) }
     else do {
       m \<leftarrow> (if delta \<noteq> 0 then update_key_shift (w_mem w) mp ptr delta else Some (w_mem w));
       node \<leftarrow> NODEPTR m mp indx;
       m \<leftarrow> set_mn_ksize m node (mv_size key);
       m \<leftarrow> (if mv_size key \<noteq> 0 then memmove m (NODEKEY node) (mv_data key) (mv_size key) else Some m);
       Some (MDB_SUCCESS, w\<lparr>w_mem := m\<rparr>) } }"

section \<open>Moving a node to a neighbour\<close>

text \<open>The key of slot \<open>i\<close> of the top page of a cursor.\<close>

definition slot_key :: "world \<Rightarrow> cid \<Rightarrow> nat \<Rightarrow> MDB_val option" where
  "slot_key w mc i = do {
     r \<leftarrow> get_cur w mc;
     mp \<leftarrow> top_pg w mc;
     db \<leftarrow> get_db w (mc_db r);
     leaf2 \<leftarrow> IS_LEAF2 (w_mem w) mp;
     key_at (w_mem w) mp leaf2 (unat (md_pad db)) i }"

text \<open>\<^verbatim>\<open>must find the lowest key below src\<close>: descend, take the first key, and come back.\<close>

definition lowest_key :: "world \<Rightarrow> cid \<Rightarrow> (int \<times> MDB_val \<times> world) option" where
  "lowest_key w mc = do {
     r \<leftarrow> get_cur w mc;
     (rc, w) \<leftarrow> mdb_page_search_lowest mdb_page_touch w mc;
     if rc \<noteq> 0 then Some (rc, \<lparr>mv_size = 0, mv_data = NULL\<rparr>, w)
     else do {
       key \<leftarrow> slot_key w mc 0;
       w \<leftarrow> upd_cur w mc (\<lambda>c. c\<lparr>mc_snum := mc_snum r, mc_top := dec16 (mc_snum r mod 2 ^ 16)\<rparr>);
       Some (0, key, w) } }"

text \<open>The key, data, page number and flags of the node to move.\<close>

definition move_source :: "world \<Rightarrow> cid \<Rightarrow> (int \<times> MDB_val \<times> MDB_val \<times> u64 \<times> u32 \<times> world) option" where
  "move_source w csrc = do {
     mp \<leftarrow> top_pg w csrc;
     ki \<leftarrow> top_ki w csrc;
     leaf2 \<leftarrow> IS_LEAF2 (w_mem w) mp;
     if leaf2 then do {
       key \<leftarrow> slot_key w csrc ki;
       Some (0, key, \<lparr>mv_size = 0, mv_data = NULL\<rparr>, 0, 0, w) }
     else do {
       srcnode \<leftarrow> NODEPTR (w_mem w) mp ki;
       srcpg \<leftarrow> NODEPGNO (w_mem w) srcnode;
       flags \<leftarrow> mn_flags (w_mem w) srcnode;
       br \<leftarrow> IS_BRANCH (w_mem w) mp;
       if odd (p_off srcnode) then None
       else do {
         (rc, key, w) \<leftarrow> (if ki = 0 \<and> br then lowest_key w csrc
            else map_option (\<lambda>k. (0, k, w)) (MDB_GET_KEY2 (w_mem w) srcnode));
         sz \<leftarrow> NODEDSZ (w_mem w) srcnode;
         nd \<leftarrow> NODEDATA (w_mem w) srcnode;
         Some (rc, key, \<lparr>mv_size = sz, mv_data = nd\<rparr>, srcpg, flags, w) } } }"

text \<open>The first branch node of the target gets the key it did not need so far.\<close>

definition move_dst_key :: "world \<Rightarrow> cid \<Rightarrow> cid \<Rightarrow> (int \<times> world) option" where
  "move_dst_key w cdst mn = do {
     mp \<leftarrow> top_pg w cdst;
     ki \<leftarrow> top_ki w cdst;
     br \<leftarrow> IS_BRANCH (w_mem w) mp;
     if br \<and> ki = 0 then do {
       w \<leftarrow> mdb_cursor_copy w cdst mn;
       (rc, bkey, w) \<leftarrow> lowest_key w mn;
       if rc \<noteq> 0 then Some (rc, w)
       else do {
         w \<leftarrow> set_top_ki w mn 0;
         mdb_update_key w mn bkey } }
     else Some (0, w) }"

text \<open>Adjusting another cursor, when the node came from the left and from the right.\<close>

definition move_adjust_left :: "cid \<Rightarrow> cid \<Rightarrow> ptr \<Rightarrow> ptr \<Rightarrow> cid \<Rightarrow> cid \<Rightarrow> world \<Rightarrow> world option" where
  "move_adjust_left csrc cdst mpd mps m2 m3 w = do {
     rs \<leftarrow> get_cur w csrc;
     r3 \<leftarrow> get_cur w m3;
     let top = mc_top rs;
     if \<not> any_set (mc_flags r3) C_INITIALIZED \<or> mc_top r3 < top then Some w
     else do {
       kd \<leftarrow> top_ki w cdst;
       p3 \<leftarrow> get_pg w m3 top;
       k3 \<leftarrow> get_ki w m3 top;
       w \<leftarrow> (if m3 \<noteq> cdst \<and> p3 = mpd \<and> k3 \<ge> kd then set_ki w m3 top (inc16 k3) else Some w);
       k3 \<leftarrow> get_ki w m3 top;
       ks \<leftarrow> top_ki w csrc;
       w \<leftarrow> (if m3 \<noteq> csrc \<and> p3 = mps \<and> k3 = ks then do {
            pd \<leftarrow> top_pg w cdst;
            w \<leftarrow> set_pg w m3 top pd;
            kd \<leftarrow> top_ki w cdst;
            w \<leftarrow> set_ki w m3 top kd;
            if top = 0 then None
            else do {
              kp \<leftarrow> get_ki w m3 (top - 1);
              set_ki w m3 (top - 1) (inc16 kp) } }
          else Some w);
       leaf \<leftarrow> IS_LEAF (w_mem w) mps;
       if leaf then do { p \<leftarrow> get_pg w m3 top; XCURSOR_REFRESH w m3 top p } else Some w } }"

definition move_adjust_right :: "cid \<Rightarrow> cid \<Rightarrow> ptr \<Rightarrow> cid \<Rightarrow> cid \<Rightarrow> world \<Rightarrow> world option" where
  "move_adjust_right csrc cdst mps m2 m3 w = do {
     rs \<leftarrow> get_cur w csrc;
     r3 \<leftarrow> get_cur w m3;
     let top = mc_top rs;
     if m3 = csrc \<or> \<not> any_set (mc_flags r3) C_INITIALIZED \<or> mc_top r3 < top then Some w
     else do {
       p3 \<leftarrow> get_pg w m3 top;
       if p3 \<noteq> mps then Some w
       else do {
         k3 \<leftarrow> get_ki w m3 top;
         w \<leftarrow> (if k3 = 0 then do {
              pd \<leftarrow> top_pg w cdst;
              w \<leftarrow> set_pg w m3 top pd;
              kd \<leftarrow> top_ki w cdst;
              w \<leftarrow> set_ki w m3 top kd;
              if top = 0 then None
              else do {
                kp \<leftarrow> get_ki w m3 (top - 1);
                set_ki w m3 (top - 1) (dec16 kp) } }
            else set_ki w m3 top (dec16 k3));
         leaf \<leftarrow> IS_LEAF (w_mem w) mps;
         if leaf then do { p \<leftarrow> get_pg w m3 top; XCURSOR_REFRESH w m3 top p } else Some w } } }"

text \<open>
  The separator of one of the two pages (\<open>c\<close>) after the move; \<open>leaf2\<close> says whether the source page
  holds fixed-size keys. \<open>key\<close> is the variable of the function, with its size.
\<close>

definition move_separator :: "world \<Rightarrow> cid \<Rightarrow> cid \<Rightarrow> bool \<Rightarrow> MDB_val \<Rightarrow> (int \<times> MDB_val \<times> world) option" where
  "move_separator w c mn leaf2 key = do {
     r \<leftarrow> get_cur w c;
     ki \<leftarrow> top_ki w c;
     if ki \<noteq> 0 then Some (0, key, w)
     else do {
       kp \<leftarrow> (if mc_top r = 0 then None else rd (mc_ki r) (mc_top r - 1));
       (rc, key, w) \<leftarrow> (if kp \<noteq> 0 then do {
            mp \<leftarrow> top_pg w c;
            key \<leftarrow> (if leaf2 then Some (key\<lparr>mv_data := LEAF2KEY mp 0 (mv_size key)\<rparr>)
               else do { node \<leftarrow> NODEPTR (w_mem w) mp 0; MDB_GET_KEY2 (w_mem w) node });
            w \<leftarrow> mdb_cursor_copy w c mn;
            w \<leftarrow> upd_cur w mn (\<lambda>x. x\<lparr>mc_snum := mc_snum x - 1, mc_top := dec16 (mc_top x)\<rparr>);
            (rc, w) \<leftarrow> WITH_CURSOR_TRACKING w mn (\<lambda>w. mdb_update_key w mn key);
            Some (rc, key, w) }
          else Some (0, key, w));
       if rc \<noteq> 0 then Some (rc, key, w)
       else do {
         mp \<leftarrow> top_pg w c;
         br \<leftarrow> IS_BRANCH (w_mem w) mp;
         if br then do {
           ix \<leftarrow> top_ki w c;
           w \<leftarrow> set_top_ki w c 0;
           (rc, w) \<leftarrow> mdb_update_key w c \<lparr>mv_size = 0, mv_data = NULL\<rparr>;
           w \<leftarrow> set_top_ki w c ix;
           if rc \<noteq> MDB_SUCCESS then None else Some (0, key, w) }
         else Some (0, key, w) } } }"

definition move_body :: "world \<Rightarrow> cid \<Rightarrow> cid \<Rightarrow> cid \<Rightarrow> bool \<Rightarrow> (int \<times> world) option" where
  "move_body w csrc cdst mn fromleft = do {
     (rc, key, data, srcpg, flags, w) \<leftarrow> move_source w csrc;
     if rc \<noteq> 0 then Some (rc, w)
     else do {
       w \<leftarrow> upd_cur w mn (\<lambda>c. c\<lparr>mc_xcursor := None\<rparr>);
       (rc, w) \<leftarrow> move_dst_key w cdst mn;
       if rc \<noteq> 0 then Some (rc, w)
       else do {
         kd \<leftarrow> top_ki w cdst;
         (rc, _, w) \<leftarrow> mdb_node_add w cdst kd (Some key) (Some data) srcpg flags;
         if rc \<noteq> MDB_SUCCESS then Some (rc, w)
         else do {
           w \<leftarrow> mdb_node_del w csrc (mv_size key);
           rs \<leftarrow> get_cur w csrc;
           mps \<leftarrow> top_pg w csrc;
           mpd \<leftarrow> get_pg w cdst (mc_top rs);
           w \<leftarrow> each_tracked (if fromleft then move_adjust_left csrc cdst mpd mps else move_adjust_right csrc cdst mps) w csrc;
           leaf2 \<leftarrow> IS_LEAF2 (w_mem w) mps;
           (rc, key, w) \<leftarrow> move_separator w csrc mn leaf2 key;
           if rc \<noteq> 0 then Some (rc, w)
           else do {
             mps \<leftarrow> top_pg w csrc;
             leaf2 \<leftarrow> IS_LEAF2 (w_mem w) mps;
             (rc, key, w) \<leftarrow> move_separator w cdst mn leaf2 key;
             Some (rc, w) } } } } }"

definition mdb_node_move :: "world \<Rightarrow> cid \<Rightarrow> cid \<Rightarrow> bool \<Rightarrow> (int \<times> world) option" where
  "mdb_node_move w csrc cdst fromleft =
     and_then (mdb_page_touch w csrc) (\<lambda>w.
     and_then (mdb_page_touch w cdst) (\<lambda>w. do {
       let (mn, w) = new_cursor w;
       (rc, w) \<leftarrow> move_body w csrc cdst mn fromleft;
       Some (rc, drop_cursor w mn) }))"

section \<open>Merging a page into a neighbour\<close>

text \<open>The lowest key below a branch page, found by a copy of the cursor.\<close>

definition merge_lowest :: "world \<Rightarrow> cid \<Rightarrow> (int \<times> MDB_val \<times> world) option" where
  "merge_lowest w csrc = do {
     let (mn, w) = new_cursor w;
     w \<leftarrow> mdb_cursor_copy w csrc mn;
     w \<leftarrow> upd_cur w mn (\<lambda>c. c\<lparr>mc_xcursor := None\<rparr>);
     (rc, w) \<leftarrow> mdb_page_search_lowest mdb_page_touch w mn;
     if rc \<noteq> 0 then Some (rc, \<lparr>mv_size = 0, mv_data = NULL\<rparr>, drop_cursor w mn)
     else do {
       key \<leftarrow> slot_key w mn 0;
       Some (0, key, drop_cursor w mn) } }"

fun merge_leaf2 :: "world \<Rightarrow> cid \<Rightarrow> ptr \<Rightarrow> nat \<Rightarrow> nat \<Rightarrow> nat \<Rightarrow> nat \<Rightarrow> (int \<times> world) option" where
  "merge_leaf2 w cdst psrc ksize 0 i j = Some (MDB_SUCCESS, w)"
| "merge_leaf2 w cdst psrc ksize (Suc n) i j = do {
     (rc, _, w) \<leftarrow> mdb_node_add w cdst j (Some \<lparr>mv_size = ksize, mv_data = LEAF2KEY psrc i ksize\<rparr>) None 0 0;
     if rc \<noteq> MDB_SUCCESS then Some (rc, w)
     else merge_leaf2 w cdst psrc ksize n (i + 1) (j + 1) }"

fun merge_nodes :: "world \<Rightarrow> cid \<Rightarrow> cid \<Rightarrow> ptr \<Rightarrow> bool \<Rightarrow> nat \<Rightarrow> nat \<Rightarrow> nat \<Rightarrow> (int \<times> world) option" where
  "merge_nodes w csrc cdst psrc br 0 i j = Some (MDB_SUCCESS, w)"
| "merge_nodes w csrc cdst psrc br (Suc n) i j = do {
     srcnode \<leftarrow> NODEPTR (w_mem w) psrc i;
     (rc, key, w) \<leftarrow> (if i = 0 \<and> br then merge_lowest w csrc
        else map_option (\<lambda>k. (0, k, w)) (MDB_GET_KEY2 (w_mem w) srcnode));
     if rc \<noteq> 0 then Some (rc, w)
     else do {
       sz \<leftarrow> NODEDSZ (w_mem w) srcnode;
       nd \<leftarrow> NODEDATA (w_mem w) srcnode;
       pgno \<leftarrow> NODEPGNO (w_mem w) srcnode;
       fl \<leftarrow> mn_flags (w_mem w) srcnode;
       (rc, _, w) \<leftarrow> mdb_node_add w cdst j (Some key) (Some \<lparr>mv_size = sz, mv_data = nd\<rparr>) pgno fl;
       if rc \<noteq> MDB_SUCCESS then Some (rc, w)
       else merge_nodes w csrc cdst psrc br n (i + 1) (j + 1) } }"

text \<open>Move every node of the source page behind those of the target page.\<close>

definition merge_move :: "world \<Rightarrow> cid \<Rightarrow> cid \<Rightarrow> ptr \<Rightarrow> nat \<Rightarrow> (int \<times> world) option" where
  "merge_move w csrc cdst psrc nkeys = do {
     n \<leftarrow> NUMKEYS (w_mem w) psrc;
     leaf2 \<leftarrow> IS_LEAF2 (w_mem w) psrc;
     br \<leftarrow> IS_BRANCH (w_mem w) psrc;
     if leaf2 then do {
       r \<leftarrow> get_cur w csrc;
       db \<leftarrow> get_db w (mc_db r);
       merge_leaf2 w cdst psrc (unat (md_pad db)) n 0 nkeys }
     else merge_nodes w csrc cdst psrc br n 0 nkeys }"

text \<open>Unlink the source page from its parent.\<close>

definition merge_unlink :: "world \<Rightarrow> cid \<Rightarrow> (int \<times> world) option" where
  "merge_unlink w csrc = do {
     w \<leftarrow> upd_cur w csrc (\<lambda>c. c\<lparr>mc_top := dec16 (mc_top c)\<rparr>);
     w \<leftarrow> mdb_node_del w csrc 0;
     ki \<leftarrow> top_ki w csrc;
     (rc, w) \<leftarrow> (if ki = 0 then mdb_update_key w csrc \<lparr>mv_size = 0, mv_data = NULL\<rparr> else Some (0, w));
     w \<leftarrow> upd_cur w csrc (\<lambda>c. c\<lparr>mc_top := inc16 (mc_top c)\<rparr>);
     Some (rc, w) }"

definition merge_adjust :: "cid \<Rightarrow> cid \<Rightarrow> ptr \<Rightarrow> ptr \<Rightarrow> nat \<Rightarrow> cid \<Rightarrow> cid \<Rightarrow> world \<Rightarrow> world option" where
  "merge_adjust csrc cdst psrc pdst nkeys m2 m3 w = do {
     r \<leftarrow> get_cur w csrc;
     r3 \<leftarrow> get_cur w m3;
     let top = mc_top r;
     if m3 = csrc \<or> mc_snum r3 < mc_snum r then Some w
     else if top = 0 then None
     else do {
       p3 \<leftarrow> get_pg w m3 top;
       w \<leftarrow> (if p3 = psrc then do {
            w \<leftarrow> set_pg w m3 top pdst;
            k3 \<leftarrow> get_ki w m3 top;
            w \<leftarrow> set_ki w m3 top ((k3 + nkeys) mod 2 ^ 16);
            kd \<leftarrow> get_ki w cdst (top - 1);
            set_ki w m3 (top - 1) kd }
          else do {
            q3 \<leftarrow> get_pg w m3 (top - 1);
            q \<leftarrow> get_pg w csrc (top - 1);
            k3 \<leftarrow> get_ki w m3 (top - 1);
            k \<leftarrow> get_ki w csrc (top - 1);
            if q3 = q \<and> k3 > k then set_ki w m3 (top - 1) (k3 - 1) else Some w });
       leaf \<leftarrow> IS_LEAF (w_mem w) psrc;
       if leaf then do { p \<leftarrow> get_pg w m3 top; XCURSOR_REFRESH w m3 top p } else Some w } }"

text \<open>Rebalance the parent, and keep the cursor's stack in step with the height of the tree.\<close>

definition merge_parent :: "(world \<Rightarrow> cid \<Rightarrow> (int \<times> world) option) \<Rightarrow> world \<Rightarrow> cid \<Rightarrow> (int \<times> world) option" where
  "merge_parent rebalance w cdst = do {
     r \<leftarrow> get_cur w cdst;
     db \<leftarrow> get_db w (mc_db r);
     w \<leftarrow> mdb_cursor_pop w cdst;
     (rc, w) \<leftarrow> rebalance w cdst;
     db' \<leftarrow> get_db w (mc_db r);
     let snum = nat ((int (mc_snum r) + int (unat (md_depth db')) - int (unat (md_depth db))) mod 2 ^ 16);
     w \<leftarrow> upd_cur w cdst (\<lambda>c. c\<lparr>mc_snum := snum, mc_top := dec16 snum\<rparr>);
     Some (rc, w) }"

text \<open>\<^verbatim>\<open>mdb_page_merge\<close>; \<^verbatim>\<open>mdb_rebalance\<close>, which it calls, is an argument.\<close>

definition mdb_page_merge :: "(world \<Rightarrow> cid \<Rightarrow> (int \<times> world) option) \<Rightarrow> world \<Rightarrow> cid \<Rightarrow> cid \<Rightarrow> (int \<times> world) option" where
  "mdb_page_merge rebalance w csrc cdst = do {
     psrc \<leftarrow> top_pg w csrc;
     rs \<leftarrow> get_cur w csrc;
     rdst \<leftarrow> get_cur w cdst;
     if \<not> mc_snum rs > 1 \<or> \<not> mc_snum rdst > 1 then None
     else and_then (mdb_page_touch w cdst) (\<lambda>w. do {
       pdst \<leftarrow> top_pg w cdst;
       nkeys \<leftarrow> NUMKEYS (w_mem w) pdst;
       and_then (merge_move w csrc cdst psrc nkeys) (\<lambda>w.
       and_then (merge_unlink w csrc) (\<lambda>w. do {
         psrc \<leftarrow> top_pg w csrc;
         and_then (mdb_page_loose w csrc psrc) (\<lambda>w. do {
           leaf \<leftarrow> IS_LEAF (w_mem w) psrc;
           w \<leftarrow> upd_db w (mc_db rs) (\<lambda>d. if leaf then d\<lparr>md_leaf_pages := md_leaf_pages d - 1\<rparr>
                  else d\<lparr>md_branch_pages := md_branch_pages d - 1\<rparr>);
           w \<leftarrow> each_tracked (merge_adjust csrc cdst psrc pdst nkeys) w csrc;
           merge_parent rebalance w cdst }) })) }) }"

section \<open>Rebalancing\<close>

definition rebalance_empty_adjust :: "cid \<Rightarrow> ptr \<Rightarrow> cid \<Rightarrow> cid \<Rightarrow> world \<Rightarrow> world option" where
  "rebalance_empty_adjust mc mp m2 m3 w = do {
     r \<leftarrow> get_cur w mc;
     r3 \<leftarrow> get_cur w m3;
     if \<not> any_set (mc_flags r3) C_INITIALIZED \<or> mc_snum r3 < mc_snum r then Some w
     else do {
       p \<leftarrow> rd (mc_pg r3) 0;
       if p = mp then upd_cur w m3 (\<lambda>c. c\<lparr>mc_snum := 0, mc_top := 0, mc_flags := clear (mc_flags c) C_INITIALIZED\<rparr>)
       else Some w } }"

text \<open>The root is an empty leaf: the tree becomes empty.\<close>

definition rebalance_empty :: "world \<Rightarrow> cid \<Rightarrow> ptr \<Rightarrow> (int \<times> world) option" where
  "rebalance_empty w mc mp = do {
     r \<leftarrow> get_cur w mc;
     w \<leftarrow> upd_db w (mc_db r) (\<lambda>d. d\<lparr>md_root := P_INVALID, md_depth := 0, md_leaf_pages := 0\<rparr>);
     pgno \<leftarrow> mp_pgno (w_mem w) mp;
     and_then (free_pgs_do w (mc_txn r) (\<lambda>h b. mdb_midl_append h b pgno)) (\<lambda>w. do {
       w \<leftarrow> upd_cur w mc (\<lambda>c. c\<lparr>mc_snum := 0, mc_top := 0, mc_flags := clear (mc_flags c) C_INITIALIZED\<rparr>);
       w \<leftarrow> each_tracked (rebalance_empty_adjust mc mp) w mc;
       Some (MDB_SUCCESS, w) }) }"

text \<open>Entries \<open>i + 1 \<dots>\<close> of a stack move down by one, \<open>n\<close> of them.\<close>

fun shift_down_stack :: "world \<Rightarrow> cid \<Rightarrow> nat \<Rightarrow> nat \<Rightarrow> world option" where
  "shift_down_stack w c 0 i = Some w"
| "shift_down_stack w c (Suc n) i = do {
     p \<leftarrow> get_pg w c (i + 1);
     w \<leftarrow> set_pg w c i p;
     k \<leftarrow> get_ki w c (i + 1);
     w \<leftarrow> set_ki w c i k;
     shift_down_stack w c n (i + 1) }"

definition rebalance_collapse_adjust :: "cid \<Rightarrow> ptr \<Rightarrow> nat \<Rightarrow> cid \<Rightarrow> cid \<Rightarrow> world \<Rightarrow> world option" where
  "rebalance_collapse_adjust mc mp depth m2 m3 w = do {
     r3 \<leftarrow> get_cur w m3;
     if m3 = mc \<or> \<not> any_set (mc_flags r3) C_INITIALIZED then Some w
     else do {
       p \<leftarrow> rd (mc_pg r3) 0;
       if p = mp then do {
         w \<leftarrow> shift_down_stack w m3 depth 0;
         upd_cur w m3 (\<lambda>c. c\<lparr>mc_snum := dec16 (mc_snum c), mc_top := dec16 (mc_top c)\<rparr>) }
       else Some w } }"

text \<open>The root is a branch with one child: the child becomes the root.\<close>

definition rebalance_collapse :: "world \<Rightarrow> cid \<Rightarrow> ptr \<Rightarrow> (int \<times> world) option" where
  "rebalance_collapse w mc mp = do {
     r \<leftarrow> get_cur w mc;
     pgno \<leftarrow> mp_pgno (w_mem w) mp;
     and_then (free_pgs_do w (mc_txn r) (\<lambda>h b. mdb_midl_append h b pgno)) (\<lambda>w. do {
       node \<leftarrow> NODEPTR (w_mem w) mp 0;
       root \<leftarrow> NODEPGNO (w_mem w) node;
       w \<leftarrow> upd_db w (mc_db r) (\<lambda>d. d\<lparr>md_root := root\<rparr>);
       (rc, p, _, w) \<leftarrow> mdb_page_get w mc root;
       if rc \<noteq> 0 then Some (rc, w)
       else do {
         w \<leftarrow> set_pg w mc 0 p;
         w \<leftarrow> upd_db w (mc_db r) (\<lambda>d. d\<lparr>md_depth := md_depth d - 1, md_branch_pages := md_branch_pages d - 1\<rparr>);
         k \<leftarrow> get_ki w mc 1;
         w \<leftarrow> set_ki w mc 0 k;
         db \<leftarrow> get_db w (mc_db r);
         let depth = unat (md_depth db);
         w \<leftarrow> shift_down_stack w mc (depth - 1) 1;
         w \<leftarrow> each_tracked (rebalance_collapse_adjust mc mp depth) w mc;
         Some (MDB_SUCCESS, w) } }) }"

definition rebalance_root :: "world \<Rightarrow> cid \<Rightarrow> (int \<times> world) option" where
  "rebalance_root w mc = do {
     mp \<leftarrow> get_pg w mc 0;
     subp \<leftarrow> IS_SUBP (w_mem w) mp;
     n \<leftarrow> NUMKEYS (w_mem w) mp;
     br \<leftarrow> IS_BRANCH (w_mem w) mp;
     if subp then Some (MDB_SUCCESS, w)
     else if n = 0 then rebalance_empty w mc mp
     else if br \<and> n = 1 then rebalance_collapse w mc mp
     else Some (MDB_SUCCESS, w) }"

text \<open>Whether the page of a cursor is full enough and has more than \<open>minkeys\<close> keys.\<close>

definition page_above :: "world \<Rightarrow> cid \<Rightarrow> nat \<Rightarrow> nat \<Rightarrow> bool option" where
  "page_above w c thresh minkeys = do {
     p \<leftarrow> top_pg w c;
     fill \<leftarrow> PAGEFILL (w_env w) (w_mem w) p;
     n \<leftarrow> NUMKEYS (w_mem w) p;
     Some (fill \<ge> int thresh \<and> n > minkeys) }"

text \<open>
  Point \<open>mn\<close>, a copy of the cursor, at the neighbour: the right one for the leftmost child, the
  left one otherwise.
\<close>

definition rebalance_neighbour :: "world \<Rightarrow> cid \<Rightarrow> cid \<Rightarrow> nat \<Rightarrow> bool \<Rightarrow> (int \<times> world) option" where
  "rebalance_neighbour w mc mn ptop fromleft = do {
     k \<leftarrow> get_ki w mn ptop;
     let k = (if fromleft then dec16 k else inc16 k);
     w \<leftarrow> set_ki w mn ptop k;
     parent \<leftarrow> get_pg w mc ptop;
     node \<leftarrow> NODEPTR (w_mem w) parent k;
     pgno \<leftarrow> NODEPGNO (w_mem w) node;
     (rc, p, _, w) \<leftarrow> mdb_page_get w mc pgno;
     if rc \<noteq> 0 then Some (rc, w)
     else do {
       w \<leftarrow> set_top_pg w mn p;
       mp \<leftarrow> top_pg w mc;
       nm \<leftarrow> NUMKEYS (w_mem w) mp;
       nn \<leftarrow> NUMKEYS (w_mem w) p;
       w \<leftarrow> set_top_ki w mn (if fromleft then dec16 (nn mod 2 ^ 16) else 0);
       w \<leftarrow> set_top_ki w mc (if fromleft then 0 else nm mod 2 ^ 16);
       Some (0, w) } }"

text \<open>Move one node from the neighbour, or merge the two; returns the new index of the cursor.\<close>

definition rebalance_with ::
  "(world \<Rightarrow> cid \<Rightarrow> (int \<times> world) option) \<Rightarrow> world \<Rightarrow> cid \<Rightarrow> cid \<Rightarrow> bool \<Rightarrow> nat \<Rightarrow> nat \<Rightarrow> nat \<Rightarrow> (int \<times> nat \<times> world) option" where
  "rebalance_with rebalance w mc mn fromleft thresh minkeys oldki = do {
     above \<leftarrow> page_above w mn thresh minkeys;
     if above then do {
       (rc, w) \<leftarrow> mdb_node_move w mn mc fromleft;
       Some (rc, if fromleft then inc16 oldki else oldki, w) }
     else do {
       (rc, oldki, w) \<leftarrow> (if \<not> fromleft then do {
            (rc, w) \<leftarrow> mdb_page_merge rebalance w mn mc;
            Some (rc, oldki, w) }
          else do {
            p \<leftarrow> top_pg w mn;
            nn \<leftarrow> NUMKEYS (w_mem w) p;
            rn \<leftarrow> get_cur w mn;
            kn \<leftarrow> top_ki w mn;
            km \<leftarrow> get_ki w mc (mc_top rn);
            w \<leftarrow> set_top_ki w mn ((kn + km + 1) mod 2 ^ 16);
            (rc, w) \<leftarrow> WITH_CURSOR_TRACKING w mn (\<lambda>w. mdb_page_merge rebalance w mc mn);
            w \<leftarrow> mdb_cursor_copy w mn mc;
            Some (rc, (oldki + nn) mod 2 ^ 16, w) });
       w \<leftarrow> clear_flags w mc C_EOF;
       Some (rc, oldki, w) } }"

text \<open>
  \<^verbatim>\<open>mdb_rebalance\<close>. A merge rebalances the parent, one level up, so the first argument, more
  than the height of the stack, never runs out.
\<close>

fun rebalance_fuel :: "nat \<Rightarrow> world \<Rightarrow> cid \<Rightarrow> (int \<times> world) option" where
  "rebalance_fuel 0 w mc = None"
| "rebalance_fuel (Suc d) w mc = do {
     mp \<leftarrow> top_pg w mc;
     br \<leftarrow> IS_BRANCH (w_mem w) mp;
     let minkeys = (if br then 2 else 1);
     let thresh = (if br then 1 else FILL_THRESHOLD);
     above \<leftarrow> page_above w mc thresh (minkeys - 1);
     r \<leftarrow> get_cur w mc;
     if above then Some (MDB_SUCCESS, w)
     else if mc_snum r < 2 then rebalance_root w mc
     else if mc_top r = 0 then None
     else do {
       let ptop = mc_top r - 1;
       parent \<leftarrow> get_pg w mc ptop;
       n \<leftarrow> NUMKEYS (w_mem w) parent;
       if \<not> n > 1 then None
       else do {
         let (mn, w) = new_cursor w;
         w \<leftarrow> mdb_cursor_copy w mc mn;
         w \<leftarrow> upd_cur w mn (\<lambda>c. c\<lparr>mc_xcursor := None\<rparr>);
         oldki \<leftarrow> top_ki w mc;
         k \<leftarrow> get_ki w mc ptop;
         let fromleft = (k \<noteq> 0);
         (rc, w) \<leftarrow> rebalance_neighbour w mc mn ptop fromleft;
         if rc \<noteq> 0 then Some (rc, drop_cursor w mn)
         else do {
           (rc, oldki, w) \<leftarrow> rebalance_with (rebalance_fuel d) w mc mn fromleft thresh minkeys oldki;
           w \<leftarrow> set_top_ki w mc oldki;
           Some (rc, drop_cursor w mn) } } } }"

definition mdb_rebalance :: "world \<Rightarrow> cid \<Rightarrow> (int \<times> world) option" where
  "mdb_rebalance w mc = rebalance_fuel (CURSOR_STACK + 1) w mc"

section \<open>Completing a deletion\<close>

text \<open>The other cursors on the page, after the node at \<open>ki\<close> is gone.\<close>

definition del0_adjust :: "cid \<Rightarrow> ptr \<Rightarrow> nat \<Rightarrow> cid \<Rightarrow> cid \<Rightarrow> world \<Rightarrow> world option" where
  "del0_adjust mc mp ki m2 m3 w = do {
     r \<leftarrow> get_cur w mc;
     r2 \<leftarrow> get_cur w m2;
     r3 \<leftarrow> get_cur w m3;
     if \<not> any_set (mc_flags r2 AND mc_flags r3) C_INITIALIZED \<or> m3 = mc \<or> mc_snum r3 < mc_snum r then Some w
     else do {
       p3 \<leftarrow> rd (mc_pg r3) (mc_top r);
       k3 \<leftarrow> rd (mc_ki r3) (mc_top r);
       if p3 \<noteq> mp then Some w
       else if k3 = ki then do {
         w \<leftarrow> or_flags w m3 C_DEL;
         db \<leftarrow> get_db w (mc_db r);
         if any_set (md_flags db) MDB_DUPSORT then do {
           x \<leftarrow> mc_xcursor r3;
           clear_flags w x (C_INITIALIZED OR C_EOF) }
         else Some w }
       else do {
         w \<leftarrow> (if k3 > ki then set_ki w m3 (mc_top r) (k3 - 1) else Some w);
         XCURSOR_REFRESH w m3 (mc_top r) mp } } }"

text \<open>The sub-cursor of a cursor whose node has moved.\<close>

definition del0_sub :: "world \<Rightarrow> cid \<Rightarrow> world option" where
  "del0_sub w m3 = do {
     p \<leftarrow> top_pg w m3;
     k \<leftarrow> top_ki w m3;
     node \<leftarrow> NODEPTR (w_mem w) p k;
     fl \<leftarrow> mn_flags (w_mem w) node;
     if any_set fl F_DUPDATA then do {
       r3 \<leftarrow> get_cur w m3;
       x \<leftarrow> mc_xcursor r3;
       xr \<leftarrow> get_cur w x;
       if any_set (mc_flags xr) C_INITIALIZED then
         (if \<not> any_set fl F_SUBDATA then do {
            nd \<leftarrow> NODEDATA (w_mem w) node;
            set_pg w x 0 nd }
          else Some w)
       else do {
         w \<leftarrow> mdb_xcursor_init1 w m3 node;
         or_flags w x C_DEL } }
     else Some w }"

text \<open>A cursor on the page after rebalancing; past the last node it moves to the next page.\<close>

definition del0_next :: "cid \<Rightarrow> ptr \<Rightarrow> nat \<Rightarrow> cid \<Rightarrow> cid \<Rightarrow> world \<Rightarrow> (int \<times> world) option" where
  "del0_next mc mp nkeys m2 m3 w = do {
     r \<leftarrow> get_cur w mc;
     r2 \<leftarrow> get_cur w m2;
     r3 \<leftarrow> get_cur w m3;
     if \<not> any_set (mc_flags r2 AND mc_flags r3) C_INITIALIZED \<or> mc_snum r3 < mc_snum r then Some (0, w)
     else do {
       p3 \<leftarrow> rd (mc_pg r3) (mc_top r);
       k3 \<leftarrow> rd (mc_ki r3) (mc_top r);
       k \<leftarrow> rd (mc_ki r) (mc_top r);
       if p3 \<noteq> mp \<or> k3 < k then Some (0, w)
       else do {
         (rc, w) \<leftarrow> (if k3 \<ge> nkeys then mdb_cursor_sibling w m3 True else Some (0, w));
         if rc = MDB_NOTFOUND then do {
           w \<leftarrow> or_flags w m3 C_EOF;
           Some (MDB_SUCCESS, w) }
         else do {
           db \<leftarrow> get_db w (mc_db r);
           w \<leftarrow> (if any_set (md_flags db) MDB_DUPSORT then del0_sub w m3 else Some w);
           Some (rc, w) } } } }"

text \<open>The loop over the tracked cursors, which ends at the first error.\<close>

fun del0_nexts :: "cid \<Rightarrow> ptr \<Rightarrow> nat \<Rightarrow> bool \<Rightarrow> cid list \<Rightarrow> world \<Rightarrow> (int \<times> world) option" where
  "del0_nexts mc mp nkeys sub [] w = Some (0, w)"
| "del0_nexts mc mp nkeys sub (m2 # ms) w = do {
     m3 \<leftarrow> m3_of w sub m2;
     and_then (del0_next mc mp nkeys m2 m3 w) (del0_nexts mc mp nkeys sub ms) }"

definition del0_finish :: "world \<Rightarrow> cid \<Rightarrow> (int \<times> world) option" where
  "del0_finish w mc = do {
     r \<leftarrow> get_cur w mc;
     mp \<leftarrow> top_pg w mc;
     nkeys \<leftarrow> NUMKEYS (w_mem w) mp;
     ms \<leftarrow> tracked w (mc_txn r) (mc_dbi r);
     (rc, w) \<leftarrow> del0_nexts mc mp nkeys (any_set (mc_flags r) C_SUB) ms w;
     w \<leftarrow> or_flags w mc C_DEL;
     Some (rc, w) }"

definition mdb_cursor_del0 :: "world \<Rightarrow> cid \<Rightarrow> (int \<times> world) option" where
  "mdb_cursor_del0 w mc = do {
     r \<leftarrow> get_cur w mc;
     ki \<leftarrow> top_ki w mc;
     mp \<leftarrow> top_pg w mc;
     db \<leftarrow> get_db w (mc_db r);
     w \<leftarrow> mdb_node_del w mc (unat (md_pad db));
     w \<leftarrow> upd_db w (mc_db r) (\<lambda>d. d\<lparr>md_entries := md_entries d - 1\<rparr>);
     w \<leftarrow> each_tracked (del0_adjust mc mp ki) w mc;
     (rc, w) \<leftarrow> mdb_rebalance w mc;
     r \<leftarrow> get_cur w mc;
     if rc = MDB_SUCCESS \<and> mc_snum r = 0 then Some (rc, w)
     else do {
       (rc, w) \<leftarrow> (if rc = MDB_SUCCESS then del0_finish w mc else Some (rc, w));
       w \<leftarrow> (if rc \<noteq> 0 then txn_or_flags w (mc_txn r) MDB_TXN_ERROR else Some w);
       Some (rc, w) } }"

end
