(* ===== verification/Put.thy ===== *)
theory Put
  imports Rebalance
begin

text \<open>
  Writing an item (\<^verbatim>\<open>lmdb/mdb.c\<close>): \<^verbatim>\<open>mdb_cursor_put\<close> and \<^verbatim>\<open>mdb_put\<close>. The function of
  the source is one body with the labels \<^verbatim>\<open>fix_parent\<close>, \<^verbatim>\<open>more\<close>, \<^verbatim>\<open>prep_subDB\<close>,
  \<^verbatim>\<open>current\<close>, \<^verbatim>\<open>new_sub\<close>, \<^verbatim>\<open>put_sub\<close> and \<^verbatim>\<open>bad_sub\<close>; there is one definition per
  label, and the variables that live across labels are a record. The second element of the data
  array of \<^verbatim>\<open>MDB_MULTIPLE\<close>, of which only the size is used, is a number.
\<close>

abbreviation (input) MDB_NO_ROOT :: int where "MDB_NO_ROOT \<equiv> MDB_LAST_ERRCODE + 10"
abbreviation (input) MDB_NOSPILL :: u32 where "MDB_NOSPILL \<equiv> 0x8000"
abbreviation (input) ENV_MAXKEY :: nat where "ENV_MAXKEY \<equiv> 511"
abbreviation (input) MAXDATASIZE :: nat where "MAXDATASIZE \<equiv> 0xffffffff"

text \<open>\<^verbatim>\<open>fp+1\<close> for a page pointer.\<close>

abbreviation (input) PAGE_STRUCT :: nat where "PAGE_STRUCT \<equiv> 24"

abbreviation (input) no_val :: MDB_val where
  "no_val \<equiv> \<lparr>mv_size = 0, mv_data = NULL\<rparr>"

text \<open>
  The variables: data and the size of its second element, flags, \<^verbatim>\<open>insert_key\<close> and
  \<^verbatim>\<open>insert_data\<close>, \<^verbatim>\<open>dkey\<close>, \<^verbatim>\<open>xdata\<close>, \<^verbatim>\<open>do_sub\<close>, \<^verbatim>\<open>sub_root\<close>, \<^verbatim>\<open>mcount\<close>, \<^verbatim>\<open>dcount\<close>, and the
  addresses of the variable \<^verbatim>\<open>dummy\<close> and of the empty string.
\<close>

record put_locals =
  pl_data :: MDB_val
  pl_data1 :: nat
  pl_flags :: u32
  pl_insert_key :: bool
  pl_insert_data :: bool
  pl_dkey :: MDB_val
  pl_xdata :: MDB_val
  pl_do_sub :: bool
  pl_sub_root :: "ptr option"
  pl_mcount :: nat
  pl_dcount :: nat
  pl_dummy :: ptr
  pl_empty :: ptr

text \<open>Where control goes next: return, \<^verbatim>\<open>new_sub\<close> with \<^verbatim>\<open>rdata = &xdata\<close> or not, \<^verbatim>\<open>put_sub\<close>.\<close>

datatype put_next = Ret int | New_sub bool | Put_sub

type_synonym put_step = "(put_next \<times> put_locals \<times> world) option"

text \<open>Results of the function: return code, data, size of the second element, state.\<close>

type_synonym put_result = "(int \<times> MDB_val \<times> nat \<times> world) option"
type_synonym put_fun = "world \<Rightarrow> cid \<Rightarrow> MDB_val \<Rightarrow> MDB_val \<Rightarrow> u32 \<Rightarrow> put_result"

text \<open>A variable of the function whose address is taken.\<close>

definition local_block :: "world \<Rightarrow> u8 list \<Rightarrow> ptr \<times> world" where
  "local_block w bs = (Ptr (Heap (w_next w)) 0,
     w\<lparr>w_mem := (w_mem w)(Heap (w_next w) \<mapsto> bs), w_next := w_next w + 1\<rparr>)"

section \<open>Checks and positioning\<close>

definition put_check :: "world \<Rightarrow> cid \<Rightarrow> MDB_val \<Rightarrow> MDB_val \<Rightarrow> u32 \<Rightarrow> int option" where
  "put_check w mc key data flags = do {
     r \<leftarrow> get_cur w mc;
     x \<leftarrow> w_txns w (mc_txn r);
     db \<leftarrow> get_db w (mc_db r);
     Some (if any_set flags MDB_MULTIPLE \<and> \<not> F_ISSET (md_flags db) MDB_DUPFIXED then MDB_INCOMPATIBLE
       else if any_set (mt_flags x) (MDB_TXN_RDONLY OR MDB_TXN_BLOCKED)
       then (if any_set (mt_flags x) MDB_TXN_RDONLY then EACCES else MDB_BAD_TXN)
       else if (mv_size key + (2 ^ 64 - 1)) mod 2 ^ 64 \<ge> ENV_MAXKEY then MDB_BAD_VALSIZE
       else if mv_size data > (if any_set (md_flags db) MDB_DUPSORT then ENV_MAXKEY else MAXDATASIZE) then MDB_BAD_VALSIZE
       else 0) }"

text \<open>\<^verbatim>\<open>MDB_APPEND\<close>: the position after the last item, if the key is larger than the last key.\<close>

definition put_append :: "world \<Rightarrow> cid \<Rightarrow> MDB_val \<Rightarrow> (int \<times> MDB_val \<times> world) option" where
  "put_append w mc key = do {
     (rc, k2, d2, w) \<leftarrow> mdb_cursor_last 2 mdb_page_touch w mc (Some no_val) (Some no_val);
     d2 \<leftarrow> d2;
     if rc \<noteq> 0 then Some (rc, d2, w)
     else do {
       k2 \<leftarrow> k2;
       r \<leftarrow> get_cur w mc;
       dbx \<leftarrow> get_dbx w (mc_dbx r);
       cmp \<leftarrow> md_cmp dbx;
       c \<leftarrow> cmp_vals cmp (w_mem w) key k2;
       if c > 0 then do {
         k \<leftarrow> top_ki w mc;
         w \<leftarrow> set_top_ki w mc (inc16 k);
         Some (MDB_NOTFOUND, d2, w) }
       else Some (MDB_KEYEXIST, d2, w) } }"

text \<open>
  Position the cursor. The first component is whether to return at once; the return code is
  \<^verbatim>\<open>MDB_NO_ROOT\<close>, \<^verbatim>\<open>MDB_NOTFOUND\<close> or 0 otherwise.
\<close>

definition put_position :: "world \<Rightarrow> cid \<Rightarrow> MDB_val \<Rightarrow> MDB_val \<Rightarrow> u32 \<Rightarrow> (bool \<times> int \<times> MDB_val \<times> world) option" where
  "put_position w mc key data flags = do {
     r \<leftarrow> get_cur w mc;
     db \<leftarrow> get_db w (mc_db r);
     if any_set flags MDB_CURRENT then
       Some (if \<not> any_set (mc_flags r) C_INITIALIZED then (True, EINVAL, data, w) else (False, MDB_SUCCESS, data, w))
     else if md_root db = P_INVALID then
       Some (False, MDB_NO_ROOT, data,
         put_cur w mc (r\<lparr>mc_snum := 0, mc_top := 0, mc_flags := clear (mc_flags r) C_INITIALIZED\<rparr>))
     else do {
       (rc, d2, w) \<leftarrow> (if any_set flags MDB_APPEND then put_append w mc key
          else do {
            (rc, _, d2, _, w) \<leftarrow> mdb_cursor_set 2 mdb_page_touch w mc key (Some no_val) MDB_SET (Some False);
            d2 \<leftarrow> d2;
            Some (rc, d2, w) });
       if any_set flags MDB_NOOVERWRITE \<and> rc = 0 then Some (True, MDB_KEYEXIST, d2, w)
       else if rc \<noteq> 0 \<and> rc \<noteq> MDB_NOTFOUND then Some (True, rc, data, w)
       else Some (False, rc, data, w) } }"

section \<open>Making the pages writable\<close>

text \<open>The first page of an empty database.\<close>

definition put_new_root :: "world \<Rightarrow> cid \<Rightarrow> (int \<times> world) option" where
  "put_new_root w mc = do {
     (rc, np, w) \<leftarrow> mdb_page_new w mc P_LEAF 1;
     if rc \<noteq> 0 then Some (rc, w)
     else do {
       (_, w) \<leftarrow> mdb_cursor_push w mc np;
       r \<leftarrow> get_cur w mc;
       pgno \<leftarrow> mp_pgno (w_mem w) np;
       w \<leftarrow> upd_db w (mc_db r) (\<lambda>d. d\<lparr>md_root := pgno, md_depth := md_depth d + 1\<rparr>);
       w \<leftarrow> upd_dbflag w (mc_dbflag r) (\<lambda>f. f OR DB_DIRTY);
       db \<leftarrow> get_db w (mc_db r);
       w \<leftarrow> (if md_flags db AND (MDB_DUPSORT OR MDB_DUPFIXED) = MDB_DUPFIXED
            then mem_do w (mp_or_flags (w_mem w) np P_LEAF2) else Some w);
       w \<leftarrow> or_flags w mc C_INITIALIZED;
       Some (0, w) } }"

text \<open>From the \<^verbatim>\<open>C_DEL\<close> test to \<^verbatim>\<open>insert_key = insert_data = rc\<close>.\<close>

definition put_writable :: "world \<Rightarrow> cid \<Rightarrow> MDB_val \<Rightarrow> MDB_val \<Rightarrow> u32 \<Rightarrow> nat \<Rightarrow> bool \<Rightarrow> int \<Rightarrow> (int \<times> world) option" where
  "put_writable w mc key data flags dcount nospill rc = do {
     r \<leftarrow> get_cur w mc;
     let w = (if any_set (mc_flags r) C_DEL then put_cur w mc (r\<lparr>mc_flags := mc_flags r XOR C_DEL\<rparr>) else w);
     let rdata = (if any_set flags MDB_MULTIPLE then \<lparr>mv_size = (mv_size data * dcount) mod 2 ^ 64, mv_data = NULL\<rparr> else data);
     and_then (if nospill then Some (0, w) else mdb_page_spill w mc (Some key) (Some rdata))
       (\<lambda>w. if rc = MDB_NO_ROOT then put_new_root w mc else mdb_cursor_touch w mc) }"

section \<open>The label \<open>fix_parent\<close>\<close>

text \<open>The nearest slot, from level \<open>i\<close> up, that is not the first of its page; level 0 if there is none.\<close>

fun real_slot :: "nat list \<Rightarrow> nat \<Rightarrow> nat option" where
  "real_slot kis 0 = Some 0"
| "real_slot kis (Suc i) = do {
     k \<leftarrow> rd kis (Suc i);
     if k = 0 then real_slot kis i else Some (Suc i) }"

definition put_fix_parent :: "world \<Rightarrow> cid \<Rightarrow> MDB_val \<Rightarrow> (int \<times> world) option" where
  "put_fix_parent w mc key = do {
     r \<leftarrow> get_cur w mc;
     ki \<leftarrow> top_ki w mc;
     if mc_top r \<noteq> 0 \<and> ki = 0 then do {
       top \<leftarrow> real_slot (mc_ki r) (mc_top r - 1);
       w \<leftarrow> upd_cur w mc (\<lambda>c. c\<lparr>mc_top := top\<rparr>);
       ki \<leftarrow> top_ki w mc;
       (rc2, w) \<leftarrow> (if ki \<noteq> 0 then mdb_update_key w mc key else Some (MDB_SUCCESS, w));
       w \<leftarrow> upd_cur w mc (\<lambda>c. c\<lparr>mc_top := (mc_top c + (mc_top r - top)) mod 2 ^ 16\<rparr>);
       Some (rc2, w) }
     else Some (MDB_SUCCESS, w) }"

text \<open>A page of fixed-size keys has the key already: write it again.\<close>

definition put_leaf2 :: "world \<Rightarrow> cid \<Rightarrow> MDB_val \<Rightarrow> (int \<times> world) option" where
  "put_leaf2 w mc key = do {
     r \<leftarrow> get_cur w mc;
     mp \<leftarrow> top_pg w mc;
     ki \<leftarrow> top_ki w mc;
     db \<leftarrow> get_db w (mc_db r);
     let ksize = unat (md_pad db);
     if mv_size key \<noteq> ksize then Some (MDB_BAD_VALSIZE, w)
     else do {
       w \<leftarrow> mem_do w (memmove (w_mem w) (LEAF2KEY mp ki ksize) (mv_data key) ksize);
       put_fix_parent w mc key } }"

section \<open>The label \<open>current\<close>: replacing an item\<close>

text \<open>The overflow page is dirty in an ancestor only: a copy for this transaction.\<close>

definition put_big_copy :: "world \<Rightarrow> tid \<Rightarrow> ptr \<Rightarrow> u64 \<Rightarrow> nat \<Rightarrow> MDB_val \<Rightarrow> u32 \<Rightarrow> (ptr \<times> world) option" where
  "put_big_copy w t omp pg ovpages data flags = do {
     let sz = me_psize (w_env w) * ovpages;
     (np, w) \<leftarrow> mdb_page_malloc w t ovpages;
     if np = NULL then Some (NULL, w)
     else do {
       x \<leftarrow> w_txns w t;
       (rc2, dl) \<leftarrow> mdb_mid2l_insert (mt_dirty_list x) \<lparr>mid = pg, mptr = np\<rparr>;
       if rc2 \<noteq> 0 then None
       else do {
         w \<leftarrow> set_dirty_list w t dl;
         w \<leftarrow> (if \<not> any_set flags MDB_RESERVE then do {
              let off = (PAGEHDRSZ + mv_size data) div 8 * 8;
              m \<leftarrow> memmove (w_mem w) (padd np off) (padd omp off) (sz - off);
              mem_do w (memmove m np omp PAGEHDRSZ) }
            else mem_do w (memmove (w_mem w) np omp sz));
         Some (np, w) } } }"

text \<open>
  The old item is on overflow pages: overwrite them when they are large enough and can be made
  writable, otherwise free them. The first component of the result is the return code, if the
  function returns.
\<close>

definition put_big :: "world \<Rightarrow> cid \<Rightarrow> ptr \<Rightarrow> ptr \<Rightarrow> put_locals \<Rightarrow> (int option \<times> put_locals \<times> world) option" where
  "put_big w mc leaf olddata l = do {
     r \<leftarrow> get_cur w mc;
     let data = pl_data l;
     let dpages = OVPAGES (mv_size data) (me_psize (w_env w));
     pg \<leftarrow> map_option of_nat (ld64 (w_mem w) olddata);
     (rc2, omp, level, w) \<leftarrow> mdb_page_get w mc pg;
     if rc2 \<noteq> 0 then Some (Some rc2, l, w)
     else do {
       ovpages \<leftarrow> mp_pages (w_mem w) omp;
       fl \<leftarrow> mp_flags (w_mem w) omp;
       (rc, omp, level, w) \<leftarrow> (if ovpages \<ge> dpages \<and> \<not> any_set fl P_DIRTY \<and>
            (level \<noteq> 0 \<or> any_set (me_flags (w_env w)) MDB_WRITEMAP)
          then map_option (\<lambda>(rc, p, w). (rc, case p of None \<Rightarrow> omp | Some p \<Rightarrow> p, 0, w)) (mdb_page_unspill w (mc_txn r) omp)
          else Some (0, omp, level, w));
       if rc \<noteq> 0 then Some (Some rc, l, w)
       else do {
         fl \<leftarrow> mp_flags (w_mem w) omp;
         if ovpages \<ge> dpages \<and> any_set fl P_DIRTY then do {
           (omp, w) \<leftarrow> (if level > 1 then put_big_copy w (mc_txn r) omp pg ovpages data (pl_flags l) else Some (omp, w));
           if omp = NULL then Some (Some ENOMEM, l, w)
           else do {
             w \<leftarrow> mem_do w (SETDSZ (w_mem w) leaf (mv_size data));
             if F_ISSET (pl_flags l) MDB_RESERVE
             then Some (Some MDB_SUCCESS, l\<lparr>pl_data := data\<lparr>mv_data := METADATA omp\<rparr>\<rparr>, w)
             else do {
               w \<leftarrow> mem_do w (memmove (w_mem w) (METADATA omp) (mv_data data) (mv_size data));
               Some (Some MDB_SUCCESS, l, w) } } }
         else do {
           (rc2, w) \<leftarrow> mdb_ovpage_free w mc omp;
           Some (if rc2 \<noteq> MDB_SUCCESS then Some rc2 else None, l, w) } } } }"

definition put_current :: "world \<Rightarrow> cid \<Rightarrow> MDB_val \<Rightarrow> ptr \<Rightarrow> MDB_val \<Rightarrow> put_locals \<Rightarrow> put_step" where
  "put_current w mc key leaf olddata l = do {
     r \<leftarrow> get_cur w mc;
     fl \<leftarrow> mn_flags (w_mem w) leaf;
     let data = pl_data l;
     if any_set (fl XOR pl_flags l) F_SUBDATA then Some (Ret MDB_INCOMPATIBLE, l, w)
     else if F_ISSET fl F_BIGDATA then do {
       (ret, l, w) \<leftarrow> put_big w mc leaf (mv_data olddata) l;
       (case ret of
          Some rc \<Rightarrow> Some (Ret rc, l, w)
        | None \<Rightarrow> do { w \<leftarrow> mdb_node_del w mc 0; Some (New_sub False, l, w) }) }
     else if mv_size data = mv_size olddata then
       (if F_ISSET (pl_flags l) MDB_RESERVE
        then Some (Ret MDB_SUCCESS, l\<lparr>pl_data := data\<lparr>mv_data := mv_data olddata\<rparr>\<rparr>, w)
        else if \<not> any_set (mc_flags r) C_SUB then do {
          w \<leftarrow> mem_do w (memmove (w_mem w) (mv_data olddata) (mv_data data) (mv_size data));
          Some (Ret MDB_SUCCESS, l, w) }
        else do {
          w \<leftarrow> mem_do w (memmove (w_mem w) (NODEKEY leaf) (mv_data key) (mv_size key));
          (rc, w) \<leftarrow> put_fix_parent w mc key;
          Some (Ret rc, l, w) })
     else do { w \<leftarrow> mdb_node_del w mc 0; Some (New_sub False, l, w) } }"

section \<open>Sorted duplicates: the sub-page or sub-database\<close>

text \<open>The header of a new sub-page in the scratch page, for one old item and the new one.\<close>

definition dup_new_page :: "mem \<Rightarrow> ptr \<Rightarrow> nat \<Rightarrow> nat \<Rightarrow> u32 \<Rightarrow> (nat \<times> mem) option" where
  "dup_new_page m fp dsize isize dbflags = do {
     let fixed = any_set dbflags MDB_DUPFIXED;
     m \<leftarrow> set_mp_flags m fp (P_LEAF OR P_DIRTY OR P_SUBP OR (if fixed then P_LEAF2 else 0));
     m \<leftarrow> set_mp_lower m fp (PAGEHDRSZ - PAGEBASE);
     m \<leftarrow> (if fixed then set_mp_pad m fp (isize mod 2 ^ 16) else Some m);
     let xsize = PAGEHDRSZ + dsize + isize + (if fixed then 2 * isize else 2 * (2 + NODESIZE) + dsize mod 2 + isize mod 2);
     m \<leftarrow> set_mp_upper m fp (xsize - PAGEBASE);
     Some (xsize, m) }"

text \<open>
  The label \<open>prep_subDB\<close>: a page for the sub-database and its record in \<^verbatim>\<open>dummy\<close>. The old
  sub-page is \<open>fp\<close>, of \<open>oldsize\<close> bytes. Returns the page and the growth in page size.
\<close>

definition prep_subDB ::
  "world \<Rightarrow> cid \<Rightarrow> ptr \<Rightarrow> nat \<Rightarrow> u32 \<Rightarrow> put_locals \<Rightarrow> (int \<times> ptr \<times> u32 \<times> nat \<times> put_locals \<times> world) option" where
  "prep_subDB w mc fp oldsize fp_flags l = do {
     r \<leftarrow> get_cur w mc;
     db \<leftarrow> get_db w (mc_db r);
     pad \<leftarrow> mp_pad (w_mem w) fp;
     n \<leftarrow> NUMKEYS (w_mem w) fp;
     let fixed = any_set (md_flags db) MDB_DUPFIXED;
     let fp_flags = (if fixed then fp_flags OR P_LEAF2 else fp_flags);
     let flags = (if fixed then MDB_DUPFIXED OR (if any_set (md_flags db) MDB_INTEGERDUP then MDB_INTEGERKEY else 0) else 0);
     (rc, mp, w) \<leftarrow> mdb_page_alloc w mc 1;
     let l = l\<lparr>pl_xdata := \<lparr>mv_size = 48, mv_data = pl_dummy l\<rparr>\<rparr>;
     if rc \<noteq> 0 then Some (rc, mp, fp_flags, 0, l, w)
     else do {
       pgno \<leftarrow> mp_pgno (w_mem w) mp;
       let dummy = \<lparr>md_pad = (if fixed then of_nat pad else 0), md_flags = flags, md_depth = 1, md_branch_pages = 0,
         md_leaf_pages = 1, md_overflow_pages = 0, md_entries = of_nat n, md_root = pgno\<rparr>;
       w \<leftarrow> mem_do w (store_db (w_mem w) (pl_dummy l) dummy);
       let offset = nat ((int (me_psize (w_env w)) - int oldsize) mod 2 ^ 32);
       Some (0, mp, fp_flags, offset, l\<lparr>pl_flags := pl_flags l OR F_DUPDATA OR F_SUBDATA, pl_sub_root := Some mp\<rparr>, w) } }"

text \<open>\<^verbatim>\<open>for (i=0; i<NUMKEYS(fp); i++) mp->mp_ptrs[i] += offset;\<close>\<close>

fun shift_slots :: "mem \<Rightarrow> ptr \<Rightarrow> nat \<Rightarrow> nat \<Rightarrow> nat \<Rightarrow> mem option" where
  "shift_slots m mp offset 0 i = Some m"
| "shift_slots m mp offset (Suc n) i = do {
     x \<leftarrow> mp_ptrs m mp i;
     m \<leftarrow> set_mp_ptrs m mp i ((x + offset) mod 2 ^ 16);
     shift_slots m mp offset n (i + 1) }"

text \<open>Copy the old sub-page \<open>fp\<close> to \<open>mp\<close>, which is larger by \<open>offset\<close>.\<close>

definition grow_page :: "mem \<Rightarrow> ptr \<Rightarrow> ptr \<Rightarrow> u32 \<Rightarrow> nat \<Rightarrow> nat \<Rightarrow> mem option" where
  "grow_page m mp fp fp_flags offset oldsize = do {
     pad \<leftarrow> mp_pad m fp;
     lower \<leftarrow> mp_lower m fp;
     upper \<leftarrow> mp_upper m fp;
     n \<leftarrow> NUMKEYS m fp;
     let mupper = (upper + offset) mod 2 ^ 16;
     m \<leftarrow> set_mp_flags m mp (fp_flags OR P_DIRTY);
     m \<leftarrow> set_mp_pad m mp pad;
     m \<leftarrow> set_mp_lower m mp lower;
     m \<leftarrow> set_mp_upper m mp mupper;
     if any_set fp_flags P_LEAF2 then memmove m (METADATA mp) (METADATA fp) (n * pad)
     else if oldsize < upper + PAGEBASE then None
     else do {
       m \<leftarrow> memmove m (padd mp (mupper + PAGEBASE)) (padd fp (upper + PAGEBASE)) (oldsize - upper - PAGEBASE);
       m \<leftarrow> memmove m (padd mp PAGEHDRSZ) (padd fp PAGEHDRSZ) (n * 2);
       shift_slots m mp offset n 0 } }"

text \<open>From the test \<^verbatim>\<open>mp != fp\<close> on: fill the new page and go to \<open>new_sub\<close>.\<close>

definition dup_ready :: "world \<Rightarrow> cid \<Rightarrow> ptr \<Rightarrow> ptr \<Rightarrow> u32 \<Rightarrow> nat \<Rightarrow> nat \<Rightarrow> put_locals \<Rightarrow> put_step" where
  "dup_ready w mc mp fp fp_flags offset oldsize l = do {
     w \<leftarrow> (if mp \<noteq> fp then mem_do w (grow_page (w_mem w) mp fp fp_flags offset oldsize) else Some w);
     w \<leftarrow> (if \<not> pl_insert_key l then mdb_node_del w mc 0 else Some w);
     Some (New_sub True, l\<lparr>pl_flags := pl_flags l OR F_DUPDATA, pl_do_sub := True\<rparr>, w) }"

text \<open>The page, of \<open>oldsize\<close> bytes at \<open>fp\<close>, as a sub-page in the scratch page or as a sub-database.\<close>

definition dup_place :: "world \<Rightarrow> cid \<Rightarrow> ptr \<Rightarrow> ptr \<Rightarrow> nat \<Rightarrow> nat \<Rightarrow> put_locals \<Rightarrow> put_step" where
  "dup_place w mc leaf fp offset oldsize l = do {
     fp_flags \<leftarrow> mp_flags (w_mem w) fp;
     ks \<leftarrow> NODEKSZ (w_mem w) leaf;
     if NODESIZE + ks + mv_size (pl_xdata l) > me_nodemax (w_env w) then do {
       (rc, mp, fp_flags, offset, l, w) \<leftarrow> prep_subDB w mc fp oldsize (clear fp_flags P_SUBP) l;
       if rc \<noteq> 0 then Some (Ret rc, l, w)
       else dup_ready w mc mp fp fp_flags offset oldsize l }
     else dup_ready w mc (me_pbuf (w_env w)) fp fp_flags offset oldsize l }"

text \<open>A single item so far: compare, overwrite it or back it up and start a sub-page.\<close>

definition dup_single :: "world \<Rightarrow> cid \<Rightarrow> MDB_val \<Rightarrow> ptr \<Rightarrow> MDB_val \<Rightarrow> put_locals \<Rightarrow> put_step" where
  "dup_single w mc key leaf olddata l = do {
     r \<leftarrow> get_cur w mc;
     db \<leftarrow> get_db w (mc_db r);
     dbx \<leftarrow> get_dbx w (mc_dbx r);
     let data = pl_data l;
     let fp = me_pbuf (w_env w);
     if pl_flags l = MDB_CURRENT then put_current w mc key leaf olddata l
     else do {
       dcmp \<leftarrow> (if NEED_CMP_CLONG (md_dcmp dbx) (mv_size olddata) then Some mdb_cmp_clong else md_dcmp dbx);
       c \<leftarrow> cmp_vals dcmp (w_mem w) data olddata;
       if c = 0 then
         (if any_set (pl_flags l) (MDB_NODUPDATA OR MDB_APPENDDUP) then Some (Ret MDB_KEYEXIST, l, w)
          else put_current w mc key leaf olddata l)
       else do {
         m \<leftarrow> memmove (w_mem w) (padd fp PAGE_STRUCT) (mv_data olddata) (mv_size olddata);
         (xsize, m) \<leftarrow> dup_new_page m fp (mv_size olddata) (mv_size data) (md_flags db);
         dup_place (w\<lparr>w_mem := m\<rparr>) mc leaf fp 0 xsize
           (l\<lparr>pl_dkey := \<lparr>mv_size = mv_size olddata, mv_data = padd fp PAGE_STRUCT\<rparr>,
              pl_xdata := \<lparr>mv_size = xsize, mv_data = fp\<rparr>\<rparr>) } } }"

text \<open>
  A sub-page: how much it has to grow, or \<open>None\<close> when the item fits as it is or is to be replaced.
\<close>

definition dup_growth :: "mem \<Rightarrow> ptr \<Rightarrow> u32 \<Rightarrow> nat \<Rightarrow> u32 \<Rightarrow> nat option option" where
  "dup_growth m fp flags isize dbflags =
     (if flags = MDB_CURRENT then Some None
      else if \<not> any_set dbflags MDB_DUPFIXED then Some (Some (EVEN (NODESIZE + 2 + isize)))
      else do {
        pad \<leftarrow> mp_pad m fp;
        left \<leftarrow> SIZELEFT m fp;
        Some (if left < pad then Some (pad * 4) else None) })"

definition dup_subpage :: "world \<Rightarrow> cid \<Rightarrow> ptr \<Rightarrow> MDB_val \<Rightarrow> put_locals \<Rightarrow> put_step" where
  "dup_subpage w mc leaf olddata l = do {
     r \<leftarrow> get_cur w mc;
     db \<leftarrow> get_db w (mc_db r);
     let fp = mv_data olddata;
     growth \<leftarrow> dup_growth (w_mem w) fp (pl_flags l) (mv_size (pl_data l)) (md_flags db);
     (case growth of
        None \<Rightarrow> do {
          m \<leftarrow> mp_or_flags (w_mem w) fp P_DIRTY;
          pgno \<leftarrow> mp_pgno m (me_pbuf (w_env w));
          w \<leftarrow> mem_do w (set_mp_pgno m fp pgno);
          x \<leftarrow> mc_xcursor r;
          w \<leftarrow> set_pg w x 0 fp;
          Some (Put_sub, l\<lparr>pl_flags := pl_flags l OR F_DUPDATA\<rparr>, w) }
      | Some offset \<Rightarrow>
          dup_place w mc leaf fp offset (mv_size olddata) (l\<lparr>pl_xdata := (pl_xdata l)\<lparr>mv_size := mv_size olddata + offset\<rparr>\<rparr>)) }"

text \<open>The label \<open>more\<close>: an item of the key at the cursor exists.\<close>

definition put_more :: "world \<Rightarrow> cid \<Rightarrow> MDB_val \<Rightarrow> put_locals \<Rightarrow> put_step" where
  "put_more w mc key l = do {
     r \<leftarrow> get_cur w mc;
     mp \<leftarrow> top_pg w mc;
     ki \<leftarrow> top_ki w mc;
     leaf \<leftarrow> NODEPTR (w_mem w) mp ki;
     sz \<leftarrow> NODEDSZ (w_mem w) leaf;
     nd \<leftarrow> NODEDATA (w_mem w) leaf;
     db \<leftarrow> get_db w (mc_db r);
     let olddata = \<lparr>mv_size = sz, mv_data = nd\<rparr>;
     if F_ISSET (md_flags db) MDB_DUPSORT then do {
       pgno \<leftarrow> mp_pgno (w_mem w) mp;
       w \<leftarrow> mem_do w (set_mp_pgno (w_mem w) (me_pbuf (w_env w)) pgno);
       fl \<leftarrow> mn_flags (w_mem w) leaf;
       let l = l\<lparr>pl_xdata := (pl_xdata l)\<lparr>mv_data := me_pbuf (w_env w)\<rparr>\<rparr>;
       if \<not> F_ISSET fl F_DUPDATA then dup_single w mc key leaf olddata l
       else if any_set fl F_SUBDATA then Some (Put_sub, l\<lparr>pl_flags := pl_flags l OR F_DUPDATA OR F_SUBDATA\<rparr>, w)
       else dup_subpage w mc leaf olddata l }
     else put_current w mc key leaf olddata l }"

text \<open>A new key: an item too big for a node of a sorted-duplicates database goes to a sub-database.\<close>

definition put_insert :: "world \<Rightarrow> cid \<Rightarrow> MDB_val \<Rightarrow> put_locals \<Rightarrow> put_step" where
  "put_insert w mc key l = do {
     r \<leftarrow> get_cur w mc;
     db \<leftarrow> get_db w (mc_db r);
     if any_set (md_flags db) MDB_DUPSORT \<and> LEAFSIZE key (pl_data l) > me_nodemax (w_env w) then do {
       let fp = me_pbuf (w_env w);
       m \<leftarrow> set_mp_pad (w_mem w) fp (mv_size (pl_data l) mod 2 ^ 16);
       m \<leftarrow> set_mp_upper m fp (PAGEHDRSZ - PAGEBASE);
       w \<leftarrow> mem_do w (set_mp_lower m fp (PAGEHDRSZ - PAGEBASE));
       (rc, mp, fp_flags, offset, l, w) \<leftarrow> prep_subDB w mc fp PAGEHDRSZ (P_LEAF OR P_DIRTY) l;
       if rc \<noteq> 0 then Some (Ret rc, l, w)
       else dup_ready w mc mp fp fp_flags offset PAGEHDRSZ l }
     else Some (New_sub False, l, w) }"

section \<open>The label \<open>new_sub\<close>: the node\<close>

definition put_adjust :: "cid \<Rightarrow> bool \<Rightarrow> cid \<Rightarrow> cid \<Rightarrow> world \<Rightarrow> world option" where
  "put_adjust mc insert_key m2 m3 w = do {
     r \<leftarrow> get_cur w mc;
     r3 \<leftarrow> get_cur w m3;
     let i = mc_top r;
     mp \<leftarrow> rd (mc_pg r) i;
     if m3 = mc \<or> mc_snum r3 < mc_snum r then Some w
     else do {
       p3 \<leftarrow> rd (mc_pg r3) i;
       if p3 \<noteq> mp then Some w
       else do {
         k3 \<leftarrow> rd (mc_ki r3) i;
         k \<leftarrow> rd (mc_ki r) i;
         w \<leftarrow> (if k3 \<ge> k \<and> insert_key then set_ki w m3 i (inc16 k3) else Some w);
         XCURSOR_REFRESH w m3 i mp } } }"

definition put_new_sub :: "world \<Rightarrow> cid \<Rightarrow> MDB_val \<Rightarrow> bool \<Rightarrow> put_locals \<Rightarrow> (int \<times> put_locals \<times> world) option" where
  "put_new_sub w mc key use_x l = do {
     mp \<leftarrow> top_pg w mc;
     let rdata = (if use_x then pl_xdata l else pl_data l);
     let set_rdata = (\<lambda>d. case d of None \<Rightarrow> l | Some v \<Rightarrow> if use_x then l\<lparr>pl_xdata := v\<rparr> else l\<lparr>pl_data := v\<rparr>);
     let flags = pl_flags l;
     let nflags = flags AND NODE_ADD_FLAGS;
     leaf2 \<leftarrow> IS_LEAF2 (w_mem w) mp;
     left \<leftarrow> SIZELEFT (w_mem w) mp;
     if left < (if leaf2 then mv_size key else mdb_leaf_size (w_env w) key rdata) then do {
       let nflags = (if flags AND (F_DUPDATA OR F_SUBDATA) = F_DUPDATA then clear nflags MDB_APPEND else nflags);
       let nflags = (if pl_insert_key l then nflags else nflags OR MDB_SPLIT_REPLACE);
       (rc, d, w) \<leftarrow> page_split w mc key (Some rdata) P_INVALID nflags;
       Some (rc, set_rdata d, w) }
     else do {
       ki \<leftarrow> top_ki w mc;
       (rc, d, w) \<leftarrow> mdb_node_add w mc ki (Some key) (Some rdata) 0 nflags;
       w \<leftarrow> (if rc = 0 then each_tracked (put_adjust mc (pl_insert_key l)) w mc else Some w);
       Some (rc, set_rdata d, w) } }"

section \<open>The label \<open>put_sub\<close>: the item in the sub-page or sub-database\<close>

definition put_sub_adjust :: "cid \<Rightarrow> cid \<Rightarrow> bool \<Rightarrow> bool \<Rightarrow> cid \<Rightarrow> world \<Rightarrow> world option" where
  "put_sub_adjust mc mx new_dupdata insert_key m2 w = do {
     r \<leftarrow> get_cur w mc;
     r2 \<leftarrow> get_cur w m2;
     let i = mc_top r;
     mp \<leftarrow> rd (mc_pg r) i;
     if m2 = mc \<or> mc_snum r2 < mc_snum r \<or> \<not> any_set (mc_flags r2) C_INITIALIZED then Some w
     else do {
       p2 \<leftarrow> rd (mc_pg r2) i;
       k2 \<leftarrow> rd (mc_ki r2) i;
       k \<leftarrow> rd (mc_ki r) i;
       if p2 \<noteq> mp then Some w
       else if k2 = k then mdb_xcursor_init2 w m2 mx new_dupdata
       else if \<not> insert_key then XCURSOR_REFRESH w m2 i mp
       else Some w } }"

text \<open>
  The sub-cursor is set up, the item that was there alone is written first, the other cursors
  follow, and then the new item is written. \<open>put\<close> is the function itself on the sub-cursor. The
  flag says that the first of the two writes failed.
\<close>

definition put_sub_old ::
  "put_fun \<Rightarrow> world \<Rightarrow> cid \<Rightarrow> u32 \<Rightarrow> put_locals \<Rightarrow> (int \<times> put_locals \<times> world) option" where
  "put_sub_old put w x xflags l =
     (if mv_size (pl_dkey l) \<noteq> 0 then do {
        (rc, xdata, _, w) \<leftarrow> put w x (pl_dkey l) (pl_xdata l) xflags;
        Some (rc, if rc \<noteq> 0 then l\<lparr>pl_xdata := xdata\<rparr>
                  else l\<lparr>pl_xdata := xdata, pl_dkey := (pl_dkey l)\<lparr>mv_size := 0\<rparr>\<rparr>, w) }
      else Some (0, l, w))"

definition put_sub_setup :: "world \<Rightarrow> cid \<Rightarrow> ptr \<Rightarrow> put_locals \<Rightarrow> (cid \<times> u32 \<times> world) option" where
  "put_sub_setup w mc leaf l = do {
     (xflags, w) \<leftarrow> (if pl_flags l = MDB_CURRENT then Some (MDB_CURRENT OR MDB_NOSPILL, w)
        else do {
          w \<leftarrow> mdb_xcursor_init1 w mc leaf;
          Some (if any_set (pl_flags l) MDB_NODUPDATA then MDB_NOOVERWRITE OR MDB_NOSPILL else MDB_NOSPILL, w) });
     x \<leftarrow> sub_cursor w mc;
     w \<leftarrow> (case pl_sub_root l of None \<Rightarrow> Some w | Some p \<Rightarrow> set_pg w x 0 p);
     Some (x, xflags, w) }"

definition put_sub_item :: "put_fun \<Rightarrow> world \<Rightarrow> cid \<Rightarrow> put_locals \<Rightarrow> (int \<times> bool \<times> put_locals \<times> world) option" where
  "put_sub_item put w mc l = do {
     let l = l\<lparr>pl_xdata := \<lparr>mv_size = 0, mv_data = pl_empty l\<rparr>\<rparr>;
     mp \<leftarrow> top_pg w mc;
     ki \<leftarrow> top_ki w mc;
     leaf \<leftarrow> NODEPTR (w_mem w) mp ki;
     (x, xflags, w) \<leftarrow> put_sub_setup w mc leaf l;
     let new_dupdata = (mv_size (pl_dkey l) \<noteq> 0);
     (rc, l, w) \<leftarrow> put_sub_old put w x xflags l;
     if rc \<noteq> 0 then Some (rc, True, l, w)
     else do {
       r \<leftarrow> get_cur w mc;
       fl \<leftarrow> mn_flags (w_mem w) leaf;
       ms \<leftarrow> tracked w (mc_txn r) (mc_dbi r);
       w \<leftarrow> (if \<not> any_set fl F_SUBDATA \<or> pl_sub_root l \<noteq> None
            then each (put_sub_adjust mc x new_dupdata (pl_insert_key l)) ms w else Some w);
       xx \<leftarrow> w_xcursors w x;
       let ecount = md_entries (mx_db xx);
       let xflags = (if any_set (pl_flags l) MDB_APPENDDUP then xflags OR MDB_APPEND else xflags);
       (rc, xdata, _, w) \<leftarrow> put w x (pl_data l) (pl_xdata l) xflags;
       xx \<leftarrow> w_xcursors w x;
       w \<leftarrow> (if any_set (pl_flags l) F_SUBDATA then do {
            db \<leftarrow> NODEDATA (w_mem w) leaf;
            mem_do w (store_db (w_mem w) db (mx_db xx)) }
          else Some w);
       Some (rc, False, l\<lparr>pl_xdata := xdata,
         pl_insert_data := ((ucast (md_entries (mx_db xx) - ecount) :: u32) \<noteq> 0)\<rparr>, w) } }"

text \<open>The label \<open>bad_sub\<close>, and the end of the function.\<close>

definition put_fail :: "world \<Rightarrow> cid \<Rightarrow> put_locals \<Rightarrow> int \<Rightarrow> put_result" where
  "put_fail w mc l rc = do {
     r \<leftarrow> get_cur w mc;
     w \<leftarrow> txn_or_flags w (mc_txn r) MDB_TXN_ERROR;
     Some (rc, pl_data l, pl_data1 l, w) }"

definition bad_sub :: "world \<Rightarrow> cid \<Rightarrow> put_locals \<Rightarrow> int \<Rightarrow> put_result" where
  "bad_sub w mc l rc = put_fail w mc l (if rc = MDB_KEYEXIST then MDB_PROBLEM else rc)"

text \<open>The count of items and the next item of \<^verbatim>\<open>MDB_MULTIPLE\<close>, which goes to \<open>more\<close>.\<close>

definition put_count ::
  "(world \<Rightarrow> put_locals \<Rightarrow> put_result) \<Rightarrow> world \<Rightarrow> cid \<Rightarrow> int \<Rightarrow> put_locals \<Rightarrow> put_result" where
  "put_count again w mc rc l = do {
     r \<leftarrow> get_cur w mc;
     w \<leftarrow> (if pl_insert_data l then upd_db w (mc_db r) (\<lambda>d. d\<lparr>md_entries := md_entries d + 1\<rparr>) else Some w);
     if pl_insert_key l \<and> rc \<noteq> 0 then bad_sub w mc l rc
     else do {
       w \<leftarrow> (if pl_insert_key l then or_flags w mc C_INITIALIZED else Some w);
       if any_set (pl_flags l) MDB_MULTIPLE \<and> rc = 0 then do {
         let mcount = pl_mcount l + 1;
         let l = l\<lparr>pl_mcount := mcount, pl_data1 := mcount\<rparr>;
         if mcount < pl_dcount l then
           again w (l\<lparr>pl_data := (pl_data l)\<lparr>mv_data := padd (mv_data (pl_data l)) (mv_size (pl_data l))\<rparr>,
             pl_insert_key := False, pl_insert_data := False\<rparr>)
         else Some (rc, pl_data l, pl_data1 l, w) }
       else Some (rc, pl_data l, pl_data1 l, w) } }"

definition put_store ::
  "put_fun \<Rightarrow> (world \<Rightarrow> put_locals \<Rightarrow> put_result) \<Rightarrow> world \<Rightarrow> cid \<Rightarrow> MDB_val \<Rightarrow> put_next \<Rightarrow> put_locals \<Rightarrow> put_result" where
  "put_store put again w mc key next l = (case next of
     Ret rc \<Rightarrow> Some (rc, pl_data l, pl_data1 l, w)
   | _ \<Rightarrow> do {
       (rc, l, w) \<leftarrow> (case next of New_sub use_x \<Rightarrow> put_new_sub w mc key use_x l | _ \<Rightarrow> Some (MDB_SUCCESS, l, w));
       if rc \<noteq> MDB_SUCCESS then put_fail w mc l rc
       else if next = Put_sub \<or> pl_do_sub l then do {
         (rc, bad, l, w) \<leftarrow> put_sub_item put w mc l;
         if bad then bad_sub w mc l rc else put_count again w mc rc l }
       else put_count again w mc rc l })"

text \<open>Each turn of \<open>more\<close> writes one item, so \<^verbatim>\<open>dcount\<close> turns are enough.\<close>

fun put_mores :: "nat \<Rightarrow> put_fun \<Rightarrow> cid \<Rightarrow> MDB_val \<Rightarrow> world \<Rightarrow> put_locals \<Rightarrow> put_result" where
  "put_mores 0 put mc key w l = None"
| "put_mores (Suc n) put mc key w l = do {
     (next, l, w) \<leftarrow> put_more w mc key l;
     put_store put (put_mores n put mc key) w mc key next l }"

section \<open>\<^verbatim>\<open>mdb_cursor_put\<close>\<close>

text \<open>After the checks and with the cursor in place; \<open>rc\<close> says whether the key exists.\<close>

definition put_item :: "put_fun \<Rightarrow> world \<Rightarrow> cid \<Rightarrow> MDB_val \<Rightarrow> int \<Rightarrow> put_locals \<Rightarrow> put_result" where
  "put_item put w mc key rc l = do {
     let again = put_mores (pl_dcount l + 1) put mc key;
     if rc \<noteq> 0 then do {
       (next, l, w) \<leftarrow> put_insert w mc key l;
       put_store put again w mc key next l }
     else do {
       mp \<leftarrow> top_pg w mc;
       leaf2 \<leftarrow> IS_LEAF2 (w_mem w) mp;
       if leaf2 then do {
         (rc, w) \<leftarrow> put_leaf2 w mc key;
         Some (rc, pl_data l, pl_data1 l, w) }
       else again w l } }"

definition put_body :: "put_fun \<Rightarrow> world \<Rightarrow> cid \<Rightarrow> MDB_val \<Rightarrow> MDB_val \<Rightarrow> nat \<Rightarrow> u32 \<Rightarrow> put_result" where
  "put_body put w mc key data data1 flags = do {
     let dcount = (if any_set flags MDB_MULTIPLE then u32 data1 else 0);
     let data1 = (if any_set flags MDB_MULTIPLE then 0 else data1);
     let nospill = any_set flags MDB_NOSPILL;
     rc \<leftarrow> put_check w mc key data flags;
     let flags = clear flags MDB_NOSPILL;
     if rc \<noteq> 0 then Some (rc, data, data1, w)
     else do {
       (ret, rc, data, w) \<leftarrow> put_position w mc key data flags;
       if ret then Some (rc, data, data1, w)
       else do {
         (rc2, w) \<leftarrow> put_writable w mc key data flags dcount nospill rc;
         if rc2 \<noteq> 0 then Some (rc2, data, data1, w)
         else do {
           let (dummy, w) = local_block w (replicate 48 0);
           let (empty, w) = local_block w [0];
           (rc, data, data1, w) \<leftarrow> put_item put w mc key rc
             \<lparr>pl_data = data, pl_data1 = data1, pl_flags = flags, pl_insert_key = (rc \<noteq> 0), pl_insert_data = (rc \<noteq> 0),
              pl_dkey = no_val, pl_xdata = no_val, pl_do_sub = False, pl_sub_root = None, pl_mcount = 0,
              pl_dcount = dcount, pl_dummy = dummy, pl_empty = empty\<rparr>;
           Some (rc, data, data1, w_free (w_free w empty) dummy) } } } }"

text \<open>The recursion is into the sub-cursor, which has no sub-cursor of its own: two levels.\<close>

fun cursor_put :: "nat \<Rightarrow> world \<Rightarrow> cid \<Rightarrow> MDB_val \<Rightarrow> MDB_val \<Rightarrow> nat \<Rightarrow> u32 \<Rightarrow> put_result" where
  "cursor_put 0 w mc key data data1 flags = None"
| "cursor_put (Suc d) w mc key data data1 flags =
     put_body (\<lambda>w mc key data flags. cursor_put d w mc key data 0 flags) w mc key data data1 flags"

definition mdb_cursor_put :: "world \<Rightarrow> cid option \<Rightarrow> MDB_val option \<Rightarrow> MDB_val \<Rightarrow> nat \<Rightarrow> u32 \<Rightarrow> put_result" where
  "mdb_cursor_put w mc key data data1 flags = (case (mc, key) of
     (Some mc, Some key) \<Rightarrow> cursor_put 2 w mc key data data1 flags
   | _ \<Rightarrow> Some (EINVAL, data, data1, w))"

section \<open>\<^verbatim>\<open>mdb_put\<close>\<close>

text \<open>A tracked cursor of a function: on the list of its database while \<open>act\<close> runs.\<close>

definition with_tracked :: "world \<Rightarrow> tid \<Rightarrow> nat \<Rightarrow> cid \<Rightarrow> (world \<Rightarrow> ('a \<times> world) option) \<Rightarrow> ('a \<times> world) option" where
  "with_tracked w t dbi mc act = do {
     next \<leftarrow> tracked w t dbi;
     w \<leftarrow> set_tracked w t dbi (mc # next);
     (a, w) \<leftarrow> act w;
     w \<leftarrow> set_tracked w t dbi next;
     Some (a, w) }"

definition mdb_put ::
  "world \<Rightarrow> tid option \<Rightarrow> nat \<Rightarrow> MDB_val option \<Rightarrow> MDB_val option \<Rightarrow> u32 \<Rightarrow> (int \<times> MDB_val option \<times> world) option" where
  "mdb_put w txn dbi key data flags = do {
     ok \<leftarrow> TXN_DBI_EXIST w txn dbi DB_USRVALID;
     (case (txn, key, data) of
        (Some t, Some k, Some d) \<Rightarrow>
          if \<not> ok \<or> clear flags (MDB_NOOVERWRITE OR MDB_NODUPDATA OR MDB_RESERVE OR MDB_APPEND OR MDB_APPENDDUP) \<noteq> 0
          then Some (EINVAL, data, w)
          else do {
            x \<leftarrow> w_txns w t;
            if any_set (mt_flags x) (MDB_TXN_RDONLY OR MDB_TXN_BLOCKED)
            then Some (if any_set (mt_flags x) MDB_TXN_RDONLY then EACCES else MDB_BAD_TXN, data, w)
            else do {
              let (mc, w) = new_cursor w;
              let (mx, w) = new_xcursor w;
              w \<leftarrow> mdb_cursor_init mdb_page_touch w mc t dbi (Some mx);
              ((rc, d), w) \<leftarrow> with_tracked w t dbi mc
                (\<lambda>w. map_option (\<lambda>(rc, d, _, w). ((rc, d), w)) (mdb_cursor_put w (Some mc) (Some k) d 0 flags));
              Some (rc, Some d, drop_cursor (drop_cursor w mx) mc) } }
      | _ \<Rightarrow> Some (EINVAL, data, w)) }"

end
