(* ===== verification/Del.thy ===== *)
theory Del
  imports Put
begin

text \<open>
  Deleting (\<^verbatim>\<open>lmdb/mdb.c\<close>): \<^verbatim>\<open>mdb_drop0\<close>, which frees the pages of a tree,
  \<^verbatim>\<open>mdb_cursor_del\<close>, \<^verbatim>\<open>mdb_del0\<close> and \<^verbatim>\<open>mdb_del\<close>.
\<close>

section \<open>Freeing a tree\<close>

text \<open>
  The loop over the nodes of a leaf page; returns the index at which it stopped. \<open>dropsub\<close> is
  \<^verbatim>\<open>mdb_drop0\<close> for a sub-database.
\<close>

definition drop0_overflow :: "world \<Rightarrow> cid \<Rightarrow> ptr \<Rightarrow> (int \<times> world) option" where
  "drop0_overflow w mc ni = do {
     r \<leftarrow> get_cur w mc;
     nd \<leftarrow> NODEDATA (w_mem w) ni;
     pg \<leftarrow> map_option of_nat (ld64 (w_mem w) nd);
     (rc, omp, _, w) \<leftarrow> mdb_page_get w mc pg;
     if rc \<noteq> 0 then Some (rc, w)
     else do {
       ov \<leftarrow> IS_OVERFLOW (w_mem w) omp;
       pages \<leftarrow> mp_pages (w_mem w) omp;
       if \<not> ov then None
       else and_then (free_pgs_do w (mc_txn r) (\<lambda>h b. mdb_midl_append_range h b pg (of_nat pages))) (\<lambda>w. do {
         w \<leftarrow> upd_db w (mc_db r) (\<lambda>d. d\<lparr>md_overflow_pages := md_overflow_pages d - of_nat pages\<rparr>);
         Some (0, w) }) } }"

fun drop0_leaf ::
  "(world \<Rightarrow> cid \<Rightarrow> (int \<times> world) option) \<Rightarrow> world \<Rightarrow> cid \<Rightarrow> ptr \<Rightarrow> bool \<Rightarrow> nat \<Rightarrow> nat \<Rightarrow> (int \<times> nat \<times> world) option" where
  "drop0_leaf dropsub w mc mp subs 0 i = Some (0, i, w)"
| "drop0_leaf dropsub w mc mp subs (Suc n) i = do {
     ni \<leftarrow> NODEPTR (w_mem w) mp i;
     fl \<leftarrow> mn_flags (w_mem w) ni;
     if any_set fl F_BIGDATA then do {
       (rc, w) \<leftarrow> drop0_overflow w mc ni;
       r \<leftarrow> get_cur w mc;
       db \<leftarrow> get_db w (mc_db r);
       if rc \<noteq> 0 \<or> md_overflow_pages db = 0 \<and> \<not> subs then Some (rc, i, w)
       else drop0_leaf dropsub w mc mp subs n (i + 1) }
     else if subs \<and> any_set fl F_SUBDATA then do {
       w \<leftarrow> mdb_xcursor_init1 w mc ni;
       x \<leftarrow> sub_cursor w mc;
       (rc, w) \<leftarrow> dropsub w x;
       if rc \<noteq> 0 then Some (rc, i, w)
       else drop0_leaf dropsub w mc mp subs n (i + 1) }
     else drop0_leaf dropsub w mc mp subs n (i + 1) }"

text \<open>The children of a branch page go to the list of freed pages, which has room.\<close>

fun drop0_children :: "world \<Rightarrow> tid \<Rightarrow> ptr \<Rightarrow> nat \<Rightarrow> nat \<Rightarrow> world option" where
  "drop0_children w t mp 0 i = Some w"
| "drop0_children w t mp (Suc n) i = do {
     ni \<leftarrow> NODEPTR (w_mem w) mp i;
     pg \<leftarrow> NODEPGNO (w_mem w) ni;
     x \<leftarrow> w_txns w t;
     b \<leftarrow> mdb_midl_xappend (mt_free_pgs x) pg;
     w \<leftarrow> upd_txn w t (\<lambda>x. x\<lparr>mt_free_pgs := b\<rparr>);
     drop0_children w t mp n (i + 1) }"

text \<open>The label \<open>pop\<close>: back to the beginning of the previous level.\<close>

fun drop0_rewind :: "world \<Rightarrow> cid \<Rightarrow> cid \<Rightarrow> nat \<Rightarrow> nat \<Rightarrow> world option" where
  "drop0_rewind w mc mx 0 i = Some w"
| "drop0_rewind w mc mx (Suc n) i = do {
     w \<leftarrow> set_ki w mc i 0;
     p \<leftarrow> get_pg w mx i;
     w \<leftarrow> set_pg w mc i p;
     drop0_rewind w mc mx n (i + 1) }"

definition drop0_pop :: "world \<Rightarrow> cid \<Rightarrow> cid \<Rightarrow> world option" where
  "drop0_pop w mc mx = do {
     w \<leftarrow> mdb_cursor_pop w mc;
     w \<leftarrow> set_ki w mc 0 0;
     r \<leftarrow> get_cur w mc;
     drop0_rewind w mc mx (mc_snum r - 1) 1 }"

text \<open>The page at hand; returns the index reached, and whether to go to \<open>pop\<close>.\<close>

definition drop0_page ::
  "(world \<Rightarrow> cid \<Rightarrow> (int \<times> world) option) \<Rightarrow> world \<Rightarrow> cid \<Rightarrow> bool \<Rightarrow> (int \<times> nat \<times> bool \<times> world) option" where
  "drop0_page dropsub w mc subs = do {
     r \<leftarrow> get_cur w mc;
     mp \<leftarrow> top_pg w mc;
     n \<leftarrow> NUMKEYS (w_mem w) mp;
     leaf \<leftarrow> IS_LEAF (w_mem w) mp;
     if leaf then do {
       (rc, i, w) \<leftarrow> drop0_leaf dropsub w mc mp subs n 0;
       db \<leftarrow> get_db w (mc_db r);
       Some (rc, i, \<not> subs \<and> md_overflow_pages db = 0, w) }
     else do {
       (rc, w) \<leftarrow> free_pgs_do w (mc_txn r) (\<lambda>h b. mdb_midl_need h b n);
       if rc \<noteq> 0 then Some (rc, 0, False, w)
       else do {
         w \<leftarrow> drop0_children w (mc_txn r) mp n 0;
         Some (0, n, False, w) } } }"

partial_function (option) drop0_loop ::
  "(world \<Rightarrow> cid \<Rightarrow> (int \<times> world) option) \<Rightarrow> world \<Rightarrow> cid \<Rightarrow> cid \<Rightarrow> bool \<Rightarrow> (int \<times> world) option" where
  "drop0_loop dropsub w mc mx subs = do {
     r \<leftarrow> get_cur w mc;
     if mc_snum r = 0 then Some (0, w)
     else do {
       (rc, i, pop, w) \<leftarrow> drop0_page dropsub w mc subs;
       if rc \<noteq> 0 then Some (rc, w)
       else if pop then do {
         w \<leftarrow> drop0_pop w mc mx;
         drop0_loop dropsub w mc mx subs }
       else if mc_top r = 0 then Some (0, w)
       else do {
         w \<leftarrow> set_top_ki w mc (i mod 2 ^ 16);
         (rc, w) \<leftarrow> mdb_cursor_sibling w mc True;
         if rc = 0 then drop0_loop dropsub w mc mx subs
         else if rc \<noteq> MDB_NOTFOUND then Some (rc, w)
         else do {
           w \<leftarrow> drop0_pop w mc mx;
           drop0_loop dropsub w mc mx subs } } } }"

declare drop0_loop.simps [code]

definition drop0_tree :: "(world \<Rightarrow> cid \<Rightarrow> (int \<times> world) option) \<Rightarrow> world \<Rightarrow> cid \<Rightarrow> bool \<Rightarrow> (int \<times> world) option" where
  "drop0_tree dropsub w mc subs = do {
     r \<leftarrow> get_cur w mc;
     db \<leftarrow> get_db w (mc_db r);
     w \<leftarrow> (if any_set (mc_flags r) C_SUB \<or> \<not> subs \<and> md_overflow_pages db = 0 then mdb_cursor_pop w mc else Some w);
     let (mx, w) = new_cursor w;
     w \<leftarrow> mdb_cursor_copy w mc mx;
     (rc, w) \<leftarrow> and_then (drop0_loop dropsub w mc mx subs) (\<lambda>w. do {
        db \<leftarrow> get_db w (mc_db r);
        free_pgs_do w (mc_txn r) (\<lambda>h b. mdb_midl_append h b (md_root db)) });
     w \<leftarrow> (if rc \<noteq> 0 then txn_or_flags w (mc_txn r) MDB_TXN_ERROR else Some w);
     Some (rc, drop_cursor w mx) }"

definition drop0_level :: "(world \<Rightarrow> cid \<Rightarrow> (int \<times> world) option) \<Rightarrow> world \<Rightarrow> cid \<Rightarrow> bool \<Rightarrow> (int \<times> world) option" where
  "drop0_level dropsub w mc subs = do {
     (rc, w) \<leftarrow> mdb_page_search mdb_page_touch w mc None MDB_PS_FIRST;
     (rc, w) \<leftarrow> (if rc = MDB_SUCCESS then drop0_tree dropsub w mc subs
        else Some (if rc = MDB_NOTFOUND then MDB_SUCCESS else rc, w));
     w \<leftarrow> clear_flags w mc C_INITIALIZED;
     Some (rc, w) }"

text \<open>A sub-database is dropped without a look for sub-databases in it.\<close>

definition mdb_drop0 :: "world \<Rightarrow> cid \<Rightarrow> bool \<Rightarrow> (int \<times> world) option" where
  "mdb_drop0 w mc subs = drop0_level (\<lambda>w x. drop0_level (\<lambda>_ _. None) w x False) w mc subs"

section \<open>\<^verbatim>\<open>mdb_cursor_del\<close>\<close>

text \<open>The sub-page got smaller: shrink it, and let the other cursors on the page follow.\<close>

definition del_shrink_adjust :: "cid \<Rightarrow> ptr \<Rightarrow> cid \<Rightarrow> world \<Rightarrow> world option" where
  "del_shrink_adjust mc mp m2 w = do {
     r \<leftarrow> get_cur w mc;
     r2 \<leftarrow> get_cur w m2;
     if m2 = mc \<or> mc_snum r2 < mc_snum r \<or> \<not> any_set (mc_flags r2) C_INITIALIZED then Some w
     else do {
       p2 \<leftarrow> rd (mc_pg r2) (mc_top r);
       if p2 = mp then XCURSOR_REFRESH w m2 (mc_top r) mp else Some w } }"

definition del_shrink :: "world \<Rightarrow> cid \<Rightarrow> cid \<Rightarrow> ptr \<Rightarrow> world option" where
  "del_shrink w mc x mp = do {
     ki \<leftarrow> top_ki w mc;
     w \<leftarrow> mem_do w (mdb_node_shrink (w_mem w) mp ki);
     leaf \<leftarrow> NODEPTR (w_mem w) mp ki;
     nd \<leftarrow> NODEDATA (w_mem w) leaf;
     w \<leftarrow> set_pg w x 0 nd;
     r \<leftarrow> get_cur w mc;
     ms \<leftarrow> tracked w (mc_txn r) (mc_dbi r);
     each (del_shrink_adjust mc mp) ms w }"

text \<open>
  Delete one duplicate through the sub-cursor (\<open>del\<close>). \<open>Some rc\<close>: the function returns; \<open>None\<close>:
  that was the last one, and the node goes as well.
\<close>

definition del_dup ::
  "(world \<Rightarrow> cid \<Rightarrow> (int \<times> world) option) \<Rightarrow> world \<Rightarrow> cid \<Rightarrow> ptr \<Rightarrow> ptr \<Rightarrow> (int option \<times> world) option" where
  "del_dup del w mc mp leaf = do {
     r \<leftarrow> get_cur w mc;
     x \<leftarrow> mc_xcursor r;
     fl \<leftarrow> mn_flags (w_mem w) leaf;
     w \<leftarrow> (if \<not> F_ISSET fl F_SUBDATA then do {
          nd \<leftarrow> NODEDATA (w_mem w) leaf;
          set_pg w x 0 nd }
        else Some w);
     (rc, w) \<leftarrow> del w x;
     if rc \<noteq> 0 then Some (Some rc, w)
     else do {
       xx \<leftarrow> w_xcursors w x;
       if md_entries (mx_db xx) \<noteq> 0 then do {
         fl \<leftarrow> mn_flags (w_mem w) leaf;
         w \<leftarrow> (if any_set fl F_SUBDATA then do {
              nd \<leftarrow> NODEDATA (w_mem w) leaf;
              mem_do w (store_db (w_mem w) nd (mx_db xx)) }
            else del_shrink w mc x mp);
         w \<leftarrow> upd_db w (mc_db r) (\<lambda>d. d\<lparr>md_entries := md_entries d - 1\<rparr>);
         Some (Some rc, w) }
       else do {
         w \<leftarrow> clear_flags w x C_INITIALIZED;
         Some (None, w) } } }"

text \<open>The duplicates of a node, one or all of them.\<close>

definition del_dups ::
  "(world \<Rightarrow> cid \<Rightarrow> (int \<times> world) option) \<Rightarrow> world \<Rightarrow> cid \<Rightarrow> ptr \<Rightarrow> ptr \<Rightarrow> u32 \<Rightarrow> (int option \<times> world) option" where
  "del_dups del w mc mp leaf flags = do {
     r \<leftarrow> get_cur w mc;
     x \<leftarrow> mc_xcursor r;
     (ret, w) \<leftarrow> (if any_set flags MDB_NODUPDATA then do {
          xx \<leftarrow> w_xcursors w x;
          w \<leftarrow> upd_db w (mc_db r) (\<lambda>d. d\<lparr>md_entries := md_entries d - (md_entries (mx_db xx) - 1)\<rparr>);
          w \<leftarrow> clear_flags w x C_INITIALIZED;
          Some (None, w) }
        else del_dup del w mc mp leaf);
     if ret \<noteq> None then Some (ret, w)
     else do {
       fl \<leftarrow> mn_flags (w_mem w) leaf;
       if any_set fl F_SUBDATA then do {
         (rc, w) \<leftarrow> mdb_drop0 w x False;
         if rc \<noteq> 0 then do {
           w \<leftarrow> txn_or_flags w (mc_txn r) MDB_TXN_ERROR;
           Some (Some rc, w) }
         else Some (None, w) }
       else Some (None, w) } }"

definition del_overflow :: "world \<Rightarrow> cid \<Rightarrow> ptr \<Rightarrow> (int \<times> world) option" where
  "del_overflow w mc leaf = do {
     nd \<leftarrow> NODEDATA (w_mem w) leaf;
     pg \<leftarrow> map_option of_nat (ld64 (w_mem w) nd);
     (rc, omp, _, w) \<leftarrow> mdb_page_get w mc pg;
     if rc \<noteq> 0 then Some (rc, w) else mdb_ovpage_free w mc omp }"

text \<open>From the test for overflow pages on, with the label \<open>fail\<close>.\<close>

definition del_node :: "world \<Rightarrow> cid \<Rightarrow> ptr \<Rightarrow> (int \<times> world) option" where
  "del_node w mc leaf = do {
     r \<leftarrow> get_cur w mc;
     fl \<leftarrow> mn_flags (w_mem w) leaf;
     (rc, w) \<leftarrow> (if F_ISSET fl F_BIGDATA then del_overflow w mc leaf else Some (0, w));
     if rc \<noteq> 0 then do {
       w \<leftarrow> txn_or_flags w (mc_txn r) MDB_TXN_ERROR;
       Some (rc, w) }
     else mdb_cursor_del0 w mc }"

definition del_item :: "(world \<Rightarrow> cid \<Rightarrow> (int \<times> world) option) \<Rightarrow> world \<Rightarrow> cid \<Rightarrow> u32 \<Rightarrow> (int \<times> world) option" where
  "del_item del w mc flags = do {
     r \<leftarrow> get_cur w mc;
     mp \<leftarrow> top_pg w mc;
     ki \<leftarrow> top_ki w mc;
     leaf2 \<leftarrow> IS_LEAF2 (w_mem w) mp;
     if leaf2 then mdb_cursor_del0 w mc
     else do {
       leaf \<leftarrow> NODEPTR (w_mem w) mp ki;
       fl \<leftarrow> mn_flags (w_mem w) leaf;
       if F_ISSET fl F_DUPDATA then do {
         (ret, w) \<leftarrow> del_dups del w mc mp leaf flags;
         (case ret of
            Some rc \<Rightarrow> Some (rc, w)
          | None \<Rightarrow> del_node w mc leaf) }
       else if any_set (fl XOR flags) F_SUBDATA then do {
         w \<leftarrow> txn_or_flags w (mc_txn r) MDB_TXN_ERROR;
         Some (MDB_INCOMPATIBLE, w) }
       else del_node w mc leaf } }"

text \<open>Two levels, as for \<^verbatim>\<open>mdb_cursor_put\<close>.\<close>

fun cursor_del :: "nat \<Rightarrow> world \<Rightarrow> cid \<Rightarrow> u32 \<Rightarrow> (int \<times> world) option" where
  "cursor_del 0 w mc flags = None"
| "cursor_del (Suc d) w mc flags = do {
     r \<leftarrow> get_cur w mc;
     x \<leftarrow> w_txns w (mc_txn r);
     if any_set (mt_flags x) (MDB_TXN_RDONLY OR MDB_TXN_BLOCKED)
     then Some (if any_set (mt_flags x) MDB_TXN_RDONLY then EACCES else MDB_BAD_TXN, w)
     else if \<not> any_set (mc_flags r) C_INITIALIZED then Some (EINVAL, w)
     else do {
       mp \<leftarrow> top_pg w mc;
       ki \<leftarrow> top_ki w mc;
       n \<leftarrow> NUMKEYS (w_mem w) mp;
       if ki \<ge> n then Some (MDB_NOTFOUND, w)
       else and_then (if any_set flags MDB_NOSPILL then Some (0, w) else mdb_page_spill w mc None None) (\<lambda>w.
         and_then (mdb_cursor_touch w mc) (\<lambda>w. del_item (\<lambda>w x. cursor_del d w x MDB_NOSPILL) w mc flags)) } }"

definition mdb_cursor_del :: "world \<Rightarrow> cid \<Rightarrow> u32 \<Rightarrow> (int \<times> world) option" where
  "mdb_cursor_del w mc flags = cursor_del 2 w mc flags"

section \<open>\<^verbatim>\<open>mdb_del\<close>\<close>

definition mdb_del0 :: "world \<Rightarrow> tid \<Rightarrow> nat \<Rightarrow> MDB_val \<Rightarrow> MDB_val option \<Rightarrow> u32 \<Rightarrow> (int \<times> world) option" where
  "mdb_del0 w t dbi key data flags = do {
     let (mc, w) = new_cursor w;
     let (mx, w) = new_xcursor w;
     w \<leftarrow> mdb_cursor_init mdb_page_touch w mc t dbi (Some mx);
     (rc, _, _, _, w) \<leftarrow> mdb_cursor_set 2 mdb_page_touch w mc key data
        (if data \<noteq> None then MDB_GET_BOTH else MDB_SET) (Some False);
     (rc, w) \<leftarrow> (if rc = 0
        then with_tracked w t dbi mc (\<lambda>w. mdb_cursor_del w mc (if data \<noteq> None then flags else flags OR MDB_NODUPDATA))
        else Some (rc, w));
     Some (rc, drop_cursor (drop_cursor w mx) mc) }"

definition mdb_del :: "world \<Rightarrow> tid option \<Rightarrow> nat \<Rightarrow> MDB_val option \<Rightarrow> MDB_val option \<Rightarrow> (int \<times> world) option" where
  "mdb_del w txn dbi key data = do {
     ok \<leftarrow> TXN_DBI_EXIST w txn dbi DB_USRVALID;
     (case (txn, key) of
        (Some t, Some k) \<Rightarrow>
          if \<not> ok then Some (EINVAL, w)
          else do {
            x \<leftarrow> w_txns w t;
            db \<leftarrow> rd (mt_dbs x) dbi;
            if any_set (mt_flags x) (MDB_TXN_RDONLY OR MDB_TXN_BLOCKED)
            then Some (if any_set (mt_flags x) MDB_TXN_RDONLY then EACCES else MDB_BAD_TXN, w)
            else mdb_del0 w t dbi k (if F_ISSET (md_flags db) MDB_DUPSORT then data else None) 0 }
      | _ \<Rightarrow> Some (EINVAL, w)) }"

end
