(* ===== verification/Meta.thy ===== *)
theory Meta
  imports Del
begin

text \<open>
  The two meta pages (\<^verbatim>\<open>lmdb/mdb.c\<close>): \<^verbatim>\<open>MDB_meta\<close> as bytes, which page is current
  (\<^verbatim>\<open>mdb_env_pick_meta\<close>), how a commit writes one (\<^verbatim>\<open>mdb_env_write_meta\<close>), how a new
  file gets them and how they are read before the file is mapped. The data file and its map are
  one block; a system call repeated on \<^verbatim>\<open>EINTR\<close> has its final outcome.
\<close>

abbreviation (input) MDB_MAGIC :: u32 where "MDB_MAGIC \<equiv> 0xBEEFC0DE"
abbreviation (input) MDB_DATA_VERSION :: u32 where "MDB_DATA_VERSION \<equiv> 1"
abbreviation (input) MDB_FATAL_ERROR :: u32 where "MDB_FATAL_ERROR \<equiv> 0x80000000"
abbreviation (input) ENOSPC :: int where "ENOSPC \<equiv> 28"

section \<open>\<open>MDB_meta\<close> in memory\<close>

record MDB_meta =
  mm_magic :: u32
  mm_version :: u32
  mm_address :: u64
  mm_mapsize :: u64
  mm_dbs :: "MDB_db list"
  mm_last_pg :: u64
  mm_txnid :: u64

abbreviation (input) META_SIZE :: nat where "META_SIZE \<equiv> 136"

text \<open>\<^verbatim>\<open>offsetof(MDB_meta, mm_mapsize)\<close>\<close>

abbreviation (input) META_TAIL :: nat where "META_TAIL \<equiv> 16"

definition load_meta :: "mem \<Rightarrow> ptr \<Rightarrow> MDB_meta option" where
  "load_meta m p = do {
     mg \<leftarrow> ld32 m p;
     vs \<leftarrow> ld32 m (padd p 4);
     ad \<leftarrow> ld64 m (padd p 8);
     ms \<leftarrow> ld64 m (padd p 16);
     d0 \<leftarrow> load_db m (padd p 24);
     d1 \<leftarrow> load_db m (padd p 72);
     lp \<leftarrow> ld64 m (padd p 120);
     tx \<leftarrow> ld64 m (padd p 128);
     Some \<lparr>mm_magic = of_nat mg, mm_version = of_nat vs, mm_address = of_nat ad, mm_mapsize = of_nat ms,
       mm_dbs = [d0, d1], mm_last_pg = of_nat lp, mm_txnid = of_nat tx\<rparr> }"

text \<open>The bytes from \<^verbatim>\<open>mm_mapsize\<close> on, and all of them.\<close>

definition meta_tail_bytes :: "MDB_meta \<Rightarrow> u8 list" where
  "meta_tail_bytes t = le_bytes 8 (unat (mm_mapsize t)) @ db_bytes (mm_dbs t ! FREE_DBI) @ db_bytes (mm_dbs t ! MAIN_DBI) @
     le_bytes 8 (unat (mm_last_pg t)) @ le_bytes 8 (unat (mm_txnid t))"

definition meta_bytes :: "MDB_meta \<Rightarrow> u8 list" where
  "meta_bytes t = le_bytes 4 (unat (mm_magic t)) @ le_bytes 4 (unat (mm_version t)) @ le_bytes 8 (unat (mm_address t)) @
     meta_tail_bytes t"

text \<open>\<^verbatim>\<open>env->me_metas[i]\<close>, as \<^verbatim>\<open>mdb_env_map\<close> sets it.\<close>

definition me_metas :: "world \<Rightarrow> nat \<Rightarrow> ptr" where
  "me_metas w i = Ptr Map (me_psize (w_env w) * i + PAGEHDRSZ)"

definition get_meta :: "world \<Rightarrow> nat \<Rightarrow> MDB_meta option" where
  "get_meta w i = load_meta (w_mem w) (me_metas w i)"

text \<open>\<^verbatim>\<open>mm_psize\<close> and \<^verbatim>\<open>mm_flags\<close> are fields of the freeDB record.\<close>

definition mm_psize :: "MDB_meta \<Rightarrow> u32" where
  "mm_psize t = md_pad (mm_dbs t ! FREE_DBI)"

section \<open>Which meta page is current\<close>

text \<open>The index of the page \<^verbatim>\<open>mdb_env_pick_meta\<close> returns.\<close>

definition mdb_env_pick_meta :: "world \<Rightarrow> nat option" where
  "mdb_env_pick_meta w = do {
     m0 \<leftarrow> get_meta w 0;
     m1 \<leftarrow> get_meta w 1;
     Some (if (mm_txnid m0 < mm_txnid m1) \<noteq> any_set (me_flags (w_env w)) MDB_PREVSNAPSHOT then 1 else 0) }"

definition picked_meta :: "world \<Rightarrow> MDB_meta option" where
  "picked_meta w = do { i \<leftarrow> mdb_env_pick_meta w; get_meta w i }"

section \<open>Syncing\<close>

definition mdb_env_sync0 :: "world \<Rightarrow> bool \<Rightarrow> u64 \<Rightarrow> int \<times> world" where
  "mdb_env_sync0 w force numpgs = (
     let flags = me_flags (w_env w) in
     if any_set flags MDB_RDONLY then (EACCES, w)
     else if force \<or> \<not> F_ISSET flags MDB_NOSYNC then syscall w
     else (0, w))"

definition mdb_env_sync :: "world \<Rightarrow> bool \<Rightarrow> (int \<times> world) option" where
  "mdb_env_sync w force = do {
     m \<leftarrow> picked_meta w;
     Some (mdb_env_sync0 w force (mm_last_pg m + 1)) }"

section \<open>Writing a meta page at commit\<close>

text \<open>The stores of a writable map, in their order.\<close>

definition write_meta_map :: "mem \<Rightarrow> ptr \<Rightarrow> u64 \<Rightarrow> MDB_db \<Rightarrow> MDB_db \<Rightarrow> u64 \<Rightarrow> u64 \<Rightarrow> mem option" where
  "write_meta_map m mp mapsize db0 db1 last_pg txnid = do {
     m \<leftarrow> st64 m (padd mp 16) (unat mapsize);
     m \<leftarrow> store_db m (padd mp 24) db0;
     m \<leftarrow> store_db m (padd mp 72) db1;
     m \<leftarrow> st64 m (padd mp 120) (unat last_pg);
     st64 m (padd mp 128) (unat txnid) }"

text \<open>
  \<^verbatim>\<open>pwrite\<close> of bytes inside the map. When it fails or is short, the next outcome says how many of
  the bytes are in the page cache, and so in the map, all the same.
\<close>

definition pwrite_map :: "world \<Rightarrow> ptr \<Rightarrow> u8 list \<Rightarrow> (int \<times> world) option" where
  "pwrite_map w p bs = do {
     let (res, w) = syscall w;
     if res = 0 then do { w \<leftarrow> mem_do w (store (w_mem w) p bs); Some (0, w) }
     else do {
       let (k, w) = syscall w;
       w \<leftarrow> mem_do w (store (w_mem w) p (take (nat k) bs));
       Some (if res > 0 then res else EIO, w) } }"

text \<open>The label \<^verbatim>\<open>done\<close>.\<close>

definition write_meta_done :: "world \<Rightarrow> u64 \<Rightarrow> int \<times> world" where
  "write_meta_done w txnid = (MDB_SUCCESS,
     upd_env w (\<lambda>e. e\<lparr>me_txns := map_option (\<lambda>ti. ti\<lparr>mti_txnid := txnid\<rparr>) (me_txns e)\<rparr>))"

definition write_meta_fail :: "world \<Rightarrow> int \<Rightarrow> int \<times> world" where
  "write_meta_fail w rc = (rc, upd_env w (\<lambda>e. e\<lparr>me_flags := me_flags e OR MDB_FATAL_ERROR\<rparr>))"

definition mdb_env_write_meta :: "world \<Rightarrow> tid \<Rightarrow> (int \<times> world) option" where
  "mdb_env_write_meta w t = do {
     x \<leftarrow> w_txns w t;
     let toggle = unat (mt_txnid x AND 1);
     let flags = mt_flags x OR me_flags (w_env w);
     let mp = me_metas w toggle;
     old \<leftarrow> get_meta w toggle;
     other \<leftarrow> get_meta w (1 - toggle);
     let mapsize = max (mm_mapsize other) (of_nat (me_mapsize (w_env w)));
     db0 \<leftarrow> rd (mt_dbs x) FREE_DBI;
     db1 \<leftarrow> rd (mt_dbs x) MAIN_DBI;
     if any_set flags MDB_WRITEMAP then do {
       w \<leftarrow> mem_do w (write_meta_map (w_mem w) mp mapsize db0 db1 (mt_next_pgno x - 1) (mt_txnid x));
       let (rc, w) = (if \<not> any_set flags (MDB_NOMETASYNC OR MDB_NOSYNC) then syscall w else (0, w));
       Some (if rc \<noteq> 0 then write_meta_fail w rc else write_meta_done w (mt_txnid x)) }
     else do {
       let new = old\<lparr>mm_mapsize := mapsize, mm_dbs := [db0, db1], mm_last_pg := mt_next_pgno x - 1, mm_txnid := mt_txnid x\<rparr>;
       (rc, w) \<leftarrow> pwrite_map w (padd mp META_TAIL) (meta_tail_bytes new);
       if rc \<noteq> 0 then do {
         (_, w) \<leftarrow> pwrite_map w (padd mp META_TAIL) (meta_tail_bytes (new\<lparr>mm_last_pg := mm_last_pg old, mm_txnid := mm_txnid old\<rparr>));
         Some (write_meta_fail w rc) }
       else Some (write_meta_done w (mt_txnid x)) } }"

section \<open>The meta pages of a new file\<close>

definition mdb_env_init_meta0 :: "MDB_env \<Rightarrow> MDB_meta" where
  "mdb_env_init_meta0 env = \<lparr>mm_magic = MDB_MAGIC, mm_version = MDB_DATA_VERSION, mm_address = 0,
     mm_mapsize = of_nat (me_mapsize env),
     mm_dbs = [blank_db\<lparr>md_pad := of_nat (me_psize env), md_flags := (me_flags env AND 0xffff) OR MDB_INTEGERKEY, md_root := P_INVALID\<rparr>,
               blank_db\<lparr>md_root := P_INVALID\<rparr>],
     mm_last_pg = of_nat (NUM_METAS - 1), mm_txnid = 0\<rparr>"

text \<open>A meta page: number, zeros, flags, zeros, the record, zeros.\<close>

definition meta_page :: "nat \<Rightarrow> nat \<Rightarrow> MDB_meta \<Rightarrow> u8 list" where
  "meta_page psize pgno t = le_bytes 8 pgno @ le_bytes 2 0 @ le_bytes 2 (unat P_META) @ le_bytes 4 0 @ meta_bytes t @
     replicate (psize - (PAGEHDRSZ + META_SIZE)) 0"

text \<open>Write at a position of the file, which grows as needed.\<close>

definition file_write :: "mem \<Rightarrow> nat \<Rightarrow> u8 list \<Rightarrow> mem" where
  "file_write m pos ys = (let bs = (case m Map of None \<Rightarrow> [] | Some bs \<Rightarrow> bs) in
     m(Map \<mapsto> take pos (bs @ replicate (pos - length bs) 0) @ ys @ drop (pos + length ys) bs))"

definition mdb_env_init_meta :: "world \<Rightarrow> MDB_meta \<Rightarrow> int \<times> world" where
  "mdb_env_init_meta w t = (
     let psize = me_psize (w_env w);
         ok = (w_malloc w (w_calls w) \<noteq> None);
         w = tick w
     in if \<not> ok then (ENOMEM, w)
        else let (res, w) = syscall w
          in if res > 0 then (res, w)
             else if res < 0 then (ENOSPC, w)
             else (MDB_SUCCESS, w\<lparr>w_mem := file_write (w_mem w) 0 (meta_page psize 0 t @ meta_page psize 1 t)\<rparr>))"

section \<open>Reading the meta pages of a file\<close>

text \<open>\<^verbatim>\<open>pread\<close> of a page header and meta record; less at the end of the file.\<close>

definition read_metabuf :: "world \<Rightarrow> nat \<Rightarrow> (int \<times> u8 list) \<times> world" where
  "read_metabuf w off = (let (res, w) = syscall w in
     ((if res > 0 then res else 0,
       if res > 0 then [] else take (PAGEHDRSZ + META_SIZE) (drop off (case w_mem w Map of None \<Rightarrow> [] | Some bs \<Rightarrow> bs))), w))"

text \<open>The checks on one buffer, and its record.\<close>

definition check_metabuf :: "u8 list \<Rightarrow> (int \<times> MDB_meta) option" where
  "check_metabuf bs = do {
     let m = (\<lambda>_. None)(Map \<mapsto> bs);
     fl \<leftarrow> mp_flags m (Ptr Map 0);
     t \<leftarrow> load_meta m (METADATA (Ptr Map 0));
     Some (if \<not> F_ISSET fl P_META then MDB_INVALID
           else if mm_magic t \<noteq> MDB_MAGIC then MDB_INVALID
           else if mm_version t \<noteq> MDB_DATA_VERSION then MDB_VERSION_MISMATCH
           else 0, t) }"

text \<open>The loop over the pages; the second is where the first one says its page size ends.\<close>

fun read_header_loop :: "nat \<Rightarrow> world \<Rightarrow> bool \<Rightarrow> nat \<Rightarrow> MDB_meta \<Rightarrow> (int \<times> MDB_meta \<times> world) option" where
  "read_header_loop 0 w prev off meta = Some (0, meta, w)"
| "read_header_loop (Suc n) w prev off meta = do {
     let ((err, bs), w) = read_metabuf w off;
     if length bs \<noteq> PAGEHDRSZ + META_SIZE then
       Some (if err \<noteq> 0 then err else if bs = [] \<and> off = 0 then ENOENT else MDB_INVALID, meta, w)
     else do {
       (rc, t) \<leftarrow> check_metabuf bs;
       if rc \<noteq> 0 then Some (rc, meta, w)
       else do {
         let meta = (if off = 0 \<or> (if prev then mm_txnid t < mm_txnid meta else mm_txnid t > mm_txnid meta) then t else meta);
         read_header_loop n w prev (off + unat (mm_psize meta)) meta } } }"

text \<open>The record of the caller is returned updated; its old value is the last argument.\<close>

definition mdb_env_read_header :: "world \<Rightarrow> bool \<Rightarrow> MDB_meta \<Rightarrow> (int \<times> MDB_meta \<times> world) option" where
  "mdb_env_read_header w prev meta = read_header_loop NUM_METAS w prev 0 meta"

end
