(* ===== verification/Readers.thy ===== *)
theory Readers
  imports Meta
begin

text \<open>
  The reader table (\<^verbatim>\<open>lmdb/mdb.c\<close>): clearing the slots of dead processes
  (\<^verbatim>\<open>mdb_reader_check0\<close>), the sorted list of process ids it uses (\<^verbatim>\<open>mdb_pid_insert\<close>),
  and the recovery of a mutex whose owner died (\<^verbatim>\<open>mdb_mutex_failed\<close>). Locks and process
  checks are system calls; the outcome of a process check is 0 when the process is dead.
\<close>

section \<open>The list of process ids\<close>

text \<open>
  The search loop: whether the id is there, and the slot it is in or has to go to. \<open>cmp c\<close> is the
  difference to the id in slot \<open>c\<close>.
\<close>

function pid_search :: "(nat \<Rightarrow> int option) \<Rightarrow> nat \<Rightarrow> nat \<Rightarrow> int \<Rightarrow> nat \<Rightarrow> (bool \<times> nat) option" where
  "pid_search cmp base cursor val n =
     (if 0 < n then
        (let pivot = n div 2; cursor = base + pivot + 1 in
         case cmp cursor of
           None \<Rightarrow> None
         | Some val \<Rightarrow>
             if val < 0 then pid_search cmp base cursor val pivot
             else if val > 0 then pid_search cmp cursor cursor val (n - (pivot + 1))
             else Some (True, cursor))
      else Some (False, if val > 0 then cursor + 1 else cursor))"
  by pat_completeness auto
termination
  by (relation "measure (\<lambda>(cmp, base, cursor, val, n). n)") auto

declare pid_search.simps [simp del]

definition mdb_pid_insert :: "nat list \<Rightarrow> nat \<Rightarrow> (int \<times> nat list) option" where
  "mdb_pid_insert ids pid = do {
     n \<leftarrow> rd ids 0;
     (found, cursor) \<leftarrow> pid_search (\<lambda>c. map_option (\<lambda>x. int pid - int x) (rd ids c)) 0 1 0 n;
     if found then Some (-1, ids)
     else do {
       ids \<leftarrow> wr ids 0 (n + 1);
       ids \<leftarrow> shift_up ids (n + 1) cursor;
       ids \<leftarrow> wr ids (if n + 1 > cursor then cursor else n + 1) pid;
       Some (0, ids) } }"

section \<open>Stale readers\<close>

text \<open>\<^verbatim>\<open>mdb_reader_pid\<close>: set a process's lock on its byte of the lock file, or test it.\<close>

definition mdb_reader_pid :: "world \<Rightarrow> int \<times> world" where
  "mdb_reader_pid w = syscall w"

definition upd_readers :: "world \<Rightarrow> (MDB_txninfo \<Rightarrow> MDB_txninfo) \<Rightarrow> world" where
  "upd_readers w f = upd_env w (\<lambda>e. e\<lparr>me_txns := map_option f (me_txns e)\<rparr>)"

text \<open>\<^verbatim>\<open>for (; j<rdrs; j++)\<close>: clear the slots of a process from \<open>j\<close> on.\<close>

fun clear_pid :: "MDB_reader list \<Rightarrow> nat \<Rightarrow> nat \<Rightarrow> nat \<Rightarrow> nat \<Rightarrow> (MDB_reader list \<times> nat) option" where
  "clear_pid mr pid 0 j cnt = Some (mr, cnt)"
| "clear_pid mr pid (Suc n) j cnt = do {
     r \<leftarrow> rd mr j;
     (mr, cnt) \<leftarrow> (if mr_pid r = pid then do { mr \<leftarrow> wr mr j (r\<lparr>mr_pid := 0\<rparr>); Some (mr, cnt + 1) }
        else Some (mr, cnt));
     clear_pid mr pid n (j + 1) cnt }"

text \<open>Acquire the mutex if it is not held (\<^verbatim>\<open>rlocked\<close>); \<open>failed\<close> is \<^verbatim>\<open>mdb_mutex_failed\<close>.\<close>

type_synonym mutex_failed = "world \<Rightarrow> bool \<Rightarrow> int \<Rightarrow> (int \<times> world) option"

text \<open>
  A stale process: with the mutex held, clear its slots from \<open>i\<close> on. Returns the return code,
  whether to stop, the new bound of the loop and the count.
\<close>

definition check_stale ::
  "mutex_failed \<Rightarrow> world \<Rightarrow> bool \<Rightarrow> nat \<Rightarrow> nat \<Rightarrow> nat \<Rightarrow> nat \<Rightarrow> (int \<times> bool \<times> nat \<times> nat \<times> world) option" where
  "check_stale failed w rlocked pid i rdrs cnt = do {
     (rc, stop, j, rdrs, w) \<leftarrow> (if rlocked then Some (0, False, i, rdrs, w)
        else do {
          let (rc, w) = syscall w;
          if rc \<noteq> 0 then do {
            (rc, w) \<leftarrow> failed w True rc;
            Some (rc, rc \<noteq> 0, i, if rc \<noteq> 0 then rdrs else 0, w) }
          else do {
            let (alive, w) = mdb_reader_pid w;
            Some (0, False, if alive \<noteq> 0 then rdrs else i, rdrs, w) } });
     if stop then Some (rc, True, rdrs, cnt, w)
     else do {
       ti \<leftarrow> me_txns (w_env w);
       (mr, cnt) \<leftarrow> clear_pid (mti_readers ti) pid (rdrs - j) j cnt;
       Some (rc, False, rdrs, cnt, upd_readers w (\<lambda>ti. ti\<lparr>mti_readers := mr\<rparr>)) } }"

text \<open>The loop over the slots in use; \<open>n\<close> bounds it, \<open>rdrs\<close> ends it.\<close>

fun reader_check_loop ::
  "mutex_failed \<Rightarrow> world \<Rightarrow> bool \<Rightarrow> nat \<Rightarrow> nat \<Rightarrow> nat \<Rightarrow> nat list \<Rightarrow> int \<Rightarrow> nat \<Rightarrow> (int \<times> nat \<times> world) option" where
  "reader_check_loop failed w rlocked 0 i rdrs pids rc cnt = Some (rc, cnt, w)"
| "reader_check_loop failed w rlocked (Suc n) i rdrs pids rc cnt =
     (if \<not> i < rdrs then Some (rc, cnt, w)
      else do {
        ti \<leftarrow> me_txns (w_env w);
        r \<leftarrow> rd (mti_readers ti) i;
        let pid = mr_pid r;
        if pid = 0 \<or> pid = me_pid (w_env w) then reader_check_loop failed w rlocked n (i + 1) rdrs pids rc cnt
        else do {
          (ins, pids) \<leftarrow> mdb_pid_insert pids pid;
          if ins \<noteq> 0 then reader_check_loop failed w rlocked n (i + 1) rdrs pids rc cnt
          else do {
            let (alive, w) = mdb_reader_pid w;
            if alive \<noteq> 0 then reader_check_loop failed w rlocked n (i + 1) rdrs pids rc cnt
            else do {
              (rc, stop, rdrs, cnt, w) \<leftarrow> check_stale failed w rlocked pid i rdrs cnt;
              if stop then Some (rc, cnt, w)
              else reader_check_loop failed w rlocked n (i + 1) rdrs pids rc cnt } } } })"

text \<open>
  \<^verbatim>\<open>mdb_reader_check0\<close>. The list of ids has room for every slot and its length. It and
  \<^verbatim>\<open>mdb_mutex_failed\<close> call each other once at most, since the second call holds the mutex.
\<close>

definition reader_check_with :: "mutex_failed \<Rightarrow> world \<Rightarrow> bool \<Rightarrow> (int \<times> nat option \<times> world) option" where
  "reader_check_with failed w rlocked = do {
     ti \<leftarrow> me_txns (w_env w);
     let rdrs = mti_numreaders ti;
     if w_malloc w (w_calls w) = None then Some (ENOMEM, None, tick w)
     else do {
       (rc, cnt, w) \<leftarrow> reader_check_loop failed (tick w) rlocked rdrs 0 rdrs (replicate (rdrs + 1) 0) MDB_SUCCESS 0;
       Some (rc, Some cnt, w) } }"

section \<open>A mutex whose owner died\<close>

abbreviation (input) MDB_OWNERDEAD :: int where "MDB_OWNERDEAD \<equiv> 130"

text \<open>The repair of the state the writer mutex protects.\<close>

definition recover_writer :: "world \<Rightarrow> (int \<times> world) option" where
  "recover_writer w = do {
     m \<leftarrow> picked_meta w;
     ti \<leftarrow> me_txns (w_env w);
     let w = upd_readers w (\<lambda>ti. ti\<lparr>mti_txnid := mm_txnid m\<rparr>);
     Some (if me_txn (w_env w) \<noteq> None
           then (MDB_PANIC, upd_env w (\<lambda>e. e\<lparr>me_flags := me_flags e OR MDB_FATAL_ERROR, me_txn := None\<rparr>))
           else (MDB_SUCCESS, w)) }"

text \<open>\<open>is_r\<close> says which of the two mutexes it is.\<close>

fun mutex_failed_level :: "nat \<Rightarrow> world \<Rightarrow> bool \<Rightarrow> int \<Rightarrow> (int \<times> world) option" where
  "mutex_failed_level 0 w is_r rc = None"
| "mutex_failed_level (Suc d) w is_r rc =
     (if rc = MDB_OWNERDEAD then do {
        (rc, w) \<leftarrow> (if is_r then Some (MDB_SUCCESS, w) else recover_writer w);
        (rc2, _, w) \<leftarrow> reader_check_with (mutex_failed_level d) w is_r;
        let (rc2, w) = (if rc2 = 0 then syscall w else (rc2, w));
        Some (if rc \<noteq> 0 then rc else rc2, w) }
      else Some (rc, w))"

text \<open>The writer mutex, then the reader mutex, then none.\<close>

definition mdb_mutex_failed :: "world \<Rightarrow> bool \<Rightarrow> int \<Rightarrow> (int \<times> world) option" where
  "mdb_mutex_failed w is_r rc = mutex_failed_level 3 w is_r rc"

definition LOCK_MUTEX :: "world \<Rightarrow> bool \<Rightarrow> (int \<times> world) option" where
  "LOCK_MUTEX w is_r = do {
     let (rc, w) = syscall w;
     if rc \<noteq> 0 then mdb_mutex_failed w is_r rc else Some (0, w) }"

definition mdb_reader_check0 :: "world \<Rightarrow> bool \<Rightarrow> (int \<times> nat option \<times> world) option" where
  "mdb_reader_check0 w rlocked = reader_check_with mdb_mutex_failed w rlocked"

definition mdb_reader_check :: "world \<Rightarrow> (int \<times> nat \<times> world) option" where
  "mdb_reader_check w = (case me_txns (w_env w) of
     None \<Rightarrow> Some (MDB_SUCCESS, 0, w)
   | Some _ \<Rightarrow> do {
       (rc, dead, w) \<leftarrow> mdb_reader_check0 w False;
       Some (rc, case dead of None \<Rightarrow> 0 | Some n \<Rightarrow> n, w) })"

end
