(* ===== verification/Txn.thy ===== *)
theory Txn
  imports Readers
begin

text \<open>
  Transactions (\<^verbatim>\<open>lmdb/mdb.c\<close>): beginning, renewing and ending them, and the cursors of
  nested ones. \<^verbatim>\<open>env->me_dirty_list\<close> and \<^verbatim>\<open>env->me_free_pgs\<close> are lent to the write
  transaction; between transactions only their capacity matters. Mutex unlocking changes nothing
  in the state.
\<close>

abbreviation (input) MDB_TXN_BEGIN_FLAGS :: u32 where
  "MDB_TXN_BEGIN_FLAGS \<equiv> MDB_NOMETASYNC OR MDB_NOSYNC OR MDB_RDONLY"

abbreviation (input) MDB_END_COMMITTED :: u32 where "MDB_END_COMMITTED \<equiv> 0"
abbreviation (input) MDB_END_EMPTY_COMMIT :: u32 where "MDB_END_EMPTY_COMMIT \<equiv> 1"
abbreviation (input) MDB_END_ABORT :: u32 where "MDB_END_ABORT \<equiv> 2"
abbreviation (input) MDB_END_RESET :: u32 where "MDB_END_RESET \<equiv> 3"
abbreviation (input) MDB_END_FAIL_BEGIN :: u32 where "MDB_END_FAIL_BEGIN \<equiv> 5"
abbreviation (input) MDB_END_FAIL_BEGINCHILD :: u32 where "MDB_END_FAIL_BEGINCHILD \<equiv> 6"
abbreviation (input) MDB_END_UPDATE :: u32 where "MDB_END_UPDATE \<equiv> 0x10"
abbreviation (input) MDB_END_FREE :: u32 where "MDB_END_FREE \<equiv> 0x20"
abbreviation (input) MDB_END_SLOT :: u32 where "MDB_END_SLOT \<equiv> MDB_NOTLS"

section \<open>Cursors of nested transactions\<close>

text \<open>
  Back up one cursor of the parent and hand it to the child \<open>dst\<close>. The backup of its
  \<^verbatim>\<open>MDB_xcursor\<close> follows the backup, \<^verbatim>\<open>bk+1\<close>. The block is sized for the first cursor of
  the list.
\<close>

definition shadow_one :: "tid \<Rightarrow> nat \<Rightarrow> bool \<Rightarrow> cid \<Rightarrow> world \<Rightarrow> (int \<times> world) option" where
  "shadow_one dst i room mc w = do {
     r \<leftarrow> get_cur w mc;
     let ok = (w_malloc w (w_calls w) \<noteq> None);
     let w = tick w;
     if \<not> ok then Some (ENOMEM, w)
     else do {
       let bk = w_next w;
       let w = put_cur (w\<lparr>w_next := w_next w + 2\<rparr>) bk r;
       let w = put_cur w mc (r\<lparr>mc_backup := Some bk, mc_db := TxnDb dst i, mc_txn := dst, mc_dbflag := TxnDb dst i\<rparr>);
       (case mc_xcursor r of
          None \<Rightarrow> Some (0, w)
        | Some x \<Rightarrow> do {
            xr \<leftarrow> get_cur w x;
            xx \<leftarrow> w_xcursors w x;
            if \<not> room then None
            else do {
              let w = put_cur (w\<lparr>w_xcursors := (w_xcursors w)(bk + 1 \<mapsto> xx)\<rparr>) (bk + 1) xr;
              Some (0, put_cur w x (xr\<lparr>mc_txn := dst\<rparr>)) } }) } }"

fun shadow_list :: "tid \<Rightarrow> nat \<Rightarrow> bool \<Rightarrow> cid list \<Rightarrow> world \<Rightarrow> (int \<times> world) option" where
  "shadow_list dst i room [] w = Some (0, w)"
| "shadow_list dst i room (mc # ms) w =
     and_then (shadow_one dst i room mc w) (\<lambda>w. do {
       l \<leftarrow> tracked w dst i;
       w \<leftarrow> set_tracked w dst i (mc # l);
       shadow_list dst i room ms w })"

fun shadow_dbs :: "tid \<Rightarrow> tid \<Rightarrow> nat \<Rightarrow> world \<Rightarrow> (int \<times> world) option" where
  "shadow_dbs src dst 0 w = Some (MDB_SUCCESS, w)"
| "shadow_dbs src dst (Suc i) w = do {
     ms \<leftarrow> tracked w src i;
     room \<leftarrow> (case ms of [] \<Rightarrow> Some False | mc # _ \<Rightarrow> map_option (\<lambda>r. mc_xcursor r \<noteq> None) (get_cur w mc));
     and_then (shadow_list dst i room ms w) (shadow_dbs src dst i) }"

definition mdb_cursor_shadow :: "world \<Rightarrow> tid \<Rightarrow> tid \<Rightarrow> (int \<times> world) option" where
  "mdb_cursor_shadow w src dst = do {
     x \<leftarrow> w_txns w src;
     shadow_dbs src dst (mt_numdbs x) w }"

text \<open>
  A cursor of the transaction goes back to its parent, with its changes (\<open>merge\<close>) or as it was, or
  is freed.
\<close>

definition close_one :: "bool \<Rightarrow> cid \<Rightarrow> world \<Rightarrow> world option" where
  "close_one merge mc w = do {
     r \<leftarrow> get_cur w mc;
     (case mc_backup r of
        None \<Rightarrow> Some (case mc_xcursor r of None \<Rightarrow> drop_cursor w mc | Some x \<Rightarrow> drop_cursor (drop_cursor w x) mc)
      | Some bk \<Rightarrow> do {
          b \<leftarrow> get_cur w bk;
          w \<leftarrow> (if merge then do {
               let w = put_cur w mc (r\<lparr>mc_backup := mc_backup b, mc_txn := mc_txn b, mc_db := mc_db b, mc_dbflag := mc_dbflag b\<rparr>);
               (case mc_xcursor r of
                  None \<Rightarrow> Some w
                | Some x \<Rightarrow> upd_cur w x (\<lambda>c. c\<lparr>mc_txn := mc_txn b\<rparr>)) }
             else do {
               let w = put_cur w mc b;
               (case mc_xcursor b of
                  None \<Rightarrow> Some w
                | Some x \<Rightarrow> do {
                    xr \<leftarrow> get_cur w (bk + 1);
                    xx \<leftarrow> w_xcursors w (bk + 1);
                    Some (put_cur (w\<lparr>w_xcursors := (w_xcursors w)(x \<mapsto> xx)\<rparr>) x xr) }) });
          Some (drop_cursor (drop_cursor w (bk + 1)) bk) }) }"

fun close_dbs :: "bool \<Rightarrow> tid \<Rightarrow> nat \<Rightarrow> world \<Rightarrow> world option" where
  "close_dbs merge t 0 w = Some w"
| "close_dbs merge t (Suc i) w = do {
     ms \<leftarrow> tracked w t i;
     w \<leftarrow> each (close_one merge) ms w;
     w \<leftarrow> set_tracked w t i [];
     close_dbs merge t i w }"

definition mdb_cursors_close :: "world \<Rightarrow> tid \<Rightarrow> bool \<Rightarrow> world option" where
  "mdb_cursors_close w t merge = do {
     x \<leftarrow> w_txns w t;
     close_dbs merge t (mt_numdbs x) w }"

section \<open>Database handles of a transaction\<close>

text \<open>Forget a handle: its name, flags and sequence number.\<close>

definition close_handle :: "nat \<Rightarrow> world \<Rightarrow> world option" where
  "close_handle i w = do {
     let e = w_env w;
     d \<leftarrow> rd (me_dbxs e) i;
     if mv_data (md_name d) = NULL then Some w
     else do {
       dbxs \<leftarrow> wr (me_dbxs e) i (d\<lparr>md_name := \<lparr>mv_size = 0, mv_data = NULL\<rparr>\<rparr>);
       fl \<leftarrow> wr (me_dbflags e) i 0;
       s \<leftarrow> rd (me_dbiseqs e) i;
       sq \<leftarrow> wr (me_dbiseqs e) i (u32 (s + 1));
       Some (w_free (upd_env w (\<lambda>e. e\<lparr>me_dbxs := dbxs, me_dbflags := fl, me_dbiseqs := sq\<rparr>)) (mv_data (md_name d))) } }"

fun dbis_update_loop :: "world \<Rightarrow> MDB_txn \<Rightarrow> bool \<Rightarrow> nat \<Rightarrow> world option" where
  "dbis_update_loop w x keep 0 = Some w"
| "dbis_update_loop w x keep (Suc i) =
     (if Suc i \<le> CORE_DBS then Some w
      else do {
        fl \<leftarrow> rd (mt_dbflags x) i;
        w \<leftarrow> (if any_set fl DB_NEW then
             (if keep then do {
                db \<leftarrow> rd (mt_dbs x) i;
                fls \<leftarrow> wr (me_dbflags (w_env w)) i (md_flags db OR MDB_VALID);
                Some (upd_env w (\<lambda>e. e\<lparr>me_dbflags := fls\<rparr>)) }
              else close_handle i w)
           else Some w);
        dbis_update_loop w x keep i })"

definition mdb_dbis_update :: "world \<Rightarrow> tid \<Rightarrow> bool \<Rightarrow> world option" where
  "mdb_dbis_update w t keep = do {
     x \<leftarrow> w_txns w t;
     w \<leftarrow> dbis_update_loop w x keep (mt_numdbs x);
     Some (if keep \<and> me_numdbs (w_env w) < mt_numdbs x then upd_env w (\<lambda>e. e\<lparr>me_numdbs := mt_numdbs x\<rparr>) else w) }"

section \<open>Ending a transaction\<close>

definition upd_reader :: "world \<Rightarrow> nat \<Rightarrow> (MDB_reader \<Rightarrow> MDB_reader) \<Rightarrow> world option" where
  "upd_reader w i f = do {
     ti \<leftarrow> me_txns (w_env w);
     r \<leftarrow> rd (mti_readers ti) i;
     mr \<leftarrow> wr (mti_readers ti) i (f r);
     Some (upd_readers w (\<lambda>ti. ti\<lparr>mti_readers := mr\<rparr>)) }"

definition txn_end_read :: "world \<Rightarrow> tid \<Rightarrow> u32 \<Rightarrow> world option" where
  "txn_end_read w t mode = do {
     x \<leftarrow> w_txns w t;
     w \<leftarrow> (case mt_reader x of
         None \<Rightarrow> Some w
       | Some i \<Rightarrow> do {
           w \<leftarrow> upd_reader w i (\<lambda>r. r\<lparr>mr_txnid := - 1\<rparr>);
           if \<not> any_set (me_flags (w_env w)) MDB_NOTLS then upd_txn w t (\<lambda>x. x\<lparr>mt_reader := None\<rparr>)
           else if any_set mode MDB_END_SLOT then do {
             w \<leftarrow> upd_reader w i (\<lambda>r. r\<lparr>mr_pid := 0\<rparr>);
             upd_txn w t (\<lambda>x. x\<lparr>mt_reader := None\<rparr>) }
           else Some w });
     upd_txn w t (\<lambda>x. x\<lparr>mt_numdbs := 0, mt_flags := mt_flags x OR MDB_TXN_FINISHED\<rparr>) }"

text \<open>A write transaction; the second result is whether it may be freed.\<close>

definition txn_end_write :: "world \<Rightarrow> tid \<Rightarrow> u32 \<Rightarrow> (world \<times> bool) option" where
  "txn_end_write w t mode = do {
     w \<leftarrow> (if \<not> any_set mode MDB_END_UPDATE then mdb_cursors_close w t False else Some w);
     w \<leftarrow> (if \<not> any_set (me_flags (w_env w)) MDB_WRITEMAP then mdb_dlist_free w t else Some w);
     w \<leftarrow> upd_txn w t (\<lambda>x. x\<lparr>mt_numdbs := 0, mt_flags := MDB_TXN_FINISHED\<rparr>);
     x \<leftarrow> w_txns w t;
     (case mt_parent x of
        None \<Rightarrow> do {
          let b = mdb_midl_shrink (idl_heap w) (mt_free_pgs x);
          w \<leftarrow> upd_txn (tick w) t (\<lambda>x. x\<lparr>mt_free_pgs := b\<rparr>);
          Some (upd_env w (\<lambda>e. e\<lparr>me_free_pgs := b, me_pghead := None, me_pglast := 0, me_txn := None\<rparr>), False) }
      | Some par \<Rightarrow> do {
          w \<leftarrow> upd_txn w par (\<lambda>p. p\<lparr>mt_child := None, mt_flags := clear (mt_flags p) MDB_TXN_HAS_CHILD\<rparr>);
          st \<leftarrow> mt_pgstate x;
          Some (upd_env w (\<lambda>e. e\<lparr>me_pghead := mf_pghead st, me_pglast := mf_pglast st\<rparr>), True) }) }"

definition mdb_txn_end :: "world \<Rightarrow> tid \<Rightarrow> u32 \<Rightarrow> world option" where
  "mdb_txn_end w t mode = do {
     w \<leftarrow> mdb_dbis_update w t (any_set mode MDB_END_UPDATE);
     x \<leftarrow> w_txns w t;
     (w, can_free) \<leftarrow> (if F_ISSET (mt_flags x) MDB_TXN_RDONLY then map_option (\<lambda>w. (w, True)) (txn_end_read w t mode)
        else if \<not> F_ISSET (mt_flags x) MDB_TXN_FINISHED then txn_end_write w t mode
        else Some (w, True));
     Some (if can_free \<and> any_set mode MDB_END_FREE then w\<lparr>w_txns := (w_txns w)(t := None)\<rparr> else w) }"

definition mdb_txn_reset :: "world \<Rightarrow> tid option \<Rightarrow> world option" where
  "mdb_txn_reset w txn = (case txn of
     None \<Rightarrow> Some w
   | Some t \<Rightarrow> do {
       x \<leftarrow> w_txns w t;
       if \<not> any_set (mt_flags x) MDB_TXN_RDONLY then Some w else mdb_txn_end w t MDB_END_RESET })"

text \<open>Children first; chains of transactions are finite.\<close>

fun txn_abort :: "nat \<Rightarrow> world \<Rightarrow> tid \<Rightarrow> world option" where
  "txn_abort 0 w t = None"
| "txn_abort (Suc n) w t = do {
     x \<leftarrow> w_txns w t;
     w \<leftarrow> (case mt_child x of None \<Rightarrow> Some w | Some c \<Rightarrow> txn_abort n w c);
     mdb_txn_end w t (MDB_END_ABORT OR MDB_END_SLOT OR MDB_END_FREE) }"

definition mdb_txn_abort :: "world \<Rightarrow> tid option \<Rightarrow> world option" where
  "mdb_txn_abort w txn = (case txn of None \<Rightarrow> Some w | Some t \<Rightarrow> txn_abort TXN_NEST w t)"

section \<open>Beginning a transaction\<close>

text \<open>The first free slot of the reader table, or the number in use.\<close>

fun free_slot :: "MDB_reader list \<Rightarrow> nat \<Rightarrow> nat \<Rightarrow> nat option" where
  "free_slot mr 0 i = Some i"
| "free_slot mr (Suc n) i = do {
     r \<leftarrow> rd mr i;
     if mr_pid r = 0 then Some i else free_slot mr n (i + 1) }"

text \<open>Claim a slot, with the mutex held; returns it.\<close>

definition claim_slot :: "world \<Rightarrow> (int \<times> nat \<times> world) option" where
  "claim_slot w = do {
     let env = w_env w;
     ti \<leftarrow> me_txns env;
     let nr = mti_numreaders ti;
     i \<leftarrow> free_slot (mti_readers ti) nr 0;
     if i = me_maxreaders env then Some (MDB_READERS_FULL, i, w)
     else do {
       w \<leftarrow> upd_reader w i (\<lambda>r. \<lparr>mr_txnid = - 1, mr_pid = 0, mr_tid = w_self w\<rparr>);
       let nr = (if i = nr then nr + 1 else nr);
       let w = upd_readers w (\<lambda>ti. ti\<lparr>mti_numreaders := nr\<rparr>);
       let w = upd_env w (\<lambda>e. e\<lparr>me_close_readers := nr\<rparr>);
       w \<leftarrow> upd_reader w i (\<lambda>r. r\<lparr>mr_pid := me_pid env\<rparr>);
       Some (0, i, w) } }"

text \<open>A new slot for the thread; the second result is \<^verbatim>\<open>new_notls\<close>.\<close>

definition new_reader :: "world \<Rightarrow> (int \<times> bool \<times> nat \<times> world) option" where
  "new_reader w = do {
     (rc, w) \<leftarrow> Some (if me_live_reader (w_env w) then (0, w)
        else let (rc, w) = mdb_reader_pid w in (rc, if rc = 0 then upd_env w (\<lambda>e. e\<lparr>me_live_reader := True\<rparr>) else w));
     if rc \<noteq> 0 then Some (rc, False, 0, w)
     else do {
       (rc, w) \<leftarrow> LOCK_MUTEX w True;
       if rc \<noteq> 0 then Some (rc, False, 0, w)
       else do {
         (rc, i, w) \<leftarrow> claim_slot w;
         if rc \<noteq> 0 then Some (rc, False, 0, w)
         else if any_set (me_flags (w_env w)) MDB_NOTLS then Some (0, True, i, w)
         else do {
           let (rc, w) = syscall w;
           if rc \<noteq> 0 then do {
             w \<leftarrow> upd_reader w i (\<lambda>r. r\<lparr>mr_pid := 0\<rparr>);
             Some (rc, False, 0, w) }
           else Some (0, False, i, upd_env w (\<lambda>e. e\<lparr>me_txkey := Some i\<rparr>)) } } } }"

text \<open>The read side: the snapshot and its meta page. No other process runs in between.\<close>

definition renew_read :: "world \<Rightarrow> tid \<Rightarrow> (int \<times> bool \<times> nat \<times> world) option" where
  "renew_read w t = do {
     x \<leftarrow> w_txns w t;
     (case me_txns (w_env w) of
        None \<Rightarrow> do {
          i \<leftarrow> mdb_env_pick_meta w;
          m \<leftarrow> get_meta w i;
          w \<leftarrow> upd_txn w t (\<lambda>x. x\<lparr>mt_txnid := mm_txnid m, mt_reader := None\<rparr>);
          Some (0, False, i, w) }
      | Some ti \<Rightarrow> do {
          (rc, new_notls, r, w) \<leftarrow> (case (if any_set (me_flags (w_env w)) MDB_NOTLS then mt_reader x else me_txkey (w_env w)) of
              Some i \<Rightarrow> do {
                r \<leftarrow> rd (mti_readers ti) i;
                Some (if mr_pid r \<noteq> me_pid (w_env w) \<or> mr_txnid r \<noteq> - 1 then MDB_BAD_RSLOT else 0, False, i, w) }
            | None \<Rightarrow> new_reader w);
          if rc \<noteq> 0 then Some (rc, False, 0, w)
          else do {
            ti \<leftarrow> me_txns (w_env w);
            w \<leftarrow> upd_reader w r (\<lambda>r. r\<lparr>mr_txnid := mti_txnid ti\<rparr>);
            w \<leftarrow> upd_txn w t (\<lambda>x. x\<lparr>mt_txnid := mti_txnid ti, mt_reader := Some r\<rparr>);
            Some (0, new_notls, unat (mti_txnid ti AND 1), w) } }) }"

definition renew_write :: "world \<Rightarrow> tid \<Rightarrow> (int \<times> bool \<times> nat \<times> world) option" where
  "renew_write w t = do {
     (rc, i, txnid, w) \<leftarrow> (case me_txns (w_env w) of
         Some _ \<Rightarrow> do {
           (rc, w) \<leftarrow> LOCK_MUTEX w False;
           if rc \<noteq> 0 then Some (rc, 0, 0, w)
           else do {
             ti \<leftarrow> me_txns (w_env w);
             Some (0, unat (mti_txnid ti AND 1), mti_txnid ti, w) } }
       | None \<Rightarrow> do {
           i \<leftarrow> mdb_env_pick_meta w;
           m \<leftarrow> get_meta w i;
           Some (0, i, mm_txnid m, w) });
     if rc \<noteq> 0 then Some (rc, False, 0, w)
     else do {
       let env = w_env w;
       e0 \<leftarrow> rd (me_dirty_list env) 0;
       dl \<leftarrow> wr (me_dirty_list env) 0 (e0\<lparr>mid := 0\<rparr>);
       fp \<leftarrow> wr (idl_words (me_free_pgs env)) 0 0;
       w \<leftarrow> upd_txn w t (\<lambda>x. x\<lparr>mt_txnid := txnid + 1, mt_child := None, mt_loose_pgs := [], mt_loose_count := 0,
          mt_dirty_room := MDB_IDL_UM_MAX, mt_dirty_list := dl, mt_free_pgs := (me_free_pgs env)\<lparr>idl_words := fp\<rparr>,
          mt_spill_pgs := None, mt_dbiseqs := take (me_maxdbs env) (me_dbiseqs env)\<rparr>);
       Some (0, False, i, upd_env w (\<lambda>e. e\<lparr>me_txn := Some t\<rparr>)) } }"

text \<open>The records of the named databases, from \<open>i\<close> on.\<close>

fun renew_dbs :: "MDB_env \<Rightarrow> MDB_txn \<Rightarrow> nat \<Rightarrow> nat \<Rightarrow> MDB_txn option" where
  "renew_dbs env x 0 i = Some x"
| "renew_dbs env x (Suc n) i = do {
     f \<leftarrow> rd (me_dbflags env) i;
     d \<leftarrow> rd (mt_dbs x) i;
     dbs \<leftarrow> wr (mt_dbs x) i (d\<lparr>md_flags := f AND PERSISTENT_FLAGS\<rparr>);
     fl \<leftarrow> wr (mt_dbflags x) i (if any_set f MDB_VALID then DB_VALID OR DB_USRVALID OR DB_STALE else 0);
     renew_dbs env (x\<lparr>mt_dbs := dbs, mt_dbflags := fl\<rparr>) n (i + 1) }"

text \<open>From the copy of the records of the meta page on.\<close>

definition renew_setup :: "world \<Rightarrow> tid \<Rightarrow> nat \<Rightarrow> u32 \<Rightarrow> world option" where
  "renew_setup w t i flags = do {
     x \<leftarrow> w_txns w t;
     m \<leftarrow> get_meta w i;
     dbs \<leftarrow> put_words (mt_dbs x) 0 (mm_dbs m);
     let numdbs = me_numdbs (w_env w);
     x \<leftarrow> renew_dbs (w_env w) (x\<lparr>mt_dbs := dbs, mt_next_pgno := mm_last_pg m + 1, mt_flags := flags, mt_numdbs := numdbs\<rparr>)
            (numdbs - CORE_DBS) CORE_DBS;
     fl \<leftarrow> wr (mt_dbflags x) MAIN_DBI (DB_VALID OR DB_USRVALID);
     fl \<leftarrow> wr fl FREE_DBI DB_VALID;
     upd_txn w t (\<lambda>_. x\<lparr>mt_dbflags := fl\<rparr>) }"

definition mdb_txn_renew0 :: "world \<Rightarrow> tid \<Rightarrow> (int \<times> world) option" where
  "mdb_txn_renew0 w t = do {
     x \<leftarrow> w_txns w t;
     let flags = mt_flags x AND MDB_TXN_RDONLY;
     (rc, new_notls, i, w) \<leftarrow> (if flags \<noteq> 0 then renew_read w t else renew_write w t);
     if rc \<noteq> 0 then Some (rc, w)
     else do {
       w \<leftarrow> renew_setup w t i flags;
       x \<leftarrow> w_txns w t;
       let rc = (if any_set (me_flags (w_env w)) MDB_FATAL_ERROR then MDB_PANIC
                 else if me_maxpg (w_env w) < mt_next_pgno x then MDB_MAP_RESIZED else MDB_SUCCESS);
       if rc = MDB_SUCCESS then Some (rc, w)
       else do {
         w \<leftarrow> mdb_txn_end w t ((if new_notls then MDB_END_SLOT else 0) OR MDB_END_FAIL_BEGIN);
         Some (rc, w) } } }"

definition mdb_txn_renew :: "world \<Rightarrow> tid option \<Rightarrow> (int \<times> world) option" where
  "mdb_txn_renew w txn = (case txn of
     None \<Rightarrow> Some (EINVAL, w)
   | Some t \<Rightarrow> do {
       x \<leftarrow> w_txns w t;
       if \<not> F_ISSET (mt_flags x) (MDB_TXN_RDONLY OR MDB_TXN_FINISHED) then Some (EINVAL, w)
       else mdb_txn_renew0 w t })"

text \<open>A zeroed transaction, with room for the databases of the environment.\<close>

definition blank_txn :: "world \<Rightarrow> MDB_txn" where
  "blank_txn w = (let n = me_maxdbs (w_env w) in
     \<lparr>mt_parent = None, mt_child = None, mt_next_pgno = 0, mt_txnid = 0,
      mt_free_pgs = \<lparr>idl_alloc = 0, idl_words = []\<rparr>, mt_loose_pgs = [], mt_loose_count = 0, mt_spill_pgs = None,
      mt_dirty_list = [], mt_reader = None, mt_dbs = replicate n blank_db, mt_dbiseqs = replicate n 0,
      mt_cursors = None, mt_dbflags = replicate n 0, mt_numdbs = 0, mt_flags = 0, mt_dirty_room = 0, mt_pgstate = None\<rparr>)"

text \<open>The copy of \<^verbatim>\<open>me_pghead\<close> that a nested transaction works on.\<close>

definition copy_pghead :: "world \<Rightarrow> (int \<times> world) option" where
  "copy_pghead w = (case me_pghead (w_env w) of
     None \<Rightarrow> Some (0, w)
   | Some b \<Rightarrow> do {
       n \<leftarrow> rd (idl_words b) 0;
       (case mdb_midl_alloc (idl_heap w) (unat n) of
          None \<Rightarrow> Some (ENOMEM, upd_env (tick w) (\<lambda>e. e\<lparr>me_pghead := None\<rparr>))
        | Some c \<Rightarrow> do {
            xs \<leftarrow> put_words (idl_words c) 0 (take (unat n + 1) (idl_words b));
            Some (0, upd_env (tick w) (\<lambda>e. e\<lparr>me_pghead := Some (c\<lparr>idl_words := xs\<rparr>)\<rparr>)) }) })"

text \<open>Set up the child \<open>t\<close>, whose block is allocated; on failure it is gone.\<close>

definition begin_child :: "world \<Rightarrow> tid \<Rightarrow> tid \<Rightarrow> u32 \<Rightarrow> (int \<times> world) option" where
  "begin_child w t par flags = do {
     p \<leftarrow> w_txns w par;
     let gone = (\<lambda>w. w\<lparr>w_txns := (w_txns w)(t := None)\<rparr>);
     let ok = (w_malloc w (w_calls w) \<noteq> None);
     let w = tick w;
     let fp = mdb_midl_alloc (idl_heap w) MDB_IDL_UM_MAX;
     (case (if ok then fp else None) of
        None \<Rightarrow> Some (ENOMEM, gone (if ok then tick w else w))
      | Some fp \<Rightarrow> do {
          let w = tick w;
          let st = \<lparr>mf_pghead = me_pghead (w_env w), mf_pglast = me_pglast (w_env w)\<rparr>;
          dbs \<leftarrow> put_words (mt_dbs (blank_txn w)) 0 (take (mt_numdbs p) (mt_dbs p));
          fls \<leftarrow> put_words (mt_dbflags (blank_txn w)) 0 (map (\<lambda>f. clear f DB_NEW) (take (mt_numdbs p) (mt_dbflags p)));
          w \<leftarrow> upd_txn w t (\<lambda>_. (blank_txn w)\<lparr>mt_flags := flags, mt_cursors := Some (replicate (me_maxdbs (w_env w)) []),
             mt_dbiseqs := mt_dbiseqs p, mt_dirty_list := replicate MDB_IDL_UM_SIZE \<lparr>mid = 0, mptr = NULL\<rparr>,
             mt_free_pgs := fp, mt_txnid := mt_txnid p, mt_dirty_room := mt_dirty_room p, mt_next_pgno := mt_next_pgno p,
             mt_parent := Some par, mt_numdbs := mt_numdbs p, mt_dbs := dbs, mt_dbflags := fls, mt_pgstate := Some st\<rparr>);
          w \<leftarrow> upd_txn w par (\<lambda>p. p\<lparr>mt_flags := mt_flags p OR MDB_TXN_HAS_CHILD, mt_child := Some t\<rparr>);
          (rc, w) \<leftarrow> copy_pghead w;
          (rc, w) \<leftarrow> (if rc = 0 then mdb_cursor_shadow w par t else Some (rc, w));
          if rc \<noteq> 0 then do {
            w \<leftarrow> mdb_txn_end w t MDB_END_FAIL_BEGINCHILD;
            Some (rc, gone w) }
          else Some (0, w) }) }"

text \<open>Returns the handle on success.\<close>

definition mdb_txn_begin :: "world \<Rightarrow> tid option \<Rightarrow> u32 \<Rightarrow> (int \<times> tid option \<times> world) option" where
  "mdb_txn_begin w parent flags = do {
     let env = w_env w;
     let flags = (flags AND MDB_TXN_BEGIN_FLAGS) OR (me_flags env AND MDB_WRITEMAP);
     let finish = (\<lambda>t (rc, w). if rc \<noteq> 0 then Some (rc, None, w)
        else do { w \<leftarrow> txn_or_flags w t flags; Some (0, Some t, w) });
     if any_set (me_flags env AND MDB_RDONLY) (NOT flags) then Some (EACCES, None, w)
     else (case parent of
       Some par \<Rightarrow> do {
         p \<leftarrow> w_txns w par;
         let flags = flags OR mt_flags p;
         if any_set flags (MDB_RDONLY OR MDB_WRITEMAP OR MDB_TXN_BLOCKED)
         then Some (if any_set (mt_flags p) MDB_TXN_RDONLY then EINVAL else MDB_BAD_TXN, None, w)
         else if w_malloc w (w_calls w) = None then Some (ENOMEM, None, tick w)
         else do {
           let t = w_next w;
           (rc, w) \<leftarrow> begin_child ((tick w)\<lparr>w_next := t + 1, w_txns := (w_txns w)(t \<mapsto> blank_txn w)\<rparr>) t par flags;
           if rc \<noteq> 0 then Some (rc, None, w)
           else do { w \<leftarrow> txn_or_flags w t flags; Some (0, Some t, w) } } }
     | None \<Rightarrow>
         if any_set flags MDB_RDONLY then
           (if w_malloc w (w_calls w) = None then Some (ENOMEM, None, tick w)
            else do {
              let t = w_next w;
              (rc, w) \<leftarrow> mdb_txn_renew0 ((tick w)\<lparr>w_next := t + 1, w_txns := (w_txns w)(t \<mapsto> (blank_txn w)\<lparr>mt_flags := flags\<rparr>)\<rparr>) t;
              finish t (rc, if rc \<noteq> 0 then w\<lparr>w_txns := (w_txns w)(t := None)\<rparr> else w) })
         else do {
           t \<leftarrow> me_txn0 env;
           (rc, w) \<leftarrow> mdb_txn_renew0 w t;
           finish t (rc, w) }) }"

definition mdb_txn_id :: "world \<Rightarrow> tid option \<Rightarrow> u64 option" where
  "mdb_txn_id w txn = (case txn of None \<Rightarrow> Some 0 | Some t \<Rightarrow> map_option mt_txnid (w_txns w t))"

end
