(* ===== verification/Freelist.thy ===== *)
theory Freelist
  imports Txn
begin

text \<open>
  \<^verbatim>\<open>mdb_freelist_save\<close> (\<^verbatim>\<open>lmdb/mdb.c\<close>): at commit, the pages freed by the transaction go to
  the freeDB under its id, and what is left of \<^verbatim>\<open>me_pghead\<close> goes back under ids of records that
  were consumed. Keys and data that point at variables of the function are blocks of memory.
\<close>

section \<open>Loose pages\<close>

text \<open>The slot of a loose page in the dirty list, which is not sorted in a writable map.\<close>

fun dirty_find :: "ptr MDB_ID2L \<Rightarrow> u64 \<Rightarrow> nat \<Rightarrow> nat \<Rightarrow> nat option" where
  "dirty_find dl pgno 0 x = None"
| "dirty_find dl pgno (Suc n) x = do {
     e \<leftarrow> rd dl x;
     if mid e = pgno then Some x else dirty_find dl pgno n (x + 1) }"

text \<open>Put the loose pages on the list of freed pages and blank them in the dirty list.\<close>

definition free_loose_one :: "tid \<Rightarrow> ptr \<Rightarrow> world \<Rightarrow> world option" where
  "free_loose_one t mp w = do {
     x \<leftarrow> w_txns w t;
     pgno \<leftarrow> mp_pgno (w_mem w) mp;
     b \<leftarrow> mdb_midl_xappend (mt_free_pgs x) pgno;
     w \<leftarrow> upd_txn w t (\<lambda>x. x\<lparr>mt_free_pgs := b\<rparr>);
     let dl = mt_dirty_list x;
     e0 \<leftarrow> rd dl 0;
     (i, w) \<leftarrow> (if any_set (mt_flags x) MDB_TXN_WRITEMAP
        then map_option (\<lambda>i. (i, w)) (dirty_find dl pgno (unat (mid e0)) 1)
        else do {
          i \<leftarrow> mdb_mid2l_search dl pgno;
          e \<leftarrow> rd dl i;
          if \<not> mid e = pgno then None
          else map_option (\<lambda>w. (i, w)) (mdb_dpage_free w mp) });
     e \<leftarrow> rd dl i;
     dl \<leftarrow> wr dl i (e\<lparr>mptr := NULL\<rparr>);
     set_dirty_list w t dl }"

text \<open>
  \<^verbatim>\<open>squash freed slots out of the dirty list\<close>: the first blank slot, then the entries after it
  move down. \<open>n\<close> counts the slots left from \<open>y\<close>.
\<close>

fun first_blank :: "ptr MDB_ID2L \<Rightarrow> nat \<Rightarrow> nat \<Rightarrow> nat option" where
  "first_blank dl 0 y = Some y"
| "first_blank dl (Suc n) y = do {
     e \<leftarrow> rd dl y;
     if mptr e = NULL then Some y else first_blank dl n (y + 1) }"

fun squash_loop :: "ptr MDB_ID2L \<Rightarrow> nat \<Rightarrow> nat \<Rightarrow> nat \<Rightarrow> (ptr MDB_ID2L \<times> nat) option" where
  "squash_loop dl 0 x y = Some (dl, x)"
| "squash_loop dl (Suc n) x y = do {
     e \<leftarrow> rd dl y;
     if mptr e = NULL then squash_loop dl n x (y + 1)
     else do {
       dl \<leftarrow> wr dl x e;
       squash_loop dl n (x + 1) (y + 1) } }"

definition squash_dirty :: "ptr MDB_ID2L \<Rightarrow> ptr MDB_ID2L option" where
  "squash_dirty dl = do {
     e0 \<leftarrow> rd dl 0;
     let len = unat (mid e0);
     y \<leftarrow> first_blank dl len 1;
     if y \<le> len then do {
       (dl, x) \<leftarrow> squash_loop dl (len - y) y (y + 1);
       wr dl 0 (e0\<lparr>mid := of_nat (x - 1)\<rparr>) }
     else wr dl 0 (e0\<lparr>mid := 0\<rparr>) }"

definition free_loose :: "world \<Rightarrow> tid \<Rightarrow> (int \<times> world) option" where
  "free_loose w t = do {
     x \<leftarrow> w_txns w t;
     and_then (free_pgs_do w t (\<lambda>h b. mdb_midl_need h b (nat (mt_loose_count x)))) (\<lambda>w. do {
       w \<leftarrow> each (free_loose_one t) (mt_loose_pgs x) w;
       x \<leftarrow> w_txns w t;
       dl \<leftarrow> squash_dirty (mt_dirty_list x);
       w \<leftarrow> upd_txn w t (\<lambda>x. x\<lparr>mt_dirty_list := dl, mt_loose_pgs := [], mt_loose_count := 0\<rparr>);
       Some (0, w) }) }"

text \<open>Loose pages go to \<^verbatim>\<open>me_pghead\<close>, by way of a temporary list at its end.\<close>

fun loose_ids :: "mem \<Rightarrow> ptr list \<Rightarrow> u64 list option" where
  "loose_ids m [] = Some []"
| "loose_ids m (mp # mps) = do {
     p \<leftarrow> mp_pgno m mp;
     ps \<leftarrow> loose_ids m mps;
     Some (p # ps) }"

definition return_loose :: "world \<Rightarrow> tid \<Rightarrow> (int \<times> world) option" where
  "return_loose w t = do {
     x \<leftarrow> w_txns w t;
     let n = nat (mt_loose_count x);
     b \<leftarrow> me_pghead (w_env w);
     (rc, b) \<leftarrow> mdb_midl_need (idl_heap w) b (2 * n + 1);
     let w = upd_env (tick w) (\<lambda>e. e\<lparr>me_pghead := Some b\<rparr>);
     if rc \<noteq> 0 then Some (rc, w)
     else do {
       ps \<leftarrow> loose_ids (w_mem w) (mt_loose_pgs x);
       let at = unat (idl_alloc b) - n;
       ws \<leftarrow> put_words (idl_words b) at (of_nat (length ps) # ps);
       loose \<leftarrow> mdb_midl_sort (drop at ws);
       ws \<leftarrow> put_words ws at loose;
       xs \<leftarrow> mdb_midl_xmerge ws loose;
       w \<leftarrow> upd_txn (upd_env w (\<lambda>e. e\<lparr>me_pghead := Some (b\<lparr>idl_words := xs\<rparr>)\<rparr>)) t
              (\<lambda>x. x\<lparr>mt_loose_pgs := [], mt_loose_count := 0\<rparr>);
       Some (0, w) } }"

section \<open>The loop that saves and reserves\<close>

text \<open>
  The variables of the function: the cursor on the freeDB, the addresses of \<^verbatim>\<open>head_id\<close> and of
  \<^verbatim>\<open>mt_txnid\<close>, \<^verbatim>\<open>pglast\<close>, \<^verbatim>\<open>head_id\<close>, \<^verbatim>\<open>freecnt\<close>, \<^verbatim>\<open>head_room\<close>, \<^verbatim>\<open>total_room\<close>,
  \<^verbatim>\<open>mop_len\<close>, \<^verbatim>\<open>more\<close>.
\<close>

record save_state =
  sv_mc :: cid
  sv_head_at :: ptr
  sv_txnid_at :: ptr
  sv_pglast :: u64
  sv_head_id :: u64
  sv_freecnt :: u64
  sv_head_room :: int
  sv_total_room :: int
  sv_mop_len :: int
  sv_more :: int

text \<open>Delete the records that have been used; the first key is at most \<^verbatim>\<open>me_pglast\<close>.\<close>

partial_function (option) save_delete :: "world \<Rightarrow> save_state \<Rightarrow> (int \<times> save_state \<times> world) option" where
  "save_delete w s =
     (if sv_pglast s < me_pglast (w_env w) then do {
        (rc, key, _, w) \<leftarrow> mdb_cursor_first 2 mdb_page_touch w (sv_mc s) (Some no_val) None;
        if rc \<noteq> 0 then Some (rc, s, w)
        else do {
          k \<leftarrow> key;
          id \<leftarrow> map_option of_nat (ld64 (w_mem w) (mv_data k));
          let s = s\<lparr>sv_pglast := id, sv_head_id := id, sv_total_room := 0, sv_head_room := 0\<rparr>;
          if \<not> id \<le> me_pglast (w_env w) then None
          else do {
            (rc, w) \<leftarrow> mdb_cursor_del w (sv_mc s) 0;
            if rc \<noteq> 0 then Some (rc, s, w) else save_delete w s } } }
      else Some (0, s, w))"

declare save_delete.simps [code]

text \<open>Reserve the record of the freed pages until their number no longer grows.\<close>

partial_function (option) save_reserve :: "world \<Rightarrow> tid \<Rightarrow> save_state \<Rightarrow> (int \<times> MDB_val \<times> save_state \<times> world) option" where
  "save_reserve w t s = do {
     x \<leftarrow> w_txns w t;
     n \<leftarrow> rd (idl_words (mt_free_pgs x)) 0;
     let s = s\<lparr>sv_freecnt := n\<rparr>;
     (rc, data, _, w) \<leftarrow> mdb_cursor_put w (Some (sv_mc s)) (Some \<lparr>mv_size = 8, mv_data = sv_txnid_at s\<rparr>)
        \<lparr>mv_size = (unat n + 1) * 8, mv_data = NULL\<rparr> 0 MDB_RESERVE;
     if rc \<noteq> 0 then Some (rc, data, s, w)
     else do {
       x \<leftarrow> w_txns w t;
       n' \<leftarrow> rd (idl_words (mt_free_pgs x)) 0;
       if n < n' then save_reserve w t s else Some (0, data, s, w) } }"

declare save_reserve.simps [code]

text \<open>The words of an ID list as bytes.\<close>

definition idl_bytes :: "u64 list \<Rightarrow> u8 list" where
  "idl_bytes xs = concat (map (\<lambda>x. le_bytes 8 (unat x)) xs)"

definition save_freed :: "world \<Rightarrow> tid \<Rightarrow> save_state \<Rightarrow> (int \<times> save_state \<times> world) option" where
  "save_freed w t s = do {
     (rc, w) \<leftarrow> (if sv_freecnt s = 0 then mdb_page_search mdb_page_touch w (sv_mc s) None (MDB_PS_LAST OR MDB_PS_MODIFY) else Some (0, w));
     if rc \<noteq> 0 \<and> rc \<noteq> MDB_NOTFOUND then Some (rc, s, w)
     else do {
       (rc, data, s, w) \<leftarrow> save_reserve w t s;
       if rc \<noteq> 0 then Some (rc, s, w)
       else do {
         x \<leftarrow> w_txns w t;
         let b = mt_free_pgs x;
         xs \<leftarrow> mdb_midl_sort (idl_words b);
         w \<leftarrow> upd_txn w t (\<lambda>x. x\<lparr>mt_free_pgs := b\<lparr>idl_words := xs\<rparr>\<rparr>);
         w \<leftarrow> mem_do w (store (w_mem w) (mv_data data) (idl_bytes (take (mv_size data div 8) xs)));
         Some (0, s, w) } } }"

text \<open>
  How much room the record under \<^verbatim>\<open>head_id\<close> gets, or \<open>None\<close> to leave the loop. The divisions
  are of non-negative numbers.
\<close>

definition save_room :: "save_state \<Rightarrow> int \<Rightarrow> save_state \<times> bool" where
  "save_room s maxfree_1pg = (
     let stop = (sv_total_room s \<ge> sv_mop_len s \<and> (sv_total_room s = sv_mop_len s \<or> sv_more s - 1 < 0));
         s = (if sv_total_room s \<ge> sv_mop_len s
              then (if sv_total_room s = sv_mop_len s then s else s\<lparr>sv_more := sv_more s - 1\<rparr>)
              else if sv_head_room s \<ge> maxfree_1pg \<and> sv_head_id s > 1
              then s\<lparr>sv_head_id := sv_head_id s - 1, sv_head_room := 0\<rparr> else s)
     in if stop then (s, True)
        else let total = sv_total_room s - sv_head_room s;
                 room = sv_mop_len s - total;
                 room = (if room > maxfree_1pg \<and> sv_head_id s > 1
                         then let h = room div int (unat (sv_head_id s)) in h + (maxfree_1pg - h mod (maxfree_1pg + 1))
                         else if room < 0 then 0 else room)
             in (s\<lparr>sv_total_room := total, sv_head_room := room\<rparr>, False))"

text \<open>Zero the length of a record, and the words after it up to \<open>j\<close>.\<close>

definition zero_words :: "mem \<Rightarrow> ptr \<Rightarrow> nat \<Rightarrow> mem option" where
  "zero_words m p j = memset m p 0 (8 * (j + 1))"

definition save_record :: "world \<Rightarrow> save_state \<Rightarrow> (int \<times> save_state \<times> world) option" where
  "save_record w s = do {
     w \<leftarrow> mem_do w (st64 (w_mem w) (sv_head_at s) (unat (sv_head_id s)));
     (rc, data, _, w) \<leftarrow> mdb_cursor_put w (Some (sv_mc s)) (Some \<lparr>mv_size = 8, mv_data = sv_head_at s\<rparr>)
        \<lparr>mv_size = nat (sv_head_room s + 1) * 8, mv_data = NULL\<rparr> 0 MDB_RESERVE;
     if rc \<noteq> 0 then Some (rc, s, w)
     else do {
       let env = w_env w;
       let all = (\<not> any_set (me_flags env) (MDB_NOMEMINIT OR MDB_WRITEMAP) \<and> sv_head_room s > int (me_maxfree_1pg env));
       w \<leftarrow> mem_do w (zero_words (w_mem w) (mv_data data) (if all then nat (sv_head_room s) else 0));
       Some (0, s\<lparr>sv_total_room := sv_total_room s + sv_head_room s\<rparr>, w) } }"

partial_function (option) save_loop :: "world \<Rightarrow> tid \<Rightarrow> save_state \<Rightarrow> (int \<times> save_state \<times> world) option" where
  "save_loop w t s = do {
     (rc, s, w) \<leftarrow> save_delete w s;
     if rc \<noteq> 0 then Some (rc, s, w)
     else do {
       x \<leftarrow> w_txns w t;
       n \<leftarrow> rd (idl_words (mt_free_pgs x)) 0;
       if sv_freecnt s < n then do {
         (rc, s, w) \<leftarrow> save_freed w t s;
         if rc \<noteq> 0 then Some (rc, s, w) else save_loop w t s }
       else do {
         len \<leftarrow> (case me_pghead (w_env w) of None \<Rightarrow> Some 0 | Some b \<Rightarrow> rd (idl_words b) 0);
         let s = s\<lparr>sv_mop_len := int (unat len) + mt_loose_count x\<rparr>;
         let (s, stop) = save_room s (int (me_maxfree_1pg (w_env w)));
         if stop then Some (0, s, w)
         else do {
           (rc, s, w) \<leftarrow> save_record w s;
           if rc \<noteq> 0 then Some (rc, s, w) else save_loop w t s } } } }"

declare save_loop.simps [code]

section \<open>Filling the reserved records\<close>

text \<open>
  One record of \<open>dsize\<close> bytes: the last \<open>len\<close> ids of \<^verbatim>\<open>me_pghead\<close> not yet written, with \<open>len\<close> in the word before
  them for the time of the call. \<open>mop\<close> is the index of the last id left; it is the length left, too.
\<close>

definition fill_one :: "world \<Rightarrow> cid \<Rightarrow> u64 \<Rightarrow> nat \<Rightarrow> nat \<Rightarrow> nat \<Rightarrow> (int \<times> world) option" where
  "fill_one w mc txnid mop len dsize = do {
     b \<leftarrow> me_pghead (w_env w);
     save \<leftarrow> rd (idl_words b) (mop - len);
     ws \<leftarrow> wr (idl_words b) (mop - len) (of_nat len);
     let w = upd_env w (\<lambda>e. e\<lparr>me_pghead := Some (b\<lparr>idl_words := ws\<rparr>)\<rparr>);
     let (id_at, w) = local_block w (le_bytes 8 (unat txnid));
     let (data_at, w) = local_block w (idl_bytes (take (len + 1) (drop (mop - len) ws)));
     (rc, _, _, w) \<leftarrow> mdb_cursor_put w (Some mc) (Some \<lparr>mv_size = 8, mv_data = id_at\<rparr>)
        \<lparr>mv_size = dsize, mv_data = data_at\<rparr> 0 MDB_CURRENT;
     b \<leftarrow> me_pghead (w_env w);
     ws \<leftarrow> wr (idl_words b) (mop - len) save;
     Some (rc, w_free (w_free (upd_env w (\<lambda>e. e\<lparr>me_pghead := Some (b\<lparr>idl_words := ws\<rparr>)\<rparr>)) data_at) id_at) }"

text \<open>The loop: \<open>rc\<close>, key and data are those of the cursor move before.\<close>

partial_function (option) fill_loop ::
  "world \<Rightarrow> cid \<Rightarrow> int \<Rightarrow> MDB_val option \<Rightarrow> MDB_val option \<Rightarrow> nat \<Rightarrow> (int \<times> world) option" where
  "fill_loop w mc rc key data mop =
     (if rc \<noteq> 0 then Some (rc, w)
      else do {
        k \<leftarrow> key;
        d \<leftarrow> data;
        id \<leftarrow> map_option of_nat (ld64 (w_mem w) (mv_data k));
        let len = int (mv_size d div 8) - 1;
        if \<not> (len \<ge> 0 \<and> id \<le> me_pglast (w_env w)) then None
        else do {
          let dsize = (if nat len > mop then (mop + 1) * 8 else mv_size d);
          let len = min (nat len) mop;
          (rc, w) \<leftarrow> fill_one w mc id mop len dsize;
          if rc \<noteq> 0 \<or> mop - len = 0 then Some (rc, w)
          else do {
            (rc, key, data, w) \<leftarrow> mdb_cursor_next 2 mdb_page_touch w mc (Some no_val) (Some no_val) MDB_NEXT;
            fill_loop w mc rc key data (mop - len) } } })"

declare fill_loop.simps [code]

section \<open>\<open>mdb_freelist_save\<close>\<close>

text \<open>After the loop: the loose pages left, then the records.\<close>

definition save_finish :: "world \<Rightarrow> tid \<Rightarrow> cid \<Rightarrow> int \<Rightarrow> (int \<times> world) option" where
  "save_finish w t mc mop_len = do {
     x \<leftarrow> w_txns w t;
     (rc, w) \<leftarrow> (if mt_loose_pgs x \<noteq> [] then return_loose w t else Some (0, w));
     if rc \<noteq> 0 then Some (rc, w)
     else do {
       mop_len \<leftarrow> (if mt_loose_pgs x \<noteq> []
          then (case me_pghead (w_env w) of None \<Rightarrow> None | Some b \<Rightarrow> map_option unat (rd (idl_words b) 0))
          else Some (nat mop_len));
       if mop_len = 0 then Some (MDB_SUCCESS, w)
       else do {
         (rc, key, data, w) \<leftarrow> mdb_cursor_first 2 mdb_page_touch w mc (Some no_val) (Some no_val);
         fill_loop w mc rc key data mop_len } } }"

definition save_body :: "world \<Rightarrow> tid \<Rightarrow> cid \<Rightarrow> ptr \<Rightarrow> ptr \<Rightarrow> (int \<times> world) option" where
  "save_body w t mc head_at txnid_at = do {
     (rc, w) \<leftarrow> (if me_pghead (w_env w) \<noteq> None
        then mdb_page_search mdb_page_touch w mc None (MDB_PS_FIRST OR MDB_PS_MODIFY) else Some (0, w));
     if rc \<noteq> 0 \<and> rc \<noteq> MDB_NOTFOUND then Some (rc, w)
     else do {
       x \<leftarrow> w_txns w t;
       and_then (if me_pghead (w_env w) = None \<and> mt_loose_pgs x \<noteq> [] then free_loose w t else Some (0, w)) (\<lambda>w. do {
         (rc, s, w) \<leftarrow> save_loop w t \<lparr>sv_mc = mc, sv_head_at = head_at, sv_txnid_at = txnid_at, sv_pglast = 0, sv_head_id = 0,
            sv_freecnt = 0, sv_head_room = 0, sv_total_room = 0, sv_mop_len = 0, sv_more = 1\<rparr>;
         if rc \<noteq> 0 then Some (rc, w) else save_finish w t mc (sv_mop_len s) }) } }"

definition mdb_freelist_save :: "world \<Rightarrow> tid \<Rightarrow> (int \<times> world) option" where
  "mdb_freelist_save w t = do {
     x \<leftarrow> w_txns w t;
     let (mc, w) = new_cursor w;
     w \<leftarrow> mdb_cursor_init mdb_page_touch w mc t FREE_DBI None;
     let (head_at, w) = local_block w (replicate 8 0);
     let (txnid_at, w) = local_block w (le_bytes 8 (unat (mt_txnid x)));
     (rc, w) \<leftarrow> save_body w t mc head_at txnid_at;
     Some (rc, drop_cursor (w_free (w_free w txnid_at) head_at) mc) }"

end
