(* ===== verification/Commit.thy ===== *)
theory Commit
  imports Freelist
begin

text \<open>
  \<^verbatim>\<open>mdb_txn_commit\<close> (\<^verbatim>\<open>lmdb/mdb.c\<close>): a nested transaction is merged into its parent, an
  outer one is written out: database records, freelist, dirty pages, sync, meta page.
\<close>

section \<open>Merging the page lists of a nested transaction\<close>

text \<open>
  Mark the child's dirty pages (\<open>n\<close> of them from entry \<open>i\<close>, ascending) as deleted in the parent's
  spill list, which is descending and ends in a sentinel at index 0. \<open>x\<close> is the slot reached from
  the end, \<open>y\<close> the last one known to stay.
\<close>

fun pspill_down :: "MDB_ID list \<Rightarrow> u64 \<Rightarrow> nat \<Rightarrow> nat option" where
  "pspill_down ps pn 0 = do { v \<leftarrow> rd ps 0; if pn > v then None else Some 0 }"
| "pspill_down ps pn (Suc x) = do { v \<leftarrow> rd ps (Suc x); if pn > v then pspill_down ps pn x else Some (Suc x) }"

fun pspill_mark :: "MDB_ID list \<Rightarrow> ptr MDB_ID2L \<Rightarrow> nat \<Rightarrow> nat \<Rightarrow> nat \<Rightarrow> nat \<Rightarrow> (MDB_ID list \<times> nat) option" where
  "pspill_mark ps src 0 i x y = Some (ps, y)"
| "pspill_mark ps src (Suc n) i x y = do {
     e \<leftarrow> rd src i;
     let pn = push_bit 1 (mid e);
     x \<leftarrow> pspill_down ps pn x;
     v \<leftarrow> rd ps x;
     if pn = v then do {
       ps \<leftarrow> wr ps x 1;
       if x = 0 then None else pspill_mark ps src n (i + 1) (x - 1) (x - 1) }
     else pspill_mark ps src n (i + 1) x y }"

text \<open>\<^verbatim>\<open>Squash deleted pagenums\<close>: the slots from \<open>x\<close> on, \<open>n\<close> of them.\<close>

fun pspill_squash :: "MDB_ID list \<Rightarrow> nat \<Rightarrow> nat \<Rightarrow> nat \<Rightarrow> (MDB_ID list \<times> nat) option" where
  "pspill_squash ps 0 x y = Some (ps, y)"
| "pspill_squash ps (Suc n) x y = do {
     v \<leftarrow> rd ps x;
     if v AND 1 = 0 then do {
       ps \<leftarrow> wr ps (y + 1) v;
       pspill_squash ps n (x + 1) (y + 1) }
     else pspill_squash ps n (x + 1) y }"

definition unspill_parent :: "MDB_ID list \<Rightarrow> ptr MDB_ID2L \<Rightarrow> MDB_ID list option" where
  "unspill_parent ps src = do {
     n \<leftarrow> rd ps 0;
     e0 \<leftarrow> rd src 0;
     let len = unat n;
     if len = 0 then Some ps
     else do {
       ps \<leftarrow> wr ps 0 (- 1);
       (ps, y) \<leftarrow> pspill_mark ps src (unat (mid e0)) 1 len len;
       (ps, y) \<leftarrow> pspill_squash ps (len - y) (y + 1) y;
       wr ps 0 (of_nat y) } }"

text \<open>\<^verbatim>\<open>while (y < dst[0].mid) dst[y] = dst[y+1];\<close>\<close>

fun shift_left :: "ptr MDB_ID2L \<Rightarrow> nat \<Rightarrow> nat \<Rightarrow> ptr MDB_ID2L option" where
  "shift_left dst 0 y = Some dst"
| "shift_left dst (Suc n) y = do {
     e \<leftarrow> rd dst (y + 1);
     dst \<leftarrow> wr dst y e;
     shift_left dst n (y + 1) }"

text \<open>Remove the pages the child has spilled from the parent's dirty list.\<close>

fun undirty_spilled :: "world \<Rightarrow> ptr MDB_ID2L \<Rightarrow> MDB_ID list \<Rightarrow> nat \<Rightarrow> nat \<Rightarrow> (ptr MDB_ID2L \<times> world) option" where
  "undirty_spilled w dst sp 0 i = Some (dst, w)"
| "undirty_spilled w dst sp (Suc n) i = do {
     v \<leftarrow> rd sp i;
     if v AND 1 \<noteq> 0 then undirty_spilled w dst sp n (i + 1)
     else do {
       let pn = drop_bit 1 v;
       y \<leftarrow> mdb_mid2l_search dst pn;
       e0 \<leftarrow> rd dst 0;
       hit \<leftarrow> (if y \<le> unat (mid e0) then map_option (\<lambda>e. if mid e = pn then Some (mptr e) else None) (rd dst y)
              else Some None);
       (case hit of
          None \<Rightarrow> undirty_spilled w dst sp n (i + 1)
        | Some p \<Rightarrow> do {
            dst \<leftarrow> shift_left dst (unat (mid e0) - y) y;
            dst \<leftarrow> wr dst 0 (e0\<lparr>mid := mid e0 - 1\<rparr>);
            undirty_spilled (w_free w p) dst sp n (i + 1) }) } }"

text \<open>
  The length of the merged dirty list when the parent is nested itself: \<open>i\<close> runs down the parent's
  list, whose entry 0 is a sentinel, \<open>y\<close> down the child's.
\<close>

fun merged_down :: "ptr MDB_ID2L \<Rightarrow> u64 \<Rightarrow> nat \<Rightarrow> nat option" where
  "merged_down dst yp 0 = do { e \<leftarrow> rd dst 0; if yp < mid e then None else Some 0 }"
| "merged_down dst yp (Suc i) = do { e \<leftarrow> rd dst (Suc i); if yp < mid e then merged_down dst yp i else Some (Suc i) }"

fun merged_len :: "ptr MDB_ID2L \<Rightarrow> ptr MDB_ID2L \<Rightarrow> nat \<Rightarrow> nat \<Rightarrow> nat \<Rightarrow> nat option" where
  "merged_len dst src 0 i len = Some len"
| "merged_len dst src (Suc y) i len =
     (if i = 0 then Some len
      else do {
        e \<leftarrow> rd src (Suc y);
        i \<leftarrow> merged_down dst (mid e) i;
        d \<leftarrow> rd dst i;
        if mid e = mid d then (if i = 0 then None else merged_len dst src y (i - 1) (len - 1))
        else merged_len dst src y i len })"

text \<open>
  Merge from the end: the parent's entries above \<open>yp\<close> move up to \<open>i\<close>; an entry with the same page
  number is dropped, and its page freed.
\<close>

fun merge_shift :: "ptr MDB_ID2L \<Rightarrow> u64 \<Rightarrow> nat \<Rightarrow> nat \<Rightarrow> (ptr MDB_ID2L \<times> nat \<times> nat) option" where
  "merge_shift dst yp i 0 = do { e \<leftarrow> rd dst 0; if yp < mid e then None else Some (dst, i, 0) }"
| "merge_shift dst yp i (Suc x) = do {
     e \<leftarrow> rd dst (Suc x);
     if yp < mid e then do {
       dst \<leftarrow> wr dst i e;
       if i = 0 then None else merge_shift dst yp (i - 1) x }
     else Some (dst, i, Suc x) }"

fun merge_dirty :: "world \<Rightarrow> ptr MDB_ID2L \<Rightarrow> ptr MDB_ID2L \<Rightarrow> nat \<Rightarrow> nat \<Rightarrow> nat \<Rightarrow> (ptr MDB_ID2L \<times> nat \<times> nat \<times> world) option" where
  "merge_dirty w dst src 0 i x = Some (dst, i, x, w)"
| "merge_dirty w dst src (Suc y) i x = do {
     e \<leftarrow> rd src (Suc y);
     (dst, i, x) \<leftarrow> merge_shift dst (mid e) i x;
     d \<leftarrow> rd dst x;
     (x, w) \<leftarrow> (if mid e = mid d then (if x = 0 then None else Some (x - 1, w_free w (mptr d))) else Some (x, w));
     dst \<leftarrow> wr dst i e;
     if i = 0 then None else merge_dirty w dst src y (i - 1) x }"

definition merge_dirty_lists ::
  "world \<Rightarrow> bool \<Rightarrow> nat \<Rightarrow> ptr MDB_ID2L \<Rightarrow> ptr MDB_ID2L \<Rightarrow> (ptr MDB_ID2L \<times> world) option" where
  "merge_dirty_lists w nested room dst src = do {
     e0 \<leftarrow> rd dst 0;
     s0 \<leftarrow> rd src 0;
     let x = unat (mid e0);
     dst \<leftarrow> wr dst 0 (e0\<lparr>mid := 0\<rparr>);
     len \<leftarrow> (if nested then do {
          d \<leftarrow> rd dst x;
          y \<leftarrow> mdb_mid2l_search src (mid d + 1);
          merged_len dst src (y - 1) x (x + unat (mid s0)) }
        else Some (MDB_IDL_UM_MAX - room));
     (dst, i, x, w) \<leftarrow> merge_dirty w dst src (unat (mid s0)) len x;
     if i \<noteq> x then None
     else do {
       dst \<leftarrow> wr dst 0 (e0\<lparr>mid := of_nat len\<rparr>);
       Some (dst, w) } }"

section \<open>Committing a nested transaction\<close>

text \<open>The database table of the parent.\<close>

fun keep_new :: "u32 list \<Rightarrow> u32 list \<Rightarrow> nat \<Rightarrow> nat \<Rightarrow> u32 list option" where
  "keep_new pf cf 0 i = Some pf"
| "keep_new pf cf (Suc n) i = do {
     p \<leftarrow> rd pf i;
     c \<leftarrow> rd cf i;
     pf \<leftarrow> wr pf i (if i < CORE_DBS then c else c OR (p AND DB_NEW));
     keep_new pf cf n (i + 1) }"

definition commit_tables :: "world \<Rightarrow> tid \<Rightarrow> tid \<Rightarrow> world option" where
  "commit_tables w t par = do {
     x \<leftarrow> w_txns w t;
     p \<leftarrow> w_txns w par;
     dbs \<leftarrow> put_words (mt_dbs p) 0 (take (mt_numdbs x) (mt_dbs x));
     fl \<leftarrow> keep_new (mt_dbflags p) (mt_dbflags x) (mt_numdbs x) 0;
     upd_txn w par (\<lambda>p. p\<lparr>mt_dbs := dbs, mt_numdbs := mt_numdbs x, mt_dbflags := fl\<rparr>) }"

text \<open>The spill lists; returns the code of the append.\<close>

definition commit_spills :: "world \<Rightarrow> tid \<Rightarrow> tid \<Rightarrow> (int \<times> world) option" where
  "commit_spills w t par = do {
     x \<leftarrow> w_txns w t;
     p \<leftarrow> w_txns w par;
     (case (mt_spill_pgs x, mt_spill_pgs p) of
        (None, _) \<Rightarrow> Some (0, w)
      | (Some s, None) \<Rightarrow> do { w \<leftarrow> upd_txn w par (\<lambda>p. p\<lparr>mt_spill_pgs := Some s\<rparr>); Some (0, w) }
      | (Some s, Some ps) \<Rightarrow> do {
          (rc, ps) \<leftarrow> mdb_midl_append_list (idl_heap w) ps (idl_words s);
          xs \<leftarrow> mdb_midl_sort (idl_words ps);
          w \<leftarrow> upd_txn (tick w) par (\<lambda>p. p\<lparr>mt_spill_pgs := Some (ps\<lparr>idl_words := xs\<rparr>),
                 mt_flags := (if rc \<noteq> 0 then mt_flags p OR MDB_TXN_ERROR else mt_flags p)\<rparr>);
          Some (rc, w) }) }"

text \<open>The dirty and spill lists of the two, then the loose pages.\<close>

definition commit_pages :: "world \<Rightarrow> tid \<Rightarrow> tid \<Rightarrow> (int \<times> world) option" where
  "commit_pages w t par = do {
     x \<leftarrow> w_txns w t;
     p \<leftarrow> w_txns w par;
     psp \<leftarrow> (case mt_spill_pgs p of
         None \<Rightarrow> Some None
       | Some b \<Rightarrow> do { xs \<leftarrow> unspill_parent (idl_words b) (mt_dirty_list x); Some (Some (b\<lparr>idl_words := xs\<rparr>)) });
     (dst, w) \<leftarrow> (case mt_spill_pgs x of
         None \<Rightarrow> Some (mt_dirty_list p, w)
       | Some b \<Rightarrow> do { n \<leftarrow> rd (idl_words b) 0; undirty_spilled w (mt_dirty_list p) (idl_words b) (unat n) 1 });
     (dst, w) \<leftarrow> merge_dirty_lists w (mt_parent p \<noteq> None) (mt_dirty_room x) dst (mt_dirty_list x);
     w \<leftarrow> upd_txn w par (\<lambda>p. p\<lparr>mt_spill_pgs := psp, mt_dirty_list := dst, mt_dirty_room := mt_dirty_room x\<rparr>);
     (rc, w) \<leftarrow> commit_spills w t par;
     w \<leftarrow> upd_txn w par (\<lambda>p. p\<lparr>mt_loose_pgs := mt_loose_pgs p @ mt_loose_pgs x,
            mt_loose_count := mt_loose_count p + mt_loose_count x, mt_child := None\<rparr>);
     Some (rc, w) }"

text \<open>
  Returns a code and whether it is from the label \<^verbatim>\<open>fail\<close>: then nothing has been changed in the
  parent but its list of freed pages, and the child still exists.
\<close>

definition commit_nested :: "world \<Rightarrow> tid \<Rightarrow> tid \<Rightarrow> (int \<times> bool \<times> world) option" where
  "commit_nested w t par = do {
     x \<leftarrow> w_txns w t;
     p \<leftarrow> w_txns w par;
     (rc, b) \<leftarrow> mdb_midl_append_list (idl_heap w) (mt_free_pgs p) (idl_words (mt_free_pgs x));
     w \<leftarrow> upd_txn (tick w) par (\<lambda>p. p\<lparr>mt_free_pgs := b\<rparr>);
     if rc \<noteq> 0 then Some (rc, True, w)
     else do {
       w \<leftarrow> upd_txn w par (\<lambda>p. p\<lparr>mt_next_pgno := mt_next_pgno x, mt_flags := mt_flags x\<rparr>);
       w \<leftarrow> mdb_cursors_close w t True;
       w \<leftarrow> commit_tables w t par;
       (rc, w) \<leftarrow> commit_pages w t par;
       Some (rc, False, w\<lparr>w_txns := (w_txns w)(t := None)\<rparr>) } }"

section \<open>Committing an outer transaction\<close>

text \<open>Write the records of the named databases that changed, from \<open>i\<close> on.\<close>

fun commit_roots :: "world \<Rightarrow> tid \<Rightarrow> cid \<Rightarrow> nat \<Rightarrow> nat \<Rightarrow> (int \<times> world) option" where
  "commit_roots w t mc 0 i = Some (0, w)"
| "commit_roots w t mc (Suc n) i = do {
     x \<leftarrow> w_txns w t;
     fl \<leftarrow> rd (mt_dbflags x) i;
     and_then (if any_set fl DB_DIRTY then do {
          changed \<leftarrow> TXN_DBI_CHANGED w t i;
          if changed then Some (MDB_BAD_DBI, w)
          else do {
            db \<leftarrow> rd (mt_dbs x) i;
            dbx \<leftarrow> rd (me_dbxs (w_env w)) i;
            let (p, w) = local_block w (db_bytes db);
            (rc, _, _, w) \<leftarrow> mdb_cursor_put w (Some mc) (Some (md_name dbx)) \<lparr>mv_size = 48, mv_data = p\<rparr> 0 F_SUBDATA;
            Some (rc, w_free w p) } }
        else Some (0, w))
       (\<lambda>w. commit_roots w t mc n (i + 1)) }"

definition commit_dbs :: "world \<Rightarrow> tid \<Rightarrow> (int \<times> world) option" where
  "commit_dbs w t = do {
     x \<leftarrow> w_txns w t;
     if mt_numdbs x > CORE_DBS then do {
       let (mc, w) = new_cursor w;
       w \<leftarrow> mdb_cursor_init mdb_page_touch w mc t MAIN_DBI None;
       (rc, w) \<leftarrow> commit_roots w t mc (mt_numdbs x - CORE_DBS) CORE_DBS;
       Some (rc, drop_cursor w mc) }
     else Some (0, w) }"

text \<open>The lock file lock goes back to shared after a commit on the previous snapshot.\<close>

definition commit_snapshot :: "world \<Rightarrow> (int \<times> world) option" where
  "commit_snapshot w = (
     let flags = me_flags (w_env w) in
     if any_set flags MDB_PREVSNAPSHOT then
       let (rc, w) = (if \<not> any_set flags MDB_NOLOCK then syscall w else (0, w)) in
       Some (rc, if rc = 0 then upd_env w (\<lambda>e. e\<lparr>me_flags := me_flags e XOR MDB_PREVSNAPSHOT\<rparr>) else w)
     else Some (0, w))"

text \<open>Everything that writes, in order.\<close>

definition commit_write :: "world \<Rightarrow> tid \<Rightarrow> (int \<times> world) option" where
  "commit_write w t =
     and_then (commit_dbs w t) (\<lambda>w.
     and_then (mdb_freelist_save w t) (\<lambda>w. do {
       x \<leftarrow> w_txns w t;
       let b = mdb_midl_shrink (idl_heap w) (mt_free_pgs x);
       w \<leftarrow> upd_txn (tick (upd_env w (\<lambda>e. e\<lparr>me_pghead := None\<rparr>))) t (\<lambda>x. x\<lparr>mt_free_pgs := b\<rparr>);
       and_then (mdb_page_flush w t 0) (\<lambda>w. do {
         x \<leftarrow> w_txns w t;
         and_then (Some (if \<not> F_ISSET (mt_flags x) MDB_NOSYNC then mdb_env_sync0 w False (mt_next_pgno x) else (0, w))) (\<lambda>w.
           and_then (mdb_env_write_meta w t) commit_snapshot) }) }))"

text \<open>An outer write transaction, up to the label \<^verbatim>\<open>done\<close> or \<^verbatim>\<open>fail\<close>.\<close>

definition commit_outer :: "world \<Rightarrow> tid \<Rightarrow> (int \<times> u32 \<times> world) option" where
  "commit_outer w t = (
     let empty = MDB_END_EMPTY_COMMIT OR MDB_END_UPDATE OR MDB_END_SLOT OR MDB_END_FREE in
     if me_txn (w_env w) \<noteq> Some t then Some (EINVAL, empty, w)
     else do {
       w \<leftarrow> mdb_cursors_close w t False;
       x \<leftarrow> w_txns w t;
       e0 \<leftarrow> rd (mt_dirty_list x) 0;
       if mid e0 = 0 \<and> \<not> any_set (mt_flags x) (MDB_TXN_DIRTY OR MDB_TXN_SPILLS) then Some (0, empty, w)
       else do {
         (rc, w) \<leftarrow> commit_write w t;
         Some (rc, MDB_END_COMMITTED OR MDB_END_UPDATE, w) } })"

text \<open>The label \<^verbatim>\<open>fail\<close>.\<close>

definition commit_fail :: "world \<Rightarrow> tid \<Rightarrow> int \<Rightarrow> (int \<times> world) option" where
  "commit_fail w t rc = do { w \<leftarrow> mdb_txn_abort w (Some t); Some (rc, w) }"

text \<open>The children first; chains of transactions are finite.\<close>

fun txn_commit :: "nat \<Rightarrow> world \<Rightarrow> tid \<Rightarrow> (int \<times> world) option" where
  "txn_commit 0 w t = None"
| "txn_commit (Suc n) w t = do {
     x \<leftarrow> w_txns w t;
     (rc, w) \<leftarrow> (case mt_child x of None \<Rightarrow> Some (0, w) | Some c \<Rightarrow> txn_commit n w c);
     if rc \<noteq> 0 then commit_fail w t rc
     else do {
       x \<leftarrow> w_txns w t;
       if F_ISSET (mt_flags x) MDB_TXN_RDONLY then do {
         w \<leftarrow> mdb_txn_end w t (MDB_END_EMPTY_COMMIT OR MDB_END_UPDATE OR MDB_END_SLOT OR MDB_END_FREE);
         Some (MDB_SUCCESS, w) }
       else if any_set (mt_flags x) (MDB_TXN_FINISHED OR MDB_TXN_ERROR) then do {
         w \<leftarrow> (case mt_parent x of None \<Rightarrow> Some w | Some p \<Rightarrow> txn_or_flags w p MDB_TXN_ERROR);
         commit_fail w t MDB_BAD_TXN }
       else (case mt_parent x of
         Some par \<Rightarrow> do {
           (rc, failed, w) \<leftarrow> commit_nested w t par;
           if failed then commit_fail w t rc else Some (rc, w) }
       | None \<Rightarrow> do {
           (rc, mode, w) \<leftarrow> commit_outer w t;
           if rc \<noteq> 0 then commit_fail w t rc
           else do { w \<leftarrow> mdb_txn_end w t mode; Some (MDB_SUCCESS, w) } }) } }"

definition mdb_txn_commit :: "world \<Rightarrow> tid option \<Rightarrow> (int \<times> world) option" where
  "mdb_txn_commit w txn = (case txn of None \<Rightarrow> Some (EINVAL, w) | Some t \<Rightarrow> txn_commit TXN_NEST w t)"

end
