(* ===== verification/Dbi.thy ===== *)
theory Dbi
  imports Commit
begin

text \<open>
  Database handles (\<^verbatim>\<open>lmdb/mdb.c\<close>): opening, closing and dropping a database, its flags and
  comparison functions, statistics, and the flags of the environment.
\<close>

abbreviation (input) VALID_FLAGS :: u32 where
  "VALID_FLAGS \<equiv> MDB_REVERSEKEY OR MDB_DUPSORT OR MDB_INTEGERKEY OR MDB_DUPFIXED OR MDB_INTEGERDUP OR MDB_REVERSEDUP OR MDB_CREATE"
abbreviation (input) CHANGEABLE :: u32 where
  "CHANGEABLE \<equiv> MDB_NOSYNC OR MDB_NOMETASYNC OR MDB_MAPASYNC OR MDB_NOMEMINIT"
abbreviation (input) CHANGELESS :: u32 where
  "CHANGELESS \<equiv> MDB_FIXEDMAP OR MDB_NOSUBDIR OR MDB_RDONLY OR MDB_WRITEMAP OR MDB_NOTLS OR MDB_NOLOCK OR MDB_NORDAHEAD OR MDB_PREVSNAPSHOT"

section \<open>Comparison functions\<close>

text \<open>The functions the flags of a database ask for.\<close>

definition default_cmp :: "u32 \<Rightarrow> MDB_cmp_func" where
  "default_cmp f = (if any_set f MDB_REVERSEKEY then Cmp_memnr else if any_set f MDB_INTEGERKEY then Cmp_cint else Cmp_memn)"

definition default_dcmp :: "u32 \<Rightarrow> MDB_cmp_func option" where
  "default_dcmp f =
     (if \<not> any_set f MDB_DUPSORT then None
      else Some (if any_set f MDB_INTEGERDUP then (if any_set f MDB_DUPFIXED then Cmp_int else Cmp_cint)
        else if any_set f MDB_REVERSEDUP then Cmp_memnr else Cmp_memn))"

definition upd_dbx :: "world \<Rightarrow> nat \<Rightarrow> (MDB_dbx \<Rightarrow> MDB_dbx) \<Rightarrow> world option" where
  "upd_dbx w i f = do {
     d \<leftarrow> rd (me_dbxs (w_env w)) i;
     ds \<leftarrow> wr (me_dbxs (w_env w)) i (f d);
     Some (upd_env w (\<lambda>e. e\<lparr>me_dbxs := ds\<rparr>)) }"

definition mdb_default_cmp :: "world \<Rightarrow> tid \<Rightarrow> nat \<Rightarrow> world option" where
  "mdb_default_cmp w t dbi = do {
     x \<leftarrow> w_txns w t;
     db \<leftarrow> rd (mt_dbs x) dbi;
     upd_dbx w dbi (\<lambda>d. d\<lparr>md_cmp := Some (default_cmp (md_flags db)), md_dcmp := default_dcmp (md_flags db)\<rparr>) }"

definition mdb_set_compare :: "world \<Rightarrow> tid option \<Rightarrow> nat \<Rightarrow> MDB_cmp_func option \<Rightarrow> (int \<times> world) option" where
  "mdb_set_compare w txn dbi cmp = do {
     ok \<leftarrow> TXN_DBI_EXIST w txn dbi DB_USRVALID;
     if \<not> ok then Some (EINVAL, w)
     else do { w \<leftarrow> upd_dbx w dbi (\<lambda>d. d\<lparr>md_cmp := cmp\<rparr>); Some (MDB_SUCCESS, w) } }"

definition mdb_set_dupsort :: "world \<Rightarrow> tid option \<Rightarrow> nat \<Rightarrow> MDB_cmp_func option \<Rightarrow> (int \<times> world) option" where
  "mdb_set_dupsort w txn dbi cmp = do {
     ok \<leftarrow> TXN_DBI_EXIST w txn dbi DB_USRVALID;
     if \<not> ok then Some (EINVAL, w)
     else do { w \<leftarrow> upd_dbx w dbi (\<lambda>d. d\<lparr>md_dcmp := cmp\<rparr>); Some (MDB_SUCCESS, w) } }"

text \<open>The comparisons for callers: of two keys, and of two items with the same key.\<close>

definition mdb_cmp :: "world \<Rightarrow> nat \<Rightarrow> MDB_val \<Rightarrow> MDB_val \<Rightarrow> int option" where
  "mdb_cmp w dbi a b = do {
     d \<leftarrow> rd (me_dbxs (w_env w)) dbi;
     cmp \<leftarrow> md_cmp d;
     cmp_vals cmp (w_mem w) a b }"

definition mdb_dcmp :: "world \<Rightarrow> nat \<Rightarrow> MDB_val \<Rightarrow> MDB_val \<Rightarrow> int option" where
  "mdb_dcmp w dbi a b = do {
     d \<leftarrow> rd (me_dbxs (w_env w)) dbi;
     dcmp \<leftarrow> (if NEED_CMP_CLONG (md_dcmp d) (mv_size a) then Some mdb_cmp_clong else md_dcmp d);
     cmp_vals dcmp (w_mem w) a b }"

section \<open>Opening a database\<close>

text \<open>A C string: the bytes before the first zero; \<^verbatim>\<open>strdup\<close>.\<close>

definition cstring :: "mem \<Rightarrow> ptr \<Rightarrow> u8 list option" where
  "cstring m p = (case m (p_blk p) of
     None \<Rightarrow> None
   | Some bs \<Rightarrow> let cs = drop (p_off p) bs in if 0 \<in> set cs then Some (takeWhile (\<lambda>c. c \<noteq> 0) cs) else None)"

definition strdup :: "world \<Rightarrow> ptr \<Rightarrow> (ptr \<times> world) option" where
  "strdup w p = do {
     cs \<leftarrow> cstring (w_mem w) p;
     let (q, w) = w_alloc w (length cs + 1);
     if q = NULL then Some (NULL, w)
     else do {
       w \<leftarrow> mem_do w (store (w_mem w) q (cs @ [0]));
       Some (q, w) } }"

text \<open>\<^verbatim>\<open>Is the DB already open?\<close>: its handle, and the first unnamed handle, from \<open>i\<close> on.\<close>

fun find_open :: "world \<Rightarrow> u8 list \<Rightarrow> nat \<Rightarrow> nat \<Rightarrow> nat option \<Rightarrow> (nat option \<times> nat option) option" where
  "find_open w name 0 i unused = Some (None, unused)"
| "find_open w name (Suc n) i unused = do {
     d \<leftarrow> rd (me_dbxs (w_env w)) i;
     if mv_size (md_name d) = 0 then find_open w name n (i + 1) (if unused = None then Some i else unused)
     else if mv_size (md_name d) \<noteq> length name then find_open w name n (i + 1) unused
     else do {
       bs \<leftarrow> val_bytes (w_mem w) (md_name d);
       if bs = name then Some (Some i, unused) else find_open w name n (i + 1) unused } }"

text \<open>The sequence numbers of a nested transaction are its parent's.\<close>

fun set_dbiseq :: "nat \<Rightarrow> world \<Rightarrow> tid option \<Rightarrow> nat \<Rightarrow> nat \<Rightarrow> world option" where
  "set_dbiseq n w None slot s = Some w"
| "set_dbiseq 0 w (Some t) slot s = None"
| "set_dbiseq (Suc n) w (Some t) slot s = do {
     x \<leftarrow> w_txns w t;
     sq \<leftarrow> wr (mt_dbiseqs x) slot s;
     w \<leftarrow> upd_txn w t (\<lambda>x. x\<lparr>mt_dbiseqs := sq\<rparr>);
     set_dbiseq n w (mt_parent x) slot s }"

text \<open>\<^verbatim>\<open>register DBI in this txn\<close>\<close>

definition register_dbi :: "world \<Rightarrow> tid \<Rightarrow> nat option \<Rightarrow> MDB_val \<Rightarrow> ptr \<Rightarrow> u32 \<Rightarrow> (nat \<times> world) option" where
  "register_dbi w t unused name rec dbflag = do {
     x \<leftarrow> w_txns w t;
     let slot = (case unused of Some i \<Rightarrow> i | None \<Rightarrow> mt_numdbs x);
     w \<leftarrow> upd_dbx w slot (\<lambda>d. d\<lparr>md_name := name\<rparr>);
     fl \<leftarrow> wr (mt_dbflags x) slot dbflag;
     s \<leftarrow> rd (me_dbiseqs (w_env w)) slot;
     sq \<leftarrow> wr (me_dbiseqs (w_env w)) slot (u32 (s + 1));
     let w = upd_env w (\<lambda>e. e\<lparr>me_dbiseqs := sq\<rparr>);
     w \<leftarrow> set_dbiseq TXN_NEST w (Some t) slot (u32 (s + 1));
     db \<leftarrow> load_db (w_mem w) rec;
     dbs \<leftarrow> wr (mt_dbs x) slot db;
     w \<leftarrow> upd_txn w t (\<lambda>x. x\<lparr>mt_dbflags := fl, mt_dbs := dbs\<rparr>);
     w \<leftarrow> mdb_default_cmp w t slot;
     w \<leftarrow> (if unused = None then upd_txn w t (\<lambda>x. x\<lparr>mt_numdbs := mt_numdbs x + 1\<rparr>) else Some w);
     Some (slot, w) }"

text \<open>The record in the main database: found, to be created, or an error.\<close>

definition find_db :: "world \<Rightarrow> tid \<Rightarrow> cid \<Rightarrow> MDB_val \<Rightarrow> u32 \<Rightarrow> (int \<times> bool \<times> ptr \<times> world) option" where
  "find_db w t mc key flags = do {
     x \<leftarrow> w_txns w t;
     (rc, _, data, _, w) \<leftarrow> mdb_cursor_set 2 mdb_page_touch w mc key (Some no_val) MDB_SET (Some False);
     data \<leftarrow> data;
     if rc = MDB_SUCCESS then do {
       p \<leftarrow> top_pg w mc;
       k \<leftarrow> top_ki w mc;
       node \<leftarrow> NODEPTR (w_mem w) p k;
       fl \<leftarrow> mn_flags (w_mem w) node;
       Some (if fl AND (F_DUPDATA OR F_SUBDATA) \<noteq> F_SUBDATA then MDB_INCOMPATIBLE else 0, False, mv_data data, w) }
     else if rc \<noteq> MDB_NOTFOUND \<or> \<not> any_set flags MDB_CREATE then Some (rc, False, NULL, w)
     else if F_ISSET (mt_flags x) MDB_TXN_RDONLY then Some (EACCES, False, NULL, w)
     else Some (0, True, NULL, w) }"

text \<open>Open a named database that is not open: look it up, create it, register it.\<close>

definition open_named :: "world \<Rightarrow> tid \<Rightarrow> ptr \<Rightarrow> nat \<Rightarrow> u32 \<Rightarrow> nat option \<Rightarrow> (int \<times> nat option \<times> world) option" where
  "open_named w t name len flags unused = do {
     let key = \<lparr>mv_size = len, mv_data = name\<rparr>;
     let (mc, w) = new_cursor w;
     let leave = (\<lambda>w. drop_cursor w mc);
     w \<leftarrow> mdb_cursor_init mdb_page_touch w mc t MAIN_DBI None;
     (rc, create, rec, w) \<leftarrow> find_db w t mc key flags;
     if rc \<noteq> 0 then Some (rc, None, leave w)
     else do {
       (namedup, w) \<leftarrow> strdup w name;
       if namedup = NULL then Some (ENOMEM, None, leave w)
       else do {
         let (dummy, w) = local_block w (db_bytes (blank_db\<lparr>md_root := P_INVALID, md_flags := flags AND PERSISTENT_FLAGS\<rparr>));
         (rc, w) \<leftarrow> (if create then WITH_CURSOR_TRACKING w mc (\<lambda>w. map_option (\<lambda>(rc, _, _, w). (rc, w))
              (mdb_cursor_put w (Some mc) (Some key) \<lparr>mv_size = 48, mv_data = dummy\<rparr> 0 F_SUBDATA)) else Some (0, w));
         if rc \<noteq> 0 then Some (rc, None, leave (w_free (w_free w dummy) namedup))
         else do {
           (slot, w) \<leftarrow> register_dbi w t unused \<lparr>mv_size = len, mv_data = namedup\<rparr> (if create then dummy else rec)
              (DB_NEW OR DB_VALID OR DB_USRVALID OR (if create then DB_DIRTY else 0));
           Some (0, Some slot, leave (w_free w dummy)) } } } }"

text \<open>The main database takes over flags it did not have.\<close>

definition open_main :: "world \<Rightarrow> tid \<Rightarrow> u32 \<Rightarrow> world option" where
  "open_main w t flags = do {
     x \<leftarrow> w_txns w t;
     db \<leftarrow> rd (mt_dbs x) MAIN_DBI;
     let f2 = md_flags db OR (flags AND PERSISTENT_FLAGS);
     w \<leftarrow> (if f2 \<noteq> md_flags db then do {
          dbs \<leftarrow> wr (mt_dbs x) MAIN_DBI (db\<lparr>md_flags := f2\<rparr>);
          upd_txn w t (\<lambda>x. x\<lparr>mt_dbs := dbs, mt_flags := mt_flags x OR MDB_TXN_DIRTY\<rparr>) }
        else Some w);
     mdb_default_cmp w t MAIN_DBI }"

definition mdb_dbi_open :: "world \<Rightarrow> tid \<Rightarrow> ptr option \<Rightarrow> u32 \<Rightarrow> (int \<times> nat option \<times> world) option" where
  "mdb_dbi_open w t name flags = do {
     x \<leftarrow> w_txns w t;
     if clear flags VALID_FLAGS \<noteq> 0 then Some (EINVAL, None, w)
     else if any_set (mt_flags x) MDB_TXN_BLOCKED then Some (MDB_BAD_TXN, None, w)
     else (case name of
       None \<Rightarrow> do { w \<leftarrow> open_main w t flags; Some (MDB_SUCCESS, Some MAIN_DBI, w) }
     | Some name \<Rightarrow> do {
         main \<leftarrow> rd (me_dbxs (w_env w)) MAIN_DBI;
         w \<leftarrow> (if md_cmp main = None then mdb_default_cmp w t MAIN_DBI else Some w);
         cs \<leftarrow> cstring (w_mem w) name;
         (found, unused) \<leftarrow> find_open w cs (mt_numdbs x - CORE_DBS) CORE_DBS None;
         (case found of
            Some i \<Rightarrow> Some (MDB_SUCCESS, Some i, w)
          | None \<Rightarrow> do {
              db \<leftarrow> rd (mt_dbs x) MAIN_DBI;
              if unused = None \<and> mt_numdbs x \<ge> me_maxdbs (w_env w) then Some (MDB_DBS_FULL, None, w)
              else if any_set (md_flags db) (MDB_DUPSORT OR MDB_INTEGERKEY)
              then Some (if any_set flags MDB_CREATE then MDB_INCOMPATIBLE else MDB_NOTFOUND, None, w)
              else open_named w t name (length cs) flags unused }) }) }"

definition mdb_dbi_close :: "world \<Rightarrow> nat \<Rightarrow> world option" where
  "mdb_dbi_close w dbi = (if dbi < CORE_DBS \<or> dbi \<ge> me_maxdbs (w_env w) then Some w else close_handle dbi w)"

definition mdb_dbi_flags :: "world \<Rightarrow> tid option \<Rightarrow> nat \<Rightarrow> (int \<times> u32 option) option" where
  "mdb_dbi_flags w txn dbi = do {
     ok \<leftarrow> TXN_DBI_EXIST w txn dbi DB_USRVALID;
     if \<not> ok then Some (EINVAL, None)
     else do {
       t \<leftarrow> txn;
       x \<leftarrow> w_txns w t;
       db \<leftarrow> rd (mt_dbs x) dbi;
       Some (MDB_SUCCESS, Some (md_flags db AND PERSISTENT_FLAGS)) } }"

section \<open>Dropping a database\<close>

text \<open>After the pages are freed: delete the record, or reset it.\<close>

definition drop_record :: "world \<Rightarrow> tid \<Rightarrow> nat \<Rightarrow> cid \<Rightarrow> bool \<Rightarrow> (int \<times> world) option" where
  "drop_record w t dbi mc del = (
     if del \<and> dbi \<ge> CORE_DBS then do {
       r \<leftarrow> get_cur w mc;
       dbx \<leftarrow> get_dbx w (mc_dbx r);
       (rc, w) \<leftarrow> mdb_del0 w t MAIN_DBI (md_name dbx) None F_SUBDATA;
       if rc = 0 then do {
         w \<leftarrow> upd_dbflag w (TxnDb t dbi) (\<lambda>_. DB_STALE);
         w \<leftarrow> mdb_dbi_close w dbi;
         Some (rc, w) }
       else do { w \<leftarrow> txn_or_flags w t MDB_TXN_ERROR; Some (rc, w) } }
     else do {
       w \<leftarrow> upd_dbflag w (TxnDb t dbi) (\<lambda>f. f OR DB_DIRTY);
       w \<leftarrow> upd_db w (TxnDb t dbi) (\<lambda>d. d\<lparr>md_depth := 0, md_branch_pages := 0, md_leaf_pages := 0,
              md_overflow_pages := 0, md_entries := 0, md_root := P_INVALID\<rparr>);
       w \<leftarrow> txn_or_flags w t MDB_TXN_DIRTY;
       Some (MDB_SUCCESS, w) })"

definition drop_invalidate :: "cid \<Rightarrow> world \<Rightarrow> world option" where
  "drop_invalidate m2 w = clear_flags w m2 (C_INITIALIZED OR C_EOF)"

definition mdb_drop :: "world \<Rightarrow> tid option \<Rightarrow> nat \<Rightarrow> nat \<Rightarrow> (int \<times> world) option" where
  "mdb_drop w txn dbi del = do {
     ok \<leftarrow> TXN_DBI_EXIST w txn dbi DB_USRVALID;
     (case txn of
        None \<Rightarrow> Some (EINVAL, w)
      | Some t \<Rightarrow>
          if del > 1 \<or> \<not> ok then Some (EINVAL, w)
          else do {
            x \<leftarrow> w_txns w t;
            changed \<leftarrow> TXN_DBI_CHANGED w t dbi;
            if F_ISSET (mt_flags x) MDB_TXN_RDONLY then Some (EACCES, w)
            else if changed then Some (MDB_BAD_DBI, w)
            else do {
              (rc, mcp, w) \<leftarrow> mdb_cursor_open mdb_page_touch w (Some t) dbi;
              if rc \<noteq> 0 then Some (rc, w)
              else do {
                mc \<leftarrow> mcp;
                r \<leftarrow> get_cur w mc;
                db \<leftarrow> get_db w (mc_db r);
                (rc, w) \<leftarrow> mdb_drop0 w mc (any_set (md_flags db) MDB_DUPSORT);
                ms \<leftarrow> tracked w t dbi;
                w \<leftarrow> each drop_invalidate ms w;
                (rc, w) \<leftarrow> (if rc \<noteq> 0 then Some (rc, w) else drop_record w t dbi mc (del \<noteq> 0));
                w \<leftarrow> mdb_cursor_close w (Some mc);
                Some (rc, w) } } }) }"

section \<open>Statistics\<close>

definition mdb_stat0 :: "MDB_env \<Rightarrow> MDB_db \<Rightarrow> MDB_stat" where
  "mdb_stat0 env db = \<lparr>ms_psize = of_nat (me_psize env), ms_depth = ucast (md_depth db), ms_branch_pages = md_branch_pages db,
     ms_leaf_pages = md_leaf_pages db, ms_overflow_pages = md_overflow_pages db, ms_entries = md_entries db\<rparr>"

definition mdb_env_stat :: "world \<Rightarrow> (int \<times> MDB_stat option) option" where
  "mdb_env_stat w = do {
     m \<leftarrow> picked_meta w;
     db \<leftarrow> rd (mm_dbs m) MAIN_DBI;
     Some (MDB_SUCCESS, Some (mdb_stat0 (w_env w) db)) }"

text \<open>Setting up a cursor reads the record of a database that has not been read yet.\<close>

definition mdb_stat :: "world \<Rightarrow> tid option \<Rightarrow> nat \<Rightarrow> (int \<times> MDB_stat option \<times> world) option" where
  "mdb_stat w txn dbi = do {
     ok \<leftarrow> TXN_DBI_EXIST w txn dbi DB_VALID;
     if \<not> ok then Some (EINVAL, None, w)
     else do {
       t \<leftarrow> txn;
       x \<leftarrow> w_txns w t;
       if any_set (mt_flags x) MDB_TXN_BLOCKED then Some (MDB_BAD_TXN, None, w)
       else do {
         fl \<leftarrow> rd (mt_dbflags x) dbi;
         w \<leftarrow> (if any_set fl DB_STALE then do {
              let (mc, w) = new_cursor w;
              let (mx, w) = new_xcursor w;
              w \<leftarrow> mdb_cursor_init mdb_page_touch w mc t dbi (Some mx);
              Some (drop_cursor (drop_cursor w mx) mc) }
            else Some w);
         db \<leftarrow> get_db w (TxnDb t dbi);
         Some (MDB_SUCCESS, Some (mdb_stat0 (w_env w) db), w) } } }"

record MDB_envinfo =
  mei_mapaddr :: u64
  mei_mapsize :: nat
  mei_last_pgno :: u64
  mei_last_txnid :: u64
  mei_maxreaders :: nat
  mei_numreaders :: nat

definition mdb_env_info :: "world \<Rightarrow> (int \<times> MDB_envinfo) option" where
  "mdb_env_info w = do {
     m \<leftarrow> picked_meta w;
     Some (MDB_SUCCESS, \<lparr>mei_mapaddr = mm_address m, mei_mapsize = me_mapsize (w_env w), mei_last_pgno = mm_last_pg m,
       mei_last_txnid = mm_txnid m, mei_maxreaders = me_maxreaders (w_env w),
       mei_numreaders = (case me_txns (w_env w) of None \<Rightarrow> 0 | Some ti \<Rightarrow> mti_numreaders ti)\<rparr>) }"

section \<open>Flags of the environment\<close>

definition mdb_env_set_flags :: "world \<Rightarrow> u32 \<Rightarrow> bool \<Rightarrow> int \<times> world" where
  "mdb_env_set_flags w flag onoff =
     (if clear flag CHANGEABLE \<noteq> 0 then (EINVAL, w)
      else (MDB_SUCCESS, upd_env w (\<lambda>e. e\<lparr>me_flags := (if onoff then me_flags e OR flag else clear (me_flags e) flag)\<rparr>)))"

definition mdb_env_get_flags :: "world \<Rightarrow> u32" where
  "mdb_env_get_flags w = me_flags (w_env w) AND (CHANGEABLE OR CHANGELESS)"

definition mdb_env_get_maxkeysize :: nat where
  "mdb_env_get_maxkeysize = ENV_MAXKEY"

section \<open>The version\<close>

text \<open>Major, minor and patch level, and the text.\<close>

definition mdb_version :: "(nat \<times> nat \<times> nat) \<times> string" where
  "mdb_version = ((0, 9, 70), ''LMDB 0.9.70: (December 19, 2015)'')"

end
