(* ===== verification/Page_Mem.thy ===== *)
theory Page_Mem
  imports Node
begin

text \<open>
  Reasoning about the memory of one page: which bytes an operation may change (\<open>upd_only\<close>), the
  accessors of the page header and of nodes after writes elsewhere, and the round trips of the
  split fields (page numbers and data sizes in nodes, database records).
\<close>

section \<open>Frames\<close>

text \<open>\<open>m'\<close> differs from \<open>m\<close> at most in the \<open>n\<close> bytes from \<open>p\<close> on.\<close>

definition upd_only :: "ptr \<Rightarrow> nat \<Rightarrow> mem \<Rightarrow> mem \<Rightarrow> bool" where
  "upd_only p n m m' \<longleftrightarrow> (\<forall>q k. valid m' q k \<longleftrightarrow> valid m q k) \<and>
     (\<forall>q k. (\<forall>j<k. outside p n q j) \<longrightarrow> load m' q k = load m q k)"

text \<open>The bytes \<open>q..<q+k\<close> are apart from \<open>p..<p+n\<close>.\<close>

definition apart :: "ptr \<Rightarrow> nat \<Rightarrow> ptr \<Rightarrow> nat \<Rightarrow> bool" where
  "apart p n q k \<longleftrightarrow> (\<forall>j<k. outside p n q j)"

lemma apart_padd [simp]:
  "apart (padd p a) n (padd p b) k \<longleftrightarrow> k = 0 \<or> n = 0 \<or> b + k \<le> a \<or> a + n \<le> b"
proof
  assume h: "apart (padd p a) n (padd p b) k"
  show "k = 0 \<or> n = 0 \<or> b + k \<le> a \<or> a + n \<le> b"
  proof (rule ccontr)
    assume c: "\<not> (k = 0 \<or> n = 0 \<or> b + k \<le> a \<or> a + n \<le> b)"
    define j where "j = (if a \<le> b then 0 else a - b)"
    have "j < k" "\<not> outside (padd p a) n (padd p b) j"
      using c by (auto simp: j_def outside_def)
    then show False using h by (auto simp: apart_def)
  qed
qed (auto simp: apart_def outside_def)

lemma apart_padd0 [simp]:
  "apart p n (padd p b) k \<longleftrightarrow> k = 0 \<or> n = 0 \<or> n \<le> b"
  "apart (padd p a) n p k \<longleftrightarrow> k = 0 \<or> n = 0 \<or> k \<le> a"
  using apart_padd [of p 0 n b k] apart_padd [of p a n 0 k] by auto

lemma apart_blk: "p_blk q \<noteq> p_blk p \<Longrightarrow> apart p n q k"
  by (simp add: apart_def outside_def)

lemma upd_only_load: "upd_only p n m m' \<Longrightarrow> apart p n q k \<Longrightarrow> load m' q k = load m q k"
  by (simp add: upd_only_def apart_def)

lemma upd_only_ldn: "upd_only p n m m' \<Longrightarrow> apart p n q k \<Longrightarrow> ldn k m' q = ldn k m q"
  by (simp add: ldn_def upd_only_load)

lemma upd_only_valid: "upd_only p n m m' \<Longrightarrow> valid m' q k \<longleftrightarrow> valid m q k"
  by (simp add: upd_only_def)

lemma upd_only_refl [simp]: "upd_only p n m m"
  by (simp add: upd_only_def)

lemma upd_only_trans: "upd_only p n m m1 \<Longrightarrow> upd_only p n m1 m2 \<Longrightarrow> upd_only p n m m2"
  by (simp add: upd_only_def)

lemma upd_only_mono:
  assumes "upd_only (padd p a) k m m'" "b \<le> a" "a + k \<le> b + n"
  shows "upd_only (padd p b) n m m'"
proof -
  have "outside (padd p a) k q j" if "outside (padd p b) n q j" for q j
    using that assms(2,3) by (auto simp: outside_def)
  then show ?thesis using assms(1) unfolding upd_only_def by blast
qed

lemma store_upd_only: "store m p ys = Some m' \<Longrightarrow> upd_only p (length ys) m m'"
  unfolding upd_only_def using store_valid load_store_outside by blast

lemma stn_upd_only: "stn n m p v = Some m' \<Longrightarrow> upd_only p n m m'"
  using store_upd_only [of m p "le_bytes n v" m'] by (simp add: stn_def)

lemma stn_Some: "valid m p n \<Longrightarrow> \<exists>m'. stn n m p v = Some m' \<and> upd_only p n m m' \<and> ldn n m' p = Some (v mod 256 ^ n)"
  using st_ok [of m p n v] stn_upd_only ld_st_same by blast

lemma load_padd_valid: "valid m p n \<Longrightarrow> a + k \<le> n \<Longrightarrow> valid m (padd p a) k"
  by (auto simp: valid_def)

lemma memmove_Some:
  assumes "valid m src n" "valid m dst n"
  shows "\<exists>m'. memmove m dst src n = Some m' \<and> upd_only dst n m m' \<and> load m' dst n = load m src n"
proof -
  obtain bs where bs: "load m src n = Some bs" "length bs = n"
    using load_valid [OF assms(1)] by auto
  then obtain m' where m': "store m dst bs = Some m'" using store_ok [of m dst bs] assms(2) by auto
  then show ?thesis
    using bs store_upd_only [OF m'] load_store_same [OF m'] by (auto simp: memmove_def)
qed

text \<open>A part of a loaded range.\<close>

lemma load_part:
  assumes "load m p n = Some bs" "a + k \<le> n"
  shows "load m (padd p a) k = Some (take k (drop a bs))"
  using assms by (auto simp: load_def add.commute split: option.splits if_splits)
    (simp add: min_def drop_take take_take)+

lemma load_append:
  assumes "load m p a = Some xs" "load m (padd p a) b = Some ys"
  shows "load m p (a + b) = Some (xs @ ys)"
  using assms by (auto simp: load_def take_add add.commute split: option.splits if_splits)

section \<open>Round trips of split fields\<close>

lemma ld_st_other:
  assumes "stn n m (padd p a) v = Some m'" "b + k \<le> a \<or> a + n \<le> b"
  shows "ldn k m' (padd p b) = ldn k m (padd p b)"
  using stn_upd_only [OF assms(1)] assms(2) by (intro upd_only_ldn) auto

lemma of_nat_mod_take_bit: "(of_nat (n mod 2 ^ k) :: 'a::len word) = take_bit k (of_nat n)"
  by (simp only: take_bit_of_nat take_bit_eq_mod [of k n])

lemma of_nat_mod16: "(of_nat (n mod 65536) :: 'a::len word) = take_bit 16 (of_nat n)"
  using of_nat_mod_take_bit [of n 16] by simp

lemma split_word: "take_bit 16 x OR push_bit 16 (drop_bit 16 x) = (x :: 'a::len word)"
proof (rule bit_word_eqI)
  fix n assume "n < LENGTH('a)"
  then show "bit (take_bit 16 x OR push_bit 16 (drop_bit 16 x)) n \<longleftrightarrow> bit x n"
    by (cases "n < 16") (auto simp: bit_simps)
qed

text \<open>Three stores of two bytes at 0, 2 and 4, read back.\<close>

lemma three_shorts:
  assumes "valid m n 6"
  obtains m1 m2 m3 where "st16 m n a = Some m1" "st16 m1 (padd n 2) b = Some m2" "st16 m2 (padd n 4) c = Some m3"
    "upd_only n 6 m m3" "ld16 m3 n = Some (a mod 2 ^ 16)" "ld16 m3 (padd n 2) = Some (b mod 2 ^ 16)"
    "ld16 m3 (padd n 4) = Some (c mod 2 ^ 16)"
proof -
  have v: "valid m (padd n 0) 2" "valid m (padd n 2) 2" "valid m (padd n 4) 2"
    using assms by (auto intro: load_padd_valid simp del: padd_simps)
  obtain m1 where m1: "st16 m (padd n 0) a = Some m1" "upd_only (padd n 0) 2 m m1" "ld16 m1 (padd n 0) = Some (a mod 256 ^ 2)"
    using stn_Some [OF v(1)] by blast
  obtain m2 where m2: "st16 m1 (padd n 2) b = Some m2" "upd_only (padd n 2) 2 m1 m2" "ld16 m2 (padd n 2) = Some (b mod 256 ^ 2)"
    using stn_Some [of m1 "padd n 2" 2] v(2) upd_only_valid [OF m1(2)] by blast
  obtain m3 where m3: "st16 m2 (padd n 4) c = Some m3" "upd_only (padd n 4) 2 m2 m3" "ld16 m3 (padd n 4) = Some (c mod 256 ^ 2)"
    using stn_Some [of m2 "padd n 4" 2] v(3) upd_only_valid [OF m1(2)] upd_only_valid [OF m2(2)] by blast
  have "ld16 m3 (padd n 2) = Some (b mod 256 ^ 2)"
    using ld_st_other [OF m3(1), of 2 2] m2(3) by simp
  moreover have "ld16 m3 (padd n 0) = Some (a mod 256 ^ 2)"
    using ld_st_other [OF m3(1), of 0 2] ld_st_other [OF m2(1), of 0 2] m1(3) by simp
  moreover have "upd_only (padd n 0) 6 m m3"
    using upd_only_trans [OF upd_only_trans [OF upd_only_mono [OF m1(2), of 0 6] upd_only_mono [OF m2(2), of 0 6]]
      upd_only_mono [OF m3(2), of 0 6]] by simp
  ultimately show thesis using m1 m2 m3 by (intro that) simp_all
qed

lemma SETPGNO_spec:
  assumes "valid m n 8"
  shows "\<exists>m'. SETPGNO m n pgno = Some m' \<and> upd_only n 6 m m' \<and> NODEPGNO m' n = Some (take_bit 48 pgno)"
proof -
  have v: "valid m n 6" using load_padd_valid [OF assms, of 0 6] by simp
  from three_shorts [OF v] obtain m1 m2 m3 where st: "st16 m n (unat (pgno AND 0xffff)) = Some m1"
    "st16 m1 (padd n 2) (unat (drop_bit 16 pgno)) = Some m2" "st16 m2 (padd n 4) (unat (drop_bit 32 pgno)) = Some m3"
    "upd_only n 6 m m3" "ld16 m3 n = Some (unat (pgno AND 0xffff) mod 2 ^ 16)"
    "ld16 m3 (padd n 2) = Some (unat (drop_bit 16 pgno) mod 2 ^ 16)"
    "ld16 m3 (padd n 4) = Some (unat (drop_bit 32 pgno) mod 2 ^ 16)"
    by blast
  have "take_bit 16 (pgno AND 0xffff) OR push_bit 16 (take_bit 16 (drop_bit 16 pgno)) OR
      push_bit 32 (take_bit 16 (drop_bit 32 pgno)) = take_bit 48 pgno"
  proof (rule bit_word_eqI)
    fix k assume "k < LENGTH(64)"
    have mk: "(0xffff :: u64) = mask 16" by (simp add: mask_eq_exp_minus_1)
    consider "k < 16" | l where "k = 16 + l" "l < 16" | l where "k = 32 + l" "l < 16" | "48 \<le> k"
    proof -
      assume *: "k < 16 \<Longrightarrow> thesis" "\<And>l. k = 16 + l \<Longrightarrow> l < 16 \<Longrightarrow> thesis"
        "\<And>l. k = 32 + l \<Longrightarrow> l < 16 \<Longrightarrow> thesis" "48 \<le> k \<Longrightarrow> thesis"
      show thesis using *(1) *(2) [of "k - 16"] *(3) [of "k - 32"] *(4) by linarith
    qed
    then show "bit (take_bit 16 (pgno AND 0xffff) OR push_bit 16 (take_bit 16 (drop_bit 16 pgno)) OR
      push_bit 32 (take_bit 16 (drop_bit 32 pgno))) k \<longleftrightarrow> bit (take_bit 48 pgno) k"
      unfolding mk by cases (auto simp: bit_simps)
  qed
  then have "NODEPGNO m3 n = Some (take_bit 48 pgno)"
    using st(5-7) by (simp add: NODEPGNO_def mn_lo_def mn_hi_def of_nat_mod16)
  then show ?thesis using st by (simp add: SETPGNO_def)
qed

lemma SETDSZ_spec:
  assumes "valid m n 8" "sz < 2 ^ 32"
  shows "\<exists>m'. SETDSZ m n sz = Some m' \<and> upd_only n 4 m m' \<and> NODEDSZ m' n = Some sz"
proof -
  let ?lo = "unat ((of_nat sz :: u64) AND 0xffff)" and ?hi = "unat (drop_bit 16 (of_nat sz :: u64))"
  have v: "valid m (padd n 0) 2" "valid m (padd n 2) 2"
    using assms by (auto intro: load_padd_valid simp del: padd_simps)
  obtain m1 where m1: "st16 m (padd n 0) ?lo = Some m1" "upd_only (padd n 0) 2 m m1" "ld16 m1 (padd n 0) = Some (?lo mod 256 ^ 2)"
    using stn_Some [OF v(1)] by blast
  obtain m2 where m2: "st16 m1 (padd n 2) ?hi = Some m2" "upd_only (padd n 2) 2 m1 m2" "ld16 m2 (padd n 2) = Some (?hi mod 256 ^ 2)"
    using stn_Some [of m1 "padd n 2" 2] v(2) upd_only_valid [OF m1(2)] by blast
  have lo: "ld16 m2 n = Some (?lo mod 256 ^ 2)"
    using ld_st_other [OF m2(1), of 0 2] m1(3) by simp
  have u: "upd_only (padd n 0) 4 m m2"
    using upd_only_trans [OF upd_only_mono [OF m1(2), of 0 4] upd_only_mono [OF m2(2), of 0 4]] by simp
  have mk: "(0xffff :: u64) = mask 16" by (simp add: mask_eq_exp_minus_1)
  have sz: "unat (of_nat sz :: u64) = sz" using assms(2) by (simp add: unat_of_nat_small)
  have "?lo = sz mod 2 ^ 16"
  proof -
    have "(of_nat sz :: u64) AND mask 16 = take_bit 16 (of_nat sz)" by (simp only: take_bit_eq_mask)
    then show ?thesis unfolding mk by (simp only: unsigned_take_bit_eq sz) (simp only: take_bit_eq_mod)
  qed
  moreover have "?hi = sz div 2 ^ 16"
    using assms(2) by (simp only: unsigned_drop_bit_eq sz) (simp add: drop_bit_eq_div take_bit_nat_eq_self)
  ultimately have "NODEDSZ m2 n = Some (unat (of_nat (sz mod 2 ^ 16) OR push_bit 16 (of_nat (sz div 2 ^ 16)) :: u32))"
    using lo m2(3) assms(2) by (simp add: NODEDSZ_def mn_lo_def mn_hi_def)
  also have "(of_nat (sz mod 2 ^ 16) OR push_bit 16 (of_nat (sz div 2 ^ 16)) :: u32) = of_nat sz"
  proof -
    define x :: u32 where "x = of_nat sz"
    have "sz = unat x" unfolding x_def using assms(2) by (simp add: unat_of_nat_small)
    moreover have "unat x mod 2 ^ 16 = unat (take_bit 16 x)" "unat x div 2 ^ 16 = unat (drop_bit 16 x)"
      using unsigned_less [of x, where 'a = nat]
      by (simp_all only: unsigned_take_bit_eq unsigned_drop_bit_eq)
        (simp_all add: take_bit_eq_mod drop_bit_eq_div take_bit_nat_eq_self)
    ultimately show ?thesis using split_word [of x] by simp
  qed
  finally show ?thesis using m1(1) m2(1) u assms(2) by (auto simp: SETDSZ_def unat_of_nat_small)
qed

section \<open>Database records\<close>

lemma take_drop_append:
  "length xs = n \<Longrightarrow> take n (xs @ ys) = xs" "length xs = n \<Longrightarrow> drop n (xs @ ys) = ys"
  by auto

lemma ldn_part:
  assumes "load m p n = Some bs" "a + k \<le> n" "take k (drop a bs) = le_bytes k v"
  shows "ldn k m (padd p a) = Some (v mod 256 ^ k)"
  using load_part [OF assms(1,2)] assms(3) by (simp add: ldn_def)

lemma of_nat_unat_mod [simp]: "LENGTH('a::len) \<le> 8 * k \<Longrightarrow> of_nat (unat (x :: 'a word) mod 256 ^ k) = x"
proof -
  assume k: "LENGTH('a) \<le> 8 * k"
  have "unat x < 2 ^ LENGTH('a)" by (rule unsigned_less)
  also have "\<dots> \<le> 2 ^ (8 * k)" using k by (intro power_increasing) auto
  also have "\<dots> = 256 ^ k" by (simp add: power_mult)
  finally show ?thesis by simp
qed

end
