(* ===== verification/Node_Spec.thy ===== *)
theory Node_Spec
  imports Page_Mem
begin

text \<open>
  What a page of nodes represents: a list of nodes, each the bytes of its header, key and data.
  \<^verbatim>\<open>mdb_node_del\<close> and \<^verbatim>\<open>mdb_node_add\<close> are removal from and insertion into that list; they
  keep the page well formed.
\<close>

section \<open>The representation\<close>

text \<open>The size a node's header announces, rounded up; what \<open>node_size_at\<close> computes.\<close>

definition img_size :: "bool \<Rightarrow> u8 list \<Rightarrow> nat" where
  "img_size leaf bs = (let ks = le_val (take 2 (drop 6 bs)) in
     EVEN (if leaf then
             (if F_ISSET (of_nat (le_val (take 2 (drop 4 bs)))) F_BIGDATA then NODESIZE + ks + 8
              else u32 (NODESIZE + ks + le_val (take 4 bs)))
           else NODESIZE + ks))"

text \<open>
  \<open>page_rep m p psz leaf u L\<close>: the page at \<open>p\<close> has \<^verbatim>\<open>mp_upper = u\<close> and slot \<open>i\<close> points at offset
  \<open>fst (L ! i)\<close>, where the bytes \<open>snd (L ! i)\<close> of a node are. Nodes lie between \<open>u\<close> and the end of
  the page and do not overlap.
\<close>

definition page_rep :: "mem \<Rightarrow> ptr \<Rightarrow> nat \<Rightarrow> bool \<Rightarrow> nat \<Rightarrow> (nat \<times> u8 list) list \<Rightarrow> bool" where
  "page_rep m p psz leaf u L \<longleftrightarrow> valid m p psz \<and> psz < 2 ^ 16 \<and>
     IS_LEAF m p = Some leaf \<and> IS_LEAF2 m p = Some False \<and>
     mp_lower m p = Some (PAGEHDRSZ + 2 * length L) \<and> mp_upper m p = Some u \<and>
     PAGEHDRSZ + 2 * length L \<le> u \<and> u \<le> psz \<and>
     (\<forall>i < length L. mp_ptrs m p i = Some (fst (L ! i)) \<and>
        load m (padd p (fst (L ! i))) (length (snd (L ! i))) = Some (snd (L ! i))) \<and>
     (\<forall>(ofs, bs) \<in> set L. u \<le> ofs \<and> ofs + length bs \<le> psz \<and> NODESIZE \<le> length bs \<and> img_size leaf bs = length bs) \<and>
     (\<forall>i < length L. \<forall>j < length L. i \<noteq> j \<longrightarrow>
        fst (L ! i) + length (snd (L ! i)) \<le> fst (L ! j) \<or> fst (L ! j) + length (snd (L ! j)) \<le> fst (L ! i))"

lemma join_shorts: "lo < 2 ^ 16 \<Longrightarrow> hi < 2 ^ 16 \<Longrightarrow> unat (of_nat lo OR push_bit 16 (of_nat hi) :: u32) = lo + 2 ^ 16 * hi"
proof -
  assume b: "lo < 2 ^ 16" "hi < 2 ^ 16"
  define x :: u32 where "x = of_nat (lo + 2 ^ 16 * hi)"
  have ux: "unat x = lo + 2 ^ 16 * hi" unfolding x_def using b by (intro unat_of_nat_small) simp
  have ul: "unat (of_nat lo :: u32) = lo" "unat (of_nat hi :: u32) = hi" using b by (auto intro!: unat_of_nat_small)
  have "unat (take_bit 16 x) = lo" by (simp only: unsigned_take_bit_eq ux) (use b in \<open>simp add: take_bit_eq_mod\<close>)
  then have "take_bit 16 x = of_nat lo" by (simp only: word_unat_eq_iff ul)
  moreover have "unat (drop_bit 16 x) = hi"
    by (simp only: unsigned_drop_bit_eq ux) (use b in \<open>simp add: drop_bit_eq_div take_bit_eq_mod\<close>)
  then have "drop_bit 16 x = of_nat hi" by (simp only: word_unat_eq_iff ul)
  ultimately show ?thesis using split_word [of x] ux by simp
qed

lemma le_val_split:
  assumes "length bs = a + b"
  shows "le_val bs = le_val (take a bs) + 256 ^ a * le_val (drop a bs)"
proof -
  have "le_val bs = le_val (take a bs @ drop a bs)" by simp
  then show ?thesis using assms by (simp only: le_val_append) simp
qed

lemma node_size_at_img:
  assumes "load m n k = Some bs" "NODESIZE \<le> k" "IS_LEAF m p = Some leaf"
  shows "node_size_at m p n = Some (img_size leaf bs)"
proof -
  have len: "length bs = k" using assms(1) load_Some_valid by blast
  have b4: "load m n 4 = Some (take 4 bs)" using load_part [OF assms(1), of 0 4] assms(2) by simp
  have ks: "mn_ksize m n = Some (le_val (take 2 (drop 6 bs)))"
    using load_part [OF assms(1), of 6 2] assms(2) by (simp add: mn_ksize_def ldn_def)
  have fl: "mn_flags m n = Some (of_nat (le_val (take 2 (drop 4 bs))))"
    using load_part [OF assms(1), of 4 2] assms(2) by (simp add: mn_flags_def ldn_def)
  have lo: "mn_lo m n = Some (le_val (take 2 bs))"
    using load_part [OF assms(1), of 0 2] assms(2) by (simp add: mn_lo_def ldn_def)
  have hi: "mn_hi m n = Some (le_val (take 2 (drop 2 bs)))"
    using load_part [OF assms(1), of 2 2] assms(2) by (simp add: mn_hi_def ldn_def)
  have bd: "le_val (take 2 bs) < 2 ^ 16" "le_val (take 2 (drop 2 bs)) < 2 ^ 16"
    using le_val_bound [of "take 2 bs"] le_val_bound [of "take 2 (drop 2 bs)"] len assms(2) by auto
  have "le_val (take 4 bs) = le_val (take 2 bs) + 2 ^ 16 * le_val (take 2 (drop 2 bs))"
    using le_val_split [of "take 4 bs" 2 2] len assms(2) by (simp add: drop_take min_def)
  then have "NODEDSZ m n = Some (le_val (take 4 bs))"
    using lo hi join_shorts [OF bd] by (simp add: NODEDSZ_def)
  then show ?thesis using ks fl assms(3)
    by (simp add: node_size_at_def img_size_def Let_def)
qed

section \<open>Removing a node\<close>

definition skip :: "nat \<Rightarrow> nat \<Rightarrow> nat" where
  "skip i q = (if q < i then q else Suc q)"

definition shift_below :: "nat \<Rightarrow> nat \<Rightarrow> nat \<Rightarrow> nat" where
  "shift_below ptr d x = (if x < ptr then x + d else x)"

lemma set_mp_ptrs_Some:
  assumes "valid m p (PAGEHDRSZ + 2 * n)" "i < n" "v < 2 ^ 16"
  shows "\<exists>m'. set_mp_ptrs m p i v = Some m' \<and> upd_only (padd p (PAGEHDRSZ + 2 * i)) 2 m m' \<and>
    mp_ptrs m' p i = Some v \<and> (\<forall>j. j \<noteq> i \<longrightarrow> mp_ptrs m' p j = mp_ptrs m p j)"
proof -
  have "valid m (padd p (PAGEHDRSZ + 2 * i)) 2" using assms(1,2) by (intro load_padd_valid) auto
  from stn_Some [OF this, of v] obtain m' where m': "st16 m (padd p (PAGEHDRSZ + 2 * i)) v = Some m'"
    "upd_only (padd p (PAGEHDRSZ + 2 * i)) 2 m m'" "ld16 m' (padd p (PAGEHDRSZ + 2 * i)) = Some (v mod 256 ^ 2)"
    by blast
  have "mp_ptrs m' p j = mp_ptrs m p j" if "j \<noteq> i" for j
    unfolding mp_ptrs_def using that by (intro ld_st_other [OF m'(1)]) auto
  then show ?thesis using m' assms(3) by (simp add: set_mp_ptrs_def mp_ptrs_def)
qed

lemma ptrs_region: "upd_only (padd p (PAGEHDRSZ + 2 * i)) 2 m m' \<Longrightarrow> i < n \<Longrightarrow> upd_only (padd p PAGEHDRSZ) (2 * n) m m'"
  by (erule upd_only_mono) auto

lemma node_del_ptrs_spec:
  assumes "k + i = n" "j = (if i \<le> indx then i else i - 1)" "indx < n" "valid m p (PAGEHDRSZ + 2 * n)"
    and "\<forall>q. i \<le> q \<longrightarrow> q < n \<longrightarrow> mp_ptrs m p q = Some (ofs q)"
    and "\<forall>q < j. mp_ptrs m p q = Some (shift_below ptr d (ofs (skip indx q)))"
    and "\<forall>q < n. ofs q < 2 ^ 16 \<and> shift_below ptr d (ofs q) < 2 ^ 16"
  shows "\<exists>m'. node_del_ptrs m p indx ptr d k i j = Some m' \<and> upd_only (padd p PAGEHDRSZ) (2 * n) m m' \<and>
    (\<forall>q < n - 1. mp_ptrs m' p q = Some (shift_below ptr d (ofs (skip indx q))))"
  using assms
proof (induction k arbitrary: m i j)
  case 0
  then have "j = n - 1" by auto
  then show ?case using 0 by auto
next
  case (Suc k)
  show ?case
  proof (cases "i = indx")
    case True
    have "\<exists>m'. node_del_ptrs m p indx ptr d k (i + 1) j = Some m' \<and> upd_only (padd p PAGEHDRSZ) (2 * n) m m' \<and>
      (\<forall>q < n - 1. mp_ptrs m' p q = Some (shift_below ptr d (ofs (skip indx q))))"
      using Suc.prems True by (intro Suc.IH) auto
    then show ?thesis using True by simp
  next
    case False
    have j: "j \<le> i" "j < n" "i < n" using Suc.prems(1,2,3) by auto
    have sk: "skip indx j = i" using Suc.prems(2) False by (auto simp: skip_def)
    obtain m1 where m1: "set_mp_ptrs m p j (ofs i) = Some m1" "upd_only (padd p (PAGEHDRSZ + 2 * j)) 2 m m1"
      "mp_ptrs m1 p j = Some (ofs i)" "\<forall>q. q \<noteq> j \<longrightarrow> mp_ptrs m1 p q = mp_ptrs m p q"
      using set_mp_ptrs_Some [OF Suc.prems(4) j(2)] Suc.prems(7) j by blast
    have y: "mp_ptrs m1 p i = Some (ofs i)" using m1(3,4) Suc.prems(5) j by (cases "i = j") auto
    have v1: "valid m1 p (PAGEHDRSZ + 2 * n)" using upd_only_valid [OF m1(2)] Suc.prems(4) by simp
    obtain m2 where m2: "(if ofs i < ptr then set_mp_ptrs m1 p j (ofs i + d) else Some m1) = Some m2"
      "upd_only (padd p (PAGEHDRSZ + 2 * j)) 2 m1 m2"
      "mp_ptrs m2 p j = Some (shift_below ptr d (ofs i))" "\<forall>q. q \<noteq> j \<longrightarrow> mp_ptrs m2 p q = mp_ptrs m1 p q"
    proof (cases "ofs i < ptr")
      case True
      then have "ofs i + d < 2 ^ 16" using Suc.prems(7) j by (auto simp: shift_below_def split: if_splits)
      from set_mp_ptrs_Some [OF v1 j(2) this] True show thesis by (auto simp: shift_below_def intro: that)
    next
      case False
      then show thesis using m1 by (auto simp: shift_below_def intro: that)
    qed
    have u: "upd_only (padd p PAGEHDRSZ) (2 * n) m m2"
      using ptrs_region [OF m1(2) j(2)] ptrs_region [OF m2(2) j(2)] by (rule upd_only_trans)
    have "\<exists>m'. node_del_ptrs m2 p indx ptr d k (i + 1) (j + 1) = Some m' \<and> upd_only (padd p PAGEHDRSZ) (2 * n) m2 m' \<and>
      (\<forall>q < n - 1. mp_ptrs m' p q = Some (shift_below ptr d (ofs (skip indx q))))"
    proof (rule Suc.IH)
      show "\<forall>q. i + 1 \<le> q \<longrightarrow> q < n \<longrightarrow> mp_ptrs m2 p q = Some (ofs q)"
        using m1(4) m2(4) Suc.prems(5) j by auto
      show "\<forall>q < j + 1. mp_ptrs m2 p q = Some (shift_below ptr d (ofs (skip indx q)))"
        using m1(4) m2(3,4) Suc.prems(6) sk by (auto simp: less_Suc_eq)
      show "valid m2 p (PAGEHDRSZ + 2 * n)" using upd_only_valid [OF u] Suc.prems(4) by simp
    qed (use Suc.prems(1,2,3,7) False in auto)
    moreover have "mp_ptrs m p i = Some (ofs i)" using Suc.prems(5) j by auto
    ultimately show ?thesis using False m1(1,3) y m2(1) u
      by (auto split: if_splits intro: upd_only_trans)
  qed
qed


lemma set_mp_lower_Some:
  assumes "valid m p PAGEHDRSZ"
  shows "\<exists>m'. set_mp_lower m p v = Some m' \<and> upd_only (padd p 12) 2 m m' \<and> mp_lower m' p = Some (v mod 2 ^ 16)"
  using stn_Some [of m "padd p 12" 2 v] load_padd_valid [OF assms, of 12 2]
  by (simp add: set_mp_lower_def mp_lower_def)

lemma set_mp_upper_Some:
  assumes "valid m p PAGEHDRSZ"
  shows "\<exists>m'. set_mp_upper m p v = Some m' \<and> upd_only (padd p 14) 2 m m' \<and> mp_upper m' p = Some (v mod 2 ^ 16)"
  using stn_Some [of m "padd p 14" 2 v] load_padd_valid [OF assms, of 14 2]
  by (simp add: set_mp_upper_def mp_upper_def)

text \<open>The accessors after a change elsewhere on the page.\<close>

lemma header_frame:
  assumes "upd_only (padd p a) n m m'"
  shows "12 \<le> a \<Longrightarrow> page_is f m' p = page_is f m p"
    and "14 \<le> a \<Longrightarrow> mp_lower m' p = mp_lower m p"
    and "16 \<le> a \<or> a + n \<le> 14 \<Longrightarrow> mp_upper m' p = mp_upper m p"
    and "16 + 2 * j + 2 \<le> a \<or> a + n \<le> 16 + 2 * j \<Longrightarrow> mp_ptrs m' p j = mp_ptrs m p j"
  using assms by (simp_all add: page_is_def mp_flags_def mp_lower_def mp_upper_def mp_ptrs_def upd_only_ldn)

text \<open>Removal at an index, and the slots after it.\<close>

definition del_nth :: "nat \<Rightarrow> 'a list \<Rightarrow> 'a list" where
  "del_nth i xs = take i xs @ drop (Suc i) xs"

lemma length_del_nth: "i < length xs \<Longrightarrow> length (del_nth i xs) = length xs - 1"
  by (simp add: del_nth_def)

lemma nth_del_nth: "i < length xs \<Longrightarrow> q < length xs - 1 \<Longrightarrow> del_nth i xs ! q = xs ! skip i q"
  by (auto simp: del_nth_def skip_def nth_append)

lemma skip_less: "i < n \<Longrightarrow> q < n - 1 \<Longrightarrow> skip i q < n"
  by (auto simp: skip_def)

lemma skip_neq: "skip i q \<noteq> i"
  by (auto simp: skip_def)

lemma skip_inj: "skip i q = skip i r \<longleftrightarrow> q = r"
  by (auto simp: skip_def)

lemma set_del_nth: "i < length xs \<Longrightarrow> x \<in> set (del_nth i xs) \<Longrightarrow> \<exists>q < length xs. q \<noteq> i \<and> x = xs ! q"
  using nth_del_nth [of i xs] skip_less [of i "length xs"] skip_neq [of i]
  by (metis in_set_conv_nth length_del_nth)


lemma page_repD:
  assumes "page_rep m p psz leaf u L"
  shows "valid m p psz" "psz < 2 ^ 16" "IS_LEAF m p = Some leaf" "IS_LEAF2 m p = Some False"
    "mp_lower m p = Some (PAGEHDRSZ + 2 * length L)" "mp_upper m p = Some u"
    "PAGEHDRSZ + 2 * length L \<le> u" "u \<le> psz"
  using assms by (simp_all add: page_rep_def)

lemma page_repI:
  assumes "valid m p psz" "psz < 2 ^ 16" "IS_LEAF m p = Some leaf" "IS_LEAF2 m p = Some False"
    and "length M = k" "mp_lower m p = Some (PAGEHDRSZ + 2 * k)" "mp_upper m p = Some u"
    and "PAGEHDRSZ + 2 * k \<le> u" "u \<le> psz"
    and "\<And>q. q < k \<Longrightarrow> mp_ptrs m p q = Some (fst (M ! q))"
    and "\<And>q. q < k \<Longrightarrow> load m (padd p (fst (M ! q))) (length (snd (M ! q))) = Some (snd (M ! q))"
    and "\<And>q. q < k \<Longrightarrow> u \<le> fst (M ! q) \<and> fst (M ! q) + length (snd (M ! q)) \<le> psz \<and>
      NODESIZE \<le> length (snd (M ! q)) \<and> img_size leaf (snd (M ! q)) = length (snd (M ! q))"
    and "\<And>q r. q < k \<Longrightarrow> r < k \<Longrightarrow> q \<noteq> r \<Longrightarrow> fst (M ! q) + length (snd (M ! q)) \<le> fst (M ! r) \<or>
      fst (M ! r) + length (snd (M ! r)) \<le> fst (M ! q)"
  shows "page_rep m p psz leaf u M"
  using assms by (simp add: page_rep_def all_set_conv_all_nth case_prod_beta)

lemma page_rep_nth:
  assumes "page_rep m p psz leaf u L" "i < length L"
  shows "mp_ptrs m p i = Some (fst (L ! i))"
    "load m (padd p (fst (L ! i))) (length (snd (L ! i))) = Some (snd (L ! i))"
    "u \<le> fst (L ! i)" "fst (L ! i) + length (snd (L ! i)) \<le> psz"
    "NODESIZE \<le> length (snd (L ! i))" "img_size leaf (snd (L ! i)) = length (snd (L ! i))"
    "j < length L \<Longrightarrow> i \<noteq> j \<Longrightarrow> fst (L ! i) + length (snd (L ! i)) \<le> fst (L ! j) \<or>
       fst (L ! j) + length (snd (L ! j)) \<le> fst (L ! i)"
  using assms nth_mem [OF assms(2)] by (auto simp: page_rep_def case_prod_beta)

lemma page_rep_NUMKEYS: "page_rep m p psz leaf u L \<Longrightarrow> NUMKEYS m p = Some (length L)"
  using page_repD(2,7,8) [of m p psz leaf u L]
  by (simp add: NUMKEYS_def page_repD(5) u32_def)

lemma page_rep_SIZELEFT:
  assumes "page_rep m p psz leaf u L"
  shows "SIZELEFT m p = Some (u - (PAGEHDRSZ + 2 * length L))"
proof -
  have b: "PAGEHDRSZ + 2 * length L \<le> u" "u < 2 ^ 16" using page_repD(2,7,8) [OF assms] by auto
  then have "(u + (2 ^ 16 - (PAGEHDRSZ + 2 * length L))) mod 2 ^ 16 = u - (PAGEHDRSZ + 2 * length L)"
  proof -
    have "u + (2 ^ 16 - (PAGEHDRSZ + 2 * length L)) = (u - (PAGEHDRSZ + 2 * length L)) + 2 ^ 16" using b by simp
    then show ?thesis by (simp only: mod_add_self2) (use b in simp)
  qed
  then show ?thesis using page_repD(5,6) [OF assms] by (simp add: SIZELEFT_def)
qed

text \<open>The move of the bytes below the removed node.\<close>

lemma gap_closed:
  assumes "upd_only (padd p (u + d)) (ptr - u) m m'"
    and "load m' (padd p (u + d)) (ptr - u) = load m (padd p u) (ptr - u)"
    and "valid m p (ptr + d)" "u \<le> ptr" "u \<le> x"
    and "load m (padd p x) k = Some bs" "x + k \<le> ptr \<or> ptr + d \<le> x" "0 < d" "0 < k"
  shows "load m' (padd p (shift_below ptr d x)) k = Some bs"
proof (cases "x < ptr")
  case True
  then have x: "x + k \<le> ptr" using assms(7,8) by linarith
  obtain cs where cs: "load m (padd p u) (ptr - u) = Some cs"
    using load_valid [OF load_padd_valid [OF assms(3), of u "ptr - u"]] assms(4) by auto
  have "load m (padd (padd p u) (x - u)) k = Some (take k (drop (x - u) cs))"
    using x assms(5) by (intro load_part [OF cs]) auto
  moreover have "load m' (padd (padd p (u + d)) (x - u)) k = Some (take k (drop (x - u) cs))"
    using x assms(5) by (intro load_part [OF assms(2) [unfolded cs]]) auto
  ultimately show ?thesis using assms(5,6) True by (simp add: shift_below_def add.commute)
next
  case False
  have "load m' (padd p x) k = load m (padd p x) k"
    using False assms(4,7,9) by (intro upd_only_load [OF assms(1)]) auto
  then show ?thesis using assms(6) False by (simp add: shift_below_def)
qed


text \<open>Removal: the node disappears from the list, the others keep their bytes.\<close>

lemma node_del_at_rep:
  assumes rep: "page_rep m p psz leaf u L" and i: "i < length L"
  defines "ptr \<equiv> fst (L ! i)" and "d \<equiv> length (snd (L ! i))"
  shows "\<exists>m'. node_del_at m p i ks = Some m' \<and> upd_only (padd p 12) (psz - 12) m m' \<and>
    page_rep m' p psz leaf (u + d) (del_nth i (map (\<lambda>(x, bs). (shift_below ptr d x, bs)) L))"
proof -
  let ?n = "length L" and ?s = "shift_below ptr d"
  note D = page_repD [OF rep] and N = page_rep_nth [OF rep]
  have b: "u \<le> ptr" "ptr + d \<le> psz" "8 \<le> d" "PAGEHDRSZ + 2 * ?n \<le> psz"
    using N(3-5) [OF i] D(7,8) by (auto simp: ptr_def d_def)
  have vh: "valid m p (PAGEHDRSZ + 2 * ?n)" using load_padd_valid [OF D(1), of 0] b(4) by simp
  have nk: "NUMKEYS m p = Some ?n" by (rule page_rep_NUMKEYS [OF rep])
  have node: "NODEPTR m p i = Some (padd p ptr)" using N(1) [OF i] by (simp add: NODEPTR_def ptr_def)
  have sz: "node_size_at m p (padd p ptr) = Some d"
    using node_size_at_img [OF N(2) [OF i] N(5) [OF i] D(3)] N(6) [OF i] by (simp add: ptr_def d_def)
  have sh: "?s (fst (L ! q)) < 2 ^ 16" "fst (L ! q) < 2 ^ 16" if "q < ?n" for q
    using N(3-5) [OF that] N(7) [OF that i] b D(2)
    by (cases "q = i"; auto simp: shift_below_def ptr_def d_def)+
  obtain m1 where m1: "node_del_ptrs m p i ptr d ?n 0 0 = Some m1" "upd_only (padd p PAGEHDRSZ) (2 * ?n) m m1"
    "\<forall>q < ?n - 1. mp_ptrs m1 p q = Some (?s (fst (L ! skip i q)))"
    using node_del_ptrs_spec [of ?n 0 ?n 0 i m p "\<lambda>q. fst (L ! q)" ptr d] i vh N(1) sh by auto
  have v1: "valid m1 p k = valid m p k" for k by (rule upd_only_valid [OF m1(2)])
  have up1: "mp_upper m1 p = Some u" and lo1: "mp_lower m1 p = Some (PAGEHDRSZ + 2 * ?n)"
    using header_frame(2,3) [OF m1(2)] D by simp_all
  obtain m2 where m2: "memmove m1 (padd p (u + d)) (padd p u) (ptr - u) = Some m2"
    "upd_only (padd p (u + d)) (ptr - u) m1 m2" "load m2 (padd p (u + d)) (ptr - u) = load m1 (padd p u) (ptr - u)"
    using memmove_Some [of m1 "padd p u" "ptr - u" "padd p (u + d)"] b load_padd_valid [OF D(1)]
    by (auto simp: upd_only_valid [OF m1(2)])
  have v2: "valid m2 p k = valid m p k" for k using upd_only_valid [OF m2(2)] v1 by simp
  have lo2: "mp_lower m2 p = Some (PAGEHDRSZ + 2 * ?n)" using header_frame(2) [OF m2(2)] lo1 b D(7) by simp
  have up2: "mp_upper m2 p = Some u" using header_frame(3) [OF m2(2)] up1 b D(7) by simp
  have hd2: "valid m2 p PAGEHDRSZ" using load_padd_valid [OF D(1), of 0 PAGEHDRSZ] b(4) v2 by simp
  obtain m3 where m3: "set_mp_lower m2 p (PAGEHDRSZ + 2 * ?n + 2 ^ 16 - 2) = Some m3" "upd_only (padd p 12) 2 m2 m3"
    "mp_lower m3 p = Some ((PAGEHDRSZ + 2 * ?n + 2 ^ 16 - 2) mod 2 ^ 16)"
    using set_mp_lower_Some [OF hd2] by blast
  have up3: "mp_upper m3 p = Some u" using header_frame(3) [OF m3(2)] up2 by simp
  have hd3: "valid m3 p PAGEHDRSZ" using hd2 upd_only_valid [OF m3(2)] by simp
  obtain m4 where m4: "set_mp_upper m3 p (u + d) = Some m4" "upd_only (padd p 14) 2 m3 m4"
    "mp_upper m4 p = Some ((u + d) mod 2 ^ 16)"
    using set_mp_upper_Some [OF hd3] by blast
  have all: "upd_only (padd p 12) (psz - 12) m m4"
    using upd_only_trans [OF upd_only_trans [OF upd_only_trans [OF
        upd_only_mono [OF m1(2), of 12 "psz - 12"] upd_only_mono [OF m2(2), of 12 "psz - 12"]]
        upd_only_mono [OF m3(2), of 12 "psz - 12"]] upd_only_mono [OF m4(2), of 12 "psz - 12"]] b D(7) by simp
  have lo4: "mp_lower m4 p = Some (PAGEHDRSZ + 2 * (?n - 1))"
  proof -
    have "PAGEHDRSZ + 2 * ?n + 2 ^ 16 - 2 = PAGEHDRSZ + 2 * (?n - 1) + 2 ^ 16" using i by simp
    then have "(PAGEHDRSZ + 2 * ?n + 2 ^ 16 - 2) mod 2 ^ 16 = PAGEHDRSZ + 2 * (?n - 1)"
      by (simp only: mod_add_self2) (use b(4) D(2) i in simp)
    then show ?thesis using header_frame(2) [OF m4(2)] m3(3) by simp
  qed
  have up4: "mp_upper m4 p = Some (u + d)" using m4(3) b D(2) by simp
  have ptrs4: "mp_ptrs m4 p q = Some (?s (fst (L ! skip i q)))" if "q < ?n - 1" for q
  proof -
    have qd: "16 + 2 * q + 2 \<le> u + d" using that D(7) by simp
    have "mp_ptrs m4 p q = mp_ptrs m3 p q" by (rule header_frame(4) [OF m4(2)]) simp
    also have "\<dots> = mp_ptrs m2 p q" by (rule header_frame(4) [OF m3(2)]) simp
    also have "\<dots> = mp_ptrs m1 p q" by (rule header_frame(4) [OF m2(2)]) (use qd in simp)
    finally show ?thesis using m1(3) that by simp
  qed
  have node4: "load m4 (padd p (?s (fst (L ! r)))) (length (snd (L ! r))) = Some (snd (L ! r))" if r: "r < ?n" "r \<noteq> i" for r
  proof -
    note Nr = page_rep_nth [OF rep r(1)]
    have "load m1 (padd p (fst (L ! r))) (length (snd (L ! r))) = Some (snd (L ! r))"
      using upd_only_load [OF m1(2)] Nr(2,3) D(7) by simp
    then have "load m2 (padd p (?s (fst (L ! r)))) (length (snd (L ! r))) = Some (snd (L ! r))"
      using Nr(3,5) Nr(7) [OF i r(2)] b m2(2,3) load_padd_valid [OF D(1), of 0 "ptr + d"]
      by (intro gap_closed [OF m2(2,3)]) (auto simp: ptr_def d_def upd_only_valid [OF m1(2)])
    moreover have "u \<le> ?s (fst (L ! r))" using Nr(3) by (simp add: shift_below_def)
    ultimately show ?thesis using upd_only_load [OF m3(2)] upd_only_load [OF m4(2)] D(7) by simp
  qed
  let ?M = "del_nth i (map (\<lambda>(x, bs). (?s x, bs)) L)"
  have lenM: "length ?M = ?n - 1" using length_del_nth [of i "map (\<lambda>(x, bs). (?s x, bs)) L"] i by simp
  have nthM: "?M ! q = (?s (fst (L ! skip i q)), snd (L ! skip i q))" if "q < ?n - 1" for q
    using nth_del_nth [of i "map (\<lambda>(x, bs). (?s x, bs)) L" q] skip_less [OF i that] that i by (simp add: case_prod_beta)
  have setM: "u + d \<le> fst (?M ! q) \<and> fst (?M ! q) + length (snd (?M ! q)) \<le> psz \<and>
      NODESIZE \<le> length (snd (?M ! q)) \<and> img_size leaf (snd (?M ! q)) = length (snd (?M ! q))" if "q < ?n - 1" for q
  proof -
    note Nq = page_rep_nth [OF rep skip_less [OF i that]]
    show ?thesis using nthM [OF that] Nq(3-6) Nq(7) [OF i skip_neq] b by (auto simp: shift_below_def ptr_def d_def)
  qed
  have disj: "fst (?M ! q) + length (snd (?M ! q)) \<le> fst (?M ! r) \<or> fst (?M ! r) + length (snd (?M ! r)) \<le> fst (?M ! q)"
    if "q < ?n - 1" "r < ?n - 1" "q \<noteq> r" for q r
  proof -
    note Nq = page_rep_nth [OF rep skip_less [OF i that(1)]] and Nr = page_rep_nth [OF rep skip_less [OF i that(2)]]
    have "skip i q \<noteq> skip i r" using that(3) by (simp add: skip_inj)
    from Nq(7) [OF skip_less [OF i that(2)] this] Nq(7) [OF i skip_neq] Nr(7) [OF i skip_neq] Nq(5) Nr(5) b
    show ?thesis using nthM [OF that(1)] nthM [OF that(2)] by (auto simp: shift_below_def ptr_def d_def)
  qed
  have "page_rep m4 p psz leaf (u + d) ?M"
  proof -
    have hf: "valid m4 p psz" "IS_LEAF m4 p = Some leaf" "IS_LEAF2 m4 p = Some False"
      using D(1,3,4) by (simp_all add: upd_only_valid [OF all] header_frame(1) [OF all])
    have bd: "PAGEHDRSZ + 2 * (?n - 1) \<le> u + d" "u + d \<le> psz" using D(7) b by simp_all
    show ?thesis
    proof (rule page_repI [OF hf(1) D(2) hf(2,3) lenM lo4 up4 bd _ _ setM disj])
      fix q assume q: "q < ?n - 1"
      show "mp_ptrs m4 p q = Some (fst (?M ! q))" using ptrs4 [OF q] nthM [OF q] by simp
      show "load m4 (padd p (fst (?M ! q))) (length (snd (?M ! q))) = Some (snd (?M ! q))"
        using node4 [OF skip_less [OF i q] skip_neq] nthM [OF q] by simp
    qed
  qed
  moreover have "node_del_at m p i ks = Some m4"
    using nk D(2,4,7,8) i node sz N(1) [OF i] m1(1) up1 m2(1) lo2 m3(1) up3 m4(1) b
    by (simp add: node_del_at_def ptr_def [symmetric] Let_def)
  ultimately show ?thesis using all by blast
qed

end
