(* ===== verification/Node_Add_Spec.thy ===== *)
theory Node_Add_Spec
  imports Node_Spec
begin

text \<open>
  \<^verbatim>\<open>mdb_node_add\<close> on a page of nodes: the slots from the insertion point on move up by one, the
  node is written below the others, and the page represents the list with the node inserted.
\<close>

section \<open>Making room\<close>

definition ins_nth :: "nat \<Rightarrow> 'a \<Rightarrow> 'a list \<Rightarrow> 'a list" where
  "ins_nth i x xs = take i xs @ x # drop i xs"

lemma length_ins_nth: "i \<le> length xs \<Longrightarrow> length (ins_nth i x xs) = Suc (length xs)"
  by (simp add: ins_nth_def)

lemma nth_ins_nth:
  "i \<le> length xs \<Longrightarrow> q \<le> length xs \<Longrightarrow>
   ins_nth i x xs ! q = (if q < i then xs ! q else if q = i then x else xs ! (q - 1))"
  by (auto simp: ins_nth_def nth_append nth_Cons' min_def)

lemma del_ins_nth: "i \<le> length xs \<Longrightarrow> del_nth i (ins_nth i x xs) = xs"
  by (simp add: del_nth_def ins_nth_def)

lemma node_add_ptrs_spec:
  assumes "k \<le> n" "valid m p (PAGEHDRSZ + 2 * Suc n)"
  shows "\<exists>m'. node_add_ptrs m p i k = Some m' \<and> upd_only (padd p PAGEHDRSZ) (2 * Suc n) m m' \<and>
    (\<forall>q. mp_ptrs m' p q = (if i < q \<and> q \<le> k then mp_ptrs m p (q - 1) else mp_ptrs m p q))"
  using assms
proof (induction k arbitrary: m)
  case 0
  then show ?case by auto
next
  case (Suc k)
  show ?case
  proof (cases "i < Suc k")
    case True
    have "valid m (padd p (PAGEHDRSZ + 2 * k)) 2" using Suc.prems by (intro load_padd_valid) auto
    then obtain x where x: "mp_ptrs m p k = Some x" "x < 2 ^ 16"
      using ld_ok [of m "padd p (PAGEHDRSZ + 2 * k)" 2] by (auto simp: mp_ptrs_def)
    obtain m1 where m1: "set_mp_ptrs m p (Suc k) x = Some m1"
      "upd_only (padd p (PAGEHDRSZ + 2 * Suc k)) 2 m m1" "mp_ptrs m1 p (Suc k) = Some x"
      "\<forall>q. q \<noteq> Suc k \<longrightarrow> mp_ptrs m1 p q = mp_ptrs m p q"
      using set_mp_ptrs_Some [OF Suc.prems(2), of "Suc k" x] Suc.prems(1) x(2) by auto
    have u: "upd_only (padd p PAGEHDRSZ) (2 * Suc n) m m1"
      by (rule ptrs_region [OF m1(2)]) (use Suc.prems(1) in simp)
    obtain m2 where m2: "node_add_ptrs m1 p i k = Some m2" "upd_only (padd p PAGEHDRSZ) (2 * Suc n) m1 m2"
      "\<forall>q. mp_ptrs m2 p q = (if i < q \<and> q \<le> k then mp_ptrs m1 p (q - 1) else mp_ptrs m1 p q)"
      using Suc.IH [of m1] Suc.prems upd_only_valid [OF u] by auto
    have "mp_ptrs m2 p q = (if i < q \<and> q \<le> Suc k then mp_ptrs m p (q - 1) else mp_ptrs m p q)" for q
    proof (cases "q = Suc k")
      case True
      then show ?thesis using m2(3) m1(3) x(1) \<open>i < Suc k\<close> by simp
    next
      case False
      then show ?thesis using m2(3) m1(4) by (auto simp: le_Suc_eq)
    qed
    then show ?thesis using True x(1) m1(1) m2(1) upd_only_trans [OF u m2(2)] by simp
  next
    case False
    then show ?thesis by auto
  qed
qed

text \<open>What \<open>node_add_room\<close> leaves: slots, bounds, and the bytes of the nodes already there.\<close>

lemma node_add_room_spec:
  assumes rep: "page_rep m p psz leaf u L" and i: "i \<le> length L"
    and ns: "PAGEHDRSZ + 2 * length L + 2 + ns \<le> u"
  shows "\<exists>m'. node_add_room m p i ns = Some (m', padd p (u - ns)) \<and> upd_only (padd p 12) (u - ns - 12) m m' \<and>
    mp_lower m' p = Some (PAGEHDRSZ + 2 * Suc (length L)) \<and> mp_upper m' p = Some (u - ns) \<and>
    (\<forall>q \<le> length L. mp_ptrs m' p q =
       Some (if q < i then fst (L ! q) else if q = i then u - ns else fst (L ! (q - 1))))"
proof -
  let ?n = "length L" and ?ofs = "u - ns"
  note D = page_repD [OF rep] and N = page_rep_nth [OF rep]
  have vh: "valid m p (PAGEHDRSZ + 2 * Suc ?n)" using load_padd_valid [OF D(1), of 0] ns D(8) by simp
  obtain m1 where m1: "node_add_ptrs m p i ?n = Some m1" "upd_only (padd p PAGEHDRSZ) (2 * Suc ?n) m m1"
    "\<forall>q. mp_ptrs m1 p q = (if i < q \<and> q \<le> ?n then mp_ptrs m p (q - 1) else mp_ptrs m p q)"
    using node_add_ptrs_spec [OF _ vh] by blast
  have up1: "mp_upper m1 p = Some u" and lo1: "mp_lower m1 p = Some (PAGEHDRSZ + 2 * ?n)"
    using header_frame(2,3) [OF m1(2)] D(5,6) by simp_all
  have ofs: "(u + 2 ^ 16 - ns mod 2 ^ 16) mod 2 ^ 16 = ?ofs"
  proof -
    have "u + 2 ^ 16 - ns mod 2 ^ 16 = ?ofs + 2 ^ 16" using ns D(2,8) by simp
    then show ?thesis by (simp only: mod_add_self2) (use D(2,8) in simp)
  qed
  have ofs16: "?ofs < 2 ^ 16" using D(2,8) by simp
  have vh1: "valid m1 p (PAGEHDRSZ + 2 * Suc ?n)" using vh upd_only_valid [OF m1(2)] by simp
  obtain m2 where m2: "set_mp_ptrs m1 p i ?ofs = Some m2" "upd_only (padd p (PAGEHDRSZ + 2 * i)) 2 m1 m2"
    "mp_ptrs m2 p i = Some ?ofs" "\<forall>q. q \<noteq> i \<longrightarrow> mp_ptrs m2 p q = mp_ptrs m1 p q"
    using set_mp_ptrs_Some [OF vh1 _ ofs16, of i] i by auto
  have hd2: "valid m2 p PAGEHDRSZ" using load_padd_valid [OF vh1, of 0 PAGEHDRSZ] upd_only_valid [OF m2(2)] by simp
  obtain m3 where m3: "set_mp_upper m2 p ?ofs = Some m3" "upd_only (padd p 14) 2 m2 m3" "mp_upper m3 p = Some (?ofs mod 2 ^ 16)"
    using set_mp_upper_Some [OF hd2] by blast
  have hd3: "valid m3 p PAGEHDRSZ" using hd2 upd_only_valid [OF m3(2)] by simp
  obtain m4 where m4: "set_mp_lower m3 p (PAGEHDRSZ + 2 * ?n + 2) = Some m4" "upd_only (padd p 12) 2 m3 m4"
    "mp_lower m4 p = Some ((PAGEHDRSZ + 2 * ?n + 2) mod 2 ^ 16)"
    using set_mp_lower_Some [OF hd3] by blast
  have all: "upd_only (padd p 12) (?ofs - 12) m m4"
    using upd_only_trans [OF upd_only_trans [OF upd_only_trans [OF
        upd_only_mono [OF m1(2), of 12 "?ofs - 12"] upd_only_mono [OF m2(2), of 12 "?ofs - 12"]]
        upd_only_mono [OF m3(2), of 12 "?ofs - 12"]] upd_only_mono [OF m4(2), of 12 "?ofs - 12"]] ns i by simp
  have up4: "mp_upper m4 p = Some ?ofs" using header_frame(3) [OF m4(2)] m3(3) ofs16 by simp
  have lo4: "mp_lower m4 p = Some (PAGEHDRSZ + 2 * Suc ?n)" using m4(3) ns D(2,8) by simp
  have pt2: "mp_ptrs m2 p q = Some (if q < i then fst (L ! q) else if q = i then ?ofs else fst (L ! (q - 1)))"
    if "q \<le> ?n" for q
    using m2(3,4) m1(3) N(1) [of q] N(1) [of "q - 1"] that i by auto
  have pt4: "mp_ptrs m4 p q = mp_ptrs m2 p q" for q
    using header_frame(4) [OF m3(2), of q] header_frame(4) [OF m4(2), of q] by simp
  have "node_add_room m p i ns = Some (m4, padd p ?ofs)"
    using page_rep_NUMKEYS [OF rep] m1(1) up1 lo1 ofs ns m2(1) m3(1) m4(1) pt4 m2(3)
    by (simp add: node_add_room_def NODEPTR_def Let_def)
  then show ?thesis using all up4 lo4 pt2 pt4 by simp
qed

section \<open>Writing the node\<close>

text \<open>Once the room is made, any bytes of the announced size written there complete the page.\<close>

lemma room_filled:
  assumes rep: "page_rep m p psz leaf u L" and i: "i \<le> length L"
    and ns: "PAGEHDRSZ + 2 * length L + 2 + ns \<le> u"
    and m1: "upd_only (padd p 12) (u - ns - 12) m m1" "mp_lower m1 p = Some (PAGEHDRSZ + 2 * Suc (length L))"
      "mp_upper m1 p = Some (u - ns)"
      "\<forall>q \<le> length L. mp_ptrs m1 p q = Some (if q < i then fst (L ! q) else if q = i then u - ns else fst (L ! (q - 1)))"
    and m2: "upd_only (padd p (u - ns)) ns m1 m2" "load m2 (padd p (u - ns)) ns = Some bs"
    and bs: "NODESIZE \<le> ns" "img_size leaf bs = ns"
  shows "page_rep m2 p psz leaf (u - ns) (ins_nth i (u - ns, bs) L)"
proof -
  let ?n = "length L" and ?ofs = "u - ns" and ?M = "ins_nth i (u - ns, bs) L"
  note D = page_repD [OF rep]
  have len: "length bs = ns" using load_Some_valid [OF m2(2)] by blast
  have ofs: "PAGEHDRSZ + 2 * ?n + 2 \<le> ?ofs" "?ofs + ns = u" using ns by simp_all
  have lenM: "length ?M = Suc ?n" by (rule length_ins_nth [OF i])
  have hf: "valid m2 p psz" "page_is f m2 p = page_is f m p" for f
    using header_frame(1) [OF m1(1)] header_frame(1) [OF m2(1)] D(1) ofs
    by (simp_all add: upd_only_valid [OF m1(1)] upd_only_valid [OF m2(1)])
  have lo: "mp_lower m2 p = Some (PAGEHDRSZ + 2 * Suc ?n)" using header_frame(2) [OF m2(1)] m1(2) ofs by simp
  have up: "mp_upper m2 p = Some ?ofs" using header_frame(3) [OF m2(1)] m1(3) ofs by simp
  have nth: "?M ! q = (if q < i then L ! q else if q = i then (?ofs, bs) else L ! (q - 1))" if "q < Suc ?n" for q
    using nth_ins_nth [OF i, of q] that by simp
  have old: "(?M ! q = (?ofs, bs) \<and> q = i) \<or> (\<exists>r < ?n. ?M ! q = L ! r \<and> q \<noteq> i \<and> r = (if q < i then q else q - 1))"
    if "q < Suc ?n" for q
    using nth [OF that] that i by auto
  have pt: "mp_ptrs m2 p q = Some (fst (?M ! q))" if "q < Suc ?n" for q
  proof -
    have "mp_ptrs m2 p q = mp_ptrs m1 p q" by (rule header_frame(4) [OF m2(1)]) (use that ofs in simp)
    then show ?thesis using m1(4) nth [OF that] that by simp
  qed
  show ?thesis
  proof (rule page_repI [OF hf(1) D(2) _ _ lenM lo up _ _ pt])
    show "IS_LEAF m2 p = Some leaf" "IS_LEAF2 m2 p = Some False" using hf(2) D(3,4) by simp_all
    show "PAGEHDRSZ + 2 * Suc ?n \<le> ?ofs" "?ofs \<le> psz" using ofs D(8) by simp_all
  next
    fix q assume q: "q < Suc ?n"
    show "load m2 (padd p (fst (?M ! q))) (length (snd (?M ! q))) = Some (snd (?M ! q))"
      using old [OF q]
    proof
      assume "?M ! q = (?ofs, bs) \<and> q = i"
      then have e: "?M ! q = (?ofs, bs)" by blast
      show ?thesis unfolding e using m2(2) len by simp
    next
      assume "\<exists>r < ?n. ?M ! q = L ! r \<and> q \<noteq> i \<and> r = (if q < i then q else q - 1)"
      then obtain r where r: "r < ?n" "?M ! q = L ! r" by blast
      note N = page_rep_nth [OF rep r(1)]
      have "12 + (?ofs - 12) \<le> fst (L ! r)" "?ofs + ns \<le> fst (L ! r)" using N(3) ofs by linarith+
      then have "load m2 (padd p (fst (L ! r))) k = load m (padd p (fst (L ! r))) k" for k
        using upd_only_load [OF m1(1), of "padd p (fst (L ! r))" k] upd_only_load [OF m2(1), of "padd p (fst (L ! r))" k]
        unfolding apart_padd by metis
      then show ?thesis unfolding r(2) using N(2) by simp
    qed
    show "?ofs \<le> fst (?M ! q) \<and> fst (?M ! q) + length (snd (?M ! q)) \<le> psz \<and>
      NODESIZE \<le> length (snd (?M ! q)) \<and> img_size leaf (snd (?M ! q)) = length (snd (?M ! q))"
      using old [OF q]
    proof
      assume "?M ! q = (?ofs, bs) \<and> q = i"
      then have e: "?M ! q = (?ofs, bs)" by blast
      show ?thesis unfolding e using len bs ofs D(8) by simp
    next
      assume "\<exists>r < ?n. ?M ! q = L ! r \<and> q \<noteq> i \<and> r = (if q < i then q else q - 1)"
      then obtain r where r: "r < ?n" "?M ! q = L ! r" by blast
      note N = page_rep_nth [OF rep r(1)]
      show ?thesis unfolding r(2) using N(3-6) ofs by simp
    qed
  next
    fix q r assume q: "q < Suc ?n" "r < Suc ?n" "q \<noteq> r"
    have new: "?ofs + length bs \<le> fst (L ! k)" if "k < ?n" for k
      using page_rep_nth(3) [OF rep that] ofs len by simp
    show "fst (?M ! q) + length (snd (?M ! q)) \<le> fst (?M ! r) \<or> fst (?M ! r) + length (snd (?M ! r)) \<le> fst (?M ! q)"
    proof (cases "q = i \<or> r = i")
      case True
      then show ?thesis using nth [OF q(1)] nth [OF q(2)] q new [of q] new [of r] new [of "q - 1"] new [of "r - 1"] i by auto
    next
      case False
      define q' r' where "q' = (if q < i then q else q - 1)" and "r' = (if r < i then r else r - 1)"
      have "?M ! q = L ! q'" "?M ! r = L ! r'" "q' < ?n" "r' < ?n" "q' \<noteq> r'"
        using nth [OF q(1)] nth [OF q(2)] False q i by (auto simp: q'_def r'_def)
      then show ?thesis using page_rep_nth(7) [OF rep, of q' r'] by simp
    qed
  qed
qed

section \<open>The bytes of a node\<close>

lemma le_bytes_add: "le_bytes (a + b) v = le_bytes a v @ le_bytes b (v div 256 ^ a)"
  by (induction a arbitrary: v) (auto simp: div_mult2_eq)

lemma le_bytes_mod: "le_bytes n (v mod 256 ^ n) = le_bytes n v"
  using le_bytes_val [of "le_bytes n v" n] by simp

text \<open>Leaf nodes: data size, flags, key size, key. Branch nodes: page number, key size, key.\<close>

definition leaf_node :: "nat \<Rightarrow> u32 \<Rightarrow> u8 list \<Rightarrow> u8 list" where
  "leaf_node dsz fl kb = le_bytes 4 dsz @ le_bytes 2 (unat fl) @ le_bytes 2 (length kb) @ kb"

definition branch_node :: "u64 \<Rightarrow> u8 list \<Rightarrow> u8 list" where
  "branch_node pgno kb = le_bytes 6 (unat pgno) @ le_bytes 2 (length kb) @ kb"

lemma length_leaf_node [simp]: "length (leaf_node dsz fl kb) = NODESIZE + length kb"
  by (simp add: leaf_node_def)

lemma length_branch_node [simp]: "length (branch_node pgno kb) = NODESIZE + length kb"
  by (simp add: branch_node_def)

lemma img_size_leaf:
  assumes "length kb < 2 ^ 16" "dsz < 2 ^ 32"
  shows "img_size True (leaf_node dsz fl kb @ r) = EVEN (if F_ISSET (of_nat (unat fl mod 2 ^ 16)) F_BIGDATA then NODESIZE + length kb + 8
     else u32 (NODESIZE + length kb + dsz))"
  using assms by (simp add: img_size_def leaf_node_def take_append drop_append)

lemma img_size_branch: "length kb < 2 ^ 16 \<Longrightarrow> img_size False (branch_node pgno kb @ r) = EVEN (NODESIZE + length kb)"
  by (simp add: img_size_def branch_node_def take_append drop_append)

lemma stn_load:
  assumes "valid m p n"
  shows "\<exists>m'. stn n m p v = Some m' \<and> upd_only p n m m' \<and> load m' p n = Some (le_bytes n v)"
  using st_ok [OF assms, of v] stn_upd_only [of n m p v] load_store_same [of m p "le_bytes n v"]
  unfolding stn_def by auto

lemma SETDSZ_load:
  assumes "valid m n 8" "sz < 2 ^ 32"
  shows "\<exists>m'. SETDSZ m n sz = Some m' \<and> upd_only n 4 m m' \<and> load m' n 4 = Some (le_bytes 4 sz)"
proof -
  obtain m' where m': "SETDSZ m n sz = Some m'" "upd_only n 4 m m'" "NODEDSZ m' n = Some sz"
    using SETDSZ_spec [OF assms] by blast
  have "valid m' n 4" using load_padd_valid [OF assms(1), of 0 4] upd_only_valid [OF m'(2)] by simp
  then obtain bs where bs: "load m' n 4 = Some bs" "length bs = 4" using load_valid by fastforce
  have lo: "mn_lo m' n = Some (le_val (take 2 bs))"
    using load_part [OF bs(1), of 0 2] by (simp add: mn_lo_def ldn_def)
  have hi: "mn_hi m' n = Some (le_val (take 2 (drop 2 bs)))"
    using load_part [OF bs(1), of 2 2] by (simp add: mn_hi_def ldn_def)
  have bd: "le_val (take 2 bs) < 2 ^ 16" "le_val (take 2 (drop 2 bs)) < 2 ^ 16"
    using le_val_bound [of "take 2 bs"] le_val_bound [of "take 2 (drop 2 bs)"] bs(2) by auto
  have "le_val bs = sz"
    using m'(3) lo hi join_shorts [OF bd] le_val_split [of bs 2 2] bs(2) by (simp add: NODEDSZ_def)
  then show ?thesis using m' bs le_bytes_val [OF bs(2)] by auto
qed

lemma SETPGNO_load:
  assumes "valid m n 8"
  shows "\<exists>m'. SETPGNO m n pgno = Some m' \<and> upd_only n 6 m m' \<and> load m' n 6 = Some (le_bytes 6 (unat pgno))"
proof -
  have v: "valid m n 6" using load_padd_valid [OF assms, of 0 6] by simp
  from three_shorts [OF v] obtain m1 m2 m3 where st: "st16 m n (unat (pgno AND 0xffff)) = Some m1"
    "st16 m1 (padd n 2) (unat (drop_bit 16 pgno)) = Some m2" "st16 m2 (padd n 4) (unat (drop_bit 32 pgno)) = Some m3"
    "upd_only n 6 m m3" "ld16 m3 n = Some (unat (pgno AND 0xffff) mod 2 ^ 16)"
    "ld16 m3 (padd n 2) = Some (unat (drop_bit 16 pgno) mod 2 ^ 16)"
    "ld16 m3 (padd n 4) = Some (unat (drop_bit 32 pgno) mod 2 ^ 16)"
    by blast
  let ?x = "unat pgno"
  have "valid m3 n 6" using v upd_only_valid [OF st(4)] by simp
  then obtain bs where bs: "load m3 n 6 = Some bs" "length bs = 6" using load_valid by fastforce
  have mk: "(0xffff :: u64) = mask 16" by (simp add: mask_eq_exp_minus_1)
  have a: "unat (pgno AND 0xffff) mod 2 ^ 16 = ?x mod 2 ^ 16"
    unfolding mk by (simp only: take_bit_eq_mask [symmetric] unsigned_take_bit_eq) (simp add: take_bit_eq_mod)
  have b: "unat (drop_bit k pgno) = ?x div 2 ^ k" for k
    by (simp only: unsigned_drop_bit_eq) (simp add: drop_bit_eq_div take_bit_nat_eq_self unsigned_less [where 'a = nat and 'b = 64, simplified])
  have "le_val (take 2 bs) = ?x mod 2 ^ 16" using load_part [OF bs(1), of 0 2] st(5) a by (simp add: ldn_def)
  moreover have "le_val (take 2 (drop 2 bs)) = ?x div 2 ^ 16 mod 2 ^ 16"
    using load_part [OF bs(1), of 2 2] st(6) b by (simp add: ldn_def)
  moreover have "le_val (drop 4 bs) = ?x div 2 ^ 32 mod 2 ^ 16"
    using load_part [OF bs(1), of 4 2] st(7) b bs(2) by (simp add: ldn_def)
  moreover have "le_val bs = le_val (take 2 bs) + 2 ^ 16 * (le_val (take 2 (drop 2 bs)) + 2 ^ 16 * le_val (drop 4 bs))"
    using le_val_split [of bs 2 4] le_val_split [of "drop 2 bs" 2 2] bs(2) by simp
  ultimately have "le_val bs = ?x mod 2 ^ 16 + 2 ^ 16 * (?x div 2 ^ 16 mod 2 ^ 16 + 2 ^ 16 * (?x div 2 ^ 32 mod 2 ^ 16))"
    by simp
  also have "\<dots> = ?x mod (2 ^ 16 * (2 ^ 16 * 2 ^ 16))"
    by (simp only: mod_mult2_eq [of ?x "2 ^ 16"] mod_mult2_eq [of "?x div 2 ^ 16" "2 ^ 16"] div_mult2_eq [symmetric]) simp
  finally have "le_val bs = ?x mod 256 ^ 6" by simp
  then have "bs = le_bytes 6 ?x" using le_bytes_val [OF bs(2)] le_bytes_mod [of 6 ?x] by metis
  then show ?thesis using st bs(1) by (simp add: SETPGNO_def)
qed

section \<open>The header and the key\<close>

lemma node_add_header_leaf:
  assumes v: "valid m (padd p a) (NODESIZE + mv_size k)" and a: "PAGEHDRSZ \<le> a" and lf: "IS_LEAF m p = Some True"
    and kb: "val_bytes m k = Some kb" and ap: "apart (padd p a) NODESIZE (mv_data k) (mv_size k)"
    and sz: "dsz < 2 ^ 32"
  shows "\<exists>m'. node_add_header m p (padd p a) (Some k) dsz pgno fl = Some m' \<and>
    upd_only (padd p a) (NODESIZE + mv_size k) m m' \<and>
    load m' (padd p a) (NODESIZE + mv_size k) = Some (leaf_node dsz fl kb)"
proof -
  let ?n = "padd p a"
  have len: "length kb = mv_size k" using kb load_Some_valid by (auto simp: val_bytes_def)
  have v8: "valid m ?n 8" using load_padd_valid [OF v, of 0 8] by simp
  obtain m1 where m1: "st16 m (padd ?n 6) (mv_size k) = Some m1" "upd_only (padd ?n 6) 2 m m1"
    "load m1 (padd ?n 6) 2 = Some (le_bytes 2 (mv_size k))"
    using stn_load [OF load_padd_valid [OF v8, of 6 2]] by auto
  have v1: "valid m1 ?n 8" using v8 upd_only_valid [OF m1(2)] by simp
  obtain m2 where m2: "st16 m1 (padd ?n 4) (unat fl) = Some m2" "upd_only (padd ?n 4) 2 m1 m2"
    "load m2 (padd ?n 4) 2 = Some (le_bytes 2 (unat fl))"
    using stn_load [OF load_padd_valid [OF v1, of 4 2]] by auto
  have v2: "valid m2 ?n 8" using v1 upd_only_valid [OF m2(2)] by simp
  obtain m3 where m3: "SETDSZ m2 ?n dsz = Some m3" "upd_only ?n 4 m2 m3" "load m3 ?n 4 = Some (le_bytes 4 dsz)"
    using SETDSZ_load [OF v2 sz] by blast
  have u3: "upd_only ?n 8 m m3"
    using upd_only_trans [OF upd_only_trans [OF upd_only_mono [OF m1(2), of 0 8] upd_only_mono [OF m2(2), of 0 8]]]
      upd_only_mono [of ?n 0 4 m2 m3 0 8] m3(2) by simp
  have key3: "load m3 (mv_data k) (mv_size k) = Some kb"
    using upd_only_load [OF u3] ap kb by (simp add: val_bytes_def)
  then obtain m4 where m4: "memmove m3 (padd ?n 8) (mv_data k) (mv_size k) = Some m4"
    "upd_only (padd ?n 8) (mv_size k) m3 m4" "load m4 (padd ?n 8) (mv_size k) = Some kb"
    using memmove_Some [of m3 "mv_data k" "mv_size k" "padd ?n 8"] load_Some_valid [OF key3]
      load_padd_valid [OF v, of 8 "mv_size k"] upd_only_valid [OF u3] by auto
  have lf2: "IS_LEAF m2 p = Some True"
    using header_frame(1) [of p "a + 4" 2 m1 m2] header_frame(1) [of p "a + 6" 2 m m1] m1(2) m2(2) a lf by simp
  have "load m4 (padd ?n 6) 2 = Some (le_bytes 2 (mv_size k))"
    using upd_only_load [OF m4(2), of "padd ?n 6" 2] upd_only_load [OF m3(2), of "padd ?n 6" 2]
      upd_only_load [OF m2(2), of "padd ?n 6" 2] m1(3) by (simp add: apart_padd)
  moreover have "load m4 (padd ?n 4) 2 = Some (le_bytes 2 (unat fl))"
    using upd_only_load [OF m4(2), of "padd ?n 4" 2] upd_only_load [OF m3(2), of "padd ?n 4" 2] m2(3) by simp
  moreover have "load m4 ?n 4 = Some (le_bytes 4 dsz)"
    using upd_only_load [OF m4(2), of ?n 4] m3(3) by simp
  ultimately have "load m4 ?n (4 + (2 + (2 + mv_size k))) = Some (leaf_node dsz fl kb)"
    unfolding leaf_node_def len using m4(3)
    by (intro load_append) (simp_all add: add.commute [of _ a])
  moreover have "upd_only ?n (8 + mv_size k) m m4"
    using upd_only_trans [OF upd_only_mono [of ?n 0 8 m m3 0 "8 + mv_size k"] upd_only_mono [OF m4(2), of 0 "8 + mv_size k"]] u3
    by simp
  moreover have "node_add_header m p ?n (Some k) dsz pgno fl = Some m4"
    using m1(1) m2(1) lf2 m3(1) m4(1) by (simp add: node_add_header_def set_mn_ksize_def set_mn_flags_def NODEKEY_def)
  ultimately show ?thesis by (simp add: add.assoc)
qed

lemma node_add_header_branch:
  assumes v: "valid m (padd p a) (NODESIZE + mv_size k)" and a: "PAGEHDRSZ \<le> a" and lf: "IS_LEAF m p = Some False"
    and kb: "val_bytes m k = Some kb" and ap: "apart (padd p a) NODESIZE (mv_data k) (mv_size k)"
  shows "\<exists>m'. node_add_header m p (padd p a) (Some k) dsz pgno fl = Some m' \<and>
    upd_only (padd p a) (NODESIZE + mv_size k) m m' \<and>
    load m' (padd p a) (NODESIZE + mv_size k) = Some (branch_node pgno kb)"
proof -
  let ?n = "padd p a"
  have len: "length kb = mv_size k" using kb load_Some_valid by (auto simp: val_bytes_def)
  have v8: "valid m ?n 8" using load_padd_valid [OF v, of 0 8] by simp
  obtain m1 where m1: "st16 m (padd ?n 6) (mv_size k) = Some m1" "upd_only (padd ?n 6) 2 m m1"
    "load m1 (padd ?n 6) 2 = Some (le_bytes 2 (mv_size k))"
    using stn_load [OF load_padd_valid [OF v8, of 6 2]] by auto
  have v1: "valid m1 ?n 8" using v8 upd_only_valid [OF m1(2)] by simp
  obtain m2 where m2: "st16 m1 (padd ?n 4) (unat fl) = Some m2" "upd_only (padd ?n 4) 2 m1 m2"
    using stn_load [OF load_padd_valid [OF v1, of 4 2]] by auto
  have v2: "valid m2 ?n 8" using v1 upd_only_valid [OF m2(2)] by simp
  obtain m3 where m3: "SETPGNO m2 ?n pgno = Some m3" "upd_only ?n 6 m2 m3" "load m3 ?n 6 = Some (le_bytes 6 (unat pgno))"
    using SETPGNO_load [OF v2] by blast
  have u3: "upd_only ?n 8 m m3"
    using upd_only_trans [OF upd_only_trans [OF upd_only_mono [OF m1(2), of 0 8] upd_only_mono [OF m2(2), of 0 8]]]
      upd_only_mono [of ?n 0 6 m2 m3 0 8] m3(2) by simp
  have key3: "load m3 (mv_data k) (mv_size k) = Some kb"
    using upd_only_load [OF u3] ap kb by (simp add: val_bytes_def)
  then obtain m4 where m4: "memmove m3 (padd ?n 8) (mv_data k) (mv_size k) = Some m4"
    "upd_only (padd ?n 8) (mv_size k) m3 m4" "load m4 (padd ?n 8) (mv_size k) = Some kb"
    using memmove_Some [of m3 "mv_data k" "mv_size k" "padd ?n 8"] load_Some_valid [OF key3]
      load_padd_valid [OF v, of 8 "mv_size k"] upd_only_valid [OF u3] by auto
  have lf2: "IS_LEAF m2 p = Some False"
    using header_frame(1) [of p "a + 4" 2 m1 m2] header_frame(1) [of p "a + 6" 2 m m1] m1(2) m2(2) a lf by simp
  have "load m4 (padd ?n 6) 2 = Some (le_bytes 2 (mv_size k))"
    using upd_only_load [OF m4(2), of "padd ?n 6" 2] upd_only_load [OF m3(2), of "padd ?n 6" 2]
      upd_only_load [OF m2(2), of "padd ?n 6" 2] m1(3) by (simp add: apart_padd)
  moreover have "load m4 ?n 6 = Some (le_bytes 6 (unat pgno))"
    using upd_only_load [OF m4(2), of ?n 6] m3(3) by simp
  ultimately have "load m4 ?n (6 + (2 + mv_size k)) = Some (branch_node pgno kb)"
    unfolding branch_node_def len using m4(3)
    by (intro load_append) (simp_all add: add.commute [of _ a])
  moreover have "upd_only ?n (8 + mv_size k) m m4"
    using upd_only_trans [OF upd_only_mono [of ?n 0 8 m m3 0 "8 + mv_size k"] upd_only_mono [OF m4(2), of 0 "8 + mv_size k"]] u3
    by simp
  moreover have "node_add_header m p ?n (Some k) dsz pgno fl = Some m4"
    using m1(1) m2(1) lf2 m3(1) m4(1) by (simp add: node_add_header_def set_mn_ksize_def set_mn_flags_def NODEKEY_def)
  ultimately show ?thesis by (simp add: add.assoc)
qed

section \<open>Insertion\<close>

text \<open>The flags a node keeps are the low 16 bits.\<close>

lemma F_ISSET_low: "F_ISSET (of_nat (unat fl mod 65536)) F_BIGDATA = F_ISSET fl F_BIGDATA"
proof -
  have f: "F_ISSET x F_BIGDATA = odd x" for x
    by (simp only: F_ISSET_def and_one_eq) (simp add: odd_iff_mod_2_eq_one)
  have "(of_nat (unat fl mod 2 ^ 16) :: u32) = take_bit 16 fl"
    by (simp only: of_nat_mod_take_bit) simp
  then have e: "(of_nat (unat fl mod 65536) :: u32) = take_bit 16 fl" by simp
  show ?thesis unfolding e f by (simp add: even_take_bit_eq)
qed

text \<open>The bytes the caller's data occupies in the node.\<close>

definition data_len :: "u32 \<Rightarrow> nat \<Rightarrow> nat" where
  "data_len fl dsz = (if F_ISSET fl F_BIGDATA then 8 else dsz)"

lemma leaf_node_ksize: "load m n (NODESIZE + length kb) = Some (leaf_node dsz fl kb) \<Longrightarrow> mn_ksize m n = Some (length kb mod 2 ^ 16)"
  using load_part [of m n "NODESIZE + length kb" "leaf_node dsz fl kb" 6 2]
  by (simp add: mn_ksize_def ldn_def leaf_node_def)

lemma node_add_leaf_rep:
  assumes rep: "page_rep m p psz True u L" and i: "i \<le> length L"
    and ns: "ns = EVEN (NODESIZE + mv_size k + data_len fl (mv_size d))" "PAGEHDRSZ + 2 * length L + 2 + ns \<le> u"
    and kb: "val_bytes m k = Some kb" "mv_size k < 2 ^ 16" "apart (padd p 12) (psz - 12) (mv_data k) (mv_size k)"
    and db: "load m (mv_data d) (data_len fl (mv_size d)) = Some db" "mv_size d < 2 ^ 32"
      "apart (padd p 12) (psz - 12) (mv_data d) (data_len fl (mv_size d))"
    and nr: "\<not> F_ISSET fl MDB_RESERVE"
  shows "\<exists>m' r. node_add_update m p i (Some k) (Some d) pgno fl ns None = Some (m', Some d) \<and>
    upd_only (padd p 12) (psz - 12) m m' \<and>
    page_rep m' p psz True (u - ns) (ins_nth i (u - ns, leaf_node (mv_size d) fl kb @ db @ r) L)"
proof -
  let ?ofs = "u - ns" and ?h = "NODESIZE + mv_size k" and ?dl = "data_len fl (mv_size d)"
  let ?n = "padd p ?ofs"
  note D = page_repD [OF rep]
  have nb: "?h + ?dl \<le> ns" "ns \<le> ?h + ?dl + 1" using ns(1) by (auto simp: EVEN_def)
  have len: "length kb = mv_size k" "length db = ?dl" using kb db load_Some_valid by (auto simp: val_bytes_def)
  have ofs: "PAGEHDRSZ + 2 * length L + 2 \<le> ?ofs" "?ofs + ns = u" "?ofs + ns \<le> psz" using ns(2) D(8) by simp_all
  obtain m1 where m1: "node_add_room m p i ns = Some (m1, ?n)" "upd_only (padd p 12) (?ofs - 12) m m1"
    "mp_lower m1 p = Some (PAGEHDRSZ + 2 * Suc (length L))" "mp_upper m1 p = Some ?ofs"
    "\<forall>q \<le> length L. mp_ptrs m1 p q = Some (if q < i then fst (L ! q) else if q = i then ?ofs else fst (L ! (q - 1)))"
    using node_add_room_spec [OF rep i ns(2)] by blast
  have u1: "upd_only (padd p 12) (psz - 12) m m1" using upd_only_mono [OF m1(2), of 12 "psz - 12"] ofs by simp
  have lf1: "IS_LEAF m1 p = Some True" using header_frame(1) [OF m1(2)] D(3) by simp
  have vn: "valid m1 ?n ns" using load_padd_valid [OF D(1) ofs(3)] upd_only_valid [OF m1(2)] by simp
  have ap: "apart ?n n (mv_data k) (mv_size k)" "apart ?n n (mv_data d) ?dl" if "n \<le> ns" for n
    using kb(3) db(3) ofs that unfolding apart_def outside_def by (auto simp: ns(1))
  have kb1: "val_bytes m1 k = Some kb" using kb(1) upd_only_load [OF u1 kb(3)] by (simp add: val_bytes_def)
  have db1: "load m1 (mv_data d) ?dl = Some db" using db(1) upd_only_load [OF u1 db(3)] by simp
  obtain m2 where m2: "node_add_header m1 p ?n (Some k) (mv_size d) pgno fl = Some m2" "upd_only ?n ?h m1 m2"
    "load m2 ?n ?h = Some (leaf_node (mv_size d) fl kb)"
    using node_add_header_leaf [where pgno = pgno and fl = fl, OF _ _ lf1 kb1 ap(1) db(2)] vn nb ofs load_padd_valid [OF vn, of 0 ?h] by auto
  have key: "NODEDATA m2 ?n = Some (padd ?n ?h)"
    using leaf_node_ksize [of m2 ?n kb "mv_size d" fl] m2(3) len kb(2) by (simp add: NODEDATA_def)
  have db2: "load m2 (mv_data d) ?dl = Some db"
    using db1 upd_only_load [OF m2(2) ap(2) [of ?h]] nb by simp
  have vd: "valid m2 (padd ?n ?h) ?dl"
    using load_padd_valid [OF vn, of ?h ?dl] nb upd_only_valid [OF m2(2)] by simp
  obtain m3 where m3: "memmove m2 (padd ?n ?h) (mv_data d) ?dl = Some m3" "upd_only (padd ?n ?h) ?dl m2 m3"
    "load m3 (padd ?n ?h) ?dl = Some db"
    using memmove_Some [of m2 "mv_data d" ?dl "padd ?n ?h"] load_Some_valid [OF db2] vd db2 by auto
  have nd: "node_add_data m2 ?n None d fl = Some (m3, d)"
    using m3(1) key nr by (auto simp: node_add_data_def data_len_def)
  have "load m3 ?n ?h = Some (leaf_node (mv_size d) fl kb)"
    using upd_only_load [OF m3(2), of ?n ?h] m2(3) by simp
  then have ld: "load m3 ?n (?h + ?dl) = Some (leaf_node (mv_size d) fl kb @ db)" using m3(3) by (rule load_append)
  have vr: "valid m3 (padd ?n (?h + ?dl)) (ns - (?h + ?dl))"
    using load_padd_valid [OF vn, of "?h + ?dl" "ns - (?h + ?dl)"] nb upd_only_valid [OF m2(2)] upd_only_valid [OF m3(2)] by simp
  obtain r where r: "load m3 (padd ?n (?h + ?dl)) (ns - (?h + ?dl)) = Some r" using load_valid [OF vr] by blast
  have ldn: "load m3 ?n ns = Some (leaf_node (mv_size d) fl kb @ db @ r)"
    using load_append [OF ld r] nb by simp
  have u3: "upd_only ?n ns m1 m3"
    using upd_only_trans [OF upd_only_mono [OF m2(2), of ?ofs ns] upd_only_mono [of p "?ofs + ?h" ?dl m2 m3 ?ofs ns]] m3(2) nb
    by simp
  have b16: "NODESIZE + length kb + mv_size d < 2 ^ 32" if "\<not> F_ISSET fl F_BIGDATA"
    using nb ofs(3) D(2) that len(1) by (simp add: data_len_def)
  have "img_size True (leaf_node (mv_size d) fl kb @ db @ r) = ns"
    using img_size_leaf [of kb "mv_size d" fl "db @ r"] len(1) kb(2) db(2) b16 ns(1)
    by (auto simp: F_ISSET_low data_len_def)
  then have "page_rep m3 p psz True ?ofs (ins_nth i (?ofs, leaf_node (mv_size d) fl kb @ db @ r) L)"
    using room_filled [OF rep i ns(2) m1(2-5) u3 ldn] nb(1) by simp
  moreover have "upd_only (padd p 12) (psz - 12) m m3"
    using upd_only_trans [OF u1 upd_only_mono [OF u3, of 12 "psz - 12"]] ofs by simp
  moreover have "node_add_update m p i (Some k) (Some d) pgno fl ns None = Some (m3, Some d)"
    using m1(1) lf1 m2(1) nd by (simp add: node_add_update_def)
  ultimately show ?thesis by blast
qed

lemma node_add_branch_rep:
  assumes rep: "page_rep m p psz False u L" and i: "i \<le> length L"
    and ns: "ns = EVEN (NODESIZE + mv_size k)" "PAGEHDRSZ + 2 * length L + 2 + ns \<le> u"
    and kb: "val_bytes m k = Some kb" "mv_size k < 2 ^ 16" "apart (padd p 12) (psz - 12) (mv_data k) (mv_size k)"
  shows "\<exists>m' r. node_add_update m p i (Some k) None pgno fl ns None = Some (m', None) \<and>
    upd_only (padd p 12) (psz - 12) m m' \<and>
    page_rep m' p psz False (u - ns) (ins_nth i (u - ns, branch_node pgno kb @ r) L)"
proof -
  let ?ofs = "u - ns" and ?h = "NODESIZE + mv_size k"
  let ?n = "padd p ?ofs"
  note D = page_repD [OF rep]
  have nb: "?h \<le> ns" "ns \<le> ?h + 1" using ns(1) by (auto simp: EVEN_def)
  have len: "length kb = mv_size k" using kb load_Some_valid by (auto simp: val_bytes_def)
  have ofs: "PAGEHDRSZ + 2 * length L + 2 \<le> ?ofs" "?ofs + ns = u" "?ofs + ns \<le> psz" using ns(2) D(8) by simp_all
  obtain m1 where m1: "node_add_room m p i ns = Some (m1, ?n)" "upd_only (padd p 12) (?ofs - 12) m m1"
    "mp_lower m1 p = Some (PAGEHDRSZ + 2 * Suc (length L))" "mp_upper m1 p = Some ?ofs"
    "\<forall>q \<le> length L. mp_ptrs m1 p q = Some (if q < i then fst (L ! q) else if q = i then ?ofs else fst (L ! (q - 1)))"
    using node_add_room_spec [OF rep i ns(2)] by blast
  have u1: "upd_only (padd p 12) (psz - 12) m m1" using upd_only_mono [OF m1(2), of 12 "psz - 12"] ofs by simp
  have lf1: "IS_LEAF m1 p = Some False" using header_frame(1) [OF m1(2)] D(3) by simp
  have vn: "valid m1 ?n ns" using load_padd_valid [OF D(1) ofs(3)] upd_only_valid [OF m1(2)] by simp
  have ap: "apart ?n n (mv_data k) (mv_size k)" if "n \<le> ns" for n
    using kb(3) ofs that unfolding apart_def outside_def by (auto simp: ns(1))
  have kb1: "val_bytes m1 k = Some kb" using kb(1) upd_only_load [OF u1 kb(3)] by (simp add: val_bytes_def)
  obtain m2 where m2: "node_add_header m1 p ?n (Some k) 0 pgno fl = Some m2" "upd_only ?n ?h m1 m2"
    "load m2 ?n ?h = Some (branch_node pgno kb)"
    using node_add_header_branch [where pgno = pgno and fl = fl and dsz = 0, OF _ _ lf1 kb1 ap] vn nb ofs
      load_padd_valid [OF vn, of 0 ?h] by auto
  have vr: "valid m2 (padd ?n ?h) (ns - ?h)"
    using load_padd_valid [OF vn, of ?h "ns - ?h"] nb upd_only_valid [OF m2(2)] by simp
  obtain r where r: "load m2 (padd ?n ?h) (ns - ?h) = Some r" using load_valid [OF vr] by blast
  have ldn: "load m2 ?n ns = Some (branch_node pgno kb @ r)"
    using load_append [OF m2(3) r] nb by simp
  have u2: "upd_only ?n ns m1 m2" using upd_only_mono [OF m2(2), of ?ofs ns] nb by simp
  have "img_size False (branch_node pgno kb @ r) = ns"
    using img_size_branch [of kb pgno r] len kb(2) ns(1) by simp
  then have "page_rep m2 p psz False ?ofs (ins_nth i (?ofs, branch_node pgno kb @ r) L)"
    using room_filled [OF rep i ns(2) m1(2-5) u2 ldn] nb(1) by simp
  moreover have "upd_only (padd p 12) (psz - 12) m m2"
    using upd_only_trans [OF u1 upd_only_mono [OF u2, of 12 "psz - 12"]] ofs by simp
  moreover have "node_add_update m p i (Some k) None pgno fl ns None = Some (m2, None)"
    using m1(1) lf1 m2(1) by (simp add: node_add_update_def)
  ultimately show ?thesis by blast
qed

end
