(* ===== verification/Alloc_Spec.thy ===== *)
theory Alloc_Spec
  imports Touch
begin

text \<open>
  What page allocation and release do to the lists of free pages: finding and removing a run of
  consecutive page numbers, putting a run back, the oldest snapshot in use, the purge of a spill
  list, and the dirty list as a finite map.
\<close>

section \<open>Runs of free pages\<close>

text \<open>\<open>mop\<close> has, just before and at slot \<open>i\<close>, the pages \<open>pgno, ..., pgno + n2\<close>, the smallest last.\<close>

definition run_at :: "u64 list \<Rightarrow> nat \<Rightarrow> nat \<Rightarrow> u64 \<Rightarrow> bool" where
  "run_at mop n2 i pgno \<longleftrightarrow> (\<forall>k \<le> n2. mop ! (i - k) = pgno + of_nat k)"

definition strict_desc :: "u64 list \<Rightarrow> nat \<Rightarrow> bool" where
  "strict_desc mop n \<longleftrightarrow> (\<forall>a b. 1 \<le> a \<longrightarrow> a < b \<longrightarrow> b \<le> n \<longrightarrow> mop ! b < mop ! a)"

lemma strict_desc_sorted: "n < length mop \<Longrightarrow> strict_desc mop n \<longleftrightarrow> sorted_wrt (>) (take n (tl mop))"
proof (cases mop)
  case (Cons c t)
  assume n: "n < length mop"
  have "(\<forall>a b. 1 \<le> a \<longrightarrow> a < b \<longrightarrow> b \<le> n \<longrightarrow> mop ! b < mop ! a) \<longleftrightarrow> (\<forall>a b. a < b \<longrightarrow> b < n \<longrightarrow> t ! b < t ! a)"
    (is "?A \<longleftrightarrow> ?B")
  proof
    assume h: ?A
    show ?B
    proof (intro allI impI)
      fix a b assume "a < b" "b < n"
      then show "t ! b < t ! a" using h [rule_format, of "Suc a" "Suc b"] by (simp add: Cons)
    qed
  next
    assume h: ?B
    show ?A
    proof (intro allI impI)
      fix a b :: nat assume "1 \<le> a" "a < b" "b \<le> n"
      then show "mop ! b < mop ! a" using h [rule_format, of "a - 1" "b - 1"] by (simp add: Cons nth_Cons')
    qed
  qed
  then show ?thesis using n by (auto simp: strict_desc_def sorted_wrt_iff_nth_less Cons)
qed simp

lemma strict_desc_gap:
  assumes "strict_desc mop n" "1 \<le> a" "a + k \<le> n"
  shows "unat (mop ! (a + k)) + k \<le> unat (mop ! a)"
  using assms(3)
proof (induction k)
  case 0
  then show ?case by simp
next
  case (Suc k)
  have "mop ! (a + Suc k) < mop ! (a + k)" using assms(1,2) Suc.prems by (auto simp: strict_desc_def)
  then have "unat (mop ! (a + Suc k)) < unat (mop ! (a + k))" by (simp add: word_less_nat_alt)
  then show ?case using Suc by simp
qed

lemma run_atI:
  assumes d: "strict_desc mop n" and i: "n2 < i" "i \<le> n" and e: "mop ! (i - n2) = pgno + of_nat n2" "mop ! i = pgno"
    and n: "n < 2 ^ 32"
  shows "run_at mop n2 i pgno"
  unfolding run_at_def
proof (intro allI impI)
  fix k assume k: "k \<le> n2"
  have lo: "unat pgno + k \<le> unat (mop ! (i - k))"
    using strict_desc_gap [OF d, of "i - k" k] i k e(2) by simp
  have hi: "unat (mop ! (i - k)) + (n2 - k) \<le> unat (mop ! (i - n2))"
    using strict_desc_gap [OF d, of "i - n2" "n2 - k"] i k by simp
  have "unat (pgno + of_nat n2) \<le> unat pgno + n2"
  proof -
    have "unat (pgno + of_nat n2) = (unat pgno + unat (of_nat n2 :: u64)) mod 2 ^ 64"
      by (simp add: unat_word_ariths)
    also have "\<dots> \<le> unat pgno + unat (of_nat n2 :: u64)" by (rule mod_less_eq_dividend)
    also have "\<dots> = unat pgno + n2" using n i by (simp add: unat_of_nat)
    finally show ?thesis .
  qed
  then have "unat (mop ! (i - k)) = unat pgno + k" using lo hi e(1) k by simp
  then have "of_nat (unat (mop ! (i - k))) = (of_nat (unat pgno + k) :: u64)" by simp
  then show "mop ! (i - k) = pgno + of_nat k" by simp
qed

lemma seek_range_spec:
  assumes d: "strict_desc mop n" and n: "n < length mop" "n < 2 ^ 32" and i: "n2 < i" "i \<le> n"
    and none: "\<forall>j pgno. i < j \<longrightarrow> j \<le> n \<longrightarrow> \<not> run_at mop n2 j pgno"
  shows "(\<exists>j pgno. seek_range mop n2 i = Some (Some (j, pgno)) \<and> n2 < j \<and> j \<le> n \<and> run_at mop n2 j pgno) \<or>
    seek_range mop n2 i = Some None \<and> (\<forall>j pgno. n2 < j \<longrightarrow> j \<le> n \<longrightarrow> \<not> run_at mop n2 j pgno)"
  using i none
proof (induction i)
  case 0
  then show ?case by simp
next
  case (Suc i)
  let ?p = "mop ! Suc i"
  have rd: "rd mop (Suc i) = Some ?p" "n2 \<le> Suc i" "rd mop (Suc i - n2) = Some (mop ! (Suc i - n2))"
    using Suc.prems n by simp_all
  show ?case
  proof (cases "mop ! (Suc i - n2) = ?p + of_nat n2")
    case True
    then have "run_at mop n2 (Suc i) ?p" using run_atI [OF d Suc.prems(1,2) _ refl n(2)] by simp
    then show ?thesis using True rd Suc.prems(1,2) by simp
  next
    case False
    have no: "\<not> run_at mop n2 (Suc i) pgno" for pgno
    proof
      assume r: "run_at mop n2 (Suc i) pgno"
      then have "mop ! (Suc i - 0) = pgno + of_nat 0" "mop ! (Suc i - n2) = pgno + of_nat n2"
        unfolding run_at_def by blast+
      then show False using False by simp
    qed
    have all: "\<forall>j pgno. i < j \<longrightarrow> j \<le> n \<longrightarrow> \<not> run_at mop n2 j pgno"
      using no Suc.prems(3) by (metis Suc_lessI)
    show ?thesis
    proof (cases "n2 < i")
      case True
      then show ?thesis using Suc.IH [OF True] Suc.prems(2) all False rd by simp
    next
      case False
      then have "\<forall>j pgno. n2 < j \<longrightarrow> j \<le> n \<longrightarrow> \<not> run_at mop n2 j pgno" using all by simp
      then show ?thesis using False \<open>mop ! (Suc i - n2) \<noteq> ?p + of_nat n2\<close> rd by simp
    qed
  qed
qed

lemma close_gap_spec:
  assumes "i + k < length xs" "j \<le> i"
  shows "close_gap xs k j i = Some (take (j + 1) xs @ seg xs (i + 1) (i + 1 + k) @ drop (j + 1 + k) xs)"
  using assms
proof (induction k arbitrary: xs i j)
  case 0
  then show ?case by (simp add: seg_def)
next
  case (Suc k)
  let ?ys = "xs[j + 1 := xs ! (i + 1)]"
  have "close_gap xs (Suc k) j i = close_gap ?ys k (j + 1) (i + 1)" using Suc.prems by simp
  also have "\<dots> = Some (take (j + 2) ?ys @ seg ?ys (i + 2) (i + 2 + k) @ drop (j + 2 + k) ?ys)"
    using Suc.IH [of "i + 1" ?ys "j + 1"] Suc.prems by simp
  also have "take (j + 2) ?ys = take (j + 1) xs @ [xs ! (i + 1)]"
    using Suc.prems by (simp add: take_Suc_conv_app_nth)
  also have "seg ?ys (i + 2) (i + 2 + k) = seg xs (i + 2) (i + 2 + k)" using Suc.prems by (simp add: seg_def)
  also have "drop (j + 2 + k) ?ys = drop (j + 2 + k) xs" by simp
  also have "(take (j + 1) xs @ [xs ! (i + 1)]) @ seg xs (i + 2) (i + 2 + k) @ drop (j + 2 + k) xs =
    take (j + 1) xs @ seg xs (i + 1) (i + 1 + Suc k) @ drop (j + 1 + Suc k) xs"
    using Suc.prems by (simp add: seg_def Cons_nth_drop_Suc [symmetric])
  finally show ?case .
qed

lemma idl_elems_prefix: "length xs = unat c \<Longrightarrow> idl_elems (c # xs @ ys) = xs"
  by (simp add: idl_elems_def)

text \<open>The removal as \<open>alloc_done\<close> does it: count first, then the gap.\<close>

lemma take_run:
  assumes "idl_wf mop" "unat (hd mop) = n" "n2 < i" "i \<le> n" "n < 2 ^ 32"
  shows "\<exists>xs. wr mop 0 (of_nat (n - Suc n2)) = Some xs \<and>
    close_gap xs (n - Suc n2 - (i - Suc n2)) (i - Suc n2) i = Some (of_nat (n - Suc n2) #
      take (i - Suc n2) (idl_elems mop) @ drop i (idl_elems mop) @ drop (n - n2) mop)"
proof -
  obtain c t where mop: "mop = c # t" using assms(1) by (cases mop) (auto simp: idl_wf_def)
  have len: "n < length mop" using assms(1,2) by (simp add: idl_wf_def)
  let ?xs = "mop[0 := of_nat (n - Suc n2)]"
  have "close_gap ?xs (n - Suc n2 - (i - Suc n2)) (i - Suc n2) i =
    Some (take (i - Suc n2 + 1) ?xs @ seg ?xs (i + 1) (i + 1 + (n - i)) @ drop (i - Suc n2 + 1 + (n - i)) ?xs)"
    using close_gap_spec [of i "n - i" ?xs "i - Suc n2"] assms len by simp
  moreover have "i - Suc n2 \<le> n" using assms(4) by simp
  ultimately show ?thesis using assms len
    by (simp add: mop wr_def seg_def idl_elems_def drop_take drop_Cons' min_def)
qed

section \<open>Returning a run of pages\<close>

lemma shift_smaller_spec:
  assumes "i < j" "j < length mop" "k = j - i"
  shows "\<exists>i' ys. shift_smaller mop pg i j = Some (ys, i', i' + k) \<and> i' \<le> i \<and>
    length ys = length mop \<and> take (Suc i') ys = take (Suc i') mop \<and> drop (Suc (i' + k)) ys = seg mop (Suc i') (Suc i) @ drop (Suc j) mop \<and>
    (\<forall>x \<in> set (seg mop (Suc i') (Suc i)). x < pg) \<and> (0 < i' \<longrightarrow> pg \<le> mop ! i')"
  using assms
proof (induction i arbitrary: mop j)
  case 0
  then show ?case by (intro exI [of _ 0] exI [of _ mop]) (auto simp: seg_def)
next
  case (Suc i)
  show ?case
  proof (cases "mop ! Suc i < pg")
    case False
    then show ?thesis using Suc.prems
      by (intro exI [of _ "Suc i"] exI [of _ mop]) (auto simp: seg_def)
  next
    case True
    let ?m = "mop[j := mop ! Suc i]"
    have pr: "i < j - 1" "j - 1 < length ?m" "k = j - 1 - i" using Suc.prems by auto
    obtain i' ys where r: "shift_smaller ?m pg i (j - 1) = Some (ys, i', i' + k)" "i' \<le> i" "length ys = length ?m"
      "take (Suc i') ys = take (Suc i') ?m" "drop (Suc (i' + k)) ys = seg ?m (Suc i') (Suc i) @ drop (Suc (j - 1)) ?m"
      "\<forall>x \<in> set (seg ?m (Suc i') (Suc i)). x < pg" "0 < i' \<longrightarrow> pg \<le> ?m ! i'"
      using Suc.IH [OF pr] by blast
    have sg: "seg ?m (Suc i') (Suc i) = seg mop (Suc i') (Suc i)"
      using Suc.prems(1) r(2) by (simp add: seg_def drop_update_swap)
    have sn: "seg mop (Suc i') (Suc (Suc i)) = seg mop (Suc i') (Suc i) @ [mop ! Suc i]"
      using Suc.prems(1,2) r(2) by (simp add: seg_def Suc_diff_le take_Suc_conv_app_nth)
    have dj: "drop (Suc (j - 1)) ?m = mop ! Suc i # drop (Suc j) mop"
      using drop_update_pred [of "Suc j" mop "mop ! Suc i"] Suc.prems(1,2) by simp
    have "shift_smaller mop pg (Suc i) j = Some (ys, i', i' + k)"
      using True r(1) Suc.prems by simp
    moreover have "take (Suc i') ?m = take (Suc i') mop" using r(2) Suc.prems(1) by simp
    moreover have "?m ! i' = mop ! i'" using r(2) Suc.prems(1) by simp
    ultimately show ?thesis using r True sg sn dj by (intro exI [of _ i'] exI [of _ ys]) auto
  qed
qed

lemma fill_down_spec:
  assumes "k \<le> j" "j < length mop"
  shows "fill_down mop k j pg = Some (take (Suc j - k) mop @ rev (map (\<lambda>q. pg + of_nat q) [0..<k]) @ drop (Suc j) mop)"
  using assms
proof (induction k arbitrary: mop j pg)
  case 0
  then show ?case by simp
next
  case (Suc k)
  let ?m = "mop[j := pg]"
  have "fill_down mop (Suc k) j pg = fill_down ?m k (j - 1) (pg + 1)" using Suc.prems by simp
  also have "\<dots> = Some (take (Suc (j - 1) - k) ?m @ rev (map (\<lambda>q. pg + 1 + of_nat q) [0..<k]) @ drop (Suc (j - 1)) ?m)"
    using Suc.IH [of "j - 1" ?m "pg + 1"] Suc.prems by (cases j) auto
  also have "take (Suc (j - 1) - k) ?m = take (Suc j - Suc k) mop" using Suc.prems by simp
  also have "drop (Suc (j - 1)) ?m = pg # drop (Suc j) mop"
    using drop_update_pred [of "Suc j" mop pg] Suc.prems by simp
  also have "rev (map (\<lambda>q. pg + 1 + of_nat q) [0..<k]) @ pg # drop (Suc j) mop =
      rev (map (\<lambda>q. pg + of_nat q) [0..<Suc k]) @ drop (Suc j) mop"
    by (simp add: upt_conv_Cons map_Suc_upt [symmetric] add.assoc del: upt_Suc)
  finally show ?case .
qed

lemma pghead_insert_spec:
  assumes wf: "idl_wf mop" "unat (hd mop) + k < length mop" "unat (hd mop) + k < 2 ^ 32" and k: "0 < k"
  shows "\<exists>ys i. pghead_insert mop pg k = Some ys \<and> length ys = length mop \<and> unat (hd ys) = unat (hd mop) + k \<and>
    i \<le> unat (hd mop) \<and> (\<forall>x \<in> set (drop i (idl_elems mop)). x < pg) \<and> (0 < i \<longrightarrow> pg \<le> idl_elems mop ! (i - 1)) \<and>
    idl_elems ys = take i (idl_elems mop) @ rev (map (\<lambda>q. pg + of_nat q) [0..<k]) @ drop i (idl_elems mop)"
proof -
  let ?n = "unat (hd mop)" and ?R = "rev (map (\<lambda>q. pg + of_nat q) [0..<k])"
  obtain c t where mop: "mop = c # t" using wf(1) by (cases mop) (auto simp: idl_wf_def)
  have n: "?n < ?n + k" "?n + k < length mop" "k = ?n + k - ?n" using k wf(2) by auto
  obtain i ys0 where sh: "shift_smaller mop pg ?n (?n + k) = Some (ys0, i, i + k)" "i \<le> ?n" "length ys0 = length mop"
    "take (Suc i) ys0 = take (Suc i) mop"
    "drop (Suc (i + k)) ys0 = seg mop (Suc i) (Suc ?n) @ drop (Suc (?n + k)) mop"
    "\<forall>x \<in> set (seg mop (Suc i) (Suc ?n)). x < pg" "0 < i \<longrightarrow> pg \<le> mop ! i"
    using shift_smaller_spec [OF n(1,2,3)] by blast
  have fd: "fill_down ys0 k (i + k) pg = Some (take (Suc i) mop @ ?R @ seg mop (Suc i) (Suc ?n) @ drop (Suc (?n + k)) mop)"
    using fill_down_spec [of k "i + k" ys0 pg] sh(2-5) wf(2) by simp
  let ?zs = "take (Suc i) mop @ ?R @ seg mop (Suc i) (Suc ?n) @ drop (Suc (?n + k)) mop"
  have z: "?zs = c # take i t @ ?R @ take (?n - i) (drop i t) @ drop (?n + k) t" by (simp add: mop seg_def)
  have lz: "length ?zs = length mop" using wf(2) sh(2) by (simp add: mop seg_def)
  have "pghead_insert mop pg k = Some (?zs[0 := c + of_nat k])"
    using sh(1) fd wf by (simp add: pghead_insert_def mop rd_def wr_def Let_def)
  moreover have hd: "unat (c + of_nat k) = ?n + k" using wf(3) by (simp add: mop unat_word_ariths unat_of_nat)
  moreover have "idl_elems (?zs[0 := c + of_nat k]) = take i (idl_elems mop) @ ?R @ drop i (idl_elems mop)"
    unfolding z using hd sh(2) wf(2) k by (simp add: idl_elems_def mop min_def drop_take take_add [symmetric]) arith
  moreover have "drop i (idl_elems mop) = seg mop (Suc i) (Suc ?n)" by (simp add: idl_elems_def mop seg_def drop_take)
  moreover have "0 < i \<longrightarrow> pg \<le> idl_elems mop ! (i - 1)" using sh(2,7) by (auto simp: idl_elems_def mop nth_Cons')
  ultimately show ?thesis using sh(2,6) lz z by (intro exI [of _ "?zs[0 := c + of_nat k]"] exI [of _ i]) simp
qed

text \<open>With fresh page numbers the list stays strictly descending.\<close>

lemma sorted_range: "unat pg + k \<le> 2 ^ 64 \<Longrightarrow> sorted_wrt (>) (rev (map (\<lambda>q. pg + of_nat q :: u64) [0..<k]))"
proof -
  assume b: "unat pg + k \<le> 2 ^ 64"
  have u: "unat (pg + of_nat q) = unat pg + q" if "q < k" for q
    using b that by (simp add: unat_word_ariths unat_of_nat)
  have "sorted_wrt (<) (map (\<lambda>q. pg + of_nat q :: u64) [0..<k])"
    by (auto simp: sorted_wrt_iff_nth_less word_less_nat_alt u)
  then show ?thesis by (simp add: sorted_wrt_rev)
qed

lemma pghead_insert_sorted:
  assumes wf: "idl_wf mop" "unat (hd mop) + k < length mop" "unat (hd mop) + k < 2 ^ 32" and k: "0 < k"
    and st: "sorted_wrt (>) (idl_elems mop)" and pg: "unat pg + k \<le> 2 ^ 64"
    and fresh: "\<forall>q < k. pg + of_nat q \<notin> set (idl_elems mop)"
  shows "\<exists>ys. pghead_insert mop pg k = Some ys \<and> idl_wf ys \<and> length ys = length mop \<and> sorted_wrt (>) (idl_elems ys) \<and>
    set (idl_elems ys) = set (idl_elems mop) \<union> (\<lambda>q. pg + of_nat q) ` {..<k}"
proof -
  let ?E = "idl_elems mop" and ?R = "rev (map (\<lambda>q. pg + of_nat q) [0..<k])"
  obtain ys i where ys: "pghead_insert mop pg k = Some ys" "length ys = length mop" "unat (hd ys) = unat (hd mop) + k"
    "i \<le> unat (hd mop)" "\<forall>x \<in> set (drop i ?E). x < pg" "0 < i \<longrightarrow> pg \<le> ?E ! (i - 1)"
    "idl_elems ys = take i ?E @ ?R @ drop i ?E"
    using pghead_insert_spec [OF wf k, of pg] by blast
  have lenE: "length ?E = unat (hd mop)" using wf(1) by (cases mop) (auto simp: idl_elems_def idl_wf_def)
  have u: "unat (pg + of_nat q) = unat pg + q" if "q < k" for q
    using pg that by (simp add: unat_word_ariths unat_of_nat)
  have up: "pg + of_nat q < x" if xt: "x \<in> set (take i ?E)" and qk: "q < k" for x q
  proof -
    obtain a where a: "a < i" "x = ?E ! a" using xt by (auto simp: in_set_conv_nth)
    have "?E ! (i - 1) \<le> x"
      using st a ys(4) lenE by (cases "a = i - 1") (auto simp: sorted_wrt_iff_nth_less intro!: less_imp_le)
    then have le: "pg \<le> x" using ys(6) a(1) by auto
    have xE: "x \<in> set ?E" using xt by (rule in_set_takeD)
    show ?thesis
    proof (rule ccontr)
      assume "\<not> pg + of_nat q < x"
      then have "unat x \<le> unat pg + q" "unat pg \<le> unat x" using u [OF qk] le by (simp_all add: word_le_nat_alt word_less_nat_alt)
      then have "unat x = unat (pg + of_nat (unat x - unat pg))" "unat x - unat pg < k"
        using u [of "unat x - unat pg"] qk by simp_all
      then have "x = pg + of_nat (unat x - unat pg)" by (simp only: word_unat_eq_iff)
      then show False using fresh xE \<open>unat x - unat pg < k\<close> by metis
    qed
  qed
  have dn: "x < pg + of_nat q" if "x \<in> set (drop i ?E)" "q < k" for x q
    using ys(5) that u [OF that(2)] by (force simp: word_less_nat_alt)
  have st2: "sorted_wrt (>) (take i ?E)" "sorted_wrt (>) (drop i ?E)" "\<forall>x \<in> set (take i ?E). \<forall>y \<in> set (drop i ?E). x > y"
    using st sorted_wrt_append [of "(>)" "take i ?E" "drop i ?E"] by simp_all
  have "sorted_wrt (>) (idl_elems ys)"
    unfolding ys(7) using st2 sorted_range [OF pg] up dn by (auto simp: sorted_wrt_append)
  moreover have "set (idl_elems ys) = set ?E \<union> (\<lambda>q. pg + of_nat q) ` {..<k}"
  proof -
    have sE: "set ?E = set (take i ?E) \<union> set (drop i ?E)" by (metis set_append append_take_drop_id)
    show ?thesis unfolding ys(7) sE by auto
  qed
  moreover have "idl_wf ys" using ys(2,3) wf(1,2) by (cases ys) (auto simp: idl_wf_def)
  ultimately show ?thesis using ys(1,2) by blast
qed

section \<open>The oldest snapshot\<close>

text \<open>The transaction identifiers of the live readers among the first \<open>n\<close> slots.\<close>

definition reader_ids :: "MDB_reader list \<Rightarrow> nat \<Rightarrow> u64 set" where
  "reader_ids rs n = {mr_txnid x |x. x \<in> set (take n rs) \<and> mr_pid x \<noteq> 0}"

lemma reader_ids_Suc:
  "n < length rs \<Longrightarrow> reader_ids rs (Suc n) = (if mr_pid (rs ! n) \<noteq> 0 then {mr_txnid (rs ! n)} else {}) \<union> reader_ids rs n"
  by (auto simp: reader_ids_def take_Suc_conv_app_nth)

lemma oldest_loop_spec:
  "n \<le> length rs \<Longrightarrow> oldest_loop rs n old = Some (Min (insert old (reader_ids rs n)))"
proof (induction n arbitrary: old)
  case 0
  then show ?case by (simp add: reader_ids_def)
next
  case (Suc n)
  let ?x = "rs ! n"
  have fin: "finite (reader_ids rs n)"
    by (rule finite_subset [of _ "mr_txnid ` set rs"]) (auto simp: reader_ids_def dest: in_set_takeD)
  have "oldest_loop rs (Suc n) old = Some (Min (insert (if mr_pid ?x \<noteq> 0 \<and> old > mr_txnid ?x then mr_txnid ?x else old) (reader_ids rs n)))"
    using Suc by simp
  also have "Min (insert (if mr_pid ?x \<noteq> 0 \<and> old > mr_txnid ?x then mr_txnid ?x else old) (reader_ids rs n)) =
    Min (insert old (reader_ids rs (Suc n)))"
    using Suc.prems fin by (cases "reader_ids rs n = {}") (auto simp: reader_ids_Suc min_def)
  finally show ?case .
qed

section \<open>The purge of a spill list\<close>

lemma purge_spill_spec:
  assumes "i + n \<le> length sl" "j < i"
  shows "\<exists>ys. purge_spill sl n i j = Some (ys, j + length (filter (\<lambda>x. x AND 1 = 0) (seg sl i (i + n)))) \<and>
    length ys = length sl \<and>
    take (Suc j + length (filter (\<lambda>x. x AND 1 = 0) (seg sl i (i + n)))) ys = take (Suc j) sl @ filter (\<lambda>x. x AND 1 = 0) (seg sl i (i + n))"
  using assms
proof (induction n arbitrary: sl i j)
  case 0
  then show ?case by (simp add: seg_def)
next
  case (Suc n)
  have sg: "seg sl i (i + Suc n) = sl ! i # seg sl (Suc i) (Suc i + n)"
    using Suc.prems(1) by (simp add: seg_def Cons_nth_drop_Suc [symmetric])
  show ?case
  proof (cases "sl ! i AND 1 = 0")
    case False
    then show ?thesis using Suc.IH [of "Suc i" sl j] Suc.prems sg by simp
  next
    case True
    let ?s = "sl[Suc j := sl ! i]"
    have sg2: "seg ?s (Suc i) (Suc i + n) = seg sl (Suc i) (Suc i + n)" using Suc.prems by (simp add: seg_def)
    have tk: "take (Suc (Suc j)) ?s = take (Suc j) sl @ [sl ! i]"
      using Suc.prems by (simp add: take_Suc_conv_app_nth)
    show ?thesis using Suc.IH [of "Suc i" ?s "Suc j"] Suc.prems sg sg2 tk True by simp
  qed
qed

section \<open>The dirty list\<close>

lemma page_dirty_spec:
  assumes t: "w_txns w t = Some x" "\<not> any_set (mt_flags x) MDB_TXN_WRITEMAP" and pg: "mp_pgno (w_mem w) mp = Some pgno"
    and dl: "id2_wf (mt_dirty_list x)" "id2_map (mt_dirty_list x) pgno = None"
      "unat (mid (hd (mt_dirty_list x))) < MDB_IDL_UM_MAX" "unat (mid (hd (mt_dirty_list x))) + 1 < length (mt_dirty_list x)"
    and room: "0 < mt_dirty_room x" "mt_dirty_room x < 2 ^ 32"
  shows "\<exists>dl. mdb_page_dirty w t mp = Some (w\<lparr>w_txns := (w_txns w)(t \<mapsto> x\<lparr>mt_dirty_list := dl, mt_dirty_room := mt_dirty_room x - 1\<rparr>)\<rparr>) \<and>
    id2_wf dl \<and> id2_map dl = (id2_map (mt_dirty_list x))(pgno \<mapsto> mp) \<and>
    unat (mid (hd dl)) = unat (mid (hd (mt_dirty_list x))) + 1"
proof -
  obtain dl where d: "mdb_mid2l_insert (mt_dirty_list x) \<lparr>mid = pgno, mptr = mp\<rparr> = Some (0, dl)" "id2_wf dl"
    "unat (mid (hd dl)) = unat (mid (hd (mt_dirty_list x))) + 1" "id2_map dl = (id2_map (mt_dirty_list x))(pgno \<mapsto> mp)"
    using mdb_mid2l_insert_new [OF dl(1) _ dl(3,4), of "\<lparr>mid = pgno, mptr = mp\<rparr>"] dl(2) by auto
  have "u32 (mt_dirty_room x + (2 ^ 32 - 1)) = mt_dirty_room x - 1"
  proof -
    have "mt_dirty_room x + (2 ^ 32 - 1) = (mt_dirty_room x - 1) + 2 ^ 32" using room by simp
    then show ?thesis unfolding u32_def by (simp only: mod_add_self2) (use room in simp)
  qed
  then show ?thesis using t pg d
    by (intro exI [of _ dl]) (simp add: mdb_page_dirty_def upd_txn_def Let_def)
qed

end
