(* ===== verification/Search_Spec.thy ===== *)
theory Search_Spec
  imports Search Node_Spec
begin

text \<open>
  Searching: the binary search of \<^verbatim>\<open>mdb_node_search\<close> on a page of sorted keys, and the stack
  discipline of the cursor's page path.
\<close>

section \<open>The loop\<close>

text \<open>
  The comparisons of the key with the slots \<open>lo..hi\<close> run from positive over at most one zero to
  negative. \<open>node_found\<close>: where the loop stops and the sign it returns.
\<close>

definition node_found :: "(nat \<Rightarrow> int) \<Rightarrow> nat \<Rightarrow> int \<Rightarrow> nat \<Rightarrow> int \<Rightarrow> bool" where
  "node_found c lo hi i rc \<longleftrightarrow>
     (let k = (if rc > 0 then Suc i else i) in
      lo \<le> k \<and> int k \<le> hi + 1 \<and> (\<forall>j. lo \<le> j \<longrightarrow> j < k \<longrightarrow> 0 < c j) \<and> (\<forall>j. k < j \<longrightarrow> int j \<le> hi \<longrightarrow> c j < 0) \<and>
      (if rc = 0 then int k \<le> hi \<and> c k = 0 else int k \<le> hi \<longrightarrow> c k < 0))"

lemma node_search_loop_spec:
  assumes cmp: "\<And>j. lo \<le> j \<Longrightarrow> int j \<le> hi \<Longrightarrow> cmp j = Some (c j)"
    and mono: "\<And>j k. lo \<le> j \<Longrightarrow> j < k \<Longrightarrow> int k \<le> hi \<Longrightarrow> c j \<le> 0 \<Longrightarrow> c k < 0"
      "\<And>j k. lo \<le> j \<Longrightarrow> j < k \<Longrightarrow> int k \<le> hi \<Longrightarrow> 0 \<le> c k \<Longrightarrow> 0 < c j"
    and st: "lo \<le> low" "high \<le> hi" "int low \<le> high + 1"
      "\<And>j. lo \<le> j \<Longrightarrow> j < low \<Longrightarrow> 0 < c j" "\<And>j. high < int j \<Longrightarrow> int j \<le> hi \<Longrightarrow> c j < 0"
      "int low \<le> high \<or> (rc > 0 \<and> Suc i = low) \<or> (rc < 0 \<and> i = low)"
  shows "\<exists>i' rc'. node_search_loop cmp low high i rc = Some (i', rc') \<and> node_found c lo hi i' rc'"
  using st
proof (induction "nat (high + 1 - int low)" arbitrary: low high i rc rule: less_induct)
  case less
  show ?case
  proof (cases "int low \<le> high")
    case False
    then have e: "int low = high + 1" using less.prems(3) by simp
    have "node_found c lo hi i rc"
      using less.prems e False by (auto simp: node_found_def Let_def)
    then show ?thesis using False by (simp add: node_search_loop.simps)
  next
    case True
    define m where "m = (low + nat high) div 2"
    have m: "low \<le> m" "int m \<le> high" using True by (auto simp: m_def)
    have mh: "lo \<le> m" "int m \<le> hi" using m less.prems(1,2) by auto
    have unf: "node_search_loop cmp low high i rc = (if c m = 0 then Some (m, c m)
       else if c m > 0 then node_search_loop cmp (m + 1) high m (c m)
       else node_search_loop cmp low (int m - 1) m (c m))"
      using True cmp [OF mh] by (subst node_search_loop.simps) (simp add: m_def [symmetric] Let_def)
    have up: "0 < c j" if "lo \<le> j" "j < m" "0 \<le> c m" for j using mono(2) [OF that(1,2) mh(2) that(3)] .
    have dn: "c j < 0" if "m < j" "int j \<le> hi" "c m \<le> 0" for j using mono(1) [OF mh(1) that] .
    consider "c m = 0" | "c m > 0" | "c m < 0" by linarith
    then show ?thesis
    proof cases
      case 1
      then show ?thesis using unf up dn mh by (auto simp: node_found_def)
    next
      case 2
      have "\<exists>i' rc'. node_search_loop cmp (m + 1) high m (c m) = Some (i', rc') \<and> node_found c lo hi i' rc'"
      proof (rule less.hyps)
        show "nat (high + 1 - int (m + 1)) < nat (high + 1 - int low)" using m by simp
        show "0 < c j" if "lo \<le> j" "j < m + 1" for j
          using up [OF that(1)] that 2 by (cases "j = m") auto
      qed (use less.prems m 2 in auto)
      then show ?thesis using unf 2 by simp
    next
      case 3
      have "\<exists>i' rc'. node_search_loop cmp low (int m - 1) m (c m) = Some (i', rc') \<and> node_found c lo hi i' rc'"
      proof (rule less.hyps)
        show "nat (int m - 1 + 1 - int low) < nat (high + 1 - int low)" using m by simp
        show "c j < 0" if "int m - 1 < int j" "int j \<le> hi" for j
          using dn [of j] that 3 by (cases "j = m") auto
      qed (use less.prems m 3 in auto)
      then show ?thesis using unf 3 by simp
    qed
  qed
qed

section \<open>A page of sorted keys\<close>

text \<open>The key in the bytes of a node.\<close>

definition node_key :: "u8 list \<Rightarrow> u8 list" where
  "node_key bs = take (le_val (take 2 (drop 6 bs))) (drop 8 bs)"

definition keys_in :: "u8 list \<Rightarrow> bool" where
  "keys_in bs \<longleftrightarrow> 8 + le_val (take 2 (drop 6 bs)) \<le> length bs"

lemma key_at_bytes:
  assumes rep: "page_rep m p psz leaf u L" and j: "j < length L" "keys_in (snd (L ! j))"
  shows "\<exists>v. key_at m p False pad j = Some v \<and> val_bytes m v = Some (node_key (snd (L ! j)))"
proof -
  note N = page_rep_nth [OF rep j(1)]
  let ?n = "padd p (fst (L ! j))" and ?b = "snd (L ! j)"
  have ks: "mn_ksize m ?n = Some (le_val (take 2 (drop 6 ?b)))"
    using load_part [OF N(2), of 6 2] N(5) by (simp add: mn_ksize_def ldn_def)
  have "load m (padd ?n 8) (le_val (take 2 (drop 6 ?b))) = Some (node_key ?b)"
    unfolding node_key_def using j(2) by (intro load_part [OF N(2)]) (simp add: keys_in_def)
  then show ?thesis using N(1) ks
    by (simp add: key_at_def NODEPTR_def MDB_GET_KEY2_def NODEKSZ_def val_bytes_def NODEKEY_def)
qed

lemma length_filter_prefix:
  assumes "k \<le> length xs" "\<And>j. j < k \<Longrightarrow> P (xs ! j)" "\<And>j. k \<le> j \<Longrightarrow> j < length xs \<Longrightarrow> \<not> P (xs ! j)"
  shows "length (filter P xs) = k"
proof -
  have "filter P (take k xs) = take k xs" using assms(1,2) by (auto simp: filter_id_conv in_set_conv_nth)
  moreover have "filter P (drop k xs) = []" using assms(3) by (auto simp: filter_empty_conv in_set_conv_nth)
  ultimately have "filter P (take k xs @ drop k xs) = take k xs" by (simp only: filter_append) simp
  then show ?thesis using assms(1) by simp
qed

text \<open>
  The keys the search compares: all on a leaf page, all but the first on a branch page. When they
  are strictly ascending in the order of \<^verbatim>\<open>mdb_cmp_memn\<close> the search stops after the
  smaller ones, and says whether the key is there.
\<close>

definition first_key :: "bool \<Rightarrow> nat" where
  "first_key leaf = (if leaf then 0 else 1)"

lemma node_search_page_spec:
  assumes rep: "page_rep m p psz leaf u L" and br: "IS_BRANCH m p = Some (\<not> leaf)"
    and key: "val_bytes m key = Some kb" "length kb < 2 ^ 32"
    and ks: "\<forall>bs \<in> set (map snd L). keys_in bs" "sorted_wrt (<) (map (node_key \<circ> snd) (drop (first_key leaf) L))"
    and lo: "leaf \<or> 1 < length L"
  shows "\<exists>i. node_search_page m p Cmp_memn pad key = Some (i, kb \<in> set (map (node_key \<circ> snd) (drop (first_key leaf) L)), length L) \<and>
    i = first_key leaf + length (filter (\<lambda>k. k < kb) (map (node_key \<circ> snd) (drop (first_key leaf) L)))"
proof -
  let ?n = "length L" and ?lo = "first_key leaf"
  let ?K = "map (node_key \<circ> snd) L" and ?D = "map (node_key \<circ> snd) (drop ?lo L)"
  have D: "?D = drop ?lo ?K" by (simp add: drop_map)
  have short: "length (?K ! j) < 2 ^ 32" if "j < ?n" for j
    using page_rep_nth(4) [OF rep that] page_repD(2) [OF rep] that by (auto simp: node_key_def min_def)
  have "\<forall>j < ?n. \<exists>d. cmp_vals Cmp_memn m key (the (key_at m p False pad j)) = Some d \<and> key_at m p False pad j \<noteq> None \<and> sgn d = CMP kb (?K ! j)"
  proof (intro allI impI)
    fix j assume j: "j < ?n"
    obtain v where v: "key_at m p False pad j = Some v" "val_bytes m v = Some (?K ! j)"
      using key_at_bytes [OF rep j] ks(1) j by auto
    obtain d where "mdb_cmp_memn kb (?K ! j) = Some d" "sgn d = CMP kb (?K ! j)"
      using memn.cmp_key [of kb "?K ! j"] key(2) short [OF j] by auto
    then show "\<exists>d. cmp_vals Cmp_memn m key (the (key_at m p False pad j)) = Some d \<and> key_at m p False pad j \<noteq> None \<and> sgn d = CMP kb (?K ! j)"
      using v key(1) by (simp add: cmp_vals_def)
  qed
  then obtain c where c: "\<And>j. j < ?n \<Longrightarrow> cmp_vals Cmp_memn m key (the (key_at m p False pad j)) = Some (c j)"
    "\<And>j. j < ?n \<Longrightarrow> key_at m p False pad j \<noteq> None" "\<And>j. j < ?n \<Longrightarrow> sgn (c j) = CMP kb (?K ! j)"
    by metis
  let ?f = "\<lambda>j. do { v \<leftarrow> key_at m p False pad j; cmp_vals Cmp_memn m key v }"
  have f: "?f j = Some (c j)" if "j < ?n" for j using c(1,2) [OF that] by auto
  have sg: "(c j < 0 \<longleftrightarrow> kb < ?K ! j) \<and> (c j = 0 \<longleftrightarrow> kb = ?K ! j) \<and> (0 < c j \<longleftrightarrow> ?K ! j < kb)" if "j < ?n" for j
    using c(3) [OF that] by (cases kb "?K ! j" rule: linorder_cases) (auto simp: CMP_def sgn_if split: if_splits)
  have lt: "?K ! j < ?K ! k" if "?lo \<le> j" "j < k" "k < ?n" for j k
  proof -
    have "?D ! (j - ?lo) < ?D ! (k - ?lo)" using ks(2) that by (intro sorted_wrt_nth_less [of "(<)" ?D]) auto
    then show ?thesis using that by (simp add: D)
  qed
  have hdr: "IS_LEAF2 m p = Some False" "NUMKEYS m p = Some ?n" "node_search_cmp m p Cmp_memn = Some Cmp_memn"
    using page_repD(4) [OF rep] page_rep_NUMKEYS [OF rep] br by (simp_all add: node_search_cmp_def is_cint_def)
  have unf: "node_search_page m p Cmp_memn pad key = do { (i, rc) \<leftarrow> node_search_loop ?f ?lo (int ?n - 1) 0 0;
      Some (if rc > 0 then i + 1 else i, rc = 0 \<and> ?n > 0, ?n) }"
    using hdr page_repD(3) [OF rep] by (simp add: node_search_page_def first_key_def)
  show ?thesis
  proof (cases "?n = 0")
    case True
    then show ?thesis using lo by (simp add: unf node_search_loop.simps first_key_def)
  next
    case False
    obtain i rc where r: "node_search_loop ?f ?lo (int ?n - 1) 0 0 = Some (i, rc)" "node_found c ?lo (int ?n - 1) i rc"
    proof -
      have "\<exists>i rc. node_search_loop ?f ?lo (int ?n - 1) 0 0 = Some (i, rc) \<and> node_found c ?lo (int ?n - 1) i rc"
      proof (rule node_search_loop_spec)
        show "?f j = Some (c j)" if "int j \<le> int ?n - 1" for j using that by (intro f) simp
        show "c k < 0" if "?lo \<le> j" "j < k" "int k \<le> int ?n - 1" "c j \<le> 0" for j k
          using sg [of j] sg [of k] lt [of j k] that by auto
        show "0 < c j" if "?lo \<le> j" "j < k" "int k \<le> int ?n - 1" "0 \<le> c k" for j k
          using sg [of j] sg [of k] lt [of j k] that by auto
      qed (use False lo in \<open>auto simp: first_key_def\<close>)
      then show thesis using that by blast
    qed
    define k where "k = (if rc > 0 then Suc i else i)"
    have k: "?lo \<le> k" "k \<le> ?n" "\<And>j. ?lo \<le> j \<Longrightarrow> j < k \<Longrightarrow> 0 < c j" "\<And>j. k < j \<Longrightarrow> j < ?n \<Longrightarrow> c j < 0"
      "if rc = 0 then k < ?n \<and> c k = 0 else k < ?n \<longrightarrow> c k < 0"
      using r(2) by (auto simp: node_found_def k_def [symmetric] split: if_splits)
    have "length (filter (\<lambda>x. x < kb) ?D) = k - ?lo"
    proof (rule length_filter_prefix)
      show "?D ! j < kb" if "j < k - ?lo" for j using k(3) [of "?lo + j"] sg [of "?lo + j"] k(2) that by (auto simp: D)
      show "\<not> ?D ! j < kb" if "k - ?lo \<le> j" "j < length ?D" for j
      proof -
        have q: "?lo + j < ?n" "k \<le> ?lo + j" using that k(1) by auto
        then have "c (?lo + j) \<le> 0" using k(4) [of "?lo + j"] k(5) by (cases "?lo + j = k") (auto split: if_splits)
        then show ?thesis using sg [OF q(1)] q(1) by (auto simp: D)
      qed
    qed (use k(2) in simp)
    moreover have "kb \<in> set ?D \<longleftrightarrow> rc = 0"
    proof
      assume "kb \<in> set ?D"
      then obtain j where "j < length ?D" "?D ! j = kb" by (metis in_set_conv_nth)
      then have j: "?lo \<le> ?lo + j" "?lo + j < ?n" "?K ! (?lo + j) = kb" by (auto simp: D)
      then have "c (?lo + j) = 0" using sg [OF j(2)] by simp
      then show "rc = 0" using k(3) [of "?lo + j"] k(4) [of "?lo + j"] k(5) j(2)
        by (cases "?lo + j" k rule: linorder_cases) (auto split: if_splits)
    next
      assume "rc = 0"
      then have "k < ?n" "?K ! k = kb" using k(5) sg [of k] by auto
      then have "?D ! (k - ?lo) = kb" "k - ?lo < length ?D" using k(1) by (auto simp: D)
      then show "kb \<in> set ?D" by (metis nth_mem)
    qed
    ultimately show ?thesis using r(1) False k(1) by (auto simp: unf k_def)
  qed
qed

lemma node_search_page_leaf:
  assumes "page_rep m p psz True u L" "IS_BRANCH m p = Some False" "val_bytes m key = Some kb" "length kb < 2 ^ 32"
    and "\<forall>bs \<in> set (map snd L). keys_in bs" "sorted_wrt (<) (map (node_key \<circ> snd) L)"
  shows "\<exists>i. node_search_page m p Cmp_memn pad key = Some (i, kb \<in> set (map (node_key \<circ> snd) L), length L) \<and>
    i = length (filter (\<lambda>k. k < kb) (map (node_key \<circ> snd) L))"
  using node_search_page_spec [of m p psz True u L] assms by (simp add: first_key_def)

section \<open>The page stack\<close>

text \<open>The shape of a cursor's stack: \<^verbatim>\<open>mc_top\<close> is the index of the last of \<^verbatim>\<open>mc_snum\<close> pages.\<close>

definition stack_wf :: "MDB_cursor \<Rightarrow> bool" where
  "stack_wf r \<longleftrightarrow> length (mc_pg r) = CURSOR_STACK \<and> length (mc_ki r) = CURSOR_STACK \<and> mc_snum r \<le> CURSOR_STACK \<and>
     (0 < mc_snum r \<longrightarrow> mc_top r = mc_snum r - 1)"

text \<open>The path the stack represents.\<close>

definition path :: "MDB_cursor \<Rightarrow> (ptr \<times> nat) list" where
  "path r = zip (take (mc_snum r) (mc_pg r)) (take (mc_snum r) (mc_ki r))"

lemma length_path: "stack_wf r \<Longrightarrow> length (path r) = mc_snum r"
  by (simp add: path_def stack_wf_def)

lemma cursor_push_spec:
  assumes "w_cursors w c = Some r" "stack_wf r" "mc_snum r < CURSOR_STACK"
  shows "\<exists>r'. mdb_cursor_push w c mp = Some (MDB_SUCCESS, put_cur w c r') \<and> stack_wf r' \<and> path r' = path r @ [(mp, 0)]"
proof -
  let ?n = "mc_snum r"
  let ?r = "r\<lparr>mc_top := ?n, mc_snum := ?n + 1, mc_pg := (mc_pg r)[?n := mp], mc_ki := (mc_ki r)[?n := 0]\<rparr>"
  have len: "length (mc_pg r) = 32" "length (mc_ki r) = 32" using assms(2) by (simp_all add: stack_wf_def)
  have "mdb_cursor_push w c mp = Some (MDB_SUCCESS, put_cur w c ?r)"
    using assms len by (simp add: mdb_cursor_push_def wr_def Let_def)
  moreover have "stack_wf ?r" using assms(2,3) by (simp add: stack_wf_def)
  moreover have "path ?r = path r @ [(mp, 0)]"
    using assms(3) len by (simp add: path_def take_Suc_conv_app_nth)
  ultimately show ?thesis by blast
qed

lemma cursor_push_full:
  assumes "w_cursors w c = Some r" "mc_snum r = CURSOR_STACK" "w_txns w (mc_txn r) = Some x"
  shows "mdb_cursor_push w c mp = Some (MDB_CURSOR_FULL,
    w\<lparr>w_txns := (w_txns w)(mc_txn r \<mapsto> x\<lparr>mt_flags := mt_flags x OR MDB_TXN_ERROR\<rparr>)\<rparr>)"
  using assms by (simp add: mdb_cursor_push_def txn_or_flags_def upd_txn_def)

lemma dec16_pos: "0 < x \<Longrightarrow> x < 2 ^ 16 \<Longrightarrow> dec16 x = x - 1"
proof -
  assume x: "0 < x" "x < 2 ^ 16"
  then have "x + (2 ^ 16 - 1) = (x - 1) + 2 ^ 16" by simp
  then show ?thesis unfolding dec16_def by (simp only: mod_add_self2) (use x in simp)
qed

lemma cursor_pop_spec:
  assumes "w_cursors w c = Some r" "stack_wf r"
  shows "\<exists>r'. mdb_cursor_pop w c = Some (put_cur w c r') \<and> stack_wf r' \<and> path r' = butlast (path r) \<and>
    (mc_flags r' = (if mc_snum r = 1 then clear (mc_flags r) C_INITIALIZED else mc_flags r))"
proof -
  let ?n = "mc_snum r"
  have len: "length (mc_pg r) = 32" "length (mc_ki r) = 32" "?n \<le> 32" "0 < ?n \<Longrightarrow> mc_top r = ?n - 1"
    using assms(2) by (simp_all add: stack_wf_def)
  have bl: "zip (take (?n - 1) (mc_pg r)) (take (?n - 1) (mc_ki r)) = butlast (path r)"
    using length_path [OF assms(2)] by (simp add: butlast_conv_take path_def take_zip min_def)
  consider "?n = 0" | "?n = 1" | "1 < ?n" by linarith
  then show ?thesis
  proof cases
    case 1
    then show ?thesis using assms bl by (intro exI [of _ r]) (simp add: mdb_cursor_pop_def upd_cur_def path_def)
  next
    case 2
    then show ?thesis using assms bl
      by (intro exI [of _ "r\<lparr>mc_snum := 0, mc_flags := clear (mc_flags r) C_INITIALIZED\<rparr>"])
        (simp add: mdb_cursor_pop_def upd_cur_def path_def stack_wf_def)
  next
    case 3
    have "dec16 (mc_top r) = mc_top r - 1" using 3 len by (intro dec16_pos) auto
    then show ?thesis using assms bl 3 len
      by (intro exI [of _ "r\<lparr>mc_snum := ?n - 1, mc_top := dec16 (mc_top r)\<rparr>"])
        (simp add: mdb_cursor_pop_def upd_cur_def path_def stack_wf_def)
  qed
qed

section \<open>Database records\<close>

lemma ldn_le_bytes:
  assumes "load m p n = Some (xs @ le_bytes k v @ ys)" "length xs = a"
  shows "ldn k m (padd p a) = Some (v mod 256 ^ k)"
proof -
  have "n = a + k + length ys" using load_Some_valid [OF assms(1)] assms(2) by simp
  then show ?thesis by (intro ldn_part [OF assms(1)]) (use assms(2) in auto)
qed

text \<open>The record that the 48 bytes stand for: the flags are 16 bits wide on disk.\<close>

definition cut_flags :: "MDB_db \<Rightarrow> MDB_db" where
  "cut_flags d = d\<lparr>md_flags := take_bit 16 (md_flags d)\<rparr>"

lemma load_db_bytes:
  assumes ld: "load m' p 48 = Some (db_bytes d)"
  shows "load_db m' p = Some (cut_flags d)"
proof -
  note L = ld [unfolded db_bytes_def]
  have "ldn 4 m' (padd p 0) = Some (unat (md_pad d) mod 256 ^ 4)"
    by (rule ldn_le_bytes [where xs = "[]"]) (use L in auto)
  moreover have "ldn 2 m' (padd p 4) = Some (unat (md_flags d) mod 256 ^ 2)"
    by (rule ldn_le_bytes [where xs = "le_bytes 4 (unat (md_pad d))"]) (use L in auto)
  moreover have "ldn 2 m' (padd p 6) = Some (unat (md_depth d) mod 256 ^ 2)"
    by (rule ldn_le_bytes [where xs = "le_bytes 4 (unat (md_pad d)) @ le_bytes 2 (unat (md_flags d))"]) (use L in auto)
  moreover have "ldn 8 m' (padd p 8) = Some (unat (md_branch_pages d) mod 256 ^ 8)"
    by (rule ldn_le_bytes [where xs = "le_bytes 4 (unat (md_pad d)) @ le_bytes 2 (unat (md_flags d)) @ le_bytes 2 (unat (md_depth d))"])
      (use L in auto)
  moreover have "ldn 8 m' (padd p 16) = Some (unat (md_leaf_pages d) mod 256 ^ 8)"
    by (rule ldn_le_bytes [where xs = "le_bytes 4 (unat (md_pad d)) @ le_bytes 2 (unat (md_flags d)) @ le_bytes 2 (unat (md_depth d)) @
        le_bytes 8 (unat (md_branch_pages d))"]) (use L in auto)
  moreover have "ldn 8 m' (padd p 24) = Some (unat (md_overflow_pages d) mod 256 ^ 8)"
    by (rule ldn_le_bytes [where xs = "le_bytes 4 (unat (md_pad d)) @ le_bytes 2 (unat (md_flags d)) @ le_bytes 2 (unat (md_depth d)) @
        le_bytes 8 (unat (md_branch_pages d)) @ le_bytes 8 (unat (md_leaf_pages d))"]) (use L in auto)
  moreover have "ldn 8 m' (padd p 32) = Some (unat (md_entries d) mod 256 ^ 8)"
    by (rule ldn_le_bytes [where xs = "le_bytes 4 (unat (md_pad d)) @ le_bytes 2 (unat (md_flags d)) @ le_bytes 2 (unat (md_depth d)) @
        le_bytes 8 (unat (md_branch_pages d)) @ le_bytes 8 (unat (md_leaf_pages d)) @ le_bytes 8 (unat (md_overflow_pages d))"]) (use L in auto)
  moreover have "ldn 8 m' (padd p 40) = Some (unat (md_root d) mod 256 ^ 8)"
    by (rule ldn_le_bytes [where ys = "[]" and xs = "le_bytes 4 (unat (md_pad d)) @ le_bytes 2 (unat (md_flags d)) @ le_bytes 2 (unat (md_depth d)) @
        le_bytes 8 (unat (md_branch_pages d)) @ le_bytes 8 (unat (md_leaf_pages d)) @ le_bytes 8 (unat (md_overflow_pages d)) @
        le_bytes 8 (unat (md_entries d))"]) (use L in auto)
  moreover have "(of_nat (unat (md_flags d) mod 2 ^ 16) :: u32) = take_bit 16 (md_flags d)"
    by (simp only: of_nat_mod_take_bit) simp
  moreover have "unat (x :: u64) mod 18446744073709551616 = unat x" for x
    using unsigned_less [of x, where 'a = nat] by simp
  moreover have "unat (x :: u32) mod 4294967296 = unat x" for x
    using unsigned_less [of x, where 'a = nat] by simp
  moreover have "unat (x :: u16) mod 65536 = unat x" for x
    using unsigned_less [of x, where 'a = nat] by simp
  ultimately show ?thesis
    by (cases d) (simp add: load_db_def cut_flags_def)
qed

lemma load_store_db:
  assumes "valid m p 48"
  shows "\<exists>m'. store_db m p d = Some m' \<and> upd_only p 48 m m' \<and>
    load_db m' p = Some (d\<lparr>md_flags := take_bit 16 (md_flags d)\<rparr>)"
proof -
  obtain m' where m': "store m p (db_bytes d) = Some m'" using store_ok [of m p "db_bytes d"] assms by auto
  then have "load_db m' p = Some (cut_flags d)" using load_store_same [OF m'] by (intro load_db_bytes) simp
  then show ?thesis using m' store_upd_only [OF m'] by (simp add: store_db_def cut_flags_def)
qed

end
