(* ===== verification/Copy_Spec.thy ===== *)
theory Copy_Spec
  imports Touch Node_Spec
begin

text \<open>
  \<^verbatim>\<open>mdb_page_copy\<close> skips the unused middle of a page. The copy represents the same nodes.
\<close>

text \<open>Equal bytes below \<^verbatim>\<open>mp_lower\<close> and above \<^verbatim>\<open>mp_upper\<close> make equal pages.\<close>

lemma page_rep_transport:
  assumes rep: "page_rep m p psz leaf u L" and v: "valid m' q psz"
    and same: "\<And>a k. 0 < k \<Longrightarrow> a + k \<le> PAGEHDRSZ + 2 * length L \<or> u \<le> a \<and> a + k \<le> psz \<Longrightarrow>
      load m' (padd q a) k = load m (padd p a) k"
  shows "page_rep m' q psz leaf u L"
proof -
  note D = page_repD [OF rep]
  have ld: "ldn k m' (padd q a) = ldn k m (padd p a)" if "0 < k" "a + k \<le> PAGEHDRSZ + 2 * length L" for a k
    using same [of k a] that by (simp add: ldn_def)
  have hdr: "mp_lower m' q = mp_lower m p" "mp_upper m' q = mp_upper m p" "page_is f m' q = page_is f m p" for f
    using ld [of 2 12] ld [of 2 14] ld [of 2 10] by (simp_all add: mp_lower_def mp_upper_def page_is_def mp_flags_def)
  have pt: "mp_ptrs m' q j = mp_ptrs m p j" if "j < length L" for j
    using ld [of 2 "PAGEHDRSZ + 2 * j"] that by (simp add: mp_ptrs_def)
  show ?thesis
  proof (rule page_repI [OF v D(2) _ _ refl _ _ D(7,8)])
    fix j assume j: "j < length L"
    note N = page_rep_nth [OF rep j]
    show "mp_ptrs m' q j = Some (fst (L ! j))" using pt [OF j] N(1) by simp
    show "load m' (padd q (fst (L ! j))) (length (snd (L ! j))) = Some (snd (L ! j))"
      using same [of "length (snd (L ! j))" "fst (L ! j)"] N(2-5) by (cases "snd (L ! j) = []") auto
    show "u \<le> fst (L ! j) \<and> fst (L ! j) + length (snd (L ! j)) \<le> psz \<and> NODESIZE \<le> length (snd (L ! j)) \<and>
      img_size leaf (snd (L ! j)) = length (snd (L ! j))"
      using N(3-6) by blast
  qed (use hdr D(3-6) page_rep_nth(7) [OF rep] in auto)
qed

text \<open>A copied range, part of it.\<close>

lemma copied_part:
  assumes "load m' dst n = load m src n" "valid m src n" "b + k \<le> n"
  shows "load m' (padd dst b) k = load m (padd src b) k"
proof -
  obtain bs where bs: "load m src n = Some bs" using load_valid [OF assms(2)] by blast
  then have "load m' dst n = Some bs" using assms(1) by simp
  from load_part [OF this assms(3)] load_part [OF bs assms(3)] show ?thesis by simp
qed

lemma mdb_page_copy_rep:
  assumes rep: "page_rep m src psz leaf u L" and dst: "valid m dst psz" and blk: "p_blk dst \<noteq> p_blk src"
  shows "\<exists>m'. mdb_page_copy m dst src psz = Some m' \<and> upd_only dst psz m m' \<and> page_rep m' dst psz leaf u L \<and>
    page_rep m' src psz leaf u L"
proof -
  note D = page_repD [OF rep]
  let ?l = "PAGEHDRSZ + 2 * length L"
  have keep: "page_rep m' src psz leaf u L" if "upd_only dst psz m m'" for m'
  proof (rule page_rep_transport [OF rep])
    show "valid m' src psz" using D(1) upd_only_valid [OF that] by simp
    show "load m' (padd src a) k = load m (padd src a) k" for a k
      using blk by (intro upd_only_load [OF that] apart_blk) simp
  qed
  define un where "un = (u - ?l) div 8 * 8"
  have un: "(u + (2 ^ 16 - ?l)) mod 2 ^ 16 = u - ?l"
    using page_rep_SIZELEFT [OF rep] D(5,6) by (simp add: SIZELEFT_def)
  show ?thesis
  proof (cases "un = 0")
    case True
    obtain m1 where m1: "memmove m dst src psz = Some m1" "upd_only dst psz m m1" "load m1 dst psz = load m src psz"
      using memmove_Some [OF D(1) dst] by blast
    have "page_rep m1 dst psz leaf u L"
    proof (rule page_rep_transport [OF rep])
      show "valid m1 dst psz" using dst upd_only_valid [OF m1(2)] by simp
      show "load m1 (padd dst a) k = load m (padd src a) k" if "a + k \<le> ?l \<or> u \<le> a \<and> a + k \<le> psz" for a k
        using that D(7,8) by (intro copied_part [OF m1(3) D(1)]) auto
    qed
    moreover have "mdb_page_copy m dst src psz = Some m1"
      using m1(1) D(4-6) un True by (simp add: mdb_page_copy_def Let_def un_def)
    ultimately show ?thesis using m1(2) keep by blast
  next
    case False
    define up where "up = u div 8 * 8"
    define lo where "lo = (?l + 7) div 8 * 8"
    have "8 \<le> u - ?l"
    proof (rule ccontr)
      assume "\<not> 8 \<le> u - ?l"
      then show False using False by (simp add: un_def)
    qed
    then have "(?l + 7) div 8 \<le> u div 8" by (intro div_le_mono) simp
    then have b: "?l \<le> lo" "lo \<le> up" "up \<le> u" "u < up + 8"
      using div_mult_mod_eq [of u 8] div_mult_mod_eq [of "?l + 7" 8] mod_less_divisor [of 8 u] mod_less_divisor [of 8 "?l + 7"]
      unfolding up_def lo_def by linarith+
    have vs: "valid m src lo" "valid m dst lo" "valid m (padd src up) (psz - up)" "valid m (padd dst up) (psz - up)"
      using load_padd_valid [OF D(1), of 0 lo] load_padd_valid [OF dst, of 0 lo] load_padd_valid [OF D(1), of up "psz - up"]
        load_padd_valid [OF dst, of up "psz - up"] b D(8) by simp_all
    obtain m1 where m1: "memmove m dst src lo = Some m1" "upd_only dst lo m m1" "load m1 dst lo = load m src lo"
      using memmove_Some [OF vs(1,2)] by blast
    have v1: "valid m1 (padd src up) (psz - up)" "valid m1 (padd dst up) (psz - up)"
      using vs upd_only_valid [OF m1(2)] by simp_all
    obtain m2 where m2: "memmove m1 (padd dst up) (padd src up) (psz - up) = Some m2"
      "upd_only (padd dst up) (psz - up) m1 m2" "load m2 (padd dst up) (psz - up) = load m1 (padd src up) (psz - up)"
      using memmove_Some [OF v1] by blast
    have u2: "upd_only dst psz m m2"
      using upd_only_trans [OF upd_only_mono [of dst 0 lo m m1 0 psz] upd_only_mono [OF m2(2), of 0 psz]] m1(2) b D(8) by simp
    have hi: "load m2 (padd dst up) (psz - up) = load m (padd src up) (psz - up)"
      using m2(3) upd_only_load [OF m1(2) apart_blk, of "padd src up" "psz - up"] blk by simp
    have "page_rep m2 dst psz leaf u L"
    proof (rule page_rep_transport [OF rep])
      show "valid m2 dst psz" using dst upd_only_valid [OF u2] by simp
      show "load m2 (padd dst a) k = load m (padd src a) k" if "0 < k" "a + k \<le> ?l \<or> u \<le> a \<and> a + k \<le> psz" for a k
        using that(2)
      proof
        assume "a + k \<le> ?l"
        then have "load m1 (padd dst a) k = load m (padd src a) k" "a + k \<le> up"
          using b by (auto intro: copied_part [OF m1(3) vs(1)])
        then show ?thesis using upd_only_load [OF m2(2), of "padd dst a" k] by simp
      next
        assume a: "u \<le> a \<and> a + k \<le> psz"
        then have "load m2 (padd (padd dst up) (a - up)) k = load m (padd (padd src up) (a - up)) k"
          using b by (intro copied_part [OF hi vs(3)]) auto
        then show ?thesis using a b by simp
      qed
    qed
    moreover have "mdb_page_copy m dst src psz = Some m2"
      using m1(1) m2(1) D(4-6) un False by (simp add: mdb_page_copy_def Let_def un_def up_def lo_def)
    ultimately show ?thesis using u2 keep by blast
  qed
qed

end
