(* ===== verification/Meta_Spec.thy ===== *)
theory Meta_Spec
  imports Meta Search_Spec
begin

text \<open>
  What the meta pages promise: the bytes of a record read back, a commit replaces one of the two
  records and leaves the other alone, a failed one leaves the current snapshot current, and the
  pages of a new file are accepted.
\<close>

section \<open>Records and bytes\<close>

lemma ldn_piece:
  assumes "load m p n = Some bs" "a + k \<le> n"
  shows "ldn k m (padd p a) = Some (le_val (take k (drop a bs)))"
  using load_part [OF assms] by (simp add: ldn_def)

lemma length_meta_tail_bytes [simp]: "length (meta_tail_bytes t) = 120"
  by (simp add: meta_tail_bytes_def)

lemma length_meta_bytes [simp]: "length (meta_bytes t) = META_SIZE"
  by (simp add: meta_bytes_def)

lemma unat_mod_u64 [simp]: "unat (x :: u64) mod 18446744073709551616 = unat x"
  using unsigned_less [of x, where 'a = nat] by simp

lemma unat_mod_u32 [simp]: "unat (x :: u32) mod 4294967296 = unat x"
  using unsigned_less [of x, where 'a = nat] by simp

text \<open>The fields from \<^verbatim>\<open>mm_mapsize\<close> on.\<close>

lemma load_meta_tail:
  assumes ld: "load m (padd p 16) 120 = Some (meta_tail_bytes t)"
  shows "ld64 m (padd p 16) = Some (unat (mm_mapsize t))" "load_db m (padd p 24) = Some (cut_flags (mm_dbs t ! 0))"
    "load_db m (padd p 72) = Some (cut_flags (mm_dbs t ! 1))" "ld64 m (padd p 120) = Some (unat (mm_last_pg t))"
    "ld64 m (padd p 128) = Some (unat (mm_txnid t))"
proof -
  have sub: "load m (padd p (16 + a)) k = Some (take k (drop a (meta_tail_bytes t)))" if "a + k \<le> 120" for a k
    using load_part [OF ld that] by simp
  show "ld64 m (padd p 16) = Some (unat (mm_mapsize t))"
    using sub [of 0 8] by (simp add: ldn_def meta_tail_bytes_def)
  show "load_db m (padd p 24) = Some (cut_flags (mm_dbs t ! 0))"
    using sub [of 8 48] by (intro load_db_bytes) (simp add: meta_tail_bytes_def)
  show "load_db m (padd p 72) = Some (cut_flags (mm_dbs t ! 1))"
    using sub [of 56 48] by (intro load_db_bytes) (simp add: meta_tail_bytes_def)
  show "ld64 m (padd p 120) = Some (unat (mm_last_pg t))"
    using sub [of 104 8] by (simp add: ldn_def meta_tail_bytes_def)
  show "ld64 m (padd p 128) = Some (unat (mm_txnid t))"
    using sub [of 112 8] by (simp add: ldn_def meta_tail_bytes_def)
qed

lemma load_meta_bytes:
  assumes ld: "load m p META_SIZE = Some (meta_bytes t)" and two: "length (mm_dbs t) = 2"
  shows "load_meta m p = Some (t\<lparr>mm_dbs := map cut_flags (mm_dbs t)\<rparr>)"
proof -
  have "load m (padd p 16) 120 = Some (meta_tail_bytes t)"
    using load_part [OF ld, of 16 120] by (simp add: meta_bytes_def)
  note T = load_meta_tail [OF this]
  have "ldn 4 m p = Some (unat (mm_magic t))" "ldn 4 m (padd p 4) = Some (unat (mm_version t))"
    "ldn 8 m (padd p 8) = Some (unat (mm_address t))"
    using ldn_piece [OF ld, of 0 4] ldn_piece [OF ld, of 4 4] ldn_piece [OF ld, of 8 8] by (simp_all add: meta_bytes_def)
  moreover obtain d0 d1 where "mm_dbs t = [d0, d1]"
    using two by (auto simp: length_Suc_conv numeral_2_eq_2)
  ultimately show ?thesis using T
    by (cases t) (simp add: load_meta_def)
qed

text \<open>The rest is rewritten, the first 16 bytes are not.\<close>

lemma load_meta_rewritten:
  assumes old: "load_meta m p = Some t" and tail: "load m' (padd p 16) 120 = Some (meta_tail_bytes n)"
    and head: "load m' p 16 = load m p 16" and two: "length (mm_dbs n) = 2"
  shows "load_meta m' p = Some (n\<lparr>mm_magic := mm_magic t, mm_version := mm_version t, mm_address := mm_address t,
    mm_dbs := map cut_flags (mm_dbs n)\<rparr>)"
proof -
  note T = load_meta_tail [OF tail]
  have "valid m p 16" using old by (auto simp: load_meta_def valid_def bind_eq_Some_conv dest!: ld_Some_valid)
  then obtain bs where bs: "load m p 16 = Some bs" using load_valid by blast
  then have bs': "load m' p 16 = Some bs" using head by simp
  have "ldn 4 m' p = ldn 4 m p" "ldn 4 m' (padd p 4) = ldn 4 m (padd p 4)" "ldn 8 m' (padd p 8) = ldn 8 m (padd p 8)"
    using ldn_piece [OF bs, of 0 4] ldn_piece [OF bs', of 0 4] ldn_piece [OF bs, of 4 4] ldn_piece [OF bs', of 4 4]
      ldn_piece [OF bs, of 8 8] ldn_piece [OF bs', of 8 8] by simp_all
  moreover obtain d0 d1 where "mm_dbs n = [d0, d1]"
    using two by (auto simp: length_Suc_conv numeral_2_eq_2)
  ultimately show ?thesis using T old
    by (cases n) (auto simp: load_meta_def bind_eq_Some_conv)
qed

section \<open>Writing a record\<close>

text \<open>Stores one after another are one store, so both ways of writing are.\<close>

lemma store_append:
  "do { m1 \<leftarrow> store m p xs; store m1 (padd p (length xs)) ys } = store m p (xs @ ys)"
proof (cases "m (p_blk p)")
  case None
  then show ?thesis by (simp add: store_def)
next
  case (Some bs)
  show ?thesis
  proof (cases "p_off p + length xs \<le> length bs")
    case False
    then show ?thesis using Some by (simp add: store_def)
  next
    case True
    then have "take (p_off p + length xs) (take (p_off p) bs @ xs @ drop (p_off p + length xs) bs) = take (p_off p) bs @ xs"
      by simp
    then show ?thesis using Some True by (simp add: store_def ac_simps min_absorb2)
  qed
qed

lemma write_meta_map_store:
  "write_meta_map m p ms d0 d1 lp tx =
     store m (padd p 16) (le_bytes 8 (unat ms) @ db_bytes d0 @ db_bytes d1 @ le_bytes 8 (unat lp) @ le_bytes 8 (unat tx))"
  by (simp add: write_meta_map_def stn_def store_db_def store_append [symmetric])

text \<open>Room for both pages, and a store into the tail of one record.\<close>

abbreviation (input) meta_room :: "world \<Rightarrow> bool" where
  "meta_room w \<equiv> PAGEHDRSZ + META_SIZE \<le> me_psize (w_env w)"

lemma load_meta_frame:
  assumes "\<And>a k. a + k \<le> META_SIZE \<Longrightarrow> ldn k m' (padd q a) = ldn k m (padd q a)"
  shows "load_meta m' q = load_meta m q"
proof -
  have "load_db m' (padd q b) = load_db m (padd q b)" if "b + 48 \<le> META_SIZE" for b
    using assms that assms [of b 4] by (simp add: load_db_def)
  then show ?thesis using assms [of 0 4] assms by (simp add: load_meta_def)
qed

lemma other_meta_kept:
  assumes "store (w_mem w) (padd (me_metas w i) META_TAIL) ys = Some m'" "length ys \<le> 120" "i < 2" "meta_room w"
    and "w_mem w' = m'" "me_psize (w_env w') = me_psize (w_env w)"
  shows "get_meta w' (1 - i) = get_meta w (1 - i)"
proof -
  have "load_meta m' (me_metas w (1 - i)) = load_meta (w_mem w) (me_metas w (1 - i))"
  proof (rule load_meta_frame)
    fix a k :: nat assume "a + k \<le> META_SIZE"
    then show "ldn k m' (padd (me_metas w (1 - i)) a) = ldn k (w_mem w) (padd (me_metas w (1 - i)) a)"
      using assms(2-4) less_2_cases [OF assms(3)]
      by (intro upd_only_ldn [OF store_upd_only [OF assms(1)]]) (auto simp: apart_def outside_def me_metas_def padd_def)
  qed
  then show ?thesis using assms(5,6) by (simp add: get_meta_def me_metas_def)
qed

lemma meta_rewritten:
  assumes "store (w_mem w) (padd (me_metas w i) META_TAIL) (meta_tail_bytes n) = Some m'"
    and "get_meta w i = Some t" "length (mm_dbs n) = 2"
    and "w_mem w' = m'" "me_psize (w_env w') = me_psize (w_env w)"
  shows "get_meta w' i = Some (n\<lparr>mm_magic := mm_magic t, mm_version := mm_version t, mm_address := mm_address t,
    mm_dbs := map cut_flags (mm_dbs n)\<rparr>)"
proof -
  have "load m' (me_metas w i) 16 = load (w_mem w) (me_metas w i) 16"
    by (intro upd_only_load [OF store_upd_only [OF assms(1)]]) simp
  with load_meta_rewritten [of "w_mem w" "me_metas w i" t m' n] load_store_same [OF assms(1)] assms(2-5)
  show ?thesis by (simp add: get_meta_def me_metas_def)
qed

lemma get_meta_valid: "get_meta w i = Some t \<Longrightarrow> valid (w_mem w) (me_metas w i) META_SIZE"
proof -
  assume "get_meta w i = Some t"
  then have "valid (w_mem w) (padd (me_metas w i) 128) 8"
    by (auto simp: get_meta_def load_meta_def bind_eq_Some_conv dest!: ld_Some_valid)
  then show ?thesis by (auto simp: valid_def)
qed

lemma store_tail_ok:
  assumes "get_meta w i = Some t" "length ys \<le> 120"
  shows "\<exists>m'. store (w_mem w) (padd (me_metas w i) META_TAIL) ys = Some m'"
  using load_padd_valid [OF get_meta_valid [OF assms(1)], of 16 "length ys"] assms(2) by (intro store_ok) simp

lemma any_set_or [simp]: "any_set (f OR g) h \<longleftrightarrow> any_set f h \<or> any_set g h"
  by (simp add: any_set_def bit.conj_disj_distrib2 or_eq_0_iff)

section \<open>Commit\<close>

text \<open>The record a transaction writes over \<open>old\<close>, where \<open>other\<close> is the other page's.\<close>

definition new_meta :: "MDB_env \<Rightarrow> MDB_txn \<Rightarrow> MDB_meta \<Rightarrow> MDB_meta \<Rightarrow> MDB_meta" where
  "new_meta env x old other = old\<lparr>mm_mapsize := max (mm_mapsize other) (of_nat (me_mapsize env)),
     mm_dbs := [mt_dbs x ! FREE_DBI, mt_dbs x ! MAIN_DBI], mm_last_pg := mt_next_pgno x - 1, mm_txnid := mt_txnid x\<rparr>"

lemma toggle_less: "unat (x AND 1 :: u64) < 2"
  using word_and_le1 [of x 1] by (simp add: word_le_nat_alt)

lemma new_meta_dbs [simp]:
  "length (mm_dbs (new_meta e x old other)) = 2"
  "2 \<le> length (mt_dbs x) \<Longrightarrow> mm_dbs (new_meta e x old other) = take 2 (mt_dbs x)"
  by (auto simp: new_meta_def numeral_2_eq_2 Suc_le_length_iff)

text \<open>
  What a page reads as afterwards: the written record has the heads of the old one, and flags of 16
  bits.
\<close>

definition written_meta :: "MDB_env \<Rightarrow> MDB_txn \<Rightarrow> MDB_meta \<Rightarrow> MDB_meta \<Rightarrow> MDB_meta" where
  "written_meta env x old other = (let n = new_meta env x old other in n\<lparr>mm_dbs := map cut_flags (mm_dbs n)\<rparr>)"

lemma new_meta_head [simp]:
  "mm_magic (new_meta e x old other) = mm_magic old" "mm_version (new_meta e x old other) = mm_version old"
  "mm_address (new_meta e x old other) = mm_address old"
  by (simp_all add: new_meta_def)

lemma write_meta_stored:
  assumes "store (w_mem w) (padd (me_metas w i) META_TAIL) (meta_tail_bytes (new_meta e x old other)) = Some m'"
    and "get_meta w i = Some old"
    and "w_mem w' = m'" "me_psize (w_env w') = me_psize (w_env w)"
  shows "get_meta w' i = Some (written_meta e x old other)"
  using meta_rewritten [OF assms(1,2) new_meta_dbs(1) assms(3,4)]
  by (cases "new_meta e x old other") (use new_meta_head [of e x old other] in \<open>simp add: written_meta_def Let_def\<close>)

lemmas write_meta_defs = mdb_env_write_meta_def write_meta_done_def write_meta_fail_def upd_env_def Let_def

lemma meta_tail_new:
  "meta_tail_bytes (new_meta e x old other) =
     le_bytes 8 (unat (max (mm_mapsize other) (of_nat (me_mapsize e)))) @ db_bytes (mt_dbs x ! FREE_DBI) @ db_bytes (mt_dbs x ! MAIN_DBI) @
     le_bytes 8 (unat (mt_next_pgno x - 1)) @ le_bytes 8 (unat (mt_txnid x))"
  by (simp add: meta_tail_bytes_def new_meta_def)

lemma pwrite_map_outcome:
  assumes "valid (w_mem w) p (length bs)"
  obtains rc w' ys where "pwrite_map w p bs = Some (rc, w')" "store (w_mem w) p ys = Some (w_mem w')" "length ys \<le> length bs"
    "rc = 0 \<Longrightarrow> ys = bs" "rc = 0 \<longleftrightarrow> w_io w (w_ios w) = 0" "w_env w' = w_env w" "w_io w' = w_io w"
    "w_ios w' = (if rc = 0 then w_ios w + 1 else w_ios w + 2)"
proof (cases "w_io w (w_ios w) = 0")
  case True
  obtain m' where "store (w_mem w) p bs = Some m'" using store_ok [OF assms] by blast
  then show thesis using True
    by (intro that [of 0 "w\<lparr>w_ios := w_ios w + 1, w_mem := m'\<rparr>" bs]) (auto simp: pwrite_map_def syscall_def mem_do_def Let_def)
next
  case False
  let ?ys = "take (nat (w_io w (w_ios w + 1))) bs"
  have "valid (w_mem w) p (length ?ys)" using assms by (auto simp: valid_def)
  then obtain m' where "store (w_mem w) p ?ys = Some m'" using store_ok by blast
  then show thesis using False
    by (intro that [of "if 0 < w_io w (w_ios w) then w_io w (w_ios w) else EIO" "w\<lparr>w_ios := w_ios w + 2, w_mem := m'\<rparr>" ?ys])
      (auto simp: pwrite_map_def syscall_def mem_do_def Let_def split: if_splits)
qed

text \<open>The two ways of writing, and what each outcome leaves.\<close>

lemma write_meta_outcome:
  assumes x: "w_txns w t = Some x" and two: "2 \<le> length (mt_dbs x)" and room: "meta_room w"
    and tg: "tg = unat (mt_txnid x AND 1)"
    and old: "get_meta w tg = Some old" and other: "get_meta w (1 - tg) = Some oth"
  shows "\<exists>rc w'. mdb_env_write_meta w t = Some (rc, w') \<and> get_meta w' (1 - tg) = Some oth \<and>
    (rc = 0 \<longrightarrow> get_meta w' tg = Some (written_meta (w_env w) x old oth) \<and> me_flags (w_env w') = me_flags (w_env w) \<and>
       me_txns (w_env w') = map_option (\<lambda>ti. ti\<lparr>mti_txnid := mt_txnid x\<rparr>) (me_txns (w_env w))) \<and>
    (rc \<noteq> 0 \<longrightarrow> me_flags (w_env w') = me_flags (w_env w) OR MDB_FATAL_ERROR)"
proof -
  have tg2: "tg < 2" using toggle_less tg by simp
  let ?n = "new_meta (w_env w) x old oth"
  have dbs: "rd (mt_dbs x) FREE_DBI = Some (mt_dbs x ! FREE_DBI)" "rd (mt_dbs x) MAIN_DBI = Some (mt_dbs x ! MAIN_DBI)"
    using two by (auto simp: rd_def)
  obtain m' where m': "store (w_mem w) (padd (me_metas w tg) META_TAIL) (meta_tail_bytes ?n) = Some m'"
    using store_tail_ok [OF old, of "meta_tail_bytes ?n"] by auto
  have kept: "get_meta w' (1 - tg) = Some oth"
    if "store (w_mem w) (padd (me_metas w tg) META_TAIL) ys = Some (w_mem w')" "length ys \<le> 120"
      "me_psize (w_env w') = me_psize (w_env w)" for w' ys
    using other_meta_kept [OF that(1,2) tg2 room refl that(3)] other by simp
  have new: "get_meta w' tg = Some (written_meta (w_env w) x old oth)"
    if "w_mem w' = m'" "me_psize (w_env w') = me_psize (w_env w)" for w'
    by (rule write_meta_stored [OF m' old that])
  show ?thesis
  proof (cases "any_set (mt_flags x OR me_flags (w_env w)) MDB_WRITEMAP")
    case True
    have "write_meta_map (w_mem w) (me_metas w tg) (max (mm_mapsize oth) (of_nat (me_mapsize (w_env w)))) (mt_dbs x ! FREE_DBI)
        (mt_dbs x ! MAIN_DBI) (mt_next_pgno x - 1) (mt_txnid x) = Some m'"
      using m' by (simp add: write_meta_map_store meta_tail_new)
    then show ?thesis
      using True x old other dbs kept new m'
      by (simp add: write_meta_defs tg [symmetric] mem_do_def syscall_def del: any_set_or)
  next
    case False
    show ?thesis
    proof (cases "w_io w (w_ios w) = 0")
      case io: True
      then show ?thesis
        using False x old other dbs kept new m'
        by (simp add: write_meta_defs tg [symmetric] mem_do_def syscall_def pwrite_map_def new_meta_def del: any_set_or)
    next
      case io: False
      have v: "valid (w_mem w) (padd (me_metas w tg) META_TAIL) 120"
        using load_padd_valid [OF get_meta_valid [OF old], of 16 120] by simp
      obtain rc1 w1 ys1 where w1: "pwrite_map w (padd (me_metas w tg) META_TAIL) (meta_tail_bytes ?n) = Some (rc1, w1)"
          "store (w_mem w) (padd (me_metas w tg) META_TAIL) ys1 = Some (w_mem w1)" "length ys1 \<le> 120"
          "rc1 \<noteq> 0" "w_env w1 = w_env w"
        using pwrite_map_outcome [of w "padd (me_metas w tg) META_TAIL" "meta_tail_bytes ?n"] v io by (metis length_meta_tail_bytes)
      let ?b = "?n\<lparr>mm_last_pg := mm_last_pg old, mm_txnid := mm_txnid old\<rparr>"
      have v1: "valid (w_mem w1) (padd (me_metas w tg) META_TAIL) 120" using v store_valid [OF w1(2)] by simp
      obtain rc2 w2 ys2 where w2: "pwrite_map w1 (padd (me_metas w tg) META_TAIL) (meta_tail_bytes ?b) = Some (rc2, w2)"
          "store (w_mem w1) (padd (me_metas w tg) META_TAIL) ys2 = Some (w_mem w2)" "length ys2 \<le> 120"
          "w_env w2 = w_env w1"
        using pwrite_map_outcome [of w1 "padd (me_metas w tg) META_TAIL" "meta_tail_bytes ?b"] v1 by (metis length_meta_tail_bytes)
      have run: "mdb_env_write_meta w t = Some (write_meta_fail w2 rc1)"
        using False x old other dbs w1 w2
        by (simp add: mdb_env_write_meta_def Let_def tg [symmetric] new_meta_def del: any_set_or)
      have k1: "get_meta w1 (1 - tg) = Some oth" using kept [OF w1(2,3)] w1(5) by simp
      have "get_meta w' (1 - tg) = Some oth" if "w_mem w' = w_mem w2" "me_psize (w_env w') = me_psize (w_env w)" for w'
        using other_meta_kept [of w1 tg ys2 "w_mem w2" w'] w1(5) w2(2,3) tg2 room k1 that by (simp add: me_metas_def)
      then show ?thesis using run w1(4,5) w2(4) by (simp add: write_meta_fail_def upd_env_def)
    qed
  qed
qed

lemma load_meta_ok: "valid m p META_SIZE \<Longrightarrow> \<exists>t. load_meta m p = Some t"
proof -
  assume v: "valid m p META_SIZE"
  have ld: "\<exists>v. ldn k m (padd p a) = Some v" if "a + k \<le> META_SIZE" for a k
    using ld_ok [OF load_padd_valid [OF v that]] by blast
  have "\<exists>d. load_db m (padd p a) = Some d" if a: "a + 48 \<le> META_SIZE" for a
    using ld [of a 4] ld [of "a + 4" 2] ld [of "a + 6" 2] ld [of "a + 8" 8] ld [of "a + 16" 8] ld [of "a + 24" 8]
      ld [of "a + 32" 8] ld [of "a + 40" 8] a by (auto simp: load_db_def)
  from this [of 24] this [of 72] show ?thesis
    using ld [of 0 4] ld [of 4 4] ld [of 8 8] ld [of 16 8] ld [of 120 8] ld [of 128 8] by (auto simp: load_meta_def)
qed

text \<open>A failed write, and a write-back that works: page and snapshot are the old ones.\<close>

lemma write_meta_written_back:
  assumes x: "w_txns w t = Some x" and two: "2 \<le> length (mt_dbs x)" and room: "meta_room w"
    and tg: "tg = unat (mt_txnid x AND 1)"
    and old: "get_meta w tg = Some old" and other: "get_meta w (1 - tg) = Some oth"
    and sync: "\<not> any_set (mt_flags x OR me_flags (w_env w)) MDB_WRITEMAP"
    and io: "w_io w (w_ios w) \<noteq> 0" "w_io w (w_ios w + 2) = 0"
  shows "\<exists>rc w' m. mdb_env_write_meta w t = Some (rc, w') \<and> rc \<noteq> 0 \<and> get_meta w' (1 - tg) = Some oth \<and>
    get_meta w' tg = Some m \<and> mm_txnid m = mm_txnid old \<and> mm_last_pg m = mm_last_pg old \<and>
    me_flags (w_env w') = me_flags (w_env w) OR MDB_FATAL_ERROR"
proof -
  let ?n = "new_meta (w_env w) x old oth" and ?p = "padd (me_metas w tg) META_TAIL"
  let ?b = "?n\<lparr>mm_last_pg := mm_last_pg old, mm_txnid := mm_txnid old\<rparr>"
  have tg2: "tg < 2" using toggle_less tg by simp
  have dbs: "rd (mt_dbs x) FREE_DBI = Some (mt_dbs x ! FREE_DBI)" "rd (mt_dbs x) MAIN_DBI = Some (mt_dbs x ! MAIN_DBI)"
    using two by (auto simp: rd_def)
  have v: "valid (w_mem w) ?p 120" using load_padd_valid [OF get_meta_valid [OF old], of 16 120] by simp
  obtain rc1 w1 ys1 where w1: "pwrite_map w ?p (meta_tail_bytes ?n) = Some (rc1, w1)" "store (w_mem w) ?p ys1 = Some (w_mem w1)"
      "length ys1 \<le> 120" "rc1 \<noteq> 0" "w_env w1 = w_env w" "w_io w1 = w_io w" "w_ios w1 = w_ios w + 2"
    using pwrite_map_outcome [of w ?p "meta_tail_bytes ?n"] v io(1) by (metis length_meta_tail_bytes)
  have v1: "valid (w_mem w1) ?p 120" using v store_valid [OF w1(2)] by simp
  obtain w2 where w2: "pwrite_map w1 ?p (meta_tail_bytes ?b) = Some (0, w2)" "store (w_mem w1) ?p (meta_tail_bytes ?b) = Some (w_mem w2)"
      "w_env w2 = w_env w1"
    using pwrite_map_outcome [of w1 ?p "meta_tail_bytes ?b"] v1 io(2) w1(6,7) by (metis length_meta_tail_bytes)
  have run: "mdb_env_write_meta w t = Some (write_meta_fail w2 rc1)"
    using sync x old other dbs w1 w2 by (simp add: mdb_env_write_meta_def Let_def tg [symmetric] new_meta_def del: any_set_or)
  have me: "me_metas w1 tg = me_metas w tg" using w1(5) by (simp add: me_metas_def)
  have "get_meta w1 (1 - tg) = Some oth"
    using other_meta_kept [OF w1(2,3) tg2 room refl] w1(5) other by simp
  then have k2: "get_meta w' (1 - tg) = Some oth" if "w_mem w' = w_mem w2" "me_psize (w_env w') = me_psize (w_env w1)" for w'
    using other_meta_kept [of w1 tg "meta_tail_bytes ?b" "w_mem w2" w'] w2(2) me room w1(5) tg2 that by simp
  have "valid (w_mem w1) (me_metas w1 tg) META_SIZE" using get_meta_valid [OF old] store_valid [OF w1(2)] me by simp
  then obtain t1 where t1: "get_meta w1 tg = Some t1" using load_meta_ok by (auto simp: get_meta_def)
  have "get_meta w' tg = Some (?b\<lparr>mm_magic := mm_magic t1, mm_version := mm_version t1, mm_address := mm_address t1,
      mm_dbs := map cut_flags (mm_dbs ?b)\<rparr>)" if "w_mem w' = w_mem w2" "me_psize (w_env w') = me_psize (w_env w1)" for w'
    using meta_rewritten [of w1 tg ?b "w_mem w2" t1 w'] w2(2) me t1 that by simp
  then show ?thesis using run w1(4,5) w2(3) k2 by (simp add: write_meta_fail_def upd_env_def)
qed

lemma pick_newer:
  assumes "get_meta w i = Some a" "get_meta w (1 - i) = Some b" "i < 2" "mm_txnid b < mm_txnid a"
    and "\<not> any_set (me_flags (w_env w)) MDB_PREVSNAPSHOT"
  shows "mdb_env_pick_meta w = Some i" "picked_meta w = Some a"
  using assms less_2_cases [OF assms(3)] by (auto simp: mdb_env_pick_meta_def picked_meta_def)

section \<open>The pages of a new file\<close>

lemma take_meta_page:
  assumes "PAGEHDRSZ + META_SIZE \<le> psize"
  shows "take (PAGEHDRSZ + META_SIZE) (meta_page psize pgno t @ rest) =
    le_bytes 8 pgno @ le_bytes 2 0 @ le_bytes 2 (unat P_META) @ le_bytes 4 0 @ meta_bytes t"
  by (simp add: meta_page_def)

lemma length_meta_page [simp]: "PAGEHDRSZ + META_SIZE \<le> psize \<Longrightarrow> length (meta_page psize pgno t) = psize"
  by (simp add: meta_page_def)

lemma check_meta_page:
  assumes "mm_magic t = MDB_MAGIC" "mm_version t = MDB_DATA_VERSION" "length (mm_dbs t) = 2"
  shows "check_metabuf (le_bytes 8 pgno @ le_bytes 2 0 @ le_bytes 2 (unat P_META) @ le_bytes 4 0 @ meta_bytes t) =
    Some (0, t\<lparr>mm_dbs := map cut_flags (mm_dbs t)\<rparr>)"
proof -
  let ?bs = "le_bytes 8 pgno @ le_bytes 2 0 @ le_bytes 2 (unat P_META) @ le_bytes 4 0 @ meta_bytes t"
  let ?m = "(\<lambda>_. None)(Map \<mapsto> ?bs) :: mem"
  have "load ?m (METADATA (Ptr Map 0)) META_SIZE = Some (meta_bytes t)"
    by (simp add: load_def METADATA_def)
  then have "load_meta ?m (METADATA (Ptr Map 0)) = Some (t\<lparr>mm_dbs := map cut_flags (mm_dbs t)\<rparr>)"
    using assms(3) by (rule load_meta_bytes)
  moreover have "mp_flags ?m (Ptr Map 0) = Some P_META"
    by (simp add: mp_flags_def ldn_def load_def)
  ultimately show ?thesis using assms by (simp add: check_metabuf_def F_ISSET_def Let_def)
qed

lemma cut_flags_init [simp]: "map cut_flags (mm_dbs (mdb_env_init_meta0 env)) = mm_dbs (mdb_env_init_meta0 env)"
proof -
  have "me_flags env AND 0xffff = take_bit 16 (me_flags env)"
    by (simp add: take_bit_eq_mask mask_eq_exp_minus_1)
  then have "take_bit 16 (me_flags env AND 0xffff OR MDB_INTEGERKEY) = me_flags env AND 0xffff OR MDB_INTEGERKEY"
    by (simp add: take_bit_or)
  then show ?thesis by (simp add: mdb_env_init_meta0_def cut_flags_def blank_db_def)
qed

lemma read_metabuf_page:
  assumes "w_mem w Map = Some (pre @ meta_page psize pgno t @ rest)" "length pre = off" "w_io w (w_ios w) \<le> 0"
    and "PAGEHDRSZ + META_SIZE \<le> psize"
  shows "read_metabuf w off = ((0, le_bytes 8 pgno @ le_bytes 2 0 @ le_bytes 2 (unat P_META) @ le_bytes 4 0 @ meta_bytes t),
    snd (syscall w))"
  using assms take_meta_page [OF assms(4), of pgno t rest] by (simp add: read_metabuf_def syscall_def Let_def)

lemma init_then_read:
  assumes psz: "meta_room w" "me_psize (w_env w) < 2 ^ 32"
    and init: "mdb_env_init_meta w (mdb_env_init_meta0 (w_env w)) = (0, w')"
    and io: "w_io w' (w_ios w') \<le> 0" "w_io w' (w_ios w' + 1) \<le> 0"
  shows "\<exists>w''. mdb_env_read_header w' prev any = Some (0, mdb_env_init_meta0 (w_env w), w'')"
proof -
  let ?t = "mdb_env_init_meta0 (w_env w)" and ?psize = "me_psize (w_env w)"
  obtain rest where map: "w_mem w' Map = Some (meta_page ?psize 0 ?t @ meta_page ?psize 1 ?t @ rest)"
    using init by (auto simp: mdb_env_init_meta_def syscall_def tick_def file_write_def Let_def split: if_splits option.splits)
  have ps: "unat (mm_psize ?t) = ?psize"
    using psz(2) by (simp add: mm_psize_def mdb_env_init_meta0_def blank_db_def unat_of_nat_small)
  have chk: "check_metabuf (le_bytes 8 pgno @ le_bytes 2 0 @ le_bytes 2 (unat P_META) @ le_bytes 4 0 @ meta_bytes ?t) = Some (0, ?t)" for pgno
    using check_meta_page [of ?t pgno] cut_flags_init [of "w_env w"] by (simp add: mdb_env_init_meta0_def)
  define w1 where "w1 = snd (syscall w')"
  have r0: "read_metabuf w' 0 = ((0, le_bytes 8 0 @ le_bytes 2 0 @ le_bytes 2 (unat P_META) @ le_bytes 4 0 @ meta_bytes ?t), w1)"
    unfolding w1_def by (rule read_metabuf_page [where pre = "[]" and psize = ?psize]) (use map io psz in auto)
  have r1: "read_metabuf w1 ?psize = ((0, le_bytes 8 1 @ le_bytes 2 0 @ le_bytes 2 (unat P_META) @ le_bytes 4 0 @ meta_bytes ?t),
      snd (syscall w1))"
    by (rule read_metabuf_page [where pre = "meta_page ?psize 0 ?t" and psize = ?psize and rest = rest])
      (use map io psz in \<open>auto simp: w1_def syscall_def\<close>)
  show ?thesis
    using r0 r1 chk ps by (simp add: mdb_env_read_header_def eval_nat_numeral Let_def del: le_bytes.simps)
qed

end
