(* ===== verification/Readers_Spec.thy ===== *)
theory Readers_Spec
  imports Readers
begin

text \<open>
  What the reader table promises: the list of process ids stays a sorted set, and clearing stale
  readers takes nothing from the process itself.
\<close>

section \<open>The list of process ids\<close>

lemma pid_search_correct:
  assumes "base + n \<le> N"
    and "\<And>i. 1 \<le> i \<Longrightarrow> i \<le> base \<Longrightarrow> 0 < f i"
    and "\<And>i. base + n < i \<Longrightarrow> i \<le> N \<Longrightarrow> f i < 0"
    and "n = 0 \<Longrightarrow> (0 < v \<and> cursor = base) \<or> (\<not> 0 < v \<and> cursor = base + 1)"
    and cmp: "\<And>c. 1 \<le> c \<Longrightarrow> c \<le> N \<Longrightarrow> cmp c = Some (f c)"
    and anti: "\<And>i j. 1 \<le> i \<Longrightarrow> i < j \<Longrightarrow> j \<le> N \<Longrightarrow> f j < f i"
  shows "\<exists>found r. pid_search cmp base cursor v n = Some (found, r) \<and> 1 \<le> r \<and> r \<le> N + 1 \<and>
    (if found then r \<le> N \<and> f r = 0
     else (\<forall>i. 1 \<le> i \<longrightarrow> i < r \<longrightarrow> 0 < f i) \<and> (\<forall>i. r \<le> i \<longrightarrow> i \<le> N \<longrightarrow> f i < 0))"
  using assms
proof (induction cmp base cursor v n rule: pid_search.induct)
  case (1 cmp base cursor v n)
  let ?R = "\<lambda>x. \<exists>found r. x = Some (found, r) \<and> 1 \<le> r \<and> r \<le> N + 1 \<and>
    (if found then r \<le> N \<and> f r = 0
     else (\<forall>i. 1 \<le> i \<longrightarrow> i < r \<longrightarrow> 0 < f i) \<and> (\<forall>i. r \<le> i \<longrightarrow> i \<le> N \<longrightarrow> f i < 0))"
  show ?case
  proof (cases "0 < n")
    case False
    then show ?thesis
      using "1.prems" by (subst pid_search.simps) auto
  next
    case True
    define c where "c = base + n div 2 + 1"
    have c: "1 \<le> c" "c \<le> base + n" "c \<le> N" "base < c"
      using True "1.prems"(1) unfolding c_def by auto
    have cmpc: "cmp c = Some (f c)" using "1.prems"(5) c by simp
    have unfold: "pid_search cmp base cursor v n =
        (if f c < 0 then pid_search cmp base c (f c) (n div 2)
         else if f c > 0 then pid_search cmp c c (f c) (n - (n div 2 + 1))
         else Some (True, c))"
      using True cmpc by (subst pid_search.simps) (simp add: Let_def c_def)
    consider "f c < 0" | "f c > 0" | "f c = 0" by linarith
    then show ?thesis
    proof cases
      case lt: 1
      have up: "f i < 0" if "c \<le> i" "i \<le> N" for i
        using that "1.prems"(6) [of c i] c lt by (cases "i = c") auto
      have "?R (pid_search cmp base c (f c) (n div 2))"
      proof (rule "1.IH"(1) [OF True refl c_def cmpc lt])
        show "n div 2 = 0 \<Longrightarrow> (0 < f c \<and> c = base) \<or> (\<not> 0 < f c \<and> c = base + 1)" using lt by (simp add: c_def)
      qed (use up "1.prems" c in \<open>auto simp: c_def\<close>)
      then show ?thesis using unfold lt by simp
    next
      case gt: 2
      have down: "0 < f i" if "1 \<le> i" "i \<le> c" for i
        using that "1.prems"(6) [of i c] c gt by (cases "i = c") auto
      have up: "f i < 0" if "c + (n - (n div 2 + 1)) < i" "i \<le> N" for i
        using that True by (intro "1.prems"(3)) (auto simp: c_def)
      have "c + (n - (n div 2 + 1)) \<le> N"
        using "1.prems"(1) True by (auto simp: c_def)
      moreover have "\<not> f c < 0" using gt by simp
      ultimately have "?R (pid_search cmp c c (f c) (n - (n div 2 + 1)))"
        by (intro "1.IH"(2) [OF True refl c_def cmpc _ gt] disjI1 conjI refl gt down up) (use "1.prems" in auto)
      then show ?thesis using unfold gt by simp
    next
      case 3
      then show ?thesis using unfold c by auto
    qed
  qed
qed

text \<open>Element 0 is the count; the ids ascend.\<close>

definition pid_elems :: "nat list \<Rightarrow> nat list" where
  "pid_elems ids = take (hd ids) (tl ids)"

definition pid_wf :: "nat list \<Rightarrow> bool" where
  "pid_wf ids \<longleftrightarrow> hd ids < length ids \<and> sorted_wrt (<) (pid_elems ids)"

lemma length_pid_elems [simp]: "pid_wf ids \<Longrightarrow> length (pid_elems ids) = hd ids"
  by (auto simp: pid_wf_def pid_elems_def)

lemma pid_elems_nth: "pid_wf ids \<Longrightarrow> i < hd ids \<Longrightarrow> pid_elems ids ! i = ids ! Suc i"
  by (cases ids) (auto simp: pid_wf_def pid_elems_def)

lemma mdb_pid_insert_spec:
  assumes wf: "pid_wf ids" and room: "hd ids + 1 < length ids"
  shows "if pid \<in> set (pid_elems ids) then mdb_pid_insert ids pid = Some (-1, ids)
    else \<exists>ids'. mdb_pid_insert ids pid = Some (0, ids') \<and> pid_wf ids' \<and> length ids' = length ids \<and> hd ids' = hd ids + 1 \<and>
      (\<exists>k. pid_elems ids' = take k (pid_elems ids) @ pid # drop k (pid_elems ids))"
proof -
  let ?n = "hd ids" and ?es = "pid_elems ids"
  let ?f = "\<lambda>c. int pid - int (ids ! c)" and ?cmp = "\<lambda>c. map_option (\<lambda>x. int pid - int x) (rd ids c)"
  have ne: "ids \<noteq> []" using room by auto
  have n0: "rd ids 0 = Some ?n" using ne by (simp add: hd_conv_nth)
  have srt: "ids ! i < ids ! j" if "1 \<le> i" "i < j" "j \<le> ?n" for i j
  proof -
    have "?es ! (i - 1) < ?es ! (j - 1)"
      using wf that by (intro sorted_wrt_nth_less [of "(<)" ?es]) (auto simp: pid_wf_def)
    then show ?thesis using that pid_elems_nth [OF wf, of "i - 1"] pid_elems_nth [OF wf, of "j - 1"] by simp
  qed
  have "\<exists>found r. pid_search ?cmp 0 1 0 ?n = Some (found, r) \<and> 1 \<le> r \<and> r \<le> ?n + 1 \<and>
      (if found then r \<le> ?n \<and> ?f r = 0
       else (\<forall>i. 1 \<le> i \<longrightarrow> i < r \<longrightarrow> 0 < ?f i) \<and> (\<forall>i. r \<le> i \<longrightarrow> i \<le> ?n \<longrightarrow> ?f i < 0))"
    by (rule pid_search_correct) (use room srt in auto)
  then obtain found r where s: "pid_search ?cmp 0 1 0 ?n = Some (found, r)" "1 \<le> r" "r \<le> ?n + 1"
    and f: "found \<Longrightarrow> r \<le> ?n \<and> ids ! r = pid"
    and nf: "\<And>i. \<not> found \<Longrightarrow> 1 \<le> i \<Longrightarrow> i < r \<Longrightarrow> ids ! i < pid" "\<And>i. \<not> found \<Longrightarrow> r \<le> i \<Longrightarrow> i \<le> ?n \<Longrightarrow> pid < ids ! i"
    by (auto split: if_splits)
  have mem: "x \<in> set ?es \<longleftrightarrow> (\<exists>i<?n. x = ids ! Suc i)" for x
    using pid_elems_nth [OF wf] wf by (auto simp: in_set_conv_nth)
  show ?thesis
  proof (cases found)
    case True
    then have "pid \<in> set ?es" using f s(2) by (auto simp: mem intro!: exI [of _ "r - 1"])
    then show ?thesis using True s(1) n0 by (simp add: mdb_pid_insert_def)
  next
    case False
    have "pid \<noteq> ids ! Suc i" if "i < ?n" for i
      using nf(1) [OF False, of "Suc i"] nf(2) [OF False, of "Suc i"] that by (cases "Suc i < r") auto
    then have "pid \<notin> set ?es" by (auto simp: mem)
    moreover have "\<exists>ids'. mdb_pid_insert ids pid = Some (0, ids') \<and> pid_wf ids' \<and> length ids' = length ids \<and> hd ids' = ?n + 1 \<and>
      (\<exists>k. pid_elems ids' = take k ?es @ pid # drop k ?es)"
    proof -
      let ?ids = "ids[0 := ?n + 1]"
      obtain ys where ys: "shift_up ?ids (?n + 1) r = Some ys" "length ys = length ids"
        "\<forall>p. p \<le> r \<or> ?n + 1 < p \<longrightarrow> ys ! p = ?ids ! p" "\<forall>p. r < p \<longrightarrow> p \<le> ?n + 1 \<longrightarrow> ys ! p = ?ids ! (p - 1)"
        using shift_up_spec [of r "?n + 1" ?ids] s(3) room by auto
      let ?zs = "ys[r := pid]"
      have run: "mdb_pid_insert ids pid = Some (0, ?zs)"
        using s False n0 ne ys(1,2) room by (auto simp: mdb_pid_insert_def not_less le_antisym)
      have h: "hd ?zs = ?n + 1" using ys(2,3) s(2) ne by (subst hd_conv_nth) auto
      have es: "pid_elems ?zs = take (r - 1) ?es @ pid # drop (r - 1) ?es"
      proof (rule nth_equalityI)
        show "length (pid_elems ?zs) = length (take (r - 1) ?es @ pid # drop (r - 1) ?es)"
          using h wf s(3) ys(2) room by (simp add: pid_elems_def)
      next
        fix i assume "i < length (pid_elems ?zs)"
        then have i: "i < ?n + 1" using h by (simp add: pid_elems_def)
        then have "pid_elems ?zs ! i = ?zs ! Suc i" using h ys(2) room by (simp add: pid_elems_def nth_tl)
        also have "\<dots> = (take (r - 1) ?es @ pid # drop (r - 1) ?es) ! i"
          using i s(2,3) ys wf room pid_elems_nth [OF wf] by (auto simp: nth_append nth_list_update nth_Cons' not_less)
        finally show "pid_elems ?zs ! i = (take (r - 1) ?es @ pid # drop (r - 1) ?es) ! i" .
      qed
      have "sorted_wrt (<) (take (r - 1) ?es @ pid # drop (r - 1) ?es)"
      proof (rule sorted_wrt_insert_at)
        show "\<forall>a\<in>set (take (r - 1) ?es). a < pid"
          using nf(1) [OF False] wf s(3) pid_elems_nth [OF wf] by (auto simp: in_set_conv_nth)
        show "\<forall>b\<in>set (drop (r - 1) ?es). pid < b"
          using nf(2) [OF False] wf s(2) pid_elems_nth [OF wf] by (auto simp: in_set_conv_nth)
      qed (use wf in \<open>auto simp: pid_wf_def\<close>)
      then have "pid_wf ?zs" using h es ys(2) room by (simp add: pid_wf_def)
      then show ?thesis using run h es ys(2) by auto
    qed
    ultimately show ?thesis by simp
  qed
qed

section \<open>Clearing stale readers\<close>

text \<open>
  \<open>clears me mr mr' k\<close>: \<open>mr'\<close> is \<open>mr\<close> after \<open>k\<close> steps, each of which frees one slot
  that some process other than \<open>me\<close> holds.
\<close>

inductive clears :: "nat \<Rightarrow> MDB_reader list \<Rightarrow> MDB_reader list \<Rightarrow> nat \<Rightarrow> bool" for me where
  none: "clears me mr mr 0"
| one: "clears me mr mr' k \<Longrightarrow> j < length mr' \<Longrightarrow> mr_pid (mr' ! j) \<noteq> 0 \<Longrightarrow> mr_pid (mr' ! j) \<noteq> me \<Longrightarrow>
     clears me mr (mr'[j := (mr' ! j)\<lparr>mr_pid := 0\<rparr>]) (Suc k)"

lemma clears_frame:
  "clears me mr mr' k \<Longrightarrow> length mr' = length mr \<and> (\<forall>j<length mr. mr' ! j = mr ! j \<or>
     (mr_pid (mr ! j) \<noteq> 0 \<and> mr_pid (mr ! j) \<noteq> me \<and> mr' ! j = (mr ! j)\<lparr>mr_pid := 0\<rparr>))"
  by (induction rule: clears.induct) (auto simp: nth_list_update)

lemma clears_number:
  "clears me mr mr' k \<Longrightarrow> k = card {j. j < length mr \<and> mr_pid (mr ! j) \<noteq> 0 \<and> mr_pid (mr' ! j) = 0}"
proof (induction rule: clears.induct)
  case (none mr)
  then show ?case by auto
next
  case (one mr mr' k j)
  let ?C = "\<lambda>ms. {i. i < length mr \<and> mr_pid (mr ! i) \<noteq> 0 \<and> mr_pid (ms ! i) = 0}"
  have "j < length mr" "mr_pid (mr ! j) \<noteq> 0" using clears_frame [OF one.hyps(1)] one.hyps(2,3) by auto
  then have "?C (mr'[j := (mr' ! j)\<lparr>mr_pid := 0\<rparr>]) = insert j (?C mr')" "j \<notin> ?C mr'"
    using clears_frame [OF one.hyps(1)] one.hyps(2,3) by (auto simp: nth_list_update)
  then show ?case using one.IH by simp
qed

lemma clear_pid_spec:
  assumes "j + n \<le> length mr'" "clears me mr mr' cnt" "pid \<noteq> 0" "pid \<noteq> me"
  shows "\<exists>ms k. clear_pid mr' pid n j cnt = Some (ms, k) \<and> clears me mr ms k \<and> length ms = length mr' \<and>
    (\<forall>i<length mr'. ms ! i = (if j \<le> i \<and> i < j + n \<and> mr_pid (mr' ! i) = pid then (mr' ! i)\<lparr>mr_pid := 0\<rparr> else mr' ! i))"
  using assms
proof (induction n arbitrary: j mr' cnt)
  case 0
  then show ?case by auto
next
  case (Suc n)
  define m c where "m = (if mr_pid (mr' ! j) = pid then mr'[j := (mr' ! j)\<lparr>mr_pid := 0\<rparr>] else mr')"
    and "c = (if mr_pid (mr' ! j) = pid then cnt + 1 else cnt)"
  have len: "length m = length mr'" by (simp add: m_def)
  have "clears me mr m c" using Suc.prems clears.one [OF Suc.prems(2), of j] by (auto simp: m_def c_def)
  then obtain ms k where ms: "clear_pid m pid n (j + 1) c = Some (ms, k)" "clears me mr ms k" "length ms = length mr'"
    "\<forall>i<length mr'. ms ! i = (if j + 1 \<le> i \<and> i < j + 1 + n \<and> mr_pid (m ! i) = pid then (m ! i)\<lparr>mr_pid := 0\<rparr> else m ! i)"
    using Suc.IH [of "j + 1" m c] Suc.prems(1,3,4) len by auto
  have "clear_pid mr' pid (Suc n) j cnt = Some (ms, k)" using ms(1) Suc.prems(1)
    by (cases "mr_pid (mr' ! j) = pid") (simp_all add: m_def c_def)
  then show ?case using ms(2-4) Suc.prems(1,3) by (auto simp: m_def nth_list_update)
qed

section \<open>The loop over the slots\<close>

text \<open>The world with reader slots \<open>ms\<close> after \<open>x\<close> system calls.\<close>

definition rd_world :: "world \<Rightarrow> MDB_txninfo \<Rightarrow> MDB_reader list \<Rightarrow> nat \<Rightarrow> world" where
  "rd_world w ti ms x = w\<lparr>w_env := (w_env w)\<lparr>me_txns := Some (ti\<lparr>mti_readers := ms\<rparr>)\<rparr>, w_ios := x\<rparr>"

lemma rd_world_simps [simp]:
  "me_txns (w_env (rd_world w ti ms x)) = Some (ti\<lparr>mti_readers := ms\<rparr>)"
  "me_pid (w_env (rd_world w ti ms x)) = me_pid (w_env w)"
  "upd_readers (rd_world w ti ms x) (\<lambda>ti. ti\<lparr>mti_readers := ms'\<rparr>) = rd_world w ti ms' x"
  "mdb_reader_pid (rd_world w ti ms x) = (w_io w x, rd_world w ti ms (x + 1))"
  by (simp_all add: rd_world_def upd_readers_def upd_env_def mdb_reader_pid_def syscall_def)

lemma rd_world_self:
  "me_txns (w_env w) = Some ti \<Longrightarrow> rd_world w ti (mti_readers ti) (w_ios w) = w"
  by (cases w, cases "w_env w", cases ti) (simp add: rd_world_def)

text \<open>What the loop keeps of the id list it has built when it comes to slot \<open>i\<close>.\<close>

definition pids_ok :: "nat list \<Rightarrow> nat \<Rightarrow> nat \<Rightarrow> bool" where
  "pids_ok pids rdrs i \<longleftrightarrow> pid_wf pids \<and> hd pids \<le> i \<and> length pids = rdrs + 1"

lemma pids_ok_insert:
  assumes ok: "pids_ok pids rdrs i" and i: "i < rdrs"
  shows "if pid \<in> set (pid_elems pids) then mdb_pid_insert pids pid = Some (-1, pids)
    else \<exists>pids'. mdb_pid_insert pids pid = Some (0, pids') \<and> pids_ok pids' rdrs (i + 1) \<and>
      set (pid_elems pids') = insert pid (set (pid_elems pids))"
proof -
  have ins: "set (take k es @ pid # drop k es) = insert pid (set es)" for k and es :: "nat list"
    by (metis append_take_drop_id set_append list.simps(15) Un_insert_right)
  have "pid_wf pids" "hd pids + 1 < length pids" using ok i by (auto simp: pids_ok_def)
  from mdb_pid_insert_spec [OF this, of pid] show ?thesis
    using ok ins by (auto simp: pids_ok_def split: if_splits)
qed

lemma check_stale_locked:
  assumes "i \<le> rdrs" "rdrs \<le> length ms" "clears me mr ms k0" "pid \<noteq> 0" "pid \<noteq> me"
  shows "\<exists>ms' k. check_stale failed (rd_world w ti ms x) True pid i rdrs k0 =
      Some (0, False, rdrs, k, rd_world w ti ms' x) \<and> clears me mr ms' k \<and> length ms' = length ms \<and>
    (\<forall>j<length ms. ms' ! j = (if i \<le> j \<and> j < rdrs \<and> mr_pid (ms ! j) = pid then (ms ! j)\<lparr>mr_pid := 0\<rparr> else ms ! j))"
  using clear_pid_spec [of i "rdrs - i" ms me mr k0 pid] assms
  by (fastforce simp: check_stale_def)

text \<open>Slots before \<open>i\<close> and slots of listed processes are free or the caller's.\<close>

definition swept :: "nat \<Rightarrow> nat \<Rightarrow> nat \<Rightarrow> nat list \<Rightarrow> MDB_reader list \<Rightarrow> bool" where
  "swept me rdrs i pids ms \<longleftrightarrow>
     (\<forall>j<rdrs. j < i \<or> mr_pid (ms ! j) \<in> set (pid_elems pids) \<longrightarrow> mr_pid (ms ! j) = 0 \<or> mr_pid (ms ! j) = me)"

lemma swept_skip:
  "swept me rdrs i pids ms \<Longrightarrow> mr_pid (ms ! i) = 0 \<or> mr_pid (ms ! i) = me \<or> mr_pid (ms ! i) \<in> set (pid_elems pids) \<Longrightarrow>
   swept me rdrs (Suc i) pids ms"
  by (auto simp: swept_def less_Suc_eq)

lemma swept_clear:
  assumes "swept me rdrs i pids ms" "rdrs \<le> length ms" "set (pid_elems pids') = insert pid (set (pid_elems pids))"
    and "mr_pid (ms ! i) = pid"
    and "\<forall>j<length ms. ms' ! j = (if i \<le> j \<and> j < rdrs \<and> mr_pid (ms ! j) = pid then (ms ! j)\<lparr>mr_pid := 0\<rparr> else ms ! j)"
  shows "swept me rdrs (Suc i) pids' ms'"
  unfolding swept_def
proof (intro allI impI)
  fix j assume j: "j < rdrs" "j < Suc i \<or> mr_pid (ms' ! j) \<in> set (pid_elems pids')"
  have e: "ms' ! j = (if i \<le> j \<and> mr_pid (ms ! j) = pid then (ms ! j)\<lparr>mr_pid := 0\<rparr> else ms ! j)" 
    using spec [OF assms(5), of j] assms(2) j(1) by simp
  show "mr_pid (ms' ! j) = 0 \<or> mr_pid (ms' ! j) = me"
  proof (cases "i \<le> j \<and> mr_pid (ms ! j) = pid")
    case False
    then have s: "ms' ! j = ms ! j" using e by auto
    have "j < i \<or> mr_pid (ms ! j) \<in> insert pid (set (pid_elems pids)) \<and> mr_pid (ms ! j) \<noteq> pid"
      using False j(2) assms(4) unfolding s assms(3) by (cases "j = i") auto
    then show ?thesis using assms(1) j(1) unfolding s swept_def by blast
  next
    case True
    then show ?thesis using e by simp
  qed
qed

lemma reader_check_loop_locked:
  assumes "n + i = rdrs" "rdrs \<le> length ms" "pids_ok pids rdrs i" "clears (me_pid (w_env w)) mr ms k0"
    and "(\<forall>q. w_io w q = 0) \<longrightarrow> swept (me_pid (w_env w)) rdrs i pids ms"
  shows "\<exists>ms' k x'. reader_check_loop failed (rd_world w ti ms x) True n i rdrs pids 0 k0 = Some (0, k, rd_world w ti ms' x') \<and>
    clears (me_pid (w_env w)) mr ms' k \<and>
    ((\<forall>q. w_io w q = 0) \<longrightarrow> (\<forall>j<rdrs. mr_pid (ms' ! j) = 0 \<or> mr_pid (ms' ! j) = me_pid (w_env w))) \<and>
    ((\<forall>q. w_io w q \<noteq> 0) \<longrightarrow> ms' = ms)"
  using assms
proof (induction n arbitrary: i ms pids k0 x)
  case 0
  then show ?case by (auto simp: swept_def)
next
  case (Suc n)
  let ?me = "me_pid (w_env w)" and ?pid = "mr_pid (ms ! i)"
  let ?L = "reader_check_loop failed (rd_world w ti ms x) True (Suc n) i rdrs pids 0 k0"
  have i: "i < rdrs" "i < length ms" "n + Suc i = rdrs" using Suc.prems(1,2) by auto
  have ok1: "pids_ok pids rdrs (Suc i)" using Suc.prems(3) by (auto simp: pids_ok_def)
  have "?pid = 0 \<or> ?pid = ?me \<or> ?pid \<in> set (pid_elems pids) \<or> ?pid \<noteq> 0 \<and> ?pid \<noteq> ?me \<and> ?pid \<notin> set (pid_elems pids)" by blast
  then consider "?pid = 0 \<or> ?pid = ?me \<or> ?pid \<in> set (pid_elems pids)"
    | pids' where "?pid \<noteq> 0" "?pid \<noteq> ?me" "mdb_pid_insert pids ?pid = Some (0, pids')" "pids_ok pids' rdrs (Suc i)"
      "set (pid_elems pids') = insert ?pid (set (pid_elems pids))"
    using pids_ok_insert [OF Suc.prems(3) i(1), of ?pid] by auto
  then show ?case
  proof cases
    case 1
    then have L: "?L = reader_check_loop failed (rd_world w ti ms x) True n (Suc i) rdrs pids 0 k0"
      using i pids_ok_insert [OF Suc.prems(3) i(1), of ?pid] by (auto simp: Let_def)
    show ?thesis unfolding L by (rule Suc.IH [OF i(3) Suc.prems(2) ok1 Suc.prems(4)]) (use Suc.prems(5) 1 swept_skip in blast)
  next
    case 2
    show ?thesis
    proof (cases "w_io w x = 0")
      case False
      then have L: "?L = reader_check_loop failed (rd_world w ti ms (x + 1)) True n (Suc i) rdrs pids' 0 k0"
        using i 2 by (simp add: Let_def)
      show ?thesis unfolding L by (rule Suc.IH [OF i(3) Suc.prems(2) 2(4) Suc.prems(4)]) (use False in blast)
    next
      case True
      obtain ms' k where st: "check_stale failed (rd_world w ti ms (x + 1)) True ?pid i rdrs k0 =
          Some (0, False, rdrs, k, rd_world w ti ms' (x + 1))" "clears ?me mr ms' k" "length ms' = length ms"
        and ms': "\<forall>j<length ms. ms' ! j = (if i \<le> j \<and> j < rdrs \<and> mr_pid (ms ! j) = ?pid then (ms ! j)\<lparr>mr_pid := 0\<rparr> else ms ! j)"
        using check_stale_locked [of i rdrs ms ?me mr k0 ?pid failed w ti "x + 1"] Suc.prems(2,4) i 2 by auto
      have L: "?L = reader_check_loop failed (rd_world w ti ms' (x + 1)) True n (Suc i) rdrs pids' 0 k"
        using i 2 st True by (simp add: Let_def)
      have "rdrs \<le> length ms'" using st(3) Suc.prems(2) by simp
      from Suc.IH [OF i(3) this 2(4) st(2), of "x + 1"] swept_clear [OF _ Suc.prems(2) 2(5) refl ms'] Suc.prems(5) True
      show ?thesis unfolding L by blast
    qed
  qed
qed

lemma reader_check_locked:
  assumes "me_txns (w_env w) = Some ti" "mti_numreaders ti \<le> length (mti_readers ti)" "w_malloc w (w_calls w) \<noteq> None"
  shows "\<exists>ms k x'. mdb_reader_check0 w True = Some (0, Some k, rd_world (tick w) ti ms x') \<and>
    clears (me_pid (w_env w)) (mti_readers ti) ms k \<and>
    ((\<forall>q. w_io w q = 0) \<longrightarrow> (\<forall>j<mti_numreaders ti. mr_pid (ms ! j) = 0 \<or> mr_pid (ms ! j) = me_pid (w_env w))) \<and>
    ((\<forall>q. w_io w q \<noteq> 0) \<longrightarrow> ms = mti_readers ti)"
proof -
  let ?r = "mti_numreaders ti"
  have t: "w_env (tick w) = w_env w" "w_io (tick w) = w_io w" by (simp_all add: tick_def)
  have e: "rd_world (tick w) ti (mti_readers ti) (w_ios (tick w)) = tick w"
    by (rule rd_world_self) (simp add: assms t)
  have ok: "pids_ok (replicate (?r + 1) 0) ?r 0" by (simp add: pids_ok_def pid_wf_def pid_elems_def)
  have "swept (me_pid (w_env w)) ?r 0 (replicate (?r + 1) 0) (mti_readers ti)" by (simp add: swept_def pid_elems_def)
  from reader_check_loop_locked [of ?r 0 ?r "mti_readers ti" "replicate (?r + 1) 0" "tick w" "mti_readers ti" 0
      mdb_mutex_failed ti "w_ios (tick w)", unfolded e t] this ok assms(1-2) clears.none
  obtain ms k x' where "reader_check_loop mdb_mutex_failed (tick w) True ?r 0 ?r (replicate (?r + 1) 0) 0 0 =
      Some (0, k, rd_world (tick w) ti ms x')" "clears (me_pid (w_env w)) (mti_readers ti) ms k"
    "(\<forall>q. w_io w q = 0) \<longrightarrow> (\<forall>j<?r. mr_pid (ms ! j) = 0 \<or> mr_pid (ms ! j) = me_pid (w_env w))"
    "(\<forall>q. w_io w q \<noteq> 0) \<longrightarrow> ms = mti_readers ti"
    by auto
  moreover have "mdb_reader_check0 w True = map_option (\<lambda>(rc, cnt, w). (rc, Some cnt, w))
      (reader_check_loop mdb_mutex_failed (tick w) True ?r 0 ?r (replicate (?r + 1) 0) 0 0)"
    using assms by (auto simp: mdb_reader_check0_def reader_check_with_def map_option_case split: option.splits)
  ultimately show ?thesis by auto
qed

end
