(* ===== verification/Tree_Spec.thy ===== *)
theory Tree_Spec
  imports Cursor_Get Search_Spec
begin

text \<open>
  What the pages of a database represent: a B+tree of any depth whose leaves hold, in order, the
  nodes of the items. The descent of \<^verbatim>\<open>mdb_page_search\<close> reaches the leaf a key belongs to,
  and \<^verbatim>\<open>mdb_get\<close> is lookup in the table of the items.
\<close>

section \<open>Pages of a transaction\<close>

text \<open>
  Where \<^verbatim>\<open>mdb_page_get\<close> finds a page: in the map for a cursor of a read-only or writemap
  transaction (\<open>ro\<close>), else in the dirty list or the map.
\<close>

definition page_addr :: "world \<Rightarrow> tid \<Rightarrow> bool \<Rightarrow> u64 \<Rightarrow> ptr option" where
  "page_addr w t ro pgno = do {
     x \<leftarrow> w_txns w t;
     (p, l) \<leftarrow> (if ro then Some (Inr False, 0) else page_get_dirty w TXN_NEST t pgno 1);
     (case p of
        Inl p \<Rightarrow> Some p
      | Inr True \<Rightarrow> Some (map_page w pgno)
      | Inr False \<Rightarrow> if pgno \<ge> mt_next_pgno x then None else Some (map_page w pgno)) }"

definition is_ro :: "u32 \<Rightarrow> bool" where
  "is_ro fl \<longleftrightarrow> any_set fl (C_ORIG_RDONLY OR C_WRITEMAP)"

lemma page_get_addr:
  assumes "w_cursors w c = Some r" "page_addr w (mc_txn r) (is_ro (mc_flags r)) pgno = Some p"
  shows "\<exists>lvl. mdb_page_get w c pgno = Some (MDB_SUCCESS, p, lvl, w)"
proof (cases "is_ro (mc_flags r)")
  case True
  then show ?thesis using assms
    by (auto simp: mdb_page_get_def page_addr_def is_ro_def bind_eq_Some_conv split: if_splits)
next
  case False
  then obtain x pp l where "w_txns w (mc_txn r) = Some x" "page_get_dirty w TXN_NEST (mc_txn r) pgno 1 = Some (pp, l)"
    "(case pp of Inl p \<Rightarrow> Some p | Inr True \<Rightarrow> Some (map_page w pgno)
      | Inr False \<Rightarrow> if pgno \<ge> mt_next_pgno x then None else Some (map_page w pgno)) = Some p"
    using assms(2) by (auto simp: page_addr_def bind_eq_Some_conv)
  then show ?thesis using assms(1) False
    by (cases pp) (auto simp: mdb_page_get_def is_ro_def split: bool.splits if_splits)
qed

lemma page_get_dirty_cong: "w_txns w' = w_txns w \<Longrightarrow> page_get_dirty w' n t pgno l = page_get_dirty w n t pgno l"
  by (induction n arbitrary: t l) (auto intro!: Option.bind_cong simp: Let_def split: option.splits)

lemma page_addr_cong:
  assumes "w_txns w' = w_txns w" "me_psize (w_env w') = me_psize (w_env w)"
  shows "page_addr w' t ro = page_addr w t ro"
proof
  fix pgno
  have "map_page w' pgno = map_page w pgno" by (simp add: map_page_def assms(2))
  then show "page_addr w' t ro pgno = page_addr w t ro pgno"
    unfolding page_addr_def page_get_dirty_cong [OF assms(1)] assms(1) by (simp only:)
qed

section \<open>Nodes\<close>

definition node_pgno :: "u8 list \<Rightarrow> u64" where
  "node_pgno bs = of_nat (le_val (take 2 bs)) OR push_bit 16 (of_nat (le_val (take 2 (drop 2 bs)))) OR
     push_bit 32 (of_nat (le_val (take 2 (drop 4 bs))))"

definition node_flags :: "u8 list \<Rightarrow> u32" where
  "node_flags bs = of_nat (le_val (take 2 (drop 4 bs)))"

definition node_dsz :: "u8 list \<Rightarrow> nat" where
  "node_dsz bs = le_val (take 4 bs)"

definition node_dofs :: "u8 list \<Rightarrow> nat" where
  "node_dofs bs = NODESIZE + le_val (take 2 (drop 6 bs))"

text \<open>The data of an item: in the node, or on the overflow page the node names.\<close>

definition item_value :: "mem \<Rightarrow> (u64 \<Rightarrow> ptr option) \<Rightarrow> u8 list \<Rightarrow> u8 list option" where
  "item_value m pg bs =
     (if F_ISSET (node_flags bs) F_BIGDATA then do {
        no \<leftarrow> (if node_dofs bs + 8 \<le> length bs then Some (le_val (take 8 (drop (node_dofs bs) bs))) else None);
        q \<leftarrow> pg (of_nat no);
        load m (METADATA q) (node_dsz bs) }
      else if node_dofs bs + node_dsz bs \<le> length bs then Some (take (node_dsz bs) (drop (node_dofs bs) bs))
      else None)"

lemma node_fields:
  assumes "load m n k = Some bs" "NODESIZE \<le> k"
  shows "NODEPGNO m n = Some (node_pgno bs)" "mn_flags m n = Some (node_flags bs)" "NODEDSZ m n = Some (node_dsz bs)"
    "NODEDATA m n = Some (padd n (node_dofs bs))"
proof -
  have len: "length bs = k" using assms(1) load_Some_valid by blast
  have part: "load m (padd n a) b = Some (take b (drop a bs))" if "a + b \<le> 8" for a b
    using load_part [OF assms(1), of a b] assms(2) that by simp
  have lo: "mn_lo m n = Some (le_val (take 2 bs))" using part [of 0 2] by (simp add: mn_lo_def ldn_def)
  have hi: "mn_hi m n = Some (le_val (take 2 (drop 2 bs)))" using part [of 2 2] by (simp add: mn_hi_def ldn_def)
  have bd: "le_val (take 2 bs) < 2 ^ 16" "le_val (take 2 (drop 2 bs)) < 2 ^ 16"
    using le_val_bound [of "take 2 bs"] le_val_bound [of "take 2 (drop 2 bs)"] len assms(2) by auto
  have "le_val (take 4 bs) = le_val (take 2 bs) + 2 ^ 16 * le_val (take 2 (drop 2 bs))"
    using le_val_split [of "take 4 bs" 2 2] len assms(2) by (simp add: drop_take min_def)
  then show "NODEDSZ m n = Some (node_dsz bs)" using lo hi join_shorts [OF bd] by (simp add: NODEDSZ_def node_dsz_def)
  show "NODEPGNO m n = Some (node_pgno bs)" using lo hi part [of 4 2] by (simp add: NODEPGNO_def node_pgno_def ldn_def)
  show "mn_flags m n = Some (node_flags bs)" using part [of 4 2] by (simp add: mn_flags_def node_flags_def ldn_def)
  show "NODEDATA m n = Some (padd n (node_dofs bs))" using part [of 6 2] by (simp add: NODEDATA_def mn_ksize_def node_dofs_def ldn_def)
qed

text \<open>Reading a node's data is \<open>item_value\<close>.\<close>

lemma node_read_value:
  assumes "load (w_mem w) n k = Some bs" "NODESIZE \<le> k" "w_cursors w c = Some r"
    and "item_value (w_mem w) (page_addr w (mc_txn r) (is_ro (mc_flags r))) bs = Some v"
  shows "\<exists>d. mdb_node_read w c n d0 = Some (MDB_SUCCESS, d, w) \<and> val_bytes (w_mem w) d = Some v"
proof (cases "F_ISSET (node_flags bs) F_BIGDATA")
  case False
  then show ?thesis using assms(4) load_part [OF assms(1), of "node_dofs bs" "node_dsz bs"] load_Some_valid [OF assms(1)]
    by (auto simp: mdb_node_read_def node_fields [OF assms(1,2)] item_value_def val_bytes_def split: if_splits)
next
  case True
  then obtain q where q: "node_dofs bs + 8 \<le> length bs"
    "page_addr w (mc_txn r) (is_ro (mc_flags r)) (of_nat (le_val (take 8 (drop (node_dofs bs) bs)))) = Some q"
    "load (w_mem w) (METADATA q) (node_dsz bs) = Some v"
    using assms(4) by (auto simp: item_value_def bind_eq_Some_conv split: if_splits)
  have "ld64 (w_mem w) (padd n (node_dofs bs)) = Some (le_val (take 8 (drop (node_dofs bs) bs)))"
    using load_part [OF assms(1), of "node_dofs bs" 8] q(1) load_Some_valid [OF assms(1)] by (simp add: ldn_def)
  then show ?thesis using page_get_addr [OF assms(3) q(2)] q(3) True
    by (auto simp: mdb_node_read_def node_fields [OF assms(1,2)] val_bytes_def)
qed

section \<open>The page stack\<close>

definition set_ki :: "MDB_cursor \<Rightarrow> nat \<Rightarrow> MDB_cursor" where
  "set_ki r i = r\<lparr>mc_ki := (mc_ki r)[mc_top r := i]\<rparr>"

definition pushed :: "MDB_cursor \<Rightarrow> ptr \<Rightarrow> MDB_cursor" where
  "pushed r mp = r\<lparr>mc_top := mc_snum r, mc_snum := mc_snum r + 1, mc_pg := (mc_pg r)[mc_snum r := mp], mc_ki := (mc_ki r)[mc_snum r := 0]\<rparr>"

text \<open>Everything of a cursor but its position and flags.\<close>

definition same_cur :: "MDB_cursor \<Rightarrow> MDB_cursor \<Rightarrow> bool" where
  "same_cur r r' \<longleftrightarrow> mc_backup r' = mc_backup r \<and> mc_xcursor r' = mc_xcursor r \<and> mc_txn r' = mc_txn r \<and> mc_dbi r' = mc_dbi r \<and>
     mc_db r' = mc_db r \<and> mc_dbx r' = mc_dbx r \<and> mc_dbflag r' = mc_dbflag r"

lemma same_cur_refl [simp]: "same_cur r r" "same_cur r (set_ki r i)" "same_cur r (pushed r mp)" "same_cur r (r\<lparr>mc_flags := fl\<rparr>)"
  by (simp_all add: same_cur_def set_ki_def pushed_def)

lemma same_cur_trans: "same_cur r r1 \<Longrightarrow> same_cur r1 r2 \<Longrightarrow> same_cur r r2"
  by (simp add: same_cur_def)

lemma put_cur_simps [simp]:
  "w_cursors (put_cur w c r) c = Some r" "w_mem (put_cur w c r) = w_mem w" "w_env (put_cur w c r) = w_env w"
  "w_txns (put_cur w c r) = w_txns w" "w_xcursors (put_cur w c r) = w_xcursors w" "put_cur (put_cur w c r) c r' = put_cur w c r'"
  by (simp_all add: put_cur_def)

lemma put_cur_dbs [simp]:
  "get_db (put_cur w c r) d = get_db w d" "get_dbx (put_cur w c r) d = get_dbx w d" "get_dbflag (put_cur w c r) d = get_dbflag w d"
  "page_addr (put_cur w c r) = page_addr w"
  by (cases d; simp)+ (rule ext, rule ext, rule page_addr_cong; simp)

lemma path_nonempty: "stack_wf r \<Longrightarrow> 0 < mc_snum r \<Longrightarrow> path r \<noteq> []"
  using length_path by fastforce

lemma path_nth: "stack_wf r \<Longrightarrow> i < mc_snum r \<Longrightarrow> path r ! i = (mc_pg r ! i, mc_ki r ! i)"
  by (simp add: path_def stack_wf_def)

lemma path_last:
  assumes "stack_wf r" "0 < mc_snum r"
  shows "last (path r) = (mc_pg r ! mc_top r, mc_ki r ! mc_top r)"
  using assms path_nonempty [OF assms] length_path [OF assms(1)] path_nth [OF assms(1), of "mc_snum r - 1"]
  by (simp add: last_conv_nth stack_wf_def)

lemma top_simps:
  assumes "w_cursors w c = Some r" "stack_wf r" "0 < mc_snum r"
  shows "top_pg w c = Some (fst (last (path r)))" "top_ki w c = Some (snd (last (path r)))"
    "set_top_ki w c i = Some (put_cur w c (set_ki r i))"
  using assms path_last [OF assms(2,3)]
  by (auto simp: top_pg_def top_ki_def set_top_ki_def set_ki_def rd_def wr_def stack_wf_def)

lemma set_ki_stack [simp]:
  "stack_wf (set_ki r i) = stack_wf r" "mc_snum (set_ki r i) = mc_snum r" "mc_flags (set_ki r i) = mc_flags r"
  by (simp_all add: set_ki_def stack_wf_def)

lemma set_ki_path:
  assumes "stack_wf r" "0 < mc_snum r"
  shows "path (set_ki r i) = butlast (path r) @ [(fst (last (path r)), i)]"
proof -
  have z: "zip xs (ys[n - 1 := i]) = butlast (zip xs ys) @ [(fst (last (zip xs ys)), i)]"
    if "length xs = n" "length ys = n" "0 < n" for xs :: "ptr list" and ys n
    using that by (cases xs rule: rev_cases; cases ys rule: rev_cases) (auto simp: list_update_append)
  have "path (set_ki r i) = zip (take (mc_snum r) (mc_pg r)) ((take (mc_snum r) (mc_ki r))[mc_snum r - 1 := i])"
    using assms by (simp add: path_def set_ki_def stack_wf_def take_update_swap)
  also have "\<dots> = butlast (path r) @ [(fst (last (path r)), i)]"
    unfolding path_def by (rule z) (use assms in \<open>auto simp: stack_wf_def\<close>)
  finally show ?thesis .
qed

lemma pushed_stack:
  assumes "stack_wf r" "mc_snum r < CURSOR_STACK"
  shows "stack_wf (pushed r mp)" "mc_snum (pushed r mp) = mc_snum r + 1" "mc_flags (pushed r mp) = mc_flags r"
    "path (pushed r mp) = path r @ [(mp, 0)]"
  using assms by (auto simp: pushed_def stack_wf_def path_def take_Suc_conv_app_nth)

lemma cursor_push_rec:
  assumes "w_cursors w c = Some r" "stack_wf r" "mc_snum r < CURSOR_STACK"
  shows "mdb_cursor_push w c mp = Some (MDB_SUCCESS, put_cur w c (pushed r mp))"
  using assms by (simp add: mdb_cursor_push_def wr_def pushed_def stack_wf_def Let_def)

section \<open>The tree\<close>

text \<open>A page represents one list of nodes: their headers say how long they are.\<close>

lemma load_prefix: "load m p n = Some xs \<Longrightarrow> load m p k = Some ys \<Longrightarrow> n \<le> k \<Longrightarrow> take n ys = xs"
  by (auto simp: load_def min_def split: option.splits if_splits)

lemma img_size_prefix: "8 \<le> n \<Longrightarrow> img_size leaf (take n ys) = img_size leaf ys"
proof -
  assume "8 \<le> n"
  then have "take 4 (take n ys) = take 4 ys" "take 2 (drop 4 (take n ys)) = take 2 (drop 4 ys)" "take 2 (drop 6 (take n ys)) = take 2 (drop 6 ys)"
    by (simp_all add: drop_take min_def)
  then show ?thesis by (simp only: img_size_def)
qed

lemma page_rep_unique:
  assumes "page_rep m p psz leaf u L" "page_rep m p psz' leaf u' L'"
  shows "L = L'"
proof (rule nth_equalityI)
  show len: "length L = length L'" using page_repD(5) [OF assms(1)] page_repD(5) [OF assms(2)] by simp
  fix i assume i: "i < length L"
  note A = page_rep_nth [OF assms(1) i] and B = page_rep_nth [OF assms(2) i [unfolded len]]
  have f: "fst (L' ! i) = fst (L ! i)" using A(1) B(1) by simp
  have "snd (L ! i) = snd (L' ! i)"
  proof (cases "length (snd (L ! i)) \<le> length (snd (L' ! i))")
    case True
    then have "take (length (snd (L ! i))) (snd (L' ! i)) = snd (L ! i)" using load_prefix [OF A(2)] B(2) f by simp
    then show ?thesis using img_size_prefix [of "length (snd (L ! i))" leaf "snd (L' ! i)"] A(5,6) B(6) by simp
  next
    case False
    then have "take (length (snd (L' ! i))) (snd (L ! i)) = snd (L' ! i)" using load_prefix [OF B(2)] A(2) f by simp
    then show ?thesis using img_size_prefix [of "length (snd (L' ! i))" leaf "snd (L ! i)"] A(6) B(5,6) by simp
  qed
  then show "L ! i = L' ! i" using f by (simp add: prod_eq_iff)
qed

text \<open>
  A leaf page: its nodes have room for their keys, which ascend. A branch page over children with
  items \<open>cs\<close>: no child is empty; a key is above the keys of the children before it and not above
  those from its own child on; the first key is not used.
\<close>

definition leaf_rep :: "mem \<Rightarrow> nat \<Rightarrow> ptr \<Rightarrow> (nat \<times> u8 list) list \<Rightarrow> bool" where
  "leaf_rep m psz p L \<longleftrightarrow> (\<exists>u. page_rep m p psz True u L) \<and> IS_BRANCH m p = Some False \<and>
     (\<forall>bs\<in>set (map snd L). keys_in bs) \<and> sorted_wrt (<) (map (node_key \<circ> snd) L)"

definition branch_rep :: "mem \<Rightarrow> nat \<Rightarrow> ptr \<Rightarrow> (nat \<times> u8 list) list \<Rightarrow> u8 list list list \<Rightarrow> bool" where
  "branch_rep m psz p L cs \<longleftrightarrow> (\<exists>u. page_rep m p psz False u L) \<and> IS_BRANCH m p = Some True \<and>
     (\<forall>bs\<in>set (map snd L). keys_in bs) \<and> 2 \<le> length L \<and> length cs = length L \<and> [] \<notin> set cs \<and>
     sorted_wrt (<) (map (node_key \<circ> snd) (tl L)) \<and>
     (\<forall>i. 0 < i \<longrightarrow> i < length L \<longrightarrow> (\<forall>bs\<in>set (cs ! (i - 1)). node_key bs < node_key (snd (L ! i))) \<and>
       (\<forall>bs\<in>set (cs ! i). node_key (snd (L ! i)) \<le> node_key bs))"

text \<open>
  \<open>tree_at m pg psz d p items\<close>: the page at \<open>p\<close> is the root of a tree with \<open>d\<close> levels of branch
  pages, all paths equally long, over the nodes \<open>items\<close>.
\<close>

inductive tree_at :: "mem \<Rightarrow> (u64 \<Rightarrow> ptr option) \<Rightarrow> nat \<Rightarrow> nat \<Rightarrow> ptr \<Rightarrow> u8 list list \<Rightarrow> bool" for m pg psz where
  leaf: "leaf_rep m psz p L \<Longrightarrow> tree_at m pg psz 0 p (map snd L)"
| branch: "branch_rep m psz p L cs \<Longrightarrow>
     \<forall>i<length L. \<exists>q. pg (node_pgno (snd (L ! i))) = Some q \<and> tree_at m pg psz d q (cs ! i) \<Longrightarrow>
     tree_at m pg psz (Suc d) p (concat cs)"

lemma branch_rep_unique: "branch_rep m psz p L cs \<Longrightarrow> branch_rep m psz p L' cs' \<Longrightarrow> L = L'"
  unfolding branch_rep_def by (elim conjE exE) (rule page_rep_unique)

text \<open>Every index of a path but the last is the one \<open>f\<close> picks on its page.\<close>

definition picked :: "mem \<Rightarrow> nat \<Rightarrow> ((nat \<times> u8 list) list \<Rightarrow> nat) \<Rightarrow> (ptr \<times> nat) list \<Rightarrow> bool" where
  "picked m psz f stk \<longleftrightarrow> (\<forall>(b, i)\<in>set (butlast stk). \<forall>L cs. branch_rep m psz b L cs \<longrightarrow> i = f L)"

lemma picked_snoc:
  assumes p: "picked m psz f (stk @ [(b, i)])" and r: "branch_rep m psz b L cs"
  shows "picked m psz f (stk @ [(b, f L)] @ [(q, k)])"
proof -
  have e: "butlast (stk @ [(b, f L)] @ [(q, k)]) = stk @ [(b, f L)]" "butlast (stk @ [(b, i)]) = stk"
    by (simp_all add: butlast_append)
  have "i' = f L'" if "(b', i') \<in> set (stk @ [(b, f L)])" "branch_rep m psz b' L' cs'" for b' i' L' cs'
  proof (cases "(b', i') \<in> set stk")
    case True
    then show ?thesis using p that(2) unfolding picked_def e by blast
  next
    case False
    then have "b' = b" "i' = f L" using that(1) by simp_all
    then show ?thesis using branch_rep_unique [OF r] that(2) by blast
  qed
  then show ?thesis unfolding picked_def e by blast
qed

inductive_cases tree_at_leafE: "tree_at m pg psz 0 p items"
inductive_cases tree_at_branchE: "tree_at m pg psz (Suc d) p items"

text \<open>
  \<open>at_node \<dots> D p stk e pre its post\<close>: from the root \<open>p\<close> of a tree with \<open>D\<close> levels the pages and
  indices \<open>stk\<close> lead to a page with \<open>e\<close> levels below it that holds the items \<open>its\<close>; \<open>pre\<close> and
  \<open>post\<close> are the items to its left and right. The index on the last page is free.
\<close>

inductive at_node :: "mem \<Rightarrow> (u64 \<Rightarrow> ptr option) \<Rightarrow> nat \<Rightarrow> nat \<Rightarrow> ptr \<Rightarrow> (ptr \<times> nat) list \<Rightarrow> nat \<Rightarrow>
    u8 list list \<Rightarrow> u8 list list \<Rightarrow> u8 list list \<Rightarrow> bool" for m pg psz D p where
  root: "tree_at m pg psz D p items \<Longrightarrow> at_node m pg psz D p [(p, k)] D [] items []"
| down: "at_node m pg psz D p (stk @ [(b, i)]) (Suc e) pre (concat cs) post \<Longrightarrow> branch_rep m psz b L cs \<Longrightarrow>
     \<forall>j<length L. \<exists>q. pg (node_pgno (snd (L ! j))) = Some q \<and> tree_at m pg psz e q (cs ! j) \<Longrightarrow>
     i < length L \<Longrightarrow> pg (node_pgno (snd (L ! i))) = Some q \<Longrightarrow>
     at_node m pg psz D p (stk @ [(b, i), (q, k)]) e (pre @ concat (take i cs)) (cs ! i) (concat (drop (Suc i) cs) @ post)"

lemma branch_repD:
  assumes "branch_rep m psz p L cs"
  shows "IS_BRANCH m p = Some True" "IS_LEAF m p = Some False" "NUMKEYS m p = Some (length L)" "2 \<le> length L" "length L < 2 ^ 16"
    "L \<noteq> []" "length cs = length L" "[] \<notin> set cs" "sorted_wrt (<) (map (node_key \<circ> snd) (tl L))"
    "i < length L \<Longrightarrow> NODEPTR m p i = Some (padd p (fst (L ! i)))"
    "i < length L \<Longrightarrow> NODEPGNO m (padd p (fst (L ! i))) = Some (node_pgno (snd (L ! i)))"
proof -
  obtain u where rep: "page_rep m p psz False u L" using assms by (auto simp: branch_rep_def)
  show "i < length L \<Longrightarrow> NODEPTR m p i = Some (padd p (fst (L ! i)))"
    using page_rep_nth(1) [OF rep] by (simp add: NODEPTR_def)
  show "i < length L \<Longrightarrow> NODEPGNO m (padd p (fst (L ! i))) = Some (node_pgno (snd (L ! i)))"
    by (rule node_fields(1) [OF page_rep_nth(2) [OF rep] page_rep_nth(5) [OF rep]])
  show "IS_LEAF m p = Some False" "NUMKEYS m p = Some (length L)" "length L < 2 ^ 16"
    using page_repD(2,3,7,8) [OF rep] page_rep_NUMKEYS [OF rep] by auto
qed (use assms in \<open>auto simp: branch_rep_def\<close>)

lemma leaf_repD:
  assumes "leaf_rep m psz p L"
  shows "IS_BRANCH m p = Some False" "IS_LEAF m p = Some True" "IS_LEAF2 m p = Some False" "NUMKEYS m p = Some (length L)" "length L < 2 ^ 16"
    "i < length L \<Longrightarrow> NODEPTR m p i = Some (padd p (fst (L ! i)))"
    "i < length L \<Longrightarrow> load m (padd p (fst (L ! i))) (length (snd (L ! i))) = Some (snd (L ! i))"
    "i < length L \<Longrightarrow> NODESIZE \<le> length (snd (L ! i))"
    "\<forall>bs\<in>set (map snd L). keys_in bs" "sorted_wrt (<) (map (node_key \<circ> snd) L)"
proof -
  obtain u where rep: "page_rep m p psz True u L" using assms by (auto simp: leaf_rep_def)
  show "i < length L \<Longrightarrow> NODEPTR m p i = Some (padd p (fst (L ! i)))"
    "i < length L \<Longrightarrow> load m (padd p (fst (L ! i))) (length (snd (L ! i))) = Some (snd (L ! i))"
    "i < length L \<Longrightarrow> NODESIZE \<le> length (snd (L ! i))"
    using page_rep_nth(1,2,5) [OF rep] by (simp_all add: NODEPTR_def)
  show "IS_LEAF m p = Some True" "IS_LEAF2 m p = Some False" "NUMKEYS m p = Some (length L)" "length L < 2 ^ 16"
    using page_repD(2,3,4,7,8) [OF rep] page_rep_NUMKEYS [OF rep] by auto
qed (use assms in \<open>auto simp: leaf_rep_def\<close>)

lemma at_node_tree: "at_node m pg psz D p stk e pre its post \<Longrightarrow> stk \<noteq> [] \<and> tree_at m pg psz e (fst (last stk)) its \<and> length stk + e = Suc D"
  by (induction rule: at_node.induct) fastforce+

lemma at_node_index: "at_node m pg psz D p (stk @ [(b, i)]) e pre its post \<Longrightarrow> at_node m pg psz D p (stk @ [(b, j)]) e pre its post"
proof (cases rule: at_node.cases)
qed (use at_node.root at_node.down in fastforce)+

end
