(* ===== verification/Descent_Spec.thy ===== *)
theory Descent_Spec
  imports Tree_Spec
begin

text \<open>
  The descent of \<^verbatim>\<open>mdb_page_search\<close> in the tree of a database, proved once for every way
  of choosing the child (locale \<open>descent\<close>): by a key, to the first leaf, to the last one.
\<close>

section \<open>Searching a page of the tree\<close>

lemma length_filter_less:
  "sorted_wrt (<) K \<Longrightarrow> j < length K \<Longrightarrow> j < length (filter (\<lambda>k. k < x) K) \<longleftrightarrow> K ! j < (x :: u8 list)"
proof (induction K arbitrary: j)
  case (Cons a K)
  show ?case
  proof (cases "a < x")
    case False
    then have "\<not> k < x" if "k \<in> set K" for k using Cons.prems(1) that by (auto dest: less_trans)
    then have "filter (\<lambda>k. k < x) K = []" by (simp add: filter_empty_conv)
    moreover have "\<not> (a # K) ! j < x" using False \<open>\<And>k. k \<in> set K \<Longrightarrow> \<not> k < x\<close> Cons.prems(2) by (cases j) auto
    ultimately show ?thesis using False by simp
  qed (use Cons in \<open>cases j; auto\<close>)
qed simp

text \<open>A cursor on a database with the default key comparison.\<close>

definition cur_ok :: "world \<Rightarrow> MDB_cursor \<Rightarrow> bool" where
  "cur_ok w r \<longleftrightarrow> (\<exists>dbx db. get_dbx w (mc_dbx r) = Some dbx \<and> md_cmp dbx = Some Cmp_memn \<and> get_db w (mc_db r) = Some db)"

lemma cur_ok_cong [simp]: "cur_ok (put_cur w c r') r \<longleftrightarrow> cur_ok w r"
  by (simp add: cur_ok_def)

lemma cur_ok_same: "same_cur r r' \<Longrightarrow> cur_ok w r \<Longrightarrow> cur_ok w r'"
  by (simp add: cur_ok_def same_cur_def)

lemma set_ki_twice [simp]: "set_ki (set_ki r i) j = set_ki r j"
  by (simp add: set_ki_def)

lemma last16: "0 < n \<Longrightarrow> n < 2 ^ 16 \<Longrightarrow> u32 (n + (2 ^ 32 - 1)) mod 2 ^ 16 = n - 1"
proof -
  assume n: "0 < n" "n < 2 ^ 16"
  then have "n + (2 ^ 32 - 1) = (n - 1) + 2 ^ 32" by simp
  then show ?thesis unfolding u32_def by (simp only: mod_add_self2) (use n in simp)
qed

lemma no_flags [simp]: "\<not> any_set 0 f"
  by (simp add: any_set_def)

section \<open>Cursors of a database\<close>

definition cur_pages :: "world \<Rightarrow> MDB_cursor \<Rightarrow> u64 \<Rightarrow> ptr option" where
  "cur_pages w r = page_addr w (mc_txn r) (is_ro (mc_flags r))"

text \<open>A cursor of a usable transaction on a database without duplicates.\<close>

definition walk_ok :: "world \<Rightarrow> MDB_cursor \<Rightarrow> bool" where
  "walk_ok w r \<longleftrightarrow> mc_xcursor r = None \<and> cur_ok w r \<and> \<not> any_set (mc_flags r) C_DEL \<and>
     (\<exists>db. get_db w (mc_db r) = Some db \<and> \<not> any_set (md_flags db) MDB_DUPSORT) \<and>
     (\<exists>x. w_txns w (mc_txn r) = Some x \<and> \<not> any_set (mt_flags x) MDB_TXN_BLOCKED)"

lemma walk_ok_same: "same_cur r r' \<Longrightarrow> any_set (mc_flags r') C_DEL = any_set (mc_flags r) C_DEL \<Longrightarrow> walk_ok w r \<Longrightarrow> walk_ok w r'"
  using cur_ok_same [of r r' w] by (auto simp: walk_ok_def same_cur_def)

lemma cur_pages_same: "same_cur r r' \<Longrightarrow> is_ro (mc_flags r') = is_ro (mc_flags r) \<Longrightarrow> cur_pages w r' = cur_pages w r"
  by (simp add: cur_pages_def same_cur_def)

text \<open>A cursor as \<^verbatim>\<open>mdb_cursor_open\<close> leaves it, on a database that holds \<open>items\<close>.\<close>

definition fresh_on :: "world \<Rightarrow> MDB_cursor \<Rightarrow> u8 list list \<Rightarrow> bool" where
  "fresh_on w r items \<longleftrightarrow> walk_ok w r \<and> length (mc_pg r) = CURSOR_STACK \<and> length (mc_ki r) = CURSOR_STACK \<and> mc_pg r ! 0 = NULL \<and>
     mc_top r = 0 \<and> \<not> any_set (mc_flags r) C_INITIALIZED \<and>
     (\<exists>fl. get_dbflag w (mc_dbflag r) = Some fl \<and> \<not> any_set fl DB_STALE) \<and>
     (\<exists>db. get_db w (mc_db r) = Some db \<and>
        (if md_root db = P_INVALID then items = []
         else items \<noteq> [] \<and> 1 < md_root db \<and> (\<exists>D p. D < CURSOR_STACK \<and> cur_pages w r (md_root db) = Some p \<and>
           tree_at (w_mem w) (cur_pages w r) (me_psize (w_env w)) D p items)))"

lemma node_search_tree:
  assumes cur: "w_cursors w c = Some r" "stack_wf r" "0 < mc_snum r" "fst (last (path r)) = p" "cur_ok w r"
    and rep: "(\<exists>u. page_rep (w_mem w) p psz leaf u L) \<and> IS_BRANCH (w_mem w) p = Some (\<not> leaf)"
    and key: "val_bytes (w_mem w) key = Some kb" "length kb < 2 ^ 32"
    and ks: "\<forall>bs \<in> set (map snd L). keys_in bs" "sorted_wrt (<) (map (node_key \<circ> snd) (drop (first_key leaf) L))"
    and lo: "leaf \<or> 1 < length L"
    and K: "K = map (node_key \<circ> snd) (drop (first_key leaf) L)" and i: "i = first_key leaf + length (filter (\<lambda>k. k < kb) K)"
  shows "mdb_node_search w c key = Some (if i < length L then Some (padd p (fst (L ! i))) else None, kb \<in> set K, put_cur w c (set_ki r i))"
proof -
  obtain u where rep: "page_rep (w_mem w) p psz leaf u L" "IS_BRANCH (w_mem w) p = Some (\<not> leaf)" using rep by blast
  obtain dbx db where ctx: "get_dbx w (mc_dbx r) = Some dbx" "md_cmp dbx = Some Cmp_memn" "get_db w (mc_db r) = Some db"
    using cur(5) by (auto simp: cur_ok_def)
  have "node_search_page (w_mem w) p Cmp_memn (unat (md_pad db)) key = Some (i, kb \<in> set K, length L)"
    using node_search_page_spec [OF rep key ks lo] K i by auto
  moreover have "NODEPTR (w_mem w) p i = Some (padd p (fst (L ! i)))" if "i < length L"
    using page_rep_nth(1) [OF rep(1) that] by (simp add: NODEPTR_def)
  ultimately show ?thesis
    using cur(1,4) ctx top_simps [OF cur(1,2,3)] page_repD(4) [OF rep(1)] by (simp add: mdb_node_search_def)
qed

text \<open>The child that \<^verbatim>\<open>mdb_page_search_root\<close> descends to.\<close>

definition child_index :: "(nat \<times> u8 list) list \<Rightarrow> u8 list \<Rightarrow> nat" where
  "child_index L kb = (let K = map (node_key \<circ> snd) (tl L); n = length (filter (\<lambda>k. k < kb) K) in if kb \<in> set K then n + 1 else n)"

lemma separator_index:
  assumes "sorted_wrt (<) (K :: u8 list list)" "c = (if kb \<in> set K then n + 1 else n)" "n = length (filter (\<lambda>k. k < kb) K)"
  shows "c \<le> length K \<and> (\<forall>j<length K. j < c \<longleftrightarrow> K ! j \<le> kb)"
proof -
  have F: "j < n \<longleftrightarrow> K ! j < kb" if "j < length K" for j
    unfolding assms(3) by (rule length_filter_less [OF assms(1) that])
  have n: "n \<le> length K" unfolding assms(3) by (rule length_filter_le)
  have mono: "K ! i < K ! j" if "i < j" "j < length K" for i j using sorted_wrt_nth_less [OF assms(1)] that by simp
  show ?thesis
  proof (cases "kb \<in> set K")
    case False
    then have "j < length K \<Longrightarrow> K ! j \<noteq> kb" for j using nth_mem by blast
    then have "j < length K \<Longrightarrow> j < n \<longleftrightarrow> K ! j \<le> kb" for j using F [of j] by (simp add: order.order_iff_strict)
    then show ?thesis using False assms(2) n by simp
  next
    case True
    then obtain i where i: "i < length K" "K ! i = kb" by (metis in_set_conv_nth)
    have "\<not> i < n" using F [OF i(1)] i(2) by simp
    moreover have "\<not> n < i" using F [of n] mono [of n i] i by auto
    ultimately have "i = n" by simp
    moreover have "j < Suc i \<longleftrightarrow> K ! j \<le> kb" if "j < length K" for j
      using mono [of j i] mono [of i j] i that by (cases j i rule: linorder_cases) auto
    ultimately show ?thesis using True assms(2) i(1) by simp
  qed
qed

lemma child_index:
  assumes "sorted_wrt (<) (map (node_key \<circ> snd) (tl L))" "L \<noteq> []"
  shows "child_index L kb < length L"
    and "\<And>q. 0 < q \<Longrightarrow> q < length L \<Longrightarrow> q \<le> child_index L kb \<longleftrightarrow> node_key (snd (L ! q)) \<le> kb"
proof -
  define K where "K = map (node_key \<circ> snd) (tl L)"
  have len: "length L = Suc (length K)" using assms(2) by (cases L) (auto simp: K_def)
  have nth: "node_key (snd (L ! Suc j)) = K ! j" if "j < length K" for j using that assms(2) by (cases L) (auto simp: K_def)
  have "sorted_wrt (<) K" using assms(1) by (simp add: K_def)
  from separator_index [OF this, of "child_index L kb" kb "length (filter (\<lambda>k. k < kb) K)"]
  have c: "child_index L kb \<le> length K" "\<And>j. j < length K \<Longrightarrow> j < child_index L kb \<longleftrightarrow> K ! j \<le> kb"
    by (auto simp: child_index_def K_def [symmetric] Let_def)
  show "child_index L kb < length L" using c(1) len by simp
  fix q assume q: "0 < q" "q < length L"
  then obtain j where "q = Suc j" "j < length K" using len by (cases q) auto
  then show "q \<le> child_index L kb \<longleftrightarrow> node_key (snd (L ! q)) \<le> kb" using c(2) [of j] nth [of j] by (simp add: Suc_le_eq)
qed

section \<open>The descent\<close>

text \<open>
  \<open>key\<close> and \<open>flags\<close> are the arguments of the search, \<open>pick\<close> the child it goes to; \<open>inv\<close> is what the
  choice establishes of the items to the left and right.
\<close>

locale descent =
  fixes key :: "'k \<Rightarrow> MDB_val option" and flags :: u32 and ok :: "world \<Rightarrow> 'k \<Rightarrow> bool" and fl_ok :: "u32 \<Rightarrow> bool"
    and pick :: "'k \<Rightarrow> (nat \<times> u8 list) list \<Rightarrow> nat" and inv :: "'k \<Rightarrow> u8 list list \<Rightarrow> u8 list list \<Rightarrow> bool"
  assumes flags: "\<not> any_set flags MDB_PS_MODIFY" "\<not> any_set flags MDB_PS_ROOTONLY"
    and pick: "branch_rep m psz p L cs \<Longrightarrow> pick k L < length L"
    and index: "stack_wf r \<Longrightarrow> 0 < mc_snum r \<Longrightarrow> fst (last (path r)) = p \<Longrightarrow> cur_ok w r \<Longrightarrow> fl_ok (mc_flags r) \<Longrightarrow> ok w k \<Longrightarrow>
      branch_rep (w_mem w) psz p L cs \<Longrightarrow>
      \<exists>i. search_root_index (put_cur w c r) c p (key k) flags = Some (pick k L, False, put_cur w c (set_ki r i))"
    and inv_nil: "inv k [] []"
    and inv_step: "branch_rep m psz p L cs \<Longrightarrow> inv k pre post \<Longrightarrow>
      inv k (pre @ concat (take (pick k L) cs)) (concat (drop (Suc (pick k L)) cs) @ post)"
begin

lemma step:
  assumes cur: "stack_wf r" "0 < mc_snum r" "mc_snum r < CURSOR_STACK" "fst (last (path r)) = p" "cur_ok w r" "fl_ok (mc_flags r)" "ok w k"
    and rep: "branch_rep (w_mem w) psz p L cs"
    and q: "page_addr w (mc_txn r) (is_ro (mc_flags r)) (node_pgno (snd (L ! pick k L))) = Some q"
  shows "page_search_root_loop touch (put_cur w c r) c p (key k) flags =
    page_search_root_loop touch (put_cur w c (pushed (set_ki r (pick k L)) q)) c q (key k) flags"
proof -
  let ?j = "pick k L"
  obtain i where i: "search_root_index (put_cur w c r) c p (key k) flags = Some (?j, False, put_cur w c (set_ki r i))"
    using index [OF cur(1,2,4,5,6,7) rep] by blast
  have j: "?j < length L" by (rule pick [OF rep])
  obtain lvl where "mdb_page_get (put_cur w c (set_ki r i)) c (node_pgno (snd (L ! ?j))) = Some (MDB_SUCCESS, q, lvl, put_cur w c (set_ki r i))"
    using page_get_addr [of "put_cur w c (set_ki r i)" c "set_ki r i"] q by (auto simp: set_ki_def)
  moreover have "set_top_ki (put_cur w c (set_ki r i)) c ?j = Some (put_cur w c (set_ki r ?j))"
    using top_simps(3) [of "put_cur w c (set_ki r i)" c "set_ki r i"] cur by simp
  moreover have "mdb_cursor_push (put_cur w c (set_ki r ?j)) c q = Some (MDB_SUCCESS, put_cur w c (pushed (set_ki r ?j) q))"
    using cursor_push_rec [of "put_cur w c (set_ki r ?j)" c "set_ki r ?j"] cur by simp
  ultimately have "search_root_down (put_cur w c (set_ki r i)) c p ?j False = Some (MDB_SUCCESS, q, put_cur w c (pushed (set_ki r ?j) q))"
    using branch_repD(3,10,11) [OF rep] j by (simp add: search_root_down_def)
  then show ?thesis using i branch_repD(1) [OF rep] flags(1) by (subst page_search_root_loop.simps) simp
qed

lemma root_loop:
  assumes node: "at_node (w_mem w) (page_addr w t ro) psz D p (stk @ [(b, i)]) d pre items post"
    and cur: "stack_wf r" "path r = stk @ [(b, i)]" "mc_snum r + d \<le> CURSOR_STACK" "cur_ok w r" "mc_txn r = t" "is_ro (mc_flags r) = ro"
      "fl_ok (mc_flags r)" "ok w k" and inv: "inv k pre post" and pk: "picked (w_mem w) psz (pick k) (stk @ [(b, i)])"
  shows "\<exists>r' stk' pre' L post'. page_search_root_loop touch (put_cur w c r) c b (key k) flags = Some (MDB_SUCCESS, put_cur w c r') \<and>
    same_cur r r' \<and> stack_wf r' \<and> mc_flags r' = clear (mc_flags r OR C_INITIALIZED) C_EOF \<and> path r' = stk' \<and>
    at_node (w_mem w) (page_addr w t ro) psz D p stk' 0 pre' (map snd L) post' \<and> leaf_rep (w_mem w) psz (fst (last stk')) L \<and>
    inv k pre' post' \<and> picked (w_mem w) psz (pick k) stk' \<and> pre' @ map snd L @ post' = pre @ items @ post"
  using assms
proof (induction d arbitrary: stk b i pre items post r)
  case 0
  let ?r = "r\<lparr>mc_flags := clear (mc_flags r OR C_INITIALIZED) C_EOF\<rparr>"
  obtain L where L: "leaf_rep (w_mem w) psz b L" "items = map snd L"
    using at_node_tree [OF "0.prems"(1)] by (auto elim: tree_at_leafE)
  have run: "page_search_root_loop touch (put_cur w c r) c b (key k) flags = Some (MDB_SUCCESS, put_cur w c ?r)"
    using leaf_repD(1,2) [OF L(1)] by (subst page_search_root_loop.simps) simp
  have wf: "stack_wf ?r" "path ?r = path r" using "0.prems"(2) by (simp_all add: stack_wf_def path_def)
  then show ?case using run L "0.prems"(1,3,10,11)
    by (intro exI [of _ ?r] exI [of _ "stk @ [(b, i)]"] exI [of _ pre] exI [of _ L] exI [of _ post]) simp
next
  case (Suc d)
  obtain L cs where B: "branch_rep (w_mem w) psz b L cs" "items = concat cs"
    "\<forall>i<length L. \<exists>q. page_addr w t ro (node_pgno (snd (L ! i))) = Some q \<and> tree_at (w_mem w) (page_addr w t ro) psz d q (cs ! i)"
    using at_node_tree [OF Suc.prems(1)] by (auto elim: tree_at_branchE)
  let ?j = "pick k L"
  have j: "?j < length L" by (rule pick [OF B(1)])
  then obtain q where q: "page_addr w t ro (node_pgno (snd (L ! ?j))) = Some q" using B(3) by blast
  let ?r = "pushed (set_ki r ?j) q"
  have sn: "0 < mc_snum r" "mc_snum r < 32" using Suc.prems(3,4) length_path [OF Suc.prems(2)] by auto
  have same: "same_cur r ?r" by (rule same_cur_trans [OF same_cur_refl(2) same_cur_refl(3)])
  have wf: "stack_wf ?r" "mc_snum ?r = mc_snum r + 1" "mc_flags ?r = mc_flags r" "path ?r = (stk @ [(b, ?j)]) @ [(q, 0)]"
    using pushed_stack [of "set_ki r ?j" q] set_ki_path [OF Suc.prems(2) sn(1), of ?j] Suc.prems(2,3) sn(2) by simp_all
  have step: "page_search_root_loop touch (put_cur w c r) c b (key k) flags = page_search_root_loop touch (put_cur w c ?r) c q (key k) flags"
    by (rule step [OF Suc.prems(2) sn _ Suc.prems(5,8,9) B(1)]) (use Suc.prems(3,6,7) q in simp_all)
  have node: "at_node (w_mem w) (page_addr w t ro) psz D p ((stk @ [(b, ?j)]) @ [(q, 0)]) d
      (pre @ concat (take ?j cs)) (cs ! ?j) (concat (drop (Suc ?j) cs) @ post)"
    using at_node.down [OF _ B(1,3) j q, of D p stk pre post 0] at_node_index [OF Suc.prems(1), of ?j] B(2) by simp
  have split: "concat cs = concat (take ?j cs) @ cs ! ?j @ concat (drop (Suc ?j) cs)"
    using id_take_nth_drop [of ?j cs] j branch_repD(7) [OF B(1)] by (metis concat.simps(2) concat_append)
  have pk: "picked (w_mem w) psz (pick k) ((stk @ [(b, ?j)]) @ [(q, 0)])"
    using picked_snoc [OF Suc.prems(11) B(1)] by simp
  from Suc.IH [OF node wf(1,4) _ cur_ok_same [OF same Suc.prems(5)] _ _ _ Suc.prems(9) inv_step [OF B(1) Suc.prems(10)] pk] same_cur_trans [OF same]
  show ?case unfolding step using wf(2,3) Suc.prems(4,6,7,8) same B(2) split by (simp add: same_cur_def)
qed

text \<open>\<^verbatim>\<open>mdb_page_search\<close> with a cursor that holds no page of the tree yet.\<close>

lemma page_search:
  assumes fresh: "fresh_on w r items" "items \<noteq> []" and ok: "fl_ok (mc_flags r)" "ok w k"
  shows "\<exists>r' D p stk pre L post. mdb_page_search touch (put_cur w c r) c (key k) flags = Some (MDB_SUCCESS, put_cur w c r') \<and>
    same_cur r r' \<and> stack_wf r' \<and> mc_flags r' = clear (mc_flags r OR C_INITIALIZED) C_EOF \<and> path r' = stk \<and>
    at_node (w_mem w) (cur_pages w r) (me_psize (w_env w)) D p stk 0 pre (map snd L) post \<and>
    leaf_rep (w_mem w) (me_psize (w_env w)) (fst (last stk)) L \<and> inv k pre post \<and> items = pre @ map snd L @ post \<and>
    picked (w_mem w) (me_psize (w_env w)) (pick k) stk \<and> D < CURSOR_STACK \<and>
    (\<exists>db. get_db w (mc_db r) = Some db \<and> cur_pages w r (md_root db) = Some p)"
proof -
  obtain fl db x D p where F: "get_dbflag w (mc_dbflag r) = Some fl" "\<not> any_set fl DB_STALE" "get_db w (mc_db r) = Some db"
    "w_txns w (mc_txn r) = Some x" "\<not> any_set (mt_flags x) MDB_TXN_BLOCKED" "cur_ok w r"
    "md_root db \<noteq> P_INVALID" "1 < md_root db" "D < CURSOR_STACK" "cur_pages w r (md_root db) = Some p"
    "tree_at (w_mem w) (cur_pages w r) (me_psize (w_env w)) D p items"
    "length (mc_pg r) = CURSOR_STACK" "length (mc_ki r) = CURSOR_STACK" "mc_pg r ! 0 = NULL"
    using fresh by (auto simp: fresh_on_def walk_ok_def split: if_splits)
  let ?r = "r\<lparr>mc_pg := (mc_pg r)[0 := p], mc_snum := 1, mc_top := 0\<rparr>"
  have wf: "stack_wf ?r" "path ?r = [] @ [(p, mc_ki r ! 0)]"
    using F(12,13) by (auto simp: stack_wf_def path_def take_Suc_conv_app_nth)
  have same: "same_cur r ?r" by (simp add: same_cur_def)
  have ne: "mc_pg r \<noteq> []" using F(12) by auto
  obtain lvl where get: "mdb_page_get (put_cur w c r) c (md_root db) = Some (MDB_SUCCESS, p, lvl, put_cur w c r)"
    using page_get_addr [of "put_cur w c r" c r] F(10) by (auto simp: cur_pages_def)
  have "mdb_page_search touch (put_cur w c r) c (key k) flags = mdb_page_search_root touch (put_cur w c ?r) c (key k) flags"
    using F(1-5,7,8,14) get ne flags
    by (simp add: mdb_page_search_def page_search_from_root_def set_pg_def upd_cur_def rd_def wr_def)
  also have "\<dots> = page_search_root_loop touch (put_cur w c ?r) c p (key k) flags"
    using top_simps(1) [of "put_cur w c ?r" c ?r] wf by (simp add: mdb_page_search_root_def)
  finally have eq: "mdb_page_search touch (put_cur w c r) c (key k) flags = page_search_root_loop touch (put_cur w c ?r) c p (key k) flags" .
  have node: "at_node (w_mem w) (page_addr w (mc_txn r) (is_ro (mc_flags r))) (me_psize (w_env w)) D p ([] @ [(p, mc_ki r ! 0)]) D [] items []"
    using at_node.root [OF F(11)] by (simp add: cur_pages_def)
  have "picked (w_mem w) (me_psize (w_env w)) (pick k) ([] @ [(p, mc_ki r ! 0)])" by (simp add: picked_def)
  from root_loop [OF node wf _ cur_ok_same [OF same F(6)] _ _ _ ok(2) inv_nil this, of touch c] F(9) ok(1) same_cur_trans [OF same]
  obtain r' stk pre L post where "page_search_root_loop touch (put_cur w c ?r) c p (key k) flags = Some (MDB_SUCCESS, put_cur w c r')"
    "same_cur r r'" "stack_wf r'" "mc_flags r' = clear (mc_flags r OR C_INITIALIZED) C_EOF" "path r' = stk"
    "at_node (w_mem w) (cur_pages w r) (me_psize (w_env w)) D p stk 0 pre (map snd L) post"
    "leaf_rep (w_mem w) (me_psize (w_env w)) (fst (last stk)) L" "inv k pre post" "items = pre @ map snd L @ post"
    "picked (w_mem w) (me_psize (w_env w)) (pick k) stk"
    by (auto simp: cur_pages_def)
  then show ?thesis unfolding eq using F(3,9,10) by blast
qed

end

text \<open>An empty database has no root page.\<close>

lemma page_search_empty:
  assumes "fresh_on w r []"
  shows "mdb_page_search touch (put_cur w c r) c key flags = Some (MDB_NOTFOUND, put_cur w c r)"
  using assms by (auto simp: fresh_on_def walk_ok_def mdb_page_search_def page_search_from_root_def split: if_splits)

section \<open>By a key\<close>

text \<open>Where a position in the items stands to a key.\<close>

definition around :: "u8 list list \<Rightarrow> u8 list \<Rightarrow> u8 list list \<Rightarrow> bool" where
  "around pre kb post \<longleftrightarrow> (\<forall>bs\<in>set pre. node_key bs < kb) \<and> (\<forall>bs\<in>set post. kb < node_key bs)"

lemma in_concat_take: "x \<in> set (concat (take j cs)) \<Longrightarrow> \<exists>a<j. a < length cs \<and> x \<in> set (cs ! a)"
  by (auto simp: set_conv_nth [of "take j cs"])

lemma in_concat_drop: "x \<in> set (concat (drop j cs)) \<Longrightarrow> \<exists>a\<ge>j. a < length cs \<and> x \<in> set (cs ! a)"
proof -
  assume "x \<in> set (concat (drop j cs))"
  then obtain b where "b < length cs - j" "x \<in> set (cs ! (j + b))" by (auto simp: set_conv_nth [of "drop j cs"])
  then show ?thesis by (intro exI [of _ "j + b"]) auto
qed

lemma around_child:
  assumes rep: "branch_rep m psz p L cs" and inner: "around pre kb post"
  shows "around (pre @ concat (take (child_index L kb) cs)) kb (concat (drop (Suc (child_index L kb)) cs) @ post)"
proof -
  let ?j = "child_index L kb"
  have sep: "\<forall>i. 0 < i \<longrightarrow> i < length L \<longrightarrow> (\<forall>bs\<in>set (cs ! (i - 1)). node_key bs < node_key (snd (L ! i))) \<and>
      (\<forall>bs\<in>set (cs ! i). node_key (snd (L ! i)) \<le> node_key bs)" using rep by (auto simp: branch_rep_def)
  note L = branch_repD(6,7,9) [OF rep]
  note C = child_index(1) [OF L(3,1), of kb]
  have "node_key bs < kb" if bs: "bs \<in> set (concat (take ?j cs))" for bs
  proof -
    obtain a where a: "a < ?j" "bs \<in> set (cs ! a)" using in_concat_take [OF bs] by blast
    then have "node_key bs < node_key (snd (L ! Suc a))" "node_key (snd (L ! Suc a)) \<le> kb"
      using sep C child_index(2) [OF L(3,1), of "Suc a" kb] by (auto dest: spec [of _ "Suc a"])
    then show ?thesis by simp
  qed
  moreover have "kb < node_key bs" if bs: "bs \<in> set (concat (drop (Suc ?j) cs))" for bs
  proof -
    obtain a where a: "Suc ?j \<le> a" "a < length L" "bs \<in> set (cs ! a)" using in_concat_drop [OF bs] L(2) by auto
    then have "node_key (snd (L ! a)) \<le> node_key bs" "kb < node_key (snd (L ! a))"
      using sep child_index(2) [OF L(3,1), of a kb] by (auto dest: spec [of _ a])
    then show ?thesis by simp
  qed
  ultimately show ?thesis using inner unfolding around_def set_append by blast
qed

text \<open>A key of this value in memory.\<close>

definition key_ok :: "world \<Rightarrow> MDB_val \<times> u8 list \<Rightarrow> bool" where
  "key_ok w k \<longleftrightarrow> val_bytes (w_mem w) (fst k) = Some (snd k) \<and> length (snd k) < 2 ^ 32"

lemma descend_index_key:
  assumes cur: "stack_wf r" "0 < mc_snum r" "fst (last (path r)) = p" "cur_ok w r"
    and key: "val_bytes (w_mem w) key = Some kb" "length kb < 2 ^ 32" and rep: "branch_rep (w_mem w) psz p L cs"
  shows "\<exists>i. search_root_index (put_cur w c r) c p (Some key) 0 = Some (child_index L kb, False, put_cur w c (set_ki r i))"
proof -
  define K where "K = map (node_key \<circ> snd) (drop (first_key False) L)"
  define i where "i = first_key False + length (filter (\<lambda>a. a < kb) K)"
  have K: "K = map (node_key \<circ> snd) (tl L)" by (simp add: K_def first_key_def drop_Suc)
  note B = branch_repD(3,4,5,6,9) [OF rep]
  have rep': "(\<exists>u. page_rep (w_mem (put_cur w c r)) p psz False u L) \<and> IS_BRANCH (w_mem (put_cur w c r)) p = Some (\<not> False)"
    "\<forall>bs \<in> set (map snd L). keys_in bs" using rep by (simp_all add: branch_rep_def)
  have srch: "mdb_node_search (put_cur w c r) c key =
      Some (if i < length L then Some (padd p (fst (L ! i))) else None, kb \<in> set K, put_cur w c (set_ki r i))"
    using node_search_tree [OF _ cur(1,2,3) _ rep'(1) _ key(2) rep'(2) _ _ K_def i_def, of c key] cur(4) key(1) B(2,5)
    by (simp add: first_key_def drop_Suc)
  have ki: "top_ki (put_cur w c (set_ki r i)) c = Some i"
    using top_simps(2) [of "put_cur w c (set_ki r i)" c "set_ki r i"] cur set_ki_path [OF cur(1,2), of i] by simp
  have ci: "child_index L kb = (if kb \<in> set K then i else i - 1)"
    by (simp add: child_index_def K [symmetric] i_def first_key_def Let_def)
  have len: "i \<le> length L" "0 < i"
    using B(2) length_filter_le [of "\<lambda>a. a < kb" K] by (auto simp: K i_def first_key_def)
  have ex: "kb \<in> set K \<Longrightarrow> i < length L"
    using child_index(1) [OF B(5,4), of kb] ci by auto
  have "u32 (length L + (2 ^ 32 - 1)) mod 2 ^ 16 = length L - 1" using last16 [of "length L"] B(3,4) by simp
  moreover have "mc_dbi r = 0 \<or> 1 < length L" using B(2) by simp
  ultimately show ?thesis
    using srch B(1) ki ci len ex
    by (intro exI [of _ i], cases "i < length L"; cases "kb \<in> set K") (simp_all add: search_root_index_def)
qed

interpretation by_key: descent "\<lambda>k. Some (fst k)" 0 key_ok "\<lambda>_. True" "\<lambda>k L. child_index L (snd k)"
  "\<lambda>k pre post. around pre (snd k) post"
proof unfold_locales
  show "child_index L (snd k) < length L" if "branch_rep m psz p L cs" for m psz p L cs and k :: "MDB_val \<times> u8 list"
    using child_index(1) branch_repD(6,9) [OF that] by blast
  show "\<exists>i. search_root_index (put_cur w c r) c p (Some (fst k)) 0 = Some (child_index L (snd k), False, put_cur w c (set_ki r i))"
    if "stack_wf r" "0 < mc_snum r" "fst (last (path r)) = p" "cur_ok w r" "key_ok w k" "branch_rep (w_mem w) psz p L cs"
    for r p w and k :: "MDB_val \<times> u8 list" and psz L cs c
    using descend_index_key [OF that(1-4) _ _ that(6)] that(5) by (simp add: key_ok_def)
  show "around (pre @ concat (take (child_index L (snd k)) cs)) (snd k) (concat (drop (Suc (child_index L (snd k))) cs) @ post)"
    if "branch_rep m psz p L cs" "around pre (snd k) post" for m psz p L cs pre and k :: "MDB_val \<times> u8 list" and post
    by (rule around_child [OF that])
qed (simp_all add: around_def)

section \<open>To the first and the last leaf\<close>

interpretation to_first: descent "\<lambda>_ :: unit. None" MDB_PS_FIRST "\<lambda>_ _. True" "\<lambda>_. True" "\<lambda>_ _. 0" "\<lambda>_ pre _. pre = []"
proof unfold_locales
  show "0 < length L" if "branch_rep m psz p L cs" for m psz p L cs using branch_repD(6) [OF that] by simp
  show "\<exists>i. search_root_index (put_cur w c r) c p None MDB_PS_FIRST = Some (0, False, put_cur w c (set_ki r i))"
    if "branch_rep (w_mem w) psz p L cs" for r p w psz L cs c
    using branch_repD(3,4) [OF that] by (intro exI [of _ "mc_ki r ! mc_top r"]) (simp add: search_root_index_def any_set_def set_ki_def)
qed (auto simp: any_set_def)

interpretation to_last: descent "\<lambda>_ :: unit. None" MDB_PS_LAST "\<lambda>_ _. True" "\<lambda>fl. \<not> any_set fl C_INITIALIZED" "\<lambda>_ L. length L - 1"
  "\<lambda>_ _ post. post = []"
proof unfold_locales
  show "length L - 1 < length L" if "branch_rep m psz p L cs" for m psz p L cs using branch_repD(6) [OF that] by simp
  show "\<exists>i. search_root_index (put_cur w c r) c p None MDB_PS_LAST = Some (length L - 1, False, put_cur w c (set_ki r i))"
    if "stack_wf r" "0 < mc_snum r" "branch_rep (w_mem w) psz p L cs" "\<not> any_set (mc_flags r) C_INITIALIZED" for r p w psz L cs c
    using branch_repD(3,4,5,6) [OF that(3)] last16 [of "length L"] that(4) top_simps(2) [of "put_cur w c r" c r] that(1,2)
    by (intro exI [of _ "mc_ki r ! mc_top r"]) (simp add: search_root_index_def set_ki_def, simp add: any_set_def)
  show "concat (drop (Suc (length L - 1)) cs) @ post = []" if "branch_rep m psz p L cs" "post = []" for m psz p L cs post
    using branch_repD(6,7) [OF that(1)] that(2) by simp
qed (auto simp: any_set_def)

end
