(* ===== verification/Get_Spec.thy ===== *)
theory Get_Spec
  imports Descent_Spec
begin

text \<open>
  \<^verbatim>\<open>mdb_get\<close> is lookup in the table that the pages of the database represent.
\<close>

section \<open>The table of a database\<close>

text \<open>The table the items represent, as pairs of key and value.\<close>

definition table :: "mem \<Rightarrow> (u64 \<Rightarrow> ptr option) \<Rightarrow> u8 list list \<Rightarrow> (u8 list \<times> u8 list) list" where
  "table m pg items = map (\<lambda>bs. (node_key bs, the (item_value m pg bs))) items"

definition plain_items :: "mem \<Rightarrow> (u64 \<Rightarrow> ptr option) \<Rightarrow> u8 list list \<Rightarrow> bool" where
  "plain_items m pg items \<longleftrightarrow> (\<forall>bs\<in>set items. item_value m pg bs \<noteq> None \<and> \<not> F_ISSET (node_flags bs) F_DUPDATA)"

lemma map_of_table_around:
  assumes "around pre kb post" "j < length L" "node_key (L ! j) = kb" "sorted_wrt (<) (map node_key L)"
  shows "map_of (table m pg (pre @ L @ post)) kb = Some (the (item_value m pg (L ! j)))"
proof -
  have "map_of (table m pg pre) kb = None"
    using assms(1) by (auto simp: around_def table_def map_of_eq_None_iff)
  moreover have "distinct (map node_key L)" using assms(4) by (simp add: strict_sorted_iff)
  then have "map_of (table m pg L) kb = Some (the (item_value m pg (L ! j)))"
    using assms(2,3) unfolding table_def by (intro map_of_is_SomeI) (auto simp: comp_def)
  ultimately show ?thesis by (simp add: table_def map_add_def)
qed

lemma map_of_table_absent:
  assumes "around pre kb post" "kb \<notin> set (map node_key L)"
  shows "map_of (table m pg (pre @ L @ post)) kb = None"
  using assms by (auto simp: around_def table_def map_of_eq_None_iff)

lemma is_ro_flags [simp]: "is_ro (clear (fl OR C_INITIALIZED) C_EOF) = is_ro fl"
proof -
  have "(fl OR 1) AND NOT 2 AND (C_ORIG_RDONLY OR C_WRITEMAP) = fl AND (C_ORIG_RDONLY OR C_WRITEMAP)"
    by (simp add: and.assoc bit.conj_disj_distrib2)
  then show ?thesis by (simp only: is_ro_def any_set_def clear_def and.assoc)
qed

text \<open>A cursor \<open>r'\<close> that the search for a key has moved to the leaf with the nodes \<open>L\<close>.\<close>

definition found_leaf ::
  "world \<Rightarrow> MDB_cursor \<Rightarrow> u8 list list \<Rightarrow> u8 list \<Rightarrow> MDB_cursor \<Rightarrow> nat \<Rightarrow> ptr \<Rightarrow> u8 list list \<Rightarrow> (nat \<times> u8 list) list \<Rightarrow> u8 list list \<Rightarrow> bool" where
  "found_leaf w r items kb r' D p pre L post \<longleftrightarrow> same_cur r r' \<and> stack_wf r' \<and> mc_flags r' = clear (mc_flags r OR C_INITIALIZED) C_EOF \<and>
     at_node (w_mem w) (cur_pages w r) (me_psize (w_env w)) D p (path r') 0 pre (map snd L) post \<and>
     leaf_rep (w_mem w) (me_psize (w_env w)) (fst (last (path r'))) L \<and> around pre kb post \<and> items = pre @ map snd L @ post \<and>
     picked (w_mem w) (me_psize (w_env w)) (\<lambda>L. child_index L kb) (path r') \<and> D < CURSOR_STACK \<and>
     (\<exists>db. get_db w (mc_db r) = Some db \<and> cur_pages w r (md_root db) = Some p)"

lemma found_leaf_snum: "found_leaf w r items kb r' D p pre L post \<Longrightarrow> 0 < mc_snum r'"
  unfolding found_leaf_def using at_node_tree length_path by (metis length_greater_0_conv)

text \<open>The slot the key belongs to, and the cursor after \<^verbatim>\<open>mdb_cursor_set\<close> with an exact match.\<close>

abbreviation (input) leaf_index :: "(nat \<times> u8 list) list \<Rightarrow> u8 list \<Rightarrow> nat" where
  "leaf_index L kb \<equiv> length (filter (\<lambda>k. k < kb) (map (node_key \<circ> snd) L))"

definition set_found :: "MDB_cursor \<Rightarrow> nat \<Rightarrow> MDB_cursor" where
  "set_found r i = (set_ki r i)\<lparr>mc_flags := clear (mc_flags r OR C_INITIALIZED) C_EOF\<rparr>"

lemma cursor_set_position_any:
  assumes fresh: "fresh_on w r items" "items \<noteq> []"
    and key: "val_bytes (w_mem w) key = Some kb" "length kb < 2 ^ 32" "mv_size key \<noteq> 0"
  shows "\<exists>r' D p pre L post. found_leaf w r items kb r' D p pre L post \<and>
    (kb \<notin> set (map (node_key \<circ> snd) L) \<longrightarrow> (\<forall>dat. mdb_cursor_set (Suc n) touch (put_cur w c r) c key dat MDB_SET (Some False) =
        Some (MDB_NOTFOUND, key, dat, Some False, put_cur w c (set_ki r' (leaf_index L kb))))) \<and>
    (kb \<in> set (map (node_key \<circ> snd) L) \<longrightarrow> leaf_index L kb < length L \<and> node_key (snd (L ! leaf_index L kb)) = kb \<and>
      (\<forall>v. item_value (w_mem w) (cur_pages w r) (snd (L ! leaf_index L kb)) = Some v \<longrightarrow>
        \<not> F_ISSET (node_flags (snd (L ! leaf_index L kb))) F_DUPDATA \<longrightarrow>
        (\<forall>d0. \<exists>d. mdb_cursor_set (Suc n) touch (put_cur w c r) c key (Some d0) MDB_SET (Some False) =
            Some (MDB_SUCCESS, key, Some d, Some True, put_cur w c (set_found r' (leaf_index L kb))) \<and> val_bytes (w_mem w) d = Some v)) \<and>
      (\<not> F_ISSET (node_flags (snd (L ! leaf_index L kb))) F_DUPDATA \<longrightarrow>
        mdb_cursor_set (Suc n) touch (put_cur w c r) c key None MDB_SET (Some False) =
          Some (MDB_SUCCESS, key, None, Some True, put_cur w c (set_found r' (leaf_index L kb)))))"
proof -
  have cur: "mc_xcursor r = None" "\<not> any_set (mc_flags r) C_INITIALIZED" "length (mc_pg r) = CURSOR_STACK" "mc_pg r ! 0 = NULL" "cur_ok w r" "mc_top r = 0"
    using fresh by (auto simp: fresh_on_def walk_ok_def)
  have "(mc_pg r)[0 := NULL] = mc_pg r" using cur(4) by (metis list_update_id)
  then have s0: "set_pg (put_cur w c r) c 0 NULL = Some (put_cur w c r)"
    using cur(3) by (cases r) (auto simp: set_pg_def wr_def)
  have x0: "xcursor_reset (put_cur w c r) c = Some (put_cur w c r)" using cur(1) by (simp add: xcursor_reset_def)
  let ?pg = "cur_pages w r"
  have ko: "key_ok w (key, kb)" using key by (simp add: key_ok_def)
  obtain r' D p pre L post where run: "mdb_page_search touch (put_cur w c r) c (Some key) 0 = Some (MDB_SUCCESS, put_cur w c r')"
    and F: "found_leaf w r items kb r' D p pre L post"
    using by_key.page_search [OF fresh TrueI ko, of touch c] by (auto simp: found_leaf_def)
  define lp where "lp = fst (last (path r'))"
  have lr: "leaf_rep (w_mem w) (me_psize (w_env w)) lp L" and same': "same_cur r r'" and wf: "stack_wf r'"
    and fl': "mc_flags r' = clear (mc_flags r OR C_INITIALIZED) C_EOF" using F by (simp_all add: found_leaf_def lp_def)
  note P = leaf_repD [OF lr]
  note sn = found_leaf_snum [OF F]
  define K where "K = map (node_key \<circ> snd) L"
  define i where "i = length (filter (\<lambda>k. k < kb) K)"
  have rep: "(\<exists>u. page_rep (w_mem (put_cur w c r')) lp (me_psize (w_env w)) True u L) \<and> IS_BRANCH (w_mem (put_cur w c r')) lp = Some (\<not> True)"
    using lr by (simp add: leaf_rep_def)
  have ns: "mdb_node_search (put_cur w c r') c key =
      Some (if i < length L then Some (padd lp (fst (L ! i))) else None, kb \<in> set K, put_cur w c (set_ki r' i))"
    using node_search_tree [of "put_cur w c r'" c r' lp "me_psize (w_env w)" True L key kb K i] wf sn cur_ok_same [OF same' cur(5)] rep P(9,10) key(1,2)
    by (simp add: K_def i_def first_key_def lp_def)
  have tp: "top_pg (put_cur w c r') c = Some lp" using top_simps(1) [of "put_cur w c r'" c r'] wf sn by (simp add: lp_def)
  let ?r1 = "set_found r' i"
  have absent: "mdb_cursor_set (Suc n) touch (put_cur w c r) c key dat MDB_SET (Some False) =
      Some (MDB_NOTFOUND, key, dat, Some False, put_cur w c (set_ki r' i))" if "kb \<notin> set K" for dat
    using that key(3) x0 cur(2) s0 run tp ns P(2) by simp
  have present: "i < length L \<and> node_key (snd (L ! i)) = kb" if "kb \<in> set K"
  proof -
    have "i + 1 \<le> length K \<and> (\<forall>j<length K. j < i + 1 \<longleftrightarrow> K ! j \<le> kb)"
      using separator_index [of K "i + 1" kb i] P(10) that by (simp add: K_def i_def)
    then have ik: "i < length K" "K ! i \<le> kb" by (auto dest: spec [of _ i])
    moreover have "\<not> K ! i < kb" using length_filter_less [of K i kb] P(10) ik(1) by (simp add: K_def i_def)
    ultimately have "K ! i = kb" by simp
    with ik(1) show ?thesis by (auto simp: K_def)
  qed
  have fl1: "or_flags (put_cur w c (set_ki r' i)) c C_INITIALIZED = Some (put_cur w c ((set_ki r' i)\<lparr>mc_flags := mc_flags r' OR C_INITIALIZED\<rparr>))"
    by (simp add: or_flags_def upd_cur_def)
  have fl2: "clear_flags (put_cur w c ((set_ki r' i)\<lparr>mc_flags := mc_flags r' OR C_INITIALIZED\<rparr>)) c C_EOF = Some (put_cur w c ?r1)"
    by (simp add: clear_flags_def upd_cur_def set_found_def)
  have found_none: "mdb_cursor_set (Suc n) touch (put_cur w c r) c key None MDB_SET (Some False) =
      Some (MDB_SUCCESS, key, None, Some True, put_cur w c ?r1)"
    if "kb \<in> set K" "\<not> F_ISSET (node_flags (snd (L ! i))) F_DUPDATA"
    using key(3) x0 cur(2) s0 run tp ns P(2,3) that present [OF that(1)] fl1 fl2 node_fields(2) [OF P(7,8)] by simp
  have found: "\<exists>d. mdb_cursor_set (Suc n) touch (put_cur w c r) c key (Some d0) MDB_SET (Some False) =
        Some (MDB_SUCCESS, key, Some d, Some True, put_cur w c ?r1) \<and> val_bytes (w_mem w) d = Some v"
    if "kb \<in> set K" "item_value (w_mem w) ?pg (snd (L ! i)) = Some v" "\<not> F_ISSET (node_flags (snd (L ! i))) F_DUPDATA" for v d0
  proof -
    note iv = that(2)
    have i: "i < length L" using present [OF that(1)] by simp
    note N = P(7,8) [OF i]
    obtain d where d: "mdb_node_read (put_cur w c ?r1) c (padd lp (fst (L ! i))) d0 = Some (MDB_SUCCESS, d, put_cur w c ?r1)"
      "val_bytes (w_mem w) d = Some v"
      using node_read_value [of "put_cur w c ?r1" "padd lp (fst (L ! i))" _ "snd (L ! i)" c ?r1] N iv fl' same'
      by (fastforce simp: same_cur_def set_ki_def set_found_def cur_pages_def)
    have x1: "xcursor_reset (put_cur w c ?r1) c = Some (put_cur w c ?r1)"
      using cur(1) same' by (simp add: xcursor_reset_def same_cur_def set_ki_def set_found_def)
    have "mdb_cursor_set (Suc n) touch (put_cur w c r) c key (Some d0) MDB_SET (Some False) =
        Some (MDB_SUCCESS, key, Some d, Some True, put_cur w c ?r1)"
      using key(3) x0 cur(2) s0 run tp ns P(2,3) that(1,3) i fl1 fl2 x1 d(1) node_fields(2) [OF N]
      by (simp add: cursor_set_data_def)
    then show ?thesis using d(2) by blast
  qed
  show ?thesis using F absent present found found_none unfolding K_def i_def by blast
qed

lemma cursor_set_position:
  assumes fresh: "fresh_on w r items" "items \<noteq> []"
    and key: "val_bytes (w_mem w) key = Some kb" "length kb < 2 ^ 32" "mv_size key \<noteq> 0"
  shows "\<exists>r' D p pre L post. found_leaf w r items kb r' D p pre L post \<and>
    (kb \<notin> set (map (node_key \<circ> snd) L) \<longrightarrow>
      mdb_cursor_set (Suc n) touch (put_cur w c r) c key (Some d0) MDB_SET (Some False) =
        Some (MDB_NOTFOUND, key, Some d0, Some False, put_cur w c (set_ki r' (leaf_index L kb)))) \<and>
    (kb \<in> set (map (node_key \<circ> snd) L) \<longrightarrow> leaf_index L kb < length L \<and> node_key (snd (L ! leaf_index L kb)) = kb \<and>
      (\<forall>v. item_value (w_mem w) (cur_pages w r) (snd (L ! leaf_index L kb)) = Some v \<longrightarrow>
        \<not> F_ISSET (node_flags (snd (L ! leaf_index L kb))) F_DUPDATA \<longrightarrow>
        (\<exists>d. mdb_cursor_set (Suc n) touch (put_cur w c r) c key (Some d0) MDB_SET (Some False) =
            Some (MDB_SUCCESS, key, Some d, Some True, put_cur w c (set_found r' (leaf_index L kb))) \<and> val_bytes (w_mem w) d = Some v)))"
  using cursor_set_position_any [OF assms, of n touch c] by blast

lemma cursor_set_tree:
  assumes fresh: "fresh_on w r items" and plain: "plain_items (w_mem w) (cur_pages w r) items"
    and key: "val_bytes (w_mem w) key = Some kb" "length kb < 2 ^ 32" "mv_size key \<noteq> 0"
  shows "\<exists>rc d ex r'. mdb_cursor_set (Suc n) touch (put_cur w c r) c key (Some d0) MDB_SET (Some False) =
      Some (rc, key, Some d, ex, put_cur w c r') \<and>
    (case map_of (table (w_mem w) (cur_pages w r) items) kb of
       None \<Rightarrow> rc = MDB_NOTFOUND \<and> d = d0
     | Some v \<Rightarrow> rc = MDB_SUCCESS \<and> val_bytes (w_mem w) d = Some v)"
proof (cases "items = []")
  case True
  have cur: "mc_xcursor r = None" "\<not> any_set (mc_flags r) C_INITIALIZED" "length (mc_pg r) = CURSOR_STACK" "mc_pg r ! 0 = NULL" "mc_top r = 0"
    using fresh by (auto simp: fresh_on_def walk_ok_def)
  have "(mc_pg r)[0 := NULL] = mc_pg r" using cur(4) by (metis list_update_id)
  then have s0: "set_pg (put_cur w c r) c 0 NULL = Some (put_cur w c r)"
    using cur(3) by (cases r) (auto simp: set_pg_def wr_def)
  have x0: "xcursor_reset (put_cur w c r) c = Some (put_cur w c r)" using cur(1) by (simp add: xcursor_reset_def)
  have ps: "mdb_page_search touch (put_cur w c r) c (Some key) 0 = Some (MDB_NOTFOUND, put_cur w c r)"
    by (rule page_search_empty) (use fresh True in simp)
  have "top_pg (put_cur w c r) c = Some (mc_pg r ! 0)" using cur(3,5) by (auto simp: top_pg_def rd_def)
  then have "mdb_cursor_set (Suc n) touch (put_cur w c r) c key (Some d0) MDB_SET (Some False) =
      Some (MDB_NOTFOUND, key, Some d0, Some False, put_cur w c r)"
    using key(3) x0 cur(2) s0 ps by simp
  then show ?thesis using True by (auto simp: table_def simp del: mdb_cursor_set.simps)
next
  case False
  let ?run = "mdb_cursor_set (Suc n) touch (put_cur w c r) c key (Some d0) MDB_SET (Some False)" and ?pg = "cur_pages w r"
  obtain r' D p pre L post where F: "found_leaf w r items kb r' D p pre L post"
    and absent: "kb \<notin> set (map (node_key \<circ> snd) L) \<Longrightarrow> ?run = Some (MDB_NOTFOUND, key, Some d0, Some False, put_cur w c (set_ki r' (leaf_index L kb)))"
    and present: "kb \<in> set (map (node_key \<circ> snd) L) \<Longrightarrow> leaf_index L kb < length L \<and> node_key (snd (L ! leaf_index L kb)) = kb \<and>
      (\<forall>v. item_value (w_mem w) ?pg (snd (L ! leaf_index L kb)) = Some v \<longrightarrow> \<not> F_ISSET (node_flags (snd (L ! leaf_index L kb))) F_DUPDATA \<longrightarrow>
        (\<exists>d. ?run = Some (MDB_SUCCESS, key, Some d, Some True, put_cur w c (set_found r' (leaf_index L kb))) \<and> val_bytes (w_mem w) d = Some v))"
    using cursor_set_position [OF fresh False key, of n touch c d0] by blast
  define i where "i = leaf_index L kb"
  have around: "around pre kb post" and items: "items = pre @ map snd L @ post" and lr: "leaf_rep (w_mem w) (me_psize (w_env w)) (fst (last (path r'))) L"
    using F by (simp_all add: found_leaf_def)
  show ?thesis
  proof (cases "kb \<in> set (map (node_key \<circ> snd) L)")
    case False
    have "map_of (table (w_mem w) ?pg items) kb = None"
      unfolding items by (rule map_of_table_absent [OF around]) (use False in \<open>simp add: comp_def\<close>)
    then show ?thesis unfolding absent [OF False] by auto
  next
    case True
    note i = present [OF True, folded i_def]
    have srt: "sorted_wrt (<) (map node_key (map snd L))" using leaf_repD(10) [OF lr] by (simp add: comp_def)
    have val: "map_of (table (w_mem w) ?pg items) kb = Some (the (item_value (w_mem w) ?pg (snd (L ! i))))"
      using map_of_table_around [OF around, of i "map snd L" "w_mem w" ?pg] i srt unfolding items by simp
    have "snd (L ! i) \<in> set items" using i items by simp
    then have "item_value (w_mem w) ?pg (snd (L ! i)) \<noteq> None" "\<not> F_ISSET (node_flags (snd (L ! i))) F_DUPDATA"
      using plain by (auto simp: plain_items_def)
    then obtain v d where "item_value (w_mem w) ?pg (snd (L ! i)) = Some v"
      "?run = Some (MDB_SUCCESS, key, Some d, Some True, put_cur w c (set_found r' i))" "val_bytes (w_mem w) d = Some v"
      using i by blast
    then show ?thesis using val by (auto simp del: mdb_cursor_set.simps)
  qed
qed

section \<open>Handles\<close>

text \<open>
  A database handle of a transaction whose pages are such a tree: no sorted duplicates, keys in
  the default order, the record not stale, the transaction usable; no tree without items.
\<close>

definition db_pages :: "world \<Rightarrow> tid \<Rightarrow> u64 \<Rightarrow> ptr option" where
  "db_pages w t = (case w_txns w t of None \<Rightarrow> (\<lambda>_. None) | Some x \<Rightarrow> page_addr w t (is_ro (mt_flags x)))"

definition db_holds :: "world \<Rightarrow> tid \<Rightarrow> nat \<Rightarrow> u8 list list \<Rightarrow> bool" where
  "db_holds w t dbi items \<longleftrightarrow> (\<exists>x db fl dbx. w_txns w t = Some x \<and> dbi < mt_numdbs x \<and> \<not> any_set (mt_flags x) MDB_TXN_BLOCKED \<and>
     rd (mt_dbs x) dbi = Some db \<and> \<not> any_set (md_flags db) MDB_DUPSORT \<and>
     rd (mt_dbflags x) dbi = Some fl \<and> any_set fl DB_USRVALID \<and> any_set fl DB_VALID \<and> \<not> any_set fl DB_STALE \<and>
     rd (me_dbxs (w_env w)) dbi = Some dbx \<and> md_cmp dbx = Some Cmp_memn \<and>
     (if md_root db = P_INVALID then items = []
      else items \<noteq> [] \<and> 1 < md_root db \<and> (\<exists>D p. D < CURSOR_STACK \<and> db_pages w t (md_root db) = Some p \<and>
        tree_at (w_mem w) (db_pages w t) (me_psize (w_env w)) D p items)))"

lemma is_ro_mask [simp]: "is_ro (fl AND (C_ORIG_RDONLY OR C_WRITEMAP)) = is_ro fl"
  by (simp add: is_ro_def any_set_def and.assoc)

lemma mask_bits [simp]:
  "\<not> any_set (fl AND (C_ORIG_RDONLY OR C_WRITEMAP)) C_INITIALIZED" "\<not> any_set (fl AND (C_ORIG_RDONLY OR C_WRITEMAP)) C_DEL"
  by (simp_all add: any_set_def and.assoc)

definition init_cur :: "tid \<Rightarrow> nat \<Rightarrow> u32 \<Rightarrow> MDB_cursor" where
  "init_cur t dbi fl = blank_cursor\<lparr>mc_txn := t, mc_dbi := dbi, mc_db := TxnDb t dbi, mc_dbx := TxnDb t dbi, mc_dbflag := TxnDb t dbi,
     mc_flags := fl AND (C_ORIG_RDONLY OR C_WRITEMAP)\<rparr>"

lemma init_cur_simps [simp]:
  "mc_xcursor (init_cur t dbi fl) = None" "mc_txn (init_cur t dbi fl) = t" "mc_db (init_cur t dbi fl) = TxnDb t dbi"
  "mc_dbx (init_cur t dbi fl) = TxnDb t dbi" "mc_dbflag (init_cur t dbi fl) = TxnDb t dbi" "mc_top (init_cur t dbi fl) = 0"
  "length (mc_pg (init_cur t dbi fl)) = CURSOR_STACK" "length (mc_ki (init_cur t dbi fl)) = CURSOR_STACK" "mc_pg (init_cur t dbi fl) ! 0 = NULL"
  "is_ro (mc_flags (init_cur t dbi fl)) = is_ro fl" "\<not> any_set (mc_flags (init_cur t dbi fl)) C_INITIALIZED"
  "\<not> any_set (mc_flags (init_cur t dbi fl)) C_DEL"
  using is_ro_mask [of fl] mask_bits [of fl] by (simp_all add: init_cur_def blank_cursor_def del: is_ro_mask mask_bits)

text \<open>\<^verbatim>\<open>mdb_cursor_init\<close> sets up a cursor that is fresh on the items of the database.\<close>

lemma cursor_init_fresh:
  assumes holds: "db_holds w t dbi items" and x: "w_txns w t = Some x"
    and w2: "w_mem w2 = w_mem w" "w_txns w2 = w_txns w" "w_env w2 = w_env w" "w_cursors w2 c = Some blank_cursor"
  shows "mdb_cursor_init touch w2 c t dbi mx = Some (put_cur w2 c (init_cur t dbi (mt_flags x)))"
    and "fresh_on w2 (init_cur t dbi (mt_flags x)) items" and "cur_pages w2 (init_cur t dbi (mt_flags x)) = db_pages w t"
proof -
  have rep: "(replicate 32 NULL)[0 := NULL] = replicate 32 NULL" "(replicate 32 (0::nat))[0 := 0] = replicate 32 0"
    by (simp_all add: list_update_same_conv)
  have "page_addr w2 = page_addr w" by (rule ext, rule ext, rule page_addr_cong) (simp_all add: w2)
  then show pg: "cur_pages w2 (init_cur t dbi (mt_flags x)) = db_pages w t" using x by (simp add: cur_pages_def db_pages_def)
  obtain db fl dbx where X: "\<not> any_set (mt_flags x) MDB_TXN_BLOCKED" "rd (mt_dbs x) dbi = Some db" "\<not> any_set (md_flags db) MDB_DUPSORT"
     "rd (mt_dbflags x) dbi = Some fl" "\<not> any_set fl DB_STALE" "rd (me_dbxs (w_env w)) dbi = Some dbx" "md_cmp dbx = Some Cmp_memn"
     "if md_root db = P_INVALID then items = []
      else items \<noteq> [] \<and> 1 < md_root db \<and> (\<exists>D p. D < CURSOR_STACK \<and> db_pages w t (md_root db) = Some p \<and>
        tree_at (w_mem w) (db_pages w t) (me_psize (w_env w)) D p items)"
    using holds x by (auto simp: db_holds_def)
  show "mdb_cursor_init touch w2 c t dbi mx = Some (put_cur w2 c (init_cur t dbi (mt_flags x)))"
    using x X w2 rep by (simp add: mdb_cursor_init_def cursor_init_fields_def upd_cur_def init_cur_def blank_cursor_def)
  have "walk_ok w2 (init_cur t dbi (mt_flags x))" using x X w2 by (simp add: walk_ok_def cur_ok_def)
  then show "fresh_on w2 (init_cur t dbi (mt_flags x)) items" using x X w2 pg by (auto simp: fresh_on_def split: if_splits)
qed

lemma mdb_get_lookup:
  assumes holds: "db_holds w t dbi items" and plain: "plain_items (w_mem w) (db_pages w t) items"
    and key: "val_bytes (w_mem w) key = Some kb" "length kb < 2 ^ 32" "mv_size key \<noteq> 0"
  shows "\<exists>rc d w'. mdb_get touch w (Some t) dbi (Some key) (Some d0) = Some (rc, Some d, w') \<and>
      w_mem w' = w_mem w \<and> w_txns w' = w_txns w \<and> w_env w' = w_env w \<and>
    (case map_of (table (w_mem w) (db_pages w t) items) kb of
       None \<Rightarrow> rc = MDB_NOTFOUND \<and> d = d0
     | Some v \<Rightarrow> rc = MDB_SUCCESS \<and> val_bytes (w_mem w) d = Some v)"
proof -
  obtain x fl where X: "w_txns w t = Some x" "dbi < mt_numdbs x" "\<not> any_set (mt_flags x) MDB_TXN_BLOCKED"
     "rd (mt_dbflags x) dbi = Some fl" "any_set fl DB_USRVALID"
    using holds by (auto simp: db_holds_def)
  define c where "c = w_next w"
  define w2 where "w2 = snd (new_xcursor (snd (new_cursor w)))"
  let ?r = "init_cur t dbi (mt_flags x)"
  have w2: "w_mem w2 = w_mem w" "w_txns w2 = w_txns w" "w_env w2 = w_env w" "w_cursors w2 c = Some blank_cursor"
    by (simp_all add: w2_def new_xcursor_def new_cursor_def c_def)
  note I = cursor_init_fresh [OF holds X(1) w2]
  have get: "mdb_get touch w (Some t) dbi (Some key) (Some d0) = (do {
      (rc, _, data, _, w) \<leftarrow> mdb_cursor_set 2 touch (put_cur w2 c ?r) c key (Some d0) MDB_SET (Some False);
      Some (rc, data, drop_cursor (drop_cursor w (c + 1)) c) })"
    using X I(1) by (simp add: mdb_get_def TXN_DBI_EXIST_def w2_def new_cursor_def new_xcursor_def c_def)
  obtain rc d ex r' where run: "mdb_cursor_set 2 touch (put_cur w2 c ?r) c key (Some d0) MDB_SET (Some False) =
      Some (rc, key, Some d, ex, put_cur w2 c r')"
    and res: "case map_of (table (w_mem w) (db_pages w t) items) kb of
       None \<Rightarrow> rc = MDB_NOTFOUND \<and> d = d0
     | Some v \<Rightarrow> rc = MDB_SUCCESS \<and> val_bytes (w_mem w) d = Some v"
    using cursor_set_tree [OF I(2), of key kb 1 touch c d0] plain key w2(1) I(3)
    by (auto simp only: numeral_2_eq_2 One_nat_def)
  show ?thesis unfolding get run
    by (intro exI [of _ rc] exI [of _ d] exI [of _ "drop_cursor (drop_cursor (put_cur w2 c r') (c + 1)) c"])
      (use res w2 in \<open>simp add: drop_cursor_def\<close>)
qed

text \<open>\<^verbatim>\<open>mdb_cursor_open\<close> in a read-only transaction, which keeps no list of its cursors.\<close>

lemma cursor_open_fresh:
  assumes holds: "db_holds w t dbi items" and x: "w_txns w t = Some x" "mt_cursors x = None" "F_ISSET (mt_flags x) MDB_TXN_RDONLY"
    and mem: "w_malloc w (w_calls w) \<noteq> None"
  shows "\<exists>c w2 r. mdb_cursor_open touch w (Some t) dbi = Some (MDB_SUCCESS, Some c, put_cur w2 c r) \<and> w_mem w2 = w_mem w \<and>
    fresh_on w2 r items \<and> cur_pages w2 r = db_pages w t"
proof -
  obtain fl where X: "dbi < mt_numdbs x" "\<not> any_set (mt_flags x) MDB_TXN_BLOCKED"
     "rd (mt_dbflags x) dbi = Some fl" "any_set fl DB_VALID"
    using holds x(1) by (auto simp: db_holds_def)
  define c where "c = w_next w"
  define w2 where "w2 = snd (new_xcursor (snd (new_cursor (tick w))))"
  have w2: "w_mem w2 = w_mem w" "w_txns w2 = w_txns w" "w_env w2 = w_env w" "w_cursors w2 c = Some blank_cursor"
    by (simp_all add: w2_def new_xcursor_def new_cursor_def c_def tick_def)
  note I = cursor_init_fresh [OF holds x(1) w2]
  have "mdb_cursor_open touch w (Some t) dbi = Some (MDB_SUCCESS, Some c, put_cur w2 c (init_cur t dbi (mt_flags x)))"
    using x X I(1) w2(2) mem
    by (simp add: mdb_cursor_open_def TXN_DBI_EXIST_def w2_def new_cursor_def new_xcursor_def c_def tick_def)
  then show ?thesis using I(2,3) w2(1) by blast
qed

end
