(* ===== verification/Walk_Spec.thy ===== *)
theory Walk_Spec
  imports Get_Spec
begin

text \<open>
  Moving a cursor over the tree of a database: \<^verbatim>\<open>mdb_cursor_sibling\<close> goes to the page next
  to the current one, and with \<^verbatim>\<open>mdb_cursor_first\<close>, \<^verbatim>\<open>_next\<close>, \<^verbatim>\<open>_last\<close> and \<^verbatim>\<open>_prev\<close> a cursor
  visits the items in order.
\<close>

section \<open>Popping a page\<close>

definition popped :: "MDB_cursor \<Rightarrow> MDB_cursor" where
  "popped r = r\<lparr>mc_snum := mc_snum r - 1, mc_top := mc_top r - 1\<rparr>"

lemma cursor_pop_rec:
  assumes "stack_wf r" "1 < mc_snum r"
  shows "mdb_cursor_pop (put_cur w c r) c = Some (put_cur w c (popped r))"
proof -
  have "dec16 (mc_top r) = mc_top r - 1" using assms by (intro dec16_pos) (auto simp: stack_wf_def)
  then show ?thesis using assms by (simp add: mdb_cursor_pop_def upd_cur_def popped_def)
qed

lemma popped_stack:
  assumes "stack_wf r" "1 < mc_snum r"
  shows "stack_wf (popped r)" "mc_snum (popped r) = mc_snum r - 1" "mc_flags (popped r) = mc_flags r" "path (popped r) = butlast (path r)"
    "same_cur r (popped r)" "(popped r)\<lparr>mc_top := inc16 (mc_top (popped r)), mc_snum := inc16 (mc_snum (popped r))\<rparr> = r"
proof -
  have len: "length (mc_pg r) = 32" "length (mc_ki r) = 32" "mc_snum r \<le> 32" "mc_top r = mc_snum r - 1"
    using assms by (simp_all add: stack_wf_def)
  then show "stack_wf (popped r)" "mc_snum (popped r) = mc_snum r - 1" "mc_flags (popped r) = mc_flags r" "same_cur r (popped r)"
    by (auto simp: popped_def stack_wf_def same_cur_def)
  show "path (popped r) = butlast (path r)"
    using length_path [OF assms(1)] by (simp add: butlast_conv_take path_def take_zip min_def popped_def)
  have "inc16 (mc_top r - 1) = mc_top r" "inc16 (mc_snum r - 1) = mc_snum r" using len assms(2) by (auto simp: inc16_def)
  then show "(popped r)\<lparr>mc_top := inc16 (mc_top (popped r)), mc_snum := inc16 (mc_snum (popped r))\<rparr> = r"
    by (simp add: popped_def)
qed

section \<open>The sibling page\<close>

text \<open>The second half of \<^verbatim>\<open>mdb_cursor_sibling\<close>: go down to the child at the index of the top page.\<close>

definition arrive :: "world \<Rightarrow> cid \<Rightarrow> bool \<Rightarrow> (int \<times> world) option" where
  "arrive w mc move_right = do {
     mp \<leftarrow> top_pg w mc;
     br \<leftarrow> IS_BRANCH (w_mem w) mp;
     if \<not> br then None
     else do {
       ki \<leftarrow> top_ki w mc;
       indx \<leftarrow> NODEPTR (w_mem w) mp ki;
       pgno \<leftarrow> NODEPGNO (w_mem w) indx;
       (rc, mp, lvl, w) \<leftarrow> mdb_page_get w mc pgno;
       if rc \<noteq> 0 then do {
         w \<leftarrow> clear_flags w mc (C_INITIALIZED OR C_EOF);
         Some (rc, w) }
       else do {
         (rc, w) \<leftarrow> mdb_cursor_push w mc mp;
         w \<leftarrow> (if move_right then Some w
              else do {
                nk \<leftarrow> NUMKEYS (w_mem w) mp;
                set_top_ki w mc (u32 (nk + (2 ^ 32 - 1)) mod 2 ^ 16) });
         Some (MDB_SUCCESS, w) } } }"

lemma cursor_sibling_down:
  assumes "stack_wf r" "1 < mc_snum r" "path r = stk @ [(b, i), (q, k)]" "NUMKEYS (w_mem w) b = Some nk"
  shows "\<not> (if mr then i + 1 \<ge> nk else i = 0) \<Longrightarrow>
      cursor_sibling (Suc n) (put_cur w c r) c mr = arrive (put_cur w c (set_ki (popped r) (if mr then inc16 i else dec16 i))) c mr"
    and "(if mr then i + 1 \<ge> nk else i = 0) \<Longrightarrow> cursor_sibling n (put_cur w c (popped r)) c mr = Some (MDB_SUCCESS, w') \<Longrightarrow>
      cursor_sibling (Suc n) (put_cur w c r) c mr = arrive w' c mr"
    and "(if mr then i + 1 \<ge> nk else i = 0) \<Longrightarrow> cursor_sibling n (put_cur w c (popped r)) c mr = Some (rc, put_cur w c (popped r)) \<Longrightarrow>
      rc \<noteq> MDB_SUCCESS \<Longrightarrow> cursor_sibling (Suc n) (put_cur w c r) c mr = Some (rc, put_cur w c r)"
proof -
  note P = popped_stack [OF assms(1,2)]
  have "path (popped r) = stk @ [(b, i)]" using P(4) assms(3) by (simp add: butlast_append)
  then have top: "top_pg (put_cur w c (popped r)) c = Some b" "top_ki (put_cur w c (popped r)) c = Some i"
    "set_top_ki (put_cur w c (popped r)) c j = Some (put_cur w c (set_ki (popped r) j))" for j
    using top_simps [of "put_cur w c (popped r)" c "popped r"] P(1,2) assms(2) by simp_all
  note S = assms(2,4) cursor_pop_rec [OF assms(1,2)] top
  show "\<not> (if mr then i + 1 \<ge> nk else i = 0) \<Longrightarrow>
      cursor_sibling (Suc n) (put_cur w c r) c mr = arrive (put_cur w c (set_ki (popped r) (if mr then inc16 i else dec16 i))) c mr"
    using S by (cases mr) (simp_all add: arrive_def)
  show "(if mr then i + 1 \<ge> nk else i = 0) \<Longrightarrow> cursor_sibling n (put_cur w c (popped r)) c mr = Some (MDB_SUCCESS, w') \<Longrightarrow>
      cursor_sibling (Suc n) (put_cur w c r) c mr = arrive w' c mr"
    using S by (cases mr) (simp_all add: arrive_def)
  show "(if mr then i + 1 \<ge> nk else i = 0) \<Longrightarrow> cursor_sibling n (put_cur w c (popped r)) c mr = Some (rc, put_cur w c (popped r)) \<Longrightarrow>
      rc \<noteq> MDB_SUCCESS \<Longrightarrow> cursor_sibling (Suc n) (put_cur w c r) c mr = Some (rc, put_cur w c r)"
    using S P(6) by (cases mr) (simp_all add: upd_cur_def)
qed

lemma tree_at_numkeys:
  "tree_at m pg psz e q its \<Longrightarrow> its \<noteq> [] \<Longrightarrow> \<exists>nk. NUMKEYS m q = Some nk \<and> 0 < nk \<and> nk < 2 ^ 16"
proof (cases e)
  case 0
  assume "tree_at m pg psz e q its" "its \<noteq> []"
  then obtain L where L: "leaf_rep m psz q L" "L \<noteq> []" using 0 by (auto elim: tree_at_leafE)
  then show ?thesis using leaf_repD(4,5) [OF L(1)] by simp
next
  case (Suc d)
  assume "tree_at m pg psz e q its"
  then obtain L cs where L: "branch_rep m psz q L cs" using Suc by (auto elim: tree_at_branchE)
  then show ?thesis using branch_repD(3,5,6) [OF L] by simp
qed

text \<open>Arriving on a child: the cursor points at its first or its last slot.\<close>

lemma arrive_child:
  assumes node: "at_node (w_mem w) (page_addr w t ro) psz D p (stk @ [(b, j)]) (Suc e) pre (concat cs) post"
    and cur: "stack_wf r" "path r = stk @ [(b, j)]" "mc_snum r < CURSOR_STACK" "mc_txn r = t" "is_ro (mc_flags r) = ro"
    and rep: "branch_rep (w_mem w) psz b L cs" and j: "j < length L"
    and kids: "\<forall>i<length L. \<exists>q. page_addr w t ro (node_pgno (snd (L ! i))) = Some q \<and> tree_at (w_mem w) (page_addr w t ro) psz e q (cs ! i)"
  shows "\<exists>r' q k. arrive (put_cur w c r) c mr = Some (MDB_SUCCESS, put_cur w c r') \<and> same_cur r r' \<and> stack_wf r' \<and>
    mc_flags r' = mc_flags r \<and> path r' = stk @ [(b, j), (q, k)] \<and> (if mr then k = 0 else NUMKEYS (w_mem w) q = Some (Suc k)) \<and>
    at_node (w_mem w) (page_addr w t ro) psz D p (stk @ [(b, j), (q, k)]) e
      (pre @ concat (take j cs)) (cs ! j) (concat (drop (Suc j) cs) @ post)"
proof -
  obtain q where q: "page_addr w t ro (node_pgno (snd (L ! j))) = Some q" "tree_at (w_mem w) (page_addr w t ro) psz e q (cs ! j)"
    using kids j by blast
  have "cs ! j \<noteq> []" using branch_repD(7,8) [OF rep] j by (metis nth_mem)
  then obtain nk where nk: "NUMKEYS (w_mem w) q = Some nk" "0 < nk" "nk < 2 ^ 16" using tree_at_numkeys [OF q(2)] by blast
  have sn: "0 < mc_snum r" using length_path [OF cur(1)] cur(2) by auto
  note T = top_simps [of "put_cur w c r" c r, OF _ cur(1) sn]
  obtain lvl where get: "mdb_page_get (put_cur w c r) c (node_pgno (snd (L ! j))) = Some (MDB_SUCCESS, q, lvl, put_cur w c r)"
    using page_get_addr [of "put_cur w c r" c r] q(1) cur(4,5) by auto
  have push: "mdb_cursor_push (put_cur w c r) c q = Some (MDB_SUCCESS, put_cur w c (pushed r q))"
    using cursor_push_rec [of "put_cur w c r" c r] cur(1,3) by simp
  note P = pushed_stack [OF cur(1,3), of q]
  have st: "set_top_ki (put_cur w c (pushed r q)) c i = Some (put_cur w c (set_ki (pushed r q) i))" for i
    using top_simps(3) [of "put_cur w c (pushed r q)" c "pushed r q"] P(1,2) by simp
  let ?k = "if mr then 0 else nk - 1"
  let ?r = "if mr then pushed r q else set_ki (pushed r q) (nk - 1)"
  have "arrive (put_cur w c r) c mr = Some (MDB_SUCCESS, put_cur w c ?r)"
    using T(1,2) cur(2) branch_repD(1,10,11) [OF rep] j get push st nk last16 [OF nk(2,3)] by (simp add: arrive_def)
  moreover have "path ?r = stk @ [(b, j), (q, ?k)]"
    using P(1,2,4) set_ki_path [OF P(1), of "nk - 1"] cur(2) by (simp add: butlast_append)
  moreover have "same_cur r ?r" using same_cur_trans [OF same_cur_refl(3) same_cur_refl(2)] by simp
  moreover have "if mr then ?k = 0 else NUMKEYS (w_mem w) q = Some (Suc ?k)" using nk by simp
  ultimately show ?thesis
    using P at_node.down [OF node rep kids j q(1), of ?k] by (intro exI [of _ ?r] exI [of _ q] exI [of _ ?k]) (simp split: if_splits)
qed

text \<open>
  The items on the side the move goes to, and what the move gives: the node next to the old one
  on the same level, with the index at its near end.
\<close>

definition ahead :: "bool \<Rightarrow> 'a list \<Rightarrow> 'a list \<Rightarrow> 'a list" where
  "ahead mr pre post = (if mr then post else pre)"

definition neighbour :: "bool \<Rightarrow> 'a list \<Rightarrow> 'a list \<Rightarrow> 'a list \<Rightarrow> 'a list \<Rightarrow> 'a list \<Rightarrow> 'a list \<Rightarrow> bool" where
  "neighbour mr pre its post pre' its' post' \<longleftrightarrow> its' \<noteq> [] \<and>
     (if mr then pre' = pre @ its \<and> post = its' @ post' else post' = its @ post \<and> pre = pre' @ its')"

definition near_end :: "bool \<Rightarrow> mem \<Rightarrow> ptr \<times> nat \<Rightarrow> bool" where
  "near_end mr m x \<longleftrightarrow> (if mr then snd x = 0 else NUMKEYS m (fst x) = Some (Suc (snd x)))"

lemma concat_nonempty: "[] \<notin> set cs \<Longrightarrow> concat cs = [] \<longleftrightarrow> cs = []"
  by (cases cs) auto

lemma neighbour_inner:
  assumes "[] \<notin> set cs" "i < length cs" "if mr then Suc i < length cs else 0 < i"
  shows "neighbour mr (pre @ concat (take i cs)) (cs ! i) (concat (drop (Suc i) cs) @ post)
    (pre @ concat (take (if mr then Suc i else i - 1) cs)) (cs ! (if mr then Suc i else i - 1))
    (concat (drop (Suc (if mr then Suc i else i - 1)) cs) @ post)"
proof -
  have ne: "cs ! k \<noteq> []" if "k < length cs" for k using assms(1) that by (metis nth_mem)
  show ?thesis
  proof (cases mr)
    case True
    then show ?thesis using assms(2,3) ne [of "Suc i"]
      by (auto simp: neighbour_def take_Suc_conv_app_nth Cons_nth_drop_Suc [symmetric])
  next
    case False
    then obtain j where j: "i = Suc j" using assms(3) by (cases i) auto
    then show ?thesis using False assms(2,3) ne [of j] Cons_nth_drop_Suc [of "Suc j" cs]
      by (auto simp: neighbour_def take_Suc_conv_app_nth Cons_nth_drop_Suc [symmetric])
  qed
qed

lemma neighbour_outer:
  assumes "neighbour mr pre (concat cs) post pre1 (concat cs1) post1" "[] \<notin> set cs1" "i < length cs"
    and "if mr then Suc i = length cs else i = 0" "j = (if mr then 0 else length cs1 - 1)"
  shows "neighbour mr (pre @ concat (take i cs)) (cs ! i) (concat (drop (Suc i) cs) @ post)
    (pre1 @ concat (take j cs1)) (cs1 ! j) (concat (drop (Suc j) cs1) @ post1)"
proof (cases mr)
  case True
  have "cs1 \<noteq> []" using assms(1) by (auto simp: neighbour_def)
  moreover have "concat cs = concat (take i cs) @ cs ! i" using True assms(3,4) by (metis append_Nil2 concat.simps concat_append drop_all id_take_nth_drop order_refl)
  ultimately show ?thesis using True assms by (cases cs1) (auto simp: neighbour_def)
next
  case False
  obtain x xs where x: "cs1 = xs @ [x]" using assms(1) by (cases cs1 rule: rev_cases) (auto simp: neighbour_def)
  moreover have "concat cs = cs ! 0 @ concat (drop (Suc 0) cs)" using assms(3) by (cases cs) auto
  ultimately show ?thesis using False assms by (auto simp: neighbour_def)
qed

lemma neighbour_ahead: "neighbour mr pre its post pre' its' post' \<Longrightarrow> ahead mr pre post \<noteq> []"
  by (auto simp: neighbour_def ahead_def split: if_splits)

lemma sibling_arrive:
  assumes node: "at_node (w_mem w) (page_addr w t ro) psz D p (stk @ [(b, i)]) (Suc e) pre (concat cs) post"
    and cur: "stack_wf r" "path r = stk @ [(b, j)]" "mc_snum r < CURSOR_STACK" "mc_txn r = t" "is_ro (mc_flags r) = ro"
    and rep: "branch_rep (w_mem w) psz b L cs" and j: "j < length L"
    and kids: "\<forall>i<length L. \<exists>q. page_addr w t ro (node_pgno (snd (L ! i))) = Some q \<and> tree_at (w_mem w) (page_addr w t ro) psz e q (cs ! i)"
    and nb: "neighbour mr pre0 its post0 (pre @ concat (take j cs)) (cs ! j) (concat (drop (Suc j) cs) @ post)"
  shows "\<exists>r' stk' pre' its' post'. arrive (put_cur w c r) c mr = Some (MDB_SUCCESS, put_cur w c r') \<and>
      same_cur r r' \<and> stack_wf r' \<and> mc_flags r' = mc_flags r \<and> path r' = stk' \<and>
      at_node (w_mem w) (page_addr w t ro) psz D p stk' e pre' its' post' \<and>
      neighbour mr pre0 its post0 pre' its' post' \<and> near_end mr (w_mem w) (last stk')"
proof -
  obtain r' q k where "arrive (put_cur w c r) c mr = Some (MDB_SUCCESS, put_cur w c r')" "same_cur r r'" "stack_wf r'"
    "mc_flags r' = mc_flags r" "path r' = stk @ [(b, j), (q, k)]" "if mr then k = 0 else NUMKEYS (w_mem w) q = Some (Suc k)"
    "at_node (w_mem w) (page_addr w t ro) psz D p (stk @ [(b, j), (q, k)]) e
      (pre @ concat (take j cs)) (cs ! j) (concat (drop (Suc j) cs) @ post)"
    using arrive_child [OF at_node_index [OF node] cur rep j kids, of c mr] by blast
  moreover from this have "near_end mr (w_mem w) (last (stk @ [(b, j), (q, k)]))" by (simp add: near_end_def)
  ultimately show ?thesis using nb by blast
qed

lemma cursor_sibling_spec:
  assumes "at_node (w_mem w) (page_addr w t ro) psz D p stk e pre its post" "stack_wf r" "path r = stk" "length stk \<le> n"
    and "mc_txn r = t" "is_ro (mc_flags r) = ro"
  shows "if ahead mr pre post = [] then cursor_sibling n (put_cur w c r) c mr = Some (MDB_NOTFOUND, put_cur w c r)
    else \<exists>r' stk' pre' its' post'. cursor_sibling n (put_cur w c r) c mr = Some (MDB_SUCCESS, put_cur w c r') \<and>
      same_cur r r' \<and> stack_wf r' \<and> mc_flags r' = mc_flags r \<and> path r' = stk' \<and>
      at_node (w_mem w) (page_addr w t ro) psz D p stk' e pre' its' post' \<and>
      neighbour mr pre its post pre' its' post' \<and> near_end mr (w_mem w) (last stk')"
  using assms
proof (induction n arbitrary: stk e pre its post r)
  case 0
  then show ?case using at_node_tree by fastforce
next
  case (Suc n)
  from Suc.prems(1) show ?case
  proof (cases rule: at_node.cases)
    case (root k)
    then have "mc_snum r = 1" using Suc.prems(2,3) length_path [of r] by simp
    then show ?thesis using root by (simp add: ahead_def)
  next
    case (down stk0 b i pre0 cs post0 L q k)
    have len: "mc_snum r = length stk0 + 2" "mc_snum r \<le> 32"
      using Suc.prems(2,3) down(1) length_path [OF Suc.prems(2)] by (auto simp: stack_wf_def)
    have sn: "1 < mc_snum r" using len by simp
    note P = popped_stack [OF Suc.prems(2) sn] and B = branch_repD(3,4,5,7,8) [OF down(6)]
    have pp: "path (popped r) = stk0 @ [(b, i)]" using P(4) Suc.prems(3) down(1) by (simp add: butlast_append)
    have pr: "path r = stk0 @ [(b, i), (q, k)]" using Suc.prems(3) down(1) by simp
    note S = cursor_sibling_down [OF Suc.prems(2) sn pr B(1), of mr n c]
    have tx: "mc_txn (popped r) = t" "is_ro (mc_flags (popped r)) = ro" using P(3,5) Suc.prems(5,6) by (simp_all add: same_cur_def)
    show ?thesis
    proof (cases "if mr then i + 1 \<ge> length L else i = 0")
      case False
      define j where "j = (if mr then Suc i else i - 1)"
      have j: "j < length L" using False down(8) by (auto simp: j_def split: if_splits)
      have ij: "(if mr then inc16 i else dec16 i) = j"
        using False down(8) B(3) dec16_pos [of i] by (auto simp: inc16_def j_def split: if_splits)
      define r2 where "r2 = set_ki (popped r) j"
      have c: "stack_wf r2" "path r2 = stk0 @ [(b, j)]" "mc_snum r2 < CURSOR_STACK" "mc_txn r2 = t" "is_ro (mc_flags r2) = ro"
        "mc_flags r2 = mc_flags r"
        using P(1,2,3) set_ki_path [OF P(1), of j] pp len tx unfolding r2_def by simp_all (simp_all add: set_ki_def)
      have nb: "neighbour mr pre its post (pre0 @ concat (take j cs)) (cs ! j) (concat (drop (Suc j) cs) @ post0)"
        unfolding down(2,3,4) j_def by (rule neighbour_inner) (use False down(8) B(4,5) in \<open>auto split: if_splits\<close>)
      have same: "same_cur r r2" unfolding r2_def by (rule same_cur_trans [OF P(5) same_cur_refl(2)])
      have "cursor_sibling (Suc n) (put_cur w c r) c mr = arrive (put_cur w c r2) c mr"
        using S(1) [OF False] unfolding ij r2_def .
      with sibling_arrive [OF down(5) c(1-5) down(6) j down(7) nb, of c] neighbour_ahead [OF nb] c(6) same_cur_trans [OF same]
      show ?thesis by auto
    next
      case True
      have n: "length (stk0 @ [(b, i)]) \<le> n" using Suc.prems(4) down(1) by simp
      note IH = Suc.IH [OF down(5) P(1) pp n tx]
      show ?thesis
      proof (cases "ahead mr pre0 post0 = []")
        case e: True
        have "ahead mr pre post = []" using True e down(2,4,8) B(4) by (auto simp: ahead_def split: if_splits)
        then show ?thesis using S(3) [OF True] IH e by simp
      next
        case e: False
        then obtain r1 stk1 pre1 its1 post1 where R: "cursor_sibling n (put_cur w c (popped r)) c mr = Some (MDB_SUCCESS, put_cur w c r1)"
          "same_cur (popped r) r1" "stack_wf r1" "mc_flags r1 = mc_flags (popped r)" "path r1 = stk1"
          "at_node (w_mem w) (page_addr w t ro) psz D p stk1 (Suc e) pre1 its1 post1"
          "neighbour mr pre0 (concat cs) post0 pre1 its1 post1" "near_end mr (w_mem w) (last stk1)"
          using IH by auto
        have T: "stk1 \<noteq> []" "tree_at (w_mem w) (page_addr w t ro) psz (Suc e) (fst (last stk1)) its1" "length stk1 + Suc e = Suc D"
          using at_node_tree [OF R(6)] by auto
        obtain stk2 b1 j where stk1: "stk1 = stk2 @ [(b1, j)]" using T(1) by (metis rev_exhaust surj_pair)
        obtain L1 cs1 where L1: "branch_rep (w_mem w) psz b1 L1 cs1" "its1 = concat cs1"
          "\<forall>i<length L1. \<exists>q. page_addr w t ro (node_pgno (snd (L1 ! i))) = Some q \<and> tree_at (w_mem w) (page_addr w t ro) psz e q (cs1 ! i)"
          using T(2) stk1 by (auto elim: tree_at_branchE)
        note B1 = branch_repD(3,6,7,8) [OF L1(1)]
        have j: "j = (if mr then 0 else length cs1 - 1)" using R(8) B1(1,3) by (auto simp: near_end_def stk1)
        have jl: "j < length L1" using j B1(2,3) by auto
        have same: "same_cur r r1" by (rule same_cur_trans [OF P(5) R(2)])
        have "length stk1 = length stk0 + 1" using T(3) at_node_tree [OF down(5)] by simp
        then have c: "path r1 = stk2 @ [(b1, j)]" "mc_snum r1 < CURSOR_STACK" "mc_txn r1 = t" "is_ro (mc_flags r1) = ro"
          using R(4,5) stk1 len length_path [OF R(3)] same Suc.prems(5) tx(2) by (auto simp: same_cur_def)
        have node: "at_node (w_mem w) (page_addr w t ro) psz D p (stk2 @ [(b1, j)]) (Suc e) pre1 (concat cs1) post1"
          using R(6) stk1 L1(2) by simp
        have nb: "neighbour mr pre its post (pre1 @ concat (take j cs1)) (cs1 ! j) (concat (drop (Suc j) cs1) @ post1)"
          unfolding down(2,3,4)
          by (rule neighbour_outer [OF _ B1(4) _ _ j]) (use R(7) L1(2) True down(8) B(4) in \<open>auto split: if_splits\<close>)
        have "cursor_sibling (Suc n) (put_cur w c r) c mr = arrive (put_cur w c r1) c mr" by (rule S(2) [OF True R(1)])
        with sibling_arrive [OF node R(3) c L1(1) jl L1(3) nb, of c] neighbour_ahead [OF nb] R(4) P(3) same_cur_trans [OF same]
        show ?thesis by auto
      qed
    qed
  qed
qed

section \<open>Cursors on an item\<close>

text \<open>The cursor is on item \<open>n\<close> of \<open>items\<close>; the end-of-data flag only on the last one.\<close>

definition on_item :: "world \<Rightarrow> MDB_cursor \<Rightarrow> u8 list list \<Rightarrow> nat \<Rightarrow> bool" where
  "on_item w r items n \<longleftrightarrow> stack_wf r \<and> walk_ok w r \<and> any_set (mc_flags r) C_INITIALIZED \<and>
     (any_set (mc_flags r) C_EOF \<longrightarrow> Suc n = length items) \<and>
     (\<exists>D p stk pre L post. at_node (w_mem w) (cur_pages w r) (me_psize (w_env w)) D p stk 0 pre (map snd L) post \<and>
        leaf_rep (w_mem w) (me_psize (w_env w)) (fst (last stk)) L \<and> path r = stk \<and> snd (last stk) < length L \<and>
        items = pre @ map snd L @ post \<and> n = length pre + snd (last stk))"

lemma on_itemI:
  assumes "stack_wf r" "walk_ok w r" "any_set (mc_flags r) C_INITIALIZED" "any_set (mc_flags r) C_EOF \<longrightarrow> Suc n = length items"
    and "at_node (w_mem w) (cur_pages w r) (me_psize (w_env w)) D p stk 0 pre (map snd L) post" "path r = stk"
    and "leaf_rep (w_mem w) (me_psize (w_env w)) mp L" "last stk = (mp, k)" "k < length L"
    and "items = pre @ map snd L @ post" "n = length pre + k"
  shows "on_item w r items n"
  unfolding on_item_def using assms
  by (intro conjI exI [of _ D] exI [of _ p] exI [of _ stk] exI [of _ pre] exI [of _ L] exI [of _ post]) simp_all

text \<open>What a call returns for an item.\<close>

definition returns_item :: "world \<Rightarrow> (u64 \<Rightarrow> ptr option) \<Rightarrow> u8 list \<Rightarrow> MDB_val option \<Rightarrow> MDB_val option \<Rightarrow> bool" where
  "returns_item w pg bs kv dv \<longleftrightarrow> (\<exists>k d. kv = Some k \<and> dv = Some d \<and> val_bytes (w_mem w) k = Some (node_key bs) \<and>
     val_bytes (w_mem w) d = item_value (w_mem w) pg bs)"

lemma leaf_key:
  assumes "leaf_rep m psz p L" "i < length L"
  shows "\<exists>v. MDB_GET_KEY2 m (padd p (fst (L ! i))) = Some v \<and> val_bytes m v = Some (node_key (snd (L ! i)))"
proof -
  obtain u where rep: "page_rep m p psz True u L" using assms(1) by (auto simp: leaf_rep_def)
  have "keys_in (snd (L ! i))" using leaf_repD(9) [OF assms(1)] assms(2) by simp
  then show ?thesis using key_at_bytes [OF rep assms(2), of 0] leaf_repD(6) [OF assms] by (simp add: key_at_def)
qed

lemma cursor_fetch_item:
  assumes cur: "stack_wf r" "0 < mc_snum r" "last (path r) = (mp, k)" "mc_xcursor r = None"
    and leaf: "leaf_rep (w_mem w) psz mp L" "k < length L"
    and plain: "item_value (w_mem w) (cur_pages w r) (snd (L ! k)) \<noteq> None" "\<not> F_ISSET (node_flags (snd (L ! k))) F_DUPDATA"
  shows "\<exists>kv dv. cursor_fetch sub (put_cur w c r) c mp (Some k0) (Some d0) = Some (MDB_SUCCESS, kv, dv, put_cur w c r) \<and>
    returns_item w (cur_pages w r) (snd (L ! k)) kv dv"
proof -
  note N = leaf_repD(6,7,8) [OF leaf]
  obtain v where v: "MDB_GET_KEY2 (w_mem w) (padd mp (fst (L ! k))) = Some v" "val_bytes (w_mem w) v = Some (node_key (snd (L ! k)))"
    using leaf_key [OF leaf] by blast
  obtain iv where iv: "item_value (w_mem w) (cur_pages w r) (snd (L ! k)) = Some iv" using plain(1) by blast
  obtain d where d: "mdb_node_read (put_cur w c r) c (padd mp (fst (L ! k))) d0 = Some (MDB_SUCCESS, d, put_cur w c r)"
    "val_bytes (w_mem w) d = Some iv"
    using node_read_value [of "put_cur w c r" "padd mp (fst (L ! k))" _ "snd (L ! k)" c r iv] N(2,3) iv by (auto simp: cur_pages_def)
  have "top_ki (put_cur w c r) c = Some k" using top_simps(2) [of "put_cur w c r" c r] cur by simp
  then show ?thesis using leaf_repD(2,3) [OF leaf(1)] N(1) node_fields(2) [OF N(2,3)] plain(2) d v iv
    by (simp add: cursor_fetch_def MDB_GET_KEY_def returns_item_def)
qed

section \<open>\<^verbatim>\<open>mdb_cursor_next\<close>\<close>

lemma plain_nth: "plain_items m pg items \<Longrightarrow> n < length items \<Longrightarrow>
    item_value m pg (items ! n) \<noteq> None \<and> \<not> F_ISSET (node_flags (items ! n)) F_DUPDATA"
  by (simp add: plain_items_def)

lemma inc16_less: "x < 2 ^ 16 - 1 \<Longrightarrow> inc16 x = Suc x"
  by (simp add: inc16_def)

lemma set_ki_item:
  assumes "stack_wf r" "path r = stk" "stk \<noteq> []" "at_node m pg psz D p stk e pre its post"
  shows "at_node m pg psz D p (path (set_ki r i)) e pre its post" "last (path (set_ki r i)) = (fst (last stk), i)"
proof -
  obtain stk0 b j where s: "stk = stk0 @ [(b, j)]" using assms(3) by (metis rev_exhaust surj_pair)
  have "0 < mc_snum r" using assms(2,3) length_path [OF assms(1)] by (metis length_greater_0_conv)
  then have "path (set_ki r i) = stk0 @ [(b, i)]" using set_ki_path [OF assms(1)] assms(2) s by simp
  then show "at_node m pg psz D p (path (set_ki r i)) e pre its post" "last (path (set_ki r i)) = (fst (last stk), i)"
    using at_node_index [of m pg psz D p stk0 b j] assms(4) s by simp_all
qed

lemma flag_or [simp]: "any_set (f OR g) h \<longleftrightarrow> any_set f h \<or> any_set g h"
  by (simp add: any_set_def bit.conj_disj_distrib2 or_eq_0_iff)

lemma is_ro_eof [simp]: "is_ro (f OR C_EOF) = is_ro f"
  by (simp add: is_ro_def) (simp add: any_set_def)

lemma cursor_next_item:
  assumes on: "on_item w r items n" and plain: "plain_items (w_mem w) (cur_pages w r) items"
  shows "if Suc n < length items
    then \<exists>r' kv dv. mdb_cursor_next (Suc d) touch (put_cur w c r) c (Some k0) (Some d0) MDB_NEXT = Some (MDB_SUCCESS, kv, dv, put_cur w c r') \<and>
      same_cur r r' \<and> is_ro (mc_flags r') = is_ro (mc_flags r) \<and> on_item w r' items (Suc n) \<and> returns_item w (cur_pages w r) (items ! Suc n) kv dv
    else \<exists>r'. mdb_cursor_next (Suc d) touch (put_cur w c r) c (Some k0) (Some d0) MDB_NEXT =
        Some (MDB_NOTFOUND, Some k0, Some d0, put_cur w c r') \<and> same_cur r r' \<and> is_ro (mc_flags r') = is_ro (mc_flags r) \<and> on_item w r' items n"
proof -
  obtain D p stk pre L post where P: "at_node (w_mem w) (cur_pages w r) (me_psize (w_env w)) D p stk 0 pre (map snd L) post"
    "leaf_rep (w_mem w) (me_psize (w_env w)) (fst (last stk)) L" "path r = stk" "snd (last stk) < length L"
    "items = pre @ map snd L @ post" "n = length pre + snd (last stk)"
    and F: "stack_wf r" "walk_ok w r" "any_set (mc_flags r) C_INITIALIZED" "any_set (mc_flags r) C_EOF \<longrightarrow> Suc n = length items"
    using on by (auto simp: on_item_def)
  obtain mp k where mk: "last stk = (mp, k)" by fastforce
  have sn: "0 < mc_snum r" using at_node_tree [OF P(1)] P(3) length_path [OF F(1)] by (metis length_greater_0_conv)
  note T = top_simps [of "put_cur w c r" c r, OF _ F(1) sn]
  obtain db x where W: "mc_xcursor r = None" "cur_ok w r" "\<not> any_set (mc_flags r) C_DEL" "get_db w (mc_db r) = Some db" "\<not> any_set (md_flags db) MDB_DUPSORT"
    using F(2) by (auto simp: walk_ok_def)
  note Lf = leaf_repD(4,5) [OF P(2)]
  have l32: "u32 (length L + (2 ^ 32 - 1)) = length L - 1"
  proof -
    have "length L + (2 ^ 32 - 1) = (length L - 1) + 2 ^ 32" using P(4) by simp
    then show ?thesis unfolding u32_def by (simp only: mod_add_self2) (use Lf(2) in simp)
  qed
  show ?thesis
  proof (cases "any_set (mc_flags r) C_EOF")
    case True
    then have "Suc n = length items" using F(4) by simp
    then have "k \<ge> length L - 1" using P(5,6) mk by auto
    then have "mdb_cursor_next (Suc d) touch (put_cur w c r) c (Some k0) (Some d0) MDB_NEXT = Some (MDB_NOTFOUND, Some k0, Some d0, put_cur w c r)"
      using True W F(3) T(1,2) P(2,3) mk Lf(1) l32 by simp
    then show ?thesis using \<open>Suc n = length items\<close> on by auto
  next
    case False
    show ?thesis
    proof (cases "Suc k < length L")
      case k: True
      define r2 where "r2 = set_ki r (Suc k)"
      have R: "stack_wf r2" "same_cur r r2" "mc_flags r2 = mc_flags r" "0 < mc_snum r2" using F(1) sn by (simp_all add: r2_def)
      have cp: "cur_pages w r2 = cur_pages w r" by (rule cur_pages_same [OF R(2)]) (simp add: R(3))
      have it: "items ! Suc n = snd (L ! Suc k)" "Suc n < length items" using k P(5,6) mk by (simp_all add: nth_append)
      note S = set_ki_item [OF F(1) P(3) _ P(1), of "Suc k", folded r2_def]
      have ne: "stk \<noteq> []" using at_node_tree [OF P(1)] by simp
      have on2: "on_item w r2 items (Suc n)"
        using R(1,3) F(3) False walk_ok_same [OF R(2) _ F(2)] S [OF ne] P(2,5,6) mk k cp
        by (intro on_itemI [of r2 w "Suc n" items D p "path r2" pre L post mp "Suc k"]) simp_all
      obtain kv dv where fetch: "cursor_fetch (mdb_cursor_first d touch) (put_cur w c r2) c mp (Some k0) (Some d0) = Some (MDB_SUCCESS, kv, dv, put_cur w c r2)"
        "returns_item w (cur_pages w r) (snd (L ! Suc k)) kv dv"
        using cursor_fetch_item [of r2 mp "Suc k" w "me_psize (w_env w)" L "mdb_cursor_first d touch" c k0 d0] R S(2) [OF ne] W(1) mk P(2) k
          plain_nth [OF plain it(2)] it(1) cp by (auto simp: same_cur_def)
      have "mdb_cursor_next (Suc d) touch (put_cur w c r) c (Some k0) (Some d0) MDB_NEXT = Some (MDB_SUCCESS, kv, dv, put_cur w c r2)"
        using False W F(3) T P(2,3) mk Lf fetch(1) k inc16_less [of k] by (simp add: r2_def)
      then show ?thesis using it on2 R fetch(2) by auto
    next
      case k: False
      have "length stk \<le> 33" using length_path [OF F(1)] P(3) F(1) by (simp add: stack_wf_def)
      note sib = cursor_sibling_spec [OF P(1) [unfolded cur_pages_def] F(1) P(3) this refl refl, of True c]
      show ?thesis
      proof (cases "post = []")
        case True
        let ?r = "r\<lparr>mc_flags := mc_flags r OR C_EOF\<rparr>"
        have n: "Suc n = length items" using True P(4,5,6) mk k by auto
        have "mdb_cursor_next (Suc d) touch (put_cur w c r) c (Some k0) (Some d0) MDB_NEXT = Some (MDB_NOTFOUND, Some k0, Some d0, put_cur w c ?r)"
          using False W F(3) T P(2,3) mk Lf k sib True by (simp add: ahead_def mdb_cursor_sibling_def or_flags_def upd_cur_def)
        moreover have "on_item w ?r items n"
        proof -
          have "walk_ok w ?r" by (rule walk_ok_same [OF _ _ F(2)]) (simp_all add: any_set_def [of C_EOF])
          moreover have "stack_wf ?r" "path ?r = path r" using F(1) by (simp_all add: stack_wf_def path_def)
          moreover have "cur_pages w ?r = cur_pages w r" by (rule cur_pages_same) simp_all
          moreover have "leaf_rep (w_mem w) (me_psize (w_env w)) mp L" using P(2) mk by simp
          ultimately show ?thesis using n P(1,3,4,5,6) F(3) mk by (intro on_itemI [of ?r w n items D p stk pre L post mp k]) simp_all
        qed
        ultimately show ?thesis using n by (intro if_not_P [THEN iffD2]) auto
      next
        case post: False
        then obtain r2 stk2 pre2 its2 post2 where R: "cursor_sibling 33 (put_cur w c r) c True = Some (MDB_SUCCESS, put_cur w c r2)"
          "same_cur r r2" "stack_wf r2" "mc_flags r2 = mc_flags r" "path r2 = stk2"
          "at_node (w_mem w) (cur_pages w r) (me_psize (w_env w)) D p stk2 0 pre2 its2 post2"
          "neighbour True pre (map snd L) post pre2 its2 post2" "near_end True (w_mem w) (last stk2)"
          using sib by (auto simp: ahead_def cur_pages_def)
        obtain mp2 where mp2: "last stk2 = (mp2, 0)" using R(8) by (cases "last stk2") (simp add: near_end_def)
        obtain L2 where L2: "leaf_rep (w_mem w) (me_psize (w_env w)) mp2 L2" "its2 = map snd L2" "stk2 \<noteq> []"
          using at_node_tree [OF R(6)] mp2 by (auto elim: tree_at_leafE)
        have nb: "L2 \<noteq> []" "pre2 = pre @ map snd L" "post = map snd L2 @ post2" using R(7) L2(2) by (auto simp: neighbour_def)
        have n: "Suc n = length pre2" "length pre2 < length items" "items ! length pre2 = snd (L2 ! 0)"
          using P(4,5,6) mk k nb by (auto simp: nth_append hd_conv_nth)
        have cp: "cur_pages w r2 = cur_pages w r" by (rule cur_pages_same [OF R(2)]) (simp add: R(4))
        have sn2: "0 < mc_snum r2" using L2(3) R(5) length_path [OF R(3)] by (metis length_greater_0_conv)
        have on2: "on_item w r2 items (Suc n)"
          using R(3,4,5,6) F(3) False walk_ok_same [OF R(2) _ F(2)] mp2 L2(1,2) nb n(1) P(5) cp
          by (intro on_itemI [of r2 w "Suc n" items D p stk2 pre2 L2 post2 mp2 0]) simp_all
        obtain kv dv where fetch: "cursor_fetch (mdb_cursor_first d touch) (put_cur w c r2) c mp2 (Some k0) (Some d0) = Some (MDB_SUCCESS, kv, dv, put_cur w c r2)"
          "returns_item w (cur_pages w r) (snd (L2 ! 0)) kv dv"
          using cursor_fetch_item [of r2 mp2 0 w "me_psize (w_env w)" L2 "mdb_cursor_first d touch" c k0 d0] R(2,3,5) sn2 mp2 W(1) L2(1) nb(1)
            plain_nth [OF plain n(2)] n(3) cp by (auto simp: same_cur_def)
        have "top_pg (put_cur w c r2) c = Some mp2" using top_simps(1) [of "put_cur w c r2" c r2, OF _ R(3) sn2] R(5) mp2 by simp
        then have "mdb_cursor_next (Suc d) touch (put_cur w c r) c (Some k0) (Some d0) MDB_NEXT = Some (MDB_SUCCESS, kv, dv, put_cur w c r2)"
          using False W F(3) T P(2,3) mk Lf k R(1) fetch(1) by (simp add: mdb_cursor_sibling_def)
        then show ?thesis using n on2 R(2,4) fetch(2) by auto
      qed
    qed
  qed
qed

section \<open>\<^verbatim>\<open>mdb_cursor_first\<close>\<close>

lemma at_node_nonempty: "at_node m pg psz D p stk e pre its post \<Longrightarrow> pre @ its @ post \<noteq> [] \<Longrightarrow> its \<noteq> []"
proof (induction rule: at_node.induct)
  case (down stk b i e pre cs post L q k)
  then show ?case using branch_repD(7,8) [OF down(2)] by (metis nth_mem)
qed simp

lemma clear_eof [simp]:
  "\<not> any_set (clear f C_EOF) C_EOF" "any_set (clear f C_EOF) C_INITIALIZED = any_set f C_INITIALIZED"
  "any_set (clear f C_EOF) C_DEL = any_set f C_DEL"
  by (simp_all add: any_set_def clear_def and.assoc)

lemma bits_init [simp]: "any_set C_INITIALIZED C_INITIALIZED" "\<not> any_set C_INITIALIZED C_DEL"
  by (simp_all add: any_set_def)

lemma cursor_first_item:
  assumes fresh: "fresh_on w r items" and plain: "plain_items (w_mem w) (cur_pages w r) items"
  shows "if items = []
    then \<exists>r'. mdb_cursor_first (Suc d) touch (put_cur w c r) c (Some k0) (Some d0) = Some (MDB_NOTFOUND, Some k0, Some d0, put_cur w c r') \<and>
      same_cur r r' \<and> mc_flags r' = mc_flags r
    else \<exists>r' kv dv. mdb_cursor_first (Suc d) touch (put_cur w c r) c (Some k0) (Some d0) = Some (MDB_SUCCESS, kv, dv, put_cur w c r') \<and>
      same_cur r r' \<and> is_ro (mc_flags r') = is_ro (mc_flags r) \<and> on_item w r' items 0 \<and> returns_item w (cur_pages w r) (items ! 0) kv dv"
proof -
  have F: "walk_ok w r" "\<not> any_set (mc_flags r) C_INITIALIZED" using fresh by (auto simp: fresh_on_def)
  have W: "mc_xcursor r = None" using F(1) by (auto simp: walk_ok_def)
  have xr: "xcursor_reset (put_cur w c r) c = Some (put_cur w c r)" using W by (simp add: xcursor_reset_def)
  show ?thesis
  proof (cases "items = []")
    case True
    then have "mdb_cursor_first (Suc d) touch (put_cur w c r) c (Some k0) (Some d0) = Some (MDB_NOTFOUND, Some k0, Some d0, put_cur w c r)"
      using xr F(2) page_search_empty [of w r touch c None MDB_PS_FIRST] fresh by simp
    then show ?thesis using True by auto
  next
    case False
    obtain r1 D p stk L post where S: "mdb_page_search touch (put_cur w c r) c None MDB_PS_FIRST = Some (MDB_SUCCESS, put_cur w c r1)"
      "same_cur r r1" "stack_wf r1" "mc_flags r1 = clear (mc_flags r OR C_INITIALIZED) C_EOF" "path r1 = stk"
      "at_node (w_mem w) (cur_pages w r) (me_psize (w_env w)) D p stk 0 [] (map snd L) post"
      "leaf_rep (w_mem w) (me_psize (w_env w)) (fst (last stk)) L" "items = map snd L @ post"
      using to_first.page_search [OF fresh False, of touch c] by auto
    define mp where "mp = fst (last stk)"
    have ne: "stk \<noteq> []" using at_node_tree [OF S(6)] by simp
    then have sn: "0 < mc_snum r1" using S(5) length_path [OF S(3)] by (metis length_greater_0_conv)
    note Lf = leaf_repD [OF S(7), folded mp_def]
    have L0: "L \<noteq> []" using at_node_nonempty [OF S(6)] False S(8) by auto
    define r2 where "r2 = r1\<lparr>mc_flags := clear (mc_flags r1 OR C_INITIALIZED) C_EOF\<rparr>"
    define r3 where "r3 = set_ki r2 0"
    have R2: "same_cur r r2" "stack_wf r2" "path r2 = stk" "0 < mc_snum r2"
      using S(2,3,5) sn by (simp_all add: r2_def same_cur_def stack_wf_def path_def)
    have R3: "same_cur r r3" "stack_wf r3" "0 < mc_snum r3" "mc_flags r3 = clear (clear (mc_flags r OR C_INITIALIZED) C_EOF OR C_INITIALIZED) C_EOF"
      using R2 same_cur_trans [OF R2(1) same_cur_refl(2)] S(4) by (simp_all add: r3_def) (simp add: r2_def)
    note P3 = set_ki_item [OF R2(2,3) ne S(6), of 0, folded r3_def]
    have ro: "is_ro (mc_flags r3) = is_ro (mc_flags r)" using R3(4) by simp
    have cp: "cur_pages w r3 = cur_pages w r" by (rule cur_pages_same [OF R3(1) ro])
    have "walk_ok w r3" by (rule walk_ok_same [OF R3(1) _ F(1)]) (simp add: R3(4))
    then have on3: "on_item w r3 items 0"
      using R3(2,4) P3 S(7,8) L0 cp by (intro on_itemI [of r3 w 0 items D p "path r3" "[]" L post mp 0]) (simp_all add: mp_def)
    have it: "items ! 0 = snd (L ! 0)" "0 < length items" using L0 S(8) by (simp_all add: nth_append)
    note pl = plain_nth [OF plain it(2), unfolded it(1)]
    obtain iv where iv: "item_value (w_mem w) (cur_pages w r) (snd (L ! 0)) = Some iv" using pl by blast
    have N: "NODEPTR (w_mem w) mp 0 = Some (padd mp (fst (L ! 0)))"
      "load (w_mem w) (padd mp (fst (L ! 0))) (length (snd (L ! 0))) = Some (snd (L ! 0))" "NODESIZE \<le> length (snd (L ! 0))"
      using Lf(6,7,8) L0 by simp_all
    obtain v where v: "MDB_GET_KEY2 (w_mem w) (padd mp (fst (L ! 0))) = Some v" "val_bytes (w_mem w) v = Some (node_key (snd (L ! 0)))"
      using leaf_key [OF S(7), of 0] L0 by (auto simp: mp_def)
    obtain dv where dv: "mdb_node_read (put_cur w c r3) c (padd mp (fst (L ! 0))) d0 = Some (MDB_SUCCESS, dv, put_cur w c r3)"
      "val_bytes (w_mem w) dv = Some iv"
      using node_read_value [of "put_cur w c r3" "padd mp (fst (L ! 0))" _ "snd (L ! 0)" c r3 iv] N(2,3) iv cp by (auto simp: cur_pages_def)
    have "top_pg (put_cur w c r1) c = Some mp" using top_simps(1) [of "put_cur w c r1" c r1] S(3,5) sn by (simp add: mp_def)
    moreover have "set_top_ki (put_cur w c r2) c 0 = Some (put_cur w c r3)" using top_simps(3) [of "put_cur w c r2" c r2] R2 by (simp add: r3_def)
    ultimately have "mdb_cursor_first (Suc d) touch (put_cur w c r) c (Some k0) (Some d0) = Some (MDB_SUCCESS, Some v, Some dv, put_cur w c r3)"
      using xr F(2) S(1) Lf(2,3) N(1) node_fields(2) [OF N(2,3)] pl dv(1) v(1)
      by (simp add: or_flags_def clear_flags_def upd_cur_def MDB_GET_KEY_def r2_def)
    moreover have "returns_item w (cur_pages w r) (items ! 0) (Some v) (Some dv)" using v(2) dv(2) iv it(1) by (simp add: returns_item_def)
    ultimately show ?thesis using False R3(1) ro on3 by auto
  qed
qed

section \<open>Scanning\<close>

lemma cursor_get_wrap:
  assumes "w_txns w (mc_txn r) = Some x" "\<not> any_set (mt_flags x) MDB_TXN_BLOCKED"
    and "cursor_get_op (\<lambda>w x k. cursor_get_level 1 touch w x k None MDB_GET_CURRENT) touch (put_cur w c r) c key data op =
      Some (rc, kv, dv, put_cur w c r')" "\<not> any_set (mc_flags r') C_DEL"
  shows "mdb_cursor_get touch (put_cur w c r) (Some c) key data op = Some (rc, kv, dv, put_cur w c r')"
  using assms by (simp add: mdb_cursor_get_def numeral_2_eq_2 get_txn_def del: cursor_get_op_def)

lemma cursor_get_next:
  assumes on: "on_item w r items n" and plain: "plain_items (w_mem w) (cur_pages w r) items"
  shows "if Suc n < length items
    then \<exists>r' kv dv. mdb_cursor_get touch (put_cur w c r) (Some c) (Some k0) (Some d0) MDB_NEXT = Some (MDB_SUCCESS, kv, dv, put_cur w c r') \<and>
      same_cur r r' \<and> is_ro (mc_flags r') = is_ro (mc_flags r) \<and> on_item w r' items (Suc n) \<and> returns_item w (cur_pages w r) (items ! Suc n) kv dv
    else \<exists>r'. mdb_cursor_get touch (put_cur w c r) (Some c) (Some k0) (Some d0) MDB_NEXT =
        Some (MDB_NOTFOUND, Some k0, Some d0, put_cur w c r') \<and> same_cur r r' \<and> is_ro (mc_flags r') = is_ro (mc_flags r) \<and> on_item w r' items n"
proof -
  obtain x where x: "w_txns w (mc_txn r) = Some x" "\<not> any_set (mt_flags x) MDB_TXN_BLOCKED"
    using on by (auto simp: on_item_def walk_ok_def)
  have del: "on_item w r' items m \<Longrightarrow> \<not> any_set (mc_flags r') C_DEL" for r' m by (simp add: on_item_def walk_ok_def)
  have op: "cursor_get_op again touch w c key data MDB_NEXT = mdb_cursor_next (Suc 1) touch w c key data MDB_NEXT" for again w key data
    by (simp add: cursor_get_op_def numeral_2_eq_2 del: mdb_cursor_next.simps)
  show ?thesis
  proof (cases "Suc n < length items")
    case True
    then obtain r' kv dv where "mdb_cursor_next (Suc 1) touch (put_cur w c r) c (Some k0) (Some d0) MDB_NEXT = Some (MDB_SUCCESS, kv, dv, put_cur w c r')"
      "same_cur r r'" "is_ro (mc_flags r') = is_ro (mc_flags r)" "on_item w r' items (Suc n)" "returns_item w (cur_pages w r) (items ! Suc n) kv dv"
      using cursor_next_item [OF assms, of 1 touch c k0 d0] by auto
    then show ?thesis using True cursor_get_wrap [OF x, of touch c "Some k0" "Some d0" MDB_NEXT] op del by auto
  next
    case False
    then obtain r' where "mdb_cursor_next (Suc 1) touch (put_cur w c r) c (Some k0) (Some d0) MDB_NEXT =
        Some (MDB_NOTFOUND, Some k0, Some d0, put_cur w c r')" "same_cur r r'" "is_ro (mc_flags r') = is_ro (mc_flags r)" "on_item w r' items n"
      using cursor_next_item [OF assms, of 1 touch c k0 d0] by auto
    then show ?thesis using False cursor_get_wrap [OF x, of touch c "Some k0" "Some d0" MDB_NEXT] op del by auto
  qed
qed

text \<open>A client's loop over a cursor, from a first operation on: the items it is given, and the code that ends it.\<close>

fun scan :: "nat \<Rightarrow> touch_fun \<Rightarrow> world \<Rightarrow> cid \<Rightarrow> MDB_val \<Rightarrow> MDB_val \<Rightarrow> MDB_cursor_op \<Rightarrow> ((u8 list \<times> u8 list) list \<times> int \<times> world) option" where
  "scan 0 touch w c k d op = None"
| "scan (Suc n) touch w c k d op = do {
     (rc, kv, dv, w) \<leftarrow> mdb_cursor_get touch w (Some c) (Some k) (Some d) op;
     if rc \<noteq> MDB_SUCCESS then Some ([], rc, w)
     else do {
       k \<leftarrow> kv;
       d \<leftarrow> dv;
       kb \<leftarrow> val_bytes (w_mem w) k;
       vb \<leftarrow> val_bytes (w_mem w) d;
       (xs, rc, w) \<leftarrow> scan n touch w c k d MDB_NEXT;
       Some ((kb, vb) # xs, rc, w) } }"

lemma scan_next:
  assumes "on_item w r items n" "plain_items (w_mem w) (cur_pages w r) items" "length items \<le> n + m" "0 < m"
  shows "\<exists>r'. scan m touch (put_cur w c r) c k0 d0 MDB_NEXT =
    Some (table (w_mem w) (cur_pages w r) (drop (Suc n) items), MDB_NOTFOUND, put_cur w c r')"
  using assms
proof (induction m arbitrary: n r k0 d0)
  case (Suc m)
  note step = cursor_get_next [OF Suc.prems(1,2), of touch c k0 d0]
  show ?case
  proof (cases "Suc n < length items")
    case True
    then obtain r' kv dv where N: "mdb_cursor_get touch (put_cur w c r) (Some c) (Some k0) (Some d0) MDB_NEXT = Some (MDB_SUCCESS, kv, dv, put_cur w c r')"
      "same_cur r r'" "is_ro (mc_flags r') = is_ro (mc_flags r)" "on_item w r' items (Suc n)" "returns_item w (cur_pages w r) (items ! Suc n) kv dv"
      using step by auto
    have cp: "cur_pages w r' = cur_pages w r" by (rule cur_pages_same [OF N(2,3)])
    obtain k1 d1 where kd: "kv = Some k1" "dv = Some d1" "val_bytes (w_mem w) k1 = Some (node_key (items ! Suc n))"
      "val_bytes (w_mem w) d1 = Some (the (item_value (w_mem w) (cur_pages w r) (items ! Suc n)))"
      using N(5) plain_nth [OF Suc.prems(2) True] by (auto simp: returns_item_def)
    obtain r'' where "scan m touch (put_cur w c r') c k1 d1 MDB_NEXT =
        Some (table (w_mem w) (cur_pages w r) (drop (Suc (Suc n)) items), MDB_NOTFOUND, put_cur w c r'')"
      using Suc.IH [OF N(4), of k1 d1] Suc.prems(2,3) cp True by auto
    then show ?thesis using N(1) kd True by (auto simp: table_def Cons_nth_drop_Suc [symmetric])
  next
    case False
    then show ?thesis using step by (auto simp: table_def)
  qed
qed simp

lemma scan_table:
  assumes fresh: "fresh_on w r items" and plain: "plain_items (w_mem w) (cur_pages w r) items" and m: "length items < m"
  shows "\<exists>r'. scan m touch (put_cur w c r) c k0 d0 MDB_FIRST = Some (table (w_mem w) (cur_pages w r) items, MDB_NOTFOUND, put_cur w c r')"
proof -
  obtain x where x: "w_txns w (mc_txn r) = Some x" "\<not> any_set (mt_flags x) MDB_TXN_BLOCKED" "\<not> any_set (mc_flags r) C_DEL"
    using fresh by (auto simp: fresh_on_def walk_ok_def)
  have op: "cursor_get_op again touch w c key data MDB_FIRST = mdb_cursor_first (Suc 1) touch w c key data" for again w key data
    by (simp add: cursor_get_op_def numeral_2_eq_2 del: mdb_cursor_first.simps)
  obtain m' where m': "m = Suc m'" using m by (cases m) auto
  note F = cursor_first_item [OF fresh plain, of 1 touch c k0 d0]
  show ?thesis
  proof (cases "items = []")
    case True
    then obtain r' where "mdb_cursor_first (Suc 1) touch (put_cur w c r) c (Some k0) (Some d0) = Some (MDB_NOTFOUND, Some k0, Some d0, put_cur w c r')"
      "mc_flags r' = mc_flags r" using F by auto
    then show ?thesis using True m' x cursor_get_wrap [OF x(1,2), of touch c "Some k0" "Some d0" MDB_FIRST] op by (auto simp: table_def)
  next
    case False
    then obtain r' kv dv where N: "mdb_cursor_first (Suc 1) touch (put_cur w c r) c (Some k0) (Some d0) = Some (MDB_SUCCESS, kv, dv, put_cur w c r')"
      "same_cur r r'" "is_ro (mc_flags r') = is_ro (mc_flags r)" "on_item w r' items 0" "returns_item w (cur_pages w r) (items ! 0) kv dv"
      using F by auto
    have g: "mdb_cursor_get touch (put_cur w c r) (Some c) (Some k0) (Some d0) MDB_FIRST = Some (MDB_SUCCESS, kv, dv, put_cur w c r')"
      by (rule cursor_get_wrap [OF x(1,2)]) (use op N(1,4) in \<open>auto simp: on_item_def walk_ok_def\<close>)
    have cp: "cur_pages w r' = cur_pages w r" by (rule cur_pages_same [OF N(2,3)])
    obtain k1 d1 where kd: "kv = Some k1" "dv = Some d1" "val_bytes (w_mem w) k1 = Some (node_key (items ! 0))"
      "val_bytes (w_mem w) d1 = Some (the (item_value (w_mem w) (cur_pages w r) (items ! 0)))"
      using N(5) plain_nth [OF plain, of 0] False by (auto simp: returns_item_def)
    obtain r'' where "scan m' touch (put_cur w c r') c k1 d1 MDB_NEXT =
        Some (table (w_mem w) (cur_pages w r) (drop (Suc 0) items), MDB_NOTFOUND, put_cur w c r'')"
      using scan_next [OF N(4), of m' touch c k1 d1] plain m m' cp False by (cases items) auto
    moreover have "table (w_mem w) (cur_pages w r) items = (node_key (items ! 0), the (item_value (w_mem w) (cur_pages w r) (items ! 0))) #
        table (w_mem w) (cur_pages w r) (drop (Suc 0) items)"
      using False by (cases items) (simp_all add: table_def)
    ultimately show ?thesis using g kd m' by auto
  qed
qed

end
