(* ===== verification/Freelist_Spec.thy ===== *)
theory Freelist_Spec
  imports Freelist
begin

text \<open>
  The dirty list after \<^verbatim>\<open>mdb_freelist_save\<close> squashed the slots of loose pages out of it
  (\<open>squash_dirty\<close>): the live entries, in their order.
\<close>

abbreviation live :: "ptr MDB_ID2 \<Rightarrow> bool" where
  "live e \<equiv> mptr e \<noteq> NULL"

abbreviation part :: "'a list \<Rightarrow> nat \<Rightarrow> nat \<Rightarrow> 'a list" where
  "part xs i n \<equiv> take n (drop i xs)"

lemma part_Suc: "i < length xs \<Longrightarrow> part xs i (Suc n) = xs ! i # part xs (Suc i) n"
  by (simp add: Cons_nth_drop_Suc [symmetric])

lemma part_update: "i < j \<Longrightarrow> part (xs[i := v]) j n = part xs j n"
  by simp

lemma first_blank_eq:
  assumes "y + n \<le> length dl"
  shows "first_blank dl n y = Some (y + length (takeWhile live (part dl y n)))"
  using assms by (induction n arbitrary: y) (auto simp: part_Suc)

lemma squash_loop_eq:
  assumes "x \<le> y" "y + n \<le> length dl"
  shows "\<exists>dl'. squash_loop dl n x y = Some (dl', x + length (filter live (part dl y n))) \<and> length dl' = length dl \<and>
    take x dl' = take x dl \<and> part dl' x (length (filter live (part dl y n))) = filter live (part dl y n)"
  using assms
proof (induction n arbitrary: dl x y)
  case (Suc n)
  have y: "y < length dl" and e: "part dl y (Suc n) = dl ! y # part dl (Suc y) n"
    using Suc.prems by (auto simp: part_Suc)
  show ?case
  proof (cases "live (dl ! y)")
    case False
    then show ?thesis using Suc.IH [of x "Suc y" dl] Suc.prems y e by auto
  next
    case True
    define dl1 where "dl1 = dl[x := dl ! y]"
    let ?F = "filter live (part dl (Suc y) n)"
    have p: "part dl1 (Suc y) n = part dl (Suc y) n" using Suc.prems(1) by (simp add: dl1_def)
    obtain dl' where I: "squash_loop dl1 n (Suc x) (Suc y) = Some (dl', Suc x + length ?F)" "length dl' = length dl1"
      "take (Suc x) dl' = take (Suc x) dl1" "part dl' (Suc x) (length ?F) = ?F"
      using Suc.IH [of "Suc x" "Suc y" dl1] Suc.prems p by (auto simp: dl1_def)
    have x: "x < length dl" "x < length dl'" using Suc.prems y I(2) by (auto simp: dl1_def)
    have "dl' ! x = dl ! y" using arg_cong [OF I(3), of "\<lambda>l. l ! x"] x by (simp add: dl1_def)
    moreover have "take x dl' = take x dl" using arg_cong [OF I(3), of "take x"] by (simp add: dl1_def min_def)
    ultimately show ?thesis using I True y e x by (auto simp: dl1_def part_Suc)
  qed
qed simp

lemma takeWhile_filter: "filter P (takeWhile P xs) = takeWhile P xs"
  by (induction xs) auto

lemma takeWhile_less: "\<not> (\<forall>x\<in>set xs. P x) \<Longrightarrow> length (takeWhile P xs) < length xs"
  by (induction xs) auto

lemma squash_dirty_eq:
  assumes dl: "dl \<noteq> []" "unat (mid (hd dl)) < length dl"
  shows "\<exists>dl'. squash_dirty dl = Some dl' \<and> length dl' = length dl \<and>
    id2_entries dl' = (if \<forall>e\<in>set (id2_entries dl). live e then [] else filter live (id2_entries dl))"
proof -
  define len where "len = unat (mid (hd dl))"
  define es where "es = id2_entries dl"
  have es: "es = part dl 1 len" "length es = len"
    using dl by (auto simp: es_def id2_entries_def len_def drop_Suc)
  have e0: "rd dl 0 = Some (hd dl)" using dl by (simp add: hd_conv_nth)
  define k where "k = length (takeWhile live es)"
  have fb: "first_blank dl len 1 = Some (Suc k)"
    using first_blank_eq [of 1 len dl] dl(2) es(1) by (simp add: k_def len_def)
  show ?thesis
  proof (cases "\<forall>e\<in>set es. live e")
    case True
    then have "k = len" using es(2) by (simp add: k_def takeWhile_eq_all_conv [THEN iffD2])
    then have "squash_dirty dl = Some (dl[0 := (hd dl)\<lparr>mid := 0\<rparr>])"
      using dl e0 fb by (simp add: squash_dirty_def Let_def flip: len_def)
    moreover have "id2_entries (dl[0 := (hd dl)\<lparr>mid := 0\<rparr>]) = []" using dl(1) by (cases dl) (simp_all add: id2_entries_def)
    ultimately show ?thesis using True by (simp flip: es_def)
  next
    case False
    then have k: "k < len" using takeWhile_less [of es live] es(2) by (simp add: k_def)
    let ?F = "filter live (part dl (Suc (Suc k)) (len - Suc k))"
    obtain dl' where S: "squash_loop dl (len - Suc k) (Suc k) (Suc (Suc k)) = Some (dl', Suc k + length ?F)" "length dl' = length dl"
      "take (Suc k) dl' = take (Suc k) dl" "part dl' (Suc k) (length ?F) = ?F"
      using squash_loop_eq [of "Suc k" "Suc (Suc k)" "len - Suc k" dl] dl(2) k by (auto simp: len_def)
    have split: "es = take k es @ es ! k # part dl (Suc (Suc k)) (len - Suc k)"
    proof -
      have "drop (Suc k) es = part dl (Suc (Suc k)) (len - Suc k)"
        by (simp add: es(1) drop_take)
      then show ?thesis using id_take_nth_drop [of k es] k es(2) by simp
    qed
    have tk: "take k es = takeWhile live es" unfolding k_def by (rule takeWhile_eq_take [symmetric])
    have dead: "\<not> live (es ! k)" using nth_length_takeWhile [of live es] k es(2) by (simp add: k_def)
    have F: "filter live es = take k es @ ?F"
      using dead by (subst split) (simp add: tk takeWhile_filter)
    have n: "k + length ?F < length dl" "k + length ?F < 2 ^ 64"
    proof -
      have "length ?F \<le> len - Suc k" using length_filter_le [of live "part dl (Suc (Suc k)) (len - Suc k)"] by simp
      then have "k + length ?F < len" using k by simp
      moreover have "len < 2 ^ 64" using unsigned_less [of "mid (hd dl)", where ?'a = nat] by (simp add: len_def)
      ultimately show "k + length ?F < length dl" "k + length ?F < 2 ^ 64" using dl(2) by (auto simp: len_def)
    qed
    have tl: "take (k + length ?F) (tl dl') = take k es @ ?F"
    proof -
      have "take k (tl dl') = take k es"
        using arg_cong [OF S(3), of tl] k by (simp add: es(1) take_Suc_conv_app_nth drop_Suc tl_take min_def)
      moreover have "take (length ?F) (drop k (tl dl')) = ?F" using S(4) by (simp add: drop_Suc)
      ultimately show ?thesis by (simp add: take_add)
    qed
    have ne: "dl' \<noteq> []" using S(2) dl(1) by auto
    have run: "squash_dirty dl = Some (dl'[0 := (hd dl)\<lparr>mid := of_nat (k + length ?F)\<rparr>])"
      using e0 fb S(1,2) k dl(1) by (simp add: squash_dirty_def Let_def flip: len_def)
    have "id2_entries (dl'[0 := (hd dl)\<lparr>mid := of_nat (k + length ?F)\<rparr>]) = take k es @ ?F"
      using ne n(2) tl by (cases dl') (simp_all add: id2_entries_def unat_of_nat take_bit_nat_eq_self del: of_nat_add)
    then show ?thesis unfolding es_def [symmetric] using run F False S(2) by (simp only: if_False) (metis length_list_update)
  qed
qed

end
