(* ===== verification/Copy_Thread.thy ===== *)
theory Copy_Thread
  imports Types
begin

text \<open>
  The two threads of a compacting copy (\<^verbatim>\<open>mdb_env_copythr\<close>, \<^verbatim>\<open>mdb_env_cthr_toggle\<close>,
  \<^verbatim>\<open>lmdb/mdb.c\<close>): the provider fills one of two buffers while the writer puts the other one in
  the file. Each thread is a step function; a step lies between two accesses to what they share.
  An array of two elements is a function on \<open>bool\<close>, \<open>False\<close> for index 0, so that \<^verbatim>\<open>^= 1\<close> is a
  negation.
\<close>

abbreviation (input) MDB_WBUF :: nat where "MDB_WBUF \<equiv> 1024 * 1024"
abbreviation (input) MDB_EOF :: nat where "MDB_EOF \<equiv> 0x10"

text \<open>
  \<open>mc_out\<close> is what has been written to \<^verbatim>\<open>mc_fd\<close>. \<^verbatim>\<open>mc_olen\<close> is an \<^verbatim>\<open>int\<close> read with its sign
  (\<open>olen\<close>): no bytes are written when it is negative.
\<close>

record mdb_copy =
  mc_copy_txn :: "tid option"
  mc_wbuf :: "bool \<Rightarrow> ptr"
  mc_over :: "bool \<Rightarrow> ptr"
  mc_wlen :: "bool \<Rightarrow> nat"
  mc_olen :: "bool \<Rightarrow> u32"
  mc_next_pgno :: u64
  mc_out :: "u8 list"
  mc_toggle :: bool
  mc_new :: nat
  mc_error :: int

text \<open>Where a thread is: at its lock, at the test of its loop with the mutex held, asleep on \<^verbatim>\<open>mc_cond\<close>, \<dots>\<close>

datatype writer_pc = W_Start | W_Lock | W_While | W_Sleep | W_Write ptr nat | W_Unlock | W_End

datatype provider_pc = P_Out | P_Lock nat | P_While nat | P_Sleep nat | P_Relock nat | P_Unlocked nat | P_Join | P_Done

datatype copy_thread = Writer | Provider

text \<open>Both threads: the mutex is \<open>cs_owner\<close>, the \<^verbatim>\<open>toggle\<close> of the writer \<open>cs_wt\<close>, the last result of the provider's call \<open>cs_ret\<close>.\<close>

record copy_sys =
  cs_w :: world
  cs_my :: mdb_copy
  cs_owner :: "copy_thread option"
  cs_wr :: writer_pc
  cs_wt :: bool
  cs_pr :: provider_pc
  cs_ret :: int

section \<open>The writer\<close>

text \<open>
  \<^verbatim>\<open>pthread_cond_signal\<close>: only the other thread can be asleep. A thread that wakes up takes the
  mutex and tests its condition again, as after its first lock.
\<close>

definition signal_writer :: "copy_sys \<Rightarrow> copy_sys" where
  "signal_writer s = (if cs_wr s = W_Sleep then s\<lparr>cs_wr := W_Lock\<rparr> else s)"

definition signal_provider :: "copy_sys \<Rightarrow> copy_sys" where
  "signal_provider s = (case cs_pr s of P_Sleep a \<Rightarrow> s\<lparr>cs_pr := P_Relock a\<rparr> | _ \<Rightarrow> s)"

text \<open>
  \<^verbatim>\<open>DO_WRITE\<close>: a positive outcome is an error, 0 writes everything, and \<open>-k\<close> writes \<open>k - 1\<close>
  bytes at most.
\<close>

definition do_write :: "world \<Rightarrow> ptr \<Rightarrow> nat \<Rightarrow> (int \<times> u8 list \<times> world) option" where
  "do_write w p n = do {
     bs \<leftarrow> load (w_mem w) p n;
     let (r, w) = syscall w;
     Some (if r > 0 then (r, [], w) else (0, if r = 0 then bs else take (nat (- r) - 1) bs, w)) }"

definition copy_do :: "copy_sys \<Rightarrow> (mdb_copy \<Rightarrow> mdb_copy) \<Rightarrow> copy_sys" where
  "copy_do s f = s\<lparr>cs_my := f (cs_my s)\<rparr>"

definition olen :: "mdb_copy \<Rightarrow> bool \<Rightarrow> nat" where
  "olen my i = nat (sint (mc_olen my i))"

text \<open>After the loop of writes: the tail of an overflow page, or the buffer goes back to the provider.\<close>

definition write_over :: "copy_sys \<Rightarrow> copy_sys" where
  "write_over s = (let my = cs_my s; t = cs_wt s in
     if mc_olen my t \<noteq> 0 then
       (copy_do s (\<lambda>my. my\<lparr>mc_olen := (mc_olen my)(t := 0)\<rparr>))\<lparr>cs_wr := W_Write (mc_over my t) (olen my t)\<rparr>
     else
       signal_provider ((copy_do s (\<lambda>my. my\<lparr>mc_wlen := (mc_wlen my)(t := 0), mc_new := mc_new my - 1\<rparr>))
         \<lparr>cs_wt := \<not> t, cs_wr := W_While\<rparr>))"

definition copythr_write :: "copy_sys \<Rightarrow> ptr \<Rightarrow> nat \<Rightarrow> copy_sys option" where
  "copythr_write s ptr wsize = (
     if wsize > 0 \<and> mc_error (cs_my s) = 0 then do {
       (rc, bs, w) \<leftarrow> do_write (cs_w s) ptr wsize;
       let s = copy_do (s\<lparr>cs_w := w\<rparr>) (\<lambda>my. my\<lparr>mc_out := mc_out my @ bs\<rparr>);
       Some (if rc \<noteq> 0 then write_over (copy_do s (\<lambda>my. my\<lparr>mc_error := rc\<rparr>))
         else if bs \<noteq> [] then s\<lparr>cs_wr := W_Write (padd ptr (length bs)) (wsize - length bs)\<rparr>
         else write_over (copy_do s (\<lambda>my. my\<lparr>mc_error := EIO\<rparr>))) }
     else Some (write_over s))"

definition mdb_env_copythr :: "copy_sys \<Rightarrow> copy_sys option" where
  "mdb_env_copythr s = (let my = cs_my s; t = cs_wt s in
     case cs_wr s of
       W_Start \<Rightarrow> (let (rc, w) = syscall (cs_w s) in
         Some ((copy_do s (\<lambda>my. if rc \<noteq> 0 then my\<lparr>mc_error := rc\<rparr> else my))\<lparr>cs_w := w, cs_wr := W_Lock\<rparr>))
     | W_Lock \<Rightarrow> (if cs_owner s = None then Some (s\<lparr>cs_owner := Some Writer, cs_wr := W_While\<rparr>) else None)
     | W_While \<Rightarrow> Some (if mc_new my = 0 then s\<lparr>cs_owner := None, cs_wr := W_Sleep\<rparr>
         else if mc_new my = 0 + MDB_EOF then s\<lparr>cs_wr := W_Unlock\<rparr>
         else s\<lparr>cs_wr := W_Write (mc_wbuf my t) (mc_wlen my t)\<rparr>)
     | W_Sleep \<Rightarrow> None
     | W_Write ptr wsize \<Rightarrow> copythr_write s ptr wsize
     | W_Unlock \<Rightarrow> Some (s\<lparr>cs_owner := None, cs_wr := W_End\<rparr>)
     | W_End \<Rightarrow> None)"

section \<open>The provider\<close>

text \<open>The steps of a call of \<^verbatim>\<open>mdb_env_cthr_toggle\<close>, and the join at the end.\<close>

definition cthr_toggle_step :: "copy_sys \<Rightarrow> copy_sys option" where
  "cthr_toggle_step s = (
     case cs_pr s of
       P_Out \<Rightarrow> None
     | P_Lock a \<Rightarrow> (if cs_owner s = None then
           Some (signal_writer ((copy_do s (\<lambda>my. my\<lparr>mc_new := mc_new my + a\<rparr>))\<lparr>cs_owner := Some Provider, cs_pr := P_While a\<rparr>))
         else None)
     | P_While a \<Rightarrow> Some (if mc_new (cs_my s) AND 2 \<noteq> 0 then s\<lparr>cs_owner := None, cs_pr := P_Sleep a\<rparr>
         else s\<lparr>cs_owner := None, cs_pr := P_Unlocked a\<rparr>)
     | P_Sleep a \<Rightarrow> None
     | P_Relock a \<Rightarrow> (if cs_owner s = None then Some (s\<lparr>cs_owner := Some Provider, cs_pr := P_While a\<rparr>) else None)
     | P_Unlocked a \<Rightarrow> (let t = (mc_toggle (cs_my s) \<noteq> odd a) in
         Some ((copy_do s (\<lambda>my. my\<lparr>mc_toggle := t, mc_wlen := (mc_wlen my)(t := 0)\<rparr>))
           \<lparr>cs_pr := P_Out, cs_ret := mc_error (cs_my s)\<rparr>))
     | P_Join \<Rightarrow> (if cs_wr s = W_End then Some (s\<lparr>cs_pr := P_Done\<rparr>) else None)
     | P_Done \<Rightarrow> None)"

text \<open>
  A call runs until the provider is through; an outcome of the world decides which thread is
  next when both can go on.
\<close>

partial_function (option) cthr_run :: "copy_sys \<Rightarrow> copy_sys option" where
  "cthr_run s = (if cs_pr s = P_Out \<or> cs_pr s = P_Done then Some s
     else do {
       let (pick, w) = syscall (cs_w s);
       let s = s\<lparr>cs_w := w\<rparr>;
       s \<leftarrow> (if pick = 0 then (case mdb_env_copythr s of Some s \<Rightarrow> Some s | None \<Rightarrow> cthr_toggle_step s)
          else (case cthr_toggle_step s of Some s \<Rightarrow> Some s | None \<Rightarrow> mdb_env_copythr s));
       cthr_run s })"

definition mdb_env_cthr_toggle :: "copy_sys \<Rightarrow> nat \<Rightarrow> (int \<times> copy_sys) option" where
  "mdb_env_cthr_toggle s adjust = do {
     s \<leftarrow> cthr_run (s\<lparr>cs_pr := P_Lock adjust\<rparr>);
     Some (cs_ret s, s) }"

definition cthr_finish :: "copy_sys \<Rightarrow> copy_sys option" where
  "cthr_finish s = cthr_run (s\<lparr>cs_pr := P_Join\<rparr>)"

end
