(* ===== verification/Copy_Thread_Spec.thy ===== *)
theory Copy_Thread_Spec
  imports Copy_Thread "HOL-Library.Sublist"
begin

text \<open>
  The protocol of the two copying threads as a transition system with a history \<open>h\<close> of the bytes
  handed to the writer. The invariant ties the position of each thread to the count of full
  buffers, so that a wake-up cannot be lost, and the file to the history.
\<close>

section \<open>The transition system\<close>

declare olen_def [simp]

text \<open>What is in a buffer: its bytes and those of the overflow page behind it.\<close>

definition tail_of :: "mem \<Rightarrow> mdb_copy \<Rightarrow> bool \<Rightarrow> u8 list option" where
  "tail_of m my i = (if mc_olen my i = 0 then Some [] else load m (mc_over my i) (olen my i))"

definition buffer :: "mem \<Rightarrow> mdb_copy \<Rightarrow> bool \<Rightarrow> u8 list option" where
  "buffer m my i = do { bs \<leftarrow> load m (mc_wbuf my i) (mc_wlen my i); os \<leftarrow> tail_of m my i; Some (bs @ os) }"

definition copy_start :: "copy_sys \<Rightarrow> bool" where
  "copy_start s \<longleftrightarrow> cs_owner s = None \<and> cs_wr s = W_Start \<and> \<not> cs_wt s \<and> cs_pr s = P_Out \<and>
     mc_new (cs_my s) = 0 \<and> \<not> mc_toggle (cs_my s) \<and> mc_out (cs_my s) = [] \<and> mc_error (cs_my s) = 0"

text \<open>
  Between its calls the provider may do anything that leaves the other buffer, what it points at,
  the count and the file alone, and keeps an error.
\<close>

definition provider_fills :: "mdb_copy \<Rightarrow> mem \<Rightarrow> mdb_copy \<Rightarrow> mem \<Rightarrow> bool" where
  "provider_fills my m my' m' \<longleftrightarrow> (let o' = (\<not> mc_toggle my) in
     mc_toggle my' = mc_toggle my \<and> mc_new my' = mc_new my \<and> mc_out my' = mc_out my \<and>
     (mc_error my \<noteq> 0 \<longrightarrow> mc_error my' \<noteq> 0) \<and>
     mc_wbuf my' o' = mc_wbuf my o' \<and> mc_wlen my' o' = mc_wlen my o' \<and>
     mc_over my' o' = mc_over my o' \<and> mc_olen my' o' = mc_olen my o' \<and>
     (\<forall>k n. load m' (padd (mc_wbuf my o') k) n = load m (padd (mc_wbuf my o') k) n) \<and>
     (\<forall>k n. load m' (padd (mc_over my o') k) n = load m (padd (mc_over my o') k) n))"

text \<open>
  The outcomes of the calls to come are open (\<open>outcomes\<close>), and a thread may wake up without a
  signal.
\<close>

inductive copy_reach :: "u8 list \<Rightarrow> copy_sys \<Rightarrow> bool" where
  start: "copy_start s \<Longrightarrow> copy_reach [] s"
| writer: "copy_reach h s \<Longrightarrow> mdb_env_copythr s = Some s' \<Longrightarrow> copy_reach h s'"
| provider: "copy_reach h s \<Longrightarrow> (\<And>a. cs_pr s \<noteq> P_Lock a) \<Longrightarrow> cthr_toggle_step s = Some s' \<Longrightarrow> copy_reach h s'"
| hand: "copy_reach h s \<Longrightarrow> cs_pr s = P_Lock a \<Longrightarrow> buffer (w_mem (cs_w s)) (cs_my s) (mc_toggle (cs_my s)) = Some bs \<Longrightarrow>
    cthr_toggle_step s = Some s' \<Longrightarrow> copy_reach (h @ bs) s'"
| fill: "copy_reach h s \<Longrightarrow> cs_pr s = P_Out \<Longrightarrow> provider_fills (cs_my s) (w_mem (cs_w s)) my (w_mem w) \<Longrightarrow>
    copy_reach h (s\<lparr>cs_w := w, cs_my := my\<rparr>)"
| call: "copy_reach h s \<Longrightarrow> cs_pr s = P_Out \<Longrightarrow> mc_new (cs_my s) < MDB_EOF \<Longrightarrow> a \<in> {1, 1 OR MDB_EOF} \<Longrightarrow>
    copy_reach h (s\<lparr>cs_pr := P_Lock a\<rparr>)"
| join: "copy_reach h s \<Longrightarrow> cs_pr s = P_Out \<Longrightarrow> MDB_EOF \<le> mc_new (cs_my s) \<Longrightarrow> copy_reach h (s\<lparr>cs_pr := P_Join\<rparr>)"
| outcomes: "copy_reach h s \<Longrightarrow> w_mem w = w_mem (cs_w s) \<Longrightarrow> copy_reach h (s\<lparr>cs_w := w\<rparr>)"
| writer_wakes: "copy_reach h s \<Longrightarrow> cs_wr s = W_Sleep \<Longrightarrow> copy_reach h (s\<lparr>cs_wr := W_Lock\<rparr>)"
| provider_wakes: "copy_reach h s \<Longrightarrow> cs_pr s = P_Sleep a \<Longrightarrow> copy_reach h (s\<lparr>cs_pr := P_Relock a\<rparr>)"

section \<open>The invariant\<close>

definition full :: "copy_sys \<Rightarrow> nat" where
  "full s = mc_new (cs_my s) mod 16"

definition writing :: "writer_pc \<Rightarrow> bool" where
  "writing wp \<longleftrightarrow> (case wp of W_While \<Rightarrow> True | W_Write _ _ \<Rightarrow> True | W_Unlock \<Rightarrow> True | _ \<Rightarrow> False)"

text \<open>The provider has handed a buffer over and has not turned to the other one yet.\<close>

definition handing :: "provider_pc \<Rightarrow> bool" where
  "handing pp \<longleftrightarrow> (case pp of P_While _ \<Rightarrow> True | P_Sleep _ \<Rightarrow> True | P_Relock _ \<Rightarrow> True | P_Unlocked _ \<Rightarrow> True | _ \<Rightarrow> False)"

text \<open>\<open>n\<close> full buffers, the end announced or not, the mutex, and both threads with their toggles.\<close>

definition control :: "nat \<Rightarrow> bool \<Rightarrow> copy_thread option \<Rightarrow> writer_pc \<Rightarrow> bool \<Rightarrow> provider_pc \<Rightarrow> bool \<Rightarrow> bool" where
  "control n eof owner wp wt pp tog \<longleftrightarrow> n \<le> 2 \<and>
     (owner = Some Writer \<longleftrightarrow> writing wp) \<and> (owner = Some Provider \<longleftrightarrow> (\<exists>a. pp = P_While a)) \<and>
     (wp = W_Sleep \<longrightarrow> n = 0 \<and> \<not> eof) \<and>
     (wp = W_Unlock \<or> wp = W_End \<longrightarrow> n = 0 \<and> eof) \<and>
     ((\<exists>p k. wp = W_Write p k) \<longrightarrow> n \<noteq> 0) \<and>
     (case pp of P_Out \<Rightarrow> n \<le> 1 | P_Lock a \<Rightarrow> n \<le> 1 \<and> \<not> eof \<and> a \<in> {1, 17} | P_While a \<Rightarrow> a \<in> {1, 17}
      | P_Sleep a \<Rightarrow> n = 2 \<and> a \<in> {1, 17} | P_Relock a \<Rightarrow> a \<in> {1, 17} | P_Unlocked a \<Rightarrow> n \<le> 1 \<and> a \<in> {1, 17}
      | P_Join \<Rightarrow> n \<le> 1 \<and> eof | P_Done \<Rightarrow> n \<le> 1 \<and> eof \<and> wp = W_End) \<and>
     (tog \<noteq> wt \<longleftrightarrow> (n = 1) \<noteq> handing pp)"

definition control_inv :: "copy_sys \<Rightarrow> bool" where
  "control_inv s \<longleftrightarrow> mc_new (cs_my s) < 32 \<and>
     control (full s) (MDB_EOF \<le> mc_new (cs_my s)) (cs_owner s) (cs_wr s) (cs_wt s) (cs_pr s) (mc_toggle (cs_my s))"

text \<open>The bytes handed over and not written yet.\<close>

definition left_to_write :: "mem \<Rightarrow> mdb_copy \<Rightarrow> bool \<Rightarrow> writer_pc \<Rightarrow> nat \<Rightarrow> u8 list option" where
  "left_to_write m my t wp n = do {
     xs \<leftarrow> (case wp of
        W_Write p k \<Rightarrow> do { bs \<leftarrow> load m p k; os \<leftarrow> tail_of m my t; Some (bs @ os) }
      | _ \<Rightarrow> if n = 0 then Some [] else buffer m my t);
     ys \<leftarrow> (if n = 2 then buffer m my (\<not> t) else Some []);
     Some (xs @ ys) }"

definition data_inv :: "u8 list \<Rightarrow> mem \<Rightarrow> mdb_copy \<Rightarrow> bool \<Rightarrow> writer_pc \<Rightarrow> nat \<Rightarrow> bool" where
  "data_inv h m my t wp n \<longleftrightarrow> prefix (mc_out my) h \<and>
     (\<forall>p k. wp = W_Write p k \<longrightarrow> (\<exists>j. p = padd (mc_wbuf my t) j \<or> p = padd (mc_over my t) j)) \<and>
     (\<exists>r. left_to_write m my t wp n = Some r \<and> (mc_error my = 0 \<longrightarrow> mc_out my @ r = h))"

abbreviation data_of :: "u8 list \<Rightarrow> copy_sys \<Rightarrow> bool" where
  "data_of h s \<equiv> data_inv h (w_mem (cs_w s)) (cs_my s) (cs_wt s) (cs_wr s) (full s)"

section \<open>Control\<close>

lemma full_dec:
  assumes "n mod 16 \<noteq> (0::nat)"
  shows "(n - 1) mod 16 = n mod 16 - 1" "16 \<le> n - 1 \<longleftrightarrow> 16 \<le> n"
proof -
  obtain m where n: "n = Suc m" using assms by (cases n) auto
  show "(n - 1) mod 16 = n mod 16 - 1" using assms by (simp add: n mod_Suc split: if_splits)
  have "n \<noteq> 16" using assms by auto
  then show "16 \<le> n - 1 \<longleftrightarrow> 16 \<le> n" by linarith
qed

lemma full_inc:
  assumes "n mod 16 \<le> (2::nat)"
  shows "(n + 1) mod 16 = n mod 16 + 1" "(n + 17) mod 16 = n mod 16 + 1"
proof -
  show i: "(n + 1) mod 16 = n mod 16 + 1" using assms by (simp add: mod_Suc)
  show "(n + 17) mod 16 = n mod 16 + 1" using mod_add_self2 [of "n + 1" 16] i by (simp add: add.commute)
qed

lemma and_2:
  assumes "n < 32" "n mod 16 \<le> (2::nat)"
  shows "n AND 2 \<noteq> 0 \<longleftrightarrow> n mod 16 = 2"
proof -
  have "n = n mod 16 \<or> n = n mod 16 + 16" using assms(1) by (cases "n < 16") (auto simp: le_mod_geq not_less)
  moreover have "n mod 16 = 0 \<or> n mod 16 = 1 \<or> n mod 16 = 2" using assms(2) by linarith
  ultimately have "n = 0 \<or> n = 1 \<or> n = 2 \<or> n = 16 \<or> n = 17 \<or> n = 18" by (elim disjE) simp_all
  then show ?thesis by (elim disjE) simp_all
qed

lemmas control_simps = control_def writing_def handing_def signal_writer_def signal_provider_def copy_do_def

lemma control_start: "copy_start s \<Longrightarrow> control_inv s"
  by (simp add: control_simps copy_start_def control_inv_def full_def)

definition woken :: "provider_pc \<Rightarrow> provider_pc" where
  "woken pp = (case pp of P_Sleep a \<Rightarrow> P_Relock a | _ \<Rightarrow> pp)"

text \<open>What the end of a turn does to the control state.\<close>

lemma control_back:
  assumes "control n eof ow (W_Write p k) wt pp tog"
  shows "control (n - 1) eof ow W_While (\<not> wt) (woken pp) tog" and "n \<noteq> 0"
  using assms by (cases pp; auto simp: control_simps woken_def)+

lemma control_same: "control n eof ow (W_Write p k) wt pp tog \<Longrightarrow> control n eof ow (W_Write p' k') wt pp tog"
  by (cases pp) (auto simp: control_simps)

lemma signal_provider_fields [simp]:
  "cs_my (signal_provider s) = cs_my s" "cs_owner (signal_provider s) = cs_owner s" "cs_wr (signal_provider s) = cs_wr s"
  "cs_wt (signal_provider s) = cs_wt s" "cs_w (signal_provider s) = cs_w s"
  "cs_pr (signal_provider s) = woken (cs_pr s)"
  by (auto simp: signal_provider_def woken_def split: provider_pc.splits)

lemma copy_do_fields [simp]:
  "cs_my (copy_do s f) = f (cs_my s)" "cs_owner (copy_do s f) = cs_owner s" "cs_wr (copy_do s f) = cs_wr s"
  "cs_wt (copy_do s f) = cs_wt s" "cs_w (copy_do s f) = cs_w s" "cs_pr (copy_do s f) = cs_pr s"
  by (simp_all add: copy_do_def)

lemma control_write_over:
  assumes "control_inv s" "cs_wr s = W_Write p n"
  shows "control_inv (write_over s)"
proof -
  have c: "mc_new (cs_my s) < 32"
    "control (full s) (16 \<le> mc_new (cs_my s)) (cs_owner s) (W_Write p n) (cs_wt s) (cs_pr s) (mc_toggle (cs_my s))"
    using assms by (simp_all add: control_inv_def)
  show ?thesis
    using c(1) control_back(1) [OF c(2)] control_same [OF c(2)] full_dec [of "mc_new (cs_my s)"] control_back(2) [OF c(2)]
    by (auto simp: control_inv_def write_over_def Let_def full_def)
qed

lemma control_writer_steps:
  "control n e ow W_Start wt pp tog \<Longrightarrow> control n e ow W_Lock wt pp tog"
  "control n e None W_Lock wt pp tog \<Longrightarrow> control n e (Some Writer) W_While wt pp tog"
  "control 0 False ow W_While wt pp tog \<Longrightarrow> control 0 False None W_Sleep wt pp tog"
  "control 0 True ow W_While wt pp tog \<Longrightarrow> control 0 True ow W_Unlock wt pp tog"
  "control n e ow W_While wt pp tog \<Longrightarrow> n \<noteq> 0 \<Longrightarrow> control n e ow (W_Write p k) wt pp tog"
  "control n e ow W_Unlock wt pp tog \<Longrightarrow> control n e None W_End wt pp tog"
  "control n e ow W_Sleep wt pp tog \<Longrightarrow> control n e ow W_Lock wt pp tog"
  by (cases pp; auto simp: control_simps)+

definition alerted :: "writer_pc \<Rightarrow> writer_pc" where
  "alerted wp = (if wp = W_Sleep then W_Lock else wp)"

lemma control_provider_steps:
  "control n e None wp wt (P_Lock a) tog \<Longrightarrow> control (Suc n) (a = 17) (Some Provider) (alerted wp) wt (P_While a) tog"
  "control n e ow wp wt (P_While a) tog \<Longrightarrow> n = 2 \<Longrightarrow> control n e None wp wt (P_Sleep a) tog"
  "control n e ow wp wt (P_While a) tog \<Longrightarrow> n \<noteq> 2 \<Longrightarrow> control n e None wp wt (P_Unlocked a) tog"
  "control n e None wp wt (P_Relock a) tog \<Longrightarrow> control n e (Some Provider) wp wt (P_While a) tog"
  "control n e ow wp wt (P_Unlocked a) tog \<Longrightarrow> control n e ow wp wt P_Out (\<not> tog)"
  "control n e ow wp wt P_Join tog \<Longrightarrow> wp = W_End \<Longrightarrow> control n e ow wp wt P_Done tog"
  "control n False ow wp wt P_Out tog \<Longrightarrow> a = 1 \<or> a = 17 \<Longrightarrow> control n False ow wp wt (P_Lock a) tog"
  "control n True ow wp wt P_Out tog \<Longrightarrow> control n True ow wp wt P_Join tog"
  "control n e ow wp wt (P_Sleep a) tog \<Longrightarrow> control n e ow wp wt (P_Relock a) tog"
  by (cases wp; auto simp: control_simps alerted_def)+

lemma control_provider_facts:
  "control n e ow wp wt (P_Lock a) tog \<Longrightarrow> \<not> e \<and> n \<le> 1 \<and> (a = 1 \<or> a = 17)"
  "control n e ow wp wt (P_Unlocked a) tog \<Longrightarrow> a = 1 \<or> a = 17"
  "control n e ow wp wt pp tog \<Longrightarrow> n \<le> 2"
  by (auto simp: control_def)

lemma control_fields:
  "control_inv s \<longleftrightarrow> mc_new (cs_my s) < 32 \<and>
     control (mc_new (cs_my s) mod 16) (16 \<le> mc_new (cs_my s)) (cs_owner s) (cs_wr s) (cs_wt s) (cs_pr s) (mc_toggle (cs_my s))"
  by (simp add: control_inv_def full_def)

text \<open>A write either ends the loop, or writes something, or fails.\<close>

lemma copythr_writeE:
  assumes "copythr_write s p k = Some s'"
  obtains (over) "k = 0 \<or> mc_error (cs_my s) \<noteq> 0" "s' = write_over s"
  | (wrote) xs bs w where "load (w_mem (cs_w s)) p k = Some bs" "prefix xs bs" "w_mem w = w_mem (cs_w s)" "0 < k" "mc_error (cs_my s) = 0"
      "xs \<noteq> []" "s' = (copy_do (s\<lparr>cs_w := w\<rparr>) (\<lambda>my. my\<lparr>mc_out := mc_out my @ xs\<rparr>))
        \<lparr>cs_wr := W_Write (padd p (length xs)) (k - length xs)\<rparr>"
  | (failed) e w where "e \<noteq> 0" "w_mem w = w_mem (cs_w s)" "s' = write_over (copy_do (s\<lparr>cs_w := w\<rparr>) (\<lambda>my. my\<lparr>mc_error := e\<rparr>))"
proof (cases "0 < k \<and> mc_error (cs_my s) = 0")
  case False
  then have "s' = write_over s" using assms by (auto simp: copythr_write_def)
  moreover have "k = 0 \<or> mc_error (cs_my s) \<noteq> 0" using False by auto
  ultimately show ?thesis using over by blast
next
  case True
  obtain rc xs w where W: "do_write (cs_w s) p k = Some (rc, xs, w)" using assms True by (auto simp: copythr_write_def bind_eq_Some_conv)
  obtain bs where bs: "load (w_mem (cs_w s)) p k = Some bs" "prefix xs bs" "w_mem w = w_mem (cs_w s)" "rc \<noteq> 0 \<longrightarrow> xs = []"
    using W by (auto simp: do_write_def syscall_def Let_def bind_eq_Some_conv take_is_prefix split: if_splits)
  have s': "s' = (if rc \<noteq> 0 then write_over (copy_do (s\<lparr>cs_w := w\<rparr>) (\<lambda>my. my\<lparr>mc_out := mc_out my @ xs, mc_error := rc\<rparr>))
      else if xs \<noteq> [] then (copy_do (s\<lparr>cs_w := w\<rparr>) (\<lambda>my. my\<lparr>mc_out := mc_out my @ xs\<rparr>))\<lparr>cs_wr := W_Write (padd p (length xs)) (k - length xs)\<rparr>
      else write_over (copy_do (s\<lparr>cs_w := w\<rparr>) (\<lambda>my. my\<lparr>mc_out := mc_out my @ xs, mc_error := EIO\<rparr>)))"
    using assms True unfolding copythr_write_def Let_def W copy_do_def by (auto split: if_splits)
  consider "rc \<noteq> 0" | "rc = 0" "xs \<noteq> []" | "rc = 0" "xs = []" by blast
  then show ?thesis
  proof cases
    case 1
    then show ?thesis using failed [of rc w] s' bs by simp
  next
    case 2
    then show ?thesis using wrote [OF bs(1-3)] s' True by simp
  next
    case 3
    then show ?thesis using failed [of EIO w] s' bs by simp
  qed
qed

lemma control_write:
  assumes c: "control_inv s" and wp: "cs_wr s = W_Write p k" and run: "copythr_write s p k = Some s'"
  shows "control_inv s'"
  using run
proof (cases rule: copythr_writeE)
  case over
  then show ?thesis using control_write_over [OF c wp] by simp
next
  case (wrote xs bs w)
  then show ?thesis using c wp control_same [of _ _ _ p k _ _ _ "padd p (length xs)" "k - length xs"] by (simp add: control_fields)
next
  case (failed e w)
  have "control_inv (copy_do (s\<lparr>cs_w := w\<rparr>) (\<lambda>my. my\<lparr>mc_error := e\<rparr>))" using c by (simp add: control_fields)
  then show ?thesis using control_write_over wp failed(3) by simp
qed

lemma mod16_0: "n < 32 \<Longrightarrow> n = 0 \<or> n = 16 \<or> n mod 16 \<noteq> (0::nat)"
  by (cases "n < 16") (auto simp: le_mod_geq not_less)

lemma control_writer:
  assumes "control_inv s" "mdb_env_copythr s = Some s'"
  shows "control_inv s'"
proof (cases "cs_wr s")
  case (W_Write p n)
  then show ?thesis using control_write [OF assms(1)] assms(2) by (simp add: mdb_env_copythr_def Let_def)
next
  case W_While
  have c: "mc_new (cs_my s) < 32"
    "control (mc_new (cs_my s) mod 16) (16 \<le> mc_new (cs_my s)) (cs_owner s) W_While (cs_wt s) (cs_pr s) (mc_toggle (cs_my s))"
    using assms(1) W_While by (simp_all add: control_fields)
  consider "mc_new (cs_my s) = 0" | "mc_new (cs_my s) = 16" | "mc_new (cs_my s) mod 16 \<noteq> 0" using mod16_0 [OF c(1)] by fast
  then show ?thesis
  proof cases
    case 1
    then show ?thesis using assms(2) W_While control_writer_steps(3) c(2) by (auto simp: mdb_env_copythr_def control_fields Let_def)
  next
    case 2
    then show ?thesis using assms(2) W_While control_writer_steps(4) c(2) by (auto simp: mdb_env_copythr_def control_fields Let_def)
  next
    case 3
    then have "mc_new (cs_my s) \<noteq> 0" "mc_new (cs_my s) \<noteq> 16" by auto
    then have "s' = s\<lparr>cs_wr := W_Write (mc_wbuf (cs_my s) (cs_wt s)) (mc_wlen (cs_my s) (cs_wt s))\<rparr>"
      using assms(2) W_While by (simp add: mdb_env_copythr_def Let_def)
    then show ?thesis using control_writer_steps(5) [OF c(2) 3] c(1) by (simp add: control_fields)
  qed
next
  case W_Start
  then show ?thesis using assms control_writer_steps(1) by (auto simp: mdb_env_copythr_def control_fields syscall_def Let_def)
next
  case W_Lock
  then show ?thesis using assms control_writer_steps(2) by (auto simp: mdb_env_copythr_def control_fields split: if_splits)
next
  case W_Unlock
  then show ?thesis using assms control_writer_steps(6) by (auto simp: mdb_env_copythr_def control_fields Let_def)
qed (use assms in \<open>simp_all add: mdb_env_copythr_def\<close>)

lemma control_provider:
  assumes "control_inv s" "cthr_toggle_step s = Some s'"
  shows "control_inv s'"
proof (cases "cs_pr s")
  case (P_Lock a)
  let ?n = "mc_new (cs_my s)"
  have c: "control (?n mod 16) (16 \<le> ?n) None (cs_wr s) (cs_wt s) (P_Lock a) (mc_toggle (cs_my s))" and o: "cs_owner s = None"
    using assms P_Lock by (auto simp: control_fields cthr_toggle_step_def split: if_splits)
  note f = control_provider_facts(1) [OF c]
  have "s' = (copy_do s (\<lambda>my. my\<lparr>mc_new := ?n + a\<rparr>))\<lparr>cs_owner := Some Provider, cs_pr := P_While a, cs_wr := alerted (cs_wr s)\<rparr>"
    using assms(2) P_Lock o by (auto simp: cthr_toggle_step_def signal_writer_def alerted_def copy_do_def)
  moreover have "(?n + a) mod 16 = Suc (?n mod 16)" "?n + a < 32" "16 \<le> ?n + a \<longleftrightarrow> a = 17"
    using full_inc [of ?n] f by auto
  ultimately show ?thesis using control_provider_steps(1) [OF c] by (simp add: control_fields)
next
  case (P_While a)
  have c: "mc_new (cs_my s) < 32"
    "control (mc_new (cs_my s) mod 16) (16 \<le> mc_new (cs_my s)) (cs_owner s) (cs_wr s) (cs_wt s) (P_While a) (mc_toggle (cs_my s))"
    using assms(1) P_While by (simp_all add: control_fields)
  have "mc_new (cs_my s) AND 2 \<noteq> 0 \<longleftrightarrow> mc_new (cs_my s) mod 16 = 2"
    by (rule and_2 [OF c(1) control_provider_facts(3) [OF c(2)]])
  then show ?thesis using assms(2) P_While c(1) control_provider_steps(2,3) [OF c(2)]
    by (auto simp: cthr_toggle_step_def control_fields split: if_splits)
next
  case (P_Relock a)
  then show ?thesis using assms control_provider_steps(4) by (auto simp: cthr_toggle_step_def control_fields split: if_splits)
next
  case (P_Unlocked a)
  have c: "mc_new (cs_my s) < 32"
    "control (mc_new (cs_my s) mod 16) (16 \<le> mc_new (cs_my s)) (cs_owner s) (cs_wr s) (cs_wt s) (P_Unlocked a) (mc_toggle (cs_my s))"
    using assms(1) P_Unlocked by (simp_all add: control_fields)
  have "odd a" using control_provider_facts(2) [OF c(2)] by auto
  then show ?thesis using assms(2) P_Unlocked c(1) control_provider_steps(5) [OF c(2)]
    by (auto simp: cthr_toggle_step_def control_fields Let_def)
next
  case P_Join
  then show ?thesis using assms control_provider_steps(6) by (auto simp: cthr_toggle_step_def control_fields split: if_splits)
qed (use assms in \<open>simp_all add: cthr_toggle_step_def\<close>)

theorem reach_control: "copy_reach h s \<Longrightarrow> control_inv s"
proof (induction rule: copy_reach.induct)
  case (fill h s my w)
  then show ?case by (simp add: control_fields provider_fills_def Let_def)
next
  case (call h s a)
  then show ?case using control_provider_steps(7) [of _ _ _ _ _ a] by (auto simp: control_fields)
next
  case (join h s)
  then show ?case using control_provider_steps(8) by (simp add: control_fields)
next
  case (outcomes h s w)
  then show ?case by (simp add: control_fields)
next
  case (writer_wakes h s)
  then show ?case using control_writer_steps(7) by (simp add: control_fields)
next
  case (provider_wakes h s a)
  then show ?case using control_provider_steps(9) by (simp add: control_fields)
qed (auto intro: control_start control_writer control_provider)

section \<open>Data\<close>

definition idle :: "writer_pc \<Rightarrow> bool" where
  "idle wp \<longleftrightarrow> (case wp of W_Write _ _ \<Rightarrow> False | _ \<Rightarrow> True)"

lemma idle_simps [simp]: "idle W_Start" "idle W_Lock" "idle W_While" "idle W_Sleep" "idle W_Unlock" "idle W_End" "\<not> idle (W_Write p k)"
  by (simp_all add: idle_def)

lemma left_idle: "idle wp \<Longrightarrow> left_to_write m my t wp n = do {
    xs \<leftarrow> (if n = 0 then Some [] else buffer m my t); ys \<leftarrow> (if n = 2 then buffer m my (\<not> t) else Some []); Some (xs @ ys) }"
  by (cases wp) (simp_all add: left_to_write_def)

lemma left_write: "left_to_write m my t (W_Write p k) n = do {
    bs \<leftarrow> load m p k; os \<leftarrow> tail_of m my t; ys \<leftarrow> (if n = 2 then buffer m my (\<not> t) else Some []); Some (bs @ os @ ys) }"
  by (simp add: left_to_write_def bind_assoc)

lemma idle_not_write: "idle wp \<Longrightarrow> wp \<noteq> W_Write p k"
  by auto

lemma data_idle: "data_inv h m my t wp n \<Longrightarrow> idle wp \<Longrightarrow> idle wp' \<Longrightarrow> data_inv h m my t wp' n"
  by (auto simp: data_inv_def left_idle)

lemma data_turn: "data_inv h m my t wp n \<Longrightarrow> idle wp \<Longrightarrow> n \<noteq> 0 \<Longrightarrow> data_inv h m my t (W_Write (mc_wbuf my t) (mc_wlen my t)) n"
  by (auto simp: data_inv_def left_idle left_write buffer_def bind_assoc intro: exI [of _ "0::nat"])

lemma load_advance: "load m p k = Some bs \<Longrightarrow> j \<le> k \<Longrightarrow> load m (padd p j) (k - j) = Some (drop j bs)"
  by (auto simp: load_def drop_take add.commute split: option.splits if_splits)

lemma load_length: "load m p k = Some bs \<Longrightarrow> length bs = k"
  by (auto simp: load_def split: option.splits if_splits)

lemma data_write:
  assumes "data_inv h m my t (W_Write p k) n" "load m p k = Some bs" "mc_error my = 0" "prefix xs bs"
  shows "data_inv h m (my\<lparr>mc_out := mc_out my @ xs\<rparr>) t (W_Write (padd p (length xs)) (k - length xs)) n"
proof -
  obtain zs where zs: "bs = xs @ zs" using assms(4) by (auto simp: prefix_def)
  have len: "length xs \<le> k" using load_length [OF assms(2)] zs by simp
  have l: "load m (padd p (length xs)) (k - length xs) = Some zs" using load_advance [OF assms(2) len] zs by simp
  obtain os ys where r: "tail_of m my t = Some os" "(if n = 2 then buffer m my (\<not> t) else Some []) = Some ys"
    "mc_out my @ bs @ os @ ys = h"
    using assms(1-3) by (auto simp: data_inv_def left_write bind_eq_Some_conv)
  have "tail_of m (my\<lparr>mc_out := mc_out my @ xs\<rparr>) t = tail_of m my t" "buffer m (my\<lparr>mc_out := mc_out my @ xs\<rparr>) (\<not> t) = buffer m my (\<not> t)"
    by (simp_all add: tail_of_def buffer_def)
  moreover have "\<exists>j. padd p (length xs) = padd (mc_wbuf my t) j \<or> padd p (length xs) = padd (mc_over my t) j"
    using assms(1) by (auto simp: data_inv_def intro: exI [of _ "_ + length xs"])
  ultimately show ?thesis using r l zs by (auto simp: data_inv_def left_write prefix_def)
qed

lemma data_error: "data_inv h m my t wp n \<Longrightarrow> e \<noteq> 0 \<Longrightarrow> data_inv h m (my\<lparr>mc_error := e\<rparr>) t wp n"
  by (cases wp) (auto simp: data_inv_def left_to_write_def tail_of_def buffer_def)

lemma load_0: "load m p k = Some bs \<Longrightarrow> load m p 0 = Some []"
  by (auto simp: load_def split: option.splits if_splits)

lemma buffer_cong:
  assumes "mc_wbuf my' i = mc_wbuf my i" "mc_wlen my' i = mc_wlen my i" "mc_over my' i = mc_over my i" "mc_olen my' i = mc_olen my i"
  shows "buffer m my' i = buffer m my i"
  using assms by (simp add: buffer_def tail_of_def)

lemma data_tail:
  assumes "data_inv h m my t (W_Write p k) n" "k = 0 \<or> mc_error my \<noteq> 0" "mc_olen my t \<noteq> 0"
  shows "data_inv h m (my\<lparr>mc_olen := (mc_olen my)(t := 0)\<rparr>) t (W_Write (mc_over my t) (olen my t)) n"
proof -
  let ?my = "my\<lparr>mc_olen := (mc_olen my)(t := 0)\<rparr>"
  have "buffer m ?my (\<not> t) = buffer m my (\<not> t)" by (rule buffer_cong) simp_all
  moreover have "tail_of m ?my t = Some []" "tail_of m my t = load m (mc_over my t) (olen my t)"
    using assms(3) by (simp_all add: tail_of_def)
  ultimately show ?thesis using assms(1,2)
    by (auto simp: data_inv_def left_write bind_eq_Some_conv intro: exI [of _ "0::nat"] dest: load_length)
qed

lemma data_turn_end:
  assumes "data_inv h m my t (W_Write p k) n" "k = 0 \<or> mc_error my \<noteq> 0" "mc_olen my t = 0" "n = 1 \<or> n = 2"
  shows "data_inv h m (my\<lparr>mc_wlen := (mc_wlen my)(t := 0), mc_new := nw\<rparr>) (\<not> t) W_While (n - 1)"
proof -
  let ?my = "my\<lparr>mc_wlen := (mc_wlen my)(t := 0), mc_new := nw\<rparr>"
  have "buffer m ?my (\<not> t) = buffer m my (\<not> t)" by (rule buffer_cong) simp_all
  moreover have "tail_of m my t = Some []" using assms(3) by (simp add: tail_of_def)
  ultimately show ?thesis using assms(1,2,4)
    by (auto simp: data_inv_def left_write left_idle bind_eq_Some_conv dest: load_length)
qed

lemma data_hand:
  assumes d: "data_inv h m my t wp n" and b: "buffer m my tog = Some bs" and n: "n \<le> 1" "tog \<noteq> t \<longleftrightarrow> n = 1"
    and wp: "n = 0 \<Longrightarrow> idle wp"
  shows "data_inv (h @ bs) m (my\<lparr>mc_new := nw\<rparr>) t (alerted wp) (Suc n)"
proof -
  have bf: "buffer m (my\<lparr>mc_new := nw\<rparr>) i = buffer m my i" "tail_of m (my\<lparr>mc_new := nw\<rparr>) i = tail_of m my i" for i
    by (simp_all add: buffer_def tail_of_def)
  obtain r where r: "left_to_write m my t wp n = Some r" "mc_error my = 0 \<longrightarrow> mc_out my @ r = h" "prefix (mc_out my) h"
    "\<forall>p k. wp = W_Write p k \<longrightarrow> (\<exists>j. p = padd (mc_wbuf my t) j \<or> p = padd (mc_over my t) j)"
    using d by (auto simp: data_inv_def)
  have wp': "alerted wp = wp \<or> idle wp \<and> idle (alerted wp)" by (auto simp: alerted_def)
  have "left_to_write m (my\<lparr>mc_new := nw\<rparr>) t (alerted wp) (Suc n) = Some (r @ bs)"
  proof (cases "idle wp")
    case True
    then have "idle (alerted wp)" by (auto simp: alerted_def)
    then show ?thesis using True r(1) b n by (cases "n = 0") (auto simp: left_idle bf)
  next
    case False
    then obtain p k where p: "wp = W_Write p k" by (cases wp) auto
    then have "n = 1" using wp n by auto
    moreover from this have "tog = (\<not> t)" using n(2) by auto
    ultimately show ?thesis using r(1) b p by (auto simp: left_write bf alerted_def bind_eq_Some_conv)
  qed
  moreover have "alerted wp = W_Write p k \<Longrightarrow> wp = W_Write p k" for p k by (auto simp: alerted_def split: if_splits)
  ultimately show ?thesis using r(2-4) prefix_order.trans [OF r(3)] by (auto simp: data_inv_def)
qed

lemma data_reset:
  assumes d: "data_inv h m my t wp n" and n: "n \<le> 1" "n = 1 \<Longrightarrow> tog \<noteq> t" and wp: "n = 0 \<Longrightarrow> idle wp"
  shows "data_inv h m (my\<lparr>mc_toggle := tog, mc_wlen := (mc_wlen my)(tog := 0)\<rparr>) t wp n"
proof -
  let ?my = "my\<lparr>mc_toggle := tog, mc_wlen := (mc_wlen my)(tog := 0)\<rparr>"
  have "left_to_write m ?my t wp n = left_to_write m my t wp n"
  proof (cases "n = 0")
    case True
    then show ?thesis using wp by (simp add: left_idle)
  next
    case False
    then have "buffer m ?my t = buffer m my t" "n \<noteq> 2" using n by (auto intro!: buffer_cong)
    moreover have "tail_of m ?my t = tail_of m my t" by (simp add: tail_of_def)
    ultimately show ?thesis by (cases wp) (simp_all add: left_idle left_write)
  qed
  then show ?thesis using d by (simp add: data_inv_def)
qed

lemma data_fill:
  assumes d: "data_inv h m my t wp n" and f: "provider_fills my m my' m'" and n: "n \<le> 1" "n = 1 \<Longrightarrow> mc_toggle my \<noteq> t"
    and wp: "n = 0 \<Longrightarrow> idle wp"
  shows "data_inv h m' my' t wp n"
proof (cases "n = 0")
  case True
  then show ?thesis using d f wp by (auto simp: data_inv_def left_idle provider_fills_def Let_def idle_not_write)
next
  case False
  then have t: "(\<not> mc_toggle my) = t" "n \<noteq> 2" using n by auto
  note F = f [unfolded provider_fills_def Let_def t(1)]
  have l: "load m' (mc_wbuf my t) k = load m (mc_wbuf my t) k" "load m' (mc_over my t) k = load m (mc_over my t) k" for k
    using F by (metis padd_simps(3))+
  have b: "tail_of m' my' t = tail_of m my t" "buffer m' my' t = buffer m my t" using F l by (simp_all add: tail_of_def buffer_def)
  have "left_to_write m' my' t wp n = left_to_write m my t wp n"
  proof (cases wp)
    case (W_Write p k)
    then obtain j where "p = padd (mc_wbuf my t) j \<or> p = padd (mc_over my t) j" using d by (auto simp: data_inv_def)
    then have "load m' p k = load m p k" using F by auto
    then show ?thesis using W_Write t(2) b by (simp add: left_write)
  qed (use t(2) b in \<open>simp_all add: left_idle\<close>)
  then show ?thesis using d F by (auto simp: data_inv_def)
qed

lemma data_write_over:
  assumes "control_inv s" "cs_wr s = W_Write p k" "data_of h s" "k = 0 \<or> mc_error (cs_my s) \<noteq> 0"
  shows "data_of h (write_over s)"
proof (cases "mc_olen (cs_my s) (cs_wt s) = 0")
  case True
  have n: "full s = 1 \<or> full s = 2" using assms(1,2) by (auto simp: control_inv_def control_def)
  then have "(mc_new (cs_my s) - 1) mod 16 = full s - 1" using full_dec(1) [of "mc_new (cs_my s)"] by (auto simp: full_def)
  then show ?thesis
    using data_turn_end [OF assms(3) [unfolded assms(2)] assms(4) True n, of "mc_new (cs_my s) - 1"] True
    by (simp add: write_over_def Let_def full_def)
next
  case False
  then show ?thesis using data_tail [OF assms(3) [unfolded assms(2)] assms(4) False]
    by (simp add: write_over_def Let_def full_def)
qed

lemma control_of_inv: "control_inv s \<Longrightarrow> control (full s) (16 \<le> mc_new (cs_my s)) (cs_owner s) (cs_wr s) (cs_wt s) (cs_pr s) (mc_toggle (cs_my s))"
  by (simp add: control_inv_def)

lemma data_copythr_write:
  assumes c: "control_inv s" and wp: "cs_wr s = W_Write p k" and d: "data_of h s" and run: "copythr_write s p k = Some s'"
  shows "data_of h s'"
  using run
proof (cases rule: copythr_writeE)
  case over
  then show ?thesis using data_write_over [OF c wp d] by simp
next
  case (wrote xs bs w)
  then show ?thesis using data_write [OF d [unfolded wp] wrote(1,5,2)] by (simp add: full_def)
next
  case (failed e w)
  let ?s = "copy_do (s\<lparr>cs_w := w\<rparr>) (\<lambda>my. my\<lparr>mc_error := e\<rparr>)"
  have "control_inv ?s" using c by (simp add: control_fields)
  moreover have "data_of h ?s" using data_error [OF d failed(1)] failed(2) by (simp add: full_def)
  ultimately show ?thesis using data_write_over [of ?s p k h] wp failed by simp
qed

lemma data_writer:
  assumes c: "control_inv s" and d: "data_of h s" and run: "mdb_env_copythr s = Some s'"
  shows "data_of h s'"
proof (cases "cs_wr s")
  case (W_Write p k)
  then show ?thesis using data_copythr_write [OF c W_Write d] run by (simp add: mdb_env_copythr_def Let_def)
next
  case W_While
  then show ?thesis
    using run data_idle [OF d] data_turn [OF d] mod16_0 [of "mc_new (cs_my s)"] c
    by (auto simp: mdb_env_copythr_def Let_def full_def control_inv_def split: if_splits)
next
  case W_Start
  then show ?thesis using run data_idle [OF d, of W_Lock] data_error [OF data_idle [OF d, of W_Lock]]
    by (auto simp: mdb_env_copythr_def syscall_def full_def Let_def split: if_splits)
next
  case W_Lock
  then show ?thesis using run data_idle [OF d, of W_While] by (auto simp: mdb_env_copythr_def full_def split: if_splits)
next
  case W_Unlock
  then show ?thesis using run data_idle [OF d, of W_End] by (auto simp: mdb_env_copythr_def full_def)
qed (use run in \<open>simp_all add: mdb_env_copythr_def\<close>)

lemma not_writing: "control n e ow wp wt pp tog \<Longrightarrow> n = 0 \<Longrightarrow> idle wp"
  by (cases wp) (auto simp: control_def)

lemma data_provider:
  assumes c: "control_inv s" and d: "data_of h s" and run: "cthr_toggle_step s = Some s'" and l: "\<And>a. cs_pr s \<noteq> P_Lock a"
  shows "data_of h s'"
proof (cases "cs_pr s")
  case (P_Unlocked a)
  note k = control_of_inv [OF c, unfolded P_Unlocked]
  have "full s \<le> 1" "full s = 1 \<Longrightarrow> (mc_toggle (cs_my s) \<noteq> odd a) \<noteq> cs_wt s"
    using k by (auto simp: control_def handing_def)
  from data_reset [OF d this not_writing [OF k]] show ?thesis
    using run P_Unlocked by (auto simp: cthr_toggle_step_def full_def Let_def)
qed (use d run l in \<open>auto simp: cthr_toggle_step_def full_def split: if_splits\<close>)

theorem reach_data: "copy_reach h s \<Longrightarrow> data_of h s"
proof (induction rule: copy_reach.induct)
  case (start s)
  then show ?case by (simp add: copy_start_def data_inv_def left_to_write_def full_def)
next
  case (writer h s s')
  then show ?case using data_writer reach_control by blast
next
  case (provider h s s')
  then show ?case using data_provider reach_control by blast
next
  case (hand h s a bs s')
  note k = control_of_inv [OF reach_control [OF hand.hyps(1)], unfolded hand.hyps(2)]
  have o: "cs_owner s = None" using hand.hyps by (auto simp: cthr_toggle_step_def split: if_splits)
  have s': "s' = (copy_do s (\<lambda>my. my\<lparr>mc_new := mc_new my + a\<rparr>))\<lparr>cs_owner := Some Provider, cs_pr := P_While a, cs_wr := alerted (cs_wr s)\<rparr>"
    using hand.hyps o by (auto simp: cthr_toggle_step_def signal_writer_def alerted_def copy_do_def)
  have "full s \<le> 1" "mc_toggle (cs_my s) \<noteq> cs_wt s \<longleftrightarrow> full s = 1" "a = 1 \<or> a = 17"
    using k by (auto simp: control_def handing_def)
  then show ?case
    using data_hand [OF hand.IH hand.hyps(3) _ _ not_writing [OF k], of "mc_new (cs_my s) + a"] full_inc [of "mc_new (cs_my s)"]
    by (auto simp: s' full_def)
next
  case (fill h s my w)
  note k = control_of_inv [OF reach_control [OF fill.hyps(1)], unfolded fill.hyps(2)]
  have "full s \<le> 1" "full s = 1 \<Longrightarrow> mc_toggle (cs_my s) \<noteq> cs_wt s" using k by (auto simp: control_def handing_def)
  from data_fill [OF fill.IH fill.hyps(3) this not_writing [OF k]] show ?case
    using fill.hyps(3) by (simp add: full_def provider_fills_def Let_def)
next
  case (writer_wakes h s)
  then show ?case using data_idle [of _ _ _ _ W_Sleep _ W_Lock] by (simp add: full_def)
qed (simp_all add: full_def)

text \<open>The file is always a beginning of what was handed over, and all of it when the writer ends without an error.\<close>

lemma copied_prefix: "copy_reach h s \<Longrightarrow> prefix (mc_out (cs_my s)) h"
  using reach_data by (simp add: data_inv_def)

lemma copied_all:
  assumes "copy_reach h s" "cs_wr s = W_End" "mc_error (cs_my s) = 0"
  shows "mc_out (cs_my s) = h"
proof -
  have "full s = 0" using control_of_inv [OF reach_control [OF assms(1)]] assms(2) by (simp add: control_def)
  then show ?thesis using reach_data [OF assms(1)] assms(2,3) by (auto simp: data_inv_def left_to_write_def)
qed

section \<open>Every call returns\<close>

definition to_hand :: "copy_sys \<Rightarrow> u8 list option" where
  "to_hand s = (case cs_pr s of P_Lock a \<Rightarrow> buffer (w_mem (cs_w s)) (cs_my s) (mc_toggle (cs_my s)) | _ \<Rightarrow> Some [])"

definition turn_work :: "mdb_copy \<Rightarrow> bool \<Rightarrow> writer_pc \<Rightarrow> nat" where
  "turn_work my t wp = (case wp of W_Write p k \<Rightarrow> k | _ \<Rightarrow> mc_wlen my t) + (if mc_olen my t = 0 then 0 else olen my t + 1)"

definition writer_rank :: "writer_pc \<Rightarrow> nat" where
  "writer_rank wp = (case wp of W_Start \<Rightarrow> 5 | W_Lock \<Rightarrow> 4 | W_While \<Rightarrow> 3 | W_Sleep \<Rightarrow> 1 | W_Write _ _ \<Rightarrow> 2 | W_Unlock \<Rightarrow> 1 | W_End \<Rightarrow> 0)"

definition provider_rank :: "provider_pc \<Rightarrow> nat" where
  "provider_rank pp = (case pp of P_Out \<Rightarrow> 0 | P_Lock _ \<Rightarrow> 10 | P_While _ \<Rightarrow> 4 | P_Sleep _ \<Rightarrow> 2 | P_Relock _ \<Rightarrow> 5
     | P_Unlocked _ \<Rightarrow> 1 | P_Join \<Rightarrow> 1 | P_Done \<Rightarrow> 0)"

definition to_do :: "copy_sys \<Rightarrow> nat" where
  "to_do s = full s + (case cs_pr s of P_Lock _ \<Rightarrow> 1 | _ \<Rightarrow> 0)"

definition rank :: "copy_sys \<Rightarrow> nat" where
  "rank s = writer_rank (cs_wr s) + provider_rank (cs_pr s)"

definition progress :: "(copy_sys \<times> copy_sys) set" where
  "progress = measures [to_do, \<lambda>s. turn_work (cs_my s) (cs_wt s) (cs_wr s), rank]"

lemma wf_progress: "wf progress"
  by (simp add: progress_def)

lemma copythr_write_returns:
  assumes "data_of h s" "cs_wr s = W_Write p k"
  shows "copythr_write s p k \<noteq> None"
proof -
  have "load (w_mem (cs_w s)) p k \<noteq> None" using assms by (auto simp: data_inv_def left_write bind_eq_Some_conv)
  then show ?thesis by (auto simp: copythr_write_def do_write_def syscall_def Let_def)
qed

lemma controlD:
  assumes "control n e ow wp wt pp tog"
  shows "ow = Some Writer \<longleftrightarrow> writing wp" "ow = Some Provider \<Longrightarrow> \<exists>a. pp = P_While a" "wp = W_Sleep \<Longrightarrow> n = 0 \<and> \<not> e"
    "wp = W_End \<Longrightarrow> n = 0 \<and> e" "pp = P_Sleep a \<Longrightarrow> n = 2" "pp = P_Join \<Longrightarrow> e"
  using assms by (auto simp: control_def)

lemma copythr_returns:
  assumes "data_of h s" "cs_wr s \<noteq> W_Sleep" "cs_wr s \<noteq> W_End" "cs_wr s = W_Lock \<longrightarrow> cs_owner s = None"
  shows "mdb_env_copythr s \<noteq> None"
proof (cases "cs_wr s")
  case (W_Write p k)
  then show ?thesis using copythr_write_returns [OF assms(1)] by (simp add: mdb_env_copythr_def Let_def)
qed (use assms(2-4) in \<open>simp_all add: mdb_env_copythr_def syscall_def Let_def\<close>)

text \<open>No deadlock: while the provider is in a call, one of the threads can go on.\<close>

lemma no_deadlock:
  assumes r: "copy_reach h s" and p: "cs_pr s \<noteq> P_Out" "cs_pr s \<noteq> P_Done" and b: "cthr_toggle_step s = None"
  shows "mdb_env_copythr s \<noteq> None"
proof -
  note D = controlD [OF control_of_inv [OF reach_control [OF r]]]
  have b': "cs_pr s = P_Join \<and> cs_wr s \<noteq> W_End \<or> (\<exists>a. cs_pr s = P_Sleep a) \<or> (\<exists>a. cs_pr s = P_Lock a \<or> cs_pr s = P_Relock a) \<and> cs_owner s \<noteq> None"
    using b p by (cases "cs_pr s") (simp_all add: cthr_toggle_step_def Let_def split: if_splits)
  have o: "cs_owner s \<noteq> Some Provider" using D(2) b' by auto
  have o': "cs_owner s = None \<or> writing (cs_wr s)"
  proof (cases "cs_owner s")
    case (Some th)
    then show ?thesis using o D(1) by (cases th) simp_all
  qed simp
  have nw: "\<not> writing W_Sleep" "\<not> writing W_End" "\<not> writing W_Lock" by (simp_all add: writing_def)
  show ?thesis
  proof (rule copythr_returns [OF reach_data [OF r]])
    show "cs_wr s = W_Lock \<longrightarrow> cs_owner s = None" using o' nw by auto
    show "cs_wr s \<noteq> W_Sleep" using b' o' nw D(3,5,6) by (elim disjE conjE exE) auto
    show "cs_wr s \<noteq> W_End" using b' o' nw D(4,5) by (elim disjE conjE exE) auto
  qed
qed

lemma progressI:
  "to_do s' < to_do s \<Longrightarrow> (s', s) \<in> progress"
  "to_do s' = to_do s \<Longrightarrow> turn_work (cs_my s') (cs_wt s') (cs_wr s') < turn_work (cs_my s) (cs_wt s) (cs_wr s) \<Longrightarrow> (s', s) \<in> progress"
  "to_do s' = to_do s \<Longrightarrow> turn_work (cs_my s') (cs_wt s') (cs_wr s') \<le> turn_work (cs_my s) (cs_wt s) (cs_wr s) \<Longrightarrow>
    rank s' < rank s \<Longrightarrow> (s', s) \<in> progress"
  by (auto simp: progress_def)

lemma woken_lock [simp]: "woken pp = P_Lock a \<longleftrightarrow> pp = P_Lock a"
  by (auto simp: woken_def split: provider_pc.splits)

lemma case_woken [simp]: "(case woken pp of P_Lock a \<Rightarrow> f a | _ \<Rightarrow> c) = (case pp of P_Lock a \<Rightarrow> f a | _ \<Rightarrow> c)"
  by (cases pp) (simp_all add: woken_def)

lemma write_over_decreases:
  assumes "control_inv s" "cs_wr s = W_Write p k"
  shows "(write_over s, s) \<in> progress"
proof (cases "mc_olen (cs_my s) (cs_wt s) = 0")
  case True
  have n: "full s = 1 \<or> full s = 2" using assms by (auto simp: control_inv_def control_def)
  then have "(mc_new (cs_my s) - 1) mod 16 < full s" using full_dec(1) [of "mc_new (cs_my s)"] by (auto simp: full_def)
  then have "to_do (write_over s) < to_do s" using True by (simp add: write_over_def Let_def to_do_def full_def)
  then show ?thesis by (rule progressI(1))
next
  case False
  then show ?thesis by (intro progressI(2)) (simp_all add: assms(2) write_over_def Let_def to_do_def full_def turn_work_def)
qed

lemma progress_eq: "to_do x = to_do s \<Longrightarrow> turn_work (cs_my x) (cs_wt x) (cs_wr x) = turn_work (cs_my s) (cs_wt s) (cs_wr s) \<Longrightarrow>
    rank x = rank s \<Longrightarrow> (s', x) \<in> progress \<Longrightarrow> (s', s) \<in> progress"
  by (simp add: progress_def)

lemma write_decreases:
  assumes c: "control_inv s" and wp: "cs_wr s = W_Write p k" and run: "copythr_write s p k = Some s'"
  shows "(s', s) \<in> progress"
  using run
proof (cases rule: copythr_writeE)
  case over
  then show ?thesis using write_over_decreases [OF c wp] by simp
next
  case (wrote xs bs w)
  then show ?thesis using wp by (intro progressI(2)) (auto simp: to_do_def full_def turn_work_def)
next
  case (failed e w)
  let ?s = "copy_do (s\<lparr>cs_w := w\<rparr>) (\<lambda>my. my\<lparr>mc_error := e\<rparr>)"
  have s: "control_inv ?s" "cs_wr ?s = W_Write p k" using c wp by (simp_all add: control_fields)
  have "to_do ?s = to_do s" "turn_work (cs_my ?s) (cs_wt ?s) (cs_wr ?s) = turn_work (cs_my s) (cs_wt s) (cs_wr s)" "rank ?s = rank s"
    using wp by (simp_all add: to_do_def full_def turn_work_def rank_def)
  then show ?thesis using progress_eq [OF _ _ _ write_over_decreases [OF s]] failed(3) by simp
qed

lemma writer_decreases:
  assumes c: "control_inv s" and run: "mdb_env_copythr s = Some s'"
  shows "(s', s) \<in> progress"
proof (cases "cs_wr s")
  case (W_Write p k)
  then show ?thesis using write_decreases [OF c W_Write] run by (simp add: mdb_env_copythr_def Let_def)
qed (use run in \<open>auto simp: mdb_env_copythr_def syscall_def Let_def to_do_def full_def turn_work_def rank_def writer_rank_def
  intro!: progressI(3) split: if_splits\<close>)

lemma provider_decreases:
  assumes c: "control_inv s" and run: "cthr_toggle_step s = Some s'"
  shows "(s', s) \<in> progress"
proof (cases "cs_pr s")
  case (P_Lock a)
  note k = control_of_inv [OF c, unfolded P_Lock]
  have s': "s' = (copy_do s (\<lambda>my. my\<lparr>mc_new := mc_new my + a\<rparr>))\<lparr>cs_owner := Some Provider, cs_pr := P_While a, cs_wr := alerted (cs_wr s)\<rparr>"
    using run P_Lock by (auto simp: cthr_toggle_step_def signal_writer_def alerted_def copy_do_def split: if_splits)
  have "full s \<le> 1" "a = 1 \<or> a = 17" using k by (auto simp: control_def)
  then have "(mc_new (cs_my s) + a) mod 16 = Suc (full s)" using full_inc [of "mc_new (cs_my s)"] by (auto simp: full_def)
  then show ?thesis using P_Lock
    by (intro progressI(3)) (auto simp: s' to_do_def full_def turn_work_def rank_def provider_rank_def writer_rank_def alerted_def split: writer_pc.splits)
next
  case (P_Unlocked a)
  then show ?thesis using run
    by (intro progressI(3)) (auto simp: cthr_toggle_step_def to_do_def full_def turn_work_def rank_def provider_rank_def Let_def split: writer_pc.splits)
qed (use run in \<open>auto simp: cthr_toggle_step_def to_do_def full_def turn_work_def rank_def provider_rank_def intro!: progressI(3) split: if_splits\<close>)

text \<open>What the provider is about to hand over stays what it is while the writer goes on.\<close>

lemma write_over_to_hand:
  assumes "control_inv s" "cs_wr s = W_Write p k"
  shows "to_hand (write_over s) = to_hand s"
proof (cases "cs_pr s")
  case (P_Lock a)
  have "full s \<noteq> 0" "full s \<le> 1" "mc_toggle (cs_my s) \<noteq> cs_wt s \<longleftrightarrow> full s = 1"
    using control_of_inv [OF assms(1)] assms(2) P_Lock by (auto simp: control_def handing_def)
  then have t: "mc_toggle (cs_my s) \<noteq> cs_wt s" by auto
  then show ?thesis using P_Lock
    by (auto simp: to_hand_def write_over_def Let_def woken_def intro!: buffer_cong)
qed (auto simp: to_hand_def write_over_def Let_def woken_def)

lemma to_hand_cong:
  assumes "cs_pr x = cs_pr s" "w_mem (cs_w x) = w_mem (cs_w s)" "cs_my x = (cs_my s)\<lparr>mc_out := ou, mc_error := e\<rparr>"
  shows "to_hand x = to_hand s"
  using assms by (cases "cs_pr s") (simp_all add: to_hand_def buffer_def tail_of_def)

lemma write_to_hand:
  assumes c: "control_inv s" and wp: "cs_wr s = W_Write p k" and run: "copythr_write s p k = Some s'"
  shows "to_hand s' = to_hand s"
  using run
proof (cases rule: copythr_writeE)
  case over
  then show ?thesis using write_over_to_hand [OF c wp] by simp
next
  case (wrote xs bs w)
  then show ?thesis by (intro to_hand_cong [where ou = "mc_out (cs_my s) @ xs" and e = "mc_error (cs_my s)"]) simp_all
next
  case (failed e w)
  let ?s = "copy_do (s\<lparr>cs_w := w\<rparr>) (\<lambda>my. my\<lparr>mc_error := e\<rparr>)"
  have "control_inv ?s" using c by (simp add: control_fields)
  moreover have "to_hand ?s = to_hand s"
    using failed(2) by (intro to_hand_cong [where ou = "mc_out (cs_my s)" and e = e]) simp_all
  ultimately show ?thesis using write_over_to_hand [of ?s p k] wp failed(3) by simp
qed

definition joining :: "copy_sys \<Rightarrow> bool" where
  "joining s \<longleftrightarrow> cs_pr s = P_Join \<or> cs_pr s = P_Done"

lemma write_joining:
  assumes "copythr_write s p k = Some s'"
  shows "joining s' = joining s"
  using assms
  by (cases rule: copythr_writeE) (auto simp: joining_def write_over_def woken_def Let_def split: provider_pc.splits)

lemma writer_to_hand:
  assumes "control_inv s" "mdb_env_copythr s = Some s'"
  shows "to_hand s' = to_hand s \<and> joining s' = joining s"
proof (cases "cs_wr s")
  case (W_Write p k)
  then show ?thesis using write_to_hand [OF assms(1) W_Write] write_joining assms(2) by (simp add: mdb_env_copythr_def Let_def)
next
  case W_Start
  define e where "e = (if w_io (cs_w s) (w_ios (cs_w s)) = 0 then mc_error (cs_my s) else w_io (cs_w s) (w_ios (cs_w s)))"
  define w where "w = (cs_w s)\<lparr>w_ios := w_ios (cs_w s) + 1\<rparr>"
  have "s' = (copy_do s (\<lambda>my. my\<lparr>mc_error := e\<rparr>))\<lparr>cs_w := w, cs_wr := W_Lock\<rparr>" "w_mem w = w_mem (cs_w s)"
    using W_Start assms(2) by (auto simp: mdb_env_copythr_def syscall_def Let_def copy_do_def e_def w_def)
  then show ?thesis
    by (auto simp: joining_def intro!: to_hand_cong [where ou = "mc_out (cs_my s)" and e = e])
qed (use assms(2) in \<open>auto simp: mdb_env_copythr_def Let_def to_hand_def joining_def split: if_splits provider_pc.splits\<close>)

lemma provider_to_hand:
  assumes "cthr_toggle_step s = Some s'"
  shows "to_hand s' = Some []" "joining s' = joining s"
  using assms
  by (cases "cs_pr s"; auto simp: cthr_toggle_step_def to_hand_def joining_def signal_writer_def copy_do_def Let_def split: if_splits)+

text \<open>The end is announced.\<close>

definition ending :: "copy_sys \<Rightarrow> bool" where
  "ending s \<longleftrightarrow> MDB_EOF \<le> mc_new (cs_my s) \<or> cs_pr s = P_Lock (1 OR MDB_EOF)"

lemma write_over_ending:
  assumes "control_inv s" "cs_wr s = W_Write p k"
  shows "ending (write_over s) = ending s"
proof -
  have "full s \<noteq> 0" using control_of_inv [OF assms(1)] assms(2) by (auto simp: control_def)
  then show ?thesis using full_dec(2) [of "mc_new (cs_my s)"] by (auto simp: ending_def write_over_def Let_def full_def)
qed

lemma writer_ending:
  assumes c: "control_inv s" and run: "mdb_env_copythr s = Some s'"
  shows "ending s' = ending s"
proof (cases "cs_wr s")
  case (W_Write p k)
  then have "copythr_write s p k = Some s'" using run by (simp add: mdb_env_copythr_def Let_def)
  then show ?thesis
  proof (cases rule: copythr_writeE)
    case over
    then show ?thesis using write_over_ending [OF c W_Write] by simp
  next
    case (wrote xs bs w)
    then show ?thesis by (simp add: ending_def)
  next
    case (failed e w)
    let ?s = "copy_do (s\<lparr>cs_w := w\<rparr>) (\<lambda>my. my\<lparr>mc_error := e\<rparr>)"
    have "control_inv ?s" "cs_wr ?s = W_Write p k" "ending ?s = ending s" using c W_Write by (simp_all add: control_fields ending_def)
    then show ?thesis using write_over_ending failed(3) by simp
  qed
qed (use run in \<open>auto simp: mdb_env_copythr_def syscall_def Let_def ending_def split: if_splits\<close>)

lemma provider_ending:
  assumes c: "control_inv s" and run: "cthr_toggle_step s = Some s'"
  shows "ending s' = ending s"
proof (cases "cs_pr s")
  case (P_Lock a)
  then have "mc_new (cs_my s) \<le> 1" "a = 1 \<or> a = 17" using c by (auto simp: control_inv_def control_def full_def)
  then show ?thesis using run P_Lock
    by (auto simp: cthr_toggle_step_def ending_def signal_writer_def copy_do_def split: if_splits)
qed (use run in \<open>auto simp: cthr_toggle_step_def ending_def Let_def split: if_splits\<close>)

text \<open>A call of the provider returns, whatever the scheduler and the calls of the system do.\<close>

lemma cthr_run_returns:
  assumes "copy_reach h s" "to_hand s = Some bs"
  shows "\<exists>s'. cthr_run s = Some s' \<and> copy_reach (h @ bs) s' \<and> cs_pr s' = (if joining s then P_Done else P_Out) \<and> ending s' = ending s"
  using assms
proof (induction s arbitrary: h bs rule: wf_induct_rule [OF wf_progress])
  case (1 s)
  note c = reach_control [OF 1(2)]
  show ?case
  proof (cases "cs_pr s = P_Out \<or> cs_pr s = P_Done")
    case True
    then have "bs = []" using 1(3) by (auto simp: to_hand_def)
    then show ?thesis using True 1(2) by (auto simp: cthr_run.simps joining_def)
  next
    case False
    obtain pick w where pw: "syscall (cs_w s) = (pick, w)" "w_mem w = w_mem (cs_w s)" by (simp add: syscall_def)
    let ?s = "s\<lparr>cs_w := w\<rparr>"
    have r: "copy_reach h ?s" by (rule copy_reach.outcomes [OF 1(2) pw(2)])
    have e: "to_hand ?s = Some bs" "joining ?s = joining s" "ending ?s = ending s"
      using 1(3) pw(2) by (auto simp: to_hand_def joining_def ending_def split: provider_pc.splits)
    have p: "(x, s) \<in> progress" if "(x, ?s) \<in> progress" for x
      using that by (auto simp: progress_def to_do_def full_def rank_def)
    have W: "\<exists>s'. cthr_run x = Some s' \<and> copy_reach (h @ bs) s' \<and> cs_pr s' = (if joining s then P_Done else P_Out) \<and> ending s' = ending s"
      if x: "mdb_env_copythr ?s = Some x" for x
      using "1.IH" [OF p [OF writer_decreases [OF reach_control [OF r] x]] copy_reach.writer [OF r x]]
        writer_to_hand [OF reach_control [OF r] x] writer_ending [OF reach_control [OF r] x] e by simp
    have P: "\<exists>s'. cthr_run x = Some s' \<and> copy_reach (h @ bs) s' \<and> cs_pr s' = (if joining s then P_Done else P_Out) \<and> ending s' = ending s"
      if x: "cthr_toggle_step ?s = Some x" for x
    proof -
      have "copy_reach (h @ bs) x"
      proof (cases "\<exists>a. cs_pr s = P_Lock a")
        case True
        then show ?thesis using copy_reach.hand [OF r _ _ x] e(1) by (auto simp: to_hand_def)
      next
        case False
        then have "bs = []" using 1(3) by (auto simp: to_hand_def split: provider_pc.splits)
        then show ?thesis using copy_reach.provider [OF r _ x] False by simp
      qed
      then show ?thesis using "1.IH" [OF p [OF provider_decreases [OF reach_control [OF r] x]]] provider_to_hand [OF x] provider_ending [OF reach_control [OF r] x] e(2,3) by auto
    qed
    obtain x where x: "(if pick = 0 then (case mdb_env_copythr ?s of Some s \<Rightarrow> Some s | None \<Rightarrow> cthr_toggle_step ?s)
          else (case cthr_toggle_step ?s of Some s \<Rightarrow> Some s | None \<Rightarrow> mdb_env_copythr ?s)) = Some x"
      and which: "mdb_env_copythr ?s = Some x \<or> cthr_toggle_step ?s = Some x"
      using no_deadlock [OF r] False by (cases "mdb_env_copythr ?s"; cases "cthr_toggle_step ?s"; cases "pick = 0") auto
    have "cthr_run s = cthr_run x" using False x pw(1) by (subst cthr_run.simps) simp
    then show ?thesis using W P which by auto
  qed
qed

lemma cthr_toggle_returns:
  assumes r: "copy_reach h s" and s: "cs_pr s = P_Out" "mc_new (cs_my s) < MDB_EOF" "a \<in> {1, 1 OR MDB_EOF}"
    and b: "buffer (w_mem (cs_w s)) (cs_my s) (mc_toggle (cs_my s)) = Some bs"
  shows "\<exists>rc s'. mdb_env_cthr_toggle s a = Some (rc, s') \<and> copy_reach (h @ bs) s' \<and> cs_pr s' = P_Out \<and>
    (MDB_EOF \<le> mc_new (cs_my s') \<longleftrightarrow> a = 1 OR MDB_EOF)"
proof -
  let ?s = "s\<lparr>cs_pr := P_Lock a\<rparr>"
  have "to_hand ?s = Some bs" "\<not> joining ?s" "ending ?s \<longleftrightarrow> a = 17" using b s by (auto simp: to_hand_def joining_def ending_def)
  from cthr_run_returns [OF copy_reach.call [OF r s] this(1)] this(2,3) show ?thesis
    by (auto simp: mdb_env_cthr_toggle_def ending_def)
qed

lemma cthr_finish_returns:
  assumes r: "copy_reach h s" and s: "cs_pr s = P_Out" "MDB_EOF \<le> mc_new (cs_my s)"
  shows "\<exists>s'. cthr_finish s = Some s' \<and> copy_reach h s' \<and> cs_wr s' = W_End"
proof -
  let ?s = "s\<lparr>cs_pr := P_Join\<rparr>"
  have "to_hand ?s = Some []" "joining ?s" by (auto simp: to_hand_def joining_def)
  then obtain s' where s': "cthr_finish s = Some s'" "copy_reach h s'" "cs_pr s' = P_Done"
    using cthr_run_returns [OF copy_reach.join [OF r s]] by (auto simp: cthr_finish_def)
  have "cs_wr s' = W_End" using control_of_inv [OF reach_control [OF s'(2)]] s'(3) by (simp add: control_def)
  then show ?thesis using s' by blast
qed

section \<open>The length of the tail as an \<^verbatim>\<open>int\<close>\<close>

lemma sint_large:
  assumes "2 ^ 31 \<le> n" "n < (2 ^ 32 :: nat)"
  shows "sint (of_nat n :: u32) = int n - 2 ^ 32"
proof -
  have "(int n + 2 ^ 31) mod 2 ^ 32 = (int n - 2 ^ 31) mod 2 ^ 32" by (simp add: mod_eq_dvd_iff)
  also have "\<dots> = int n - 2 ^ 31" using assms by (intro mod_pos_pos_trivial) auto
  finally have "(int n + 2 ^ 31) mod 2 ^ 32 = int n - 2 ^ 31" .
  then show ?thesis by (simp add: signed_of_nat signed_take_bit_eq_take_bit_shift take_bit_eq_mod)
qed

end
