(* ===== verification/Env_Open.thy ===== *)
theory Env_Open
  imports Dbi
begin

text \<open>
  Creating, sizing, opening and closing an environment (\<^verbatim>\<open>mdb_env_create\<close> to \<^verbatim>\<open>mdb_env_close\<close>,
  \<^verbatim>\<open>lmdb/mdb.c\<close>), in the build with POSIX robust mutexes. The record \<open>env_io\<close> holds the fields of
  \<^verbatim>\<open>MDB_env\<close> that only these functions use and the part of the system they change: open descriptors
  with their file names, mapped regions, thread keys, \<^verbatim>\<open>errno\<close> and the lock file. Outcomes of system
  calls come from \<open>w_io\<close>; a call repeated on \<^verbatim>\<open>EINTR\<close> has its final outcome. What \<^verbatim>\<open>free\<close> releases
  is blank afterwards.
\<close>

abbreviation (input) MDB_ENV_ACTIVE :: u32 where "MDB_ENV_ACTIVE \<equiv> 0x20000000"
abbreviation (input) MDB_ENV_TXKEY :: u32 where "MDB_ENV_TXKEY \<equiv> 0x10000000"
abbreviation (input) MDB_FSYNCONLY :: u32 where "MDB_FSYNCONLY \<equiv> 0x08000000"
abbreviation (input) DEFAULT_READERS :: nat where "DEFAULT_READERS \<equiv> 126"
abbreviation (input) DEFAULT_MAPSIZE :: nat where "DEFAULT_MAPSIZE \<equiv> 1048576"
abbreviation (input) MAX_PAGESIZE :: nat where "MAX_PAGESIZE \<equiv> 0x8000"
abbreviation (input) MDB_MINKEYS :: nat where "MDB_MINKEYS \<equiv> 2"
abbreviation (input) CACHELINE :: nat where "CACHELINE \<equiv> 64"
abbreviation (input) EBUSY :: int where "EBUSY \<equiv> 16"
abbreviation (input) EAGAIN :: int where "EAGAIN \<equiv> 11"
abbreviation (input) EROFS :: int where "EROFS \<equiv> 30"

section \<open>The format of the lock file\<close>

definition LOG2_MOD :: "nat \<Rightarrow> nat \<Rightarrow> nat" where
  "LOG2_MOD p2 n = 7 - 86 div (p2 mod (2 ^ n - 1) + 11)"

text \<open>Sizes of the build: pid 4 bytes, \<^verbatim>\<open>pthread_t\<close> 8, \<^verbatim>\<open>pthread_mutex_t\<close> 40 aligned to 8.\<close>

definition MDB_LOCK_TYPE :: nat where
  "MDB_LOCK_TYPE = 10 + LOG2_MOD 8 5 + 40 div 4 mod 22 * 5"

definition MDB_lock_desc :: nat where
  "MDB_lock_desc = (if CACHELINE = 64 then 0 else 1 + LOG2_MOD (CACHELINE div (if CACHELINE > 64 then 2 else 1)) 5) +
     6 * (4 div 4 mod 3) + 18 * (8 div 4 mod 5) + 90 * (64 div CACHELINE mod 3) + 270 * (MDB_LOCK_TYPE mod 120) +
     2 ^ 15 + (if CACHELINE < 64 then 2 ^ 16 else 0) + 2 ^ 17"

definition MDB_LOCK_FORMAT :: u32 where
  "MDB_LOCK_FORMAT = of_nat (2 mod 2 ^ 12 + MDB_lock_desc * 2 ^ 12)"

abbreviation (input) SIZEOF_READER :: nat where "SIZEOF_READER \<equiv> 64"
abbreviation (input) SIZEOF_TXNINFO :: nat where "SIZEOF_TXNINFO \<equiv> 192"

section \<open>State\<close>

record env_io =
  me_fd :: "nat option"
  me_lfd :: "nat option"
  me_mfd :: "nat option"
  me_map :: "u64 option"
  me_path :: "string option"
  me_os_psize :: nat
  os_open :: "(nat \<times> string) list"
  os_next :: nat
  os_maps :: nat
  os_keys :: nat
  os_errno :: int
  lf_size :: nat
  lf_magic :: u32
  lf_format :: u32
  lf_info :: MDB_txninfo

type_synonym io_result = "int \<times> env_io \<times> world"

text \<open>A system call that sets \<^verbatim>\<open>errno\<close> when it fails; a negative outcome counts as success.\<close>

definition os_call :: "env_io \<Rightarrow> world \<Rightarrow> io_result" where
  "os_call io w = (let (r, w) = syscall w in if r > 0 then (r, io\<lparr>os_errno := r\<rparr>, w) else (0, io, w))"

definition os_close :: "nat option \<Rightarrow> env_io \<Rightarrow> env_io" where
  "os_close fd io = (case fd of None \<Rightarrow> io | Some k \<Rightarrow> io\<lparr>os_open := filter (\<lambda>(n, _). n \<noteq> k) (os_open io)\<rparr>)"

definition zero_env :: MDB_env where
  "zero_env = \<lparr>me_flags = 0, me_psize = 0, me_maxreaders = 0, me_numdbs = 0, me_maxdbs = 0, me_pid = 0, me_txns = None,
     me_txn = None, me_maxpg = 0, me_mapsize = 0, me_dbxs = [], me_dbflags = [], me_dbiseqs = [], me_pgoldest = 0,
     me_pghead = None, me_pglast = 0, me_dpages = [], me_pbuf = NULL, me_maxfree_1pg = 0, me_nodemax = 0, me_txn0 = None,
     me_free_pgs = \<lparr>idl_alloc = 0, idl_words = []\<rparr>, me_dirty_list = [], me_live_reader = False, me_close_readers = 0, me_txkey = None\<rparr>"

text \<open>The process and the page size of the system are arguments.\<close>

definition mdb_env_create :: "nat \<Rightarrow> nat \<Rightarrow> env_io \<Rightarrow> world \<Rightarrow> io_result" where
  "mdb_env_create pid os_psize io w = (
     let ok = (w_malloc w (w_calls w) \<noteq> None); w = tick w in
     if \<not> ok then (ENOMEM, io, w)
     else (MDB_SUCCESS,
       io\<lparr>me_fd := None, me_lfd := None, me_mfd := None, me_map := None, me_path := None, me_os_psize := os_psize\<rparr>,
       w\<lparr>w_env := zero_env\<lparr>me_maxreaders := DEFAULT_READERS, me_maxdbs := CORE_DBS, me_numdbs := CORE_DBS, me_pid := pid\<rparr>\<rparr>))"

section \<open>The map and the sizes\<close>

text \<open>\<^verbatim>\<open>ftruncate\<close> of the data file\<close>

definition file_resize :: "mem \<Rightarrow> nat \<Rightarrow> mem" where
  "file_resize m n = (let bs = (case m Map of None \<Rightarrow> [] | Some bs \<Rightarrow> bs) in
     m(Map \<mapsto> take n (bs @ replicate (n - length bs) 0)))"

text \<open>
  A positive outcome of \<^verbatim>\<open>mmap\<close> is an error, 0 the address asked for (or any), another one that
  address. \<^verbatim>\<open>madvise\<close> changes nothing.
\<close>

definition mdb_env_map :: "env_io \<Rightarrow> world \<Rightarrow> u64 option \<Rightarrow> io_result" where
  "mdb_env_map io w addr = (
     let flags = me_flags (w_env w);
         (rc, io, w) = (if any_set flags MDB_WRITEMAP then
             (let (rc, io, w) = os_call io w in
              if rc \<noteq> 0 then (rc, io, w) else (0, io, w\<lparr>w_mem := file_resize (w_mem w) (me_mapsize (w_env w))\<rparr>))
           else (0, io, w))
     in if rc \<noteq> 0 then (rc, io, w)
        else (let (r, w) = syscall w in
          if r > 0 then (r, io\<lparr>me_map := None, os_errno := r\<rparr>, w)
          else (let a = (if r = 0 then (case addr of Some a \<Rightarrow> a | None \<Rightarrow> 4096) else of_int (- r));
                    io = io\<lparr>me_map := Some a, os_maps := os_maps io + 1\<rparr>
                in if addr \<noteq> None \<and> addr \<noteq> Some a then (EBUSY, io, w) else (MDB_SUCCESS, io, w))))"

definition mdb_env_set_mapsize :: "env_io \<Rightarrow> world \<Rightarrow> nat \<Rightarrow> io_result option" where
  "mdb_env_set_mapsize io w msize = do {
     (rc, size, io, w) \<leftarrow> (if me_map io \<noteq> None then
          (if me_txn (w_env w) \<noteq> None then Some (EINVAL, msize, io, w)
           else do {
             i \<leftarrow> mdb_env_pick_meta w;
             t \<leftarrow> get_meta w i;
             let size = (if msize = 0 then unat (mm_mapsize t) else msize);
             let size = max size (unat ((mm_last_pg t + 1) * of_nat (me_psize (w_env w))));
             let old = (if any_set (me_flags (w_env w)) MDB_FIXEDMAP then me_map io else None);
             let w = upd_env w (\<lambda>e. e\<lparr>me_mapsize := size\<rparr>);
             let (rc, io, w) = mdb_env_map (io\<lparr>os_maps := os_maps io - 1\<rparr>) w old;
             Some (rc, size, io, w) })
        else Some (0, msize, io, w));
     if rc \<noteq> 0 then Some (rc, io, w)
     else Some (MDB_SUCCESS, io, upd_env w (\<lambda>e. e\<lparr>me_mapsize := size,
       me_maxpg := (if me_psize e \<noteq> 0 then of_nat (size div me_psize e) else me_maxpg e)\<rparr>)) }"

definition mdb_env_set_maxdbs :: "env_io \<Rightarrow> world \<Rightarrow> nat \<Rightarrow> int \<times> world" where
  "mdb_env_set_maxdbs io w dbs =
     (if me_map io \<noteq> None then (EINVAL, w) else (MDB_SUCCESS, upd_env w (\<lambda>e. e\<lparr>me_maxdbs := (dbs + CORE_DBS) mod 2 ^ 32\<rparr>)))"

definition mdb_env_set_maxreaders :: "env_io \<Rightarrow> world \<Rightarrow> nat \<Rightarrow> int \<times> world" where
  "mdb_env_set_maxreaders io w readers =
     (if me_map io \<noteq> None \<or> readers < 1 then (EINVAL, w) else (MDB_SUCCESS, upd_env w (\<lambda>e. e\<lparr>me_maxreaders := readers\<rparr>)))"

definition mdb_env_get_maxreaders :: "world \<Rightarrow> int \<times> nat" where
  "mdb_env_get_maxreaders w = (MDB_SUCCESS, me_maxreaders (w_env w))"

definition mdb_env_get_path :: "env_io \<Rightarrow> int \<times> string option" where
  "mdb_env_get_path io = (MDB_SUCCESS, me_path io)"

definition mdb_env_get_fd :: "env_io \<Rightarrow> int \<times> nat option" where
  "mdb_env_get_fd io = (MDB_SUCCESS, me_fd io)"

section \<open>File names\<close>

record MDB_name =
  mn_alloced :: bool
  mn_path :: string
  mn_val :: string

definition mdb_suffixes :: "bool \<Rightarrow> bool \<Rightarrow> string" where
  "mdb_suffixes lock nosubdir = (if lock then if nosubdir then ''-lock'' else ''/lock.mdb''
     else if nosubdir then '''' else ''/data.mdb'')"

definition mdb_fname_init :: "world \<Rightarrow> string \<Rightarrow> u32 \<Rightarrow> int \<times> MDB_name \<times> world" where
  "mdb_fname_init w path envflags =
     (if F_ISSET envflags (MDB_NOSUBDIR OR MDB_NOLOCK) then (MDB_SUCCESS, \<lparr>mn_alloced = False, mn_path = path, mn_val = path\<rparr>, w)
      else if w_malloc w (w_calls w) = None then (ENOMEM, \<lparr>mn_alloced = False, mn_path = path, mn_val = ''''\<rparr>, tick w)
      else (MDB_SUCCESS, \<lparr>mn_alloced = True, mn_path = path, mn_val = path\<rparr>, tick w))"

datatype mdb_fopen_type = MDB_O_RDONLY | MDB_O_RDWR | MDB_O_META | MDB_O_COPY | MDB_O_LOCKS

text \<open>The name that is opened; \<^verbatim>\<open>fcntl\<close>, whose outcome is ignored, changes nothing here.\<close>

definition fopen_name :: "world \<Rightarrow> MDB_name \<Rightarrow> mdb_fopen_type \<Rightarrow> MDB_name" where
  "fopen_name w fname which = (if mn_alloced fname
     then fname\<lparr>mn_val := mn_path fname @ mdb_suffixes (which = MDB_O_LOCKS) (F_ISSET (me_flags (w_env w)) MDB_NOSUBDIR)\<rparr> else fname)"

definition mdb_fopen :: "env_io \<Rightarrow> world \<Rightarrow> MDB_name \<Rightarrow> mdb_fopen_type \<Rightarrow> int \<times> nat option \<times> env_io \<times> world" where
  "mdb_fopen io w fname which = (let (rc, io, w) = os_call io w in
     if rc \<noteq> 0 then (rc, None, io, w)
     else (MDB_SUCCESS, Some (os_next io),
       io\<lparr>os_open := (os_next io, mn_val (fopen_name w fname which)) # os_open io, os_next := os_next io + 1\<rparr>, w))"

section \<open>Setting up the environment from the file\<close>

text \<open>\<^verbatim>\<open>atoi\<close> of a kernel release from position \<open>i\<close>; no sign or blank occurs there.\<close>

definition digit :: "char \<Rightarrow> bool" where
  "digit c \<longleftrightarrow> 48 \<le> (of_char c :: nat) \<and> (of_char c :: nat) \<le> 57"

fun atoi :: "nat \<Rightarrow> string \<Rightarrow> nat" where
  "atoi n [] = n"
| "atoi n (c # cs) = (if digit c then atoi (10 * n + (of_char c - 48)) cs else n)"

definition atoi_at :: "string \<Rightarrow> nat \<Rightarrow> nat" where
  "atoi_at s i = atoi 0 (drop i s)"

text \<open>The kernels whose \<^verbatim>\<open>fdatasync\<close> on ext3 and ext4 is not known to be good (\<^verbatim>\<open>BROKEN_FDATASYNC\<close>).\<close>

definition fdatasync_broken :: "string \<Rightarrow> bool" where
  "fdatasync_broken release = (
     let c = (of_char (hd (release @ [CHR 0x00])) :: nat) in
     if c < 51 then
       \<not> (if take 7 release = ''2.6.32.'' then atoi_at release 7 \<ge> 60
          else take 7 release = ''2.6.34.'' \<and> atoi_at release 7 \<ge> 15)
     else if c = 51 then
       (let i = atoi_at release 2 in
        \<not> (i > 5 \<or> i = 5 \<and> atoi_at release 4 \<ge> 4 \<or> i = 2 \<and> atoi_at release 4 \<ge> 30))
     else False)"

text \<open>
  \<^verbatim>\<open>mdb_env_open2\<close>. The file system type and the kernel release come from the system; the record
  of a new environment has the system's page size up to \<^verbatim>\<open>MAX_PAGESIZE\<close>.
\<close>

definition open2_header :: "world \<Rightarrow> nat \<Rightarrow> bool \<Rightarrow> (int \<times> bool \<times> MDB_meta \<times> world) option" where
  "open2_header w os_psize prev = do {
     (i, meta, w) \<leftarrow> mdb_env_read_header w prev (mdb_env_init_meta0 (w_env w));
     if i = 0 then Some (0, False, meta, upd_env w (\<lambda>e. e\<lparr>me_psize := unat (mm_psize meta)\<rparr>))
     else if i \<noteq> ENOENT then Some (i, False, meta, w)
     else do {
       let w = upd_env w (\<lambda>e. e\<lparr>me_psize := min os_psize MAX_PAGESIZE\<rparr>);
       Some (0, True, (mdb_env_init_meta0 (w_env w))\<lparr>mm_mapsize := of_nat DEFAULT_MAPSIZE\<rparr>, w) } }"

definition open2_mapsize :: "nat \<Rightarrow> MDB_meta \<Rightarrow> nat" where
  "open2_mapsize mapsize meta =
     max (if mapsize = 0 then unat (mm_mapsize meta) else mapsize) (unat ((mm_last_pg meta + 1) * ucast (mm_psize meta)))"

definition open2_limits :: "MDB_env \<Rightarrow> MDB_env" where
  "open2_limits e = (let room = me_psize e - PAGEHDRSZ in
     e\<lparr>me_maxfree_1pg := room div 8 - 1, me_nodemax := room div MDB_MINKEYS - (room div MDB_MINKEYS) mod 2 - 2,
       me_maxpg := of_nat (me_mapsize e div me_psize e)\<rparr>)"

definition mdb_env_open2 :: "env_io \<Rightarrow> world \<Rightarrow> bool \<Rightarrow> bool \<Rightarrow> string \<Rightarrow> io_result option" where
  "mdb_env_open2 io w prev ext release = do {
     let flags = me_flags (w_env w);
     let w = (if ext \<and> fdatasync_broken release then upd_env w (\<lambda>e. e\<lparr>me_flags := me_flags e OR MDB_FSYNCONLY\<rparr>) else w);
     (rc, newenv, meta, w) \<leftarrow> open2_header w (me_os_psize io) prev;
     if rc \<noteq> 0 then Some (rc, io, w)
     else do {
       let w = upd_env w (\<lambda>e. e\<lparr>me_mapsize := open2_mapsize (me_mapsize e) meta\<rparr>);
       let meta = meta\<lparr>mm_mapsize := of_nat (me_mapsize (w_env w))\<rparr>;
       let (rc, w) = (if newenv \<and> \<not> any_set flags MDB_FIXEDMAP then mdb_env_init_meta w meta else (0, w));
       if rc \<noteq> 0 then Some (rc, io, w)
       else do {
         let (rc, io, w) = mdb_env_map io w (if any_set flags MDB_FIXEDMAP \<and> mm_address meta \<noteq> 0 then Some (mm_address meta) else None);
         if rc \<noteq> 0 then Some (rc, io, w)
         else do {
           a \<leftarrow> me_map io;
           let (rc, w) = (if newenv \<and> any_set flags MDB_FIXEDMAP then mdb_env_init_meta w (meta\<lparr>mm_address := a\<rparr>) else (0, w));
           if rc \<noteq> 0 then Some (rc, io, w)
           else do {
             let w = upd_env w open2_limits;
             Some (MDB_SUCCESS, io, upd_readers w (\<lambda>ti. ti\<lparr>mti_txnid := mm_txnid meta\<rparr>)) } } } } }"

section \<open>The lock file\<close>

text \<open>The destructor of the thread key: thread exit releases the slot, unless in a child process.\<close>

definition mdb_env_reader_dest :: "world \<Rightarrow> nat \<Rightarrow> nat \<Rightarrow> world option" where
  "mdb_env_reader_dest w slot pid = do {
     ti \<leftarrow> me_txns (w_env w);
     r \<leftarrow> rd (mti_readers ti) slot;
     if mr_pid r = pid then do {
       rs \<leftarrow> wr (mti_readers ti) slot (r\<lparr>mr_pid := 0\<rparr>);
       Some (upd_readers w (\<lambda>ti. ti\<lparr>mti_readers := rs\<rparr>)) }
     else Some w }"

text \<open>\<^verbatim>\<open>*excl\<close>: -1 no or unknown lock, 0 shared, 1 exclusive.\<close>

definition mdb_env_share_locks :: "env_io \<Rightarrow> world \<Rightarrow> int \<times> int \<times> env_io \<times> world" where
  "mdb_env_share_locks io w = (let (rc, io, w) = os_call io w in (rc, if rc \<noteq> 0 then - 1 else 0, io, w))"

definition mdb_env_excl_lock :: "env_io \<Rightarrow> world \<Rightarrow> int \<Rightarrow> int \<times> int \<times> env_io \<times> world" where
  "mdb_env_excl_lock io w excl = (let (rc, io, w) = os_call io w in
     if rc = 0 then (0, 1, io, w)
     else (let (rc, io, w) = os_call io w in (rc, if rc = 0 then 0 else excl, io, w)))"

text \<open>The lock region of a file that was just created or extended, or of the one that is there.\<close>

definition no_reader :: MDB_reader where
  "no_reader = \<lparr>mr_txnid = 0, mr_pid = 0, mr_tid = 0\<rparr>"

definition setup_size :: "env_io \<Rightarrow> world \<Rightarrow> int \<Rightarrow> io_result" where
  "setup_size io w excl = (
     let (rc, io, w) = os_call io w;
         rsize = (me_maxreaders (w_env w) - 1) * SIZEOF_READER + SIZEOF_TXNINFO
     in if rc \<noteq> 0 then (rc, io, w)
        else if lf_size io < rsize \<and> excl > 0 then
          (let (rc, io, w) = os_call io w in
           if rc \<noteq> 0 then (rc, io, w)
           else (0, io\<lparr>lf_size := rsize, lf_info := (lf_info io)\<lparr>mti_readers := mti_readers (lf_info io) @
               replicate (me_maxreaders (w_env w) - length (mti_readers (lf_info io))) no_reader\<rparr>\<rparr>, w))
        else (0, io, upd_env w (\<lambda>e. e\<lparr>me_maxreaders := ((lf_size io + 2 ^ 64 - SIZEOF_TXNINFO) mod 2 ^ 64 div SIZEOF_READER + 1) mod 2 ^ 32\<rparr>)))"

text \<open>
  Five calls set up the two mutexes: the attributes, shared between processes, robust, and one
  \<^verbatim>\<open>pthread_mutex_init\<close> each. The first failure ends the sequence.
\<close>

fun mutex_calls :: "nat \<Rightarrow> world \<Rightarrow> int \<times> world" where
  "mutex_calls 0 w = (0, w)"
| "mutex_calls (Suc n) w = (let (rc, w) = syscall w in if rc \<noteq> 0 then (rc, w) else mutex_calls n w)"

definition setup_region :: "env_io \<Rightarrow> world \<Rightarrow> int \<Rightarrow> io_result" where
  "setup_region io w excl = (
     if excl > 0 then
       (let (rc, w) = mutex_calls 5 w in
        if rc \<noteq> 0 then (rc, io, w)
        else (MDB_SUCCESS, io\<lparr>lf_magic := MDB_MAGIC, lf_format := MDB_LOCK_FORMAT\<rparr>,
               upd_readers w (\<lambda>ti. ti\<lparr>mti_txnid := 0, mti_numreaders := 0\<rparr>)))
     else if lf_magic io \<noteq> MDB_MAGIC then (MDB_INVALID, io, w)
     else if lf_format io \<noteq> MDB_LOCK_FORMAT then (MDB_VERSION_MISMATCH, io, w)
     else if os_errno io \<noteq> 0 \<and> os_errno io \<noteq> EACCES \<and> os_errno io \<noteq> EAGAIN then (os_errno io, io, w)
     else (MDB_SUCCESS, io, w))"

definition mdb_env_setup_locks :: "env_io \<Rightarrow> world \<Rightarrow> MDB_name \<Rightarrow> int \<Rightarrow> int \<times> int \<times> env_io \<times> world" where
  "mdb_env_setup_locks io w fname excl = (
     let (rc, fd, io, w) = mdb_fopen io w fname MDB_O_LOCKS; io = io\<lparr>me_lfd := fd\<rparr> in
     if rc \<noteq> 0 then (if rc = EROFS \<and> any_set (me_flags (w_env w)) MDB_RDONLY then MDB_SUCCESS else rc, excl, io, w)
     else
       (let (rc, io, w) = (if any_set (me_flags (w_env w)) MDB_NOTLS then (0, io, w)
          else (let (rc, w) = syscall w in
            if rc \<noteq> 0 then (rc, io, w)
            else (0, io\<lparr>os_keys := os_keys io + 1\<rparr>, upd_env w (\<lambda>e. e\<lparr>me_flags := me_flags e OR MDB_ENV_TXKEY\<rparr>)))) in
        if rc \<noteq> 0 then (rc, excl, io, w)
        else (let (rc, excl, io, w) = mdb_env_excl_lock io w excl in
          if rc \<noteq> 0 then (rc, excl, io, w)
          else (let (rc, io, w) = setup_size io w excl in
            if rc \<noteq> 0 then (rc, excl, io, w)
            else (let (rc, io, w) = os_call io w in
              if rc \<noteq> 0 then (rc, excl, io, w)
              else (let (rc, io, w) = setup_region (io\<lparr>os_maps := os_maps io + 1\<rparr>) (upd_env w (\<lambda>e. e\<lparr>me_txns := Some (lf_info io)\<rparr>)) excl
                in (rc, excl, io, w)))))))"

section \<open>Closing\<close>

text \<open>
  \<^verbatim>\<open>mdb_env_close0\<close>: the caller's process is an argument. A region that is unmapped keeps its contents
  in the file.
\<close>

definition close_memory :: "world \<Rightarrow> world option" where
  "close_memory w = do {
     let e = w_env w;
     let free = (\<lambda>p w. if p = NULL then w else w_free w p);
     let w = fold (\<lambda>d. free (mv_data (md_name d))) (rev (drop CORE_DBS (me_dbxs e))) w;
     let w = free (me_pbuf e) w;
     let w = (case me_txn0 e of None \<Rightarrow> w | Some t \<Rightarrow> w\<lparr>w_txns := (w_txns w)(t := None)\<rparr>);
     Some (upd_env w (\<lambda>e. e\<lparr>me_dbxs := [], me_pbuf := NULL, me_dbiseqs := [], me_dbflags := [], me_dirty_list := [],
       me_txn0 := None, me_free_pgs := \<lparr>idl_alloc = 0, idl_words = []\<rparr>\<rparr>)) }"

definition close_readers :: "env_io \<Rightarrow> world \<Rightarrow> nat \<Rightarrow> (env_io \<times> world) option" where
  "close_readers io w pid = (case me_txns (w_env w) of
     None \<Rightarrow> Some (io, w)
   | Some ti \<Rightarrow> do {
       (rs, _) \<leftarrow> clear_pid (mti_readers ti) pid (me_close_readers (w_env w)) 0 0;
       Some (io\<lparr>lf_info := ti\<lparr>mti_readers := rs\<rparr>, os_maps := os_maps io - 1\<rparr>, upd_env w (\<lambda>e. e\<lparr>me_txns := None\<rparr>)) })"

definition mdb_env_close0 :: "env_io \<Rightarrow> world \<Rightarrow> nat \<Rightarrow> (env_io \<times> world) option" where
  "mdb_env_close0 io w pid =
     (if \<not> any_set (me_flags (w_env w)) MDB_ENV_ACTIVE then Some (io, w)
      else do {
        w \<leftarrow> close_memory w;
        let io = (if any_set (me_flags (w_env w)) MDB_ENV_TXKEY then io\<lparr>os_keys := os_keys io - 1\<rparr> else io);
        let io = (if me_map io \<noteq> None then io\<lparr>os_maps := os_maps io - 1\<rparr> else io);
        let io = os_close (me_mfd io) io;
        let io = os_close (me_fd io) io;
        (io, w) \<leftarrow> close_readers io w pid;
        let io = os_close (me_lfd io) io;
        Some (io, upd_env w (\<lambda>e. e\<lparr>me_flags := clear (me_flags e) (MDB_ENV_ACTIVE OR MDB_ENV_TXKEY)\<rparr>)) })"

text \<open>\<^verbatim>\<open>mdb_env_close\<close> frees the environment itself in the end.\<close>

definition mdb_env_close :: "env_io \<Rightarrow> world \<Rightarrow> nat \<Rightarrow> (env_io \<times> world) option" where
  "mdb_env_close io w pid = do {
     let w = upd_env (fold (\<lambda>p w. w_free w p) (me_dpages (w_env w)) w) (\<lambda>e. e\<lparr>me_dpages := []\<rparr>);
     (io, w) \<leftarrow> mdb_env_close0 io w pid;
     Some (io, w\<lparr>w_env := zero_env\<rparr>) }"

section \<open>Opening\<close>

text \<open>The memory of an environment: lists of pages for a writer, and one array per kind of handle data.\<close>

definition open_alloc :: "env_io \<Rightarrow> world \<Rightarrow> string \<Rightarrow> u32 \<Rightarrow> io_result" where
  "open_alloc io w path flags = (
     let (rc, w) = (if any_set flags MDB_RDONLY then (0, w)
          else (case mdb_midl_alloc (idl_heap w) MDB_IDL_UM_MAX of
            None \<Rightarrow> (ENOMEM, tick w)
          | Some b \<Rightarrow> (let w = upd_env (tick w) (\<lambda>e. e\<lparr>me_free_pgs := b\<rparr>); ok = (w_malloc w (w_calls w) \<noteq> None); w = tick w in
              if \<not> ok then (ENOMEM, w)
              else (0, upd_env w (\<lambda>e. e\<lparr>me_dirty_list := replicate MDB_IDL_UM_SIZE \<lparr>mid = 0, mptr = NULL\<rparr>\<rparr>)))));
         w = upd_env w (\<lambda>e. e\<lparr>me_flags := flags\<rparr>)
     in if rc \<noteq> 0 then (rc, io, w)
        else (let n = me_maxdbs (w_env w); ok = (\<lambda>k. w_malloc w (w_calls w + k) \<noteq> None); w' = w\<lparr>w_calls := w_calls w + 4\<rparr>;
                  blank = \<lparr>md_name = \<lparr>mv_size = 0, mv_data = NULL\<rparr>, md_cmp = None, md_dcmp = None\<rparr>;
                  io = io\<lparr>me_path := (if ok 0 then Some path else None)\<rparr>;
                  w' = upd_env w' (\<lambda>e. e\<lparr>me_dbxs := (if ok 1 then replicate n blank else []),
                    me_dbflags := (if ok 2 then replicate n 0 else []), me_dbiseqs := (if ok 3 then replicate n 0 else [])\<rparr>)
              in if \<not> (ok 1 \<and> ok 0 \<and> ok 2 \<and> ok 3) then (ENOMEM, io, w')
                 else (0, io, upd_env w' (\<lambda>e. e\<lparr>me_dbxs := (me_dbxs e)[FREE_DBI := blank\<lparr>md_cmp := Some Cmp_long\<rparr>]\<rparr>))))"

text \<open>The files: the lock file first for a writer, the data file first for a reader.\<close>

definition open_files :: "env_io \<Rightarrow> world \<Rightarrow> MDB_name \<Rightarrow> u32 \<Rightarrow> int \<Rightarrow> int \<times> int \<times> env_io \<times> world" where
  "open_files io w fname flags excl = (
     let (rc, excl, io, w) = (if \<not> any_set flags (MDB_RDONLY OR MDB_NOLOCK) then
          (let (rc, excl, io, w) = mdb_env_setup_locks io w fname excl in
           (if rc \<noteq> 0 then rc else if any_set flags MDB_PREVSNAPSHOT \<and> excl = 0 then EAGAIN else 0, excl, io, w))
        else (0, excl, io, w))
     in if rc \<noteq> 0 then (rc, excl, io, w)
        else (let (rc, fd, io, w) = mdb_fopen io w fname (if any_set flags MDB_RDONLY then MDB_O_RDONLY else MDB_O_RDWR);
                  io = io\<lparr>me_fd := fd\<rparr>
              in if rc \<noteq> 0 then (rc, excl, io, w)
                 else if flags AND (MDB_RDONLY OR MDB_NOLOCK) = MDB_RDONLY then mdb_env_setup_locks io w fname excl
                 else (0, excl, io, w)))"

text \<open>The transaction object of the writer.\<close>

definition open_txn0 :: "world \<Rightarrow> int \<times> world" where
  "open_txn0 w = (
     let (p, w) = w_alloc w (me_psize (w_env w)) in
     if p = NULL then (ENOMEM, w)
     else (let w = upd_env (w\<lparr>w_mem := (w_mem w)(p_blk p \<mapsto> replicate (me_psize (w_env w)) 0)\<rparr>) (\<lambda>e. e\<lparr>me_pbuf := p\<rparr>);
               ok = (w_malloc w (w_calls w) \<noteq> None); w = tick w; t = w_next w
           in if \<not> ok then (ENOMEM, w)
              else (0, upd_env (w\<lparr>w_next := t + 1, w_txns := (w_txns w)(t \<mapsto>
                   (blank_txn w)\<lparr>mt_cursors := Some (replicate (me_maxdbs (w_env w)) []), mt_flags := MDB_TXN_FINISHED\<rparr>)\<rparr>)
                 (\<lambda>e. e\<lparr>me_txn0 := Some t\<rparr>))))"

definition open_finish :: "env_io \<Rightarrow> world \<Rightarrow> MDB_name \<Rightarrow> u32 \<Rightarrow> int \<Rightarrow> bool \<Rightarrow> string \<Rightarrow> io_result option" where
  "open_finish io w fname flags excl ext release = do {
     (rc, io, w) \<leftarrow> mdb_env_open2 io w (any_set flags MDB_PREVSNAPSHOT) ext release;
     if rc \<noteq> 0 then Some (rc, io, w)
     else do {
       let (rc, io, w) = (if \<not> any_set flags (MDB_RDONLY OR MDB_WRITEMAP) then
            (let (rc, fd, io, w) = mdb_fopen io w fname MDB_O_META in (rc, io\<lparr>me_mfd := fd\<rparr>, w))
          else (0, io, w));
       if rc \<noteq> 0 then Some (rc, io, w)
       else do {
         let (rc, io, w) = (if excl > 0 \<and> \<not> any_set flags MDB_PREVSNAPSHOT then
              (let (rc, _, io, w) = mdb_env_share_locks io w in (rc, io, w))
            else (0, io, w));
         if rc \<noteq> 0 then Some (rc, io, w)
         else do {
           let (rc, w) = (if \<not> any_set flags MDB_RDONLY then open_txn0 w else (0, w));
           Some (rc, io, w) } } } }"

definition mdb_env_open :: "env_io \<Rightarrow> world \<Rightarrow> string \<Rightarrow> u32 \<Rightarrow> nat \<Rightarrow> bool \<Rightarrow> string \<Rightarrow> io_result option" where
  "mdb_env_open io w path flags pid ext release =
     (if me_fd io \<noteq> None \<or> clear flags (CHANGEABLE OR CHANGELESS) \<noteq> 0 then Some (EINVAL, io, w)
      else do {
        let flags = flags OR me_flags (w_env w);
        let (rc, fname, w) = mdb_fname_init w path flags;
        if rc \<noteq> 0 then Some (rc, io, w)
        else do {
          let flags = flags OR MDB_ENV_ACTIVE;
          let flags = (if any_set flags MDB_RDONLY then clear flags MDB_WRITEMAP else flags);
          let (rc, io, w) = open_alloc io w path flags;
          (rc, io, w) \<leftarrow> (if rc \<noteq> 0 then Some (rc, io, w)
             else do {
               let (rc, excl, io, w) = open_files io w fname flags (- 1);
               if rc \<noteq> 0 then Some (rc, io, w) else open_finish io w fname flags excl ext release });
          if rc \<noteq> 0 then do {
            (io, w) \<leftarrow> mdb_env_close0 io w pid;
            Some (rc, io, w) }
          else Some (MDB_SUCCESS, io, w) } })"

end
