(* ===== verification/Env_Copy.thy ===== *)
theory Env_Copy
  imports Env_Open Copy_Thread
begin

text \<open>
  \<^verbatim>\<open>mdb_env_copyfd0\<close> and \<^verbatim>\<open>mdb_env_copyfd1\<close> (\<^verbatim>\<open>lmdb/mdb.c\<close>): a copy of the environment as it is, and
  one that walks the trees and writes only the pages in use, renumbered. The walk is the provider
  of \<open>Copy_Thread\<close>. Its local \<^verbatim>\<open>toggle\<close> always equals \<^verbatim>\<open>my->mc_toggle\<close>, which is read instead.
\<close>

abbreviation (input) MDB_CP_COMPACT :: u32 where "MDB_CP_COMPACT \<equiv> 0x01"
abbreviation (input) MDB_END_RESET_TMP :: u32 where "MDB_END_RESET_TMP \<equiv> 4"
abbreviation (input) MAX_WRITE :: nat where "MAX_WRITE \<equiv> 0x40000000"

section \<open>Copy with compaction\<close>

text \<open>Put a page at the end of the provider's buffer, which is handed over first when it is full.\<close>

definition copy_room :: "copy_sys \<Rightarrow> (int \<times> copy_sys) option" where
  "copy_room s = (if mc_wlen (cs_my s) (mc_toggle (cs_my s)) \<ge> MDB_WBUF then mdb_env_cthr_toggle s 1 else Some (0, s))"

definition copy_end :: "copy_sys \<Rightarrow> ptr" where
  "copy_end s = (let my = cs_my s; t = mc_toggle my in padd (mc_wbuf my t) (mc_wlen my t))"

definition copy_grow :: "copy_sys \<Rightarrow> mem \<Rightarrow> nat \<Rightarrow> copy_sys" where
  "copy_grow s m pages = (let psize = me_psize (w_env (cs_w s)) in
     copy_do (s\<lparr>cs_w := (cs_w s)\<lparr>w_mem := m\<rparr>\<rparr>) (\<lambda>my. my\<lparr>mc_next_pgno := mc_next_pgno my + of_nat pages,
       mc_wlen := (mc_wlen my)(mc_toggle my := mc_wlen my (mc_toggle my) + psize)\<rparr>))"

text \<open>\<^verbatim>\<open>Need writable leaf\<close>\<close>

definition cwalk_writable :: "copy_sys \<Rightarrow> cid \<Rightarrow> ptr \<Rightarrow> ptr \<Rightarrow> copy_sys option" where
  "cwalk_writable s c mp leaf =
     (if mp = leaf then Some s
      else do {
        r \<leftarrow> get_cur (cs_w s) c;
        w \<leftarrow> set_pg (cs_w s) c (mc_top r) leaf;
        w \<leftarrow> mem_do w (mdb_page_copy (w_mem w) leaf mp (me_psize (w_env w)));
        Some (s\<lparr>cs_w := w\<rparr>) })"

text \<open>A value on overflow pages: the first one goes into the buffer, the rest is written from where it is.\<close>

definition cwalk_big :: "copy_sys \<Rightarrow> cid \<Rightarrow> ptr \<Rightarrow> (int \<times> copy_sys) option" where
  "cwalk_big s c ni = do {
     let psize = me_psize (w_env (cs_w s));
     nd \<leftarrow> NODEDATA (w_mem (cs_w s)) ni;
     pg \<leftarrow> ld64 (w_mem (cs_w s)) nd;
     w \<leftarrow> mem_do (cs_w s) (st64 (w_mem (cs_w s)) nd (unat (mc_next_pgno (cs_my s))));
     (rc, omp, _, w) \<leftarrow> mdb_page_get w c (of_nat pg);
     let s = s\<lparr>cs_w := w\<rparr>;
     if rc \<noteq> 0 then Some (rc, s)
     else do {
       (rc, s) \<leftarrow> copy_room s;
       if rc \<noteq> 0 then Some (rc, s)
       else do {
         let mo = copy_end s;
         m \<leftarrow> memmove (w_mem (cs_w s)) mo omp psize;
         m \<leftarrow> set_mp_pgno m mo (mc_next_pgno (cs_my s));
         pages \<leftarrow> mp_pages m omp;
         let s = copy_grow s m pages;
         if pages > 1 then
           mdb_env_cthr_toggle (copy_do s (\<lambda>my. my\<lparr>mc_olen := (mc_olen my)(mc_toggle my := of_nat (psize * (pages - 1))),
             mc_over := (mc_over my)(mc_toggle my := padd omp psize)\<rparr>)) 1
         else Some (0, s) } } }"

text \<open>A walk of the tree below a root: return code, the new root page, state.\<close>

type_synonym walk_fun = "copy_sys \<Rightarrow> u64 \<Rightarrow> u32 \<Rightarrow> (int \<times> u64 \<times> copy_sys) option"

definition cwalk_sub :: "walk_fun \<Rightarrow> copy_sys \<Rightarrow> ptr \<Rightarrow> (int \<times> copy_sys) option" where
  "cwalk_sub sub s ni = do {
     nd \<leftarrow> NODEDATA (w_mem (cs_w s)) ni;
     db \<leftarrow> load_db (w_mem (cs_w s)) nd;
     fl \<leftarrow> mn_flags (w_mem (cs_w s)) ni;
     (rc, root, s) \<leftarrow> sub s (md_root db) (fl AND F_DUPDATA);
     if rc \<noteq> 0 then Some (rc, s)
     else do {
       nd \<leftarrow> NODEDATA (w_mem (cs_w s)) ni;
       w \<leftarrow> mem_do (cs_w s) (store_db (w_mem (cs_w s)) nd (db\<lparr>md_root := root\<rparr>));
       Some (0, s\<lparr>cs_w := w\<rparr>) } }"

text \<open>The nodes \<open>i\<close> to \<open>i + n - 1\<close> of a leaf; returns the page they are on in the end.\<close>

fun cwalk_nodes :: "walk_fun \<Rightarrow> copy_sys \<Rightarrow> cid \<Rightarrow> ptr \<Rightarrow> ptr \<Rightarrow> nat \<Rightarrow> nat \<Rightarrow> (int \<times> ptr \<times> copy_sys) option" where
  "cwalk_nodes sub s c mp leaf 0 i = Some (0, mp, s)"
| "cwalk_nodes sub s c mp leaf (Suc n) i = do {
     ni \<leftarrow> NODEPTR (w_mem (cs_w s)) mp i;
     fl \<leftarrow> mn_flags (w_mem (cs_w s)) ni;
     if any_set fl (F_BIGDATA OR F_SUBDATA) then do {
       s \<leftarrow> cwalk_writable s c mp leaf;
       ni \<leftarrow> NODEPTR (w_mem (cs_w s)) leaf i;
       (rc, s) \<leftarrow> (if any_set fl F_BIGDATA then cwalk_big s c ni else cwalk_sub sub s ni);
       if rc \<noteq> 0 then Some (rc, leaf, s) else cwalk_nodes sub s c leaf leaf n (i + 1) }
     else cwalk_nodes sub s c mp leaf n (i + 1) }"

text \<open>Down to the first leaf below the current slot of \<open>mp\<close>, copying the branch pages on the way.\<close>

fun cwalk_down :: "nat \<Rightarrow> copy_sys \<Rightarrow> cid \<Rightarrow> ptr \<Rightarrow> (int \<times> copy_sys) option" where
  "cwalk_down 0 s c mp = None"
| "cwalk_down (Suc n) s c mp = do {
     ki \<leftarrow> top_ki (cs_w s) c;
     ni \<leftarrow> NODEPTR (w_mem (cs_w s)) mp ki;
     pg \<leftarrow> NODEPGNO (w_mem (cs_w s)) ni;
     (rc, mp, _, w) \<leftarrow> mdb_page_get (cs_w s) c pg;
     if rc \<noteq> 0 then Some (rc, s\<lparr>cs_w := w\<rparr>)
     else do {
       w \<leftarrow> upd_cur w c (\<lambda>r. r\<lparr>mc_top := mc_top r + 1, mc_snum := mc_snum r + 1\<rparr>);
       w \<leftarrow> set_top_ki w c 0;
       br \<leftarrow> IS_BRANCH (w_mem w) mp;
       if br then do {
         dst \<leftarrow> top_pg w c;
         w \<leftarrow> mem_do w (mdb_page_copy (w_mem w) dst mp (me_psize (w_env w)));
         cwalk_down n (s\<lparr>cs_w := w\<rparr>) c mp }
       else do {
         r \<leftarrow> get_cur w c;
         w \<leftarrow> set_pg w c (mc_top r) mp;
         Some (0, s\<lparr>cs_w := w\<rparr>) } } }"

text \<open>
  The page is finished: it gets the next number, and its parent the number. \<open>Some\<close> root when there
  is no parent.
\<close>

definition cwalk_emit :: "copy_sys \<Rightarrow> cid \<Rightarrow> ptr \<Rightarrow> (int \<times> u64 option \<times> copy_sys) option" where
  "cwalk_emit s c mp = do {
     (rc, s) \<leftarrow> copy_room s;
     if rc \<noteq> 0 then Some (rc, None, s)
     else do {
       let mo = copy_end s;
       let pgno = mc_next_pgno (cs_my s);
       m \<leftarrow> mdb_page_copy (w_mem (cs_w s)) mo mp (me_psize (w_env (cs_w s)));
       m \<leftarrow> set_mp_pgno m mo pgno;
       let s = copy_grow s m 1;
       r \<leftarrow> get_cur (cs_w s) c;
       if mc_top r \<noteq> 0 then do {
         parent \<leftarrow> rd (mc_pg r) (mc_top r - 1);
         ki \<leftarrow> rd (mc_ki r) (mc_top r - 1);
         ni \<leftarrow> NODEPTR (w_mem (cs_w s)) parent ki;
         w \<leftarrow> mem_do (cs_w s) (SETPGNO (w_mem (cs_w s)) ni pgno);
         w \<leftarrow> mdb_cursor_pop w c;
         Some (0, None, s\<lparr>cs_w := w\<rparr>) }
       else Some (0, Some pgno, s) } }"

partial_function (option) cwalk_loop ::
  "walk_fun \<Rightarrow> copy_sys \<Rightarrow> cid \<Rightarrow> ptr \<Rightarrow> u64 \<Rightarrow> u32 \<Rightarrow> (int \<times> u64 \<times> copy_sys) option" where
  "cwalk_loop sub s c leaf pg flags = do {
     r \<leftarrow> get_cur (cs_w s) c;
     if mc_snum r = 0 then Some (0, pg, s)
     else do {
       mp \<leftarrow> top_pg (cs_w s) c;
       n \<leftarrow> NUMKEYS (w_mem (cs_w s)) mp;
       is_leaf \<leftarrow> IS_LEAF (w_mem (cs_w s)) mp;
       leaf2 \<leftarrow> IS_LEAF2 (w_mem (cs_w s)) mp;
       ki \<leftarrow> top_ki (cs_w s) c;
       w \<leftarrow> (if is_leaf then Some (cs_w s) else set_top_ki (cs_w s) c (inc16 ki));
       let s = s\<lparr>cs_w := w\<rparr>;
       if \<not> is_leaf \<and> inc16 ki < n then do {
         (rc, s) \<leftarrow> cwalk_down CURSOR_STACK s c mp;
         if rc \<noteq> 0 then Some (rc, pg, s) else cwalk_loop sub s c leaf pg flags }
       else do {
         (rc, mp, s) \<leftarrow> (if is_leaf \<and> \<not> leaf2 \<and> \<not> any_set flags F_DUPDATA then cwalk_nodes sub s c mp leaf n 0 else Some (0, mp, s));
         if rc \<noteq> 0 then Some (rc, pg, s)
         else do {
           (rc, done, s) \<leftarrow> cwalk_emit s c mp;
           if rc \<noteq> 0 then Some (rc, pg, s)
           else (case done of
              Some root \<Rightarrow> Some (0, root, s)
            | None \<Rightarrow> cwalk_loop sub s c leaf pg flags) } } } }"

text \<open>The branch pages on the stack, below the leaf, are copied to the new block.\<close>

fun cwalk_own :: "nat \<Rightarrow> nat \<Rightarrow> world \<Rightarrow> cid \<Rightarrow> ptr \<Rightarrow> world option" where
  "cwalk_own 0 i w c ptr = Some w"
| "cwalk_own (Suc n) i w c ptr = do {
     r \<leftarrow> get_cur w c;
     p \<leftarrow> rd (mc_pg r) i;
     w \<leftarrow> mem_do w (mdb_page_copy (w_mem w) ptr p (me_psize (w_env w)));
     w \<leftarrow> set_pg w c i ptr;
     cwalk_own n (i + 1) w c (padd ptr (me_psize (w_env w))) }"

text \<open>
  A named database is in the main database, and duplicates are in a named one, so the walk nests
  three deep.
\<close>

fun mdb_env_cwalk :: "nat \<Rightarrow> copy_sys \<Rightarrow> u64 \<Rightarrow> u32 \<Rightarrow> (int \<times> u64 \<times> copy_sys) option" where
  "mdb_env_cwalk 0 s pg flags = None"
| "mdb_env_cwalk (Suc d) s pg flags =
     (if pg = P_INVALID then Some (MDB_SUCCESS, pg, s)
      else do {
        t \<leftarrow> mc_copy_txn (cs_my s);
        x \<leftarrow> w_txns (cs_w s) t;
        let (c, w) = new_cursor (cs_w s);
        w \<leftarrow> upd_cur w c (\<lambda>r. r\<lparr>mc_snum := 1, mc_txn := t, mc_flags := mt_flags x AND (C_ORIG_RDONLY OR C_WRITEMAP)\<rparr>);
        (rc, p, _, w) \<leftarrow> mdb_page_get w c pg;
        if rc \<noteq> 0 then Some (rc, pg, s\<lparr>cs_w := drop_cursor w c\<rparr>)
        else do {
          w \<leftarrow> set_pg w c 0 p;
          (rc, w) \<leftarrow> mdb_page_search_root mdb_page_touch w c None MDB_PS_FIRST;
          if rc \<noteq> 0 then Some (rc, pg, s\<lparr>cs_w := drop_cursor w c\<rparr>)
          else do {
            r \<leftarrow> get_cur w c;
            let (buf, w) = w_alloc w (me_psize (w_env w) * mc_snum r);
            if buf = NULL then Some (ENOMEM, pg, s\<lparr>cs_w := drop_cursor w c\<rparr>)
            else do {
              w \<leftarrow> cwalk_own (mc_top r) 0 w c buf;
              let leaf = padd buf (me_psize (w_env w) * mc_top r);
              (rc, pg, s) \<leftarrow> cwalk_loop (mdb_env_cwalk d) (s\<lparr>cs_w := w\<rparr>) c leaf pg flags;
              Some (rc, pg, s\<lparr>cs_w := drop_cursor (w_free (cs_w s) buf) c\<rparr>) } } } })"

text \<open>The pages in the records of the free list.\<close>

partial_function (option) count_free :: "world \<Rightarrow> cid \<Rightarrow> u64 \<Rightarrow> (int \<times> u64 \<times> world) option" where
  "count_free w c n = do {
     (rc, _, data, w) \<leftarrow> mdb_cursor_get mdb_page_touch w (Some c) (Some \<lparr>mv_size = 0, mv_data = NULL\<rparr>)
        (Some \<lparr>mv_size = 0, mv_data = NULL\<rparr>) MDB_NEXT;
     if rc \<noteq> 0 then Some (rc, n, w)
     else do {
       d \<leftarrow> data;
       k \<leftarrow> ld64 (w_mem w) (mv_data d);
       count_free w c (n + of_nat k) } }"

text \<open>The record for meta page 1 and the root the walk must arrive at.\<close>

definition copy_meta :: "world \<Rightarrow> tid \<Rightarrow> MDB_meta \<Rightarrow> (int \<times> MDB_meta \<times> u64 \<times> world) option" where
  "copy_meta w t mm = do {
     x \<leftarrow> w_txns w t;
     main \<leftarrow> rd (mt_dbs x) MAIN_DBI;
     m1 \<leftarrow> rd (mm_dbs mm) MAIN_DBI;
     (rc, mm, new_root, w) \<leftarrow> (if md_root main \<noteq> P_INVALID then do {
          let (c, w) = new_cursor w;
          w \<leftarrow> mdb_cursor_init mdb_page_touch w c t FREE_DBI None;
          (rc, freecount, w) \<leftarrow> count_free w c 0;
          let w = drop_cursor w c;
          if rc \<noteq> MDB_NOTFOUND then Some (rc, mm, md_root main, w)
          else do {
            x \<leftarrow> w_txns w t;
            free \<leftarrow> rd (mt_dbs x) FREE_DBI;
            main \<leftarrow> rd (mt_dbs x) MAIN_DBI;
            let freecount = freecount + md_branch_pages free + md_leaf_pages free + md_overflow_pages free;
            let new_root = mt_next_pgno x - 1 - freecount;
            Some (0, mm\<lparr>mm_last_pg := new_root, mm_dbs := (mm_dbs mm)[MAIN_DBI := main\<lparr>md_root := new_root\<rparr>]\<rparr>, new_root, w) } }
        else Some (0, mm\<lparr>mm_dbs := (mm_dbs mm)[MAIN_DBI := m1\<lparr>md_flags := md_flags main\<rparr>]\<rparr>, md_root main, w));
     d \<leftarrow> rd (mm_dbs mm) MAIN_DBI;
     Some (rc, if rc = 0 \<and> (md_root main \<noteq> P_INVALID \<or> md_flags d \<noteq> 0) then mm\<lparr>mm_txnid := 1\<rparr> else mm, new_root, w) }"

text \<open>What the provider does between the start of the writer and the end.\<close>

definition copyfd1_fill :: "copy_sys \<Rightarrow> (int \<times> tid option \<times> copy_sys) option" where
  "copyfd1_fill s = do {
     (rc, txn, w) \<leftarrow> mdb_txn_begin (cs_w s) None MDB_RDONLY;
     if rc \<noteq> 0 then Some (rc, None, s\<lparr>cs_w := w\<rparr>)
     else do {
       t \<leftarrow> txn;
       let psize = me_psize (w_env w);
       m0 \<leftarrow> get_meta w 0;
       let mm = (mdb_env_init_meta0 (w_env w))\<lparr>mm_address := mm_address m0\<rparr>;
       (rc, mm1, new_root, w) \<leftarrow> copy_meta w t mm;
       if rc \<noteq> 0 then Some (rc, Some t, s\<lparr>cs_w := w\<rparr>)
       else do {
         w \<leftarrow> mem_do w (store (w_mem w) (mc_wbuf (cs_my s) False) (meta_page psize 0 mm @ meta_page psize 1 mm1));
         x \<leftarrow> w_txns w t;
         main \<leftarrow> rd (mt_dbs x) MAIN_DBI;
         let s = copy_do (s\<lparr>cs_w := w\<rparr>) (\<lambda>my. my\<lparr>mc_wlen := (mc_wlen my)(False := psize * NUM_METAS), mc_copy_txn := Some t\<rparr>);
         (rc, root, s) \<leftarrow> mdb_env_cwalk 3 s (md_root main) 0;
         Some (if rc = MDB_SUCCESS \<and> root \<noteq> new_root then MDB_INCOMPATIBLE else rc, Some t, s) } } }"

definition copy_init :: "world \<Rightarrow> ptr \<Rightarrow> copy_sys" where
  "copy_init w buf = \<lparr>cs_w = w, cs_my = \<lparr>mc_copy_txn = None, mc_wbuf = (\<lambda>i. if i then padd buf MDB_WBUF else buf), mc_over = (\<lambda>_. NULL),
     mc_wlen = (\<lambda>_. 0), mc_olen = (\<lambda>_. 0), mc_next_pgno = of_nat NUM_METAS, mc_out = [], mc_toggle = False, mc_new = 0, mc_error = 0\<rparr>,
     cs_owner = None, cs_wr = W_Start, cs_wt = False, cs_pr = P_Out, cs_ret = 0\<rparr>"

text \<open>Returns the return code and what is in the file of the copy.\<close>

definition mdb_env_copyfd1 :: "world \<Rightarrow> (int \<times> u8 list \<times> world) option" where
  "mdb_env_copyfd1 w = do {
     let (rc, w) = syscall w;
     if rc \<noteq> 0 then Some (rc, [], w)
     else do {
       let (rc, w) = syscall w;
       if rc \<noteq> 0 then Some (rc, [], w)
       else do {
         let (buf, w) = w_alloc w (2 * MDB_WBUF);
         if buf = NULL then Some (ENOMEM, [], w)
         else do {
           w \<leftarrow> mem_do w (memset (w_mem w) buf 0 (2 * MDB_WBUF));
           let (rc, w) = syscall w;
           if rc \<noteq> 0 then Some (rc, [], w_free w buf)
           else do {
             (rc, txn, s) \<leftarrow> copyfd1_fill (copy_init w buf);
             let s = (if rc \<noteq> 0 then copy_do s (\<lambda>my. my\<lparr>mc_error := rc\<rparr>) else s);
             (_, s) \<leftarrow> mdb_env_cthr_toggle s (1 OR MDB_EOF);
             s \<leftarrow> cthr_finish s;
             let (rc, w) = syscall (cs_w s);
             w \<leftarrow> mdb_txn_abort w txn;
             Some (if rc \<noteq> 0 then rc else mc_error (cs_my s), mc_out (cs_my s), w_free w buf) } } } } }"

section \<open>Copy as it is\<close>

text \<open>A loop of writes of at most \<open>mx\<close> bytes each; every turn writes something, so \<open>k + 1\<close> turns are enough.\<close>

fun copy_writes :: "nat \<Rightarrow> world \<Rightarrow> nat \<Rightarrow> ptr \<Rightarrow> nat \<Rightarrow> u8 list \<Rightarrow> (int \<times> ptr \<times> u8 list \<times> world) option" where
  "copy_writes 0 w mx p k out = None"
| "copy_writes (Suc n) w mx p k out =
     (if k = 0 then Some (0, p, out, w)
      else do {
        (rc, bs, w) \<leftarrow> do_write w p (min mx k);
        if rc \<noteq> 0 then Some (rc, p, out, w)
        else if bs = [] then Some (EIO, p, out, w)
        else copy_writes n w mx (padd p (length bs)) (k - length bs) (out @ bs) })"

definition mdb_fsize :: "world \<Rightarrow> int \<times> nat \<times> world" where
  "mdb_fsize w = (let (rc, w) = syscall w in (rc, case w_mem w Map of None \<Rightarrow> 0 | Some bs \<Rightarrow> length bs, w))"

text \<open>With the reader table there, writers are kept out while the meta pages are copied.\<close>

definition mdb_env_copyfd0 :: "world \<Rightarrow> (int \<times> u8 list \<times> world) option" where
  "mdb_env_copyfd0 w = do {
     (rc, txn, w) \<leftarrow> mdb_txn_begin w None MDB_RDONLY;
     if rc \<noteq> 0 then Some (rc, [], w)
     else do {
       t \<leftarrow> txn;
       (rc, w) \<leftarrow> (if me_txns (w_env w) \<noteq> None then do {
            w \<leftarrow> mdb_txn_end w t MDB_END_RESET_TMP;
            (rc, w) \<leftarrow> LOCK_MUTEX w False;
            if rc \<noteq> 0 then Some (rc, w) else mdb_txn_renew0 w t }
          else Some (0, w));
       (rc, out, w) \<leftarrow> (if rc \<noteq> 0 then Some (rc, [], w)
          else do {
            let wsize = me_psize (w_env w) * NUM_METAS;
            (rc, p, out, w) \<leftarrow> copy_writes (wsize + 1) w wsize (Ptr Map 0) wsize [];
            if rc \<noteq> 0 then Some (rc, out, w)
            else do {
              x \<leftarrow> w_txns w t;
              let w3 = unat (mt_next_pgno x * of_nat (me_psize (w_env w)));
              let (rc, fsize, w) = mdb_fsize w;
              if rc \<noteq> 0 then Some (rc, out, w)
              else do {
                let wsize = (min w3 fsize + 2 ^ 64 - wsize) mod 2 ^ 64;
                (rc, _, out, w) \<leftarrow> copy_writes (wsize + 1) w MAX_WRITE p wsize out;
                Some (rc, out, w) } } });
       w \<leftarrow> mdb_txn_abort w (Some t);
       Some (rc, out, w) } }"

definition mdb_env_copyfd2 :: "world \<Rightarrow> u32 \<Rightarrow> (int \<times> u8 list \<times> world) option" where
  "mdb_env_copyfd2 w flags = (if any_set flags MDB_CP_COMPACT then mdb_env_copyfd1 w else mdb_env_copyfd0 w)"

definition mdb_env_copyfd :: "world \<Rightarrow> (int \<times> u8 list \<times> world) option" where
  "mdb_env_copyfd w = mdb_env_copyfd2 w 0"

text \<open>To a new file; the contents of the file are part of the result.\<close>

definition mdb_env_copy2 :: "env_io \<Rightarrow> world \<Rightarrow> string \<Rightarrow> u32 \<Rightarrow> (int \<times> u8 list \<times> env_io \<times> world) option" where
  "mdb_env_copy2 io w path flags = do {
     let (rc, fname, w) = mdb_fname_init w path (me_flags (w_env w) OR MDB_NOLOCK);
     let (rc, fd, io, w) = (if rc = MDB_SUCCESS then mdb_fopen io w fname MDB_O_COPY else (rc, None, io, w));
     if rc \<noteq> MDB_SUCCESS then Some (rc, [], io, w)
     else do {
       (rc, out, w) \<leftarrow> mdb_env_copyfd2 w flags;
       let (crc, io, w) = os_call (os_close fd io) w;
       Some (if crc \<noteq> 0 \<and> rc = MDB_SUCCESS then crc else rc, out, io, w) } }"

definition mdb_env_copy :: "env_io \<Rightarrow> world \<Rightarrow> string \<Rightarrow> (int \<times> u8 list \<times> env_io \<times> world) option" where
  "mdb_env_copy io w path = mdb_env_copy2 io w path 0"

end
