(* ===== verification/Env_Open_Spec.thy ===== *)
theory Env_Open_Spec
  imports Env_Open Meta_Spec
begin

text \<open>
  What an environment holds of the system (\<open>holdings\<close>): the descriptors in its fields, its maps and
  its thread key. Opening acquires nothing else, and closing releases all of it.
\<close>

section \<open>\<^verbatim>\<open>LOG2_MOD\<close>\<close>

lemma two_power_mod:
  assumes "2 \<le> n"
  shows "2 ^ k mod (2 ^ n - 1) = (2 ^ (k mod n) :: nat)"
proof (induction k rule: less_induct)
  case (less k)
  have one: "1 < (2::nat) ^ n - 1" using power_increasing [OF assms, of "2::nat"] by simp
  show ?case
  proof (cases "k < n")
    case True
    then have "(2::nat) ^ k \<le> 2 ^ (n - 1)" by (intro power_increasing) auto
    moreover have "(2::nat) ^ n = 2 * 2 ^ (n - 1)" using assms by (cases n) auto
    moreover have "(2::nat) \<le> 2 ^ (n - 1)" using power_increasing [of 1 "n - 1" "2::nat"] assms by simp
    ultimately have "(2::nat) ^ k < 2 ^ n - 1" by linarith
    then show ?thesis using True by simp
  next
    case False
    then have "(2::nat) ^ k = 2 ^ (k - n) * 2 ^ n" by (simp add: power_add [symmetric])
    also have "\<dots> = 2 ^ (k - n) * (2 ^ n - 1) + 2 ^ (k - n)" by (simp add: algebra_simps)
    finally have "(2::nat) ^ k mod (2 ^ n - 1) = 2 ^ (k - n) mod (2 ^ n - 1)" by simp
    moreover have "k - n < k" using False assms by simp
    ultimately show ?thesis using less [of "k - n"] False by (simp add: le_mod_geq)
  qed
qed

lemma LOG2_MOD_eq:
  assumes "0 < n" "n < 8"
  shows "LOG2_MOD (2 ^ k) n = k mod n"
proof (cases "n = 1")
  case False
  then have "2 ^ k mod (2 ^ n - 1) = (2 ^ (k mod n) :: nat)" using assms by (intro two_power_mod) auto
  then have m: "LOG2_MOD (2 ^ k) n = 7 - 86 div (2 ^ (k mod n) + 11)" unfolding LOG2_MOD_def by (rule arg_cong)
  have "k mod n < 7" using mod_less_divisor [OF assms(1), of k] assms(2) by simp
  then have "k mod n \<in> {0, 1, 2, 3, 4, 5, 6}" by auto
  then show ?thesis unfolding m by auto
qed (simp add: LOG2_MOD_def)

section \<open>Holdings\<close>

definition held :: "env_io \<Rightarrow> nat set" where
  "held io = set_option (me_fd io) \<union> set_option (me_lfd io) \<union> set_option (me_mfd io)"

definition holdings :: "env_io \<Rightarrow> env_io \<Rightarrow> world \<Rightarrow> bool" where
  "holdings io0 io w \<longleftrightarrow>
     filter (\<lambda>(n, _). n \<notin> held io) (os_open io) = os_open io0 \<and>
     os_maps io = os_maps io0 + (if me_map io \<noteq> None then 1 else 0) + (if me_txns (w_env w) \<noteq> None then 1 else 0) \<and>
     os_keys io = os_keys io0 + (if any_set (me_flags (w_env w)) MDB_ENV_TXKEY then 1 else 0) \<and>
     (\<forall>(n, _)\<in>set (os_open io). n < os_next io)"

lemma holdings_cong:
  assumes "holdings io0 io w" "me_txns (w_env w') = None \<longleftrightarrow> me_txns (w_env w) = None"
    "any_set (me_flags (w_env w')) MDB_ENV_TXKEY = any_set (me_flags (w_env w)) MDB_ENV_TXKEY"
  shows "holdings io0 io w'"
  using assms by (simp add: holdings_def)

lemma fopenE:
  assumes "mdb_fopen io w fname which = (rc, fd, io', w')"
  obtains (failed) e where "rc \<noteq> 0" "fd = None" "io' = io\<lparr>os_errno := e\<rparr>" "w_env w' = w_env w"
  | (opened) nm where "rc = 0" "fd = Some (os_next io)" "io' = io\<lparr>os_open := (os_next io, nm) # os_open io, os_next := os_next io + 1\<rparr>"
      "w_env w' = w_env w"
  using assms by (cases "w_io w (w_ios w) > 0") (auto simp: mdb_fopen_def os_call_def syscall_def Let_def)

lemma holdings_fopen:
  assumes h: "holdings io0 io w" and run: "mdb_fopen io w fname which = (rc, fd, io', w')"
  shows "me_fd io = None \<Longrightarrow> holdings io0 (io'\<lparr>me_fd := fd\<rparr>) w'"
    and "me_lfd io = None \<Longrightarrow> holdings io0 (io'\<lparr>me_lfd := fd\<rparr>) w'"
    and "me_mfd io = None \<Longrightarrow> holdings io0 (io'\<lparr>me_mfd := fd\<rparr>) w'"
proof -
  have n: "a < os_next io" if "(a, b) \<in> set (os_open io)" for a b using h that by (auto simp: holdings_def)
  have f: "filter (\<lambda>(m, _). m \<noteq> os_next io \<and> m \<notin> A) (os_open io) = filter (\<lambda>(m, _). m \<notin> A) (os_open io)" for A
    by (rule filter_cong) (auto dest: n)
  show "holdings io0 (io'\<lparr>me_fd := fd\<rparr>) w'" if "me_fd io = None"
    using run
  proof (cases rule: fopenE)
    case (failed e)
    then show ?thesis using h that by (simp add: holdings_def held_def)
  next
    case (opened nm)
    then have "held (io'\<lparr>me_fd := fd\<rparr>) = insert (os_next io) (held io)" using that by (auto simp: held_def)
    then show ?thesis using h opened f [of "held io"] by (auto simp: holdings_def less_Suc_eq)
  qed
  show "holdings io0 (io'\<lparr>me_lfd := fd\<rparr>) w'" if "me_lfd io = None"
    using run
  proof (cases rule: fopenE)
    case (failed e)
    then show ?thesis using h that by (simp add: holdings_def held_def)
  next
    case (opened nm)
    then have "held (io'\<lparr>me_lfd := fd\<rparr>) = insert (os_next io) (held io)" using that by (auto simp: held_def)
    then show ?thesis using h opened f [of "held io"] by (auto simp: holdings_def less_Suc_eq)
  qed
  show "holdings io0 (io'\<lparr>me_mfd := fd\<rparr>) w'" if "me_mfd io = None"
    using run
  proof (cases rule: fopenE)
    case (failed e)
    then show ?thesis using h that by (simp add: holdings_def held_def)
  next
    case (opened nm)
    then have "held (io'\<lparr>me_mfd := fd\<rparr>) = insert (os_next io) (held io)" using that by (auto simp: held_def)
    then show ?thesis using h opened f [of "held io"] by (auto simp: holdings_def less_Suc_eq)
  qed
qed

text \<open>Steps that acquire and release nothing.\<close>

definition quiet :: "env_io \<Rightarrow> world \<Rightarrow> env_io \<Rightarrow> world \<Rightarrow> bool" where
  "quiet io w io' w' \<longleftrightarrow> me_fd io' = me_fd io \<and> me_lfd io' = me_lfd io \<and> me_mfd io' = me_mfd io \<and> me_map io' = me_map io \<and>
     os_open io' = os_open io \<and> os_next io' = os_next io \<and> os_maps io' = os_maps io \<and> os_keys io' = os_keys io \<and>
     (me_txns (w_env w') = None \<longleftrightarrow> me_txns (w_env w) = None) \<and> me_flags (w_env w') = me_flags (w_env w) \<and>
     me_close_readers (w_env w') = me_close_readers (w_env w)"

lemma quiet_refl [simp]: "quiet io w io w"
  by (simp add: quiet_def)

lemma quiet_trans: "quiet io w io' w' \<Longrightarrow> quiet io' w' io'' w'' \<Longrightarrow> quiet io w io'' w''"
  by (simp add: quiet_def)

lemma quiet_holdings: "quiet io w io' w' \<Longrightarrow> holdings io0 io w \<Longrightarrow> holdings io0 io' w'"
  by (simp add: quiet_def holdings_def held_def)

lemma quiet_os_call: "os_call io w = (rc, io', w') \<Longrightarrow> quiet io w io' w'"
  by (auto simp: os_call_def syscall_def Let_def quiet_def split: if_splits)

lemma quiet_syscall: "syscall w = (rc, w') \<Longrightarrow> quiet io w io w'"
  by (auto simp: syscall_def quiet_def)

lemma quiet_share: "mdb_env_share_locks io w = (rc, excl', io', w') \<Longrightarrow> quiet io w io' w'"
  using quiet_os_call by (auto simp: mdb_env_share_locks_def split: prod.splits)

lemma quiet_excl: "mdb_env_excl_lock io w excl = (rc, excl', io', w') \<Longrightarrow> quiet io w io' w'"
proof -
  assume run: "mdb_env_excl_lock io w excl = (rc, excl', io', w')"
  obtain rc1 io1 w1 where c1: "os_call io w = (rc1, io1, w1)" by (rule prod_cases3)
  obtain rc2 io2 w2 where c2: "os_call io1 w1 = (rc2, io2, w2)" by (rule prod_cases3)
  have "quiet io w io1 w1" "quiet io w io2 w2" using quiet_os_call [OF c1] quiet_os_call [OF c2] quiet_trans by blast+
  then show ?thesis using run by (auto simp: mdb_env_excl_lock_def c1 c2 split: if_splits)
qed

lemma quiet_size:
  assumes "setup_size io w excl = (rc, io', w')"
  shows "quiet io w io' w'"
proof -
  obtain rc1 io1 w1 where c1: "os_call io w = (rc1, io1, w1)" by (rule prod_cases3)
  obtain rc2 io2 w2 where c2: "os_call io1 w1 = (rc2, io2, w2)" by (rule prod_cases3)
  have q: "quiet io w io1 w1" "quiet io w io2 w2" using quiet_os_call [OF c1] quiet_os_call [OF c2] quiet_trans by blast+
  have "(\<exists>s i. io' = io1\<lparr>lf_size := s, lf_info := i\<rparr> \<and> w' = w1) \<or> (\<exists>f. io' = io1 \<and> w' = upd_env w1 (me_maxreaders_update f)) \<or>
    (\<exists>s i. io' = io2\<lparr>lf_size := s, lf_info := i\<rparr> \<and> w' = w2) \<or> io' = io1 \<and> w' = w1 \<or> io' = io2 \<and> w' = w2"
    using assms unfolding setup_size_def c1 c2 Let_def prod.case by (simp split: if_splits) blast+
  then show ?thesis using q by (elim disjE exE conjE) (simp_all add: quiet_def upd_env_def)
qed

lemma mutex_calls_env: "w_env (snd (mutex_calls n w)) = w_env w"
  by (induction n arbitrary: w) (simp_all add: syscall_def)

lemma quiet_region:
  assumes "setup_region io w excl = (rc, io', w')"
  shows "quiet io w io' w'"
proof -
  obtain rc1 w1 where c: "mutex_calls 5 w = (rc1, w1)" "w_env w1 = w_env w" using mutex_calls_env [of 5 w] by (metis prod.collapse)
  show ?thesis using assms c(2)
    by (simp add: setup_region_def c(1) quiet_def upd_readers_def upd_env_def split: if_splits) auto
qed

lemma holdings_locks:
  assumes h: "holdings io0 io w" and n: "me_lfd io = None" "me_txns (w_env w) = None" "\<not> any_set (me_flags (w_env w)) MDB_ENV_TXKEY"
    and run: "mdb_env_setup_locks io w fname excl = (rc, excl', io', w')"
  shows "holdings io0 io' w' \<and> me_fd io' = me_fd io \<and> me_mfd io' = me_mfd io \<and> me_map io' = me_map io \<and>
    any_set (me_flags (w_env w')) MDB_ENV_ACTIVE = any_set (me_flags (w_env w)) MDB_ENV_ACTIVE \<and>
    me_close_readers (w_env w') = me_close_readers (w_env w)"
proof -
  obtain rc1 fd ioa w1 where f: "mdb_fopen io w fname MDB_O_LOCKS = (rc1, fd, ioa, w1)" by (rule prod_cases4)
  define io1 where "io1 = ioa\<lparr>me_lfd := fd\<rparr>"
  have e1: "w_env w1 = w_env w" "me_fd io1 = me_fd io" "me_mfd io1 = me_mfd io" "me_map io1 = me_map io"
    using f by (cases rule: fopenE; simp add: io1_def)+
  have h1: "holdings io0 io1 w1" using holdings_fopen(2) [OF h f n(1)] by (simp add: io1_def)
  define r2 where "r2 = (if any_set (me_flags (w_env w1)) MDB_NOTLS then (0, io1, w1)
          else (let (rc, w) = syscall w1 in
            if rc \<noteq> 0 then (rc, io1, w)
            else (0, io1\<lparr>os_keys := os_keys io1 + 1\<rparr>, upd_env w (\<lambda>e. e\<lparr>me_flags := me_flags e OR MDB_ENV_TXKEY\<rparr>))))"
  obtain rc2 io2 w2 where r2: "r2 = (rc2, io2, w2)" by (rule prod_cases3)
  have "io2 = io1 \<and> w_env w2 = w_env w1 \<or>
      io2 = io1\<lparr>os_keys := os_keys io1 + 1\<rparr> \<and> w_env w2 = (w_env w1)\<lparr>me_flags := me_flags (w_env w1) OR MDB_ENV_TXKEY\<rparr>"
    using r2 unfolding r2_def by (auto simp: syscall_def Let_def upd_env_def split: if_splits)
  then have h2: "holdings io0 io2 w2 \<and> me_fd io2 = me_fd io \<and> me_mfd io2 = me_mfd io \<and> me_map io2 = me_map io \<and> me_txns (w_env w2) = None \<and>
    any_set (me_flags (w_env w2)) MDB_ENV_ACTIVE = any_set (me_flags (w_env w)) MDB_ENV_ACTIVE \<and>
    me_close_readers (w_env w2) = me_close_readers (w_env w)"
  proof (elim disjE conjE)
    assume "io2 = io1" "w_env w2 = w_env w1"
    then show ?thesis using h1 e1 n(2) by (simp add: holdings_def)
  next
    assume k: "io2 = io1\<lparr>os_keys := os_keys io1 + 1\<rparr>" "w_env w2 = (w_env w1)\<lparr>me_flags := me_flags (w_env w1) OR MDB_ENV_TXKEY\<rparr>"
    have "any_set MDB_ENV_TXKEY MDB_ENV_TXKEY" "\<not> any_set MDB_ENV_TXKEY MDB_ENV_ACTIVE" by (simp_all add: any_set_def)
    then show ?thesis using k h1 e1 n(2,3) by (simp add: holdings_def held_def)
  qed
  obtain rc3 excl3 io3 w3 where c3: "mdb_env_excl_lock io2 w2 excl = (rc3, excl3, io3, w3)" by (rule prod_cases4)
  obtain rc4 io4 w4 where c4: "setup_size io3 w3 excl3 = (rc4, io4, w4)" by (rule prod_cases3)
  obtain rc5 io5 w5 where c5: "os_call io4 w4 = (rc5, io5, w5)" by (rule prod_cases3)
  let ?io = "io5\<lparr>os_maps := os_maps io5 + 1\<rparr>" and ?w = "upd_env w5 (\<lambda>e. e\<lparr>me_txns := Some (lf_info io5)\<rparr>)"
  obtain rc6 io6 w6 where c6: "setup_region ?io ?w excl3 = (rc6, io6, w6)" by (rule prod_cases3)
  have q3: "quiet io2 w2 io3 w3" using quiet_excl [OF c3] .
  have q4: "quiet io2 w2 io4 w4" using quiet_trans [OF q3 quiet_size [OF c4]] .
  have q5: "quiet io2 w2 io5 w5" using quiet_trans [OF q4 quiet_os_call [OF c5]] .
  have "holdings io0 ?io ?w" using quiet_holdings [OF q5, of io0] h2 q5 by (auto simp: holdings_def held_def quiet_def upd_env_def)
  then have h6: "holdings io0 io6 w6" using quiet_holdings [OF quiet_region [OF c6]] by blast
  have f6: "quiet ?io ?w io6 w6" using quiet_region [OF c6] .
  have "mdb_env_setup_locks io w fname excl = (if rc1 \<noteq> 0 then (if rc1 = EROFS \<and> any_set (me_flags (w_env w1)) MDB_RDONLY then MDB_SUCCESS else rc1, excl, io1, w1)
     else if rc2 \<noteq> 0 then (rc2, excl, io2, w2) else if rc3 \<noteq> 0 then (rc3, excl3, io3, w3) else if rc4 \<noteq> 0 then (rc4, excl3, io4, w4)
     else if rc5 \<noteq> 0 then (rc5, excl3, io5, w5) else (rc6, excl3, io6, w6))"
    unfolding mdb_env_setup_locks_def f Let_def prod.case io1_def [symmetric] r2_def [symmetric, unfolded Let_def] r2 c3 c4 c5 c6 by simp
  then have "(io', w') = (io1, w1) \<or> (io', w') = (io2, w2) \<or> (io', w') = (io3, w3) \<or> (io', w') = (io4, w4) \<or> (io', w') = (io5, w5) \<or> (io', w') = (io6, w6)"
    using run by (simp split: if_splits)
  moreover define good where "good x y \<longleftrightarrow> holdings io0 x y \<and> me_fd x = me_fd io \<and> me_mfd x = me_mfd io \<and> me_map x = me_map io \<and>
    any_set (me_flags (w_env y)) MDB_ENV_ACTIVE = any_set (me_flags (w_env w)) MDB_ENV_ACTIVE \<and>
    me_close_readers (w_env y) = me_close_readers (w_env w)" for x y
  have q: "good x y" if "quiet io2 w2 x y" for x y
    using quiet_holdings [OF that, of io0] that h2 by (simp add: quiet_def good_def)
  have "good io1 w1" "good io6 w6" using h1 e1 h6 f6 q5 h2 by (simp_all add: quiet_def upd_env_def good_def)
  then have "good io1 w1 \<and> good io2 w2 \<and> good io3 w3 \<and> good io4 w4 \<and> good io5 w5 \<and> good io6 w6" using q q3 q4 q5 by simp
  ultimately have "good io' w'" by auto
  then show ?thesis by (simp add: good_def)
qed

text \<open>An environment that is being opened; nothing in it tells other processes' readers apart yet.\<close>

definition being_opened :: "env_io \<Rightarrow> env_io \<Rightarrow> world \<Rightarrow> bool" where
  "being_opened io0 io w \<longleftrightarrow> holdings io0 io w \<and> any_set (me_flags (w_env w)) MDB_ENV_ACTIVE \<and> me_close_readers (w_env w) = 0"

lemma holdings_map:
  assumes h: "holdings io0 io w" and n: "me_map io = None" and run: "mdb_env_map io w addr = (rc, io', w')"
  shows "holdings io0 io' w' \<and> me_fd io' = me_fd io \<and> me_mfd io' = me_mfd io \<and> me_lfd io' = me_lfd io \<and> w_env w' = w_env w \<and>
    (rc = 0 \<longrightarrow> me_map io' \<noteq> None)"
proof -
  obtain rc1 io1 w1 where c1: "os_call io w = (rc1, io1, w1)" by (rule prod_cases3)
  have q: "quiet io w io1 w1" "w_env w1 = w_env w" using quiet_os_call [OF c1] c1 by (auto simp: os_call_def syscall_def Let_def split: if_splits)
  define r where "r = (if any_set (me_flags (w_env w)) MDB_WRITEMAP then
             if rc1 \<noteq> 0 then (rc1, io1, w1) else (0, io1, w1\<lparr>w_mem := file_resize (w_mem w1) (me_mapsize (w_env w1))\<rparr>)
           else (0, io, w))"
  obtain rc2 io2 w2 where r: "r = (rc2, io2, w2)" by (rule prod_cases3)
  have q2: "quiet io w io2 w2" "w_env w2 = w_env w" using r q by (auto simp: r_def quiet_def split: if_splits)
  have run': "mdb_env_map io w addr = (if rc2 \<noteq> 0 then (rc2, io2, w2)
        else (let (r, w) = syscall w2 in
          if r > 0 then (r, io2\<lparr>me_map := None, os_errno := r\<rparr>, w)
          else (let a = (if r = 0 then (case addr of Some a \<Rightarrow> a | None \<Rightarrow> 4096) else of_int (- r));
                    io = io2\<lparr>me_map := Some a, os_maps := os_maps io2 + 1\<rparr>
                in if addr \<noteq> None \<and> addr \<noteq> Some a then (EBUSY, io, w) else (MDB_SUCCESS, io, w))))"
    using r unfolding mdb_env_map_def Let_def c1 prod.case r_def by simp
  have h2: "holdings io0 io2 w2" "me_map io2 = None" using quiet_holdings [OF q2(1) h] q2 n by (simp_all add: quiet_def)
  have "(\<exists>e. io' = io2\<lparr>me_map := None, os_errno := e\<rparr> \<and> rc \<noteq> 0) \<or> io' = io2 \<and> rc \<noteq> 0 \<or>
      (\<exists>a. io' = io2\<lparr>me_map := Some a, os_maps := os_maps io2 + 1\<rparr>)" "w_env w' = w_env w2"
    using run unfolding run' by (auto simp: syscall_def Let_def split: if_splits)
  then show ?thesis using h2 q2 by (auto simp: holdings_def held_def quiet_def)
qed

lemma read_header_env: "read_header_loop n w prev off meta = Some (rc, m, w') \<Longrightarrow> w_env w' = w_env w"
proof (induction n arbitrary: w off meta)
  case (Suc n)
  then show ?case
    by (auto simp: read_metabuf_def syscall_def Let_def bind_eq_Some_conv split: if_splits prod.splits)
qed simp

lemma init_meta_env: "mdb_env_init_meta w t = (rc, w') \<Longrightarrow> w_env w' = w_env w"
  by (auto simp: mdb_env_init_meta_def tick_def syscall_def Let_def split: if_splits)

lemma check_metabuf_total: "length bs = PAGEHDRSZ + META_SIZE \<Longrightarrow> \<exists>r. check_metabuf bs = Some r"
  using load_meta_ok [of "(\<lambda>_. None)(Map \<mapsto> bs)" "Ptr Map 16"]
  by (auto simp: check_metabuf_def mp_flags_def ldn_def load_def METADATA_def valid_def padd_def)

lemma read_header_total: "\<exists>r. read_header_loop n w prev off meta = Some r"
proof (induction n arbitrary: w off meta)
  case (Suc n)
  obtain err bs w1 where b: "read_metabuf w off = ((err, bs), w1)" by (metis prod.collapse)
  show ?case
  proof (cases "length bs = PAGEHDRSZ + META_SIZE")
    case True
    then obtain rc t where "check_metabuf bs = Some (rc, t)" using check_metabuf_total by fastforce
    then show ?thesis using b True Suc.IH by auto
  qed (use b in auto)
qed simp

lemma open2_header_total:
  "\<exists>rc ne m w'. open2_header w psize prev = Some (rc, ne, m, w') \<and> me_txns (w_env w') = me_txns (w_env w) \<and>
    me_flags (w_env w') = me_flags (w_env w) \<and> me_close_readers (w_env w') = me_close_readers (w_env w)"
proof -
  obtain i m w1 where r: "mdb_env_read_header w prev (mdb_env_init_meta0 (w_env w)) = Some (i, m, w1)"
    using read_header_total [of NUM_METAS w prev 0 "mdb_env_init_meta0 (w_env w)"] unfolding mdb_env_read_header_def by (metis prod_cases3)
  then have "w_env w1 = w_env w" unfolding mdb_env_read_header_def by (rule read_header_env)
  then show ?thesis by (auto simp: open2_header_def r upd_env_def Let_def)
qed

lemma opened_cong:
  assumes "being_opened io0 io w" "me_txns (w_env w') = me_txns (w_env w)" "me_flags (w_env w') = me_flags (w_env w)"
    "me_close_readers (w_env w') = me_close_readers (w_env w)"
  shows "being_opened io0 io w'"
  using assms by (simp add: being_opened_def holdings_def)

lemma opened_open2:
  assumes o: "being_opened io0 io w" and n: "me_map io = None"
  shows "\<exists>rc io' w'. mdb_env_open2 io w prev ext release = Some (rc, io', w') \<and> being_opened io0 io' w' \<and>
    me_fd io' = me_fd io \<and> me_mfd io' = me_mfd io \<and> (rc = 0 \<longrightarrow> me_map io' \<noteq> None)"
proof -
  define w0 where "w0 = (if ext \<and> fdatasync_broken release then upd_env w (\<lambda>e. e\<lparr>me_flags := me_flags e OR MDB_FSYNCONLY\<rparr>) else w)"
  have o0: "being_opened io0 io w0"
  proof (cases "ext \<and> fdatasync_broken release")
    case True
    have "\<not> any_set MDB_FSYNCONLY MDB_ENV_TXKEY" "\<not> any_set MDB_FSYNCONLY MDB_ENV_ACTIVE" by (simp_all add: any_set_def)
    then show ?thesis using o True by (simp add: w0_def being_opened_def holdings_def upd_env_def)
  qed (use o in \<open>auto simp: w0_def\<close>)
  obtain rc1 ne m w1 where r1: "open2_header w0 (me_os_psize io) prev = Some (rc1, ne, m, w1)"
    and s1: "me_txns (w_env w1) = me_txns (w_env w0)" "me_flags (w_env w1) = me_flags (w_env w0)" "me_close_readers (w_env w1) = me_close_readers (w_env w0)"
    using open2_header_total by blast
  define w2 where "w2 = upd_env w1 (\<lambda>e. e\<lparr>me_mapsize := open2_mapsize (me_mapsize e) m\<rparr>)"
  define t where "t = m\<lparr>mm_mapsize := of_nat (me_mapsize (w_env w2))\<rparr>"
  define fx where "fx = any_set (me_flags (w_env w)) MDB_FIXEDMAP"
  obtain rc3 w3 where r3: "(if ne \<and> \<not> fx then mdb_env_init_meta w2 t else (0, w2)) = (rc3, w3)" by (rule prod.exhaust)
  then have s3: "w_env w3 = w_env w2" using init_meta_env by (auto split: if_splits)
  obtain rc4 io4 w4 where r4: "mdb_env_map io w3 (if fx \<and> mm_address t \<noteq> 0 then Some (mm_address t) else None) = (rc4, io4, w4)" by (rule prod_cases3)
  have o1: "being_opened io0 io w1" by (rule opened_cong [OF o0 s1])
  have o3: "being_opened io0 io w3" using s3 by (intro opened_cong [OF o1]) (simp_all add: w2_def upd_env_def)
  note M = holdings_map [OF _ n r4, of io0]
  have o4: "being_opened io0 io4 w4" "me_fd io4 = me_fd io" "me_mfd io4 = me_mfd io" "rc4 = 0 \<longrightarrow> me_map io4 \<noteq> None"
    using o3 M by (auto simp: being_opened_def)
  have run: "mdb_env_open2 io w prev ext release =
      (if rc1 \<noteq> 0 then Some (rc1, io, w1) else if rc3 \<noteq> 0 then Some (rc3, io, w3) else if rc4 \<noteq> 0 then Some (rc4, io4, w4)
       else do {
         a \<leftarrow> me_map io4;
         let (rc, w) = (if ne \<and> fx then mdb_env_init_meta w4 (t\<lparr>mm_address := a\<rparr>) else (0, w4));
         if rc \<noteq> 0 then Some (rc, io4, w)
         else Some (MDB_SUCCESS, io4, upd_readers (upd_env w open2_limits) (\<lambda>ti. ti\<lparr>mti_txnid := mm_txnid t\<rparr>)) })"
    unfolding mdb_env_open2_def Let_def fx_def [symmetric] w0_def [symmetric] r1 bind.bind_lunit prod.case w2_def [symmetric]
      t_def [symmetric] r3 r4 by (rule refl)
  show ?thesis
  proof (cases "rc1 \<noteq> 0 \<or> rc3 \<noteq> 0 \<or> rc4 \<noteq> 0")
    case True
    then show ?thesis unfolding run using o1 o3 o4 n by (cases "rc1 = 0"; cases "rc3 = 0") simp_all
  next
    case False
    then obtain a where a: "me_map io4 = Some a" using o4(4) by auto
    obtain rc5 w5 where r5: "(if ne \<and> fx then mdb_env_init_meta w4 (t\<lparr>mm_address := a\<rparr>) else (0, w4)) = (rc5, w5)" by (rule prod.exhaust)
    then have s5: "w_env w5 = w_env w4" using init_meta_env by (auto split: if_splits)
    have o5: "being_opened io0 io4 w5" using s5 by (intro opened_cong [OF o4(1)]) simp_all
    have "being_opened io0 io4 (upd_readers (upd_env w5 open2_limits) (\<lambda>ti. ti\<lparr>mti_txnid := mm_txnid t\<rparr>))"
      using o5 by (simp add: being_opened_def holdings_def upd_readers_def upd_env_def open2_limits_def Let_def)
    moreover have "mdb_env_open2 io w prev ext release = (if rc5 \<noteq> 0 then Some (rc5, io4, w5)
        else Some (MDB_SUCCESS, io4, upd_readers (upd_env w5 open2_limits) (\<lambda>ti. ti\<lparr>mti_txnid := mm_txnid t\<rparr>)))"
      using False unfolding run a bind.bind_lunit r5 Let_def prod.case by simp
    ultimately show ?thesis using o4(2,3) o5 a by (cases "rc5 = 0") simp_all
  qed
qed

lemma active_fopen:
  "mdb_fopen io w fname which = (rc, fd, io', w') \<Longrightarrow> w_env w' = w_env w \<and> me_fd io' = me_fd io \<and> me_lfd io' = me_lfd io \<and>
    me_mfd io' = me_mfd io \<and> me_map io' = me_map io \<and> (rc = 0 \<longleftrightarrow> fd \<noteq> None)"
  by (erule fopenE) simp_all

lemma opened_files:
  assumes o: "being_opened io0 io w" and n: "me_fd io = None" "me_lfd io = None" "me_txns (w_env w) = None" "\<not> any_set (me_flags (w_env w)) MDB_ENV_TXKEY"
    and run: "open_files io w fname flags excl = (rc, excl', io', w')"
  shows "being_opened io0 io' w' \<and> me_mfd io' = me_mfd io \<and> me_map io' = me_map io \<and> (rc = 0 \<longrightarrow> me_fd io' \<noteq> None)"
proof -
  define lck where "lck = (\<not> any_set flags (MDB_RDONLY OR MDB_NOLOCK))"
  define ro where "ro = (flags AND (MDB_RDONLY OR MDB_NOLOCK) = MDB_RDONLY)"
  have x: "\<not> (lck \<and> ro)" by (auto simp: lck_def ro_def any_set_def)
  obtain rc1 e1 io1 w1 where r1: "(if lck then
          (let (rc, excl, io, w) = mdb_env_setup_locks io w fname excl in
           (if rc \<noteq> 0 then rc else if any_set flags MDB_PREVSNAPSHOT \<and> excl = 0 then EAGAIN else 0, excl, io, w))
        else (0, excl, io, w)) = (rc1, e1, io1, w1)" by (rule prod_cases4)
  have o1: "being_opened io0 io1 w1 \<and> me_fd io1 = None \<and> me_mfd io1 = me_mfd io \<and> me_map io1 = me_map io \<and> (\<not> lck \<longrightarrow> io1 = io \<and> w1 = w)"
  proof (cases lck)
    case True
    obtain rca ea ioa wa where l: "mdb_env_setup_locks io w fname excl = (rca, ea, ioa, wa)" by (rule prod_cases4)
    have "io1 = ioa" "w1 = wa" using r1 True by (simp_all add: l Let_def)
    moreover have "holdings io0 io w" "any_set (me_flags (w_env w)) MDB_ENV_ACTIVE" "me_close_readers (w_env w) = 0"
      using o by (simp_all add: being_opened_def)
    moreover note holdings_locks [OF this(1) n(2-4) l]
    ultimately show ?thesis using True n(1) by (simp add: being_opened_def)
  qed (use o n r1 in simp)
  obtain rc2 fd ioa w2 where r2: "mdb_fopen io1 w1 fname (if any_set flags MDB_RDONLY then MDB_O_RDONLY else MDB_O_RDWR) = (rc2, fd, ioa, w2)"
    by (rule prod_cases4)
  note A = active_fopen [OF r2]
  define io2 where "io2 = ioa\<lparr>me_fd := fd\<rparr>"
  have o2: "being_opened io0 io2 w2" "me_mfd io2 = me_mfd io" "me_map io2 = me_map io" "me_lfd io2 = me_lfd io1" "rc2 = 0 \<longrightarrow> me_fd io2 \<noteq> None"
    using holdings_fopen(1) [OF _ r2, of io0] o1 A by (simp_all add: being_opened_def io2_def)
  obtain rc3 e3 io3 w3 where r3: "mdb_env_setup_locks io2 w2 fname e1 = (rc3, e3, io3, w3)" by (rule prod_cases4)
  have o3: "being_opened io0 io3 w3 \<and> me_mfd io3 = me_mfd io \<and> me_map io3 = me_map io \<and> me_fd io3 = me_fd io2" if ro
  proof -
    have "io1 = io" "w1 = w" using x that o1 by auto
    then have c: "me_lfd io2 = None" "me_txns (w_env w2) = None" "\<not> any_set (me_flags (w_env w2)) MDB_ENV_TXKEY" using o2(4) n(2-4) A by simp_all
    have "holdings io0 io2 w2" "any_set (me_flags (w_env w2)) MDB_ENV_ACTIVE" "me_close_readers (w_env w2) = 0"
      using o2(1) by (simp_all add: being_opened_def)
    with holdings_locks [OF this(1) c r3] o2(2,3) show ?thesis by (simp add: being_opened_def)
  qed
  have "open_files io w fname flags excl = (if rc1 \<noteq> 0 then (rc1, e1, io1, w1) else if rc2 \<noteq> 0 then (rc2, e1, io2, w2)
      else if ro then (rc3, e3, io3, w3) else (0, e1, io2, w2))"
    unfolding open_files_def lck_def [symmetric] ro_def [symmetric] Let_def r1 [unfolded Let_def] prod.case r2 io2_def [symmetric] r3
    by (rule refl)
  then have "(rc, io', w') = (rc1, io1, w1) \<and> rc \<noteq> 0 \<or> (rc, io', w') = (rc2, io2, w2) \<and> rc \<noteq> 0 \<or> ro \<and> rc2 = 0 \<and> (rc, io', w') = (rc3, io3, w3) \<or>
      rc2 = 0 \<and> (rc, io', w') = (0, io2, w2)"
    using run by (simp split: if_splits)
  then show ?thesis using o1 o2 o3 by (elim disjE conjE) simp_all
qed

lemma opened_alloc:
  assumes "open_alloc io w pth flags = (rc, io', w')"
  shows "(\<exists>x. io' = io\<lparr>me_path := x\<rparr>) \<and> me_flags (w_env w') = flags \<and> me_txns (w_env w') = me_txns (w_env w) \<and>
    me_close_readers (w_env w') = me_close_readers (w_env w)"
proof -
  define r1 where "r1 = (if any_set flags MDB_RDONLY then (0, w)
          else (case mdb_midl_alloc (idl_heap w) MDB_IDL_UM_MAX of
            None \<Rightarrow> (ENOMEM, tick w)
          | Some b \<Rightarrow> (let w = upd_env (tick w) (\<lambda>e. e\<lparr>me_free_pgs := b\<rparr>); ok = (w_malloc w (w_calls w) \<noteq> None); w = tick w in
              if \<not> ok then (ENOMEM, w)
              else (0 :: int, upd_env w (\<lambda>e. e\<lparr>me_dirty_list := replicate MDB_IDL_UM_SIZE \<lparr>mid = 0, mptr = NULL\<rparr>\<rparr>)))))"
  obtain rc1 w1 where r1: "r1 = (rc1, w1)" by (rule prod.exhaust)
  have w1: "me_txns (w_env w1) = me_txns (w_env w) \<and> me_close_readers (w_env w1) = me_close_readers (w_env w)"
    using r1 by (auto simp: r1_def Let_def tick_def upd_env_def split: if_splits option.splits)
  show ?thesis using assms w1 unfolding open_alloc_def r1_def [symmetric] r1 prod.case
    by (simp add: Let_def upd_env_def split: if_splits) (auto intro: exI [of _ "me_path io"])
qed

lemma opened_txn0:
  assumes "open_txn0 w = (rc, w')"
  shows "me_txns (w_env w') = me_txns (w_env w) \<and> me_flags (w_env w') = me_flags (w_env w) \<and>
    me_close_readers (w_env w') = me_close_readers (w_env w)"
  using assms
  by (auto simp: open_txn0_def w_alloc_def tick_def upd_env_def Let_def split: if_splits option.splits)

lemma opened_finish:
  assumes o: "being_opened io0 io w" and n: "me_map io = None" "me_mfd io = None"
  shows "\<exists>rc io' w'. open_finish io w fname flags excl ext release = Some (rc, io', w') \<and> being_opened io0 io' w' \<and>
    me_fd io' = me_fd io \<and> (rc = 0 \<longrightarrow> me_map io' \<noteq> None)"
proof -
  obtain rc1 io1 w1 where r1: "mdb_env_open2 io w (any_set flags MDB_PREVSNAPSHOT) ext release = Some (rc1, io1, w1)"
    and o1: "being_opened io0 io1 w1" "me_fd io1 = me_fd io" "me_mfd io1 = None" "rc1 = 0 \<longrightarrow> me_map io1 \<noteq> None"
    using opened_open2 [OF o n(1), of "any_set flags MDB_PREVSNAPSHOT" ext release] n(2) by auto
  define r2 where "r2 = (if \<not> any_set flags (MDB_RDONLY OR MDB_WRITEMAP) then
            (let (rc, fd, io, w) = mdb_fopen io1 w1 fname MDB_O_META in (rc, io\<lparr>me_mfd := fd\<rparr>, w))
          else (0, io1, w1))"
  obtain rc2 io2 w2 where r2: "r2 = (rc2, io2, w2)" by (rule prod_cases3)
  have o2: "being_opened io0 io2 w2 \<and> me_fd io2 = me_fd io \<and> me_map io2 = me_map io1"
  proof (cases "any_set flags (MDB_RDONLY OR MDB_WRITEMAP)")
    case True
    then show ?thesis using r2 o1 by (simp add: r2_def)
  next
    case False
    obtain rca fd ioa wa where f: "mdb_fopen io1 w1 fname MDB_O_META = (rca, fd, ioa, wa)" by (rule prod_cases4)
    then have "io2 = ioa\<lparr>me_mfd := fd\<rparr>" "w2 = wa" using r2 False by (simp_all add: r2_def f)
    then show ?thesis using holdings_fopen(3) [OF _ f o1(3), of io0] active_fopen [OF f] o1 by (simp add: being_opened_def)
  qed
  define r3 where "r3 = (if excl > 0 \<and> \<not> any_set flags MDB_PREVSNAPSHOT then
              (let (rc, _, io, w) = mdb_env_share_locks io2 w2 in (rc, io, w))
            else (0, io2, w2))"
  obtain rc3 io3 w3 where r3: "r3 = (rc3, io3, w3)" by (rule prod_cases3)
  have "quiet io2 w2 io3 w3"
  proof (cases "excl > 0 \<and> \<not> any_set flags MDB_PREVSNAPSHOT")
    case True
    obtain rca e ioa wa where f: "mdb_env_share_locks io2 w2 = (rca, e, ioa, wa)" by (rule prod_cases4)
    then show ?thesis using r3 True quiet_share [OF f] by (simp add: r3_def f)
  qed (use r3 in \<open>auto simp: r3_def\<close>)
  then have o3: "being_opened io0 io3 w3 \<and> me_fd io3 = me_fd io \<and> me_map io3 = me_map io1"
    using o2 quiet_holdings [of io2 w2 io3 w3 io0] by (simp add: being_opened_def quiet_def)
  define r4 where "r4 = (if \<not> any_set flags MDB_RDONLY then open_txn0 w3 else (0, w3))"
  obtain rc4 w4 where r4: "r4 = (rc4, w4)" by (rule prod.exhaust)
  then have "me_txns (w_env w4) = me_txns (w_env w3) \<and> me_flags (w_env w4) = me_flags (w_env w3) \<and>
    me_close_readers (w_env w4) = me_close_readers (w_env w3)" using opened_txn0 by (auto simp: r4_def split: if_splits)
  then have o4: "being_opened io0 io3 w4" using o3 opened_cong by blast
  have "open_finish io w fname flags excl ext release = (if rc1 \<noteq> 0 then Some (rc1, io1, w1) else if rc2 \<noteq> 0 then Some (rc2, io2, w2)
      else if rc3 \<noteq> 0 then Some (rc3, io3, w3) else Some (rc4, io3, w4))"
    unfolding open_finish_def r1 bind.bind_lunit Let_def prod.case r2 [unfolded r2_def Let_def] r3 [unfolded r3_def Let_def] r4 [unfolded r4_def]
    by (rule refl)
  then show ?thesis using o1 o2 o3 o4 by auto
qed

text \<open>Closing releases what is held; a second close does nothing.\<close>

definition released :: "env_io \<Rightarrow> env_io \<Rightarrow> bool" where
  "released io0 io \<longleftrightarrow> os_open io = os_open io0 \<and> os_maps io = os_maps io0 \<and> os_keys io = os_keys io0"

lemma os_close_open: "os_open (os_close fd io) = filter (\<lambda>(n, _). n \<notin> set_option fd) (os_open io)"
  by (cases fd) (simp_all add: os_close_def case_prod_unfold)

lemma os_close_fields [simp]: "os_maps (os_close fd io) = os_maps io" "os_keys (os_close fd io) = os_keys io"
  "me_fd (os_close fd io) = me_fd io" "me_lfd (os_close fd io) = me_lfd io" "me_mfd (os_close fd io) = me_mfd io"
  by (cases fd; simp add: os_close_def)+

lemma free_names_env [simp]:
  "w_env (fold (\<lambda>d w. if mv_data (md_name d) = NULL then w else w_free w (mv_data (md_name d))) ds x) = w_env x"
  by (induction ds arbitrary: x) (simp_all add: w_free_def)

lemma close_memory_env:
  "\<exists>w'. close_memory w = Some w' \<and> me_txns (w_env w') = me_txns (w_env w) \<and> me_flags (w_env w') = me_flags (w_env w) \<and>
    me_close_readers (w_env w') = me_close_readers (w_env w)"
  by (simp add: close_memory_def Let_def upd_env_def split: option.splits) (simp add: w_free_def)

lemma clear_pid_total: "j + n \<le> length mr \<Longrightarrow> \<exists>r. clear_pid mr pid n j cnt = Some r"
proof (induction n arbitrary: mr j cnt)
  case (Suc n)
  then show ?case by (auto simp: rd_def wr_def)
qed simp

lemma close_readers_total:
  assumes "\<And>ti. me_txns (w_env w) = Some ti \<Longrightarrow> me_close_readers (w_env w) \<le> length (mti_readers ti)"
  shows "\<exists>io' w' lf. close_readers io w pid = Some (io', w') \<and>
    io' = io\<lparr>lf_info := lf, os_maps := os_maps io - (if me_txns (w_env w) \<noteq> None then 1 else 0)\<rparr> \<and>
    me_txns (w_env w') = None \<and> me_flags (w_env w') = me_flags (w_env w)"
proof (cases "me_txns (w_env w)")
  case None
  then show ?thesis by (auto simp: close_readers_def intro: exI [of _ "lf_info io"])
next
  case (Some ti)
  then obtain rs c where "clear_pid (mti_readers ti) pid (me_close_readers (w_env w)) 0 0 = Some (rs, c)"
    using clear_pid_total [of 0 "me_close_readers (w_env w)" "mti_readers ti" pid 0] assms by fastforce
  then show ?thesis using Some by (auto simp: close_readers_def upd_env_def)
qed

lemma close0_releases:
  assumes h: "holdings io0 io w" and a: "any_set (me_flags (w_env w)) MDB_ENV_ACTIVE"
    and c: "\<And>ti. me_txns (w_env w) = Some ti \<Longrightarrow> me_close_readers (w_env w) \<le> length (mti_readers ti)"
  shows "\<exists>io' w'. mdb_env_close0 io w pid = Some (io', w') \<and> released io0 io' \<and>
    \<not> any_set (me_flags (w_env w')) MDB_ENV_ACTIVE \<and> me_txns (w_env w') = None"
proof -
  obtain w1 where w1: "close_memory w = Some w1" and e1: "me_txns (w_env w1) = me_txns (w_env w)" "me_flags (w_env w1) = me_flags (w_env w)"
    "me_close_readers (w_env w1) = me_close_readers (w_env w)"
    using close_memory_env by blast
  define io1 where "io1 = (if any_set (me_flags (w_env w1)) MDB_ENV_TXKEY then io\<lparr>os_keys := os_keys io - 1\<rparr> else io)"
  define io2 where "io2 = (if me_map io1 \<noteq> None then io1\<lparr>os_maps := os_maps io1 - 1\<rparr> else io1)"
  define io3 where "io3 = os_close (me_mfd io2) io2"
  define io4 where "io4 = os_close (me_fd io3) io3"
  obtain io5 w2 lf where r: "close_readers io4 w1 pid = Some (io5, w2)"
    and io5: "io5 = io4\<lparr>lf_info := lf, os_maps := os_maps io4 - (if me_txns (w_env w1) \<noteq> None then 1 else 0)\<rparr>"
    and w2: "me_txns (w_env w2) = None" "me_flags (w_env w2) = me_flags (w_env w1)"
    using close_readers_total [of w1 io4 pid] c e1 by auto
  let ?io = "os_close (me_lfd io5) io5" and ?w = "upd_env w2 (\<lambda>e. e\<lparr>me_flags := clear (me_flags e) (MDB_ENV_ACTIVE OR MDB_ENV_TXKEY)\<rparr>)"
  have run: "mdb_env_close0 io w pid = Some (?io, ?w)"
    unfolding mdb_env_close0_def w1 bind.bind_lunit Let_def io1_def [symmetric] io2_def [symmetric] io3_def [symmetric] io4_def [symmetric]
      r prod.case using a by simp
  have f: "me_fd io2 = me_fd io" "me_lfd io2 = me_lfd io" "me_mfd io2 = me_mfd io" "os_open io2 = os_open io"
    by (simp_all add: io2_def io1_def)
  have "filter (\<lambda>(n, _). n \<notin> held io) (os_open io) = os_open io0" using h by (simp add: holdings_def)
  then have "os_open ?io = os_open io0"
    by (simp add: io5 os_close_open io4_def io3_def f held_def case_prod_unfold) (metis (no_types, lifting) filter_cong)
  moreover have "os_maps ?io = os_maps io0" "os_keys ?io = os_keys io0"
    using h e1 by (simp_all add: io5 io4_def io3_def io2_def io1_def holdings_def)
  moreover have "\<not> any_set (clear x (MDB_ENV_ACTIVE OR MDB_ENV_TXKEY)) MDB_ENV_ACTIVE" for x :: u32
    by (simp add: any_set_def clear_def and.assoc)
  ultimately show ?thesis unfolding run using w2 by (simp add: released_def upd_env_def)
qed

section \<open>Opening\<close>

definition fresh_env :: "env_io \<Rightarrow> world \<Rightarrow> bool" where
  "fresh_env io w \<longleftrightarrow> me_fd io = None \<and> me_lfd io = None \<and> me_mfd io = None \<and> me_map io = None \<and> me_txns (w_env w) = None \<and>
     \<not> any_set (me_flags (w_env w)) MDB_ENV_ACTIVE \<and> \<not> any_set (me_flags (w_env w)) MDB_ENV_TXKEY \<and>
     me_close_readers (w_env w) = 0 \<and> (\<forall>(n, _)\<in>set (os_open io). n < os_next io)"

lemma create_fresh:
  assumes "mdb_env_create pid psize io w = (0, io', w')" "\<forall>(n, _)\<in>set (os_open io). n < os_next io"
  shows "fresh_env io' w' \<and> released io io'"
  using assms by (auto simp: mdb_env_create_def fresh_env_def released_def zero_env_def any_set_def Let_def split: if_splits)

lemma open_flags:
  assumes "clear flags (CHANGEABLE OR CHANGELESS) = 0" "\<not> any_set f MDB_ENV_TXKEY"
  shows "\<not> any_set (flags OR f OR MDB_ENV_ACTIVE) MDB_ENV_TXKEY"
    and "\<not> any_set (clear (flags OR f OR MDB_ENV_ACTIVE) MDB_WRITEMAP) MDB_ENV_TXKEY"
    and "any_set (flags OR f OR MDB_ENV_ACTIVE) MDB_ENV_ACTIVE"
    and "any_set (clear (flags OR f OR MDB_ENV_ACTIVE) MDB_WRITEMAP) MDB_ENV_ACTIVE"
proof -
  have d: "x AND y = (x AND NOT z) AND y OR x AND (z AND y)" for x y z :: u32
    by (rule bit_word_eqI) (auto simp: bit_simps)
  have "flags AND MDB_ENV_TXKEY = (flags AND NOT (CHANGEABLE OR CHANGELESS)) AND MDB_ENV_TXKEY OR flags AND ((CHANGEABLE OR CHANGELESS) AND MDB_ENV_TXKEY)"
    by (rule d)
  then have "flags AND MDB_ENV_TXKEY = 0" using assms(1) by (simp add: clear_def)
  then show t: "\<not> any_set (flags OR f OR MDB_ENV_ACTIVE) MDB_ENV_TXKEY" using assms(2)
    by (simp add: any_set_def bit.conj_disj_distrib2)
  show "\<not> any_set (clear (flags OR f OR MDB_ENV_ACTIVE) MDB_WRITEMAP) MDB_ENV_TXKEY"
    using t by (simp add: any_set_def clear_def and.assoc)
  have "(x OR MDB_ENV_ACTIVE) AND MDB_ENV_ACTIVE = MDB_ENV_ACTIVE" for x :: u32 by (rule bit_word_eqI) (auto simp: bit_simps)
  then show a: "any_set (flags OR f OR MDB_ENV_ACTIVE) MDB_ENV_ACTIVE" by (simp add: any_set_def or.assoc [symmetric])
  then show "any_set (clear (flags OR f OR MDB_ENV_ACTIVE) MDB_WRITEMAP) MDB_ENV_ACTIVE"
    by (simp add: any_set_def clear_def and.assoc)
qed

text \<open>Everything from the allocations on, before a failure closes what was opened.\<close>

lemma opened_body:
  assumes f: "fresh_env io w" and fl: "\<not> any_set flags MDB_ENV_TXKEY" "any_set flags MDB_ENV_ACTIVE"
    and r: "open_alloc io w pth flags = (rc1, io1, w1)"
  shows "\<exists>rc io' w'. (if rc1 \<noteq> 0 then Some (rc1, io1, w1)
             else do {
               let (rc, excl, io, w) = open_files io1 w1 fname flags (- 1);
               if rc \<noteq> 0 then Some (rc, io, w) else open_finish io w fname flags excl ext release }) = Some (rc, io', w') \<and>
    being_opened io io' w' \<and> (rc = 0 \<longrightarrow> me_fd io' \<noteq> None \<and> me_map io' \<noteq> None)"
proof -
  have io1: "\<exists>x. io1 = io\<lparr>me_path := x\<rparr>" and e1: "me_flags (w_env w1) = flags" "me_txns (w_env w1) = None" "me_close_readers (w_env w1) = 0"
    using opened_alloc [OF r] f by (simp_all add: fresh_env_def)
  have n: "me_fd io1 = None" "me_lfd io1 = None" "me_mfd io1 = None" "me_map io1 = None"
    using io1 f by (auto simp: fresh_env_def)
  have o1: "being_opened io io1 w1"
    using io1 e1 f fl by (auto simp: being_opened_def holdings_def held_def fresh_env_def)
  obtain rc2 excl io2 w2 where r2: "open_files io1 w1 fname flags (- 1) = (rc2, excl, io2, w2)" by (rule prod_cases4)
  note o2 = opened_files [OF o1 n(1,2) e1(2) _ r2]
  have o2: "being_opened io io2 w2" "me_mfd io2 = None" "me_map io2 = None" "rc2 = 0 \<longrightarrow> me_fd io2 \<noteq> None"
    using o2 e1 fl n by simp_all
  show ?thesis
    using opened_finish [OF o2(1,3,2), of fname flags excl ext release] o1 o2 r2 by (cases "rc1 = 0"; cases "rc2 = 0") (auto simp: r2)
qed

theorem env_open_holds:
  assumes f: "fresh_env io w"
  shows "\<exists>rc io' w'. mdb_env_open io w pth flags pid ext release = Some (rc, io', w') \<and>
    (if rc = 0 then being_opened io io' w' \<and> me_fd io' \<noteq> None \<and> me_map io' \<noteq> None
     else released io io' \<and> \<not> any_set (me_flags (w_env w')) MDB_ENV_ACTIVE \<and> me_txns (w_env w') = None)"
proof (cases "clear flags (CHANGEABLE OR CHANGELESS) = 0")
  case False
  then show ?thesis using f by (simp add: mdb_env_open_def released_def fresh_env_def)
next
  case True
  obtain rc0 fname w0 where r0: "mdb_fname_init w pth (flags OR me_flags (w_env w)) = (rc0, fname, w0)" by (rule prod_cases3)
  then have e0: "w_env w0 = w_env w" by (auto simp: mdb_fname_init_def tick_def split: if_splits)
  have f0: "fresh_env io w0" using f e0 by (simp add: fresh_env_def)
  define g where "g = flags OR me_flags (w_env w) OR MDB_ENV_ACTIVE"
  define h where "h = (if any_set g MDB_RDONLY then clear g MDB_WRITEMAP else g)"
  have h: "\<not> any_set h MDB_ENV_TXKEY" "any_set h MDB_ENV_ACTIVE"
    using open_flags [OF True, of "me_flags (w_env w)"] f by (simp_all add: h_def g_def fresh_env_def)
  obtain rc1 io1 w1 where r1: "open_alloc io w0 pth h = (rc1, io1, w1)" by (rule prod_cases3)
  obtain rc io2 w2 where r2: "(if rc1 \<noteq> 0 then Some (rc1, io1, w1)
             else do {
               let (rc, excl, io, w) = open_files io1 w1 fname h (- 1);
               if rc \<noteq> 0 then Some (rc, io, w) else open_finish io w fname h excl ext release }) = Some (rc, io2, w2)"
    and o: "being_opened io io2 w2" "rc = 0 \<longrightarrow> me_fd io2 \<noteq> None \<and> me_map io2 \<noteq> None"
    using opened_body [OF f0 h r1, of fname ext release] by blast
  obtain io3 w3 where c: "mdb_env_close0 io2 w2 pid = Some (io3, w3)" "released io io3"
    "\<not> any_set (me_flags (w_env w3)) MDB_ENV_ACTIVE" "me_txns (w_env w3) = None"
    using close0_releases [of io io2 w2 pid] o(1) by (auto simp: being_opened_def)
  have run: "mdb_env_open io w pth flags pid ext release = (if rc0 \<noteq> 0 then Some (rc0, io, w0)
      else if rc \<noteq> 0 then Some (rc, io3, w3) else Some (MDB_SUCCESS, io2, w2))"
    using True f unfolding mdb_env_open_def Let_def r0 prod.case g_def [symmetric, folded or.assoc] h_def [symmetric] r1 r2 [unfolded Let_def] bind.bind_lunit c
    by (simp add: fresh_env_def)
  show ?thesis
  proof (cases "rc0 = 0")
    case False
    then show ?thesis unfolding run using f0 by (simp add: released_def fresh_env_def)
  next
    case t: True
    then show ?thesis unfolding run using o c by (cases "rc = 0") simp_all
  qed
qed

theorem env_close_releases:
  assumes "being_opened io0 io w"
  shows "\<exists>io' w'. mdb_env_close io w pid = Some (io', w') \<and> released io0 io' \<and> w_env w' = zero_env"
proof -
  have e: "w_env (fold (\<lambda>p w. w_free w p) ps x) = w_env x" for ps x by (induction ps arbitrary: x) (simp_all add: w_free_def)
  define w1 where "w1 = upd_env (fold (\<lambda>p w. w_free w p) (me_dpages (w_env w)) w) (\<lambda>e. e\<lparr>me_dpages := []\<rparr>)"
  have o: "being_opened io0 io w1" using e by (intro opened_cong [OF assms]) (simp_all add: w1_def upd_env_def)
  obtain io' w' where "mdb_env_close0 io w1 pid = Some (io', w')" "released io0 io'"
    using close0_releases [of io0 io w1 pid] o by (auto simp: being_opened_def)
  then show ?thesis by (simp add: mdb_env_close_def w1_def [symmetric])
qed

end
