(* ===== verification/Decimal.thy ===== *)
theory Decimal
  imports Main
begin

text \<open>Numbers as text: \<^verbatim>\<open>std::to_string\<close> and the conversions \<^verbatim>\<open>%d\<close>, \<^verbatim>\<open>%u\<close>, \<^verbatim>\<open>%x\<close> of \<^verbatim>\<open>sprintf\<close>.\<close>

fun to_string :: "nat \<Rightarrow> string" where
  "to_string n = (if n < 10 then [char_of (48 + n)] else to_string (n div 10) @ [char_of (48 + n mod 10)])"

declare to_string.simps [simp del]

definition int_to_string :: "int \<Rightarrow> string" where
  "int_to_string i = (if i < 0 then ''-'' @ to_string (nat (- i)) else to_string (nat i))"

fun to_hex :: "nat \<Rightarrow> string" where
  "to_hex n = (if n < 16 then [''0123456789abcdef'' ! n] else to_hex (n div 16) @ [''0123456789abcdef'' ! (n mod 16)])"

declare to_hex.simps [simp del]

text \<open>A field of at least \<open>n\<close> characters\<close>

definition padded :: "nat \<Rightarrow> string \<Rightarrow> string" where
  "padded n s = replicate (n - length s) CHR '' '' @ s"

lemma to_string_not_empty [simp]: "to_string n \<noteq> []"
  by (subst to_string.simps) simp

lemma empty_not_to_string [simp]: "[] \<noteq> to_string n"
  using to_string_not_empty by metis

lemma int_to_string_not_empty [simp]: "int_to_string i \<noteq> []"
  by (simp add: int_to_string_def)

lemma of_char_digit: "n < 10 \<Longrightarrow> (of_char (char_of (48 + n)) :: nat) = 48 + n"
  by simp

lemma to_string_inj: "to_string a = to_string b \<Longrightarrow> a = b"
proof (induction a arbitrary: b rule: less_induct)
  case (less a)
  have last: "last (to_string n) = char_of (48 + n mod 10)" for n by (subst to_string.simps) simp
  have front: "butlast (to_string n) = (if n < 10 then [] else to_string (n div 10))" for n by (subst to_string.simps) simp
  have "(of_char (last (to_string n)) :: nat) = 48 + n mod 10" for n unfolding last by (rule of_char_digit) simp
  then have m: "a mod 10 = b mod 10" using less.prems by (metis add_left_cancel)
  have f: "(if a < 10 then [] else to_string (a div 10)) = (if b < 10 then [] else to_string (b div 10))"
    using less.prems front by metis
  show ?case
  proof (cases "a < 10")
    case True
    then have "b < 10" using f by (auto split: if_splits)
    then show ?thesis using True m by simp
  next
    case False
    then have b: "\<not> b < 10" "to_string (a div 10) = to_string (b div 10)" using f by (auto split: if_splits)
    have "a div 10 = b div 10" using less.IH [OF _ b(2)] False by simp
    then show ?thesis using m by (metis div_mult_mod_eq)
  qed
qed

lemma digits: "c \<in> set (to_string n) \<Longrightarrow> \<exists>d<(10::nat). c = char_of (48 + d)"
proof (induction n rule: less_induct)
  case (less n)
  show ?case
  proof (cases "n < 10")
    case True
    then show ?thesis using less.prems by (subst (asm) to_string.simps) auto
  next
    case False
    then have "to_string n = to_string (n div 10) @ [char_of (48 + n mod 10)]" by (subst to_string.simps) simp
    then have "c \<in> set (to_string (n div 10)) \<or> c = char_of (48 + n mod 10)" using less.prems by auto
    then show ?thesis using less.IH [of "n div 10"] False by (auto intro: exI [of _ "n mod 10"])
  qed
qed

lemma int_to_string_inj: "int_to_string a = int_to_string b \<Longrightarrow> a = b"
proof -
  assume e: "int_to_string a = int_to_string b"
  have m: "CHR ''-'' \<notin> set (to_string n)" for n
  proof
    assume "CHR ''-'' \<in> set (to_string n)"
    then obtain d where "d < 10" "CHR ''-'' = char_of (48 + d :: nat)" using digits by blast
    then have "(of_char (CHR ''-'') :: nat) = 48 + d" using of_char_digit by metis
    then show False by simp
  qed
  have "a < 0 \<longleftrightarrow> b < 0" using e m by (auto simp: int_to_string_def split: if_splits) (metis list.set_intros(1))+
  then show ?thesis using e by (auto simp: int_to_string_def dest!: to_string_inj split: if_splits)
qed

end
