(* ===== verification/Reader_List.thy ===== *)
theory Reader_List
  imports Readers Decimal
begin

text \<open>
  \<^verbatim>\<open>mdb_reader_list\<close> (\<^verbatim>\<open>lmdb/mdb.c\<close>): the texts it gives to the caller's function \<open>func\<close>, which
  takes a text and a state of its own, and what it returns.
\<close>

type_synonym 'c msg_func = "string \<Rightarrow> 'c \<Rightarrow> int \<times> 'c"

text \<open>The pid is printed as an \<^verbatim>\<open>int\<close>.\<close>

definition reader_line :: "MDB_reader \<Rightarrow> string" where
  "reader_line r = padded 10 (int_to_string (sint (of_nat (mr_pid r) :: u32))) @ '' '' @ to_hex (mr_tid r) @ '' '' @
     (if mr_txnid r = - 1 then ''-'' else to_string (unat (mr_txnid r))) @ [CHR 0x0A]"

abbreviation (input) list_header :: string where "list_header \<equiv> ''    pid     thread     txnid'' @ [CHR 0x0A]"
abbreviation (input) list_none :: string where "list_none \<equiv> ''(no active readers)'' @ [CHR 0x0A]"

text \<open>The slots from \<open>i\<close> on; \<open>first\<close> says that nothing has been listed yet.\<close>

fun reader_list_loop :: "'c msg_func \<Rightarrow> MDB_reader list \<Rightarrow> nat \<Rightarrow> nat \<Rightarrow> int \<Rightarrow> bool \<Rightarrow> 'c \<Rightarrow> (int \<times> bool \<times> 'c) option" where
  "reader_list_loop func mr 0 i rc first ctx = Some (rc, first, ctx)"
| "reader_list_loop func mr (Suc n) i rc first ctx = do {
     r \<leftarrow> rd mr i;
     if mr_pid r = 0 then reader_list_loop func mr n (i + 1) rc first ctx
     else (let (rc, ctx) = (if first then func list_header ctx else (rc, ctx)) in
       if first \<and> rc < 0 then Some (rc, False, ctx)
       else (let (rc, ctx) = func (reader_line r) ctx in
         if rc < 0 then Some (rc, False, ctx) else reader_list_loop func mr n (i + 1) rc False ctx)) }"

definition mdb_reader_list :: "world \<Rightarrow> 'c msg_func \<Rightarrow> 'c \<Rightarrow> (int \<times> 'c) option" where
  "mdb_reader_list w func ctx = (case me_txns (w_env w) of
     None \<Rightarrow> Some (func (''(no reader locks)'' @ [CHR 0x0A]) ctx)
   | Some ti \<Rightarrow> do {
       (rc, first, ctx) \<leftarrow> reader_list_loop func (mti_readers ti) (mti_numreaders ti) 0 0 True ctx;
       Some (if first then func list_none ctx else (rc, ctx)) })"

section \<open>What is listed\<close>

text \<open>With a function that accepts every text: the header and a line per reader, or that there is none.\<close>

definition collect :: "string list msg_func" where
  "collect s ss = (0, ss @ [s])"

lemma reader_list_loop_collect:
  assumes "i + n \<le> length mr"
  shows "\<exists>fst. reader_list_loop collect mr n i 0 first ss = Some (0, fst, ss @
      (let ls = map reader_line (filter (\<lambda>r. mr_pid r \<noteq> 0) (take n (drop i mr))) in if first \<and> ls \<noteq> [] then list_header # ls else ls)) \<and>
    (fst \<longleftrightarrow> first \<and> (\<forall>r\<in>set (take n (drop i mr)). mr_pid r = 0))"
  using assms
proof (induction n arbitrary: i first ss)
  case (Suc n)
  have i: "i < length mr" "Suc i + n \<le> length mr" using Suc.prems by simp_all
  have d: "take (Suc n) (drop i mr) = mr ! i # take n (drop (Suc i) mr)" using i(1) by (simp add: Cons_nth_drop_Suc [symmetric])
  show ?case
  proof (cases "mr_pid (mr ! i) = 0")
    case True
    then show ?thesis using Suc.IH [OF i(2), of first ss] i(1) d by (simp add: rd_def Let_def)
  next
    case False
    then show ?thesis using Suc.IH [OF i(2), of False "(if first then ss @ [list_header] else ss) @ [reader_line (mr ! i)]"] i(1) d
      by (cases first) (simp_all add: rd_def Let_def collect_def)
  qed
qed simp

lemma reader_list_lists:
  assumes "me_txns (w_env w) = Some ti" "mti_numreaders ti \<le> length (mti_readers ti)"
  shows "mdb_reader_list w collect [] = Some (0,
    (let ls = map reader_line (filter (\<lambda>r. mr_pid r \<noteq> 0) (take (mti_numreaders ti) (mti_readers ti))) in
     if ls = [] then [list_none] else list_header # ls))"
proof -
  let ?rs = "take (mti_numreaders ti) (mti_readers ti)"
  have e: "filter (\<lambda>r. mr_pid r \<noteq> 0) ?rs = [] \<longleftrightarrow> (\<forall>r\<in>set ?rs. mr_pid r = 0)" by (auto simp: filter_empty_conv)
  show ?thesis
    using reader_list_loop_collect [of 0 "mti_numreaders ti" "mti_readers ti" True "[]"] assms e
    by (auto simp: mdb_reader_list_def Let_def collect_def)
qed

end
