(* ===== verification/Shard.thy ===== *)
theory Shard
  imports Prelude Decimal
begin

unbundle bit_operations_syntax

text \<open>
  The stores over LevelDB and RocksDB (\<^verbatim>\<open>src/ledger/level_db.cpp\<close>, \<^verbatim>\<open>rocks_db.cpp\<close>), which
  spread the keys over 16 databases by a hash. The two libraries are not in the repository: what
  the code calls of a library is the record \<open>kv_lib\<close>, over a type \<open>'s\<close> for everything the library
  keeps, \<open>'d\<close> for an open database and \<open>'b\<close> for a batch of writes. A status is whether it is ok.
\<close>

section \<open>Library\<close>

record ('s, 'd, 'b) kv_lib =
  lib_open :: "'s \<Rightarrow> string \<Rightarrow> bool \<times> 'd \<times> 's"
  lib_close :: "'s \<Rightarrow> 'd \<Rightarrow> 's"
  lib_get :: "'s \<Rightarrow> 'd \<Rightarrow> string \<Rightarrow> bool \<times> string option"
  lib_put :: "'s \<Rightarrow> 'd \<Rightarrow> string \<Rightarrow> string \<Rightarrow> bool \<times> 's"
  lib_delete :: "'s \<Rightarrow> 'd \<Rightarrow> string \<Rightarrow> bool \<times> 's"
  lib_write :: "'s \<Rightarrow> 'd \<Rightarrow> 'b \<Rightarrow> bool \<times> 's"
  batch_new :: 'b
  batch_put :: "'b \<Rightarrow> string \<Rightarrow> string \<Rightarrow> 'b"
  batch_delete :: "'b \<Rightarrow> string \<Rightarrow> 'b"
  batch_clear :: "'b \<Rightarrow> 'b"

section \<open>LevelDB\<close>

record ('d, 'b) shard_db =
  sd_db :: 'd
  sd_status :: bool
  sd_batch :: 'b

text \<open>\<^verbatim>\<open>_shardBits\<close> is 4 and is never assigned.\<close>

record ('d, 'b) LevelDB =
  ldb_name :: string
  ldb_dbs :: "('d, 'b) shard_db list"

abbreviation (input) shardBits :: nat where "shardBits \<equiv> 4"

subsection \<open>The hash\<close>

definition decodeFixed32 :: "char \<Rightarrow> char \<Rightarrow> char \<Rightarrow> char \<Rightarrow> u32" where
  "decodeFixed32 a b c d = of_char a OR push_bit 8 (of_char b) OR push_bit 16 (of_char c) OR push_bit 24 (of_char d)"

abbreviation (input) hash_m :: u32 where "hash_m \<equiv> 0xc6a4a793"
abbreviation (input) hash_r :: nat where "hash_r \<equiv> 24"

text \<open>Four bytes at a time; returns the bytes that remain.\<close>

fun hash_words :: "u32 \<Rightarrow> string \<Rightarrow> u32 \<times> string" where
  "hash_words h (a # b # c # d # data) = (let h = (h + decodeFixed32 a b c d) * hash_m in hash_words (h XOR drop_bit 16 h) data)"
| "hash_words h data = (h, data)"

definition hash_last :: "u32 \<Rightarrow> char \<Rightarrow> u32" where
  "hash_last h a = (let h = (h + of_char a) * hash_m in h XOR drop_bit hash_r h)"

fun hash_tail :: "u32 \<Rightarrow> string \<Rightarrow> u32" where
  "hash_tail h [a, b, c] = hash_last (h + push_bit 16 (of_char c) + push_bit 8 (of_char b)) a"
| "hash_tail h [a, b] = hash_last (h + push_bit 8 (of_char b)) a"
| "hash_tail h [a] = hash_last h a"
| "hash_tail h _ = h"

definition LevelDB_hash :: "string \<Rightarrow> u32 \<Rightarrow> u32" where
  "LevelDB_hash data seed = (let (h, rest) = hash_words (seed XOR of_nat (length data) * hash_m) data in hash_tail h rest)"

definition LevelDB_hashSlice :: "string \<Rightarrow> u32" where
  "LevelDB_hashSlice s = LevelDB_hash s 0"

definition LevelDB_shard :: "u32 \<Rightarrow> nat \<Rightarrow> u32" where
  "LevelDB_shard h bits = h mod push_bit bits 1"

definition shard_of :: "string \<Rightarrow> nat" where
  "shard_of key = unat (LevelDB_shard (LevelDB_hashSlice key) shardBits)"

subsection \<open>Operations\<close>

fun LevelDB_open_shards ::
  "('s, 'd, 'b) kv_lib \<Rightarrow> 's \<Rightarrow> ('d, 'b) LevelDB \<Rightarrow> nat list \<Rightarrow> bool \<times> 's \<times> ('d, 'b) LevelDB" where
  "LevelDB_open_shards lib s ldb [] = (True, s, ldb)"
| "LevelDB_open_shards lib s ldb (idx # idxs) = (
     let (ok, d, s) = lib_open lib s (ldb_name ldb @ ''/'' @ to_string idx) in
     if \<not> ok then (False, s, ldb)
     else LevelDB_open_shards lib s
       (ldb\<lparr>ldb_dbs := ldb_dbs ldb @ [\<lparr>sd_db = d, sd_status = ok, sd_batch = batch_new lib\<rparr>]\<rparr>) idxs)"

definition LevelDB_open :: "('s, 'd, 'b) kv_lib \<Rightarrow> 's \<Rightarrow> ('d, 'b) LevelDB \<Rightarrow> string \<Rightarrow> bool \<times> 's \<times> ('d, 'b) LevelDB" where
  "LevelDB_open lib s ldb dbname = LevelDB_open_shards lib s (ldb\<lparr>ldb_name := dbname\<rparr>) [0..<2 ^ shardBits]"

definition LevelDB_close :: "('s, 'd, 'b) kv_lib \<Rightarrow> 's \<Rightarrow> ('d, 'b) LevelDB \<Rightarrow> 's" where
  "LevelDB_close lib s ldb = fold (\<lambda>d s. lib_close lib s (sd_db d)) (ldb_dbs ldb) s"

definition LevelDB_opened :: "('d, 'b) LevelDB \<Rightarrow> bool" where
  "LevelDB_opened ldb = list_all sd_status (ldb_dbs ldb)"

text \<open>Replace the database of a shard; \<^verbatim>\<open>_dbs[idx]\<close> outside of the vector is \<open>None\<close>.\<close>

definition on_shard ::
  "('d, 'b) LevelDB \<Rightarrow> string \<Rightarrow> (('d, 'b) shard_db \<Rightarrow> 'r \<times> ('d, 'b) shard_db) \<Rightarrow> ('r \<times> ('d, 'b) LevelDB) option" where
  "on_shard ldb key f = do {
     let idx = shard_of key;
     d \<leftarrow> rd (ldb_dbs ldb) idx;
     let (r, d) = f d;
     dbs \<leftarrow> wr (ldb_dbs ldb) idx d;
     Some (r, ldb\<lparr>ldb_dbs := dbs\<rparr>) }"

definition LevelDB_get ::
  "('s, 'd, 'b) kv_lib \<Rightarrow> 's \<Rightarrow> ('d, 'b) LevelDB \<Rightarrow> string \<Rightarrow> (bool \<times> string option \<times> ('d, 'b) LevelDB) option" where
  "LevelDB_get lib s ldb key = do {
     ((ok, v), ldb) \<leftarrow> on_shard ldb key (\<lambda>d. let (ok, v) = lib_get lib s (sd_db d) key in ((ok, v), d\<lparr>sd_status := ok\<rparr>));
     Some (ok, v, ldb) }"

definition LevelDB_put ::
  "('s, 'd, 'b) kv_lib \<Rightarrow> 's \<Rightarrow> ('d, 'b) LevelDB \<Rightarrow> string \<Rightarrow> string \<Rightarrow> (bool \<times> 's \<times> ('d, 'b) LevelDB) option" where
  "LevelDB_put lib s ldb key v = (if key = [] then Some (False, s, ldb)
     else do {
       ((ok, s), ldb) \<leftarrow> on_shard ldb key (\<lambda>d. let (ok, s) = lib_put lib s (sd_db d) key v in ((ok, s), d\<lparr>sd_status := ok\<rparr>));
       Some (ok, s, ldb) })"

definition LevelDB_putBatch ::
  "('s, 'd, 'b) kv_lib \<Rightarrow> 's \<Rightarrow> ('d, 'b) LevelDB \<Rightarrow> string \<Rightarrow> string \<Rightarrow> (bool \<times> 's \<times> ('d, 'b) LevelDB) option" where
  "LevelDB_putBatch lib s ldb key v = (if key = [] then Some (False, s, ldb)
     else do {
       (_, ldb) \<leftarrow> on_shard ldb key (\<lambda>d. ((), d\<lparr>sd_batch := batch_put lib (sd_batch d) key v\<rparr>));
       Some (True, s, ldb) })"

definition LevelDB_del ::
  "('s, 'd, 'b) kv_lib \<Rightarrow> 's \<Rightarrow> ('d, 'b) LevelDB \<Rightarrow> string \<Rightarrow> (bool \<times> 's \<times> ('d, 'b) LevelDB) option" where
  "LevelDB_del lib s ldb key = (if key = [] then Some (False, s, ldb)
     else do {
       ((ok, s), ldb) \<leftarrow> on_shard ldb key (\<lambda>d. let (ok, s) = lib_delete lib s (sd_db d) key in ((ok, s), d\<lparr>sd_status := ok\<rparr>));
       Some (ok, s, ldb) })"

definition LevelDB_delBatch ::
  "('s, 'd, 'b) kv_lib \<Rightarrow> 's \<Rightarrow> ('d, 'b) LevelDB \<Rightarrow> string \<Rightarrow> (bool \<times> 's \<times> ('d, 'b) LevelDB) option" where
  "LevelDB_delBatch lib s ldb key = (if key = [] then Some (False, s, ldb)
     else do {
       (_, ldb) \<leftarrow> on_shard ldb key (\<lambda>d. ((), d\<lparr>sd_batch := batch_delete lib (sd_batch d) key\<rparr>));
       Some (True, s, ldb) })"

text \<open>The batches are cleared only when all of them have been written.\<close>

fun write_batches :: "('s, 'd, 'b) kv_lib \<Rightarrow> 's \<Rightarrow> ('d, 'b) shard_db list \<Rightarrow> bool \<times> 's" where
  "write_batches lib s [] = (True, s)"
| "write_batches lib s (d # ds) = (let (ok, s) = lib_write lib s (sd_db d) (sd_batch d) in
     if \<not> ok then (False, s) else write_batches lib s ds)"

definition LevelDB_applyBatch ::
  "('s, 'd, 'b) kv_lib \<Rightarrow> 's \<Rightarrow> ('d, 'b) LevelDB \<Rightarrow> bool \<times> 's \<times> ('d, 'b) LevelDB" where
  "LevelDB_applyBatch lib s ldb = (let (ok, s) = write_batches lib s (ldb_dbs ldb) in
     if \<not> ok then (False, s, ldb)
     else (True, s, ldb\<lparr>ldb_dbs := map (\<lambda>d. d\<lparr>sd_batch := batch_clear lib (sd_batch d)\<rparr>) (ldb_dbs ldb)\<rparr>))"

end
