(* ===== verification/Shard_Spec.thy ===== *)
theory Shard_Spec
  imports Shard
begin

text \<open>
  The sharded store as one map with a queue of pending writes. What the code relies on of the
  library is \<open>kv_ok\<close>: a database is a map, an update that reports success has been carried out, one
  that fails has changed nothing (a batch is written atomically), and a batch is the list of its
  updates.
\<close>

section \<open>Updates of a map\<close>

datatype batch_op = BPut string string | BDel string

fun op_key :: "batch_op \<Rightarrow> string" where
  "op_key (BPut k v) = k"
| "op_key (BDel k) = k"

fun apply_op :: "batch_op \<Rightarrow> (string \<rightharpoonup> string) \<Rightarrow> (string \<rightharpoonup> string)" where
  "apply_op (BPut k v) m = m(k \<mapsto> v)"
| "apply_op (BDel k) m = m(k := None)"

abbreviation apply_ops :: "batch_op list \<Rightarrow> (string \<rightharpoonup> string) \<Rightarrow> (string \<rightharpoonup> string)" where
  "apply_ops ops m \<equiv> fold apply_op ops m"

lemma apply_op_other: "op_key b \<noteq> k \<Longrightarrow> apply_op b m k = m k"
  by (cases b) auto

lemma apply_op_key: "op_key b = k \<Longrightarrow> apply_op b m k = apply_op b m' k"
  by (cases b) auto

text \<open>What a key is mapped to depends on the updates of that key alone.\<close>

lemma apply_ops_key:
  assumes "\<And>b. op_key b = k \<Longrightarrow> P b" "m k = m' k"
  shows "apply_ops (filter P ops) m k = apply_ops ops m' k"
  using assms(2)
proof (induction ops arbitrary: m m')
  case (Cons b ops)
  show ?case
  proof (cases "op_key b = k")
    case True
    then show ?thesis using assms(1) Cons.IH [of "apply_op b m" "apply_op b m'"] apply_op_key by simp
  next
    case False
    then show ?thesis
      using Cons.IH [of m "apply_op b m'"] Cons.IH [of "apply_op b m" "apply_op b m'"] Cons.prems apply_op_other [OF False] by simp
  qed
qed simp

lemma apply_ops_twice: "apply_ops ops (apply_ops ops m) = apply_ops ops m"
proof
  fix k
  show "apply_ops ops (apply_ops ops m) k = apply_ops ops m k"
  proof (cases "\<exists>b\<in>set ops. op_key b = k")
    case True
    then have "apply_ops ops m1 k = apply_ops ops m2 k" for m1 m2
    proof (induction ops arbitrary: m1 m2)
      case (Cons b ops)
      show ?case
      proof (cases "op_key b = k")
        case True
        then show ?thesis using apply_ops_key [of k "\<lambda>_. True" "apply_op b m1" "apply_op b m2" ops] apply_op_key by simp
      next
        case False
        then show ?thesis using Cons by simp
      qed
    qed simp
    then show ?thesis by blast
  next
    case False
    then have "apply_ops ops m1 k = m1 k" for m1
      by (induction ops arbitrary: m1) (simp_all add: apply_op_other)
    then show ?thesis by simp
  qed
qed

section \<open>The library\<close>

definition kv_ok ::
  "('s, 'd, 'b) kv_lib \<Rightarrow> ('s \<Rightarrow> 'd \<Rightarrow> string \<rightharpoonup> string) \<Rightarrow> ('s \<Rightarrow> 'd set) \<Rightarrow> ('b \<Rightarrow> batch_op list) \<Rightarrow> bool" where
  "kv_ok lib cont hs ops \<longleftrightarrow>
     (\<forall>s p ok d s'. lib_open lib s p = (ok, d, s') \<longrightarrow> ok \<longrightarrow> d \<notin> hs s \<and> hs s' = insert d (hs s)) \<and>
     (\<forall>s d k. lib_get lib s d k = (cont s d k \<noteq> None, cont s d k)) \<and>
     (\<forall>s d k v ok s'. lib_put lib s d k v = (ok, s') \<longrightarrow> cont s' = (if ok then (cont s)(d := (cont s d)(k \<mapsto> v)) else cont s)) \<and>
     (\<forall>s d k ok s'. lib_delete lib s d k = (ok, s') \<longrightarrow> cont s' = (if ok then (cont s)(d := (cont s d)(k := None)) else cont s)) \<and>
     (\<forall>s d b ok s'. lib_write lib s d b = (ok, s') \<longrightarrow> cont s' = (if ok then (cont s)(d := apply_ops (ops b) (cont s d)) else cont s)) \<and>
     ops (batch_new lib) = [] \<and> (\<forall>b k v. ops (batch_put lib b k v) = ops b @ [BPut k v]) \<and>
     (\<forall>b k. ops (batch_delete lib b k) = ops b @ [BDel k]) \<and> (\<forall>b. ops (batch_clear lib b) = [])"

text \<open>No call of the library fails.\<close>

definition kv_reliable :: "('s, 'd, 'b) kv_lib \<Rightarrow> bool" where
  "kv_reliable lib \<longleftrightarrow> (\<forall>s p. fst (lib_open lib s p)) \<and> (\<forall>s d k v. fst (lib_put lib s d k v)) \<and>
     (\<forall>s d k. fst (lib_delete lib s d k)) \<and> (\<forall>s d b. fst (lib_write lib s d b))"

section \<open>The shards\<close>

lemma shard_of_less: "shard_of key < 16"
  by (simp add: shard_of_def LevelDB_shard_def unat_mod)

text \<open>The map in all shards and the pending writes, in the order in which they were made.\<close>

definition shards_hold ::
  "('s \<Rightarrow> 'd \<Rightarrow> string \<rightharpoonup> string) \<Rightarrow> ('b \<Rightarrow> batch_op list) \<Rightarrow> 's \<Rightarrow> ('d, 'b) LevelDB \<Rightarrow> (string \<rightharpoonup> string) \<Rightarrow> batch_op list \<Rightarrow> bool" where
  "shards_hold cont ops s ldb m pend \<longleftrightarrow> length (ldb_dbs ldb) = 16 \<and> distinct (map sd_db (ldb_dbs ldb)) \<and>
     (\<forall>k. cont s (sd_db (ldb_dbs ldb ! shard_of k)) k = m k) \<and>
     (\<forall>i<16. ops (sd_batch (ldb_dbs ldb ! i)) = filter (\<lambda>b. shard_of (op_key b) = i) pend)"

lemma on_shard_eq:
  assumes "length (ldb_dbs ldb) = 16"
  shows "on_shard ldb key f = Some (fst (f (ldb_dbs ldb ! shard_of key)),
    ldb\<lparr>ldb_dbs := (ldb_dbs ldb)[shard_of key := snd (f (ldb_dbs ldb ! shard_of key))]\<rparr>)"
  using assms shard_of_less [of key] by (simp add: on_shard_def rd_def wr_def Let_def split_beta)

text \<open>A change of one shard that leaves its database and its batch alone.\<close>

lemma shards_hold_cong:
  assumes h: "shards_hold cont ops s ldb m pend" and d: "sd_db d = sd_db (ldb_dbs ldb ! i)" "sd_batch d = sd_batch (ldb_dbs ldb ! i)" "i < 16"
  shows "shards_hold cont ops s (ldb\<lparr>ldb_dbs := (ldb_dbs ldb)[i := d]\<rparr>) m pend"
proof -
  have len: "length (ldb_dbs ldb) = 16" using h by (simp add: shards_hold_def)
  have "map sd_db ((ldb_dbs ldb)[i := d]) = map sd_db (ldb_dbs ldb)"
    using d(1,3) len by (simp add: map_update list_update_same_conv)
  moreover have "sd_db ((ldb_dbs ldb)[i := d] ! j) = sd_db (ldb_dbs ldb ! j)" for j
    using d(1,3) len by (cases "i = j") simp_all
  moreover have "sd_batch ((ldb_dbs ldb)[i := d] ! j) = sd_batch (ldb_dbs ldb ! j)" for j
    using d(2,3) len by (cases "i = j") simp_all
  ultimately show ?thesis using h by (simp add: shards_hold_def)
qed

text \<open>An update of one key in its shard.\<close>

lemma shards_hold_update:
  assumes h: "shards_hold cont ops s ldb m pend" and u: "cont s' = (cont s)(d := (cont s d)(k := v))" "d = sd_db (ldb_dbs ldb ! shard_of k)"
  shows "shards_hold cont ops s' ldb (m(k := v)) pend"
proof -
  let ?ds = "ldb_dbs ldb"
  have len: "length ?ds = 16" "distinct (map sd_db ?ds)" using h by (simp_all add: shards_hold_def)
  have "cont s' (sd_db (?ds ! shard_of k')) k' = (m(k := v)) k'" for k'
  proof -
    have "cont s (sd_db (?ds ! shard_of k')) k' = m k'" using h by (simp add: shards_hold_def)
    then show ?thesis using u by (auto simp: fun_upd_def)
  qed
  then show ?thesis using h by (simp add: shards_hold_def)
qed

lemma put_refines:
  assumes "kv_ok lib cont hs ops" "shards_hold cont ops s ldb m pend"
  shows "\<exists>ok s' ldb'. LevelDB_put lib s ldb k v = Some (ok, s', ldb') \<and> (kv_reliable lib \<longrightarrow> ok = (k \<noteq> [])) \<and>
    shards_hold cont ops s' ldb' (if ok then m(k \<mapsto> v) else m) pend"
proof -
  have len: "length (ldb_dbs ldb) = 16" using assms(2) by (simp add: shards_hold_def)
  obtain ok s' where r: "lib_put lib s (sd_db (ldb_dbs ldb ! shard_of k)) k v = (ok, s')" by (rule prod.exhaust)
  define ldb' where "ldb' = ldb\<lparr>ldb_dbs := (ldb_dbs ldb)[shard_of k := (ldb_dbs ldb ! shard_of k)\<lparr>sd_status := ok\<rparr>]\<rparr>"
  have c: "cont s' = (if ok then (cont s)(sd_db (ldb_dbs ldb ! shard_of k) := (cont s (sd_db (ldb_dbs ldb ! shard_of k)))(k \<mapsto> v)) else cont s)"
    using assms(1) r by (simp add: kv_ok_def)
  have "shards_hold cont ops s' ldb (if ok then m(k \<mapsto> v) else m) pend"
  proof (cases ok)
    case True
    then show ?thesis using shards_hold_update [OF assms(2), of s' _ k "Some v"] c by simp
  next
    case False
    then show ?thesis using c assms(2) by (simp add: shards_hold_def)
  qed
  then have "shards_hold cont ops s' ldb' (if ok then m(k \<mapsto> v) else m) pend" unfolding ldb'_def by (rule shards_hold_cong) (simp_all add: shard_of_less)
  moreover have "LevelDB_put lib s ldb k v = (if k = [] then Some (False, s, ldb) else Some (ok, s', ldb'))"
    by (simp add: LevelDB_put_def on_shard_eq [OF len] r ldb'_def)
  moreover have "kv_reliable lib \<Longrightarrow> ok" using r unfolding kv_reliable_def by (metis fst_conv)
  ultimately show ?thesis using assms(2) by (cases "k = []") auto
qed

lemma del_refines:
  assumes "kv_ok lib cont hs ops" "shards_hold cont ops s ldb m pend"
  shows "\<exists>ok s' ldb'. LevelDB_del lib s ldb k = Some (ok, s', ldb') \<and> (kv_reliable lib \<longrightarrow> ok = (k \<noteq> [])) \<and>
    shards_hold cont ops s' ldb' (if ok then m(k := None) else m) pend"
proof -
  have len: "length (ldb_dbs ldb) = 16" using assms(2) by (simp add: shards_hold_def)
  obtain ok s' where r: "lib_delete lib s (sd_db (ldb_dbs ldb ! shard_of k)) k = (ok, s')" by (rule prod.exhaust)
  define ldb' where "ldb' = ldb\<lparr>ldb_dbs := (ldb_dbs ldb)[shard_of k := (ldb_dbs ldb ! shard_of k)\<lparr>sd_status := ok\<rparr>]\<rparr>"
  have c: "cont s' = (if ok then (cont s)(sd_db (ldb_dbs ldb ! shard_of k) := (cont s (sd_db (ldb_dbs ldb ! shard_of k)))(k := None)) else cont s)"
    using assms(1) r by (simp add: kv_ok_def)
  have "shards_hold cont ops s' ldb (if ok then m(k := None) else m) pend"
  proof (cases ok)
    case True
    then show ?thesis using shards_hold_update [OF assms(2), of s' _ k None] c by simp
  next
    case False
    then show ?thesis using c assms(2) by (simp add: shards_hold_def)
  qed
  then have "shards_hold cont ops s' ldb' (if ok then m(k := None) else m) pend" unfolding ldb'_def by (rule shards_hold_cong) (simp_all add: shard_of_less)
  moreover have "LevelDB_del lib s ldb k = (if k = [] then Some (False, s, ldb) else Some (ok, s', ldb'))"
    by (simp add: LevelDB_del_def on_shard_eq [OF len] r ldb'_def)
  moreover have "kv_reliable lib \<Longrightarrow> ok" using r unfolding kv_reliable_def by (metis fst_conv)
  ultimately show ?thesis using assms(2) by (cases "k = []") auto
qed

lemma get_refines:
  assumes "kv_ok lib cont hs ops" "shards_hold cont ops s ldb m pend"
  shows "\<exists>ldb'. LevelDB_get lib s ldb k = Some (m k \<noteq> None, m k, ldb') \<and> shards_hold cont ops s ldb' m pend"
proof -
  have len: "length (ldb_dbs ldb) = 16" using assms(2) by (simp add: shards_hold_def)
  have "lib_get lib s (sd_db (ldb_dbs ldb ! shard_of k)) k = (m k \<noteq> None, m k)" using assms by (simp add: kv_ok_def shards_hold_def)
  moreover have "shards_hold cont ops s (ldb\<lparr>ldb_dbs := (ldb_dbs ldb)[shard_of k := (ldb_dbs ldb ! shard_of k)\<lparr>sd_status := m k \<noteq> None\<rparr>]\<rparr>) m pend"
    using assms(2) by (rule shards_hold_cong) (simp_all add: shard_of_less)
  ultimately show ?thesis by (simp add: LevelDB_get_def on_shard_eq [OF len])
qed

text \<open>A write into the batch of its shard.\<close>

lemma shards_hold_batch:
  assumes h: "shards_hold cont ops s ldb m pend" and b: "ops b = ops (sd_batch (ldb_dbs ldb ! shard_of (op_key w))) @ [w]"
  shows "shards_hold cont ops s (ldb\<lparr>ldb_dbs := (ldb_dbs ldb)[shard_of (op_key w) := (ldb_dbs ldb ! shard_of (op_key w))\<lparr>sd_batch := b\<rparr>]\<rparr>) m (pend @ [w])"
proof -
  let ?i = "shard_of (op_key w)" and ?ds = "ldb_dbs ldb"
  let ?ds' = "?ds[?i := (?ds ! ?i)\<lparr>sd_batch := b\<rparr>]"
  have len: "length ?ds = 16" "?i < 16" using h shard_of_less by (simp_all add: shards_hold_def)
  have "map sd_db ?ds' = map sd_db ?ds" using len by (simp add: map_update list_update_same_conv)
  moreover have "sd_db (?ds' ! j) = sd_db (?ds ! j)" for j using len by (cases "?i = j") simp_all
  moreover have "ops (sd_batch (?ds' ! j)) = filter (\<lambda>b. shard_of (op_key b) = j) (pend @ [w])" if "j < 16" for j
    using h b len that by (cases "?i = j") (auto simp: shards_hold_def)
  ultimately show ?thesis using h by (simp add: shards_hold_def)
qed

lemma putBatch_refines:
  assumes "kv_ok lib cont hs ops" "shards_hold cont ops s ldb m pend"
  shows "\<exists>ldb'. LevelDB_putBatch lib s ldb k v = Some (k \<noteq> [], s, ldb') \<and>
    shards_hold cont ops s ldb' m (if k \<noteq> [] then pend @ [BPut k v] else pend)"
proof -
  have len: "length (ldb_dbs ldb) = 16" using assms(2) by (simp add: shards_hold_def)
  show ?thesis using assms shards_hold_batch [OF assms(2), of _ "BPut k v"]
    by (auto simp: LevelDB_putBatch_def on_shard_eq [OF len] kv_ok_def)
qed

lemma delBatch_refines:
  assumes "kv_ok lib cont hs ops" "shards_hold cont ops s ldb m pend"
  shows "\<exists>ldb'. LevelDB_delBatch lib s ldb k = Some (k \<noteq> [], s, ldb') \<and>
    shards_hold cont ops s ldb' m (if k \<noteq> [] then pend @ [BDel k] else pend)"
proof -
  have len: "length (ldb_dbs ldb) = 16" using assms(2) by (simp add: shards_hold_def)
  show ?thesis using assms shards_hold_batch [OF assms(2), of _ "BDel k"]
    by (auto simp: LevelDB_delBatch_def on_shard_eq [OF len] kv_ok_def)
qed

text \<open>
  Writing the batches: after \<open>n\<close> of them the first \<open>n\<close> shards are up to date, and the others are as
  they were.
\<close>

lemma write_batches_cont:
  assumes k: "kv_ok lib cont hs ops" and "distinct (map sd_db ds)"
  shows "\<exists>ok s' n. write_batches lib s ds = (ok, s') \<and> n \<le> length ds \<and> (ok \<longrightarrow> n = length ds) \<and> (kv_reliable lib \<longrightarrow> ok) \<and>
    (\<forall>i<length ds. cont s' (sd_db (ds ! i)) = (if i < n then apply_ops (ops (sd_batch (ds ! i))) else (\<lambda>m. m)) (cont s (sd_db (ds ! i)))) \<and>
    (\<forall>d. d \<notin> sd_db ` set ds \<longrightarrow> cont s' d = cont s d)"
  using assms(2)
proof (induction ds arbitrary: s)
  case (Cons d ds)
  obtain ok1 s1 where w: "lib_write lib s (sd_db d) (sd_batch d) = (ok1, s1)" by (rule prod.exhaust)
  have c: "cont s1 = (if ok1 then (cont s)(sd_db d := apply_ops (ops (sd_batch d)) (cont s (sd_db d))) else cont s)"
    using k w by (simp add: kv_ok_def)
  have rel: "kv_reliable lib \<Longrightarrow> ok1" using w unfolding kv_reliable_def by (metis fst_conv)
  show ?case
  proof (cases ok1)
    case False
    then have "write_batches lib s (d # ds) = (False, s1)" using w by simp
    moreover have "cont s1 = cont s" using c False by simp
    ultimately show ?thesis using rel False by (intro exI [of _ False] exI [of _ s1] exI [of _ 0]) auto
  next
    case True
    have "distinct (map sd_db ds)" using Cons.prems by simp
    then obtain ok s' n where I: "write_batches lib s1 ds = (ok, s')" "n \<le> length ds" "ok \<longrightarrow> n = length ds" "kv_reliable lib \<longrightarrow> ok"
      "\<forall>i<length ds. cont s' (sd_db (ds ! i)) = (if i < n then apply_ops (ops (sd_batch (ds ! i))) else (\<lambda>m. m)) (cont s1 (sd_db (ds ! i)))"
      "\<forall>e. e \<notin> sd_db ` set ds \<longrightarrow> cont s' e = cont s1 e"
      using Cons.IH [of s1] by blast
    have d: "sd_db d \<notin> sd_db ` set ds" using Cons.prems by simp
    have e: "cont s1 (sd_db (ds ! i)) = cont s (sd_db (ds ! i))" if "i < length ds" for i
    proof -
      have "sd_db (ds ! i) \<noteq> sd_db d" using d that by (metis image_eqI nth_mem)
      then show ?thesis using c True by simp
    qed
    have "cont s' (sd_db ((d # ds) ! i)) =
        (if i < Suc n then apply_ops (ops (sd_batch ((d # ds) ! i))) else (\<lambda>m. m)) (cont s (sd_db ((d # ds) ! i)))" if "i < length (d # ds)" for i
      using that I(5,6) d e c True by (cases i) auto
    moreover have "cont s' x = cont s x" if "x \<notin> sd_db ` set (d # ds)" for x using that I(6) c True by auto
    moreover have "write_batches lib s (d # ds) = (ok, s')" using w True I(1) by simp
    ultimately show ?thesis using I(2-4) by (intro exI [of _ ok] exI [of _ s'] exI [of _ "Suc n"]) auto
  qed
qed auto

lemma applyBatch_refines:
  assumes k: "kv_ok lib cont hs ops" and h: "shards_hold cont ops s ldb m pend"
  shows "\<exists>ok s' ldb' m'. LevelDB_applyBatch lib s ldb = (ok, s', ldb') \<and> (kv_reliable lib \<longrightarrow> ok) \<and>
    shards_hold cont ops s' ldb' m' (if ok then [] else pend) \<and> (ok \<longrightarrow> m' = apply_ops pend m) \<and> apply_ops pend m' = apply_ops pend m"
proof -
  let ?ds = "ldb_dbs ldb"
  have len: "length ?ds = 16" "distinct (map sd_db ?ds)" using h by (simp_all add: shards_hold_def)
  obtain ok s' n where w: "write_batches lib s ?ds = (ok, s')" "n \<le> length ?ds" "ok \<longrightarrow> n = length ?ds" "kv_reliable lib \<longrightarrow> ok"
    and c: "\<forall>i<length ?ds. cont s' (sd_db (?ds ! i)) = (if i < n then apply_ops (ops (sd_batch (?ds ! i))) else (\<lambda>m. m)) (cont s (sd_db (?ds ! i)))"
    using write_batches_cont [OF k len(2)] by blast
  define m' where "m' = (\<lambda>key. if shard_of key < n then apply_ops pend m key else m key)"
  have key: "cont s' (sd_db (?ds ! shard_of key)) key = m' key" for key
  proof (cases "shard_of key < n")
    case True
    have "cont s' (sd_db (?ds ! shard_of key)) = apply_ops (filter (\<lambda>b. shard_of (op_key b) = shard_of key) pend) (cont s (sd_db (?ds ! shard_of key)))"
      using c True h shard_of_less [of key] len(1) by (simp add: shards_hold_def)
    moreover have "cont s (sd_db (?ds ! shard_of key)) key = m key" using h by (simp add: shards_hold_def)
    ultimately show ?thesis using True apply_ops_key [of key "\<lambda>b. shard_of (op_key b) = shard_of key"] by (simp add: m'_def)
  next
    case False
    then show ?thesis using c h shard_of_less [of key] len(1) by (simp add: shards_hold_def m'_def)
  qed
  have twice: "apply_ops pend m' = apply_ops pend m"
  proof
    fix x
    show "apply_ops pend m' x = apply_ops pend m x"
    proof (cases "shard_of x < n")
      case True
      then have "apply_ops pend m' x = apply_ops pend (apply_ops pend m) x"
        using apply_ops_key [of x "\<lambda>_. True" m' "apply_ops pend m" pend] by (simp add: m'_def)
      then show ?thesis by (simp add: apply_ops_twice)
    next
      case False
      then show ?thesis using apply_ops_key [of x "\<lambda>_. True" m' m pend] by (simp add: m'_def)
    qed
  qed
  show ?thesis
  proof (cases ok)
    case False
    then have "LevelDB_applyBatch lib s ldb = (False, s', ldb)" using w(1) by (simp add: LevelDB_applyBatch_def)
    moreover have "shards_hold cont ops s' ldb m' pend" using h key by (simp add: shards_hold_def)
    ultimately show ?thesis using twice False w(4) by auto
  next
    case True
    let ?ldb = "ldb\<lparr>ldb_dbs := map (\<lambda>d. d\<lparr>sd_batch := batch_clear lib (sd_batch d)\<rparr>) ?ds\<rparr>"
    have "LevelDB_applyBatch lib s ldb = (True, s', ?ldb)" using w(1) True by (simp add: LevelDB_applyBatch_def)
    moreover have "m' = apply_ops pend m" using w(3) True len(1) shard_of_less by (auto simp: m'_def)
    moreover have "shards_hold cont ops s' ?ldb m' []"
      using key len k shard_of_less by (simp add: shards_hold_def kv_ok_def comp_def)
    ultimately show ?thesis using twice True by auto
  qed
qed

text \<open>Opening makes the 16 databases, each with an empty batch.\<close>

lemma open_shards:
  assumes "kv_ok lib cont hs ops" "distinct (map sd_db (ldb_dbs ldb))" "sd_db ` set (ldb_dbs ldb) \<subseteq> hs s"
    "\<forall>d\<in>set (ldb_dbs ldb). ops (sd_batch d) = []"
  shows "\<exists>ok s' ldb'. LevelDB_open_shards lib s ldb is = (ok, s', ldb') \<and> (kv_reliable lib \<longrightarrow> ok) \<and>
    (ok \<longrightarrow> length (ldb_dbs ldb') = length (ldb_dbs ldb) + length is) \<and> distinct (map sd_db (ldb_dbs ldb')) \<and>
    (\<forall>d\<in>set (ldb_dbs ldb'). ops (sd_batch d) = [])"
  using assms(2-4)
proof (induction "is" arbitrary: s ldb)
  case (Cons i "is")
  obtain ok d s1 where o: "lib_open lib s (ldb_name ldb @ ''/'' @ to_string i) = (ok, d, s1)" by (rule prod_cases3)
  have rel: "kv_reliable lib \<Longrightarrow> ok" using o unfolding kv_reliable_def by (metis fst_conv)
  show ?case
  proof (cases ok)
    case False
    then show ?thesis using o rel Cons.prems by (intro exI [of _ False] exI [of _ s1] exI [of _ ldb]) auto
  next
    case True
    have "\<forall>ok d s'. lib_open lib s (ldb_name ldb @ ''/'' @ to_string i) = (ok, d, s') \<longrightarrow> ok \<longrightarrow> d \<notin> hs s \<and> hs s' = insert d (hs s)"
      using conjunct1 [OF assms(1) [unfolded kv_ok_def]] by blast
    then have n: "d \<notin> hs s" "hs s1 = insert d (hs s)" using True o by blast+
    define ldb1 where "ldb1 = ldb\<lparr>ldb_dbs := ldb_dbs ldb @ [\<lparr>sd_db = d, sd_status = True, sd_batch = batch_new lib\<rparr>]\<rparr>"
    have "distinct (map sd_db (ldb_dbs ldb1))" "sd_db ` set (ldb_dbs ldb1) \<subseteq> hs s1" "\<forall>d\<in>set (ldb_dbs ldb1). ops (sd_batch d) = []"
      using Cons.prems n assms(1) by (auto simp: ldb1_def kv_ok_def)
    from Cons.IH [OF this] show ?thesis using o True by (auto simp: ldb1_def)
  qed
qed auto

lemma open_holds:
  assumes k: "kv_ok lib cont hs ops" and n: "ldb_dbs ldb = []" and o: "LevelDB_open lib s ldb dbname = (True, s', ldb')"
  shows "\<exists>m. shards_hold cont ops s' ldb' m []"
proof -
  obtain ok s1 ldb1 where o1: "LevelDB_open_shards lib s (ldb\<lparr>ldb_name := dbname\<rparr>) [0..<2 ^ shardBits] = (ok, s1, ldb1)"
    "ok \<longrightarrow> length (ldb_dbs ldb1) = length (ldb_dbs ldb) + length [0..<2 ^ shardBits]" "distinct (map sd_db (ldb_dbs ldb1))"
    "\<forall>d\<in>set (ldb_dbs ldb1). ops (sd_batch d) = []"
    using open_shards [OF k, of "ldb\<lparr>ldb_name := dbname\<rparr>" s "[0..<2 ^ shardBits]"] n by auto
  then have "ldb' = ldb1" "length (ldb_dbs ldb') = 16" using o n by (auto simp: LevelDB_open_def)
  then show ?thesis using o1(3,4)
    by (intro exI [of _ "\<lambda>k. cont s' (sd_db (ldb_dbs ldb' ! shard_of k)) k"]) (auto simp: shards_hold_def)
qed

end
