(* ===== verification/Shard_Rocks.thy ===== *)
theory Shard_Rocks
  imports Shard_Spec
begin

text \<open>
  The store over RocksDB (\<^verbatim>\<open>src/ledger/rocks_db.cpp\<close>), which repeats the one over LevelDB line by
  line; each of its operations is proved equal to its counterpart.
\<close>

unbundle bit_operations_syntax

type_synonym ('d, 'b) RocksDB = "('d, 'b) LevelDB"

section \<open>The hash\<close>

definition rocks_decodeFixed32 :: "char \<Rightarrow> char \<Rightarrow> char \<Rightarrow> char \<Rightarrow> u32" where
  "rocks_decodeFixed32 a b c d = of_char a OR push_bit 8 (of_char b) OR push_bit 16 (of_char c) OR push_bit 24 (of_char d)"

text \<open>Four bytes at a time; returns the bytes that remain.\<close>

fun rocks_hash_words :: "u32 \<Rightarrow> string \<Rightarrow> u32 \<times> string" where
  "rocks_hash_words h (a # b # c # d # data) = (let h = (h + rocks_decodeFixed32 a b c d) * hash_m in rocks_hash_words (h XOR drop_bit 16 h) data)"
| "rocks_hash_words h data = (h, data)"

definition rocks_hash_last :: "u32 \<Rightarrow> char \<Rightarrow> u32" where
  "rocks_hash_last h a = (let h = (h + of_char a) * hash_m in h XOR drop_bit hash_r h)"

fun rocks_hash_tail :: "u32 \<Rightarrow> string \<Rightarrow> u32" where
  "rocks_hash_tail h [a, b, c] = rocks_hash_last (h + push_bit 16 (of_char c) + push_bit 8 (of_char b)) a"
| "rocks_hash_tail h [a, b] = rocks_hash_last (h + push_bit 8 (of_char b)) a"
| "rocks_hash_tail h [a] = rocks_hash_last h a"
| "rocks_hash_tail h _ = h"

definition RocksDB_hash :: "string \<Rightarrow> u32 \<Rightarrow> u32" where
  "RocksDB_hash data seed = (let (h, rest) = rocks_hash_words (seed XOR of_nat (length data) * hash_m) data in rocks_hash_tail h rest)"

definition RocksDB_hashSlice :: "string \<Rightarrow> u32" where
  "RocksDB_hashSlice s = RocksDB_hash s 0"

definition RocksDB_shard :: "u32 \<Rightarrow> nat \<Rightarrow> u32" where
  "RocksDB_shard h bits = h mod push_bit bits 1"

definition rocks_shard_of :: "string \<Rightarrow> nat" where
  "rocks_shard_of key = unat (RocksDB_shard (RocksDB_hashSlice key) shardBits)"

section \<open>Operations\<close>

fun RocksDB_open_shards ::
  "('s, 'd, 'b) kv_lib \<Rightarrow> 's \<Rightarrow> ('d, 'b) RocksDB \<Rightarrow> nat list \<Rightarrow> bool \<times> 's \<times> ('d, 'b) RocksDB" where
  "RocksDB_open_shards lib s ldb [] = (True, s, ldb)"
| "RocksDB_open_shards lib s ldb (idx # idxs) = (
     let (ok, d, s) = lib_open lib s (ldb_name ldb @ ''/'' @ to_string idx) in
     if \<not> ok then (False, s, ldb)
     else RocksDB_open_shards lib s
       (ldb\<lparr>ldb_dbs := ldb_dbs ldb @ [\<lparr>sd_db = d, sd_status = ok, sd_batch = batch_new lib\<rparr>]\<rparr>) idxs)"

definition RocksDB_open :: "('s, 'd, 'b) kv_lib \<Rightarrow> 's \<Rightarrow> ('d, 'b) RocksDB \<Rightarrow> string \<Rightarrow> bool \<times> 's \<times> ('d, 'b) RocksDB" where
  "RocksDB_open lib s ldb dbname = RocksDB_open_shards lib s (ldb\<lparr>ldb_name := dbname\<rparr>) [0..<2 ^ shardBits]"

definition RocksDB_close :: "('s, 'd, 'b) kv_lib \<Rightarrow> 's \<Rightarrow> ('d, 'b) RocksDB \<Rightarrow> 's" where
  "RocksDB_close lib s ldb = fold (\<lambda>d s. lib_close lib s (sd_db d)) (ldb_dbs ldb) s"

definition RocksDB_opened :: "('d, 'b) RocksDB \<Rightarrow> bool" where
  "RocksDB_opened ldb = list_all sd_status (ldb_dbs ldb)"

text \<open>Replace the database of a shard; \<^verbatim>\<open>_dbs[idx]\<close> outside of the vector is \<open>None\<close>.\<close>

definition rocks_on_shard ::
  "('d, 'b) RocksDB \<Rightarrow> string \<Rightarrow> (('d, 'b) shard_db \<Rightarrow> 'r \<times> ('d, 'b) shard_db) \<Rightarrow> ('r \<times> ('d, 'b) RocksDB) option" where
  "rocks_on_shard ldb key f = do {
     let idx = rocks_shard_of key;
     d \<leftarrow> rd (ldb_dbs ldb) idx;
     let (r, d) = f d;
     dbs \<leftarrow> wr (ldb_dbs ldb) idx d;
     Some (r, ldb\<lparr>ldb_dbs := dbs\<rparr>) }"

definition RocksDB_get ::
  "('s, 'd, 'b) kv_lib \<Rightarrow> 's \<Rightarrow> ('d, 'b) RocksDB \<Rightarrow> string \<Rightarrow> (bool \<times> string option \<times> ('d, 'b) RocksDB) option" where
  "RocksDB_get lib s ldb key = do {
     ((ok, v), ldb) \<leftarrow> rocks_on_shard ldb key (\<lambda>d. let (ok, v) = lib_get lib s (sd_db d) key in ((ok, v), d\<lparr>sd_status := ok\<rparr>));
     Some (ok, v, ldb) }"

definition RocksDB_put ::
  "('s, 'd, 'b) kv_lib \<Rightarrow> 's \<Rightarrow> ('d, 'b) RocksDB \<Rightarrow> string \<Rightarrow> string \<Rightarrow> (bool \<times> 's \<times> ('d, 'b) RocksDB) option" where
  "RocksDB_put lib s ldb key v = (if key = [] then Some (False, s, ldb)
     else do {
       ((ok, s), ldb) \<leftarrow> rocks_on_shard ldb key (\<lambda>d. let (ok, s) = lib_put lib s (sd_db d) key v in ((ok, s), d\<lparr>sd_status := ok\<rparr>));
       Some (ok, s, ldb) })"

definition RocksDB_putBatch ::
  "('s, 'd, 'b) kv_lib \<Rightarrow> 's \<Rightarrow> ('d, 'b) RocksDB \<Rightarrow> string \<Rightarrow> string \<Rightarrow> (bool \<times> 's \<times> ('d, 'b) RocksDB) option" where
  "RocksDB_putBatch lib s ldb key v = (if key = [] then Some (False, s, ldb)
     else do {
       (_, ldb) \<leftarrow> rocks_on_shard ldb key (\<lambda>d. ((), d\<lparr>sd_batch := batch_put lib (sd_batch d) key v\<rparr>));
       Some (True, s, ldb) })"

definition RocksDB_del ::
  "('s, 'd, 'b) kv_lib \<Rightarrow> 's \<Rightarrow> ('d, 'b) RocksDB \<Rightarrow> string \<Rightarrow> (bool \<times> 's \<times> ('d, 'b) RocksDB) option" where
  "RocksDB_del lib s ldb key = (if key = [] then Some (False, s, ldb)
     else do {
       ((ok, s), ldb) \<leftarrow> rocks_on_shard ldb key (\<lambda>d. let (ok, s) = lib_delete lib s (sd_db d) key in ((ok, s), d\<lparr>sd_status := ok\<rparr>));
       Some (ok, s, ldb) })"

definition RocksDB_delBatch ::
  "('s, 'd, 'b) kv_lib \<Rightarrow> 's \<Rightarrow> ('d, 'b) RocksDB \<Rightarrow> string \<Rightarrow> (bool \<times> 's \<times> ('d, 'b) RocksDB) option" where
  "RocksDB_delBatch lib s ldb key = (if key = [] then Some (False, s, ldb)
     else do {
       (_, ldb) \<leftarrow> rocks_on_shard ldb key (\<lambda>d. ((), d\<lparr>sd_batch := batch_delete lib (sd_batch d) key\<rparr>));
       Some (True, s, ldb) })"

text \<open>The batches are cleared only when all of them have been written.\<close>

fun rocks_write_batches :: "('s, 'd, 'b) kv_lib \<Rightarrow> 's \<Rightarrow> ('d, 'b) shard_db list \<Rightarrow> bool \<times> 's" where
  "rocks_write_batches lib s [] = (True, s)"
| "rocks_write_batches lib s (d # ds) = (let (ok, s) = lib_write lib s (sd_db d) (sd_batch d) in
     if \<not> ok then (False, s) else rocks_write_batches lib s ds)"

definition RocksDB_applyBatch ::
  "('s, 'd, 'b) kv_lib \<Rightarrow> 's \<Rightarrow> ('d, 'b) RocksDB \<Rightarrow> bool \<times> 's \<times> ('d, 'b) RocksDB" where
  "RocksDB_applyBatch lib s ldb = (let (ok, s) = rocks_write_batches lib s (ldb_dbs ldb) in
     if \<not> ok then (False, s, ldb)
     else (True, s, ldb\<lparr>ldb_dbs := map (\<lambda>d. d\<lparr>sd_batch := batch_clear lib (sd_batch d)\<rparr>) (ldb_dbs ldb)\<rparr>))"

section \<open>Agreement with the store over LevelDB\<close>

lemma rocks_hash_words_eq: "rocks_hash_words h data = hash_words h data"
  by (induction h data rule: rocks_hash_words.induct) (simp_all add: Let_def rocks_decodeFixed32_def decodeFixed32_def)

lemma rocks_hash_tail_eq: "rocks_hash_tail h data = hash_tail h data"
  by (cases "(h, data)" rule: rocks_hash_tail.cases) (simp_all add: rocks_hash_last_def hash_last_def)

lemma rocks_shard_of_eq: "rocks_shard_of = shard_of"
  by (rule ext) (simp add: rocks_shard_of_def shard_of_def RocksDB_shard_def LevelDB_shard_def RocksDB_hashSlice_def LevelDB_hashSlice_def
    RocksDB_hash_def LevelDB_hash_def rocks_hash_words_eq rocks_hash_tail_eq)

lemma rocks_on_shard_eq: "rocks_on_shard = on_shard"
  by (intro ext) (simp add: rocks_on_shard_def on_shard_def rocks_shard_of_eq)

lemma rocks_open_shards_eq: "RocksDB_open_shards lib s ldb is = LevelDB_open_shards lib s ldb is"
  by (induction "is" arbitrary: s ldb) (simp_all split: prod.split)

lemma rocks_write_batches_eq: "rocks_write_batches lib s ds = write_batches lib s ds"
  by (induction ds arbitrary: s) (simp_all split: prod.split)

lemma RocksDB_eq:
  "RocksDB_open = LevelDB_open" "RocksDB_close = LevelDB_close" "RocksDB_opened = LevelDB_opened" "RocksDB_get = LevelDB_get"
  "RocksDB_put = LevelDB_put" "RocksDB_putBatch = LevelDB_putBatch" "RocksDB_del = LevelDB_del" "RocksDB_delBatch = LevelDB_delBatch"
  "RocksDB_applyBatch = LevelDB_applyBatch"
  by (intro ext, simp add: RocksDB_open_def LevelDB_open_def RocksDB_close_def LevelDB_close_def RocksDB_opened_def LevelDB_opened_def
    RocksDB_get_def LevelDB_get_def RocksDB_put_def LevelDB_put_def RocksDB_putBatch_def LevelDB_putBatch_def RocksDB_del_def LevelDB_del_def
    RocksDB_delBatch_def LevelDB_delBatch_def RocksDB_applyBatch_def LevelDB_applyBatch_def rocks_on_shard_eq rocks_open_shards_eq
    rocks_write_batches_eq)+

end
