(* ===== verification/Bench.thy ===== *)
theory Bench
  imports Shard_Rocks
begin

text \<open>
  The benchmark around the stores (\<^verbatim>\<open>src/main.cpp\<close>, \<^verbatim>\<open>src/util\<close>, \<^verbatim>\<open>src/ledger\<close>): the interface
  \<^verbatim>\<open>StateDB\<close> as a record of functions on the state of a store, the store over Redis, the choice of a
  store, the integrity test, the workers and the command line. The clock is a schedule, the list of
  the workers whose turns follow each other until the time is up; random numbers come from a sampler.
  Messages are left out, but for the conditions of the integrity test.
\<close>

section \<open>The interface of a store\<close>

text \<open>A value is \<open>Some\<close> when \<^verbatim>\<open>get\<close> assigns to \<^verbatim>\<open>*value\<close>.\<close>

record 'st StateDB =
  db_open :: "'st \<Rightarrow> string \<Rightarrow> bool \<times> 'st"
  db_opened :: "'st \<Rightarrow> bool"
  db_get :: "'st \<Rightarrow> string \<Rightarrow> (bool \<times> string option \<times> 'st) option"
  db_put :: "'st \<Rightarrow> string \<Rightarrow> string \<Rightarrow> (bool \<times> 'st) option"
  db_putBatch :: "'st \<Rightarrow> string \<Rightarrow> string \<Rightarrow> (bool \<times> 'st) option"
  db_del :: "'st \<Rightarrow> string \<Rightarrow> (bool \<times> 'st) option"
  db_delBatch :: "'st \<Rightarrow> string \<Rightarrow> (bool \<times> 'st) option"
  db_applyBatch :: "'st \<Rightarrow> (bool \<times> 'st) option"

definition LevelDB_StateDB :: "('s, 'd, 'b) kv_lib \<Rightarrow> ('s \<times> ('d, 'b) LevelDB) StateDB" where
  "LevelDB_StateDB lib = \<lparr>
     db_open = \<lambda>(s, ldb) name. LevelDB_open lib s ldb name,
     db_opened = \<lambda>(s, ldb). LevelDB_opened ldb,
     db_get = \<lambda>(s, ldb) k. do { (ok, v, ldb) \<leftarrow> LevelDB_get lib s ldb k; Some (ok, v, s, ldb) },
     db_put = \<lambda>(s, ldb) k v. LevelDB_put lib s ldb k v,
     db_putBatch = \<lambda>(s, ldb) k v. LevelDB_putBatch lib s ldb k v,
     db_del = \<lambda>(s, ldb) k. LevelDB_del lib s ldb k,
     db_delBatch = \<lambda>(s, ldb) k. LevelDB_delBatch lib s ldb k,
     db_applyBatch = \<lambda>(s, ldb). Some (LevelDB_applyBatch lib s ldb)\<rparr>"

definition RocksDB_StateDB :: "('s, 'd, 'b) kv_lib \<Rightarrow> ('s \<times> ('d, 'b) RocksDB) StateDB" where
  "RocksDB_StateDB lib = \<lparr>
     db_open = \<lambda>(s, rdb) name. RocksDB_open lib s rdb name,
     db_opened = \<lambda>(s, rdb). RocksDB_opened rdb,
     db_get = \<lambda>(s, rdb) k. do { (ok, v, rdb) \<leftarrow> RocksDB_get lib s rdb k; Some (ok, v, s, rdb) },
     db_put = \<lambda>(s, rdb) k v. RocksDB_put lib s rdb k v,
     db_putBatch = \<lambda>(s, rdb) k v. RocksDB_putBatch lib s rdb k v,
     db_del = \<lambda>(s, rdb) k. RocksDB_del lib s rdb k,
     db_delBatch = \<lambda>(s, rdb) k. RocksDB_delBatch lib s rdb k,
     db_applyBatch = \<lambda>(s, rdb). Some (RocksDB_applyBatch lib s rdb)\<rparr>"

section \<open>The store over Redis\<close>

text \<open>
  The client library: \<^verbatim>\<open>del\<close> returns how many keys it removed. The pointer to the client is null
  at first; \<^verbatim>\<open>close\<close> deletes the client and leaves the pointer, so that a second \<^verbatim>\<open>close\<close> is
  undefined (\<open>None\<close>), and so is every call without a client.
\<close>

record 'r redis_lib =
  redis_connect :: "string \<Rightarrow> 'r"
  redis_get :: "'r \<Rightarrow> string \<Rightarrow> string option"
  redis_set :: "'r \<Rightarrow> string \<Rightarrow> string \<Rightarrow> bool \<times> 'r"
  redis_del :: "'r \<Rightarrow> string \<Rightarrow> nat \<times> 'r"
  redis_flushall :: "'r \<Rightarrow> 'r"

datatype 'r redis_ptr = Redis_null | Redis 'r | Redis_deleted

record 'r RedisDB =
  rds_isOpen :: bool
  rds_redis :: "'r redis_ptr"

fun redis_client :: "'r redis_ptr \<Rightarrow> 'r option" where
  "redis_client (Redis r) = Some r"
| "redis_client _ = None"

definition RedisDB_open :: "'r redis_lib \<Rightarrow> 'r RedisDB \<Rightarrow> string \<Rightarrow> bool \<times> 'r RedisDB" where
  "RedisDB_open lib st dbname = (True, st\<lparr>rds_redis := Redis (redis_connect lib ''/tmp/redis.sock''), rds_isOpen := True\<rparr>)"

definition RedisDB_close :: "'r RedisDB \<Rightarrow> 'r RedisDB option" where
  "RedisDB_close st = (case rds_redis st of
       Redis_null \<Rightarrow> Some (st\<lparr>rds_isOpen := False\<rparr>)
     | Redis _ \<Rightarrow> Some (st\<lparr>rds_redis := Redis_deleted, rds_isOpen := False\<rparr>)
     | Redis_deleted \<Rightarrow> None)"

definition RedisDB_opened :: "'r RedisDB \<Rightarrow> bool" where
  "RedisDB_opened st = rds_isOpen st"

definition RedisDB_get :: "'r redis_lib \<Rightarrow> 'r RedisDB \<Rightarrow> string \<Rightarrow> (bool \<times> string option \<times> 'r RedisDB) option" where
  "RedisDB_get lib st key = do {
     r \<leftarrow> redis_client (rds_redis st);
     Some (case redis_get lib r key of Some v \<Rightarrow> (True, Some v, st) | None \<Rightarrow> (False, None, st)) }"

definition RedisDB_put :: "'r redis_lib \<Rightarrow> 'r RedisDB \<Rightarrow> string \<Rightarrow> string \<Rightarrow> (bool \<times> 'r RedisDB) option" where
  "RedisDB_put lib st key v = do {
     r \<leftarrow> redis_client (rds_redis st);
     let (ok, r) = redis_set lib r key v;
     Some (ok, st\<lparr>rds_redis := Redis r\<rparr>) }"

definition RedisDB_putBatch :: "'r redis_lib \<Rightarrow> 'r RedisDB \<Rightarrow> string \<Rightarrow> string \<Rightarrow> (bool \<times> 'r RedisDB) option" where
  "RedisDB_putBatch lib st key v = RedisDB_put lib st key v"

definition RedisDB_del :: "'r redis_lib \<Rightarrow> 'r RedisDB \<Rightarrow> string \<Rightarrow> (bool \<times> 'r RedisDB) option" where
  "RedisDB_del lib st key = do {
     r \<leftarrow> redis_client (rds_redis st);
     let (n, r) = redis_del lib r key;
     Some (n \<noteq> 0, st\<lparr>rds_redis := Redis r\<rparr>) }"

definition RedisDB_delBatch :: "'r redis_lib \<Rightarrow> 'r RedisDB \<Rightarrow> string \<Rightarrow> (bool \<times> 'r RedisDB) option" where
  "RedisDB_delBatch lib st key = RedisDB_del lib st key"

definition RedisDB_applyBatch :: "'r RedisDB \<Rightarrow> (bool \<times> 'r RedisDB) option" where
  "RedisDB_applyBatch st = Some (True, st)"

definition RedisDB_clear :: "'r redis_lib \<Rightarrow> 'r RedisDB \<Rightarrow> 'r RedisDB option" where
  "RedisDB_clear lib st = do { r \<leftarrow> redis_client (rds_redis st); Some (st\<lparr>rds_redis := Redis (redis_flushall lib r)\<rparr>) }"

definition RedisDB_StateDB :: "'r redis_lib \<Rightarrow> 'r RedisDB StateDB" where
  "RedisDB_StateDB lib = \<lparr>db_open = RedisDB_open lib, db_opened = RedisDB_opened, db_get = RedisDB_get lib, db_put = RedisDB_put lib,
     db_putBatch = RedisDB_putBatch lib, db_del = RedisDB_del lib, db_delBatch = RedisDB_delBatch lib, db_applyBatch = RedisDB_applyBatch\<rparr>"

section \<open>The choice of a store\<close>

datatype db_class = C_LevelDB | C_RocksDB | C_RedisDB | C_LMDB

definition createSingle :: "int \<Rightarrow> db_class" where
  "createSingle dbType = (if dbType = 0 then C_LevelDB else if dbType = 1 then C_RocksDB else if dbType = 2 then C_RedisDB
     else if dbType = 3 then C_LMDB else C_LevelDB)"

section \<open>The command line\<close>

record options =
  o_dbType :: int
  o_readWeight :: int
  o_writeWeight :: int
  o_duration :: int
  o_stringLength :: int
  o_keys :: int
  o_threads :: u32

text \<open>What \<^verbatim>\<open>handle_arguments\<close> ends in: \<^verbatim>\<open>exit(0)\<close> after a text, after the integrity test, or at once.\<close>

datatype parsed = Exit_help | Exit_integrity | Exit_no_db | Parsed options

text \<open>The options that were given with their values, and what \<^verbatim>\<open>hardware_concurrency\<close> returns.\<close>

definition handle_arguments :: "(string \<rightharpoonup> int) \<Rightarrow> u32 \<Rightarrow> parsed" where
  "handle_arguments vm numCores = (
     let result = \<lparr>o_dbType = 0, o_readWeight = 0, o_writeWeight = 0, o_duration = 0, o_stringLength = 0, o_keys = 0, o_threads = 0\<rparr> in
     if vm ''help'' \<noteq> None then Exit_help
     else if vm ''integrity'' \<noteq> None then Exit_integrity
     else (case vm ''db'' of None \<Rightarrow> Exit_no_db
     | Some t \<Rightarrow>
       (let result = result\<lparr>o_dbType := t\<rparr>;
            result = (case vm ''read'' of Some n \<Rightarrow> result\<lparr>o_readWeight := n\<rparr> | None \<Rightarrow> result\<lparr>o_readWeight := 60\<rparr>);
            result = result\<lparr>o_writeWeight := 100 - o_readWeight result\<rparr>;
            result = (case vm ''duration'' of Some n \<Rightarrow> result\<lparr>o_duration := n\<rparr> | None \<Rightarrow> result\<lparr>o_duration := 60\<rparr>);
            result = (case vm ''threads'' of Some n \<Rightarrow> result\<lparr>o_threads := of_int n\<rparr>
              | None \<Rightarrow> result\<lparr>o_threads := (if numCores = 0 then 1 else numCores - 1)\<rparr>);
            result = (case vm ''len'' of Some n \<Rightarrow> result\<lparr>o_stringLength := n\<rparr> | None \<Rightarrow> result\<lparr>o_stringLength := 5000\<rparr>);
            result = (case vm ''keys'' of Some n \<Rightarrow> result\<lparr>o_stringLength := n\<rparr> | None \<Rightarrow> result\<lparr>o_stringLength := 10000\<rparr>)
        in Parsed result)))"

section \<open>Random numbers\<close>

text \<open>\<^verbatim>\<open>std::uniform_int_distribution<int>(a, b)\<close> on the generator.\<close>

type_synonym 'g sampler = "'g \<Rightarrow> int \<Rightarrow> int \<Rightarrow> int \<times> 'g"

record 'g RandomEngine =
  re_key :: "int \<times> int"
  re_100 :: "int \<times> int"
  re_r :: 'g

definition mk_RandomEngine :: "int \<Rightarrow> int \<Rightarrow> 'g \<Rightarrow> 'g RandomEngine" where
  "mk_RandomEngine keyLength valueLength g = \<lparr>re_key = (0, keyLength), re_100 = (0, 100), re_r = g\<rparr>"

definition randKeys :: "'g sampler \<Rightarrow> 'g RandomEngine \<Rightarrow> int \<times> 'g RandomEngine" where
  "randKeys sample re = (let (x, g) = sample (re_r re) (fst (re_key re)) (snd (re_key re)) in (x, re\<lparr>re_r := g\<rparr>))"

definition rand100 :: "'g sampler \<Rightarrow> 'g RandomEngine \<Rightarrow> int \<times> 'g RandomEngine" where
  "rand100 sample re = (let (x, g) = sample (re_r re) (fst (re_100 re)) (snd (re_100 re)) in (x, re\<lparr>re_r := g\<rparr>))"

section \<open>Workers\<close>

record Worker =
  wk_opts :: options
  wk_readCount :: u64
  wk_writeCount :: u64
  wk_readResult :: string
  wk_long_string :: string

definition mk_Worker :: "options \<Rightarrow> Worker" where
  "mk_Worker opts = \<lparr>wk_opts = opts, wk_readCount = 0, wk_writeCount = 0, wk_readResult = [],
     wk_long_string = replicate (nat (o_stringLength opts)) CHR ''x''\<rparr>"

text \<open>One turn of the loop of \<^verbatim>\<open>Worker::run\<close>. Turns of different workers do not overlap here.\<close>

definition Worker_turn ::
  "'st StateDB \<Rightarrow> 'g sampler \<Rightarrow> Worker \<Rightarrow> 'st \<Rightarrow> 'g RandomEngine \<Rightarrow> (Worker \<times> 'st \<times> 'g RandomEngine) option" where
  "Worker_turn sdb sample wk st re = (
     let (index, re) = randKeys sample re;
         expectedValue = wk_long_string wk @ int_to_string index;
         (x, re) = rand100 sample re
     in if x < o_readWeight (wk_opts wk) then do {
          (_, v, st) \<leftarrow> db_get sdb st (int_to_string index);
          Some (wk\<lparr>wk_readCount := wk_readCount wk + 1, wk_readResult := (case v of Some v \<Rightarrow> v | None \<Rightarrow> wk_readResult wk)\<rparr>, st, re) }
        else do {
          (_, st) \<leftarrow> db_put sdb st (int_to_string index) expectedValue;
          Some (wk\<lparr>wk_writeCount := wk_writeCount wk + 1\<rparr>, st, re) })"

fun run_workers ::
  "'st StateDB \<Rightarrow> 'g sampler \<Rightarrow> nat list \<Rightarrow> Worker list \<Rightarrow> 'st \<Rightarrow> 'g RandomEngine \<Rightarrow> (Worker list \<times> 'st \<times> 'g RandomEngine) option" where
  "run_workers sdb sample [] wks st re = Some (wks, st, re)"
| "run_workers sdb sample (i # is) wks st re = do {
     wk \<leftarrow> rd wks i;
     (wk, st, re) \<leftarrow> Worker_turn sdb sample wk st re;
     wks \<leftarrow> wr wks i wk;
     run_workers sdb sample is wks st re }"

section \<open>The tests\<close>

fun preload :: "'st StateDB \<Rightarrow> string \<Rightarrow> nat list \<Rightarrow> 'st \<Rightarrow> 'st option" where
  "preload sdb long_string [] st = Some st"
| "preload sdb long_string (i # is) st = do {
     (_, st) \<leftarrow> db_put sdb st (int_to_string (int i)) (long_string @ int_to_string (int i));
     preload sdb long_string is st }"

text \<open>
  \<^verbatim>\<open>full_test\<close>: \<open>Inl\<close> is \<^verbatim>\<open>exit\<close>, or the exception of a string of negative length; the wait for a
  store that does not report itself open has no end (\<open>None\<close>), and random keys of a negative range are
  undefined. Returns the numbers of reads and of writes.
\<close>

datatype ended = Exit nat | Terminate

definition full_test ::
  "'st StateDB \<Rightarrow> 'g sampler \<Rightarrow> 'g \<Rightarrow> options \<Rightarrow> string \<Rightarrow> nat list \<Rightarrow> 'st \<Rightarrow> (ended + (u64 \<times> u64 \<times> 'st)) option" where
  "full_test sdb sample g opts dbPath schedule st = (
     let (ok, st) = db_open sdb st dbPath in
     if \<not> ok then Some (Inl (Exit 1))
     else if \<not> db_opened sdb st then None
     else if o_stringLength opts < 0 then Some (Inl Terminate)
     else do {
       st \<leftarrow> preload sdb (replicate (nat (o_stringLength opts)) CHR ''x'') [0..<nat (o_keys opts)] st;
       (wks, st, _) \<leftarrow> if o_keys opts < 0 then None else run_workers sdb sample schedule (replicate (unat (o_threads opts)) (mk_Worker opts)) st
         (mk_RandomEngine (o_keys opts) (o_stringLength opts) g);
       let readCount = sum_list (map wk_readCount wks);
       let writeCount = sum_list (map wk_writeCount wks);
       (_, st) \<leftarrow> db_applyBatch sdb st;
       Some (Inr (readCount, writeCount, st)) })"

text \<open>Returns the conditions with their messages, in the order in which they are tested.\<close>

definition integrity_test :: "'st StateDB \<Rightarrow> string \<Rightarrow> 'st \<Rightarrow> (ended + ((bool \<times> string) list \<times> 'st)) option" where
  "integrity_test sdb dbPath st = (
     let (ok, st) = db_open sdb st dbPath in
     if \<not> ok then Some (Inl (Exit 1))
     else if \<not> db_opened sdb st then None
     else do {
       (c1, st) \<leftarrow> db_put sdb st ''foo'' ''100'';
       (c2, st) \<leftarrow> db_putBatch sdb st ''bar'' ''200'';
       (c3, st) \<leftarrow> db_putBatch sdb st ''baz'' ''300'';
       (c4, st) \<leftarrow> db_applyBatch sdb st;
       let valueResult = [];
       (c5, v, st) \<leftarrow> db_get sdb st ''foo'';
       let valueResult = (case v of Some v \<Rightarrow> v | None \<Rightarrow> valueResult);
       let c6 = (valueResult = ''100'');
       (c7, v, st) \<leftarrow> db_get sdb st ''bar'';
       let valueResult = (case v of Some v \<Rightarrow> v | None \<Rightarrow> valueResult);
       let c8 = (valueResult = ''200'');
       (c9, st) \<leftarrow> db_del sdb st ''foo'';
       (c10, st) \<leftarrow> db_delBatch sdb st ''bar'';
       (c11, st) \<leftarrow> db_delBatch sdb st ''baz'';
       (c12, st) \<leftarrow> db_applyBatch sdb st;
       (c13, _, st) \<leftarrow> db_get sdb st ''foo'';
       Some (Inr ([(c1, ''put single''), (c2, ''put batch''), (c3, ''put batch''), (c4, ''apply batch''), (c5, ''call get''),
         (c6, ''get result match''), (c7, []), (c8, []), (c9, ''del single''), (c10, ''del batch''), (c11, []), (c12, []),
         (\<not> c13, ''deleted'')], st)) })"

section \<open>The size of a directory\<close>

datatype fs_entry = Fs_file nat | Fs_dir "(string \<times> fs_entry) list" | Fs_other

text \<open>An assignment to an \<^verbatim>\<open>int\<close>: \<^verbatim>\<open>auto size = 0\<close> is one.\<close>

definition as_int :: "int \<Rightarrow> int" where
  "as_int x = sint (of_int x :: u32)"

fun treeSize :: "fs_entry \<Rightarrow> int" and treeSize_loop :: "(string \<times> fs_entry) list \<Rightarrow> int \<Rightarrow> int" where
  "treeSize (Fs_dir es) = treeSize_loop es 0"
| "treeSize _ = 0"
| "treeSize_loop [] sz = sz"
| "treeSize_loop ((_, e) # es) sz = treeSize_loop es (case e of
       Fs_dir _ \<Rightarrow> as_int (sz + treeSize e)
     | Fs_file n \<Rightarrow> as_int (sz + int n)
     | Fs_other \<Rightarrow> sz)"

end
