(* ===== verification/Bench_Spec.thy ===== *)
theory Bench_Spec
  imports Bench
begin

text \<open>
  What the benchmark relies on of a store is the locale \<open>state_db\<close>: a map and a queue of pending
  updates. The integrity test and the workers are proved against it, and the stores over LevelDB,
  RocksDB and Redis provide it when their libraries keep their promises and no call fails.
\<close>

section \<open>The interface\<close>

text \<open>Writes change the keys of the range only, and only to the values that belong to them.\<close>

definition own_writes :: "string \<Rightarrow> int \<times> int \<Rightarrow> (string \<rightharpoonup> string) \<Rightarrow> (string \<rightharpoonup> string) \<Rightarrow> bool" where
  "own_writes L ab m m' \<longleftrightarrow>
     (\<forall>k. m' k = m k \<or> (\<exists>i. fst ab \<le> i \<and> i \<le> snd ab \<and> k = int_to_string i \<and> m' k = Some (L @ k)))"

locale state_db =
  fixes sdb :: "'st StateDB"
    and closed :: "'st \<Rightarrow> bool"
    and holds :: "'st \<Rightarrow> (string \<rightharpoonup> string) \<Rightarrow> batch_op list \<Rightarrow> bool"
  assumes opens: "closed st \<Longrightarrow> \<exists>st' m. db_open sdb st name = (True, st') \<and> db_opened sdb st' \<and> holds st' m []"
    and gets: "holds st m p \<Longrightarrow> \<exists>st'. db_get sdb st k = Some (m k \<noteq> None, m k, st') \<and> holds st' m p"
    and puts: "holds st m p \<Longrightarrow> k \<noteq> [] \<Longrightarrow> \<exists>st'. db_put sdb st k v = Some (True, st') \<and> holds st' (m(k \<mapsto> v)) p"
    and dels: "holds st m p \<Longrightarrow> k \<noteq> [] \<Longrightarrow>
      \<exists>ok st'. db_del sdb st k = Some (ok, st') \<and> (m k \<noteq> None \<longrightarrow> ok) \<and> holds st' (m(k := None)) p"
    and batch_puts: "holds st m p \<Longrightarrow> k \<noteq> [] \<Longrightarrow> \<exists>st' m' p'. db_putBatch sdb st k v = Some (True, st') \<and> holds st' m' p' \<and>
      apply_ops p' m' = apply_ops (p @ [BPut k v]) m"
    and batch_dels: "holds st m p \<Longrightarrow> k \<noteq> [] \<Longrightarrow> \<exists>ok st' m' p'. db_delBatch sdb st k = Some (ok, st') \<and>
      (apply_ops p m k \<noteq> None \<longrightarrow> ok) \<and> holds st' m' p' \<and> apply_ops p' m' = apply_ops (p @ [BDel k]) m"
    and applies: "holds st m p \<Longrightarrow> \<exists>st'. db_applyBatch sdb st = Some (True, st') \<and> holds st' (apply_ops p m) []"
begin

lemma integrity:
  assumes "closed st"
  shows "\<exists>cs st'. integrity_test sdb path st = Some (Inr (cs, st')) \<and> length cs = 13 \<and> list_all fst cs"
proof -
  obtain s0 m0 where s0: "db_open sdb st path = (True, s0)" "db_opened sdb s0" "holds s0 m0 []" using opens [OF assms] by blast
  obtain s1 where s1: "db_put sdb s0 ''foo'' ''100'' = Some (True, s1)" "holds s1 (m0(''foo'' \<mapsto> ''100'')) []" using puts [OF s0(3)] by blast
  obtain s2 m2 p2 where s2: "db_putBatch sdb s1 ''bar'' ''200'' = Some (True, s2)" "holds s2 m2 p2"
    "apply_ops p2 m2 = m0(''foo'' \<mapsto> ''100'', ''bar'' \<mapsto> ''200'')" using batch_puts [OF s1(2), of "''bar''" "''200''"] by auto
  obtain s3 m3 p3 where s3: "db_putBatch sdb s2 ''baz'' ''300'' = Some (True, s3)" "holds s3 m3 p3"
    "apply_ops p3 m3 = m0(''foo'' \<mapsto> ''100'', ''bar'' \<mapsto> ''200'', ''baz'' \<mapsto> ''300'')" using batch_puts [OF s2(2), of "''baz''" "''300''"] s2(3) by auto
  obtain s4 where s4: "db_applyBatch sdb s3 = Some (True, s4)" "holds s4 (apply_ops p3 m3) []" using applies [OF s3(2)] by blast
  have m4: "apply_ops p3 m3 ''foo'' = Some ''100''" "apply_ops p3 m3 ''bar'' = Some ''200''" "apply_ops p3 m3 ''baz'' = Some ''300''"
    using s3(3) by simp_all
  obtain s5 where s5: "db_get sdb s4 ''foo'' = Some (True, Some ''100'', s5)" "holds s5 (apply_ops p3 m3) []" using gets [OF s4(2), of "''foo''"] m4 by auto
  obtain s6 where s6: "db_get sdb s5 ''bar'' = Some (True, Some ''200'', s6)" "holds s6 (apply_ops p3 m3) []" using gets [OF s5(2), of "''bar''"] m4 by auto
  obtain s7 where s7: "db_del sdb s6 ''foo'' = Some (True, s7)" "holds s7 ((apply_ops p3 m3)(''foo'' := None)) []"
    using dels [OF s6(2), of "''foo''"] m4 by auto
  obtain s8 m8 p8 where s8: "db_delBatch sdb s7 ''bar'' = Some (True, s8)" "holds s8 m8 p8"
    "apply_ops p8 m8 = (apply_ops p3 m3)(''foo'' := None, ''bar'' := None)" using batch_dels [OF s7(2), of "''bar''"] m4 by auto
  obtain s9 m9 p9 where s9: "db_delBatch sdb s8 ''baz'' = Some (True, s9)" "holds s9 m9 p9"
    "apply_ops p9 m9 = (apply_ops p3 m3)(''foo'' := None, ''bar'' := None, ''baz'' := None)"
    using batch_dels [OF s8(2), of "''baz''"] m4 s8(3) by auto
  obtain s10 where s10: "db_applyBatch sdb s9 = Some (True, s10)" "holds s10 (apply_ops p9 m9) []" using applies [OF s9(2)] by blast
  have "apply_ops p9 m9 ''foo'' = None" using s9(3) by simp
  then obtain s11 where s11: "db_get sdb s10 ''foo'' = Some (False, None, s11)" using gets [OF s10(2), of "''foo''"] by auto
  show ?thesis
    by (simp add: integrity_test_def Let_def s0(1,2) s1(1) s2(1) s3(1) s4(1) s5(1) s6(1) s7(1) s8(1) s9(1) s10(1) s11)
qed

lemma preloads:
  assumes "holds st m p"
  shows "\<exists>st'. preload sdb L [a..<b] st = Some st' \<and>
    holds st' (\<lambda>k. if \<exists>i. a \<le> i \<and> i < b \<and> k = int_to_string (int i) then Some (L @ k) else m k) p"
  using assms
proof (induction "b - a" arbitrary: a st m)
  case 0
  then have "(\<lambda>k. if \<exists>i. a \<le> i \<and> i < b \<and> k = int_to_string (int i) then Some (L @ k) else m k) = m" by (intro ext) auto
  then show ?case using 0 by simp
next
  case (Suc n)
  let ?k = "int_to_string (int a)"
  obtain st1 where st1: "db_put sdb st ?k (L @ ?k) = Some (True, st1)" "holds st1 (m(?k \<mapsto> L @ ?k)) p"
    using puts [OF Suc.prems int_to_string_not_empty] by blast
  have n: "n = b - Suc a" using Suc.hyps(2) by simp
  have a: "a < b" using Suc.hyps(2) by simp
  have x: "(\<exists>i. a \<le> i \<and> i < b \<and> Q i) \<longleftrightarrow> Q a \<or> (\<exists>i. Suc a \<le> i \<and> i < b \<and> Q i)" for Q
    using a by (metis Suc_le_eq le_eq_less_or_eq)
  have e: "(\<lambda>k. if \<exists>i. Suc a \<le> i \<and> i < b \<and> k = int_to_string (int i) then Some (L @ k) else (m(?k \<mapsto> L @ ?k)) k) =
      (\<lambda>k. if \<exists>i. a \<le> i \<and> i < b \<and> k = int_to_string (int i) then Some (L @ k) else m k)"
    by (rule ext) (auto simp: x)
  have "[a..<b] = a # [Suc a..<b]" using a by (simp add: upt_rec)
  then show ?case using Suc.hyps(1) [OF n st1(2)] st1(1) unfolding e by simp
qed

lemma turn:
  assumes h: "holds st m p" and s: "\<And>g a b. a \<le> b \<Longrightarrow> a \<le> fst (sample g a b) \<and> fst (sample g a b) \<le> b"
    and k: "fst (re_key re) \<le> snd (re_key re)"
  shows "\<exists>wk' st' re' m'. Worker_turn sdb sample wk st re = Some (wk', st', re') \<and> holds st' m' p \<and>
    own_writes (wk_long_string wk) (re_key re) m m' \<and> re_key re' = re_key re \<and> wk_long_string wk' = wk_long_string wk \<and>
    wk_readCount wk' + wk_writeCount wk' = wk_readCount wk + wk_writeCount wk + 1"
proof -
  obtain i g where i: "sample (re_r re) (fst (re_key re)) (snd (re_key re)) = (i, g)" by (rule prod.exhaust)
  have r: "fst (re_key re) \<le> i" "i \<le> snd (re_key re)" using s [OF k, of "re_r re"] i by simp_all
  define re1 where "re1 = re\<lparr>re_r := g\<rparr>"
  obtain x g2 where x: "sample (re_r re1) (fst (re_100 re1)) (snd (re_100 re1)) = (x, g2)" by (rule prod.exhaust)
  define re2 where "re2 = re1\<lparr>re_r := g2\<rparr>"
  have rk: "randKeys sample re = (i, re1)" "rand100 sample re1 = (x, re2)" "re_key re2 = re_key re"
    using i x by (simp_all add: randKeys_def rand100_def re1_def re2_def)
  let ?k = "int_to_string i" and ?v = "wk_long_string wk @ int_to_string i"
  obtain st1 where g1: "db_get sdb st ?k = Some (m ?k \<noteq> None, m ?k, st1)" "holds st1 m p" using gets [OF h] by blast
  obtain st2 where p1: "db_put sdb st ?k ?v = Some (True, st2)" "holds st2 (m(?k \<mapsto> ?v)) p" using puts [OF h int_to_string_not_empty] by blast
  have w: "own_writes (wk_long_string wk) (re_key re) m (m(?k \<mapsto> ?v))" "own_writes (wk_long_string wk) (re_key re) m m"
    using r by (auto simp: own_writes_def)
  show ?thesis
  proof (cases "x < o_readWeight (wk_opts wk)")
    case True
    then show ?thesis using rk g1 w(2) by (simp add: Worker_turn_def) blast
  next
    case False
    then show ?thesis using rk p1 w(1) by (simp add: Worker_turn_def) blast
  qed
qed

lemma own_writes_trans:
  assumes "own_writes L ab m m1" "own_writes L ab m1 m2"
  shows "own_writes L ab m m2"
  using assms unfolding own_writes_def by metis

lemma sum_list_update_word:
  "i < length xs \<Longrightarrow> sum_list (map f (xs[i := x])) = sum_list (map f xs) - f (xs ! i) + (f x :: u64)"
proof (induction xs arbitrary: i)
  case (Cons a xs)
  then show ?case by (cases i) simp_all
qed simp

lemma runs:
  assumes s: "\<And>g a b. a \<le> b \<Longrightarrow> a \<le> fst (sample g a b) \<and> fst (sample g a b) \<le> b"
    and h: "holds st m p" and k: "fst (re_key re) \<le> snd (re_key re)"
    and i: "\<forall>i\<in>set is. i < length wks" and L: "\<forall>wk\<in>set wks. wk_long_string wk = L"
  shows "\<exists>wks' st' re' m'. run_workers sdb sample is wks st re = Some (wks', st', re') \<and> holds st' m' p \<and>
    own_writes L (re_key re) m m' \<and>
    sum_list (map wk_readCount wks') + sum_list (map wk_writeCount wks') =
      sum_list (map wk_readCount wks) + sum_list (map wk_writeCount wks) + of_nat (length is)"
  using h k i L
proof (induction "is" arbitrary: wks st re m)
  case Nil
  then show ?case by (auto simp: own_writes_def)
next
  case (Cons j js)
  have j: "j < length wks" using Cons.prems(3) by simp
  have Lj: "wk_long_string (wks ! j) = L" using Cons.prems(4) j by simp
  obtain wk1 st1 re1 m1 where t: "Worker_turn sdb sample (wks ! j) st re = Some (wk1, st1, re1)" "holds st1 m1 p"
    "own_writes L (re_key re) m m1" "re_key re1 = re_key re" "wk_long_string wk1 = L"
    "wk_readCount wk1 + wk_writeCount wk1 = wk_readCount (wks ! j) + wk_writeCount (wks ! j) + 1"
    using turn [where sample = sample and wk = "wks ! j", OF Cons.prems(1) s Cons.prems(2)] Lj by auto
  let ?wks = "wks[j := wk1]"
  have "\<forall>wk\<in>set ?wks. wk_long_string wk = L"
    using Cons.prems(4) t(5) set_update_subset_insert [of wks j wk1] by blast
  moreover have "\<forall>i\<in>set js. i < length ?wks" using Cons.prems(3) by simp
  moreover have "fst (re_key re1) \<le> snd (re_key re1)" using Cons.prems(2) t(4) by simp
  ultimately obtain wks2 st2 re2 m2 where I: "run_workers sdb sample js ?wks st1 re1 = Some (wks2, st2, re2)" "holds st2 m2 p"
    "own_writes L (re_key re) m1 m2"
    "sum_list (map wk_readCount wks2) + sum_list (map wk_writeCount wks2) =
      sum_list (map wk_readCount ?wks) + sum_list (map wk_writeCount ?wks) + of_nat (length js)"
    using Cons.IH [OF t(2), of re1 ?wks] t(4) by auto
  have "run_workers sdb sample (j # js) wks st re = Some (wks2, st2, re2)" using j t(1) I(1) by (simp add: rd_def wr_def)
  moreover have "sum_list (map wk_readCount ?wks) + sum_list (map wk_writeCount ?wks) =
      sum_list (map wk_readCount wks) + sum_list (map wk_writeCount wks) + 1"
    using t(6) by (simp add: sum_list_update_word [OF j] algebra_simps)
  ultimately show ?case using I(2,4) own_writes_trans [OF t(3) I(3)] by (auto simp: algebra_simps)
qed

lemma full:
  assumes s: "\<And>g a b. a \<le> b \<Longrightarrow> a \<le> fst (sample g a b) \<and> fst (sample g a b) \<le> b"
    and c: "closed st" and k: "0 \<le> o_keys opts" "0 \<le> o_stringLength opts" and i: "\<forall>i\<in>set schedule. i < unat (o_threads opts)"
    and L: "L = replicate (nat (o_stringLength opts)) CHR ''x''"
  shows "\<exists>r w st' m0 m. full_test sdb sample g opts path schedule st = Some (Inr (r, w, st')) \<and> holds st' m [] \<and>
    r + w = of_nat (length schedule) \<and> own_writes L (0, o_keys opts) m0 m \<and>
    (\<forall>i. 0 \<le> i \<and> i < o_keys opts \<longrightarrow> m (int_to_string i) = Some (L @ int_to_string i))"
proof -
  obtain s0 m0 where s0: "db_open sdb st path = (True, s0)" "db_opened sdb s0" "holds s0 m0 []" using opens [OF c] by blast
  define m1 where "m1 = (\<lambda>k. if \<exists>i. 0 \<le> i \<and> i < nat (o_keys opts) \<and> k = int_to_string (int i) then Some (L @ k) else m0 k)"
  obtain s1 where s1: "preload sdb L [0..<nat (o_keys opts)] s0 = Some s1" "holds s1 m1 []"
    using preloads [OF s0(3), of L 0 "nat (o_keys opts)"] unfolding m1_def by blast
  define wks where "wks = replicate (unat (o_threads opts)) (mk_Worker opts)"
  define re where "re = mk_RandomEngine (o_keys opts) (o_stringLength opts) g"
  have re: "re_key re = (0, o_keys opts)" by (simp add: re_def mk_RandomEngine_def)
  have z: "sum_list (map wk_readCount wks) = 0" "sum_list (map wk_writeCount wks) = 0"
    by (simp_all add: wks_def mk_Worker_def sum_list_replicate)
  have "fst (re_key re) \<le> snd (re_key re)" "\<forall>i\<in>set schedule. i < length wks" "\<forall>wk\<in>set wks. wk_long_string wk = L"
    using k i L by (simp_all add: re wks_def mk_Worker_def)
  from runs [where sample = sample, OF s s1(2) this]
  obtain wks' s2 re' m where r: "run_workers sdb sample schedule wks s1 re = Some (wks', s2, re')" "holds s2 m []"
    "own_writes L (0, o_keys opts) m1 m"
    "sum_list (map wk_readCount wks') + sum_list (map wk_writeCount wks') = of_nat (length schedule)"
    unfolding z re by auto
  obtain s3 where s3: "db_applyBatch sdb s2 = Some (True, s3)" "holds s3 m []" using applies [OF r(2)] by auto
  have "m1 x = m0 x \<or> (\<exists>i. 0 \<le> i \<and> i \<le> o_keys opts \<and> x = int_to_string i \<and> m1 x = Some (L @ x))" for x
  proof (cases "\<exists>i. 0 \<le> i \<and> i < nat (o_keys opts) \<and> x = int_to_string (int i)")
    case True
    then obtain i where i: "i < nat (o_keys opts)" "x = int_to_string (int i)" by blast
    have "m1 x = Some (L @ x)" unfolding m1_def using True by (rule if_P)
    then show ?thesis using i by (intro disjI2 exI [of _ "int i"]) simp
  next
    case False
    then show ?thesis unfolding m1_def by (simp only: if_False simp_thms)
  qed
  then have "own_writes L (0, o_keys opts) m0 m1" by (simp add: own_writes_def)
  then have o: "own_writes L (0, o_keys opts) m0 m" using r(3) own_writes_trans by blast
  have "m (int_to_string i) = Some (L @ int_to_string i)" if "0 \<le> i" "i < o_keys opts" for i
  proof -
    have "\<exists>j. 0 \<le> j \<and> j < nat (o_keys opts) \<and> int_to_string i = int_to_string (int j)" using that by (intro exI [of _ "nat i"]) simp
    then have "m1 (int_to_string i) = Some (L @ int_to_string i)" unfolding m1_def by (rule if_P)
    moreover have "m (int_to_string i) = m1 (int_to_string i) \<or> m (int_to_string i) = Some (L @ int_to_string i)"
      using r(3) unfolding own_writes_def by metis
    ultimately show ?thesis by auto
  qed
  moreover have "full_test sdb sample g opts path schedule st =
      Some (Inr (sum_list (map wk_readCount wks'), sum_list (map wk_writeCount wks'), s3))"
    using s1(1) r(1) s3(1) unfolding full_test_def s0(1) Let_def L [symmetric] wks_def [symmetric] re_def [symmetric] by (simp add: s0(2) k not_less)
  ultimately show ?thesis using s3(2) r(4) o by blast
qed

end

section \<open>The stores\<close>

text \<open>The store over LevelDB: a library that keeps its promises, no call of which fails.\<close>

definition level_closed ::
  "('s, 'd, 'b) kv_lib \<Rightarrow> ('s \<Rightarrow> 'd \<Rightarrow> string \<rightharpoonup> string) \<Rightarrow> ('s \<Rightarrow> 'd set) \<Rightarrow> ('b \<Rightarrow> batch_op list) \<Rightarrow> 's \<times> ('d, 'b) LevelDB \<Rightarrow> bool" where
  "level_closed lib cont hs ops st \<longleftrightarrow> kv_ok lib cont hs ops \<and> kv_reliable lib \<and> ldb_dbs (snd st) = []"

definition level_holds ::
  "('s, 'd, 'b) kv_lib \<Rightarrow> ('s \<Rightarrow> 'd \<Rightarrow> string \<rightharpoonup> string) \<Rightarrow> ('s \<Rightarrow> 'd set) \<Rightarrow> ('b \<Rightarrow> batch_op list) \<Rightarrow> 's \<times> ('d, 'b) LevelDB \<Rightarrow>
    (string \<rightharpoonup> string) \<Rightarrow> batch_op list \<Rightarrow> bool" where
  "level_holds lib cont hs ops st m p \<longleftrightarrow> kv_ok lib cont hs ops \<and> kv_reliable lib \<and> shards_hold cont ops (fst st) (snd st) m p"

lemma open_succeeds:
  assumes "kv_reliable lib" "LevelDB_open_shards lib s ldb is = (ok, s', ldb')" "list_all sd_status (ldb_dbs ldb)"
  shows "ok \<and> list_all sd_status (ldb_dbs ldb')"
  using assms(2,3)
proof (induction "is" arbitrary: s ldb)
  case (Cons i "is")
  obtain ok1 d s1 where o: "lib_open lib s (ldb_name ldb @ ''/'' @ to_string i) = (ok1, d, s1)" by (rule prod_cases3)
  then have ok1 using assms(1) unfolding kv_reliable_def by (metis fst_conv)
  then show ?case
    using Cons.IH [of s1 "ldb\<lparr>ldb_dbs := ldb_dbs ldb @ [\<lparr>sd_db = d, sd_status = True, sd_batch = batch_new lib\<rparr>]\<rparr>"] Cons.prems o by simp
qed simp

interpretation level: state_db "LevelDB_StateDB lib" "level_closed lib cont hs ops" "level_holds lib cont hs ops"
  for lib :: "('s, 'd, 'b) kv_lib" and cont hs ops
proof
  show "\<exists>st' m. db_open (LevelDB_StateDB lib) st name = (True, st') \<and> db_opened (LevelDB_StateDB lib) st' \<and> level_holds lib cont hs ops st' m []"
    if "level_closed lib cont hs ops st" for st name
  proof -
    obtain s ldb where st: "st = (s, ldb)" by (rule prod.exhaust)
    have k: "kv_ok lib cont hs ops" "kv_reliable lib" "ldb_dbs ldb = []" using that st by (simp_all add: level_closed_def)
    obtain ok s' ldb' where o: "LevelDB_open lib s ldb name = (ok, s', ldb')" by (rule prod_cases3)
    have "ok \<and> list_all sd_status (ldb_dbs ldb')"
      using open_succeeds [OF k(2) o [unfolded LevelDB_open_def]] k(3) by simp
    then show ?thesis using open_holds [OF k(1,3)] k(1,2) o st by (auto simp: level_holds_def LevelDB_StateDB_def LevelDB_opened_def)
  qed
next
  show "\<exists>st'. db_get (LevelDB_StateDB lib) st k = Some (m k \<noteq> None, m k, st') \<and> level_holds lib cont hs ops st' m p"
    if "level_holds lib cont hs ops st m p" for st m p k
    using that get_refines [of lib cont hs ops "fst st" "snd st" m p k] by (cases st) (auto simp: level_holds_def LevelDB_StateDB_def)
next
  show "\<exists>st'. db_put (LevelDB_StateDB lib) st k v = Some (True, st') \<and> level_holds lib cont hs ops st' (m(k \<mapsto> v)) p"
    if "level_holds lib cont hs ops st m p" "k \<noteq> []" for st m p k v
    using that put_refines [of lib cont hs ops "fst st" "snd st" m p k v] by (cases st) (auto simp: level_holds_def LevelDB_StateDB_def)
next
  show "\<exists>ok st'. db_del (LevelDB_StateDB lib) st k = Some (ok, st') \<and> (m k \<noteq> None \<longrightarrow> ok) \<and> level_holds lib cont hs ops st' (m(k := None)) p"
    if "level_holds lib cont hs ops st m p" "k \<noteq> []" for st m p k
    using that del_refines [of lib cont hs ops "fst st" "snd st" m p k] by (cases st) (auto simp: level_holds_def LevelDB_StateDB_def)
next
  show "\<exists>st' m' p'. db_putBatch (LevelDB_StateDB lib) st k v = Some (True, st') \<and> level_holds lib cont hs ops st' m' p' \<and>
      apply_ops p' m' = apply_ops (p @ [BPut k v]) m"
    if "level_holds lib cont hs ops st m p" "k \<noteq> []" for st m p k v
    using that putBatch_refines [of lib cont hs ops "fst st" "snd st" m p k v]
    by (cases st) (auto simp: level_holds_def LevelDB_StateDB_def intro!: exI [of _ m] exI [of _ "p @ [BPut k v]"])
next
  show "\<exists>ok st' m' p'. db_delBatch (LevelDB_StateDB lib) st k = Some (ok, st') \<and> (apply_ops p m k \<noteq> None \<longrightarrow> ok) \<and>
      level_holds lib cont hs ops st' m' p' \<and> apply_ops p' m' = apply_ops (p @ [BDel k]) m"
    if "level_holds lib cont hs ops st m p" "k \<noteq> []" for st m p k
    using that delBatch_refines [of lib cont hs ops "fst st" "snd st" m p k]
    by (cases st) (auto simp: level_holds_def LevelDB_StateDB_def intro!: exI [of _ True] exI [of _ m] exI [of _ "p @ [BDel k]"])
next
  show "\<exists>st'. db_applyBatch (LevelDB_StateDB lib) st = Some (True, st') \<and> level_holds lib cont hs ops st' (apply_ops p m) []"
    if "level_holds lib cont hs ops st m p" for st m p
    using that applyBatch_refines [of lib cont hs ops "fst st" "snd st" m p] by (cases st) (auto simp: level_holds_def LevelDB_StateDB_def)
qed

text \<open>Any sequence of calls answers as one map with a queue of pending updates does.\<close>

datatype db_cmd = Get string | Put string string | PutBatch string string | Del string | DelBatch string | Apply

fun db_step :: "'st StateDB \<Rightarrow> db_cmd \<Rightarrow> 'st \<Rightarrow> ((bool \<times> string option) \<times> 'st) option" where
  "db_step sdb (Get k) st = map_option (\<lambda>(ok, v, st). ((ok, v), st)) (db_get sdb st k)"
| "db_step sdb (Put k v) st = map_option (\<lambda>(ok, st). ((ok, None), st)) (db_put sdb st k v)"
| "db_step sdb (PutBatch k v) st = map_option (\<lambda>(ok, st). ((ok, None), st)) (db_putBatch sdb st k v)"
| "db_step sdb (Del k) st = map_option (\<lambda>(ok, st). ((ok, None), st)) (db_del sdb st k)"
| "db_step sdb (DelBatch k) st = map_option (\<lambda>(ok, st). ((ok, None), st)) (db_delBatch sdb st k)"
| "db_step sdb Apply st = map_option (\<lambda>(ok, st). ((ok, None), st)) (db_applyBatch sdb st)"

fun db_run :: "'st StateDB \<Rightarrow> db_cmd list \<Rightarrow> 'st \<Rightarrow> ((bool \<times> string option) list \<times> 'st) option" where
  "db_run sdb [] st = Some ([], st)"
| "db_run sdb (c # cs) st = do { (r, st) \<leftarrow> db_step sdb c st; (rs, st) \<leftarrow> db_run sdb cs st; Some (r # rs, st) }"

type_synonym map_state = "(string \<rightharpoonup> string) \<times> batch_op list"

fun spec_step :: "db_cmd \<Rightarrow> map_state \<Rightarrow> (bool \<times> string option) \<times> map_state" where
  "spec_step (Get k) (m, p) = ((m k \<noteq> None, m k), (m, p))"
| "spec_step (Put k v) (m, p) = ((k \<noteq> [], None), (if k \<noteq> [] then m(k \<mapsto> v) else m, p))"
| "spec_step (PutBatch k v) (m, p) = ((k \<noteq> [], None), (m, if k \<noteq> [] then p @ [BPut k v] else p))"
| "spec_step (Del k) (m, p) = ((k \<noteq> [], None), (if k \<noteq> [] then m(k := None) else m, p))"
| "spec_step (DelBatch k) (m, p) = ((k \<noteq> [], None), (m, if k \<noteq> [] then p @ [BDel k] else p))"
| "spec_step Apply (m, p) = ((True, None), (apply_ops p m, []))"

fun spec_run :: "db_cmd list \<Rightarrow> map_state \<Rightarrow> (bool \<times> string option) list \<times> map_state" where
  "spec_run [] a = ([], a)"
| "spec_run (c # cs) a = (let (r, a) = spec_step c a; (rs, a) = spec_run cs a in (r # rs, a))"

lemma level_step:
  assumes "level_holds lib cont hs ops st m p" "spec_step c (m, p) = (r, m', p')"
  shows "\<exists>st'. db_step (LevelDB_StateDB lib) c st = Some (r, st') \<and> level_holds lib cont hs ops st' m' p'"
proof -
  obtain s ldb where st: "st = (s, ldb)" by (rule prod.exhaust)
  have h: "kv_ok lib cont hs ops" "shards_hold cont ops s ldb m p" "kv_reliable lib" using assms(1) st by (simp_all add: level_holds_def)
  show ?thesis
  proof (cases c)
    case (Get k)
    then show ?thesis using get_refines [OF h(1,2), of k] assms(2) h st by (auto simp: LevelDB_StateDB_def level_holds_def)
  next
    case (Put k v)
    then show ?thesis using put_refines [OF h(1,2), of k v] assms(2) h st by (auto simp: LevelDB_StateDB_def level_holds_def)
  next
    case (PutBatch k v)
    then show ?thesis using putBatch_refines [OF h(1,2), of k v] assms(2) h st by (auto simp: LevelDB_StateDB_def level_holds_def)
  next
    case (Del k)
    then show ?thesis using del_refines [OF h(1,2), of k] assms(2) h st by (auto simp: LevelDB_StateDB_def level_holds_def)
  next
    case (DelBatch k)
    then show ?thesis using delBatch_refines [OF h(1,2), of k] assms(2) h st by (auto simp: LevelDB_StateDB_def level_holds_def)
  next
    case Apply
    then show ?thesis using applyBatch_refines [OF h(1,2)] assms(2) h st by (auto simp: LevelDB_StateDB_def level_holds_def)
  qed
qed

lemma level_run:
  assumes "level_holds lib cont hs ops st m p" "spec_run cs (m, p) = (rs, m', p')"
  shows "\<exists>st'. db_run (LevelDB_StateDB lib) cs st = Some (rs, st') \<and> level_holds lib cont hs ops st' m' p'"
  using assms
proof (induction cs arbitrary: st m p rs)
  case (Cons c cs)
  obtain r m1 p1 where c: "spec_step c (m, p) = (r, m1, p1)" by (rule prod_cases3)
  obtain rs1 m2 p2 where cs: "spec_run cs (m1, p1) = (rs1, m2, p2)" by (rule prod_cases3)
  have e: "rs = r # rs1" "m' = m2" "p' = p2" using Cons.prems(2) c cs by simp_all
  obtain st1 where st1: "db_step (LevelDB_StateDB lib) c st = Some (r, st1)" "level_holds lib cont hs ops st1 m1 p1"
    using level_step [OF Cons.prems(1) c] by blast
  show ?case using Cons.IH [OF st1(2) cs [folded e(2,3)]] st1(1) e(1) by auto
qed simp

lemma RocksDB_StateDB_eq: "RocksDB_StateDB lib = LevelDB_StateDB lib"
  by (simp add: RocksDB_StateDB_def LevelDB_StateDB_def RocksDB_eq)

interpretation rocks: state_db "RocksDB_StateDB lib" "level_closed lib cont hs ops" "level_holds lib cont hs ops"
  for lib :: "('s, 'd, 'b) kv_lib" and cont hs ops
  unfolding RocksDB_StateDB_eq by (rule level.state_db_axioms)

text \<open>
  Well-formed stores, whatever the library does: one database per shard, always the same ones.
\<close>

definition level_wf :: "'d list \<Rightarrow> 's \<times> ('d, 'b) LevelDB \<Rightarrow> bool" where
  "level_wf ds st \<longleftrightarrow> length ds = 16 \<and> map sd_db (ldb_dbs (snd st)) = ds"

lemma level_wf_length: "level_wf ds (s, ldb) \<Longrightarrow> length (ldb_dbs ldb) = 16"
  unfolding level_wf_def by (metis length_map snd_conv)

lemma level_wf_update:
  assumes "level_wf ds (s, ldb)" "sd_db d = sd_db (ldb_dbs ldb ! shard_of k)"
  shows "level_wf ds (s', ldb\<lparr>ldb_dbs := (ldb_dbs ldb)[shard_of k := d]\<rparr>)"
proof -
  have k: "shard_of k < length (map sd_db (ldb_dbs ldb))" using level_wf_length [OF assms(1)] shard_of_less by simp
  have "map sd_db ((ldb_dbs ldb)[shard_of k := d]) = map sd_db (ldb_dbs ldb)"
    unfolding map_update assms(2) using k by (metis length_map list_update_id nth_map)
  then show ?thesis using assms(1) by (simp add: level_wf_def)
qed

lemma level_wf_open_shards:
  "LevelDB_open_shards lib s ldb is = (True, s', ldb') \<Longrightarrow> length (ldb_dbs ldb') = length (ldb_dbs ldb) + length is"
proof (induction "is" arbitrary: s ldb)
  case (Cons i "is")
  obtain ok d s1 where "lib_open lib s (ldb_name ldb @ ''/'' @ to_string i) = (ok, d, s1)" by (rule prod_cases3)
  then show ?case using Cons.prems Cons.IH [of s1] by (auto simp: Let_def split: if_splits)
qed simp

lemma level_wf_step:
  assumes "level_wf ds st"
  shows "\<exists>r st'. db_step (LevelDB_StateDB lib) c st = Some (r, st') \<and> level_wf ds st'"
proof -
  obtain s ldb where st: "st = (s, ldb)" by (rule prod.exhaust)
  have w: "level_wf ds (s, ldb)" using assms st by simp
  note l = level_wf_length [OF w]
  have e: "map sd_db (map (\<lambda>d. d\<lparr>sd_batch := batch_clear lib (sd_batch d)\<rparr>) (ldb_dbs ldb)) = map sd_db (ldb_dbs ldb)"
    by simp
  have a: "level_wf ds (s', ldb)" "level_wf ds (s', ldb\<lparr>ldb_dbs := map (\<lambda>d. d\<lparr>sd_batch := batch_clear lib (sd_batch d)\<rparr>) (ldb_dbs ldb)\<rparr>)" for s'
    using w e by (simp_all add: level_wf_def del: map_map)
  show ?thesis unfolding st
    by (cases c) (auto simp: LevelDB_StateDB_def LevelDB_get_def LevelDB_put_def LevelDB_putBatch_def LevelDB_del_def LevelDB_delBatch_def
      LevelDB_applyBatch_def on_shard_eq [OF l] split_beta Let_def w a intro!: level_wf_update [OF w])
qed

lemma level_wf_run:
  "level_wf ds st \<Longrightarrow> \<exists>rs st'. db_run (LevelDB_StateDB lib) cs st = Some (rs, st') \<and> length rs = length cs \<and> level_wf ds st'"
proof (induction cs arbitrary: st)
  case (Cons c cs)
  obtain r st1 where c: "db_step (LevelDB_StateDB lib) c st = Some (r, st1)" "level_wf ds st1" using level_wf_step [OF Cons.prems] by blast
  then show ?case using Cons.IH [OF c(2)] by auto
qed simp

text \<open>The store over Redis: updates take effect at once, so that nothing is ever pending.\<close>

definition redis_ok :: "'r redis_lib \<Rightarrow> ('r \<Rightarrow> string \<rightharpoonup> string) \<Rightarrow> bool" where
  "redis_ok lib cont \<longleftrightarrow> (\<forall>r k. redis_get lib r k = cont r k) \<and>
     (\<forall>r k v. fst (redis_set lib r k v) \<and> cont (snd (redis_set lib r k v)) = (cont r)(k \<mapsto> v)) \<and>
     (\<forall>r k. fst (redis_del lib r k) = (if cont r k = None then 0 else 1) \<and> cont (snd (redis_del lib r k)) = (cont r)(k := None))"

definition redis_closed :: "'r redis_lib \<Rightarrow> ('r \<Rightarrow> string \<rightharpoonup> string) \<Rightarrow> 'r RedisDB \<Rightarrow> bool" where
  "redis_closed lib cont st \<longleftrightarrow> redis_ok lib cont"

definition redis_holds :: "'r redis_lib \<Rightarrow> ('r \<Rightarrow> string \<rightharpoonup> string) \<Rightarrow> 'r RedisDB \<Rightarrow> (string \<rightharpoonup> string) \<Rightarrow> batch_op list \<Rightarrow> bool" where
  "redis_holds lib cont st m p \<longleftrightarrow> redis_ok lib cont \<and> p = [] \<and> (\<exists>r. rds_redis st = Redis r \<and> cont r = m)"

lemmas redis_simps = redis_holds_def redis_ok_def RedisDB_StateDB_def RedisDB_get_def RedisDB_put_def RedisDB_putBatch_def RedisDB_del_def
  RedisDB_delBatch_def RedisDB_applyBatch_def split_beta

interpretation redis: state_db "RedisDB_StateDB lib" "redis_closed lib cont" "redis_holds lib cont"
  for lib :: "'r redis_lib" and cont
proof
  show "\<exists>st' m. db_open (RedisDB_StateDB lib) st name = (True, st') \<and> db_opened (RedisDB_StateDB lib) st' \<and> redis_holds lib cont st' m []"
    if "redis_closed lib cont st" for st :: "'r RedisDB" and name
    using that by (simp add: redis_closed_def redis_holds_def RedisDB_StateDB_def RedisDB_open_def RedisDB_opened_def)
  show "\<exists>st'. db_get (RedisDB_StateDB lib) st k = Some (m k \<noteq> None, m k, st') \<and> redis_holds lib cont st' m p"
    if "redis_holds lib cont st m p" for st :: "'r RedisDB" and m p k
    using that by (auto simp: redis_simps split: option.splits)
  show "\<exists>st'. db_put (RedisDB_StateDB lib) st k v = Some (True, st') \<and> redis_holds lib cont st' (m(k \<mapsto> v)) p"
    if "redis_holds lib cont st m p" for st :: "'r RedisDB" and m p k v
    using that by (auto simp: redis_simps)
  show "\<exists>ok st'. db_del (RedisDB_StateDB lib) st k = Some (ok, st') \<and> (m k \<noteq> None \<longrightarrow> ok) \<and> redis_holds lib cont st' (m(k := None)) p"
    if "redis_holds lib cont st m p" for st :: "'r RedisDB" and m p k
    using that by (auto simp: redis_simps)
  show "\<exists>st' m' p'. db_putBatch (RedisDB_StateDB lib) st k v = Some (True, st') \<and> redis_holds lib cont st' m' p' \<and>
      apply_ops p' m' = apply_ops (p @ [BPut k v]) m"
    if "redis_holds lib cont st m p" for st :: "'r RedisDB" and m p k v
    using that by (auto simp: redis_simps)
  show "\<exists>ok st' m' p'. db_delBatch (RedisDB_StateDB lib) st k = Some (ok, st') \<and> (apply_ops p m k \<noteq> None \<longrightarrow> ok) \<and>
      redis_holds lib cont st' m' p' \<and> apply_ops p' m' = apply_ops (p @ [BDel k]) m"
    if "redis_holds lib cont st m p" for st :: "'r RedisDB" and m p k
    using that by (auto simp: redis_simps)
  show "\<exists>st'. db_applyBatch (RedisDB_StateDB lib) st = Some (True, st') \<and> redis_holds lib cont st' (apply_ops p m) []"
    if "redis_holds lib cont st m p" for st :: "'r RedisDB" and m p
    using that by (auto simp: redis_simps)
qed

section \<open>The size of a directory\<close>

text \<open>The true size\<close>

fun total_size :: "fs_entry \<Rightarrow> nat" and total_sizes :: "(string \<times> fs_entry) list \<Rightarrow> nat" where
  "total_size (Fs_file n) = n"
| "total_size (Fs_dir es) = total_sizes es"
| "total_size Fs_other = 0"
| "total_sizes [] = 0"
| "total_sizes ((_, e) # es) = total_size e + total_sizes es"

lemma as_int_twice: "as_int (x + as_int y) = as_int (x + y)" "as_int (as_int x + y) = as_int (x + y)"
  by (simp_all add: as_int_def)

lemma as_int_id: "0 \<le> x \<Longrightarrow> x < 2 ^ 31 \<Longrightarrow> as_int x = x"
  by (simp add: as_int_def signed_of_int signed_take_bit_int_eq_self_iff)

lemma treeSize_eq:
  "treeSize e = (case e of Fs_dir es \<Rightarrow> as_int (int (total_size e)) | _ \<Rightarrow> 0)"
  "as_int (treeSize_loop es sz) = as_int (sz + int (total_sizes es)) \<and> (as_int sz = sz \<longrightarrow> treeSize_loop es sz = as_int (sz + int (total_sizes es)))"
proof (induction e and es sz rule: treeSize_treeSize_loop.induct)
  case (1 es)
  have "as_int 0 = 0" by (simp add: as_int_def)
  then show ?case using 1 by simp
next
  case (4 nm e es sz)
  have i: "as_int (as_int x) = as_int x" for x using as_int_twice(1) [of 0 x] by simp
  show ?case
  proof (cases e)
    case (Fs_dir ds)
    then show ?thesis using 4 i as_int_twice by (simp add: algebra_simps)
  next
    case (Fs_file n)
    then show ?thesis using 4 i as_int_twice by (simp add: algebra_simps)
  next
    case Fs_other
    then show ?thesis using 4 by simp
  qed
qed simp_all

end
