(* ===== verification/Lm_Db.thy ===== *)
theory Lm_Db
  imports Env_Open
begin

text \<open>
  The store over LMDB (\<^verbatim>\<open>src/ledger/lm_db.cpp\<close>) on the model of LMDB, with one transaction that is
  open all the time. A \<^verbatim>\<open>std::string\<close> that is passed as an argument is its length and the address of
  its characters. The second part takes \<^verbatim>\<open>put\<close> apart into the accesses to what threads share.
\<close>

text \<open>What the process and the system give: process id, page size, file system and kernel release.\<close>

record lm_system =
  ls_pid :: nat
  ls_psize :: nat
  ls_ext :: bool
  ls_release :: string

record LMDB =
  lm_name :: string
  lm_io :: env_io
  lm_w :: world
  lm_dbi :: nat
  lm_key :: MDB_val
  lm_data :: MDB_val
  lm_txn :: "tid option"
  lm_isOpen :: bool

section \<open>Operations\<close>

text \<open>
  The return codes of \<^verbatim>\<open>mdb_env_create\<close>, \<^verbatim>\<open>mdb_txn_begin\<close> and \<^verbatim>\<open>mdb_dbi_open\<close> are not looked at. What
  they do not assign when they fail is \<open>None\<close>: an environment that is not there, the transaction of before.
\<close>

definition LMDB_open :: "lm_system \<Rightarrow> LMDB \<Rightarrow> string \<Rightarrow> (bool \<times> LMDB) option" where
  "LMDB_open sys l dbname = (
     let l = l\<lparr>lm_name := dbname\<rparr>;
         (rc, io, w) = mdb_env_create (ls_pid sys) (ls_psize sys) (lm_io l) (lm_w l)
     in if rc \<noteq> 0 then None
        else do {
          (rc, io, w) \<leftarrow> mdb_env_open io w dbname 0 (ls_pid sys) (ls_ext sys) (ls_release sys);
          if rc \<noteq> 0 then Some (False, l\<lparr>lm_io := io, lm_w := w\<rparr>)
          else do {
            let l = l\<lparr>lm_isOpen := True\<rparr>;
            (_, t, w) \<leftarrow> mdb_txn_begin w None 0;
            let l = (case t of None \<Rightarrow> l | Some t \<Rightarrow> l\<lparr>lm_txn := Some t\<rparr>);
            t \<leftarrow> lm_txn l;
            (_, d, w) \<leftarrow> mdb_dbi_open w t None 0;
            let l = (case d of None \<Rightarrow> l | Some d \<Rightarrow> l\<lparr>lm_dbi := d\<rparr>);
            Some (True, l\<lparr>lm_io := io, lm_w := w\<rparr>) } })"

definition LMDB_close :: "lm_system \<Rightarrow> LMDB \<Rightarrow> LMDB option" where
  "LMDB_close sys l =
     (if lm_isOpen l then do {
        w \<leftarrow> mdb_dbi_close (lm_w l) (lm_dbi l);
        (_, w) \<leftarrow> mdb_txn_commit w (lm_txn l);
        (io, w) \<leftarrow> mdb_env_close (lm_io l) w (ls_pid sys);
        Some (l\<lparr>lm_isOpen := False, lm_io := io, lm_w := w\<rparr>) }
      else Some l)"

definition LMDB_opened :: "LMDB \<Rightarrow> bool" where
  "LMDB_opened l = lm_isOpen l"

definition LMDB_get :: "LMDB \<Rightarrow> MDB_val \<Rightarrow> (bool \<times> u8 list option \<times> LMDB) option" where
  "LMDB_get l key = do {
     let l = l\<lparr>lm_key := key\<rparr>;
     (rc, d, w) \<leftarrow> mdb_get mdb_page_touch (lm_w l) (lm_txn l) (lm_dbi l) (Some (lm_key l)) (Some (lm_data l));
     d \<leftarrow> d;
     let l = l\<lparr>lm_data := d, lm_w := w\<rparr>;
     if rc = 0 then do {
       v \<leftarrow> val_bytes (w_mem w) (lm_data l);
       Some (True, Some v, l) }
     else Some (False, None, l) }"

text \<open>\<^verbatim>\<open>put\<close> differs from \<^verbatim>\<open>putBatch\<close> by its lock only, \<^verbatim>\<open>del\<close> from \<^verbatim>\<open>delBatch\<close> too.\<close>

definition LMDB_putBatch :: "LMDB \<Rightarrow> MDB_val \<Rightarrow> MDB_val \<Rightarrow> (bool \<times> LMDB) option" where
  "LMDB_putBatch l key val = do {
     let l = l\<lparr>lm_key := key, lm_data := val\<rparr>;
     (rc, d, w) \<leftarrow> mdb_put (lm_w l) (lm_txn l) (lm_dbi l) (Some (lm_key l)) (Some (lm_data l)) MDB_NODUPDATA;
     d \<leftarrow> d;
     Some (rc = 0, l\<lparr>lm_data := d, lm_w := w\<rparr>) }"

definition LMDB_put :: "LMDB \<Rightarrow> MDB_val \<Rightarrow> MDB_val \<Rightarrow> (bool \<times> LMDB) option" where
  "LMDB_put l key val = LMDB_putBatch l key val"

definition LMDB_delBatch :: "LMDB \<Rightarrow> MDB_val \<Rightarrow> (bool \<times> LMDB) option" where
  "LMDB_delBatch l key = do {
     let l = l\<lparr>lm_key := key\<rparr>;
     (rc, w) \<leftarrow> mdb_del (lm_w l) (lm_txn l) (lm_dbi l) (Some (lm_key l)) None;
     Some (rc \<noteq> MDB_NOTFOUND, l\<lparr>lm_w := w\<rparr>) }"

definition LMDB_del :: "LMDB \<Rightarrow> MDB_val \<Rightarrow> (bool \<times> LMDB) option" where
  "LMDB_del l key = LMDB_delBatch l key"

definition LMDB_applyBatch :: "LMDB \<Rightarrow> (bool \<times> LMDB) option" where
  "LMDB_applyBatch l = do {
     (rc, w) \<leftarrow> mdb_txn_commit (lm_w l) (lm_txn l);
     if rc \<noteq> 0 then Some (False, l\<lparr>lm_w := w\<rparr>)
     else do {
       (rc, t, w) \<leftarrow> mdb_txn_begin w None 0;
       let l = (case t of None \<Rightarrow> l | Some t \<Rightarrow> l\<lparr>lm_txn := Some t\<rparr>);
       Some (rc = 0, l\<lparr>lm_w := w\<rparr>) } }"

section \<open>\<^verbatim>\<open>put\<close> in several threads\<close>

text \<open>
  The members \<^verbatim>\<open>_key\<close> and \<^verbatim>\<open>_data\<close> are shared and assigned before the lock is taken. \<open>call\<close> is
  \<^verbatim>\<open>mdb_put\<close> on the store; \<open>args\<close> gives each thread the key and the value of its call.
\<close>

datatype put_pc = Put_key_size | Put_key_data | Put_data_size | Put_data_data | Put_lock | Put_call | Put_unlock bool | Put_return bool

record 'w put_state =
  ps_key :: MDB_val
  ps_data :: MDB_val
  ps_mtx :: "nat option"
  ps_store :: 'w
  ps_pc :: "nat \<Rightarrow> put_pc"

definition put_step :: "('w \<Rightarrow> MDB_val \<Rightarrow> MDB_val \<Rightarrow> bool \<times> 'w) \<Rightarrow> (nat \<Rightarrow> MDB_val \<times> MDB_val) \<Rightarrow> nat \<Rightarrow> 'w put_state \<Rightarrow> 'w put_state option" where
  "put_step call args i s = (
     let goto = (\<lambda>pc s. s\<lparr>ps_pc := (ps_pc s)(i := pc)\<rparr>); (key, val) = args i in
     case ps_pc s i of
       Put_key_size \<Rightarrow> Some (goto Put_key_data (s\<lparr>ps_key := (ps_key s)\<lparr>mv_size := mv_size key\<rparr>\<rparr>))
     | Put_key_data \<Rightarrow> Some (goto Put_data_size (s\<lparr>ps_key := (ps_key s)\<lparr>mv_data := mv_data key\<rparr>\<rparr>))
     | Put_data_size \<Rightarrow> Some (goto Put_data_data (s\<lparr>ps_data := (ps_data s)\<lparr>mv_size := mv_size val\<rparr>\<rparr>))
     | Put_data_data \<Rightarrow> Some (goto Put_lock (s\<lparr>ps_data := (ps_data s)\<lparr>mv_data := mv_data val\<rparr>\<rparr>))
     | Put_lock \<Rightarrow> (if ps_mtx s = None then Some (goto Put_call (s\<lparr>ps_mtx := Some i\<rparr>)) else None)
     | Put_call \<Rightarrow> (let (result, w) = call (ps_store s) (ps_key s) (ps_data s) in Some (goto (Put_unlock result) (s\<lparr>ps_store := w\<rparr>)))
     | Put_unlock result \<Rightarrow> Some (goto (Put_return result) (s\<lparr>ps_mtx := None\<rparr>))
     | Put_return result \<Rightarrow> None)"

fun put_run ::
  "('w \<Rightarrow> MDB_val \<Rightarrow> MDB_val \<Rightarrow> bool \<times> 'w) \<Rightarrow> (nat \<Rightarrow> MDB_val \<times> MDB_val) \<Rightarrow> nat list \<Rightarrow> 'w put_state \<Rightarrow> 'w put_state option" where
  "put_run call args [] s = Some s"
| "put_run call args (i # is) s = do { s \<leftarrow> put_step call args i s; put_run call args is s }"

definition put_start :: "'w \<Rightarrow> MDB_val \<Rightarrow> MDB_val \<Rightarrow> 'w put_state" where
  "put_start w k d = \<lparr>ps_key = k, ps_data = d, ps_mtx = None, ps_store = w, ps_pc = (\<lambda>_. Put_key_size)\<rparr>"

end
