(* ===== verification/Lm_Db_Spec.thy ===== *)
theory Lm_Db_Spec
  imports Lm_Db Get_Spec
begin

text \<open>
  The store over LMDB: \<^verbatim>\<open>get\<close> as a lookup in the table of the database, and \<^verbatim>\<open>put\<close> in
  several threads: the lock keeps the calls of \<^verbatim>\<open>mdb_put\<close> apart, but not the assignments of their
  arguments.
\<close>

lemma LMDB_get_lookup:
  assumes "db_holds (lm_w l) t (lm_dbi l) items" "plain_items (w_mem (lm_w l)) (db_pages (lm_w l) t) items" "lm_txn l = Some t"
    and "val_bytes (w_mem (lm_w l)) key = Some kb" "length kb < 2 ^ 32" "mv_size key \<noteq> 0"
  shows "\<exists>l'. LMDB_get l key = Some (map_of (table (w_mem (lm_w l)) (db_pages (lm_w l) t) items) kb \<noteq> None,
    map_of (table (w_mem (lm_w l)) (db_pages (lm_w l) t) items) kb, l')"
proof -
  obtain rc d w' where g: "mdb_get mdb_page_touch (lm_w l) (Some t) (lm_dbi l) (Some key) (Some (lm_data l)) = Some (rc, Some d, w')"
    "w_mem w' = w_mem (lm_w l)"
    and r: "case map_of (table (w_mem (lm_w l)) (db_pages (lm_w l) t) items) kb of
       None \<Rightarrow> rc = MDB_NOTFOUND \<and> d = lm_data l
     | Some v \<Rightarrow> rc = MDB_SUCCESS \<and> val_bytes (w_mem (lm_w l)) d = Some v"
    using mdb_get_lookup [OF assms(1,2,4,5,6), of mdb_page_touch "lm_data l"] by blast
  show ?thesis using g r assms(3)
    by (cases "map_of (table (w_mem (lm_w l)) (db_pages (lm_w l) t) items) kb") (simp_all add: LMDB_get_def)
qed

section \<open>Threads\<close>

definition in_call :: "put_pc \<Rightarrow> bool" where
  "in_call pc \<longleftrightarrow> (case pc of Put_call \<Rightarrow> True | Put_unlock _ \<Rightarrow> True | _ \<Rightarrow> False)"

lemma in_call_simps [simp]:
  "\<not> in_call Put_key_size" "\<not> in_call Put_key_data" "\<not> in_call Put_data_size" "\<not> in_call Put_data_data" "\<not> in_call Put_lock"
  "in_call Put_call" "in_call (Put_unlock r)" "\<not> in_call (Put_return r)"
  by (simp_all add: in_call_def)

lemma put_step_form:
  assumes "put_step call args i s = Some s'"
  shows "\<exists>pc. ps_pc s' = (ps_pc s)(i := pc) \<and>
    (in_call pc = in_call (ps_pc s i) \<and> ps_mtx s' = ps_mtx s \<or>
     \<not> in_call (ps_pc s i) \<and> in_call pc \<and> ps_mtx s = None \<and> ps_mtx s' = Some i \<or>
     in_call (ps_pc s i) \<and> \<not> in_call pc \<and> ps_mtx s' = None)"
proof (cases "ps_pc s i")
  case Put_call
  then show ?thesis using assms by (auto simp: put_step_def split: prod.splits)
qed (use assms in \<open>auto simp: put_step_def split: prod.splits if_splits\<close>)

lemma put_step_exclusive:
  assumes "\<forall>j. in_call (ps_pc s j) \<longleftrightarrow> ps_mtx s = Some j" "put_step call args i s = Some s'"
  shows "\<forall>j. in_call (ps_pc s' j) \<longleftrightarrow> ps_mtx s' = Some j"
proof
  fix j
  obtain pc where pc: "ps_pc s' = (ps_pc s)(i := pc)" and c: "in_call pc = in_call (ps_pc s i) \<and> ps_mtx s' = ps_mtx s \<or>
     \<not> in_call (ps_pc s i) \<and> in_call pc \<and> ps_mtx s = None \<and> ps_mtx s' = Some i \<or>
     in_call (ps_pc s i) \<and> \<not> in_call pc \<and> ps_mtx s' = None"
    using put_step_form [OF assms(2)] by blast
  show "in_call (ps_pc s' j) \<longleftrightarrow> ps_mtx s' = Some j"
    using c assms(1) [rule_format, of i] assms(1) [rule_format, of j] by (cases "j = i") (auto simp: pc)
qed

lemma put_run_exclusive:
  assumes "\<forall>j. in_call (ps_pc s j) \<longleftrightarrow> ps_mtx s = Some j" "put_run call args is s = Some s'"
  shows "\<forall>j. in_call (ps_pc s' j) \<longleftrightarrow> ps_mtx s' = Some j"
  using assms
proof (induction "is" arbitrary: s)
  case (Cons i "is")
  then obtain s1 where "put_step call args i s = Some s1" "put_run call args is s1 = Some s'" by (auto simp: bind_eq_Some_conv)
  then show ?case using Cons put_step_exclusive by blast
qed simp

lemma put_start_exclusive: "in_call (ps_pc (put_start w k d) j) \<longleftrightarrow> ps_mtx (put_start w k d) = Some j"
  by (simp add: put_start_def in_call_def)

text \<open>The schedule: both threads assign, the second one last, before both call.\<close>

definition race :: "nat list" where
  "race = [0, 0, 0, 0, 1, 1, 1, 1, 0, 0, 0, 1, 1, 1]"

lemma race_run:
  assumes "call w (fst (args 1)) (snd (args 1)) = (r1, w1)" "call w1 (fst (args 1)) (snd (args 1)) = (r2, w2)"
  shows "\<exists>s'. put_run call args race (put_start w k d) = Some s' \<and> ps_store s' = w2 \<and> ps_pc s' 0 = Put_return r1 \<and> ps_pc s' 1 = Put_return r2"
proof -
  obtain k0 v0 k1 v1 where a: "args 0 = (k0, v0)" "args (Suc 0) = (k1, v1)" by fastforce
  then have c: "call w k1 v1 = (r1, w1)" "call w1 k1 v1 = (r2, w2)" using assms by simp_all
  have e: "k\<lparr>mv_size := mv_size k1, mv_data := mv_data k1\<rparr> = k1" "d\<lparr>mv_size := mv_size v1, mv_data := mv_data v1\<rparr> = v1" by simp_all
  show ?thesis by (simp add: race_def put_start_def put_step_def Let_def a c e)
qed

end
