(* ===== verification/Insert_Spec.thy ===== *)
theory Insert_Spec
  imports Get_Spec Node_Add_Spec
begin

text \<open>
  A tree in which one leaf page changes: when the pages of the tree do not overlap and the items of
  the leaf change by items with the key that the search has followed, the pages are a tree again, with
  the new items in the place of the old ones.
\<close>

section \<open>Pages that stay as they are\<close>

definition same_page :: "mem \<Rightarrow> mem \<Rightarrow> nat \<Rightarrow> ptr \<Rightarrow> bool" where
  "same_page m m' psz p \<longleftrightarrow> (\<forall>a n. a + n \<le> psz \<longrightarrow> load m' (padd p a) n = load m (padd p a) n)"

lemma same_pageD: "same_page m m' psz p \<Longrightarrow> a + n \<le> psz \<Longrightarrow> load m' (padd p a) n = load m (padd p a) n"
  by (simp add: same_page_def)

lemma upd_only_same_page: "upd_only q n m m' \<Longrightarrow> apart q n p psz \<Longrightarrow> same_page m m' psz p"
  unfolding same_page_def
proof (intro allI impI)
  fix a k assume u: "upd_only q n m m'" "apart q n p psz" "a + k \<le> psz"
  have "apart q n (padd p a) k" using u(2,3) unfolding apart_def outside_def
    by (metis (no_types, lifting) add.assoc add_less_cancel_left order_less_le_trans padd_simps(1,2))
  then show "load m' (padd p a) k = load m (padd p a) k" by (rule upd_only_load [OF u(1)])
qed

lemma same_page_blk: "m' (p_blk p) = m (p_blk p) \<Longrightarrow> same_page m m' psz p"
  by (simp add: same_page_def load_def)

lemma same_page_header:
  assumes "same_page m m' psz p" "PAGEHDRSZ \<le> psz"
  shows "page_is f m' p = page_is f m p" "mp_flags m' p = mp_flags m p" "mp_lower m' p = mp_lower m p" "mp_upper m' p = mp_upper m p"
  using same_pageD [OF assms(1)] assms(2) by (simp_all add: page_is_def mp_flags_def mp_lower_def mp_upper_def ldn_def)

lemma page_rep_frame:
  assumes s: "same_page m m' psz p" and rep: "page_rep m p psz leaf u L"
  shows "page_rep m' p psz leaf u L"
proof -
  note D = page_repD [OF rep] and N = page_rep_nth [OF rep]
  have h: "PAGEHDRSZ \<le> psz" using D(7,8) by simp
  note H = same_page_header [OF s h]
  have "load m' p psz = load m p psz" using same_pageD [OF s, of 0 psz] by simp
  then have v: "valid m' p psz" using D(1) load_valid load_Some_valid by metis
  have pt: "mp_ptrs m' p q = Some (fst (L ! q))" if "q < length L" for q
    using N(1) [OF that] same_pageD [OF s, of "PAGEHDRSZ + 2 * q" 2] that D(7,8) by (simp add: mp_ptrs_def ldn_def)
  have ld: "load m' (padd p (fst (L ! q))) (length (snd (L ! q))) = Some (snd (L ! q))" if "q < length L" for q
    using N(2,4) [OF that] same_pageD [OF s] by simp
  show ?thesis
    by (rule page_repI [OF v D(2) _ _ refl _ _ D(7,8) pt ld]) (use D(3-6) H N(3-7) in simp_all)
qed

lemma page_rep_frame_branch:
  "same_page m m' psz p \<Longrightarrow> page_rep m p psz leaf u L \<Longrightarrow> page_rep m' p psz leaf u L \<and> IS_BRANCH m' p = IS_BRANCH m p"
  using page_rep_frame [of m m' psz p leaf u L] same_page_header(1) [of m m' psz p] page_repD(7,8) [of m p psz leaf u L] by simp

lemma leaf_rep_frame: "same_page m m' psz p \<Longrightarrow> leaf_rep m psz p L \<Longrightarrow> leaf_rep m' psz p L"
  unfolding leaf_rep_def using page_rep_frame_branch [of m m' psz p True _ L] by auto

lemma branch_rep_frame: "same_page m m' psz p \<Longrightarrow> branch_rep m psz p L cs \<Longrightarrow> branch_rep m' psz p L cs"
  unfolding branch_rep_def using page_rep_frame_branch [of m m' psz p False _ L] by auto

section \<open>Positions in a tree\<close>

text \<open>The indices that lead to a page.\<close>

abbreviation (input) way :: "(ptr \<times> nat) list \<Rightarrow> nat list" where
  "way stk \<equiv> map snd (butlast stk)"

lemma at_node_way: "at_node m pg psz D p stk e pre its post \<Longrightarrow> length (way stk) + e = D"
  by (drule at_node_tree) (cases stk rule: rev_cases, auto)

lemma at_node_append:
  assumes "at_node m pg psz e q stk' e' pre' its' post'" "at_node m pg psz D p (stk @ [(q, k)]) e preP itsP postP"
  shows "\<exists>pre its post. at_node m pg psz D p (stk @ stk') e' pre its post"
  using assms
proof (induction rule: at_node.induct)
  case (root items k')
  then show ?case using at_node_index by blast
next
  case (down stk1 b i e1 pre cs post L q1 k1)
  obtain pre0 its0 post0 where n: "at_node m pg psz D p ((stk @ stk1) @ [(b, i)]) (Suc e1) pre0 its0 post0"
    using down.IH [OF down.prems] by auto
  have "tree_at m pg psz (Suc e1) b its0" using at_node_tree [OF n] by simp
  then obtain L' cs' where B: "branch_rep m psz b L' cs'" "its0 = concat cs'"
    "\<forall>j<length L'. \<exists>q. pg (node_pgno (snd (L' ! j))) = Some q \<and> tree_at m pg psz e1 q (cs' ! j)"
    by (auto elim: tree_at_branchE)
  have "L' = L" by (rule branch_rep_unique [OF B(1) down.hyps(2)])
  then show ?case using at_node.down [OF n [unfolded B(2)] B(1,3), of q1 k1] down.hyps(4,5) by auto
qed

lemma tree_at_frame:
  assumes "tree_at m pg psz d q its"
    and "\<And>stk e pre its' post. at_node m pg psz d q stk e pre its' post \<Longrightarrow> same_page m m' psz (fst (last stk))"
  shows "tree_at m' pg psz d q its"
  using assms
proof (induction rule: tree_at.induct)
  case (leaf p L)
  have "same_page m m' psz p" using leaf.prems [OF at_node.root [OF tree_at.leaf [OF leaf.hyps]], of 0] by simp
  then show ?case using leaf_rep_frame [OF _ leaf.hyps] tree_at.leaf by blast
next
  case (branch p L cs d)
  have kids: "\<forall>j<length L. \<exists>q. pg (node_pgno (snd (L ! j))) = Some q \<and> tree_at m pg psz d q (cs ! j)" using branch.IH by blast
  note root = at_node.root [OF tree_at.branch [OF branch.hyps(1) kids]]
  have s: "same_page m m' psz p" using branch.prems [OF root, of 0] by simp
  have "\<exists>q. pg (node_pgno (snd (L ! i))) = Some q \<and> tree_at m' pg psz d q (cs ! i)" if i: "i < length L" for i
  proof -
    obtain q where q: "pg (node_pgno (snd (L ! i))) = Some q"
      and IH: "(\<And>stk e pre its' post. at_node m pg psz d q stk e pre its' post \<Longrightarrow> same_page m m' psz (fst (last stk))) \<Longrightarrow>
        tree_at m' pg psz d q (cs ! i)"
      using branch.IH i by blast
    have "at_node m pg psz (Suc d) p ([(p, i)] @ [(q, 0)]) d ([] @ concat (take i cs)) (cs ! i) (concat (drop (Suc i) cs) @ [])"
      using at_node.down [where stk = "[]" and k = 0 and pre = "[]" and post = "[]", OF _ branch.hyps(1) kids i q] root [of i] by simp
    from at_node_append [OF _ this] have "same_page m m' psz (fst (last stk))"
      if "at_node m pg psz d q stk e pre its' post" for stk e pre its' post
      using branch.prems that at_node_tree [OF that] by (metis last_appendR)
    then show ?thesis using q IH by blast
  qed
  then show ?case using branch_rep_frame [OF s branch.hyps(1)] tree_at.branch by blast
qed

section \<open>Replacing the items of a leaf\<close>

lemma branch_rep_replace:
  assumes rep: "branch_rep m psz b L cs" and s: "same_page m m' psz b" and i: "i = child_index L kb"
    and new: "its' \<noteq> []" "\<forall>bs\<in>set its'. bs \<in> set (cs ! i) \<or> node_key bs = kb"
  shows "branch_rep m' psz b L (cs[i := its'])"
proof -
  note B = branch_repD [OF rep]
  have il: "i < length L" using child_index(1) [OF B(9,6)] i by simp
  have c: "q \<le> i \<longleftrightarrow> node_key (snd (L ! q)) \<le> kb" if "0 < q" "q < length L" for q
    using child_index(2) [OF B(9,6) that] i by simp
  have sep: "\<forall>bs\<in>set (cs ! (a - 1)). node_key bs < node_key (snd (L ! a))" "\<forall>bs\<in>set (cs ! a). node_key (snd (L ! a)) \<le> node_key bs"
    if "0 < a" "a < length L" for a
    using rep that by (auto simp: branch_rep_def)
  have "node_key bs < node_key (snd (L ! a))" if a: "0 < a" "a < length L" and bs: "bs \<in> set (cs[i := its'] ! (a - 1))" for a bs
  proof (cases "a - 1 = i")
    case True
    then have "bs \<in> set (cs ! (a - 1)) \<or> node_key bs = kb" using bs new(2) il B(7) by simp
    moreover have "\<not> a \<le> i" using True a(1) by simp
    ultimately show ?thesis using sep(1) [OF a] c [OF a] by auto
  qed (use sep(1) [OF a] bs in simp)
  moreover have "node_key (snd (L ! a)) \<le> node_key bs" if a: "0 < a" "a < length L" and bs: "bs \<in> set (cs[i := its'] ! a)" for a bs
  proof (cases "a = i")
    case True
    then have "bs \<in> set (cs ! a) \<or> node_key bs = kb" using bs new(2) il B(7) by simp
    then show ?thesis using sep(2) [OF a] c [OF a] True by auto
  qed (use sep(2) [OF a] bs in simp)
  moreover have "[] \<notin> set (cs[i := its'])" using B(8) new(1) set_update_subset_insert [of cs i its'] by auto
  ultimately show ?thesis using branch_rep_frame [OF s rep] by (simp add: branch_rep_def)
qed

lemma tree_replace:
  assumes node: "at_node m pg psz D p stk e pre its post"
    and pick: "picked m psz (\<lambda>L. child_index L kb) stk" and to: "ix = way stk @ r" "length ix = D"
    and frame: "\<And>stk' e' pre its post. at_node m pg psz D p stk' e' pre its post \<Longrightarrow> way stk' \<noteq> ix \<Longrightarrow> same_page m m' psz (fst (last stk'))"
    and new: "tree_at m' pg psz e (fst (last stk)) its'" "its' \<noteq> []" "\<forall>bs\<in>set its'. bs \<in> set its \<or> node_key bs = kb"
  shows "tree_at m' pg psz D p (pre @ its' @ post) \<and> at_node m' pg psz D p stk e pre its' post"
  using node pick to(1) new
proof (induction arbitrary: its' r rule: at_node.induct)
  case (root items k)
  then show ?case using at_node.root by simp
next
  case (down stk b i e pre cs post L q k)
  note B = branch_repD [OF down.hyps(2)]
  have bl: "butlast (stk @ [(b, i), (q, k)]) = stk @ [(b, i)]" by (simp add: butlast_append)
  have i: "i = child_index L kb" using down.prems(1) down.hyps(2) unfolding picked_def bl by auto
  have pick: "picked m psz (\<lambda>L. child_index L kb) (stk @ [(b, i)])" using down.prems(1) unfolding picked_def bl by auto
  have ix: "ix = map snd stk @ i # r" using down.prems(2) unfolding bl by simp
  have up: "length (map snd stk) + Suc e = D" using at_node_way [OF down.hyps(1)] by simp
  have s: "same_page m m' psz b"
    using frame [OF down.hyps(1)] up to(2) by fastforce
  have rep: "branch_rep m' psz b L (cs[i := its'])"
    by (rule branch_rep_replace [OF down.hyps(2) s i]) (use down.prems in auto)
  have kid: "\<exists>q. pg (node_pgno (snd (L ! j))) = Some q \<and> tree_at m' pg psz e q (cs[i := its'] ! j)" if j: "j < length L" for j
  proof (cases "j = i")
    case True
    then show ?thesis using down.hyps(5) down.prems(3) j B(7) by auto
  next
    case False
    obtain qj where qj: "pg (node_pgno (snd (L ! j))) = Some qj" "tree_at m pg psz e qj (cs ! j)" using down.hyps(3) j by blast
    have n: "at_node m pg psz D p ((stk @ [(b, j)]) @ [(qj, 0)]) e (pre @ concat (take j cs)) (cs ! j) (concat (drop (Suc j) cs) @ post)"
      using at_node.down [OF at_node_index [OF down.hyps(1)] down.hyps(2,3) j qj(1)] by simp
    have "same_page m m' psz (fst (last stk'))" if a: "at_node m pg psz e qj stk' e' pre' its0 post'" for stk' e' pre' its0 post'
    proof -
      obtain pre1 its1 post1 where "at_node m pg psz D p ((stk @ [(b, j)]) @ stk') e' pre1 its1 post1" using at_node_append [OF a n] by blast
      moreover have "stk' \<noteq> []" using at_node_tree [OF a] by simp
      ultimately show ?thesis using frame ix False by (fastforce simp: butlast_append)
    qed
    then have "tree_at m' pg psz e qj (cs ! j)" by (rule tree_at_frame [OF qj(2)])
    then show ?thesis using qj(1) False by simp
  qed
  have t: "tree_at m' pg psz (Suc e) (fst (last (stk @ [(b, i)]))) (concat (cs[i := its']))"
    using tree_at.branch [OF rep] kid by simp
  have il: "i < length cs" using down.hyps(4) B(7) by simp
  have e: "concat (cs[i := its']) = concat (take i cs) @ its' @ concat (drop (Suc i) cs)"
    using il by (simp add: upd_conv_take_nth_drop)
  have "concat cs = concat (take i cs) @ cs ! i @ concat (drop (Suc i) cs)"
    using id_take_nth_drop [OF il] by (metis concat.simps(2) concat_append)
  then have "\<forall>bs\<in>set (concat (cs[i := its'])). bs \<in> set (concat cs) \<or> node_key bs = kb"
    unfolding e using down.prems(5) by auto
  moreover have "concat (cs[i := its']) \<noteq> []" unfolding e using down.prems(4) by simp
  moreover have "ix = way (stk @ [(b, i)]) @ i # r" using ix by simp
  ultimately have IH: "tree_at m' pg psz D p (pre @ concat (cs[i := its']) @ post) \<and>
      at_node m' pg psz D p (stk @ [(b, i)]) (Suc e) pre (concat (cs[i := its'])) post"
    using down.IH [OF pick _ t] by simp
  have "at_node m' pg psz D p (stk @ [(b, i), (q, k)]) e (pre @ concat (take i (cs[i := its']))) (cs[i := its'] ! i)
      (concat (drop (Suc i) (cs[i := its'])) @ post)"
    using at_node.down [OF conjunct2 [OF IH] rep _ down.hyps(4,5)] kid by blast
  then show ?case using IH il unfolding e by simp
qed

section \<open>A new node on a leaf\<close>

lemma new_node_fields:
  assumes "length kb < 2 ^ 16" "length db < 2 ^ 32"
  shows "node_key (leaf_node (length db) 0 kb @ db @ r) = kb" "keys_in (leaf_node (length db) 0 kb @ db @ r)"
    "node_flags (leaf_node (length db) 0 kb @ db @ r) = 0" "item_value m pg (leaf_node (length db) 0 kb @ db @ r) = Some db"
proof -
  let ?bs = "leaf_node (length db) 0 kb @ db @ r"
  have k: "le_val (take 2 (drop 6 ?bs)) = length kb" using assms(1) by (simp add: leaf_node_def)
  show "node_key ?bs = kb" using k by (simp add: node_key_def leaf_node_def)
  show "keys_in ?bs" using k by (simp add: keys_in_def)
  show f: "node_flags ?bs = 0" by (simp add: node_flags_def leaf_node_def)
  have "node_dofs ?bs = NODESIZE + length kb" unfolding node_dofs_def k ..
  moreover have "node_dsz ?bs = length db" using assms(2) by (simp add: node_dsz_def leaf_node_def)
  moreover have "drop (NODESIZE + length kb) ?bs = db @ r" by (simp add: leaf_node_def)
  moreover have "\<not> F_ISSET 0 F_BIGDATA" by (simp add: F_ISSET_def)
  ultimately show "item_value m pg ?bs = Some db" unfolding item_value_def f by simp
qed

lemma sorted_insert:
  assumes "sorted_wrt (<) (K :: u8 list list)" "kb \<notin> set K" "i = length (filter (\<lambda>k. k < kb) K)"
  shows "sorted_wrt (<) (ins_nth i kb K)"
proof -
  have i: "i \<le> length K" unfolding assms(3) by (rule length_filter_le)
  have less: "K ! j < kb \<longleftrightarrow> j < i" if "j < length K" for j
    unfolding assms(3) using length_filter_less [OF assms(1) that, of kb] by simp
  have "x < kb" if "x \<in> set (take i K)" for x
    using that i less by (auto simp: in_set_conv_nth)
  moreover have "kb < x" if "x \<in> set (drop i K)" for x
  proof -
    obtain j where j: "x = K ! j" "i \<le> j" "j < length K"
      using \<open>x \<in> set (drop i K)\<close> i by (auto simp: in_set_conv_nth)
    then have "\<not> x < kb" "x \<noteq> kb" using less [of j] assms(2) by auto
    then show ?thesis by simp
  qed
  moreover have "x < y" if "x \<in> set (take i K)" "y \<in> set (drop i K)" for x y
    using calculation that by (meson less_trans)
  moreover have "sorted_wrt (<) (take i K)" "sorted_wrt (<) (drop i K)"
    using assms(1) by (simp_all add: sorted_wrt_take sorted_wrt_drop)
  ultimately show ?thesis by (simp add: ins_nth_def sorted_wrt_append)
qed

lemma map_ins_nth: "map f (ins_nth i x xs) = ins_nth i (f x) (map f xs)"
  by (simp add: ins_nth_def take_map drop_map)

lemma set_ins_nth: "set (ins_nth i x xs) = insert x (set xs)"
  by (simp add: ins_nth_def) (metis append_take_drop_id set_append)

lemma leaf_rep_insert:
  assumes old: "leaf_rep m psz p L" and rep: "page_rep m' p psz True u (ins_nth i (ofs, bs) L)"
    and br: "IS_BRANCH m' p = IS_BRANCH m p" and bs: "node_key bs = kb" "keys_in bs"
    and i: "i = leaf_index L kb" "kb \<notin> set (map (node_key \<circ> snd) L)"
  shows "leaf_rep m' psz p (ins_nth i (ofs, bs) L)"
proof -
  have "sorted_wrt (<) (map (node_key \<circ> snd) (ins_nth i (ofs, bs) L))"
    using sorted_insert [of "map (node_key \<circ> snd) L" kb i] old i bs(1) by (simp add: leaf_rep_def map_ins_nth)
  moreover have "\<forall>b\<in>set (map snd (ins_nth i (ofs, bs) L)). keys_in b"
    using old bs(2) by (auto simp: leaf_rep_def set_ins_nth)
  ultimately show ?thesis using old rep br by (auto simp: leaf_rep_def)
qed

section \<open>The table\<close>

text \<open>Items that are in their nodes, not on overflow pages.\<close>

definition inline_items :: "u8 list list \<Rightarrow> bool" where
  "inline_items items \<longleftrightarrow> (\<forall>bs\<in>set items. node_flags bs = 0 \<and> node_dofs bs + node_dsz bs \<le> length bs)"

lemma inline_value: "node_flags bs = 0 \<Longrightarrow> node_dofs bs + node_dsz bs \<le> length bs \<Longrightarrow> item_value m pg bs = Some (take (node_dsz bs) (drop (node_dofs bs) bs))"
  by (simp add: item_value_def F_ISSET_def)

lemma inline_plain: "inline_items items \<Longrightarrow> plain_items m pg items"
  by (auto simp: plain_items_def inline_items_def inline_value F_ISSET_def)

lemma inline_table: "inline_items items \<Longrightarrow> table m' pg' items = table m pg items"
  by (simp add: table_def inline_items_def inline_value)

lemma table_append: "table m pg (xs @ ys) = table m pg xs @ table m pg ys"
  by (simp add: table_def)

lemma map_of_insert: "k \<notin> fst ` set xs \<Longrightarrow> map_of (xs @ (k, v) # ys) = (map_of (xs @ ys))(k \<mapsto> v)"
  by (induction xs) (auto simp: fun_upd_twist)

lemma table_insert:
  assumes inl: "inline_items (pre @ xs @ post)" and ar: "around pre kb post" "kb \<notin> set (map node_key xs)"
    and bs: "node_key bs = kb" "item_value m' pg' bs = Some v"
  shows "map_of (table m' pg' (pre @ ins_nth i bs xs @ post)) = (map_of (table m pg (pre @ xs @ post)))(kb \<mapsto> v)"
proof -
  have t: "table m' pg' ys = table m pg ys" if "set ys \<subseteq> set (pre @ xs @ post)" for ys
    using inl that by (intro inline_table) (auto simp: inline_items_def)
  have tt: "table m' pg' pre = table m pg pre" "table m' pg' (take i xs) = table m pg (take i xs)"
    "table m' pg' (drop i xs) = table m pg (drop i xs)" "table m' pg' post = table m pg post"
    by (rule t, use set_take_subset [of i xs] set_drop_subset [of i xs] in auto)+
  have b: "table m' pg' [bs] = [(kb, v)]" using bs by (simp add: table_def)
  have e: "table m' pg' (pre @ ins_nth i bs xs @ post) =
      (table m pg pre @ table m pg (take i xs)) @ (kb, v) # (table m pg (drop i xs) @ table m pg post)"
    using tt b table_append [of m' pg' "[bs]" "drop i xs @ post"] by (simp add: ins_nth_def table_append)
  have "table m pg (pre @ xs @ post) = (table m pg pre @ table m pg (take i xs)) @ (table m pg (drop i xs) @ table m pg post)"
    using table_append [of m pg "take i xs" "drop i xs"] by (simp add: table_append)
  moreover have "kb \<notin> fst ` set (table m pg pre @ table m pg (take i xs))"
    using ar in_set_takeD [of _ i xs] by (auto simp: table_def around_def)
  note map_of_insert [OF this]
  ultimately show ?thesis unfolding e by (simp only:)
qed

section \<open>Another item under a key\<close>

text \<open>Bytes of a node are overwritten behind its header.\<close>

lemma page_rep_overwrite:
  assumes rep: "page_rep m p psz leaf u L" and i: "i < length L" "L ! i = (ofs, bs)"
    and a: "NODESIZE \<le> a" "a + length vb \<le> length bs" and st: "store m (padd p (ofs + a)) vb = Some m'"
  shows "page_rep m' p psz leaf u (L[i := (ofs, take a bs @ vb @ drop (a + length vb) bs)])"
proof -
  let ?b = "take a bs @ vb @ drop (a + length vb) bs" and ?k = "length vb"
  note D = page_repD [OF rep] and N = page_rep_nth [OF rep]
  note I = N(1-6) [OF i(1), unfolded i(2) fst_conv snd_conv]
  have u: "upd_only (padd p (ofs + a)) ?k m m'" by (rule store_upd_only [OF st])
  note H = header_frame [OF u]
  have top: "PAGEHDRSZ + 2 * length L \<le> ofs + a" using D(7) I(3) by simp
  have pt: "mp_ptrs m' p q = Some (fst (L ! q))" if "q < length L" for q using H(4) [of q] N(1) [OF that] top that by simp
  have ld: "load m' (padd p (fst (L ! q))) (length (snd (L ! q))) = Some (snd (L ! q))" if q: "q < length L" "q \<noteq> i" for q
  proof -
    have "apart (padd p (ofs + a)) ?k (padd p (fst (L ! q))) (length (snd (L ! q)))"
      using N(7) [OF i(1) q(1)] q(2) a(2) i(2) by auto
    then show ?thesis using upd_only_load [OF u] N(2) [OF q(1)] by simp
  qed
  have part: "load m (padd p (ofs + b)) k = Some (take k (drop b bs))" if "b + k \<le> length bs" for b k
    using load_part [OF I(2) that] by simp
  have "load m' (padd p ofs) a = Some (take a bs)" using part [of 0 a] a(2) upd_only_load [OF u, of "padd p ofs" a] by simp
  moreover have "load m' (padd (padd p ofs) a) ?k = Some vb" using load_store_same [OF st] by simp
  moreover have "load m' (padd (padd p ofs) (a + ?k)) (length bs - (a + ?k)) = Some (drop (a + ?k) bs)"
    using part [of "a + ?k" "length bs - (a + ?k)"] a(2) upd_only_load [OF u, of "padd p (ofs + (a + ?k))" "length bs - (a + ?k)"]
    by (simp add: add.assoc)
  ultimately have "load m' (padd p ofs) (a + ?k + (length bs - (a + ?k))) = Some ((take a bs @ vb) @ drop (a + ?k) bs)"
    by (intro load_append)
  then have ldi: "load m' (padd p ofs) (length ?b) = Some ?b" using a(2) by simp
  have len: "length ?b = length bs" using a(2) by simp
  have "take 8 ?b = take 8 bs" using a by (simp add: min_def)
  then have img: "img_size leaf ?b = img_size leaf bs" using img_size_prefix [of 8 leaf] by (metis order_refl)
  have M: "fst (L[i := (ofs, ?b)] ! q) = fst (L ! q)" "length (snd (L[i := (ofs, ?b)] ! q)) = length (snd (L ! q))"
    "img_size leaf (snd (L[i := (ofs, ?b)] ! q)) = img_size leaf (snd (L ! q))" if "q < length L" for q
    using that i img len by (cases "q = i"; simp)+
  have v: "valid m' p psz" using D(1) upd_only_valid [OF u] by simp
  show ?thesis
  proof (rule page_repI [OF v D(2) _ _ _ _ _ D(7,8)])
    show "load m' (padd p (fst (L[i := (ofs, ?b)] ! q))) (length (snd (L[i := (ofs, ?b)] ! q))) = Some (snd (L[i := (ofs, ?b)] ! q))"
      if "q < length L" for q
      using ld [OF that] ldi i that by (cases "q = i") simp_all
  qed (use D(3-6) H top pt N M in simp_all)
qed

text \<open>The new value in the place of the old one.\<close>

definition with_value :: "u8 list \<Rightarrow> u8 list \<Rightarrow> u8 list" where
  "with_value bs vb = take (node_dofs bs) bs @ vb @ drop (node_dofs bs + length vb) bs"

lemma with_value_fields:
  assumes "node_flags bs = 0" "node_dofs bs + node_dsz bs \<le> length bs" "length vb = node_dsz bs"
  shows "node_key (with_value bs vb) = node_key bs" "keys_in (with_value bs vb)" "node_flags (with_value bs vb) = 0"
    "node_dofs (with_value bs vb) + node_dsz (with_value bs vb) \<le> length (with_value bs vb)" "item_value m pg (with_value bs vb) = Some vb"
proof -
  let ?b = "with_value bs vb"
  have d: "8 \<le> node_dofs bs" "node_dofs bs \<le> length bs" using assms(2) by (simp_all add: node_dofs_def)
  have t: "take k ?b = take k bs" if "k \<le> node_dofs bs" for k using that d by (simp add: with_value_def min_def)
  have h: "take k (drop a ?b) = take k (drop a bs)" if "a + k \<le> node_dofs bs" for a k
    using t [OF that] by (simp add: take_drop add.commute [of k a])
  have f: "node_flags ?b = 0" "node_dsz ?b = node_dsz bs" "node_dofs ?b = node_dofs bs"
    using h [of 4 2] h [of 0 4] h [of 6 2] d assms(1) by (simp_all add: node_flags_def node_dsz_def node_dofs_def)
  have k: "take 2 (drop 6 ?b) = take 2 (drop 6 bs)" using h [of 6 2] d by simp
  show "node_key ?b = node_key bs" using h [of 8 "node_dofs bs - 8"] k by (simp add: node_key_def node_dofs_def)
  have len: "length ?b = length bs" using assms(2,3) by (simp add: with_value_def)
  show "keys_in ?b" using d k len by (simp add: keys_in_def node_dofs_def)
  show "node_flags ?b = 0" "node_dofs ?b + node_dsz ?b \<le> length ?b" using f len assms(2) by simp_all
  have "take (node_dsz bs) (drop (node_dofs bs) ?b) = vb" using d assms(3) by (simp add: with_value_def)
  then show "item_value m pg ?b = Some vb" using f len assms(2) by (simp add: item_value_def F_ISSET_def)
qed

lemma leaf_rep_set:
  assumes old: "leaf_rep m psz p L" and rep: "page_rep m' p psz True u L'" and br: "IS_BRANCH m' p = IS_BRANCH m p"
    and L': "map snd L' = (map snd L)[i := bs]" "i < length L" and bs: "node_key bs = node_key (snd (L ! i))" "keys_in bs"
  shows "leaf_rep m' psz p L'"
proof -
  have "map (node_key \<circ> snd) L' = map node_key ((map snd L)[i := bs])" using L'(1) by (metis map_map)
  also have "\<dots> = (map (node_key \<circ> snd) L)[i := (map (node_key \<circ> snd) L) ! i]" using L'(2) bs(1) by (simp add: map_update)
  finally have k: "map (node_key \<circ> snd) L' = map (node_key \<circ> snd) L" by simp
  have "\<forall>b\<in>set (map snd L'). keys_in b"
    unfolding L'(1) using old bs(2) set_update_subset_insert [of "map snd L" i bs] by (auto simp: leaf_rep_def)
  then show ?thesis using old rep br k by (auto simp: leaf_rep_def)
qed

lemma table_set:
  assumes inl: "inline_items (pre @ xs @ post)" and ar: "around pre kb post" and i: "i < length xs" "node_key (xs ! i) = kb"
    and srt: "sorted_wrt (<) (map node_key xs)" and bs: "node_key bs = kb" "item_value m' pg' bs = Some v"
  shows "map_of (table m' pg' (pre @ xs[i := bs] @ post)) = (map_of (table m pg (pre @ xs @ post)))(kb \<mapsto> v)"
proof -
  have x: "xs = take i xs @ xs ! i # drop (Suc i) xs" by (rule id_take_nth_drop [OF i(1)])
  have e: "xs[i := bs] = ins_nth i bs (take i xs @ drop (Suc i) xs)"
    using i(1) by (simp add: upd_conv_take_nth_drop ins_nth_def)
  have abs: "kb \<notin> set (map node_key (take i xs @ drop (Suc i) xs))"
  proof -
    have "distinct (map node_key (take i xs @ xs ! i # drop (Suc i) xs))" using srt x strict_sorted_iff by metis
    then show ?thesis using i(2) by auto
  qed
  have inl': "inline_items (pre @ (take i xs @ drop (Suc i) xs) @ post)"
    using inl in_set_takeD [of _ i xs] in_set_dropD [of _ "Suc i" xs] by (auto simp: inline_items_def)
  obtain v0 where v0: "item_value m pg (xs ! i) = Some v0" using inl i(1) nth_mem [OF i(1)] by (auto simp: inline_items_def inline_value)
  have old: "map_of (table m pg (pre @ xs @ post)) = (map_of (table m pg (pre @ (take i xs @ drop (Suc i) xs) @ post)))(kb \<mapsto> v0)"
    using table_insert [OF inl' ar abs i(2) v0, of i] x i(1) by (simp add: ins_nth_def)
  show ?thesis unfolding e table_insert [OF inl' ar abs bs, of i m pg] old by simp
qed

end
