(* ===== verification/Put_Step_Spec.thy ===== *)
theory Put_Step_Spec
  imports Put Insert_Spec
begin

text \<open>
  The steps of \<^verbatim>\<open>mdb_cursor_put\<close> on pages that are dirty already: checks, position, no spilling and
  no copy, and the item written into a leaf that has room for it, as a new node, over the value of
  a node, or in the place of a node.
\<close>

section \<open>Steps of \<^verbatim>\<open>mdb_cursor_put\<close>\<close>

text \<open>Flags that do not change how a new key is written.\<close>

definition plain_put :: "u32 \<Rightarrow> bool" where
  "plain_put flags \<longleftrightarrow> flags \<in> {0, MDB_NOOVERWRITE, MDB_NODUPDATA, MDB_NOOVERWRITE OR MDB_NODUPDATA}"

lemma plain_put_flags:
  assumes "plain_put flags"
  shows "\<not> any_set flags MDB_MULTIPLE" "\<not> any_set flags MDB_CURRENT" "\<not> any_set flags MDB_APPEND" "\<not> any_set flags MDB_NOSPILL"
    "clear flags MDB_NOSPILL = flags" "flags AND NODE_ADD_FLAGS = 0" "\<not> any_set flags F_SUBDATA"
    "clear flags (MDB_NOOVERWRITE OR MDB_NODUPDATA OR MDB_RESERVE OR MDB_APPEND OR MDB_APPENDDUP) = 0"
  using assms by (auto simp: plain_put_def any_set_def clear_def)

text \<open>There is room for the pages a put can make dirty: nothing is spilled.\<close>

lemma page_spill_skip:
  assumes r: "w_cursors w c = Some r" and x: "w_txns w (mc_txn r) = Some x" "\<not> any_set (mc_flags r) C_SUB"
    and db: "get_db w (mc_db r) = Some db" "rd (mt_dbs x) MAIN_DBI = Some main"
    and sz: "0 < me_psize (w_env w)" "LEAFSIZE key data < me_psize (w_env w)"
    and room: "2 * (unat (md_depth db) + (if mc_dbi r \<ge> CORE_DBS then unat (md_depth main) else 0) + 1) < mt_dirty_room x"
  shows "mdb_page_spill w c (Some key) (Some data) = Some (MDB_SUCCESS, w)"
proof -
  have b: "unat (md_depth db) < 2 ^ 16" "unat (md_depth main) < 2 ^ 16"
    using unsigned_less [of "md_depth db", where 'a = nat] unsigned_less [of "md_depth main", where 'a = nat] by simp_all
  have d: "(LEAFSIZE key data + me_psize (w_env w)) div me_psize (w_env w) = 1" using sz by (simp add: div_add_self2)
  define i where "i = unat (md_depth db) + (if mc_dbi r \<ge> CORE_DBS then unat (md_depth main) else 0) + 1"
  have i: "i < 2 ^ 18" using b by (simp add: i_def split: if_splits)
  have "spill_need w c (Some key) (Some data) = Some (u32 (u32 i + u32 i))"
    using r x db by (simp add: spill_need_def Let_def d i_def)
  also have "u32 (u32 i + u32 i) = 2 * i" using i by (simp add: u32_def)
  finally show ?thesis using r x room by (simp add: mdb_page_spill_def i_def)
qed

text \<open>Pages that are dirty already are not copied.\<close>

definition dirty_page :: "mem \<Rightarrow> ptr \<Rightarrow> bool" where
  "dirty_page m p \<longleftrightarrow> (\<exists>fl. mp_flags m p = Some fl \<and> F_ISSET fl P_DIRTY)"

lemma put_cur_top [simp]: "top_pg (put_cur w c r) c = rd (mc_pg r) (mc_top r)" "top_ki (put_cur w c r) c = rd (mc_ki r) (mc_top r)"
  by (simp_all add: top_pg_def top_ki_def)

lemma touch_stack_dirty:
  assumes "stack_wf r" "w_txns w (mc_txn r) = Some x" "mt_parent x = None" "\<forall>p\<in>fst ` set (path r). dirty_page (w_mem w) p"
    and "k < mc_snum r" "mc_snum r - k \<le> n"
  shows "touch_stack n (put_cur w c (r\<lparr>mc_top := k\<rparr>)) c = Some (0, put_cur w c (r\<lparr>mc_top := mc_snum r\<rparr>))"
  using assms(5,6)
proof (induction n arbitrary: k)
  case (Suc n)
  have len: "length (mc_pg r) = 32" "mc_snum r \<le> 32" using assms(1) by (simp_all add: stack_wf_def)
  have "(mc_pg r ! k, mc_ki r ! k) \<in> set (path r)"
    using path_nth [OF assms(1) Suc.prems(1)] nth_mem [of k "path r"] length_path [OF assms(1)] Suc.prems(1) by simp
  then have "dirty_page (w_mem w) (mc_pg r ! k)" using assms(4) by force
  then have t: "mdb_page_touch (put_cur w c (r\<lparr>mc_top := k\<rparr>)) c = Some (0, put_cur w c (r\<lparr>mc_top := k\<rparr>))"
    using assms(2,3) Suc.prems len by (auto simp: mdb_page_touch_def rd_def dirty_page_def)
  have k: "inc16 k = Suc k" using Suc.prems(1) len by (simp add: inc16_def)
  show ?case
  proof (cases "Suc k < mc_snum r")
    case True
    then show ?thesis using t k Suc.IH [OF True] Suc.prems(2) by (simp add: upd_cur_def)
  next
    case False
    then have "mc_snum r = Suc k" using Suc.prems(1) by simp
    then show ?thesis using t k by (simp add: upd_cur_def)
  qed
qed simp

lemma cursor_touch_dirty:
  assumes "stack_wf r" "w_txns w (mc_txn r) = Some x" "mt_parent x = None" "\<forall>p\<in>fst ` set (path r). dirty_page (w_mem w) p"
    and "0 < mc_snum r" "get_dbflag w (mc_dbflag r) = Some fl" "mc_dbi r < CORE_DBS \<or> any_set fl (DB_DIRTY OR DB_DUPDATA)"
  shows "mdb_cursor_touch (put_cur w c r) c = Some (0, put_cur w c r)"
proof -
  have top: "mc_top r = mc_snum r - 1" "mc_snum r \<le> 32" using assms(1,5) by (simp_all add: stack_wf_def)
  have s: "touch_stack (CURSOR_STACK + 1) (put_cur w c (r\<lparr>mc_top := 0\<rparr>)) c = Some (0, put_cur w c (r\<lparr>mc_top := mc_snum r\<rparr>))"
    by (rule touch_stack_dirty [OF assms(1-5)]) (use top in simp)
  have "put_cur w c (r\<lparr>mc_top := mc_snum r - 1\<rparr>) = put_cur w c r" unfolding top(1) [symmetric] by simp
  then show ?thesis using assms(5-7) s by (auto simp: mdb_cursor_touch_def upd_cur_def)
qed

section \<open>The node of a new item\<close>

definition new_node :: "u8 list \<Rightarrow> u8 list \<Rightarrow> u8 list \<Rightarrow> u8 list" where
  "new_node kb vb r = leaf_node (length vb) 0 kb @ vb @ r"

text \<open>\<^verbatim>\<open>mdb_node_add\<close> on a leaf with room for an item that does not need an overflow page.\<close>

lemma node_add_item:
  assumes rep: "page_rep (w_mem w) p psz True u L" and i: "i \<le> length L"
    and cur: "w_cursors w c = Some r" "top_pg w c = Some p"
    and sz: "LEAFSIZE key data \<le> me_nodemax (w_env w)" "SIZELEFT (w_mem w) p = Some left" "mdb_leaf_size (w_env w) key data \<le> left"
    and kb: "val_bytes (w_mem w) key = Some kb" "mv_size key < 2 ^ 16" "apart p psz (mv_data key) (mv_size key)"
    and vb: "val_bytes (w_mem w) data = Some vb" "apart p psz (mv_data data) (mv_size data)"
  shows "\<exists>m' ofs b u'. mdb_node_add w c i (Some key) (Some data) 0 0 = Some (MDB_SUCCESS, Some data, w\<lparr>w_mem := m'\<rparr>) \<and>
    upd_only (padd p 12) (psz - 12) (w_mem w) m' \<and> page_rep m' p psz True u' (ins_nth i (ofs, new_node kb vb b) L)"
proof -
  note D = page_repD [OF rep]
  let ?ns = "EVEN (NODESIZE + mv_size key + mv_size data)"
  have len: "length kb = mv_size key" "length vb = mv_size data"
    using kb(1) vb(1) load_Some_valid by (auto simp: val_bytes_def)
  have left: "left = u - (PAGEHDRSZ + 2 * length L)" using sz(2) page_rep_SIZELEFT [OF rep] by simp
  have "mdb_leaf_size (w_env w) key data = ?ns + 2" using sz(1) by (simp add: mdb_leaf_size_def LEAFSIZE_def EVEN_def)
  then have room: "?ns + 2 \<le> left" using sz(3) by simp
  have ns: "PAGEHDRSZ + 2 * length L + 2 + ?ns \<le> u" using room left D(7) by simp
  have "mv_size data \<le> ?ns" by (simp add: EVEN_def)
  then have ds: "mv_size data < 2 ^ 32" using ns D(2,8) by simp
  have sub: "apart (padd p 12) (psz - 12) q k" if "apart p psz q k" for q k
    using that D(7,8) unfolding apart_def outside_def by auto
  have f0: "\<not> F_ISSET 0 F_BIGDATA" "\<not> F_ISSET 0 MDB_RESERVE" by (simp_all add: F_ISSET_def)
  have dl: "data_len 0 n = n" for n using f0 by (simp add: data_len_def)
  obtain m' b where A: "node_add_update (w_mem w) p i (Some key) (Some data) 0 0 ?ns None = Some (m', Some data)"
    "upd_only (padd p 12) (psz - 12) (w_mem w) m'"
    "page_rep m' p psz True (u - ?ns) (ins_nth i (u - ?ns, leaf_node (mv_size data) 0 kb @ vb @ b) L)"
    using node_add_leaf_rep [OF rep i, of ?ns key 0 data kb vb 0] ns kb vb ds sub f0 dl by (auto simp: val_bytes_def)
  have "mdb_node_add w c i (Some key) (Some data) 0 0 = Some (MDB_SUCCESS, Some data, w\<lparr>w_mem := m'\<rparr>)"
    using cur D sz(1,2) room f0 A(1) by (simp add: mdb_node_add_def INDXSIZE_def LEAFSIZE_def)
  then show ?thesis using A(2,3) len(2) unfolding new_node_def by metis
qed

text \<open>After the function: the database has \<open>n\<close> items, and the cursor is \<open>r\<close>.\<close>

definition written :: "world \<Rightarrow> cid \<Rightarrow> MDB_cursor \<Rightarrow> tid \<Rightarrow> nat \<Rightarrow> MDB_txn \<Rightarrow> MDB_db \<Rightarrow> u64 \<Rightarrow> world" where
  "written w c r t dbi x db n = put_cur (w\<lparr>w_txns := (w_txns w)(t \<mapsto> x\<lparr>mt_dbs := (mt_dbs x)[dbi := db\<lparr>md_entries := n\<rparr>]\<rparr>)\<rparr>) c r"

lemma written_same:
  assumes "w_cursors w c = Some r" "w_txns w t = Some x" "rd (mt_dbs x) dbi = Some db"
  shows "written w c r t dbi x db (md_entries db) = w"
proof -
  have "(mt_dbs x)[dbi := db] = mt_dbs x" using assms(3) by (auto simp: rd_def split: if_splits)
  then show ?thesis using assms by (cases w, cases x, cases db) (simp add: written_def put_cur_def fun_upd_idem)
qed

text \<open>The label \<open>new_sub\<close> when the cursor is the only one on the database.\<close>

lemma put_new_sub_fits:
  assumes rep: "page_rep (w_mem w) p psz True u L" and i: "i \<le> length L"
    and cur: "w_cursors w c = Some r" "top_pg w c = Some p" "top_ki w c = Some i" "\<not> any_set (mc_flags r) C_SUB"
    and sz: "LEAFSIZE key data \<le> me_nodemax (w_env w)" "SIZELEFT (w_mem w) p = Some left" "mdb_leaf_size (w_env w) key data \<le> left"
    and kb: "val_bytes (w_mem w) key = Some kb" "mv_size key < 2 ^ 16" "apart p psz (mv_data key) (mv_size key)"
    and vb: "val_bytes (w_mem w) data = Some vb" "apart p psz (mv_data data) (mv_size data)"
    and tr: "tracked w (mc_txn r) (mc_dbi r) = Some [c]" and l: "pl_data l = data" "plain_put (pl_flags l)"
  shows "\<exists>m' ofs b u'. put_new_sub w c key False l = Some (MDB_SUCCESS, l, w\<lparr>w_mem := m'\<rparr>) \<and>
    upd_only (padd p 12) (psz - 12) (w_mem w) m' \<and> page_rep m' p psz True u' (ins_nth i (ofs, new_node kb vb b) L)"
proof -
  obtain m' ofs b u' where A: "mdb_node_add w c i (Some key) (Some data) 0 0 = Some (MDB_SUCCESS, Some data, w\<lparr>w_mem := m'\<rparr>)"
    "upd_only (padd p 12) (psz - 12) (w_mem w) m'" "page_rep m' p psz True u' (ins_nth i (ofs, new_node kb vb b) L)"
    using node_add_item [OF rep i cur(1,2) sz kb vb] by blast
  let ?w = "w\<lparr>w_mem := m'\<rparr>"
  have tr: "tracked ?w (mc_txn r) (mc_dbi r) = Some [c]" using tr by (simp add: tracked_def)
  have pg: "rd (mc_pg r) (mc_top r) = Some p" using cur(1,2) by (simp add: top_pg_def)
  have adj: "each_tracked (put_adjust c (pl_insert_key l)) ?w c = Some ?w"
    using cur(1,4) tr pg by (simp add: each_tracked_def m3_of_def put_adjust_def)
  have "put_new_sub w c key False l = Some (MDB_SUCCESS, l, ?w)"
    using cur sz(2,3) page_repD(4) [OF rep] A(1) adj plain_put_flags(6) [OF l(2)] l(1) by (cases l) (simp add: put_new_sub_def)
  then show ?thesis using A(2,3) by blast
qed

lemma put_item_new:
  assumes rep: "page_rep (w_mem w) p psz True u L" and i: "i \<le> length L"
    and cur: "w_cursors w c = Some r" "top_pg w c = Some p" "top_ki w c = Some i" "\<not> any_set (mc_flags r) C_SUB"
    and sz: "LEAFSIZE key data \<le> me_nodemax (w_env w)" "SIZELEFT (w_mem w) p = Some left" "mdb_leaf_size (w_env w) key data \<le> left"
    and kb: "val_bytes (w_mem w) key = Some kb" "mv_size key < 2 ^ 16" "apart p psz (mv_data key) (mv_size key)"
    and vb: "val_bytes (w_mem w) data = Some vb" "apart p psz (mv_data data) (mv_size data)"
    and db: "mc_db r = TxnDb (mc_txn r) (mc_dbi r)" "w_txns w (mc_txn r) = Some x" "rd (mt_dbs x) (mc_dbi r) = Some db"
      "\<not> any_set (md_flags db) MDB_DUPSORT" "tracked w (mc_txn r) (mc_dbi r) = Some [c]"
    and l: "pl_data l = data" "plain_put (pl_flags l)" "pl_insert_key l" "pl_insert_data l" "\<not> pl_do_sub l"
  shows "\<exists>m' ofs b u'. put_item put w c key MDB_NOTFOUND l =
      Some (MDB_SUCCESS, data, pl_data1 l, written (w\<lparr>w_mem := m'\<rparr>) c (r\<lparr>mc_flags := mc_flags r OR C_INITIALIZED\<rparr>) (mc_txn r) (mc_dbi r) x db (md_entries db + 1)) \<and>
    upd_only (padd p 12) (psz - 12) (w_mem w) m' \<and> page_rep m' p psz True u' (ins_nth i (ofs, new_node kb vb b) L)"
proof -
  obtain m' ofs b u' where A: "put_new_sub w c key False l = Some (MDB_SUCCESS, l, w\<lparr>w_mem := m'\<rparr>)"
    "upd_only (padd p 12) (psz - 12) (w_mem w) m'" "page_rep m' p psz True u' (ins_nth i (ofs, new_node kb vb b) L)"
    using put_new_sub_fits [OF rep i cur sz kb vb db(5) l(1,2)] by blast
  have ins: "put_insert w c key l = Some (New_sub False, l, w)" using cur(1) db by (simp add: put_insert_def)
  have cnt: "put_count again (w\<lparr>w_mem := m'\<rparr>) c 0 l = Some (0, data, pl_data1 l,
      written (w\<lparr>w_mem := m'\<rparr>) c (r\<lparr>mc_flags := mc_flags r OR C_INITIALIZED\<rparr>) (mc_txn r) (mc_dbi r) x db (md_entries db + 1))" for again
    using cur(1) db(1-3) plain_put_flags(1) [OF l(2)] l
    by (simp add: put_count_def or_flags_def upd_cur_def upd_txn_def written_def put_cur_def)
  show ?thesis using A ins cnt l(5) by (auto simp: put_item_def put_store_def)
qed

section \<open>An item that exists already\<close>

text \<open>The old node of the key, and what \<^verbatim>\<open>more\<close> makes of it.\<close>

lemma put_more_node:
  assumes n: "load (w_mem w) node k = Some bs" "NODESIZE \<le> k" and cur: "w_cursors w c = Some r" "top_pg w c = Some p" "top_ki w c = Some i"
    and node: "NODEPTR (w_mem w) p i = Some node" and db: "get_db w (mc_db r) = Some db" "\<not> any_set (md_flags db) MDB_DUPSORT"
  shows "put_more w c key l = put_current w c key node \<lparr>mv_size = node_dsz bs, mv_data = padd node (node_dofs bs)\<rparr> l"
proof -
  have "\<not> F_ISSET (md_flags db) MDB_DUPSORT" using db(2) by (simp add: any_set_def F_ISSET_def)
  then show ?thesis using cur node db node_fields [OF n] by (simp add: put_more_def)
qed

text \<open>The new value has the size of the old one: it is written over it.\<close>

lemma put_current_same_size:
  assumes rep: "page_rep (w_mem w) p psz True u L" and i: "i < length L" "L ! i = (ofs, bs)"
    and cur: "w_cursors w c = Some r" "\<not> any_set (mc_flags r) C_SUB"
    and old: "node_flags bs = 0" "node_dofs bs + node_dsz bs \<le> length bs" "mv_size data = node_dsz bs"
    and vb: "val_bytes (w_mem w) data = Some vb" and l: "pl_data l = data" "plain_put (pl_flags l)"
  shows "\<exists>m'. put_current w c key (padd p ofs) \<lparr>mv_size = node_dsz bs, mv_data = padd (padd p ofs) (node_dofs bs)\<rparr> l =
      Some (Ret MDB_SUCCESS, l, w\<lparr>w_mem := m'\<rparr>) \<and>
    upd_only (padd p 12) (psz - 12) (w_mem w) m' \<and> page_rep m' p psz True u (L[i := (ofs, with_value bs vb)])"
proof -
  note N = page_rep_nth(1-6) [OF rep i(1), unfolded i(2) fst_conv snd_conv]
  have len: "length vb = node_dsz bs" using vb old(3) load_Some_valid by (auto simp: val_bytes_def)
  have a: "NODESIZE \<le> node_dofs bs" by (simp add: node_dofs_def)
  have b: "PAGEHDRSZ \<le> ofs" "ofs + length bs \<le> psz" using page_repD(7) [OF rep] N(3,4) by simp_all
  have "valid (w_mem w) (padd p (ofs + node_dofs bs)) (length vb)"
    using load_padd_valid [OF page_repD(1) [OF rep]] b old(2) len by simp
  then obtain m' where m': "store (w_mem w) (padd p (ofs + node_dofs bs)) vb = Some m'" using store_ok by blast
  have u: "upd_only (padd p 12) (psz - 12) (w_mem w) m'"
    by (rule upd_only_mono [OF store_upd_only [OF m']]) (use b old(2) len in simp_all)
  have r: "page_rep m' p psz True u (L[i := (ofs, with_value bs vb)])"
    using page_rep_overwrite [OF rep i a _ m'] old(2) len by (simp add: with_value_def)
  have "mn_flags (w_mem w) (padd p ofs) = Some 0" using node_fields(2) [OF N(2,5)] old(1) by simp
  moreover have "\<not> any_set (0 XOR pl_flags l) F_SUBDATA" "\<not> F_ISSET 0 F_BIGDATA" "\<not> F_ISSET (pl_flags l) MDB_RESERVE"
    using plain_put_flags(7) [OF l(2)] l(2) by (auto simp: F_ISSET_def plain_put_def)
  ultimately have "put_current w c key (padd p ofs) \<lparr>mv_size = node_dsz bs, mv_data = padd (padd p ofs) (node_dofs bs)\<rparr> l =
      Some (Ret MDB_SUCCESS, l, w\<lparr>w_mem := m'\<rparr>)"
    using cur l(1) old(3) vb m' by (simp add: put_current_def memmove_def val_bytes_def mem_do_def)
  then show ?thesis using u r by blast
qed

text \<open>It has another size: the old node is removed first.\<close>

lemma put_current_other_size:
  assumes rep: "page_rep (w_mem w) p psz True u L" and i: "i < length L" "L ! i = (ofs, bs)"
    and cur: "w_cursors w c = Some r" "top_pg w c = Some p" "top_ki w c = Some i"
    and old: "node_flags bs = 0" "mv_size data \<noteq> node_dsz bs" and l: "pl_data l = data" "plain_put (pl_flags l)"
  shows "\<exists>m'. put_current w c key (padd p ofs) \<lparr>mv_size = node_dsz bs, mv_data = d\<rparr> l = Some (New_sub False, l, w\<lparr>w_mem := m'\<rparr>) \<and>
    upd_only (padd p 12) (psz - 12) (w_mem w) m' \<and>
    page_rep m' p psz True (u + length bs) (del_nth i (map (\<lambda>(x, b). (shift_below ofs (length bs) x, b)) L))"
proof -
  note N = page_rep_nth(1-6) [OF rep i(1), unfolded i(2) fst_conv snd_conv]
  obtain m' where m': "node_del_at (w_mem w) p i 0 = Some m'" "upd_only (padd p 12) (psz - 12) (w_mem w) m'"
    "page_rep m' p psz True (u + length bs) (del_nth i (map (\<lambda>(x, b). (shift_below ofs (length bs) x, b)) L))"
    using node_del_at_rep [OF rep i(1), of 0] by (auto simp: i(2))
  have "mn_flags (w_mem w) (padd p ofs) = Some 0" using node_fields(2) [OF N(2,5)] old(1) by simp
  moreover have "\<not> any_set (0 XOR pl_flags l) F_SUBDATA" "\<not> F_ISSET 0 F_BIGDATA"
    using plain_put_flags(7) [OF l(2)] by (auto simp: F_ISSET_def)
  ultimately have "put_current w c key (padd p ofs) \<lparr>mv_size = node_dsz bs, mv_data = d\<rparr> l = Some (New_sub False, l, w\<lparr>w_mem := m'\<rparr>)"
    using cur l(1) old(2) m'(1) by (simp add: put_current_def mdb_node_del_def mem_do_def)
  then show ?thesis using m'(2,3) by blast
qed

lemma ins_del_nth: "i < length xs \<Longrightarrow> ins_nth i x (del_nth i xs) = xs[i := x]"
  by (simp add: ins_nth_def del_nth_def upd_conv_take_nth_drop min_def)

text \<open>The leaf afterwards: the item has been written over or is a new node in the place of the old one.\<close>

definition replaces :: "u8 list \<Rightarrow> u8 list \<Rightarrow> u8 list \<Rightarrow> u8 list \<Rightarrow> bool" where
  "replaces old kb vb bs \<longleftrightarrow> (bs = with_value old vb \<and> length vb = node_dsz old) \<or> (\<exists>b. bs = new_node kb vb b)"

lemma put_item_old:
  assumes rep: "page_rep (w_mem w) p psz True u L" and i: "i < length L"
    and cur: "w_cursors w c = Some r" "top_pg w c = Some p" "top_ki w c = Some i" "\<not> any_set (mc_flags r) C_SUB"
    and sz: "LEAFSIZE key data \<le> me_nodemax (w_env w)" "SIZELEFT (w_mem w) p = Some left" "mdb_leaf_size (w_env w) key data \<le> left"
    and kb: "val_bytes (w_mem w) key = Some kb" "mv_size key < 2 ^ 16" "apart p psz (mv_data key) (mv_size key)"
    and vb: "val_bytes (w_mem w) data = Some vb" "apart p psz (mv_data data) (mv_size data)"
    and db: "get_db w (mc_db r) = Some db" "\<not> any_set (md_flags db) MDB_DUPSORT" "tracked w (mc_txn r) (mc_dbi r) = Some [c]"
    and l: "pl_data l = data" "plain_put (pl_flags l)" "\<not> pl_insert_key l" "\<not> pl_insert_data l" "\<not> pl_do_sub l"
    and old: "node_flags (snd (L ! i)) = 0" "node_dofs (snd (L ! i)) + node_dsz (snd (L ! i)) \<le> length (snd (L ! i))"
  shows "\<exists>m' u' L' bs. put_item put w c key MDB_SUCCESS l = Some (MDB_SUCCESS, data, pl_data1 l, w\<lparr>w_mem := m'\<rparr>) \<and>
    upd_only (padd p 12) (psz - 12) (w_mem w) m' \<and> page_rep m' p psz True u' L' \<and>
    map snd L' = (map snd L)[i := bs] \<and> replaces (snd (L ! i)) kb vb bs"
proof -
  obtain ofs bs where Li: "L ! i = (ofs, bs)" by fastforce
  note N = page_rep_nth(1-6) [OF rep i, unfolded Li fst_conv snd_conv]
  have node: "NODEPTR (w_mem w) p i = Some (padd p ofs)" using N(1) by (simp add: NODEPTR_def)
  note old = old [unfolded Li snd_conv]
  have start: "put_item put w c key MDB_SUCCESS l = do {
      (next, l', w') \<leftarrow> put_current w c key (padd p ofs) \<lparr>mv_size = node_dsz bs, mv_data = padd (padd p ofs) (node_dofs bs)\<rparr> l;
      put_store put (put_mores (pl_dcount l) put c key) w' c key next l' }"
    using cur(2) page_repD(4) [OF rep] put_more_node [OF N(2,5) cur(1-3) node db(1,2)] by (simp add: put_item_def)
  show ?thesis
  proof (cases "mv_size data = node_dsz bs")
    case True
    obtain m' where "put_current w c key (padd p ofs) \<lparr>mv_size = node_dsz bs, mv_data = padd (padd p ofs) (node_dofs bs)\<rparr> l =
        Some (Ret MDB_SUCCESS, l, w\<lparr>w_mem := m'\<rparr>)"
      "upd_only (padd p 12) (psz - 12) (w_mem w) m'" "page_rep m' p psz True u (L[i := (ofs, with_value bs vb)])"
      using put_current_same_size [OF rep i Li cur(1,4) old True vb(1) l(1,2)] by blast
    moreover have "length vb = node_dsz bs" using vb(1) True load_Some_valid by (auto simp: val_bytes_def)
    ultimately show ?thesis unfolding start using l(1)
      by (intro exI [of _ m'] exI [of _ u] exI [of _ "L[i := (ofs, with_value bs vb)]"] exI [of _ "with_value bs vb"])
        (simp add: put_store_def map_update Li replaces_def)
  next
    case False
    let ?L = "map (\<lambda>(x, b). (shift_below ofs (length bs) x, b)) L"
    obtain m1 where C: "put_current w c key (padd p ofs) \<lparr>mv_size = node_dsz bs, mv_data = padd (padd p ofs) (node_dofs bs)\<rparr> l =
        Some (New_sub False, l, w\<lparr>w_mem := m1\<rparr>)"
      "upd_only (padd p 12) (psz - 12) (w_mem w) m1" "page_rep m1 p psz True (u + length bs) (del_nth i ?L)"
      using put_current_other_size [OF rep i Li cur(1-3) old(1) False l(1,2)] by blast
    let ?w = "w\<lparr>w_mem := m1\<rparr>"
    have sub: "apart (padd p 12) (psz - 12) q k" if "apart p psz q k" for q k
      using that page_repD(7,8) [OF rep] unfolding apart_def outside_def by auto
    have ld: "val_bytes m1 key = Some kb" "val_bytes m1 data = Some vb"
      using kb vb sub upd_only_load [OF C(2)] by (simp_all add: val_bytes_def)
    have "left \<le> u + length bs - (PAGEHDRSZ + 2 * length (del_nth i ?L))"
      using sz(2) page_rep_SIZELEFT [OF rep] i length_del_nth [of i ?L] by simp
    then have room: "SIZELEFT m1 p = Some (u + length bs - (PAGEHDRSZ + 2 * length (del_nth i ?L)))"
      "mdb_leaf_size (w_env w) key data \<le> u + length bs - (PAGEHDRSZ + 2 * length (del_nth i ?L))"
      using page_rep_SIZELEFT [OF C(3)] sz(3) by simp_all
    have il: "i \<le> length (del_nth i ?L)" using i length_del_nth [of i ?L] by simp
    have tp: "top_pg ?w c = Some p" "top_ki ?w c = Some i" "tracked ?w (mc_txn r) (mc_dbi r) = Some [c]"
      using cur(2,3) db(3) by (simp_all add: top_pg_def top_ki_def tracked_def)
    obtain m2 of2 b u2 where S: "put_new_sub ?w c key False l = Some (MDB_SUCCESS, l, ?w\<lparr>w_mem := m2\<rparr>)"
      "upd_only (padd p 12) (psz - 12) m1 m2" "page_rep m2 p psz True u2 (ins_nth i (of2, new_node kb vb b) (del_nth i ?L))"
      using put_new_sub_fits [of ?w p psz "u + length bs" "del_nth i ?L" i c r key data "u + length bs - (PAGEHDRSZ + 2 * length (del_nth i ?L))" kb vb l]
        C(3) il cur(1,4) tp sz(1) room ld kb vb l(1,2) by auto
    have cnt: "put_count again (w\<lparr>w_mem := m2\<rparr>) c 0 l = Some (0, data, pl_data1 l, w\<lparr>w_mem := m2\<rparr>)" for again
      using cur(1) plain_put_flags(1) [OF l(2)] l by (simp add: put_count_def)
    have "put_item put w c key MDB_SUCCESS l = Some (MDB_SUCCESS, data, pl_data1 l, w\<lparr>w_mem := m2\<rparr>)"
      unfolding start using C(1) S(1) cnt l(5) by (simp add: put_store_def)
    moreover have "map snd (ins_nth i (of2, new_node kb vb b) (del_nth i ?L)) = (map snd L)[i := new_node kb vb b]"
      using i by (simp add: ins_del_nth map_update comp_def case_prod_beta)
    ultimately show ?thesis using upd_only_trans [OF C(2) S(2)] S(3) unfolding replaces_def by blast
  qed
qed

section \<open>Variables of the function\<close>

text \<open>Two blocks that are taken before and given back after.\<close>

lemma upd_only_locals:
  assumes n: "m b1 = None" "m b2 = None" "b1 \<noteq> b2" "p_blk p \<noteq> b1" "p_blk p \<noteq> b2" and u: "upd_only p n (m(b1 \<mapsto> x, b2 \<mapsto> y)) m2"
  shows "upd_only p n m (m2(b1 := None, b2 := None))"
proof -
  have v: "valid (m2(b1 := None, b2 := None)) q k = valid m q k" for q k
    using n upd_only_valid [OF u, of q k] by (auto simp: valid_def)
  moreover have "load (m2(b1 := None, b2 := None)) q k = load m q k" if o: "\<forall>j<k. outside p n q j" for q k
  proof (cases "p_blk q \<in> {b1, b2}")
    case True
    then show ?thesis using n by (auto simp: load_def)
  next
    case False
    then have "load m2 q k = load m q k" using upd_only_load [OF u, of q k] o by (simp add: apart_def) (simp add: load_def)
    then show ?thesis using False by (simp add: load_def)
  qed
  ultimately show ?thesis unfolding upd_only_def by blast
qed

lemma locals_load: "load m q k = Some bs \<Longrightarrow> m b1 = None \<Longrightarrow> m b2 = None \<Longrightarrow> load (m(b1 \<mapsto> x, b2 \<mapsto> y)) q k = Some bs"
  by (auto simp: load_def split: option.splits)

end
