(* ===== verification/Put_Spec.thy ===== *)
theory Put_Spec
  imports Put_Step_Spec
begin

text \<open>
  \<^verbatim>\<open>mdb_put\<close> in a transaction whose pages of the database are its own already (dirty) and whose leaf
  has room: the table of the database is updated at the key, whether the key is new or not, so that
  \<^verbatim>\<open>mdb_get\<close> finds the new value under it and every other key as before.
\<close>

section \<open>What a put relies on\<close>

text \<open>A position in the tree of a database.\<close>

definition db_node :: "world \<Rightarrow> tid \<Rightarrow> nat \<Rightarrow> (ptr \<times> nat) list \<Rightarrow> nat \<Rightarrow> bool" where
  "db_node w t dbi stk e \<longleftrightarrow> (\<exists>x db D p pre its post. w_txns w t = Some x \<and> rd (mt_dbs x) dbi = Some db \<and> db_pages w t (md_root db) = Some p \<and>
     at_node (w_mem w) (db_pages w t) (me_psize (w_env w)) D p stk e pre its post)"

text \<open>The pages of the database are dirty, so that they are not copied, and no two of them overlap.\<close>

definition pages_own :: "world \<Rightarrow> tid \<Rightarrow> nat \<Rightarrow> bool" where
  "pages_own w t dbi \<longleftrightarrow> (let psz = me_psize (w_env w) in
     (\<forall>stk e. db_node w t dbi stk e \<longrightarrow> dirty_page (w_mem w) (fst (last stk))) \<and>
     (\<forall>stk e stk' e'. db_node w t dbi stk e \<longrightarrow> db_node w t dbi stk' e' \<longrightarrow> way stk \<noteq> way stk' \<longrightarrow>
        apart (fst (last stk)) psz (fst (last stk')) psz))"

lemma pages_ownD:
  assumes "pages_own w t dbi" "db_node w t dbi stk e"
  shows "dirty_page (w_mem w) (fst (last stk))"
    "db_node w t dbi stk' e' \<Longrightarrow> way stk \<noteq> way stk' \<Longrightarrow> apart (fst (last stk)) (me_psize (w_env w)) (fst (last stk')) (me_psize (w_env w))"
  using assms unfolding pages_own_def Let_def by blast+

text \<open>Nor do they hold the key and the data, and there is room in the leaf the key belongs to.\<close>

definition pages_ready :: "world \<Rightarrow> tid \<Rightarrow> nat \<Rightarrow> MDB_val \<Rightarrow> MDB_val \<Rightarrow> u8 list \<Rightarrow> bool" where
  "pages_ready w t dbi key data kb \<longleftrightarrow> (let psz = me_psize (w_env w) in pages_own w t dbi \<and>
     (\<forall>stk e. db_node w t dbi stk e \<longrightarrow>
        apart (fst (last stk)) psz (mv_data key) (mv_size key) \<and> apart (fst (last stk)) psz (mv_data data) (mv_size data)) \<and>
     (\<forall>stk. db_node w t dbi stk 0 \<longrightarrow> picked (w_mem w) psz (\<lambda>L. child_index L kb) stk \<longrightarrow>
        (\<exists>left. SIZELEFT (w_mem w) (fst (last stk)) = Some left \<and> mdb_leaf_size (w_env w) key data \<le> left)))"

lemma pages_readyD:
  assumes "pages_ready w t dbi key data kb" "db_node w t dbi stk e"
  shows "dirty_page (w_mem w) (fst (last stk))" "apart (fst (last stk)) (me_psize (w_env w)) (mv_data key) (mv_size key)"
    "apart (fst (last stk)) (me_psize (w_env w)) (mv_data data) (mv_size data)"
    "db_node w t dbi stk' e' \<Longrightarrow> way stk \<noteq> way stk' \<Longrightarrow> apart (fst (last stk)) (me_psize (w_env w)) (fst (last stk')) (me_psize (w_env w))"
    "e = 0 \<Longrightarrow> picked (w_mem w) (me_psize (w_env w)) (\<lambda>L. child_index L kb) stk \<Longrightarrow>
      \<exists>left. SIZELEFT (w_mem w) (fst (last stk)) = Some left \<and> mdb_leaf_size (w_env w) key data \<le> left"
  using assms pages_ownD [of w t dbi stk e] unfolding pages_ready_def Let_def by blast+

text \<open>
  A writable transaction that is not nested, with room for the pages a put may touch and with
  no other cursor on the database, which is a core database or has its record marked already.
\<close>

definition txn_ready :: "world \<Rightarrow> tid \<Rightarrow> nat \<Rightarrow> bool" where
  "txn_ready w t dbi \<longleftrightarrow> (\<exists>x db main fl. w_txns w t = Some x \<and> \<not> any_set (mt_flags x) (MDB_TXN_RDONLY OR MDB_TXN_BLOCKED) \<and>
     mt_parent x = None \<and> rd (mt_dbs x) dbi = Some db \<and> rd (mt_dbs x) MAIN_DBI = Some main \<and>
     2 * (unat (md_depth db) + (if dbi \<ge> CORE_DBS then unat (md_depth main) else 0) + 1) < mt_dirty_room x \<and>
     rd (mt_dbflags x) dbi = Some fl \<and> (dbi < CORE_DBS \<or> any_set fl (DB_DIRTY OR DB_DUPDATA)) \<and> tracked w t dbi = Some [])"

text \<open>The memory of variables of functions is not in use.\<close>

definition heap_fresh :: "world \<Rightarrow> bool" where
  "heap_fresh w \<longleftrightarrow> (\<forall>n. w_next w \<le> n \<longrightarrow> w_mem w (Heap n) = None)"

lemma at_node_prefix:
  "at_node m pg psz D p stk e pre its post \<Longrightarrow> q \<in> fst ` set stk \<Longrightarrow>
   \<exists>stk' e' pre' its' post'. at_node m pg psz D p stk' e' pre' its' post' \<and> fst (last stk') = q"
proof (induction rule: at_node.induct)
  case (root items k)
  then show ?case using at_node.root by fastforce
next
  case (down stk b i e pre cs post L q' k)
  show ?case
  proof (cases "q = q'")
    case True
    then show ?thesis using at_node.down [OF down.hyps, of k] by (metis fst_conv last_append last.simps list.distinct(1))
  next
    case False
    then show ?thesis using down.IH down.prems by auto
  qed
qed

section \<open>The tree with another leaf\<close>

lemma tree_set_leaf:
  assumes node: "at_node m pg psz D p stk 0 pre its post" and pick: "picked m psz (\<lambda>L. child_index L kb) stk"
    and u: "upd_only (fst (last stk)) psz m m'" and lr: "leaf_rep m' psz (fst (last stk)) L"
    and its: "L \<noteq> []" "\<forall>bs\<in>set (map snd L). bs \<in> set its \<or> node_key bs = kb"
    and ap: "\<And>stk' e' pre its post. at_node m pg psz D p stk' e' pre its post \<Longrightarrow> way stk' \<noteq> way stk \<Longrightarrow>
      apart (fst (last stk)) psz (fst (last stk')) psz"
  shows "tree_at m' pg psz D p (pre @ map snd L @ post) \<and> at_node m' pg psz D p stk 0 pre (map snd L) post"
proof -
  have same: "same_page m m' psz (fst (last stk'))"
    if "at_node m pg psz D p stk' e' pre its post" "way stk' \<noteq> way stk" for stk' e' pre its post
    by (rule upd_only_same_page [OF u ap [OF that]])
  show ?thesis
    by (rule tree_replace [OF node pick _ _ same tree_at.leaf [OF lr] _ its(2), of _ "[]"]) (use at_node_way [OF node] its(1) in simp_all)
qed

section \<open>Before the item is written\<close>

lemma set_ki_pages: "stack_wf r \<Longrightarrow> 0 < mc_snum r \<Longrightarrow> fst ` set (path (set_ki r i)) = fst ` set (path r)"
proof -
  assume r: "stack_wf r" "0 < mc_snum r"
  have "path r = butlast (path r) @ [last (path r)]" using path_nonempty [OF r] by simp
  then have "fst ` set (path r) = fst ` set (butlast (path r)) \<union> {fst (last (path r))}"
    by (metis image_Un image_empty image_insert list.set(1) list.set(2) set_append)
  then show ?thesis unfolding set_ki_path [OF r] by simp
qed

lemma init_cur_more [simp]:
  "mc_dbi (init_cur t dbi fl) = dbi" "mc_dbflag (init_cur t dbi fl) = TxnDb t dbi" "\<not> any_set (mc_flags (init_cur t dbi fl)) C_SUB"
  by (simp_all add: init_cur_def any_set_def and.assoc)

lemma put_check_ok:
  assumes "w_cursors w c = Some r" "w_txns w (mc_txn r) = Some x" "\<not> any_set (mt_flags x) (MDB_TXN_RDONLY OR MDB_TXN_BLOCKED)"
    "get_db w (mc_db r) = Some db" "\<not> any_set (md_flags db) MDB_DUPSORT" "plain_put flags"
    "0 < mv_size key" "mv_size key \<le> ENV_MAXKEY" "mv_size data < 2 ^ 32"
  shows "put_check w c key data flags = Some 0"
proof -
  have "mv_size key + (2 ^ 64 - 1) = (mv_size key - 1) + 2 ^ 64" using assms(7) by simp
  then have "(mv_size key + (2 ^ 64 - 1)) mod 2 ^ 64 = mv_size key - 1"
    by (simp only: mod_add_self2) (use assms(8) in simp)
  then show ?thesis using assms plain_put_flags(1) [OF assms(6)] by (simp add: put_check_def)
qed

lemma put_position_new:
  assumes "w_cursors w c = Some r" "get_db w (mc_db r) = Some db" "md_root db \<noteq> P_INVALID" "plain_put flags"
    and "mdb_cursor_set 2 mdb_page_touch w c key (Some no_val) MDB_SET (Some False) = Some (MDB_NOTFOUND, key, Some d, ex, w')"
  shows "put_position w c key data flags = Some (False, MDB_NOTFOUND, data, w')"
  using assms plain_put_flags(2,3) [OF assms(4)] by (simp add: put_position_def del: mdb_cursor_set.simps)

lemma put_position_old:
  assumes "w_cursors w c = Some r" "get_db w (mc_db r) = Some db" "md_root db \<noteq> P_INVALID" "plain_put flags"
    and "mdb_cursor_set 2 mdb_page_touch w c key (Some no_val) MDB_SET (Some False) = Some (MDB_SUCCESS, key, Some d, ex, w')"
  shows "put_position w c key data flags = Some (if any_set flags MDB_NOOVERWRITE then (True, MDB_KEYEXIST, d, w') else (False, MDB_SUCCESS, data, w'))"
  using assms plain_put_flags(2,3) [OF assms(4)] by (simp add: put_position_def del: mdb_cursor_set.simps)

lemma put_writable_dirty:
  assumes r: "stack_wf r" "0 < mc_snum r" "\<not> any_set (mc_flags r) C_SUB" "\<not> any_set (mc_flags r) C_DEL"
    and x: "w_txns w (mc_txn r) = Some x" "mt_parent x = None" "\<forall>p\<in>fst ` set (path r). dirty_page (w_mem w) p"
    and db: "get_db w (mc_db r) = Some db" "rd (mt_dbs x) MAIN_DBI = Some main"
    and fl: "get_dbflag w (mc_dbflag r) = Some fl" "mc_dbi r < CORE_DBS \<or> any_set fl (DB_DIRTY OR DB_DUPDATA)"
    and sz: "LEAFSIZE key data < me_psize (w_env w)"
    and room: "2 * (unat (md_depth db) + (if mc_dbi r \<ge> CORE_DBS then unat (md_depth main) else 0) + 1) < mt_dirty_room x"
    and flags: "plain_put flags" "rc \<noteq> MDB_NO_ROOT"
  shows "put_writable (put_cur w c r) c key data flags k False rc = Some (0, put_cur w c r)"
proof -
  have sp: "mdb_page_spill (put_cur w c r) c (Some key) (Some data) = Some (MDB_SUCCESS, put_cur w c r)"
    by (rule page_spill_skip [of _ c r x db main]) (use r x db sz room in simp_all)
  have "mdb_cursor_touch (put_cur w c r) c = Some (0, put_cur w c r)"
    by (rule cursor_touch_dirty [OF r(1) x r(2) fl])
  then show ?thesis using r(4) sp plain_put_flags(1) [OF flags(1)] flags(2)
    by (simp add: put_writable_def and_then_def)
qed

lemma searched_flags: "any_set (clear (fl OR C_INITIALIZED) C_EOF) C_SUB = any_set fl C_SUB" "any_set (clear (fl OR C_INITIALIZED) C_EOF) C_DEL = any_set fl C_DEL"
  by (simp_all add: any_set_def clear_def and.assoc bit.conj_disj_distrib2)

text \<open>The found leaf is a position of the database.\<close>

lemma found_leaf_node:
  assumes F: "found_leaf w (init_cur t dbi (mt_flags x)) items kb r' D p pre L post"
    and x: "w_txns w t = Some x" and pages: "cur_pages w (init_cur t dbi (mt_flags x)) = db_pages w t"
    and n: "at_node (w_mem w) (db_pages w t) (me_psize (w_env w)) D p stk e pre' its post'"
  shows "db_node w t dbi stk e"
proof -
  obtain db where db: "rd (mt_dbs x) dbi = Some db" "db_pages w t (md_root db) = Some p"
    using F x pages by (auto simp: found_leaf_def)
  show ?thesis unfolding db_node_def using x db n by blast
qed

text \<open>
  The state in which \<^verbatim>\<open>mdb_put\<close> and \<^verbatim>\<open>mdb_del\<close> call the function on a cursor: the cursor \<open>c\<close>, set
  up for the database and the only one on it.
\<close>

definition own_setting :: "world \<Rightarrow> tid \<Rightarrow> nat \<Rightarrow> cid \<Rightarrow> u8 list list \<Rightarrow> MDB_txn \<Rightarrow> MDB_db \<Rightarrow> bool" where
  "own_setting w t dbi c items x db \<longleftrightarrow> (let r = init_cur t dbi (mt_flags x) in
     fresh_on w r items \<and> items \<noteq> [] \<and> inline_items items \<and> cur_pages w r = db_pages w t \<and>
     w_txns w t = Some x \<and> \<not> any_set (mt_flags x) (MDB_TXN_RDONLY OR MDB_TXN_BLOCKED) \<and> mt_parent x = None \<and>
     rd (mt_dbs x) dbi = Some db \<and> tracked w t dbi = Some [c] \<and> pages_own w t dbi \<and>
     (\<exists>main fl. rd (mt_dbs x) MAIN_DBI = Some main \<and>
        2 * (unat (md_depth db) + (if dbi \<ge> CORE_DBS then unat (md_depth main) else 0) + 1) < mt_dirty_room x \<and>
        rd (mt_dbflags x) dbi = Some fl \<and> (dbi < CORE_DBS \<or> any_set fl (DB_DIRTY OR DB_DUPDATA))))"

lemma own_settingD:
  assumes "own_setting w t dbi c items x db"
  shows "fresh_on w (init_cur t dbi (mt_flags x)) items" "items \<noteq> []" "inline_items items"
    "cur_pages w (init_cur t dbi (mt_flags x)) = db_pages w t" "w_txns w t = Some x"
    "\<not> any_set (mt_flags x) (MDB_TXN_RDONLY OR MDB_TXN_BLOCKED)" "mt_parent x = None" "rd (mt_dbs x) dbi = Some db" "tracked w t dbi = Some [c]"
    "pages_own w t dbi" "\<not> any_set (md_flags db) MDB_DUPSORT" "md_root db \<noteq> P_INVALID"
  using assms by (auto simp: own_setting_def Let_def fresh_on_def walk_ok_def split: if_splits)

definition put_setting ::
  "world \<Rightarrow> tid \<Rightarrow> nat \<Rightarrow> MDB_val \<Rightarrow> MDB_val \<Rightarrow> u8 list \<Rightarrow> u8 list \<Rightarrow> cid \<Rightarrow> u8 list list \<Rightarrow> MDB_txn \<Rightarrow> MDB_db \<Rightarrow> bool" where
  "put_setting w t dbi key data kb vb c items x db \<longleftrightarrow> own_setting w t dbi c items x db \<and>
     pages_ready w t dbi key data kb \<and> heap_fresh w \<and>
     val_bytes (w_mem w) key = Some kb \<and> 0 < mv_size key \<and> mv_size key \<le> ENV_MAXKEY \<and>
     val_bytes (w_mem w) data = Some vb \<and> LEAFSIZE key data \<le> me_nodemax (w_env w)"

lemma put_settingD:
  assumes "put_setting w t dbi key data kb vb c items x db"
  shows "fresh_on w (init_cur t dbi (mt_flags x)) items" "items \<noteq> []" "inline_items items"
    "cur_pages w (init_cur t dbi (mt_flags x)) = db_pages w t" "w_txns w t = Some x"
    "\<not> any_set (mt_flags x) (MDB_TXN_RDONLY OR MDB_TXN_BLOCKED)" "mt_parent x = None" "rd (mt_dbs x) dbi = Some db" "tracked w t dbi = Some [c]"
    "pages_ready w t dbi key data kb" "heap_fresh w" "val_bytes (w_mem w) key = Some kb" "length kb = mv_size key" "0 < mv_size key" "mv_size key \<le> ENV_MAXKEY"
    "val_bytes (w_mem w) data = Some vb" "length vb = mv_size data" "LEAFSIZE key data \<le> me_nodemax (w_env w)"
    "\<not> any_set (md_flags db) MDB_DUPSORT" "md_root db \<noteq> P_INVALID" "own_setting w t dbi c items x db"
  using assms own_settingD [of w t dbi c items x db]
    load_Some_valid [of "w_mem w" "mv_data key" "mv_size key" kb] load_Some_valid [of "w_mem w" "mv_data data" "mv_size data" vb]
  by (auto simp: put_setting_def val_bytes_def)

text \<open>The leaf the search has found.\<close>

lemma put_setting_leaf:
  assumes S: "put_setting w t dbi key data kb vb c items x db" and F: "found_leaf w (init_cur t dbi (mt_flags x)) items kb r' D p pre L post"
  shows "at_node (w_mem w) (db_pages w t) (me_psize (w_env w)) D p (path r') 0 pre (map snd L) post"
    "leaf_rep (w_mem w) (me_psize (w_env w)) (fst (last (path r'))) L" "around pre kb post" "items = pre @ map snd L @ post"
    "picked (w_mem w) (me_psize (w_env w)) (\<lambda>L. child_index L kb) (path r')" "D < CURSOR_STACK" "db_pages w t (md_root db) = Some p"
    "at_node (w_mem w) (db_pages w t) (me_psize (w_env w)) D p stk e pre' its' post' \<Longrightarrow> db_node w t dbi stk e" "db_node w t dbi (path r') 0"
    "apart (fst (last (path r'))) (me_psize (w_env w)) (mv_data key) (mv_size key)"
    "apart (fst (last (path r'))) (me_psize (w_env w)) (mv_data data) (mv_size data)"
    "\<exists>left. SIZELEFT (w_mem w) (fst (last (path r'))) = Some left \<and> mdb_leaf_size (w_env w) key data \<le> left"
    "LEAFSIZE key data < me_psize (w_env w)" "mv_size data < 2 ^ 16" "mv_size key < 2 ^ 16"
proof -
  let ?lp = "fst (last (path r'))" and ?psz = "me_psize (w_env w)"
  note P = put_settingD [OF S]
  show G: "at_node (w_mem w) (db_pages w t) ?psz D p (path r') 0 pre (map snd L) post" "leaf_rep (w_mem w) ?psz ?lp L"
     "around pre kb post" "items = pre @ map snd L @ post"
     "picked (w_mem w) ?psz (\<lambda>L. child_index L kb) (path r')" "D < CURSOR_STACK" "db_pages w t (md_root db) = Some p"
    using F P(4,5,8) by (auto simp: found_leaf_def)
  show "at_node (w_mem w) (db_pages w t) ?psz D p stk e pre' its' post' \<Longrightarrow> db_node w t dbi stk e"
    by (rule found_leaf_node [OF F P(5,4)])
  show N: "db_node w t dbi (path r') 0" by (rule found_leaf_node [OF F P(5,4) G(1)])
  note R = pages_readyD [OF P(10) N]
  show "apart ?lp ?psz (mv_data key) (mv_size key)" "apart ?lp ?psz (mv_data data) (mv_size data)" using R(2,3) .
  show room: "\<exists>left. SIZELEFT (w_mem w) ?lp = Some left \<and> mdb_leaf_size (w_env w) key data \<le> left" by (rule R(5) [OF refl G(5)])
  then obtain left where left: "SIZELEFT (w_mem w) ?lp = Some left" "mdb_leaf_size (w_env w) key data \<le> left" by blast
  obtain u where rep: "page_rep (w_mem w) ?lp ?psz True u L" using G(2) by (auto simp: leaf_rep_def)
  have "LEAFSIZE key data < mdb_leaf_size (w_env w) key data" using P(18) by (simp add: mdb_leaf_size_def EVEN_def)
  moreover have "left \<le> ?psz" using left(1) page_rep_SIZELEFT [OF rep] page_repD(8) [OF rep] by simp
  ultimately show "LEAFSIZE key data < ?psz" "mv_size data < 2 ^ 16" "mv_size key < 2 ^ 16"
    using left(2) page_repD(2) [OF rep] by (simp_all add: LEAFSIZE_def)
qed

text \<open>The checks pass; the pages the cursor is on need not be copied.\<close>

lemma put_setting_check:
  assumes S: "put_setting w t dbi key data kb vb c items x db" and F: "found_leaf w (init_cur t dbi (mt_flags x)) items kb r' D p pre L post"
    and flags: "plain_put flags"
  shows "put_check (put_cur w c (init_cur t dbi (mt_flags x))) c key data flags = Some 0"
  by (rule put_check_ok [where r = "init_cur t dbi (mt_flags x)" and x = x and db = db])
    (use put_settingD [OF S] put_setting_leaf(14) [OF S F] flags in simp_all)

text \<open>The cursor on slot \<open>i\<close> of the leaf, as the search leaves it whether the key is there or not.\<close>

definition on_slot :: "MDB_cursor \<Rightarrow> nat \<Rightarrow> MDB_cursor \<Rightarrow> bool" where
  "on_slot r' i r1 \<longleftrightarrow> r1 = set_ki r' i \<or> r1 = set_found r' i"

lemma on_slotD:
  assumes F: "found_leaf w (init_cur t dbi (mt_flags x)) items kb r' D p pre L post"
    and r1: "on_slot r' i r1"
  shows "stack_wf r1" "0 < mc_snum r1" "fst ` set (path r1) = fst ` set (path r')" "fst (last (path r1)) = fst (last (path r'))" "snd (last (path r1)) = i"
    "\<not> any_set (mc_flags r1) C_SUB" "\<not> any_set (mc_flags r1) C_DEL"
    "mc_txn r1 = t" "mc_dbi r1 = dbi" "mc_db r1 = TxnDb t dbi" "mc_dbflag r1 = TxnDb t dbi"
proof -
  note sn = found_leaf_snum [OF F]
  have G: "same_cur (init_cur t dbi (mt_flags x)) r'" "stack_wf r'" "mc_flags r' = clear (mc_flags (init_cur t dbi (mt_flags x)) OR C_INITIALIZED) C_EOF"
    using F by (simp_all add: found_leaf_def)
  have e: "stack_wf r1 = stack_wf (set_ki r' i)" "mc_snum r1 = mc_snum (set_ki r' i)" "path r1 = path (set_ki r' i)" "same_cur r' r1"
    using r1 by (auto simp: on_slot_def set_found_def stack_wf_def path_def same_cur_def set_ki_def)
  show "stack_wf r1" "0 < mc_snum r1" using e(1,2) G(2) sn by simp_all
  show "fst ` set (path r1) = fst ` set (path r')" unfolding e(3) by (rule set_ki_pages [OF G(2) sn])
  show "fst (last (path r1)) = fst (last (path r'))" "snd (last (path r1)) = i"
    unfolding e(3) set_ki_path [OF G(2) sn] by simp_all
  show "\<not> any_set (mc_flags r1) C_SUB" "\<not> any_set (mc_flags r1) C_DEL"
    using r1 G(3) init_cur_more(3) [of t dbi "mt_flags x"] init_cur_simps(12) [of t dbi "mt_flags x"]
    by (auto simp: on_slot_def set_found_def searched_flags)
  show "mc_txn r1 = t" "mc_dbi r1 = dbi" "mc_db r1 = TxnDb t dbi" "mc_dbflag r1 = TxnDb t dbi"
    using G(1) e(4) by (simp_all add: same_cur_def)
qed

lemma own_setting_dirty:
  assumes S: "own_setting w t dbi c items x db" and F: "found_leaf w (init_cur t dbi (mt_flags x)) items kb r' D p pre L post"
    and q: "q \<in> fst ` set (path r')"
  shows "dirty_page (w_mem w) q"
proof -
  have "at_node (w_mem w) (db_pages w t) (me_psize (w_env w)) D p (path r') 0 pre (map snd L) post"
    using F own_settingD(4) [OF S] by (simp add: found_leaf_def)
  then obtain stk' e' pre' its' post' where n: "at_node (w_mem w) (db_pages w t) (me_psize (w_env w)) D p stk' e' pre' its' post'" "fst (last stk') = q"
    using at_node_prefix [OF _ q] by blast
  show ?thesis using pages_ownD(1) [OF own_settingD(10) [OF S] found_leaf_node [OF F own_settingD(5,4) [OF S] n(1)]] n(2) by simp
qed

lemma put_setting_writable:
  assumes S: "put_setting w t dbi key data kb vb c items x db" and F: "found_leaf w (init_cur t dbi (mt_flags x)) items kb r' D p pre L post"
    and r1: "on_slot r' i r1" and flags: "plain_put flags" "rc \<noteq> MDB_NO_ROOT"
  shows "put_writable (put_cur w c r1) c key data flags k False rc = Some (0, put_cur w c r1)"
proof -
  note P = put_settingD [OF S] and Q = put_setting_leaf [OF S F] and R = on_slotD [OF F r1]
  obtain main fl where M: "rd (mt_dbs x) MAIN_DBI = Some main" "rd (mt_dbflags x) dbi = Some fl"
     "2 * (unat (md_depth db) + (if dbi \<ge> CORE_DBS then unat (md_depth main) else 0) + 1) < mt_dirty_room x"
     "dbi < CORE_DBS \<or> any_set fl (DB_DIRTY OR DB_DUPDATA)"
    using P(21) by (auto simp: own_setting_def Let_def)
  have dirty: "\<forall>q\<in>fst ` set (path r1). dirty_page (w_mem w) q"
    using own_setting_dirty [OF P(21) F] R(3) by simp
  show ?thesis
    by (rule put_writable_dirty [where x = x and db = db and main = main and fl = fl, OF R(1,2,6,7) _ P(7) dirty _ M(1) _ _ Q(13) _ flags])
      (use P M in \<open>simp_all add: R\<close>)
qed

section \<open>\<^verbatim>\<open>mdb_cursor_put\<close>\<close>

text \<open>The variables of the function when it writes the item.\<close>

definition local_world :: "world \<Rightarrow> world" where
  "local_world w = w\<lparr>w_mem := (w_mem w)(Heap (w_next w) \<mapsto> replicate 48 0, Heap (w_next w + 1) \<mapsto> [0]), w_next := w_next w + 2\<rparr>"

definition put_vars :: "world \<Rightarrow> MDB_val \<Rightarrow> u32 \<Rightarrow> int \<Rightarrow> put_locals" where
  "put_vars w data flags rc = \<lparr>pl_data = data, pl_data1 = 0, pl_flags = flags, pl_insert_key = (rc \<noteq> 0), pl_insert_data = (rc \<noteq> 0), pl_dkey = no_val,
    pl_xdata = no_val, pl_do_sub = False, pl_sub_root = None, pl_mcount = 0, pl_dcount = 0, pl_dummy = Ptr (Heap (w_next w)) 0,
    pl_empty = Ptr (Heap (w_next w + 1)) 0\<rparr>"

lemma cursor_put_run:
  assumes "put_check w c key data flags = Some 0" "put_position w c key data flags = Some (False, rc, data, w1)"
    "put_writable w1 c key data flags 0 False rc = Some (0, w1)" "plain_put flags"
    "put_item (\<lambda>w mc key data flags. cursor_put n w mc key data 0 flags) (local_world w1) c key rc (put_vars w1 data flags rc) = Some (rc', d, n1, w2)"
  shows "cursor_put (Suc n) w c key data 0 flags =
    Some (rc', d, n1, w2\<lparr>w_mem := (w_mem w2)(Heap (w_next w1) := None, Heap (w_next w1 + 1) := None)\<rparr>)"
proof -
  have loc: "local_block w1 (replicate 48 0) = (Ptr (Heap (w_next w1)) 0, w1\<lparr>w_mem := (w_mem w1)(Heap (w_next w1) \<mapsto> replicate 48 0), w_next := w_next w1 + 1\<rparr>)"
    "local_block (w1\<lparr>w_mem := (w_mem w1)(Heap (w_next w1) \<mapsto> replicate 48 0), w_next := w_next w1 + 1\<rparr>) [0] =
      (Ptr (Heap (w_next w1 + 1)) 0, local_world w1)"
    by (simp_all add: local_block_def local_world_def)
  show ?thesis
    using assms(1-3,5) loc plain_put_flags(1,4,5) [OF assms(4)] by (simp add: put_body_def put_vars_def w_free_def fun_upd_twist)
qed

text \<open>
  The memory \<open>m'\<close> holds the database with the value \<open>vb\<close> under the key \<open>kb\<close>; only one leaf page of
  the database has changed.
\<close>

definition stores :: "world \<Rightarrow> tid \<Rightarrow> nat \<Rightarrow> MDB_db \<Rightarrow> u8 list list \<Rightarrow> u8 list \<Rightarrow> u8 list \<Rightarrow> mem \<Rightarrow> bool" where
  "stores w t dbi db items kb vb m' \<longleftrightarrow> (\<exists>stk D p items'. db_node w t dbi stk 0 \<and>
     upd_only (fst (last stk)) (me_psize (w_env w)) (w_mem w) m' \<and> db_pages w t (md_root db) = Some p \<and> D < CURSOR_STACK \<and>
     tree_at m' (db_pages w t) (me_psize (w_env w)) D p items' \<and> items' \<noteq> [] \<and> inline_items items' \<and>
     (\<forall>m pg m' pg'. map_of (table m' pg' items') = (map_of (table m pg items))(kb \<mapsto> vb)))"

text \<open>The leaf has been written with the variables of the function in memory: they are gone after it.\<close>

lemma leaf_written:
  assumes S: "put_setting w t dbi key data kb vb c items x db" and F: "found_leaf w (init_cur t dbi (mt_flags x)) items kb r' D p pre L post"
    and u: "upd_only (padd (fst (last (path r'))) 12) (me_psize (w_env w) - 12) (w_mem (local_world w)) m1"
    and rep: "page_rep m1 (fst (last (path r'))) (me_psize (w_env w)) True u' L'" and mf: "mf = m1(Heap (w_next w) := None, Heap (w_next w + 1) := None)"
    and lr: "\<And>m'. page_rep m' (fst (last (path r'))) (me_psize (w_env w)) True u' L' \<Longrightarrow>
      IS_BRANCH m' (fst (last (path r'))) = IS_BRANCH (w_mem w) (fst (last (path r'))) \<Longrightarrow> leaf_rep m' (me_psize (w_env w)) (fst (last (path r'))) L'"
    and its: "L' \<noteq> []" "\<forall>bs\<in>set (map snd L'). bs \<in> set (map snd L) \<or> node_key bs = kb" "inline_items (pre @ map snd L' @ post)"
      "\<And>m pg m' pg'. map_of (table m' pg' (pre @ map snd L' @ post)) = (map_of (table m pg (pre @ map snd L @ post)))(kb \<mapsto> vb)"
  shows "stores w t dbi db items kb vb mf"
proof -
  let ?lp = "fst (last (path r'))" and ?psz = "me_psize (w_env w)" and ?b1 = "Heap (w_next w)" and ?b2 = "Heap (w_next w + 1)"
  note P = put_settingD [OF S] and Q = put_setting_leaf [OF S F]
  have fr: "w_mem w ?b1 = None" "w_mem w ?b2 = None" "?b1 \<noteq> ?b2" using P(11) by (simp_all add: heap_fresh_def)
  obtain u where rep0: "page_rep (w_mem w) ?lp ?psz True u L" using Q(2) by (auto simp: leaf_rep_def)
  have vlp: "p_blk ?lp \<noteq> ?b1" "p_blk ?lp \<noteq> ?b2" using page_repD(1) [OF rep0] fr by (auto simp: valid_def)
  have uf: "upd_only (padd ?lp 12) (?psz - 12) (w_mem w) mf"
    unfolding mf using u by (intro upd_only_locals [OF fr]) (use vlp in \<open>simp_all add: local_world_def\<close>)
  have "page_rep mf ?lp ?psz True u' L'"
    by (rule page_rep_frame [OF same_page_blk rep]) (use vlp in \<open>simp add: mf\<close>)
  then have lf: "leaf_rep mf ?psz ?lp L'" using lr header_frame(1) [OF uf] by simp
  have uq: "upd_only ?lp ?psz (w_mem w) mf" using upd_only_mono [OF uf, of 0 ?psz] page_repD(7,8) [OF rep0] by simp
  have ap: "apart ?lp ?psz (fst (last stk')) ?psz"
    if "at_node (w_mem w) (db_pages w t) ?psz D p stk' e' pre its post" "way stk' \<noteq> way (path r')" for stk' e' pre its post
    by (rule pages_readyD(4) [OF P(10) Q(9) Q(8) [OF that(1)]]) (use that(2) in simp)
  have "tree_at mf (db_pages w t) ?psz D p (pre @ map snd L' @ post)"
    by (rule conjunct1, rule tree_set_leaf [OF Q(1,5) uq lf its(1,2) ap])
  then show ?thesis unfolding stores_def using Q(4,6,7,9) uq its(1,3,4) by blast
qed

text \<open>The state of \<open>put_item\<close>: what it reads is as before the variables of the function were added.\<close>

lemma local_state:
  assumes S: "put_setting w t dbi key data kb vb c items x db" and F: "found_leaf w (init_cur t dbi (mt_flags x)) items kb r' D p pre L post"
    and r1: "on_slot r' i r1"
  shows "\<exists>u left. page_rep (w_mem (local_world (put_cur w c r1))) (fst (last (path r'))) (me_psize (w_env w)) True u L \<and>
      SIZELEFT (w_mem (local_world (put_cur w c r1))) (fst (last (path r'))) = Some left \<and> mdb_leaf_size (w_env w) key data \<le> left"
    "top_pg (local_world (put_cur w c r1)) c = Some (fst (last (path r')))" "top_ki (local_world (put_cur w c r1)) c = Some i"
    "val_bytes (w_mem (local_world (put_cur w c r1))) key = Some kb" "val_bytes (w_mem (local_world (put_cur w c r1))) data = Some vb"
    "tracked (local_world (put_cur w c r1)) t dbi = Some [c]"
    "w_cursors (local_world (put_cur w c r1)) c = Some r1" "w_txns (local_world (put_cur w c r1)) = w_txns w" "w_env (local_world (put_cur w c r1)) = w_env w"
proof -
  let ?lp = "fst (last (path r'))" and ?wl = "local_world (put_cur w c r1)" and ?b1 = "Heap (w_next w)" and ?b2 = "Heap (w_next w + 1)"
  note P = put_settingD [OF S] and Q = put_setting_leaf [OF S F] and R = on_slotD [OF F r1]
  have n: "w_next (put_cur w c r1) = w_next w" by (simp add: put_cur_def)
  have fr: "w_mem w ?b1 = None" "w_mem w ?b2 = None" using P(11) by (simp_all add: heap_fresh_def)
  obtain u where rep: "page_rep (w_mem w) ?lp (me_psize (w_env w)) True u L" using Q(2) by (auto simp: leaf_rep_def)
  obtain left where left: "SIZELEFT (w_mem w) ?lp = Some left" "mdb_leaf_size (w_env w) key data \<le> left" using Q(12) by blast
  have vlp: "p_blk ?lp \<noteq> ?b1" "p_blk ?lp \<noteq> ?b2" using page_repD(1) [OF rep] fr by (auto simp: valid_def)
  have rep2: "page_rep (w_mem ?wl) ?lp (me_psize (w_env w)) True u L"
    by (rule page_rep_frame [OF same_page_blk rep]) (use vlp in \<open>simp add: local_world_def n\<close>)
  then show "\<exists>u left. page_rep (w_mem ?wl) ?lp (me_psize (w_env w)) True u L \<and>
      SIZELEFT (w_mem ?wl) ?lp = Some left \<and> mdb_leaf_size (w_env w) key data \<le> left"
    using page_rep_SIZELEFT [OF rep2] page_rep_SIZELEFT [OF rep] left by auto
  have "w_cursors ?wl c = Some r1" by (simp add: local_world_def)
  then show "top_pg ?wl c = Some ?lp" "top_ki ?wl c = Some i" "w_cursors ?wl c = Some r1"
    using top_simps(1,2) [of ?wl c r1] R(1,2,4,5) by simp_all
  show "val_bytes (w_mem ?wl) key = Some kb" "val_bytes (w_mem ?wl) data = Some vb"
    using P(12,16) fr by (simp_all add: val_bytes_def local_world_def n locals_load del: fun_upd_apply)
  show "tracked ?wl t dbi = Some [c]" "w_txns ?wl = w_txns w" "w_env ?wl = w_env w"
    using P(9) by (simp_all add: tracked_def local_world_def)
qed

text \<open>The new item is one that is in its node.\<close>

lemma inline_insert:
  assumes "inline_items (pre @ its @ post)" "length kb < 2 ^ 16" "length vb < 2 ^ 32"
  shows "inline_items (pre @ ins_nth i (new_node kb vb b) its @ post)"
proof -
  note F = new_node_fields [OF assms(2,3), folded new_node_def]
  have "node_dofs (new_node kb vb b) + node_dsz (new_node kb vb b) \<le> length (new_node kb vb b)"
    using F(3) F(4) [of "\<lambda>_. None" "\<lambda>_. None" b] by (simp add: item_value_def F_ISSET_def split: if_splits)
  then show ?thesis using assms(1) F(3) by (auto simp: inline_items_def set_ins_nth)
qed

lemma local_put_cur: "written (local_world (put_cur w c r1)\<lparr>w_mem := m\<rparr>) c r t dbi x db n = written (w\<lparr>w_mem := m, w_next := w_next w + 2\<rparr>) c r t dbi x db n"
  by (simp add: written_def put_cur_def local_world_def)

lemma cursor_put_new:
  assumes S: "put_setting w t dbi key data kb vb c items x db" and flags: "plain_put flags" and new: "kb \<notin> node_key ` set items"
  shows "\<exists>m' r2. cursor_put (Suc n) (put_cur w c (init_cur t dbi (mt_flags x))) c key data 0 flags =
      Some (MDB_SUCCESS, data, 0, written (w\<lparr>w_mem := m', w_next := w_next w + 2\<rparr>) c r2 t dbi x db (md_entries db + 1)) \<and>
    stores w t dbi db items kb vb m'"
proof -
  let ?r = "init_cur t dbi (mt_flags x)" and ?psz = "me_psize (w_env w)"
  note P = put_settingD [OF S]
  have kl: "length kb < 2 ^ 32" "mv_size key \<noteq> 0" using P(13-15) by simp_all
  obtain r' D p pre L post where F: "found_leaf w ?r items kb r' D p pre L post"
    and run: "kb \<notin> set (map (node_key \<circ> snd) L) \<Longrightarrow> mdb_cursor_set (Suc 1) mdb_page_touch (put_cur w c ?r) c key (Some no_val) MDB_SET (Some False) =
        Some (MDB_NOTFOUND, key, Some no_val, Some False, put_cur w c (set_ki r' (leaf_index L kb)))"
    using cursor_set_position [OF P(1,2,12) kl, of 1 mdb_page_touch c no_val] by blast
  note Q = put_setting_leaf [OF S F]
  define i where "i = leaf_index L kb"
  define lp where "lp = fst (last (path r'))"
  define r1 where "r1 = set_ki r' i"
  have on: "on_slot r' i r1" by (simp add: on_slot_def r1_def)
  have absent: "kb \<notin> set (map (node_key \<circ> snd) L)" using new Q(4) by force
  have pos: "put_position (put_cur w c ?r) c key data flags = Some (False, MDB_NOTFOUND, data, put_cur w c r1)"
    by (rule put_position_new [where r = ?r, OF _ _ P(20) flags])
      (use P(5,8) run [OF absent] in \<open>simp_all add: r1_def i_def numeral_2_eq_2 del: mdb_cursor_set.simps\<close>)
  note R = on_slotD [OF F on] and W = local_state [OF S F on, folded lp_def]
  obtain u left where rep: "page_rep (w_mem (local_world (put_cur w c r1))) lp ?psz True u L"
    and left: "SIZELEFT (w_mem (local_world (put_cur w c r1))) lp = Some left" "mdb_leaf_size (w_env w) key data \<le> left"
    using W(1) by blast
  have il: "i \<le> length L" unfolding i_def using length_filter_le [of "\<lambda>k. k < kb" "map (node_key \<circ> snd) L"] by simp
  let ?l = "put_vars (put_cur w c r1) data flags MDB_NOTFOUND"
  obtain m1 ofs b u' where I: "put_item (\<lambda>w mc key data flags. cursor_put n w mc key data 0 flags) (local_world (put_cur w c r1)) c key MDB_NOTFOUND ?l =
      Some (MDB_SUCCESS, data, pl_data1 ?l, written (local_world (put_cur w c r1)\<lparr>w_mem := m1\<rparr>) c (r1\<lparr>mc_flags := mc_flags r1 OR C_INITIALIZED\<rparr>)
        (mc_txn r1) (mc_dbi r1) x db (md_entries db + 1))"
    "upd_only (padd lp 12) (?psz - 12) (w_mem (local_world (put_cur w c r1))) m1"
    "page_rep m1 lp ?psz True u' (ins_nth i (ofs, new_node kb vb b) L)"
    using put_item_new [OF rep il W(7,2,3) R(6) _ left(1) _ W(4) _ _ W(5), of x db ?l "\<lambda>w mc key data flags. cursor_put n w mc key data 0 flags"]
      P Q(10,11,14,15) left(2) W R(8-10) flags by (auto simp: put_vars_def lp_def)
  let ?mf = "m1(Heap (w_next w) := None, Heap (w_next w + 1) := None)"
  have run: "cursor_put (Suc n) (put_cur w c ?r) c key data 0 flags =
      Some (MDB_SUCCESS, data, 0, written (w\<lparr>w_mem := ?mf, w_next := w_next w + 2\<rparr>) c (r1\<lparr>mc_flags := mc_flags r1 OR C_INITIALIZED\<rparr>) t dbi x db (md_entries db + 1))"
    using cursor_put_run [OF put_setting_check [OF S F flags] pos put_setting_writable [OF S F on flags] flags I(1)]
    by (simp add: local_put_cur R(8,9) put_vars_def) (simp add: written_def put_cur_def)
  have len: "length kb < 2 ^ 16" "length vb < 2 ^ 32" using P(13,17) Q(14,15) by simp_all
  note nf = new_node_fields [OF len, folded new_node_def]
  have e: "map snd (ins_nth i (ofs, new_node kb vb b) L) = ins_nth i (new_node kb vb b) (map snd L)" by (simp add: map_ins_nth)
  have "stores w t dbi db items kb vb ?mf"
  proof (rule leaf_written [OF S F _ I(3) [unfolded lp_def] refl])
    show "upd_only (padd (fst (last (path r'))) 12) (?psz - 12) (w_mem (local_world w)) m1"
      using I(2) by (simp add: lp_def local_world_def put_cur_def)
    show "leaf_rep m' ?psz (fst (last (path r'))) (ins_nth i (ofs, new_node kb vb b) L)"
      if "page_rep m' (fst (last (path r'))) ?psz True u' (ins_nth i (ofs, new_node kb vb b) L)"
        "IS_BRANCH m' (fst (last (path r'))) = IS_BRANCH (w_mem w) (fst (last (path r')))" for m'
      by (rule leaf_rep_insert [OF Q(2) that nf(1,2) i_def absent])
    show "inline_items (pre @ map snd (ins_nth i (ofs, new_node kb vb b) L) @ post)"
      unfolding e by (rule inline_insert [OF P(3) [unfolded Q(4)] len])
    show "map_of (table m' pg' (pre @ map snd (ins_nth i (ofs, new_node kb vb b) L) @ post)) = (map_of (table m pg (pre @ map snd L @ post)))(kb \<mapsto> vb)"
      for m pg m' pg' unfolding e
      by (rule table_insert [OF P(3) [unfolded Q(4)] Q(3) _ nf(1,4)]) (use absent in \<open>simp add: comp_def\<close>)
  qed (use nf(1) in \<open>auto simp: ins_nth_def in_set_conv_decomp dest: in_set_takeD in_set_dropD\<close>)
  then show ?thesis using run by blast
qed

text \<open>The key exists: the position, and the item there.\<close>

lemma put_position_present:
  assumes S: "put_setting w t dbi key data kb vb c items x db" and flags: "plain_put flags" and old: "kb \<in> node_key ` set items"
  shows "\<exists>r' D p pre L post i r1 d v. found_leaf w (init_cur t dbi (mt_flags x)) items kb r' D p pre L post \<and> on_slot r' i r1 \<and>
    i < length L \<and> node_key (snd (L ! i)) = kb \<and> val_bytes (w_mem w) d = Some v \<and> map_of (table (w_mem w) (db_pages w t) items) kb = Some v \<and>
    put_position (put_cur w c (init_cur t dbi (mt_flags x))) c key data flags =
      Some (if any_set flags MDB_NOOVERWRITE then (True, MDB_KEYEXIST, d, put_cur w c r1) else (False, MDB_SUCCESS, data, put_cur w c r1))"
proof -
  let ?r = "init_cur t dbi (mt_flags x)"
  note P = put_settingD [OF S]
  have kl: "length kb < 2 ^ 32" "mv_size key \<noteq> 0" using P(13-15) by simp_all
  obtain r' D p pre L post where F: "found_leaf w ?r items kb r' D p pre L post"
    and run: "kb \<in> set (map (node_key \<circ> snd) L) \<Longrightarrow> leaf_index L kb < length L \<and> node_key (snd (L ! leaf_index L kb)) = kb \<and>
      (\<forall>v. item_value (w_mem w) (cur_pages w ?r) (snd (L ! leaf_index L kb)) = Some v \<longrightarrow>
        \<not> F_ISSET (node_flags (snd (L ! leaf_index L kb))) F_DUPDATA \<longrightarrow>
        (\<exists>d. mdb_cursor_set (Suc 1) mdb_page_touch (put_cur w c ?r) c key (Some no_val) MDB_SET (Some False) =
            Some (MDB_SUCCESS, key, Some d, Some True, put_cur w c (set_found r' (leaf_index L kb))) \<and> val_bytes (w_mem w) d = Some v))"
    using cursor_set_position [OF P(1,2,12) kl, of 1 mdb_page_touch c no_val] by blast
  note Q = put_setting_leaf [OF S F]
  define i where "i = leaf_index L kb"
  have "kb \<notin> node_key ` set pre" "kb \<notin> node_key ` set post" using Q(3) by (auto simp: around_def)
  then have "kb \<in> set (map (node_key \<circ> snd) L)" using old Q(4) by auto
  note run = run [OF this, folded i_def]
  have mem: "snd (L ! i) \<in> set items" using run Q(4) by simp
  then have inl: "node_flags (snd (L ! i)) = 0" "node_dofs (snd (L ! i)) + node_dsz (snd (L ! i)) \<le> length (snd (L ! i))"
    using P(3) by (auto simp: inline_items_def)
  obtain v where v: "item_value m pg (snd (L ! i)) = Some v" for m pg using inline_value [OF inl] by blast
  have "\<not> F_ISSET (node_flags (snd (L ! i))) F_DUPDATA" using inl(1) by (simp add: F_ISSET_def)
  then obtain d where d: "mdb_cursor_set 2 mdb_page_touch (put_cur w c ?r) c key (Some no_val) MDB_SET (Some False) =
      Some (MDB_SUCCESS, key, Some d, Some True, put_cur w c (set_found r' i))" "val_bytes (w_mem w) d = Some v"
    using run v by (auto simp: numeral_2_eq_2 simp del: mdb_cursor_set.simps)
  have pos: "put_position (put_cur w c ?r) c key data flags =
      Some (if any_set flags MDB_NOOVERWRITE then (True, MDB_KEYEXIST, d, put_cur w c (set_found r' i))
        else (False, MDB_SUCCESS, data, put_cur w c (set_found r' i)))"
    by (rule put_position_old [where r = ?r, OF _ _ P(20) flags d(1)]) (use P(5,8) in simp_all)
  have srt: "sorted_wrt (<) (map node_key (map snd L))" using leaf_repD(10) [OF Q(2)] by (simp add: comp_def)
  have "map_of (table (w_mem w) (db_pages w t) items) kb = Some v"
    unfolding Q(4) using map_of_table_around [OF Q(3), of i "map snd L" "w_mem w" "db_pages w t"] run srt v by simp
  then show ?thesis using F run d(2) pos unfolding on_slot_def by blast
qed

lemma cursor_put_exists:
  assumes S: "put_setting w t dbi key data kb vb c items x db" and flags: "plain_put flags" "any_set flags MDB_NOOVERWRITE"
    and old: "kb \<in> node_key ` set items"
  shows "\<exists>d v r2. cursor_put (Suc n) (put_cur w c (init_cur t dbi (mt_flags x))) c key data 0 flags =
      Some (MDB_KEYEXIST, d, 0, written w c r2 t dbi x db (md_entries db)) \<and>
    val_bytes (w_mem w) d = Some v \<and> map_of (table (w_mem w) (db_pages w t) items) kb = Some v"
proof -
  note P = put_settingD [OF S]
  obtain r' D p pre L post i r1 d v where F: "found_leaf w (init_cur t dbi (mt_flags x)) items kb r' D p pre L post"
    and d: "val_bytes (w_mem w) d = Some v" "map_of (table (w_mem w) (db_pages w t) items) kb = Some v"
    and pos: "put_position (put_cur w c (init_cur t dbi (mt_flags x))) c key data flags = Some (True, MDB_KEYEXIST, d, put_cur w c r1)"
    using put_position_present [OF S flags(1) old] flags(2) by auto
  have "written w c r1 t dbi x db (md_entries db) = put_cur w c r1"
    using written_same [of "put_cur w c r1" c r1 t x dbi db] P(5,8) by (simp add: written_def put_cur_def)
  then have "cursor_put (Suc n) (put_cur w c (init_cur t dbi (mt_flags x))) c key data 0 flags =
      Some (MDB_KEYEXIST, d, 0, written w c r1 t dbi x db (md_entries db))"
    using put_setting_check [OF S F flags(1)] pos plain_put_flags(1,5) [OF flags(1)] by (simp add: put_body_def)
  then show ?thesis using d by blast
qed

lemma replaces_fields:
  assumes "replaces old kb vb bs" "node_key old = kb" "node_flags old = 0" "node_dofs old + node_dsz old \<le> length old"
    "length kb < 2 ^ 16" "length vb < 2 ^ 32"
  shows "node_key bs = kb" "keys_in bs" "item_value m pg bs = Some vb" "node_flags bs = 0" "node_dofs bs + node_dsz bs \<le> length bs"
proof -
  have "node_key bs = kb \<and> keys_in bs \<and> item_value m pg bs = Some vb \<and> node_flags bs = 0 \<and> node_dofs bs + node_dsz bs \<le> length bs"
    using assms(1) unfolding replaces_def
  proof (elim disjE conjE exE)
    fix b assume "bs = new_node kb vb b"
    then show ?thesis
      using new_node_fields(1-3) [OF assms(5,6), folded new_node_def] new_node_fields(4) [OF assms(5,6), folded new_node_def, of m pg b]
      by (simp add: item_value_def F_ISSET_def split: if_splits)
  next
    assume bs: "bs = with_value old vb" "length vb = node_dsz old"
    then show ?thesis using with_value_fields [OF assms(3,4) bs(2)] assms(2) by simp
  qed
  then show "node_key bs = kb" "keys_in bs" "item_value m pg bs = Some vb" "node_flags bs = 0" "node_dofs bs + node_dsz bs \<le> length bs"
    by simp_all
qed

lemma cursor_put_old:
  assumes S: "put_setting w t dbi key data kb vb c items x db" and flags: "plain_put flags" "\<not> any_set flags MDB_NOOVERWRITE"
    and old: "kb \<in> node_key ` set items"
  shows "\<exists>m' r2. cursor_put (Suc n) (put_cur w c (init_cur t dbi (mt_flags x))) c key data 0 flags =
      Some (MDB_SUCCESS, data, 0, written (w\<lparr>w_mem := m', w_next := w_next w + 2\<rparr>) c r2 t dbi x db (md_entries db)) \<and>
    stores w t dbi db items kb vb m'"
proof -
  let ?r = "init_cur t dbi (mt_flags x)" and ?psz = "me_psize (w_env w)"
  note P = put_settingD [OF S]
  obtain r' D p pre L post i r1 where F: "found_leaf w ?r items kb r' D p pre L post" and on: "on_slot r' i r1"
    and i: "i < length L" "node_key (snd (L ! i)) = kb"
    and pos: "put_position (put_cur w c ?r) c key data flags = Some (False, MDB_SUCCESS, data, put_cur w c r1)"
    using put_position_present [OF S flags(1) old] flags(2) by auto
  note Q = put_setting_leaf [OF S F]
  define lp where "lp = fst (last (path r'))"
  note R = on_slotD [OF F on] and W = local_state [OF S F on, folded lp_def]
  obtain u left where rep: "page_rep (w_mem (local_world (put_cur w c r1))) lp ?psz True u L"
    and left: "SIZELEFT (w_mem (local_world (put_cur w c r1))) lp = Some left" "mdb_leaf_size (w_env w) key data \<le> left"
    using W(1) by blast
  have "snd (L ! i) \<in> set items" using i Q(4) by simp
  then have inl: "node_flags (snd (L ! i)) = 0" "node_dofs (snd (L ! i)) + node_dsz (snd (L ! i)) \<le> length (snd (L ! i))"
    using P(3) by (auto simp: inline_items_def)
  let ?l = "put_vars (put_cur w c r1) data flags MDB_SUCCESS"
  have db: "get_db (local_world (put_cur w c r1)) (mc_db r1) = Some db" using P(5,8) W(8) R(10) by simp
  obtain m1 u' L' bs where I: "put_item (\<lambda>w mc key data flags. cursor_put n w mc key data 0 flags) (local_world (put_cur w c r1)) c key MDB_SUCCESS ?l =
      Some (MDB_SUCCESS, data, pl_data1 ?l, local_world (put_cur w c r1)\<lparr>w_mem := m1\<rparr>)"
    "upd_only (padd lp 12) (?psz - 12) (w_mem (local_world (put_cur w c r1))) m1"
    "page_rep m1 lp ?psz True u' L'" "map snd L' = (map snd L)[i := bs]" "replaces (snd (L ! i)) kb vb bs"
    using put_item_old [OF rep i(1) W(7,2,3) R(6) _ left(1) _ W(4) _ _ W(5) _ db P(19), of ?l "\<lambda>w mc key data flags. cursor_put n w mc key data 0 flags"]
      P(18) Q(10,11,15) left(2) W(6,9) R(8,9) flags inl by (auto simp: put_vars_def lp_def)
  let ?mf = "m1(Heap (w_next w) := None, Heap (w_next w + 1) := None)"
  have "written (w\<lparr>w_mem := ?mf, w_next := w_next w + 2\<rparr>) c r1 t dbi x db (md_entries db) = put_cur (w\<lparr>w_mem := ?mf, w_next := w_next w + 2\<rparr>) c r1"
    using written_same [of "put_cur (w\<lparr>w_mem := ?mf, w_next := w_next w + 2\<rparr>) c r1" c r1 t x dbi db] P(5,8) by (simp add: written_def put_cur_def)
  then have run: "cursor_put (Suc n) (put_cur w c ?r) c key data 0 flags =
      Some (MDB_SUCCESS, data, 0, written (w\<lparr>w_mem := ?mf, w_next := w_next w + 2\<rparr>) c r1 t dbi x db (md_entries db))"
    using cursor_put_run [OF put_setting_check [OF S F flags(1)] pos put_setting_writable [OF S F on flags(1)] flags(1) I(1)]
    by (simp add: put_vars_def local_world_def) (simp add: put_cur_def)
  have len: "length kb < 2 ^ 16" "length vb < 2 ^ 32" using P(13,17) Q(14,15) by simp_all
  note bf = replaces_fields [OF I(5) i(2) inl len]
  have srt: "sorted_wrt (<) (map node_key (map snd L))" using leaf_repD(10) [OF Q(2)] by (simp add: comp_def)
  have "stores w t dbi db items kb vb ?mf"
  proof (rule leaf_written [OF S F _ I(3) [unfolded lp_def] refl])
    show "upd_only (padd (fst (last (path r'))) 12) (?psz - 12) (w_mem (local_world w)) m1"
      using I(2) by (simp add: lp_def local_world_def put_cur_def)
    show "leaf_rep m' ?psz (fst (last (path r'))) L'"
      if "page_rep m' (fst (last (path r'))) ?psz True u' L'" "IS_BRANCH m' (fst (last (path r'))) = IS_BRANCH (w_mem w) (fst (last (path r')))" for m'
      by (rule leaf_rep_set [OF Q(2) that I(4) i(1)]) (use bf(1,2) i(2) in simp_all)
    show "L' \<noteq> []" using I(4) i(1) by (metis length_0_conv length_list_update length_map less_nat_zero_code)
    show sub: "\<forall>bs\<in>set (map snd L'). bs \<in> set (map snd L) \<or> node_key bs = kb"
      unfolding I(4) using set_update_subset_insert [of "map snd L" i bs] bf(1) by auto
    show "inline_items (pre @ map snd L' @ post)"
      unfolding I(4) inline_items_def
      using P(3) [unfolded Q(4) inline_items_def] set_update_subset_insert [of "map snd L" i bs] bf(4,5) by auto
    show "map_of (table m' pg' (pre @ map snd L' @ post)) = (map_of (table m pg (pre @ map snd L @ post)))(kb \<mapsto> vb)" for m pg m' pg'
      unfolding I(4) by (rule table_set [OF P(3) [unfolded Q(4)] Q(3) _ _ srt bf(1,3)]) (use i in simp_all)
  qed
  then show ?thesis using run by blast
qed

section \<open>\<^verbatim>\<open>mdb_put\<close>\<close>

text \<open>A transaction that finds its pages where another state of it does.\<close>

definition same_pages :: "MDB_txn \<Rightarrow> MDB_txn \<Rightarrow> bool" where
  "same_pages x x' \<longleftrightarrow> mt_parent x = None \<and> mt_parent x' = None \<and> mt_spill_pgs x' = mt_spill_pgs x \<and> mt_dirty_list x' = mt_dirty_list x \<and>
     mt_next_pgno x' = mt_next_pgno x \<and> mt_flags x' = mt_flags x"

lemma db_pages_cong:
  assumes "w_txns w t = Some x" "w_txns w' t = Some x'" "same_pages x x'" "me_psize (w_env w') = me_psize (w_env w)"
  shows "db_pages w' t = db_pages w t"
proof -
  have "page_get_dirty w' (Suc n) t pgno l = page_get_dirty w (Suc n) t pgno l" for n pgno l
    using assms(1,2) assms(3) [unfolded same_pages_def] by (simp cong: if_cong option.case_cong)
  from this [of 999] have d: "page_get_dirty w' TXN_NEST t pgno l = page_get_dirty w TXN_NEST t pgno l" for pgno l by simp
  have mp: "map_page w' pgno = map_page w pgno" for pgno using assms(4) by (simp add: map_page_def)
  have n: "mt_next_pgno x' = mt_next_pgno x" using assms(3) by (simp add: same_pages_def)
  have "page_addr w' t ro pgno = page_addr w t ro pgno" for ro pgno
    unfolding page_addr_def d mp assms(1,2) by (simp add: n)
  then show ?thesis using assms(1-3) by (simp add: db_pages_def same_pages_def fun_eq_iff)
qed

lemma pages_ready_cong:
  assumes "db_pages w' t = db_pages w t" "w_mem w' = w_mem w" "w_env w' = w_env w" "w_txns w t = Some x" "w_txns w' t = Some x'" "mt_dbs x' = mt_dbs x"
  shows "pages_own w' t dbi \<longleftrightarrow> pages_own w t dbi" "pages_ready w' t dbi key data kb \<longleftrightarrow> pages_ready w t dbi key data kb"
proof -
  have n: "db_node w' t dbi stk e \<longleftrightarrow> db_node w t dbi stk e" for stk e
    using assms by (simp add: db_node_def)
  show o: "pages_own w' t dbi \<longleftrightarrow> pages_own w t dbi" using assms(2,3) n by (simp add: pages_own_def)
  show "pages_ready w' t dbi key data kb \<longleftrightarrow> pages_ready w t dbi key data kb" using assms(2,3) n o by (simp add: pages_ready_def)
qed

text \<open>The state in which \<^verbatim>\<open>mdb_cursor_put\<close> runs: two cursor variables, the first one tracked.\<close>

definition put_world :: "world \<Rightarrow> tid \<Rightarrow> MDB_txn \<Rightarrow> cid list list \<Rightarrow> world" where
  "put_world w t x cs = (snd (new_xcursor (snd (new_cursor w))))\<lparr>w_txns := (w_txns w)(t \<mapsto> x\<lparr>mt_cursors := Some cs\<rparr>)\<rparr>"

lemma put_world_simps [simp]:
  "w_mem (put_world w t x cs) = w_mem w" "w_env (put_world w t x cs) = w_env w" "w_next (put_world w t x cs) = w_next w + 2"
  "w_txns (put_world w t x cs) = (w_txns w)(t \<mapsto> x\<lparr>mt_cursors := Some cs\<rparr>)" "w_cursors (put_world w t x cs) (w_next w) = Some blank_cursor"
  by (simp_all add: put_world_def new_xcursor_def new_cursor_def)

lemma put_world_fresh:
  assumes holds: "db_holds w t dbi items" and x: "w_txns w t = Some x" "mt_parent x = None"
  shows "fresh_on (put_world w t x cs) (init_cur t dbi (mt_flags x)) items"
    "cur_pages (put_world w t x cs) (init_cur t dbi (mt_flags x)) = db_pages w t" "db_pages (put_world w t x cs) t = db_pages w t"
proof -
  let ?x = "x\<lparr>mt_cursors := Some cs\<rparr>"
  let ?w = "w\<lparr>w_txns := (w_txns w)(t \<mapsto> ?x)\<rparr>"
  have sp: "same_pages x ?x" using x(2) by (simp add: same_pages_def)
  have pg: "db_pages ?w t = db_pages w t" by (rule db_pages_cong [OF x(1) _ sp]) simp_all
  show pg': "db_pages (put_world w t x cs) t = db_pages w t" by (rule db_pages_cong [OF x(1) _ sp]) simp_all
  have h: "db_holds ?w t dbi items" using holds x(1) by (auto simp: db_holds_def pg)
  have x': "w_txns ?w t = Some ?x" by simp
  have e: "w_mem (put_world w t x cs) = w_mem ?w" "w_txns (put_world w t x cs) = w_txns ?w" "w_env (put_world w t x cs) = w_env ?w"
    "w_cursors (put_world w t x cs) (w_next w) = Some blank_cursor" by simp_all
  show "fresh_on (put_world w t x cs) (init_cur t dbi (mt_flags x)) items" using cursor_init_fresh(2) [OF h x' e] by simp
  show "cur_pages (put_world w t x cs) (init_cur t dbi (mt_flags x)) = db_pages w t" using cursor_init_fresh(3) [OF h x' e] pg by simp
qed

text \<open>The items after the write.\<close>

lemma db_holds_written:
  assumes holds: "db_holds w t dbi items" "items \<noteq> []" and x: "w_txns w t = Some x" "rd (mt_dbs x) dbi = Some db"
    and w': "w_env w' = w_env w" "w_txns w' t = Some (x\<lparr>mt_dbs := (mt_dbs x)[dbi := db\<lparr>md_entries := n\<rparr>], mt_cursors := cs\<rparr>)"
      "db_pages w' t = db_pages w t"
    and tree: "db_pages w t (md_root db) = Some p" "D < CURSOR_STACK" "tree_at (w_mem w') (db_pages w t) (me_psize (w_env w)) D p items'" "items' \<noteq> []"
  shows "db_holds w' t dbi items'"
proof -
  have rdb: "rd ((mt_dbs x)[dbi := d]) dbi = Some d" for d using x(2) by (simp add: rd_def split: if_splits)
  obtain fl dbx where "dbi < mt_numdbs x" "\<not> any_set (mt_flags x) MDB_TXN_BLOCKED" "\<not> any_set (md_flags db) MDB_DUPSORT"
     "rd (mt_dbflags x) dbi = Some fl" "any_set fl DB_USRVALID" "any_set fl DB_VALID" "\<not> any_set fl DB_STALE"
     "rd (me_dbxs (w_env w)) dbi = Some dbx" "md_cmp dbx = Some Cmp_memn" "md_root db \<noteq> P_INVALID" "1 < md_root db"
    using holds x by (auto simp: db_holds_def split: if_splits)
  then show ?thesis unfolding db_holds_def using w' tree rdb
    by (intro exI [of _ "x\<lparr>mt_dbs := (mt_dbs x)[dbi := db\<lparr>md_entries := n\<rparr>], mt_cursors := cs\<rparr>"] exI [of _ "db\<lparr>md_entries := n\<rparr>"]
        exI [of _ fl] exI [of _ dbx]) auto
qed

text \<open>\<^verbatim>\<open>mdb_put\<close> around \<^verbatim>\<open>mdb_cursor_put\<close>: before and after.\<close>

lemma own_world_setting:
  assumes holds: "db_holds w t dbi items" "items \<noteq> []" "inline_items items"
    and ready: "txn_ready w t dbi" "pages_own w t dbi"
  shows "\<exists>x db cs. w_txns w t = Some x \<and> mt_cursors x = Some cs \<and> dbi < length cs \<and> rd cs dbi = Some [] \<and> mt_parent x = None \<and>
    own_setting (put_world w t x (cs[dbi := [w_next w]])) t dbi (w_next w) items (x\<lparr>mt_cursors := Some (cs[dbi := [w_next w]])\<rparr>) db"
proof -
  obtain x db main fl where T: "w_txns w t = Some x" "\<not> any_set (mt_flags x) (MDB_TXN_RDONLY OR MDB_TXN_BLOCKED)"
     "mt_parent x = None" "rd (mt_dbs x) dbi = Some db" "rd (mt_dbs x) MAIN_DBI = Some main"
     "2 * (unat (md_depth db) + (if dbi \<ge> CORE_DBS then unat (md_depth main) else 0) + 1) < mt_dirty_room x"
     "rd (mt_dbflags x) dbi = Some fl" "dbi < CORE_DBS \<or> any_set fl (DB_DIRTY OR DB_DUPDATA)" "tracked w t dbi = Some []"
    using ready(1) by (auto simp: txn_ready_def)
  obtain cs where cs: "mt_cursors x = Some cs" "rd cs dbi = Some []" "dbi < length cs"
    using T(1,9) by (auto simp: tracked_def bind_eq_Some_conv rd_def split: if_splits)
  let ?cs = "cs[dbi := [w_next w]]"
  let ?x = "x\<lparr>mt_cursors := Some ?cs\<rparr>" and ?w = "put_world w t x ?cs"
  note W = put_world_fresh [OF holds(1) T(1,3), of ?cs]
  have "pages_own ?w t dbi" using pages_ready_cong(1) [of ?w t w x ?x dbi] W(3) T(1) ready(2) by simp
  moreover have "tracked ?w t dbi = Some [w_next w]" using cs(3) by (simp add: tracked_def rd_def)
  ultimately have "own_setting ?w t dbi (w_next w) items ?x db"
    unfolding own_setting_def Let_def using W T holds(2,3) by simp
  then show ?thesis using T(1,3) cs by blast
qed

lemma put_world_setting:
  assumes holds: "db_holds w t dbi items" "items \<noteq> []" "inline_items items"
    and ready: "txn_ready w t dbi" "pages_ready w t dbi key data kb" "heap_fresh w"
    and key: "val_bytes (w_mem w) key = Some kb" "0 < mv_size key" "mv_size key \<le> ENV_MAXKEY"
    and data: "val_bytes (w_mem w) data = Some vb" "LEAFSIZE key data \<le> me_nodemax (w_env w)"
  shows "\<exists>x db cs. w_txns w t = Some x \<and> mt_cursors x = Some cs \<and> dbi < length cs \<and> rd cs dbi = Some [] \<and>
    put_setting (put_world w t x (cs[dbi := [w_next w]])) t dbi key data kb vb (w_next w) items (x\<lparr>mt_cursors := Some (cs[dbi := [w_next w]])\<rparr>) db"
proof -
  have "pages_own w t dbi" using ready(2) by (simp add: pages_ready_def Let_def)
  then obtain x db cs where x: "w_txns w t = Some x" "mt_cursors x = Some cs" "dbi < length cs" "rd cs dbi = Some []" "mt_parent x = None"
    and S: "own_setting (put_world w t x (cs[dbi := [w_next w]])) t dbi (w_next w) items (x\<lparr>mt_cursors := Some (cs[dbi := [w_next w]])\<rparr>) db"
    using own_world_setting [OF holds ready(1)] by blast
  let ?w = "put_world w t x (cs[dbi := [w_next w]])"
  have "pages_ready ?w t dbi key data kb"
    using pages_ready_cong(2) [of ?w t w x] put_world_fresh(3) [OF holds(1) x(1,5)] x(1) ready(2) by simp
  moreover have "heap_fresh ?w" using ready(3) by (simp add: heap_fresh_def)
  ultimately show ?thesis using S x key data unfolding put_setting_def by auto
qed

lemma mdb_put_run:
  assumes holds: "db_holds w t dbi items" and x: "w_txns w t = Some x" "mt_cursors x = Some cs" "dbi < length cs" "rd cs dbi = Some []"
    and S: "put_setting (put_world w t x (cs[dbi := [w_next w]])) t dbi key data kb vb (w_next w) items (x\<lparr>mt_cursors := Some (cs[dbi := [w_next w]])\<rparr>) db"
    and flags: "plain_put flags"
    and run: "cursor_put (Suc 1) (put_cur (put_world w t x (cs[dbi := [w_next w]])) (w_next w) (init_cur t dbi (mt_flags x))) (w_next w) key data 0 flags =
      Some (rc, d, 0, written w3 (w_next w) r2 t dbi (x\<lparr>mt_cursors := Some (cs[dbi := [w_next w]])\<rparr>) db n)"
      "w_env w3 = w_env w"
  shows "\<exists>w'. mdb_put w (Some t) dbi (Some key) (Some data) flags = Some (rc, Some d, w') \<and> w_mem w' = w_mem w3 \<and> w_env w' = w_env w \<and>
    w_txns w' t = Some (x\<lparr>mt_dbs := (mt_dbs x)[dbi := db\<lparr>md_entries := n\<rparr>], mt_cursors := Some cs\<rparr>) \<and> db_pages w' t = db_pages w t"
proof -
  define c where "c = w_next w"
  define w1 where "w1 = snd (new_xcursor (snd (new_cursor w)))"
  let ?r = "init_cur t dbi (mt_flags x)" and ?cs = "cs[dbi := [c]]"
  define w2 where "w2 = put_world w t x ?cs"
  note P = put_settingD [OF S]
  have X: "\<not> any_set (mt_flags x) (MDB_TXN_RDONLY OR MDB_TXN_BLOCKED)" "mt_parent x = None" using P(6,7) by simp_all
  have e1: "w_mem w1 = w_mem w" "w_txns w1 = w_txns w" "w_env w1 = w_env w" "w_cursors w1 c = Some blank_cursor"
    by (simp_all add: w1_def new_xcursor_def new_cursor_def c_def)
  note ini = cursor_init_fresh(1) [OF holds x(1) e1, of mdb_page_touch "Some (c + 1)"]
  have tr1: "tracked (put_cur w1 c ?r) t dbi = Some []" using x by (simp add: tracked_def e1)
  have tr2: "set_tracked (put_cur w1 c ?r) t dbi [c] = Some (put_cur w2 c ?r)"
    using x by (simp add: set_tracked_def wr_def upd_txn_def e1 w2_def put_world_def w1_def [symmetric] put_cur_def)
  have rst: "?cs[dbi := []] = cs" using x(3,4) by (simp add: rd_def) (metis list_update_id)
  let ?xf = "x\<lparr>mt_dbs := (mt_dbs x)[dbi := db\<lparr>md_entries := n\<rparr>], mt_cursors := Some cs\<rparr>"
  define w4 where "w4 = written w3 c r2 t dbi (x\<lparr>mt_cursors := Some ?cs\<rparr>) db n"
  define w5 where "w5 = w4\<lparr>w_txns := (w_txns w4)(t \<mapsto> ?xf)\<rparr>"
  have tr3: "set_tracked w4 t dbi [] = Some w5"
    using x(3) rst by (simp add: set_tracked_def wr_def upd_txn_def w5_def w4_def written_def)
  define w6 where "w6 = drop_cursor (drop_cursor w5 (c + 1)) c"
  have w6: "w_mem w6 = w_mem w3" "w_env w6 = w_env w" "w_txns w6 t = Some ?xf"
    using run(2) by (simp_all add: w6_def w5_def w4_def drop_cursor_def written_def)
  have pg: "db_pages w6 t = db_pages w t"
    by (rule db_pages_cong [OF x(1) w6(3)]) (use X(2) w6(2) in \<open>simp_all add: same_pages_def\<close>)
  have "\<not> clear flags (MDB_NOOVERWRITE OR MDB_NODUPDATA OR MDB_RESERVE OR MDB_APPEND OR MDB_APPENDDUP) \<noteq> 0"
    using plain_put_flags(8) [OF flags] by simp
  then have "mdb_put w (Some t) dbi (Some key) (Some data) flags = Some (rc, Some d, w6)"
    using holds x(1) X(1) ini tr1 tr2 run(1) [folded c_def, folded w2_def w4_def] tr3
    by (auto simp: mdb_put_def db_holds_def TXN_DBI_EXIST_def with_tracked_def mdb_cursor_put_def numeral_2_eq_2 w6_def
        c_def w1_def new_cursor_def new_xcursor_def simp del: cursor_put.simps)
  then show ?thesis using w6 pg by blast
qed

section \<open>\<^verbatim>\<open>mdb_put\<close> updates the table\<close>

text \<open>
  What \<open>w'\<close> holds after the call: items whose table is that of before with \<open>vb\<close> under \<open>kb\<close>, or, when
  the key exists and must not be overwritten, the same table; \<^verbatim>\<open>md_entries\<close> counts the new key.
\<close>

definition put_effect ::
  "world \<Rightarrow> tid \<Rightarrow> nat \<Rightarrow> u8 list list \<Rightarrow> MDB_val \<Rightarrow> u8 list \<Rightarrow> u8 list \<Rightarrow> u32 \<Rightarrow> int \<Rightarrow> MDB_val \<Rightarrow> world \<Rightarrow> u8 list list \<Rightarrow> bool" where
  "put_effect w t dbi items data kb vb flags rc d w' items' \<longleftrightarrow>
     (let T = map_of (table (w_mem w) (db_pages w t) items); T' = map_of (table (w_mem w') (db_pages w' t) items');
          n = (\<lambda>w. map_option md_entries (get_db w (TxnDb t dbi))) in
      case T kb of
        None \<Rightarrow> rc = MDB_SUCCESS \<and> d = data \<and> T' = T(kb \<mapsto> vb) \<and> n w' = map_option (\<lambda>k. k + 1) (n w)
      | Some v \<Rightarrow> n w' = n w \<and>
          (if any_set flags MDB_NOOVERWRITE then rc = MDB_KEYEXIST \<and> val_bytes (w_mem w') d = Some v \<and> T' = T
           else rc = MDB_SUCCESS \<and> d = data \<and> T' = T(kb \<mapsto> vb)))"

lemma table_keys: "map_of (table m pg items) kb = None \<longleftrightarrow> kb \<notin> node_key ` set items"
  by (force simp: table_def map_of_eq_None_iff)

lemma mdb_put_stored:
  assumes holds: "db_holds w t dbi items" "items \<noteq> []" "inline_items items"
    and x: "w_txns w t = Some x" "mt_cursors x = Some cs" "dbi < length cs" "rd cs dbi = Some []"
    and S: "put_setting (put_world w t x (cs[dbi := [w_next w]])) t dbi key data kb vb (w_next w) items (x\<lparr>mt_cursors := Some (cs[dbi := [w_next w]])\<rparr>) db"
    and flags: "plain_put flags"
    and run: "cursor_put (Suc 1) (put_cur (put_world w t x (cs[dbi := [w_next w]])) (w_next w) (init_cur t dbi (mt_flags x))) (w_next w) key data 0 flags =
      Some (MDB_SUCCESS, data, 0, written (put_world w t x (cs[dbi := [w_next w]])\<lparr>w_mem := m', w_next := k\<rparr>) (w_next w) r2 t dbi
        (x\<lparr>mt_cursors := Some (cs[dbi := [w_next w]])\<rparr>) db n)"
    and st: "stores (put_world w t x (cs[dbi := [w_next w]])) t dbi db items kb vb m'"
  shows "\<exists>w' items'. mdb_put w (Some t) dbi (Some key) (Some data) flags = Some (MDB_SUCCESS, Some data, w') \<and>
    db_holds w' t dbi items' \<and> inline_items items' \<and> val_bytes (w_mem w') key = Some kb \<and>
    map_of (table (w_mem w') (db_pages w' t) items') = (map_of (table (w_mem w) (db_pages w t) items))(kb \<mapsto> vb) \<and>
    get_db w' (TxnDb t dbi) = Some (db\<lparr>md_entries := n\<rparr>)"
proof -
  let ?w2 = "put_world w t x (cs[dbi := [w_next w]])"
  note P = put_settingD [OF S]
  have db: "rd (mt_dbs x) dbi = Some db" using P(8) by simp
  have pg2: "db_pages ?w2 t = db_pages w t"
    using put_world_fresh(3) [OF holds(1) x(1)] P(7) by simp
  obtain w' where W: "mdb_put w (Some t) dbi (Some key) (Some data) flags = Some (MDB_SUCCESS, Some data, w')" "w_mem w' = m'" "w_env w' = w_env w"
    "w_txns w' t = Some (x\<lparr>mt_dbs := (mt_dbs x)[dbi := db\<lparr>md_entries := n\<rparr>], mt_cursors := Some cs\<rparr>)" "db_pages w' t = db_pages w t"
    using mdb_put_run [OF holds(1) x S flags run] by auto
  obtain stk D p items' where D: "db_node ?w2 t dbi stk 0" "upd_only (fst (last stk)) (me_psize (w_env ?w2)) (w_mem ?w2) m'"
    "db_pages ?w2 t (md_root db) = Some p" "D < CURSOR_STACK" "tree_at m' (db_pages ?w2 t) (me_psize (w_env ?w2)) D p items'" "items' \<noteq> []"
    "inline_items items'" "\<And>m pg m' pg'. map_of (table m' pg' items') = (map_of (table m pg items))(kb \<mapsto> vb)"
    using st unfolding stores_def by blast
  have "db_holds w' t dbi items'"
    by (rule db_holds_written [OF holds(1,2) x(1) db W(3,4,5)]) (use D(3-6) pg2 W(2) in simp_all)
  moreover have "val_bytes (w_mem w') key = Some kb"
    using pages_readyD(2) [OF P(10) D(1)] upd_only_load [OF D(2)] P(12) W(2) by (simp add: val_bytes_def)
  moreover have "get_db w' (TxnDb t dbi) = Some (db\<lparr>md_entries := n\<rparr>)"
    using W(4) db by (simp add: rd_def split: if_splits)
  ultimately show ?thesis using W(1) D(7,8) by blast
qed

lemma mdb_put_update:
  assumes holds: "db_holds w t dbi items" "items \<noteq> []" "inline_items items"
    and ready: "txn_ready w t dbi" "pages_ready w t dbi key data kb" "heap_fresh w" and flags: "plain_put flags"
    and key: "val_bytes (w_mem w) key = Some kb" "0 < mv_size key" "mv_size key \<le> ENV_MAXKEY"
    and data: "val_bytes (w_mem w) data = Some vb" "LEAFSIZE key data \<le> me_nodemax (w_env w)"
  shows "\<exists>rc d w' items'. mdb_put w (Some t) dbi (Some key) (Some data) flags = Some (rc, Some d, w') \<and>
    db_holds w' t dbi items' \<and> inline_items items' \<and> val_bytes (w_mem w') key = Some kb \<and>
    put_effect w t dbi items data kb vb flags rc d w' items'"
proof -
  obtain x db cs where x: "w_txns w t = Some x" "mt_cursors x = Some cs" "dbi < length cs" "rd cs dbi = Some []"
    and S: "put_setting (put_world w t x (cs[dbi := [w_next w]])) t dbi key data kb vb (w_next w) items (x\<lparr>mt_cursors := Some (cs[dbi := [w_next w]])\<rparr>) db"
    using put_world_setting [OF holds ready key data] by blast
  let ?w2 = "put_world w t x (cs[dbi := [w_next w]])" and ?T = "map_of (table (w_mem w) (db_pages w t) items)"
  note P = put_settingD [OF S]
  have db: "rd (mt_dbs x) dbi = Some db" using P(8) by simp
  have f: "mt_flags (x\<lparr>mt_cursors := c\<rparr>) = mt_flags x" for c by simp
  have pg2: "db_pages ?w2 t = db_pages w t" using put_world_fresh(3) [OF holds(1) x(1)] P(7) by simp
  show ?thesis
  proof (cases "?T kb")
    case None
    then have new: "kb \<notin> node_key ` set items" by (simp add: table_keys)
    obtain m' r2 where C: "cursor_put (Suc 1) (put_cur ?w2 (w_next w) (init_cur t dbi (mt_flags x))) (w_next w) key data 0 flags =
        Some (MDB_SUCCESS, data, 0, written (?w2\<lparr>w_mem := m', w_next := w_next ?w2 + 2\<rparr>) (w_next w) r2 t dbi (x\<lparr>mt_cursors := Some (cs[dbi := [w_next w]])\<rparr>) db (md_entries db + 1))"
      "stores ?w2 t dbi db items kb vb m'"
      using cursor_put_new [OF S flags new, unfolded f] by blast
    show ?thesis using mdb_put_stored [OF holds x S flags C] None x(1) db by (fastforce simp: put_effect_def Let_def)
  next
    case (Some v)
    then have old: "kb \<in> node_key ` set items" by (metis table_keys option.distinct(1))
    show ?thesis
    proof (cases "any_set flags MDB_NOOVERWRITE")
      case False
      obtain m' r2 where C: "cursor_put (Suc 1) (put_cur ?w2 (w_next w) (init_cur t dbi (mt_flags x))) (w_next w) key data 0 flags =
          Some (MDB_SUCCESS, data, 0, written (?w2\<lparr>w_mem := m', w_next := w_next ?w2 + 2\<rparr>) (w_next w) r2 t dbi (x\<lparr>mt_cursors := Some (cs[dbi := [w_next w]])\<rparr>) db (md_entries db))"
        "stores ?w2 t dbi db items kb vb m'"
        using cursor_put_old [OF S flags False old, unfolded f] by blast
      show ?thesis using mdb_put_stored [OF holds x S flags C] Some False x(1) db by (fastforce simp: put_effect_def Let_def)
    next
      case True
      obtain d v' r2 where C: "cursor_put (Suc 1) (put_cur ?w2 (w_next w) (init_cur t dbi (mt_flags x))) (w_next w) key data 0 flags =
          Some (MDB_KEYEXIST, d, 0, written ?w2 (w_next w) r2 t dbi (x\<lparr>mt_cursors := Some (cs[dbi := [w_next w]])\<rparr>) db (md_entries db))"
        "val_bytes (w_mem w) d = Some v'" "?T kb = Some v'"
        using cursor_put_exists [OF S flags True old, unfolded f pg2 put_world_simps] by blast
      obtain w' where W: "mdb_put w (Some t) dbi (Some key) (Some data) flags = Some (MDB_KEYEXIST, Some d, w')" "w_mem w' = w_mem w" "w_env w' = w_env w"
        "w_txns w' t = Some (x\<lparr>mt_dbs := (mt_dbs x)[dbi := db\<lparr>md_entries := md_entries db\<rparr>], mt_cursors := Some cs\<rparr>)" "db_pages w' t = db_pages w t"
        using mdb_put_run [OF holds(1) x S flags C(1)] by auto
      obtain D p where t: "db_pages w t (md_root db) = Some p" "D < CURSOR_STACK" "tree_at (w_mem w) (db_pages w t) (me_psize (w_env w)) D p items"
        using holds(1,2) x(1) db by (auto simp: db_holds_def split: if_splits)
      have "db_holds w' t dbi items"
        by (rule db_holds_written [OF holds(1,2) x(1) db W(3,4,5) t(1,2)]) (use t(3) W(2) holds(2) in simp_all)
      moreover have "get_db w' (TxnDb t dbi) = Some db" using W(4) db by (simp add: rd_def split: if_splits)
      ultimately show ?thesis using W(1,2,5) C(2,3) True holds(3) key(1) x(1) db by (fastforce simp: put_effect_def Let_def)
    qed
  qed
qed

end
