(* ===== verification/Del_Spec.thy ===== *)
theory Del_Spec
  imports Del Put_Spec Walk_Spec
begin

text \<open>
  \<^verbatim>\<open>mdb_del\<close> in a transaction whose pages of the database are its own already, when the leaf of the
  key stays full enough without the item, so that no pages are merged: the key is removed from the
  table of the database, and the rest of the table is as before.
\<close>

section \<open>What a deletion relies on\<close>

text \<open>
  When the leaf the key belongs to has the key, it has another item too, and it is the only page of
  the database or filled to \<^verbatim>\<open>FILL_THRESHOLD\<close> without the item.
\<close>

definition leaf_stays :: "world \<Rightarrow> tid \<Rightarrow> nat \<Rightarrow> u8 list \<Rightarrow> bool" where
  "leaf_stays w t dbi kb \<longleftrightarrow> (let psz = me_psize (w_env w) in
     \<forall>x db D p stk pre its post. w_txns w t = Some x \<longrightarrow> rd (mt_dbs x) dbi = Some db \<longrightarrow> db_pages w t (md_root db) = Some p \<longrightarrow>
       at_node (w_mem w) (db_pages w t) psz D p stk 0 pre its post \<longrightarrow> picked (w_mem w) psz (\<lambda>L. child_index L kb) stk \<longrightarrow>
       (\<forall>bs\<in>set its. node_key bs = kb \<longrightarrow> 2 \<le> length its \<and> (length stk = 1 \<or>
          (\<exists>left. SIZELEFT (w_mem w) (fst (last stk)) = Some left \<and>
             int FILL_THRESHOLD \<le> 1000 * (int psz - int PAGEHDRSZ - int (left + length bs + 2)) div (int psz - int PAGEHDRSZ)))))"

lemma leaf_staysD:
  assumes "leaf_stays w t dbi kb" "w_txns w t = Some x" "rd (mt_dbs x) dbi = Some db" "db_pages w t (md_root db) = Some p"
    "at_node (w_mem w) (db_pages w t) (me_psize (w_env w)) D p stk 0 pre its post"
    "picked (w_mem w) (me_psize (w_env w)) (\<lambda>L. child_index L kb) stk" "bs \<in> set its" "node_key bs = kb"
  shows "2 \<le> length its" "length stk = 1 \<or> (\<exists>left. SIZELEFT (w_mem w) (fst (last stk)) = Some left \<and>
    int FILL_THRESHOLD \<le> 1000 * (int (me_psize (w_env w)) - int PAGEHDRSZ - int (left + length bs + 2)) div (int (me_psize (w_env w)) - int PAGEHDRSZ))"
  using assms unfolding leaf_stays_def Let_def by blast+

section \<open>The leaf without the item\<close>

lemma map_del_nth: "map f (del_nth i xs) = del_nth i (map f xs)"
  by (simp add: del_nth_def take_map drop_map)

lemma set_del_nth_subset: "set (del_nth i xs) \<subseteq> set xs"
  unfolding del_nth_def using set_take_subset [of i xs] set_drop_subset [of "Suc i" xs] by auto

lemma sorted_del_nth: "sorted_wrt R xs \<Longrightarrow> sorted_wrt R (del_nth i xs)"
proof -
  assume s: "sorted_wrt R xs"
  have "sorted_wrt R (take (Suc i) xs @ drop (Suc i) xs)" using s by simp
  then have d: "sorted_wrt R (drop (Suc i) xs)" "\<forall>x\<in>set (take (Suc i) xs). \<forall>y\<in>set (drop (Suc i) xs). R x y"
    unfolding sorted_wrt_append by auto
  have "set (take i xs) \<subseteq> set (take (Suc i) xs)" by (rule set_take_subset_set_take) simp
  then show ?thesis unfolding del_nth_def sorted_wrt_append using d sorted_wrt_take [OF s, of i] by blast
qed

lemma leaf_rep_del:
  assumes old: "leaf_rep m psz p L" and rep: "page_rep m' p psz True u L'" and br: "IS_BRANCH m' p = IS_BRANCH m p"
    and L': "map snd L' = del_nth i (map snd L)"
  shows "leaf_rep m' psz p L'"
proof -
  have "map (node_key \<circ> snd) L' = del_nth i (map (node_key \<circ> snd) L)" using L' by (metis map_del_nth map_map)
  moreover have "set (map snd L') \<subseteq> set (map snd L)" unfolding L' by (rule set_del_nth_subset)
  then have "\<forall>bs\<in>set (map snd L'). keys_in bs" using old unfolding leaf_rep_def by blast
  ultimately show ?thesis using old rep br sorted_del_nth [of "(<)" "map (node_key \<circ> snd) L" i] by (auto simp: leaf_rep_def)
qed

text \<open>The table without the key.\<close>

lemma map_of_remove: "k \<notin> fst ` set xs \<Longrightarrow> k \<notin> fst ` set ys \<Longrightarrow> map_of (xs @ ys) = (map_of (xs @ (k, v) # ys))(k := None)"
proof -
  assume k: "k \<notin> fst ` set xs" "k \<notin> fst ` set ys"
  have "map_of (xs @ (k, v) # ys) = (map_of (xs @ ys))(k \<mapsto> v)" by (rule map_of_insert [OF k(1)])
  moreover have "map_of (xs @ ys) k = None" using k by (simp add: map_of_eq_None_iff image_Un)
  ultimately show ?thesis by (simp add: fun_upd_idem)
qed

lemma table_del:
  assumes inl: "inline_items (pre @ xs @ post)" and ar: "around pre kb post" and i: "i < length xs" "node_key (xs ! i) = kb"
    and srt: "sorted_wrt (<) (map node_key xs)"
  shows "map_of (table m' pg' (pre @ del_nth i xs @ post)) = (map_of (table m pg (pre @ xs @ post)))(kb := None)"
proof -
  have x: "xs = take i xs @ xs ! i # drop (Suc i) xs" by (rule id_take_nth_drop [OF i(1)])
  have inl': "inline_items (pre @ del_nth i xs @ post)"
    using inl set_del_nth_subset [of i xs] by (auto simp: inline_items_def)
  let ?A = "table m pg (pre @ take i xs)" and ?B = "table m pg (drop (Suc i) xs @ post)"
  have "distinct (map node_key (take i xs @ xs ! i # drop (Suc i) xs))" using srt x strict_sorted_iff by metis
  then have n: "kb \<notin> node_key ` set (take i xs)" "kb \<notin> node_key ` set (drop (Suc i) xs)" using i(2) by auto
  have k: "kb \<notin> fst ` set ?A" "kb \<notin> fst ` set ?B" using ar n by (auto simp: table_def around_def image_iff)
  have "pre @ xs @ post = (pre @ take i xs) @ [xs ! i] @ (drop (Suc i) xs @ post)" by (subst x) simp
  then have "table m pg (pre @ xs @ post) = ?A @ (kb, the (item_value m pg (xs ! i))) # ?B"
    using i(2) by (simp only: table_append) (simp add: table_def)
  moreover have "table m' pg' (pre @ del_nth i xs @ post) = ?A @ ?B"
    unfolding inline_table [OF inl', of m' pg' m pg] by (simp add: del_nth_def table_append)
  ultimately show ?thesis using map_of_remove [OF k] by simp
qed

section \<open>Completing the deletion\<close>

lemma page_spill_none:
  assumes r: "w_cursors w c = Some r" and x: "w_txns w (mc_txn r) = Some x" "\<not> any_set (mc_flags r) C_SUB"
    and db: "get_db w (mc_db r) = Some db" "rd (mt_dbs x) MAIN_DBI = Some main"
    and room: "2 * (unat (md_depth db) + (if mc_dbi r \<ge> CORE_DBS then unat (md_depth main) else 0)) < mt_dirty_room x"
  shows "mdb_page_spill w c None None = Some (MDB_SUCCESS, w)"
proof -
  have b: "unat (md_depth db) < 2 ^ 16" "unat (md_depth main) < 2 ^ 16"
    using unsigned_less [of "md_depth db", where 'a = nat] unsigned_less [of "md_depth main", where 'a = nat] by simp_all
  define i where "i = unat (md_depth db) + (if mc_dbi r \<ge> CORE_DBS then unat (md_depth main) else 0)"
  have i: "i < 2 ^ 18" using b by (simp add: i_def split: if_splits)
  have "spill_need w c None None = Some (u32 (i + i))"
    using r x db by (simp add: spill_need_def Let_def i_def)
  also have "u32 (i + i) = 2 * i" using i by (simp add: u32_def)
  finally show ?thesis using r x room by (simp add: mdb_page_spill_def i_def)
qed

text \<open>The leaf needs no rebalancing.\<close>

lemma rebalance_stays:
  assumes rep: "page_rep (w_mem w) p (me_psize (w_env w)) True u L" "IS_BRANCH (w_mem w) p = Some False" "L \<noteq> []"
    and cur: "w_cursors w c = Some r" "top_pg w c = Some p"
    and full: "mc_snum r = 1 \<and> get_pg w c 0 = Some p \<or> (\<exists>fill. PAGEFILL (w_env w) (w_mem w) p = Some fill \<and> int FILL_THRESHOLD \<le> fill)"
  shows "mdb_rebalance w c = Some (MDB_SUCCESS, w)"
proof -
  note nk = page_rep_NUMKEYS [OF rep(1)]
  obtain fill where fill: "PAGEFILL (w_env w) (w_mem w) p = Some fill"
    using page_rep_SIZELEFT [OF rep(1)] by (simp add: PAGEFILL_def)
  have ab: "page_above w c FILL_THRESHOLD 0 = Some (int FILL_THRESHOLD \<le> fill)"
    using cur(2) nk rep(3) fill by (simp add: page_above_def)
  obtain sub where sub: "IS_SUBP (w_mem w) p = Some sub"
    using page_repD(4) [OF rep(1)] by (auto simp: page_is_def)
  have "rebalance_root w c = Some (MDB_SUCCESS, w)" if "get_pg w c 0 = Some p"
    using that sub nk rep(2,3) by (simp add: rebalance_root_def)
  then have "rebalance_fuel (Suc d) w c = Some (MDB_SUCCESS, w)" for d using full cur rep(2) ab fill by auto
  from this [of CURSOR_STACK] show ?thesis by (simp add: mdb_rebalance_def)
qed

text \<open>The cursor itself, the only one on the page, moves to the next page when it is past the last node.\<close>

lemma del0_finish_only:
  assumes node: "at_node (w_mem w) (cur_pages w r) psz D p (path r) 0 pre its post" and wf: "stack_wf r"
    and fl: "any_set (mc_flags r) C_INITIALIZED" "\<not> any_set (mc_flags r) C_SUB"
    and db: "get_db w (mc_db r) = Some db" "\<not> any_set (md_flags db) MDB_DUPSORT" "tracked w (mc_txn r) (mc_dbi r) = Some [c]"
    and nk: "NUMKEYS (w_mem w) (fst (last (path r))) = Some n"
  shows "\<exists>r2. del0_finish (put_cur w c r) c = Some (MDB_SUCCESS, put_cur w c r2)"
proof -
  have ne: "path r \<noteq> []" using at_node_tree [OF node] by simp
  then have sn: "0 < mc_snum r" using length_path [OF wf] by (metis length_greater_0_conv)
  let ?w = "put_cur w c r"
  have tp: "top_pg ?w c = Some (fst (last (path r)))" "top_ki ?w c = Some (snd (last (path r)))"
    using top_simps(1,2) [of ?w c r] wf sn by simp_all
  then have rd: "rd (mc_pg r) (mc_top r) = Some (fst (last (path r)))" "rd (mc_ki r) (mc_top r) = Some (snd (last (path r)))" by simp_all
  have tr: "tracked ?w (mc_txn r) (mc_dbi r) = Some [c]" using db(3) by (simp add: tracked_def)
  have orf: "or_flags (put_cur w c r') c f = Some (put_cur w c (r'\<lparr>mc_flags := mc_flags r' OR f\<rparr>))" for r' f
    by (simp add: or_flags_def upd_cur_def)
  have len: "length (path r) \<le> CURSOR_STACK + 1" using length_path [OF wf] wf by (simp add: stack_wf_def)
  have cp: "cur_pages w r = page_addr w (mc_txn r) (is_ro (mc_flags r))" by (simp add: cur_pages_def)
  obtain rc r' where sib: "mdb_cursor_sibling ?w c True = Some (rc, put_cur w c r')" "rc = MDB_SUCCESS \<or> rc = MDB_NOTFOUND"
    using cursor_sibling_spec [OF node [unfolded cp] wf refl len refl refl, of True c]
    by (fastforce simp: mdb_cursor_sibling_def split: if_splits)
  have "\<exists>r2. del0_next c (fst (last (path r))) n c c ?w = Some (MDB_SUCCESS, put_cur w c r2)"
    using fl(1) rd sib db(1,2) orf by (cases "n \<le> snd (last (path r))") (auto simp: del0_next_def)
  then obtain r2 where "del0_next c (fst (last (path r))) n c c ?w = Some (MDB_SUCCESS, put_cur w c r2)" by blast
  then show ?thesis using tp nk tr fl(2) orf by (auto simp: del0_finish_def m3_of_def and_then_def)
qed

section \<open>The node goes\<close>

text \<open>The leaf the search has found, for a key that is there.\<close>

lemma own_setting_leaf:
  assumes S: "own_setting w t dbi c items x db" and F: "found_leaf w (init_cur t dbi (mt_flags x)) items kb r' D p pre L post"
  shows "at_node (w_mem w) (db_pages w t) (me_psize (w_env w)) D p (path r') 0 pre (map snd L) post"
    "leaf_rep (w_mem w) (me_psize (w_env w)) (fst (last (path r'))) L" "around pre kb post" "items = pre @ map snd L @ post"
    "picked (w_mem w) (me_psize (w_env w)) (\<lambda>L. child_index L kb) (path r')" "D < CURSOR_STACK" "db_pages w t (md_root db) = Some p"
    "at_node (w_mem w) (db_pages w t) (me_psize (w_env w)) D p stk e pre' its' post' \<Longrightarrow> way stk \<noteq> way (path r') \<Longrightarrow>
      apart (fst (last (path r'))) (me_psize (w_env w)) (fst (last stk)) (me_psize (w_env w))"
proof -
  note P = own_settingD [OF S]
  show G: "at_node (w_mem w) (db_pages w t) (me_psize (w_env w)) D p (path r') 0 pre (map snd L) post"
    "leaf_rep (w_mem w) (me_psize (w_env w)) (fst (last (path r'))) L" "around pre kb post" "items = pre @ map snd L @ post"
    "picked (w_mem w) (me_psize (w_env w)) (\<lambda>L. child_index L kb) (path r')" "D < CURSOR_STACK" "db_pages w t (md_root db) = Some p"
    using F P(4,5,8) by (auto simp: found_leaf_def)
  note N = found_leaf_node [OF F P(5,4)]
  show "at_node (w_mem w) (db_pages w t) (me_psize (w_env w)) D p stk e pre' its' post' \<Longrightarrow> way stk \<noteq> way (path r') \<Longrightarrow>
      apart (fst (last (path r'))) (me_psize (w_env w)) (fst (last stk)) (me_psize (w_env w))"
    using pages_ownD(2) [OF P(10) N [OF G(1)] N] by metis
qed

text \<open>Removing a node from that leaf.\<close>

lemma leaf_removed:
  assumes S: "own_setting w t dbi c items x db" and F: "found_leaf w (init_cur t dbi (mt_flags x)) items kb r' D p pre L post"
    and i: "i < length L" "node_key (snd (L ! i)) = kb" and stays: "leaf_stays w t dbi kb"
  shows "\<exists>m' u' L'. node_del_at (w_mem w) (fst (last (path r'))) i ks = Some m' \<and>
    page_rep m' (fst (last (path r'))) (me_psize (w_env w)) True u' L' \<and> IS_BRANCH m' (fst (last (path r'))) = Some False \<and>
    map snd L' = del_nth i (map snd L) \<and> L' \<noteq> [] \<and>
    tree_at m' (db_pages w t) (me_psize (w_env w)) D p (pre @ map snd L' @ post) \<and>
    at_node m' (db_pages w t) (me_psize (w_env w)) D p (path r') 0 pre (map snd L') post \<and>
    (length (path r') = 1 \<or> (\<exists>fill. PAGEFILL (w_env w) m' (fst (last (path r'))) = Some fill \<and> int FILL_THRESHOLD \<le> fill))"
proof -
  let ?lp = "fst (last (path r'))" and ?psz = "me_psize (w_env w)" and ?d = "length (snd (L ! i))"
  let ?L = "del_nth i (map (\<lambda>(x, bs). (shift_below (fst (L ! i)) ?d x, bs)) L)"
  note P = own_settingD [OF S] and Q = own_setting_leaf [OF S F]
  obtain u where rep: "page_rep (w_mem w) ?lp ?psz True u L" and br: "IS_BRANCH (w_mem w) ?lp = Some False" using Q(2) by (auto simp: leaf_rep_def)
  obtain m' where m': "node_del_at (w_mem w) ?lp i ks = Some m'" "upd_only (padd ?lp 12) (?psz - 12) (w_mem w) m'"
    "page_rep m' ?lp ?psz True (u + ?d) ?L"
    using node_del_at_rep [OF rep i(1), of ks] by blast
  have e: "map snd ?L = del_nth i (map snd L)" by (simp add: map_del_nth comp_def case_prod_beta)
  have mem: "snd (L ! i) \<in> set (map snd L)" using i(1) by simp
  note st = leaf_staysD [OF stays P(5,8) Q(7,1,5) mem i(2)]
  have len: "length ?L = length L - 1" using i(1) by (simp add: length_del_nth)
  have ne: "?L \<noteq> []" using st(1) len by (metis One_nat_def diff_is_0_eq length_map list.size(3) not_less_eq_eq numeral_2_eq_2)
  have uq: "upd_only ?lp ?psz (w_mem w) m'" using upd_only_mono [OF m'(2), of 0 ?psz] page_repD(7,8) [OF rep] by simp
  have br': "IS_BRANCH m' ?lp = IS_BRANCH (w_mem w) ?lp" using header_frame(1) [OF m'(2)] by simp
  have sub: "\<forall>bs\<in>set (map snd ?L). bs \<in> set (map snd L) \<or> node_key bs = kb"
    unfolding e using set_del_nth_subset [of i "map snd L"] by blast
  have T: "tree_at m' (db_pages w t) ?psz D p (pre @ map snd ?L @ post) \<and> at_node m' (db_pages w t) ?psz D p (path r') 0 pre (map snd ?L) post"
    by (rule tree_set_leaf [OF Q(1,5) uq leaf_rep_del [OF Q(2) m'(3) br' e] ne sub Q(8)])
  have fill: "length (path r') = 1 \<or> (\<exists>fill. PAGEFILL (w_env w) m' ?lp = Some fill \<and> int FILL_THRESHOLD \<le> fill)"
  proof (cases "length (path r') = 1")
    case False
    then obtain left where left: "SIZELEFT (w_mem w) ?lp = Some left"
      "int FILL_THRESHOLD \<le> 1000 * (int ?psz - int PAGEHDRSZ - int (left + ?d + 2)) div (int ?psz - int PAGEHDRSZ)"
      using st(2) by blast
    have "left = u - (PAGEHDRSZ + 2 * length L)" using left(1) page_rep_SIZELEFT [OF rep] by simp
    then have "u + ?d - (PAGEHDRSZ + 2 * length ?L) = left + ?d + 2" using page_repD(7) [OF rep] len i(1) by simp
    then show ?thesis using left(2) page_rep_SIZELEFT [OF m'(3)] by (simp add: PAGEFILL_def)
  qed simp
  show ?thesis using m'(1,3) br br' e ne T fill by (intro exI [of _ m'] exI [of _ "u + ?d"] exI [of _ ?L]) simp
qed

text \<open>The cursor after the search, on the item.\<close>

lemma set_found_on:
  assumes F: "found_leaf w (init_cur t dbi (mt_flags x)) items kb r' D p pre L post"
  shows "on_slot r' i (set_found r' i)" "any_set (mc_flags (set_found r' i)) C_INITIALIZED" "is_ro (mc_flags (set_found r' i)) = is_ro (mt_flags x)"
    "path (set_found r' i) = butlast (path r') @ [(fst (last (path r')), i)]"
proof -
  show "on_slot r' i (set_found r' i)" by (simp add: on_slot_def)
  show "any_set (mc_flags (set_found r' i)) C_INITIALIZED" by (simp add: set_found_def any_set_def clear_def bit.conj_disj_distrib2 and.assoc)
  have "mc_flags r' = clear (mc_flags (init_cur t dbi (mt_flags x)) OR C_INITIALIZED) C_EOF" using F by (simp add: found_leaf_def)
  then show "is_ro (mc_flags (set_found r' i)) = is_ro (mt_flags x)" by (simp add: set_found_def)
  have "stack_wf r'" using F by (simp add: found_leaf_def)
  from set_ki_path [OF this found_leaf_snum [OF F], of i]
  show "path (set_found r' i) = butlast (path r') @ [(fst (last (path r')), i)]" by (simp add: set_found_def path_def)
qed

text \<open>The items of the database after the deletion.\<close>

definition removes :: "world \<Rightarrow> tid \<Rightarrow> MDB_db \<Rightarrow> u8 list list \<Rightarrow> u8 list \<Rightarrow> mem \<Rightarrow> bool" where
  "removes w t db items kb m' \<longleftrightarrow> (\<exists>D p items'. db_pages w t (md_root db) = Some p \<and> D < CURSOR_STACK \<and>
     tree_at m' (db_pages w t) (me_psize (w_env w)) D p items' \<and> items' \<noteq> [] \<and> inline_items items' \<and>
     (\<forall>m pg m' pg'. map_of (table m' pg' items') = (map_of (table m pg items))(kb := None)))"

lemma cursor_del0_leaf:
  assumes S: "own_setting w t dbi c items x db" and F: "found_leaf w (init_cur t dbi (mt_flags x)) items kb r' D p pre L post"
    and i: "i < length L" "node_key (snd (L ! i)) = kb" and stays: "leaf_stays w t dbi kb"
  shows "\<exists>m' r2. mdb_cursor_del0 (put_cur w c (set_found r' i)) c =
      Some (MDB_SUCCESS, written (w\<lparr>w_mem := m'\<rparr>) c r2 t dbi x db (md_entries db - 1)) \<and> removes w t db items kb m'"
proof -
  let ?lp = "fst (last (path r'))" and ?psz = "me_psize (w_env w)" and ?r = "set_found r' i"
  note P = own_settingD [OF S] and Q = own_setting_leaf [OF S F] and N = set_found_on [OF F]
  note R = on_slotD [OF F N(1)]
  obtain m' u' L' where M: "node_del_at (w_mem w) ?lp i (unat (md_pad db)) = Some m'" "page_rep m' ?lp ?psz True u' L'"
    "IS_BRANCH m' ?lp = Some False" "map snd L' = del_nth i (map snd L)" "L' \<noteq> []"
    "tree_at m' (db_pages w t) ?psz D p (pre @ map snd L' @ post)" "at_node m' (db_pages w t) ?psz D p (path r') 0 pre (map snd L') post"
    "length (path r') = 1 \<or> (\<exists>fill. PAGEFILL (w_env w) m' ?lp = Some fill \<and> int FILL_THRESHOLD \<le> fill)"
    using leaf_removed [OF S F i stays] by blast
  define x' where "x' = x\<lparr>mt_dbs := (mt_dbs x)[dbi := db\<lparr>md_entries := md_entries db - 1\<rparr>]\<rparr>"
  define w3 where "w3 = w\<lparr>w_mem := m', w_txns := (w_txns w)(t \<mapsto> x')\<rparr>"
  have W: "w_mem w3 = m'" "w_env w3 = w_env w" "w_txns w3 t = Some x'" by (simp_all add: w3_def)
  have out: "written (w\<lparr>w_mem := m'\<rparr>) c r2 t dbi x db (md_entries db - 1) = put_cur w3 c r2" for r2
    by (simp add: written_def w3_def x'_def)
  have db': "get_db w3 (mc_db ?r) = Some (db\<lparr>md_entries := md_entries db - 1\<rparr>)"
    using P(8) R(10) W(3) by (simp add: x'_def rd_def split: if_splits)
  have tr: "tracked w3 (mc_txn ?r) (mc_dbi ?r) = Some [c]" using P(5,9) R(8,9) W(3) by (simp add: tracked_def x'_def)
  have tp: "top_pg (put_cur w' c ?r) c = Some ?lp" "top_ki (put_cur w' c ?r) c = Some i" for w'
    using top_simps(1,2) [of "put_cur w' c ?r" c ?r] R(1,2,4,5) by simp_all
  have pg: "db_pages w3 t = db_pages w t"
    by (rule db_pages_cong [OF P(5) W(3)]) (use P(7) W(2) in \<open>simp_all add: same_pages_def x'_def\<close>)
  then have cp: "cur_pages w3 ?r = db_pages w t"
    using W(3) R(8) N(3) by (simp add: cur_pages_def db_pages_def x'_def)
  have ne: "path r' \<noteq> []" using at_node_tree [OF M(7)] by simp
  have node: "at_node (w_mem w3) (cur_pages w3 ?r) ?psz D p (path ?r) 0 pre (map snd L') post"
    unfolding N(4) cp W(1) by (rule at_node_index [of _ _ _ _ _ _ _ "snd (last (path r'))"]) (use M(7) ne in simp)
  have adj: "each_tracked (del0_adjust c ?lp i) (put_cur w3 c ?r) c = Some (put_cur w3 c ?r)"
  proof -
    have "tracked (put_cur w3 c ?r) (mc_txn ?r) (mc_dbi ?r) = Some [c]" using tr by (simp add: tracked_def)
    then show ?thesis using R(6) by (simp add: each_tracked_def m3_of_def del0_adjust_def)
  qed
  have full: "mc_snum ?r = 1 \<and> get_pg (put_cur w3 c ?r) c 0 = Some ?lp \<or>
      (\<exists>fill. PAGEFILL (w_env (put_cur w3 c ?r)) (w_mem (put_cur w3 c ?r)) ?lp = Some fill \<and> int FILL_THRESHOLD \<le> fill)"
  proof (cases "length (path r') = 1")
    case True
    then have sn: "mc_snum ?r = 1" using length_path [OF R(1)] ne by (simp add: N(4))
    then have "mc_top ?r = 0" using R(1) by (simp add: stack_wf_def)
    then show ?thesis using sn tp(1) [of w3] by (simp add: get_pg_def top_pg_def)
  next
    case False
    then show ?thesis using M(8) W(1,2) by simp
  qed
  have reb: "mdb_rebalance (put_cur w3 c ?r) c = Some (MDB_SUCCESS, put_cur w3 c ?r)"
    by (rule rebalance_stays [OF _ _ M(5) _ tp(1) full]) (use M(2,3) W(1,2) in simp_all)
  obtain r2 where fin: "del0_finish (put_cur w3 c ?r) c = Some (MDB_SUCCESS, put_cur w3 c r2)"
    using del0_finish_only [OF node R(1) N(2) R(6) db' _ tr] P(11) page_rep_NUMKEYS [OF M(2)] W(1) R(4) by auto
  have nd: "mdb_node_del (put_cur w c ?r) c (unat (md_pad db)) = Some (put_cur (w\<lparr>w_mem := m'\<rparr>) c ?r)"
    using M(1) tp [of w] by (simp add: mdb_node_del_def mem_do_def put_cur_def)
  have up: "upd_db (put_cur (w\<lparr>w_mem := m'\<rparr>) c ?r) (mc_db ?r) (\<lambda>d. d\<lparr>md_entries := md_entries d - 1\<rparr>) = Some (put_cur w3 c ?r)"
    using P(5,8) R(10) by (simp add: upd_txn_def w3_def x'_def put_cur_def wr_def rd_def split: if_splits)
  have "get_db (put_cur w c ?r) (mc_db ?r) = Some db" using P(5,8) R(10) by simp
  then have run: "mdb_cursor_del0 (put_cur w c ?r) c = Some (MDB_SUCCESS, put_cur w3 c r2)"
    using tp [of w] nd up adj reb fin R(2) [of i] by (simp add: mdb_cursor_del0_def)
  have srt: "sorted_wrt (<) (map node_key (map snd L))" using leaf_repD(10) [OF Q(2)] by (simp add: comp_def)
  have inl: "inline_items (pre @ map snd L' @ post)"
    unfolding M(4) using P(3) [unfolded Q(4)] set_del_nth_subset [of i "map snd L"] by (auto simp: inline_items_def)
  have "map_of (table m2 pg' (pre @ map snd L' @ post)) = (map_of (table m pg items))(kb := None)" for m pg m2 pg'
    unfolding M(4) Q(4) by (rule table_del [OF P(3) [unfolded Q(4)] Q(3) _ _ srt]) (use i in simp_all)
  then have "removes w t db items kb m'" unfolding removes_def using Q(6,7) M(5,6) inl by blast
  then show ?thesis using run out by metis
qed

text \<open>\<^verbatim>\<open>mdb_cursor_del\<close> has nothing to spill and nothing to copy.\<close>

lemma cursor_del_leaf:
  assumes S: "own_setting w t dbi c items x db" and F: "found_leaf w (init_cur t dbi (mt_flags x)) items kb r' D p pre L post"
    and i: "i < length L"
  shows "mdb_cursor_del (put_cur w c (set_found r' i)) c MDB_NODUPDATA = mdb_cursor_del0 (put_cur w c (set_found r' i)) c"
proof -
  let ?lp = "fst (last (path r'))" and ?psz = "me_psize (w_env w)" and ?r = "set_found r' i"
  let ?w = "put_cur w c ?r"
  note P = own_settingD [OF S] and Q = own_setting_leaf [OF S F] and N = set_found_on [OF F]
  note R = on_slotD [OF F N(1)]
  obtain u where rep: "page_rep (w_mem w) ?lp ?psz True u L" using Q(2) by (auto simp: leaf_rep_def)
  obtain main fl where M: "rd (mt_dbs x) MAIN_DBI = Some main" "rd (mt_dbflags x) dbi = Some fl"
     "2 * (unat (md_depth db) + (if dbi \<ge> CORE_DBS then unat (md_depth main) else 0) + 1) < mt_dirty_room x"
     "dbi < CORE_DBS \<or> any_set fl (DB_DIRTY OR DB_DUPDATA)"
    using S by (auto simp: own_setting_def Let_def)
  have dirty: "\<forall>q\<in>fst ` set (path ?r). dirty_page (w_mem w) q" using own_setting_dirty [OF S F] R(3) by simp
  have touch: "mdb_cursor_touch ?w c = Some (0, ?w)"
    by (rule cursor_touch_dirty [OF R(1) _ P(7) dirty R(2)]) (use P(5) M R in simp_all)
  have spill: "mdb_page_spill ?w c None None = Some (MDB_SUCCESS, ?w)"
    by (rule page_spill_none [where r = ?r and x = x and db = db and main = main]) (use P(5,8) M R in simp_all)
  have tp: "top_pg ?w c = Some ?lp" "top_ki ?w c = Some i"
    using top_simps(1,2) [of ?w c ?r] R(1,2,4,5) by simp_all
  note n = page_rep_nth(1-6) [OF rep i]
  have node: "NODEPTR (w_mem w) ?lp i = Some (padd ?lp (fst (L ! i)))" using n(1) by (simp add: NODEPTR_def)
  have "snd (L ! i) \<in> set items" using Q(4) i by simp
  then have fl0: "mn_flags (w_mem w) (padd ?lp (fst (L ! i))) = Some 0"
    using node_fields(2) [OF n(2,5)] P(3) by (simp add: inline_items_def)
  have bits: "\<not> F_ISSET 0 F_DUPDATA" "\<not> F_ISSET 0 F_BIGDATA" "\<not> any_set (0 XOR MDB_NODUPDATA) F_SUBDATA" "\<not> any_set MDB_NODUPDATA MDB_NOSPILL"
    by (simp_all add: F_ISSET_def any_set_def)
  have item: "del_item del ?w c MDB_NODUPDATA = mdb_cursor_del0 ?w c" for del
    using tp page_repD(4) [OF rep] node fl0 bits by (simp add: del_item_def del_node_def)
  have "cursor_del (Suc d) ?w c MDB_NODUPDATA = mdb_cursor_del0 ?w c" for d
    using P(5,6) R(8) N(2) tp page_rep_NUMKEYS [OF rep] i bits(4) spill touch item by (simp add: and_then_def)
  from this [of 1] show ?thesis by (simp add: mdb_cursor_del_def numeral_2_eq_2 del: cursor_del.simps)
qed

section \<open>\<^verbatim>\<open>mdb_del\<close>\<close>

lemma found_leaf_cong:
  assumes "found_leaf w r items kb r' D p pre L post" "w_mem w2 = w_mem w" "w_env w2 = w_env w" "cur_pages w2 r = cur_pages w r"
    "get_db w2 (mc_db r) = get_db w (mc_db r)"
  shows "found_leaf w2 r items kb r' D p pre L post"
  using assms by (simp add: found_leaf_def)

text \<open>The search of \<^verbatim>\<open>mdb_del0\<close>, before its cursor is tracked: \<open>w1\<close> has the two cursor variables.\<close>

lemma del_search:
  assumes holds: "db_holds w t dbi items" "items \<noteq> []" "inline_items items" and x: "w_txns w t = Some x" "mt_parent x = None"
    and key: "val_bytes (w_mem w) key = Some kb" "0 < mv_size key" "mv_size key \<le> ENV_MAXKEY"
    and w1: "w1 = snd (new_xcursor (snd (new_cursor w)))"
  shows "mdb_cursor_init touch w1 (w_next w) t dbi mx = Some (put_cur w1 (w_next w) (init_cur t dbi (mt_flags x)))"
    and "\<exists>r' D p pre L post i. found_leaf (put_world w t x cs) (init_cur t dbi (mt_flags x)) items kb r' D p pre L post \<and>
      (if kb \<in> node_key ` set items then i < length L \<and> node_key (snd (L ! i)) = kb \<and>
         mdb_cursor_set 2 mdb_page_touch (put_cur w1 (w_next w) (init_cur t dbi (mt_flags x))) (w_next w) key None MDB_SET (Some False) =
           Some (MDB_SUCCESS, key, None, Some True, put_cur w1 (w_next w) (set_found r' i))
       else mdb_cursor_set 2 mdb_page_touch (put_cur w1 (w_next w) (init_cur t dbi (mt_flags x))) (w_next w) key None MDB_SET (Some False) =
           Some (MDB_NOTFOUND, key, None, Some False, put_cur w1 (w_next w) (set_ki r' i)))"
proof -
  define c where "c = w_next w"
  let ?r = "init_cur t dbi (mt_flags x)"
  have e1: "w_mem w1 = w_mem w" "w_txns w1 = w_txns w" "w_env w1 = w_env w" "w_cursors w1 c = Some blank_cursor"
    by (simp_all add: w1 new_xcursor_def new_cursor_def c_def)
  note I = cursor_init_fresh [OF holds(1) x(1) e1]
  show "mdb_cursor_init touch w1 (w_next w) t dbi mx = Some (put_cur w1 (w_next w) ?r)" using I(1) by (simp add: c_def)
  have len: "length kb = mv_size key" using key(1) load_Some_valid by (auto simp: val_bytes_def)
  have k: "val_bytes (w_mem w1) key = Some kb" "length kb < 2 ^ 32" "mv_size key \<noteq> 0" using key len e1(1) by simp_all
  obtain r' D p pre L post where F: "found_leaf w1 ?r items kb r' D p pre L post"
    and absent: "kb \<notin> set (map (node_key \<circ> snd) L) \<Longrightarrow> mdb_cursor_set (Suc 1) mdb_page_touch (put_cur w1 c ?r) c key None MDB_SET (Some False) =
        Some (MDB_NOTFOUND, key, None, Some False, put_cur w1 c (set_ki r' (leaf_index L kb)))"
    and present: "kb \<in> set (map (node_key \<circ> snd) L) \<Longrightarrow> leaf_index L kb < length L \<and> node_key (snd (L ! leaf_index L kb)) = kb \<and>
      (\<not> F_ISSET (node_flags (snd (L ! leaf_index L kb))) F_DUPDATA \<longrightarrow>
        mdb_cursor_set (Suc 1) mdb_page_touch (put_cur w1 c ?r) c key None MDB_SET (Some False) =
          Some (MDB_SUCCESS, key, None, Some True, put_cur w1 c (set_found r' (leaf_index L kb))))"
    using cursor_set_position_any [OF I(2) holds(2) k, of 1 mdb_page_touch c] by blast
  have "around pre kb post" "items = pre @ map snd L @ post" using F by (simp_all add: found_leaf_def)
  then have mem: "kb \<in> node_key ` set items \<longleftrightarrow> kb \<in> set (map (node_key \<circ> snd) L)" by (auto simp: around_def)
  note W = put_world_fresh [OF holds(1) x, of cs]
  obtain db where "rd (mt_dbs x) dbi = Some db" using holds(1) x(1) by (auto simp: db_holds_def)
  then have F2: "found_leaf (put_world w t x cs) ?r items kb r' D p pre L post"
    by (intro found_leaf_cong [OF F]) (use e1 I(3) W(2) x(1) in simp_all)
  have nd: "\<not> F_ISSET (node_flags (snd (L ! leaf_index L kb))) F_DUPDATA" if "leaf_index L kb < length L"
  proof -
    have "snd (L ! leaf_index L kb) \<in> set items" using that \<open>items = pre @ map snd L @ post\<close> by simp
    then have "node_flags (snd (L ! leaf_index L kb)) = 0" using holds(3) by (auto simp: inline_items_def)
    then show ?thesis by (simp add: F_ISSET_def)
  qed
  show "\<exists>r' D p pre L post i. found_leaf (put_world w t x cs) ?r items kb r' D p pre L post \<and>
      (if kb \<in> node_key ` set items then i < length L \<and> node_key (snd (L ! i)) = kb \<and>
         mdb_cursor_set 2 mdb_page_touch (put_cur w1 (w_next w) ?r) (w_next w) key None MDB_SET (Some False) =
           Some (MDB_SUCCESS, key, None, Some True, put_cur w1 (w_next w) (set_found r' i))
       else mdb_cursor_set 2 mdb_page_touch (put_cur w1 (w_next w) ?r) (w_next w) key None MDB_SET (Some False) =
           Some (MDB_NOTFOUND, key, None, Some False, put_cur w1 (w_next w) (set_ki r' i)))"
    using F2 absent present nd mem unfolding c_def numeral_2_eq_2 One_nat_def
    by (intro exI [of _ r'] exI [of _ D] exI [of _ p] exI [of _ pre] exI [of _ L] exI [of _ post] exI [of _ "leaf_index L kb"])
      (simp del: mdb_cursor_set.simps)
qed

lemma leaf_stays_cong:
  assumes "db_pages w' t = db_pages w t" "w_mem w' = w_mem w" "w_env w' = w_env w" "w_txns w t = Some x" "w_txns w' t = Some x'" "mt_dbs x' = mt_dbs x"
  shows "leaf_stays w' t dbi kb \<longleftrightarrow> leaf_stays w t dbi kb"
  using assms by (simp add: leaf_stays_def)

text \<open>A handle of the transaction passes the checks of \<^verbatim>\<open>mdb_del\<close>.\<close>

lemma mdb_del_start:
  assumes "db_holds w t dbi items" "w_txns w t = Some x" "\<not> any_set (mt_flags x) (MDB_TXN_RDONLY OR MDB_TXN_BLOCKED)"
  shows "mdb_del w (Some t) dbi (Some key) data = mdb_del0 w t dbi key None 0"
proof -
  obtain db fl where "rd (mt_dbs x) dbi = Some db" "\<not> any_set (md_flags db) MDB_DUPSORT" "dbi < mt_numdbs x" "rd (mt_dbflags x) dbi = Some fl" "any_set fl DB_USRVALID"
    using assms(1,2) by (auto simp: db_holds_def)
  then show ?thesis using assms(2,3) by (simp add: mdb_del_def TXN_DBI_EXIST_def F_ISSET_def any_set_def)
qed

text \<open>
  What \<open>w'\<close> holds after the call: items whose table is that of before without \<open>kb\<close>; \<^verbatim>\<open>md_entries\<close>
  counts one key less when the key was there.
\<close>

definition del_effect :: "world \<Rightarrow> tid \<Rightarrow> nat \<Rightarrow> u8 list list \<Rightarrow> u8 list \<Rightarrow> int \<Rightarrow> world \<Rightarrow> u8 list list \<Rightarrow> bool" where
  "del_effect w t dbi items kb rc w' items' \<longleftrightarrow>
     (let T = map_of (table (w_mem w) (db_pages w t) items);
          n = (\<lambda>w. map_option md_entries (get_db w (TxnDb t dbi))) in
      map_of (table (w_mem w') (db_pages w' t) items') = T(kb := None) \<and>
      (if T kb = None then rc = MDB_NOTFOUND \<and> n w' = n w
       else rc = MDB_SUCCESS \<and> n w' = map_option (\<lambda>k. k - 1) (n w)))"

lemma mdb_del_absent:
  assumes holds: "db_holds w t dbi items" "items \<noteq> []" "inline_items items"
    and x: "w_txns w t = Some x" "mt_parent x = None" "\<not> any_set (mt_flags x) (MDB_TXN_RDONLY OR MDB_TXN_BLOCKED)"
    and key: "val_bytes (w_mem w) key = Some kb" "0 < mv_size key" "mv_size key \<le> ENV_MAXKEY" and new: "kb \<notin> node_key ` set items"
  shows "\<exists>w'. mdb_del w (Some t) dbi (Some key) data = Some (MDB_NOTFOUND, w') \<and> db_holds w' t dbi items \<and>
    del_effect w t dbi items kb MDB_NOTFOUND w' items"
proof -
  define w1 where "w1 = snd (new_xcursor (snd (new_cursor w)))"
  note D = del_search [OF holds x(1,2) key w1_def]
  obtain r1 where set: "mdb_cursor_set 2 mdb_page_touch (put_cur w1 (w_next w) (init_cur t dbi (mt_flags x))) (w_next w) key None MDB_SET (Some False) =
      Some (MDB_NOTFOUND, key, None, Some False, put_cur w1 (w_next w) r1)"
    using D(2) [of undefined] new by auto
  define w' where "w' = drop_cursor (drop_cursor (put_cur w1 (w_next w) r1) (w_next w + 1)) (w_next w)"
  have w': "w_mem w' = w_mem w" "w_txns w' = w_txns w" "w_env w' = w_env w"
    by (simp_all add: w'_def w1_def drop_cursor_def new_xcursor_def new_cursor_def)
  have run: "mdb_del w (Some t) dbi (Some key) data = Some (MDB_NOTFOUND, w')"
    unfolding mdb_del_start [OF holds(1) x(1,3)] using D(1) set
    by (simp add: mdb_del0_def w'_def w1_def new_xcursor_def new_cursor_def del: mdb_cursor_set.simps)
  have "page_addr w' = page_addr w" by (rule ext, rule ext, rule page_addr_cong) (simp_all add: w')
  then have pg: "db_pages w' t = db_pages w t" unfolding db_pages_def w'(2) by (rule arg_cong)
  then have h: "db_holds w' t dbi items" using holds(1) by (simp only: db_holds_def w')
  have n: "map_of (table (w_mem w) (db_pages w t) items) kb = None" using new by (simp add: table_keys)
  then have "del_effect w t dbi items kb MDB_NOTFOUND w' items"
    using w' pg by (simp add: del_effect_def Let_def fun_upd_idem)
  then show ?thesis using run h by blast
qed

lemma mdb_del_present:
  assumes holds: "db_holds w t dbi items" "items \<noteq> []" "inline_items items"
    and x: "w_txns w t = Some x" "mt_parent x = None" "mt_cursors x = Some cs" "dbi < length cs" "rd cs dbi = Some []"
    and S: "own_setting (put_world w t x (cs[dbi := [w_next w]])) t dbi (w_next w) items (x\<lparr>mt_cursors := Some (cs[dbi := [w_next w]])\<rparr>) db"
    and key: "val_bytes (w_mem w) key = Some kb" "0 < mv_size key" "mv_size key \<le> ENV_MAXKEY" and old: "kb \<in> node_key ` set items"
    and stays: "leaf_stays w t dbi kb"
  shows "\<exists>w' items'. mdb_del w (Some t) dbi (Some key) data = Some (MDB_SUCCESS, w') \<and> db_holds w' t dbi items' \<and> items' \<noteq> [] \<and>
    inline_items items' \<and> del_effect w t dbi items kb MDB_SUCCESS w' items'"
proof -
  define c where "c = w_next w"
  define w1 where "w1 = snd (new_xcursor (snd (new_cursor w)))"
  let ?r = "init_cur t dbi (mt_flags x)" and ?cs = "cs[dbi := [c]]"
  let ?x = "x\<lparr>mt_cursors := Some ?cs\<rparr>"
  define w2 where "w2 = put_world w t x ?cs"
  note S = S [folded c_def, folded w2_def]
  note P = own_settingD [OF S]
  have X: "\<not> any_set (mt_flags x) (MDB_TXN_RDONLY OR MDB_TXN_BLOCKED)" "rd (mt_dbs x) dbi = Some db" using P(6,8) by simp_all
  have e1: "w_mem w1 = w_mem w" "w_txns w1 = w_txns w" "w_env w1 = w_env w" by (simp_all add: w1_def new_xcursor_def new_cursor_def)
  have pg2: "db_pages w2 t = db_pages w t" unfolding w2_def by (rule put_world_fresh(3) [OF holds(1) x(1,2)])
  have f: "mt_flags ?x = mt_flags x" by simp
  note D = del_search [OF holds x(1,2) key w1_def, folded c_def]
  obtain r' D p pre L post i where F: "found_leaf w2 ?r items kb r' D p pre L post" and i: "i < length L" "node_key (snd (L ! i)) = kb"
    and set: "mdb_cursor_set 2 mdb_page_touch (put_cur w1 c ?r) c key None MDB_SET (Some False) =
      Some (MDB_SUCCESS, key, None, Some True, put_cur w1 c (set_found r' i))"
    using D(2) [of ?cs, folded w2_def] old by auto
  have st: "leaf_stays w2 t dbi kb"
    using leaf_stays_cong [OF pg2 _ _ x(1), of ?x dbi kb] stays by (simp add: w2_def)
  obtain m' r2 where del: "mdb_cursor_del (put_cur w2 c (set_found r' i)) c MDB_NODUPDATA =
      Some (MDB_SUCCESS, written (w2\<lparr>w_mem := m'\<rparr>) c r2 t dbi ?x db (md_entries db - 1))" and rem: "removes w2 t db items kb m'"
    using cursor_del0_leaf [OF S, unfolded f, OF F i st] cursor_del_leaf [OF S, unfolded f, OF F i(1)] by auto
  let ?xf = "x\<lparr>mt_dbs := (mt_dbs x)[dbi := db\<lparr>md_entries := md_entries db - 1\<rparr>], mt_cursors := Some cs\<rparr>"
  define w4 where "w4 = written (w2\<lparr>w_mem := m'\<rparr>) c r2 t dbi ?x db (md_entries db - 1)"
  define w5 where "w5 = w4\<lparr>w_txns := (w_txns w4)(t \<mapsto> ?xf)\<rparr>"
  have tr1: "tracked (put_cur w1 c (set_found r' i)) t dbi = Some []" using x by (simp add: tracked_def e1)
  have tr2: "set_tracked (put_cur w1 c (set_found r' i)) t dbi [c] = Some (put_cur w2 c (set_found r' i))"
    using x by (simp add: set_tracked_def wr_def upd_txn_def e1 w2_def put_world_def w1_def [symmetric] put_cur_def)
  have rst: "?cs[dbi := []] = cs" using x(4,5) by (simp add: rd_def) (metis list_update_id)
  have tr3: "set_tracked w4 t dbi [] = Some w5"
    using x(4) rst by (simp add: set_tracked_def wr_def upd_txn_def w5_def w4_def written_def)
  define w' where "w' = drop_cursor (drop_cursor w5 (c + 1)) c"
  have w': "w_mem w' = m'" "w_env w' = w_env w" "w_txns w' t = Some ?xf"
    by (simp_all add: w'_def w5_def w4_def w2_def drop_cursor_def written_def)
  have run: "mdb_del w (Some t) dbi (Some key) data = Some (MDB_SUCCESS, w')"
    unfolding mdb_del_start [OF holds(1) x(1) X(1)] using D(1) set tr1 tr2 del [folded w4_def] tr3
    by (simp add: mdb_del0_def with_tracked_def w'_def c_def w1_def new_xcursor_def new_cursor_def del: mdb_cursor_set.simps)
  have pg: "db_pages w' t = db_pages w t"
    by (rule db_pages_cong [OF x(1) w'(3)]) (use x(2) w'(2) in \<open>simp_all add: same_pages_def\<close>)
  obtain D1 p1 items' where T: "db_pages w t (md_root db) = Some p1" "D1 < CURSOR_STACK" "tree_at m' (db_pages w t) (me_psize (w_env w)) D1 p1 items'"
    "items' \<noteq> []" "inline_items items'" "\<And>m pg m' pg'. map_of (table m' pg' items') = (map_of (table m pg items))(kb := None)"
    using rem pg2 unfolding removes_def by (auto simp: w2_def)
  have h: "db_holds w' t dbi items'"
    by (rule db_holds_written [OF holds(1,2) x(1) X(2) w'(2,3) pg T(1,2)]) (use T(3,4) w'(1) in simp_all)
  have "map_of (table (w_mem w) (db_pages w t) items) kb \<noteq> None" using old by (metis table_keys)
  moreover have "get_db w' (TxnDb t dbi) = Some (db\<lparr>md_entries := md_entries db - 1\<rparr>)"
    using w'(3) X(2) by (simp add: rd_def split: if_splits)
  moreover have "get_db w (TxnDb t dbi) = Some db" using x(1) X(2) by simp
  ultimately have "del_effect w t dbi items kb MDB_SUCCESS w' items'" using T(6) by (simp add: del_effect_def Let_def)
  then show ?thesis using run h T(4,5) by blast
qed

lemma mdb_del_update:
  assumes holds: "db_holds w t dbi items" "items \<noteq> []" "inline_items items"
    and ready: "txn_ready w t dbi" "pages_own w t dbi" "leaf_stays w t dbi kb"
    and key: "val_bytes (w_mem w) key = Some kb" "0 < mv_size key" "mv_size key \<le> ENV_MAXKEY"
  shows "\<exists>rc w' items'. mdb_del w (Some t) dbi (Some key) data = Some (rc, w') \<and> db_holds w' t dbi items' \<and> items' \<noteq> [] \<and>
    inline_items items' \<and> del_effect w t dbi items kb rc w' items'"
proof -
  obtain x db cs where x: "w_txns w t = Some x" "mt_cursors x = Some cs" "dbi < length cs" "rd cs dbi = Some []" "mt_parent x = None"
    and S: "own_setting (put_world w t x (cs[dbi := [w_next w]])) t dbi (w_next w) items (x\<lparr>mt_cursors := Some (cs[dbi := [w_next w]])\<rparr>) db"
    using own_world_setting [OF holds ready(1,2)] by blast
  have ro: "\<not> any_set (mt_flags x) (MDB_TXN_RDONLY OR MDB_TXN_BLOCKED)" using own_settingD(6) [OF S] by simp
  show ?thesis
  proof (cases "kb \<in> node_key ` set items")
    case True
    then show ?thesis using mdb_del_present [OF holds x(1,5,2-4) S key True ready(3)] by blast
  next
    case False
    then show ?thesis using mdb_del_absent [OF holds x(1,5) ro key False] holds(2,3) by blast
  qed
qed

end
