(* ===== verification/Spec2Isabelle.thy ===== *)
theory Spec2Isabelle
  imports Midl_Quicksort Mid2l Dbi Flush Cursor_Get Node_Add_Spec Alloc_Spec Search_Spec Copy_Spec Meta_Spec Readers_Spec Walk_Spec Freelist_Spec Copy_Thread_Spec
    Env_Copy Env_Open_Spec Reader_List Bench_Spec Lm_Db_Spec Put_Spec Del_Spec
begin

text \<open>
  The program of the repository as HOL functions with the theorems that make its parts correct: the
  storage engine LMDB (\<^verbatim>\<open>src/lmdb\<close>), and the benchmark of four stores, one of them LMDB
  (\<^verbatim>\<open>src/main.cpp\<close>, \<^verbatim>\<open>src/ledger\<close>, \<^verbatim>\<open>src/util\<close>).

  \<^bold>\<open>The program.\<close> A database file is a map of pages. A B+tree page holds an array of slots that grows up
  from the header and nodes that grow down from the end. A write transaction never changes a page
  of the last snapshot: \<^verbatim>\<open>mdb_page_touch\<close> copies it into a dirty buffer first. Dirty
  buffers are found by page number in an ID2 list, free page numbers come from ID lists, and
  cursors keep the path from the root to a slot. Cursors of the same transaction are adjusted when
  a page they are on is copied.

  The benchmark opens one store through the interface \<^verbatim>\<open>StateDB\<close>, writes some keys and lets threads
  read and write random keys until the time is up. The stores over LevelDB and RocksDB spread the keys
  over 16 databases by a hash and queue batched updates per database; the store over LMDB keeps one
  transaction open.

  \<^bold>\<open>Build modelled.\<close> 64-bit little-endian POSIX, without \<^verbatim>\<open>MDB_VL32\<close>, \<^verbatim>\<open>_WIN32\<close> and
  debug output; \<^verbatim>\<open>PAGEBASE\<close> is 0. \<^verbatim>\<open>mdb_cassert\<close> is on: an operation whose assertion fails is \<open>None\<close>, and
  so is an access outside a live block of memory.

  \<^bold>\<open>Theories, in the order they build on each other.\<close>
  \<^item> \<open>Prelude\<close>: words, list access with bounds (\<open>rd\<close>, \<open>wr\<close>), the binary search shared by the two
    list searches and its correctness as the locale \<open>id_search\<close>.
  \<^item> \<open>Midl\<close>, \<open>Midl_Merge\<close>, \<open>Midl_Sort\<close>, \<open>Midl_Quicksort\<close>: \<^verbatim>\<open>MDB_IDL\<close>
    (\<^verbatim>\<open>midl.c\<close>), an array whose element 0 is the count and whose element -1, the allocated length, is
    \<open>idl_alloc\<close>. \<open>idl_elems\<close> is the list represented, \<open>block_wf\<close> the allocation invariant.
  \<^item> \<open>Mid2l\<close>: \<^verbatim>\<open>MDB_ID2L\<close>; \<open>id2_map\<close> is the finite map represented, \<open>id2_wf\<close> its invariant.
  \<^item> \<open>Mem\<close>: blocks of bytes (the file map and the heap), pointers, little-endian access.
  \<^item> \<open>Lmdb_H\<close>, \<open>Cmp\<close>, \<open>Types\<close>: constants of \<^verbatim>\<open>lmdb.h\<close>, the comparison functions
    (locale \<open>key_order\<close>, interpreted on each of them), the records of \<^verbatim>\<open>mdb.c\<close>. The state of
    all operations is the record \<open>world\<close>: memory, transactions, cursors and environments by
    identifier.
  \<^item> \<open>Page\<close>, \<open>Node\<close>: the header and node macros, \<^verbatim>\<open>mdb_node_del\<close>, \<^verbatim>\<open>mdb_node_shrink\<close>,
    and the page part of \<^verbatim>\<open>mdb_node_add\<close>. \<open>Page_Mem\<close>, \<open>Node_Spec\<close> and \<open>Node_Add_Spec\<close> relate them to
    lists: \<open>page_rep m p psz leaf u L\<close> says that the page at \<open>p\<close> holds the nodes \<open>L\<close>.
  \<^item> \<open>Search\<close>, \<open>Cursor\<close>, \<open>Cursor_Get\<close>: page lookup, descent, cursor motion, reads.
  \<^item> \<open>Alloc\<close>, \<open>Flush\<close>, \<open>Touch\<close>: loose pages, spilling and flushing of dirty pages, allocation
    from the free list, copy on write, overflow pages.

  \<^item> \<open>Split\<close>, \<open>Rebalance\<close>: \<^verbatim>\<open>mdb_page_split\<close>, \<^verbatim>\<open>mdb_update_key\<close>,
    \<^verbatim>\<open>mdb_node_move\<close>, \<^verbatim>\<open>mdb_page_merge\<close>, \<^verbatim>\<open>mdb_rebalance\<close>, and how they keep the other
    cursors of the transaction in place. \<open>Put\<close>, \<open>Del\<close>: \<^verbatim>\<open>mdb_cursor_put\<close>, one definition per
    label of the function, \<^verbatim>\<open>mdb_cursor_del\<close>, \<^verbatim>\<open>mdb_drop0\<close>, \<^verbatim>\<open>mdb_put\<close>, \<^verbatim>\<open>mdb_del\<close>.
  \<^item> \<open>Meta\<close>: the two meta pages as bytes, the choice between them and how a commit writes one.
    \<open>Readers\<close>: the reader table and the repair of a mutex. \<open>Txn\<close>: begin, renew, end.
    \<open>Freelist\<close>, \<open>Commit\<close>: \<^verbatim>\<open>mdb_freelist_save\<close>, \<^verbatim>\<open>mdb_txn_commit\<close> of nested and outer
    transactions. \<open>Dbi\<close>: handles, \<^verbatim>\<open>mdb_drop\<close>, statistics, flags.

  \<^item> \<open>Env_Open\<close>: \<^verbatim>\<open>mdb_env_create\<close> to \<^verbatim>\<open>mdb_env_close\<close>; the record \<open>env_io\<close> holds the
    descriptors, the map and what the process has open. \<open>Copy_Thread\<close>: the two threads of a compacting
    copy as step functions on \<open>copy_sys\<close>; \<open>Env_Copy\<close>: the tree walk that feeds them, and the copy as it is.

  \<^item> \<open>Decimal\<close>, \<open>Reader_List\<close>: numbers as text, and \<^verbatim>\<open>mdb_reader_list\<close>.
  \<^item> \<open>Shard\<close>, \<open>Shard_Rocks\<close>: \<^verbatim>\<open>level_db.cpp\<close> and \<^verbatim>\<open>rocks_db.cpp\<close>, operation by operation.
    \<open>Lm_Db\<close>: \<^verbatim>\<open>lm_db.cpp\<close> on the model of LMDB, and its \<^verbatim>\<open>put\<close> taken apart into the accesses to what
    threads share. \<open>Bench\<close>: the record \<open>StateDB\<close>, \<^verbatim>\<open>redis_db.cpp\<close>, the command line, the workers, the
    two tests, \<^verbatim>\<open>treeSize\<close>.

  \<^bold>\<open>Specifications.\<close> Theories with the suffix \<open>_Spec\<close> hold the abstraction of a component and the
  lemmas that its operations implement it.
  \<^item> \<open>Search_Spec\<close>: the position \<^verbatim>\<open>mdb_node_search\<close> finds on a page. \<open>Alloc_Spec\<close>, \<open>Copy_Spec\<close>:
    allocation from the free list, page copies.
  \<^item> \<open>Tree_Spec\<close>: \<open>tree_at m pg psz d p items\<close>, the search tree of \<open>d\<close> levels below a page and its
    items from left to right; \<open>at_node\<close>, the items left of, on and right of the page a cursor's
    stack leads to. \<open>Descent_Spec\<close>: the locale \<open>descent\<close>, what the choice of a child must
    guarantee for \<^verbatim>\<open>mdb_page_search\<close> to arrive at the right leaf, interpreted for the search by key,
    to the first and to the last item.
  \<^item> \<open>Get_Spec\<close>: \<open>db_holds w t dbi items\<close>, a handle whose pages hold a tree, and \<^verbatim>\<open>mdb_get\<close> as a lookup
    in its \<open>table\<close>. \<open>Walk_Spec\<close>: \<^verbatim>\<open>mdb_cursor_sibling\<close>, \<^verbatim>\<open>mdb_cursor_first\<close> and \<^verbatim>\<open>mdb_cursor_next\<close> on the
    tree, and a client's loop over a cursor.
  \<^item> \<open>Insert_Spec\<close>: the tree again when one leaf has changed and the pages do not overlap. \<open>Put_Step_Spec\<close>,
    \<open>Put_Spec\<close>: the labels of \<^verbatim>\<open>mdb_cursor_put\<close> one after the other on pages that are dirty already and
    a leaf with room, for a new key, a value of the old size and one of another size; \<open>pages_ready\<close> and
    \<open>txn_ready\<close> say when that is the case. \<^verbatim>\<open>mdb_put\<close> is then an update of the \<open>table\<close>. No such lemma covers a
    put that splits, spills or copies pages.
  \<^item> \<open>Del_Spec\<close>: \<^verbatim>\<open>mdb_del\<close> on such pages (\<open>pages_own\<close>) removes the key from the \<open>table\<close>, from the search through
    \<^verbatim>\<open>mdb_cursor_del0\<close> to the cursor that moves on to the next leaf, as long as the leaf stays full enough
    (\<open>leaf_stays\<close>). No such lemma covers a deletion that moves nodes between pages or merges them.
  \<^item> \<open>Meta_Spec\<close>: the bytes of a meta page read back, the outcomes of \<^verbatim>\<open>mdb_env_write_meta\<close>.
    \<open>Readers_Spec\<close>: the sorted list of process ids, the sweep of \<^verbatim>\<open>mdb_reader_check0\<close>.
  \<^item> \<open>Freelist_Spec\<close>: the dirty list without its freed slots. \<open>Env_Open_Spec\<close>: what an environment
    holds of the system (\<open>holdings\<close>), how opening acquires it and closing releases it.
    \<open>Copy_Thread_Spec\<close>: \<open>copy_reach h s\<close>, the interleavings of the two threads with the history \<open>h\<close> of
    what was handed over, its invariant, and a measure that every step lowers.

  \<^item> \<open>Shard_Spec\<close>: \<open>shards_hold\<close>, the map in all shards and the pending updates, and that every operation
    refines the one on the map. \<open>Bench_Spec\<close>: the locale \<open>state_db\<close>, what the tests rely on of a store,
    interpreted for the stores over LevelDB, RocksDB and Redis. \<open>Lm_Db_Spec\<close>: mutual exclusion of the
    calls of \<^verbatim>\<open>mdb_put\<close>, and the schedule in which a key is lost.

  \<^bold>\<open>Bounds and fuel.\<close> The descent from the root is a \<open>partial_function\<close>: it ends when the tree has no
  cycle; so are \<^verbatim>\<open>mdb_drop0\<close>'s walk and the loops of \<^verbatim>\<open>mdb_freelist_save\<close>, which go on while the
  list changes. The walk over parent transactions has \<open>TXN_NEST\<close> (1000) steps; a deeper nesting is
  \<open>None\<close>. A cursor of a database with duplicates calls the same functions on the cursor of its
  sub-tree, which has none, so a depth of 2 suffices there. A split that splits the parent, and a
  merge that rebalances it, go up one level, so \<open>CURSOR_STACK + 1\<close> levels are enough.
  The walk of a compacting copy nests three deep: a sub-database of duplicates in a named database in
  the main one. A loop of writes puts at least one byte out per turn, so one turn more than bytes
  suffices.

  \<^bold>\<open>Parameters.\<close> The state carries what the code does not decide: \<open>w_malloc\<close>, which allocations
  succeed and what the memory holds, and \<open>w_io\<close>, the outcomes of system calls (write, sync,
  locks) in their order. The text of system errors is an argument of \<^verbatim>\<open>mdb_strerror\<close>. One thread runs
  at a time: an operation of the model is a call of the interface, not a step of it. Only the
  compacting copy, which has a thread of its own, is modelled step by step; the outcomes in \<open>w_io\<close> also
  pick the thread that goes on. The libraries of the other stores are the records \<open>kv_lib\<close> and
  \<open>redis_lib\<close>; \<open>kv_ok\<close>, \<open>kv_reliable\<close> and \<open>redis_ok\<close> state what they promise. Random numbers come from
  a sampler, of which only the range is used, and the clock is a schedule, the list of the workers in
  the order of their turns. Turns of workers do not overlap there; overlapping calls are studied for
  the \<^verbatim>\<open>put\<close> of the store over LMDB only.

  \<^bold>\<open>Not modelled.\<close> Debugging output and audits; the code of other builds (Windows, 32-bit
  maps, semaphores); values the library only keeps for its user (user contexts, the relocation
  functions, which nothing calls); in the benchmark, messages, waiting, and the shell commands that
  create and remove directories.
\<close>

section \<open>Concrete inputs for the witnesses\<close>

text \<open>A leaf page of 64 bytes with one node at offset 48, an empty branch page, a key and data.\<close>

definition demo_mem :: mem where
  "demo_mem = (\<lambda>_. None)(Map \<mapsto> [0, 0, 0, 0, 0, 0, 0, 0, 0, 0, 2, 0, 18, 0, 48, 0, 48, 0] @ replicate 30 0 @
     [6, 0, 0, 0, 0, 0, 2, 0, 1, 2, 3, 4, 5, 6, 7, 8], Heap 0 \<mapsto> [99, 100, 7, 8, 9])"

definition demo_branch :: mem where
  "demo_branch = (\<lambda>_. None)(Map \<mapsto> [0, 0, 0, 0, 0, 0, 0, 0, 0, 0, 1, 0, 16, 0, 64, 0] @ replicate 48 0,
     Heap 0 \<mapsto> [99, 100, 7, 8, 9])"

definition demo_key :: MDB_val where
  "demo_key = \<lparr>mv_size = 2, mv_data = Ptr (Heap 0) 0\<rparr>"

definition demo_data :: MDB_val where
  "demo_data = \<lparr>mv_size = 3, mv_data = Ptr (Heap 0) 2\<rparr>"

definition demo_nodes :: "(nat \<times> u8 list) list" where
  "demo_nodes = [(48, [6, 0, 0, 0, 0, 0, 2, 0, 1, 2, 3, 4, 5, 6, 7, 8])]"

lemmas demo_simps = demo_mem_def demo_branch_def demo_key_def demo_data_def demo_nodes_def valid_def load_def val_bytes_def
  data_len_def EVEN_def F_ISSET_def apart_blk

lemma demo_rep: "page_rep demo_mem (Ptr Map 0) 64 True 48 demo_nodes"
  by (simp add: page_rep_def demo_simps page_is_def mp_flags_def mp_lower_def mp_upper_def mp_ptrs_def ldn_def img_size_def Let_def
    padd_def)


text \<open>A dirty list of two pages with room for two more, an ID list and an allocator.\<close>

definition demo_id2 :: "nat MDB_ID2L" where
  "demo_id2 = [\<lparr>mid = 2, mptr = 0\<rparr>, \<lparr>mid = 1, mptr = 10\<rparr>, \<lparr>mid = 5, mptr = 50\<rparr>, \<lparr>mid = 0, mptr = 0\<rparr>, \<lparr>mid = 0, mptr = 0\<rparr>]"

definition demo_alloc :: allocator where
  "demo_alloc = (\<lambda>n. Some (replicate n 0))"

definition demo_idl :: MDB_IDL where
  "demo_idl = \<lparr>idl_alloc = 3, idl_words = [2, 9, 8, 0]\<rparr>"

lemma demo_alloc_ok: "allocator_ok demo_alloc"
  by (simp add: demo_alloc_def allocator_ok_def)

lemma demo_idl_wf: "block_wf demo_idl"
  by (simp add: demo_idl_def block_wf_def idl_wf_def)

text \<open>A world with one write transaction, one cursor and two readers.\<close>

definition demo_txn :: MDB_txn where
  "demo_txn = \<lparr>mt_parent = None, mt_child = None, mt_next_pgno = 4, mt_txnid = 9, mt_free_pgs = demo_idl, mt_loose_pgs = [],
     mt_loose_count = 0, mt_spill_pgs = None,
     mt_dirty_list = [\<lparr>mid = 1, mptr = NULL\<rparr>, \<lparr>mid = 3, mptr = Ptr (Heap 1) 0\<rparr>, \<lparr>mid = 0, mptr = NULL\<rparr>],
     mt_reader = None, mt_dbs = [blank_db, blank_db], mt_dbiseqs = [0, 0], mt_cursors = Some [[], []], mt_dbflags = [0, 0],
     mt_numdbs = 2, mt_flags = 0, mt_dirty_room = 5, mt_pgstate = None\<rparr>"

definition demo_readers :: MDB_txninfo where
  "demo_readers = \<lparr>mti_txnid = 8, mti_numreaders = 2,
     mti_readers = [\<lparr>mr_txnid = 6, mr_pid = 1, mr_tid = 1\<rparr>, \<lparr>mr_txnid = 3, mr_pid = 0, mr_tid = 0\<rparr>]\<rparr>"

definition demo_env :: MDB_env where
  "demo_env = \<lparr>me_flags = 0, me_psize = 64, me_maxreaders = 2, me_numdbs = 2, me_maxdbs = 2, me_pid = 1, me_txns = Some demo_readers,
     me_txn = Some 0, me_maxpg = 100, me_mapsize = 6400, me_dbxs = [], me_dbflags = [0, 0], me_dbiseqs = [0, 0], me_pgoldest = 0,
     me_pghead = None, me_pglast = 0, me_dpages = [], me_pbuf = NULL, me_maxfree_1pg = 4, me_nodemax = 24, me_txn0 = Some 0,
     me_free_pgs = \<lparr>idl_alloc = 0, idl_words = [0]\<rparr>, me_dirty_list = [], me_live_reader = False, me_close_readers = 0, me_txkey = None\<rparr>"

definition demo_world :: world where
  "demo_world = \<lparr>w_mem = demo_mem, w_env = demo_env, w_txns = (\<lambda>_. None)(0 \<mapsto> demo_txn),
     w_cursors = (\<lambda>_. None)(0 \<mapsto> blank_cursor), w_xcursors = (\<lambda>_. None), w_next = 2, w_malloc = (\<lambda>_. None), w_calls = 0,
     w_io = (\<lambda>_. 0), w_ios = 0, w_self = 1\<rparr>"

text \<open>Two meta pages of 152 bytes, a new file, and a reader table with dead readers.\<close>

definition demo_meta :: "u64 \<Rightarrow> MDB_meta" where
  "demo_meta tx = \<lparr>mm_magic = MDB_MAGIC, mm_version = MDB_DATA_VERSION, mm_address = 0, mm_mapsize = 6400,
     mm_dbs = [blank_db, blank_db], mm_last_pg = 3, mm_txnid = tx\<rparr>"

definition demo_meta_world :: world where
  "demo_meta_world = demo_world\<lparr>w_mem := (\<lambda>_. None)(Map \<mapsto> meta_page 152 0 (demo_meta 8) @ meta_page 152 1 (demo_meta 7)),
     w_env := demo_env\<lparr>me_psize := 152\<rparr>\<rparr>"

lemma demo_get_meta: "get_meta demo_meta_world 0 = Some (demo_meta 8)" "get_meta demo_meta_world (Suc 0) = Some (demo_meta 7)"
proof -
  have "load (w_mem demo_meta_world) (Ptr Map 16) META_SIZE = Some (meta_bytes (demo_meta 8))"
    "load (w_mem demo_meta_world) (Ptr Map 168) META_SIZE = Some (meta_bytes (demo_meta 7))"
    by (simp_all add: load_def demo_meta_world_def meta_page_def)
  from load_meta_bytes [OF this(1)] load_meta_bytes [OF this(2)]
  show "get_meta demo_meta_world 0 = Some (demo_meta 8)" "get_meta demo_meta_world (Suc 0) = Some (demo_meta 7)"
    by (simp_all add: get_meta_def me_metas_def, simp_all add: demo_meta_world_def demo_meta_def cut_flags_def blank_db_def)
qed

definition demo_file_world :: world where
  "demo_file_world = demo_world\<lparr>w_mem := (\<lambda>_. None), w_env := demo_env\<lparr>me_psize := 512\<rparr>, w_malloc := (\<lambda>_. Some (\<lambda>_. 0))\<rparr>"

definition demo_stale :: MDB_txninfo where
  "demo_stale = \<lparr>mti_txnid = 8, mti_numreaders = 3,
     mti_readers = [\<lparr>mr_txnid = 6, mr_pid = 1, mr_tid = 1\<rparr>, \<lparr>mr_txnid = 3, mr_pid = 7, mr_tid = 2\<rparr>, \<lparr>mr_txnid = 3, mr_pid = 4, mr_tid = 3\<rparr>]\<rparr>"

definition demo_stale_world :: world where
  "demo_stale_world = demo_world\<lparr>w_env := demo_env\<lparr>me_txns := Some demo_stale\<rparr>, w_malloc := (\<lambda>_. Some (\<lambda>_. 0))\<rparr>"

text \<open>
  A world with a read-only transaction on a tree of two levels: the branch page 2 over the leaf
  pages 3 and 4, three items, the value of the last one on the overflow page 5.
\<close>

definition demo_branch_nodes :: "(nat \<times> u8 list) list" where
  "demo_branch_nodes = [(56, [3, 0, 0, 0, 0, 0, 0, 0]), (46, [4, 0, 0, 0, 0, 0, 2, 0, 5, 6])]"

definition demo_left_nodes :: "(nat \<times> u8 list) list" where
  "demo_left_nodes = [(52, [2, 0, 0, 0, 0, 0, 2, 0, 1, 2, 7, 8]), (40, [2, 0, 0, 0, 0, 0, 2, 0, 3, 4, 9, 9])]"

definition demo_right_nodes :: "(nat \<times> u8 list) list" where
  "demo_right_nodes = [(46, [20, 0, 0, 0, 1, 0, 2, 0, 5, 6, 5, 0, 0, 0, 0, 0, 0, 0])]"

definition demo_tree_mem :: mem where
  "demo_tree_mem = (\<lambda>_. None)(Map \<mapsto> replicate 128 0 @
     [2, 0, 0, 0, 0, 0, 0, 0, 0, 0, 1, 0, 20, 0, 46, 0, 56, 0, 46, 0] @ replicate 26 0 @
       [4, 0, 0, 0, 0, 0, 2, 0, 5, 6, 3, 0, 0, 0, 0, 0, 0, 0] @
     [3, 0, 0, 0, 0, 0, 0, 0, 0, 0, 2, 0, 20, 0, 40, 0, 52, 0, 40, 0] @ replicate 20 0 @
       [2, 0, 0, 0, 0, 0, 2, 0, 3, 4, 9, 9, 2, 0, 0, 0, 0, 0, 2, 0, 1, 2, 7, 8] @
     [4, 0, 0, 0, 0, 0, 0, 0, 0, 0, 2, 0, 18, 0, 46, 0, 46, 0] @ replicate 28 0 @
       [20, 0, 0, 0, 1, 0, 2, 0, 5, 6, 5, 0, 0, 0, 0, 0, 0, 0] @
     [5, 0, 0, 0, 0, 0, 0, 0, 0, 0, 4, 0, 1, 0, 0, 0] @ replicate 48 1,
     Heap 0 \<mapsto> [5, 6])"

definition demo_tree_txn :: MDB_txn where
  "demo_tree_txn = demo_txn\<lparr>mt_next_pgno := 6, mt_dbs := [blank_db, blank_db\<lparr>md_depth := 2, md_branch_pages := 1, md_leaf_pages := 2,
       md_overflow_pages := 1, md_entries := 3, md_root := 2\<rparr>], mt_cursors := None,
     mt_dbflags := [DB_VALID, DB_VALID OR DB_USRVALID], mt_flags := MDB_TXN_RDONLY\<rparr>"

definition demo_tree_world :: world where
  "demo_tree_world = demo_world\<lparr>w_mem := demo_tree_mem,
     w_env := demo_env\<lparr>me_dbxs := replicate 2 \<lparr>md_name = \<lparr>mv_size = 0, mv_data = NULL\<rparr>, md_cmp = Some Cmp_memn, md_dcmp = None\<rparr>\<rparr>,
     w_txns := (\<lambda>_. None)(0 \<mapsto> demo_tree_txn), w_malloc := (\<lambda>_. Some (\<lambda>_. 0))\<rparr>"

definition demo_items :: "u8 list list" where
  "demo_items = map snd (demo_left_nodes @ demo_right_nodes)"


lemmas demo_page_simps = page_rep_def page_is_def mp_flags_def mp_lower_def mp_upper_def mp_ptrs_def ldn_def img_size_def Let_def
  padd_def valid_def load_def demo_tree_mem_def EVEN_def F_ISSET_def

lemma demo_left: "leaf_rep demo_tree_mem 64 (Ptr Map 192) demo_left_nodes"
  by (auto simp: leaf_rep_def demo_page_simps demo_left_nodes_def keys_in_def node_key_def less_Suc_eq)

lemma demo_right: "leaf_rep demo_tree_mem 64 (Ptr Map 256) demo_right_nodes"
  by (auto simp: leaf_rep_def demo_page_simps demo_right_nodes_def keys_in_def node_key_def less_Suc_eq)

lemma demo_root: "branch_rep demo_tree_mem 64 (Ptr Map 128) demo_branch_nodes [map snd demo_left_nodes, map snd demo_right_nodes]"
  by (auto simp: branch_rep_def demo_page_simps demo_branch_nodes_def demo_left_nodes_def demo_right_nodes_def keys_in_def node_key_def
    less_Suc_eq)

lemma demo_pages: "db_pages demo_tree_world 0 n = (if n < 6 then Some (Ptr Map (unat n * 64)) else None)"
  by (simp add: db_pages_def page_addr_def demo_tree_world_def demo_world_def demo_tree_txn_def is_ro_def any_set_def map_page_def
    demo_env_def word_le_nat_alt word_less_nat_alt)

lemma demo_tree: "tree_at demo_tree_mem (db_pages demo_tree_world 0) 64 (Suc 0) (Ptr Map 128) demo_items"
proof -
  have "\<forall>i<length demo_branch_nodes. \<exists>q. db_pages demo_tree_world 0 (node_pgno (snd (demo_branch_nodes ! i))) = Some q \<and>
      tree_at demo_tree_mem (db_pages demo_tree_world 0) 64 0 q ([map snd demo_left_nodes, map snd demo_right_nodes] ! i)"
    using tree_at.leaf [OF demo_left] tree_at.leaf [OF demo_right]
    by (auto simp: demo_branch_nodes_def demo_pages node_pgno_def less_Suc_eq)
  from tree_at.branch [OF demo_root this] show ?thesis by (simp add: demo_items_def)
qed

lemma demo_tree_world_simps:
  "w_mem demo_tree_world = demo_tree_mem" "w_txns demo_tree_world 0 = Some demo_tree_txn" "me_psize (w_env demo_tree_world) = 64"
  "rd (me_dbxs (w_env demo_tree_world)) (Suc 0) =
    Some \<lparr>md_name = \<lparr>mv_size = 0, mv_data = NULL\<rparr>, md_cmp = Some Cmp_memn, md_dcmp = None\<rparr>"
  "w_malloc demo_tree_world = (\<lambda>_. Some (\<lambda>_. 0))"
  by (simp_all add: demo_tree_world_def demo_env_def rd_def)

lemma demo_tree_txn_simps:
  "mt_numdbs demo_tree_txn = 2" "mt_flags demo_tree_txn = MDB_TXN_RDONLY" "mt_cursors demo_tree_txn = None"
  "rd (mt_dbflags demo_tree_txn) (Suc 0) = Some (DB_VALID OR DB_USRVALID)"
  "rd (mt_dbs demo_tree_txn) (Suc 0) = Some (blank_db\<lparr>md_depth := 2, md_branch_pages := 1, md_leaf_pages := 2,
       md_overflow_pages := 1, md_entries := 3, md_root := 2\<rparr>)"
  by (simp_all add: demo_tree_txn_def demo_txn_def rd_def)

lemma demo_db_holds: "db_holds demo_tree_world 0 1 demo_items"
proof -
  have "demo_items \<noteq> []" by (simp add: demo_items_def demo_left_nodes_def)
  moreover have "\<exists>D p. D < CURSOR_STACK \<and> db_pages demo_tree_world 0 2 = Some p \<and>
      tree_at demo_tree_mem (db_pages demo_tree_world 0) 64 D p demo_items"
    using demo_tree by (intro exI [of _ "Suc 0"] exI [of _ "Ptr Map 128"]) (simp add: demo_pages)
  ultimately show ?thesis
    by (simp add: db_holds_def demo_tree_world_simps demo_tree_txn_simps any_set_def blank_db_def)
qed

lemma demo_plain: "plain_items demo_tree_mem (db_pages demo_tree_world 0) demo_items"
  by (simp add: plain_items_def demo_items_def demo_left_nodes_def demo_right_nodes_def item_value_def node_flags_def node_dofs_def
    node_dsz_def F_ISSET_def demo_pages METADATA_def demo_page_simps)

lemma demo_table: "table demo_tree_mem (db_pages demo_tree_world 0) demo_items = [([1, 2], [7, 8]), ([3, 4], [9, 9]), ([5, 6], replicate 20 1)]"
  by (simp add: table_def demo_items_def demo_left_nodes_def demo_right_nodes_def item_value_def node_flags_def node_dofs_def
    node_dsz_def F_ISSET_def demo_pages METADATA_def demo_page_simps node_key_def)

definition demo_tree_key :: MDB_val where
  "demo_tree_key = \<lparr>mv_size = 2, mv_data = Ptr (Heap 0) 0\<rparr>"

lemma demo_tree_key: "val_bytes demo_tree_mem demo_tree_key = Some [5, 6]" "mv_size demo_tree_key = 2"
  by (simp_all add: demo_tree_key_def val_bytes_def demo_tree_mem_def load_def)

lemma demo_items_length: "length demo_items = 3"
  by (simp add: demo_items_def demo_left_nodes_def demo_right_nodes_def)


text \<open>
  A world with a write transaction on a tree of two levels: the branch page 2 over the leaf pages 3
  and 4, all dirty, each in a block of its own; three items; a key, a new one, and data.
\<close>

definition demo_put_nodes :: "(nat \<times> u8 list) list" where
  "demo_put_nodes = [(52, [2, 0, 0, 0, 0, 0, 2, 0, 5, 6, 1, 1])]"

definition demo_put_mem :: mem where
  "demo_put_mem = (\<lambda>_. None)(
     Heap 3 \<mapsto> [2, 0, 0, 0, 0, 0, 0, 0, 0, 0, 17, 0, 20, 0, 46, 0, 56, 0, 46, 0] @ replicate 26 0 @
       [4, 0, 0, 0, 0, 0, 2, 0, 5, 6, 3, 0, 0, 0, 0, 0, 0, 0],
     Heap 4 \<mapsto> [3, 0, 0, 0, 0, 0, 0, 0, 0, 0, 18, 0, 20, 0, 40, 0, 52, 0, 40, 0] @ replicate 20 0 @
       [2, 0, 0, 0, 0, 0, 2, 0, 3, 4, 9, 9, 2, 0, 0, 0, 0, 0, 2, 0, 1, 2, 7, 8],
     Heap 5 \<mapsto> [4, 0, 0, 0, 0, 0, 0, 0, 0, 0, 18, 0, 18, 0, 52, 0, 52, 0] @ replicate 34 0 @ [2, 0, 0, 0, 0, 0, 2, 0, 5, 6, 1, 1],
     Heap 6 \<mapsto> [4, 1, 9, 3, 4])"

definition demo_put_txn :: MDB_txn where
  "demo_put_txn = demo_txn\<lparr>mt_next_pgno := 6, mt_dbs := [blank_db, blank_db\<lparr>md_depth := 2, md_branch_pages := 1, md_leaf_pages := 2,
       md_entries := 3, md_root := 2\<rparr>], mt_cursors := Some [[], []], mt_dbflags := [DB_VALID, DB_VALID OR DB_USRVALID], mt_dirty_room := 100,
     mt_dirty_list := [\<lparr>mid = 3, mptr = NULL\<rparr>, \<lparr>mid = 2, mptr = Ptr (Heap 3) 0\<rparr>, \<lparr>mid = 3, mptr = Ptr (Heap 4) 0\<rparr>,
       \<lparr>mid = 4, mptr = Ptr (Heap 5) 0\<rparr>]\<rparr>"

definition demo_put_world :: world where
  "demo_put_world = demo_world\<lparr>w_mem := demo_put_mem, w_next := 7,
     w_env := demo_env\<lparr>me_dbxs := replicate 2 \<lparr>md_name = \<lparr>mv_size = 0, mv_data = NULL\<rparr>, md_cmp = Some Cmp_memn, md_dcmp = None\<rparr>\<rparr>,
     w_txns := (\<lambda>_. None)(0 \<mapsto> demo_put_txn)\<rparr>"

definition demo_put_items :: "u8 list list" where
  "demo_put_items = map snd (demo_left_nodes @ demo_put_nodes)"

definition demo_put_key :: MDB_val where
  "demo_put_key = \<lparr>mv_size = 2, mv_data = Ptr (Heap 6) 0\<rparr>"

definition demo_put_data :: MDB_val where
  "demo_put_data = \<lparr>mv_size = 1, mv_data = Ptr (Heap 6) 2\<rparr>"

lemmas demo_put_simps = page_rep_def page_is_def mp_flags_def mp_lower_def mp_upper_def mp_ptrs_def ldn_def img_size_def Let_def
  padd_def valid_def load_def demo_put_mem_def EVEN_def F_ISSET_def

lemma demo_put_left: "leaf_rep demo_put_mem 64 (Ptr (Heap 4) 0) demo_left_nodes"
  by (auto simp: leaf_rep_def demo_put_simps demo_left_nodes_def keys_in_def node_key_def less_Suc_eq)

lemma demo_put_right: "leaf_rep demo_put_mem 64 (Ptr (Heap 5) 0) demo_put_nodes"
  by (auto simp: leaf_rep_def demo_put_simps demo_put_nodes_def keys_in_def node_key_def less_Suc_eq)

lemma demo_put_root: "branch_rep demo_put_mem 64 (Ptr (Heap 3) 0) demo_branch_nodes [map snd demo_left_nodes, map snd demo_put_nodes]"
  by (auto simp: branch_rep_def demo_put_simps demo_branch_nodes_def demo_left_nodes_def demo_put_nodes_def keys_in_def node_key_def
    less_Suc_eq)

lemma demo_put_world_simps:
  "w_mem demo_put_world = demo_put_mem" "w_txns demo_put_world 0 = Some demo_put_txn" "me_psize (w_env demo_put_world) = 64"
  "me_nodemax (w_env demo_put_world) = 24" "w_next demo_put_world = 7"
  "rd (me_dbxs (w_env demo_put_world)) (Suc 0) =
    Some \<lparr>md_name = \<lparr>mv_size = 0, mv_data = NULL\<rparr>, md_cmp = Some Cmp_memn, md_dcmp = None\<rparr>"
  by (simp_all add: demo_put_world_def demo_env_def rd_def)

lemma demo_put_txn_simps:
  "mt_numdbs demo_put_txn = 2" "mt_flags demo_put_txn = 0" "mt_cursors demo_put_txn = Some [[], []]" "mt_parent demo_put_txn = None"
  "mt_dirty_room demo_put_txn = 100"
  "rd (mt_dbflags demo_put_txn) (Suc 0) = Some (DB_VALID OR DB_USRVALID)"
  "rd (mt_dbs demo_put_txn) (Suc 0) = Some (blank_db\<lparr>md_depth := 2, md_branch_pages := 1, md_leaf_pages := 2, md_entries := 3, md_root := 2\<rparr>)"
  by (simp_all add: demo_put_txn_def demo_txn_def rd_def)

lemma demo_put_pages:
  "db_pages demo_put_world 0 2 = Some (Ptr (Heap 3) 0)" "db_pages demo_put_world 0 3 = Some (Ptr (Heap 4) 0)"
  "db_pages demo_put_world 0 4 = Some (Ptr (Heap 5) 0)"
proof -
  have d: "mt_dirty_list demo_put_txn = [\<lparr>mid = 3, mptr = NULL\<rparr>, \<lparr>mid = 2, mptr = Ptr (Heap 3) 0\<rparr>, \<lparr>mid = 3, mptr = Ptr (Heap 4) 0\<rparr>,
       \<lparr>mid = 4, mptr = Ptr (Heap 5) 0\<rparr>]" "mt_spill_pgs demo_put_txn = None"
    by (simp_all add: demo_put_txn_def demo_txn_def)
  have f: "mdb_mid2l_search (mt_dirty_list demo_put_txn) 2 = Some 1" "mdb_mid2l_search (mt_dirty_list demo_put_txn) 3 = Some 2"
    "mdb_mid2l_search (mt_dirty_list demo_put_txn) 4 = Some 3"
    by (simp_all add: d mdb_mid2l_search_def bsearch_loop.simps rd_def u32_def CMP_def Let_def)
  have "page_get_dirty demo_put_world (Suc n) 0 2 1 = Some (Inl (Ptr (Heap 3) 0), 1)"
    "page_get_dirty demo_put_world (Suc n) 0 3 1 = Some (Inl (Ptr (Heap 4) 0), 1)"
    "page_get_dirty demo_put_world (Suc n) 0 4 1 = Some (Inl (Ptr (Heap 5) 0), 1)" for n
    by (simp_all add: demo_put_world_simps f [unfolded d(1)] d rd_def Let_def)
  note g = this [of 999]
  have r: "\<not> is_ro (mt_flags demo_put_txn)" by (simp add: demo_put_txn_simps is_ro_def any_set_def)
  show "db_pages demo_put_world 0 2 = Some (Ptr (Heap 3) 0)" "db_pages demo_put_world 0 3 = Some (Ptr (Heap 4) 0)"
    "db_pages demo_put_world 0 4 = Some (Ptr (Heap 5) 0)"
    using g r by (simp_all add: db_pages_def page_addr_def demo_put_world_simps del: page_get_dirty.simps)
qed

lemma demo_put_kids: "\<forall>i<length demo_branch_nodes. \<exists>q. db_pages demo_put_world 0 (node_pgno (snd (demo_branch_nodes ! i))) = Some q \<and>
    tree_at demo_put_mem (db_pages demo_put_world 0) 64 0 q ([map snd demo_left_nodes, map snd demo_put_nodes] ! i)"
  using tree_at.leaf [OF demo_put_left] tree_at.leaf [OF demo_put_right]
  by (auto simp: demo_branch_nodes_def demo_put_pages node_pgno_def less_Suc_eq)

lemma demo_put_holds: "db_holds demo_put_world 0 1 demo_put_items"
proof -
  have "demo_put_items \<noteq> []" by (simp add: demo_put_items_def demo_left_nodes_def)
  moreover have "tree_at demo_put_mem (db_pages demo_put_world 0) 64 (Suc 0) (Ptr (Heap 3) 0) demo_put_items"
    using tree_at.branch [OF demo_put_root demo_put_kids] by (simp add: demo_put_items_def)
  then have "\<exists>D p. D < CURSOR_STACK \<and> db_pages demo_put_world 0 2 = Some p \<and>
      tree_at demo_put_mem (db_pages demo_put_world 0) 64 D p demo_put_items"
    by (intro exI [of _ "Suc 0"] exI [of _ "Ptr (Heap 3) 0"]) (simp add: demo_put_pages)
  ultimately show ?thesis
    by (simp add: db_holds_def demo_put_world_simps demo_put_txn_simps any_set_def blank_db_def)
qed

lemma demo_put_inline: "inline_items demo_put_items"
  by (simp add: inline_items_def demo_put_items_def demo_left_nodes_def demo_put_nodes_def node_flags_def node_dofs_def node_dsz_def)

lemma demo_put_table: "table demo_put_mem (db_pages demo_put_world 0) demo_put_items = [([1, 2], [7, 8]), ([3, 4], [9, 9]), ([5, 6], [1, 1])]"
  by (simp add: table_def demo_put_items_def demo_left_nodes_def demo_put_nodes_def item_value_def node_flags_def node_dofs_def
    node_dsz_def F_ISSET_def node_key_def)

text \<open>The three positions of that tree.\<close>

lemma demo_put_node:
  assumes "db_node demo_put_world 0 1 stk e"
  shows "(fst (last stk), way stk) \<in> {(Ptr (Heap 3) 0, []), (Ptr (Heap 4) 0, [0]), (Ptr (Heap 5) 0, [1])} \<and> (e = 0 \<longrightarrow> fst (last stk) \<noteq> Ptr (Heap 3) 0)"
proof -
  obtain D pre its post where n: "at_node demo_put_mem (db_pages demo_put_world 0) 64 D (Ptr (Heap 3) 0) stk e pre its post"
    using assms by (auto simp: db_node_def demo_put_world_simps demo_put_txn_simps demo_put_pages blank_db_def)
  have leaf: "IS_BRANCH demo_put_mem (Ptr (Heap 4) 0) = Some False" "IS_BRANCH demo_put_mem (Ptr (Heap 5) 0) = Some False"
    using leaf_repD(1) [OF demo_put_left] leaf_repD(1) [OF demo_put_right] by auto
  have "(fst (last stk), way stk) \<in> {(Ptr (Heap 3) 0, []), (Ptr (Heap 4) 0, [0]), (Ptr (Heap 5) 0, [1])}"
    using n
  proof (induction rule: at_node.induct)
    case (down stk b i e pre cs post L q k)
    have b: "b = Ptr (Heap 3) 0" "stk = []"
      using down.IH branch_repD(1) [OF down.hyps(2)] leaf by (auto simp: butlast_append)
    have "L = demo_branch_nodes" using branch_rep_unique [OF down.hyps(2)] demo_put_root b(1) by blast
    then have "i = 0 \<and> q = Ptr (Heap 4) 0 \<or> i = 1 \<and> q = Ptr (Heap 5) 0"
      using down.hyps(4,5) demo_put_pages by (auto simp: demo_branch_nodes_def node_pgno_def less_Suc_eq)
    then show ?case by (auto simp: b)
  qed simp
  moreover have "fst (last stk) \<noteq> Ptr (Heap 3) 0" if "e = 0"
    using at_node_tree [OF n] branch_repD(1) [OF demo_put_root] that leaf_repD(1) by (auto elim!: tree_at_leafE)
  ultimately show ?thesis by blast
qed

lemma demo_put_bytes:
  "val_bytes demo_put_mem demo_put_key = Some [4, 1]" "mv_size demo_put_key = 2"
  "val_bytes demo_put_mem demo_put_data = Some [9]" "mv_size demo_put_data = 1"
  "p_blk (mv_data demo_put_key) = Heap 6" "p_blk (mv_data demo_put_data) = Heap 6"
  by (simp_all add: demo_put_key_def demo_put_data_def val_bytes_def demo_put_mem_def load_def)

lemma demo_put_ready: "pages_ready demo_put_world 0 1 demo_put_key demo_put_data [4, 1]"
proof -
  have d: "dirty_page demo_put_mem (Ptr (Heap 3) 0)" "dirty_page demo_put_mem (Ptr (Heap 4) 0)" "dirty_page demo_put_mem (Ptr (Heap 5) 0)"
    by (simp_all add: dirty_page_def demo_put_simps)
  have a: "apart (Ptr (Heap a) 0) 64 q k" if "p_blk q \<noteq> Heap a" for a q k using that by (simp add: apart_blk)
  have s: "SIZELEFT demo_put_mem (Ptr (Heap 4) 0) = Some 20" "SIZELEFT demo_put_mem (Ptr (Heap 5) 0) = Some 34"
    by (simp_all add: SIZELEFT_def demo_put_simps)
  have sz: "mdb_leaf_size (w_env demo_put_world) demo_put_key demo_put_data = 14"
    by (simp add: mdb_leaf_size_def LEAFSIZE_def demo_put_bytes demo_put_world_simps EVEN_def)
  have "dirty_page demo_put_mem (fst (last stk)) \<and> apart (fst (last stk)) 64 (mv_data demo_put_key) k \<and>
      apart (fst (last stk)) 64 (mv_data demo_put_data) k'" if "db_node demo_put_world 0 1 stk e" for stk e k k'
    using demo_put_node [OF that] d a demo_put_bytes by auto
  moreover have "apart (fst (last stk)) 64 (fst (last stk')) 64"
    if "db_node demo_put_world 0 1 stk e" "db_node demo_put_world 0 1 stk' e'" "way stk \<noteq> way stk'" for stk e stk' e'
    using demo_put_node [OF that(1)] demo_put_node [OF that(2)] that(3) by (auto intro!: a)
  moreover have "\<exists>left. SIZELEFT demo_put_mem (fst (last stk)) = Some left \<and> mdb_leaf_size (w_env demo_put_world) demo_put_key demo_put_data \<le> left"
    if "db_node demo_put_world 0 1 stk 0" for stk
    using demo_put_node [OF that] s by (auto simp: sz)
  ultimately show ?thesis unfolding pages_ready_def pages_own_def Let_def demo_put_world_simps by blast
qed

lemma demo_put_txn_ready: "txn_ready demo_put_world 0 1"
  by (simp add: txn_ready_def demo_put_world_simps demo_put_txn_simps any_set_def tracked_def blank_db_def)

lemma demo_put_heap: "heap_fresh demo_put_world"
  by (simp add: heap_fresh_def demo_put_world_simps demo_put_mem_def)

lemma demo_put_nonempty: "demo_put_items \<noteq> []"
  by (simp add: demo_put_items_def demo_left_nodes_def)

lemma demo_put_sizes: "LEAFSIZE demo_put_key demo_put_data \<le> me_nodemax (w_env demo_put_world)"
  by (simp add: LEAFSIZE_def demo_put_bytes demo_put_world_simps)


text \<open>A key of that tree, whose leaf stays full enough without it.\<close>

definition demo_del_key :: MDB_val where
  "demo_del_key = \<lparr>mv_size = 2, mv_data = Ptr (Heap 6) 3\<rparr>"

lemma demo_del_bytes: "val_bytes demo_put_mem demo_del_key = Some [3, 4]" "mv_size demo_del_key = 2"
  by (simp_all add: demo_del_key_def val_bytes_def demo_put_mem_def load_def)

lemma demo_put_own: "pages_own demo_put_world 0 1"
  using demo_put_ready by (simp add: pages_ready_def Let_def)

lemma demo_leaf_stays: "leaf_stays demo_put_world 0 1 [3, 4]"
proof -
  have s: "SIZELEFT demo_put_mem (Ptr (Heap 4) 0) = Some 20" by (simp add: SIZELEFT_def demo_put_simps)
  have ok: "2 \<le> length its \<and> (\<exists>left. SIZELEFT demo_put_mem (fst (last stk)) = Some left \<and>
      int FILL_THRESHOLD \<le> 1000 * (int 64 - int PAGEHDRSZ - int (left + length bs + 2)) div (int 64 - int PAGEHDRSZ))"
    if n: "at_node demo_put_mem (db_pages demo_put_world 0) 64 D (Ptr (Heap 3) 0) stk 0 pre its post" and bs: "bs \<in> set its" "node_key bs = [3, 4]"
    for D stk pre its post bs
  proof -
    have "db_node demo_put_world 0 1 stk 0"
      using n by (auto simp: db_node_def demo_put_world_simps demo_put_txn_simps demo_put_pages blank_db_def)
    then have pg: "fst (last stk) = Ptr (Heap 4) 0 \<or> fst (last stk) = Ptr (Heap 5) 0" using demo_put_node by fastforce
    obtain L where L: "leaf_rep demo_put_mem 64 (fst (last stk)) L" "its = map snd L"
      using at_node_tree [OF n] by (auto elim: tree_at_leafE)
    have u: "L = M" if "leaf_rep demo_put_mem 64 (fst (last stk)) M" for M
      using L(1) that page_rep_unique by (auto simp: leaf_rep_def)
    show ?thesis
      using pg u L(2) bs s demo_put_left demo_put_right
      by (auto simp: demo_left_nodes_def demo_put_nodes_def node_key_def)
  qed
  then show ?thesis
    unfolding leaf_stays_def Let_def demo_put_world_simps by (auto simp: demo_put_txn_simps demo_put_pages blank_db_def)
qed


section \<open>Properties\<close>



text \<open>
  C2: \<^verbatim>\<open>mdb_del\<close> refines removal from a finite map. Take a write transaction, not nested, on a database without sorted duplicates whose pages are a search tree of any depth with all items in their nodes, all its pages dirty already and in disjoint memory, and no other cursor on it; when the leaf of the key has the key, let it hold another item too and be the root or stay filled to FILL_THRESHOLD without the item, so that nothing is merged. Then \<^verbatim>\<open>mdb_del\<close> of a key of 1 to 511 bytes always returns; afterwards the pages are a search tree again, and its table is the old one without the key. When the key is there the call succeeds and md_entries goes down by one; when it is not, it returns \<^verbatim>\<open>MDB_NOTFOUND\<close> and md_entries stays.
\<close>

theorem del_updates_table:
  assumes "db_holds w t dbi items" "items \<noteq> []" "inline_items items"
    and "txn_ready w t dbi" "pages_own w t dbi" "leaf_stays w t dbi kb"
    and "val_bytes (w_mem w) key = Some kb" "0 < mv_size key" "mv_size key \<le> ENV_MAXKEY"
  shows "\<exists>rc w' items'. mdb_del w (Some t) dbi (Some key) data = Some (rc, w') \<and> db_holds w' t dbi items' \<and> items' \<noteq> [] \<and>
    inline_items items' \<and> del_effect w t dbi items kb rc w' items'"
  using assms by (rule mdb_del_update)

theorem del_updates_table_witness:
  "\<exists>w' items'. mdb_del demo_put_world (Some 0) 1 (Some demo_del_key) None = Some (MDB_SUCCESS, w') \<and> db_holds w' 0 1 items' \<and>
    map_of (table (w_mem w') (db_pages w' 0) items') [3, 4] = None \<and>
    map_of (table (w_mem w') (db_pages w' 0) items') [1, 2] = Some [7, 8]"
proof -
  obtain rc w' items' where "mdb_del demo_put_world (Some 0) 1 (Some demo_del_key) None = Some (rc, w')"
    "db_holds w' 0 1 items'" "del_effect demo_put_world 0 1 demo_put_items [3, 4] rc w' items'"
    using del_updates_table [OF demo_put_holds demo_put_nonempty demo_put_inline demo_put_txn_ready demo_put_own demo_leaf_stays, of demo_del_key None]
      demo_del_bytes by (auto simp: demo_put_world_simps)
  then show ?thesis by (auto simp: del_effect_def Let_def demo_put_world_simps demo_put_table)
qed

text \<open>
  C3: Reading after writing: under the same conditions, after \<^verbatim>\<open>mdb_put\<close> has stored the data under the key, \<^verbatim>\<open>mdb_get\<close> finds exactly that data under the key, and under every other key what was there before: the stored value, or \<^verbatim>\<open>MDB_NOTFOUND\<close>.
\<close>

theorem get_after_put:
  assumes "db_holds w t dbi items" "items \<noteq> []" "inline_items items"
    and "txn_ready w t dbi" "pages_ready w t dbi key data kb" "heap_fresh w" and "plain_put flags"
    and "val_bytes (w_mem w) key = Some kb" "0 < mv_size key" "mv_size key \<le> ENV_MAXKEY"
    and "val_bytes (w_mem w) data = Some vb" "LEAFSIZE key data \<le> me_nodemax (w_env w)"
    and "\<not> any_set flags MDB_NOOVERWRITE \<or> map_of (table (w_mem w) (db_pages w t) items) kb = None"
  shows "\<exists>w'. mdb_put w (Some t) dbi (Some key) (Some data) flags = Some (MDB_SUCCESS, Some data, w') \<and>
    val_bytes (w_mem w') key = Some kb \<and>
    (\<forall>k b d0. val_bytes (w_mem w') k = Some b \<longrightarrow> length b < 2 ^ 32 \<longrightarrow> mv_size k \<noteq> 0 \<longrightarrow>
      (\<exists>rc d w2. mdb_get touch w' (Some t) dbi (Some k) (Some d0) = Some (rc, Some d, w2) \<and>
        (case ((map_of (table (w_mem w) (db_pages w t) items))(kb \<mapsto> vb)) b of
           None \<Rightarrow> rc = MDB_NOTFOUND \<and> d = d0
         | Some v \<Rightarrow> rc = MDB_SUCCESS \<and> val_bytes (w_mem w') d = Some v)))"
proof -
  obtain rc d w' items' where P: "mdb_put w (Some t) dbi (Some key) (Some data) flags = Some (rc, Some d, w')"
    "db_holds w' t dbi items'" "inline_items items'" "val_bytes (w_mem w') key = Some kb" "put_effect w t dbi items data kb vb flags rc d w' items'"
    using mdb_put_update [OF assms(1-12)] by blast
  have E: "rc = MDB_SUCCESS" "d = data"
    "map_of (table (w_mem w') (db_pages w' t) items') = (map_of (table (w_mem w) (db_pages w t) items))(kb \<mapsto> vb)"
    using P(5) assms(13) by (auto simp: put_effect_def Let_def split: option.splits if_splits)
  note G = mdb_get_lookup [OF P(2) inline_plain [OF P(3)], unfolded E(3)]
  show ?thesis using P(1,4) G unfolding E(1,2) by blast
qed

theorem get_after_put_witness:
  "\<exists>w' d w2. mdb_put demo_put_world (Some 0) 1 (Some demo_put_key) (Some demo_put_data) MDB_NOOVERWRITE = Some (MDB_SUCCESS, Some demo_put_data, w') \<and>
    mdb_get (\<lambda>w c. None) w' (Some 0) 1 (Some demo_put_key) (Some demo_key) = Some (MDB_SUCCESS, Some d, w2) \<and> val_bytes (w_mem w') d = Some [9]"
proof -
  have f: "plain_put MDB_NOOVERWRITE" by (simp add: plain_put_def)
  have n: "\<not> any_set MDB_NOOVERWRITE MDB_NOOVERWRITE \<or> map_of (table (w_mem demo_put_world) (db_pages demo_put_world 0) demo_put_items) [4, 1] = None"
    by (simp add: demo_put_world_simps demo_put_table)
  show ?thesis
    using get_after_put [OF demo_put_holds _ demo_put_inline demo_put_txn_ready demo_put_ready demo_put_heap f _ _ _ _ _ n, of "[9]" "\<lambda>w c. None"]
      demo_put_nonempty demo_put_bytes demo_put_sizes by (fastforce simp: demo_put_world_simps)
qed

text \<open>
  C4: Reading after a deletion: under the same conditions, after \<^verbatim>\<open>mdb_del\<close> of a key that is there, \<^verbatim>\<open>mdb_get\<close> answers \<^verbatim>\<open>MDB_NOTFOUND\<close> for the key and leaves the data argument alone, and finds under every other key what was stored before.
\<close>

theorem get_after_del:
  assumes "db_holds w t dbi items" "items \<noteq> []" "inline_items items"
    and "txn_ready w t dbi" "pages_own w t dbi" "leaf_stays w t dbi kb"
    and "val_bytes (w_mem w) key = Some kb" "0 < mv_size key" "mv_size key \<le> ENV_MAXKEY"
    and "map_of (table (w_mem w) (db_pages w t) items) kb \<noteq> None"
  shows "\<exists>w'. mdb_del w (Some t) dbi (Some key) data = Some (MDB_SUCCESS, w') \<and>
    (\<forall>k b d0. val_bytes (w_mem w') k = Some b \<longrightarrow> length b < 2 ^ 32 \<longrightarrow> mv_size k \<noteq> 0 \<longrightarrow>
      (\<exists>rc d w2. mdb_get touch w' (Some t) dbi (Some k) (Some d0) = Some (rc, Some d, w2) \<and>
        (case ((map_of (table (w_mem w) (db_pages w t) items))(kb := None)) b of
           None \<Rightarrow> rc = MDB_NOTFOUND \<and> d = d0
         | Some v \<Rightarrow> rc = MDB_SUCCESS \<and> val_bytes (w_mem w') d = Some v)))"
proof -
  obtain rc w' items' where P: "mdb_del w (Some t) dbi (Some key) data = Some (rc, w')" "db_holds w' t dbi items'" "inline_items items'"
    "del_effect w t dbi items kb rc w' items'"
    using mdb_del_update [OF assms(1-9)] by blast
  have E: "rc = MDB_SUCCESS" "map_of (table (w_mem w') (db_pages w' t) items') = (map_of (table (w_mem w) (db_pages w t) items))(kb := None)"
    using P(4) assms(10) by (auto simp: del_effect_def Let_def)
  note G = mdb_get_lookup [OF P(2) inline_plain [OF P(3)], unfolded E(2)]
  show ?thesis using P(1) G unfolding E(1) by blast
qed

theorem get_after_del_witness:
  "\<exists>w'. mdb_del demo_put_world (Some 0) 1 (Some demo_del_key) None = Some (MDB_SUCCESS, w') \<and>
    (\<forall>k d0. val_bytes (w_mem w') k = Some [3, 4] \<longrightarrow> mv_size k \<noteq> 0 \<longrightarrow>
      (\<exists>w2. mdb_get (\<lambda>w c. None) w' (Some 0) 1 (Some k) (Some d0) = Some (MDB_NOTFOUND, Some d0, w2)))"
proof -
  have n: "map_of (table (w_mem demo_put_world) (db_pages demo_put_world 0) demo_put_items) [3, 4] \<noteq> None"
    by (simp add: demo_put_world_simps demo_put_table)
  show ?thesis
    using get_after_del [OF demo_put_holds demo_put_nonempty demo_put_inline demo_put_txn_ready demo_put_own demo_leaf_stays _ _ _ n,
        of demo_del_key None "\<lambda>w c. None"] demo_del_bytes by (fastforce simp: demo_put_world_simps)
qed

text \<open>
  C5: \<^verbatim>\<open>mdb_get\<close> in a database whose pages hold a search tree of any depth always returns, and its answer is the lookup of the key in the table of the items: the stored value, inline or on overflow pages, when the key is there, \<^verbatim>\<open>MDB_NOTFOUND\<close> with the data argument left alone when it is not. Pages, transactions and the environment stay as they were.
\<close>

theorem get_looks_up:
  assumes "db_holds w t dbi items" "plain_items (w_mem w) (db_pages w t) items"
    and "val_bytes (w_mem w) key = Some kb" "length kb < 2 ^ 32" "mv_size key \<noteq> 0"
  shows "\<exists>rc d w'. mdb_get touch w (Some t) dbi (Some key) (Some d0) = Some (rc, Some d, w') \<and>
      w_mem w' = w_mem w \<and> w_txns w' = w_txns w \<and> w_env w' = w_env w \<and>
    (case map_of (table (w_mem w) (db_pages w t) items) kb of
       None \<Rightarrow> rc = MDB_NOTFOUND \<and> d = d0
     | Some v \<Rightarrow> rc = MDB_SUCCESS \<and> val_bytes (w_mem w) d = Some v)"
  using assms by (rule mdb_get_lookup)

theorem get_looks_up_witness:
  "\<exists>d w'. mdb_get (\<lambda>w c. None) demo_tree_world (Some 0) 1 (Some demo_tree_key) (Some demo_key) = Some (MDB_SUCCESS, Some d, w') \<and>
    val_bytes (w_mem demo_tree_world) d = Some (replicate 20 1)"
  using get_looks_up [OF demo_db_holds, of demo_tree_key "[5, 6]" "\<lambda>w c. None" demo_key] demo_plain demo_tree_key
  by (auto simp: demo_tree_world_simps demo_table)

text \<open>
  C6: A client that opens a cursor in a read-only transaction and calls \<^verbatim>\<open>mdb_cursor_get\<close> with \<^verbatim>\<open>MDB_FIRST\<close> and then \<^verbatim>\<open>MDB_NEXT\<close> until a call fails gets every item of the tree, once, in the order of the keys, with its value, and then \<^verbatim>\<open>MDB_NOTFOUND\<close>: the loop ends after one call more than there are items.
\<close>

theorem scan_lists_table:
  assumes "db_holds w t dbi items" "plain_items (w_mem w) (db_pages w t) items"
    and "w_txns w t = Some x" "F_ISSET (mt_flags x) MDB_TXN_RDONLY" "mt_cursors x = None"
    and "w_malloc w (w_calls w) \<noteq> None" "length items < m"
  shows "\<exists>c w1 w2. mdb_cursor_open touch w (Some t) dbi = Some (MDB_SUCCESS, Some c, w1) \<and>
    scan m touch w1 c k0 d0 MDB_FIRST = Some (table (w_mem w) (db_pages w t) items, MDB_NOTFOUND, w2)"
proof -
  obtain c w1 r where opened: "mdb_cursor_open touch w (Some t) dbi = Some (MDB_SUCCESS, Some c, put_cur w1 c r)"
    "w_mem w1 = w_mem w" "fresh_on w1 r items" "cur_pages w1 r = db_pages w t"
    using cursor_open_fresh [OF assms(1,3,5,4,6)] by blast
  then show ?thesis using scan_table [OF opened(3), of m touch c k0 d0] assms(2,7) by auto
qed

theorem scan_lists_table_witness:
  "\<exists>c w1 w2. mdb_cursor_open (\<lambda>w c. None) demo_tree_world (Some 0) 1 = Some (MDB_SUCCESS, Some c, w1) \<and>
    scan 4 (\<lambda>w c. None) w1 c demo_key demo_key MDB_FIRST =
      Some ([([1, 2], [7, 8]), ([3, 4], [9, 9]), ([5, 6], replicate 20 1)], MDB_NOTFOUND, w2)"
  using scan_lists_table [OF demo_db_holds, of demo_tree_txn 4 "\<lambda>w c. None" demo_key demo_key] demo_plain
  by (auto simp: demo_tree_world_simps demo_tree_txn_simps demo_table demo_items_length F_ISSET_def)

text \<open>
  A library in memory: the next handle, the contents of the databases, and how many writes of a
  batch are still going to fail if the library is a flaky one.
\<close>

type_synonym demo_store = "nat \<times> (nat \<Rightarrow> string \<rightharpoonup> string) \<times> nat"

definition demo_kv :: "bool \<Rightarrow> (demo_store, nat, batch_op list) kv_lib" where
  "demo_kv flaky = \<lparr>
     lib_open = \<lambda>(n, c, f) p. (True, n, (n + 1, c, f)),
     lib_close = \<lambda>s d. s,
     lib_get = \<lambda>(n, c, f) d k. (c d k \<noteq> None, c d k),
     lib_put = \<lambda>(n, c, f) d k v. (True, (n, c(d := (c d)(k \<mapsto> v)), f)),
     lib_delete = \<lambda>(n, c, f) d k. (True, (n, c(d := (c d)(k := None)), f)),
     lib_write = \<lambda>(n, c, f) d b. if flaky \<and> f > 0 then (False, (n, c, f - 1)) else (True, (n, c(d := apply_ops b (c d)), f)),
     batch_new = [], batch_put = \<lambda>b k v. b @ [BPut k v], batch_delete = \<lambda>b k. b @ [BDel k], batch_clear = \<lambda>_. []\<rparr>"

definition demo_level :: "(nat, batch_op list) LevelDB" where
  "demo_level = \<lparr>ldb_name = [], ldb_dbs = []\<rparr>"

lemma demo_kv_ok: "kv_ok (demo_kv flaky) (\<lambda>(n, c, f). c) (\<lambda>(n, c, f). {..<n}) (\<lambda>b. b)"
  by (auto simp: kv_ok_def demo_kv_def split: if_splits)

lemma demo_kv_reliable: "kv_reliable (demo_kv False)"
  by (simp add: kv_reliable_def demo_kv_def)

text \<open>
  C7: The stores over LevelDB and RocksDB spread the keys over 16 databases by a hash and queue batched updates per database. When the library keeps its promises and no call of it fails, every sequence of get, put, putBatch, del, delBatch and applyBatch gives exactly the answers of one map with one queue of pending updates, and never reaches outside the vector of databases.
\<close>

theorem store_refines_map:
  assumes "kv_ok lib cont hs ops" "kv_reliable lib" "ldb_dbs ldb = []" "sdb \<in> {LevelDB_StateDB lib, RocksDB_StateDB lib}"
  shows "\<exists>st m. db_open sdb (s, ldb) name = (True, st) \<and> db_opened sdb st \<and>
    (\<forall>cmds. \<exists>st'. db_run sdb cmds st = Some (fst (spec_run cmds (m, [])), st'))"
proof -
  have sdb: "sdb = LevelDB_StateDB lib" using assms(4) by (auto simp: RocksDB_StateDB_eq)
  have "level_closed lib cont hs ops (s, ldb)" using assms(1-3) by (simp add: level_closed_def)
  then obtain st m where st: "db_open (LevelDB_StateDB lib) (s, ldb) name = (True, st)" "db_opened (LevelDB_StateDB lib) st"
    "level_holds lib cont hs ops st m []" using level.opens by blast
  have "\<exists>st'. db_run (LevelDB_StateDB lib) cmds st = Some (fst (spec_run cmds (m, [])), st')" for cmds
    using level_run [OF st(3), of cmds] by (metis prod.collapse)
  then show ?thesis using st(1,2) unfolding sdb by blast
qed

theorem store_refines_map_witness:
  "\<exists>st m st'. db_open (RocksDB_StateDB (demo_kv False)) ((0, \<lambda>_. Map.empty, 0), demo_level) ''db'' = (True, st) \<and>
    db_run (RocksDB_StateDB (demo_kv False)) [Put ''a'' ''1'', PutBatch ''a'' ''2'', Get ''a'', Apply, Get ''a''] st =
      Some ([(True, None), (True, None), (True, Some ''1''), (True, None), (True, Some ''2'')], st')"
proof -
  obtain st m where st: "db_open (RocksDB_StateDB (demo_kv False)) ((0, \<lambda>_. Map.empty, 0), demo_level) ''db'' = (True, st)"
    "\<forall>cmds. \<exists>st'. db_run (RocksDB_StateDB (demo_kv False)) cmds st = Some (fst (spec_run cmds (m, [])), st')"
    using store_refines_map [OF demo_kv_ok demo_kv_reliable, where ldb = demo_level and sdb = "RocksDB_StateDB (demo_kv False)"
      and s = "(0, \<lambda>_. Map.empty, 0)" and name = "''db''"] by (simp add: demo_level_def) blast
  then show ?thesis using st(2) [rule_format, of "[Put ''a'' ''1'', PutBatch ''a'' ''2'', Get ''a'', Apply, Get ''a'']"] by auto
qed

text \<open>Two bytes to hand over.\<close>

definition demo_copy :: copy_sys where
  "demo_copy = (let s = copy_init (demo_world\<lparr>w_mem := (\<lambda>_. None)(Heap 0 \<mapsto> [7, 8])\<rparr>) (Ptr (Heap 0) 0) in
     copy_do s (\<lambda>my. my\<lparr>mc_wlen := (mc_wlen my)(False := 2)\<rparr>))"







text \<open>An environment that has just been created, in a process with one open file.\<close>

definition demo_io :: env_io where
  "demo_io = \<lparr>me_fd = None, me_lfd = None, me_mfd = None, me_map = None, me_path = None, me_os_psize = 512, os_open = [(0, ''log'')],
     os_next = 3, os_maps = 0, os_keys = 0, os_errno = 0, lf_size = 0, lf_magic = 0, lf_format = 0,
     lf_info = \<lparr>mti_txnid = 0, mti_numreaders = 0, mti_readers = []\<rparr>\<rparr>"

definition demo_closed :: world where
  "demo_closed = demo_world\<lparr>w_env := zero_env\<lparr>me_maxreaders := 126, me_maxdbs := 2, me_numdbs := 2\<rparr>, w_malloc := (\<lambda>_. Some (\<lambda>_. 0))\<rparr>"

lemma demo_fresh: "fresh_env demo_io demo_closed"
  by (simp add: fresh_env_def demo_io_def demo_closed_def zero_env_def any_set_def)

text \<open>
  C10: \<^verbatim>\<open>mdb_env_open\<close> on an environment that is not open always returns, whatever the system calls answer. When it fails, every file descriptor, mapping and thread key it acquired on the way has been released. When it succeeds, the data file is open and mapped, and a following \<^verbatim>\<open>mdb_env_close\<close> releases everything, so that nothing leaks.
\<close>

theorem env_open_releases:
  assumes "fresh_env io w"
  shows "\<exists>rc io' w'. mdb_env_open io w pth flags pid ext release = Some (rc, io', w') \<and>
    (if rc = 0 then me_fd io' \<noteq> None \<and> me_map io' \<noteq> None \<and>
       (\<exists>io'' w''. mdb_env_close io' w' pid' = Some (io'', w'') \<and> os_open io'' = os_open io \<and> os_maps io'' = os_maps io \<and> os_keys io'' = os_keys io)
     else os_open io' = os_open io \<and> os_maps io' = os_maps io \<and> os_keys io' = os_keys io)"
proof -
  obtain rc io' w' where r: "mdb_env_open io w pth flags pid ext release = Some (rc, io', w')"
    "if rc = 0 then being_opened io io' w' \<and> me_fd io' \<noteq> None \<and> me_map io' \<noteq> None else released io io'"
    using env_open_holds [OF assms, of pth flags pid ext release] by (auto split: if_splits)
  then show ?thesis using env_close_releases [of io io' w' pid'] by (auto simp: released_def split: if_splits)
qed

theorem env_open_releases_witness:
  "\<exists>rc io' w'. mdb_env_open demo_io demo_closed ''db'' 0 1 False [] = Some (rc, io', w') \<and>
    (rc \<noteq> 0 \<longrightarrow> os_open io' = [(0, ''log'')] \<and> os_maps io' = 0 \<and> os_keys io' = 0)"
proof -
  obtain rc io' w' where "mdb_env_open demo_io demo_closed ''db'' 0 1 False [] = Some (rc, io', w')"
    "rc \<noteq> 0 \<longrightarrow> os_open io' = os_open demo_io \<and> os_maps io' = os_maps demo_io \<and> os_keys io' = os_keys demo_io"
    using env_open_releases [OF demo_fresh, of "''db''" 0 1 False "[]"] by (metis (full_types))
  then show ?thesis by (simp add: demo_io_def)
qed

text \<open>
  C11: \<^verbatim>\<open>mdb_env_write_meta\<close> always completes and writes only the meta page that is not current: when it succeeds, the page picked from then on is the one of the committing transaction, with its two root records, its last page and its identifier; the other page keeps the previous snapshot; when it fails, the environment is marked as broken.
\<close>

theorem commit_publishes_snapshot:
  assumes "w_txns w t = Some x" "2 \<le> length (mt_dbs x)" "PAGEHDRSZ + META_SIZE \<le> me_psize (w_env w)"
    and "tg = unat (mt_txnid x AND 1)" "get_meta w tg = Some old" "get_meta w (1 - tg) = Some oth"
    and "mm_txnid oth < mt_txnid x" "\<not> any_set (me_flags (w_env w)) MDB_PREVSNAPSHOT"
  shows "\<exists>rc w'. mdb_env_write_meta w t = Some (rc, w') \<and> get_meta w' (1 - tg) = Some oth \<and>
    (rc = 0 \<longrightarrow> (\<exists>m. picked_meta w' = Some m \<and> mm_txnid m = mt_txnid x \<and> mm_last_pg m = mt_next_pgno x - 1 \<and>
       mm_dbs m = map cut_flags [mt_dbs x ! 0, mt_dbs x ! 1])) \<and>
    (rc \<noteq> 0 \<longrightarrow> me_flags (w_env w') = me_flags (w_env w) OR MDB_FATAL_ERROR)"
proof -
  obtain rc w' where w': "mdb_env_write_meta w t = Some (rc, w')" "get_meta w' (1 - tg) = Some oth"
    "rc = 0 \<Longrightarrow> get_meta w' tg = Some (written_meta (w_env w) x old oth) \<and> me_flags (w_env w') = me_flags (w_env w)"
    "rc \<noteq> 0 \<longrightarrow> me_flags (w_env w') = me_flags (w_env w) OR MDB_FATAL_ERROR"
    using write_meta_outcome [OF assms(1-6)] by blast
  have "picked_meta w' = Some (written_meta (w_env w) x old oth)" if "rc = 0"
    using pick_newer(2) [of w' tg "written_meta (w_env w) x old oth" oth] w'(2) w'(3) [OF that] assms(4,7,8) toggle_less
    by (simp add: written_meta_def new_meta_def Let_def)
  then show ?thesis using w' by (auto simp: written_meta_def new_meta_def Let_def)
qed

theorem commit_publishes_snapshot_witness:
  "\<exists>rc w'. mdb_env_write_meta demo_meta_world 0 = Some (rc, w') \<and> get_meta w' (1 - 1) = Some (demo_meta 8) \<and>
    (rc = 0 \<longrightarrow> (\<exists>m. picked_meta w' = Some m \<and> mm_txnid m = mt_txnid demo_txn \<and> mm_last_pg m = mt_next_pgno demo_txn - 1 \<and>
       mm_dbs m = map cut_flags [mt_dbs demo_txn ! 0, mt_dbs demo_txn ! 1])) \<and>
    (rc \<noteq> 0 \<longrightarrow> me_flags (w_env w') = me_flags (w_env demo_meta_world) OR MDB_FATAL_ERROR)"
  by (rule commit_publishes_snapshot [where old = "demo_meta 7"])
    (use demo_get_meta in \<open>simp_all add: demo_meta_world_def demo_world_def demo_txn_def demo_env_def demo_meta_def any_set_def\<close>)

text \<open>
  C12: When the write of the meta page fails, however many of its bytes reached the file, and the repair write goes through, \<^verbatim>\<open>mdb_env_write_meta\<close> reports the error, marks the environment as broken, and the current snapshot stays the one it was before the commit.
\<close>

theorem failed_commit_keeps_snapshot:
  assumes "w_txns w t = Some x" "2 \<le> length (mt_dbs x)" "PAGEHDRSZ + META_SIZE \<le> me_psize (w_env w)"
    and "tg = unat (mt_txnid x AND 1)" "get_meta w tg = Some old" "get_meta w (1 - tg) = Some oth"
    and "\<not> any_set (mt_flags x OR me_flags (w_env w)) MDB_WRITEMAP"
    and "w_io w (w_ios w) \<noteq> 0" "w_io w (w_ios w + 2) = 0"
    and "mm_txnid old < mm_txnid oth" "\<not> any_set (me_flags (w_env w)) MDB_PREVSNAPSHOT"
  shows "\<exists>rc w'. mdb_env_write_meta w t = Some (rc, w') \<and> rc \<noteq> 0 \<and> picked_meta w = Some oth \<and> picked_meta w' = Some oth \<and>
    me_flags (w_env w') = me_flags (w_env w) OR MDB_FATAL_ERROR"
proof -
  have tg: "1 - tg < 2" "1 - (1 - tg) = tg" using toggle_less [of "mt_txnid x"] assms(4) by auto
  obtain rc w' m where w': "mdb_env_write_meta w t = Some (rc, w')" "rc \<noteq> 0" "get_meta w' (1 - tg) = Some oth"
    "get_meta w' tg = Some m" "mm_txnid m = mm_txnid old" "me_flags (w_env w') = me_flags (w_env w) OR MDB_FATAL_ERROR"
    using write_meta_written_back [OF assms(1-9)] by blast
  have "picked_meta w = Some oth" using pick_newer(2) [of w "1 - tg" oth old] assms(5,6,10,11) tg by simp
  moreover have "picked_meta w' = Some oth"
    using pick_newer(2) [of w' "1 - tg" oth m] w' assms(10,11) tg by (simp add: any_set_or) (simp add: any_set_def)
  ultimately show ?thesis using w' by blast
qed

theorem failed_commit_keeps_snapshot_witness:
  "\<exists>rc w'. mdb_env_write_meta (demo_meta_world\<lparr>w_io := (\<lambda>k. if k = 0 then 5 else 0)\<rparr>) 0 = Some (rc, w') \<and> rc \<noteq> 0 \<and>
    picked_meta (demo_meta_world\<lparr>w_io := (\<lambda>k. if k = 0 then 5 else 0)\<rparr>) = Some (demo_meta 8) \<and>
    picked_meta w' = Some (demo_meta 8) \<and>
    me_flags (w_env w') = me_flags (w_env (demo_meta_world\<lparr>w_io := (\<lambda>k. if k = 0 then 5 else 0)\<rparr>)) OR MDB_FATAL_ERROR"
  by (rule failed_commit_keeps_snapshot [where old = "demo_meta 7" and tg = 1 and x = demo_txn])
    (use demo_get_meta in \<open>simp_all add: get_meta_def me_metas_def demo_meta_world_def demo_world_def demo_txn_def demo_env_def
      demo_meta_def any_set_def\<close>)

text \<open>
  C13: \<^verbatim>\<open>mdb_node_add\<close> on a leaf page with room refines insertion into the list of nodes: the node written at slot i holds exactly the data size, flags, key and data passed (or the 8-byte page number with \<^verbatim>\<open>F_BIGDATA\<close>), every other node keeps its bytes, and nothing outside the page body changes.
\<close>

theorem node_add_leaf_inserts:
  assumes "page_rep m p psz True u L" "i \<le> length L"
    and "ns = EVEN (NODESIZE + mv_size k + data_len fl (mv_size d))" "PAGEHDRSZ + 2 * length L + 2 + ns \<le> u"
    and "val_bytes m k = Some kb" "mv_size k < 2 ^ 16" "apart (padd p 12) (psz - 12) (mv_data k) (mv_size k)"
    and "load m (mv_data d) (data_len fl (mv_size d)) = Some db" "mv_size d < 2 ^ 32"
      "apart (padd p 12) (psz - 12) (mv_data d) (data_len fl (mv_size d))"
    and "\<not> F_ISSET fl MDB_RESERVE"
  shows "\<exists>m' r. node_add_update m p i (Some k) (Some d) pgno fl ns None = Some (m', Some d) \<and>
    upd_only (padd p 12) (psz - 12) m m' \<and>
    page_rep m' p psz True (u - ns) (ins_nth i (u - ns, leaf_node (mv_size d) fl kb @ db @ r) L)"
  using assms by (rule node_add_leaf_rep)

theorem node_add_leaf_inserts_witness:
  "\<exists>m' r. node_add_update demo_mem (Ptr Map 0) 1 (Some demo_key) (Some demo_data) 0 0 14 None = Some (m', Some demo_data) \<and>
    upd_only (padd (Ptr Map 0) 12) 52 demo_mem m' \<and>
    page_rep m' (Ptr Map 0) 64 True 34 (ins_nth 1 (34, leaf_node 3 0 [99, 100] @ [7, 8, 9] @ r) demo_nodes)"
  using node_add_leaf_inserts [of demo_mem "Ptr Map 0" 64 48 demo_nodes 1 14 demo_key 0 demo_data "[99, 100]" "[7, 8, 9]" 0]
    demo_rep by (simp add: demo_simps)

text \<open>
  C14: \<^verbatim>\<open>mdb_node_del\<close> on a page of nodes removes exactly the node at the index: the other nodes keep their bytes and order, those below it move up by its size, and nothing outside the page body changes.
\<close>

theorem node_del_removes:
  assumes "page_rep m p psz leaf u L" "i < length L"
  shows "\<exists>m'. node_del_at m p i ks = Some m' \<and> upd_only (padd p 12) (psz - 12) m m' \<and>
    page_rep m' p psz leaf (u + length (snd (L ! i)))
      (del_nth i (map (\<lambda>(x, bs). (shift_below (fst (L ! i)) (length (snd (L ! i))) x, bs)) L))"
  using node_del_at_rep [OF assms] .

theorem node_del_removes_witness:
  "\<exists>m'. node_del_at demo_mem (Ptr Map 0) 0 0 = Some m' \<and> upd_only (padd (Ptr Map 0) 12) 52 demo_mem m' \<and>
    page_rep m' (Ptr Map 0) 64 True 64 []"
  using node_del_removes [of demo_mem "Ptr Map 0" 64 True 48 demo_nodes 0 0] demo_rep by (simp add: demo_simps del_nth_def)



text \<open>
  C16: With the mutex held, \<^verbatim>\<open>mdb_reader_check0\<close> always completes without leaving its list of process ids or the reader table. It frees only slots of other processes, clearing nothing but the process id, and returns how many it freed; if every process it tests is dead, no slot of another process is left, and if every one is alive, no slot changes.
\<close>

theorem reader_check_safe_and_complete:
  assumes "me_txns (w_env w) = Some ti" "mti_numreaders ti \<le> length (mti_readers ti)" "w_malloc w (w_calls w) \<noteq> None"
  shows "\<exists>ms k w'. mdb_reader_check0 w True = Some (0, Some k, w') \<and> w_mem w' = w_mem w \<and>
    me_txns (w_env w') = Some (ti\<lparr>mti_readers := ms\<rparr>) \<and> length ms = length (mti_readers ti) \<and>
    k = card {j. j < length (mti_readers ti) \<and> mr_pid (mti_readers ti ! j) \<noteq> 0 \<and> mr_pid (ms ! j) = 0} \<and>
    (\<forall>j<length (mti_readers ti). ms ! j = mti_readers ti ! j \<or>
       mr_pid (mti_readers ti ! j) \<notin> {0, me_pid (w_env w)} \<and> ms ! j = (mti_readers ti ! j)\<lparr>mr_pid := 0\<rparr>) \<and>
    ((\<forall>q. w_io w q = 0) \<longrightarrow> (\<forall>j<mti_numreaders ti. mr_pid (ms ! j) = 0 \<or> mr_pid (ms ! j) = me_pid (w_env w))) \<and>
    ((\<forall>q. w_io w q \<noteq> 0) \<longrightarrow> ms = mti_readers ti)"
proof -
  obtain ms k x' where run: "mdb_reader_check0 w True = Some (0, Some k, rd_world (tick w) ti ms x')"
    "clears (me_pid (w_env w)) (mti_readers ti) ms k"
    "(\<forall>q. w_io w q = 0) \<longrightarrow> (\<forall>j<mti_numreaders ti. mr_pid (ms ! j) = 0 \<or> mr_pid (ms ! j) = me_pid (w_env w))"
    "(\<forall>q. w_io w q \<noteq> 0) \<longrightarrow> ms = mti_readers ti"
    using reader_check_locked [OF assms] by blast
  have "w_mem (rd_world (tick w) ti ms x') = w_mem w" by (simp add: rd_world_def tick_def)
  then show ?thesis
    using run clears_frame [OF run(2)] clears_number [OF run(2)]
    by (intro exI [of _ ms] exI [of _ k] exI [of _ "rd_world (tick w) ti ms x'"]) auto
qed

theorem reader_check_safe_and_complete_witness:
  "\<exists>ms k w'. mdb_reader_check0 demo_stale_world True = Some (0, Some k, w') \<and> w_mem w' = w_mem demo_stale_world \<and>
    me_txns (w_env w') = Some (demo_stale\<lparr>mti_readers := ms\<rparr>) \<and> length ms = length (mti_readers demo_stale) \<and>
    k = card {j. j < length (mti_readers demo_stale) \<and> mr_pid (mti_readers demo_stale ! j) \<noteq> 0 \<and> mr_pid (ms ! j) = 0} \<and>
    (\<forall>j<length (mti_readers demo_stale). ms ! j = mti_readers demo_stale ! j \<or>
       mr_pid (mti_readers demo_stale ! j) \<notin> {0, me_pid (w_env demo_stale_world)} \<and>
       ms ! j = (mti_readers demo_stale ! j)\<lparr>mr_pid := 0\<rparr>) \<and>
    ((\<forall>q. w_io demo_stale_world q = 0) \<longrightarrow>
       (\<forall>j<mti_numreaders demo_stale. mr_pid (ms ! j) = 0 \<or> mr_pid (ms ! j) = me_pid (w_env demo_stale_world))) \<and>
    ((\<forall>q. w_io demo_stale_world q \<noteq> 0) \<longrightarrow> ms = mti_readers demo_stale)"
  by (rule reader_check_safe_and_complete) (simp_all add: demo_stale_world_def demo_stale_def demo_world_def demo_env_def)



text \<open>
  C18: put of the store over \<^verbatim>\<open>LMDB\<close> in several threads: the lock keeps the calls of \<^verbatim>\<open>mdb_put\<close> apart in every interleaving, but the key and the value are assigned to shared members before it is taken. There is an interleaving of two calls in which \<^verbatim>\<open>mdb_put\<close> is called twice with the arguments of the second one, the first key is never put, and both calls return what \<^verbatim>\<open>mdb_put\<close> returned.
\<close>

theorem lmdb_put_race:
  "(\<forall>is s' i j. put_run call args is (put_start w k d) = Some s' \<and> in_call (ps_pc s' i) \<and> in_call (ps_pc s' j) \<longrightarrow> i = j) \<and>
    (\<exists>is s'. put_run call args is (put_start w k d) = Some s' \<and>
      (let (r1, w1) = call w (fst (args 1)) (snd (args 1)); (r2, w2) = call w1 (fst (args 1)) (snd (args 1)) in
        ps_store s' = w2 \<and> ps_pc s' 0 = Put_return r1 \<and> ps_pc s' 1 = Put_return r2))"
proof (intro conjI allI impI)
  fix "is" s' i j
  assume a: "put_run call args is (put_start w k d) = Some s' \<and> in_call (ps_pc s' i) \<and> in_call (ps_pc s' j)"
  have "\<forall>j. in_call (ps_pc s' j) \<longleftrightarrow> ps_mtx s' = Some j"
    by (rule put_run_exclusive [OF allI [OF put_start_exclusive] conjunct1 [OF a]])
  then have "ps_mtx s' = Some i" "ps_mtx s' = Some j" using a by metis+
  then show "i = j" by (metis option.inject)
next
  obtain r1 w1 where c1: "call w (fst (args 1)) (snd (args 1)) = (r1, w1)" by (rule prod.exhaust)
  obtain r2 w2 where c2: "call w1 (fst (args 1)) (snd (args 1)) = (r2, w2)" by (rule prod.exhaust)
  obtain s' where s': "put_run call args race (put_start w k d) = Some s'" "ps_store s' = w2 \<and> ps_pc s' 0 = Put_return r1 \<and> ps_pc s' 1 = Put_return r2"
    using race_run [where call = call and args = args, OF c1 c2, of k d] by blast
  show "\<exists>is s'. put_run call args is (put_start w k d) = Some s' \<and>
      (let (r1, w1) = call w (fst (args 1)) (snd (args 1)); (r2, w2) = call w1 (fst (args 1)) (snd (args 1)) in
        ps_store s' = w2 \<and> ps_pc s' 0 = Put_return r1 \<and> ps_pc s' 1 = Put_return r2)"
    by (intro exI [of _ race] exI [of _ s'] conjI s'(1)) (simp only: c1 c2 Let_def prod.case s'(2))
qed

theorem lmdb_put_race_witness:
  "\<exists>is s'. put_run (\<lambda>w k d. (True, k # w)) (\<lambda>i. if i = 0 then (demo_key, demo_data) else (demo_tree_key, demo_data)) is
      (put_start [] demo_key demo_data) = Some s' \<and> ps_store s' = [demo_tree_key, demo_tree_key] \<and> ps_pc s' 0 = Put_return True"
  using conjunct2 [OF lmdb_put_race [of "\<lambda>w k d. (True, k # w)" "\<lambda>i. if i = 0 then (demo_key, demo_data) else (demo_tree_key, demo_data)"
    "[]" demo_key demo_data]] by (simp add: Let_def) blast

lemma demo_open: "\<exists>n' ldb'. LevelDB_open_shards (demo_kv True) (n, c, f) ldb is = (True, (n', c, f), ldb')"
  by (induction "is" arbitrary: n ldb) (simp_all add: demo_kv_def)




text \<open>
  C20: The stores over LevelDB and RocksDB on any library whatsoever, one that fails or loses data included: once open has succeeded on a new store, no sequence of calls reaches outside the vector of databases, every call returns, and the 16 databases stay the ones that were opened, in their order.
\<close>

theorem store_never_stuck:
  assumes "db_open sdb (s, ldb) name = (True, s0, ldb0)" "ldb_dbs ldb = []" "sdb \<in> {LevelDB_StateDB lib, RocksDB_StateDB lib}"
  shows "length (ldb_dbs ldb0) = 16 \<and> (\<exists>rs s1 ldb1. db_run sdb cmds (s0, ldb0) = Some (rs, s1, ldb1) \<and> length rs = length cmds \<and>
    map sd_db (ldb_dbs ldb1) = map sd_db (ldb_dbs ldb0))"
proof -
  have sdb: "sdb = LevelDB_StateDB lib" using assms(3) by (auto simp: RocksDB_StateDB_eq)
  have "LevelDB_open lib s ldb name = (True, s0, ldb0)" using assms(1) by (simp add: sdb LevelDB_StateDB_def)
  then have l: "length (ldb_dbs ldb0) = 16" using assms(2) by (auto simp: LevelDB_open_def dest: level_wf_open_shards)
  then have "level_wf (map sd_db (ldb_dbs ldb0)) (s0, ldb0)" by (simp add: level_wf_def)
  from level_wf_run [OF this, where lib = lib and cs = cmds] show ?thesis using l unfolding sdb level_wf_def by auto
qed

theorem store_never_stuck_witness:
  "\<exists>s0 ldb0 rs s1 ldb1. db_open (LevelDB_StateDB (demo_kv True)) ((0, \<lambda>_. Map.empty, 1), demo_level) ''db'' = (True, s0, ldb0) \<and>
    db_run (LevelDB_StateDB (demo_kv True)) [PutBatch ''a'' ''1'', Apply, Apply, Get ''a''] (s0, ldb0) = Some (rs, s1, ldb1) \<and> length rs = 4"
proof -
  obtain n c ldb0 where o: "db_open (LevelDB_StateDB (demo_kv True)) ((0, \<lambda>_. Map.empty, 1), demo_level) ''db'' = (True, (n, c, 1), ldb0)"
    unfolding LevelDB_StateDB_def LevelDB_open_def using demo_open [where n = 0 and c = "\<lambda>_. Map.empty" and f = 1] by simp blast
  have e: "ldb_dbs demo_level = []" by (simp add: demo_level_def)
  have m: "LevelDB_StateDB (demo_kv True) \<in> {LevelDB_StateDB (demo_kv True), RocksDB_StateDB (demo_kv True)}" by simp
  obtain rs s1 ldb1 where r: "db_run (LevelDB_StateDB (demo_kv True)) [PutBatch ''a'' ''1'', Apply, Apply, Get ''a''] ((n, c, 1), ldb0) = Some (rs, s1, ldb1)"
    "length rs = length [PutBatch ''a'' ''1'', Apply, Apply, Get ''a'']"
    using store_never_stuck [OF o e m, where cmds = "[PutBatch ''a'' ''1'', Apply, Apply, Get ''a'']"] by (elim conjE exE) blast
  have "length rs = 4" unfolding r(2) by simp
  then show ?thesis using o r(1) by blast
qed





text \<open>
  C22: What the command line of the benchmark sets, for every combination of options: the number of keys is always 0, and the option for it sets the length of the values instead, over what the option for the length has set. Without the option for threads there is one thread less than the system has cores.
\<close>

theorem options_parsed:
  assumes "handle_arguments vm cores = Parsed opts"
  shows "o_keys opts = 0 \<and> o_stringLength opts = (case vm ''keys'' of Some n \<Rightarrow> n | None \<Rightarrow> 10000) \<and>
    o_threads opts = (case vm ''threads'' of Some n \<Rightarrow> of_int n | None \<Rightarrow> if cores = 0 then 1 else cores - 1) \<and>
    o_readWeight opts + o_writeWeight opts = 100"
  using assms by (auto simp: handle_arguments_def Let_def split: if_splits option.splits)

theorem options_parsed_witness:
  "\<exists>opts. handle_arguments [''db'' \<mapsto> 3, ''keys'' \<mapsto> 500, ''len'' \<mapsto> 20] 1 = Parsed opts \<and> o_keys opts = 0 \<and> o_stringLength opts = 500 \<and>
    o_threads opts = 0"
proof -
  obtain opts where "handle_arguments [''db'' \<mapsto> 3, ''keys'' \<mapsto> 500, ''len'' \<mapsto> 20] 1 = Parsed opts" by (simp add: handle_arguments_def Let_def)
  then show ?thesis using options_parsed [of "[''db'' \<mapsto> 3, ''keys'' \<mapsto> 500, ''len'' \<mapsto> 20]" 1 opts] by simp
qed

definition demo_redis :: "(string \<rightharpoonup> string) redis_lib" where
  "demo_redis = \<lparr>redis_connect = \<lambda>_. Map.empty, redis_get = \<lambda>m k. m k, redis_set = \<lambda>m k v. (True, m(k \<mapsto> v)),
     redis_del = \<lambda>m k. (if m k = None then 0 else 1, m(k := None)), redis_flushall = \<lambda>_. Map.empty\<rparr>"

lemma demo_redis_ok: "redis_ok demo_redis (\<lambda>m. m)"
  by (simp add: redis_ok_def demo_redis_def)

text \<open>
  C23: The integrity test of the benchmark passes all of its 13 conditions on the stores over LevelDB, RocksDB and Redis, whatever is in them before, when their libraries keep their promises and no call fails.
\<close>

theorem integrity_passes:
  assumes "kv_ok lib cont hs ops" "kv_reliable lib" "ldb_dbs ldb = []" "redis_ok rlib rcont"
  shows "(\<exists>cs st'. integrity_test (LevelDB_StateDB lib) pth (s, ldb) = Some (Inr (cs, st')) \<and> length cs = 13 \<and> list_all fst cs) \<and>
    (\<exists>cs st'. integrity_test (RocksDB_StateDB lib) pth (s, ldb) = Some (Inr (cs, st')) \<and> length cs = 13 \<and> list_all fst cs) \<and>
    (\<exists>cs st'. integrity_test (RedisDB_StateDB rlib) pth rst = Some (Inr (cs, st')) \<and> length cs = 13 \<and> list_all fst cs)"
  using level.integrity [of lib cont hs ops "(s, ldb)" pth] rocks.integrity [of lib cont hs ops "(s, ldb)" pth]
    redis.integrity [of rlib rcont rst pth] assms by (simp add: level_closed_def redis_closed_def)

theorem integrity_passes_witness:
  "\<exists>cs st'. integrity_test (RedisDB_StateDB demo_redis) ''db'' \<lparr>rds_isOpen = False, rds_redis = Redis_null\<rparr> = Some (Inr (cs, st')) \<and>
    length cs = 13 \<and> list_all fst cs"
  using integrity_passes [OF demo_kv_ok demo_kv_reliable, of demo_level demo_redis "\<lambda>m. m" "''db''"] demo_redis_ok
  by (simp add: demo_level_def)

text \<open>
  C24: treeSize adds the sizes of all files below a directory in an int: the result is the true size when that is below 2 GB, and the true size wrapped around to 32 bits in general, negative from 2 GB to 4 GB.
\<close>

theorem tree_size_int:
  "treeSize (Fs_dir es) = as_int (int (total_sizes es)) \<and>
    (total_sizes es < 2 ^ 31 \<longrightarrow> treeSize (Fs_dir es) = int (total_sizes es)) \<and>
    (2 ^ 31 \<le> total_sizes es \<and> total_sizes es < 2 ^ 32 \<longrightarrow> treeSize (Fs_dir es) = int (total_sizes es) - 2 ^ 32)"
proof -
  have t: "treeSize (Fs_dir es) = as_int (int (total_sizes es))" using treeSize_eq(1) [of "Fs_dir es"] by simp
  have "as_int (int (total_sizes es)) = int (total_sizes es) - 2 ^ 32" if "2 ^ 31 \<le> total_sizes es" "total_sizes es < 2 ^ 32"
    using sint_large [OF that] by (simp add: as_int_def)
  then show ?thesis using t as_int_id [of "int (total_sizes es)"] by simp
qed

theorem tree_size_int_witness:
  "treeSize (Fs_dir [(''a'', Fs_file 5), (''b'', Fs_dir [(''c'', Fs_file 7), (''d'', Fs_other)])]) = 12 \<and>
    treeSize (Fs_dir [(''a'', Fs_file 3000000000)]) = - 1294967296"
  using tree_size_int [of "[(''a'', Fs_file 5), (''b'', Fs_dir [(''c'', Fs_file 7), (''d'', Fs_other)])]"]
    tree_size_int [of "[(''a'', Fs_file 3000000000)]"] by simp

text \<open>
  C25: The two meta pages \<^verbatim>\<open>mdb_env_init_meta\<close> writes to a new file are valid for \<^verbatim>\<open>mdb_env_read_header\<close>, which finds the second one where the first one says its page size ends and returns exactly the record that was written, in both snapshot orders.
\<close>

theorem new_file_header_read_back:
  assumes "PAGEHDRSZ + META_SIZE \<le> me_psize (w_env w)" "me_psize (w_env w) < 2 ^ 32"
    and "mdb_env_init_meta w (mdb_env_init_meta0 (w_env w)) = (0, w')"
    and "w_io w' (w_ios w') \<le> 0" "w_io w' (w_ios w' + 1) \<le> 0"
  shows "\<exists>w''. mdb_env_read_header w' prev any = Some (0, mdb_env_init_meta0 (w_env w), w'')"
  using assms by (rule init_then_read)

theorem new_file_header_read_back_witness:
  "\<exists>w' w''. mdb_env_init_meta demo_file_world (mdb_env_init_meta0 (w_env demo_file_world)) = (0, w') \<and>
    mdb_env_read_header w' False (mdb_env_init_meta0 demo_env) = Some (0, mdb_env_init_meta0 (w_env demo_file_world), w'')"
proof -
  obtain w' where w': "mdb_env_init_meta demo_file_world (mdb_env_init_meta0 (w_env demo_file_world)) = (0, w')"
    "w_io w' = (\<lambda>_. 0)"
    by (simp add: mdb_env_init_meta_def demo_file_world_def demo_world_def tick_def syscall_def Let_def)
  have "\<exists>w''. mdb_env_read_header w' False (mdb_env_init_meta0 demo_env) = Some (0, mdb_env_init_meta0 (w_env demo_file_world), w'')"
    by (rule new_file_header_read_back [OF _ _ w'(1)]) (simp_all add: w'(2), simp_all add: demo_file_world_def demo_world_def)
  then show ?thesis using w'(1) by blast
qed

text \<open>
  C26: \<^verbatim>\<open>mdb_node_search\<close> on a leaf page whose keys ascend in the default order returns the number of smaller keys as the index and reports an exact match exactly when the key is on the page; it reads no byte outside it.
\<close>

theorem node_search_position:
  assumes "page_rep m p psz True u L" "IS_BRANCH m p = Some False"
    and "val_bytes m key = Some kb" "length kb < 2 ^ 32"
    and "\<forall>bs \<in> set (map snd L). keys_in bs" "sorted_wrt (<) (map (node_key \<circ> snd) L)"
  shows "\<exists>i. node_search_page m p Cmp_memn pad key = Some (i, kb \<in> set (map (node_key \<circ> snd) L), length L) \<and>
    i = length (filter (\<lambda>k. k < kb) (map (node_key \<circ> snd) L))"
  using assms by (rule node_search_page_leaf)

theorem node_search_position_witness:
  "\<exists>i. node_search_page demo_mem (Ptr Map 0) Cmp_memn 0 demo_key =
      Some (i, [99, 100] \<in> set (map (node_key \<circ> snd) demo_nodes), length demo_nodes) \<and>
    i = length (filter (\<lambda>k. k < [99, 100]) (map (node_key \<circ> snd) demo_nodes))"
  by (rule node_search_position [OF demo_rep])
    (simp_all add: demo_simps page_is_def mp_flags_def ldn_def padd_def keys_in_def)




definition demo_tail :: copy_sys where
  "demo_tail = (copy_do demo_copy (\<lambda>my. my\<lparr>mc_olen := (\<lambda>_. 2 ^ 31), mc_new := 1\<rparr>))\<lparr>cs_wr := W_Write NULL 0, cs_owner := Some Writer\<rparr>"

text \<open>
  C28: The length of an overflow page behind a buffer is an int: when it is 2 GB or more, below 4 GB, the writer thread of a compacting copy takes it for negative, gives the buffer back without writing any of it, and reports no error.
\<close>

theorem large_tail_dropped:
  assumes "cs_wr s = W_Write p 0" "mc_olen (cs_my s) (cs_wt s) = of_nat n" "2 ^ 31 \<le> n" "n < 2 ^ 32"
  shows "\<exists>s1 s2. mdb_env_copythr s = Some s1 \<and> mdb_env_copythr s1 = Some s2 \<and> cs_wr s2 = W_While \<and> cs_wt s2 = (\<not> cs_wt s) \<and>
    mc_out (cs_my s2) = mc_out (cs_my s) \<and> mc_error (cs_my s2) = mc_error (cs_my s) \<and> mc_olen (cs_my s2) (cs_wt s) = 0"
proof -
  have "unat (mc_olen (cs_my s) (cs_wt s)) = n" using assms(2,4) by (simp add: unat_of_nat)
  then have nz: "mc_olen (cs_my s) (cs_wt s) \<noteq> 0" using assms(3) by auto
  have "sint (of_nat n :: u32) = int n - 2 ^ 32" using assms(3,4) by (rule sint_large)
  then have "olen (cs_my s) (cs_wt s) = 0" using assms(2,4) by simp
  then show ?thesis using assms(1) nz
    by (simp add: mdb_env_copythr_def copythr_write_def write_over_def Let_def)
qed

theorem large_tail_dropped_witness:
  "\<exists>s1 s2. mdb_env_copythr demo_tail = Some s1 \<and> mdb_env_copythr s1 = Some s2 \<and> mc_out (cs_my s2) = mc_out (cs_my demo_tail) \<and>
    mc_error (cs_my s2) = 0"
proof -
  have "cs_wr demo_tail = W_Write NULL 0" "mc_olen (cs_my demo_tail) (cs_wt demo_tail) = of_nat (2 ^ 31 :: nat)" "mc_error (cs_my demo_tail) = 0"
    by (simp_all add: demo_tail_def demo_copy_def copy_init_def Let_def)
  then show ?thesis using large_tail_dropped [of demo_tail NULL "2 ^ 31"] by auto
qed

text \<open>
  C29: Putting the pages of a freed overflow page back into the list of free pages (\<^verbatim>\<open>mdb_ovpage_free\<close>) keeps the list strictly descending and adds exactly those page numbers.
\<close>

theorem ovpage_pages_returned:
  assumes "idl_wf mop" "unat (hd mop) + k < length mop" "unat (hd mop) + k < 2 ^ 32" "0 < k"
    and "sorted_wrt (>) (idl_elems mop)" "unat pg + k \<le> 2 ^ 64" "\<forall>q < k. pg + of_nat q \<notin> set (idl_elems mop)"
  shows "\<exists>ys. pghead_insert mop pg k = Some ys \<and> idl_wf ys \<and> length ys = length mop \<and> sorted_wrt (>) (idl_elems ys) \<and>
    set (idl_elems ys) = set (idl_elems mop) \<union> (\<lambda>q. pg + of_nat q) ` {..<k}"
  using assms by (rule pghead_insert_sorted)

theorem ovpage_pages_returned_witness:
  "\<exists>ys. pghead_insert [3, 9, 5, 2, 0, 0] 6 2 = Some ys \<and> idl_wf ys \<and> length ys = length [3, 9, 5, 2, 0, 0 :: u64] \<and>
    sorted_wrt (>) (idl_elems ys) \<and> set (idl_elems ys) = set (idl_elems [3, 9, 5, 2, 0, 0]) \<union> (\<lambda>q. 6 + of_nat q) ` {..<2}"
  by (rule ovpage_pages_returned) (auto simp: idl_wf_def idl_elems_def less_2_cases_iff)



text \<open>
  C31: \<^verbatim>\<open>mdb_page_copy\<close>, which skips the unused middle of a page, makes a page of the same nodes at the same offsets, writes only the target buffer and leaves the source page as it was.
\<close>

theorem page_copy_same_nodes:
  assumes "page_rep m src psz leaf u L" "valid m dst psz" "p_blk dst \<noteq> p_blk src"
  shows "\<exists>m'. mdb_page_copy m dst src psz = Some m' \<and> upd_only dst psz m m' \<and> page_rep m' dst psz leaf u L \<and>
    page_rep m' src psz leaf u L"
  using assms by (rule mdb_page_copy_rep)

theorem page_copy_same_nodes_witness:
  "\<exists>m'. mdb_page_copy (demo_mem(Heap 1 \<mapsto> replicate 64 0)) (Ptr (Heap 1) 0) (Ptr Map 0) 64 = Some m' \<and>
    upd_only (Ptr (Heap 1) 0) 64 (demo_mem(Heap 1 \<mapsto> replicate 64 0)) m' \<and> page_rep m' (Ptr (Heap 1) 0) 64 True 48 demo_nodes \<and>
    page_rep m' (Ptr Map 0) 64 True 48 demo_nodes"
proof (rule page_copy_same_nodes)
  show "page_rep (demo_mem(Heap 1 \<mapsto> replicate 64 0)) (Ptr Map 0) 64 True 48 demo_nodes"
    by (rule page_rep_transport [OF demo_rep]) (simp_all add: demo_simps padd_def)
qed (simp_all add: valid_def)

text \<open>
  C32: \<^verbatim>\<open>mdb_mid2l_insert\<close> of a new ID keeps the dirty list strictly ascending and updates its finite map at exactly that ID; the count grows by one.
\<close>

theorem mid2l_insert_updates:
  assumes "id2_wf ids" "id2_map ids (mid e) = None" "unat (mid (hd ids)) < MDB_IDL_UM_MAX"
    and "unat (mid (hd ids)) + 1 < length ids"
  shows "\<exists>ys. mdb_mid2l_insert ids e = Some (0, ys) \<and> id2_wf ys \<and> length ys = length ids \<and>
    unat (mid (hd ys)) = unat (mid (hd ids)) + 1 \<and> id2_map ys = (id2_map ids)(mid e \<mapsto> mptr e)"
  using assms by (rule mdb_mid2l_insert_new)

theorem mid2l_insert_updates_witness:
  "\<exists>ys. mdb_mid2l_insert demo_id2 \<lparr>mid = 3, mptr = 30\<rparr> = Some (0, ys) \<and> id2_wf ys \<and> length ys = length demo_id2 \<and>
    unat (mid (hd ys)) = unat (mid (hd demo_id2)) + 1 \<and>
    id2_map ys = (id2_map demo_id2)(mid \<lparr>mid = 3, mptr = 30 :: nat\<rparr> \<mapsto> mptr \<lparr>mid = 3, mptr = 30 :: nat\<rparr>)"
  by (rule mid2l_insert_updates) (simp_all add: demo_id2_def id2_wf_def id2_entries_def id2_map_def)

text \<open>
  C33: \<^verbatim>\<open>mdb_mid2l_search\<close> is lookup in the finite map of the dirty list: the entry at the slot it returns is the page of the ID exactly when the ID is there.
\<close>

theorem mid2l_search_looks_up:
  assumes "id2_wf ids"
  shows "\<exists>r. mdb_mid2l_search ids x = Some r \<and> 1 \<le> r \<and>
    id2_map ids x = (if r \<le> unat (mid (hd ids)) \<and> mid (ids ! r) = x then Some (mptr (ids ! r)) else None)"
  using assms by (rule mdb_mid2l_search_spec)

theorem mid2l_search_looks_up_witness:
  "\<exists>r. mdb_mid2l_search demo_id2 5 = Some r \<and> 1 \<le> r \<and>
    id2_map demo_id2 5 = (if r \<le> unat (mid (hd demo_id2)) \<and> mid (demo_id2 ! r) = 5 then Some (mptr (demo_id2 ! r)) else None)"
  by (rule mid2l_search_looks_up) (simp add: demo_id2_def id2_wf_def id2_entries_def)



text \<open>
  C35: \<^verbatim>\<open>mdb_midl_xmerge\<close> merges a descending list into a descending list in place: the result is descending and holds both with multiplicity; the loop never reads below the guard slot 0.
\<close>

theorem midl_xmerge_merges:
  assumes "idl_wf merge" "idl_wf idl" "desc (idl_elems merge)" "desc (idl_elems idl)"
    and "unat (hd idl) + unat (hd merge) < length idl" "length idl < 2 ^ 64"
  shows "\<exists>idl'. mdb_midl_xmerge idl merge = Some idl' \<and> idl_wf idl' \<and> desc (idl_elems idl') \<and>
    mset (idl_elems idl') = mset (idl_elems idl) + mset (idl_elems merge) \<and> length idl' = length idl"
  using assms by (rule mdb_midl_xmerge_spec)

theorem midl_xmerge_merges_witness:
  "\<exists>idl'. mdb_midl_xmerge [2, 9, 3, 0, 0] [2, 7, 3] = Some idl' \<and> idl_wf idl' \<and> desc (idl_elems idl') \<and>
    mset (idl_elems idl') = mset (idl_elems [2, 9, 3, 0, 0]) + mset (idl_elems [2, 7, 3]) \<and> length idl' = length [2, 9, 3, 0, 0 :: u64]"
  by (rule midl_xmerge_merges) (simp_all add: idl_wf_def idl_elems_def desc_def)



text \<open>
  C37: \<^verbatim>\<open>mdb_pid_insert\<close> keeps the list of process ids a strictly ascending set: an id already there is reported with -1 and changes nothing, a new id is put in its place and the count grows by one.
\<close>

theorem pid_insert_sorted_set:
  assumes "pid_wf ids" "hd ids + 1 < length ids"
  shows "if pid \<in> set (pid_elems ids) then mdb_pid_insert ids pid = Some (-1, ids)
    else \<exists>ids'. mdb_pid_insert ids pid = Some (0, ids') \<and> pid_wf ids' \<and> length ids' = length ids \<and> hd ids' = hd ids + 1 \<and>
      (\<exists>k. pid_elems ids' = take k (pid_elems ids) @ pid # drop k (pid_elems ids))"
  using assms by (rule mdb_pid_insert_spec)

theorem pid_insert_sorted_set_witness:
  "if 5 \<in> set (pid_elems [2, 3, 7, 0, 0]) then mdb_pid_insert [2, 3, 7, 0, 0] 5 = Some (-1, [2, 3, 7, 0, 0])
    else \<exists>ids'. mdb_pid_insert [2, 3, 7, 0, 0] 5 = Some (0, ids') \<and> pid_wf ids' \<and> length ids' = length [2, 3, 7, 0, 0 :: nat] \<and>
      hd ids' = hd [2, 3, 7, 0, 0] + 1 \<and>
      (\<exists>k. pid_elems ids' = take k (pid_elems [2, 3, 7, 0, 0]) @ 5 # drop k (pid_elems [2, 3, 7, 0, 0]))"
  by (rule pid_insert_sorted_set) (simp_all add: pid_wf_def pid_elems_def)

text \<open>
  C38: The search of \<^verbatim>\<open>mdb_page_alloc\<close> in the list of free pages finds a run of the requested number of consecutive pages if the strictly descending list has one, and otherwise says so; the index and page it returns are such a run.
\<close>

theorem seek_range_complete:
  assumes "strict_desc mop n" "n < length mop" "n < 2 ^ 32" "n2 < n"
  shows "(\<exists>j pgno. seek_range mop n2 n = Some (Some (j, pgno)) \<and> n2 < j \<and> j \<le> n \<and> run_at mop n2 j pgno) \<or>
    seek_range mop n2 n = Some None \<and> (\<forall>j pgno. n2 < j \<longrightarrow> j \<le> n \<longrightarrow> \<not> run_at mop n2 j pgno)"
  using seek_range_spec [OF assms(1-4) order_refl] by simp

theorem seek_range_complete_witness:
  "(\<exists>j pgno. seek_range [4, 9, 8, 7, 3] 2 4 = Some (Some (j, pgno)) \<and> 2 < j \<and> j \<le> 4 \<and> run_at [4, 9, 8, 7, 3] 2 j pgno) \<or>
    seek_range [4, 9, 8, 7, 3] 2 4 = Some None \<and> (\<forall>j pgno. 2 < j \<longrightarrow> j \<le> 4 \<longrightarrow> \<not> run_at [4, 9, 8, 7, 3] 2 j pgno)"
  by (rule seek_range_complete) (simp_all add: strict_desc_sorted)

text \<open>
  C39: The default key comparison \<^verbatim>\<open>mdb_cmp_memn\<close> decides the lexicographic order of the byte strings: its sign is that of the comparison, for keys shorter than 2^32 bytes.
\<close>

theorem cmp_memn_lexicographic:
  assumes "length a < 2 ^ 32" "length b < 2 ^ 32"
  shows "\<exists>c. mdb_cmp_memn a b = Some c \<and> (c < 0 \<longleftrightarrow> a < b) \<and> (c = 0 \<longleftrightarrow> a = b) \<and> (c > 0 \<longleftrightarrow> a > b)"
proof -
  obtain c where "mdb_cmp_memn a b = Some c" "sgn c = CMP a b" using memn.cmp_key [of a b] assms by auto
  then show ?thesis by (cases a b rule: linorder_cases) (auto simp: CMP_def sgn_if split: if_splits)
qed

theorem cmp_memn_lexicographic_witness:
  "\<exists>c. mdb_cmp_memn [1, 2] [1, 3] = Some c \<and> (c < 0 \<longleftrightarrow> [1, 2] < [1, 3 :: u8]) \<and> (c = 0 \<longleftrightarrow> [1, 2] = [1, 3 :: u8]) \<and>
    (c > 0 \<longleftrightarrow> [1, 2] > [1, 3 :: u8])"
  by (rule cmp_memn_lexicographic) simp_all



section \<open>Further facts\<close>

text \<open>
  \<^verbatim>\<open>mdb_strerror\<close> answers every code of \<^verbatim>\<open>LMDB\<close>'s own range from its table, the success code with its fixed text, and every other code as the C library does.
\<close>

theorem strerror_total:
  "mdb_strerror se 0 = ''Successful return: 0'' \<and>
   (MDB_KEYEXIST \<le> err \<and> err \<le> MDB_LAST_ERRCODE \<longrightarrow> mdb_strerror se err \<in> set mdb_errstr) \<and>
   (err \<noteq> 0 \<and> (err < MDB_KEYEXIST \<or> MDB_LAST_ERRCODE < err) \<longrightarrow> mdb_strerror se err = se err)"
  using mdb_strerror_in_table [of err se] by (auto simp: mdb_strerror_def)

theorem strerror_total_witness:
  "mdb_strerror (\<lambda>_. ''?'') MDB_NOTFOUND \<in> set mdb_errstr \<and> mdb_strerror (\<lambda>_. ''?'') 5 = ''?''"
  using strerror_total [of "\<lambda>_. ''?''" MDB_NOTFOUND] strerror_total [of "\<lambda>_. ''?''" 5] by simp

text \<open>
  \<^verbatim>\<open>NODEDSZ\<close> reads back every data size below 2^32 that \<^verbatim>\<open>SETDSZ\<close> stored as two shorts.
\<close>

theorem node_dsz_roundtrip:
  assumes "valid m n 8" "sz < 2 ^ 32"
  shows "\<exists>m'. SETDSZ m n sz = Some m' \<and> upd_only n 4 m m' \<and> NODEDSZ m' n = Some sz"
  using assms by (rule SETDSZ_spec)

theorem node_dsz_roundtrip_witness:
  "\<exists>m'. SETDSZ demo_mem (Ptr Map 48) 70000 = Some m' \<and> upd_only (Ptr Map 48) 4 demo_mem m' \<and> NODEDSZ m' (Ptr Map 48) = Some 70000"
  by (rule node_dsz_roundtrip) (simp_all add: demo_simps)

text \<open>
  \<^verbatim>\<open>mdb_cursor_push\<close> appends a page with index 0 to the path of a cursor whose stack has room, and \<^verbatim>\<open>mdb_cursor_pop\<close> takes it off again; the stack stays well formed.
\<close>

theorem cursor_push_pop:
  assumes "w_cursors w c = Some r" "stack_wf r" "mc_snum r < CURSOR_STACK"
  shows "\<exists>r1 r2. mdb_cursor_push w c mp = Some (MDB_SUCCESS, put_cur w c r1) \<and> stack_wf r1 \<and> path r1 = path r @ [(mp, 0)] \<and>
    mdb_cursor_pop (put_cur w c r1) c = Some (put_cur (put_cur w c r1) c r2) \<and> stack_wf r2 \<and> path r2 = path r"
proof -
  obtain r1 where r1: "mdb_cursor_push w c mp = Some (MDB_SUCCESS, put_cur w c r1)" "stack_wf r1" "path r1 = path r @ [(mp, 0)]"
    using cursor_push_spec [OF assms] by blast
  then show ?thesis using cursor_pop_spec [of "put_cur w c r1" c r1] by (auto simp: put_cur_def)
qed

theorem cursor_push_pop_witness:
  "\<exists>r1 r2. mdb_cursor_push demo_world 0 NULL = Some (MDB_SUCCESS, put_cur demo_world 0 r1) \<and> stack_wf r1 \<and>
    path r1 = path blank_cursor @ [(NULL, 0)] \<and>
    mdb_cursor_pop (put_cur demo_world 0 r1) 0 = Some (put_cur (put_cur demo_world 0 r1) 0 r2) \<and> stack_wf r2 \<and>
    path r2 = path blank_cursor"
  by (rule cursor_push_pop) (simp_all add: demo_world_def blank_cursor_def stack_wf_def)

text \<open>
  \<^verbatim>\<open>mdb_midl_need\<close> reports \<^verbatim>\<open>ENOMEM\<close> and leaves the list alone, or gives a block with room for the requested number of IDs and the same elements.
\<close>

theorem midl_need_room:
  assumes "block_wf b" "allocator_ok h"
    and "unat (hd (idl_words b)) + num + (unat (hd (idl_words b)) + num) div 4 + 258 < 2 ^ 32"
  shows "mdb_midl_need h b num = Some (ENOMEM, b) \<or>
    (\<exists>b'. mdb_midl_need h b num = Some (0, b') \<and> block_wf b' \<and> elems b' = elems b \<and>
       unat (hd (idl_words b)) + num \<le> unat (idl_alloc b'))"
  using assms by (rule mdb_midl_need_spec)

theorem midl_need_room_witness:
  "mdb_midl_need demo_alloc demo_idl 9 = Some (ENOMEM, demo_idl) \<or>
    (\<exists>b'. mdb_midl_need demo_alloc demo_idl 9 = Some (0, b') \<and> block_wf b' \<and> elems b' = elems demo_idl \<and>
       unat (hd (idl_words demo_idl)) + 9 \<le> unat (idl_alloc b'))"
  by (rule midl_need_room) (simp_all add: demo_alloc_ok demo_idl_wf, simp add: demo_idl_def)

text \<open>
  \<^verbatim>\<open>mdb_mid2l_insert\<close> of an ID already in the list returns -1 and leaves the list as it was.
\<close>

theorem mid2l_insert_duplicate:
  assumes "id2_wf ids" "id2_map ids (mid e) \<noteq> None"
  shows "mdb_mid2l_insert ids e = Some (-1, ids)"
  using assms by (rule mdb_mid2l_insert_dup)

theorem mid2l_insert_duplicate_witness:
  "mdb_mid2l_insert demo_id2 \<lparr>mid = 5, mptr = 30\<rparr> = Some (-1, demo_id2)"
  by (rule mid2l_insert_duplicate) (simp_all add: demo_id2_def id2_wf_def id2_entries_def id2_map_def)

text \<open>
  \<^verbatim>\<open>NODEPGNO\<close> reads back the low 48 bits of the page number that \<^verbatim>\<open>SETPGNO\<close> stored in a branch node, and \<^verbatim>\<open>SETPGNO\<close> touches only the six bytes it shares with the data size and flags.
\<close>

theorem node_pgno_roundtrip:
  assumes "valid m n 8"
  shows "\<exists>m'. SETPGNO m n pgno = Some m' \<and> upd_only n 6 m m' \<and> NODEPGNO m' n = Some (take_bit 48 pgno)"
  using assms by (rule SETPGNO_spec)

theorem node_pgno_roundtrip_witness:
  "\<exists>m'. SETPGNO demo_mem (Ptr Map 48) 77 = Some m' \<and> upd_only (Ptr Map 48) 6 demo_mem m' \<and>
    NODEPGNO m' (Ptr Map 48) = Some (take_bit 48 77)"
  by (rule node_pgno_roundtrip) (simp add: demo_simps)

text \<open>
  The purge in \<^verbatim>\<open>mdb_page_spill\<close> keeps exactly the spill-list entries whose lowest bit is clear, in order, and returns their number.
\<close>

theorem spill_purge_keeps_live:
  assumes "n < length sl"
  shows "\<exists>ys k. purge_spill sl n 1 0 = Some (ys, k) \<and> length ys = length sl \<and> k \<le> n \<and>
    take (Suc k) ys = hd sl # filter (\<lambda>x. x AND 1 = 0) (take n (tl sl))"
proof -
  obtain c t where sl: "sl = c # t" using assms by (cases sl) auto
  have "length (filter (\<lambda>x. x AND 1 = 0) (take n t)) \<le> n"
    by (rule order_trans [OF length_filter_le]) simp
  then show ?thesis using purge_spill_spec [of 1 n sl 0] assms by (auto simp: sl seg_def)
qed

theorem spill_purge_keeps_live_witness:
  "\<exists>ys k. purge_spill [3, 8, 7, 4] 3 1 0 = Some (ys, k) \<and> length ys = length [3, 8, 7, 4 :: u64] \<and> k \<le> 3 \<and>
    take (Suc k) ys = hd [3, 8, 7, 4] # filter (\<lambda>x. x AND 1 = 0) (take 3 (tl [3, 8, 7, 4]))"
  by (rule spill_purge_keeps_live) simp

text \<open>
  The comparison of \<^verbatim>\<open>MDB_REVERSEKEY\<close> databases, \<^verbatim>\<open>mdb_cmp_memnr\<close>, decides the lexicographic order of the reversed byte strings, and never reads outside either key.
\<close>

theorem cmp_memnr_reverse:
  "\<exists>c. mdb_cmp_memnr a b = Some c \<and> (c < 0 \<longleftrightarrow> rev a < rev b) \<and> (c = 0 \<longleftrightarrow> a = b) \<and> (c > 0 \<longleftrightarrow> rev a > rev b)"
proof -
  obtain c where "mdb_cmp_memnr a b = Some c" "sgn c = CMP (rev a) (rev b)" using memnr.cmp_key [of a b] by auto
  then show ?thesis by (cases "rev a" "rev b" rule: linorder_cases) (auto simp: CMP_def sgn_if split: if_splits)
qed

text \<open>
  \<^verbatim>\<open>mdb_midl_append_list\<close> never writes past the allocation: it reports \<^verbatim>\<open>ENOMEM\<close> or grows the block so that the appended IDs fit, and then the list is the concatenation.
\<close>

theorem midl_append_list_appends:
  assumes "block_wf b" "allocator_ok h" "idl_wf app" "unat (idl_alloc b) + unat (hd app) < 2 ^ 60"
  shows "mdb_midl_append_list h b app = Some (ENOMEM, b) \<or>
    (\<exists>b'. mdb_midl_append_list h b app = Some (0, b') \<and> block_wf b' \<and> elems b' = elems b @ idl_elems app)"
  using assms by (rule mdb_midl_append_list_spec)

theorem midl_append_list_appends_witness:
  "mdb_midl_append_list demo_alloc demo_idl [1, 4] = Some (ENOMEM, demo_idl) \<or>
    (\<exists>b'. mdb_midl_append_list demo_alloc demo_idl [1, 4] = Some (0, b') \<and> block_wf b' \<and>
       elems b' = elems demo_idl @ idl_elems [1, 4])"
  by (rule midl_append_list_appends) (simp_all add: demo_alloc_ok demo_idl_wf idl_wf_def, simp add: demo_idl_def)

text \<open>
  Pushing onto a full cursor stack returns \<^verbatim>\<open>MDB_CURSOR_FULL\<close>, marks the transaction as failed and changes nothing else: the stack arrays are never written past their 32 entries.
\<close>

theorem cursor_push_overflow:
  assumes "w_cursors w c = Some r" "mc_snum r = CURSOR_STACK" "w_txns w (mc_txn r) = Some x"
  shows "mdb_cursor_push w c mp = Some (MDB_CURSOR_FULL,
    w\<lparr>w_txns := (w_txns w)(mc_txn r \<mapsto> x\<lparr>mt_flags := mt_flags x OR MDB_TXN_ERROR\<rparr>)\<rparr>)"
  using assms by (rule cursor_push_full)

theorem cursor_push_overflow_witness:
  "mdb_cursor_push (put_cur demo_world 0 (blank_cursor\<lparr>mc_snum := 32\<rparr>)) 0 NULL = Some (MDB_CURSOR_FULL,
    (put_cur demo_world 0 (blank_cursor\<lparr>mc_snum := 32\<rparr>))\<lparr>w_txns := (w_txns (put_cur demo_world 0 (blank_cursor\<lparr>mc_snum := 32\<rparr>)))
      (mc_txn (blank_cursor\<lparr>mc_snum := 32\<rparr>) \<mapsto> demo_txn\<lparr>mt_flags := mt_flags demo_txn OR MDB_TXN_ERROR\<rparr>)\<rparr>)"
  by (rule cursor_push_overflow) (simp_all add: put_cur_def demo_world_def blank_cursor_def)

text \<open>
  \<^verbatim>\<open>mdb_find_oldest\<close> returns the smallest transaction identifier among the live readers and the predecessor of the write transaction: no live reader has an older snapshot, so pages freed before it may be reused.
\<close>

theorem find_oldest_minimum:
  assumes "w_txns w t = Some x" "me_txns (w_env w) = Some ti" "mti_numreaders ti \<le> length (mti_readers ti)"
  shows "mdb_find_oldest w t =
    Some (Min (insert (mt_txnid x - 1) (reader_ids (mti_readers ti) (mti_numreaders ti))))"
  using assms oldest_loop_spec [OF assms(3)] by (simp add: mdb_find_oldest_def)

theorem find_oldest_minimum_witness:
  "mdb_find_oldest demo_world 0 = Some (Min (insert (mt_txnid demo_txn - 1) (reader_ids (mti_readers demo_readers) 2)))"
  using find_oldest_minimum [of demo_world 0 demo_txn demo_readers]
  by (simp add: demo_world_def demo_env_def demo_readers_def)

text \<open>
  \<^verbatim>\<open>mdb_cmp_cint\<close>, the comparison of integer keys in unaligned node storage, compares two keys of the same even length as little-endian numbers.
\<close>

theorem cmp_cint_numeric:
  assumes "length a = 2 * Suc n" "length b = 2 * Suc n"
  shows "\<exists>c. mdb_cmp_cint a b = Some c \<and> (c < 0 \<longleftrightarrow> le_val a < le_val b) \<and> (c > 0 \<longleftrightarrow> le_val a > le_val b)"
proof -
  obtain c where "mdb_cmp_cint a b = Some c" "sgn c = CMP (le_val a) (le_val b)"
    using cint.cmp_key [of a n b] assms by auto
  then show ?thesis by (cases "le_val a" "le_val b" rule: linorder_cases) (auto simp: CMP_def sgn_if split: if_splits)
qed

theorem cmp_cint_numeric_witness:
  "\<exists>c. mdb_cmp_cint [1, 2] [1, 3] = Some c \<and> (c < 0 \<longleftrightarrow> le_val [1, 2] < le_val [1, 3]) \<and> (c > 0 \<longleftrightarrow> le_val [1, 2] > le_val [1, 3])"
  by (rule cmp_cint_numeric [of _ 0]) simp_all

text \<open>
  \<^verbatim>\<open>mdb_midl_append_range\<close> either reports \<^verbatim>\<open>ENOMEM\<close> and leaves the list alone or appends the n consecutive IDs in descending order, growing the allocation first when they do not fit; the allocation stays well formed.
\<close>

theorem midl_append_range_appends:
  assumes "block_wf b" "allocator_ok h" "unat (idl_alloc b) + unat (n OR 131071) < 2 ^ 60"
  shows "mdb_midl_append_range h b x n = Some (ENOMEM, b) \<or>
    (\<exists>b'. mdb_midl_append_range h b x n = Some (0, b') \<and> block_wf b' \<and>
       elems b' = elems b @ rev (map (\<lambda>k. x + of_nat k) [0..<unat n]))"
  using assms by (rule mdb_midl_append_range_spec)

theorem midl_append_range_appends_witness:
  "mdb_midl_append_range demo_alloc demo_idl 7 2 = Some (ENOMEM, demo_idl) \<or>
    (\<exists>b'. mdb_midl_append_range demo_alloc demo_idl 7 2 = Some (0, b') \<and> block_wf b' \<and>
       elems b' = elems demo_idl @ rev (map (\<lambda>k. 7 + of_nat k) [0..<unat (2 :: u32)]))"
  by (rule midl_append_range_appends) (simp_all add: demo_alloc_ok demo_idl_wf, simp add: demo_idl_def)

end
